(* ===== verification/Secrets.thy ===== *)
theory Secrets
  imports Prelude
begin

text \<open>
  \<open>src/secrets.rs\<close>: the set of secret forms, the multi-pattern matcher every printed
  string is checked with, and the checks themselves.

  The ordered set of forms (\<open>BTreeSet<String>\<close>) is a sorted list without duplicates. A
  matcher is a list of trie nodes, as in the code. Its two loops that follow failure links
  carry fuel, the number of nodes, and answer \<open>None\<close> when it runs out; that this never
  happens is part of the correctness proof in \<open>SecretsCorrect\<close>.
  \<open>url::form_urlencoded::byte_serialize\<close> is third-party code: the parameter \<open>enc\<close>.
\<close>

definition withheld :: str where
  "withheld = ''[withheld]''"

section \<open>The matcher\<close>

record node =
  next_of :: "(char \<times> nat) list"
  fail_of :: nat
  end_of :: bool

definition default_node :: node where
  "default_node = \<lparr>next_of = [], fail_of = 0, end_of = False\<rparr>"

text \<open>
  \<open>binary_search_by_key\<close> on the sorted children: \<open>Ok\<close> the position of the byte, or
  \<open>Err\<close> the slot that keeps the list sorted.
\<close>

fun search_from :: "nat \<Rightarrow> char \<Rightarrow> (char \<times> nat) list \<Rightarrow> nat + nat" where
  "search_from i b [] = Err i"
| "search_from i b ((k, v) # xs) =
     (if k = b then Ok i
      else if code b < code k then Err i
      else search_from (Suc i) b xs)"

definition binary_search :: "char \<Rightarrow> (char \<times> nat) list \<Rightarrow> nat + nat" where
  "binary_search b xs = search_from 0 b xs"

definition insert_at :: "nat \<Rightarrow> 'a \<Rightarrow> 'a list \<Rightarrow> 'a list" where
  "insert_at i x xs = take i xs @ x # drop i xs"

definition child :: "node list \<Rightarrow> nat \<Rightarrow> char \<Rightarrow> nat option" where
  "child nodes at b =
     (case binary_search b (next_of (nodes ! at)) of
        Inr found \<Rightarrow> Some (snd (next_of (nodes ! at) ! found))
      | Inl _ \<Rightarrow> None)"

text \<open>One byte of a pattern: down to its child, which is created when it is missing.\<close>

definition insert_byte :: "node list \<times> nat \<Rightarrow> char \<Rightarrow> node list \<times> nat" where
  "insert_byte st b = (case st of (nodes, at) \<Rightarrow>
     (case binary_search b (next_of (nodes ! at)) of
        Inr found \<Rightarrow> (nodes, snd (next_of (nodes ! at) ! found))
      | Inl slot \<Rightarrow>
          (let grown = nodes @ [default_node];
               c = length grown - 1;
               parent = grown ! at
           in (grown[at := parent\<lparr>next_of := insert_at slot (b, c) (next_of parent)\<rparr>], c))))"

definition insert_pattern :: "node list \<Rightarrow> str \<Rightarrow> node list" where
  "insert_pattern nodes p =
     (case foldl insert_byte (nodes, 0) p of
        (nodes', at) \<Rightarrow> nodes'[at := (nodes' ! at)\<lparr>end_of := True\<rparr>])"

definition build_trie :: "str list \<Rightarrow> node list" where
  "build_trie ps = foldl insert_pattern [default_node] ps"

text \<open>
  The loop both passes share: from \<open>at\<close>, follow failure links until a node has a child
  for the byte; the root when none has.
\<close>

fun follow :: "nat \<Rightarrow> node list \<Rightarrow> nat \<Rightarrow> char \<Rightarrow> nat option" where
  "follow 0 nodes at b = None"
| "follow (Suc fuel) nodes at b =
     (case child nodes at b of
        Some target \<Rightarrow> Some target
      | None \<Rightarrow> if at = 0 then Some 0 else follow fuel nodes (fail_of (nodes ! at)) b)"

text \<open>The failure links of the children of one node.\<close>

fun link_children :: "node list \<Rightarrow> nat \<Rightarrow> (char \<times> nat) list \<Rightarrow> node list option" where
  "link_children nodes at [] = Some nodes"
| "link_children nodes at ((b, c) # cs) =
     (case (if at = 0 then Some 0
            else follow (Suc (length nodes)) nodes (fail_of (nodes ! at)) b) of
        None \<Rightarrow> None
      | Some l \<Rightarrow>
          link_children
            (nodes[c := (nodes ! c)\<lparr>fail_of := l, end_of := end_of (nodes ! c) \<or> end_of (nodes ! l)\<rparr>])
            at cs)"

text \<open>The breadth-first pass: a node's failure link is set before its children's.\<close>

fun link_all :: "nat \<Rightarrow> node list \<Rightarrow> nat list \<Rightarrow> node list option" where
  "link_all fuel nodes [] = Some nodes"
| "link_all 0 nodes (at # queue) = None"
| "link_all (Suc fuel) nodes (at # queue) =
     (case link_children nodes at (next_of (nodes ! at)) of
        None \<Rightarrow> None
      | Some nodes' \<Rightarrow> link_all fuel nodes' (queue @ map snd (next_of (nodes ! at))))"

definition matcher_new :: "str list \<Rightarrow> node list option" where
  "matcher_new ps = (let nodes = build_trie ps in link_all (length nodes) nodes [0])"

fun find_from :: "node list \<Rightarrow> nat \<Rightarrow> str \<Rightarrow> bool option" where
  "find_from nodes at [] = Some False"
| "find_from nodes at (b # bs) =
     (case follow (Suc (length nodes)) nodes at b of
        None \<Rightarrow> None
      | Some at' \<Rightarrow> if end_of (nodes ! at') then Some True else find_from nodes at' bs)"

definition matcher_find :: "node list \<Rightarrow> str \<Rightarrow> bool option" where
  "matcher_find nodes s = (if end_of (nodes ! 0) then Some True else find_from nodes 0 s)"

section \<open>The secret set\<close>

type_synonym secret_set = "str list"

fun str_less :: "str \<Rightarrow> str \<Rightarrow> bool" where
  "str_less [] [] = False"
| "str_less [] (_ # _) = True"
| "str_less (_ # _) [] = False"
| "str_less (a # as) (b # bs) = (code a < code b \<or> a = b \<and> str_less as bs)"

text \<open>\<open>BTreeSet::insert\<close>.\<close>

fun push :: "str \<Rightarrow> secret_set \<Rightarrow> secret_set" where
  "push f [] = [f]"
| "push f (g # gs) = (if f = g then g # gs else if str_less f g then f # g # gs else g # push f gs)"

fun contains :: "str \<Rightarrow> str \<Rightarrow> bool" where
  "contains [] p = (p = [])"
| "contains (c # s) p = (starts_with (c # s) p \<or> contains s p)"

text \<open>\<open>Forms::found_in\<close>: the exact or the case-folded matcher of the current forms.\<close>

definition found_in :: "secret_set \<Rightarrow> str \<Rightarrow> bool \<Rightarrow> bool" where
  "found_in forms s folded =
     (case matcher_new (if folded then map ascii_lower forms else forms) of
        None \<Rightarrow> False
      | Some m \<Rightarrow> (case matcher_find m s of None \<Rightarrow> False | Some hit \<Rightarrow> hit))"

definition taints :: "secret_set \<Rightarrow> str \<Rightarrow> bool" where
  "taints forms s =
     (found_in forms s False \<or> 4 \<le> length s \<and> list_ex (\<lambda>form. contains form s) forms)"

definition carried_by :: "secret_set \<Rightarrow> str \<Rightarrow> bool" where
  "carried_by forms s = found_in forms s False"

definition appears_in_ignoring_case :: "secret_set \<Rightarrow> str \<Rightarrow> bool" where
  "appears_in_ignoring_case forms s = found_in forms (ascii_lower s) True"

definition scrub :: "secret_set \<Rightarrow> str \<Rightarrow> str" where
  "scrub forms s = (if taints forms s then withheld else s)"

section \<open>Base64 and registering a secret\<close>

definition standard_alphabet :: str where
  "standard_alphabet = ''ABCDEFGHIJKLMNOPQRSTUVWXYZabcdefghijklmnopqrstuvwxyz0123456789+/''"

definition url_safe_alphabet :: str where
  "url_safe_alphabet = ''ABCDEFGHIJKLMNOPQRSTUVWXYZabcdefghijklmnopqrstuvwxyz0123456789-_''"

text \<open>One chunk of up to three bytes: \<open>chunk.len() + 1\<close> symbols of six bits.\<close>

definition base64_chunk :: "str \<Rightarrow> str \<Rightarrow> str" where
  "base64_chunk alphabet chunk =
     (let b = (\<lambda>i. if i < length chunk then code (chunk ! i) else 0);
          n = b 0 * 2 ^ 16 + b 1 * 2 ^ 8 + b 2
      in map (\<lambda>index. alphabet ! (n div 2 ^ (18 - 6 * index) mod 64)) [0..<length chunk + 1])"

fun base64 :: "str \<Rightarrow> str \<Rightarrow> str" where
  "base64 alphabet [] = []"
| "base64 alphabet [a] = base64_chunk alphabet [a]"
| "base64 alphabet [a, b] = base64_chunk alphabet [a, b]"
| "base64 alphabet (a # b # c # rest) = base64_chunk alphabet [a, b, c] @ base64 alphabet rest"

definition secret_forms :: "(str \<Rightarrow> str) \<Rightarrow> str \<Rightarrow> str list" where
  "secret_forms enc candidate =
     [candidate, enc candidate, base64 standard_alphabet candidate, base64 url_safe_alphabet candidate]"

definition add_secret :: "(str \<Rightarrow> str) \<Rightarrow> str \<Rightarrow> secret_set \<Rightarrow> secret_set" where
  "add_secret enc value forms =
     foldl (\<lambda>fs candidate. if candidate = [] then fs
                           else foldl (\<lambda>gs f. push f gs) fs (secret_forms enc candidate))
       forms [value, js_trim value]"

text \<open>\<open>add_basic_credentials\<close>: the HTTP Basic pair, raw and form-encoded.\<close>

definition basic_pairs :: "(str \<Rightarrow> str) \<Rightarrow> str \<Rightarrow> str \<Rightarrow> str list" where
  "basic_pairs enc cid secret = [cid @ '':'' @ secret, enc cid @ '':'' @ enc secret]"

definition add_basic_credentials :: "(str \<Rightarrow> str) \<Rightarrow> str \<Rightarrow> str \<Rightarrow> secret_set \<Rightarrow> secret_set" where
  "add_basic_credentials enc client_id client_secret forms =
     foldl (\<lambda>fs (cid, secret). if secret = [] then fs
        else foldl (\<lambda>gs pair. foldl (\<lambda>hs f. push f hs) gs
                 [base64 standard_alphabet pair, base64 url_safe_alphabet pair, pair])
             fs (basic_pairs enc cid secret))
       forms [(client_id, client_secret), (js_trim client_id, js_trim client_secret)]"

section \<open>Basic facts\<close>

lemma set_push [simp]: "set (push f fs) = insert f (set fs)"
  by (induction fs) auto

lemma set_push_fold: "set (foldl (\<lambda>gs f. push f gs) fs xs) = set fs \<union> set xs"
  by (induction xs arbitrary: fs) auto

lemma contains_iff: "contains s p \<longleftrightarrow> (\<exists>u v. s = u @ p @ v)"
proof (induction s)
  case (Cons c s)
  have start: "starts_with (c # s) p \<longleftrightarrow> (\<exists>v. c # s = p @ v)"
    unfolding starts_with_def by (metis append_eq_conv_conj append_take_drop_id)
  show ?case
  proof
    assume "contains (c # s) p"
    then consider "starts_with (c # s) p" | "contains s p" by auto
    then show "\<exists>u v. c # s = u @ p @ v"
    proof cases
      case 1
      with start obtain v where "c # s = [] @ p @ v" by auto
      then show ?thesis by blast
    next
      case 2
      with Cons obtain u v where "c # s = (c # u) @ p @ v" by auto
      then show ?thesis by blast
    qed
  next
    assume "\<exists>u v. c # s = u @ p @ v"
    then obtain u v where uv: "c # s = u @ p @ v" by blast
    show "contains (c # s) p"
    proof (cases u)
      case Nil
      with uv start have "starts_with (c # s) p" by auto
      then show ?thesis by simp
    next
      case (Cons x u')
      with uv \<open>contains s p \<longleftrightarrow> (\<exists>u v. s = u @ p @ v)\<close> show ?thesis by auto
    qed
  qed
qed simp

lemma matcher_new_Nil [simp]: "matcher_new [] = Some [default_node]"
  by (simp add: matcher_new_def build_trie_def default_node_def)

lemma find_from_default: "find_from [default_node] 0 s = Some False"
  by (induction s) (simp_all add: child_def binary_search_def default_node_def)

lemma taints_Nil [simp]: "\<not> taints [] s"
  by (simp add: taints_def found_in_def matcher_find_def find_from_default)
     (simp add: default_node_def)

lemma scrub_Nil [simp]: "scrub [] s = s"
  by (simp add: scrub_def)

end
