(* ===== verification/CliError.thy ===== *)
theory CliError
  imports Secrets
begin

text \<open>
  \<open>src/error.rs\<close> (and \<open>paint\<close> of \<open>src/render/style.rs\<close>): the failures of an
  invocation, their exit codes and stderr bytes, and the mapping from the facts of an SDK
  error to a failure. The SDK's error kinds and remote outcomes are its documented enums;
  everything the CLI derives from them is modelled.
\<close>

section \<open>Styles\<close>

datatype style = Bold | Dim | Red | Green | Yellow | Cyan | Blue | Magenta | White

definition esc :: str where "esc = bytes [27]"

fun style_codes :: "style \<Rightarrow> str \<times> str" where
  "style_codes Bold = (esc @ ''[1m'', esc @ ''[22m'')"
| "style_codes Dim = (esc @ ''[2m'', esc @ ''[22m'')"
| "style_codes Red = (esc @ ''[31m'', esc @ ''[39m'')"
| "style_codes Green = (esc @ ''[32m'', esc @ ''[39m'')"
| "style_codes Yellow = (esc @ ''[33m'', esc @ ''[39m'')"
| "style_codes Cyan = (esc @ ''[36m'', esc @ ''[39m'')"
| "style_codes Blue = (esc @ ''[34m'', esc @ ''[39m'')"
| "style_codes Magenta = (esc @ ''[35m'', esc @ ''[39m'')"
| "style_codes White = (esc @ ''[37m'', esc @ ''[39m'')"

definition newline :: char where "newline = char_of (10 :: nat)"
definition cr :: char where "cr = char_of (13 :: nat)"

text \<open>The style is closed before every line break and reopened after it.\<close>

fun paint_lines :: "str \<Rightarrow> str \<Rightarrow> str list \<Rightarrow> str" where
  "paint_lines op cl [] = []"
| "paint_lines op cl [rest] = rest"
| "paint_lines op cl (line # l # ls) =
     (case strip_suffix [cr] line of
        Some stripped \<Rightarrow> stripped @ cl @ [cr, newline] @ op @ paint_lines op cl (l # ls)
      | None \<Rightarrow> line @ cl @ [newline] @ op @ paint_lines op cl (l # ls))"

definition paint :: "style \<Rightarrow> str \<Rightarrow> bool \<Rightarrow> str" where
  "paint st s enabled =
     (if \<not> enabled \<or> s = [] then s
      else (case style_codes st of (op, cl) \<Rightarrow> op @ paint_lines op cl (split_on newline s) @ cl))"

lemma paint_off [simp]: "paint st s False = s"
  by (simp add: paint_def)

section \<open>Failures\<close>

record failure =
  message_of :: str
  status_of :: "nat option"
  details_of :: "str list"

datatype interrupt_context =
    NoDataWritten
  | ScanNotSubmitted
  | ScanOutcomeUnknown
  | OutputIncomplete
  | NoConfigurationChanged
  | ChangeSaved
  | NothingChanged
  | ChangeMayBeApplied
  | ProfileUpdatedTopicKept
  | ProfileUpdatedTopicUnknown
  | EvalStopped nat nat
  | CleanupStopped nat nat nat nat
  | Bulk str
  | NoFileWritten
  | Context str

datatype cli_error =
    Usage str
  | Operational failure
  | Interrupted interrupt_context
  | Reported int

definition exit_ok :: int where "exit_ok = 0"
definition exit_operational :: int where "exit_operational = 1"
definition exit_usage :: int where "exit_usage = 2"
definition exit_sigint :: int where "exit_sigint = 130"
definition exit_sigterm :: int where "exit_sigterm = 143"

definition operational :: "str \<Rightarrow> cli_error" where
  "operational m = Operational \<lparr>message_of = m, status_of = None, details_of = []\<rparr>"

fun context_text :: "interrupt_context \<Rightarrow> str" where
  "context_text NoDataWritten = ''no data was written''"
| "context_text ScanNotSubmitted = ''no scan was submitted''"
| "context_text ScanOutcomeUnknown =
     ''the scan request may already have reached AIRS (outcome unknown)''"
| "context_text OutputIncomplete = ''the output was not completely written''"
| "context_text NoFileWritten = ''no file was written''"
| "context_text NoConfigurationChanged = ''no configuration was changed''"
| "context_text ChangeSaved = ''the change was saved''"
| "context_text NothingChanged = ''nothing was changed''"
| "context_text ChangeMayBeApplied =
     ''the change may already have been applied (outcome unknown)''"
| "context_text ProfileUpdatedTopicKept =
     ''the profile was updated; the topic was not deleted''"
| "context_text ProfileUpdatedTopicUnknown =
     ''the profile was updated; the topic may already have been deleted (outcome unknown)''"
| "context_text (Bulk s) = s"
| "context_text (Context s) = s"
| "context_text (EvalStopped sent all_of) =
     dec sent @ '' of '' @ dec all_of @ '' scans were sent; no metrics were computed''"
| "context_text (CleanupStopped deleted failed unknown not_attempted) =
     dec deleted @ '' deleted''
     @ (if 0 < failed then '', '' @ dec failed @ '' failed'' else [])
     @ (if 0 < unknown then '', '' @ dec unknown @ '' outcome unknown'' else [])
     @ '', '' @ dec not_attempted @ '' not attempted''"

fun exit_code :: "cli_error \<Rightarrow> int option \<Rightarrow> int" where
  "exit_code (Usage _) signal_code = exit_usage"
| "exit_code (Operational _) signal_code = exit_operational"
| "exit_code (Interrupted _) signal_code =
     (case signal_code of Some c \<Rightarrow> c | None \<Rightarrow> exit_sigint)"
| "exit_code (Reported c) signal_code = c"

definition debug_hint_line :: str where
  "debug_hint_line = ''    Re-run with --debug to capture redacted API diagnostics.''"

text \<open>The glyph U+2717 in UTF-8.\<close>

definition cross_mark :: str where "cross_mark = bytes [226, 156, 151]"

text \<open>The em dash U+2014.\<close>

definition em_dash :: str where "em_dash = bytes [226, 128, 148]"

definition nl :: str where "nl = [newline]"

fun render_styled :: "cli_error \<Rightarrow> bool \<Rightarrow> bool \<Rightarrow> str" where
  "render_styled (Usage m) color debug_hint =
     paint Red (nl @ ''  '' @ cross_mark @ '' '' @ terminal_safe m @ nl) color @ nl"
| "render_styled (Operational f) color debug_hint =
     paint Red (nl @ ''  '' @ cross_mark @ '' Error: '' @ terminal_safe (message_of f)) color @ nl
     @ (case status_of f of
          None \<Rightarrow> []
        | Some st \<Rightarrow> paint Red (''    HTTP '' @ dec st) color @ nl
            @ (if debug_hint then paint Dim debug_hint_line color @ nl else []))
     @ concat (map (\<lambda>line. paint Red (''    '' @ terminal_safe line) color @ nl) (details_of f))
     @ nl"
| "render_styled (Interrupted c) color debug_hint =
     paint Red (nl @ ''  '' @ cross_mark @ '' Error: Interrupted; '' @ context_text c) color @ nl @ nl"
| "render_styled (Reported _) color debug_hint = []"

definition render :: "cli_error \<Rightarrow> str" where
  "render e = render_styled e False True"

section \<open>Facts of an SDK error\<close>

datatype error_kind =
    KConfiguration | KValidation | KDestination | KAuthentication | KIo | KTransport | KHttp
  | KDecode | KLimit | KDeadline | KCancelled | KProtocol | KPagination | KOther

datatype remote_outcome = NotSentOutcome | RejectedOutcome | UnknownOutcome | OtherOutcome

record problem_details =
  p_title :: "str option"
  p_detail :: "str option"
  p_errors :: "(str \<times> str) list"

record error_facts =
  kind_of :: error_kind
  http_of :: "nat option"
  error_type :: "str option"
  problem :: "problem_details option"
  service_code :: "str option"
  request_id :: "str option"
  outcome_of :: remote_outcome

datatype plane = Management | Scanner
datatype phase = Token | Api
datatype operation = Read | ScanSubmit | Write

record sdk_context =
  ctx_plane :: plane
  ctx_phase :: phase
  ctx_operation :: operation
  ctx_timeout :: nat \<comment> \<open>whole seconds of the budget\<close>
  ctx_secrets :: secret_set

definition http_status :: "error_facts \<Rightarrow> nat option" where
  "http_status f = (case kind_of f of
      KHttp \<Rightarrow> http_of f
    | KLimit \<Rightarrow> (case http_of f of Some s \<Rightarrow> if 400 \<le> s then Some s else None | None \<Rightarrow> None)
    | _ \<Rightarrow> None)"

fun kind_name :: "error_kind \<Rightarrow> str" where
  "kind_name KConfiguration = ''Configuration''"
| "kind_name KValidation = ''Validation''"
| "kind_name KDestination = ''Destination''"
| "kind_name KAuthentication = ''Authentication''"
| "kind_name KIo = ''Io''"
| "kind_name KTransport = ''Transport''"
| "kind_name KHttp = ''Http''"
| "kind_name KDecode = ''Decode''"
| "kind_name KLimit = ''Limit''"
| "kind_name KDeadline = ''Deadline''"
| "kind_name KCancelled = ''Cancelled''"
| "kind_name KProtocol = ''Protocol''"
| "kind_name KPagination = ''Pagination''"
| "kind_name KOther = ''Unknown''"

definition oauth_schema :: str where
  "oauth_schema = ''AISEC_OAUTH_ERROR:Token response did not match the OAuth schema''"

text \<open>The title and the detail, a text already among the parts after the first left out.\<close>

fun add_texts :: "str list \<Rightarrow> str list \<Rightarrow> str list" where
  "add_texts parts [] = parts"
| "add_texts parts (s # ss) =
     add_texts (if s \<in> set (tl parts) then parts else parts @ [s]) ss"

definition api_error_message :: "error_facts \<Rightarrow> nat \<Rightarrow> secret_set \<Rightarrow> str" where
  "api_error_message f status secrets =
     (let etype = (if 500 \<le> status then ''AISEC_SERVER_SIDE_ERROR'' else ''AISEC_CLIENT_SIDE_ERROR'');
          first = [''API error '' @ dec status];
          parts = (case problem f of
              None \<Rightarrow> first
            | Some p \<Rightarrow>
                add_texts first (concat [case p_title p of Some t \<Rightarrow> [t] | None \<Rightarrow> [],
                                         case p_detail p of Some t \<Rightarrow> [t] | None \<Rightarrow> []])
                @ map (\<lambda>(prop, reason). prop @ '': '' @ reason) (p_errors p))
      in etype @ '':'' @ join ''; '' parts
         @ (case service_code f of
              Some c \<Rightarrow> if taints secrets c then [] else '' (errorCode: '' @ c @ '')''
            | None \<Rightarrow> []))"

definition interrupt_of :: "error_facts \<Rightarrow> operation \<Rightarrow> interrupt_context" where
  "interrupt_of f op = (case op of
      Read \<Rightarrow> NoDataWritten
    | ScanSubmit \<Rightarrow> if outcome_of f = NotSentOutcome then ScanNotSubmitted else ScanOutcomeUnknown
    | Write \<Rightarrow> if outcome_of f = NotSentOutcome then NothingChanged else ChangeMayBeApplied)"

text \<open>The message and status line of an error without an HTTP status.\<close>

definition local_message :: "error_facts \<Rightarrow> sdk_context \<Rightarrow> str \<times> nat option" where
  "local_message f c =
     (let management = (ctx_plane c = Management) in
      case kind_of f of
        KAuthentication \<Rightarrow>
          (case http_of f of
             Some s \<Rightarrow> (''AISEC_OAUTH_ERROR:Token request failed with status '' @ dec s, Some s)
           | None \<Rightarrow> (oauth_schema, None))
      | KDecode \<Rightarrow>
          if management \<and> ctx_phase c = Token then (oauth_schema, None)
          else (''AISEC_RESPONSE_VALIDATION:Response did not match the expected schema'', None)
      | KTransport \<Rightarrow>
          if management \<and> ctx_phase c = Token
          then (''AISEC_OAUTH_ERROR:Token request failed: network error'', None)
          else (''AISEC_CLIENT_SIDE_ERROR:Network request failed (connection refused, reset or unreachable)'', None)
      | KIo \<Rightarrow>
          if management \<and> ctx_phase c = Token
          then (''AISEC_OAUTH_ERROR:Token request failed: network error'', None)
          else (''AISEC_CLIENT_SIDE_ERROR:Network request failed (connection refused, reset or unreachable)'', None)
      | KDeadline \<Rightarrow> (''AISEC_SDK_ERROR:Request timed out after '' @ dec (ctx_timeout c) @ ''s'', None)
      | KLimit \<Rightarrow>
          if ctx_operation c = ScanSubmit \<and> http_of f = None \<and> outcome_of f = NotSentOutcome
          then (''AISEC_USER_REQUEST_PAYLOAD_ERROR:Request exceeded a client safety limit'', None)
          else (''AISEC_SDK_ERROR:Response exceeded a client safety limit'', None)
      | KPagination \<Rightarrow>
          (''AISEC_SDK_ERROR:Pagination stopped: the service returned a repeated cursor or an empty intermediate page'', None)
      | k \<Rightarrow>
          if k = KDestination \<and> (case http_of f of Some s \<Rightarrow> 300 \<le> s \<and> s < 400 | None \<Rightarrow> False)
          then (''AISEC_CLIENT_SIDE_ERROR:Redirect responses are not followed'', http_of f)
          else ((case error_type f of Some t \<Rightarrow> t | None \<Rightarrow> ''AISEC_SDK_ERROR'') @ '':'' @ kind_name k @ '' error'', None))"

definition outcome_unknown_line :: str where
  "outcome_unknown_line =
     ''Outcome unknown: the scan may have been received and processed by AIRS.''"

definition describe :: "error_facts \<Rightarrow> sdk_context \<Rightarrow> cli_error" where
  "describe f c =
     (if kind_of f = KCancelled then Interrupted (interrupt_of f (ctx_operation c))
      else
        let base = (case http_status f of
              Some s \<Rightarrow> \<lparr>message_of = api_error_message f s (ctx_secrets c),
                         status_of = Some s,
                         details_of = (case request_id f of
                             Some i \<Rightarrow> if taints (ctx_secrets c) i then [] else [''Request ID: '' @ i]
                           | None \<Rightarrow> [])\<rparr>
            | None \<Rightarrow> \<lparr>message_of = fst (local_message f c),
                       status_of = snd (local_message f c), details_of = []\<rparr>)
        in Operational
          (if ctx_operation c = ScanSubmit \<and> outcome_of f = UnknownOutcome
              \<and> \<not> (case http_of f of Some s \<Rightarrow> 400 \<le> s \<and> s < 500 | None \<Rightarrow> False)
           then base\<lparr>details_of := details_of base @ [outcome_unknown_line]\<rparr>
           else base))"

definition facts_message :: "error_facts \<Rightarrow> sdk_context \<Rightarrow> str" where
  "facts_message f c = (case describe f c of
      Operational fl \<Rightarrow> message_of fl
    | Interrupted i \<Rightarrow> ''Interrupted; '' @ context_text i
    | Usage m \<Rightarrow> m
    | Reported _ \<Rightarrow> [])"

section \<open>Facts\<close>

lemma describe_shape:
  "(\<exists>i. describe f c = Interrupted i) \<or> (\<exists>fl. describe f c = Operational fl)"
  by (simp add: describe_def Let_def)

lemma describe_interrupted_iff:
  "(\<exists>i. describe f c = Interrupted i) \<longleftrightarrow> kind_of f = KCancelled"
  by (simp add: describe_def Let_def)

end
