(* ===== verification/Clock.thy ===== *)
theory Clock
  imports Prelude
begin

text \<open>
  \<open>iso_timestamp\<close> and \<open>civil_from_days\<close> of \<open>src/debug.rs\<close>. A point in time is what
  \<open>SystemTime::duration_since(UNIX_EPOCH)\<close> gives: whole seconds and the milliseconds of
  the second (a time before the epoch reads as zero).
\<close>

record instant =
  secs :: nat
  subsec_millis :: nat

text \<open>Days since 1970-01-01 to the civil date (year, month, day).\<close>

definition civil_from_days :: "int \<Rightarrow> int \<times> nat \<times> nat" where
  "civil_from_days days =
     (let z = days + 719468;
          era = z div 146097;
          doe = z mod 146097;
          yoe = (doe - doe div 1460 + doe div 36524 - doe div 146096) div 365;
          doy = doe - (365 * yoe + yoe div 4 - yoe div 100);
          mp = (5 * doy + 2) div 153;
          day = doy - (153 * mp + 2) div 5 + 1;
          month = (if mp < 10 then mp + 3 else mp - 9);
          year = yoe + era * 400 + (if month \<le> 2 then 1 else 0)
      in (year, nat month, nat day))"

definition iso_timestamp :: "instant \<Rightarrow> str" where
  "iso_timestamp t =
     (let seconds = secs t;
          days = int (seconds div 86400);
          rest = seconds mod 86400
      in (case civil_from_days days of (year, month, day) \<Rightarrow>
           padded 4 (nat year) @ ''-'' @ padded 2 month @ ''-'' @ padded 2 day @ ''T''
           @ padded 2 (rest div 3600) @ '':'' @ padded 2 (rest mod 3600 div 60) @ '':''
           @ padded 2 (rest mod 60) @ ''.'' @ padded 3 (subsec_millis t) @ ''Z''))"

text \<open>The example of the source's test: second 1792000000 is 2026-10-14T17:46:40Z.\<close>

lemma civil_from_days_example: "civil_from_days 20740 = (2026, 10, 14)"
  unfolding civil_from_days_def Let_def by simp

lemma iso_timestamp_example:
  "iso_timestamp \<lparr>secs = 1792000000, subsec_millis = 7\<rparr> = ''2026-10-14T17:46:40.007Z''"
  unfolding iso_timestamp_def Let_def
  by (simp add: civil_from_days_example padded_def text_simps digit_char_def)

end
