(* ===== verification/BulkTypes.thy ===== *)
theory BulkTypes
  imports CliError Clock
begin

text \<open>
  \<open>src/bulk/mod.rs\<close>: the constants of a job, the item and attempt states, the shapes of
  ids and timestamps, and the index ranges the messages print. The checked state
  directory itself is in \<open>Checkpoint\<close>.
\<close>

definition max_prompts :: nat where "max_prompts = 10000"
definition chunk_size :: nat where "chunk_size = 20"
definition max_state_bytes :: nat where "max_state_bytes = 128 * 1024 * 1024"
definition max_batch_size :: nat where "max_batch_size = 2 ^ 53 - 1"
definition program :: str where "program = ''airs''"
definition state_suffix :: str where "state_suffix = ''.bulk-scan.json''"

datatype item_status = Pending | Submitting | Submitted | Complete | Failed | Ambiguous

fun status_name :: "item_status \<Rightarrow> str" where
  "status_name Pending = ''pending''"
| "status_name Submitting = ''submitting''"
| "status_name Submitted = ''submitted''"
| "status_name Complete = ''complete''"
| "status_name Failed = ''failed''"
| "status_name Ambiguous = ''ambiguous''"

datatype attempt_outcome = InFlight | Accepted | UnusableReceipt | Rejected | NotSent | Unknown

text \<open>\<open>bytes.iter().enumerate().all(...)\<close>: a check of every byte with its position.\<close>

fun all_indexed_from :: "nat \<Rightarrow> (nat \<Rightarrow> char \<Rightarrow> bool) \<Rightarrow> str \<Rightarrow> bool" where
  "all_indexed_from i P [] = True"
| "all_indexed_from i P (c # cs) = (P i c \<and> all_indexed_from (Suc i) P cs)"

definition is_scan_id :: "str \<Rightarrow> bool" where
  "is_scan_id value =
     (length value = 36
      \<and> all_indexed_from 0 (\<lambda>index byte.
          if index \<in> {8, 13, 18, 23} then byte = CHR ''-'' else is_ascii_hexdigit byte) value)"

definition is_job_id :: "str \<Rightarrow> bool" where
  "is_job_id value =
     (length value = 33
      \<and> all_indexed_from 0 (\<lambda>index byte.
          if index \<le> 7 \<or> 9 \<le> index \<and> index \<le> 14 then is_digit byte
          else if index = 8 then byte = CHR ''T''
          else if index = 15 then byte = CHR ''Z''
          else if index = 16 then byte = CHR ''-''
          else is_lower_hex byte) value)"

definition is_stamp :: "str \<Rightarrow> bool" where
  "is_stamp value =
     (length value = 24
      \<and> all_indexed_from 0 (\<lambda>index byte.
          if index \<in> {4, 7} then byte = CHR ''-''
          else if index = 10 then byte = CHR ''T''
          else if index \<in> {13, 16} then byte = CHR '':''
          else if index = 19 then byte = CHR ''.''
          else if index = 23 then byte = CHR ''Z''
          else is_digit byte) value)"

section \<open>Index ranges\<close>

text \<open>The inner loop: extend the run while the next index is its successor.\<close>

fun take_run :: "nat \<Rightarrow> nat list \<Rightarrow> nat \<times> nat list" where
  "take_run e [] = (e, [])"
| "take_run e (x # xs) = (if x = e + 1 then take_run x xs else (e, x # xs))"

lemma take_run_length: "take_run e xs = (e', rest) \<Longrightarrow> length rest \<le> length xs"
  by (induction e xs rule: take_run.induct) (auto split: if_splits)

function runs :: "nat list \<Rightarrow> (nat \<times> nat) list" where
  "runs [] = []"
| "runs (s # xs) = (case take_run s xs of (e, rest) \<Rightarrow> (s, e) # runs rest)"
  by pat_completeness auto
termination
  by (relation "measure length") (auto dest!: take_run_length [OF sym])

definition range_text :: "nat \<times> nat \<Rightarrow> str" where
  "range_text r = (case r of (s, e) \<Rightarrow> if s = e then dec s else dec s @ ''-'' @ dec e)"

definition sorted_indices :: "nat list \<Rightarrow> nat list" where
  "sorted_indices indices = remdups_adj (sort indices)"

definition ranges :: "nat list \<Rightarrow> str" where
  "ranges indices = join '', '' (map range_text (runs (sorted_indices indices)))"

section \<open>Job ids\<close>

definition hex_digit :: "nat \<Rightarrow> char" where
  "hex_digit d = (if d < 10 then char_of (48 + d) else char_of (87 + d))"

text \<open>\<open>random_hex\<close>: two lowercase hex digits for each of the eight random bytes.\<close>

definition random_hex :: "str \<Rightarrow> str" where
  "random_hex rnd = concat (map (\<lambda>b. [hex_digit (code b div 16), hex_digit (code b mod 16)]) (take 8 rnd))"

definition new_job_id :: "instant \<Rightarrow> str \<Rightarrow> str" where
  "new_job_id now rnd =
     filter (\<lambda>c. is_digit c \<or> c = CHR ''T'') (take 19 (iso_timestamp now)) @ ''Z-'' @ random_hex rnd"

section \<open>Facts\<close>

lemma is_scan_id_not_Nil [simp]: "\<not> is_scan_id []"
  by (simp add: is_scan_id_def)

lemma all_indexed_from_nth:
  "all_indexed_from i P s \<longleftrightarrow> (\<forall>k < length s. P (i + k) (s ! k))"
proof (induction s arbitrary: i)
  case (Cons c cs)
  show ?case
    by (auto simp: Cons nth_Cons less_Suc_eq_0_disj)
qed simp

lemma take_run_split:
  "take_run e xs = (e', rest) \<Longrightarrow> sorted (e # xs) \<Longrightarrow> distinct (e # xs) \<Longrightarrow>
     e \<le> e' \<and> insert e (set xs) = {e..e'} \<union> set rest \<and> sorted rest \<and> distinct rest
     \<and> (\<forall>x \<in> set rest. e' + 1 < x)"
proof (induction e xs rule: take_run.induct)
  case (2 e x xs)
  show ?case
  proof (cases "x = e + 1")
    case True
    with 2 have ih: "x \<le> e' \<and> insert x (set xs) = {x..e'} \<union> set rest \<and> sorted rest \<and> distinct rest
        \<and> (\<forall>y \<in> set rest. e' + 1 < y)"
      by simp
    moreover from ih True have "{e..e'} = insert e {x..e'}" by auto
    ultimately show ?thesis using True by auto
  next
    case False
    with 2 show ?thesis by fastforce
  qed
qed simp

lemma runs_cover:
  "sorted xs \<Longrightarrow> distinct xs \<Longrightarrow> (\<Union>(s, e) \<in> set (runs xs). {s..e}) = set xs"
proof (induction xs rule: runs.induct)
  case (2 s xs)
  obtain e rest where tr: "take_run s xs = (e, rest)" by force
  with take_run_split [OF tr] 2 show ?case by simp
qed simp

lemma runs_bounds:
  "sorted xs \<Longrightarrow> distinct xs \<Longrightarrow> (s, e) \<in> set (runs xs) \<Longrightarrow> s \<le> e \<and> {s, e} \<subseteq> set xs"
proof (induction xs rule: runs.induct)
  case (2 a xs)
  obtain e' rest where tr: "take_run a xs = (e', rest)" by force
  with take_run_split [OF tr] 2 show ?case
    by (force simp: tr)
qed simp

lemma runs_gaps:
  "sorted xs \<Longrightarrow> distinct xs \<Longrightarrow> sorted_wrt (\<lambda>(s, e) (s', e'). e + 1 < s') (runs xs)"
proof (induction xs rule: runs.induct)
  case (2 a xs)
  obtain e' rest where tr: "take_run a xs = (e', rest)" by force
  from take_run_split [OF tr] 2 have sp: "sorted rest" "distinct rest" "\<forall>x \<in> set rest. e' + 1 < x"
    by auto
  have "e' + 1 < s'" if "(s', e'') \<in> set (runs rest)" for s' e''
    using runs_bounds [OF sp(1,2) that] sp(3) by auto
  with 2 tr sp show ?case by auto
qed simp

lemma distinct_remdups_adj_sorted: "sorted xs \<Longrightarrow> distinct (remdups_adj xs)"
  for xs :: "nat list"
proof (induction xs rule: remdups_adj.induct)
  case (3 x y xs)
  then show ?case by (auto dest: order.antisym)
qed simp_all

lemma sorted_indices [simp]:
  "sorted (sorted_indices xs)" "distinct (sorted_indices xs)" "set (sorted_indices xs) = set xs"
  by (simp_all add: sorted_indices_def distinct_remdups_adj_sorted)

end
