(* ===== verification/KeyedStore.thy ===== *)
theory KeyedStore
  imports Prelude
begin

text \<open>
  The interface of the program's small keyed stores: a lookup and an update that answer
  for one key at a time. Two components provide it, the detector flags of a bulk result
  (\<open>BulkState\<close>) and the objects of a JSON value (\<open>Json\<close>); each interprets the locale on
  its own operations, and both use the facts proved here once.
\<close>

locale keyed_store =
  fixes lookup :: "'m \<Rightarrow> 'k \<Rightarrow> 'v option"
    and update :: "'m \<Rightarrow> 'k \<Rightarrow> 'v \<Rightarrow> 'm"
  assumes lookup_update_same: "lookup (update m k v) k = Some v"
    and lookup_update_other: "k' \<noteq> k \<Longrightarrow> lookup (update m k v) k' = lookup m k'"
begin

lemma lookup_update: "lookup (update m k v) = (lookup m)(k := Some v)"
  by (rule ext) (simp add: lookup_update_same lookup_update_other)

lemma update_twice: "lookup (update (update m k v) k w) = lookup (update m k w)"
  by (simp add: lookup_update)

lemma update_commute:
  "k \<noteq> k' \<Longrightarrow> lookup (update (update m k v) k' w) = lookup (update (update m k' w) k v)"
  by (simp add: lookup_update fun_upd_twist)

lemma dom_update: "dom (lookup (update m k v)) = insert k (dom (lookup m))"
  by (simp add: lookup_update)

text \<open>A list of updates: for each key the last one counts.\<close>

lemma lookup_fold_update:
  "lookup (foldl (\<lambda>m (k, v). update m k v) m kvs) k
     = (case map_of (rev kvs) k of None \<Rightarrow> lookup m k | Some v \<Rightarrow> Some v)"
proof (induction kvs arbitrary: m rule: rev_induct)
  case (snoc kv kvs)
  then show ?case by (cases kv) (simp add: lookup_update)
qed simp

end

end
