(* ===== verification/BulkState.thy ===== *)
theory BulkState
  imports BulkTypes KeyedStore
begin

text \<open>
  \<open>src/bulk/state.rs\<close>: the job state (schema records, the new job, the attempt journal)
  and the invariants checked on load and before every write. \<open>validate\<close> keeps the order
  of the code's checks and its reasons; \<open>valid_state\<close> states the same as one predicate.
\<close>

definition format_name :: str where "format_name = ''airs-cli-rs.bulk-scan''"
definition state_version :: nat where "state_version = 1"

datatype action = Allow | Block | ActionFailed

fun action_name :: "action \<Rightarrow> str" where
  "action_name Allow = ''allow''"
| "action_name Block = ''block''"
| "action_name ActionFailed = ''failed''"

section \<open>Detector flags\<close>

type_synonym detections = "(str \<times> bool) list"

definition det_get :: "detections \<Rightarrow> str \<Rightarrow> bool option" where
  "det_get d key = map_option snd (List.find (\<lambda>(name, _). name = key) d)"

fun det_set :: "detections \<Rightarrow> str \<Rightarrow> bool \<Rightarrow> detections" where
  "det_set [] key v = [(key, v)]"
| "det_set ((name, old) # d) key v =
     (if name = key then (name, v) # d else (name, old) # det_set d key v)"

section \<open>The schema\<close>

record item_result =
  r_action :: action
  r_category :: str
  r_triggered :: bool
  r_detections :: detections
  r_scan_id :: str
  r_report_id :: str
  r_error :: "str option"

record item =
  i_index :: nat
  i_req_id :: nat
  i_prompt :: str
  i_status :: item_status
  i_attempt :: "nat option"
  i_scan_id :: "str option"
  i_receipt :: "str option"
  i_result :: "item_result option"

record attempt =
  a_id :: nat
  a_indices :: "nat list"
  a_started :: str
  a_ended :: "str option"
  a_outcome :: attempt_outcome
  a_http :: "nat option"
  a_error :: "str option"
  a_scan_id :: "str option"

record next_output =
  n_dev :: str
  n_ino :: str
  n_temp :: str

record output_record =
  o_path :: str
  o_dev :: str
  o_ino :: str
  o_next :: "next_output option"

record job_state =
  j_format :: str
  j_version :: nat
  j_job_id :: str
  j_tenant :: str
  j_endpoint :: str
  j_profile :: str
  j_session :: str
  j_batch_size :: nat
  j_output :: output_record
  j_created :: str
  j_updated :: str
  j_sequence :: u64
  j_attempts :: "attempt list"
  j_items :: "item list"

record identity =
  id_dev :: nat
  id_ino :: nat

record new_job =
  nj_job_id :: str
  nj_tenant :: str
  nj_endpoint :: str
  nj_profile :: str
  nj_session :: str
  nj_batch_size :: nat
  nj_output_path :: str
  nj_output :: identity
  nj_prompts :: "str list"

definition new_item :: "nat \<Rightarrow> str \<Rightarrow> item" where
  "new_item index prompt =
     \<lparr>i_index = index, i_req_id = index, i_prompt = prompt, i_status = Pending,
      i_attempt = None, i_scan_id = None, i_receipt = None, i_result = None\<rparr>"

definition new_state :: "new_job \<Rightarrow> str \<Rightarrow> job_state" where
  "new_state job now =
     \<lparr>j_format = format_name, j_version = state_version,
      j_job_id = nj_job_id job, j_tenant = nj_tenant job, j_endpoint = nj_endpoint job,
      j_profile = nj_profile job, j_session = nj_session job, j_batch_size = nj_batch_size job,
      j_output = \<lparr>o_path = nj_output_path job, o_dev = dec (id_dev (nj_output job)),
                  o_ino = dec (id_ino (nj_output job)), o_next = None\<rparr>,
      j_created = now, j_updated = now, j_sequence = 0, j_attempts = [],
      j_items = map (\<lambda>(index, prompt). new_item index prompt)
                  (zip [0..<length (nj_prompts job)] (nj_prompts job))\<rparr>"

definition was_submitted :: "item_status \<Rightarrow> bool" where
  "was_submitted s = (s = Submitted \<or> s = Complete \<or> s = Failed)"

definition is_terminal :: "item_status \<Rightarrow> bool" where
  "is_terminal s = (s = Complete \<or> s = Failed)"

definition submitted_count :: "job_state \<Rightarrow> nat" where
  "submitted_count st = length (filter (\<lambda>it. was_submitted (i_status it)) (j_items st))"

text \<open>\<open>attempt_mut\<close>: change the first attempt with this id.\<close>

fun update_attempt :: "nat \<Rightarrow> (attempt \<Rightarrow> attempt) \<Rightarrow> attempt list \<Rightarrow> attempt list" where
  "update_attempt n f [] = []"
| "update_attempt n f (a # as) = (if a_id a = n then f a # as else a # update_attempt n f as)"

definition find_attempt :: "nat \<Rightarrow> attempt list \<Rightarrow> attempt option" where
  "find_attempt n as = List.find (\<lambda>a. a_id a = n) as"

section \<open>validate\<close>

text \<open>\<open>store::valid_tenant_name\<close>: \<open>^[a-zA-Z0-9][a-zA-Z0-9_-]{0,63}$\<close>.\<close>

definition valid_tenant_name :: "str \<Rightarrow> bool" where
  "valid_tenant_name name =
     (name \<noteq> [] \<and> length name \<le> 64 \<and> is_ascii_alnum (hd name)
      \<and> list_all (\<lambda>b. is_ascii_alnum b \<or> b = CHR ''_'' \<or> b = CHR ''-'') name)"

definition decimal :: "str \<Rightarrow> bool" where
  "decimal s = (s \<noteq> [] \<and> length s \<le> 20 \<and> list_all is_digit s)"

definition is_absolute :: "str \<Rightarrow> bool" where
  "is_absolute path = starts_with path ''/''"

definition bad_output :: "output_record \<Rightarrow> bool" where
  "bad_output out =
     (o_path out = [] \<or> \<not> is_absolute (o_path out) \<or> \<not> decimal (o_dev out) \<or> \<not> decimal (o_ino out)
      \<or> (case o_next out of
           None \<Rightarrow> False
         | Some nxt \<Rightarrow> \<not> decimal (n_dev nxt) \<or> \<not> decimal (n_ino nxt) \<or> n_temp nxt = []))"

text \<open>The first failing check of a list, or \<open>Ok\<close>.\<close>

fun first_failure :: "(bool \<times> str) list \<Rightarrow> str + unit" where
  "first_failure [] = Ok ()"
| "first_failure ((bad, why) # checks) = (if bad then Err why else first_failure checks)"

definition check_header :: "job_state \<Rightarrow> str + unit" where
  "check_header st = first_failure
     [(j_format st \<noteq> format_name \<or> j_version st \<noteq> state_version, ''unsupported format or version''),
      (\<not> is_job_id (j_job_id st), ''jobId has the wrong shape''),
      (\<not> valid_tenant_name (j_tenant st), ''tenant is not a valid tenant name''),
      (j_endpoint st = [], ''scanEndpoint is empty''),
      (\<not> (1 \<le> utf16_count (j_profile st) \<and> utf16_count (j_profile st) \<le> 100),
         ''profile must be 1-100 characters''),
      (100 < utf16_count (j_session st), ''sessionId must be at most 100 characters''),
      (\<not> (1 \<le> j_batch_size st \<and> j_batch_size st \<le> max_batch_size),
         ''batchSize must be a positive safe integer''),
      (bad_output (j_output st), ''output is not a valid output record''),
      (\<not> is_stamp (j_created st) \<or> \<not> is_stamp (j_updated st),
         ''timestamps must be UTC ISO date-times''),
      (j_items st = [] \<or> max_prompts < length (j_items st), ''items must hold 1 to 10000 prompts'')]"

text \<open>The checks of one item, after the index order; \<open>status\<close> starts its reasons.\<close>

definition check_item :: "attempt list \<Rightarrow> item \<Rightarrow> str + unit" where
  "check_item as it =
     (let status = status_name (i_status it);
          with_scan = was_submitted (i_status it);
          terminal = is_terminal (i_status it)
      in first_failure
        [(i_req_id it \<noteq> i_index it, ''reqId must match the stable input index''),
         (with_scan \<and> \<not> (case i_scan_id it of Some s \<Rightarrow> is_scan_id s | None \<Rightarrow> False),
            status @ '' entries require a scanId''),
         (\<not> with_scan \<and> i_scan_id it \<noteq> None, status @ '' entries cannot contain a scanId''),
         (\<not> with_scan \<and> i_receipt it \<noteq> None, status @ '' entries cannot contain a receipt''),
         (i_result it = None \<and> terminal, status @ '' entries require a result''),
         (i_result it \<noteq> None \<and> \<not> terminal, status @ '' entries cannot contain a result''),
         (case i_result it of None \<Rightarrow> False | Some r \<Rightarrow> i_scan_id it \<noteq> Some (r_scan_id r),
            ''stored result scanId does not match its receipt''),
         (case i_result it of None \<Rightarrow> False
            | Some r \<Rightarrow> i_status it = Failed \<and> r_action r \<noteq> ActionFailed,
            ''failed entries require a failed result''),
         (case i_result it of None \<Rightarrow> False
            | Some r \<Rightarrow> i_status it = Complete \<and> r_action r = ActionFailed,
            ''complete entries cannot contain a failed result''),
         (i_attempt it = None \<and> i_status it = Submitting, ''submitting entries require an attempt''),
         (case i_attempt it of None \<Rightarrow> False | Some n \<Rightarrow> find_attempt n as = None,
            ''entry '' @ dec (i_index it) @ '' names a missing attempt''),
         (case i_attempt it of None \<Rightarrow> False
            | Some n \<Rightarrow> (case find_attempt n as of None \<Rightarrow> False
                 | Some a \<Rightarrow> (a_outcome a = InFlight) \<noteq> (i_status it = Submitting)),
            ''submitting entries must belong to the attempt in flight'')])"

fun check_items :: "attempt list \<Rightarrow> nat list \<Rightarrow> nat \<Rightarrow> item list \<Rightarrow> str + unit" where
  "check_items as seen position [] = Ok ()"
| "check_items as seen position (it # its) =
     (if i_index it \<in> set seen then Err (''duplicate input index '' @ dec (i_index it))
      else if i_index it \<noteq> position then Err ''prompt entries must remain in input order''
      else (case check_item as it of
          Inl e \<Rightarrow> Inl e
        | Inr _ \<Rightarrow> check_items as (i_index it # seen) (Suc position) its))"

definition check_attempt :: "nat \<Rightarrow> nat \<Rightarrow> attempt \<Rightarrow> str + unit" where
  "check_attempt n_items position a = first_failure
     [(a_id a \<noteq> position + 1, ''attempt ids must count from 1''),
      (a_indices a = [] \<or> chunk_size < length (a_indices a)
         \<or> list_ex (\<lambda>index. n_items \<le> index) (a_indices a),
         ''every attempt index must name an item''),
      (\<not> is_stamp (a_started a) \<or> (case a_ended a of Some e \<Rightarrow> \<not> is_stamp e | None \<Rightarrow> False),
         ''timestamps must be UTC ISO date-times''),
      ((a_outcome a = InFlight) = (a_ended a \<noteq> None), ''only the attempt in flight has no end''),
      ((a_outcome a = Accepted) \<noteq> (a_scan_id a \<noteq> None), ''accepted attempts require a scanId'')]"

fun check_attempts :: "nat \<Rightarrow> nat \<Rightarrow> attempt list \<Rightarrow> str + unit" where
  "check_attempts n_items position [] = Ok ()"
| "check_attempts n_items position (a # as) =
     (case check_attempt n_items position a of
        Inl e \<Rightarrow> Inl e
      | Inr _ \<Rightarrow> check_attempts n_items (Suc position) as)"

definition flying :: "attempt list \<Rightarrow> nat" where
  "flying as = length (filter (\<lambda>a. a_outcome a = InFlight) as)"

text \<open>The receipts map: scan id to the number of its items and their receipt.\<close>

fun check_receipts :: "(str \<Rightarrow> (nat \<times> str option) option) \<Rightarrow> item list \<Rightarrow> str + unit" where
  "check_receipts m [] = Ok ()"
| "check_receipts m (it # its) =
     (case i_scan_id it of
        None \<Rightarrow> check_receipts m its
      | Some s \<Rightarrow>
          (case (case m s of Some e \<Rightarrow> e | None \<Rightarrow> (0, i_receipt it)) of (n, receipt) \<Rightarrow>
             if chunk_size < n + 1 \<or> receipt \<noteq> i_receipt it
             then Err ''entries of one scanId must share one receipt''
             else check_receipts (m(s \<mapsto> (n + 1, receipt))) its))"

definition validate :: "job_state \<Rightarrow> str + unit" where
  "validate st =
     bind_r (check_header st) (\<lambda>_.
     bind_r (check_items (j_attempts st) [] 0 (j_items st)) (\<lambda>_.
     bind_r (check_attempts (length (j_items st)) 0 (j_attempts st)) (\<lambda>_.
     bind_r (if 1 < flying (j_attempts st) then Err ''at most one attempt may be in flight'' else Ok ()) (\<lambda>_.
     check_receipts Map.empty (j_items st)))))"

section \<open>The invariants as a predicate\<close>

definition header_ok :: "job_state \<Rightarrow> bool" where
  "header_ok st = (check_header st = Ok ())"

definition item_ok :: "attempt list \<Rightarrow> item \<Rightarrow> bool" where
  "item_ok as it =
     (i_req_id it = i_index it
      \<and> (if was_submitted (i_status it)
         then (\<exists>s. i_scan_id it = Some s \<and> is_scan_id s)
         else i_scan_id it = None \<and> i_receipt it = None)
      \<and> (if is_terminal (i_status it)
         then (\<exists>r. i_result it = Some r \<and> i_scan_id it = Some (r_scan_id r)
                    \<and> (i_status it = Failed) = (r_action r = ActionFailed))
         else i_result it = None)
      \<and> (i_status it = Submitting \<longrightarrow> i_attempt it \<noteq> None)
      \<and> (\<forall>n. i_attempt it = Some n \<longrightarrow>
           (\<exists>a. find_attempt n as = Some a \<and> (a_outcome a = InFlight) = (i_status it = Submitting))))"

definition attempt_ok :: "nat \<Rightarrow> attempt \<Rightarrow> bool" where
  "attempt_ok n a =
     (a_indices a \<noteq> [] \<and> length (a_indices a) \<le> chunk_size \<and> (\<forall>i \<in> set (a_indices a). i < n)
      \<and> is_stamp (a_started a) \<and> (\<forall>e. a_ended a = Some e \<longrightarrow> is_stamp e)
      \<and> (a_outcome a = InFlight) = (a_ended a = None)
      \<and> (a_outcome a = Accepted) = (a_scan_id a \<noteq> None))"

definition with_scan :: "str \<Rightarrow> item list \<Rightarrow> item list" where
  "with_scan s its = filter (\<lambda>it. i_scan_id it = Some s) its"

definition one_receipt :: "item list \<Rightarrow> bool" where
  "one_receipt its = (\<forall>a \<in> set its. \<forall>b \<in> set its. i_receipt a = i_receipt b)"

definition receipts_ok :: "item list \<Rightarrow> bool" where
  "receipts_ok its =
     (\<forall>s. length (with_scan s its) \<le> chunk_size \<and> one_receipt (with_scan s its))"

definition valid_state :: "job_state \<Rightarrow> bool" where
  "valid_state st =
     (header_ok st
      \<and> map i_index (j_items st) = [0..<length (j_items st)]
      \<and> (\<forall>it \<in> set (j_items st). item_ok (j_attempts st) it)
      \<and> map a_id (j_attempts st) = [1..<length (j_attempts st) + 1]
      \<and> (\<forall>a \<in> set (j_attempts st). attempt_ok (length (j_items st)) a)
      \<and> flying (j_attempts st) \<le> 1
      \<and> receipts_ok (j_items st))"

section \<open>validate decides valid_state\<close>

lemma first_failure_Ok: "first_failure checks = Ok () \<longleftrightarrow> (\<forall>c \<in> set checks. \<not> fst c)"
  by (induction checks rule: first_failure.induct) auto

lemma unit_result: "r = Ok () \<longleftrightarrow> is_ok r" for r :: "'e + unit"
  by (cases r) simp_all

lemma check_item_Ok: "check_item as it = Ok () \<longleftrightarrow> item_ok as it"
proof -
  have "check_item as it = Ok () \<longleftrightarrow>
     (i_req_id it = i_index it
      \<and> (was_submitted (i_status it) \<longrightarrow> (\<exists>s. i_scan_id it = Some s \<and> is_scan_id s))
      \<and> (\<not> was_submitted (i_status it) \<longrightarrow> i_scan_id it = None \<and> i_receipt it = None)
      \<and> (is_terminal (i_status it) \<longrightarrow> i_result it \<noteq> None)
      \<and> (\<not> is_terminal (i_status it) \<longrightarrow> i_result it = None)
      \<and> (\<forall>r. i_result it = Some r \<longrightarrow> i_scan_id it = Some (r_scan_id r)
           \<and> (i_status it = Failed \<longrightarrow> r_action r = ActionFailed)
           \<and> (i_status it = Complete \<longrightarrow> r_action r \<noteq> ActionFailed))
      \<and> (i_status it = Submitting \<longrightarrow> i_attempt it \<noteq> None)
      \<and> (\<forall>n. i_attempt it = Some n \<longrightarrow>
           (\<exists>a. find_attempt n as = Some a \<and> (a_outcome a = InFlight) = (i_status it = Submitting))))"
    unfolding check_item_def Let_def first_failure_Ok
    by (cases "i_scan_id it"; cases "i_result it"; cases "i_attempt it")
       (auto split: option.splits)
  also have "\<dots> \<longleftrightarrow> item_ok as it"
    unfolding item_ok_def
    by (cases "i_result it"; cases "i_status it") (auto simp: is_terminal_def was_submitted_def)
  finally show ?thesis .
qed

lemma check_items_Ok:
  "(\<forall>i \<in> set seen. i < position) \<Longrightarrow>
   check_items as seen position its = Ok () \<longleftrightarrow>
     map i_index its = [position..<position + length its] \<and> (\<forall>it \<in> set its. item_ok as it)"
proof (induction its arbitrary: seen position)
  case (Cons it its)
  have upt: "[position..<position + length (it # its)] = position # [Suc position..<Suc position + length its]"
    using upt_conv_Cons [of position "position + length (it # its)"] by (simp del: upt_Suc)
  show ?case
  proof (cases "i_index it = position")
    case True
    with Cons.prems have ns: "i_index it \<notin> set seen" by auto
    have ih: "check_items as (i_index it # seen) (Suc position) its = Ok () \<longleftrightarrow>
        map i_index its = [Suc position..<Suc position + length its] \<and> (\<forall>it \<in> set its. item_ok as it)"
      using Cons.prems True by (intro Cons.IH) (auto simp: less_Suc_eq)
    have "check_items as seen position (it # its) = Ok () \<longleftrightarrow>
        check_item as it = Ok () \<and> check_items as (i_index it # seen) (Suc position) its = Ok ()"
      using True ns by (simp split: sum.splits)
    with ih True upt show ?thesis by (auto simp: check_item_Ok simp del: upt_Suc)
  next
    case False
    then have "check_items as seen position (it # its) \<noteq> Ok ()" by simp
    with False upt show ?thesis by (auto simp del: upt_Suc)
  qed
qed simp

lemma check_attempt_Ok: "check_attempt n position a = Ok () \<longleftrightarrow> a_id a = position + 1 \<and> attempt_ok n a"
  unfolding check_attempt_def first_failure_Ok attempt_ok_def
  by (auto simp: list_ex_iff not_le split: option.splits)

lemma check_attempts_Ok:
  "check_attempts n position as = Ok () \<longleftrightarrow>
     map a_id as = [position + 1..<position + length as + 1] \<and> (\<forall>a \<in> set as. attempt_ok n a)"
proof (induction as arbitrary: position)
  case (Cons a as)
  have "check_attempts n position (a # as) = Ok () \<longleftrightarrow>
      check_attempt n position a = Ok () \<and> check_attempts n (Suc position) as = Ok ()"
    by (simp split: sum.splits)
  moreover have "[position + 1..<position + length (a # as) + 1]
      = (position + 1) # [Suc position + 1..<Suc position + length as + 1]"
    using upt_conv_Cons [of "position + 1" "position + length (a # as) + 1"] by (simp del: upt_Suc)
  ultimately show ?case
    using Cons by (auto simp: check_attempt_Ok simp del: upt_Suc)
qed simp

lemma one_receipt_iff: "one_receipt its \<longleftrightarrow> (\<exists>r. \<forall>a \<in> set its. i_receipt a = r)"
proof
  show "\<exists>r. \<forall>a \<in> set its. i_receipt a = r" if "one_receipt its"
    using that unfolding one_receipt_def by (cases its) blast+
qed (auto simp: one_receipt_def)

lemma one_receipt_snoc:
  "one_receipt (its @ [it]) \<longleftrightarrow> one_receipt its \<and> (its = [] \<or> i_receipt (hd its) = i_receipt it)"
  unfolding one_receipt_iff by (cases its) auto

lemma one_receipt_prefix: "one_receipt (its @ its') \<Longrightarrow> one_receipt its"
  by (simp add: one_receipt_def)

lemma with_scan_append: "with_scan s (its @ its') = with_scan s its @ with_scan s its'"
  by (simp add: with_scan_def)

lemma receipts_ok_prefix:
  assumes "receipts_ok (its @ its')"
  shows "receipts_ok its"
proof -
  have "length (with_scan s its) \<le> chunk_size \<and> one_receipt (with_scan s its)" for s
  proof -
    have "length (with_scan s its @ with_scan s its') \<le> chunk_size
        \<and> one_receipt (with_scan s its @ with_scan s its')"
      using assms unfolding receipts_ok_def with_scan_append by blast
    then show ?thesis using one_receipt_prefix by auto
  qed
  then show ?thesis unfolding receipts_ok_def by blast
qed

text \<open>The map of the checked prefix: how many items the scan id has, and the first receipt.\<close>

definition seen_receipts :: "item list \<Rightarrow> str \<Rightarrow> (nat \<times> str option) option" where
  "seen_receipts pre s =
     (if with_scan s pre = [] then None
      else Some (length (with_scan s pre), i_receipt (hd (with_scan s pre))))"

lemma receipts_ok_snoc:
  "receipts_ok (pre @ [it]) \<longleftrightarrow> receipts_ok pre \<and>
     (case i_scan_id it of None \<Rightarrow> True
      | Some s \<Rightarrow> length (with_scan s pre) < chunk_size
          \<and> (with_scan s pre = [] \<or> i_receipt (hd (with_scan s pre)) = i_receipt it))"
  (is "?l \<longleftrightarrow> _ \<and> ?c")
proof -
  have one: "with_scan s [it] = (if i_scan_id it = Some s then [it] else [])" for s
    by (simp add: with_scan_def)
  have step: "(length (with_scan s (pre @ [it])) \<le> chunk_size \<and> one_receipt (with_scan s (pre @ [it])))
     \<longleftrightarrow> length (with_scan s pre) \<le> chunk_size \<and> one_receipt (with_scan s pre) \<and>
       (i_scan_id it = Some s \<longrightarrow> length (with_scan s pre) < chunk_size
          \<and> (with_scan s pre = [] \<or> i_receipt (hd (with_scan s pre)) = i_receipt it))" for s
    by (auto simp: with_scan_append one one_receipt_snoc)
  show ?thesis
    unfolding receipts_ok_def step by (cases "i_scan_id it") auto
qed

lemma check_receipts_Ok:
  assumes "receipts_ok pre"
  shows "check_receipts (seen_receipts pre) its = Ok () \<longleftrightarrow> receipts_ok (pre @ its)"
  using assms
proof (induction its arbitrary: pre)
  case (Cons it its)
  have one: "with_scan s [it] = (if i_scan_id it = Some s then [it] else [])" for s
    by (simp add: with_scan_def)
  have goal: "receipts_ok (pre @ it # its) \<Longrightarrow> receipts_ok (pre @ [it])"
    using receipts_ok_prefix [of "pre @ [it]" its] by simp
  show ?case
  proof (cases "receipts_ok (pre @ [it])")
    case ok: True
    have "check_receipts (seen_receipts pre) (it # its) = check_receipts (seen_receipts (pre @ [it])) its"
    proof (cases "i_scan_id it")
      case None
      then have "seen_receipts (pre @ [it]) = seen_receipts pre"
        by (intro ext) (simp add: seen_receipts_def with_scan_append one)
      with None show ?thesis by simp
    next
      case (Some s)
      have "(seen_receipts pre)(s \<mapsto> (length (with_scan s pre) + 1, i_receipt it))
          = seen_receipts (pre @ [it])"
        using ok Some by (intro ext) (auto simp: seen_receipts_def with_scan_append one receipts_ok_snoc hd_append)
      moreover have "(case seen_receipts pre s of Some e \<Rightarrow> e | None \<Rightarrow> (0, i_receipt it))
          = (length (with_scan s pre), i_receipt it)" and "length (with_scan s pre) < chunk_size"
        using ok Some by (auto simp: receipts_ok_snoc seen_receipts_def)
      ultimately show ?thesis using Some by simp
    qed
    with Cons.IH [OF ok] show ?thesis by simp
  next
    case bad: False
    with Cons.prems obtain s where s: "i_scan_id it = Some s"
      and why: "chunk_size \<le> length (with_scan s pre)
        \<or> (with_scan s pre \<noteq> [] \<and> i_receipt (hd (with_scan s pre)) \<noteq> i_receipt it)"
      by (auto simp: receipts_ok_snoc split: option.splits)
    then have "check_receipts (seen_receipts pre) (it # its) \<noteq> Ok ()"
      by (auto simp: seen_receipts_def)
    with bad goal show ?thesis by blast
  qed
qed simp

lemma check_receipts_empty: "check_receipts Map.empty its = Ok () \<longleftrightarrow> receipts_ok its"
proof -
  have "seen_receipts [] = Map.empty" by (intro ext) (simp add: seen_receipts_def with_scan_def)
  moreover have "receipts_ok []" by (simp add: receipts_ok_def with_scan_def one_receipt_def)
  ultimately show ?thesis using check_receipts_Ok [of "[]" its] by simp
qed

lemma validate_valid: "validate st = Ok () \<longleftrightarrow> valid_state st"
proof -
  have "validate st = Ok () \<longleftrightarrow>
      check_header st = Ok () \<and> check_items (j_attempts st) [] 0 (j_items st) = Ok ()
      \<and> check_attempts (length (j_items st)) 0 (j_attempts st) = Ok ()
      \<and> flying (j_attempts st) \<le> 1 \<and> check_receipts Map.empty (j_items st) = Ok ()"
    unfolding validate_def by (auto simp: bind_r_Ok_iff)
  then show ?thesis
    by (auto simp: valid_state_def header_ok_def check_items_Ok check_attempts_Ok check_receipts_empty
        simp del: upt_Suc)
qed

section \<open>The flags are a keyed store\<close>

interpretation det: keyed_store det_get det_set
proof
  fix d :: detections and k :: str and v :: bool
  show "det_get (det_set d k v) k = Some v"
    by (induction d k v rule: det_set.induct) (auto simp: det_get_def)
next
  fix d :: detections and k k' :: str and v :: bool
  assume "k' \<noteq> k"
  then show "det_get (det_set d k v) k' = det_get d k'"
    by (induction d k v rule: det_set.induct) (auto simp: det_get_def)
qed

lemma valid_state_length: "valid_state st \<Longrightarrow> length (j_items st) \<le> u64_max"
proof -
  assume "valid_state st"
  then have "\<not> max_prompts < length (j_items st)"
    unfolding valid_state_def header_ok_def check_header_def first_failure_Ok by simp
  then show ?thesis by (simp add: max_prompts_def u64_max_def)
qed

end
