(* ===== verification/BulkPlan.thy ===== *)
theory BulkPlan
  imports BulkTypes
begin

text \<open>
  \<open>src/bulk/plan.rs\<close>: logical batches, request chunks within the body budget, and the
  receipts to poll.

  The SDK builders and serde are third-party code. \<open>sdk_build\<close> says whether the SDK's
  builders accept a scan object, \<open>sdk_size\<close> is the length of its serialisation (\<open>None\<close> where
  serde fails) and \<open>sdk_max_request\<close> is \<open>Limits::default().max_request_bytes\<close>.
\<close>

record scan_object =
  so_req_id :: nat
  so_profile :: str
  so_prompt :: str
  so_session :: "str option"

record sdk =
  sdk_build :: "scan_object \<Rightarrow> bool"
  sdk_size :: "scan_object \<Rightarrow> nat option"
  sdk_max_request :: nat

definition body_budget :: "sdk \<Rightarrow> nat" where
  "body_budget S = sdk_max_request S - 64 * 1024"

section \<open>Logical batches\<close>

text \<open>\<open>(0..count).step_by(bsz)\<close>.\<close>

function step_by_from :: "nat \<Rightarrow> nat \<Rightarrow> nat \<Rightarrow> nat list" where
  "step_by_from start count bsz =
     (if start < count \<and> 0 < bsz then start # step_by_from (start + bsz) count bsz else [])"
  by pat_completeness auto
termination
  by (relation "measure (\<lambda>(start, count, bsz). count - start)") auto

declare step_by_from.simps [simp del]

definition logical_batches :: "nat \<Rightarrow> nat \<Rightarrow> (nat \<times> nat) list" where
  "logical_batches count batch_size =
     (let bsz = max batch_size 1
      in map (\<lambda>start. (start, min (sat_add start bsz) count)) (step_by_from 0 count bsz))"

definition div_ceil :: "nat \<Rightarrow> nat \<Rightarrow> nat" where
  "div_ceil a b = a div b + (if a mod b = 0 then 0 else 1)"

definition batch_count :: "nat \<Rightarrow> nat \<Rightarrow> nat" where
  "batch_count count batch_size = div_ceil count (max batch_size 1)"

section \<open>Scan objects\<close>

definition local_failure :: cli_error where
  "local_failure = operational ''AISEC_USER_REQUEST_PAYLOAD_ERROR:Validation error''"

definition scan_object_of :: "sdk \<Rightarrow> nat \<Rightarrow> str \<Rightarrow> str \<Rightarrow> str \<Rightarrow> cli_error + scan_object" where
  "scan_object_of S index prompt profile session =
     (let obj = \<lparr>so_req_id = index, so_profile = profile, so_prompt = prompt,
                 so_session = (if session = [] then None else Some session)\<rparr>
      in if sdk_build S obj then Ok obj else Err local_failure)"

definition object_size :: "sdk \<Rightarrow> scan_object \<Rightarrow> cli_error + nat" where
  "object_size S obj = (case sdk_size S obj of Some n \<Rightarrow> Ok n | None \<Rightarrow> Err local_failure)"

definition sized :: "sdk \<Rightarrow> nat \<Rightarrow> str \<Rightarrow> str \<Rightarrow> str \<Rightarrow> cli_error + nat" where
  "sized S index prompt profile session =
     bind_r (scan_object_of S index prompt profile session) (object_size S)"

definition encoded_too_large :: "nat \<Rightarrow> nat \<Rightarrow> cli_error" where
  "encoded_too_large index budget = Operational
     \<lparr>message_of = ''AISEC_USER_REQUEST_PAYLOAD_ERROR:prompt exceeds the request size limit of ''
        @ dec budget @ '' bytes once JSON-encoded'',
      status_of = None, details_of = [''Prompt index '' @ dec index]\<rparr>"

fun check_encoded_from :: "sdk \<Rightarrow> nat \<Rightarrow> str list \<Rightarrow> str \<Rightarrow> str \<Rightarrow> nat \<Rightarrow> cli_error + unit" where
  "check_encoded_from S index [] profile session budget = Ok ()"
| "check_encoded_from S index (prompt # prompts) profile session budget =
     (case sized S index prompt profile session of
        Inl e \<Rightarrow> Inl e
      | Inr bsz \<Rightarrow>
          if budget < sat_add bsz 2 then Err (encoded_too_large index budget)
          else check_encoded_from S (Suc index) prompts profile session budget)"

definition check_encoded :: "sdk \<Rightarrow> str list \<Rightarrow> str \<Rightarrow> str \<Rightarrow> nat \<Rightarrow> cli_error + unit" where
  "check_encoded S prompts profile session budget =
     check_encoded_from S 0 prompts profile session budget"

section \<open>Chunks\<close>

text \<open>
  The loop of \<open>chunks\<close>: the chunks closed so far, the current chunk and the size of its
  body (the two brackets, the objects and the commas between them).
\<close>

fun chunks_loop ::
  "sdk \<Rightarrow> str \<Rightarrow> str \<Rightarrow> nat \<Rightarrow> nat list list \<Rightarrow> nat list \<Rightarrow> nat \<Rightarrow> (nat \<times> str) list
     \<Rightarrow> cli_error + nat list list" where
  "chunks_loop S profile session budget closed current bsz [] =
     Ok (if current = [] then closed else closed @ [current])"
| "chunks_loop S profile session budget closed current bsz ((index, prompt) # items) =
     (case sized S index prompt profile session of
        Inl e \<Rightarrow> Inl e
      | Inr obj \<Rightarrow>
          if budget < sat_add obj 2 then Err (encoded_too_large index budget)
          else
            (let added = obj + (if current = [] then 0 else 1);
                 full = (current \<noteq> [] \<and> (length current = chunk_size \<or> budget < bsz + added));
                 closed' = (if full then closed @ [current] else closed);
                 current' = (if full then [] else current);
                 bsz' = (if full then 2 else bsz)
             in chunks_loop S profile session budget closed' (current' @ [index])
                  (bsz' + obj + (if current' = [] then 0 else 1)) items))"

definition chunks :: "sdk \<Rightarrow> (nat \<times> str) list \<Rightarrow> str \<Rightarrow> str \<Rightarrow> nat \<Rightarrow> cli_error + nat list list" where
  "chunks S items profile session budget = chunks_loop S profile session budget [] [] 2 items"

section \<open>Receipts\<close>

text \<open>The scan ids of the submitted items with the lowest index of each.\<close>

fun note_receipt :: "nat \<Rightarrow> str \<Rightarrow> (nat \<times> str) list \<Rightarrow> (nat \<times> str) list" where
  "note_receipt index scan [] = [(index, scan)]"
| "note_receipt index scan ((lowest, known) # order) =
     (if known = scan then (min lowest index, known) # order
      else (lowest, known) # note_receipt index scan order)"

fun receipt_order :: "(nat \<times> str) list \<Rightarrow> (nat \<times> item_status \<times> str option) list \<Rightarrow> (nat \<times> str) list" where
  "receipt_order order [] = order"
| "receipt_order order ((index, status, scan) # items) =
     (case scan of
        Some s \<Rightarrow> receipt_order (if status = Submitted then note_receipt index s order else order) items
      | None \<Rightarrow> receipt_order order items)"

definition receipts :: "(nat \<times> item_status \<times> str option) list \<Rightarrow> str list" where
  "receipts items = map snd (sort_key fst (receipt_order [] items))"

section \<open>Batches partition the items\<close>

lemma step_by_from_unfold:
  "step_by_from start count bsz =
     (if start < count \<and> 0 < bsz then start # step_by_from (start + bsz) count bsz else [])"
  by (rule step_by_from.simps)

lemma batches_concat:
  assumes "0 < bsz" "start \<le> count" "count \<le> u64_max"
  shows "concat (map (\<lambda>s. [s..<min (sat_add s bsz) count]) (step_by_from start count bsz)) = [start..<count]"
  using assms
proof (induction start count bsz rule: step_by_from.induct)
  case (1 start count bsz)
  show ?case
  proof (cases "start < count")
    case True
    have m: "min (sat_add start bsz) count = min (start + bsz) count"
      using 1(4) by (auto simp: sat_add_def)
    show ?thesis
    proof (cases "start + bsz \<le> count")
      case True
      then obtain k where k: "count = start + bsz + k" using le_Suc_ex by blast
      have "[start..<count] = [start..<start + bsz] @ [start + bsz..<count]"
        using upt_add_eq_append [of start "start + bsz" k] by (simp add: k)
      with True \<open>start < count\<close> 1 m show ?thesis
        by (subst step_by_from_unfold) simp
    next
      case False
      then have "step_by_from (start + bsz) count bsz = []"
        by (subst step_by_from_unfold) simp
      with False \<open>start < count\<close> 1 m show ?thesis
        by (subst step_by_from_unfold) simp
    qed
  next
    case False
    with 1 show ?thesis by (subst step_by_from_unfold) simp
  qed
qed

lemma logical_batches_concat:
  "count \<le> u64_max \<Longrightarrow>
     concat (map (\<lambda>(start, end). [start..<end]) (logical_batches count batch_size)) = [0..<count]"
  using batches_concat [of "max batch_size 1" 0 count]
  by (simp add: logical_batches_def comp_def Let_def)

lemma step_by_from_range:
  "s \<in> set (step_by_from start count bsz) \<Longrightarrow> start \<le> s \<and> s < count"
proof (induction start count bsz rule: step_by_from.induct)
  case (1 start count bsz)
  then show ?case
    by (subst (asm) (2) step_by_from_unfold) (auto split: if_splits)
qed

lemma logical_batches_bounds:
  assumes "(start, end) \<in> set (logical_batches count batch_size)" "count \<le> u64_max"
  shows "start < end \<and> end \<le> count \<and> end - start \<le> max batch_size 1"
proof -
  from assms(1) have s: "start \<in> set (step_by_from 0 count (max batch_size 1))"
    and e: "end = min (sat_add start (max batch_size 1)) count"
    by (auto simp: logical_batches_def Let_def)
  from step_by_from_range [OF s] have lt: "start < count" by simp
  with assms(2) have "start < sat_add start (max batch_size 1)"
    by (simp add: sat_add_def)
  with lt e show ?thesis by (auto simp: sat_add_def)
qed

lemma length_step_by_from:
  "0 < bsz \<Longrightarrow> start \<le> count \<Longrightarrow> length (step_by_from start count bsz) = div_ceil (count - start) bsz"
proof (induction start count bsz rule: step_by_from.induct)
  case (1 start count bsz)
  show ?case
  proof (cases "start < count")
    case lt: True
    show ?thesis
    proof (cases "start + bsz \<le> count")
      case True
      with 1 lt have "length (step_by_from start count bsz) = Suc (div_ceil (count - (start + bsz)) bsz)"
        by (subst step_by_from_unfold) simp
      also have "\<dots> = div_ceil (count - start) bsz"
      proof -
        obtain k where k: "count = start + bsz + k" using True le_Suc_ex by blast
        with 1(2) show ?thesis by (simp add: div_ceil_def div_add_self1)
      qed
      finally show ?thesis .
    next
      case False
      then have nil: "step_by_from (start + bsz) count bsz = []"
        by (subst step_by_from_unfold) simp
      from False lt 1(2) show ?thesis
        by (subst step_by_from_unfold) (simp add: nil div_ceil_def)
    qed
  next
    case False
    with 1 show ?thesis by (subst step_by_from_unfold) (simp add: div_ceil_def)
  qed
qed

lemma length_logical_batches: "length (logical_batches count batch_size) = batch_count count batch_size"
  by (simp add: logical_batches_def batch_count_def length_step_by_from Let_def)

section \<open>Chunks keep the items, the count and the budget\<close>

text \<open>The body of a chunk: the brackets, the objects and a comma between objects.\<close>

definition item_size :: "sdk \<Rightarrow> (nat \<times> str) list \<Rightarrow> str \<Rightarrow> str \<Rightarrow> nat \<Rightarrow> nat" where
  "item_size S items profile session index =
     (case map_of items index of
        Some prompt \<Rightarrow> (case sized S index prompt profile session of Inr n \<Rightarrow> n | Inl _ \<Rightarrow> 0)
      | None \<Rightarrow> 0)"

definition body_size :: "(nat \<Rightarrow> nat) \<Rightarrow> nat list \<Rightarrow> nat" where
  "body_size sz chunk = 2 + sum_list (map sz chunk) + (length chunk - 1)"

definition chunk_ok :: "(nat \<Rightarrow> nat) \<Rightarrow> nat \<Rightarrow> nat list \<Rightarrow> bool" where
  "chunk_ok sz budget chunk =
     (chunk \<noteq> [] \<and> length chunk \<le> chunk_size \<and> body_size sz chunk \<le> budget)"

lemma chunks_loop_concat:
  "chunks_loop S profile session budget closed current bsz items = Ok out \<Longrightarrow>
     concat out = concat closed @ current @ map fst items"
proof (induction S profile session budget closed current bsz items arbitrary: out rule: chunks_loop.induct)
  case 2
  then show ?case by (auto simp: Let_def split: sum.splits if_splits)
qed (auto split: if_splits)

lemma chunks_concat: "chunks S items profile session budget = Ok out \<Longrightarrow> concat out = map fst items"
  unfolding chunks_def by (drule chunks_loop_concat) simp

lemma chunks_loop_ok:
  assumes "chunks_loop S profile session budget closed current bsz items = Ok out"
    and "\<forall>c \<in> set closed. chunk_ok sz budget c"
    and "current \<noteq> [] \<Longrightarrow> chunk_ok sz budget current"
    and "bsz = body_size sz current"
    and "\<forall>(i, p) \<in> set items. sized S i p profile session = Ok (sz i)"
    and "budget < u64_max"
  shows "\<forall>c \<in> set out. chunk_ok sz budget c"
  using assms
proof (induction items arbitrary: closed current bsz)
  case (Cons it items)
  obtain index prompt where it: "it = (index, prompt)" by force
  note prems = Cons.prems [unfolded it]
  have szd: "sized S index prompt profile session = Ok (sz index)" using prems(5) by auto
  from szd prems(1) have fits: "\<not> budget < sat_add (sz index) 2" by (auto split: if_splits)
  with prems(6) have fits': "sz index + 2 \<le> budget" by (auto simp: sat_add_def)
  define added where "added = sz index + (if current = [] then 0 else 1)"
  define full where "full = (current \<noteq> [] \<and> (length current = chunk_size \<or> budget < bsz + added))"
  define closed' where "closed' = (if full then closed @ [current] else closed)"
  define current' where "current' = (if full then [] else current)"
  define bsz' where "bsz' = (if full then 2 else bsz)"
  have step: "chunks_loop S profile session budget closed' (current' @ [index])
                (bsz' + sz index + (if current' = [] then 0 else 1)) items = Ok out"
    using prems(1) szd fits
    by (simp add: added_def full_def closed'_def current'_def bsz'_def Let_def)
  have closed'_ok: "\<forall>c \<in> set closed'. chunk_ok sz budget c"
    using prems(2,3) by (auto simp: closed'_def full_def)
  have bsz'_eq: "bsz' = body_size sz current'"
    using prems(4) by (simp add: bsz'_def current'_def body_size_def)
  have grow: "body_size sz (current' @ [index]) = bsz' + sz index + (if current' = [] then 0 else 1)"
    by (cases current') (simp_all add: bsz'_eq body_size_def)
  have "chunk_ok sz budget (current' @ [index])"
  proof (cases "current' = []")
    case True
    then show ?thesis using fits' by (simp add: chunk_ok_def body_size_def chunk_size_def)
  next
    case False
    then have nf: "\<not> full" "current' = current" "current \<noteq> []"
      by (auto simp: current'_def split: if_splits)
    then have "length current < chunk_size" "bsz + sz index + 1 \<le> budget"
      using prems(3) by (auto simp: full_def chunk_ok_def added_def)
    with nf grow show ?thesis by (simp add: chunk_ok_def bsz'_def)
  qed
  then show ?case
    using Cons.IH [OF step closed'_ok] grow prems(5,6) by simp
qed (auto split: if_splits)

end
