(* ===== verification/Json.thy ===== *)
theory Json
  imports Complex_Main KeyedStore
begin

text \<open>
  The JSON values of \<open>src/json.rs\<close> and of serde_json (built without \<open>preserve_order\<close>).
  Objects are association lists: an \<open>OValue\<close> object keeps the order of its text, a serde
  \<open>Map\<close> the order of its keys, which \<open>jinsert\<close> maintains. A number is an integer of the
  64-bit ranges or the value of a double.
\<close>

datatype number = Whole int | Double rat

datatype json =
    JNull
  | JBool bool
  | JNumber number
  | JString str
  | JArray "json list"
  | JObject "(str \<times> json) list"

type_synonym jobject = "(str \<times> json) list"

fun as_str :: "json \<Rightarrow> str option" where
  "as_str (JString s) = Some s"
| "as_str _ = None"

fun as_object :: "json \<Rightarrow> jobject option" where
  "as_object (JObject o') = Some o'"
| "as_object _ = None"

fun as_array :: "json \<Rightarrow> json list option" where
  "as_array (JArray items) = Some items"
| "as_array _ = None"

text \<open>serde_json's \<open>as_u64\<close> of a number.\<close>

fun as_u64 :: "json \<Rightarrow> nat option" where
  "as_u64 (JNumber (Whole n)) = (if 0 \<le> n \<and> n \<le> int u64_max then Some (nat n) else None)"
| "as_u64 _ = None"

fun jlookup :: "jobject \<Rightarrow> str \<Rightarrow> json option" where
  "jlookup [] key = None"
| "jlookup ((name, v) # entries) key = (if name = key then Some v else jlookup entries key)"

text \<open>\<open>OValue::get\<close>: \<open>None\<close> for other values.\<close>

definition jget :: "json \<Rightarrow> str \<Rightarrow> json option" where
  "jget v key = (case as_object v of Some entries \<Rightarrow> jlookup entries key | None \<Rightarrow> None)"

definition contains_key :: "jobject \<Rightarrow> str \<Rightarrow> bool" where
  "contains_key entries key = (jlookup entries key \<noteq> None)"

text \<open>The byte order of strings, and the insertion of serde's sorted \<open>Map\<close>.\<close>

fun key_less :: "str \<Rightarrow> str \<Rightarrow> bool" where
  "key_less [] [] = False"
| "key_less [] (_ # _) = True"
| "key_less (_ # _) [] = False"
| "key_less (a # as) (b # bs) = (code a < code b \<or> (a = b \<and> key_less as bs))"

fun jinsert :: "jobject \<Rightarrow> str \<Rightarrow> json \<Rightarrow> jobject" where
  "jinsert [] key v = [(key, v)]"
| "jinsert ((name, old) # entries) key v =
     (if name = key then (key, v) # entries
      else if key_less key name then (key, v) # (name, old) # entries
      else (name, old) # jinsert entries key v)"

fun jremove :: "jobject \<Rightarrow> str \<Rightarrow> jobject" where
  "jremove [] key = []"
| "jremove ((name, v) # entries) key = (if name = key then entries else (name, v) # jremove entries key)"

lemma key_less_irrefl [simp]: "\<not> key_less k k"
  by (induction k) simp_all

lemma key_less_trans: "key_less a b \<Longrightarrow> key_less b c \<Longrightarrow> key_less a c"
proof (induction a b arbitrary: c rule: key_less.induct)
  case (4 a as b bs)
  then show ?case by (cases c) auto
next
  case (2 b bs)
  then show ?case by (cases c) auto
qed auto

lemma key_less_total: "key_less a b \<or> a = b \<or> key_less b a"
proof (induction a b rule: key_less.induct)
  case (4 a as b bs)
  then show ?case using code_inject [of a b] by auto
qed auto

definition sorted_keys :: "jobject \<Rightarrow> bool" where
  "sorted_keys entries = sorted_wrt key_less (map fst entries)"

lemma jinsert_keys: "set (map fst (jinsert entries key v)) = insert key (set (map fst entries))"
  by (induction entries key v rule: jinsert.induct) auto

lemma sorted_keys_jinsert: "sorted_keys entries \<Longrightarrow> sorted_keys (jinsert entries key v)"
proof (induction entries key v rule: jinsert.induct)
  case (2 name old entries key v)
  show ?case
  proof (cases "name = key \<or> key_less key name")
    case True
    with 2(2) show ?thesis by (auto simp: sorted_keys_def intro: key_less_trans)
  next
    case False
    then have "key_less name key" using key_less_total [of key name] by auto
    moreover have "sorted_keys (jinsert entries key v)" using False 2 by (simp add: sorted_keys_def)
    ultimately show ?thesis
      using False 2(2) jinsert_keys [of entries key v] by (auto simp: sorted_keys_def)
  qed
qed (simp add: sorted_keys_def)

interpretation jobj: keyed_store jlookup jinsert
proof
  fix m :: jobject and k :: str and v :: json
  show "jlookup (jinsert m k v) k = Some v"
    by (induction m k v rule: jinsert.induct) auto
next
  fix m :: jobject and k k' :: str and v :: json
  assume "k' \<noteq> k"
  then show "jlookup (jinsert m k v) k' = jlookup m k'"
    by (induction m k v rule: jinsert.induct) auto
qed

end
