(* ===== verification/Paths.thy ===== *)
theory Paths
  imports CliError BulkTypes
begin

text \<open>
  Paths as \<open>std::path::Path\<close> reads them (components between slashes, empty and \<open>.\<close> ones
  dropped), \<open>normalize\<close>, \<open>shown\<close> and \<open>store_dir\<close> of \<open>src/store/mod.rs\<close> and
  \<open>state_dir_path\<close> of \<open>src/bulk/mod.rs\<close>. Paths are UTF-8 texts.
\<close>

definition has_root :: "str \<Rightarrow> bool" where
  "has_root path = starts_with path ''/''"

definition components :: "str \<Rightarrow> str list" where
  "components path = filter (\<lambda>c. c \<noteq> [] \<and> c \<noteq> ''.'') (split_on (CHR ''/'') path)"

definition path_text :: "bool \<Rightarrow> str list \<Rightarrow> str" where
  "path_text rooted cs = (if rooted then ''/'' else []) @ join ''/'' cs"

definition file_name :: "str \<Rightarrow> str option" where
  "file_name path =
     (case rev (components path) of [] \<Rightarrow> None | c # _ \<Rightarrow> if c = ''..'' then None else Some c)"

definition parent :: "str \<Rightarrow> str option" where
  "parent path =
     (if components path = [] then None
      else Some (path_text (has_root path) (butlast (components path))))"

text \<open>\<open>Path::join\<close>: an absolute path replaces, any other is appended.\<close>

definition joined :: "str \<Rightarrow> str \<Rightarrow> str" where
  "joined dir path =
     (if has_root path then path
      else if dir = [] \<or> ends_with dir ''/'' then dir @ path else dir @ ''/'' @ path)"

definition shown :: "str \<Rightarrow> str" where
  "shown path = terminal_safe path"

section \<open>normalize\<close>

text \<open>The components pushed so far and how many of them \<open>..\<close> may pop.\<close>

fun normal_from :: "bool \<Rightarrow> str list \<Rightarrow> nat \<Rightarrow> str list \<Rightarrow> str list" where
  "normal_from rooted out depth [] = out"
| "normal_from rooted out depth (c # cs) =
     (if c = ''..'' then
        (if 0 < depth then normal_from rooted (butlast out) (depth - 1) cs
         else if \<not> rooted then normal_from rooted (out @ [''..'']) depth cs
         else normal_from rooted out depth cs)
      else normal_from rooted (out @ [c]) (depth + 1) cs)"

definition normalize_path :: "str \<Rightarrow> str" where
  "normalize_path path =
     (let out = path_text (has_root path) (normal_from (has_root path) [] 0 (components path))
      in if out = [] then ''.'' else out)"

definition state_dir_path :: "str option \<Rightarrow> str option \<Rightarrow> cli_error + str" where
  "state_dir_path xdg_state_home home =
     (case xdg_state_home of
        Some dir \<Rightarrow>
          if dir \<noteq> [] then
            (if \<not> has_root dir then Err (operational ''XDG_STATE_HOME must be an absolute path'')
             else Ok (normalize_path (joined dir ''airs-cli/bulk-scans'')))
          else
            (case home of
               Some h \<Rightarrow> if has_root h then Ok (normalize_path (joined h ''.local/state/airs-cli/bulk-scans''))
                 else Err (operational ''Cannot store the bulk-scan state: HOME is not an absolute path; set XDG_STATE_HOME'')
             | None \<Rightarrow> Err (operational ''Cannot store the bulk-scan state: HOME is not an absolute path; set XDG_STATE_HOME''))
      | None \<Rightarrow>
          (case home of
             Some h \<Rightarrow> if has_root h then Ok (normalize_path (joined h ''.local/state/airs-cli/bulk-scans''))
               else Err (operational ''Cannot store the bulk-scan state: HOME is not an absolute path; set XDG_STATE_HOME'')
           | None \<Rightarrow> Err (operational ''Cannot store the bulk-scan state: HOME is not an absolute path; set XDG_STATE_HOME'')))"

definition store_dir :: "str option \<Rightarrow> str option \<Rightarrow> str option \<Rightarrow> cli_error + str" where
  "store_dir config_dir xdg_config_home home =
     (let from_home = (case home of
            Some h \<Rightarrow> if has_root h then Ok (normalize_path (joined h ''.config/airs-cli''))
              else Err (operational ''HOME is not an absolute path; set AIRS_CLI_CONFIG_DIR or XDG_CONFIG_HOME'')
          | None \<Rightarrow> Err (operational ''HOME is not an absolute path; set AIRS_CLI_CONFIG_DIR or XDG_CONFIG_HOME''));
          from_xdg = (case xdg_config_home of
            Some config \<Rightarrow>
              if config = [] then from_home
              else if \<not> has_root config then Err (operational ''XDG_CONFIG_HOME must be an absolute path'')
              else Ok (normalize_path (joined config ''airs-cli''))
          | None \<Rightarrow> from_home)
      in case config_dir of
           Some dir \<Rightarrow>
             if dir = [] then from_xdg
             else if \<not> has_root dir then Err (operational ''AIRS_CLI_CONFIG_DIR must be an absolute path'')
             else Ok (normalize_path dir)
         | None \<Rightarrow> from_xdg)"

section \<open>A normalised absolute path has no dot components\<close>

lemma components_plain: "c \<in> set (components path) \<Longrightarrow> c \<noteq> [] \<and> c \<noteq> ''.'' \<and> CHR ''/'' \<notin> set c"
  by (auto simp: components_def dest: split_on_no_sep)

lemma normal_from_plain:
  assumes "\<forall>c \<in> set out. P c \<and> c \<noteq> ''..''" "\<forall>c \<in> set cs. P c"
  shows "\<forall>c \<in> set (normal_from True out depth cs). P c \<and> c \<noteq> ''..''"
  using assms
proof (induction cs arbitrary: out depth)
  case (Cons c cs)
  have prefix: "\<forall>c \<in> set (butlast out). P c \<and> c \<noteq> ''..''"
    using Cons.prems(1) in_set_butlastD [of _ out] by blast
  show ?case
  proof (cases "c = ''..''")
    case True
    have "\<forall>c \<in> set (normal_from True (butlast out) (depth - 1) cs). P c \<and> c \<noteq> ''..''"
      by (rule Cons.IH [OF prefix]) (use Cons.prems(2) in simp)
    moreover have "\<forall>c \<in> set (normal_from True out depth cs). P c \<and> c \<noteq> ''..''"
      by (rule Cons.IH [OF Cons.prems(1)]) (use Cons.prems(2) in simp)
    ultimately show ?thesis using True by simp
  next
    case False
    have "\<forall>c \<in> set (normal_from True (out @ [c]) (depth + 1) cs). P c \<and> c \<noteq> ''..''"
      by (rule Cons.IH) (use Cons.prems False in auto)
    with False show ?thesis by simp
  qed
qed simp

lemma split_on_none: "c \<notin> set s \<Longrightarrow> split_on c s = [s]"
  by (induction c s rule: split_on.induct) auto

lemma split_on_append: "c \<notin> set s \<Longrightarrow> split_on c (s @ c # r) = s # split_on c r"
  by (induction s) auto

lemma split_on_join:
  "cs \<noteq> [] \<Longrightarrow> \<forall>x \<in> set cs. c \<notin> set x \<Longrightarrow> split_on c (join [c] cs) = cs"
proof (induction cs)
  case (Cons x cs)
  then show ?case by (cases cs) (simp_all add: split_on_none split_on_append)
qed simp

lemma components_path_text:
  assumes "\<forall>c \<in> set cs. c \<noteq> [] \<and> c \<noteq> ''.'' \<and> CHR ''/'' \<notin> set c"
  shows "components (path_text rooted cs) = cs"
proof -
  have "filter (\<lambda>c. c \<noteq> [] \<and> c \<noteq> ''.'') (split_on (CHR ''/'') (join ''/'' cs)) = cs"
  proof (cases "cs = []")
    case True
    then show ?thesis by simp
  next
    case False
    then show ?thesis using assms by (simp add: split_on_join)
  qed
  then show ?thesis by (cases rooted) (simp_all add: components_def path_text_def)
qed

lemma has_root_path_text: "has_root (path_text True cs)"
  by (simp add: has_root_def path_text_def starts_with_def)

lemma normalize_components:
  assumes "has_root path"
  shows "has_root (normalize_path path)"
    and "\<forall>c \<in> set (components (normalize_path path)). c \<noteq> ''..''"
    and "components (normalize_path path) = normal_from True [] 0 (components path)"
proof -
  let ?cs = "normal_from True [] 0 (components path)"
  have plain: "\<forall>c \<in> set ?cs. (c \<noteq> [] \<and> c \<noteq> ''.'' \<and> CHR ''/'' \<notin> set c) \<and> c \<noteq> ''..''"
    by (rule normal_from_plain) (auto dest: components_plain)
  have n: "normalize_path path = path_text True ?cs"
    using assms by (simp add: normalize_path_def path_text_def)
  show "components (normalize_path path) = ?cs" unfolding n using plain by (intro components_path_text) auto
  then show "\<forall>c \<in> set (components (normalize_path path)). c \<noteq> ''..''" using plain by simp
  show "has_root (normalize_path path)" unfolding n by (rule has_root_path_text)
qed

lemma normal_from_id:
  "\<forall>c \<in> set cs. c \<noteq> ''..'' \<Longrightarrow> normal_from rooted out depth cs = out @ cs"
  by (induction cs arbitrary: out depth) auto

end
