(* ===== verification/World.thy ===== *)
theory World
  imports BulkState BulkPlan Clock Json Paths
begin

text \<open>
  What the program reaches outside itself: the system calls, the clock, the random source,
  the cancellation of the session, the terminal and the AIRS calls of the SDK. Each call is
  a function of an arbitrary state \<open>'w\<close> of the outside world that returns its answer and the
  next state, so an operation may fail, be delayed or be changed by other programs in any
  way. A \<open>world\<close> is that state and the trace of the effects that matter, in order.

  Code with early returns (\<open>?\<close>) is a \<open>prog\<close>: a function of its state that returns an error or
  an answer, and the state either way.
\<close>

section \<open>Programs\<close>

type_synonym ('s, 'e, 'a) prog = "'s \<Rightarrow> ('e + 'a) \<times> 's"

definition ret :: "'a \<Rightarrow> ('s, 'e, 'a) prog" where
  "ret x = (\<lambda>s. (Ok x, s))"

definition fail :: "'e \<Rightarrow> ('s, 'e, 'a) prog" where
  "fail e = (\<lambda>s. (Err e, s))"

definition and_then :: "('s, 'e, 'a) prog \<Rightarrow> ('a \<Rightarrow> ('s, 'e, 'b) prog) \<Rightarrow> ('s, 'e, 'b) prog" where
  "and_then m f = (\<lambda>s. case m s of (Inl e, s') \<Rightarrow> (Err e, s') | (Inr x, s') \<Rightarrow> f x s')"

text \<open>\<open>attempted m\<close>: the result of \<open>m\<close> as a value; \<open>mapped_err\<close>: \<open>map_err\<close>.\<close>

definition attempted :: "('s, 'e, 'a) prog \<Rightarrow> ('s, 'f, 'e + 'a) prog" where
  "attempted m = (\<lambda>s. case m s of (r, s') \<Rightarrow> (Ok r, s'))"

definition mapped_err :: "('e \<Rightarrow> 'f) \<Rightarrow> ('s, 'e, 'a) prog \<Rightarrow> ('s, 'f, 'a) prog" where
  "mapped_err g m = (\<lambda>s. case m s of (Inl e, s') \<Rightarrow> (Err (g e), s') | (Inr x, s') \<Rightarrow> (Ok x, s'))"

definition reads :: "('s \<Rightarrow> 'a) \<Rightarrow> ('s, 'e, 'a) prog" where
  "reads f = (\<lambda>s. (Ok (f s), s))"

definition modifies :: "('s \<Rightarrow> 's) \<Rightarrow> ('s, 'e, unit) prog" where
  "modifies f = (\<lambda>s. (Ok (), f s))"

definition of_result :: "'e + 'a \<Rightarrow> ('s, 'e, 'a) prog" where
  "of_result r = (\<lambda>s. (r, s))"

fun for_each :: "('a \<Rightarrow> ('s, 'e, unit) prog) \<Rightarrow> 'a list \<Rightarrow> ('s, 'e, unit) prog" where
  "for_each f [] = ret ()"
| "for_each f (x # xs) = and_then (f x) (\<lambda>_. for_each f xs)"

text \<open>
  The triple of a program: from a state with \<open>P\<close>, an answer leaves \<open>Q\<close> and an error
  leaves \<open>R\<close>.
\<close>

definition triple ::
  "('s \<Rightarrow> bool) \<Rightarrow> ('s, 'e, 'a) prog \<Rightarrow> ('a \<Rightarrow> 's \<Rightarrow> bool) \<Rightarrow> ('s \<Rightarrow> bool) \<Rightarrow> bool" where
  "triple P m Q R =
     (\<forall>s. P s \<longrightarrow> (case m s of (Inl e, s') \<Rightarrow> R s' | (Inr x, s') \<Rightarrow> Q x s'))"

lemma tripleI:
  assumes "\<And>s x s'. P s \<Longrightarrow> m s = (Ok x, s') \<Longrightarrow> Q x s'"
    and "\<And>s e s'. P s \<Longrightarrow> m s = (Err e, s') \<Longrightarrow> R s'"
  shows "triple P m Q R"
  using assms by (auto simp: triple_def split: prod.splits sum.splits)

lemma triple_Ok: "triple P m Q R \<Longrightarrow> P s \<Longrightarrow> m s = (Ok x, s') \<Longrightarrow> Q x s'"
  by (force simp: triple_def)

lemma triple_Err: "triple P m Q R \<Longrightarrow> P s \<Longrightarrow> m s = (Err e, s') \<Longrightarrow> R s'"
  by (force simp: triple_def)

lemma triple_weaken:
  assumes "triple P' m Q' R'" "\<And>s. P s \<Longrightarrow> P' s" "\<And>x s. Q' x s \<Longrightarrow> Q x s" "\<And>s. R' s \<Longrightarrow> R s"
  shows "triple P m Q R"
proof (rule tripleI)
  show "Q x s'" if "P s" "m s = (Ok x, s')" for s x s'
    using triple_Ok [OF assms(1) assms(2) [OF that(1)] that(2)] by (rule assms(3))
  show "R s'" if "P s" "m s = (Err e, s')" for s e s'
    using triple_Err [OF assms(1) assms(2) [OF that(1)] that(2)] by (rule assms(4))
qed

lemma triple_ret: "(\<And>s. P s \<Longrightarrow> Q x s) \<Longrightarrow> triple P (ret x) Q R"
  by (simp add: triple_def ret_def)

lemma triple_fail: "(\<And>s. P s \<Longrightarrow> R s) \<Longrightarrow> triple P (fail e) Q R"
  by (simp add: triple_def fail_def)

lemma triple_of_result:
  "(\<And>s x. P s \<Longrightarrow> r = Ok x \<Longrightarrow> Q x s) \<Longrightarrow> (\<And>s. P s \<Longrightarrow> R s) \<Longrightarrow> triple P (of_result r) Q R"
  by (simp add: triple_def of_result_def split: sum.splits)

lemma triple_reads: "(\<And>s. P s \<Longrightarrow> Q (f s) s) \<Longrightarrow> triple P (reads f) Q R"
  by (simp add: triple_def reads_def)

lemma triple_modifies: "(\<And>s. P s \<Longrightarrow> Q () (f s)) \<Longrightarrow> triple P (modifies f) Q R"
  by (simp add: triple_def modifies_def)

lemma triple_and_then:
  assumes "triple P m M R" "\<And>x. triple (M x) (f x) Q R"
  shows "triple P (and_then m f) Q R"
  unfolding triple_def
proof (intro allI impI)
  fix s assume "P s"
  with assms show "case and_then m f s of (Inl e, s') \<Rightarrow> R s' | (Inr x, s') \<Rightarrow> Q x s'"
    by (cases "m s"; cases "fst (m s)") (force simp: triple_def and_then_def)+
qed

lemma triple_for_each:
  assumes "\<And>x xs'. triple (P (x # xs')) (f x) (\<lambda>_. P xs') R"
  shows "triple (P xs) (for_each f xs) (\<lambda>_. P []) R"
proof (induction xs)
  case (Cons x xs)
  show ?case
    by (simp, rule triple_and_then [OF assms], rule Cons.IH)
qed (simp add: triple_ret)

section \<open>The outside world\<close>

datatype errno = NOENT | EXIST | LOOP | NOTDIR | WOULDBLOCK | INTR | OtherErrno

datatype file_kind = RegularFile | Directory | Symlink | OtherKind

record file_stat =
  st_kind :: file_kind
  st_uid :: nat
  st_mode :: "32 word"
  st_size :: nat
  st_dev :: nat
  st_ino :: nat

record call_error =
  ce_facts :: error_facts
  ce_retry_after :: "nat option" \<comment> \<open>milliseconds\<close>

record receipt =
  rc_scan_id :: str
  rc_report_id :: "str option"

record scan_detections =
  d_topic_violation :: "bool option"
  d_injection :: "bool option"
  d_toxic_content :: "bool option"
  d_dlp :: "bool option"
  d_url_cats :: "bool option"
  d_malicious_code :: "bool option"
  d_source_code :: "bool option"
  d_agent :: "bool option"
  d_db_security :: "bool option"
  d_ungrounded :: "bool option"

record content_error =
  ce_feature :: "str option"
  ce_status :: "str option"
  ce_content_type :: "str option"

record scan_response =
  sr_action :: str
  sr_category :: str
  sr_scan_id :: str
  sr_report_id :: str
  sr_prompt :: "scan_detections option"
  sr_response :: "scan_detections option"
  sr_errors :: "content_error list"
  sr_timeout :: bool
  sr_error :: bool

text \<open>One row of a results response; \<open>row_ext_report\<close> is the string \<open>extensions.report_id\<close>.\<close>

record scan_row =
  row_req_id :: "number option"
  row_status :: "str option"
  row_scan_id :: "str option"
  row_result :: "scan_response option"
  row_ext_report :: "str option"

record report_detection =
  rd_service :: "str option"
  rd_action :: "str option"
  rd_verdict :: "str option"

record threat_report =
  tr_scan_id :: "str option"
  tr_report_id :: "str option"
  tr_req_id :: "number option"
  tr_detections :: "report_detection list option"

text \<open>
  The calls. \<open>os_serialise\<close>, \<open>os_from_slice\<close> and \<open>os_from_value\<close> are serde's (and its derived
  code's) writer of a job state, JSON reader and typed reader,
  \<open>os_sdk\<close> the SDK's builders and limits; \<open>os_sleep\<close> is the \<open>select\<close> of a wait and the
  cancellation, \<open>True\<close> when the session is cancelled by its end.
\<close>

record 'w os =
  os_lstat :: "str \<Rightarrow> 'w \<Rightarrow> (errno + file_stat) \<times> 'w"
  os_stat :: "str \<Rightarrow> 'w \<Rightarrow> (errno + file_stat) \<times> 'w" \<comment> \<open>following symlinks\<close>
  os_canonicalize :: "str \<Rightarrow> 'w \<Rightarrow> (errno + str) \<times> 'w"
  os_create_dirs :: "str \<Rightarrow> 'w \<Rightarrow> (errno + unit) \<times> 'w"
  os_open_dir :: "str \<Rightarrow> 'w \<Rightarrow> (errno + nat) \<times> 'w"
  os_create_excl :: "str \<Rightarrow> 'w \<Rightarrow> (errno + nat) \<times> 'w"
  os_open_read :: "str \<Rightarrow> 'w \<Rightarrow> (errno + nat) \<times> 'w"
  os_open_rdwr :: "str \<Rightarrow> 'w \<Rightarrow> (errno + nat) \<times> 'w"
  os_fchmod :: "nat \<Rightarrow> 'w \<Rightarrow> (errno + unit) \<times> 'w"
  os_write_all :: "nat \<Rightarrow> str \<Rightarrow> 'w \<Rightarrow> (errno + unit) \<times> 'w"
  os_sync_all :: "nat \<Rightarrow> 'w \<Rightarrow> (errno + unit) \<times> 'w"
  os_fstat :: "nat \<Rightarrow> 'w \<Rightarrow> (errno + file_stat) \<times> 'w"
  os_read :: "nat \<Rightarrow> nat \<Rightarrow> 'w \<Rightarrow> (errno + str) \<times> 'w"
  os_rename :: "str \<Rightarrow> str \<Rightarrow> 'w \<Rightarrow> (errno + unit) \<times> 'w"
  os_unlink :: "str \<Rightarrow> 'w \<Rightarrow> (errno + unit) \<times> 'w"
  os_sync_dir :: "str \<Rightarrow> 'w \<Rightarrow> (errno + unit) \<times> 'w"
  os_read_dir :: "str \<Rightarrow> 'w \<Rightarrow> (errno + str option list) \<times> 'w" \<comment> \<open>\<open>None\<close>: a name that is not UTF-8\<close>
  os_flock :: "nat \<Rightarrow> 'w \<Rightarrow> (errno + unit) \<times> 'w"
  os_truncate :: "nat \<Rightarrow> 'w \<Rightarrow> (errno + unit) \<times> 'w"
  os_close :: "nat \<Rightarrow> 'w \<Rightarrow> (errno + unit) \<times> 'w"
  os_now :: "'w \<Rightarrow> instant \<times> 'w"
  os_monotonic :: "'w \<Rightarrow> nat \<times> 'w" \<comment> \<open>\<open>Instant::now\<close>, in milliseconds\<close>
  os_random :: "'w \<Rightarrow> str \<times> 'w"
  os_cancelled :: "'w \<Rightarrow> bool \<times> 'w"
  os_sleep :: "nat \<Rightarrow> 'w \<Rightarrow> bool \<times> 'w"
  os_submit :: "scan_object list \<Rightarrow> 'w \<Rightarrow> ((call_error + receipt) \<times> nat option) \<times> 'w"
  os_results :: "str \<Rightarrow> 'w \<Rightarrow> (call_error + scan_row list) \<times> 'w"
  os_reports :: "str list \<Rightarrow> 'w \<Rightarrow> (call_error + threat_report list) \<times> 'w"
  os_euid :: nat
  os_pid :: nat
  os_host :: str
  os_serialise :: "job_state \<Rightarrow> str option"
  os_from_slice :: "str \<Rightarrow> json option"
  os_from_value :: "json \<Rightarrow> job_state option"
  os_sdk :: sdk
  os_js_number :: "rat \<Rightarrow> str" \<comment> \<open>\<open>ryu_js\<close>\<close>

text \<open>
  The effects a trace keeps: a rename of the state file (logged before the call, with the
  state whose bytes it puts in place), a completed directory sync, a POST and its reply, the
  CSV temporary and its rename, the stderr lines and texts, the context an interruption would report
  and the counts of the summary.
\<close>

datatype event =
    Renaming job_state
  | Synced
  | Post "scan_object list"
  | Reply "scan_object list" "call_error + receipt"
  | CsvTemp str str
  | CsvRename str
  | Status str
  | Warning str
  | SuccessLine str
  | InfoLine str
  | Stderr str
  | OnInterrupt interrupt_context
  | Summary nat nat nat nat

record 'w world =
  outside :: 'w
  trace :: "event list"

definition calls :: "('w \<Rightarrow> 'a \<times> 'w) \<Rightarrow> ('w world, 'e, 'a) prog" where
  "calls f = (\<lambda>w. case f (outside w) of (x, o') \<Rightarrow> (Ok x, w\<lparr>outside := o'\<rparr>))"

definition tries :: "('w \<Rightarrow> ('e + 'a) \<times> 'w) \<Rightarrow> ('w world, 'e, 'a) prog" where
  "tries f = (\<lambda>w. case f (outside w) of (r, o') \<Rightarrow> (r, w\<lparr>outside := o'\<rparr>))"

definition logs :: "event \<Rightarrow> ('w world, 'e, unit) prog" where
  "logs ev = modifies (\<lambda>w. w\<lparr>trace := trace w @ [ev]\<rparr>)"

definition now_stamp :: "'w os \<Rightarrow> ('w world, 'e, str) prog" where
  "now_stamp E = and_then (calls (os_now E)) (\<lambda>t. ret (iso_timestamp t))"

definition private_regular :: "'w os \<Rightarrow> file_stat \<Rightarrow> bool" where
  "private_regular E st = (st_kind st = RegularFile \<and> st_uid st = os_euid E \<and> and (st_mode st) 63 = 0)"

definition identity_of :: "file_stat \<Rightarrow> identity" where
  "identity_of st = \<lparr>id_dev = st_dev st, id_ino = st_ino st\<rparr>"

section \<open>Calls leave the trace alone\<close>

lemma triple_calls:
  "(\<And>w x o'. P w \<Longrightarrow> Q x (w\<lparr>outside := o'\<rparr>)) \<Longrightarrow> triple P (calls f) Q R"
  by (auto simp: triple_def calls_def split: prod.splits)

lemma triple_tries:
  "(\<And>w x o'. P w \<Longrightarrow> Q x (w\<lparr>outside := o'\<rparr>)) \<Longrightarrow> (\<And>w o'. P w \<Longrightarrow> R (w\<lparr>outside := o'\<rparr>)) \<Longrightarrow>
   triple P (tries f) Q R"
  by (auto simp: triple_def tries_def split: prod.splits sum.splits)

lemma triple_logs:
  "(\<And>w. P w \<Longrightarrow> Q () (w\<lparr>trace := trace w @ [ev]\<rparr>)) \<Longrightarrow> triple P (logs ev) Q R"
  unfolding logs_def by (rule triple_modifies)

text \<open>A program is quiet when it leaves the trace as it was.\<close>

definition quiet :: "('w world, 'e, 'a) prog \<Rightarrow> bool" where
  "quiet m = (\<forall>w. trace (snd (m w)) = trace w)"

named_theorems quiet_rules

lemma quiet_ret [quiet_rules]: "quiet (ret x)" by (simp add: quiet_def ret_def)
lemma quiet_fail [quiet_rules]: "quiet (fail e)" by (simp add: quiet_def fail_def)
lemma quiet_of_result [quiet_rules]: "quiet (of_result r)" by (simp add: quiet_def of_result_def)

lemma quiet_calls [quiet_rules]: "quiet (calls f)"
  by (simp add: quiet_def calls_def split: prod.splits)

lemma quiet_tries [quiet_rules]: "quiet (tries f)"
  by (simp add: quiet_def tries_def split: prod.splits)

lemma quiet_attempted [quiet_rules]: "quiet m \<Longrightarrow> quiet (attempted m)"
  by (auto simp: quiet_def attempted_def split: prod.splits) (metis snd_conv)

lemma quiet_mapped_err [quiet_rules]: "quiet m \<Longrightarrow> quiet (mapped_err g m)"
  by (auto simp: quiet_def mapped_err_def split: prod.splits sum.splits) (metis snd_conv)+

lemma quiet_and_then [quiet_rules]:
  assumes "quiet m" "\<And>x. quiet (f x)"
  shows "quiet (and_then m f)"
  unfolding quiet_def
proof
  fix w
  show "trace (snd (and_then m f w)) = trace w"
    using assms by (cases "m w"; cases "fst (m w)") (auto simp: quiet_def and_then_def, (metis snd_conv)+)
qed

lemma quiet_if [quiet_rules]: "quiet a \<Longrightarrow> quiet b \<Longrightarrow> quiet (if c then a else b)" by simp

lemma quiet_sum [quiet_rules]:
  "(\<And>x. quiet (f x)) \<Longrightarrow> (\<And>y. quiet (g y)) \<Longrightarrow> quiet (case r of Inl x \<Rightarrow> f x | Inr y \<Rightarrow> g y)"
  by (simp split: sum.splits)

lemma quiet_option [quiet_rules]:
  "quiet a \<Longrightarrow> (\<And>y. quiet (g y)) \<Longrightarrow> quiet (case r of None \<Rightarrow> a | Some y \<Rightarrow> g y)"
  by (simp split: option.splits)

lemma quiet_now_stamp [quiet_rules]: "quiet (now_stamp E)"
  unfolding now_stamp_def by (intro quiet_rules)

text \<open>A quiet program keeps what is said of the trace.\<close>

lemma triple_quiet:
  assumes "quiet m" "\<And>w w' x. P w \<Longrightarrow> trace w' = trace w \<Longrightarrow> Q x w'"
    "\<And>w w'. P w \<Longrightarrow> trace w' = trace w \<Longrightarrow> R w'"
  shows "triple P m Q R"
proof (rule tripleI)
  have same: "m s = (r, s') \<Longrightarrow> trace s' = trace s" for s r s'
    using assms(1) unfolding quiet_def by (metis snd_conv)
  show "Q x s'" if "P s" "m s = (Ok x, s')" for s x s'
    using assms(2) [OF that(1) same [OF that(2)]] .
  show "R s'" if "P s" "m s = (Err e, s')" for s e s'
    using assms(3) [OF that(1) same [OF that(2)]] .
qed

end
