(* ===== verification/Checkpoint.thy ===== *)
theory Checkpoint
  imports World
begin

text \<open>
  \<open>src/bulk/checkpoint.rs\<close> and \<open>parse\<close> of \<open>src/bulk/state.rs\<close>: the only way the job state
  is written, its checked load and the sweep of stale temporaries.

  \<open>checkpoint\<close> works on the running job (\<open>sys\<close>): the state, the state file and the world.
  Its contract (\<open>checkpoint_effect\<close>): it appends to the trace nothing, the rename, or the
  rename and the completed directory sync; it answers \<open>Ok\<close> only in the last case, and then
  the state it was given satisfied every invariant.
\<close>

datatype consequence =
    NothingSubmitted
  | AcceptedUnder str str
  | Results

fun consequence_text :: "consequence \<Rightarrow> str" where
  "consequence_text NothingSubmitted = ''no further prompts were submitted''"
| "consequence_text (AcceptedUnder rs scan_id) =
     ''prompts '' @ rs @ '' were accepted under scan '' @ scan_id
     @ '', but the job state could not be saved''"
| "consequence_text Results = ''results since the last save will be polled again by resume-poll''"

section \<open>Temporary names\<close>

definition is_stale_temp :: "str \<Rightarrow> str \<Rightarrow> bool" where
  "is_stale_temp name state_name =
     (case Option.bind (Option.bind (Option.bind (strip_prefix ''.'' name)
              (strip_prefix state_name)) (strip_prefix ''.'')) (strip_suffix ''.tmp'') of
        None \<Rightarrow> False
      | Some rest \<Rightarrow>
          (case split_once (CHR ''.'') rest of
             None \<Rightarrow> False
           | Some (pid, hex) \<Rightarrow>
               1 \<le> length pid \<and> length pid \<le> 10 \<and> list_all is_digit pid
               \<and> length hex = 16 \<and> list_all is_lower_hex hex))"

definition temp_name :: "str \<Rightarrow> nat \<Rightarrow> str \<Rightarrow> str" where
  "temp_name name pid random =
     ''.'' @ name @ ''.'' @ dec pid @ ''.'' @ random_hex random @ ''.tmp''"

section \<open>Loading\<close>

datatype load_problem = Malformed | TypeScript | Newer | Invalid str

definition parse_state :: "'w os \<Rightarrow> str \<Rightarrow> load_problem + job_state" where
  "parse_state E input =
     (case os_from_slice E input of
        None \<Rightarrow> Err Malformed
      | Some v \<Rightarrow>
          (let refused = (case v of
               JObject entries \<Rightarrow>
                 (case jlookup entries ''format'' of
                    None \<Rightarrow> if contains_key entries ''version'' \<or> contains_key entries ''scanIds''
                            then Some TypeScript else None
                  | Some (JString format) \<Rightarrow>
                      if format = format_name
                         \<and> (case Option.bind (jlookup entries ''version'') as_u64 of
                              Some version \<Rightarrow> state_version < version | None \<Rightarrow> False)
                      then Some Newer else None
                  | Some _ \<Rightarrow> None)
             | _ \<Rightarrow> None)
           in case refused of
                Some e \<Rightarrow> Err e
              | None \<Rightarrow>
                  (case os_from_value E v of
                     None \<Rightarrow> Err (Invalid ''the file does not match the bulk-scan state schema'')
                   | Some st \<Rightarrow>
                       (case validate st of Inl why \<Rightarrow> Err (Invalid why) | Inr _ \<Rightarrow> Ok st))))"

fun load_error :: "str \<Rightarrow> load_problem \<Rightarrow> cli_error" where
  "load_error path Malformed =
     operational (''Invalid bulk-scan state '' @ shown path @ '': malformed JSON'')"
| "load_error path TypeScript = operational
     (shown path @ '' is a TypeScript airs-cli bulk-scan state; '' @ program
      @ '' cannot resume it. Resume it with the TypeScript airs-cli, or start a new job with ''
      @ CHR 0x27 # program @ '' runtime bulk-scan'' @ [CHR 0x27] @ ''.'')"
| "load_error path Newer = operational
     (shown path @ '' was written by a newer version of '' @ program @ ''; upgrade '' @ program
      @ '' to resume it'')"
| "load_error path (Invalid reason) =
     operational (''Invalid bulk-scan state '' @ shown path @ '': '' @ reason)"

definition unsafe_file_error :: "str \<Rightarrow> cli_error" where
  "unsafe_file_error path = operational
     (''Refusing to use '' @ shown path @ '': it must be a regular file (not a symlink) owned by the current user with no group or other permissions (chmod 600)'')"

definition unsafe_dir_error :: "str \<Rightarrow> cli_error" where
  "unsafe_dir_error dir = operational (''Refusing to use '' @ shown dir
     @ '': it must be a directory (not a symlink) owned by the current user and not writable by group or others'')"

definition cannot_create :: "str \<Rightarrow> cli_error" where
  "cannot_create dir = operational (''Cannot create '' @ shown dir
     @ ''; check the permissions of its parent directory'')"

definition dir_metadata_ok :: "bool \<Rightarrow> nat \<Rightarrow> 32 word \<Rightarrow> nat \<Rightarrow> bool" where
  "dir_metadata_ok is_dir uid mode euid = (is_dir \<and> uid = euid \<and> and mode 18 = 0)"

definition dir_ok :: "'w os \<Rightarrow> file_stat \<Rightarrow> bool" where
  "dir_ok E st = dir_metadata_ok (st_kind st = Directory) (st_uid st) (st_mode st) (os_euid E)"

section \<open>The running job\<close>

record state_file =
  sf_dir :: str
  sf_name :: str
  sf_identity :: "identity option"

record output_file =
  of_path :: str
  of_warned :: bool

record job_lock =
  lk_fd :: nat
  lk_name :: str
  lk_path :: str

record job =
  jb_state :: job_state
  jb_file :: state_file
  jb_output :: output_file
  jb_lock :: "job_lock option"

record 'w sys =
  the_job :: job
  the_world :: "'w world"

definition in_world :: "('w world, 'e, 'a) prog \<Rightarrow> ('w sys, 'e, 'a) prog" where
  "in_world m = (\<lambda>s. case m (the_world s) of (r, w) \<Rightarrow> (r, s\<lparr>the_world := w\<rparr>))"

definition with_job :: "(job \<Rightarrow> job) \<Rightarrow> ('w sys, 'e, unit) prog" where
  "with_job f = modifies (\<lambda>s. s\<lparr>the_job := f (the_job s)\<rparr>)"

definition with_state :: "(job_state \<Rightarrow> job_state) \<Rightarrow> ('w sys, 'e, unit) prog" where
  "with_state f = with_job (\<lambda>j. j\<lparr>jb_state := f (jb_state j)\<rparr>)"

definition the_state :: "'w sys \<Rightarrow> job_state" where
  "the_state s = jb_state (the_job s)"

definition new_file :: "str \<Rightarrow> str \<Rightarrow> state_file" where
  "new_file dir job = \<lparr>sf_dir = dir, sf_name = job @ state_suffix, sf_identity = None\<rparr>"

definition file_path :: "state_file \<Rightarrow> str" where
  "file_path f = joined (sf_dir f) (sf_name f)"

definition file_shown :: "state_file \<Rightarrow> str" where
  "file_shown f = shown (file_path f)"

definition cannot_save :: "state_file \<Rightarrow> consequence \<Rightarrow> cli_error" where
  "cannot_save f c = operational (''Cannot save '' @ file_shown f @ ''; '' @ consequence_text c)"

section \<open>checkpoint\<close>

text \<open>Create the temporary exclusively, write and sync it, and take its identity.\<close>

definition write_temp :: "'w os \<Rightarrow> str \<Rightarrow> str \<Rightarrow> ('w world, errno, identity) prog" where
  "write_temp E temp contents =
     and_then (tries (os_create_excl E temp)) (\<lambda>fd.
     and_then (tries (os_fchmod E fd)) (\<lambda>_.
     and_then (tries (os_write_all E fd contents)) (\<lambda>_.
     and_then (tries (os_sync_all E fd)) (\<lambda>_.
     and_then (tries (os_fstat E fd)) (\<lambda>st. ret (identity_of st))))))"

definition unlinked :: "'w os \<Rightarrow> str \<Rightarrow> ('w world, 'e, errno + unit) prog" where
  "unlinked E path = attempted (tries (os_unlink E path))"

definition checkpoint :: "'w os \<Rightarrow> consequence \<Rightarrow> ('w sys, cli_error, unit) prog" where
  "checkpoint E c =
     and_then (reads the_job) (\<lambda>job.
     let file = jb_file job; failed = fail (cannot_save file c)
     in if \<not> is_ok (validate (jb_state job)) then failed else
     and_then (in_world (now_stamp E)) (\<lambda>now.
     and_then (with_state (\<lambda>st. st\<lparr>j_sequence := j_sequence st + 1, j_updated := now\<rparr>)) (\<lambda>_.
     and_then (reads the_state) (\<lambda>st.
     case os_serialise E st of
       None \<Rightarrow> failed
     | Some contents \<Rightarrow>
         if max_state_bytes < length contents
         then fail (operational (''Cannot save '' @ file_shown file
                @ ''; the job state would exceed 128 MiB''))
         else
     and_then (in_world (calls (os_random E))) (\<lambda>random.
     let temp = joined (sf_dir file) (temp_name (sf_name file) (os_pid E) random)
     in and_then (attempted (in_world (write_temp E temp contents))) (\<lambda>written.
     case written of
       Inl _ \<Rightarrow> and_then (in_world (unlinked E temp)) (\<lambda>_. failed)
     | Inr fresh \<Rightarrow>
     and_then (attempted (in_world (tries (os_lstat E (file_path file))))) (\<lambda>in_place.
     let ours = (case in_place of
            Inr stat \<Rightarrow> private_regular E stat \<and> sf_identity file = Some (identity_of stat)
          | Inl e \<Rightarrow> e = NOENT \<and> sf_identity file = None)
     in if \<not> ours
        then and_then (in_world (unlinked E temp)) (\<lambda>_. fail (operational
               (file_shown file @ '' was changed by another program; the job was stopped'')))
        else
     and_then (in_world (logs (Renaming st))) (\<lambda>_.
     and_then (attempted (in_world (tries (os_rename E temp (file_path file))))) (\<lambda>renamed.
     case renamed of
       Inl _ \<Rightarrow> and_then (in_world (unlinked E temp)) (\<lambda>_. failed)
     | Inr _ \<Rightarrow>
     and_then (with_job (\<lambda>j. j\<lparr>jb_file := file\<lparr>sf_identity := Some fresh\<rparr>\<rparr>)) (\<lambda>_.
     and_then (attempted (in_world (tries (os_sync_dir E (sf_dir file))))) (\<lambda>synced.
     case synced of Inl _ \<Rightarrow> failed | Inr _ \<Rightarrow> in_world (logs Synced))))))))))))"

section \<open>load, sweep_temps, remove_if_ours\<close>

definition load :: "'w os \<Rightarrow> str \<Rightarrow> str \<Rightarrow> ('w world, cli_error, state_file \<times> job_state) prog" where
  "load E dir job =
     (let file = new_file dir job; path = file_path file;
          cannot_read = operational (''Cannot read '' @ shown path
            @ '' (missing, not a regular file, unreadable or larger than 128 MiB)'')
      in and_then (mapped_err (\<lambda>_. cannot_read) (tries (os_lstat E path))) (\<lambda>before.
         if \<not> private_regular E before then fail (unsafe_file_error path) else
         and_then (mapped_err (\<lambda>e. if e = LOOP then unsafe_file_error path else cannot_read)
                     (tries (os_open_read E path))) (\<lambda>fd.
         and_then (mapped_err (\<lambda>_. cannot_read) (tries (os_fstat E fd))) (\<lambda>after.
         if \<not> private_regular E after \<or> identity_of after \<noteq> identity_of before
         then fail (unsafe_file_error path) else
         and_then (mapped_err (\<lambda>_. cannot_read) (tries (os_read E fd (max_state_bytes + 1)))) (\<lambda>contents.
         if max_state_bytes < length contents then fail cannot_read else
         case parse_state E contents of
           Inl e \<Rightarrow> fail (load_error path e)
         | Inr st \<Rightarrow>
             if j_job_id st \<noteq> job
             then fail (load_error path (Invalid ''jobId does not match the file name''))
             else ret (file\<lparr>sf_identity := Some (identity_of after)\<rparr>, st))))))"

fun sweep_entries :: "'w os \<Rightarrow> state_file \<Rightarrow> nat \<Rightarrow> str option list \<Rightarrow> ('w world, 'e, nat) prog" where
  "sweep_entries E file removed [] = ret removed"
| "sweep_entries E file removed (entry # entries) =
     (case entry of
        None \<Rightarrow> sweep_entries E file removed entries
      | Some name \<Rightarrow>
          if \<not> is_stale_temp name (sf_name file) then sweep_entries E file removed entries
          else
            and_then (attempted (tries (os_lstat E (joined (sf_dir file) name)))) (\<lambda>stat.
            if (case stat of Inr st \<Rightarrow> private_regular E st | Inl (e :: errno) \<Rightarrow> False)
            then and_then (unlinked E (joined (sf_dir file) name)) (\<lambda>gone.
                 sweep_entries E file (if is_ok gone then removed + 1 else removed) entries)
            else sweep_entries E file removed entries))"

definition sweep_temps :: "'w os \<Rightarrow> state_file \<Rightarrow> ('w world, 'e, nat) prog" where
  "sweep_temps E file =
     and_then (attempted (tries (os_read_dir E (sf_dir file)))) (\<lambda>entries.
     case entries of Inl (e :: errno) \<Rightarrow> ret 0 | Inr names \<Rightarrow> sweep_entries E file 0 names)"

definition remove_if_ours :: "'w os \<Rightarrow> state_file \<Rightarrow> ('w world, 'e, unit) prog" where
  "remove_if_ours E file =
     (case sf_identity file of
        None \<Rightarrow> ret ()
      | Some ident \<Rightarrow>
          and_then (attempted (tries (os_lstat E (file_path file)))) (\<lambda>stat.
          if (case stat of Inr st \<Rightarrow> identity_of st = ident | Inl (e :: errno) \<Rightarrow> False)
          then and_then (unlinked E (file_path file)) (\<lambda>_. ret ())
          else ret ()))"

section \<open>What a checkpoint does\<close>

definition stamped :: "job_state \<Rightarrow> job_state \<Rightarrow> bool" where
  "stamped st st' = (\<exists>now. st' = st\<lparr>j_sequence := j_sequence st + 1, j_updated := now\<rparr>)"

text \<open>\<open>holding j t\<close>: the job is \<open>j\<close> and the trace is \<open>t\<close>.\<close>

definition holding :: "job \<Rightarrow> event list \<Rightarrow> 'w sys \<Rightarrow> bool" where
  "holding j t s = (the_job s = j \<and> trace (the_world s) = t)"

lemma holding_quiet:
  assumes "quiet m"
  shows "triple (holding j t) (in_world m) (\<lambda>_. holding j t) (holding j t)"
proof (rule tripleI)
  have same: "the_job s' = the_job s \<and> trace (the_world s') = trace (the_world s)"
    if "in_world m s = (r, s')" for s r s'
  proof -
    from that obtain w where "m (the_world s) = (r, w)" "s' = s\<lparr>the_world := w\<rparr>"
      by (auto simp: in_world_def split: prod.splits)
    with assms show ?thesis by (simp add: quiet_def, metis snd_conv)
  qed
  show "holding j t s'" if "holding j t s" "in_world m s = (Ok x, s')" for s x s'
    using same [OF that(2)] that(1) by (simp add: holding_def)
  show "holding j t s'" if "holding j t s" "in_world m s = (Err e, s')" for s e s'
    using same [OF that(2)] that(1) by (simp add: holding_def)
qed

lemma triple_attempted:
  assumes "triple P m (\<lambda>x. Q (Ok x)) (\<lambda>s. \<forall>e. Q (Err e) s)"
  shows "triple P (attempted m) Q R"
proof (rule tripleI)
  fix s x s' assume "P s" "attempted m s = (Ok x, s')"
  with assms show "Q x s'"
    by (cases x) (auto simp: attempted_def triple_def split: prod.splits)
qed (auto simp: attempted_def split: prod.splits)

lemma holding_tried: "quiet m \<Longrightarrow> triple (holding j t) (attempted (in_world m)) (\<lambda>_. holding j t) R"
  by (rule triple_attempted, rule triple_weaken [OF holding_quiet]) auto

lemma holding_world: "quiet m \<Longrightarrow> (\<And>s. holding j t s \<Longrightarrow> R s) \<Longrightarrow> triple (holding j t) (in_world m) (\<lambda>_. holding j t) R"
  by (rule triple_weaken [OF holding_quiet]) auto

lemma holding_logs: "triple (holding j t) (in_world (logs ev)) (\<lambda>_. holding j (t @ [ev])) R"
  by (simp add: triple_def in_world_def logs_def modifies_def holding_def)

lemma holding_with_job: "triple (holding j t) (with_job f) (\<lambda>_. holding (f j) t) R"
  by (simp add: triple_def with_job_def modifies_def holding_def)

lemma holding_with_state: "triple (holding j t) (with_state f) (\<lambda>_. holding (j\<lparr>jb_state := f (jb_state j)\<rparr>) t) R"
  unfolding with_state_def by (rule holding_with_job)

text \<open>Reading the job or the state of \<open>holding j t\<close> gives \<open>j\<close>'s.\<close>

lemma holding_read:
  assumes "\<And>s. holding j t s \<Longrightarrow> f s = x" "triple (holding j t) (g x) Q R"
  shows "triple (holding j t) (and_then (reads f) g) Q R"
  using assms by (auto simp: triple_def and_then_def reads_def)

lemma quiet_write_temp [quiet_rules]: "quiet (write_temp E temp contents)"
  unfolding write_temp_def by (intro quiet_rules)

lemma quiet_unlinked [quiet_rules]: "quiet (unlinked E path)"
  unfolding unlinked_def by (intro quiet_rules)

definition saved_as :: "job \<Rightarrow> job_state \<Rightarrow> job \<Rightarrow> bool" where
  "saved_as j st j' = (\<exists>i. j' = j\<lparr>jb_state := st, jb_file := (jb_file j)\<lparr>sf_identity := i\<rparr>\<rparr>)"

lemma saved_as_same: "saved_as j (jb_state j) j"
  unfolding saved_as_def by (rule exI [of _ "sf_identity (jb_file j)"]) simp

lemma saved_as_state: "saved_as j st (j\<lparr>jb_state := st\<rparr>)"
  unfolding saved_as_def by (rule exI [of _ "sf_identity (jb_file j)"]) simp

definition checkpoint_ok :: "job \<Rightarrow> event list \<Rightarrow> 'w sys \<Rightarrow> bool" where
  "checkpoint_ok j t s = (\<exists>st. stamped (jb_state j) st \<and> valid_state (jb_state j)
     \<and> saved_as j st (the_job s) \<and> trace (the_world s) = t @ [Renaming st, Synced])"

definition checkpoint_err :: "job \<Rightarrow> event list \<Rightarrow> 'w sys \<Rightarrow> bool" where
  "checkpoint_err j t s = (\<exists>st. (st = jb_state j \<or> stamped (jb_state j) st) \<and> saved_as j st (the_job s)
     \<and> (trace (the_world s) = t
        \<or> trace (the_world s) = t @ [Renaming st] \<and> valid_state (jb_state j) \<and> stamped (jb_state j) st))"

lemma checkpoint_triple:
  "triple (holding j t) (checkpoint E c) (\<lambda>_. checkpoint_ok j t) (checkpoint_err j t)"
proof -
  define stamp where "stamp now = j\<lparr>jb_state := (jb_state j)\<lparr>j_sequence := j_sequence (jb_state j) + 1, j_updated := now\<rparr>\<rparr>" for now
  have st: "stamped (jb_state j) (jb_state (stamp now))" for now
    by (auto simp: stamp_def stamped_def)
  have err0: "checkpoint_err j t s" if "holding j t s" for s
    using that saved_as_same [of j] unfolding holding_def checkpoint_err_def by blast
  have err1: "checkpoint_err j t s" if "holding (stamp now) t s" for s now
    using that st [of now] saved_as_state [of j] unfolding holding_def checkpoint_err_def stamp_def by auto
  have err2: "checkpoint_err j t s"
    if "holding (stamp now) (t @ [Renaming (jb_state (stamp now))]) s" "valid_state (jb_state j)" for s now
    using that st [of now] saved_as_state [of j] unfolding holding_def checkpoint_err_def stamp_def by auto
  have sv: "saved_as j (jb_state (stamp now)) ((stamp now)\<lparr>jb_file := jb_file j\<lparr>sf_identity := Some i\<rparr>\<rparr>)" for now i
    unfolding saved_as_def stamp_def by (rule exI [of _ "Some i"]) simp
  show ?thesis
    unfolding checkpoint_def Let_def
    apply (rule holding_read [where x = j])
     apply (simp add: holding_def)
    apply (split if_split, intro conjI impI)
     apply (rule triple_fail, erule err0)
    subgoal premises valid
    proof -
      have v: "valid_state (jb_state j)" using valid by (simp add: is_ok_iff flip: validate_valid)
      show ?thesis
        apply (rule triple_and_then, rule holding_world, intro quiet_rules, erule err0)
        apply (rule triple_and_then, rule holding_with_state)
        subgoal for now
          apply (fold stamp_def)
          apply (rule holding_read [where x = "jb_state (stamp now)"])
           apply (simp add: holding_def the_state_def)
          apply (split option.split, intro conjI allI impI)
           apply (rule triple_fail, erule err1)
          apply (split if_split, intro conjI impI)
           apply (rule triple_fail, erule err1)
          apply (rule triple_and_then, rule holding_world, intro quiet_rules, erule err1)
          apply (rule triple_and_then, rule holding_tried, intro quiet_rules)
          apply (split sum.split, intro conjI allI impI)
           apply (rule triple_and_then, rule holding_world, intro quiet_rules, erule err1)
           apply (rule triple_fail, erule err1)
          apply (rule triple_and_then, rule holding_tried, intro quiet_rules)
          apply (split if_split, intro conjI impI)
           apply (rule triple_and_then, rule holding_world, intro quiet_rules, erule err1)
           apply (rule triple_fail, erule err1)
          apply (rule triple_and_then, rule holding_logs)
          apply (rule triple_and_then, rule holding_tried, intro quiet_rules)
          apply (split sum.split, intro conjI allI impI)
           apply (rule triple_and_then, rule holding_world, intro quiet_rules, erule err2, rule v)
           apply (rule triple_fail, erule err2, rule v)
          apply (rule triple_and_then, rule holding_with_job)
          apply (rule triple_and_then, rule holding_tried, intro quiet_rules)
          apply (split sum.split, intro conjI allI impI)
           apply (rule triple_fail)
          using sv [of now] st [of now] v
           apply (auto simp: holding_def checkpoint_err_def) []
          apply (rule triple_weaken [OF holding_logs], assumption)
          using sv [of now] st [of now] v
           apply (auto simp: holding_def checkpoint_ok_def) []
          apply simp
          done
        done
    qed
    done
qed

end
