(* ===== verification/JobLock.thy ===== *)
theory JobLock
  imports Checkpoint
begin

text \<open>
  \<open>src/bulk/lock.rs\<close> and the holder record of \<open>src/store/lock.rs\<close>: the per-job lock
  file, opened relative to the state directory, and the text that names its holder.
\<close>

section \<open>The holder record\<close>

definition record_limit :: nat where "record_limit = 512"
definition lock_attempts :: nat where "lock_attempts = 3"

text \<open>\<open>cut_to\<close>: back from \<open>limit\<close> to a character boundary.\<close>

fun cut_back :: "str \<Rightarrow> nat \<Rightarrow> str" where
  "cut_back s 0 = []"
| "cut_back s (Suc n) =
     (if length s \<le> Suc n \<or> \<not> is_cont (s ! Suc n) then take (Suc n) s else cut_back s n)"

definition cut_to :: "str \<Rightarrow> nat \<Rightarrow> str" where
  "cut_to s limit = (if length s \<le> limit then s else cut_back s limit)"

definition holder_record :: "nat \<Rightarrow> str \<Rightarrow> instant \<Rightarrow> str" where
  "holder_record pid host since =
     ''pid='' @ dec pid @ nl @ ''host='' @ cut_to host 255 @ nl
     @ ''since='' @ take 19 (iso_timestamp since) @ ''Z'' @ nl"

definition since_shaped :: "str \<Rightarrow> bool" where
  "since_shaped s =
     (length s = 20 \<and> all_indexed_from 0 (\<lambda>index b.
        if index = 4 \<or> index = 7 then b = CHR ''-''
        else if index = 10 then b = CHR ''T''
        else if index = 13 \<or> index = 16 then b = CHR '':''
        else if index = 19 then b = CHR ''Z''
        else is_digit b) s)"

text \<open>\<open>std::str::from_utf8\<close>: the well-formed byte sequences.\<close>

definition in_range :: "nat \<Rightarrow> nat \<Rightarrow> char \<Rightarrow> bool" where
  "in_range a b c = (a \<le> code c \<and> code c \<le> b)"

fun valid_utf8 :: "str \<Rightarrow> bool" where
  "valid_utf8 [] = True"
| "valid_utf8 (a # s) =
     (if code a < 128 then valid_utf8 s
      else case s of
        b # s2 \<Rightarrow>
          if in_range 194 223 a then in_range 128 191 b \<and> valid_utf8 s2
          else (case s2 of
            c # s3 \<Rightarrow>
              if in_range 224 239 a then
                in_range (if code a = 224 then 160 else 128) (if code a = 237 then 159 else 191) b
                \<and> in_range 128 191 c \<and> valid_utf8 s3
              else (case s3 of
                d # s4 \<Rightarrow>
                  in_range 240 244 a
                  \<and> in_range (if code a = 240 then 144 else 128) (if code a = 244 then 143 else 191) b
                  \<and> in_range 128 191 c \<and> in_range 128 191 d \<and> valid_utf8 s4
              | [] \<Rightarrow> False)
          | [] \<Rightarrow> False)
      | [] \<Rightarrow> False)"

definition parse_holder :: "str \<Rightarrow> str option" where
  "parse_holder record =
     (if \<not> valid_utf8 record then None
      else Option.bind (strip_suffix nl record) (\<lambda>body.
        case split_on newline body of
          [pid_line, host_line, since_line] \<Rightarrow>
            Option.bind (strip_prefix ''pid='' pid_line) (\<lambda>pid.
            Option.bind (strip_prefix ''host='' host_line) (\<lambda>host.
            Option.bind (strip_prefix ''since='' since_line) (\<lambda>since.
              if 1 \<le> length pid \<and> length pid \<le> 10 \<and> list_all is_digit pid
                 \<and> 1 \<le> length host \<and> length host \<le> 255
                 \<and> \<not> list_ex is_control (utf8_chars host) \<and> since_shaped since
              then Some (''pid '' @ pid @ '' on '' @ host @ '' since '' @ since) else None)))
        | _ \<Rightarrow> None))"

definition holder_text :: "str \<Rightarrow> str" where
  "holder_text record =
     (case parse_holder record of Some t \<Rightarrow> terminal_safe t | None \<Rightarrow> ''another process'')"

definition active_message :: "str \<Rightarrow> str \<Rightarrow> str" where
  "active_message record state =
     (let holder = holder_text record;
          holder' = (case strip_prefix ''pid '' holder of
             Some rest \<Rightarrow> ''process '' @ rest | None \<Rightarrow> holder)
      in ''Bulk-scan job is already active in '' @ holder'
         @ ''. Wait for it to finish before resuming '' @ state @ ''.'')"

section \<open>The lock\<close>

definition lock_name :: "str \<Rightarrow> str" where
  "lock_name job = job @ ''.lock''"

definition cannot_lock :: "str \<Rightarrow> cli_error" where
  "cannot_lock path = operational
     (''Cannot lock '' @ shown path @ ''; the file system may not support file locks'')"

definition still_named :: "'w os \<Rightarrow> str \<Rightarrow> nat \<Rightarrow> ('w world, 'e, bool) prog" where
  "still_named E path fd =
     and_then (attempted (tries (os_fstat E fd))) (\<lambda>held.
     and_then (attempted (tries (os_lstat E path))) (\<lambda>named.
     ret (case (held, named) of
            (Inr h, Inr n) \<Rightarrow> identity_of h = identity_of n
          | (Inl (e :: errno), _) \<Rightarrow> False
          | (_, Inl (e :: errno)) \<Rightarrow> False)))"

text \<open>\<open>JobLock::lock\<close>: \<open>None\<close> when the file was removed or replaced before it was locked.\<close>

definition lock_file :: "'w os \<Rightarrow> nat \<Rightarrow> str \<Rightarrow> str \<Rightarrow> str \<Rightarrow>
    ('w world, cli_error, job_lock option) prog" where
  "lock_file E fd name path state =
     and_then (attempted (tries (os_flock E fd))) (\<lambda>locked.
     case locked of
       Inl e \<Rightarrow>
         if e = WOULDBLOCK then
           and_then (attempted (tries (os_read E fd record_limit))) (\<lambda>rec.
           fail (operational (active_message
             (case rec of Inr r \<Rightarrow> r | Inl (e :: errno) \<Rightarrow> []) state)))
         else fail (cannot_lock path)
     | Inr _ \<Rightarrow>
         and_then (still_named E path fd) (\<lambda>named.
         if \<not> named then ret None
         else
           and_then (calls (os_now E)) (\<lambda>now.
           and_then (attempted (tries (os_truncate E fd))) (\<lambda>(_ :: errno + unit).
           and_then (attempted (tries (os_write_all E fd (holder_record (os_pid E) (cut_to (os_host E) 255) now))))
             (\<lambda>(_ :: errno + unit).
           ret (Some \<lparr>lk_fd = fd, lk_name = name, lk_path = path\<rparr>))))))"

definition create_lock :: "'w os \<Rightarrow> str \<Rightarrow> str \<Rightarrow> str \<Rightarrow> ('w world, cli_error, job_lock) prog" where
  "create_lock E dir job state =
     (let name = lock_name job; path = joined dir name
      in and_then (mapped_err (\<lambda>(_ :: errno). cannot_lock path) (tries (os_create_excl E path))) (\<lambda>fd.
         and_then (mapped_err (\<lambda>(_ :: errno). cannot_lock path) (tries (os_fchmod E fd))) (\<lambda>_.
         and_then (lock_file E fd name path state) (\<lambda>lock.
         case lock of Some l \<Rightarrow> ret l | None \<Rightarrow> fail (cannot_lock path)))))"

definition open_existing :: "'w os \<Rightarrow> str \<Rightarrow> ('w world, cli_error, nat) prog" where
  "open_existing E path =
     and_then (attempted (tries (os_create_excl E path))) (\<lambda>created.
     case created of
       Inr fd \<Rightarrow>
         and_then (mapped_err (\<lambda>(_ :: errno). cannot_lock path) (tries (os_fchmod E fd))) (\<lambda>_. ret fd)
     | Inl EXIST \<Rightarrow>
         and_then (mapped_err (\<lambda>(_ :: errno). cannot_lock path) (tries (os_lstat E path))) (\<lambda>before.
         if \<not> private_regular E before then fail (unsafe_file_error path) else
         and_then (mapped_err (\<lambda>e. if e = LOOP then unsafe_file_error path else cannot_lock path)
                     (tries (os_open_rdwr E path))) (\<lambda>fd.
         and_then (mapped_err (\<lambda>(_ :: errno). cannot_lock path) (tries (os_fstat E fd))) (\<lambda>after.
         if \<not> private_regular E after \<or> identity_of after \<noteq> identity_of before
         then fail (unsafe_file_error path) else ret fd)))
     | Inl LOOP \<Rightarrow> fail (unsafe_file_error path)
     | Inl _ \<Rightarrow> fail (cannot_lock path))"

fun acquire_loop :: "'w os \<Rightarrow> nat \<Rightarrow> str \<Rightarrow> str \<Rightarrow> str \<Rightarrow> ('w world, cli_error, job_lock) prog" where
  "acquire_loop E 0 name path state = fail (cannot_lock path)"
| "acquire_loop E (Suc n) name path state =
     and_then (open_existing E path) (\<lambda>fd.
     and_then (lock_file E fd name path state) (\<lambda>lock.
     case lock of Some l \<Rightarrow> ret l | None \<Rightarrow> acquire_loop E n name path state))"

definition acquire_lock :: "'w os \<Rightarrow> str \<Rightarrow> str \<Rightarrow> str \<Rightarrow> ('w world, cli_error, job_lock) prog" where
  "acquire_lock E dir job state =
     acquire_loop E lock_attempts (lock_name job) (joined dir (lock_name job)) state"

definition still_held :: "'w os \<Rightarrow> str \<Rightarrow> job_lock \<Rightarrow> ('w world, 'e, bool) prog" where
  "still_held E dir lock = still_named E (joined dir (lk_name lock)) (lk_fd lock)"

definition removed_message :: "job_lock \<Rightarrow> str" where
  "removed_message lock =
     shown (lk_path lock) @ '' was removed or replaced by another program; the job was stopped''"

definition release_lock :: "'w os \<Rightarrow> job_lock \<Rightarrow> ('w world, 'e, unit) prog" where
  "release_lock E lock =
     and_then (attempted (tries (os_truncate E (lk_fd lock)))) (\<lambda>(_ :: errno + unit).
     and_then (attempted (tries (os_close E (lk_fd lock)))) (\<lambda>(_ :: errno + unit). ret ()))"

definition remove_lock :: "'w os \<Rightarrow> str \<Rightarrow> job_lock \<Rightarrow> ('w world, 'e, unit) prog" where
  "remove_lock E dir lock =
     and_then (still_named E (joined dir (lk_name lock)) (lk_fd lock)) (\<lambda>ours.
     and_then (if ours then and_then (unlinked E (joined dir (lk_name lock))) (\<lambda>_. ret ()) else ret ())
       (\<lambda>_. release_lock E lock))"

section \<open>Lock operations leave the trace alone\<close>

lemma quiet_still_named [quiet_rules]: "quiet (still_named E path fd)"
  unfolding still_named_def by (intro quiet_rules)

lemma quiet_still_held [quiet_rules]: "quiet (still_held E dir lock)"
  unfolding still_held_def by (intro quiet_rules)

lemma quiet_lock_file [quiet_rules]: "quiet (lock_file E fd name path state)"
  unfolding lock_file_def by (intro quiet_rules)

lemma quiet_create_lock [quiet_rules]: "quiet (create_lock E dir job state)"
  unfolding create_lock_def Let_def by (intro quiet_rules)

lemma quiet_release_lock [quiet_rules]: "quiet (release_lock E lock)"
  unfolding release_lock_def by (intro quiet_rules)

lemma quiet_remove_lock [quiet_rules]: "quiet (remove_lock E dir lock)"
  unfolding remove_lock_def by (intro quiet_rules)

lemma quiet_open_existing [quiet_rules]: "quiet (open_existing E path)"
proof -
  have "quiet (case e of EXIST \<Rightarrow> a | LOOP \<Rightarrow> b | _ \<Rightarrow> c)" if "quiet a" "quiet b" "quiet c"
    for e :: errno and a b c :: "('w world, cli_error, nat) prog"
    using that by (cases e) simp_all
  then show ?thesis unfolding open_existing_def
    by (intro quiet_rules) (simp split: errno.split, intro conjI impI quiet_rules)
qed

lemma quiet_acquire_loop [quiet_rules]: "quiet (acquire_loop E n name path state)"
  by (induction n) (simp, intro quiet_rules, simp, intro quiet_rules)

lemma quiet_acquire_lock [quiet_rules]: "quiet (acquire_lock E dir job state)"
  unfolding acquire_lock_def by (intro quiet_rules)

end
