(* ===== verification/BulkOutput.thy ===== *)
theory BulkOutput
  imports JobLock
begin

text \<open>
  \<open>src/bulk/output.rs\<close>: the CSV projection of the state, the default name, the claim of
  the output file and its identity-checked rewrite around a checkpoint (and the temporary
  names of \<open>src/store/atomic.rs\<close>).
\<close>

section \<open>The projection\<close>

definition prompt_keys :: "str list" where
  "prompt_keys = [''topic_violation'', ''injection'', ''toxic_content'', ''dlp'', ''url_cats'',
                  ''malicious_code'', ''source_code'', ''agent'']"

definition header :: str where
  "header = ''prompt,action,category,triggered,topic_violation,injection,toxic_content,dlp,url_cats,malicious_code,source_code,agent,scan_id,report_id,error''"

definition dquote :: char where "dquote = CHR 0x22"

fun doubled :: "str \<Rightarrow> str" where
  "doubled [] = []"
| "doubled (c # s) = (if c = dquote then dquote # dquote # doubled s else c # doubled s)"

definition quote :: "str \<Rightarrow> str" where
  "quote s = dquote # doubled s @ [dquote]"

definition flag_text :: "bool \<Rightarrow> str" where
  "flag_text b = (if b then ''true'' else ''false'')"

definition row_fields :: "item \<Rightarrow> item_result \<Rightarrow> str list" where
  "row_fields it r =
     [i_prompt it, action_name (r_action r), r_category r, flag_text (r_triggered r)]
     @ map (\<lambda>key. flag_text (det_get (r_detections r) key = Some True)) prompt_keys
     @ [r_scan_id r, r_report_id r, (case r_error r of Some e \<Rightarrow> e | None \<Rightarrow> [])]"

definition row_line :: "item \<Rightarrow> item_result \<Rightarrow> str" where
  "row_line it r = join '','' (map quote (row_fields it r))"

fun projection_lines :: "item list \<Rightarrow> str list" where
  "projection_lines [] = []"
| "projection_lines (it # its) =
     (case i_result it of
        None \<Rightarrow> projection_lines its
      | Some r \<Rightarrow> row_line it r # projection_lines its)"

definition projection :: "job_state \<Rightarrow> str" where
  "projection st = join nl (header # projection_lines (j_items st))"

section \<open>Names\<close>

fun default_chars :: "bool \<Rightarrow> str list \<Rightarrow> str" where
  "default_chars in_space [] = []"
| "default_chars in_space (c # cs) =
     (if is_js_whitespace c then (if in_space then [] else ''-'') @ default_chars True cs
      else (if c = ''/'' \<or> is_control c then ''-'' else c) @ default_chars False cs)"

definition default_name :: "str \<Rightarrow> str" where
  "default_name profile = default_chars False (utf8_chars profile) @ ''-bulk-scan.csv''"

definition warn_mark :: str where "warn_mark = bytes [226, 154, 160]"

definition dir_sync_warning :: "str \<Rightarrow> str" where
  "dir_sync_warning path = warn_mark @ '' '' @ shown path
     @ '' was saved, but its directory could not be synced; the change may not survive a system crash''"

definition longest_temp_name :: "str \<Rightarrow> nat \<Rightarrow> str \<Rightarrow> str" where
  "longest_temp_name name pid random =
     ''.'' @ name @ ''.'' @ padded 10 pid @ ''.'' @ random_hex random @ ''.tmp''"

definition exists_error :: "str \<Rightarrow> cli_error" where
  "exists_error path = operational (shown path @ '' already exists; choose another --output-file'')"

definition cannot_write :: "str \<Rightarrow> cli_error" where
  "cannot_write path = operational
     (''Cannot write '' @ shown path @ ''; check that its directory exists and is writable'')"

definition absolute :: "str \<Rightarrow> str \<Rightarrow> str" where
  "absolute path cwd = normalize_path (joined cwd path)"

definition refuse_existing :: "'w os \<Rightarrow> str \<Rightarrow> ('w world, cli_error, unit) prog" where
  "refuse_existing E path =
     and_then (attempted (tries (os_lstat E path))) (\<lambda>stat.
     case stat of
       Inl e \<Rightarrow> if e = NOENT then ret () else fail (cannot_write path)
     | Inr _ \<Rightarrow> fail (exists_error path))"

definition parent_dir :: "str \<Rightarrow> str" where
  "parent_dir path = (case parent path of Some d \<Rightarrow> d | None \<Rightarrow> ''/'')"

definition sync_parent :: "'w os \<Rightarrow> str \<Rightarrow> ('w world, 'e, bool) prog" where
  "sync_parent E path =
     and_then (attempted (tries (os_sync_dir E (parent_dir path)))) (\<lambda>r.
     ret (case r of Inr _ \<Rightarrow> True | Inl (e :: errno) \<Rightarrow> False))"

definition foreign_error :: "str \<Rightarrow> str \<Rightarrow> cli_error" where
  "foreign_error path state = operational
     (shown path @ '' is not the file this job wrote (it was replaced, moved or edited); the results are saved in ''
      @ state @ '': resume with --output-file <new path>'')"

section \<open>The recorded output\<close>

datatype at_path = Absent | Current | Next | Foreign

definition same_file :: "str \<Rightarrow> str \<Rightarrow> file_stat \<Rightarrow> bool" where
  "same_file dev ino st = (dev = dec (st_dev st) \<and> ino = dec (st_ino st))"

definition our_regular :: "'w os \<Rightarrow> file_stat \<Rightarrow> bool" where
  "our_regular E st = (st_kind st = RegularFile \<and> st_uid st = os_euid E)"

definition same_next :: "output_record \<Rightarrow> file_stat \<Rightarrow> bool" where
  "same_next rec st = (case o_next rec of None \<Rightarrow> False | Some n \<Rightarrow> same_file (n_dev n) (n_ino n) st)"

definition classify_path :: "'w os \<Rightarrow> output_record \<Rightarrow> errno + file_stat \<Rightarrow> at_path" where
  "classify_path E rec stat =
     (case stat of
        Inl e \<Rightarrow> if e = NOENT then Absent else Foreign
      | Inr st \<Rightarrow>
          if our_regular E st then
            (if same_file (o_dev rec) (o_ino rec) st then Current
             else if same_next rec st then Next else Foreign)
          else Foreign)"

definition path_at :: "'w os \<Rightarrow> output_record \<Rightarrow> ('w world, 'e, at_path) prog" where
  "path_at E rec =
     and_then (attempted (tries (os_lstat E (o_path rec)))) (\<lambda>stat. ret (classify_path E rec stat))"

definition named_like_ours :: "str \<Rightarrow> str \<Rightarrow> bool" where
  "named_like_ours output temp =
     (case file_name output of
        None \<Rightarrow> False
      | Some name \<Rightarrow> parent temp = parent output
          \<and> (case file_name temp of
               None \<Rightarrow> False
             | Some t \<Rightarrow> starts_with t (''.'' @ name @ ''.'') \<and> ends_with t ''.tmp''))"

definition remove_leftover_temp :: "'w os \<Rightarrow> output_record \<Rightarrow> ('w world, 'e, bool) prog" where
  "remove_leftover_temp E rec =
     (case o_next rec of
        None \<Rightarrow> ret False
      | Some nxt \<Rightarrow>
          if \<not> named_like_ours (o_path rec) (n_temp nxt) then ret False
          else
            and_then (attempted (tries (os_lstat E (n_temp nxt)))) (\<lambda>stat.
            case stat of
              Inl (e :: errno) \<Rightarrow> ret False
            | Inr st \<Rightarrow>
                if our_regular E st \<and> same_file (n_dev nxt) (n_ino nxt) st
                then and_then (unlinked E (n_temp nxt)) (\<lambda>gone. ret (is_ok gone))
                else ret False))"

section \<open>Claim and rewrite\<close>

datatype rewritten = Durable | RewriteWarning str

record prepared =
  p_temp :: str
  p_identity :: identity

definition sync_report :: "output_file \<Rightarrow> bool \<Rightarrow> rewritten \<times> output_file" where
  "sync_report out synced =
     (if synced \<or> of_warned out then (Durable, out)
      else (RewriteWarning (dir_sync_warning (of_path out)), out\<lparr>of_warned := True\<rparr>))"

definition probe :: "'w os \<Rightarrow> str \<Rightarrow> ('w world, 'e, bool) prog" where
  "probe E path =
     (case file_name path of
        None \<Rightarrow> ret False
      | Some name \<Rightarrow>
          and_then (calls (os_random E)) (\<lambda>random.
          let temp = joined (parent_dir path) (longest_temp_name name (os_pid E) random)
          in and_then (attempted (tries (os_create_excl E temp))) (\<lambda>created.
             case created of
               Inl (e :: errno) \<Rightarrow> ret False
             | Inr fd \<Rightarrow> and_then (unlinked E temp) (\<lambda>_. ret True))))"

definition fill :: "'w os \<Rightarrow> nat \<Rightarrow> str \<Rightarrow> ('w world, errno, identity) prog" where
  "fill E fd contents =
     and_then (tries (os_fchmod E fd)) (\<lambda>_.
     and_then (tries (os_write_all E fd contents)) (\<lambda>_.
     and_then (tries (os_sync_all E fd)) (\<lambda>_.
     and_then (tries (os_fstat E fd)) (\<lambda>st. ret (identity_of st)))))"

definition claim :: "'w os \<Rightarrow> output_file \<Rightarrow> str \<Rightarrow>
    ('w world, cli_error, (identity \<times> rewritten) \<times> output_file) prog" where
  "claim E out contents =
     (let path = of_path out
      in and_then (probe E path) (\<lambda>room.
         if \<not> room then fail (cannot_write path) else
         and_then (mapped_err (\<lambda>e. if e = EXIST then exists_error path else cannot_write path)
                     (tries (os_create_excl E path))) (\<lambda>fd.
         and_then (attempted (fill E fd contents)) (\<lambda>written.
         case written of
           Inr ident \<Rightarrow>
             and_then (sync_parent E path) (\<lambda>synced.
             case sync_report out synced of (report, out') \<Rightarrow> ret ((ident, report), out'))
         | Inl _ \<Rightarrow> and_then (unlinked E path) (\<lambda>_. fail (cannot_write path))))))"

definition remove_if :: "'w os \<Rightarrow> str \<Rightarrow> identity \<Rightarrow> ('w world, 'e, unit) prog" where
  "remove_if E path ident =
     and_then (attempted (tries (os_lstat E path))) (\<lambda>stat.
     if (case stat of Inr st \<Rightarrow> identity_of st = ident | Inl (e :: errno) \<Rightarrow> False)
     then and_then (unlinked E path) (\<lambda>_. ret ()) else ret ())"

definition unwritable_error :: "str \<Rightarrow> str \<Rightarrow> cli_error" where
  "unwritable_error path state = operational
     (''Cannot write '' @ shown path @ ''; the results are saved in '' @ state
      @ '': resume with --output-file <new path>'')"

definition rewrite_failed :: "str \<Rightarrow> str \<Rightarrow> cli_error" where
  "rewrite_failed path state = operational
     (''Cannot write '' @ shown path @ ''; the results are saved in '' @ state @ '': run ''
      @ CHR 0x27 # program @ '' runtime resume-poll '' @ state @ [CHR 0x27] @ '' to write it again'')"

text \<open>Step 1 of a rewrite; the trace keeps the temporary that was completely written.\<close>

definition prepare :: "'w os \<Rightarrow> str \<Rightarrow> str \<Rightarrow> str \<Rightarrow> ('w world, cli_error, prepared) prog" where
  "prepare E path contents state =
     (case file_name path of
        None \<Rightarrow> fail (rewrite_failed path state)
      | Some name \<Rightarrow>
          and_then (calls (os_random E)) (\<lambda>random.
          let temp = joined (parent_dir path) (temp_name name (os_pid E) random)
          in and_then (attempted (write_temp E temp contents)) (\<lambda>written.
             case written of
               Inr ident \<Rightarrow> and_then (logs (CsvTemp temp contents))
                                (\<lambda>_. ret \<lparr>p_temp = temp, p_identity = ident\<rparr>)
             | Inl _ \<Rightarrow> and_then (unlinked E temp) (\<lambda>_. fail (rewrite_failed path state)))))"

definition next_record :: "prepared \<Rightarrow> next_output" where
  "next_record p = \<lparr>n_dev = dec (id_dev (p_identity p)), n_ino = dec (id_ino (p_identity p)),
                    n_temp = p_temp p\<rparr>"

definition abandon :: "'w os \<Rightarrow> prepared \<Rightarrow> ('w world, 'e, unit) prog" where
  "abandon E p = and_then (unlinked E (p_temp p)) (\<lambda>_. ret ())"

text \<open>Steps 3 to 5, on the running job.\<close>

definition commit :: "'w os \<Rightarrow> prepared \<Rightarrow> str \<Rightarrow> ('w sys, cli_error, rewritten) prog" where
  "commit E p state =
     and_then (reads the_job) (\<lambda>job.
     let path = of_path (jb_output job); rec = j_output (jb_state job)
     in and_then (attempted (in_world (tries (os_lstat E path)))) (\<lambda>stat.
     let acceptable = (case stat of
           Inl e \<Rightarrow> e = NOENT
         | Inr st \<Rightarrow> our_regular E st \<and> (same_file (o_dev rec) (o_ino rec) st \<or> same_next rec st))
     in if \<not> acceptable
        then and_then (in_world (unlinked E (p_temp p))) (\<lambda>_. fail (foreign_error path state))
        else
     and_then (in_world (logs (CsvRename (p_temp p)))) (\<lambda>_.
     and_then (attempted (in_world (tries (os_rename E (p_temp p) path)))) (\<lambda>renamed.
     case renamed of
       Inl _ \<Rightarrow> and_then (in_world (unlinked E (p_temp p))) (\<lambda>_. fail (rewrite_failed path state))
     | Inr _ \<Rightarrow>
     and_then (with_state (\<lambda>st. st\<lparr>j_output := (j_output st)
         \<lparr>o_dev := dec (id_dev (p_identity p)), o_ino := dec (id_ino (p_identity p)), o_next := None\<rparr>\<rparr>)) (\<lambda>_.
     and_then (in_world (sync_parent E path)) (\<lambda>synced.
     case sync_report (jb_output job) synced of (report, out) \<Rightarrow>
     and_then (with_job (\<lambda>j. j\<lparr>jb_output := out\<rparr>)) (\<lambda>_. ret report)))))))"

section \<open>Quiet operations\<close>

lemma quiet_refuse_existing [quiet_rules]: "quiet (refuse_existing E path)"
  unfolding refuse_existing_def by (intro quiet_rules)

lemma quiet_sync_parent [quiet_rules]: "quiet (sync_parent E path)"
  unfolding sync_parent_def by (intro quiet_rules)

lemma quiet_path_at [quiet_rules]: "quiet (path_at E rec)"
  unfolding path_at_def by (intro quiet_rules)

lemma quiet_remove_leftover_temp [quiet_rules]: "quiet (remove_leftover_temp E rec)"
  unfolding remove_leftover_temp_def by (intro quiet_rules)

lemma quiet_probe [quiet_rules]: "quiet (probe E path)"
  unfolding probe_def Let_def by (intro quiet_rules)

lemma quiet_fill [quiet_rules]: "quiet (fill E fd contents)"
  unfolding fill_def by (intro quiet_rules)

lemma quiet_prod [quiet_rules]: "(\<And>a b. quiet (f a b)) \<Longrightarrow> quiet (case p of (a, b) \<Rightarrow> f a b)"
  by (cases p) simp

lemma quiet_claim [quiet_rules]: "quiet (claim E out contents)"
  unfolding claim_def Let_def by (intro quiet_rules)

lemma quiet_remove_if [quiet_rules]: "quiet (remove_if E path ident)"
  unfolding remove_if_def by (intro quiet_rules)

lemma quiet_abandon [quiet_rules]: "quiet (abandon E p)"
  unfolding abandon_def by (intro quiet_rules)

end
