(* ===== verification/Correlate.thy ===== *)
theory Correlate
  imports BulkOutput
begin

text \<open>
  The pure part of \<open>src/bulk/engine.rs\<close> with the normaliser of \<open>src/commands/scan.rs\<close>:
  how a POST attempt ended, the waits, and the correlation of result rows and threat
  reports with the unresolved prompts of a receipt.
\<close>

section \<open>Scan responses (commands/scan.rs)\<close>

definition max_reason_part :: nat where "max_reason_part = 200"

datatype verdict = AllowVerdict | BlockVerdict | FailedVerdict

type_synonym flags = "(str \<times> bool) list"

definition response_keys :: "str list" where
  "response_keys = [''topic_violation'', ''toxic_content'', ''dlp'', ''url_cats'', ''malicious_code'',
                    ''agent'', ''db_security'', ''ungrounded'']"

definition reported :: "str list \<Rightarrow> bool option list \<Rightarrow> flags" where
  "reported keys flags = concat (map (\<lambda>(key, flag).
     case flag of Some on \<Rightarrow> [(key, on)] | None \<Rightarrow> []) (zip keys flags))"

definition prompt_flags :: "scan_response \<Rightarrow> flags" where
  "prompt_flags r = (case sr_prompt r of
      None \<Rightarrow> []
    | Some d \<Rightarrow> reported prompt_keys [d_topic_violation d, d_injection d, d_toxic_content d, d_dlp d,
                 d_url_cats d, d_malicious_code d, d_source_code d, d_agent d])"

definition response_flags :: "scan_response \<Rightarrow> flags" where
  "response_flags r = (case sr_response r of
      None \<Rightarrow> []
    | Some d \<Rightarrow> reported response_keys [d_topic_violation d, d_toxic_content d, d_dlp d, d_url_cats d,
                 d_malicious_code d, d_agent d, d_db_security d, d_ungrounded d])"

definition triggered_any :: "flags \<Rightarrow> bool" where
  "triggered_any fs = list_ex snd fs"

text \<open>The text before character \<open>max_reason_part\<close>, with an ellipsis when there is one.\<close>

definition reason_part :: "str \<Rightarrow> secret_set \<Rightarrow> str" where
  "reason_part s secrets =
     (let t = scrub secrets s; cs = utf8_chars t
      in if max_reason_part < length cs then concat (take max_reason_part cs) @ ''...'' else t)"

definition error_entry :: "secret_set \<Rightarrow> content_error \<Rightarrow> str" where
  "error_entry secrets e =
     join '': '' (map (\<lambda>part. reason_part part secrets)
       (filter (\<lambda>part. part \<noteq> [])
         (concat (map (\<lambda>p. case p of Some t \<Rightarrow> [t] | None \<Rightarrow> [])
            [ce_feature e, ce_status e, ce_content_type e]))))"

definition error_reason :: "scan_response \<Rightarrow> secret_set \<Rightarrow> str" where
  "error_reason r secrets =
     (let entries = filter (\<lambda>e. e \<noteq> []) (map (error_entry secrets) (sr_errors r))
      in if entries \<noteq> [] then join ''; '' entries
         else if sr_timeout r then ''AIRS scan timed out''
         else if sr_error r then ''AIRS scan failed''
         else ''Unknown AIRS action: '' @ reason_part (sr_action r) secrets)"

text \<open>
  \<open>to_lowercase\<close>, as far as a comparison with an ASCII word can tell: ASCII letters, and
  the Kelvin sign (U+212A), the one other character whose lower case is an ASCII letter.
\<close>

definition lower_char :: "str \<Rightarrow> str" where
  "lower_char c = (if c = bytes [226, 132, 170] then ''k'' else ascii_lower c)"

definition lower_text :: "str \<Rightarrow> str" where
  "lower_text s = concat (map lower_char (utf8_chars s))"

record normalized =
  nz_verdict :: verdict
  nz_category :: str
  nz_triggered :: bool
  nz_prompt :: flags
  nz_response :: flags
  nz_error :: "str option"

definition normalize_scan :: "scan_response \<Rightarrow> secret_set \<Rightarrow> normalized" where
  "normalize_scan r secrets =
     (let act = lower_text (sr_action r);
          failed = (sr_error r \<or> sr_timeout r \<or> (act \<noteq> ''allow'' \<and> act \<noteq> ''block''))
      in \<lparr>nz_verdict = (if failed then FailedVerdict
                       else if act = ''block'' then BlockVerdict else AllowVerdict),
          nz_category = (if failed then ''error'' else scrub secrets (sr_category r)),
          nz_triggered = (triggered_any (prompt_flags r) \<or> triggered_any (response_flags r)),
          nz_prompt = prompt_flags r,
          nz_response = response_flags r,
          nz_error = (if failed then Some (error_reason r secrets) else None)\<rparr>)"

section \<open>How a POST attempt ended\<close>

definition rate_limited :: "call_error \<Rightarrow> bool" where
  "rate_limited e = (http_status (ce_facts e) = Some 429)"

definition call_cancelled :: "call_error \<Rightarrow> bool" where
  "call_cancelled e = (kind_of (ce_facts e) = KCancelled)"

datatype outcome =
    AcceptedOutcome str "str option"
  | Unusable
  | RateLimited call_error
  | RejectedCall call_error
  | NotSentCall call_error
  | UnknownCall call_error

definition classify :: "call_error \<Rightarrow> bool \<Rightarrow> outcome" where
  "classify e retries_left =
     (let four_xx = (case http_status (ce_facts e) of Some s \<Rightarrow> 400 \<le> s \<and> s < 500 | None \<Rightarrow> False);
          remote = outcome_of (ce_facts e)
      in if call_cancelled e then (if remote = NotSentOutcome then NotSentCall e else UnknownCall e)
         else if rate_limited e \<and> retries_left then RateLimited e
         else if four_xx \<or> remote = RejectedOutcome then RejectedCall e
         else if remote = NotSentOutcome then NotSentCall e
         else UnknownCall e)"

section \<open>Waits (durations in milliseconds)\<close>

definition request_budget :: nat where "request_budget = 60"
definition max_retries :: nat where "max_retries = 5"
definition retry_after_cap :: nat where "retry_after_cap = 60000"

text \<open>\<open>Duration::MAX\<close> in whole milliseconds, where \<open>saturating_mul\<close> stops.\<close>

definition duration_max :: nat where "duration_max = u64_max * 1000 + 999"

record timing =
  poll_interval :: nat
  base_delay :: nat
  max_no_progress :: nat

definition default_timing :: timing where
  "default_timing = \<lparr>poll_interval = 5000, base_delay = 10000, max_no_progress = 120\<rparr>"

definition retry_delay :: "nat option \<Rightarrow> nat \<Rightarrow> nat \<Rightarrow> nat" where
  "retry_delay retry_after n base =
     (case retry_after of
        Some delay \<Rightarrow> min delay retry_after_cap
      | None \<Rightarrow> min (base * 2 ^ min (n - 1) 16) duration_max)"

text \<open>\<open>to_fixed(ms / 1000, 0)\<close>: rounded half up.\<close>

definition seconds :: "nat \<Rightarrow> str" where
  "seconds delay = dec ((delay + 500) div 1000)"

section \<open>Request ids\<close>

definition request_limit :: nat where "request_limit = 2 ^ 53"

fun request_index :: "number \<Rightarrow> nat option" where
  "request_index (Whole n) = (if 0 \<le> n \<and> n \<le> int request_limit then Some (nat n) else None)"
| "request_index (Double q) =
     (if 0 \<le> q \<and> q \<le> rat_of_nat request_limit \<and> q = rat_of_int \<lfloor>q\<rfloor> then Some (nat \<lfloor>q\<rfloor>) else None)"

fun int_text :: "int \<Rightarrow> str" where
  "int_text n = (if n < 0 then CHR ''-'' # dec (nat (- n)) else dec (nat n))"

text \<open>\<open>js_number\<close>: \<open>js\<close> is \<open>ryu_js\<close>, which prints the nearest double.\<close>

definition js_number :: "(rat \<Rightarrow> str) \<Rightarrow> rat \<Rightarrow> str" where
  "js_number js q = (if q = 0 then ''0'' else js q)"

text \<open>An integer above the signed range is printed from its double.\<close>

fun request_text :: "(rat \<Rightarrow> str) \<Rightarrow> number option \<Rightarrow> str" where
  "request_text js None = ''undefined''"
| "request_text js (Some (Whole n)) = (if n < 2 ^ 63 then int_text n else js_number js (rat_of_int n))"
| "request_text js (Some (Double q)) = js_number js q"

section \<open>Rows\<close>

definition report_key :: "str \<Rightarrow> str option" where
  "report_key service =
     (if service \<in> {''topic_guardrails'', ''topic_violation''} then Some ''topic_violation''
      else if service \<in> {''pi'', ''prompt_injection'', ''injection''} then Some ''injection''
      else if service \<in> {''tc'', ''toxic_content''} then Some ''toxic_content''
      else if service = ''dlp'' then Some ''dlp''
      else if service \<in> {''uf'', ''url_filtering'', ''url_cats''} then Some ''url_cats''
      else if service \<in> {''mc'', ''malicious_code''} then Some ''malicious_code''
      else if service = ''source_code'' then Some ''source_code''
      else if service = ''agent'' then Some ''agent''
      else None)"

definition failed_row :: "str \<Rightarrow> item_result" where
  "failed_row scan_id =
     \<lparr>r_action = ActionFailed, r_category = ''error'', r_triggered = False, r_detections = [],
      r_scan_id = scan_id, r_report_id = [], r_error = Some ''AIRS async scan failed''\<rparr>"

definition scan_result :: "scan_response \<Rightarrow> str \<Rightarrow> secret_set \<Rightarrow> item_result" where
  "scan_result r scan_id secrets =
     (let n = normalize_scan r secrets
      in \<lparr>r_action = (case nz_verdict n of AllowVerdict \<Rightarrow> Allow | BlockVerdict \<Rightarrow> Block | FailedVerdict \<Rightarrow> ActionFailed),
          r_category = nz_category n, r_triggered = triggered_any (nz_prompt n),
          r_detections = nz_prompt n, r_scan_id = scan_id,
          r_report_id = scrub secrets (sr_report_id r), r_error = nz_error n\<rparr>)"

record tally =
  ty_detections :: detections
  ty_blocked :: bool
  ty_unexpected :: "str option"

definition lowered :: "str option \<Rightarrow> str" where
  "lowered s = (case s of Some t \<Rightarrow> ascii_lower t | None \<Rightarrow> [])"

definition tally_detection :: "secret_set \<Rightarrow> tally \<Rightarrow> report_detection \<Rightarrow> tally" where
  "tally_detection secrets t d =
     (let service = lowered (rd_service d); act = lowered (rd_action d); verdict = lowered (rd_verdict d);
          fired = (act = ''block'' \<or> verdict \<in> {''malicious'', ''unsafe'', ''violation'', ''detected''});
          key = (case report_key service of
                   Some k \<Rightarrow> k
                 | None \<Rightarrow> if service \<noteq> [] then service else if fired then ''unknown'' else []);
          dets = (if key \<noteq> [] \<and> \<not> taints secrets key \<and> \<not> appears_in_ignoring_case secrets key
                  then det_set (ty_detections t) key (det_get (ty_detections t) key = Some True \<or> fired)
                  else ty_detections t)
      in if act = ''block'' then t\<lparr>ty_detections := dets, ty_blocked := True\<rparr>
         else if act \<noteq> [] \<and> act \<noteq> ''allow'' then t\<lparr>ty_detections := dets, ty_unexpected := Some act\<rparr>
         else t\<lparr>ty_detections := dets\<rparr>)"

definition report_row :: "threat_report \<Rightarrow> str \<Rightarrow> secret_set \<Rightarrow> item_result" where
  "report_row r scan_id secrets =
     (let t = foldl (tally_detection secrets) \<lparr>ty_detections = [], ty_blocked = False, ty_unexpected = None\<rparr>
                (case tr_detections r of Some ds \<Rightarrow> ds | None \<Rightarrow> []);
          triggered = list_ex snd (ty_detections t);
          act = (if ty_blocked t then Block
                 else if ty_unexpected t \<noteq> None then ActionFailed else Allow)
      in \<lparr>r_action = act,
          r_category = (if act = ActionFailed then ''error''
                        else if triggered then ''malicious'' else ''benign''),
          r_triggered = triggered, r_detections = ty_detections t, r_scan_id = scan_id,
          r_report_id = (case tr_report_id r of Some i \<Rightarrow> scrub secrets i | None \<Rightarrow> []),
          r_error = (if act = ActionFailed
                     then Some (''Unknown AIRS action in threat report: ''
                       @ reason_part (case ty_unexpected t of Some u \<Rightarrow> u | None \<Rightarrow> []) secrets)
                     else None)\<rparr>)"

section \<open>Correlation\<close>

record correlated =
  resolved :: "(nat \<times> item_result) list"
  report_id :: "str option"
  problem_of :: "str option"

definition nothing_correlated :: correlated where
  "nothing_correlated = \<lparr>resolved = [], report_id = None, problem_of = None\<rparr>"

definition terminal_status :: "str \<Rightarrow> bool" where
  "terminal_status s = (s = ''failed'' \<or> s = ''complete'' \<or> s = ''completed'')"

text \<open>
  One row of \<open>correlate_rows\<close>: the unresolved indices (\<open>open_set\<close>, ascending) and the rows so far,
  or the answer of an early return.
\<close>

definition no_report :: "correlated \<Rightarrow> str \<Rightarrow> correlated + nat list \<times> correlated" where
  "no_report acc why = Inl (acc\<lparr>report_id := None, problem_of := Some why\<rparr>)"

definition whole_row ::
  "str \<Rightarrow> str option \<Rightarrow> secret_set \<Rightarrow> nat list \<Rightarrow> correlated \<Rightarrow> scan_row \<Rightarrow> correlated + nat list \<times> correlated" where
  "whole_row scan_id receipt secrets open_set acc row =
     (let row_scan = (case row_scan_id row of Some i \<Rightarrow> i | None \<Rightarrow> scan_id);
          failure = ''AIRS result correlation failed for scan '' @ scrub secrets row_scan
                    @ '': terminal row has no request or report ID''
      in if lowered (row_status row) = ''failed'' then
           Inr ([], acc\<lparr>resolved := resolved acc @ map (\<lambda>i. (i, failed_row scan_id)) open_set\<rparr>)
         else
           (case (case row_result row of
                    Some r \<Rightarrow> Some (sr_report_id r)
                  | None \<Rightarrow> (case row_ext_report row of Some i \<Rightarrow> Some i | None \<Rightarrow> receipt)) of
              Some i \<Rightarrow> if i \<noteq> [] then Inr (open_set, acc\<lparr>report_id := Some i\<rparr>) else no_report acc failure
            | None \<Rightarrow> no_report acc failure))"

definition indexed_row ::
  "str \<Rightarrow> secret_set \<Rightarrow> nat list \<Rightarrow> correlated \<Rightarrow> scan_row \<Rightarrow> nat \<Rightarrow> correlated + nat list \<times> correlated" where
  "indexed_row scan_id secrets open_set acc row index =
     (let row_scan = (case row_scan_id row of Some i \<Rightarrow> i | None \<Rightarrow> scan_id);
          status = lowered (row_status row)
      in if row_scan \<noteq> scan_id \<or> index \<notin> set open_set then Inr (open_set, acc)
         else if status = ''failed'' then
           Inr (remove1 index open_set, acc\<lparr>resolved := resolved acc @ [(index, failed_row scan_id)]\<rparr>)
         else if status = ''complete'' \<or> status = ''completed'' then
           (case row_result row of
              None \<Rightarrow> Inr (open_set, acc)
            | Some r \<Rightarrow>
                if sr_scan_id r \<noteq> [] \<and> sr_scan_id r \<noteq> row_scan then
                  no_report acc (''AIRS result correlation mismatch: nested scan ID '' @ scrub secrets (sr_scan_id r)
                    @ '' does not match '' @ scrub secrets row_scan)
                else Inr (remove1 index open_set,
                          acc\<lparr>resolved := resolved acc @ [(index, scan_result r scan_id secrets)]\<rparr>))
         else Inr (open_set, acc))"

definition correlate_row ::
  "str \<Rightarrow> str option \<Rightarrow> secret_set \<Rightarrow> nat list \<Rightarrow> correlated \<Rightarrow> scan_row \<Rightarrow> correlated + nat list \<times> correlated" where
  "correlate_row scan_id receipt secrets open_set acc row =
     (case row_req_id row of
        None \<Rightarrow>
          if terminal_status (lowered (row_status row))
             \<and> (case row_scan_id row of Some i \<Rightarrow> i | None \<Rightarrow> scan_id) = scan_id
          then whole_row scan_id receipt secrets open_set acc row
          else Inr (open_set, acc)
      | Some number \<Rightarrow>
          (case request_index number of
             None \<Rightarrow> Inr (open_set, acc)
           | Some index \<Rightarrow> indexed_row scan_id secrets open_set acc row index))"

fun rows_loop :: "str \<Rightarrow> str option \<Rightarrow> secret_set \<Rightarrow> nat list \<Rightarrow> correlated \<Rightarrow> scan_row list \<Rightarrow> correlated" where
  "rows_loop scan_id receipt secrets open_set acc [] = acc"
| "rows_loop scan_id receipt secrets open_set acc (row # rows) =
     (case correlate_row scan_id receipt secrets open_set acc row of
        Inl stopped \<Rightarrow> stopped
      | Inr (open_set', acc') \<Rightarrow> rows_loop scan_id receipt secrets open_set' acc' rows)"

definition correlate_rows ::
  "scan_row list \<Rightarrow> str \<Rightarrow> str option \<Rightarrow> nat list \<Rightarrow> secret_set \<Rightarrow> correlated" where
  "correlate_rows rows scan_id receipt unresolved secrets =
     rows_loop scan_id receipt secrets unresolved nothing_correlated rows"

fun reports_loop ::
  "(rat \<Rightarrow> str) \<Rightarrow> str \<Rightarrow> str \<Rightarrow> secret_set \<Rightarrow> nat list \<Rightarrow> (nat \<times> item_result) list \<Rightarrow> threat_report list \<Rightarrow> correlated" where
  "reports_loop js scan_id expected secrets open_set done_rows [] =
     \<lparr>resolved = done_rows, report_id = None, problem_of = None\<rparr>"
| "reports_loop js scan_id expected secrets open_set done_rows (r # rs) =
     (let report_scan = (case tr_scan_id r of Some i \<Rightarrow> i | None \<Rightarrow> scan_id);
          mismatched = (case tr_report_id r of Some i \<Rightarrow> i \<noteq> [] \<and> i \<noteq> expected | None \<Rightarrow> False)
      in if report_scan \<noteq> scan_id \<or> mismatched then
           \<lparr>resolved = done_rows, report_id = None,
            problem_of = Some (''AIRS report correlation mismatch for scan '' @ scrub secrets scan_id
              @ '', request '' @ request_text js (tr_req_id r))\<rparr>
         else
           (case Option.bind (tr_req_id r) request_index of
              None \<Rightarrow> reports_loop js scan_id expected secrets open_set done_rows rs
            | Some index \<Rightarrow>
                if index \<in> set open_set then
                  reports_loop js scan_id expected secrets (remove1 index open_set)
                    (done_rows @ [(index, report_row r scan_id secrets)]) rs
                else reports_loop js scan_id expected secrets open_set done_rows rs))"

definition correlate_reports ::
  "(rat \<Rightarrow> str) \<Rightarrow> threat_report list \<Rightarrow> str \<Rightarrow> str \<Rightarrow> nat list \<Rightarrow> secret_set \<Rightarrow> correlated" where
  "correlate_reports js reports scan_id expected unresolved secrets =
     reports_loop js scan_id expected secrets unresolved [] reports"

section \<open>What correlation resolves\<close>

text \<open>
  The resolved rows are distinct members of the unresolved set, each for the scan id polled
  and with the \<open>failed\<close> action exactly when it carries an error.
\<close>

definition row_ok :: "str \<Rightarrow> item_result \<Rightarrow> bool" where
  "row_ok scan_id r = (r_scan_id r = scan_id \<and> (r_action r = ActionFailed) = (r_error r \<noteq> None))"

lemma row_ok_failed [simp]: "row_ok scan_id (failed_row scan_id)"
  by (simp add: row_ok_def failed_row_def)

lemma row_ok_scan [simp]: "row_ok scan_id (scan_result r scan_id secrets)"
  by (simp add: row_ok_def scan_result_def normalize_scan_def Let_def)

lemma row_ok_report [simp]: "row_ok scan_id (report_row r scan_id secrets)"
  by (simp add: row_ok_def report_row_def Let_def)

definition fits :: "str \<Rightarrow> nat list \<Rightarrow> nat list \<Rightarrow> (nat \<times> item_result) list \<Rightarrow> bool" where
  "fits scan_id unresolved open_set rows =
     (distinct (map fst rows @ open_set) \<and> set (map fst rows) \<union> set open_set \<subseteq> set unresolved
      \<and> (\<forall>r \<in> set (map snd rows). row_ok scan_id r))"

lemma fits_start: "distinct unresolved \<Longrightarrow> fits scan_id unresolved unresolved []"
  by (simp add: fits_def)

lemma fits_one:
  "fits scan_id u open_set rows \<Longrightarrow> i \<in> set open_set \<Longrightarrow> row_ok scan_id r \<Longrightarrow>
   fits scan_id u (remove1 i open_set) (rows @ [(i, r)])"
  by (auto simp: fits_def set_remove1_eq)

lemma fits_all:
  "fits scan_id u open_set rows \<Longrightarrow> row_ok scan_id r \<Longrightarrow>
   fits scan_id u [] (rows @ map (\<lambda>i. (i, r)) open_set)"
  by (auto simp: fits_def comp_def)

lemma correlate_row_fits:
  assumes "fits scan_id u open_set (resolved acc)"
  shows "case correlate_row scan_id receipt secrets open_set acc row of
      Inl stopped \<Rightarrow> resolved stopped = resolved acc
    | Inr (open', acc') \<Rightarrow> fits scan_id u open' (resolved acc')"
proof -
  have whole: "case whole_row scan_id receipt secrets open_set acc row of
      Inl stopped \<Rightarrow> resolved stopped = resolved acc
    | Inr (open', acc') \<Rightarrow> fits scan_id u open' (resolved acc')"
    using assms fits_all [OF assms row_ok_failed]
    by (simp add: whole_row_def no_report_def Let_def split: option.split)
  have indexed: "case indexed_row scan_id secrets open_set acc row index of
      Inl stopped \<Rightarrow> resolved stopped = resolved acc
    | Inr (open', acc') \<Rightarrow> fits scan_id u open' (resolved acc')" for index
    using assms fits_one [OF assms _ row_ok_failed] fits_one [OF assms _ row_ok_scan]
    by (simp add: indexed_row_def no_report_def Let_def split: option.split)
  show ?thesis
    using whole indexed assms by (simp add: correlate_row_def split: option.split)
qed

lemma rows_loop_fits:
  "fits scan_id u open_set (resolved acc) \<Longrightarrow>
   \<exists>open'. fits scan_id u open' (resolved (rows_loop scan_id receipt secrets open_set acc rows))"
proof (induction rows arbitrary: open_set acc)
  case (Cons row rows)
  note step = correlate_row_fits [OF Cons.prems, of receipt secrets row]
  show ?case
  proof (cases "correlate_row scan_id receipt secrets open_set acc row")
    case (Inl stopped)
    with step Cons.prems show ?thesis by auto
  next
    case (Inr p)
    with step Cons.IH show ?thesis by (cases p) simp
  qed
qed auto

lemma correlate_rows_fits:
  "distinct unresolved \<Longrightarrow>
   \<exists>open'. fits scan_id unresolved open' (resolved (correlate_rows rows scan_id receipt unresolved secrets))"
  unfolding correlate_rows_def
  by (rule rows_loop_fits) (simp add: nothing_correlated_def fits_start)

lemma reports_loop_fits:
  "fits scan_id u open_set done_rows \<Longrightarrow>
   \<exists>open'. fits scan_id u open' (resolved (reports_loop js scan_id expected secrets open_set done_rows rs))"
proof (induction rs arbitrary: open_set done_rows)
  case (Cons r rs)
  then show ?case
    by (auto simp: Let_def intro!: Cons.IH fits_one split: option.splits)
qed auto

lemma correlate_reports_fits:
  "distinct unresolved \<Longrightarrow>
   \<exists>open'. fits scan_id unresolved open' (resolved (correlate_reports js reports scan_id expected unresolved secrets))"
  unfolding correlate_reports_def by (rule reports_loop_fits) (rule fits_start)

end
