(* ===== verification/Engine.thy ===== *)
theory Engine
  imports Correlate
begin

text \<open>
  The job and the loops of \<open>src/bulk/engine.rs\<close>: submission of a chunk with its C1 and C3
  checkpoints and its rate-limit retries, polling of a receipt, and the three ways to run a
  job. Each loop is its body (\<open>submit_round\<close>, \<open>poll_round\<close>) and the recursion over it.
\<close>

section \<open>The job\<close>

definition state_shown :: "job \<Rightarrow> str" where
  "state_shown j = file_shown (jb_file j)"

definition saved_context :: "job \<Rightarrow> interrupt_context" where
  "saved_context j = Bulk (dec (submitted_count (jb_state j)) @ '' of ''
     @ dec (length (j_items (jb_state j))) @ '' prompts were submitted; the job was saved: resume it with ''
     @ CHR 0x27 # program @ '' runtime resume-poll '' @ state_shown j @ [CHR 0x27])"

definition resume_detail :: "job \<Rightarrow> str" where
  "resume_detail j = ''The job was saved; resume it with '' @ CHR 0x27 # program
     @ '' runtime resume-poll '' @ state_shown j @ [CHR 0x27]"

definition ambiguous_detail :: "job \<Rightarrow> str \<Rightarrow> str" where
  "ambiguous_detail j rs =
     ''Prompts '' @ rs @ '' will not be resubmitted; the job was saved in '' @ state_shown j"

definition is_cancelled :: "'w os \<Rightarrow> ('w sys, 'e, bool) prog" where
  "is_cancelled E = in_world (calls (os_cancelled E))"

definition interrupted :: "('w sys, cli_error, 'a) prog" where
  "interrupted = and_then (reads the_job) (\<lambda>j. fail (Interrupted (saved_context j)))"

definition verify_lock :: "'w os \<Rightarrow> ('w sys, cli_error, unit) prog" where
  "verify_lock E =
     and_then (reads the_job) (\<lambda>j.
     case jb_lock j of
       None \<Rightarrow> ret ()
     | Some lock \<Rightarrow>
         and_then (in_world (still_held E (sf_dir (jb_file j)) lock)) (\<lambda>held.
         if held then ret ()
         else fail (Operational \<lparr>message_of = removed_message lock, status_of = None,
                                details_of = [resume_detail j]\<rparr>)))"

definition drop_lock :: "'w os \<Rightarrow> ('w sys, cli_error, unit) prog" where
  "drop_lock E =
     and_then (reads the_job) (\<lambda>j.
     case jb_lock j of
       None \<Rightarrow> ret ()
     | Some lock \<Rightarrow>
         and_then (with_job (\<lambda>j. j\<lparr>jb_lock := None\<rparr>)) (\<lambda>_. in_world (release_lock E lock)))"

definition save_with_output :: "'w os \<Rightarrow> ('w sys, cli_error, unit) prog" where
  "save_with_output E =
     and_then (reads the_job) (\<lambda>j.
     let sh = state_shown j; contents = projection (jb_state j)
     in and_then (attempted (in_world (prepare E (of_path (jb_output j)) contents sh))) (\<lambda>made.
     case made of
       Inl csv_failure \<Rightarrow>
         and_then (with_state (\<lambda>st. st\<lparr>j_output := (j_output st)\<lparr>o_next := None\<rparr>\<rparr>)) (\<lambda>_.
         and_then (checkpoint E Results) (\<lambda>_. fail csv_failure))
     | Inr p \<Rightarrow>
         and_then (with_state (\<lambda>st. st\<lparr>j_output := (j_output st)\<lparr>o_next := Some (next_record p)\<rparr>\<rparr>)) (\<lambda>_.
         and_then (attempted (checkpoint E Results)) (\<lambda>saved.
         case saved of
           Inl e \<Rightarrow> and_then (in_world (abandon E p)) (\<lambda>_. fail e)
         | Inr _ \<Rightarrow>
             and_then (commit E p sh) (\<lambda>report.
             case report of
               RewriteWarning t \<Rightarrow> in_world (logs (Warning t))
             | Durable \<Rightarrow> ret ())))))"

text \<open>\<open>(total rows, blocked, allowed, failed)\<close>.\<close>

definition result_count :: "(action \<Rightarrow> bool) \<Rightarrow> job_state \<Rightarrow> nat" where
  "result_count P st = length (filter (\<lambda>it. case i_result it of
      Some r \<Rightarrow> P (r_action r) | None \<Rightarrow> False) (j_items st))"

definition counts :: "job_state \<Rightarrow> nat \<times> nat \<times> nat \<times> nat" where
  "counts st = (result_count (\<lambda>_. True) st, result_count (\<lambda>a. a = Block) st,
                result_count (\<lambda>a. a = Allow) st, result_count (\<lambda>a. a = ActionFailed) st)"

section \<open>Waits and failures\<close>

definition interrupted_during :: "'w os \<Rightarrow> nat \<Rightarrow> ('w sys, 'e, bool) prog" where
  "interrupted_during E delay =
     and_then (is_cancelled E) (\<lambda>c.
     if c then ret True else in_world (calls (os_sleep E delay)))"

definition call_context :: "secret_set \<Rightarrow> operation \<Rightarrow> sdk_context" where
  "call_context secrets op =
     \<lparr>ctx_plane = Scanner, ctx_phase = Api, ctx_operation = op, ctx_timeout = request_budget,
      ctx_secrets = secrets\<rparr>"

definition call_failure :: "secret_set \<Rightarrow> call_error \<Rightarrow> operation \<Rightarrow> str \<Rightarrow> cli_error" where
  "call_failure secrets e op detail =
     (case describe (ce_facts e) (call_context secrets op) of
        Operational f \<Rightarrow> Operational (f\<lparr>details_of := details_of f @ [detail]\<rparr>)
      | other \<Rightarrow> other)"


section \<open>Submission\<close>

fun set_items :: "nat list \<Rightarrow> (item \<Rightarrow> item) \<Rightarrow> item list \<Rightarrow> item list" where
  "set_items [] f its = its"
| "set_items (i # is) f its = set_items is f (its[i := f (its ! i)])"

definition begin_attempt :: "nat list \<Rightarrow> str \<Rightarrow> job_state \<Rightarrow> job_state" where
  "begin_attempt indices now st =
     (let n = length (j_attempts st) + 1
      in st\<lparr>j_attempts := j_attempts st @
              [\<lparr>a_id = n, a_indices = indices, a_started = now, a_ended = None, a_outcome = InFlight,
                a_http = None, a_error = None, a_scan_id = None\<rparr>],
            j_items := set_items indices (\<lambda>it. it\<lparr>i_status := Submitting, i_attempt := Some n\<rparr>) (j_items st)\<rparr>)"

text \<open>\<open>scan_object\<close> of every index, read from the state.\<close>

definition objects_of :: "'w os \<Rightarrow> job_state \<Rightarrow> nat list \<Rightarrow> cli_error + scan_object list" where
  "objects_of E st indices = collect_r (\<lambda>i.
     scan_object_of (os_sdk E) (i_index (j_items st ! i)) (i_prompt (j_items st ! i))
       (j_profile st) (j_session st)) indices"

definition outcome_of_reply :: "secret_set \<Rightarrow> nat \<Rightarrow> call_error + receipt \<Rightarrow> outcome" where
  "outcome_of_reply secrets retries reply =
     (case reply of
        Inr rc \<Rightarrow>
          if is_scan_id (rc_scan_id rc) \<and> \<not> taints secrets (rc_scan_id rc)
          then AcceptedOutcome (rc_scan_id rc) (map_option (scrub secrets) (rc_report_id rc))
          else Unusable
      | Inl e \<Rightarrow> classify e (retries < max_retries))"

definition unusable_text :: "str \<Rightarrow> str" where
  "unusable_text rs = ''AIRS accepted prompts '' @ rs
     @ '', but its receipt has no usable scan id; they will not be resubmitted''"

fun item_status_of :: "outcome \<Rightarrow> item_status" where
  "item_status_of (AcceptedOutcome _ _) = Submitted"
| "item_status_of Unusable = Ambiguous"
| "item_status_of (RateLimited _) = Pending"
| "item_status_of (RejectedCall _) = Pending"
| "item_status_of (NotSentCall _) = Pending"
| "item_status_of (UnknownCall _) = Ambiguous"

fun attempt_outcome_of :: "outcome \<Rightarrow> attempt_outcome" where
  "attempt_outcome_of (AcceptedOutcome _ _) = Accepted"
| "attempt_outcome_of Unusable = UnusableReceipt"
| "attempt_outcome_of (RateLimited _) = Rejected"
| "attempt_outcome_of (RejectedCall _) = Rejected"
| "attempt_outcome_of (NotSentCall _) = NotSent"
| "attempt_outcome_of (UnknownCall _) = Unknown"

fun outcome_error :: "outcome \<Rightarrow> call_error option" where
  "outcome_error (RateLimited e) = Some e"
| "outcome_error (RejectedCall e) = Some e"
| "outcome_error (NotSentCall e) = Some e"
| "outcome_error (UnknownCall e) = Some e"
| "outcome_error _ = None"

fun outcome_scan :: "outcome \<Rightarrow> str option" where
  "outcome_scan (AcceptedOutcome s _) = Some s"
| "outcome_scan _ = None"

fun outcome_report :: "outcome \<Rightarrow> str option" where
  "outcome_report (AcceptedOutcome _ r) = r"
| "outcome_report _ = None"

definition end_attempt ::
  "secret_set \<Rightarrow> nat \<Rightarrow> nat list \<Rightarrow> outcome \<Rightarrow> nat option \<Rightarrow> str \<Rightarrow> job_state \<Rightarrow> job_state" where
  "end_attempt secrets n indices out status now st =
     st\<lparr>j_attempts := update_attempt n (\<lambda>a. a\<lparr>a_ended := Some now, a_outcome := attempt_outcome_of out,
            a_http := (case outcome_error out of Some e \<Rightarrow> http_of (ce_facts e) | None \<Rightarrow> status),
            a_error := (case outcome_error out of
                Some e \<Rightarrow> Some (facts_message (ce_facts e) (call_context secrets ScanSubmit))
              | None \<Rightarrow> if out = Unusable then Some (unusable_text (ranges indices)) else None),
            a_scan_id := outcome_scan out\<rparr>) (j_attempts st),
        j_items := set_items indices (\<lambda>it. it\<lparr>i_status := item_status_of out,
            i_scan_id := outcome_scan out,
            i_receipt := (if outcome_scan out \<noteq> None then outcome_report out else None)\<rparr>) (j_items st)\<rparr>"

text \<open>After the C3 checkpoint: \<open>None\<close> for an accepted chunk, the retries before going round again.\<close>

definition after_outcome ::
  "'w os \<Rightarrow> secret_set \<Rightarrow> timing \<Rightarrow> nat list \<Rightarrow> nat \<Rightarrow> outcome \<Rightarrow> ('w sys, cli_error, nat option) prog" where
  "after_outcome E secrets tm indices retries out =
     and_then (reads the_job) (\<lambda>j.
     case out of
       AcceptedOutcome _ _ \<Rightarrow>
         and_then (is_cancelled E) (\<lambda>c. if c then interrupted else ret None)
     | Unusable \<Rightarrow> fail (Operational \<lparr>message_of = unusable_text (ranges indices), status_of = None,
                                       details_of = [ambiguous_detail j (ranges indices)]\<rparr>)
     | RateLimited e \<Rightarrow>
         let retries' = retries + 1; delay = retry_delay (ce_retry_after e) retries' (base_delay tm)
         in and_then (in_world (logs (Status (warn_mark @ '' Rate limited while submitting '' @ em_dash
                @ '' retry '' @ dec retries' @ '' in '' @ seconds delay @ ''s...'')))) (\<lambda>_.
            and_then (interrupted_during E delay) (\<lambda>stop.
            if stop then interrupted else ret (Some retries')))
     | RejectedCall e \<Rightarrow> fail (call_failure secrets e ScanSubmit (resume_detail j))
     | NotSentCall e \<Rightarrow>
         if call_cancelled e then interrupted
         else fail (call_failure secrets e ScanSubmit (resume_detail j))
     | UnknownCall e \<Rightarrow>
         if call_cancelled e
         then fail (Interrupted (Bulk (''prompts '' @ ranges indices
                @ '' may already have been submitted (outcome unknown); the job was saved in ''
                @ state_shown j)))
         else fail (call_failure secrets e ScanSubmit (ambiguous_detail j (ranges indices))))"

text \<open>The POST and its reply are logged around the call.\<close>

definition post :: "'w os \<Rightarrow> scan_object list \<Rightarrow> ('w sys, 'e, (call_error + receipt) \<times> nat option) prog" where
  "post E objects =
     and_then (in_world (logs (Post objects))) (\<lambda>_.
     and_then (in_world (calls (os_submit E objects))) (\<lambda>reply.
     and_then (in_world (logs (Reply objects (fst reply)))) (\<lambda>_. ret reply)))"

definition submit_round ::
  "'w os \<Rightarrow> secret_set \<Rightarrow> timing \<Rightarrow> nat list \<Rightarrow> nat \<Rightarrow> ('w sys, cli_error, nat option) prog" where
  "submit_round E secrets tm indices retries =
     and_then (is_cancelled E) (\<lambda>c.
     if c then interrupted else
     and_then (verify_lock E) (\<lambda>_.
     and_then (in_world (now_stamp E)) (\<lambda>started.
     and_then (reads the_state) (\<lambda>st0.
     let n = length (j_attempts st0) + 1
     in and_then (with_state (begin_attempt indices started)) (\<lambda>_.
     and_then (checkpoint E NothingSubmitted) (\<lambda>_.
     and_then (reads the_state) (\<lambda>st.
     and_then (of_result (objects_of E st indices)) (\<lambda>objects.
     and_then (post E objects) (\<lambda>reply.
     let out = outcome_of_reply secrets retries (fst reply)
     in and_then (in_world (now_stamp E)) (\<lambda>ended.
     and_then (with_state (end_attempt secrets n indices out (snd reply) ended)) (\<lambda>_.
     and_then (checkpoint E (case outcome_scan out of
                 Some s \<Rightarrow> AcceptedUnder (ranges indices) s | None \<Rightarrow> NothingSubmitted)) (\<lambda>_.
     after_outcome E secrets tm indices retries out))))))))))))"

text \<open>A program goes round again only under \<open>C\<close>.\<close>

definition again_only :: "('b \<Rightarrow> bool) \<Rightarrow> ('s, 'e, 'b option) prog \<Rightarrow> bool" where
  "again_only C m = (\<forall>s x s'. m s = (Ok (Some x), s') \<longrightarrow> C x)"

named_theorems again_rules

lemma again_and_then [again_rules]:
  "(\<And>x. again_only C (f x)) \<Longrightarrow> again_only C (and_then m f)"
  by (auto simp: again_only_def and_then_def split: prod.splits sum.splits)

lemma again_fail [again_rules]: "again_only C (fail e)"
  by (simp add: again_only_def fail_def)

lemma again_ret_None [again_rules]: "again_only C (ret None)"
  by (simp add: again_only_def ret_def)

lemma again_ret_Some: "C x \<Longrightarrow> again_only C (ret (Some x))"
  by (simp add: again_only_def ret_def)

lemma again_interrupted [again_rules]: "again_only C interrupted"
  unfolding interrupted_def by (intro again_rules)

lemma again_if [again_rules]:
  "(c \<Longrightarrow> again_only C a) \<Longrightarrow> (\<not> c \<Longrightarrow> again_only C b) \<Longrightarrow> again_only C (if c then a else b)" by simp

lemma again_sum [again_rules]:
  "(\<And>x. r = Inl x \<Longrightarrow> again_only C (f x)) \<Longrightarrow> (\<And>y. r = Inr y \<Longrightarrow> again_only C (g y)) \<Longrightarrow>
   again_only C (case r of Inl x \<Rightarrow> f x | Inr y \<Rightarrow> g y)"
  by (simp split: sum.splits)

lemma again_option [again_rules]:
  "(r = None \<Longrightarrow> again_only C a) \<Longrightarrow> (\<And>y. r = Some y \<Longrightarrow> again_only C (g y)) \<Longrightarrow>
   again_only C (case r of None \<Rightarrow> a | Some y \<Rightarrow> g y)"
  by (simp split: option.splits)

lemma classify_rate_limited: "classify e left = RateLimited e' \<Longrightarrow> left \<and> e' = e"
  by (auto simp: classify_def Let_def split: if_splits)

lemma outcome_rate_limited:
  "outcome_of_reply secrets retries reply = RateLimited e \<Longrightarrow> retries < max_retries"
  by (auto simp: outcome_of_reply_def dest: classify_rate_limited split: sum.splits if_splits)

lemma after_outcome_again:
  "(\<And>e. out = RateLimited e \<Longrightarrow> retries < max_retries) \<Longrightarrow>
   again_only (\<lambda>r. r = Suc retries \<and> retries < max_retries) (after_outcome E secrets tm indices retries out)"
  unfolding after_outcome_def Let_def
  by (rule again_and_then, cases out) (auto intro!: again_rules again_ret_Some)

lemma submit_round_again:
  "again_only (\<lambda>r. r = Suc retries \<and> retries < max_retries) (submit_round E secrets tm indices retries)"
  unfolding submit_round_def Let_def
  by (intro again_rules after_outcome_again) (rule outcome_rate_limited)

lemma submit_round_next:
  "submit_round E secrets tm indices retries s = (Ok (Some retries'), s') \<Longrightarrow>
   max_retries - retries' < max_retries - retries"
  using submit_round_again [of retries E secrets tm indices] unfolding again_only_def by force

function submit_loop ::
  "'w os \<Rightarrow> secret_set \<Rightarrow> timing \<Rightarrow> nat list \<Rightarrow> nat \<Rightarrow> 'w sys \<Rightarrow> (cli_error + unit) \<times> 'w sys" where
  "submit_loop E secrets tm indices retries s =
     (case submit_round E secrets tm indices retries s of
        (Inl e, s') \<Rightarrow> (Inl e, s')
      | (Inr None, s') \<Rightarrow> (Inr (), s')
      | (Inr (Some retries'), s') \<Rightarrow> submit_loop E secrets tm indices retries' s')"
  by pat_completeness auto
termination
proof (relation "measure (\<lambda>(E, secrets, tm, indices, retries, s). max_retries - retries)", simp)
  fix E :: "'w os" and secrets tm indices retries and s s' :: "'w sys" and x b r
  assume "(x, s') = submit_round E secrets tm indices retries s" "x = Inr b" "b = Some r"
  then show "((E, secrets, tm, indices, r, s'), E, secrets, tm, indices, retries, s)
      \<in> measure (\<lambda>(E, secrets, tm, indices, retries, s). max_retries - retries)"
    using submit_round_next [of E secrets tm indices retries s r s'] by simp
qed

declare submit_loop.simps [simp del]

definition submit_chunk ::
  "'w os \<Rightarrow> secret_set \<Rightarrow> timing \<Rightarrow> nat list \<Rightarrow> ('w sys, cli_error, unit) prog" where
  "submit_chunk E secrets tm indices = submit_loop E secrets tm indices 0"

section \<open>Polling\<close>

definition apply_row :: "job_state \<Rightarrow> nat \<times> item_result \<Rightarrow> job_state" where
  "apply_row st row = (case row of (i, r) \<Rightarrow>
     st\<lparr>j_items := (j_items st)[i := (j_items st ! i)
         \<lparr>i_status := (if r_action r = ActionFailed then Failed else Complete), i_result := Some r\<rparr>]\<rparr>)"

definition record_rows :: "'w os \<Rightarrow> (nat \<times> item_result) list \<Rightarrow> ('w sys, cli_error, unit) prog" where
  "record_rows E rows =
     (if rows = [] then ret ()
      else and_then (with_state (\<lambda>st. foldl apply_row st rows)) (\<lambda>_. save_with_output E))"

definition still_unresolved :: "nat list \<Rightarrow> (nat \<times> item_result) list \<Rightarrow> nat list" where
  "still_unresolved u rows = filter (\<lambda>i. i \<notin> set (map fst rows)) u"

definition poll_stop :: "str \<Rightarrow> ('w sys, cli_error, 'a) prog" where
  "poll_stop m = and_then (reads the_job) (\<lambda>j. fail (Operational
     \<lparr>message_of = m, status_of = None, details_of = [resume_detail j]\<rparr>))"

definition rate_limit_wait :: "'w os \<Rightarrow> timing \<Rightarrow> call_error \<Rightarrow> nat \<Rightarrow> ('w sys, cli_error, unit) prog" where
  "rate_limit_wait E tm e level =
     (let delay = retry_delay (ce_retry_after e) level (base_delay tm)
      in and_then (in_world (logs (Status (warn_mark @ '' Rate limited '' @ em_dash
            @ '' retry '' @ dec level @ '' in '' @ seconds delay @ ''s...'')))) (\<lambda>_.
         and_then (interrupted_during E delay) (\<lambda>stop.
         if stop then interrupted else ret ())))"

record poll_vars =
  pv_unresolved :: "nat list"
  pv_level :: nat
  pv_no_progress :: nat

text \<open>
  A poll request that failed: stop, or wait and poll again (\<open>level\<close> counts the waits). The
  reports request of a round fails in the same way.
\<close>

definition poll_failed ::
  "'w os \<Rightarrow> secret_set \<Rightarrow> timing \<Rightarrow> poll_vars \<Rightarrow> call_error \<Rightarrow> ('w sys, cli_error, poll_vars option) prog" where
  "poll_failed E secrets tm v e =
     (if call_cancelled e then interrupted
      else if rate_limited e \<and> pv_level v < max_retries then
        and_then (rate_limit_wait E tm e (pv_level v + 1)) (\<lambda>_.
        ret (Some (v\<lparr>pv_level := pv_level v + 1\<rparr>)))
      else and_then (reads the_job) (\<lambda>j. fail (call_failure secrets e Read (resume_detail j))))"

text \<open>The end of a round: the progress count, its bound and the wait.\<close>

definition poll_progress ::
  "'w os \<Rightarrow> secret_set \<Rightarrow> timing \<Rightarrow> str \<Rightarrow> nat \<Rightarrow> poll_vars \<Rightarrow> ('w sys, cli_error, poll_vars option) prog" where
  "poll_progress E secrets tm scan_id before v =
     (let stalled = (if length (pv_unresolved v) = before then pv_no_progress v + 1 else 0)
      in if max_no_progress tm \<le> stalled then
           poll_stop (''AIRS polling made no progress after '' @ dec stalled @ '' polls for scan ''
             @ scrub secrets scan_id)
         else
           and_then (if pv_unresolved v \<noteq> [] then interrupted_during E (poll_interval tm) else ret False) (\<lambda>stop.
           if stop then interrupted
           else ret (Some (v\<lparr>pv_level := pv_level v - 1, pv_no_progress := stalled\<rparr>))))"

definition poll_reports ::
  "'w os \<Rightarrow> secret_set \<Rightarrow> timing \<Rightarrow> str \<Rightarrow> nat \<Rightarrow> str \<Rightarrow> poll_vars \<Rightarrow> ('w sys, cli_error, poll_vars option) prog" where
  "poll_reports E secrets tm scan_id before report v =
     and_then (in_world (calls (os_reports E [report]))) (\<lambda>answer.
     case answer of
       Inl e \<Rightarrow> poll_failed E secrets tm v e
     | Inr reports \<Rightarrow>
         let c = correlate_reports (os_js_number E) reports scan_id report (pv_unresolved v) secrets
         in and_then (record_rows E (resolved c)) (\<lambda>_.
            case problem_of c of
              Some m \<Rightarrow> poll_stop m
            | None \<Rightarrow> poll_progress E secrets tm scan_id before
                (v\<lparr>pv_unresolved := still_unresolved (pv_unresolved v) (resolved c)\<rparr>)))"

definition poll_round ::
  "'w os \<Rightarrow> secret_set \<Rightarrow> timing \<Rightarrow> str \<Rightarrow> str option \<Rightarrow> poll_vars \<Rightarrow> ('w sys, cli_error, poll_vars option) prog" where
  "poll_round E secrets tm scan_id receipt v =
     (if pv_unresolved v = [] then ret None else
      and_then (is_cancelled E) (\<lambda>c.
      if c then interrupted else
      and_then (in_world (calls (os_results E scan_id))) (\<lambda>answer.
      case answer of
        Inl e \<Rightarrow> poll_failed E secrets tm v e
      | Inr rows \<Rightarrow>
          let before = length (pv_unresolved v);
              c = correlate_rows rows scan_id receipt (pv_unresolved v) secrets;
              v' = v\<lparr>pv_unresolved := still_unresolved (pv_unresolved v) (resolved c)\<rparr>
          in and_then (record_rows E (resolved c)) (\<lambda>_.
             case problem_of c of
               Some m \<Rightarrow> poll_stop m
             | None \<Rightarrow>
                 (case report_id c of
                    Some report \<Rightarrow> poll_reports E secrets tm scan_id before report v'
                  | None \<Rightarrow> poll_progress E secrets tm scan_id before v')))))"

text \<open>
  Every further round resolves a prompt, or counts a round without progress, or counts a
  wait: the order \<open>closer\<close> in which the loop descends.
\<close>

definition closer :: "timing \<Rightarrow> poll_vars \<Rightarrow> poll_vars \<Rightarrow> bool" where
  "closer tm v v' =
     (length (pv_unresolved v') < length (pv_unresolved v)
      \<or> length (pv_unresolved v') = length (pv_unresolved v)
        \<and> (max_no_progress tm - pv_no_progress v' < max_no_progress tm - pv_no_progress v
           \<or> pv_no_progress v' = pv_no_progress v
             \<and> max_retries - pv_level v' < max_retries - pv_level v))"

lemma length_still_unresolved: "length (still_unresolved u rows) \<le> length u"
  by (simp add: still_unresolved_def)

lemma poll_failed_again:
  assumes "length (pv_unresolved v') \<le> length (pv_unresolved v)"
    "pv_level v' = pv_level v" "pv_no_progress v' = pv_no_progress v"
  shows "again_only (closer tm v) (poll_failed E secrets tm v' e)"
  unfolding poll_failed_def
  by (intro again_rules) (use assms in \<open>auto simp: closer_def intro!: again_ret_Some\<close>)

lemma poll_progress_again:
  assumes "length (pv_unresolved v') \<le> length (pv_unresolved v)"
    "pv_no_progress v' = pv_no_progress v" "before = length (pv_unresolved v)"
  shows "again_only (closer tm v) (poll_progress E secrets tm scan_id before v')"
proof -
  let ?stalled = "if length (pv_unresolved v') = before then pv_no_progress v' + 1 else 0"
  have "closer tm v (v'\<lparr>pv_level := pv_level v' - 1, pv_no_progress := ?stalled\<rparr>)"
    if "\<not> max_no_progress tm \<le> ?stalled"
    using that assms by (auto simp: closer_def)
  then show ?thesis
    unfolding poll_progress_def Let_def poll_stop_def by (intro again_rules again_ret_Some)
qed

lemma poll_reports_again:
  assumes "length (pv_unresolved v') \<le> length (pv_unresolved v)" "pv_level v' = pv_level v"
    "pv_no_progress v' = pv_no_progress v" "before = length (pv_unresolved v)"
  shows "again_only (closer tm v) (poll_reports E secrets tm scan_id before report v')"
proof -
  have shrink: "length (still_unresolved (pv_unresolved v') rows) \<le> length (pv_unresolved v)" for rows
    using assms(1) length_still_unresolved order_trans by blast
  show ?thesis
    unfolding poll_reports_def Let_def poll_stop_def
    by (intro again_rules poll_failed_again poll_progress_again) (use assms shrink in simp_all)
qed

lemma poll_round_again: "again_only (closer tm v) (poll_round E secrets tm scan_id receipt v)"
  unfolding poll_round_def Let_def poll_stop_def
  by (intro again_rules poll_failed_again poll_progress_again poll_reports_again)
     (simp_all add: length_still_unresolved)

lemma poll_round_next:
  "poll_round E secrets tm scan_id receipt v s = (Ok (Some v'), s') \<Longrightarrow> closer tm v v'"
  using poll_round_again [of tm v E secrets scan_id receipt] unfolding again_only_def by blast

function poll_loop ::
  "'w os \<Rightarrow> secret_set \<Rightarrow> timing \<Rightarrow> str \<Rightarrow> str option \<Rightarrow> poll_vars \<Rightarrow> 'w sys \<Rightarrow> (cli_error + unit) \<times> 'w sys" where
  "poll_loop E secrets tm scan_id receipt v s =
     (case poll_round E secrets tm scan_id receipt v s of
        (Inl e, s') \<Rightarrow> (Inl e, s')
      | (Inr None, s') \<Rightarrow> (Inr (), s')
      | (Inr (Some v'), s') \<Rightarrow> poll_loop E secrets tm scan_id receipt v' s')"
  by pat_completeness auto
termination
proof (relation "measures [\<lambda>(E, secrets, tm, scan_id, receipt, v, s). length (pv_unresolved v),
    \<lambda>(E, secrets, tm, scan_id, receipt, v, s). max_no_progress tm - pv_no_progress v,
    \<lambda>(E, secrets, tm, scan_id, receipt, v, s). max_retries - pv_level v]", simp)
  fix E :: "'w os" and secrets tm scan_id receipt v and s s' :: "'w sys" and x b v'
  assume "(x, s') = poll_round E secrets tm scan_id receipt v s" "x = Inr b" "b = Some v'"
  then have "closer tm v v'"
    using poll_round_next [of E secrets tm scan_id receipt v s v' s'] by simp
  then show "((E, secrets, tm, scan_id, receipt, v', s'), E, secrets, tm, scan_id, receipt, v, s)
      \<in> measures [\<lambda>(E, secrets, tm, scan_id, receipt, v, s). length (pv_unresolved v),
    \<lambda>(E, secrets, tm, scan_id, receipt, v, s). max_no_progress tm - pv_no_progress v,
    \<lambda>(E, secrets, tm, scan_id, receipt, v, s). max_retries - pv_level v]"
    by (auto simp: closer_def)
qed

declare poll_loop.simps [simp del]

definition unresolved_of :: "job_state \<Rightarrow> str \<Rightarrow> nat list" where
  "unresolved_of st scan_id = map i_index
     (filter (\<lambda>it. i_status it = Submitted \<and> i_scan_id it = Some scan_id) (j_items st))"

definition poll_receipt ::
  "'w os \<Rightarrow> secret_set \<Rightarrow> timing \<Rightarrow> str \<Rightarrow> ('w sys, cli_error, unit) prog" where
  "poll_receipt E secrets tm scan_id =
     and_then (reads the_state) (\<lambda>st.
     let u = sorted_indices (unresolved_of st scan_id);
         receipt = (case u of [] \<Rightarrow> None | i # _ \<Rightarrow> i_receipt (j_items st ! i))
     in poll_loop E secrets tm scan_id receipt
          \<lparr>pv_unresolved = u, pv_level = 0, pv_no_progress = 0\<rparr>)"

section \<open>Batches\<close>

definition slice :: "nat \<Rightarrow> nat \<Rightarrow> 'a list \<Rightarrow> 'a list" where
  "slice a b xs = take (b - a) (drop a xs)"

definition poll_batch ::
  "'w os \<Rightarrow> secret_set \<Rightarrow> timing \<Rightarrow> nat \<Rightarrow> nat \<Rightarrow> ('w sys, cli_error, unit) prog" where
  "poll_batch E secrets tm a b =
     and_then (reads the_state) (\<lambda>st.
     for_each (poll_receipt E secrets tm)
       (receipts (map (\<lambda>it. (i_index it, i_status it, i_scan_id it)) (slice a b (j_items st)))))"

definition batch_chunks :: "'w os \<Rightarrow> job_state \<Rightarrow> item list \<Rightarrow> cli_error + nat list list" where
  "batch_chunks E st its = chunks (os_sdk E) (map (\<lambda>it. (i_index it, i_prompt it)) its)
     (j_profile st) (j_session st) (body_budget (os_sdk E))"

definition status_line :: "str \<Rightarrow> ('w sys, 'e, unit) prog" where
  "status_line t = in_world (logs (Status t))"

definition new_batch ::
  "'w os \<Rightarrow> secret_set \<Rightarrow> timing \<Rightarrow> nat \<times> nat \<times> nat \<Rightarrow> ('w sys, cli_error, unit) prog" where
  "new_batch E secrets tm batch = (case batch of (number, a, b) \<Rightarrow>
     and_then (status_line (''Submitting batch '' @ dec (number + 1) @ ''...'')) (\<lambda>_.
     and_then (reads the_state) (\<lambda>st.
     and_then (of_result (batch_chunks E st (slice a b (j_items st)))) (\<lambda>cs.
     and_then (for_each (submit_chunk E secrets tm) cs) (\<lambda>_.
     and_then (reads the_job) (\<lambda>j.
     and_then (status_line (''Scan IDs saved: '' @ state_shown j)) (\<lambda>_.
     poll_batch E secrets tm a b)))))))"

definition state_batches :: "job_state \<Rightarrow> (nat \<times> nat) list" where
  "state_batches st = logical_batches (length (j_items st)) (j_batch_size st)"

definition run_new :: "'w os \<Rightarrow> secret_set \<Rightarrow> timing \<Rightarrow> ('w sys, cli_error, unit) prog" where
  "run_new E secrets tm =
     and_then (reads the_state) (\<lambda>st.
     for_each (new_batch E secrets tm)
       (zip [0..<length (state_batches st)] (state_batches st)))"

definition resume_batch ::
  "'w os \<Rightarrow> secret_set \<Rightarrow> timing \<Rightarrow> nat \<times> nat \<Rightarrow> ('w sys, cli_error, unit) prog" where
  "resume_batch E secrets tm batch = (case batch of (a, b) \<Rightarrow>
     and_then (poll_batch E secrets tm a b) (\<lambda>_.
     and_then (reads the_state) (\<lambda>st.
     let pending = filter (\<lambda>it. i_status it = Pending) (slice a b (j_items st))
     in if pending = [] then ret ()
        else
          and_then (of_result (batch_chunks E st pending)) (\<lambda>cs.
          and_then (for_each (submit_chunk E secrets tm) cs) (\<lambda>_.
          poll_batch E secrets tm a b)))))"

definition run_resume :: "'w os \<Rightarrow> secret_set \<Rightarrow> timing \<Rightarrow> ('w sys, cli_error, unit) prog" where
  "run_resume E secrets tm =
     and_then (reads the_state) (\<lambda>st. for_each (resume_batch E secrets tm) (state_batches st))"

definition recover :: "'w os \<Rightarrow> secret_set \<Rightarrow> timing \<Rightarrow> ('w sys, cli_error, unit) prog" where
  "recover E secrets tm =
     and_then (reads the_state) (\<lambda>st.
     for_each (\<lambda>(a, b). poll_batch E secrets tm a b) (state_batches st))"

end
