(* ===== verification/Protocol.thy ===== *)
theory Protocol
  imports Engine
begin

text \<open>
  The specification of a bulk run: a machine that reads the trace of effects. It keeps the
  state known to be durable (\<open>saved\<close>), the states renamed into place since (a crash may leave
  any of them, \<open>limbo\<close>), the prompts of the POST in flight, and the prompts a POST of which
  may have reached AIRS (\<open>spent\<close>). It accepts a rename only of a state that does not call a
  spent or flying prompt pending, a POST only of prompts that are durably \<open>submitting\<close> and
  not spent, and a CSV rename only of the projection of the durable state.
\<close>

record proto =
  saved :: "job_state option"
  limbo :: "job_state list"
  in_flight :: "nat set"
  spent :: "nat set"
  csv :: "(str \<times> str) option"

definition ids :: "scan_object list \<Rightarrow> nat set" where
  "ids objects = set (map so_req_id objects)"

text \<open>A reply that rules out that AIRS accepted the prompts.\<close>

definition refused :: "call_error + receipt \<Rightarrow> bool" where
  "refused reply = (case reply of
      Inr _ \<Rightarrow> False
    | Inl e \<Rightarrow> (case http_status (ce_facts e) of Some s \<Rightarrow> 400 \<le> s \<and> s < 500 | None \<Rightarrow> False)
        \<or> outcome_of (ce_facts e) = RejectedOutcome \<or> outcome_of (ce_facts e) = NotSentOutcome)"

definition status_at :: "job_state \<Rightarrow> nat \<Rightarrow> item_status" where
  "status_at st i = i_status (j_items st ! i)"

definition protects :: "job_state \<Rightarrow> nat set \<Rightarrow> bool" where
  "protects st S = (\<forall>i \<in> S. i < length (j_items st) \<and> status_at st i \<noteq> Pending)"

definition candidates :: "proto \<Rightarrow> job_state set" where
  "candidates p = (case saved p of Some st \<Rightarrow> {st} | None \<Rightarrow> {}) \<union> set (limbo p)"

definition may_post :: "job_state \<Rightarrow> scan_object list \<Rightarrow> bool" where
  "may_post st objects = (distinct (map so_req_id objects) \<and> (\<forall>obj \<in> set objects.
      so_req_id obj < length (j_items st) \<and> status_at st (so_req_id obj) = Submitting
      \<and> so_prompt obj = i_prompt (j_items st ! so_req_id obj) \<and> so_profile obj = j_profile st))"

inductive accepts :: "proto \<Rightarrow> event \<Rightarrow> proto \<Rightarrow> bool" where
  renaming: "protects st (spent p \<union> in_flight p) \<Longrightarrow> accepts p (Renaming st) (p\<lparr>limbo := limbo p @ [st]\<rparr>)"
| synced: "limbo p \<noteq> [] \<Longrightarrow> accepts p Synced (p\<lparr>saved := Some (last (limbo p)), limbo := []\<rparr>)"
| post: "limbo p = [] \<Longrightarrow> in_flight p = {} \<Longrightarrow> saved p = Some st \<Longrightarrow> may_post st objects \<Longrightarrow>
    ids objects \<inter> spent p = {} \<Longrightarrow> accepts p (Post objects) (p\<lparr>in_flight := ids objects\<rparr>)"
| reply: "in_flight p = ids objects \<Longrightarrow> accepts p (Reply objects r)
    (p\<lparr>in_flight := {}, spent := (if refused r then spent p else spent p \<union> ids objects)\<rparr>)"
| csv_temp: "accepts p (CsvTemp t c) (p\<lparr>csv := Some (t, c)\<rparr>)"
| csv_rename: "csv p = Some (t, projection st) \<Longrightarrow> limbo p = [] \<Longrightarrow> saved p = Some st \<Longrightarrow>
    accepts p (CsvRename t) (p\<lparr>csv := None\<rparr>)"
| line: "accepts p (Status t) p"
| warning: "accepts p (Warning t) p"
| on_interrupt: "accepts p (OnInterrupt c) p"
| summary: "accepts p (Summary a b c d) p"

inductive_cases accepts_renamingE [elim!]: "accepts p (Renaming st) p'"
inductive_cases accepts_syncedE [elim!]: "accepts p Synced p'"
inductive_cases accepts_postE [elim!]: "accepts p (Post objects) p'"
inductive_cases accepts_replyE [elim!]: "accepts p (Reply objects r) p'"

inductive executes :: "proto \<Rightarrow> event list \<Rightarrow> proto \<Rightarrow> bool" where
  executes_Nil: "executes p [] p"
| executes_snoc: "executes p evs q \<Longrightarrow> accepts q ev q' \<Longrightarrow> executes p (evs @ [ev]) q'"

inductive_cases executes_NilE [elim!]: "executes p [] q"

lemma executes_snocE: "executes p (evs @ [ev]) q' \<Longrightarrow> (\<And>q. executes p evs q \<Longrightarrow> accepts q ev q' \<Longrightarrow> thesis) \<Longrightarrow> thesis"
  by (erule executes.cases) auto

lemma executes_prefix: "executes p (a @ b) q \<Longrightarrow> \<exists>m. executes p a m"
proof (induction b arbitrary: q rule: rev_induct)
  case (snoc ev b)
  then show ?case by (metis append_assoc executes_snocE)
qed auto

lemma executes_split: "executes p (a @ b) q \<Longrightarrow> \<exists>m. executes p a m \<and> executes m b q"
proof (induction b arbitrary: q rule: rev_induct)
  case (snoc ev b)
  then obtain m' where "executes p (a @ b) m'" "accepts m' ev q"
    by (metis append_assoc executes_snocE)
  with snoc.IH show ?case by (blast intro: executes_snoc)
qed (auto intro: executes_Nil)

lemma executes_trans: "executes q b r \<Longrightarrow> executes p a q \<Longrightarrow> executes p (a @ b) r"
proof (induction rule: executes.induct)
  case (executes_snoc q evs r ev r')
  then show ?case using executes.executes_snoc [of p "a @ evs" r ev r'] by simp
qed simp

section \<open>What the machine keeps\<close>

text \<open>Whatever a crash leaves does not call a spent or flying prompt pending.\<close>

definition crash_safe :: "proto \<Rightarrow> bool" where
  "crash_safe p = (\<forall>st \<in> candidates p. protects st (spent p \<union> in_flight p))"

lemma protects_Un: "protects st (S \<union> T) \<longleftrightarrow> protects st S \<and> protects st T"
  by (auto simp: protects_def)

lemma protects_mono: "protects st T \<Longrightarrow> S \<subseteq> T \<Longrightarrow> protects st S"
  by (auto simp: protects_def)

lemma may_post_protects: "may_post st objects \<Longrightarrow> protects st (ids objects)"
  by (auto simp: may_post_def protects_def ids_def)

lemma accepts_crash_safe: "accepts p ev q \<Longrightarrow> crash_safe p \<Longrightarrow> crash_safe q"
proof (induction rule: accepts.induct)
  case (renaming st p)
  then show ?case by (auto simp: crash_safe_def candidates_def)
next
  case (synced p)
  then show ?case by (auto simp: crash_safe_def candidates_def)
next
  case (post p st objects)
  then show ?case
    using may_post_protects [OF post(4)] by (auto simp: crash_safe_def candidates_def protects_Un)
next
  case (reply p objects r)
  then show ?case by (auto simp: crash_safe_def candidates_def protects_Un)
qed (auto simp: crash_safe_def candidates_def)

lemma runs_crash_safe: "executes p evs q \<Longrightarrow> crash_safe p \<Longrightarrow> crash_safe q"
  by (induction rule: executes.induct) (auto intro: accepts_crash_safe)

lemma accepts_spent: "accepts p ev q \<Longrightarrow> spent p \<subseteq> spent q"
  by (induction rule: accepts.induct) auto

lemma executes_spent: "executes p evs q \<Longrightarrow> spent p \<subseteq> spent q"
  by (induction rule: executes.induct) (auto dest: accepts_spent)

text \<open>The spent prompts are those of the start and of the replies that were not refused.\<close>

definition accepted_ids :: "event list \<Rightarrow> nat set" where
  "accepted_ids evs = {i. \<exists>objects r. Reply objects r \<in> set evs \<and> \<not> refused r \<and> i \<in> ids objects}"

lemma runs_spent_iff: "executes p evs q \<Longrightarrow> spent q = spent p \<union> accepted_ids evs"
proof (induction rule: executes.induct)
  case (executes_snoc p evs q ev q')
  have "accepted_ids (evs @ [ev]) = accepted_ids evs \<union> accepted_ids [ev]"
    by (auto simp: accepted_ids_def)
  moreover have "spent q' = spent q \<union> accepted_ids [ev]"
    using executes_snoc(2) by (cases rule: accepts.cases) (auto simp: accepted_ids_def)
  ultimately show ?case using executes_snoc(3) by auto
qed (simp add: accepted_ids_def)

text \<open>The POSTs of a prompt and the refusals of its POSTs, in a trace.\<close>

definition posts_of :: "nat \<Rightarrow> event list \<Rightarrow> nat" where
  "posts_of i evs = length (filter (\<lambda>ev. case ev of Post objects \<Rightarrow> i \<in> ids objects | _ \<Rightarrow> False) evs)"

definition refusals_of :: "nat \<Rightarrow> event list \<Rightarrow> nat" where
  "refusals_of i evs = length (filter
     (\<lambda>ev. case ev of Reply objects r \<Rightarrow> i \<in> ids objects \<and> refused r | _ \<Rightarrow> False) evs)"

text \<open>Every POST of a prompt but the last was refused, and the last one too unless it is spent or flying.\<close>

lemma executes_posts:
  "executes p evs q \<Longrightarrow> in_flight p = {} \<Longrightarrow> i \<notin> spent p \<Longrightarrow>
   posts_of i evs = refusals_of i evs + (if i \<in> in_flight q \<union> spent q then 1 else 0)
   \<and> \<not> (i \<in> in_flight q \<and> i \<in> spent q)"
proof (induction rule: executes.induct)
  case (executes_snoc p evs q ev q')
  from executes_snoc(2) executes_snoc(3) [OF executes_snoc(4,5)] show ?case
    by (cases rule: accepts.cases) (auto simp: posts_of_def refusals_of_def)
qed (simp add: posts_of_def refusals_of_def)

section \<open>The life of a job\<close>

text \<open>
  The runs of one job over its life, crashes included: a run appends an accepted event; a
  crash, or a new process after a run, starts again from any state it may find, with every
  prompt that was spent or in flight spent.
\<close>

definition restarted :: "proto \<Rightarrow> job_state \<Rightarrow> proto" where
  "restarted p st = \<lparr>saved = Some st, limbo = [], in_flight = {},
                     spent = spent p \<union> in_flight p, csv = None\<rparr>"

definition fresh_proto :: proto where
  "fresh_proto = \<lparr>saved = None, limbo = [], in_flight = {}, spent = {}, csv = None\<rparr>"

inductive lives :: "event list \<Rightarrow> proto \<Rightarrow> bool" where
  lives_fresh: "lives [] fresh_proto"
| lives_event: "lives evs p \<Longrightarrow> accepts p ev q \<Longrightarrow> lives (evs @ [ev]) q"
| lives_restart: "lives evs p \<Longrightarrow> st \<in> candidates p \<Longrightarrow> lives evs (restarted p st)"

lemma lives_executes: "executes p evs q \<Longrightarrow> lives before p \<Longrightarrow> lives (before @ evs) q"
proof (induction rule: executes.induct)
  case (executes_snoc p evs q ev q')
  then show ?case using lives_event [of "before @ evs" q ev q'] by simp
qed simp

lemma lives_crash_safe: "lives evs p \<Longrightarrow> crash_safe p"
proof (induction rule: lives.induct)
  case (lives_restart evs p st)
  then show ?case by (auto simp: crash_safe_def candidates_def restarted_def)
next
  case (lives_event evs p ev q)
  then show ?case by (blast intro: accepts_crash_safe)
qed (simp add: crash_safe_def candidates_def fresh_proto_def)

text \<open>
  In the whole life of a job a prompt is posted at most once more than its POSTs were
  refused, and once it is spent or in flight never again.
\<close>

lemma lives_posts:
  "lives evs p \<Longrightarrow> posts_of i evs \<le> refusals_of i evs + (if i \<in> in_flight p \<union> spent p then 1 else 0)
   \<and> in_flight p \<inter> spent p = {}"
proof (induction rule: lives.induct)
  case (lives_event evs p ev q)
  from lives_event(2,3) show ?case
    by (cases rule: accepts.cases) (auto simp: posts_of_def refusals_of_def split: if_splits)
next
  case (lives_restart evs p st)
  then show ?case by (auto simp: restarted_def)
qed (simp add: posts_of_def fresh_proto_def)

end
