(* ===== verification/EngineSafe.thy ===== *)
theory EngineSafe
  imports Protocol
begin

text \<open>
  The engine refines the protocol: whatever the outside world answers, the trace of a run is
  accepted by the machine of \<open>Protocol\<close>. Assertions speak of the job state and the trace
  (\<open>on\<close>); \<open>engaged p0 T\<close> says that the trace is accepted from \<open>p0\<close> with no POST in flight and
  no rename waiting for its sync, that the state does not call a spent prompt pending, and
  that the prompts \<open>T\<close> are pending.
\<close>

definition on :: "(job_state \<Rightarrow> event list \<Rightarrow> bool) \<Rightarrow> 'w sys \<Rightarrow> bool" where
  "on P s = P (the_state s) (trace (the_world s))"

definition accepted :: "proto \<Rightarrow> job_state \<Rightarrow> event list \<Rightarrow> bool" where
  "accepted p0 st t = (\<exists>q. executes p0 t q)"

definition idle :: "proto \<Rightarrow> bool" where
  "idle p = (limbo p = [] \<and> in_flight p = {})"

definition pend :: "nat set \<Rightarrow> job_state \<Rightarrow> bool" where
  "pend T st = (\<forall>i \<in> T. i < length (j_items st) \<and> status_at st i = Pending)"

definition well_indexed :: "job_state \<Rightarrow> bool" where
  "well_indexed st = (map i_index (j_items st) = [0..<length (j_items st)])"

definition engaged :: "proto \<Rightarrow> nat set \<Rightarrow> job_state \<Rightarrow> event list \<Rightarrow> bool" where
  "engaged p0 T st t = (\<exists>p. executes p0 t p \<and> idle p \<and> protects st (spent p) \<and> pend T st \<and> well_indexed st)"

lemma engaged_accepted: "engaged p0 T st t \<Longrightarrow> accepted p0 st t"
  by (auto simp: engaged_def accepted_def)

lemma accepted_on: "on (engaged p0 T) s \<Longrightarrow> on (accepted p0) s"
  unfolding on_def by (rule engaged_accepted)

section \<open>Assertions on the state and the trace\<close>

lemma on_quiet:
  assumes "quiet m" "\<And>st t. P st t \<Longrightarrow> R st t"
  shows "triple (on P) (in_world m) (\<lambda>_. on P) (on R)"
proof (rule tripleI)
  have same: "the_state s' = the_state s \<and> trace (the_world s') = trace (the_world s)"
    if "in_world m s = (r, s')" for s r s'
  proof -
    from that obtain w where "m (the_world s) = (r, w)" "s' = s\<lparr>the_world := w\<rparr>"
      by (auto simp: in_world_def split: prod.splits)
    with assms(1) show ?thesis by (simp add: quiet_def the_state_def, metis snd_conv)
  qed
  show "on P s'" if "on P s" "in_world m s = (Ok x, s')" for s x s'
    using same [OF that(2)] that(1) by (simp add: on_def)
  show "on R s'" if "on P s" "in_world m s = (Err e, s')" for s e s'
    using same [OF that(2)] that(1) assms(2) by (simp add: on_def)
qed

lemma on_quiet_sys:
  assumes "quiet m"
  shows "triple (on (engaged p0 T)) (in_world m) (\<lambda>_. on (engaged p0 T)) (on (accepted p0))"
  by (rule on_quiet [OF assms engaged_accepted])

lemma on_tried: "quiet m \<Longrightarrow> triple (on P) (attempted (in_world m)) (\<lambda>_. on P) R"
  by (rule triple_attempted, rule triple_weaken [OF on_quiet]) auto

lemma on_logs:
  "(\<And>st t. P st t \<Longrightarrow> Q st (t @ [ev])) \<Longrightarrow> triple (on P) (in_world (logs ev)) (\<lambda>_. on Q) R"
  by (auto simp: triple_def in_world_def logs_def modifies_def on_def the_state_def)

lemma on_with_state:
  "(\<And>st t. P st t \<Longrightarrow> Q (f st) t) \<Longrightarrow> triple (on P) (with_state f) (\<lambda>_. on Q) R"
  by (auto simp: triple_def with_state_def with_job_def modifies_def on_def the_state_def)

lemma on_with_job:
  "(\<And>j. jb_state (f j) = jb_state j) \<Longrightarrow> triple (on P) (with_job f) (\<lambda>_. on P) R"
  by (auto simp: triple_def with_job_def modifies_def on_def the_state_def)

lemma on_reads_job: "(\<And>j. triple (\<lambda>s. on P s \<and> the_job s = j) (g j) Q R) \<Longrightarrow>
  triple (on P) (and_then (reads the_job) g) Q R"
  by (auto simp: triple_def and_then_def reads_def)

text \<open>Where what follows does not need to know the job that was read.\<close>

lemma on_reads_any: "(\<And>x. triple (on P) (g x) Q R) \<Longrightarrow> triple (on P) (and_then (reads f) g) Q R"
  by (auto simp: triple_def and_then_def reads_def)

lemma on_reads_state: "(\<And>st. triple (on (\<lambda>st' t. st' = st \<and> P st t)) (g st) Q R) \<Longrightarrow>
  triple (on P) (and_then (reads the_state) g) Q R"
  by (auto simp: triple_def and_then_def reads_def on_def)

lemma on_fail: "(\<And>st t. P st t \<Longrightarrow> R st t) \<Longrightarrow> triple (on P) (fail e) Q (on R)"
  by (rule triple_fail) (simp add: on_def)

lemma on_interrupted: "(\<And>st t. P st t \<Longrightarrow> R st t) \<Longrightarrow> triple (on P) interrupted Q (on R)"
  unfolding interrupted_def by (rule on_reads_any, rule on_fail)

lemma on_ret: "(\<And>st t. P st t \<Longrightarrow> Q st t) \<Longrightarrow> triple (on P) (ret x) (\<lambda>_. on Q) R"
  by (rule triple_ret) (simp add: on_def)

lemma on_weaken:
  assumes "triple (on P') m Q (on R')" "\<And>st t. P st t \<Longrightarrow> P' st t" "\<And>st t. R' st t \<Longrightarrow> R st t"
  shows "triple (on P) m Q (on R)"
  by (rule triple_weaken [OF assms(1)]) (use assms(2,3) in \<open>auto simp: on_def\<close>)

lemma on_of_result:
  "(\<And>st t x. P st t \<Longrightarrow> r = Ok x \<Longrightarrow> Q x st t) \<Longrightarrow> (\<And>st t. P st t \<Longrightarrow> R st t) \<Longrightarrow>
   triple (on P) (of_result r) (\<lambda>x. on (Q x)) (on R)"
  by (rule triple_of_result) (auto simp: on_def)

text \<open>Facts of the precondition that do not speak of the state.\<close>

lemma on_fact: "(\<And>st t. P st t \<Longrightarrow> C) \<Longrightarrow> (C \<Longrightarrow> triple (on P) m Q R) \<Longrightarrow> triple (on P) m Q R"
  by (auto simp: triple_def on_def)

lemma on_ex: "(\<And>x. triple (on (P x)) m Q R) \<Longrightarrow> triple (on (\<lambda>st t. \<exists>x. P x st t)) m Q R"
  unfolding triple_def on_def by (intro allI impI, elim exE) simp

section \<open>checkpoint\<close>

text \<open>A machine with a POST answered or none: the state to be saved protects what it holds.\<close>

definition ready :: "proto \<Rightarrow> proto \<Rightarrow> job_state \<Rightarrow> event list \<Rightarrow> bool" where
  "ready p0 p st t = (executes p0 t p \<and> limbo p = [] \<and> protects st (spent p \<union> in_flight p))"

lemma stamped_items: "stamped st st' \<Longrightarrow> j_items st' = j_items st \<and> j_attempts st' = j_attempts st
    \<and> j_profile st' = j_profile st \<and> j_session st' = j_session st \<and> j_output st' = j_output st"
  by (auto simp: stamped_def)

lemma stamped_protects: "stamped st st' \<Longrightarrow> protects st' S = protects st S"
  by (simp add: protects_def status_at_def stamped_items)

lemma saved_as_state_of: "saved_as j st j' \<Longrightarrow> jb_state j' = st"
  by (auto simp: saved_as_def)

lemma checkpoint_runs:
  "triple (on (\<lambda>st' t. st' = st \<and> ready p0 p st t)) (checkpoint E c)
     (\<lambda>_. on (\<lambda>st' t. stamped st st' \<and> valid_state st \<and> executes p0 t (p\<lparr>saved := Some st'\<rparr>)))
     (on (accepted p0))"
proof (rule tripleI)
  fix s x s'
  assume pre: "on (\<lambda>st' t. st' = st \<and> ready p0 p st t) s" and run: "checkpoint E c s = (Ok x, s')"
  have h: "holding (the_job s) (trace (the_world s)) s" by (simp add: holding_def)
  from triple_Ok [OF checkpoint_triple h run] pre obtain st' where
    st': "stamped st st'" "valid_state st" "saved_as (the_job s) st' (the_job s')"
      "trace (the_world s') = trace (the_world s) @ [Renaming st', Synced]"
    by (auto simp: checkpoint_ok_def on_def the_state_def)
  from pre have r: "executes p0 (trace (the_world s)) p" "limbo p = []" "protects st (spent p \<union> in_flight p)"
    by (auto simp: on_def ready_def)
  have "accepts p (Renaming st') (p\<lparr>limbo := limbo p @ [st']\<rparr>)"
    by (rule accepts.renaming) (simp add: r(3) stamped_protects [OF st'(1)])
  moreover have "accepts (p\<lparr>limbo := limbo p @ [st']\<rparr>) Synced (p\<lparr>limbo := limbo p @ [st']\<rparr>\<lparr>
      saved := Some (last (limbo (p\<lparr>limbo := limbo p @ [st']\<rparr>))), limbo := []\<rparr>)"
    by (rule accepts.synced) simp
  ultimately have "executes p0 ((trace (the_world s) @ [Renaming st']) @ [Synced]) (p\<lparr>limbo := limbo p @ [st']\<rparr>\<lparr>
      saved := Some (last (limbo (p\<lparr>limbo := limbo p @ [st']\<rparr>))), limbo := []\<rparr>)"
    by (intro executes_snoc [OF executes_snoc [OF r(1)]])
  moreover have "p\<lparr>limbo := limbo p @ [st']\<rparr>\<lparr>saved := Some (last (limbo (p\<lparr>limbo := limbo p @ [st']\<rparr>))), limbo := []\<rparr>
      = p\<lparr>saved := Some st'\<rparr>"
    using r(2) by simp
  ultimately show "on (\<lambda>st' t. stamped st st' \<and> valid_state st \<and> executes p0 t (p\<lparr>saved := Some st'\<rparr>)) s'"
    using st' saved_as_state_of [OF st'(3)] by (simp add: on_def the_state_def)
next
  fix s e s'
  assume pre: "on (\<lambda>st' t. st' = st \<and> ready p0 p st t) s" and run: "checkpoint E c s = (Err e, s')"
  have h: "holding (the_job s) (trace (the_world s)) s" by (simp add: holding_def)
  from triple_Err [OF checkpoint_triple h run] pre obtain st' where
    st': "trace (the_world s') = trace (the_world s)
      \<or> trace (the_world s') = trace (the_world s) @ [Renaming st'] \<and> stamped st st'"
    by (auto simp: checkpoint_err_def on_def the_state_def)
  from pre have r: "executes p0 (trace (the_world s)) p" "protects st (spent p \<union> in_flight p)"
    by (auto simp: on_def ready_def)
  from st' show "on (accepted p0) s'"
  proof
    assume a: "trace (the_world s') = trace (the_world s) @ [Renaming st'] \<and> stamped st st'"
    then have "protects st' (spent p \<union> in_flight p)" using r(2) stamped_protects by blast
    from executes_snoc [OF r(1) accepts.renaming [OF this]] a show ?thesis
      by (auto simp: on_def accepted_def)
  qed (use r(1) in \<open>auto simp: on_def accepted_def\<close>)
qed

text \<open>The same, keeping what depends on the items and the attempts only.\<close>

lemma checkpoint_keeps:
  assumes "\<And>st st' t. P st t \<Longrightarrow> stamped st st' \<Longrightarrow> Q st'"
  shows "triple (on (\<lambda>st t. ready p0 p st t \<and> P st t)) (checkpoint E c)
     (\<lambda>_. on (\<lambda>st t. Q st \<and> executes p0 t (p\<lparr>saved := Some st\<rparr>))) (on (accepted p0))"
  unfolding triple_def
proof (intro allI impI)
  fix s :: "'a sys" assume pre: "on (\<lambda>st t. ready p0 p st t \<and> P st t) s"
  define st where "st = the_state s"
  have "on (\<lambda>st' t. st' = st \<and> ready p0 p st t) s" using pre by (simp add: on_def st_def)
  from checkpoint_runs [of st p0 p E c, unfolded triple_def, rule_format, OF this]
  show "case checkpoint E c s of (Inl e, s') \<Rightarrow> on (accepted p0) s'
      | (Inr x, s') \<Rightarrow> on (\<lambda>st t. Q st \<and> executes p0 t (p\<lparr>saved := Some st\<rparr>)) s'"
    using pre assms [of st "trace (the_world s)"]
    by (auto simp: on_def st_def split: prod.splits sum.splits)
qed

section \<open>The items of a chunk\<close>

lemma length_set_items [simp]: "length (set_items is f its) = length its"
  by (induction "is" f its rule: set_items.induct) simp_all

lemma set_items_other: "i \<notin> set is \<Longrightarrow> set_items is f its ! i = its ! i"
  by (induction "is" f its rule: set_items.induct) auto

lemma set_items_same:
  "i \<in> set is \<Longrightarrow> distinct is \<Longrightarrow> \<forall>j \<in> set is. j < length its \<Longrightarrow> set_items is f its ! i = f (its ! i)"
proof (induction "is" f its rule: set_items.induct)
  case (2 j "is" f its)
  then show ?case by (cases "i = j") (auto simp: set_items_other)
qed simp

text \<open>A change of a chunk that keeps the indices.\<close>

lemma set_items_indexed:
  assumes "well_indexed st" "j_items st' = set_items is f (j_items st)" "\<And>it. i_index (f it) = i_index it"
    "distinct is" "\<forall>j \<in> set is. j < length (j_items st)"
  shows "well_indexed st'"
proof -
  have "i_index (set_items is f (j_items st) ! i) = i_index (j_items st ! i)" for i
    using set_items_other [of i "is" f "j_items st"] set_items_same [of i "is" "j_items st" f] assms(3-5)
    by (cases "i \<in> set is") simp_all
  then have "map i_index (set_items is f (j_items st)) = map i_index (j_items st)"
    by (intro nth_equalityI) simp_all
  then show ?thesis using assms(1,2) by (simp add: well_indexed_def)
qed

lemma well_indexed_nth: "well_indexed st \<Longrightarrow> i < length (j_items st) \<Longrightarrow> i_index (j_items st ! i) = i"
proof -
  assume w: "well_indexed st" and i: "i < length (j_items st)"
  then have "map i_index (j_items st) ! i = [0..<length (j_items st)] ! i" by (simp add: well_indexed_def)
  with i show "i_index (j_items st ! i) = i" by simp
qed

definition chunk_in :: "nat list \<Rightarrow> job_state \<Rightarrow> bool" where
  "chunk_in is st = (distinct is \<and> (\<forall>i \<in> set is. i < length (j_items st)))"

lemma status_set_items:
  assumes "j_items st' = set_items is f (j_items st)" "chunk_in is st"
  shows "status_at st' i = (if i \<in> set is then i_status (f (j_items st ! i)) else status_at st i)"
  using assms by (simp add: status_at_def chunk_in_def set_items_other set_items_same)

section \<open>One submission\<close>

definition submitting :: "nat list \<Rightarrow> job_state \<Rightarrow> bool" where
  "submitting is st = (chunk_in is st \<and> (\<forall>i \<in> set is. status_at st i = Submitting))"

text \<open>Between C1 and C3: nothing in flight, and the chunk is spent only after a reply that was not refused.\<close>

definition chunk_open ::
  "proto \<Rightarrow> nat set \<Rightarrow> nat list \<Rightarrow> bool \<Rightarrow> proto \<Rightarrow> job_state \<Rightarrow> event list \<Rightarrow> bool" where
  "chunk_open p0 T is clean p st t =
     (executes p0 t p \<and> idle p \<and> protects st (spent p) \<and> (clean \<longrightarrow> set is \<inter> spent p = {})
      \<and> submitting is st \<and> pend (T - set is) st \<and> well_indexed st)"

lemma begin_attempt_open:
  assumes "executes p0 t p" "idle p" "protects st (spent p)" "pend T st" "well_indexed st"
    "distinct is" "set is \<subseteq> T"
  shows "chunk_open p0 T is True p (begin_attempt is now st) t"
proof -
  let ?f = "\<lambda>it. it\<lparr>i_status := Submitting, i_attempt := Some (length (j_attempts st) + 1)\<rparr>"
  let ?st = "begin_attempt is now st"
  have items: "j_items ?st = set_items is ?f (j_items st)" by (simp add: begin_attempt_def Let_def)
  have range: "chunk_in is st" using assms(4,6,7) by (auto simp: chunk_in_def pend_def)
  note status = status_set_items [OF items range]
  have "set is \<inter> spent p = {}" using assms(3,4,7) by (fastforce simp: protects_def pend_def)
  moreover have "well_indexed ?st"
    by (rule set_items_indexed [OF assms(5) items]) (use range in \<open>auto simp: chunk_in_def\<close>)
  moreover have "protects ?st (spent p)" "pend (T - set is) ?st" "submitting is ?st"
    using assms(3,4) range by (auto simp: protects_def pend_def submitting_def chunk_in_def status items)
  ultimately show ?thesis using assms(1,2) by (simp add: chunk_open_def)
qed

lemma stamped_chunk_open:
  "stamped st st' \<Longrightarrow> chunk_open p0 T is clean p st t \<Longrightarrow> executes p0 t' (p\<lparr>saved := x\<rparr>) \<Longrightarrow>
   chunk_open p0 T is clean (p\<lparr>saved := x\<rparr>) st' t'"
  by (simp add: chunk_open_def idle_def protects_def pend_def submitting_def chunk_in_def well_indexed_def
      status_at_def stamped_items)

lemma scan_object_fields:
  "scan_object_of S i prompt profile session = Ok b \<Longrightarrow>
   so_req_id b = i \<and> so_prompt b = prompt \<and> so_profile b = profile"
  by (auto simp: scan_object_of_def Let_def split: if_splits)

lemma objects_may_post:
  assumes "objects_of E st is = Ok objects" "submitting is st" "well_indexed st"
  shows "may_post st objects \<and> ids objects = set is"
proof -
  from collect_r_Ok [OF assms(1) [unfolded objects_of_def]]
  have len: "length objects = length is"
    and each: "\<And>k. k < length is \<Longrightarrow> scan_object_of (os_sdk E) (i_index (j_items st ! (is ! k)))
        (i_prompt (j_items st ! (is ! k))) (j_profile st) (j_session st) = Ok (objects ! k)"
    by auto
  have range: "is ! k < length (j_items st)" if "k < length is" for k
    using assms(2) that by (auto simp: submitting_def chunk_in_def)
  have obj: "so_req_id (objects ! k) = is ! k \<and> so_prompt (objects ! k) = i_prompt (j_items st ! (is ! k))
      \<and> so_profile (objects ! k) = j_profile st" if "k < length is" for k
    using scan_object_fields [OF each [OF that]] well_indexed_nth [OF assms(3) range [OF that]] by simp
  have reqs: "map so_req_id objects = is" using len obj by (intro nth_equalityI) auto
  have "so_req_id b < length (j_items st) \<and> status_at st (so_req_id b) = Submitting
      \<and> so_prompt b = i_prompt (j_items st ! so_req_id b) \<and> so_profile b = j_profile st"
    if "b \<in> set objects" for b
  proof -
    from that obtain k where k: "k < length objects" "b = objects ! k" by (auto simp: in_set_conv_nth)
    then have "is ! k \<in> set is" using len by simp
    with k len obj [of k] range [of k] assms(2) show ?thesis by (simp add: submitting_def)
  qed
  then show ?thesis using assms(2) reqs by (simp add: may_post_def ids_def submitting_def chunk_in_def)
qed

text \<open>The POST and its reply.\<close>

definition answered ::
  "proto \<Rightarrow> nat set \<Rightarrow> nat list \<Rightarrow> (call_error + receipt) \<Rightarrow> job_state \<Rightarrow> event list \<Rightarrow> bool" where
  "answered p0 T is r st t = (\<exists>p. chunk_open p0 T is (refused r) p st t)"

lemma post_runs:
  assumes "may_post st objects" "ids objects = set is"
  shows "triple (on (\<lambda>st' t. st' = st \<and> (\<exists>p. chunk_open p0 T is True p st t \<and> saved p = Some st)))
     (post E objects) (\<lambda>reply. on (answered p0 T is (fst reply))) (on (accepted p0))"
proof -
  let ?posted = "\<lambda>st' t. st' = st \<and> (\<exists>p. chunk_open p0 T is True p st' (butlast t)
      \<and> saved p = Some st \<and> executes p0 t (p\<lparr>in_flight := set is\<rparr>))"
  have posted: "?posted st (t @ [Post objects])" if p: "chunk_open p0 T is True p st t" "saved p = Some st" for p t
  proof -
    have acc: "accepts p (Post objects) (p\<lparr>in_flight := ids objects\<rparr>)"
      using p assms by (intro accepts.post) (auto simp: chunk_open_def idle_def)
    have "executes p0 t p" using p(1) by (simp add: chunk_open_def)
    from executes_snoc [OF this acc]
    have "executes p0 (t @ [Post objects]) (p\<lparr>in_flight := set is\<rparr>)" using assms(2) by simp
    with p show ?thesis by auto
  qed
  have replied: "answered p0 T is r st' (t @ [Reply objects r])" if "?posted st' t" for r st' t
  proof -
    from that obtain p where p: "chunk_open p0 T is True p st' (butlast t)"
      "executes p0 t (p\<lparr>in_flight := set is\<rparr>)" by auto
    let ?q = "p\<lparr>in_flight := set is\<rparr>"
    let ?q' = "?q\<lparr>in_flight := {}, spent := (if refused r then spent ?q else spent ?q \<union> ids objects)\<rparr>"
    have "accepts ?q (Reply objects r) ?q'" by (rule accepts.reply) (simp add: assms(2))
    with p(2) have "executes p0 (t @ [Reply objects r]) ?q'" by (rule executes_snoc)
    moreover have "chunk_open p0 T is (refused r) ?q' st' t'" if "executes p0 t' ?q'" for t'
      using p(1) that assms(2)
      by (auto simp: chunk_open_def idle_def protects_def submitting_def chunk_in_def)
    ultimately show ?thesis unfolding answered_def by blast
  qed
  show ?thesis
    unfolding post_def
    apply (rule triple_and_then)
     apply (rule on_logs [where Q = ?posted])
     apply (use posted in blast)
    apply (rule triple_and_then)
     apply (rule on_quiet, intro quiet_rules)
     apply (auto simp: accepted_def) []
    apply (rule triple_and_then)
     apply (rule on_logs, erule replied)
    apply (rule triple_ret, assumption)
    done
qed

section \<open>The outcome of a submission\<close>

lemma pending_refused:
  "item_status_of (outcome_of_reply secrets retries r) = Pending \<Longrightarrow> refused r"
  by (auto simp: outcome_of_reply_def classify_def refused_def rate_limited_def Let_def split: sum.splits if_splits option.splits)

text \<open>After C3: the chunk is no longer pending, or it was refused and all of \<open>T\<close> is pending.\<close>

definition settled :: "proto \<Rightarrow> nat set \<Rightarrow> nat list \<Rightarrow> outcome \<Rightarrow> job_state \<Rightarrow> event list \<Rightarrow> bool" where
  "settled p0 T is out st t = (engaged p0 (T - set is) st t
     \<and> (item_status_of out = Pending \<longrightarrow> engaged p0 T st t))"

lemma end_attempt_ready:
  fixes n :: nat and status :: "nat option" and now :: str
  assumes "chunk_open p0 T is (refused r) p st t" "out = outcome_of_reply secrets retries r" "set is \<subseteq> T"
  defines "st' \<equiv> end_attempt secrets n is out status now st"
  shows "ready p0 p st' t \<and> idle p \<and> protects st' (spent p) \<and> pend (T - set is) st'
     \<and> (item_status_of out = Pending \<longrightarrow> pend T st') \<and> well_indexed st'"
proof -
  let ?f = "\<lambda>it. it\<lparr>i_status := item_status_of out, i_scan_id := outcome_scan out,
            i_receipt := (if outcome_scan out \<noteq> None then outcome_report out else None)\<rparr>"
  have items: "j_items st' = set_items is ?f (j_items st)" by (simp add: st'_def end_attempt_def)
  have range: "chunk_in is st" using assms(1) by (simp add: chunk_open_def submitting_def)
  have status: "status_at st' i = (if i \<in> set is then item_status_of out else status_at st i)" for i
    using status_set_items [OF items range, of i] by simp
  have prot: "protects st' (spent p)"
    using assms(1) pending_refused [of secrets retries r] assms(2)
    by (auto simp: chunk_open_def protects_def status items)
  have "well_indexed st'"
    by (rule set_items_indexed [OF _ items]) (use assms(1) range in \<open>auto simp: chunk_open_def chunk_in_def\<close>)
  with prot assms(1,3) range show ?thesis
    by (auto simp: chunk_open_def ready_def idle_def pend_def status items chunk_in_def)
qed

definition settling :: "proto \<Rightarrow> nat set \<Rightarrow> nat list \<Rightarrow> outcome \<Rightarrow> job_state \<Rightarrow> event list \<Rightarrow> bool" where
  "settling p0 T is out st t = (\<exists>p. ready p0 p st t \<and> idle p \<and> protects st (spent p)
     \<and> pend (T - set is) st \<and> (item_status_of out = Pending \<longrightarrow> pend T st) \<and> well_indexed st)"

lemma stamped_pend: "stamped st st' \<Longrightarrow> pend T st' = pend T st"
  by (simp add: pend_def status_at_def stamped_items)

lemma stamped_indexed: "stamped st st' \<Longrightarrow> well_indexed st' = well_indexed st"
  by (simp add: well_indexed_def stamped_items)

lemma checkpoint_settles:
  "triple (on (settling p0 T is out)) (checkpoint E c) (\<lambda>_. on (settled p0 T is out)) (on (accepted p0))"
  unfolding settling_def
proof (rule on_ex)
  fix p
  let ?P = "\<lambda>st t. idle p \<and> protects st (spent p) \<and> pend (T - set is) st
      \<and> (item_status_of out = Pending \<longrightarrow> pend T st) \<and> well_indexed st"
  have "triple (on (\<lambda>st t. ready p0 p st t \<and> ?P st t)) (checkpoint E c)
      (\<lambda>_. on (\<lambda>st t. ?P st t \<and> executes p0 t (p\<lparr>saved := Some st\<rparr>))) (on (accepted p0))"
    by (rule checkpoint_keeps) (simp add: stamped_pend stamped_indexed stamped_protects)
  then show "triple (on (\<lambda>st t. ready p0 p st t \<and> ?P st t)) (checkpoint E c)
      (\<lambda>_. on (settled p0 T is out)) (on (accepted p0))"
  proof (rule triple_weaken)
    fix x and s :: "'a sys"
    assume "on (\<lambda>st t. ?P st t \<and> executes p0 t (p\<lparr>saved := Some st\<rparr>)) s"
    then have "idle (p\<lparr>saved := Some (the_state s)\<rparr>)" "?P (the_state s) (trace (the_world s))"
      "executes p0 (trace (the_world s)) (p\<lparr>saved := Some (the_state s)\<rparr>)"
      by (auto simp: on_def idle_def)
    then show "on (settled p0 T is out) s"
      unfolding on_def settled_def engaged_def by (auto intro!: exI [of _ "p\<lparr>saved := Some (the_state s)\<rparr>"])
  qed auto
qed

lemma checkpoint_opens:
  "triple (on (\<lambda>st t. \<exists>p. chunk_open p0 T is True p st t)) (checkpoint E c)
     (\<lambda>_. on (\<lambda>st t. \<exists>p. chunk_open p0 T is True p st t \<and> saved p = Some st)) (on (accepted p0))"
proof (rule on_ex)
  fix p
  let ?P = "\<lambda>st t. chunk_open p0 T is True p st t"
  have "triple (on (\<lambda>st t. ready p0 p st t \<and> ?P st t)) (checkpoint E c)
      (\<lambda>_. on (\<lambda>st t. (\<exists>st0 t0. stamped st0 st \<and> ?P st0 t0) \<and> executes p0 t (p\<lparr>saved := Some st\<rparr>))) (on (accepted p0))"
    by (rule checkpoint_keeps) blast
  then show "triple (on ?P) (checkpoint E c)
      (\<lambda>_. on (\<lambda>st t. \<exists>p. chunk_open p0 T is True p st t \<and> saved p = Some st)) (on (accepted p0))"
  proof (rule triple_weaken)
    show "on (\<lambda>st t. ready p0 p st t \<and> ?P st t) s" if "on ?P s" for s :: "'a sys"
      using that by (auto simp: on_def ready_def chunk_open_def idle_def)
    show "on (\<lambda>st t. \<exists>p. chunk_open p0 T is True p st t \<and> saved p = Some st) s"
      if "on (\<lambda>st t. (\<exists>st0 t0. stamped st0 st \<and> ?P st0 t0) \<and> executes p0 t (p\<lparr>saved := Some st\<rparr>)) s"
      for x and s :: "'a sys"
      using that unfolding on_def
      by (auto intro!: exI [of _ "p\<lparr>saved := Some (the_state s)\<rparr>"] stamped_chunk_open)
  qed auto
qed

lemma on_log_line:
  assumes "\<And>q. accepts q ev q"
  shows "triple (on (engaged p0 T)) (in_world (logs ev)) (\<lambda>_. on (engaged p0 T)) R"
  by (rule on_logs) (auto simp: engaged_def intro: executes_snoc assms)

lemma interrupted_during_safe:
  "triple (on (engaged p0 T)) (interrupted_during E delay) (\<lambda>_. on (engaged p0 T)) (on (accepted p0))"
  unfolding interrupted_during_def is_cancelled_def
  apply (rule triple_and_then, rule on_quiet_sys, intro quiet_rules)
  apply (split if_split, intro conjI impI)
   apply (rule on_ret, assumption)
  apply (rule on_quiet_sys, intro quiet_rules)
  done

lemma after_outcome_safe:
  fixes E :: "'w os"
  shows "triple (on (settled p0 T is out)) (after_outcome E secrets tm is retries out)
     (\<lambda>r. case r of None \<Rightarrow> on (engaged p0 (T - set is)) | Some _ \<Rightarrow> on (engaged p0 T)) (on (accepted p0))"
proof -
  have acc: "accepted p0 st t" if "settled p0 T is out st t" for st t
    using that engaged_accepted by (auto simp: settled_def)
  have stop: "triple (on (settled p0 T is out)) (fail e) Q (on (accepted p0))"
    for e :: cli_error and Q :: "nat option \<Rightarrow> 'w sys \<Rightarrow> bool"
    by (rule on_fail, erule acc)
  have intr: "triple (on (settled p0 T is out)) interrupted Q (on (accepted p0))"
    for Q :: "nat option \<Rightarrow> 'w sys \<Rightarrow> bool"
    by (rule on_interrupted, erule acc)
  have fin: "triple (on (settled p0 T is out)) (and_then (is_cancelled E) (\<lambda>c. if c then interrupted else ret (None :: nat option)))
      (\<lambda>r. case r of None \<Rightarrow> on (engaged p0 (T - set is)) | Some _ \<Rightarrow> on (engaged p0 T)) (on (accepted p0))"
    unfolding is_cancelled_def
    apply (rule triple_and_then, rule on_quiet, intro quiet_rules, erule acc)
    apply (split if_split, intro conjI impI)
     apply (rule intr)
    apply (rule triple_ret, simp add: on_def settled_def)
    done
  have again: "triple (on (settled p0 T is out)) (and_then (in_world (logs (Status line)))
        (\<lambda>_. and_then (interrupted_during E delay) (\<lambda>stop. if stop then interrupted else ret (Some n))))
      (\<lambda>r. case r of None \<Rightarrow> on (engaged p0 (T - set is)) | Some _ \<Rightarrow> on (engaged p0 T)) (on (accepted p0))"
    if "item_status_of out = Pending" for line delay and n :: nat
    apply (rule on_weaken [where P' = "engaged p0 T" and R' = "accepted p0"])
      apply (rule triple_and_then, rule on_log_line, rule accepts.line)
      apply (rule triple_and_then, rule interrupted_during_safe)
      apply (split if_split, intro conjI impI)
       apply (rule on_interrupted, erule engaged_accepted)
      apply (rule triple_ret, simp)
    using that by (auto simp: settled_def)
  show ?thesis
    unfolding after_outcome_def Let_def
  proof (rule on_reads_any)
    fix j
    show "triple (on (settled p0 T is out)) (case out of
       AcceptedOutcome _ _ \<Rightarrow> and_then (is_cancelled E) (\<lambda>c. if c then interrupted else ret None)
     | Unusable \<Rightarrow> fail (Operational \<lparr>message_of = unusable_text (ranges is), status_of = None,
                                       details_of = [ambiguous_detail j (ranges is)]\<rparr>)
     | RateLimited e \<Rightarrow>
         and_then (in_world (logs (Status (warn_mark @ '' Rate limited while submitting '' @ em_dash
                @ '' retry '' @ dec (retries + 1) @ '' in ''
                @ seconds (retry_delay (ce_retry_after e) (retries + 1) (base_delay tm)) @ ''s...'')))) (\<lambda>_.
            and_then (interrupted_during E (retry_delay (ce_retry_after e) (retries + 1) (base_delay tm))) (\<lambda>stop.
            if stop then interrupted else ret (Some (retries + 1))))
     | RejectedCall e \<Rightarrow> fail (call_failure secrets e ScanSubmit (resume_detail j))
     | NotSentCall e \<Rightarrow>
         if call_cancelled e then interrupted
         else fail (call_failure secrets e ScanSubmit (resume_detail j))
     | UnknownCall e \<Rightarrow>
         if call_cancelled e
         then fail (Interrupted (Bulk (''prompts '' @ ranges is
                @ '' may already have been submitted (outcome unknown); the job was saved in ''
                @ state_shown j)))
         else fail (call_failure secrets e ScanSubmit (ambiguous_detail j (ranges is))))
      (\<lambda>r. case r of None \<Rightarrow> on (engaged p0 (T - set is)) | Some _ \<Rightarrow> on (engaged p0 T)) (on (accepted p0))"
    proof (cases out)
      case (AcceptedOutcome scan report)
      then show ?thesis using fin by simp
    next
      case (RateLimited e)
      then show ?thesis using again by simp
    qed (use stop intr in simp_all)
  qed
qed

lemma verify_lock_safe:
  "triple (on (engaged p0 T)) (verify_lock E) (\<lambda>_. on (engaged p0 T)) (on (accepted p0))"
  unfolding verify_lock_def
  apply (rule on_reads_any)
  apply (split option.split, intro conjI allI impI)
   apply (rule on_ret, assumption)
  apply (rule triple_and_then, rule on_quiet_sys, intro quiet_rules)
  apply (split if_split, intro conjI impI)
   apply (rule on_ret, assumption)
  apply (rule on_fail, erule engaged_accepted)
  done

lemma submit_round_safe:
  assumes "distinct is" "set is \<subseteq> T"
  shows "triple (on (engaged p0 T)) (submit_round E secrets tm is retries)
     (\<lambda>r. case r of None \<Rightarrow> on (engaged p0 (T - set is)) | Some _ \<Rightarrow> on (engaged p0 T)) (on (accepted p0))"
proof -
  let ?opened = "\<lambda>st t. \<exists>p. chunk_open p0 T is True p st t"
  let ?durable = "\<lambda>st t. \<exists>p. chunk_open p0 T is True p st t \<and> saved p = Some st"
  have opened: "?opened (begin_attempt is now st) t" if "engaged p0 T st t" for now st t
    using that assms unfolding engaged_def by (blast intro: begin_attempt_open)
  have acc: "accepted p0 st t" if "?durable st t" for st t
    using that by (auto simp: chunk_open_def accepted_def)
  have acc': "accepted p0 st t" if "answered p0 T is r st t" for r st t
    using that by (auto simp: answered_def chunk_open_def accepted_def)
  have settle: "settling p0 T is (outcome_of_reply secrets retries r)
      (end_attempt secrets n is (outcome_of_reply secrets retries r) http now st) t"
    if "answered p0 T is r st t" for r n http now st t
    using that end_attempt_ready [OF _ refl assms(2)] unfolding answered_def settling_def by blast
  have post: "triple (on (\<lambda>st' t. st' = st \<and> ?durable st t)) (and_then (of_result (objects_of E st is)) (\<lambda>objects.
      and_then (post E objects) f)) Q (on (accepted p0))"
    if "\<And>reply. triple (on (answered p0 T is (fst reply))) (f reply) Q (on (accepted p0))" for st f Q
    apply (rule triple_and_then)
     apply (rule on_of_result [where Q = "\<lambda>objects st' t. st' = st \<and> ?durable st t \<and> objects_of E st is = Ok objects"])
      apply blast
     apply (use acc in blast)
    apply (rule on_fact [where C = "may_post st x \<and> ids x = set is" for x])
     apply (use objects_may_post [of E st "is"] in \<open>auto simp: chunk_open_def\<close>) []
    apply (rule triple_and_then)
     apply (rule on_weaken [OF post_runs [where ?p0.0 = p0 and T = T and st = st]], erule conjunct1, erule conjunct2, blast, assumption)
    apply (rule that)
    done
  show ?thesis
    unfolding submit_round_def is_cancelled_def Let_def
    apply (rule triple_and_then, rule on_quiet_sys, intro quiet_rules)
    apply (split if_split, intro conjI impI)
     apply (rule on_interrupted, erule engaged_accepted)
    apply (rule triple_and_then, rule verify_lock_safe)
    apply (rule triple_and_then, rule on_quiet_sys, intro quiet_rules)
    apply (rule on_reads_any)
    apply (rule triple_and_then, rule on_with_state [where Q = ?opened], erule opened)
    apply (rule triple_and_then, rule checkpoint_opens)
    apply (rule on_reads_state, rule post)
    apply (rule triple_and_then, rule on_quiet, intro quiet_rules, erule acc')
    apply (rule triple_and_then, rule on_with_state, erule settle)
    apply (rule triple_and_then, rule checkpoint_settles)
    apply (rule after_outcome_safe)
    done
qed

lemma submit_loop_safe:
  assumes "distinct is" "set is \<subseteq> T"
  shows "on (engaged p0 T) s \<Longrightarrow> (case submit_loop E secrets tm is retries s of
     (Inl e, s') \<Rightarrow> on (accepted p0) s' | (Inr x, s') \<Rightarrow> on (engaged p0 (T - set is)) s')"
  using assms
proof (induction E secrets tm "is" retries s rule: submit_loop.induct)
  case (1 E secrets tm "is" retries s)
  note round = submit_round_safe [OF 1(3,4), of p0 E secrets tm retries]
  show ?case
  proof (cases "submit_round E secrets tm is retries s")
    case (Pair r s')
    show ?thesis
    proof (cases r)
      case (Inl e)
      with Pair triple_Err [OF round 1(2)] show ?thesis by (subst submit_loop.simps) simp
    next
      case (Inr x)
      with Pair triple_Ok [OF round 1(2)] 1(1) [OF Pair [symmetric] Inr] 1(3,4) show ?thesis
        by (subst submit_loop.simps) (auto split: option.splits)
    qed
  qed
qed

lemma submit_chunk_safe:
  "distinct is \<Longrightarrow> set is \<subseteq> T \<Longrightarrow>
   triple (on (engaged p0 T)) (submit_chunk E secrets tm is) (\<lambda>_. on (engaged p0 (T - set is))) (on (accepted p0))"
  unfolding triple_def submit_chunk_def by (intro allI impI) (rule submit_loop_safe)

section \<open>Saving with the output\<close>

lemma prepare_trace:
  "triple (\<lambda>w. trace w = t) (prepare E path contents sh)
     (\<lambda>p w. trace w = t @ [CsvTemp (p_temp p) contents]) (\<lambda>w. trace w = t)"
  unfolding prepare_def Let_def
  apply (split option.split, intro conjI allI impI)
   apply (rule triple_fail, assumption)
  apply (rule triple_and_then [where M = "\<lambda>_ w. trace w = t"], rule triple_quiet, intro quiet_rules, simp, simp)
  apply (rule triple_and_then [where M = "\<lambda>_ w. trace w = t"], rule triple_quiet, intro quiet_rules, simp, simp)
  apply (split sum.split, intro conjI allI impI)
   apply (rule triple_and_then [where M = "\<lambda>_ w. trace w = t"], rule triple_quiet, intro quiet_rules, simp, simp)
   apply (rule triple_fail, assumption)
  apply (rule triple_and_then, rule triple_logs [where Q = "\<lambda>_ w. trace w = t @ [CsvTemp temp contents]" for temp], simp)
  apply (rule triple_ret, simp)
  done

lemma on_prepare:
  "triple (on P) (attempted (in_world (prepare E path contents sh)))
     (\<lambda>r. on (case r of Inl _ \<Rightarrow> P | Inr p \<Rightarrow> \<lambda>st t. \<exists>t0. P st t0 \<and> t = t0 @ [CsvTemp (p_temp p) contents])) R"
  unfolding triple_def
proof (intro allI impI)
  fix s :: "'a sys" assume "on P s"
  obtain r w where rw: "prepare E path contents sh (the_world s) = (r, w)" by fastforce
  show "case attempted (in_world (prepare E path contents sh)) s of (Inl e, s') \<Rightarrow> R s'
      | (Inr r, s') \<Rightarrow> on (case r of Inl _ \<Rightarrow> P | Inr p \<Rightarrow> \<lambda>st t. \<exists>t0. P st t0 \<and> t = t0 @ [CsvTemp (p_temp p) contents]) s'"
  proof (cases r)
    case (Inl e)
    with triple_Err [OF prepare_trace refl rw [unfolded Inl]] \<open>on P s\<close> show ?thesis
      by (simp add: attempted_def in_world_def rw on_def the_state_def)
  next
    case (Inr p)
    with triple_Ok [OF prepare_trace refl rw [unfolded Inr]] \<open>on P s\<close> show ?thesis
      by (auto simp: attempted_def in_world_def rw on_def the_state_def)
  qed
qed

lemma on_reads_job_state:
  "(\<And>j. triple (on (\<lambda>st t. st = jb_state j \<and> P st t)) (g j) Q R) \<Longrightarrow> triple (on P) (and_then (reads the_job) g) Q R"
  by (simp add: triple_def and_then_def reads_def on_def the_state_def)

text \<open>A change of the output record keeps the items.\<close>

definition same_items :: "job_state \<Rightarrow> job_state \<Rightarrow> bool" where
  "same_items st st' = (j_items st' = j_items st)"

lemma same_items_stamped: "stamped st st' \<Longrightarrow> same_items st st'"
  by (simp add: same_items_def stamped_items)

lemma same_items_facts:
  assumes "same_items st st'"
  shows "protects st' S = protects st S" "pend T st' = pend T st" "well_indexed st' = well_indexed st"
    "projection st' = projection st"
  using assms by (simp_all add: same_items_def protects_def pend_def well_indexed_def status_at_def projection_def)

text \<open>The CSV temporary holds the projection of the state.\<close>

definition csv_ready :: "proto \<Rightarrow> nat set \<Rightarrow> str \<Rightarrow> proto \<Rightarrow> job_state \<Rightarrow> event list \<Rightarrow> bool" where
  "csv_ready p0 T temp p st t = (executes p0 t p \<and> idle p \<and> protects st (spent p) \<and> pend T st
     \<and> well_indexed st \<and> csv p = Some (temp, projection st))"

lemma csv_ready_same:
  "same_items st st' \<Longrightarrow> csv_ready p0 T temp p st t \<Longrightarrow> csv_ready p0 T temp p st' t"
  by (simp add: csv_ready_def same_items_facts)

lemma engaged_same: "same_items st st' \<Longrightarrow> engaged p0 T st t \<Longrightarrow> engaged p0 T st' t"
  by (auto simp: engaged_def same_items_facts)

lemma engaged_csv_temp:
  assumes "engaged p0 T st t"
  shows "\<exists>p. csv_ready p0 T temp p st (t @ [CsvTemp temp (projection st)])"
proof -
  from assms obtain p where p: "executes p0 t p" "idle p" "protects st (spent p)" "pend T st" "well_indexed st"
    by (auto simp: engaged_def)
  have "executes p0 (t @ [CsvTemp temp (projection st)]) (p\<lparr>csv := Some (temp, projection st)\<rparr>)"
    by (rule executes_snoc [OF p(1) accepts.csv_temp])
  with p show ?thesis
    by (intro exI [of _ "p\<lparr>csv := Some (temp, projection st)\<rparr>"]) (simp add: csv_ready_def idle_def)
qed

lemma checkpoint_csv:
  "triple (on (\<lambda>st t. \<exists>p. csv_ready p0 T temp p st t)) (checkpoint E c)
     (\<lambda>_. on (\<lambda>st t. \<exists>p. csv_ready p0 T temp p st t \<and> saved p = Some st)) (on (accepted p0))"
proof (rule on_ex)
  fix p
  let ?P = "\<lambda>st t. csv_ready p0 T temp p st t"
  have "triple (on (\<lambda>st t. ready p0 p st t \<and> ?P st t)) (checkpoint E c)
      (\<lambda>_. on (\<lambda>st t. (\<exists>t0. ?P st t0) \<and> executes p0 t (p\<lparr>saved := Some st\<rparr>))) (on (accepted p0))"
    by (rule checkpoint_keeps) (blast intro: csv_ready_same same_items_stamped)
  then show "triple (on ?P) (checkpoint E c)
      (\<lambda>_. on (\<lambda>st t. \<exists>p. csv_ready p0 T temp p st t \<and> saved p = Some st)) (on (accepted p0))"
  proof (rule triple_weaken)
    show "on (\<lambda>st t. ready p0 p st t \<and> ?P st t) s" if "on ?P s" for s :: "'a sys"
      using that by (auto simp: on_def ready_def csv_ready_def idle_def)
    show "on (\<lambda>st t. \<exists>p. csv_ready p0 T temp p st t \<and> saved p = Some st) s"
      if "on (\<lambda>st t. (\<exists>t0. ?P st t0) \<and> executes p0 t (p\<lparr>saved := Some st\<rparr>)) s" for x and s :: "'a sys"
      using that unfolding on_def
      by (auto intro!: exI [of _ "p\<lparr>saved := Some (the_state s)\<rparr>"] simp: csv_ready_def idle_def)
  qed auto
qed

lemma checkpoint_engaged:
  "triple (on (engaged p0 T)) (checkpoint E c) (\<lambda>_. on (engaged p0 T)) (on (accepted p0))"
  unfolding engaged_def
proof (rule on_ex)
  fix p
  let ?P = "\<lambda>st t. idle p \<and> protects st (spent p) \<and> pend T st \<and> well_indexed st"
  have "triple (on (\<lambda>st t. ready p0 p st t \<and> ?P st t)) (checkpoint E c)
      (\<lambda>_. on (\<lambda>st t. ?P st t \<and> executes p0 t (p\<lparr>saved := Some st\<rparr>))) (on (accepted p0))"
    by (rule checkpoint_keeps) (simp add: same_items_facts [OF same_items_stamped])
  then show "triple (on (\<lambda>st t. executes p0 t p \<and> ?P st t)) (checkpoint E c)
      (\<lambda>_. on (\<lambda>st t. \<exists>p. executes p0 t p \<and> idle p \<and> protects st (spent p) \<and> pend T st \<and> well_indexed st))
      (on (accepted p0))"
  proof (rule triple_weaken)
    show "on (\<lambda>st t. ready p0 p st t \<and> ?P st t) s" if "on (\<lambda>st t. executes p0 t p \<and> ?P st t) s" for s :: "'a sys"
      using that by (auto simp: on_def ready_def idle_def)
    show "on (\<lambda>st t. \<exists>p. executes p0 t p \<and> idle p \<and> protects st (spent p) \<and> pend T st \<and> well_indexed st) s"
      if "on (\<lambda>st t. ?P st t \<and> executes p0 t (p\<lparr>saved := Some st\<rparr>)) s" for x and s :: "'a sys"
      using that unfolding on_def
      by (auto intro!: exI [of _ "p\<lparr>saved := Some (the_state s)\<rparr>"] simp: idle_def)
  qed auto
qed

lemma commit_safe:
  "triple (on (\<lambda>st t. \<exists>p. csv_ready p0 T (p_temp pr) p st t \<and> saved p = Some st)) (commit E pr sh)
     (\<lambda>_. on (engaged p0 T)) (on (accepted p0))"
proof -
  let ?P = "\<lambda>st t. \<exists>p. csv_ready p0 T (p_temp pr) p st t \<and> saved p = Some st"
  have acc: "accepted p0 st t" if "?P st t" for st t
    using that by (auto simp: csv_ready_def accepted_def)
  have renamed: "engaged p0 T st (t @ [CsvRename (p_temp pr)])" if "?P st t" for st t
  proof -
    from that obtain p where p: "csv_ready p0 T (p_temp pr) p st t" "saved p = Some st" by blast
    then have "accepts p (CsvRename (p_temp pr)) (p\<lparr>csv := None\<rparr>)"
      by (intro accepts.csv_rename) (auto simp: csv_ready_def idle_def)
    moreover from p(1) have "executes p0 t p" by (simp add: csv_ready_def)
    ultimately have "executes p0 (t @ [CsvRename (p_temp pr)]) (p\<lparr>csv := None\<rparr>)"
      by (metis executes_snoc)
    with p(1) show ?thesis
      unfolding engaged_def
      by (intro exI [of _ "p\<lparr>csv := None\<rparr>"]) (simp add: csv_ready_def idle_def)
  qed
  show ?thesis
    unfolding commit_def Let_def
    apply (rule on_reads_any)
    apply (rule triple_and_then, rule on_tried, intro quiet_rules)
    apply (split if_split, intro conjI impI)
     apply (rule triple_and_then, rule on_quiet, intro quiet_rules, erule acc)
     apply (rule on_fail, erule acc)
    apply (rule triple_and_then, rule on_logs [where Q = "engaged p0 T"], erule renamed)
    apply (rule triple_and_then, rule on_tried, intro quiet_rules)
    apply (split sum.split, intro conjI allI impI)
     apply (rule triple_and_then, rule on_quiet_sys, intro quiet_rules)
     apply (rule on_fail, erule engaged_accepted)
    apply (rule triple_and_then, rule on_with_state [where Q = "engaged p0 T"])
     apply (erule engaged_same [rotated], simp add: same_items_def)
    apply (rule triple_and_then, rule on_quiet_sys, intro quiet_rules)
    apply (split prod.split, intro allI impI)
    apply (rule triple_and_then, rule on_with_job, simp)
    apply (rule on_ret, assumption)
    done
qed

lemma attempted_cases:
  "triple P m Q R' \<Longrightarrow> triple P (attempted m) (\<lambda>r. case r of Inl _ \<Rightarrow> R' | Inr x \<Rightarrow> Q x) R"
  by (rule triple_attempted, erule triple_weaken) auto

lemma engaged_csv_output:
  "engaged p0 T st t \<Longrightarrow>
   \<exists>p. csv_ready p0 T temp p (st\<lparr>j_output := rec\<rparr>) (t @ [CsvTemp temp (projection st)])"
  using engaged_csv_temp [of p0 T st t temp] csv_ready_same [of st "st\<lparr>j_output := rec\<rparr>"]
  unfolding same_items_def by fastforce

lemma save_with_output_safe:
  "triple (on (engaged p0 T)) (save_with_output E) (\<lambda>_. on (engaged p0 T)) (on (accepted p0))"
  unfolding save_with_output_def Let_def
  apply (rule on_reads_job_state)
  apply (rule triple_and_then, rule on_prepare)
  apply (rename_tac j made, case_tac made; simp only: sum.case)
   apply (rule triple_and_then, rule on_with_state [where Q = "engaged p0 T"])
    apply (erule conjE, erule engaged_same [rotated], simp add: same_items_def)
   apply (rule triple_and_then, rule checkpoint_engaged)
   apply (rule on_fail, erule engaged_accepted)
  subgoal for j made pr
    apply (rule triple_and_then, rule on_with_state [where Q = "\<lambda>st t. \<exists>p. csv_ready p0 T (p_temp pr) p st t"])
     apply (elim exE conjE, simp, rule engaged_csv_output, assumption)
    apply (rule triple_and_then, rule attempted_cases, rule checkpoint_csv)
    apply (rename_tac r, case_tac r; simp only: sum.case)
     apply (rule triple_and_then, rule on_quiet, intro quiet_rules, assumption)
     apply (rule on_fail, assumption)
    apply (rule triple_and_then, rule commit_safe)
    apply (split rewritten.split, intro conjI allI impI)
     apply (rule on_ret, assumption)
    apply (rule on_log_line, rule accepts.warning)
    done
  done

section \<open>Polling\<close>

lemma map_update_same: "f v = f (xs ! a) \<Longrightarrow> map f (xs[a := v]) = map f xs"
  by (rule nth_equalityI, simp) (auto, metis nth_list_update_eq nth_list_update_neq)

lemma apply_rows_items:
  "length (j_items (foldl apply_row st rows)) = length (j_items st)
   \<and> (i \<notin> set (map fst rows) \<longrightarrow> j_items (foldl apply_row st rows) ! i = j_items st ! i)
   \<and> map i_index (j_items (foldl apply_row st rows)) = map i_index (j_items st)"
proof (induction rows arbitrary: st)
  case (Cons row rows)
  have one: "length (j_items (apply_row st row)) = length (j_items st)
      \<and> (i \<noteq> fst row \<longrightarrow> j_items (apply_row st row) ! i = j_items st ! i)
      \<and> map i_index (j_items (apply_row st row)) = map i_index (j_items st)"
    by (cases row) (auto simp: apply_row_def intro: map_update_same)
  with Cons [of "apply_row st row"] show ?case by simp
qed simp

lemma apply_rows_status:
  "i \<in> set (map fst rows) \<Longrightarrow> i < length (j_items st) \<Longrightarrow>
   status_at (foldl apply_row st rows) i \<in> {Complete, Failed}"
proof (induction rows arbitrary: st)
  case (Cons row rows)
  show ?case
  proof (cases "i \<in> set (map fst rows)")
    case True
    moreover have "i < length (j_items (apply_row st row))"
      using Cons.prems(2) apply_rows_items [of st "[row]"] by simp
    ultimately show ?thesis using Cons.IH by simp
  next
    case False
    with Cons.prems have "fst row = i" by simp
    then have "status_at (apply_row st row) i \<in> {Complete, Failed}"
      using Cons.prems(2) by (cases row) (simp add: status_at_def apply_row_def)
    moreover have "status_at (foldl apply_row (apply_row st row) rows) i = status_at (apply_row st row) i"
      using False apply_rows_items [of "apply_row st row" rows i] by (simp add: status_at_def)
    ultimately show ?thesis by simp
  qed
qed simp

lemma engaged_rows:
  assumes "engaged p0 T st t" "set (map fst rows) \<inter> T = {}"
  shows "engaged p0 T (foldl apply_row st rows) t"
proof -
  let ?st = "foldl apply_row st rows"
  from assms(1) obtain p where p: "executes p0 t p" "idle p" "protects st (spent p)" "pend T st" "well_indexed st"
    by (auto simp: engaged_def)
  have len: "length (j_items ?st) = length (j_items st)" and idx: "map i_index (j_items ?st) = map i_index (j_items st)"
    using apply_rows_items by blast+
  have status: "status_at ?st i = status_at st i \<or> status_at ?st i \<in> {Complete, Failed}"
    if "i < length (j_items st)" for i
    using apply_rows_items [of st rows i] apply_rows_status [of i rows st] that
    by (cases "i \<in> set (map fst rows)") (auto simp: status_at_def)
  have "protects ?st (spent p)" using p(3) status len by (fastforce simp: protects_def)
  moreover have "pend T ?st"
    unfolding pend_def
  proof
    fix i assume "i \<in> T"
    moreover from this have "j_items ?st ! i = j_items st ! i"
      using assms(2) apply_rows_items [of st rows i] by blast
    ultimately show "i < length (j_items ?st) \<and> status_at ?st i = Pending"
      using p(4) len by (simp add: pend_def status_at_def)
  qed
  moreover have "well_indexed ?st" using p(5) len idx by (simp add: well_indexed_def)
  ultimately show ?thesis using p(1,2) by (auto simp: engaged_def)
qed

lemma record_rows_safe:
  assumes "set (map fst rows) \<inter> T = {}"
  shows "triple (on (engaged p0 T)) (record_rows E rows) (\<lambda>_. on (engaged p0 T)) (on (accepted p0))"
  unfolding record_rows_def
  apply (split if_split, intro conjI impI)
   apply (rule on_ret, assumption)
  apply (rule triple_and_then, rule on_with_state [where Q = "engaged p0 T"])
   apply (erule engaged_rows, rule assms)
  apply (rule save_with_output_safe)
  done

lemma poll_stop_safe: "triple (on (engaged p0 T)) (poll_stop m) Q (on (accepted p0))"
  unfolding poll_stop_def by (rule on_reads_any, rule on_fail, erule engaged_accepted)

lemma rate_limit_wait_safe:
  "triple (on (engaged p0 T)) (rate_limit_wait E tm e level) (\<lambda>_. on (engaged p0 T)) (on (accepted p0))"
  unfolding rate_limit_wait_def Let_def
  apply (rule triple_and_then, rule on_log_line, rule accepts.line)
  apply (rule triple_and_then, rule interrupted_during_safe)
  apply (split if_split, intro conjI impI)
   apply (rule on_interrupted, erule engaged_accepted)
  apply (rule on_ret, assumption)
  done

text \<open>A round leaves the job engaged and its unresolved prompts outside \<open>T\<close>.\<close>

definition polling :: "proto \<Rightarrow> nat set \<Rightarrow> poll_vars option \<Rightarrow> job_state \<Rightarrow> event list \<Rightarrow> bool" where
  "polling p0 T v st t = (engaged p0 T st t
     \<and> (case v of None \<Rightarrow> True | Some v \<Rightarrow> set (pv_unresolved v) \<inter> T = {} \<and> distinct (pv_unresolved v)))"

lemma poll_failed_safe:
  assumes "set (pv_unresolved v) \<inter> T = {}" "distinct (pv_unresolved v)"
  shows "triple (on (engaged p0 T)) (poll_failed E secrets tm v e) (\<lambda>x. on (polling p0 T x)) (on (accepted p0))"
  unfolding poll_failed_def
  apply (split if_split, intro conjI impI)
   apply (rule on_interrupted, erule engaged_accepted)
  apply (split if_split, intro conjI impI)
   apply (rule triple_and_then, rule rate_limit_wait_safe)
   apply (rule triple_ret, simp add: on_def polling_def assms)
  apply (rule on_reads_any, rule on_fail, erule engaged_accepted)
  done

lemma poll_progress_safe:
  assumes "set (pv_unresolved v) \<inter> T = {}" "distinct (pv_unresolved v)"
  shows "triple (on (engaged p0 T)) (poll_progress E secrets tm scan_id before v)
     (\<lambda>x. on (polling p0 T x)) (on (accepted p0))"
  unfolding poll_progress_def Let_def
  apply (split if_split, intro conjI impI)
   apply (rule poll_stop_safe)
  apply (rule triple_and_then [where M = "\<lambda>_. on (engaged p0 T)"])
   apply (split if_split, intro conjI impI)
    apply (rule interrupted_during_safe)
   apply (rule on_ret, assumption)
  apply (split if_split, intro conjI impI)
   apply (rule on_interrupted, erule engaged_accepted)
  apply (rule triple_ret, simp add: on_def polling_def assms)
  done

text \<open>The rows of a correlation are of the unresolved prompts.\<close>

lemma fits_rows: "fits scan_id u open_set rows \<Longrightarrow> set u \<inter> T = {} \<Longrightarrow> set (map fst rows) \<inter> T = {}"
  by (auto simp: fits_def)

lemma still_unresolved_facts:
  "set u \<inter> T = {} \<Longrightarrow> set (still_unresolved u rows) \<inter> T = {}"
  "distinct u \<Longrightarrow> distinct (still_unresolved u rows)"
  by (auto simp: still_unresolved_def)

lemma poll_reports_safe:
  assumes "set (pv_unresolved v) \<inter> T = {}" "distinct (pv_unresolved v)"
  shows "triple (on (engaged p0 T)) (poll_reports E secrets tm scan_id before report v)
     (\<lambda>x. on (polling p0 T x)) (on (accepted p0))"
proof -
  have rows: "set (map fst (resolved (correlate_reports js reports scan_id report (pv_unresolved v) secrets))) \<inter> T = {}"
    for js reports
    using correlate_reports_fits [OF assms(2)] fits_rows [OF _ assms(1)] by blast
  show ?thesis
    unfolding poll_reports_def Let_def
    apply (rule triple_and_then, rule on_quiet_sys, intro quiet_rules)
    apply (split sum.split, intro conjI allI impI)
     apply (rule poll_failed_safe [OF assms])
    apply (rule triple_and_then, rule record_rows_safe [OF rows])
    apply (split option.split, intro conjI allI impI)
     apply (rule poll_progress_safe; simp add: still_unresolved_facts assms)
    apply (rule poll_stop_safe)
    done
qed

lemma poll_round_safe:
  assumes "set (pv_unresolved v) \<inter> T = {}" "distinct (pv_unresolved v)"
  shows "triple (on (engaged p0 T)) (poll_round E secrets tm scan_id receipt v)
     (\<lambda>x. on (polling p0 T x)) (on (accepted p0))"
proof -
  have rows: "set (map fst (resolved (correlate_rows rows scan_id receipt (pv_unresolved v) secrets))) \<inter> T = {}"
    for rows
    using correlate_rows_fits [OF assms(2)] fits_rows [OF _ assms(1)] by blast
  show ?thesis
    unfolding poll_round_def is_cancelled_def Let_def
    apply (split if_split, intro conjI impI)
     apply (rule triple_ret, simp add: on_def polling_def)
    apply (rule triple_and_then, rule on_quiet_sys, intro quiet_rules)
    apply (split if_split, intro conjI impI)
     apply (rule on_interrupted, erule engaged_accepted)
    apply (rule triple_and_then, rule on_quiet_sys, intro quiet_rules)
    apply (split sum.split, intro conjI allI impI)
     apply (rule poll_failed_safe [OF assms])
    apply (rule triple_and_then, rule record_rows_safe [OF rows])
    apply (split option.split, intro conjI allI impI)
     apply (split option.split, intro conjI allI impI)
      apply (rule poll_progress_safe; simp add: still_unresolved_facts assms)
     apply (rule poll_reports_safe; simp add: still_unresolved_facts assms)
    apply (rule poll_stop_safe)
    done
qed

lemma poll_loop_safe:
  "on (engaged p0 T) s \<Longrightarrow> set (pv_unresolved v) \<inter> T = {} \<Longrightarrow> distinct (pv_unresolved v) \<Longrightarrow>
   (case poll_loop E secrets tm scan_id receipt v s of
     (Inl e, s') \<Rightarrow> on (accepted p0) s' | (Inr x, s') \<Rightarrow> on (engaged p0 T) s')"
proof (induction E secrets tm scan_id receipt v s rule: poll_loop.induct)
  case (1 E secrets tm scan_id receipt v s)
  note round = poll_round_safe [OF 1(3,4), of p0 E secrets tm scan_id receipt]
  show ?case
  proof (cases "poll_round E secrets tm scan_id receipt v s")
    case (Pair r s')
    show ?thesis
    proof (cases r)
      case (Inl e)
      with Pair triple_Err [OF round 1(2)] show ?thesis by (subst poll_loop.simps) simp
    next
      case (Inr x)
      with Pair triple_Ok [OF round 1(2)] have x: "on (polling p0 T x) s'" by simp
      show ?thesis
      proof (cases x)
        case None
        with x Pair Inr show ?thesis by (subst poll_loop.simps) (simp add: on_def polling_def)
      next
        case (Some v')
        have "case poll_loop E secrets tm scan_id receipt v' s' of
            (Inl e, s') \<Rightarrow> on (accepted p0) s' | (Inr x, s') \<Rightarrow> on (engaged p0 T) s'"
          by (rule 1(1) [OF Pair [symmetric] Inr Some]) (use x Some in \<open>simp_all add: on_def polling_def\<close>)
        with Pair Inr Some show ?thesis by (subst poll_loop.simps) simp
      qed
    qed
  qed
qed

lemma unresolved_disjoint:
  assumes "pend T st" "well_indexed st"
  shows "set (sorted_indices (unresolved_of st scan_id)) \<inter> T = {}"
proof -
  have "i \<notin> T" if "i \<in> set (unresolved_of st scan_id)" for i
  proof -
    from that obtain it where it: "it \<in> set (j_items st)" "i_status it = Submitted" "i = i_index it"
      by (auto simp: unresolved_of_def)
    then obtain k where k: "k < length (j_items st)" "it = j_items st ! k" by (auto simp: in_set_conv_nth)
    with it well_indexed_nth [OF assms(2) k(1)] have "status_at st i = Submitted" by (simp add: status_at_def)
    with assms(1) show ?thesis by (auto simp: pend_def)
  qed
  then show ?thesis by auto
qed

lemma poll_receipt_safe:
  "triple (on (engaged p0 T)) (poll_receipt E secrets tm scan_id) (\<lambda>_. on (engaged p0 T)) (on (accepted p0))"
  unfolding poll_receipt_def Let_def
  apply (rule on_reads_state)
  apply (rule on_fact)
   apply (erule conjE, unfold engaged_def, elim exE conjE, erule (1) unresolved_disjoint)
  apply (fold engaged_def)
  unfolding triple_def
  apply (intro allI impI)
  apply (rule poll_loop_safe)
    apply (simp add: on_def)
   apply simp_all
  done

lemma poll_batch_safe:
  "triple (on (engaged p0 T)) (poll_batch E secrets tm a b) (\<lambda>_. on (engaged p0 T)) (on (accepted p0))"
  unfolding poll_batch_def
  by (rule on_reads_any, rule triple_for_each, rule poll_receipt_safe)

section \<open>The runs\<close>

text \<open>Submitting the chunks of a batch uses up their prompts.\<close>

lemma chunks_safe:
  assumes "distinct (concat cs)" "set (concat cs) \<subseteq> T"
  shows "triple (on (engaged p0 T)) (for_each (submit_chunk E secrets tm) cs)
     (\<lambda>_. on (engaged p0 (T - set (concat cs)))) (on (accepted p0))"
  using assms
proof (induction cs arbitrary: T)
  case (Cons c cs)
  have rest: "triple (on (engaged p0 (T - set c))) (for_each (submit_chunk E secrets tm) cs)
     (\<lambda>_. on (engaged p0 (T - set c - set (concat cs)))) (on (accepted p0))"
    using Cons.prems by (intro Cons.IH) auto
  have "T - set c - set (concat cs) = T - set (concat (c # cs))" by auto
  with rest show ?case
    using Cons.prems by (simp, intro triple_and_then [OF submit_chunk_safe]) auto
qed (simp add: triple_ret)

lemma batch_chunks_concat:
  "batch_chunks E st its = Ok cs \<Longrightarrow> concat cs = map i_index its"
  unfolding batch_chunks_def by (drule chunks_concat) (simp add: comp_def)

lemma engaged_mono: "engaged p0 T st t \<Longrightarrow> S \<subseteq> T \<Longrightarrow> engaged p0 S st t"
  by (auto simp: engaged_def pend_def)

lemma slice_indices:
  assumes "well_indexed st" "b \<le> length (j_items st)"
  shows "map i_index (slice a b (j_items st)) = [a..<b]"
proof -
  have "map i_index (slice a b (j_items st)) = take (b - a) (drop a [0..<length (j_items st)])"
    using assms(1) by (simp add: slice_def well_indexed_def flip: take_map drop_map)
  also have "\<dots> = [a..<b]" using assms(2) take_upt [of a "b - a" "length (j_items st)"] by (cases "a \<le> b") simp_all
  finally show ?thesis .
qed

lemma status_line_safe:
  "triple (on (engaged p0 T)) (status_line m) (\<lambda>_. on (engaged p0 T)) R"
  unfolding status_line_def by (rule on_log_line, rule accepts.line)

lemma new_batch_safe:
  assumes "a < b" "{a..<b} \<subseteq> T"
  shows "triple (on (engaged p0 T)) (new_batch E secrets tm (k, a, b))
     (\<lambda>_. on (engaged p0 (T - {a..<b}))) (on (accepted p0))"
proof -
  have idx: "concat cs = [a..<b]"
    if "engaged p0 T st t" "batch_chunks E st (slice a b (j_items st)) = Ok cs" for st t cs
  proof -
    from that(1) have w: "well_indexed st" and "pend T st" by (auto simp: engaged_def)
    have "b - 1 \<in> T" using assms by auto
    with \<open>pend T st\<close> have "b - 1 < length (j_items st)" by (simp add: pend_def)
    then have "b \<le> length (j_items st)" using assms(1) by simp
    with batch_chunks_concat [OF that(2)] slice_indices [OF w] show ?thesis by simp
  qed
  show ?thesis
    unfolding new_batch_def prod.case
    apply (rule triple_and_then, rule status_line_safe)
    apply (rule on_reads_state)
    apply (rule triple_and_then)
     apply (rule on_of_result [where Q = "\<lambda>cs st t. concat cs = [a..<b] \<and> engaged p0 T st t"])
      apply (use idx in blast)
     apply (use engaged_accepted in blast)
    apply (rule on_fact, erule conjunct1)
    apply (rule triple_and_then)
     apply (rule on_weaken [OF chunks_safe [where T = T]])
        apply simp
       apply (use assms in simp)
      apply (erule conjunct2)
     apply assumption
    apply (simp only: set_upt)
    apply (rule on_reads_any)
    apply (rule triple_and_then, rule status_line_safe)
    apply (rule poll_batch_safe)
    done
qed

definition batch_prompts :: "(nat \<times> nat \<times> nat) list \<Rightarrow> nat list" where
  "batch_prompts bs = concat (map (\<lambda>(k, a, b). [a..<b]) bs)"

lemma batch_prompts_simps [simp]:
  "batch_prompts [] = []" "batch_prompts ((k, a, b) # bs) = [a..<b] @ batch_prompts bs"
  by (simp_all add: batch_prompts_def)

lemma batch_prompts_snd: "batch_prompts bs = concat (map (\<lambda>(a, b). [a..<b]) (map snd bs))"
  by (induction bs) (auto simp: batch_prompts_def)

lemma new_batches_safe:
  assumes "distinct (batch_prompts bs)" "\<forall>(k, a, b) \<in> set bs. a < b" "set (batch_prompts bs) \<subseteq> T"
  shows "triple (on (engaged p0 T)) (for_each (new_batch E secrets tm) bs)
     (\<lambda>_. on (engaged p0 (T - set (batch_prompts bs)))) (on (accepted p0))"
  using assms
proof (induction bs arbitrary: T)
  case (Cons batch bs)
  obtain k a b where batch: "batch = (k, a, b)" by (cases batch)
  have set: "set (batch_prompts (batch # bs)) = {a..<b} \<union> set (batch_prompts bs)"
    "{a..<b} \<inter> set (batch_prompts bs) = {}"
    using Cons.prems(1) by (simp_all add: batch)
  have rest: "triple (on (engaged p0 (T - {a..<b}))) (for_each (new_batch E secrets tm) bs)
     (\<lambda>_. on (engaged p0 (T - {a..<b} - set (batch_prompts bs)))) (on (accepted p0))"
    using Cons.prems set by (intro Cons.IH) (auto simp: batch)
  have "T - {a..<b} - set (batch_prompts bs) = T - set (batch_prompts (batch # bs))" using set(1) by auto
  with rest have rest': "triple (on (engaged p0 (T - {a..<b}))) (for_each (new_batch E secrets tm) bs)
     (\<lambda>_. on (engaged p0 (T - set (batch_prompts (batch # bs))))) (on (accepted p0))" by simp
  show ?case
    unfolding for_each.simps batch
    by (rule triple_and_then [OF new_batch_safe])
       (use Cons.prems set rest' in \<open>auto simp: batch\<close>)
qed (simp add: triple_ret)

lemma run_new_safe:
  "triple (on (\<lambda>st t. engaged p0 {..<length (j_items st)} st t \<and> length (j_items st) \<le> u64_max))
     (run_new E secrets tm) (\<lambda>_. on (engaged p0 {})) (on (accepted p0))"
  unfolding run_new_def
  apply (rule on_reads_state)
  subgoal for st
  proof -
    let ?bs = "zip [0..<length (state_batches st)] (state_batches st)"
    have snd: "map snd ?bs = state_batches st" by simp
    have prompts: "batch_prompts ?bs = [0..<length (j_items st)]" if "length (j_items st) \<le> u64_max"
      unfolding batch_prompts_snd snd unfolding state_batches_def by (rule logical_batches_concat [OF that])
    have lt: "\<forall>(k, a, b) \<in> set ?bs. a < b" if "length (j_items st) \<le> u64_max"
      using logical_batches_bounds [OF _ that, of _ _ "j_batch_size st"]
      by (auto simp: state_batches_def dest: set_zip_rightD)
    show ?thesis
    proof (rule on_fact [where C = "length (j_items st) \<le> u64_max"])
      assume u: "length (j_items st) \<le> u64_max"
      have "triple (on (engaged p0 {..<length (j_items st)})) (for_each (new_batch E secrets tm) ?bs)
          (\<lambda>_. on (engaged p0 ({..<length (j_items st)} - set (batch_prompts ?bs)))) (on (accepted p0))"
        by (rule new_batches_safe) (use prompts [OF u] lt [OF u] in \<open>auto simp only: distinct_upt set_upt atLeastLessThan_iff lessThan_iff\<close>)
      then show "triple (on (\<lambda>st' t. st' = st \<and> engaged p0 {..<length (j_items st)} st t \<and> length (j_items st) \<le> u64_max))
          (for_each (new_batch E secrets tm) ?bs) (\<lambda>_. on (engaged p0 {})) (on (accepted p0))"
        by (rule triple_weaken) (auto simp: on_def intro: engaged_mono)
    qed blast
  qed
  done

lemma pending_prompts:
  assumes "well_indexed st" "concat cs = map i_index (filter (\<lambda>it. i_status it = Pending) (slice a b (j_items st)))"
  shows "distinct (concat cs)" "pend (set (concat cs)) st"
proof -
  have "distinct (map i_index (slice a b (j_items st)))"
  proof -
    have "map i_index (slice a b (j_items st)) = take (b - a) (drop a [0..<length (j_items st)])"
      using assms(1) by (simp add: slice_def well_indexed_def flip: take_map drop_map)
    then show ?thesis by simp
  qed
  then show "distinct (concat cs)" unfolding assms(2) by (rule distinct_map_filter)
  show "pend (set (concat cs)) st"
    unfolding pend_def
  proof
    fix i assume "i \<in> set (concat cs)"
    then obtain it where it: "it \<in> set (slice a b (j_items st))" "i_status it = Pending" "i = i_index it"
      by (auto simp: assms(2))
    then have "it \<in> set (j_items st)" by (auto simp: slice_def dest: in_set_takeD in_set_dropD)
    then obtain n where n: "n < length (j_items st)" "it = j_items st ! n" by (auto simp: in_set_conv_nth)
    with it well_indexed_nth [OF assms(1) n(1)] show "i < length (j_items st) \<and> status_at st i = Pending"
      by (simp add: status_at_def)
  qed
qed

lemma engaged_pending:
  assumes "engaged p0 T st t"
    "batch_chunks E st (filter (\<lambda>it. i_status it = Pending) (slice a b (j_items st))) = Ok cs"
  shows "distinct (concat cs) \<and> engaged p0 (set (concat cs)) st t"
proof -
  from assms(1) obtain p where p: "executes p0 t p" "idle p" "protects st (spent p)" "well_indexed st"
    by (auto simp: engaged_def)
  note facts = pending_prompts [OF p(4) batch_chunks_concat [OF assms(2)]]
  from p facts(2) have "engaged p0 (set (concat cs)) st t" unfolding engaged_def by blast
  with facts(1) show ?thesis by blast
qed

lemma resume_batch_safe:
  "triple (on (engaged p0 {})) (resume_batch E secrets tm batch) (\<lambda>_. on (engaged p0 {})) (on (accepted p0))"
proof (cases batch)
  case (Pair a b)
  show ?thesis
    unfolding resume_batch_def Pair prod.case Let_def
    apply (rule triple_and_then, rule poll_batch_safe)
    apply (rule on_reads_state)
    apply (split if_split, intro conjI impI)
     apply (rule on_ret, simp)
    apply (rule triple_and_then)
     apply (rule on_of_result [where Q = "\<lambda>cs st t. distinct (concat cs) \<and> engaged p0 (set (concat cs)) st t"])
      apply (use engaged_pending in blast)
     apply (use engaged_accepted in blast)
    apply (rule on_fact, erule conjunct1)
    subgoal for u st cs
      apply (rule triple_and_then)
       apply (rule on_weaken [OF chunks_safe [where T = "set (concat cs)"]], assumption, simp)
        apply (erule conjunct2)
       apply assumption
      apply (rule on_weaken [OF poll_batch_safe [where T = "{}"]])
       apply simp
      apply assumption
      done
    done
qed

lemma run_resume_safe:
  "triple (on (engaged p0 {})) (run_resume E secrets tm) (\<lambda>_. on (engaged p0 {})) (on (accepted p0))"
  unfolding run_resume_def by (rule on_reads_any, rule triple_for_each, rule resume_batch_safe)

lemma recover_safe:
  "triple (on (engaged p0 {})) (recover E secrets tm) (\<lambda>_. on (engaged p0 {})) (on (accepted p0))"
  unfolding recover_def
  by (rule on_reads_any, rule triple_for_each, simp add: split_beta, rule poll_batch_safe)

end
