(* ===== verification/EngineDone.thy ===== *)
theory EngineDone
  imports EngineSafe
begin

text \<open>
  A run that succeeds is complete: when \<open>run_new\<close> ends without an error, every prompt has a
  final result. Assertions speak of the items (\<open>its\<close>); the error side is free. Submission
  touches the items of its chunk only (\<open>beyond\<close>), polling only ends items (\<open>later\<close>).
\<close>

definition its :: "(item list \<Rightarrow> bool) \<Rightarrow> 'w sys \<Rightarrow> bool" where
  "its Q s = Q (j_items (the_state s))"

abbreviation (input) free :: "'w sys \<Rightarrow> bool" where
  "free \<equiv> \<lambda>_. True"

lemma its_on: "its Q = on (\<lambda>st t. Q (j_items st))"
  by (simp add: its_def on_def fun_eq_iff)

lemma its_quiet: "quiet m \<Longrightarrow> triple (its Q) (in_world m) (\<lambda>_. its Q) free"
  unfolding its_on by (rule triple_weaken [OF on_quiet]) auto

lemma its_tried: "quiet m \<Longrightarrow> triple (its Q) (attempted (in_world m)) (\<lambda>_. its Q) R"
  unfolding its_on by (rule on_tried)

lemma its_logs: "triple (its Q) (in_world (logs ev)) (\<lambda>_. its Q) R"
  unfolding its_on by (rule on_logs)

lemma its_with_state: "(\<And>st. Q (j_items st) \<Longrightarrow> Q' (j_items (f st))) \<Longrightarrow> triple (its Q) (with_state f) (\<lambda>_. its Q') R"
  unfolding its_on by (rule on_with_state)

lemma its_with_job: "(\<And>j. jb_state (f j) = jb_state j) \<Longrightarrow> triple (its Q) (with_job f) (\<lambda>_. its Q) R"
  unfolding its_on by (rule on_with_job)

lemma its_reads: "(\<And>x. triple (its Q) (g x) Q' R) \<Longrightarrow> triple (its Q) (and_then (reads f) g) Q' R"
  unfolding its_on by (rule on_reads_any)

lemma its_reads_state:
  "(\<And>st. triple (its (\<lambda>is. is = j_items st \<and> Q is)) (g st) Q' R) \<Longrightarrow> triple (its Q) (and_then (reads the_state) g) Q' R"
  by (auto simp: triple_def and_then_def reads_def its_def)

lemma its_fail: "triple P (fail e) Q free"
  by (rule triple_fail) simp

lemma its_ret: "(\<And>is. Q is \<Longrightarrow> Q' is) \<Longrightarrow> triple (its Q) (ret x) (\<lambda>_. its Q') R"
  by (rule triple_ret) (simp add: its_def)

lemma its_interrupted: "triple P interrupted Q free"
  unfolding interrupted_def by (auto simp: triple_def and_then_def reads_def fail_def)

lemma its_of_result: "(\<And>x. r = Ok x \<Longrightarrow> triple P (f x) Q free) \<Longrightarrow> triple P (and_then (of_result r) f) Q free"
  by (cases r) (auto simp: triple_def and_then_def of_result_def)

lemma its_fact: "(\<And>is. Q is \<Longrightarrow> C) \<Longrightarrow> (C \<Longrightarrow> triple (its Q) m Q' R) \<Longrightarrow> triple (its Q) m Q' R"
  by (auto simp: triple_def its_def)

lemma its_weaken: "triple (its Q) m (\<lambda>_. its Q') R \<Longrightarrow> (\<And>is. P is \<Longrightarrow> Q is) \<Longrightarrow> (\<And>is. Q' is \<Longrightarrow> P' is) \<Longrightarrow>
   triple (its P) m (\<lambda>_. its P') R"
  by (erule triple_weaken) (auto simp: its_def)

text \<open>A program shown for every fixed list of items.\<close>

lemma its_ghost: "(\<And>is0. Q is0 \<Longrightarrow> triple (its (\<lambda>is. is = is0)) m Q' R) \<Longrightarrow> triple (its Q) m Q' R"
  by (auto simp: triple_def its_def)

section \<open>Steps that keep the items\<close>

lemma checkpoint_its: "triple (its Q) (checkpoint E c) (\<lambda>_. its Q) free"
proof (rule tripleI)
  fix s x s' assume pre: "its Q s" and run: "checkpoint E c s = (Ok x, s')"
  have h: "holding (the_job s) (trace (the_world s)) s" by (simp add: holding_def)
  from triple_Ok [OF checkpoint_triple h run] obtain st where "stamped (the_state s) st" "jb_state (the_job s') = st"
    by (auto simp: checkpoint_ok_def saved_as_def the_state_def)
  with pre show "its Q s'" by (simp add: its_def the_state_def stamped_items)
qed simp

lemma save_with_output_its: "triple (its Q) (save_with_output E) (\<lambda>_. its Q) free"
proof -
  have kept: "triple (its Q) (with_state (\<lambda>st. st\<lparr>j_output := f st\<rparr>)) (\<lambda>_. its Q) R" for f R
    by (rule its_with_state) simp
  have commit: "triple (its Q) (commit E p sh) (\<lambda>_. its Q) free" for p sh
    unfolding commit_def Let_def
    apply (rule its_reads)
    apply (rule triple_and_then, rule its_tried, intro quiet_rules)
    apply (split if_split, intro conjI impI)
     apply (rule triple_and_then, rule its_quiet, intro quiet_rules, rule its_fail)
    apply (rule triple_and_then, rule its_logs)
    apply (rule triple_and_then, rule its_tried, intro quiet_rules)
    apply (split sum.split, intro conjI allI impI)
     apply (rule triple_and_then, rule its_quiet, intro quiet_rules, rule its_fail)
    apply (rule triple_and_then, rule its_with_state [where Q' = Q], simp)
    apply (rule triple_and_then, rule its_quiet, intro quiet_rules)
    apply (split prod.split, intro allI impI)
    apply (rule triple_and_then, rule its_with_job, simp)
    apply (rule its_ret, assumption)
    done
  have prep: "triple (its Q) (attempted (in_world (prepare E path contents sh))) (\<lambda>_. its Q) R" for path contents sh R
    unfolding its_on
    apply (rule triple_weaken [OF on_prepare], assumption)
    subgoal for x s by (cases x) (auto simp: on_def)
    apply assumption
    done
  show ?thesis
    unfolding save_with_output_def Let_def
    apply (rule its_reads)
    apply (rule triple_and_then, rule prep)
    apply (split sum.split, intro conjI allI impI)
     apply (rule triple_and_then, rule kept)
     apply (rule triple_and_then, rule checkpoint_its, rule its_fail)
    apply (rule triple_and_then, rule kept)
    apply (rule triple_and_then, rule attempted_cases, rule checkpoint_its)
    subgoal for _ _ _ _ saved
      apply (cases saved; simp only: sum.case)
       apply (rule triple_and_then [where M = "\<lambda>_. free"], simp add: triple_def split: prod.split sum.split, rule its_fail)
      apply (rule triple_and_then, rule commit)
      apply (split rewritten.split, intro conjI allI impI)
       apply (rule its_ret, assumption)
      apply (rule its_logs)
      done
    done
qed

section \<open>Submission\<close>

text \<open>Only the items \<open>is\<close> differ, and every item keeps its index.\<close>

definition beyond :: "nat list \<Rightarrow> item list \<Rightarrow> item list \<Rightarrow> bool" where
  "beyond is a b = (map i_index b = map i_index a \<and> (\<forall>i. i \<notin> set is \<longrightarrow> b ! i = a ! i))"

definition sent :: "item list \<Rightarrow> nat \<Rightarrow> bool" where
  "sent a i = (i < length a \<and> i_status (a ! i) = Submitted \<and> i_scan_id (a ! i) \<noteq> None)"

lemma beyond_length: "beyond is a b \<Longrightarrow> length b = length a"
  by (auto simp: beyond_def dest: map_eq_imp_length_eq)

lemma beyond_set_items:
  assumes "beyond is a b" "distinct is" "\<forall>i \<in> set is. i < length a" "\<And>it. i_index (f it) = i_index it"
  shows "beyond is a (set_items is f b)"
proof -
  note len = beyond_length [OF assms(1)]
  have "map i_index (set_items is f b) ! i = map i_index b ! i" if "i < length b" for i
    using that assms set_items_other [of i "is" f b] set_items_same [of i "is" b f] len
    by (cases "i \<in> set is") auto
  then have "map i_index (set_items is f b) = map i_index b" by (intro nth_equalityI) auto
  with assms(1) show ?thesis by (auto simp: beyond_def set_items_other)
qed

lemma sent_set_items:
  assumes "length b = length a" "distinct is" "\<forall>i \<in> set is. i < length a" "i \<in> set is"
    "\<And>it. i_status (f it) = Submitted \<and> i_scan_id (f it) \<noteq> None"
  shows "sent (set_items is f b) i"
  using assms set_items_same [of i "is" b f] by (simp add: sent_def)

lemma after_outcome_its:
  "triple (its Q) (after_outcome E secrets tm is retries out)
     (\<lambda>r. its (\<lambda>b. Q b \<and> (r = None \<longrightarrow> outcome_scan out \<noteq> None))) free"
proof -
  have sleeping: "triple (its Q) (interrupted_during E delay) (\<lambda>_. its Q) free" for delay
    unfolding interrupted_during_def is_cancelled_def
    by (rule triple_and_then, rule its_quiet, intro quiet_rules)
       (split if_split, intro conjI impI, rule its_ret, assumption, rule its_quiet, intro quiet_rules)
  show ?thesis
    unfolding after_outcome_def is_cancelled_def Let_def
    apply (rule its_reads)
    apply (cases out; simp only: outcome.case)
         apply (rule triple_and_then, rule its_quiet, intro quiet_rules)
         apply (split if_split, intro conjI impI, rule its_interrupted, rule triple_ret, simp add: its_def)
        apply (rule its_fail)
       apply (rule triple_and_then, rule its_logs)
       apply (rule triple_and_then, rule sleeping)
       apply (split if_split, intro conjI impI, rule its_interrupted, rule triple_ret, simp add: its_def)
      apply (rule its_fail)
     apply (split if_split, intro conjI impI, rule its_interrupted, rule its_fail)
    apply (split if_split, intro conjI impI, rule its_fail, rule its_fail)
    done
qed

lemma submit_round_its:
  assumes "distinct is" "\<forall>i \<in> set is. i < length a"
  shows "triple (its (beyond is a)) (submit_round E secrets tm is retries)
     (\<lambda>r. its (\<lambda>b. beyond is a b \<and> (r = None \<longrightarrow> (\<forall>i \<in> set is. sent b i)))) free"
proof -
  let ?O = "beyond is a"
  have lock: "triple (its ?O) (verify_lock E) (\<lambda>_. its ?O) free"
    unfolding verify_lock_def
    apply (rule its_reads)
    apply (split option.split, intro conjI allI impI)
     apply (rule its_ret, assumption)
    apply (rule triple_and_then, rule its_quiet, intro quiet_rules)
    apply (split if_split, intro conjI impI, rule its_ret, assumption, rule its_fail)
    done
  have begun: "?O (j_items (begin_attempt is now st))" if "?O (j_items st)" for now st
    using beyond_set_items [OF that assms] by (simp add: begin_attempt_def Let_def)
  have posted: "triple (its ?O) (post E objects) (\<lambda>_. its ?O) free" for objects
    unfolding post_def
    apply (rule triple_and_then, rule its_logs)
    apply (rule triple_and_then, rule its_quiet, intro quiet_rules)
    apply (rule triple_and_then, rule its_logs)
    apply (rule its_ret, assumption)
    done
  let ?done = "\<lambda>out b. ?O b \<and> (outcome_scan out \<noteq> None \<longrightarrow> (\<forall>i \<in> set is. sent b i))"
  have ended: "?done out (j_items (end_attempt secrets n is out status now st))" if "?O (j_items st)" for n out status now st
  proof -
    have "item_status_of out = Submitted" if "outcome_scan out \<noteq> None" using that by (cases out) auto
    with beyond_set_items [OF that assms] sent_set_items [OF beyond_length [OF that] assms]
    show ?thesis by (simp add: end_attempt_def)
  qed
  show ?thesis
    unfolding submit_round_def is_cancelled_def Let_def
    apply (rule triple_and_then, rule its_quiet, intro quiet_rules)
    apply (split if_split, intro conjI impI, rule its_interrupted)
    apply (rule triple_and_then, rule lock)
    apply (rule triple_and_then, rule its_quiet, intro quiet_rules)
    apply (rule its_reads)
    apply (rule triple_and_then, rule its_with_state [where Q' = ?O], erule begun)
    apply (rule triple_and_then, rule checkpoint_its)
    apply (rule its_reads)
    apply (rule its_of_result)
    apply (rule triple_and_then, rule posted)
    subgoal for _ _ _ _ _ _ _ _ reply
      apply (rule triple_and_then, rule its_quiet, intro quiet_rules)
      apply (rule triple_and_then, rule its_with_state [where Q' = "?done (outcome_of_reply secrets retries (fst reply))"], erule ended)
      apply (rule triple_and_then, rule checkpoint_its)
      apply (rule triple_weaken [OF after_outcome_its [where Q = "?done (outcome_of_reply secrets retries (fst reply))"]])
      apply (auto simp: its_def)
      done
    done
qed

lemma submit_loop_its:
  assumes "distinct is" "\<forall>i \<in> set is. i < length a"
  shows "its (beyond is a) s \<Longrightarrow> submit_loop E secrets tm is retries s = (Ok x, s') \<Longrightarrow>
    its (\<lambda>b. beyond is a b \<and> (\<forall>i \<in> set is. sent b i)) s'"
  using assms
proof (induction E secrets tm "is" retries s arbitrary: x s' rule: submit_loop.induct)
  case (1 E secrets tm "is" retries s)
  note round = submit_round_its [OF 1(4,5), of E secrets tm retries]
  obtain r t where rt: "submit_round E secrets tm is retries s = (r, t)" by fastforce
  with 1(3) obtain y where y: "r = Ok y" by (cases r) (simp_all add: submit_loop.simps [of E secrets tm "is" retries s])
  from triple_Ok [OF round 1(2)] rt y have t: "its (\<lambda>b. beyond is a b \<and> (y = None \<longrightarrow> (\<forall>i \<in> set is. sent b i))) t" by simp
  show ?case
  proof (cases y)
    case None
    with 1(3) rt y t show ?thesis by (simp add: submit_loop.simps [of E secrets tm "is" retries s])
  next
    case (Some r')
    with 1(3) rt y have "submit_loop E secrets tm is r' t = (Ok x, s')"
      by (simp add: submit_loop.simps [of E secrets tm "is" retries s])
    moreover have "its (beyond is a) t" using t by (simp add: its_def)
    ultimately show ?thesis using 1(1) [OF rt [symmetric] y Some] 1(4,5) by blast
  qed
qed

lemma beyond_refl: "beyond is a a"
  by (simp add: beyond_def)

lemma submit_chunk_its:
  assumes "distinct is" "\<forall>i \<in> set is. i < length a"
  shows "triple (its (\<lambda>b. b = a)) (submit_chunk E secrets tm is)
     (\<lambda>_. its (\<lambda>b. beyond is a b \<and> (\<forall>i \<in> set is. sent b i))) free"
proof (rule tripleI)
  fix s x s' assume "its (\<lambda>b. b = a) s" "submit_chunk E secrets tm is s = (Ok x, s')"
  then show "its (\<lambda>b. beyond is a b \<and> (\<forall>i \<in> set is. sent b i)) s'"
    unfolding submit_chunk_def by (intro submit_loop_its [OF assms]) (auto simp: its_def beyond_refl)
qed simp

lemma chunks_its:
  "distinct (concat cs) \<Longrightarrow> \<forall>i \<in> set (concat cs). i < length a \<Longrightarrow>
   triple (its (\<lambda>b. b = a)) (for_each (submit_chunk E secrets tm) cs)
     (\<lambda>_. its (\<lambda>b. beyond (concat cs) a b \<and> (\<forall>i \<in> set (concat cs). sent b i))) free"
proof (induction cs arbitrary: a)
  case Nil
  show ?case by (simp, rule its_ret) (simp add: beyond_def)
next
  case (Cons c cs)
  have "triple (its (\<lambda>b. b = b0)) (for_each (submit_chunk E secrets tm) cs)
      (\<lambda>_. its (\<lambda>b. beyond (concat (c # cs)) a b \<and> (\<forall>i \<in> set (concat (c # cs)). sent b i))) free"
    if b0: "beyond c a b0" "\<forall>i \<in> set c. sent b0 i" for b0
  proof -
    have "beyond (concat (c # cs)) a b \<and> (\<forall>i \<in> set (concat (c # cs)). sent b i)"
      if b: "beyond (concat cs) b0 b" "\<forall>i \<in> set (concat cs). sent b i" for b
    proof -
      have "sent b i" if "i \<in> set c" for i
      proof -
        have "i \<notin> set (concat cs)" using that Cons.prems(1) by auto
        then have "b ! i = b0 ! i" using b(1) by (simp add: beyond_def)
        with b0(2) that beyond_length [OF b(1)] show ?thesis by (auto simp: sent_def)
      qed
      with b b0(1) show ?thesis by (auto simp: beyond_def)
    qed
    moreover have "triple (its (\<lambda>b. b = b0)) (for_each (submit_chunk E secrets tm) cs)
        (\<lambda>_. its (\<lambda>b. beyond (concat cs) b0 b \<and> (\<forall>i \<in> set (concat cs). sent b i))) free"
      by (rule Cons.IH) (use Cons.prems beyond_length [OF b0(1)] in auto)
    ultimately show ?thesis by - (erule its_weaken, assumption, blast)
  qed
  then have rest: "triple (its (\<lambda>b. beyond c a b \<and> (\<forall>i \<in> set c. sent b i))) (for_each (submit_chunk E secrets tm) cs)
      (\<lambda>_. its (\<lambda>b. beyond (concat (c # cs)) a b \<and> (\<forall>i \<in> set (concat (c # cs)). sent b i))) free"
    by - (rule its_ghost, blast)
  show ?case
    unfolding for_each.simps
    by (rule triple_and_then [OF submit_chunk_its rest]) (use Cons.prems in auto)
qed

section \<open>Polling\<close>

text \<open>Polling keeps the scan ids and changes a state only to end it.\<close>

definition item_ended :: "item list \<Rightarrow> nat \<Rightarrow> bool" where
  "item_ended a i = is_terminal (i_status (a ! i))"

definition later :: "item list \<Rightarrow> item list \<Rightarrow> bool" where
  "later a b = (map i_index b = map i_index a \<and> (\<forall>i < length a. i_scan_id (b ! i) = i_scan_id (a ! i)
     \<and> (item_ended b i \<or> i_status (b ! i) = i_status (a ! i))))"

lemma later_length: "later a b \<Longrightarrow> length b = length a"
  by (auto simp: later_def dest: map_eq_imp_length_eq)

lemma later_refl: "later a a"
  by (simp add: later_def)

lemma later_trans: "later a b \<Longrightarrow> later b c \<Longrightarrow> later a c"
proof -
  assume ab: "later a b" and bc: "later b c"
  have "i_scan_id (c ! i) = i_scan_id (a ! i) \<and> (item_ended c i \<or> i_status (c ! i) = i_status (a ! i))"
    if i: "i < length a" for i
  proof -
    have "i_scan_id (b ! i) = i_scan_id (a ! i)" "item_ended b i \<or> i_status (b ! i) = i_status (a ! i)"
      using ab i by (auto simp: later_def)
    moreover have "i_scan_id (c ! i) = i_scan_id (b ! i)" "item_ended c i \<or> i_status (c ! i) = i_status (b ! i)"
      using bc i later_length [OF ab] by (auto simp: later_def)
    ultimately show ?thesis by (auto simp: item_ended_def)
  qed
  with ab bc show "later a c" by (simp add: later_def)
qed

lemma later_ended: "later a b \<Longrightarrow> i < length a \<Longrightarrow> item_ended a i \<Longrightarrow> item_ended b i"
  by (auto simp: later_def item_ended_def)

lemma rows_later:
  "later (j_items st) (j_items (foldl apply_row st rows))"
  "i \<in> set (map fst rows) \<Longrightarrow> i < length (j_items st) \<Longrightarrow> item_ended (j_items (foldl apply_row st rows)) i"
proof -
  have scan: "i_scan_id (j_items (foldl apply_row st rows) ! i) = i_scan_id (j_items st ! i)" if "i < length (j_items st)" for i
    using that
  proof (induction rows arbitrary: st)
    case (Cons row rows)
    have "length (j_items (apply_row st row)) = length (j_items st)" by (cases row) (simp add: apply_row_def)
    moreover have "i_scan_id (j_items (apply_row st row) ! i) = i_scan_id (j_items st ! i)"
      using Cons.prems by (cases row; cases "i = fst row") (simp_all add: apply_row_def)
    ultimately show ?case using Cons by simp
  qed simp
  have fin: "item_ended (j_items (foldl apply_row st rows)) i" if "i \<in> set (map fst rows)" "i < length (j_items st)" for i
    using apply_rows_status [OF that] by (auto simp: item_ended_def status_at_def is_terminal_def)
  show "later (j_items st) (j_items (foldl apply_row st rows))"
    unfolding later_def using scan fin apply_rows_items [of st rows] by metis
  show "i \<in> set (map fst rows) \<Longrightarrow> i < length (j_items st) \<Longrightarrow> item_ended (j_items (foldl apply_row st rows)) i"
    by (rule fin)
qed

text \<open>The prompts of a receipt: unresolved ones are listed, the others have ended.\<close>

definition waiting :: "str \<Rightarrow> item list \<Rightarrow> nat \<Rightarrow> bool" where
  "waiting s a i = (i < length a \<and> i_status (a ! i) = Submitted \<and> i_scan_id (a ! i) = Some s)"

definition polled :: "str \<Rightarrow> item list \<Rightarrow> nat list \<Rightarrow> item list \<Rightarrow> bool" where
  "polled s a u b = (later a b \<and> (\<forall>i. waiting s a i \<longrightarrow> i \<in> set u \<or> item_ended b i))"

lemma record_rows_its:
  "triple (its (polled s a u)) (record_rows E rows) (\<lambda>_. its (polled s a (still_unresolved u rows))) free"
proof -
  have step: "polled s a (still_unresolved u rows) (j_items (foldl apply_row st rows))" if "polled s a u (j_items st)" for st
  proof -
    have l: "later a (j_items st)" using that by (simp add: polled_def)
    have l': "later a (j_items (foldl apply_row st rows))" by (rule later_trans [OF l rows_later(1)])
    have "i \<in> set (still_unresolved u rows) \<or> item_ended (j_items (foldl apply_row st rows)) i" if w: "waiting s a i" for i
    proof -
      have i: "i < length (j_items st)" using w later_length [OF l] by (simp add: waiting_def)
      consider "i \<in> set u" | "item_ended (j_items st) i" using w \<open>polled s a u (j_items st)\<close> by (auto simp: polled_def)
      then show ?thesis
        using rows_later(2) [OF _ i] later_ended [OF rows_later(1) i] by cases (auto simp: still_unresolved_def)
    qed
    with l' show ?thesis by (simp add: polled_def)
  qed
  show ?thesis
    unfolding record_rows_def
    apply (split if_split, intro conjI impI)
     apply (rule its_ret, simp add: still_unresolved_def)
    apply (rule triple_and_then, rule its_with_state [where Q' = "polled s a (still_unresolved u rows)"], erule step)
    apply (rule save_with_output_its)
    done
qed

definition ongoing :: "str \<Rightarrow> item list \<Rightarrow> poll_vars option \<Rightarrow> item list \<Rightarrow> bool" where
  "ongoing s a r b = polled s a (case r of None \<Rightarrow> [] | Some v \<Rightarrow> pv_unresolved v) b"

lemma interrupted_during_its: "triple (its Q) (interrupted_during E delay) (\<lambda>_. its Q) free"
  unfolding interrupted_during_def is_cancelled_def
  by (rule triple_and_then, rule its_quiet, intro quiet_rules)
     (split if_split, intro conjI impI, rule its_ret, assumption, rule its_quiet, intro quiet_rules)

lemma ongoing_ret: "triple (its (polled s a (pv_unresolved v))) (ret (Some v)) (\<lambda>r. its (ongoing s a r)) R"
  by (rule triple_ret) (simp add: its_def ongoing_def)

lemma poll_stop_its: "triple P (poll_stop m) Q free"
  unfolding poll_stop_def by (auto simp: triple_def and_then_def reads_def fail_def)

lemma poll_failed_its:
  "triple (its (polled s a (pv_unresolved v))) (poll_failed E secrets tm v e) (\<lambda>r. its (ongoing s a r)) free"
  unfolding poll_failed_def rate_limit_wait_def Let_def
  apply (split if_split, intro conjI impI, rule its_interrupted)
  apply (split if_split, intro conjI impI)
   apply (rule triple_and_then, rule triple_and_then, rule its_logs)
    apply (rule triple_and_then, rule interrupted_during_its)
    apply (split if_split, intro conjI impI, rule its_interrupted, rule its_ret [where Q' = "polled s a (pv_unresolved v)"], assumption)
   apply (rule triple_weaken [OF ongoing_ret]; simp)
  apply (rule its_reads, rule its_fail)
  done

lemma poll_progress_its:
  "triple (its (polled s a (pv_unresolved v))) (poll_progress E secrets tm s' before v) (\<lambda>r. its (ongoing s a r)) free"
  unfolding poll_progress_def Let_def
  apply (split if_split, intro conjI impI, rule poll_stop_its)
  apply (rule triple_and_then [where M = "\<lambda>_. its (polled s a (pv_unresolved v))"])
   apply (split if_split, intro conjI impI, rule interrupted_during_its, rule its_ret, assumption)
  apply (split if_split, intro conjI impI, rule its_interrupted)
  apply (rule triple_weaken [OF ongoing_ret]; simp)
  done

lemma poll_reports_its:
  "triple (its (polled s a (pv_unresolved v))) (poll_reports E secrets tm s' before report v) (\<lambda>r. its (ongoing s a r)) free"
  unfolding poll_reports_def Let_def
  apply (rule triple_and_then, rule its_quiet, intro quiet_rules)
  apply (split sum.split, intro conjI allI impI, rule poll_failed_its)
  apply (rule triple_and_then, rule record_rows_its)
  apply (split option.split, intro conjI allI impI)
   apply (rule triple_weaken [OF poll_progress_its]; simp)
  apply (rule poll_stop_its)
  done

lemma poll_round_its:
  "triple (its (polled s a (pv_unresolved v))) (poll_round E secrets tm s' receipt v) (\<lambda>r. its (ongoing s a r)) free"
  unfolding poll_round_def is_cancelled_def Let_def
  apply (split if_split, intro conjI impI)
   apply (rule triple_ret, simp add: its_def ongoing_def)
  apply (rule triple_and_then, rule its_quiet, intro quiet_rules)
  apply (split if_split, intro conjI impI, rule its_interrupted)
  apply (rule triple_and_then, rule its_quiet, intro quiet_rules)
  apply (split sum.split, intro conjI allI impI, rule poll_failed_its)
  apply (rule triple_and_then, rule record_rows_its)
  apply (split option.split, intro conjI allI impI)
   apply (split option.split, intro conjI allI impI)
    apply (rule triple_weaken [OF poll_progress_its]; simp)
   apply (rule triple_weaken [OF poll_reports_its]; simp)
  apply (rule poll_stop_its)
  done

lemma poll_loop_its:
  "its (polled sid a (pv_unresolved v)) s \<Longrightarrow> poll_loop E secrets tm scan_id receipt v s = (Ok x, s') \<Longrightarrow> its (polled sid a []) s'"
proof (induction E secrets tm scan_id receipt v s arbitrary: x s' rule: poll_loop.induct)
  case (1 E secrets tm scan_id receipt v s)
  note unfold = poll_loop.simps [of E secrets tm scan_id receipt v s]
  obtain r t where rt: "poll_round E secrets tm scan_id receipt v s = (r, t)" by fastforce
  with 1(3) obtain y where y: "r = Ok y" by (cases r) (simp_all add: unfold)
  from triple_Ok [OF poll_round_its 1(2)] rt y have t: "its (ongoing sid a y) t" by simp
  show ?case
  proof (cases y)
    case None
    with 1(3) rt y t show ?thesis by (simp add: unfold its_def ongoing_def)
  next
    case (Some v')
    with 1(3) rt y have "poll_loop E secrets tm scan_id receipt v' t = (Ok x, s')" by (simp add: unfold)
    moreover have "its (polled sid a (pv_unresolved v')) t" using t Some by (simp add: its_def ongoing_def)
    ultimately show ?thesis using 1(1) [OF rt [symmetric] y Some] by blast
  qed
qed

text \<open>No prompt waits for a receipt that was polled to its end.\<close>

definition cleared :: "str \<Rightarrow> item list \<Rightarrow> bool" where
  "cleared s b = (\<forall>i. \<not> waiting s b i)"

lemma later_cleared: "later a b \<Longrightarrow> cleared s a \<Longrightarrow> cleared s b"
  using later_length [of a b]
  by (auto simp: cleared_def waiting_def later_def item_ended_def is_terminal_def)

lemma polled_cleared: "polled s a [] b \<Longrightarrow> cleared s b"
  using later_length [of a b]
  by (auto simp: polled_def cleared_def waiting_def later_def item_ended_def is_terminal_def) (metis item_status.distinct)

definition indexed :: "item list \<Rightarrow> bool" where
  "indexed a = (map i_index a = [0..<length a])"

lemma indexed_nth: "indexed a \<Longrightarrow> i < length a \<Longrightarrow> i_index (a ! i) = i"
proof -
  assume a: "indexed a" and i: "i < length a"
  then have "map i_index a ! i = [0..<length a] ! i" by (simp add: indexed_def)
  with i show "i_index (a ! i) = i" by simp
qed

lemma poll_receipt_its:
  assumes "indexed a"
  shows "triple (its (\<lambda>b. b = a)) (poll_receipt E secrets tm s) (\<lambda>_. its (\<lambda>b. later a b \<and> cleared s b)) free"
  unfolding poll_receipt_def Let_def
proof (rule its_reads_state)
  fix st
  let ?u = "sorted_indices (unresolved_of st s)"
  let ?v = "\<lparr>pv_unresolved = ?u, pv_level = 0, pv_no_progress = 0\<rparr>"
  let ?m = "poll_loop E secrets tm s (case ?u of [] \<Rightarrow> None | i # _ \<Rightarrow> i_receipt (j_items st ! i)) ?v"
  show "triple (its (\<lambda>is. is = j_items st \<and> is = a)) ?m (\<lambda>_. its (\<lambda>b. later a b \<and> cleared s b)) free"
  proof (rule tripleI)
    fix w x w' assume pre: "its (\<lambda>is. is = j_items st \<and> is = a) w" and run: "?m w = (Ok x, w')"
    have "i \<in> set ?u" if "waiting s a i" for i
      using that pre indexed_nth [OF assms, of i]
      by (force simp: waiting_def unresolved_of_def its_def image_iff)
    then have "its (polled s a (pv_unresolved ?v)) w" using pre by (auto simp: its_def polled_def later_refl)
    from poll_loop_its [OF this run] show "its (\<lambda>b. later a b \<and> cleared s b) w'"
      by (auto simp: its_def polled_cleared) (simp add: polled_def)
  qed simp
qed

lemma set_note_receipt: "snd ` set (note_receipt i s order) = insert s (snd ` set order)"
  by (induction i s order rule: note_receipt.induct) auto

lemma set_receipt_order:
  "snd ` set (receipt_order order items) = snd ` set order \<union> {s. \<exists>i. (i, Submitted, Some s) \<in> set items}"
  by (induction order items rule: receipt_order.induct) (auto simp: set_note_receipt split: option.splits if_splits)

lemma set_receipts: "set (receipts items) = {s. \<exists>i. (i, Submitted, Some s) \<in> set items}"
  by (simp add: receipts_def set_receipt_order)

lemma later_indexed: "later a b \<Longrightarrow> indexed a \<Longrightarrow> indexed b"
  using later_length [of a b] by (simp add: later_def indexed_def)

lemma poll_receipts_its:
  "indexed a \<Longrightarrow> triple (its (\<lambda>b. b = a)) (for_each (poll_receipt E secrets tm) ss)
     (\<lambda>_. its (\<lambda>b. later a b \<and> (\<forall>s \<in> set ss. cleared s b))) free"
proof (induction ss arbitrary: a)
  case Nil
  show ?case by (simp, rule its_ret) (simp add: later_refl)
next
  case (Cons s ss)
  have "triple (its (\<lambda>b. b = b0)) (for_each (poll_receipt E secrets tm) ss)
      (\<lambda>_. its (\<lambda>b. later a b \<and> (\<forall>s \<in> set (s # ss). cleared s b))) free"
    if b0: "later a b0" "cleared s b0" for b0
    using Cons.IH [OF later_indexed [OF b0(1) Cons.prems]]
    by (rule its_weaken) (use b0 later_cleared [OF _ b0(2)] in \<open>auto intro: later_trans\<close>)
  then have rest: "triple (its (\<lambda>b. later a b \<and> cleared s b)) (for_each (poll_receipt E secrets tm) ss)
      (\<lambda>_. its (\<lambda>b. later a b \<and> (\<forall>s \<in> set (s # ss). cleared s b))) free"
    by - (rule its_ghost, blast)
  show ?case
    unfolding for_each.simps by (rule triple_and_then [OF poll_receipt_its [OF Cons.prems] rest])
qed

text \<open>After a poll of a batch every prompt of it that was sent has ended.\<close>

definition polled_out :: "nat \<Rightarrow> nat \<Rightarrow> item list \<Rightarrow> item list \<Rightarrow> bool" where
  "polled_out m n a b = (later a b \<and> (\<forall>i. m \<le> i \<and> i < n \<and> sent a i \<longrightarrow> item_ended b i))"

lemma poll_batch_its:
  assumes "indexed a"
  shows "triple (its (\<lambda>b. b = a)) (poll_batch E secrets tm m n) (\<lambda>_. its (polled_out m n a)) free"
  unfolding poll_batch_def
proof (rule its_reads_state)
  fix st
  let ?ss = "receipts (map (\<lambda>it. (i_index it, i_status it, i_scan_id it)) (slice m n (j_items st)))"
  have ended: "polled_out m n (j_items st) b" if b: "later (j_items st) b" "\<forall>s \<in> set ?ss. cleared s b" for b
  proof -
    have "item_ended b i" if i: "m \<le> i" "i < n" "sent (j_items st) i" for i
    proof -
      obtain s where s: "i < length (j_items st)" "i_status (j_items st ! i) = Submitted" "i_scan_id (j_items st ! i) = Some s"
        using i(3) by (auto simp: sent_def)
      have "slice m n (j_items st) ! (i - m) = j_items st ! i" "i - m < length (slice m n (j_items st))"
        using i(1,2) s(1) by (auto simp: slice_def)
      then have "j_items st ! i \<in> set (slice m n (j_items st))" by (metis nth_mem)
      then have "s \<in> set ?ss" using s(2,3) by (force simp: set_receipts)
      then have "\<not> waiting s b i" using b(2) by (simp add: cleared_def)
      with b(1) s later_length [OF b(1)] show ?thesis by (auto simp: waiting_def later_def)
    qed
    with b(1) show ?thesis by (simp add: polled_out_def)
  qed
  show "triple (its (\<lambda>is. is = j_items st \<and> is = a)) (for_each (poll_receipt E secrets tm) ?ss) (\<lambda>_. its (polled_out m n a)) free"
  proof (rule its_fact [where C = "a = j_items st"])
    assume a: "a = j_items st"
    show "triple (its (\<lambda>is. is = j_items st \<and> is = a)) (for_each (poll_receipt E secrets tm) ?ss) (\<lambda>_. its (polled_out m n a)) free"
      by (rule its_weaken [OF poll_receipts_its [OF assms]]) (use ended a in blast)+
  qed blast
qed

section \<open>The batches of a new run\<close>

lemma beyond_indexed: "beyond is a b \<Longrightarrow> indexed a \<Longrightarrow> indexed b"
  using beyond_length [of "is" a b] by (simp add: beyond_def indexed_def)

definition batch_over :: "nat \<Rightarrow> nat \<Rightarrow> item list \<Rightarrow> item list \<Rightarrow> bool" where
  "batch_over m n a b = (map i_index b = map i_index a \<and>
     (\<forall>i < length a. (m \<le> i \<and> i < n \<or> item_ended a i) \<longrightarrow> item_ended b i))"

lemma new_batch_its:
  assumes "indexed a" "n \<le> length a"
  shows "triple (its (\<lambda>b. b = a)) (new_batch E secrets tm (k, m, n)) (\<lambda>_. its (batch_over m n a)) free"
proof -
  have over: "batch_over m n a c" if "beyond [m..<n] a b" "\<forall>i \<in> {m..<n}. sent b i" "polled_out m n b c" for b c
  proof -
    note len = beyond_length [OF that(1)]
    have l: "later b c" using that(3) by (simp add: polled_out_def)
    have "item_ended c i" if i: "i < length a" "m \<le> i \<and> i < n \<or> item_ended a i" for i
    proof (cases "m \<le> i \<and> i < n")
      case True
      with \<open>\<forall>i \<in> {m..<n}. sent b i\<close> \<open>polled_out m n b c\<close> show ?thesis by (auto simp: polled_out_def)
    next
      case False
      then have "i \<notin> set [m..<n]" by auto
      then have "b ! i = a ! i" using \<open>beyond [m..<n] a b\<close> unfolding beyond_def by blast
      with False i(2) have "item_ended b i" by (auto simp: item_ended_def)
      with later_ended [OF l] i(1) len show ?thesis by simp
    qed
    moreover have "map i_index c = map i_index a" using that(1) l by (simp add: beyond_def later_def)
    ultimately show ?thesis by (simp add: batch_over_def)
  qed
  have indices: "map i_index (slice m n a) = [m..<n]"
  proof -
    have "map i_index (slice m n a) = take (n - m) (drop m [0..<length a])"
      using assms(1) by (simp add: slice_def indexed_def flip: take_map drop_map)
    then show ?thesis using assms(2) take_upt [of m "n - m" "length a"] by (cases "m \<le> n") simp_all
  qed
  have polling: "triple (its (\<lambda>b. beyond [m..<n] a b \<and> (\<forall>i \<in> {m..<n}. sent b i))) (poll_batch E secrets tm m n)
      (\<lambda>_. its (batch_over m n a)) free"
  proof (rule its_ghost, elim conjE)
    fix b assume b: "beyond [m..<n] a b" "\<forall>i \<in> {m..<n}. sent b i"
    show "triple (its (\<lambda>is. is = b)) (poll_batch E secrets tm m n) (\<lambda>_. its (batch_over m n a)) free"
      by (rule its_weaken [OF poll_batch_its [OF beyond_indexed [OF b(1) assms(1)]]]) (use over [OF b] in blast)+
  qed
  show ?thesis
    unfolding new_batch_def prod.case status_line_def
    apply (rule triple_and_then, rule its_logs)
    apply (rule its_reads_state)
    subgoal for _ st
      apply (rule its_fact [where C = "a = j_items st"], blast)
      apply (rule its_of_result)
      subgoal for cs
      proof -
        assume a: "a = j_items st" and cs: "batch_chunks E st (slice m n (j_items st)) = Ok cs"
        have concat: "concat cs = [m..<n]" using batch_chunks_concat [OF cs] indices a by simp
        have sub: "triple (its (\<lambda>is. is = j_items st \<and> is = a)) (for_each (submit_chunk E secrets tm) cs)
            (\<lambda>_. its (\<lambda>b. beyond [m..<n] a b \<and> (\<forall>i \<in> {m..<n}. sent b i))) free"
          by (rule its_weaken [OF chunks_its [of cs a]]) (use concat assms(2) in auto)
        show ?thesis
          apply (rule triple_and_then [OF sub])
          apply (rule its_reads)
          apply (rule triple_and_then, rule its_logs, rule polling)
          done
      qed
      done
    done
qed

lemma new_batches_its:
  "indexed a \<Longrightarrow> \<forall>(k, m, n) \<in> set bs. n \<le> length a \<Longrightarrow>
   triple (its (\<lambda>b. b = a)) (for_each (new_batch E secrets tm) bs)
     (\<lambda>_. its (\<lambda>b. map i_index b = map i_index a \<and> (\<forall>i < length a. i \<in> set (batch_prompts bs) \<or> item_ended a i \<longrightarrow> item_ended b i))) free"
proof (induction bs arbitrary: a)
  case Nil
  show ?case by (simp, rule its_ret) simp
next
  case (Cons batch bs)
  obtain k m n where batch: "batch = (k, m, n)" by (cases batch)
  let ?R = "\<lambda>b. map i_index b = map i_index a
    \<and> (\<forall>i < length a. i \<in> set (batch_prompts (batch # bs)) \<or> item_ended a i \<longrightarrow> item_ended b i)"
  have "triple (its (\<lambda>b. b = b0)) (for_each (new_batch E secrets tm) bs) (\<lambda>_. its ?R) free" if b0: "batch_over m n a b0" for b0
  proof -
    have len: "length b0 = length a" "map i_index b0 = map i_index a"
      using b0 by (auto simp: batch_over_def dest: map_eq_imp_length_eq)
    then have "indexed b0" using Cons.prems(1) by (simp add: indexed_def)
    from Cons.IH [OF this] Cons.prems(2) len(1)
    have "triple (its (\<lambda>b. b = b0)) (for_each (new_batch E secrets tm) bs)
      (\<lambda>_. its (\<lambda>b. map i_index b = map i_index b0 \<and> (\<forall>i < length b0. i \<in> set (batch_prompts bs) \<or> item_ended b0 i \<longrightarrow> item_ended b i))) free"
      by simp
    then show ?thesis by (rule its_weaken) (use b0 len in \<open>auto simp: batch batch_over_def\<close>)
  qed
  then have rest: "triple (its (batch_over m n a)) (for_each (new_batch E secrets tm) bs) (\<lambda>_. its ?R) free"
    by - (rule its_ghost, blast)
  show ?case
    unfolding for_each.simps batch
    by (rule triple_and_then [OF new_batch_its rest [unfolded batch]]) (use Cons.prems batch in auto)
qed

lemma run_new_its:
  assumes "indexed a" "length a \<le> u64_max"
  shows "triple (its (\<lambda>b. b = a)) (run_new E secrets tm)
     (\<lambda>_. its (\<lambda>b. map i_index b = map i_index a \<and> (\<forall>i < length b. item_ended b i))) free"
  unfolding run_new_def
proof (rule its_reads_state)
  fix st
  let ?bs = "zip [0..<length (state_batches st)] (state_batches st)"
  show "triple (its (\<lambda>is. is = j_items st \<and> is = a)) (for_each (new_batch E secrets tm) ?bs)
      (\<lambda>_. its (\<lambda>b. map i_index b = map i_index a \<and> (\<forall>i < length b. item_ended b i))) free"
  proof (rule its_fact [where C = "a = j_items st"])
    assume a: "a = j_items st"
    have "map snd ?bs = state_batches st" by simp
    then have prompts: "batch_prompts ?bs = [0..<length a]"
      unfolding batch_prompts_snd using logical_batches_concat [of "length a"] assms(2) by (simp add: state_batches_def a)
    have "\<forall>(k, m, n) \<in> set ?bs. n \<le> length a"
      using logical_batches_bounds [of _ _ "length a" "j_batch_size st"] assms(2)
      by (auto simp: state_batches_def a dest!: set_zip_rightD)
    note run = new_batches_its [OF assms(1) this]
    show "triple (its (\<lambda>is. is = j_items st \<and> is = a)) (for_each (new_batch E secrets tm) ?bs)
        (\<lambda>_. its (\<lambda>b. map i_index b = map i_index a \<and> (\<forall>i < length b. item_ended b i))) free"
      by (rule its_weaken [OF run]) (use prompts in \<open>auto dest: map_eq_imp_length_eq\<close>)
  qed blast
qed

section \<open>Property\<close>

text \<open>C8: a new run that ends without an error is complete: it started from a state that
  \<open>validate\<close> accepts, and every prompt of the job is \<open>complete\<close> or \<open>failed\<close> at its end,
  whatever AIRS answered on the way, and none was dropped or reordered.\<close>

theorem run_new_completes_every_prompt:
  "triple (\<lambda>s. validate (the_state s) = Ok () \<and> map i_index (j_items (the_state s)) = order)
     (run_new E secrets tm)
     (\<lambda>_ s. map i_index (j_items (the_state s)) = order
        \<and> list_all (\<lambda>it. is_terminal (i_status it)) (j_items (the_state s)))
     (\<lambda>_. True)"
proof (rule tripleI)
  fix s x s' assume pre: "validate (the_state s) = Ok () \<and> map i_index (j_items (the_state s)) = order"
    and run: "run_new E secrets tm s = (Ok x, s')"
  let ?a = "j_items (the_state s)"
  from pre have v: "valid_state (the_state s)" by (simp add: validate_valid)
  then have "indexed ?a" by (simp add: valid_state_def indexed_def)
  moreover have "length ?a \<le> u64_max" using v by (rule valid_state_length)
  ultimately have "its (\<lambda>b. map i_index b = map i_index ?a \<and> (\<forall>i < length b. item_ended b i)) s'"
    using triple_Ok [OF run_new_its _ run] by (simp add: its_def)
  with pre show "map i_index (j_items (the_state s')) = order
      \<and> list_all (\<lambda>it. is_terminal (i_status it)) (j_items (the_state s'))"
    by (auto simp: its_def item_ended_def list_all_length)
qed simp

end
