(* ===== verification/BulkInput.thy ===== *)
theory BulkInput
  imports BulkTypes
begin

text \<open>
  \<open>src/bulk/input.rs\<close>: the prompts of an input file, one per line or from the
  \<open>prompt\<close> column of a CSV, and the checks on them. The parsers look for ASCII
  delimiters only, so they work on the bytes of the text. Reading the file
  (\<open>files::read_text\<close>) is input/output: \<open>load_prompts\<close> starts from its result.
\<close>

definition max_prompt_bytes :: nat where "max_prompt_bytes = 2097152"

datatype parse_error = Unterminated | NoPromptColumn

definition lf :: char where "lf = char_of (10 :: nat)"
definition quote_char :: char where "quote_char = char_of (34 :: nat)"
definition comma :: char where "comma = CHR '',''"

definition is_csv :: "str \<Rightarrow> bool" where
  "is_csv path = (4 \<le> length path \<and> eq_ignore_ascii_case (drop (length path - 4) path) ''.csv'')"

section \<open>Records\<close>

text \<open>
  \<open>quoted\<close>: the field after its opening quote; a doubled quote is a quote, a single one
  closes the field. The index \<open>i\<close> of the code is the rest of the text here.
\<close>

fun quoted_from :: "str \<Rightarrow> str \<Rightarrow> parse_error + (str \<times> str)" where
  "quoted_from value [] = Err Unterminated"
| "quoted_from value [c] = (if c = quote_char then Ok (value, []) else Err Unterminated)"
| "quoted_from value (c # d # rest) =
     (if c = quote_char then
        (if d = quote_char then quoted_from (value @ [quote_char]) rest
         else Ok (value, d # rest))
      else quoted_from (value @ [c]) (d # rest))"

definition quoted :: "str \<Rightarrow> parse_error + (str \<times> str)" where
  "quoted s = quoted_from [] (tl s)"

definition ends_bare :: "char \<Rightarrow> bool" where
  "ends_bare c = (c = comma \<or> c = lf \<or> c = cr)"

definition skip_comma :: "str \<Rightarrow> str" where
  "skip_comma s = (case s of [] \<Rightarrow> [] | c # cs \<Rightarrow> if c = comma then cs else c # cs)"

lemma length_quoted_from: "quoted_from v s = Ok (u, r) \<Longrightarrow> length r < length s"
  by (induction v s rule: quoted_from.induct) (auto split: if_splits)

lemma length_skip_comma: "length (skip_comma s) \<le> length s"
  by (auto simp: skip_comma_def split: list.splits)

lemma length_bare_rest:
  "c \<noteq> lf \<Longrightarrow> c \<noteq> cr \<Longrightarrow>
   length (skip_comma (dropWhile (\<lambda>x. \<not> ends_bare x) (c # cs))) \<le> length cs"
proof (cases "c = comma")
  case True
  then show ?thesis by (simp add: ends_bare_def skip_comma_def)
next
  case False
  assume "c \<noteq> lf" "c \<noteq> cr"
  with False have "dropWhile (\<lambda>x. \<not> ends_bare x) (c # cs) = dropWhile (\<lambda>x. \<not> ends_bare x) cs"
    by (simp add: ends_bare_def)
  then show ?thesis
    using length_skip_comma [of "dropWhile (\<lambda>x. \<not> ends_bare x) cs"]
      length_dropWhile_le [of "\<lambda>x. \<not> ends_bare x" cs]
    by simp
qed

text \<open>
  \<open>csv_row\<close>: one record. A line end is taken off with the record; a field that
  starts with a quote is quoted, any other runs to the next comma or line end, and one comma
  after a field is skipped.
\<close>

function csv_row :: "str list \<Rightarrow> str \<Rightarrow> parse_error + (str list \<times> str)" where
  "csv_row fds [] = Ok (fds, [])"
| "csv_row fds (c # cs) =
     (if c = lf \<or> c = cr then
        Ok (fds, if c = cr \<and> (case cs of [] \<Rightarrow> False | d # _ \<Rightarrow> d = lf) then tl cs else cs)
      else if c = quote_char then
        (case quoted (c # cs) of
           Inl e \<Rightarrow> Inl e
         | Inr (value, rest) \<Rightarrow> csv_row (fds @ [value]) (skip_comma rest))
      else
        csv_row (fds @ [takeWhile (\<lambda>x. \<not> ends_bare x) (c # cs)])
          (skip_comma (dropWhile (\<lambda>x. \<not> ends_bare x) (c # cs))))"
  by pat_completeness auto

termination
proof (relation "measure (\<lambda>(fds, s). length s)")
  fix fds c cs r and v rest :: str
  assume "quoted (c # cs) = Ok r" "(v, rest) = r"
  then have "length rest < length cs"
    unfolding quoted_def by (auto dest: length_quoted_from)
  with length_skip_comma [of rest]
  show "((fds @ [v], skip_comma rest), fds, c # cs) \<in> measure (\<lambda>(fds, s). length s)"
    by simp
next
  fix fds :: "str list" and c cs
  assume "\<not> (c = lf \<or> c = cr)"
  with length_bare_rest [of c cs]
  show "((fds @ [takeWhile (\<lambda>x. \<not> ends_bare x) (c # cs)],
          skip_comma (dropWhile (\<lambda>x. \<not> ends_bare x) (c # cs))), fds, c # cs)
        \<in> measure (\<lambda>(fds, s). length s)"
    by (simp add: le_imp_less_Suc)
qed simp

lemma length_csv_row: "csv_row fds s = Ok (row, rest) \<Longrightarrow> length rest \<le> length s - 1"
proof (induction fds s rule: csv_row.induct)
  case (2 fds c cs)
  consider "c = lf \<or> c = cr" | "\<not> (c = lf \<or> c = cr)" "c = quote_char"
    | "\<not> (c = lf \<or> c = cr)" "c \<noteq> quote_char"
    by blast
  then show ?case
  proof cases
    case 1
    with 2 show ?thesis by (auto split: if_splits list.splits)
  next
    case c: 2
    with 2 obtain v r where q: "quoted (c # cs) = Ok (v, r)"
      and row: "csv_row (fds @ [v]) (skip_comma r) = Ok (row, rest)"
      by (auto split: sum.splits)
    from c q row 2 have "length rest \<le> length (skip_comma r) - 1" by auto
    moreover from q have "length r < length cs"
      unfolding quoted_def by (auto dest: length_quoted_from)
    ultimately show ?thesis using length_skip_comma [of r] by simp
  next
    case c: 3
    let ?r = "skip_comma (dropWhile (\<lambda>x. \<not> ends_bare x) (c # cs))"
    from c 2(3) have "csv_row (fds @ [takeWhile (\<lambda>x. \<not> ends_bare x) (c # cs)]) ?r = Ok (row, rest)"
      by simp
    with c 2(2) have "length rest \<le> length ?r - 1" by blast
    moreover from c have "length ?r \<le> length cs" by (intro length_bare_rest) auto
    ultimately show ?thesis by simp
  qed
qed simp

definition keep_row :: "str list \<Rightarrow> bool" where
  "keep_row row = (row \<noteq> [] \<and> \<not> (length row = 1 \<and> hd row = []))"

text \<open>\<open>csv_rows\<close>: records with no field or one empty field are dropped.\<close>

function csv_rows :: "str \<Rightarrow> parse_error + str list list" where
  "csv_rows [] = Ok []"
| "csv_rows (c # cs) =
     (case csv_row [] (c # cs) of
        Inl e \<Rightarrow> Inl e
      | Inr (row, rest) \<Rightarrow>
          (case csv_rows rest of
             Inl e \<Rightarrow> Inl e
           | Inr rows \<Rightarrow> Inr (if keep_row row then row # rows else rows)))"
  by pat_completeness auto
termination
proof (relation "measure length")
  fix c and cs rest :: str and r and row :: "str list"
  assume "csv_row [] (c # cs) = Ok r" "(row, rest) = r"
  then have "length rest \<le> length (c # cs) - 1"
    using length_csv_row [of "[]" "c # cs" row rest] by (simp del: csv_row.simps)
  then show "(rest, c # cs) \<in> measure length" by simp
qed simp

section \<open>The prompts of a text\<close>

fun position :: "('a \<Rightarrow> bool) \<Rightarrow> 'a list \<Rightarrow> nat option" where
  "position P [] = None"
| "position P (x # xs) = (if P x then Some 0 else map_option Suc (position P xs))"

definition column_of :: "nat \<Rightarrow> str list list \<Rightarrow> str list" where
  "column_of column rows =
     filter (\<lambda>p. p \<noteq> []) (map (\<lambda>row. js_trim (row ! column)) (filter (\<lambda>row. column < length row) rows))"

definition parse :: "str \<Rightarrow> bool \<Rightarrow> parse_error + str list" where
  "parse txt csv =
     (if \<not> csv then Ok (filter (\<lambda>line. line \<noteq> []) (map js_trim (split_on lf txt)))
      else (case csv_rows txt of
          Inl e \<Rightarrow> Inl e
        | Inr [] \<Rightarrow> Ok []
        | Inr (header # rows) \<Rightarrow>
            (case position (\<lambda>field. eq_ignore_ascii_case (js_trim field) ''prompt'') header of
               None \<Rightarrow> Err NoPromptColumn
             | Some column \<Rightarrow> Ok (column_of column rows))))"

definition check_prompts :: "str \<Rightarrow> str list \<Rightarrow> cli_error + unit" where
  "check_prompts shown prompts =
     (if prompts = [] then Err (Usage ''No prompts found in input file'')
      else if max_prompts < length prompts then
        Err (operational (shown @ '' has more than '' @ dec max_prompts
               @ '' prompts; split it into several jobs''))
      else (case position (\<lambda>p. max_prompt_bytes < length p) prompts of
          Some index \<Rightarrow> Err (Operational
            \<lparr>message_of = ''AISEC_USER_REQUEST_PAYLOAD_ERROR:prompt exceeds max length of 2097152 bytes'',
             status_of = None, details_of = [''Prompt index '' @ dec index]\<rparr>)
        | None \<Rightarrow> Ok ()))"

text \<open>\<open>load\<close>, from the text that was read.\<close>

definition load_prompts :: "str \<Rightarrow> str \<Rightarrow> (cli_error + str) \<Rightarrow> cli_error + str list" where
  "load_prompts path shown read =
     bind_r read (\<lambda>txt.
       (case parse txt (is_csv path) of
          Inl Unterminated \<Rightarrow> Err (operational (shown @ '' has an unterminated quoted field''))
        | Inl NoPromptColumn \<Rightarrow>
            Err (operational (''No '' @ [quote_char] @ ''prompt'' @ [quote_char] @ '' column found in CSV header''))
        | Inr prompts \<Rightarrow> bind_r (check_prompts shown prompts) (\<lambda>_. Ok prompts)))"

end
