(* ===== verification/BulkScan.thy ===== *)
theory BulkScan
  imports Engine BulkInput
begin

text \<open>
  \<open>src/commands/bulk_scan.rs\<close> and the state directory of \<open>src/bulk/mod.rs\<close>: the planning
  checks of \<open>runtime bulk-scan\<close>, the setup of a job with its clean-up, and
  \<open>runtime resume-poll\<close> with its location, tenant and output checks.

  The tenant configuration and the scanner client (\<open>connect\<close>) are given as the answer of
  that call; the renderers of the summary are left out, its counts are in the trace.
\<close>

section \<open>Planning\<close>

record scan_args =
  ag_profile :: str
  ag_file :: "str option"
  ag_input :: "str option"
  ag_output_file :: "str option"
  ag_session_id :: "str option"
  ag_batch_size :: str

record bulk_plan =
  bp_profile :: str
  bp_prompts :: "str list"
  bp_output_file :: "str option"
  bp_session_id :: "str option"
  bp_batch_size :: nat

definition payload_error :: "str \<Rightarrow> cli_error" where
  "payload_error field = Usage
     (''AISEC_USER_REQUEST_PAYLOAD_ERROR:Request body for POST /v1/scan/async/request did not match schema: '' @ field)"

definition batch_size :: "str \<Rightarrow> nat option" where
  "batch_size v =
     (case v of
        [] \<Rightarrow> None
      | c # _ \<Rightarrow>
          if \<not> (is_digit c \<and> c \<noteq> CHR ''0'') \<or> \<not> list_all is_digit v then None
          else if undec v \<le> max_batch_size then Some (undec v) else None)"

definition base36_digit :: "nat \<Rightarrow> char" where
  "base36_digit d = ''0123456789abcdefghijklmnopqrstuvwxyz'' ! d"

text \<open>The digits of the loop, lowest first.\<close>

fun base36_digits :: "nat \<Rightarrow> str" where
  "base36_digits ms =
     base36_digit (ms mod 36) # (if ms div 36 = 0 then [] else base36_digits (ms div 36))"

declare base36_digits.simps [simp del]

definition unix_millis :: "instant \<Rightarrow> nat" where
  "unix_millis t = nat (secs t * 1000 + int (subsec_millis t))"

definition default_session :: "instant \<Rightarrow> str" where
  "default_session t = ''prisma-airs-cli-bulk-'' @ rev (base36_digits (unix_millis t))"

text \<open>\<open>plan\<close>: \<open>read\<close> is the text of the input file (or the error of reading it).\<close>

definition plan_file :: "scan_args \<Rightarrow> str option" where
  "plan_file args =
     (case (case ag_file args of Some f \<Rightarrow> Some f | None \<Rightarrow> ag_input args) of
        Some f \<Rightarrow> if f \<noteq> [] then Some f else None
      | None \<Rightarrow> None)"

definition plan :: "sdk \<Rightarrow> (str \<Rightarrow> cli_error + str) \<Rightarrow> instant \<Rightarrow> scan_args \<Rightarrow> cli_error + bulk_plan" where
  "plan S read now args =
     (case plan_file args of
        None \<Rightarrow> Err (Usage ''--file <file> is required'')
      | Some file \<Rightarrow>
     (case batch_size (ag_batch_size args) of
        None \<Rightarrow> Err (Usage ''--batch-size must be a positive integer'')
      | Some bsz \<Rightarrow>
     if ag_profile args = [] then Err (payload_error ''scan_req.ai_profile: custom'')
     else if 100 < utf16_count (ag_profile args)
     then Err (payload_error ''scan_req.ai_profile.profile_name: too_big'')
     else if (case ag_session_id args of Some s \<Rightarrow> 100 < utf16_count s | None \<Rightarrow> False)
     then Err (payload_error ''scan_req.session_id: too_big'')
     else if ag_output_file args = Some [] then Err (Usage ''--output-file needs a path'')
     else
       bind_r (load_prompts file (shown file) (read file)) (\<lambda>prompts.
       let session = (case ag_session_id args of Some s \<Rightarrow> s | None \<Rightarrow> default_session now)
       in bind_r (check_encoded S prompts (ag_profile args) session (body_budget S)) (\<lambda>_.
          Ok \<lparr>bp_profile = ag_profile args, bp_prompts = prompts, bp_output_file = ag_output_file args,
              bp_session_id = ag_session_id args, bp_batch_size = bsz\<rparr>))))"

section \<open>The state directory\<close>

definition open_state_dir :: "'w os \<Rightarrow> str \<Rightarrow> ('w world, cli_error, str) prog" where
  "open_state_dir E dir =
     and_then (mapped_err (\<lambda>(_ :: errno). cannot_create dir) (tries (os_lstat E dir))) (\<lambda>st.
     if st_kind st \<noteq> Directory then fail (unsafe_dir_error dir) else
     and_then (mapped_err (\<lambda>(_ :: errno). unsafe_dir_error dir) (tries (os_canonicalize E dir))) (\<lambda>path.
     and_then (mapped_err (\<lambda>(_ :: errno). unsafe_dir_error path) (tries (os_open_dir E path))) (\<lambda>fd.
     and_then (mapped_err (\<lambda>(_ :: errno). unsafe_dir_error path) (tries (os_fstat E fd))) (\<lambda>meta.
     if dir_ok E meta then ret path else fail (unsafe_dir_error path)))))"

definition ensure_state_dir :: "'w os \<Rightarrow> str \<Rightarrow> ('w world, cli_error, str) prog" where
  "ensure_state_dir E dir =
     and_then (attempted (tries (os_lstat E dir))) (\<lambda>st.
     case st of
       Inr _ \<Rightarrow> open_state_dir E dir
     | Inl e \<Rightarrow>
         if e = NOENT then
           and_then (mapped_err (\<lambda>(_ :: errno). cannot_create dir) (tries (os_create_dirs E dir)))
             (\<lambda>_. open_state_dir E dir)
         else fail (cannot_create dir))"

section \<open>bulk-scan\<close>

text \<open>The invocation: its environment, and the answer of \<open>connect\<close> (tenant, endpoint).\<close>

record invocation =
  iv_cwd :: "str option"
  iv_xdg_state_home :: "str option"
  iv_home :: "str option"
  iv_connect :: "cli_error + str \<times> str"
  iv_secrets :: secret_set

definition nothing_submitted :: interrupt_context where
  "nothing_submitted = Bulk ''no prompt was submitted''"

definition working_directory :: "invocation \<Rightarrow> str \<Rightarrow> cli_error + str" where
  "working_directory iv name = (case iv_cwd iv of Some d \<Rightarrow> Ok d | None \<Rightarrow> Err (cannot_write name))"

text \<open>\<open>Created::undo\<close>: the state file, the claimed output, then the lock.\<close>

definition undo_created :: "'w os \<Rightarrow> state_file \<Rightarrow> (str \<times> identity) option \<Rightarrow> job_lock \<Rightarrow> ('w world, 'e, unit) prog" where
  "undo_created E file output lock =
     and_then (remove_if_ours E file) (\<lambda>_.
     and_then (case output of Some (path, ident) \<Rightarrow> remove_if E path ident | None \<Rightarrow> ret ()) (\<lambda>_.
     remove_lock E (sf_dir file) lock))"

text \<open>A program on a running job, run in the world: its result and the job it leaves.\<close>

definition on_job :: "job \<Rightarrow> ('w sys, 'e, 'a) prog \<Rightarrow> ('w world, 'f, ('e + 'a) \<times> job) prog" where
  "on_job j m = (\<lambda>w. case m \<lparr>the_job = j, the_world = w\<rparr> of (r, s) \<Rightarrow> (Ok (r, the_job s), the_world s))"

definition note_job :: "job \<Rightarrow> ('w world, 'e, unit) prog" where
  "note_job j = logs (OnInterrupt (saved_context j))"

text \<open>\<open>finish\<close>: the counts, then the exit status.\<close>

definition finish :: "job \<Rightarrow> ('w world, cli_error, unit) prog" where
  "finish j =
     (case counts (jb_state j) of (n, blocked, allowed, failed) \<Rightarrow>
        and_then (logs (Summary n blocked allowed failed)) (\<lambda>_.
        if failed = 0 then ret () else fail (Reported exit_operational)))"

text \<open>The end of both commands: the last save, the lock, the summary.\<close>

definition save_and_finish :: "'w os \<Rightarrow> job \<Rightarrow> ('w world, cli_error, unit) prog" where
  "save_and_finish E j =
     and_then (on_job j (save_with_output E)) (\<lambda>(r, j).
     and_then (of_result r) (\<lambda>_.
     and_then (note_job j) (\<lambda>_.
     and_then (on_job j (drop_lock E)) (\<lambda>(_, j). finish j))))"

text \<open>DESIGN 14.4, steps 1 to 6: what \<open>run\<close> creates, and removes when a step fails.\<close>

definition cancelled :: "'w os \<Rightarrow> ('w world, 'e, bool) prog" where
  "cancelled E = calls (os_cancelled E)"

definition claim_output :: "'w os \<Rightarrow> output_file \<Rightarrow>
    ('w world, cli_error, (identity \<times> rewritten) \<times> output_file) prog" where
  "claim_output E out =
     and_then (cancelled E) (\<lambda>c.
     if c then fail (Interrupted nothing_submitted) else claim E out header)"

definition first_checkpoint :: "'w os \<Rightarrow> ('w sys, cli_error, unit) prog" where
  "first_checkpoint E =
     and_then (is_cancelled E) (\<lambda>c.
     if c then fail (Interrupted nothing_submitted) else checkpoint E NothingSubmitted)"

definition set_up :: "'w os \<Rightarrow> invocation \<Rightarrow> bulk_plan \<Rightarrow> ('w world, cli_error, job) prog" where
  "set_up E iv bp =
     and_then (of_result (iv_connect iv)) (\<lambda>(tenant, endpoint).
     and_then (case bp_session_id bp of
                 Some s \<Rightarrow> ret s
               | None \<Rightarrow> and_then (calls (os_now E)) (\<lambda>now. ret (default_session now))) (\<lambda>session.
     let name = (case bp_output_file bp of Some p \<Rightarrow> p | None \<Rightarrow> default_name (bp_profile bp))
     in and_then (of_result (working_directory iv name)) (\<lambda>cwd.
     let output_path = absolute name cwd
     in and_then (refuse_existing E output_path) (\<lambda>_.
     and_then (cancelled E) (\<lambda>c.
     if c then fail (Interrupted nothing_submitted) else
     and_then (of_result (state_dir_path (iv_xdg_state_home iv) (iv_home iv))) (\<lambda>dir_path.
     and_then (ensure_state_dir E dir_path) (\<lambda>dir.
     and_then (calls (os_now E)) (\<lambda>started.
     and_then (calls (os_random E)) (\<lambda>random.
     let job_id = new_job_id started random; file = new_file dir job_id
     in and_then (create_lock E dir job_id (file_shown file)) (\<lambda>lock.
     and_then (attempted (claim_output E \<lparr>of_path = output_path, of_warned = False\<rparr>)) (\<lambda>claimed.
     case claimed of
       Inl e \<Rightarrow> and_then (undo_created E file None lock) (\<lambda>_. fail e)
     | Inr ((ident, report), output) \<Rightarrow>
     and_then (now_stamp E) (\<lambda>stamp.
     let st = new_state \<lparr>nj_job_id = job_id, nj_tenant = tenant, nj_endpoint = endpoint,
                nj_profile = bp_profile bp, nj_session = session, nj_batch_size = bp_batch_size bp,
                nj_output_path = output_path, nj_output = ident, nj_prompts = bp_prompts bp\<rparr> stamp
     in and_then (on_job \<lparr>jb_state = st, jb_file = file, jb_output = output, jb_lock = None\<rparr>
                    (first_checkpoint E)) (\<lambda>(first, j).
     case first of
       Inl e \<Rightarrow> and_then (undo_created E (jb_file j) (Some (of_path (jb_output j), ident)) lock) (\<lambda>_. fail e)
     | Inr _ \<Rightarrow>
     let j = j\<lparr>jb_lock := Some lock\<rparr>
     in and_then (case report of RewriteWarning t \<Rightarrow> logs (Warning t) | Durable \<Rightarrow> ret ()) (\<lambda>_.
     and_then (note_job j) (\<lambda>_. ret j)))))))))))))))"

definition run_lines :: "job \<Rightarrow> str list" where
  "run_lines j =
     [''Prisma AIRS Bulk Scan'',
      ''Profile:  '' @ terminal_safe (j_profile (jb_state j)),
      ''Session:  '' @ terminal_safe (j_session (jb_state j)),
      ''Prompts:  '' @ dec (length (j_items (jb_state j))),
      ''Batches:  '' @ dec (batch_count (length (j_items (jb_state j))) (j_batch_size (jb_state j)))
         @ '' (size '' @ dec (j_batch_size (jb_state j)) @ '')'',
      ''State:    '' @ state_shown j]"

definition run :: "'w os \<Rightarrow> invocation \<Rightarrow> bulk_plan \<Rightarrow> ('w world, cli_error, unit) prog" where
  "run E iv bp =
     and_then (set_up E iv bp) (\<lambda>j.
     and_then (for_each (\<lambda>l. logs (Status l)) (run_lines j)) (\<lambda>_.
     and_then (on_job j (run_new E (iv_secrets iv) default_timing)) (\<lambda>(ran, j).
     and_then (note_job j) (\<lambda>_.
     and_then (of_result ran) (\<lambda>_. save_and_finish E j)))))"

section \<open>resume-poll\<close>

record resume_plan =
  rp_state_file :: str
  rp_output_file :: "str option"

definition plan_resume :: "str \<Rightarrow> str option \<Rightarrow> cli_error + resume_plan" where
  "plan_resume state_file output_file =
     (if output_file = Some [] then Err (Usage ''--output-file needs a path'')
      else Ok \<lparr>rp_state_file = state_file, rp_output_file = output_file\<rparr>)"

definition job_of :: "str \<Rightarrow> str option" where
  "job_of name =
     (case strip_suffix state_suffix name of
        Some job \<Rightarrow> if is_job_id job then Some job else None
      | None \<Rightarrow> None)"

definition small_regular :: "file_stat \<Rightarrow> bool" where
  "small_regular st = (st_kind st = RegularFile \<and> st_size st \<le> max_state_bytes)"

definition passes :: "(file_stat \<Rightarrow> bool) \<Rightarrow> errno + file_stat \<Rightarrow> bool" where
  "passes P r = (case r of Inr st \<Rightarrow> P st | Inl _ \<Rightarrow> False)"

definition is_typescript_state :: "'w os \<Rightarrow> str \<Rightarrow> ('w world, 'e, bool) prog" where
  "is_typescript_state E path =
     and_then (attempted (tries (os_stat E path))) (\<lambda>before.
     if \<not> passes small_regular before then ret False else
     and_then (attempted (tries (os_open_read E path))) (\<lambda>opened.
     case opened of
       Inl (e :: errno) \<Rightarrow> ret False
     | Inr fd \<Rightarrow>
     and_then (attempted (tries (os_fstat E fd))) (\<lambda>after.
     if \<not> passes small_regular after then ret False else
     and_then (attempted (tries (os_read E fd (max_state_bytes + 1)))) (\<lambda>contents.
     ret (case contents of
            Inl (e :: errno) \<Rightarrow> False
          | Inr b \<Rightarrow> length b \<le> max_state_bytes \<and> parse_state E b = Err TypeScript)))))"

definition locate :: "'w os \<Rightarrow> str \<Rightarrow> str \<Rightarrow> str \<Rightarrow> ('w world, cli_error, str) prog" where
  "locate E typed cwd dir =
     and_then (mapped_err (\<lambda>(_ :: errno). operational (''Cannot read '' @ shown typed
            @ '' (missing, not a regular file, unreadable or larger than 128 MiB)''))
          (tries (os_canonicalize E (joined cwd typed)))) (\<lambda>canonical.
     and_then (attempted (tries (os_canonicalize E dir))) (\<lambda>canonical_dir.
     let cdir = (case canonical_dir of Inr d \<Rightarrow> Some d | Inl (e :: errno) \<Rightarrow> None);
         job = (case (parent canonical, file_name canonical, cdir) of
                  (Some p, Some name, Some d) \<Rightarrow> if p = d then job_of name else None
                | _ \<Rightarrow> None)
     in case job of
          Some j \<Rightarrow> ret j
        | None \<Rightarrow>
            and_then (is_typescript_state E canonical) (\<lambda>ts.
            if ts then fail (load_error typed TypeScript)
            else fail (operational (shown typed @ '' is not an '' @ program @ '' bulk-scan job in ''
              @ shown (case cdir of Some d \<Rightarrow> d | None \<Rightarrow> dir)
              @ ''; resume-poll resumes only jobs in its state directory (a moved or copied state cannot be resumed)'')))))"

definition check_tenant :: "job \<Rightarrow> str \<Rightarrow> str \<Rightarrow> cli_error + unit" where
  "check_tenant j tenant endpoint =
     (let state = state_shown j; recorded = j_tenant (jb_state j)
      in if recorded \<noteq> tenant then
           Err (operational (state @ '' was started with tenant '' @ recorded
             @ ''; select that tenant (for example with --tenant '' @ recorded @ '') to resume it''))
         else if j_endpoint (jb_state j) \<noteq> endpoint then
           Err (operational (state @ '' was started against '' @ terminal_safe (j_endpoint (jb_state j))
             @ '', but tenant '' @ tenant @ '' now uses '' @ terminal_safe endpoint
             @ ''; restore its airsApiEndpoint to resume it''))
         else Ok ())"

record resolved_output =
  ro_output :: output_file
  ro_claimed :: "identity option"
  ro_changed :: bool
  ro_warning :: "str option"

text \<open>A finished rewrite is promoted, the record of an unfinished one dropped.\<close>

definition promote :: "at_path \<Rightarrow> job_state \<Rightarrow> job_state" where
  "promote found st =
     (case (found, o_next (j_output st)) of
        (Next, Some nxt) \<Rightarrow> st\<lparr>j_output := (j_output st)\<lparr>o_dev := n_dev nxt, o_ino := n_ino nxt\<rparr>\<rparr>
      | _ \<Rightarrow> st)"

definition resolve_output ::
  "'w os \<Rightarrow> job_state \<Rightarrow> str option \<Rightarrow> str \<Rightarrow> ('w world, cli_error, resolved_output \<times> job_state) prog" where
  "resolve_output E st requested state =
     (let recorded = o_path (j_output st);
          target = (case requested of Some p \<Rightarrow> p | None \<Rightarrow> recorded);
          repoint = (components target \<noteq> components recorded \<or> has_root target \<noteq> has_root recorded)
      in and_then (path_at E (j_output st)) (\<lambda>found.
         and_then (if repoint then refuse_existing E target
                   else if found = Foreign then fail (foreign_error recorded state)
                   else ret ()) (\<lambda>_.
         let promoted = promote found st
         in and_then (remove_leftover_temp E (j_output promoted)) (\<lambda>_.
         let changed = (o_next (j_output promoted) \<noteq> None);
             st' = promoted\<lparr>j_output := (j_output promoted)\<lparr>o_next := None\<rparr>\<rparr>;
             output = \<lparr>of_path = target, of_warned = False\<rparr>
         in if \<not> repoint \<and> found \<noteq> Absent then
              and_then (probe E target) (\<lambda>room.
              if room then ret (\<lparr>ro_output = output, ro_claimed = None, ro_changed = changed, ro_warning = None\<rparr>, st')
              else fail (unwritable_error target state))
            else
              and_then (claim E output (projection st')) (\<lambda>((ident, report), output').
              ret (\<lparr>ro_output = output', ro_claimed = Some ident, ro_changed = True,
                    ro_warning = (case report of RewriteWarning t \<Rightarrow> Some t | Durable \<Rightarrow> None)\<rparr>,
                   st'\<lparr>j_output := \<lparr>o_path = target, o_dev = dec (id_dev ident),
                       o_ino = dec (id_ino ident), o_next = None\<rparr>\<rparr>))))))"

text \<open>\<open>settle_submitting\<close>: the attempts of the submitting items, in ascending order.\<close>

definition settle_item :: "item \<Rightarrow> item" where
  "settle_item it = (if i_status it = Submitting then it\<lparr>i_status := Ambiguous\<rparr> else it)"

definition submitting_attempts :: "item list \<Rightarrow> nat list" where
  "submitting_attempts its = sorted_indices (concat (map (\<lambda>it.
     case i_attempt it of Some n \<Rightarrow> [n] | None \<Rightarrow> []) (filter (\<lambda>it. i_status it = Submitting) its)))"

definition settle_attempt :: "str \<Rightarrow> attempt \<Rightarrow> attempt" where
  "settle_attempt now a = (if a_outcome a = InFlight
     then a\<lparr>a_outcome := Unknown, a_ended := Some now,
            a_error := Some ''the process stopped before the outcome was recorded''\<rparr>
     else a)"

definition settle_submitting :: "str \<Rightarrow> job_state \<Rightarrow> bool \<times> job_state" where
  "settle_submitting now st =
     (let ns = submitting_attempts (j_items st)
      in (ns \<noteq> [], st\<lparr>j_items := map settle_item (j_items st),
            j_attempts := foldl (\<lambda>as n. update_attempt n (settle_attempt now) as) (j_attempts st) ns\<rparr>))"

definition status_count :: "item_status \<Rightarrow> job_state \<Rightarrow> nat" where
  "status_count s st = length (filter (\<lambda>it. i_status it = s) (j_items st))"

definition ambiguous_refusal :: "job \<Rightarrow> cli_error option" where
  "ambiguous_refusal j =
     (case List.find (\<lambda>it. i_status it = Ambiguous) (j_items (jb_state j)) of
        None \<Rightarrow> None
      | Some lowest \<Rightarrow> Some (Operational
          \<lparr>message_of = ''Cannot safely resubmit prompt '' @ dec (i_index lowest)
             @ '': its submission outcome is ambiguous. Known accepted results were preserved; inspect ''
             @ state_shown j @ '' before taking manual action.'',
           status_of = None,
           details_of = [dec (status_count Ambiguous (jb_state j))
             @ '' prompt(s) have an unknown submission outcome and '' @ dec (status_count Pending (jb_state j))
             @ '' were not submitted; nothing will be resubmitted automatically.'']\<rparr>))"

definition resume_lines :: "job \<Rightarrow> str list" where
  "resume_lines j =
     [''Prisma AIRS Resume Poll'',
      ''Profile:  '' @ terminal_safe (j_profile (jb_state j)),
      ''Scan IDs: '' @ dec (length (remdups (concat (map (\<lambda>it.
          case i_scan_id it of Some s \<Rightarrow> [s] | None \<Rightarrow> []) (j_items (jb_state j)))))),
      ''Prompts:  '' @ dec (length (j_items (jb_state j)))]"

text \<open>Steps 1 to 4: the location, the directory, the lock, the tenant, the state.\<close>

definition open_job :: "'w os \<Rightarrow> invocation \<Rightarrow> resume_plan \<Rightarrow> ('w world, cli_error, job \<times> str \<times> str \<times> str) prog" where
  "open_job E iv rp =
     and_then (of_result (working_directory iv (rp_state_file rp))) (\<lambda>cwd.
     and_then (of_result (state_dir_path (iv_xdg_state_home iv) (iv_home iv))) (\<lambda>dir_path.
     and_then (locate E (rp_state_file rp) cwd dir_path) (\<lambda>job_id.
     and_then (open_state_dir E dir_path) (\<lambda>dir.
     and_then (cancelled E) (\<lambda>c.
     if c then fail (Interrupted NothingChanged) else
     and_then (acquire_lock E dir job_id (shown (joined dir (job_id @ state_suffix)))) (\<lambda>lock.
     and_then (of_result (iv_connect iv)) (\<lambda>(tenant, endpoint).
     and_then (load E dir job_id) (\<lambda>(file, st).
     ret (\<lparr>jb_state = st, jb_file = file,
           jb_output = \<lparr>of_path = o_path (j_output st), of_warned = False\<rparr>, jb_lock = Some lock\<rparr>,
          tenant, endpoint, cwd)))))))))"

text \<open>Steps 5 and 6: the tenant, the output, the sweep, the settled submissions, a checkpoint.\<close>

definition resume_checkpoint :: "'w os \<Rightarrow> resolved_output \<Rightarrow> bool \<Rightarrow> job \<Rightarrow> ('w world, cli_error, job) prog" where
  "resume_checkpoint E ro settled j =
     (if ro_changed ro \<or> settled then
        and_then (on_job j (checkpoint E NothingSubmitted)) (\<lambda>(saved, j).
        case saved of
          Inr _ \<Rightarrow> ret j
        | Inl e \<Rightarrow>
            and_then (case ro_claimed ro of
                Some ident \<Rightarrow> remove_if E (of_path (jb_output j)) ident | None \<Rightarrow> ret ()) (\<lambda>_. fail e))
      else ret j)"

definition prepare_resume ::
  "'w os \<Rightarrow> resume_plan \<Rightarrow> job \<Rightarrow> str \<Rightarrow> str \<Rightarrow> str \<Rightarrow> ('w world, cli_error, job) prog" where
  "prepare_resume E rp j tenant endpoint cwd =
     and_then (note_job j) (\<lambda>_.
     and_then (of_result (check_tenant j tenant endpoint)) (\<lambda>_.
     and_then (resolve_output E (jb_state j) (map_option (\<lambda>p. absolute p cwd) (rp_output_file rp)) (state_shown j))
       (\<lambda>(ro, st).
     and_then (sweep_temps E (jb_file j)) (\<lambda>_.
     and_then (now_stamp E) (\<lambda>now.
     case settle_submitting now st of (settled, st') \<Rightarrow>
     and_then (resume_checkpoint E ro settled (j\<lparr>jb_state := st', jb_output := ro_output ro\<rparr>)) (\<lambda>j.
     and_then (case ro_warning ro of Some t \<Rightarrow> logs (Warning t) | None \<Rightarrow> ret ()) (\<lambda>_.
     and_then (note_job j) (\<lambda>_. ret j))))))))"

text \<open>Steps 7 to 9.\<close>

definition continue_job :: "'w os \<Rightarrow> secret_set \<Rightarrow> job \<Rightarrow> ('w world, cli_error, unit) prog" where
  "continue_job E secrets j =
     (case ambiguous_refusal j of
        Some refusal \<Rightarrow>
          and_then (on_job j (recover E secrets default_timing)) (\<lambda>(ran, j).
          and_then (note_job j) (\<lambda>_.
          and_then (of_result ran) (\<lambda>_.
          and_then (on_job j (save_with_output E)) (\<lambda>(saved, j).
          and_then (of_result saved) (\<lambda>_.
          and_then (on_job j (drop_lock E)) (\<lambda>_. fail refusal))))))
      | None \<Rightarrow>
          and_then (for_each (\<lambda>l. logs (Status l)) (resume_lines j)) (\<lambda>_.
          and_then (on_job j (run_resume E secrets default_timing)) (\<lambda>(ran, j).
          and_then (note_job j) (\<lambda>_.
          and_then (of_result ran) (\<lambda>_. save_and_finish E j)))))"

definition resume :: "'w os \<Rightarrow> invocation \<Rightarrow> resume_plan \<Rightarrow> ('w world, cli_error, unit) prog" where
  "resume E iv rp =
     and_then (open_job E iv rp) (\<lambda>(j, tenant, endpoint, cwd).
     and_then (prepare_resume E rp j tenant endpoint cwd) (\<lambda>j.
     continue_job E (iv_secrets iv) j))"

end
