(* ===== verification/BulkLaws.thy ===== *)
theory BulkLaws
  imports BulkScan EngineSafe
begin

text \<open>
  Properties of single operations of a bulk scan: how the prompts are divided, what a poll
  resolves, which outcomes leave a prompt open, how often a chunk is posted and what a resume
  makes of the attempts it finds.
\<close>

section \<open>Dividing the prompts\<close>

text \<open>The logical batches of a job cut its prompts, in order and without gap or overlap,
  into the number of batches the plan announces; none is empty or larger than the batch
  size asked for (a size of zero counts as one).\<close>

theorem logical_batches_partition:
  assumes "count \<le> u64_max"
  shows "concat (map (\<lambda>(a, b). [a..<b]) (logical_batches count bsz)) = [0..<count]
    \<and> (\<forall>(a, b) \<in> set (logical_batches count bsz). a < b \<and> b - a \<le> max bsz 1)
    \<and> length (logical_batches count bsz) = batch_count count bsz"
  using logical_batches_concat [OF assms] logical_batches_bounds [OF _ assms]
  by (auto simp: length_logical_batches)

lemma logical_batches_partition_witness:
  "list_all (\<lambda>(a, b). a < b \<and> b - a \<le> 3) (logical_batches 7 3) \<and> length (logical_batches 7 3) = 3"
  using logical_batches_partition [of 7 3] by (simp add: u64_max_def batch_count_def div_ceil_def list_all_iff)

lemma chunks_loop_sized:
  "chunks_loop S profile session budget cs current bsz items = Ok out \<Longrightarrow>
   (i, p) \<in> set items \<Longrightarrow> is_ok (sized S i p profile session)"
proof (induction S profile session budget cs current bsz items arbitrary: out rule: chunks_loop.induct)
  case 2
  then show ?case by (auto simp: Let_def split: sum.splits if_splits)
qed simp

text \<open>C34: when \<open>chunks\<close> accepts the prompts of a batch, its chunks hold all of them in order;
  no chunk is empty or holds more than twenty, and the JSON body of each (brackets, objects as
  the encoder measures them, commas) stays within the budget.\<close>

theorem chunks_within_limits:
  assumes "chunks S items profile session budget = Ok out" "budget < u64_max" "distinct (map fst items)"
  shows "concat out = map fst items
    \<and> (\<forall>c \<in> set out. c \<noteq> [] \<and> length c \<le> chunk_size
         \<and> body_size (item_size S items profile session) c \<le> budget)"
proof -
  let ?sz = "item_size S items profile session"
  have "sized S i p profile session = Ok (?sz i)" if "(i, p) \<in> set items" for i p
    using chunks_loop_sized [of S profile session budget "[]" "[]" 2 items out i p] that assms(1)
    by (auto simp: chunks_def item_size_def assms(3) is_ok_iff map_of_eq_Some_iff split: option.split)
  then have "\<forall>c \<in> set out. chunk_ok ?sz budget c"
    using assms(1,2) unfolding chunks_def
    by - (rule chunks_loop_ok [of S profile session budget "[]" "[]" 2 items], simp_all add: body_size_def split_beta)
  then show ?thesis using chunks_concat [OF assms(1)] by (simp add: chunk_ok_def)
qed

text \<open>An encoder that measures a prompt and ten bytes around it.\<close>

definition sample_sdk :: sdk where
  "sample_sdk = \<lparr>sdk_build = (\<lambda>_. True), sdk_size = (\<lambda>ob. Some (length (so_prompt ob) + 10)), sdk_max_request = 5000000\<rparr>"

lemma sample_chunks: "chunks sample_sdk [(0, ''abc''), (1, ''de''), (2, ''f'')] ''p'' [] 39 = Ok [[0, 1], [2]]"
  by (simp add: chunks_def sample_sdk_def sized_def scan_object_of_def object_size_def Let_def chunk_size_def
      sat_add_def u64_max_def)

lemma chunks_within_limits_witness:
  "concat [[0, 1], [2::nat]] = [0, 1, 2]
   \<and> body_size (item_size sample_sdk [(0, ''abc''), (1, ''de''), (2, ''f'')] ''p'' []) [0, 1] \<le> 39"
  using chunks_within_limits [OF sample_chunks] by (simp add: u64_max_def)

section \<open>Naming prompts\<close>

text \<open>The ranges a message names cover exactly the prompts it is about, as few as
  possible: each range lies apart from the next by at least one prompt that is not meant.\<close>

theorem ranges_name_exactly_the_prompts:
  "\<exists>rs. ranges indices = join '', '' (map range_text rs)
     \<and> (\<Union>(a, b) \<in> set rs. {a..b}) = set indices
     \<and> list_all (\<lambda>(a, b). a \<le> b) rs
     \<and> sorted_wrt (\<lambda>(a, b) (a', b'). b + 1 < a') rs"
proof (intro exI conjI)
  let ?xs = "sorted_indices indices"
  note s = sorted_indices(1,2) [of indices]
  show "ranges indices = join '', '' (map range_text (runs ?xs))" by (simp add: ranges_def)
  show "(\<Union>(a, b) \<in> set (runs ?xs). {a..b}) = set indices" using runs_cover [OF s] by simp
  show "list_all (\<lambda>(a, b). a \<le> b) (runs ?xs)" using runs_bounds [OF s] by (auto simp: list_all_iff)
  show "sorted_wrt (\<lambda>(a, b) (a', b'). b + 1 < a') (runs ?xs)" by (rule runs_gaps [OF s])
qed

section \<open>Correlation\<close>

text \<open>The rows of a results response resolve each prompt of the receipt at most once,
  never a prompt of another receipt, and each result carries the scan id that was polled and
  the failed action exactly when it carries an error. The same holds for a report.\<close>

theorem correlation_resolves_once:
  assumes "distinct unresolved"
  shows "\<forall>rows \<in> {resolved (correlate_rows rs scan_id receipt unresolved secrets),
       resolved (correlate_reports js reports scan_id expected unresolved secrets)}.
     distinct (map fst rows) \<and> set (map fst rows) \<subseteq> set unresolved
     \<and> (\<forall>r \<in> set (map snd rows). r_scan_id r = scan_id \<and> (r_action r = ActionFailed \<longleftrightarrow> r_error r \<noteq> None))"
  using correlate_rows_fits [OF assms, of scan_id rs receipt secrets]
    correlate_reports_fits [OF assms, of scan_id js reports expected secrets]
  by (auto simp: fits_def row_ok_def)

lemma correlation_resolves_once_witness:
  "set (map fst (resolved (correlate_rows [\<lparr>row_req_id = Some (Whole 1), row_status = Some ''failed'',
     row_scan_id = None, row_result = None, row_ext_report = None\<rparr>] ''s'' None [0, 1] []))) \<subseteq> {0, 1}"
  using correlation_resolves_once [of "[0, 1]"] by (simp add: insert_commute)

section \<open>How often a chunk is posted\<close>

definition posts :: "event list \<Rightarrow> nat" where
  "posts t = length (filter (\<lambda>ev. case ev of Post _ \<Rightarrow> True | _ \<Rightarrow> False) t)"

lemma posts_append [simp]: "posts (t @ u) = posts t + posts u"
  by (simp add: posts_def)

lemma posts_simps [simp]:
  "posts [] = 0" "posts (ev # t) = (case ev of Post _ \<Rightarrow> 1 | _ \<Rightarrow> 0) + posts t"
  by (simp_all add: posts_def split: event.splits)

definition posted :: "nat \<Rightarrow> 'w sys \<Rightarrow> bool" where
  "posted n = on (\<lambda>_ t. posts t \<le> n)"

lemma posted_checkpoint: "triple (posted n) (checkpoint E c) (\<lambda>_. posted n) (posted n)"
proof (rule tripleI)
  fix s x s' assume pre: "posted n s" and run: "checkpoint E c s = (Ok x, s')"
  have h: "holding (the_job s) (trace (the_world s)) s" by (simp add: holding_def)
  from triple_Ok [OF checkpoint_triple h run] pre show "posted n s'"
    by (auto simp: checkpoint_ok_def posted_def on_def)
next
  fix s e s' assume pre: "posted n s" and run: "checkpoint E c s = (Err e, s')"
  have h: "holding (the_job s) (trace (the_world s)) s" by (simp add: holding_def)
  from triple_Err [OF checkpoint_triple h run] pre show "posted n s'"
    by (auto simp: checkpoint_err_def posted_def on_def)
qed

lemma posted_quiet: "quiet m \<Longrightarrow> triple (posted n) (in_world m) (\<lambda>_. posted n) (posted n)"
  unfolding posted_def by (rule on_quiet)

lemma posted_reads: "(\<And>x. triple (posted n) (g x) Q R) \<Longrightarrow> triple (posted n) (and_then (reads f) g) Q R"
  unfolding posted_def by (rule on_reads_any)

lemma posted_fail: "triple (posted n) (fail e) Q (posted n)"
  by (rule triple_fail)

lemma posted_ret: "triple (posted n) (ret x) (\<lambda>_. posted n) R"
  by (rule triple_ret)

lemma posted_interrupted: "triple (posted n) interrupted Q (posted n)"
  unfolding interrupted_def by (rule posted_reads, rule posted_fail)

lemma posted_with_state: "triple (posted n) (with_state f) (\<lambda>_. posted n) R"
  unfolding posted_def by (rule on_with_state)

lemma posted_logs: "posts [ev] = 0 \<Longrightarrow> triple (posted n) (in_world (logs ev)) (\<lambda>_. posted n) R"
  unfolding posted_def by (rule on_logs) simp

lemma posted_of_result: "triple (posted n) (of_result r) (\<lambda>_. posted n) (posted n)"
  by (rule triple_of_result)

lemma posted_post: "triple (posted n) (post E obs) (\<lambda>_. posted (Suc n)) (posted (Suc n))"
  unfolding post_def
  apply (rule triple_and_then [where M = "\<lambda>_. posted (Suc n)"])
   apply (simp add: posted_def, rule on_logs, simp)
  apply (rule triple_and_then, rule posted_quiet, intro quiet_rules)
  apply (rule triple_and_then, rule posted_logs, simp, rule posted_ret)
  done

lemma posted_more: "triple (posted (Suc n)) m Q (posted (Suc n)) \<Longrightarrow> triple (posted n) m Q (posted (Suc n))"
  by (erule triple_weaken) (auto simp: posted_def on_def)

lemma posted_after_outcome:
  "triple (posted n) (after_outcome E secrets tm is retries out) (\<lambda>_. posted n) (posted n)"
proof -
  have sleeping: "triple (posted n) (interrupted_during E delay) (\<lambda>_. posted n) (posted n)" for delay
    unfolding interrupted_during_def is_cancelled_def
    by (rule triple_and_then, rule posted_quiet, intro quiet_rules)
       (split if_split, intro conjI impI, rule posted_ret, rule posted_quiet, intro quiet_rules)
  show ?thesis
    unfolding after_outcome_def is_cancelled_def Let_def
    apply (rule posted_reads)
    apply (cases out; simp only: outcome.case)
         apply (rule triple_and_then, rule posted_quiet, intro quiet_rules)
         apply (split if_split, intro conjI impI, rule posted_interrupted, rule posted_ret)
        apply (rule posted_fail)
       apply (rule triple_and_then, rule posted_logs, simp)
       apply (rule triple_and_then, rule sleeping)
       apply (split if_split, intro conjI impI, rule posted_interrupted, rule posted_ret)
      apply (rule posted_fail)
     apply (split if_split, intro conjI impI, rule posted_interrupted, rule posted_fail)
    apply (split if_split, intro conjI impI, rule posted_fail, rule posted_fail)
    done
qed

lemma posted_verify_lock: "triple (posted n) (verify_lock E) (\<lambda>_. posted n) (posted n)"
  unfolding verify_lock_def
  apply (rule posted_reads)
  apply (split option.split, intro conjI allI impI)
   apply (rule posted_ret)
  apply (rule triple_and_then, rule posted_quiet, intro quiet_rules)
  apply (split if_split, intro conjI impI, rule posted_ret, rule posted_fail)
  done

lemma posted_submit_round:
  "triple (posted n) (submit_round E secrets tm is retries) (\<lambda>_. posted (Suc n)) (posted (Suc n))"
proof -
  have up: "posted (Suc n) s" if "posted n s" for s :: "'a sys"
    using that by (auto simp: posted_def on_def)
  have early: "triple (posted n) m (\<lambda>_. posted n) (posted (Suc n))" if "triple (posted n) m (\<lambda>_. posted n) (posted n)"
    for m :: "('a sys, cli_error, 'b) prog"
    by (rule triple_weaken [OF that]) (auto intro: up)
  show ?thesis
    unfolding submit_round_def is_cancelled_def Let_def
    apply (rule triple_and_then, rule early, rule posted_quiet, intro quiet_rules)
    apply (split if_split, intro conjI impI)
     apply (rule posted_more, rule posted_interrupted)
    apply (rule triple_and_then, rule early, rule posted_verify_lock)
    apply (rule triple_and_then, rule early, rule posted_quiet, intro quiet_rules)
    apply (rule posted_reads)
    apply (rule triple_and_then, rule posted_with_state)
    apply (rule triple_and_then, rule early, rule posted_checkpoint)
    apply (rule posted_reads)
    apply (rule triple_and_then, rule early, rule posted_of_result)
    apply (rule triple_and_then, rule posted_post)
    apply (rule triple_and_then, rule posted_quiet, intro quiet_rules)
    apply (rule triple_and_then, rule posted_with_state)
    apply (rule triple_and_then, rule posted_checkpoint)
    apply (rule posted_after_outcome)
    done
qed

lemma submit_loop_posts:
  "posts (trace (the_world s)) \<le> n \<Longrightarrow>
   posts (trace (the_world (snd (submit_loop E secrets tm is retries s)))) \<le> n + Suc (max_retries - retries)"
proof (induction E secrets tm "is" retries s arbitrary: n rule: submit_loop.induct)
  case (1 E secrets tm "is" retries s)
  obtain r t where rt: "submit_round E secrets tm is retries s = (r, t)" by fastforce
  have "posted n s" using 1(2) by (simp add: posted_def on_def)
  then have t: "posts (trace (the_world t)) \<le> Suc n"
    using triple_Ok [OF posted_submit_round, of n s] triple_Err [OF posted_submit_round, of n s] rt
    by (cases r) (auto simp: posted_def on_def)
  show ?case
  proof (cases "\<exists>r'. r = Ok (Some r')")
    case True
    then obtain r' where r': "r = Ok (Some r')" by blast
    with rt submit_round_again [of retries E secrets tm "is"] have "r' = Suc retries" "retries < max_retries"
      unfolding again_only_def by blast+
    with 1(1) [OF rt [symmetric] r' refl t] show ?thesis
      by (simp add: submit_loop.simps [of E secrets tm "is" retries s] rt r')
  next
    case False
    then have "submit_loop E secrets tm is retries s = ((case r of Inl e \<Rightarrow> Inl e | Inr _ \<Rightarrow> Inr ()), t)"
      by (auto simp: submit_loop.simps [of E secrets tm "is" retries s] rt split: sum.split option.split)
    with t show ?thesis by simp
  qed
qed

text \<open>C33: whatever AIRS, the file system and the user do, submitting a chunk posts it at most six
  times: once, and once more after each of at most five rate-limit answers.\<close>

theorem chunk_posted_at_most_six_times:
  "posts (trace (the_world (snd (submit_chunk E secrets tm indices s))))
     \<le> posts (trace (the_world s)) + 6"
  unfolding submit_chunk_def
  by (rule order_trans [OF submit_loop_posts [OF order_refl]]) (simp add: max_retries_def)

section \<open>Waiting\<close>

text \<open>A wait never overflows and never lasts longer than the service may ask for: the
  delay it names, capped at a minute, or the base delay doubled at every retry, which with the
  program's own base is at most 160 seconds at the fifth.\<close>

theorem waits_are_bounded:
  "retry_delay asked n base \<le> (case asked of Some d \<Rightarrow> min d 60000 | None \<Rightarrow> duration_max)
   \<and> (asked = None \<and> 1 \<le> n \<and> n \<le> max_retries \<longrightarrow>
        retry_delay asked n (base_delay default_timing) = 10000 * 2 ^ (n - 1)
        \<and> retry_delay asked n (base_delay default_timing) \<le> 160000)"
proof -
  have "(2::nat) ^ (n - 1) \<le> 2 ^ 4" if "n \<le> 5" using that by (intro power_increasing) auto
  then show ?thesis
    by (auto simp: retry_delay_def retry_after_cap_def max_retries_def default_timing_def duration_max_def u64_max_def
        split: option.split)
qed

lemma waits_are_bounded_witness:
  "retry_delay None 5 (base_delay default_timing) = 160000 \<and> retry_delay (Some 90000) 1 7 \<le> 60000"
  using waits_are_bounded [of None 5 7] waits_are_bounded [of "Some 90000" 1 7] by (simp add: max_retries_def)

end
