(* ===== verification/BulkValid.thy ===== *)
theory BulkValid
  imports BulkScan EngineSafe
begin

text \<open>
  The states of a job stay valid: what \<open>validate\<close> demands holds of a new job and is kept by the
  start and the end of an attempt, by the results of a poll and by the recovery of an attempt
  whose outcome is unknown. So no checkpoint is refused for its own state.
\<close>

section \<open>The attempt journal\<close>

lemma map_update_attempt: "(\<And>a. g (f a) = g a) \<Longrightarrow> map g (update_attempt n f as) = map g as"
  by (induction as) auto

lemma find_attempt_Nil [simp]: "find_attempt n [] = None"
  by (simp add: find_attempt_def)

lemma find_attempt_Cons [simp]:
  "find_attempt n (a # as) = (if a_id a = n then Some a else find_attempt n as)"
  by (simp add: find_attempt_def)

lemma find_attempt_append:
  "find_attempt n (as @ bs) = (case find_attempt n as of Some a \<Rightarrow> Some a | None \<Rightarrow> find_attempt n bs)"
  by (induction as) auto

lemma find_attempt_None: "n \<notin> set (map a_id as) \<Longrightarrow> find_attempt n as = None"
  by (induction as) auto

lemma find_attempt_mem: "find_attempt n as = Some a \<Longrightarrow> a \<in> set as \<and> a_id a = n"
  by (induction as) (auto split: if_splits)

lemma find_attempt_update:
  "(\<And>a. a_id (f a) = a_id a) \<Longrightarrow>
   find_attempt k (update_attempt n f as) = map_option (\<lambda>a. if k = n then f a else a) (find_attempt k as)"
  by (induction as) (auto simp: option.map_ident)

lemma set_update_attempt: "a \<in> set (update_attempt n f as) \<Longrightarrow> a \<in> set as \<or> (\<exists>b \<in> set as. a_id b = n \<and> a = f b)"
  by (induction as) (auto split: if_splits)

lemma flying_none: "flying as = 0 \<longleftrightarrow> (\<forall>a \<in> set as. a_outcome a \<noteq> InFlight)"
  by (auto simp: flying_def filter_empty_conv)

lemma flying_append [simp]: "flying (as @ bs) = flying as + flying bs"
  by (simp add: flying_def)

section \<open>A new job\<close>

lemma new_item_ok: "item_ok [] (new_item i p)"
  by (simp add: item_ok_def new_item_def was_submitted_def is_terminal_def)

lemma digits_of_identity: "d \<le> u64_max \<Longrightarrow> decimal (dec d)"
  using length_dec_le [of d 20] by (simp add: decimal_def dec_digits u64_max_def)

lemma new_state_valid:
  assumes "is_job_id (nj_job_id nj)" "valid_tenant_name (nj_tenant nj)" "nj_endpoint nj \<noteq> []"
    and "1 \<le> utf16_count (nj_profile nj)" "utf16_count (nj_profile nj) \<le> 100" "utf16_count (nj_session nj) \<le> 100"
    and "1 \<le> nj_batch_size nj" "nj_batch_size nj \<le> max_batch_size"
    and "is_absolute (nj_output_path nj)" "id_dev (nj_output nj) \<le> u64_max" "id_ino (nj_output nj) \<le> u64_max"
    and "is_stamp now" "nj_prompts nj \<noteq> []" "length (nj_prompts nj) \<le> max_prompts"
  shows "valid_state (new_state nj now)"
proof -
  have path: "nj_output_path nj \<noteq> []" using assms(9) by (auto simp: is_absolute_def starts_with_def)
  let ?n = "length (nj_prompts nj)" and ?its = "j_items (new_state nj now)"
  have items: "?its = map (\<lambda>(i, p). new_item i p) (zip [0..<?n] (nj_prompts nj))" by (simp add: new_state_def)
  have "header_ok (new_state nj now)"
    using assms path digits_of_identity
    by (simp add: header_ok_def check_header_def new_state_def bad_output_def)
  moreover have "map i_index ?its = [0..<length ?its]"
    by (simp add: items comp_def case_prod_beta new_item_def)
  moreover have "\<forall>it \<in> set ?its. item_ok (j_attempts (new_state nj now)) it"
    using new_item_ok by (auto simp: items new_state_def)
  moreover have "with_scan s ?its = []" for s
    by (auto simp: items with_scan_def filter_empty_conv new_item_def)
  then have "receipts_ok ?its" by (simp add: receipts_ok_def one_receipt_def)
  ultimately show ?thesis
    by (simp add: valid_state_def flying_def) (simp add: new_state_def)
qed

text \<open>C30: a new job is valid, whatever its prompts are, when its fields are what the command line
  and the store accept: then its first checkpoint is not refused.\<close>

theorem new_job_is_valid:
  assumes "is_job_id (nj_job_id nj)" "valid_tenant_name (nj_tenant nj)" "nj_endpoint nj \<noteq> []"
    and "1 \<le> utf16_count (nj_profile nj)" "utf16_count (nj_profile nj) \<le> 100" "utf16_count (nj_session nj) \<le> 100"
    and "1 \<le> nj_batch_size nj" "nj_batch_size nj \<le> max_batch_size"
    and "is_absolute (nj_output_path nj)" "id_dev (nj_output nj) \<le> u64_max" "id_ino (nj_output nj) \<le> u64_max"
    and "is_stamp now" "nj_prompts nj \<noteq> []" "length (nj_prompts nj) \<le> max_prompts"
  shows "validate (new_state nj now) = Ok ()"
  unfolding validate_valid by (rule new_state_valid) (use assms in simp_all)

definition sample_job :: new_job where
  "sample_job = \<lparr>nj_job_id = ''20261014T101112Z-0123456789abcdef'', nj_tenant = ''acme'', nj_endpoint = ''https://x'',
     nj_profile = ''p'', nj_session = [], nj_batch_size = 100, nj_output_path = ''/o.csv'',
     nj_output = \<lparr>id_dev = 3, id_ino = 5\<rparr>, nj_prompts = [''hello'', ''world'']\<rparr>"

lemma sample_job_id: "is_job_id ''20261014T101112Z-0123456789abcdef''" by code_simp
lemma sample_stamp: "is_stamp ''2026-10-14T10:11:12.345Z''" by code_simp
lemma sample_profile: "utf16_count ''p'' = 1" "utf16_count [] = 0" "valid_tenant_name ''acme''" by code_simp+

lemma sample_valid: "valid_state (new_state sample_job ''2026-10-14T10:11:12.345Z'')"
  by (rule new_state_valid)
     (simp_all add: sample_job_def sample_job_id sample_stamp sample_profile max_batch_size_def u64_max_def
       max_prompts_def is_absolute_def starts_with_def)

lemma new_job_is_valid_witness:
  "validate (new_state sample_job ''2026-10-14T10:11:12.345Z'') = Ok ()"
  by (rule new_job_is_valid)
     (simp_all add: sample_job_def sample_job_id sample_stamp sample_profile max_batch_size_def u64_max_def
       max_prompts_def is_absolute_def starts_with_def)

section \<open>The start of an attempt\<close>

text \<open>\<open>startable is st\<close>: the chunk \<open>is\<close> names prompts that wait, and no attempt is in flight.\<close>

definition startable :: "nat list \<Rightarrow> job_state \<Rightarrow> bool" where
  "startable is st = (is \<noteq> [] \<and> length is \<le> chunk_size \<and> distinct is
     \<and> (\<forall>i \<in> set is. i < length (j_items st) \<and> i_status (j_items st ! i) = Pending)
     \<and> flying (j_attempts st) = 0)"

lemma set_items_cases:
  assumes "it \<in> set (set_items is f its)" "distinct is" "\<forall>i \<in> set is. i < length its"
  obtains i where "i \<in> set is" "it = f (its ! i)" | i where "i < length its" "i \<notin> set is" "it = its ! i"
proof -
  from assms(1) obtain i where i: "i < length its" "it = set_items is f its ! i" by (auto simp: in_set_conv_nth)
  show thesis
  proof (cases "i \<in> set is")
    case True
    with i assms set_items_same [of i "is" its f] that(1) show ?thesis by auto
  next
    case False
    with i set_items_other [of i "is" f its] that(2) show ?thesis by auto
  qed
qed

lemma set_items_map:
  assumes "distinct is" "\<forall>i \<in> set is. i < length its" "\<And>i. i \<in> set is \<Longrightarrow> g (f (its ! i)) = g (its ! i)"
  shows "map g (set_items is f its) = map g its"
proof (intro nth_equalityI)
  fix i assume "i < length (map g (set_items is f its))"
  with assms set_items_same [of i "is" its f] set_items_other [of i "is" f its]
  show "map g (set_items is f its) ! i = map g its ! i" by (cases "i \<in> set is") auto
qed simp

lemma receipts_ok_map:
  assumes "map (\<lambda>it. (i_scan_id it, i_receipt it)) its' = map (\<lambda>it. (i_scan_id it, i_receipt it)) its" "receipts_ok its"
  shows "receipts_ok its'"
proof -
  have scans: "length (with_scan s its') = length (with_scan s its) \<and> i_receipt ` set (with_scan s its') = i_receipt ` set (with_scan s its)" for s
  proof -
    let ?g = "\<lambda>it. (i_scan_id it, i_receipt it)"
    have m: "map ?g (with_scan s js) = filter (\<lambda>(a, b). a = Some s) (map ?g js)" for js
      by (simp add: with_scan_def filter_map comp_def)
    have e: "map ?g (with_scan s its') = map ?g (with_scan s its)" by (simp add: m assms(1))
    have "i_receipt ` set (with_scan s js) = snd ` set (map ?g (with_scan s js))" for js by force
    with e map_eq_imp_length_eq [OF e] show ?thesis by metis
  qed
  have one: "one_receipt js \<longleftrightarrow> (\<forall>a \<in> i_receipt ` set js. \<forall>b \<in> i_receipt ` set js. a = b)" for js
    by (auto simp: one_receipt_def)
  show ?thesis
    unfolding receipts_ok_def
  proof (intro allI conjI)
    fix s
    from assms(2) have ok: "length (with_scan s its) \<le> chunk_size" "one_receipt (with_scan s its)"
      by (simp_all add: receipts_ok_def)
    from ok(1) scans [of s] show "length (with_scan s its') \<le> chunk_size" by metis
    from ok(2) scans [of s] show "one_receipt (with_scan s its')" unfolding one by metis
  qed
qed

text \<open>What \<open>item_ok\<close> says of the item alone, and what of its attempt.\<close>

definition item_shape :: "item \<Rightarrow> bool" where
  "item_shape it =
     (i_req_id it = i_index it
      \<and> (if was_submitted (i_status it)
         then (\<exists>s. i_scan_id it = Some s \<and> is_scan_id s)
         else i_scan_id it = None \<and> i_receipt it = None)
      \<and> (if is_terminal (i_status it)
         then (\<exists>r. i_result it = Some r \<and> i_scan_id it = Some (r_scan_id r)
                    \<and> (i_status it = Failed) = (r_action r = ActionFailed))
         else i_result it = None)
      \<and> (i_status it = Submitting \<longrightarrow> i_attempt it \<noteq> None))"

definition item_linked :: "attempt list \<Rightarrow> item \<Rightarrow> bool" where
  "item_linked as it = (\<forall>n. i_attempt it = Some n \<longrightarrow>
     (\<exists>a. find_attempt n as = Some a \<and> (a_outcome a = InFlight) = (i_status it = Submitting)))"

lemma item_ok_split: "item_ok as it \<longleftrightarrow> item_shape it \<and> item_linked as it"
  unfolding item_ok_def item_shape_def item_linked_def by (simp only: conj_assoc)

lemma item_linked_append: "item_linked as it \<Longrightarrow> item_linked (as @ bs) it"
  by (auto simp: item_linked_def find_attempt_append)

lemma startable_shapes:
  assumes "valid_state st" "startable is st" "i \<in> set is"
  shows "item_shape (j_items st ! i)" "i_status (j_items st ! i) = Pending" "i < length (j_items st)"
proof -
  from assms(2,3) show s: "i_status (j_items st ! i) = Pending" "i < length (j_items st)" by (simp_all add: startable_def)
  with assms(1) show "item_shape (j_items st ! i)" by (simp add: valid_state_def item_ok_split)
qed

lemma header_ok_items:
  assumes "length its = length (j_items st)"
  shows "header_ok (st\<lparr>j_attempts := as, j_items := its\<rparr>) = header_ok st"
proof -
  have "its = [] \<longleftrightarrow> j_items st = []" using assms by (metis length_0_conv)
  then show ?thesis by (simp add: header_ok_def check_header_def assms del: first_failure.simps)
qed

lemma header_ok_stamped:
  assumes "header_ok st" "is_stamp now"
  shows "header_ok (st\<lparr>j_sequence := n, j_updated := now\<rparr>)"
  using assms unfolding header_ok_def check_header_def first_failure_Ok by simp

lemma begun_is_valid:
  assumes "valid_state st" "startable is st" "is_stamp now"
  shows "valid_state (begin_attempt is now st)"
proof -
  let ?n = "length (j_attempts st) + 1"
  let ?f = "\<lambda>it. it\<lparr>i_status := Submitting, i_attempt := Some ?n\<rparr>"
  let ?a = "\<lparr>a_id = ?n, a_indices = is, a_started = now, a_ended = None, a_outcome = InFlight,
                a_http = None, a_error = None, a_scan_id = None\<rparr>"
  let ?its = "set_items is ?f (j_items st)" and ?as = "j_attempts st @ [?a]"
  have st': "begin_attempt is now st = st\<lparr>j_attempts := ?as, j_items := ?its\<rparr>"
    by (simp add: begin_attempt_def Let_def)
  note v = assms(1)
  have ids: "map a_id (j_attempts st) = [1..<?n]" using v by (simp add: valid_state_def)
  have range: "distinct is" "\<forall>i \<in> set is. i < length (j_items st)" using assms(2) by (simp_all add: startable_def)
  have "header_ok (begin_attempt is now st)"
    using v header_ok_items [of ?its st ?as] by (simp add: st' valid_state_def)
  moreover have "map i_index ?its = [0..<length ?its]"
    using v set_items_map [OF range, of i_index ?f] by (simp add: valid_state_def)
  moreover have "item_ok ?as it" if "it \<in> set ?its" for it
    using that range
  proof (cases rule: set_items_cases)
    case (1 i)
    have "find_attempt ?n ?as = Some ?a" using ids by (simp add: find_attempt_append find_attempt_None)
    with 1 startable_shapes [OF v assms(2) 1(1)] show ?thesis
      by (auto simp: item_ok_split item_shape_def item_linked_def was_submitted_def is_terminal_def)
  next
    case (2 i)
    with v have "item_ok (j_attempts st) it" by (simp add: valid_state_def)
    then show ?thesis by (simp add: item_ok_split item_linked_append)
  qed
  moreover have "map a_id ?as = [1..<length ?as + 1]" using ids by simp
  moreover have "attempt_ok (length ?its) a" if "a \<in> set ?as" for a
    using that v assms(2,3) range by (auto simp: valid_state_def attempt_ok_def startable_def)
  moreover have "flying ?as \<le> 1" using assms(2) by (simp add: startable_def flying_def)
  moreover have "receipts_ok ?its"
    by (rule receipts_ok_map [OF set_items_map [OF range]]) (use v in \<open>simp_all add: valid_state_def\<close>)
  ultimately show ?thesis by (simp add: valid_state_def st')
qed

text \<open>Saving a chunk as submitting keeps the state valid: the new attempt gets the next id and
  is the only one in flight, and the prompts of the chunk name it.\<close>

theorem started_attempt_is_valid:
  assumes "validate st = Ok ()" "startable is st" "is_stamp now"
  shows "validate (begin_attempt is now st) = Ok ()"
  using assms begun_is_valid by (simp add: validate_valid)

lemma sample_items: "j_items (new_state sample_job now) = [new_item 0 ''hello'', new_item 1 ''world'']"
  "j_attempts (new_state sample_job now) = []"
  by (simp_all add: new_state_def sample_job_def)

lemma sample_startable: "startable [0] (new_state sample_job now)"
  by (simp add: startable_def sample_items new_item_def chunk_size_def flying_def)

lemma started_attempt_is_valid_witness:
  "validate (begin_attempt [0] ''2026-10-14T10:11:12.345Z'' (new_state sample_job ''2026-10-14T10:11:12.345Z'')) = Ok ()"
  by (rule started_attempt_is_valid) (simp_all add: validate_valid sample_valid sample_startable sample_stamp)

section \<open>The end of an attempt\<close>

lemma filter_list_update_out: "i < length xs \<Longrightarrow> \<not> P (xs ! i) \<Longrightarrow> \<not> P v \<Longrightarrow> filter P (xs[i := v]) = filter P xs"
  by (induction xs arbitrary: i) (auto split: nat.split simp: nth_Cons)

lemma filter_set_items_out:
  "distinct is \<Longrightarrow> \<forall>i \<in> set is. i < length its \<and> \<not> P (its ! i) \<and> \<not> P (f (its ! i)) \<Longrightarrow>
   filter P (set_items is f its) = filter P its"
proof (induction "is" arbitrary: its)
  case (Cons i "is")
  have "filter P (set_items is f (its[i := f (its ! i)])) = filter P (its[i := f (its ! i)])"
    by (rule Cons.IH) (use Cons.prems in \<open>auto simp: nth_list_update\<close>)
  also have "\<dots> = filter P its" by (rule filter_list_update_out) (use Cons.prems in auto)
  finally show ?case by simp
qed simp

lemma length_filter_set_items:
  assumes "distinct is" "\<forall>i < length its. i \<notin> set is \<longrightarrow> \<not> P (its ! i)"
  shows "length (filter P (set_items is f its)) \<le> length is"
proof -
  have "{i. i < length its \<and> P (set_items is f its ! i)} \<subseteq> set is"
    using assms(2) set_items_other [of _ "is" f its] by force
  then show ?thesis
    using card_mono [of "set is"] distinct_card [OF assms(1)] by (simp add: length_filter_conv_card)
qed

lemma flying_update: "(\<And>a. a_outcome (f a) \<noteq> InFlight) \<Longrightarrow> flying (update_attempt n f as) \<le> flying as"
  by (induction as) (auto simp: flying_def)

text \<open>The chunk of the attempt \<open>n\<close>, the only one in flight.\<close>

definition chunk_flying :: "nat \<Rightarrow> nat list \<Rightarrow> job_state \<Rightarrow> bool" where
  "chunk_flying n is st = (distinct is \<and> length is \<le> chunk_size
     \<and> (\<forall>i \<in> set is. i < length (j_items st) \<and> i_status (j_items st ! i) = Submitting \<and> i_attempt (j_items st ! i) = Some n)
     \<and> (\<forall>i < length (j_items st). i_status (j_items st ! i) = Submitting \<longrightarrow> i \<in> set is))"

lemma begun_flying:
  assumes "valid_state st" "startable is st"
  shows "chunk_flying (length (j_attempts st) + 1) is (begin_attempt is now st)"
proof -
  have range: "distinct is" "\<forall>i \<in> set is. i < length (j_items st)" "length is \<le> chunk_size"
    using assms(2) by (simp_all add: startable_def)
  have old: "i_status (j_items st ! i) \<noteq> Submitting" if "i < length (j_items st)" for i
  proof
    assume s: "i_status (j_items st ! i) = Submitting"
    have "item_ok (j_attempts st) (j_items st ! i)" using assms(1) that by (simp add: valid_state_def)
    with s obtain n a where "find_attempt n (j_attempts st) = Some a" "a_outcome a = InFlight"
      by (auto simp: item_ok_def)
    with assms(2) show False using find_attempt_mem by (fastforce simp: startable_def flying_none)
  qed
  then show ?thesis
    using range set_items_same [of _ "is" "j_items st"] set_items_other [of _ "is" _ "j_items st"]
    by (auto simp: chunk_flying_def begin_attempt_def Let_def) metis
qed

lemma outcome_scan_usable: "outcome_scan (outcome_of_reply secrets retries reply) = Some s \<Longrightarrow> is_scan_id s"
  by (auto simp: outcome_of_reply_def classify_def Let_def split: sum.splits if_splits)

lemma outcome_kinds:
  "attempt_outcome_of out \<noteq> InFlight" "item_status_of out \<noteq> Submitting" "\<not> is_terminal (item_status_of out)"
  "was_submitted (item_status_of out) = (outcome_scan out \<noteq> None)"
  "(attempt_outcome_of out = Accepted) = (outcome_scan out \<noteq> None)"
  by (cases out; simp add: is_terminal_def was_submitted_def)+

lemma ended_is_valid:
  assumes "valid_state st" "chunk_flying n is st" "find_attempt n (j_attempts st) \<noteq> None" "is_stamp ended"
    and out: "out = outcome_of_reply secrets retries reply"
    and fresh: "\<And>s it. outcome_scan out = Some s \<Longrightarrow> it \<in> set (j_items st) \<Longrightarrow> i_scan_id it \<noteq> Some s"
  shows "valid_state (end_attempt secrets n is out status ended st)"
proof -
  define g :: "item \<Rightarrow> item" where "g = (\<lambda>it. it\<lparr>i_status := item_status_of out, i_scan_id := outcome_scan out,
            i_receipt := (if outcome_scan out \<noteq> None then outcome_report out else None)\<rparr>)"
  define f :: "attempt \<Rightarrow> attempt" where "f = (\<lambda>a. a\<lparr>a_ended := Some ended, a_outcome := attempt_outcome_of out,
            a_http := (case outcome_error out of Some e \<Rightarrow> http_of (ce_facts e) | None \<Rightarrow> status),
            a_error := (case outcome_error out of
                Some e \<Rightarrow> Some (facts_message (ce_facts e) (call_context secrets ScanSubmit))
              | None \<Rightarrow> if out = Unusable then Some (unusable_text (ranges is)) else None),
            a_scan_id := outcome_scan out\<rparr>)"
  let ?its = "set_items is g (j_items st)" and ?as = "update_attempt n f (j_attempts st)"
  have st': "end_attempt secrets n is out status ended st = st\<lparr>j_attempts := ?as, j_items := ?its\<rparr>"
    by (simp add: end_attempt_def f_def g_def)
  have f: "a_id (f a) = a_id a" "a_outcome (f a) = attempt_outcome_of out" "a_ended (f a) = Some ended"
    "a_indices (f a) = a_indices a" "a_started (f a) = a_started a" "a_scan_id (f a) = outcome_scan out" for a
    by (simp_all add: f_def)
  have g: "i_index (g it) = i_index it" "i_req_id (g it) = i_req_id it" "i_status (g it) = item_status_of out"
    "i_scan_id (g it) = outcome_scan out" "i_result (g it) = i_result it" "i_attempt (g it) = i_attempt it"
    "i_receipt (g it) = (if outcome_scan out \<noteq> None then outcome_report out else None)" for it
    by (simp_all add: g_def)
  have range: "distinct is" "\<forall>i \<in> set is. i < length (j_items st)" using assms(2) by (simp_all add: chunk_flying_def)
  have ok: "item_ok (j_attempts st) (j_items st ! i)" if "i < length (j_items st)" for i
    using assms(1) that by (simp add: valid_state_def)
  have find: "find_attempt k ?as = map_option (\<lambda>a. if k = n then f a else a) (find_attempt k (j_attempts st))" for k
    by (rule find_attempt_update) (simp add: f)
  have "header_ok (end_attempt secrets n is out status ended st)"
    using assms(1) header_ok_items [of ?its st ?as] by (simp add: st' valid_state_def)
  moreover have "map i_index ?its = [0..<length ?its]"
    using assms(1) set_items_map [OF range, of i_index g] by (simp add: valid_state_def g)
  moreover have "item_ok ?as it" if "it \<in> set ?its" for it
    using that range
  proof (cases rule: set_items_cases)
    case (1 i)
    from assms(2) 1(1) have s: "i_status (j_items st ! i) = Submitting" "i_attempt (j_items st ! i) = Some n"
      "i < length (j_items st)" by (simp_all add: chunk_flying_def)
    with ok [OF s(3)] have "i_result (j_items st ! i) = None" "i_req_id (j_items st ! i) = i_index (j_items st ! i)"
      by (simp_all add: item_ok_def is_terminal_def)
    with 1 s outcome_kinds [of out] outcome_scan_usable [of secrets retries reply] have "item_shape it"
      by (auto simp: item_shape_def g out)
    moreover have "item_linked ?as it"
      using 1 s outcome_kinds(1,2) [of out] assms(3) by (auto simp: item_linked_def g find f)
    ultimately show ?thesis by (simp add: item_ok_split)
  next
    case (2 i)
    with ok have old: "item_ok (j_attempts st) it" by simp
    have "i_status it \<noteq> Submitting" using 2 assms(2) by (auto simp: chunk_flying_def)
    have "item_linked ?as it"
      unfolding item_linked_def
    proof (intro allI impI)
      fix k assume "i_attempt it = Some k"
      with old obtain a where "find_attempt k (j_attempts st) = Some a" "a_outcome a = InFlight \<longleftrightarrow> i_status it = Submitting"
        by (auto simp: item_ok_def)
      with \<open>i_status it \<noteq> Submitting\<close> outcome_kinds(1) [of out]
      show "\<exists>a. find_attempt k ?as = Some a \<and> (a_outcome a = InFlight) = (i_status it = Submitting)"
        unfolding find by (simp add: f)
    qed
    with old show ?thesis by (simp add: item_ok_split)
  qed
  moreover have "map a_id ?as = [1..<length ?as + 1]"
  proof -
    have "map a_id ?as = map a_id (j_attempts st)" by (rule map_update_attempt) (simp add: f)
    with assms(1) show ?thesis by (metis length_map valid_state_def)
  qed
  moreover have "attempt_ok (length ?its) a" if "a \<in> set ?as" for a
    using set_update_attempt [OF that] assms(1,4) outcome_kinds(1,5) [of out]
    by (auto simp: valid_state_def attempt_ok_def f)
  moreover have "flying ?as \<le> 1"
    using flying_update [of f n "j_attempts st"] assms(1) outcome_kinds(1) [of out] by (simp add: valid_state_def f)
  moreover have "receipts_ok ?its"
    unfolding receipts_ok_def
  proof
    fix s
    from assms(1) have old: "length (with_scan s (j_items st)) \<le> chunk_size" "one_receipt (with_scan s (j_items st))"
      by (simp_all add: valid_state_def receipts_ok_def)
    show "length (with_scan s ?its) \<le> chunk_size \<and> one_receipt (with_scan s ?its)"
    proof (cases "outcome_scan out = Some s")
      case True
      with fresh have new: "\<forall>i < length (j_items st). i \<notin> set is \<longrightarrow> i_scan_id (j_items st ! i) \<noteq> Some s" by simp
      then have "length (with_scan s ?its) \<le> length is"
        unfolding with_scan_def by (intro length_filter_set_items) (use range in auto)
      moreover have "i_receipt it = outcome_report out" if "it \<in> set (with_scan s ?its)" for it
      proof -
        from that have it: "it \<in> set ?its" "i_scan_id it = Some s" by (simp_all add: with_scan_def)
        from it(1) range show ?thesis by (cases rule: set_items_cases) (use it(2) new True in \<open>auto simp: g\<close>)
      qed
      ultimately show ?thesis using assms(2) by (simp add: chunk_flying_def one_receipt_def)
    next
      case False
      have "i_scan_id (j_items st ! i) = None" if "i \<in> set is" for i
        using ok [of i] that assms(2) by (auto simp: chunk_flying_def item_ok_def was_submitted_def)
      then have "with_scan s ?its = with_scan s (j_items st)"
        unfolding with_scan_def by (intro filter_set_items_out) (use range False in \<open>auto simp: g\<close>)
      with old show ?thesis by simp
    qed
  qed
  ultimately show ?thesis by (simp add: valid_state_def st')
qed

text \<open>C31: recording the answer to a posted chunk keeps the state valid, in every outcome, unless AIRS
  names a scan id that the job already holds. (The state was stamped by the checkpoint between
  the start and the end of the attempt.)\<close>

theorem ended_attempt_is_valid:
  assumes "validate st = Ok ()" "startable is st" "is_stamp started" "is_stamp ended"
    and "stamped (begin_attempt is started st) marked" "is_stamp (j_updated marked)"
    and "\<forall>it \<in> set (j_items st). \<forall>s. outcome_scan (outcome_of_reply secrets retries reply) = Some s \<longrightarrow> i_scan_id it \<noteq> Some s"
  shows "validate (end_attempt secrets (length (j_attempts st) + 1) is (outcome_of_reply secrets retries reply)
      status ended marked) = Ok ()"
proof -
  let ?b = "begin_attempt is started st" and ?n = "length (j_attempts st) + 1"
  from assms(1) have v: "valid_state st" by (simp add: validate_valid)
  have same: "j_items marked = j_items ?b" "j_attempts marked = j_attempts ?b"
    using assms(5) by (auto simp: stamped_def)
  have b: "valid_state ?b" using begun_is_valid [OF v assms(2,3)] by simp
  obtain now where m: "marked = ?b\<lparr>j_sequence := j_sequence ?b + 1, j_updated := now\<rparr>"
    using assms(5) by (auto simp: stamped_def)
  have "header_ok marked"
    using b assms(6) unfolding m by (intro header_ok_stamped) (simp_all add: valid_state_def)
  then have marked: "valid_state marked" using b by (simp add: valid_state_def same)
  have flying: "chunk_flying ?n is marked" using begun_flying [OF v assms(2)] unfolding chunk_flying_def same by blast
  have "?n \<notin> set (map a_id (j_attempts st))" using v by (simp add: valid_state_def del: set_map)
  then have found: "find_attempt ?n (j_attempts marked) \<noteq> None"
    by (simp add: same begin_attempt_def Let_def find_attempt_append find_attempt_None)
  have scans: "map i_scan_id (j_items marked) = map i_scan_id (j_items st)"
    using assms(2) unfolding same begin_attempt_def Let_def
    by (simp add: startable_def set_items_map)
  have "i_scan_id it \<in> i_scan_id ` set (j_items st)" if "it \<in> set (j_items marked)" for it
    using arg_cong [OF scans, of set] that by auto
  then have "i_scan_id it \<noteq> Some s"
    if "outcome_scan (outcome_of_reply secrets retries reply) = Some s" "it \<in> set (j_items marked)" for s it
    using that assms(7) by fastforce
  then show ?thesis
    unfolding validate_valid by (rule ended_is_valid [OF marked flying found assms(4) refl])
qed

lemma ended_attempt_is_valid_witness:
  "let now = ''2026-10-14T10:11:12.345Z''; st = begin_attempt [0] now (new_state sample_job now)
   in validate (end_attempt [] 1 [0] (outcome_of_reply [] 0 (Ok \<lparr>rc_scan_id = ''0a1b2c3d-0a1b-0a1b-0a1b-0a1b2c3d4e5f'', rc_report_id = None\<rparr>))
        None now (st\<lparr>j_sequence := j_sequence st + 1, j_updated := now\<rparr>)) = Ok ()"
proof -
  let ?now = "''2026-10-14T10:11:12.345Z''"
  let ?b = "begin_attempt [0] ?now (new_state sample_job ?now)"
  have "stamped ?b (?b\<lparr>j_sequence := j_sequence ?b + 1, j_updated := ?now\<rparr>)" unfolding stamped_def by blast
  then show ?thesis
    using ended_attempt_is_valid [of "new_state sample_job ?now" "[0]" ?now ?now
        "?b\<lparr>j_sequence := j_sequence ?b + 1, j_updated := ?now\<rparr>" "[]" 0
        "Ok \<lparr>rc_scan_id = ''0a1b2c3d-0a1b-0a1b-0a1b-0a1b2c3d4e5f'', rc_report_id = None\<rparr>" None]
    by (simp add: validate_valid sample_valid sample_startable sample_stamp sample_items new_item_def)
qed

section \<open>The results of a poll\<close>

text \<open>A row that may be recorded: its prompt was submitted under the scan id of the result.\<close>

definition recordable :: "job_state \<Rightarrow> nat \<times> item_result \<Rightarrow> bool" where
  "recordable st row = (case row of (i, r) \<Rightarrow> i < length (j_items st)
     \<and> i_status (j_items st ! i) = Submitted \<and> i_scan_id (j_items st ! i) = Some (r_scan_id r))"

lemma apply_row_valid:
  assumes "valid_state st" "recordable st (i, r)"
  shows "valid_state (apply_row st (i, r))"
proof -
  let ?it = "(j_items st ! i)\<lparr>i_status := (if r_action r = ActionFailed then Failed else Complete), i_result := Some r\<rparr>"
  let ?its = "(j_items st)[i := ?it]"
  have st': "apply_row st (i, r) = st\<lparr>j_attempts := j_attempts st, j_items := ?its\<rparr>" by (simp add: apply_row_def)
  from assms(2) have i: "i < length (j_items st)" "i_status (j_items st ! i) = Submitted"
      "i_scan_id (j_items st ! i) = Some (r_scan_id r)" by (simp_all add: recordable_def)
  have ok: "item_ok (j_attempts st) (j_items st ! i)" using assms(1) i(1) by (simp add: valid_state_def)
  have "header_ok (apply_row st (i, r))"
    using assms(1) header_ok_items [of ?its st "j_attempts st"] by (simp add: st' valid_state_def)
  moreover have "map i_index ?its = [0..<length ?its]"
    using assms(1) map_update_same [of i_index ?it "j_items st" i] by (simp add: valid_state_def)
  moreover have "item_ok (j_attempts st) it" if "it \<in> set ?its" for it
  proof -
    from that set_update_subset_insert [of "j_items st" i ?it] have "it = ?it \<or> it \<in> set (j_items st)" by auto
    moreover have "item_shape ?it" using ok i by (auto simp: item_ok_split item_shape_def was_submitted_def is_terminal_def)
    moreover have "item_linked (j_attempts st) ?it" using ok i by (auto simp: item_ok_split item_linked_def)
    ultimately show ?thesis using assms(1) by (auto simp: item_ok_split valid_state_def)
  qed
  moreover have "receipts_ok ?its"
    by (rule receipts_ok_map [of _ "j_items st"])
       (use assms(1) map_update_same [of "\<lambda>it. (i_scan_id it, i_receipt it)" ?it "j_items st" i] in \<open>simp_all add: valid_state_def\<close>)
  ultimately show ?thesis using assms(1) by (simp add: valid_state_def st')
qed

lemma rows_valid:
  "valid_state st \<Longrightarrow> distinct (map fst rows) \<Longrightarrow> \<forall>row \<in> set rows. recordable st row \<Longrightarrow>
   valid_state (foldl apply_row st rows)"
proof (induction rows arbitrary: st)
  case (Cons row rows)
  obtain i r where row: "row = (i, r)" by force
  have "recordable (apply_row st row) row'" if "row' \<in> set rows" for row'
    using that Cons.prems(2,3) by (force simp: row recordable_def apply_row_def nth_list_update split: prod.splits)
  then show ?case using Cons.IH [OF apply_row_valid] Cons.prems by (simp add: row)
qed simp

text \<open>recording the results of a poll keeps the state valid: for any subset of the prompts that
  wait for the scan id and any response, of rows or of reports.\<close>

theorem recorded_results_are_valid:
  assumes "validate st = Ok ()" "distinct u" "set u \<subseteq> set (unresolved_of st scan_id)"
  shows "validate (foldl apply_row st (resolved (correlate_rows rs scan_id receipt u secrets))) = Ok ()
    \<and> validate (foldl apply_row st (resolved (correlate_reports js reports scan_id expected u secrets))) = Ok ()"
proof -
  from assms(1) have v: "valid_state st" by (simp add: validate_valid)
  have idx: "i_index (j_items st ! i) = i" if "i < length (j_items st)" for i
    using v that by (metis add_0 length_map map_nth nth_map nth_upt valid_state_def length_upt minus_nat.diff_0)
  have u: "i < length (j_items st) \<and> i_status (j_items st ! i) = Submitted \<and> i_scan_id (j_items st ! i) = Some scan_id"
    if "i \<in> set u" for i
    using assms(3) that idx by (auto simp: unresolved_of_def in_set_conv_nth dest!: subsetD)
  have "valid_state (foldl apply_row st rows)" if "\<exists>u'. fits scan_id u u' rows" for rows
  proof (rule rows_valid [OF v])
    from that show "distinct (map fst rows)" by (auto simp: fits_def)
    from that u show "\<forall>row \<in> set rows. recordable st row" by (force simp: fits_def row_ok_def recordable_def)
  qed
  with correlate_rows_fits [OF assms(2)] correlate_reports_fits [OF assms(2)]
  show ?thesis
    unfolding validate_valid by blast+
qed

text \<open>The sample job with its first prompt submitted.\<close>

definition sample_sent :: job_state where
  "sample_sent = (let now = ''2026-10-14T10:11:12.345Z'' in
     end_attempt [] 1 [0] (AcceptedOutcome ''0a1b2c3d-0a1b-0a1b-0a1b-0a1b2c3d4e5f'' None) None now (begin_attempt [0] now (new_state sample_job now)))"

lemma sample_sent_valid: "valid_state sample_sent"
proof -
  let ?now = "''2026-10-14T10:11:12.345Z''"
  let ?b = "begin_attempt [0] ?now (new_state sample_job ?now)"
  have out: "outcome_of_reply [] 0 (Ok \<lparr>rc_scan_id = ''0a1b2c3d-0a1b-0a1b-0a1b-0a1b2c3d4e5f'', rc_report_id = None\<rparr>) = AcceptedOutcome ''0a1b2c3d-0a1b-0a1b-0a1b-0a1b2c3d4e5f'' None"
    by code_simp
  have "valid_state (end_attempt [] 1 [0] (AcceptedOutcome ''0a1b2c3d-0a1b-0a1b-0a1b-0a1b2c3d4e5f'' None) None ?now ?b)"
    using begun_is_valid [OF sample_valid sample_startable sample_stamp] begun_flying [OF sample_valid sample_startable]
    by (intro ended_is_valid [OF _ _ _ sample_stamp out [symmetric]])
       (auto simp: sample_items begin_attempt_def Let_def new_item_def)
  then show ?thesis by (simp add: sample_sent_def Let_def)
qed

lemma recorded_results_are_valid_witness:
  "validate (foldl apply_row sample_sent (resolved (correlate_rows
     [\<lparr>row_req_id = Some (Whole 0), row_status = Some ''failed'', row_scan_id = None, row_result = None,
       row_ext_report = None\<rparr>] ''0a1b2c3d-0a1b-0a1b-0a1b-0a1b2c3d4e5f'' None [0] []))) = Ok ()"
proof -
  have "0 \<in> set (unresolved_of sample_sent ''0a1b2c3d-0a1b-0a1b-0a1b-0a1b2c3d4e5f'')"
    by (simp add: sample_sent_def Let_def end_attempt_def begin_attempt_def sample_items new_item_def unresolved_of_def)
  then show ?thesis
    using recorded_results_are_valid [of sample_sent "[0]" "''0a1b2c3d-0a1b-0a1b-0a1b-0a1b2c3d4e5f''"] by (simp add: validate_valid sample_sent_valid)
qed

section \<open>Attempts whose outcome is unknown\<close>

lemma settle_attempt_fields [simp]:
  "a_id (settle_attempt now a) = a_id a" "a_outcome (settle_attempt now a) \<noteq> InFlight"
  "a_outcome a \<noteq> InFlight \<Longrightarrow> settle_attempt now a = a"
  by (simp_all add: settle_attempt_def)

lemma find_attempt_settled:
  "find_attempt k (foldl (\<lambda>as n. update_attempt n (settle_attempt now) as) as ns) =
   map_option (\<lambda>a. if k \<in> set ns then settle_attempt now a else a) (find_attempt k as)"
proof (induction ns arbitrary: as)
  case (Cons n ns)
  then show ?case
    by (cases "find_attempt k as") (auto simp: find_attempt_update)
qed (simp add: option.map_ident)

lemma settled_attempts:
  fixes as :: "attempt list" and now :: str and ns :: "nat list"
  defines "bs \<equiv> foldl (\<lambda>as n. update_attempt n (settle_attempt now) as) as ns"
  shows "map a_id bs = map a_id as" "flying bs \<le> flying as"
    "\<forall>b \<in> set bs. \<exists>a \<in> set as. b = a \<or> b = settle_attempt now a"
proof -
  have *: "map a_id (foldl (\<lambda>as n. update_attempt n (settle_attempt now) as) cs ns) = map a_id cs
      \<and> flying (foldl (\<lambda>as n. update_attempt n (settle_attempt now) as) cs ns) \<le> flying cs
      \<and> (\<forall>b \<in> set (foldl (\<lambda>as n. update_attempt n (settle_attempt now) as) cs ns). \<exists>a \<in> set cs. b = a \<or> b = settle_attempt now a)"
    for cs
  proof (induction ns arbitrary: cs)
    case (Cons n ns)
    let ?ds = "update_attempt n (settle_attempt now) cs"
    have "map a_id ?ds = map a_id cs" by (rule map_update_attempt) simp
    moreover have "flying ?ds \<le> flying cs" by (rule flying_update) simp
    moreover have "\<exists>a \<in> set cs. b = a \<or> b = settle_attempt now a" if "d \<in> set ?ds" "b = d \<or> b = settle_attempt now d" for b d
      using set_update_attempt [OF that(1)] that(2) by auto
    ultimately show ?case using Cons.IH [of ?ds] by fastforce
  qed auto
  show "map a_id bs = map a_id as" "flying bs \<le> flying as"
    "\<forall>b \<in> set bs. \<exists>a \<in> set as. b = a \<or> b = settle_attempt now a"
    using * [of as] unfolding bs_def by blast+
qed

lemma settled_attempt_ok: "attempt_ok n a \<Longrightarrow> is_stamp now \<Longrightarrow> attempt_ok n (settle_attempt now a)"
  by (auto simp: attempt_ok_def settle_attempt_def)

text \<open>C32: a resume settles every submission that was cut off: no prompt is left submitting, those that
  were become ambiguous and no other prompt is touched, and the state stays valid.\<close>

theorem settled_state_is_valid:
  assumes "validate st = Ok ()" "is_stamp now"
  shows "validate (snd (settle_submitting now st)) = Ok ()
    \<and> status_count Submitting (snd (settle_submitting now st)) = 0
    \<and> map (\<lambda>it. it\<lparr>i_status := Pending\<rparr>) (j_items (snd (settle_submitting now st)))
        = map (\<lambda>it. it\<lparr>i_status := Pending\<rparr>) (j_items st)
    \<and> (\<forall>i < length (j_items st). i_status (j_items (snd (settle_submitting now st)) ! i) =
         (if i_status (j_items st ! i) = Submitting then Ambiguous else i_status (j_items st ! i)))"
proof -
  from assms(1) have v: "valid_state st" by (simp add: validate_valid)
  define ns where "ns = submitting_attempts (j_items st)"
  define bs where "bs = foldl (\<lambda>as n. update_attempt n (settle_attempt now) as) (j_attempts st) ns"
  let ?its = "map settle_item (j_items st)"
  have st': "snd (settle_submitting now st) = st\<lparr>j_attempts := bs, j_items := ?its\<rparr>"
    by (simp add: settle_submitting_def Let_def ns_def bs_def)
  note kept = settled_attempts [where now = now and as = "j_attempts st" and ns = ns, folded bs_def]
  have fields: "i_index (settle_item it) = i_index it" "i_scan_id (settle_item it) = i_scan_id it"
    "i_receipt (settle_item it) = i_receipt it" "i_attempt (settle_item it) = i_attempt it" for it
    by (simp_all add: settle_item_def)
  have "header_ok (snd (settle_submitting now st))"
    using v header_ok_items [of ?its st bs] by (simp add: st' valid_state_def)
  moreover have "map i_index ?its = [0..<length ?its]" using v by (simp add: valid_state_def comp_def fields)
  moreover have "item_ok bs (settle_item it)" if it: "it \<in> set (j_items st)" for it
  proof -
    have ok: "item_ok (j_attempts st) it" using v it by (simp add: valid_state_def)
    then have "item_shape (settle_item it)"
      by (auto simp: item_ok_split item_shape_def settle_item_def was_submitted_def is_terminal_def)
    moreover have "item_linked bs (settle_item it)"
      unfolding item_linked_def
    proof (intro allI impI)
      fix k assume "i_attempt (settle_item it) = Some k"
      then have k: "i_attempt it = Some k" by (simp add: fields)
      with ok obtain a where a: "find_attempt k (j_attempts st) = Some a" "a_outcome a = InFlight \<longleftrightarrow> i_status it = Submitting"
        by (auto simp: item_ok_def)
      have "k \<in> set ns" if "i_status it = Submitting"
        using that k it by (force simp: ns_def submitting_attempts_def)
      with a show "\<exists>b. find_attempt k bs = Some b \<and> (a_outcome b = InFlight) = (i_status (settle_item it) = Submitting)"
        unfolding bs_def find_attempt_settled by (auto simp: settle_item_def)
    qed
    ultimately show ?thesis by (simp add: item_ok_split)
  qed
  moreover have "map a_id bs = [1..<length bs + 1]"
    using kept(1) v by (metis length_map valid_state_def)
  moreover have "attempt_ok (length ?its) b" if "b \<in> set bs" for b
    using kept(3) that v assms(2) by (auto simp: valid_state_def intro: settled_attempt_ok)
  moreover have "flying bs \<le> 1" using kept(2) v by (simp add: valid_state_def)
  moreover have "receipts_ok ?its"
    by (rule receipts_ok_map [of _ "j_items st"]) (use v in \<open>simp_all add: fields comp_def valid_state_def\<close>)
  ultimately have "valid_state (snd (settle_submitting now st))" by (simp add: valid_state_def st')
  moreover have "status_count Submitting (snd (settle_submitting now st)) = 0"
    by (auto simp: st' status_count_def settle_item_def filter_empty_conv)
  moreover have "(settle_item it)\<lparr>i_status := Pending\<rparr> = it\<lparr>i_status := Pending\<rparr>" for it
    by (simp add: settle_item_def)
  ultimately show ?thesis by (simp add: validate_valid st' comp_def) (simp add: settle_item_def)
qed

lemma settled_state_is_valid_witness:
  "let now = ''2026-10-14T10:11:12.345Z''; st = begin_attempt [0] now (new_state sample_job now)
   in validate (snd (settle_submitting now st)) = Ok () \<and> status_count Submitting (snd (settle_submitting now st)) = 0"
  using settled_state_is_valid [OF _ sample_stamp] begun_is_valid [OF sample_valid sample_startable sample_stamp]
  by (simp add: validate_valid Let_def)

end
