(* ===== verification/ClockCorrect.thy ===== *)
theory ClockCorrect
  imports Clock BulkTypes
begin

text \<open>
  The calendar of \<open>civil_from_days\<close>, which counts years from March in cycles of 400, is the
  Gregorian calendar; the stamps and job ids made from it have the shape every reader demands.
\<close>

section \<open>The Gregorian calendar\<close>

definition leap_year :: "int \<Rightarrow> bool" where
  "leap_year y = (y mod 4 = 0 \<and> (y mod 100 \<noteq> 0 \<or> y mod 400 = 0))"

definition month_days :: "int \<Rightarrow> nat \<Rightarrow> nat" where
  "month_days y m = (if m = 2 then (if leap_year y then 29 else 28) else if m \<in> {4, 6, 9, 11} then 30 else 31)"

text \<open>The days from 1970-01-01 to the first of January of a year, and to a date.\<close>

definition days_before_year :: "int \<Rightarrow> int" where
  "days_before_year y = 365 * (y - 1970) + ((y - 1) div 4 - (y - 1) div 100 + (y - 1) div 400) - 477"

definition day_number :: "int \<Rightarrow> nat \<Rightarrow> nat \<Rightarrow> int" where
  "day_number y m d = days_before_year y + int (\<Sum>k \<in> {1..<m}. month_days y k) + int d - 1"

section \<open>The year of the era\<close>

definition year_start :: "int \<Rightarrow> int" where
  "year_start y = 365 * y + y div 4 - y div 100"

definition year_scale :: "int \<Rightarrow> int" where
  "year_scale d = d - d div 1460 + d div 36524 - d div 146096"

lemma scale_step: "0 \<le> d \<Longrightarrow> d < 146096 \<Longrightarrow> year_scale d \<le> year_scale (d + 1)"
proof -
  assume d: "0 \<le> d" "d < 146096"
  have a: "(d + 1) div 1460 \<le> d div 1460 + 1" "d div 36524 \<le> (d + 1) div 36524"
    by (linarith, simp add: zdiv_mono1)
  show ?thesis
  proof (cases "d = 146095")
    case True
    show ?thesis unfolding True year_scale_def by code_simp
  next
    case False
    with d have "d div 146096 = 0" "(d + 1) div 146096 = 0" by (simp_all add: div_pos_pos_trivial)
    with a show ?thesis unfolding year_scale_def by linarith
  qed
qed

lemma scale_mono: "0 \<le> a \<Longrightarrow> a \<le> b \<Longrightarrow> b \<le> 146096 \<Longrightarrow> year_scale a \<le> year_scale b"
proof (induction "nat (b - a)" arbitrary: b)
  case (Suc n)
  then have "year_scale a \<le> year_scale (b - 1)" by (intro Suc.hyps(1)) auto
  also have "\<dots> \<le> year_scale b" using scale_step [of "b - 1"] Suc by auto
  finally show ?case .
qed auto

lemma scale_of_starts:
  "list_all (\<lambda>y. 365 * y \<le> year_scale (year_start y) \<and> year_scale (year_start (y + 1) - 1) < 365 * (y + 1)) [0..399]"
  by code_simp

lemma year_exists: "0 \<le> d \<Longrightarrow> d < year_start (int n) \<Longrightarrow> \<exists>y. 0 \<le> y \<and> y < int n \<and> year_start y \<le> d \<and> d < year_start (y + 1)"
proof (induction n)
  case (Suc n)
  show ?case
  proof (cases "d < year_start (int n)")
    case True
    with Suc show ?thesis by fastforce
  next
    case False
    with Suc.prems show ?thesis by (intro exI [of _ "int n"]) (simp add: add.commute)
  qed
qed (simp add: year_start_def)

definition year_holds :: "int \<Rightarrow> int \<Rightarrow> bool" where
  "year_holds y d = (0 \<le> y \<and> y < 400 \<and> year_start y \<le> d \<and> (d < year_start (y + 1) \<or> y = 399 \<and> d = 146096))"

lemma year_of_scale:
  assumes "0 \<le> d" "d < 146097"
  shows "year_holds (year_scale d div 365) d"
proof (cases "d = 146096")
  case True
  show ?thesis unfolding True year_holds_def year_scale_def year_start_def by code_simp
next
  case False
  have top: "year_start 400 = 146096" by (simp add: year_start_def)
  with year_exists [of d 400] assms False obtain y where
    y: "0 \<le> y" "y < 400" "year_start y \<le> d" "d < year_start (y + 1)" by auto
  have "y \<in> set [0..399]" using y by simp
  then have s: "365 * y \<le> year_scale (year_start y)" "year_scale (year_start (y + 1) - 1) < 365 * (y + 1)"
    using scale_of_starts unfolding list_all_iff by blast+
  have pos: "0 \<le> year_start y" using y(1) unfolding year_start_def by linarith
  have le: "year_start (y + 1) \<le> 146096"
  proof (cases "y = 399")
    case True
    then show ?thesis using top by simp
  next
    case False
    with y(2) have "y \<le> 398" by linarith
    then have "(y + 1) div 4 \<le> 99" "0 \<le> (y + 1) div 100" using y(1,2) by linarith+
    moreover have "365 * (y + 1) + a - b \<le> 146096" if "a \<le> 99" "0 \<le> b" for a b
      using that \<open>y \<le> 398\<close> by (simp add: distrib_left)
    ultimately show ?thesis unfolding year_start_def by blast
  qed
  have "365 * y \<le> year_scale d"
    using s(1) scale_mono [OF pos y(3)] assms(2) by linarith
  moreover have "year_scale d < 365 * (y + 1)"
    using s(2) scale_mono [OF assms(1), of "year_start (y + 1) - 1"] y(4) le by linarith
  ultimately have "year_scale d div 365 = y"
    by (intro int_div_pos_eq [of _ 365 y "year_scale d - 365 * y"]) (simp_all add: distrib_left)
  with y show ?thesis by (simp add: year_holds_def)
qed

section \<open>The day of the year\<close>

text \<open>The year that starts in March \<open>y\<close> and its day \<open>doy\<close>, from the days \<open>z\<close> since 0000-03-01.\<close>

lemma year_holds_doy:
  assumes "year_holds y d"
  shows "0 \<le> d - year_start y" "d - year_start y \<le> 365"
    "d - year_start y = 365 \<Longrightarrow> leap_year (y + 1)"
proof -
  have quarters: "(y + 1) div 4 \<le> y div 4 + 1" by linarith
  have centuries: "y div 100 \<le> (y + 1) div 100" by (rule zdiv_mono1) simp_all
  have next_start: "year_start (y + 1) = year_start y + 365 + ((y + 1) div 4 - y div 4) - ((y + 1) div 100 - y div 100)"
    unfolding year_start_def by (simp add: distrib_left)
  have step: "year_start (y + 1) \<le> year_start y + 366" using quarters centuries next_start by linarith
  show "0 \<le> d - year_start y" "d - year_start y \<le> 365"
    using assms step by (auto simp: year_holds_def year_start_def)
  assume "d - year_start y = 365"
  show "leap_year (y + 1)"
  proof (cases "y = 399")
    case True
    then show ?thesis by (simp add: leap_year_def)
  next
    case False
    with assms \<open>d - year_start y = 365\<close> have "year_start y + 366 \<le> year_start (y + 1)" "0 \<le> y" "y < 399"
      by (auto simp: year_holds_def)
    then have q: "(y + 1) div 4 = y div 4 + 1" and c: "(y + 1) div 100 = y div 100"
      using quarters centuries next_start by linarith+
    have four: "r' = 0" if "q * 4 + r = y" "(q + 1) * 4 + r' = y + 1" "r < 4" "0 \<le> r'" for q r r'
      using that by (simp add: distrib_right)
    have hundred: "r' \<noteq> 0" if "q * 100 + r = y" "q * 100 + r' = y + 1" "0 \<le> r" for q r r'
      using that by linarith
    have "(y + 1) mod 4 = 0"
      using four [OF div_mult_mod_eq div_mult_mod_eq [of "y + 1" 4, unfolded q]] by simp
    moreover have "(y + 1) mod 100 \<noteq> 0"
      using hundred [OF div_mult_mod_eq div_mult_mod_eq [of "y + 1" 100, unfolded c]] by simp
    ultimately show ?thesis by (simp add: leap_year_def)
  qed
qed

section \<open>The date\<close>

lemma div_of_pred: "0 < k \<Longrightarrow> y div k - (y - 1) div k = (if y mod k = 0 then 1 else 0)" for y k :: int
proof -
  assume k: "0 < k"
  define q r where "q = y div k" "r = y mod k"
  have y: "y = k * q + r" by (simp add: q_r_def)
  have r: "0 \<le> r" "r < k" using k by (simp_all add: q_r_def)
  have "(y - 1) div k = (if r = 0 then q - 1 else q)"
  proof (cases "r = 0")
    case True
    then show ?thesis using k y by (simp, intro int_div_pos_eq [of _ k _ "k - 1"]) (simp_all add: right_diff_distrib)
  next
    case False
    then show ?thesis using k r y by (simp, intro int_div_pos_eq [of _ k _ "r - 1"]) simp_all
  qed
  then show ?thesis by (simp add: q_r_def)
qed

lemma year_length: "days_before_year (y + 1) - days_before_year y = 365 + (if leap_year y then 1 else 0)"
proof -
  have "days_before_year (y + 1) - days_before_year y = 365 + (y div 4 - (y - 1) div 4) - (y div 100 - (y - 1) div 100)
      + (y div 400 - (y - 1) div 400)"
    by (simp add: days_before_year_def)
  also have "\<dots> = 365 + (if y mod 4 = 0 then 1 else 0) - (if y mod 100 = 0 then 1 else 0) + (if y mod 400 = 0 then 1 else 0)"
    by (simp add: div_of_pred)
  also have "\<dots> = 365 + (if leap_year y then 1 else 0)"
  proof -
    have "y mod 4 = 0" if "y mod 100 = 0"
      using dvd_trans [of 4 100 y] that by (simp only: mod_eq_0_iff_dvd) simp
    moreover have "y mod 100 = 0" if "y mod 400 = 0"
      using dvd_trans [of 100 400 y] that by (simp only: mod_eq_0_iff_dvd) simp
    ultimately show ?thesis
      unfolding leap_year_def
      by (cases "y mod 4 = 0"; cases "y mod 100 = 0"; cases "y mod 400 = 0"; simp only: if_True if_False simp_thms)
  qed
  finally show ?thesis .
qed

text \<open>The first of March.\<close>

lemma march_first: "0 \<le> yoe \<Longrightarrow> yoe < 400 \<Longrightarrow> days_before_year (yoe + 400 * era + 1) - 306 = 146097 * era + year_start yoe - 719468"
proof -
  have "(yoe + 400 * era) div 4 = yoe div 4 + 100 * era" "(yoe + 400 * era) div 100 = yoe div 100 + 4 * era"
    using div_mult_self4 [of 4 "100 * era" yoe] div_mult_self4 [of 100 "4 * era" yoe] by (simp_all add: add.commute)
  moreover assume "0 \<le> yoe" "yoe < 400"
  then have "(yoe + 400 * era) div 400 = era" by simp
  ultimately show ?thesis
    unfolding days_before_year_def year_start_def by (simp add: algebra_simps) 
qed

text \<open>The days before a month that starts \<open>mp\<close> months after March, and its length.\<close>

definition march_month :: "int \<Rightarrow> nat" where
  "march_month mp = nat (if mp < 10 then mp + 3 else mp - 9)"

lemma months_before:
  "mp \<in> set [0..9] \<Longrightarrow> int (\<Sum>k \<in> {1..<march_month mp}. month_days y k) = 59 + (if leap_year y then 1 else 0) + (153 * mp + 2) div 5"
  "mp \<in> set [10..11] \<Longrightarrow> int (\<Sum>k \<in> {1..<march_month mp}. month_days y k) = (153 * mp + 2) div 5 - 306"
proof -
  have sums: "(\<Sum>k \<in> {1..<Suc 0}. f k) = 0" "(\<Sum>k \<in> {1..<Suc (Suc n)}. f k) = (\<Sum>k \<in> {1..<Suc n}. f k) + f (Suc n)"
    for f :: "nat \<Rightarrow> nat" and n by (simp_all add: sum.atLeastLessThan_Suc)
  show "mp \<in> set [0..9] \<Longrightarrow> int (\<Sum>k \<in> {1..<march_month mp}. month_days y k) = 59 + (if leap_year y then 1 else 0) + (153 * mp + 2) div 5"
    by (simp add: upto_rec1, elim disjE; simp add: march_month_def eval_nat_numeral sums month_days_def)
  show "mp \<in> set [10..11] \<Longrightarrow> int (\<Sum>k \<in> {1..<march_month mp}. month_days y k) = (153 * mp + 2) div 5 - 306"
    by (simp add: upto_rec1, elim disjE; simp add: march_month_def eval_nat_numeral sums month_days_def)
qed

lemma days_of_year:
  "list_all (\<lambda>doy. let mp = (5 * doy + 2) div 153; day = doy - (153 * mp + 2) div 5 + 1
     in 0 \<le> mp \<and> mp \<le> 11 \<and> 1 \<le> day
        \<and> day \<le> (if march_month mp = 2 then (if doy = 365 then 29 else 28)
            else if march_month mp \<in> {4, 6, 9, 11} then 30 else 31)) [0..365]"
  by code_simp

lemma civil_from_days_year:
  fixes days :: int
  defines "z \<equiv> days + 719468"
  defines "doe \<equiv> z mod 146097"
  defines "yoe \<equiv> year_scale doe div 365"
  defines "doy \<equiv> doe - year_start yoe"
  defines "mp \<equiv> (5 * doy + 2) div 153"
  shows "civil_from_days days = (yoe + z div 146097 * 400 + (if march_month mp \<le> 2 then 1 else 0),
    march_month mp, nat (doy - (153 * mp + 2) div 5 + 1))"
  unfolding civil_from_days_def Let_def march_month_def assms year_scale_def year_start_def
  by (simp only: nat_le_iff of_nat_numeral)

lemma civil_gregorian:
  "case civil_from_days days of (y, m, d) \<Rightarrow>
     1 \<le> m \<and> m \<le> 12 \<and> 1 \<le> d \<and> d \<le> month_days y m \<and> day_number y m d = days"
proof -
  define z where "z = days + 719468"
  define doe where "doe = z mod 146097"
  define yoe where "yoe = year_scale doe div 365"
  define doy where "doy = doe - year_start yoe"
  define mp where "mp = (5 * doy + 2) div 153"
  define day where "day = doy - (153 * mp + 2) div 5 + 1"
  define era where "era = z div 146097"
  define Y where "Y = yoe + 400 * era"
  have civil: "civil_from_days days = (Y + (if march_month mp \<le> 2 then 1 else 0), march_month mp, nat day)"
    unfolding civil_from_days_year by (simp add: z_def doe_def yoe_def doy_def mp_def day_def era_def Y_def)
  have "year_holds yoe doe" unfolding yoe_def by (rule year_of_scale) (simp_all add: doe_def)
  then have doy: "0 \<le> doy" "doy \<le> 365" "doy = 365 \<Longrightarrow> leap_year (yoe + 1)" and yoe: "0 \<le> yoe" "yoe < 400"
    using year_holds_doy [of yoe doe] by (simp_all add: doy_def year_holds_def)
  have leap: "leap_year (Y + 1) = leap_year (yoe + 1)"
  proof -
    have "(Y + 1) mod k = (yoe + 1) mod k" if "400 = k * n" for k n
      using mod_mult_self2 [of "yoe + 1" k "n * era"] that by (simp add: Y_def algebra_simps)
    from this [of 4 100] this [of 100 4] this [of 400 1] show ?thesis by (simp add: leap_year_def)
  qed
  from doy have "doy \<in> set [0..365]" by simp
  with days_of_year have md: "0 \<le> mp" "mp \<le> 11" "1 \<le> day"
    "day \<le> (if march_month mp = 2 then (if doy = 365 then 29 else 28)
            else if march_month mp \<in> {4, 6, 9, 11} then 30 else 31)"
    unfolding list_all_iff Let_def mp_def day_def by blast+
  have days: "days = 146097 * era + year_start yoe + doy - 719468"
    unfolding doy_def doe_def era_def using div_mult_mod_eq [of z 146097] by (simp add: z_def)
  have march: "days_before_year (Y + 1) - 306 + doy = days"
    using march_first [OF yoe, of era] days by (simp add: Y_def)
  show ?thesis
  proof (cases "mp < 10")
    case True
    then have "mp \<in> set [0..9]" "\<not> march_month mp \<le> 2" "march_month mp \<le> 12" using md by (auto simp: march_month_def)
    moreover from this months_before(1) year_length [of Y] march
    have "day_number Y (march_month mp) (nat day) = days"
      using md(3) by (simp add: day_number_def day_def)
    ultimately show ?thesis using md by (auto simp: civil month_days_def)
  next
    case False
    with md have mp: "mp \<in> set [10..11]" "march_month mp \<le> 2" "1 \<le> march_month mp" by (auto simp: march_month_def)
    from months_before(2) [OF mp(1), of "Y + 1"] march
    have "day_number (Y + 1) (march_month mp) (nat day) = days"
      using md(3) by (simp add: day_number_def day_def)
    with mp md doy leap show ?thesis by (auto simp: civil month_days_def split: if_splits)
  qed
qed

text \<open>C35: \<open>civil_from_days\<close> is the Gregorian calendar: for every day, before and after 1970, the
  year, month and day it names are a date of the calendar, and that date lies exactly that
  many days from 1970-01-01.\<close>

theorem civil_date_correct:
  "case civil_from_days days of (y, m, d) \<Rightarrow>
     1 \<le> m \<and> m \<le> 12 \<and> 1 \<le> d \<and> d \<le> month_days y m \<and> day_number y m d = days"
  by (rule civil_gregorian)

end
