(* ===== verification/Names.thy ===== *)
theory Names
  imports ClockCorrect Checkpoint JobLock
begin

text \<open>
  The names and small texts the program writes and later reads back: time stamps, job ids,
  temporary files, the holder record of a lock, paths, and the text shown on a terminal.
\<close>

section \<open>Time stamps\<close>

lemma year_mono: "y \<le> y' \<Longrightarrow> days_before_year y \<le> days_before_year y'"
proof (induction y' rule: int_ge_induct)
  case (step y')
  then show ?case using year_length [of y'] by (simp split: if_splits)
qed simp

lemma civil_bounds:
  assumes "civil_from_days days = (y, m, d)" "0 \<le> days" "days < 2932897"
  shows "y < 10000" "m \<le> 12" "d \<le> 31"
proof -
  from civil_gregorian [of days] assms(1) have c: "1 \<le> m" "m \<le> 12" "1 \<le> d" "d \<le> month_days y m" "day_number y m d = days"
    by simp_all
  then show "m \<le> 12" "d \<le> 31" by (simp_all add: month_days_def split: if_splits)
  show "y < 10000"
  proof (rule ccontr)
    assume "\<not> y < 10000"
    then have "days_before_year 10000 \<le> days_before_year y" by (intro year_mono) simp
    moreover have "days_before_year y \<le> days" using c(3,5) unfolding day_number_def by linarith
    moreover have "days_before_year 10000 = 2932897" by (simp add: days_before_year_def)
    ultimately show False using assms(3) by simp
  qed
qed

text \<open>\<open>at_second n\<close>: instants before the year 10000, with their milliseconds.\<close>

definition four_digit_year :: "instant \<Rightarrow> bool" where
  "four_digit_year t = (secs t < 253402300800 \<and> subsec_millis t < 1000)"

lemma stamp_parts:
  assumes "four_digit_year t"
  obtains Y M D h m s f where "iso_timestamp t = Y @ ''-'' @ M @ ''-'' @ D @ ''T'' @ h @ '':'' @ m @ '':'' @ s @ ''.'' @ f @ ''Z''"
    "list_all is_digit (Y @ M @ D @ h @ m @ s @ f)" "length Y = 4" "length M = 2" "length D = 2"
    "length h = 2" "length m = 2" "length s = 2" "length f = 3"
proof -
  obtain y mo d where c: "civil_from_days (int (secs t div 86400)) = (y, mo, d)" by (metis prod_cases3)
  have "secs t div 86400 < 2932897" using assms by (simp add: four_digit_year_def less_mult_imp_div_less)
  with civil_bounds [OF c] have b: "nat y < 10 ^ 4" "mo < 10 ^ 2" "d < 10 ^ 2" by auto
  have r: "secs t mod 86400 div 3600 < 10 ^ 2" "secs t mod 86400 mod 3600 div 60 < 10 ^ 2" "secs t mod 86400 mod 60 < 10 ^ 2"
    by (auto simp: less_mult_imp_div_less intro: order_less_trans [OF mod_less_divisor])
  have f: "subsec_millis t < 10 ^ 3" using assms by (simp add: four_digit_year_def)
  show thesis
    by (rule that [of "padded 4 (nat y)" "padded 2 mo" "padded 2 d" "padded 2 (secs t mod 86400 div 3600)"
          "padded 2 (secs t mod 86400 mod 3600 div 60)" "padded 2 (secs t mod 86400 mod 60)" "padded 3 (subsec_millis t)"])
       (use b r f in \<open>simp_all only: length_padded list_all_append padded_digits\<close>, simp_all add: iso_timestamp_def Let_def c)
qed

lemma digits_4: "length s = 4 \<Longrightarrow> list_all P s \<Longrightarrow> \<exists>a b c d. s = [a, b, c, d] \<and> P a \<and> P b \<and> P c \<and> P d"
  by (auto simp: length_Suc_conv eval_nat_numeral)

lemma digits_2: "length s = 2 \<Longrightarrow> list_all P s \<Longrightarrow> \<exists>a b. s = [a, b] \<and> P a \<and> P b"
  by (auto simp: length_Suc_conv eval_nat_numeral)

lemma digits_3: "length s = 3 \<Longrightarrow> list_all P s \<Longrightarrow> \<exists>a b c. s = [a, b, c] \<and> P a \<and> P b \<and> P c"
  by (auto simp: length_Suc_conv eval_nat_numeral)

lemma stamp_chars:
  assumes "four_digit_year t"
  obtains y0 y1 y2 y3 m0 m1 d0 d1 h0 h1 n0 n1 s0 s1 f0 f1 f2 where
    "iso_timestamp t = [y0, y1, y2, y3, CHR ''-'', m0, m1, CHR ''-'', d0, d1, CHR ''T'', h0, h1, CHR '':'', n0, n1, CHR '':'',
       s0, s1, CHR ''.'', f0, f1, f2, CHR ''Z'']"
    "list_all is_digit [y0, y1, y2, y3, m0, m1, d0, d1, h0, h1, n0, n1, s0, s1, f0, f1, f2]"
proof -
  obtain Y M D h m s f where e: "iso_timestamp t = Y @ ''-'' @ M @ ''-'' @ D @ ''T'' @ h @ '':'' @ m @ '':'' @ s @ ''.'' @ f @ ''Z''"
    and d: "list_all is_digit (Y @ M @ D @ h @ m @ s @ f)" and l: "length Y = 4" "length M = 2" "length D = 2"
    "length h = 2" "length m = 2" "length s = 2" "length f = 3"
    by (rule stamp_parts [OF assms])
  from d have parts: "list_all is_digit Y" "list_all is_digit M" "list_all is_digit D" "list_all is_digit h"
    "list_all is_digit m" "list_all is_digit s" "list_all is_digit f" by simp_all
  from digits_4 [OF l(1) parts(1)] digits_2 [OF l(2) parts(2)] digits_2 [OF l(3) parts(3)] digits_2 [OF l(4) parts(4)]
    digits_2 [OF l(5) parts(5)] digits_2 [OF l(6) parts(6)] digits_3 [OF l(7) parts(7)]
  show thesis using that e by fastforce
qed

lemma hex_digit_lower: "d < 16 \<Longrightarrow> is_lower_hex (hex_digit d)"
  by (auto simp: is_lower_hex_def is_digit_def hex_digit_def code_def)

lemma length_pairs: "length (concat (map (\<lambda>b. [f b, g b]) xs)) = 2 * length xs"
  by (induction xs) auto

lemma random_hex_shape: "8 \<le> length rnd \<Longrightarrow> length (random_hex rnd) = 16 \<and> list_all is_lower_hex (random_hex rnd)"
  using code_less by (auto simp: random_hex_def length_pairs list_all_iff less_mult_imp_div_less intro!: hex_digit_lower)

lemma all_indexed_append:
  "all_indexed_from i P (a @ b) \<longleftrightarrow> all_indexed_from i P a \<and> all_indexed_from (i + length a) P b"
  by (induction a arbitrary: i) auto

text \<open>Until the year 10000 every stamp the program writes has the shape \<open>validate\<close> asks of the
  stamps it reads, and every job id it makes is one that \<open>validate\<close> and the state directory accept.\<close>

theorem stamps_and_job_ids_are_accepted:
  assumes "secs now < 253402300800" "subsec_millis now < 1000" "8 \<le> length rnd"
  shows "is_stamp (iso_timestamp now) \<and> is_job_id (new_job_id now rnd)"
proof -
  have "four_digit_year now" using assms by (simp add: four_digit_year_def)
  then obtain y0 y1 y2 y3 m0 m1 d0 d1 h0 h1 n0 n1 s0 s1 f0 f1 f2 where
    t: "iso_timestamp now = [y0, y1, y2, y3, CHR ''-'', m0, m1, CHR ''-'', d0, d1, CHR ''T'', h0, h1, CHR '':'', n0, n1, CHR '':'',
       s0, s1, CHR ''.'', f0, f1, f2, CHR ''Z'']"
    and d: "list_all is_digit [y0, y1, y2, y3, m0, m1, d0, d1, h0, h1, n0, n1, s0, s1, f0, f1, f2]"
    by (rule stamp_chars)
  have "is_stamp (iso_timestamp now)" unfolding t is_stamp_def using d by simp
  moreover have "is_job_id (new_job_id now rnd)"
  proof -
    obtain r where r: "random_hex rnd = r" "length r = 16" "list_all is_lower_hex r"
      using random_hex_shape [OF assms(3)] by blast
    have minus: "\<not> is_digit (CHR ''-'')" "\<not> is_digit (CHR '':'')" "\<not> is_digit (CHR ''T'')" by code_simp+
    let ?start = "[y0, y1, y2, y3, m0, m1, d0, d1, CHR ''T'', h0, h1, n0, n1, s0, s1, CHR ''Z'', CHR ''-'']"
    have start: "new_job_id now rnd = ?start @ r"
      unfolding new_job_id_def t using d by (simp add: r minus)
    have rest: "all_indexed_from 17 (\<lambda>index byte.
          if index \<le> 7 \<or> 9 \<le> index \<and> index \<le> 14 then is_digit byte
          else if index = 8 then byte = CHR ''T''
          else if index = 15 then byte = CHR ''Z''
          else if index = 16 then byte = CHR ''-''
          else is_lower_hex byte) r"
      using r(3) by (simp add: all_indexed_from_nth list_all_length)
    have length: "0 + length ?start = 17" by simp
    show ?thesis
      unfolding is_job_id_def start all_indexed_append length
      by (intro conjI rest) (use d r(2) in simp_all)
  qed
  ultimately show ?thesis by simp
qed

lemma stamps_and_job_ids_are_accepted_witness:
  "is_stamp (iso_timestamp \<lparr>secs = 1792000000, subsec_millis = 7\<rparr>)
   \<and> is_job_id (new_job_id \<lparr>secs = 1792000000, subsec_millis = 7\<rparr> ''abcdefgh'')"
  by (rule stamps_and_job_ids_are_accepted) simp_all

section \<open>Temporary files\<close>

lemma split_once_append: "c \<notin> set a \<Longrightarrow> split_once c (a @ c # b) = Some (a, b)"
  by (induction a) (auto simp: split_once_def)

lemma split_once_Some: "split_once c s = Some (a, b) \<Longrightarrow> s = a @ c # b"
proof (induction s arbitrary: a)
  case (Cons x s)
  then show ?case by (cases "x = c") (force simp: split_once_def split: if_splits)+
qed (simp add: split_once_def)

lemma dec_no_dot: "CHR ''.'' \<notin> set (dec n)"
proof
  assume "CHR ''.'' \<in> set (dec n)"
  with dec_digits [of n] have "is_digit (CHR ''.'')" by (simp add: list_all_iff)
  moreover have "\<not> is_digit (CHR ''.'')" by code_simp
  ultimately show False by simp
qed

text \<open>The sweep recognises the temporary file of every write of the state, whatever process left
  it (a pid has at most ten digits), and no other name: it never takes the state file.\<close>

theorem own_temporaries_are_swept:
  assumes "8 \<le> length rnd" "pid < 10 ^ 10"
  shows "is_stale_temp (temp_name file pid rnd) file \<and> \<not> is_stale_temp file file
    \<and> (\<forall>name. is_stale_temp name file \<longrightarrow> (\<exists>p h. name = ''.'' @ file @ ''.'' @ p @ ''.'' @ h @ ''.tmp''
         \<and> list_all is_digit p \<and> length h = 16 \<and> list_all is_lower_hex h))"
proof -
  have shape: "\<exists>p h. name = ''.'' @ file @ ''.'' @ p @ ''.'' @ h @ ''.tmp'' \<and> list_all is_digit p \<and> length h = 16 \<and> list_all is_lower_hex h"
    if "is_stale_temp name file" for name
  proof -
    from that obtain rest p h where "name = ''.'' @ file @ ''.'' @ rest @ ''.tmp''" "split_once (CHR ''.'') rest = Some (p, h)"
      and d: "list_all is_digit p" "length h = 16" "list_all is_lower_hex h"
      by (auto simp: is_stale_temp_def bind_eq_Some_conv strip_prefix_Some strip_suffix_Some split: option.splits)
    moreover from this(2) have "rest = p @ CHR ''.'' # h" by (rule split_once_Some)
    ultimately show ?thesis by auto
  qed
  have "length (dec pid) \<le> 10" by (rule length_dec_le) (use assms(2) in simp_all)
  moreover have "1 \<le> length (dec pid)" by (simp add: Suc_le_eq)
  moreover have "temp_name file pid rnd = ''.'' @ file @ ''.'' @ (dec pid @ CHR ''.'' # random_hex rnd) @ ''.tmp''"
    by (simp add: temp_name_def)
  ultimately have "is_stale_temp (temp_name file pid rnd) file"
    using random_hex_shape [OF assms(1)] dec_digits [of pid]
    by (simp only: is_stale_temp_def strip_prefix_append strip_suffix_append bind.bind_lunit option.case prod.case
        split_once_append [OF dec_no_dot] simp_thms)
  moreover have "\<not> is_stale_temp file file"
  proof
    assume "is_stale_temp file file"
    from shape [OF this] show False by (auto dest: arg_cong [where f = length])
  qed
  ultimately show ?thesis using shape by blast
qed

lemma own_temporaries_are_swept_witness:
  "is_stale_temp (temp_name ''j.bulk-scan.json'' 4194304 ''abcdefgh'') ''j.bulk-scan.json''"
  using own_temporaries_are_swept [of "''abcdefgh''" 4194304 "''j.bulk-scan.json''"] by simp

section \<open>The holder of a lock\<close>

text \<open>A host name of printable ASCII characters.\<close>

definition plain_host :: "str \<Rightarrow> bool" where
  "plain_host h = (h \<noteq> [] \<and> length h \<le> 255 \<and> list_all (\<lambda>c. 32 \<le> code c \<and> code c < 127) h)"

lemma valid_utf8_ascii: "list_all (\<lambda>c. code c < 128) s \<Longrightarrow> valid_utf8 s"
  by (induction s) auto

lemma utf8_chars_ascii: "list_all (\<lambda>c. code c < 128) s \<Longrightarrow> utf8_chars s = map (\<lambda>c. [c]) s"
  by (induction s) auto

lemma is_digit_code: "is_digit c \<longleftrightarrow> 48 \<le> code c \<and> code c \<le> 57"
  by (simp add: is_digit_def)

lemma newline_code: "code newline = 10"
  by (simp add: newline_def code_def)

lemma printable_no_newline: "list_all (\<lambda>c. 32 \<le> code c \<and> code c < 127) s \<Longrightarrow> newline \<notin> set s"
  using newline_code by (auto simp: list_all_iff)

lemma printable_ascii: "list_all (\<lambda>c. 32 \<le> code c \<and> code c < 127) s \<Longrightarrow> list_all (\<lambda>c. code c < 128) s"
  by (auto simp: list_all_iff)

lemma list_all_weaken: "list_all P s \<Longrightarrow> (\<And>c. P c \<Longrightarrow> Q c) \<Longrightarrow> list_all Q s"
  by (auto simp: list_all_iff)

lemma split_three:
  "c \<notin> set a \<Longrightarrow> c \<notin> set b \<Longrightarrow> c \<notin> set d \<Longrightarrow> split_on c (a @ [c] @ b @ [c] @ d) = [a, b, d]"
  by (simp add: split_on_append split_on_none)

text \<open>The record a lock holder writes is read back by the next process as the pid, the host and the
  second it names, for any pid, any instant before the year 10000 and any plain host name.\<close>

theorem holder_record_reads_back:
  assumes "pid < 10 ^ 10" "plain_host host" "secs since < 253402300800" "subsec_millis since < 1000"
  shows "parse_holder (holder_record pid host since)
    = Some (''pid '' @ dec pid @ '' on '' @ host @ '' since '' @ take 19 (iso_timestamp since) @ ''Z'')"
proof -
  have "four_digit_year since" using assms(3,4) by (simp add: four_digit_year_def)
  then obtain y0 y1 y2 y3 m0 m1 d0 d1 h0 h1 n0 n1 s0 s1 f0 f1 f2 where
    t: "iso_timestamp since = [y0, y1, y2, y3, CHR ''-'', m0, m1, CHR ''-'', d0, d1, CHR ''T'', h0, h1, CHR '':'', n0, n1, CHR '':'',
       s0, s1, CHR ''.'', f0, f1, f2, CHR ''Z'']"
    and d: "list_all is_digit [y0, y1, y2, y3, m0, m1, d0, d1, h0, h1, n0, n1, s0, s1, f0, f1, f2]"
    by (rule stamp_chars)
  define sec where "sec = take 19 (iso_timestamp since) @ ''Z''"
  let ?ok = "\<lambda>c. 32 \<le> code c \<and> code c < 127"
  have marks: "?ok (CHR ''-'')" "?ok (CHR ''T'')" "?ok (CHR '':'')" "?ok (CHR ''Z'')"
    "list_all ?ok ''pid=''" "list_all ?ok ''host=''" "list_all ?ok ''since=''" by code_simp+
  have sec: "since_shaped sec" "list_all ?ok sec"
    using d marks by (simp_all add: sec_def t since_shaped_def is_digit_code)
  have pid: "list_all ?ok (dec pid)" by (rule list_all_weaken [OF dec_digits]) (simp add: is_digit_code)
  have host: "list_all ?ok host" "host \<noteq> []" "length host \<le> 255" using assms(2) by (simp_all add: plain_host_def)
  have lines: "list_all ?ok (''pid='' @ dec pid)" "list_all ?ok (''host='' @ host)" "list_all ?ok (''since='' @ sec)"
    unfolding list_all_append using marks pid host(1) sec(2) by simp_all
  have whole: "holder_record pid host since = (''pid='' @ dec pid) @ nl @ (''host='' @ host) @ nl @ (''since='' @ sec) @ nl"
    using host(3) by (simp add: holder_record_def sec_def cut_to_def)
  note nls = lines [THEN printable_no_newline]
  have "list_all (\<lambda>c. code c < 128) nl" by (simp add: nl_def newline_code)
  then have "valid_utf8 (holder_record pid host since)"
    unfolding whole by (intro valid_utf8_ascii) (simp only: list_all_append lines [THEN printable_ascii, unfolded list_all_append] simp_thms)
  moreover have "split_on newline ((''pid='' @ dec pid) @ nl @ (''host='' @ host) @ nl @ (''since='' @ sec))
      = [''pid='' @ dec pid, ''host='' @ host, ''since='' @ sec]"
    unfolding nl_def by (rule split_three [OF nls])
  moreover have "strip_suffix nl (holder_record pid host since)
      = Some ((''pid='' @ dec pid) @ nl @ (''host='' @ host) @ nl @ (''since='' @ sec))"
    unfolding whole by (metis append.assoc strip_suffix_append)
  moreover have "list_ex is_control (utf8_chars host) = False"
    unfolding utf8_chars_ascii [OF printable_ascii [OF host(1)]] using host(1)
    by (auto simp: list_ex_iff list_all_iff is_control_def)
  moreover have "1 \<le> length (dec pid)" "length (dec pid) \<le> 10"
    using length_dec_le [of pid 10] assms(1) by (simp_all add: Suc_le_eq)
  moreover have "1 \<le> length host" using host(2) by (simp add: Suc_le_eq)
  ultimately show ?thesis
    using dec_digits [of pid] sec(1) host(3)
    by (simp only: parse_holder_def bind.bind_lunit list.case strip_prefix_append simp_thms if_True if_False not_False_eq_True
        flip: sec_def)
qed

lemma holder_record_reads_back_witness:
  "parse_holder (holder_record 4242 ''build-host'' \<lparr>secs = 1792000000, subsec_millis = 7\<rparr>)
    = Some (''pid '' @ dec 4242 @ '' on build-host since 2026-10-14T17:46:40Z'')"
proof -
  have "plain_host ''build-host''" by code_simp
  from holder_record_reads_back [of 4242 "''build-host''" "\<lparr>secs = 1792000000, subsec_millis = 7\<rparr>", OF _ this]
  show ?thesis by (simp add: iso_timestamp_example)
qed

section \<open>Paths\<close>

text \<open>The locations of the store and of the job states are absolute and free of dot components,
  and resolving them again changes nothing, so two processes name the same files.\<close>

theorem normalized_paths_are_fixed:
  assumes "has_root path"
  shows "has_root (normalize_path path)
    \<and> (\<forall>c \<in> set (components (normalize_path path)). c \<noteq> [] \<and> c \<noteq> ''.'' \<and> c \<noteq> ''..'')
    \<and> normalize_path (normalize_path path) = normalize_path path"
proof (intro conjI)
  note n = normalize_components [OF assms]
  show "has_root (normalize_path path)" by (rule n(1))
  show "\<forall>c \<in> set (components (normalize_path path)). c \<noteq> [] \<and> c \<noteq> ''.'' \<and> c \<noteq> ''..''"
    using n(2) components_plain by blast
  have same: "normal_from True [] 0 (components (normalize_path path)) = components (normalize_path path)"
    using normal_from_id [OF n(2), of True "[]" 0] by simp
  have shape: "normalize_path q = path_text True (normal_from True [] 0 (components q))" if "has_root q" for q
    using that by (simp add: normalize_path_def path_text_def)
  have "normalize_path (normalize_path path) = path_text True (components (normalize_path path))"
    using shape [OF n(1)] same by simp
  also have "\<dots> = normalize_path path" unfolding n(3) by (rule shape [OF assms, symmetric])
  finally show "normalize_path (normalize_path path) = normalize_path path" .
qed

lemma normalized_paths_are_fixed_witness:
  "normalize_path (normalize_path ''/a/../b//./c'') = normalize_path ''/a/../b//./c''"
proof -
  have "has_root ''/a/../b//./c''" by code_simp
  then show ?thesis using normalized_paths_are_fixed by blast
qed

section \<open>Text for the terminal\<close>

lemma utf8_chars_drop_cont: "set (utf8_chars (dropWhile is_cont s)) \<subseteq> set (utf8_chars s)"
  by (induction s) (auto simp: is_cont_def)

lemma takeWhile_group:
  "takeWhile P s = a \<Longrightarrow> r = [] \<or> \<not> P (hd r) \<Longrightarrow> takeWhile P (a @ r) = a \<and> dropWhile P (a @ r) = r"
proof (induction s arbitrary: a)
  case Nil
  then show ?case by (cases r) auto
next
  case (Cons x s)
  then show ?case by (cases r) (auto split: if_splits)
qed

lemma replacement_codes: "\<exists>a b. replacement = char_of (239::nat) # [a, b] \<and> is_cont a \<and> is_cont b"
  by (simp add: replacement_def bytes_def is_cont_def code_def)

lemma terminal_safe_start: "terminal_safe s = [] \<or> \<not> is_cont (hd (terminal_safe s)) \<or> is_cont (hd s)"
proof (cases s)
  case (Cons c cs)
  obtain g rest where g: "utf8_chars s = (c # g) # rest" unfolding Cons by (cases "code c < 192") auto
  have lead: "\<not> is_cont (char_of (239::nat))" by (simp add: is_cont_def code_def)
  obtain a b where r: "replacement = char_of (239::nat) # [a, b]" using replacement_codes by blast
  have "terminal_safe s = (if is_control (c # g) then replacement else c # g)
      @ concat (map (\<lambda>g. if is_control g then replacement else g) rest)"
    by (simp add: terminal_safe_def g)
  then show ?thesis using lead by (simp add: Cons r)
qed (simp add: terminal_safe_def)

lemma terminal_safe_groups: "g \<in> set (utf8_chars (terminal_safe s)) \<Longrightarrow> \<not> is_control g"
proof (induction s arbitrary: g rule: utf8_chars.induct)
  case 1
  then show ?case by (simp add: terminal_safe_def)
next
  case (2 c cs)
  obtain a b where r: "replacement = char_of (239::nat) # [a, b]" "is_cont a" "is_cont b" using replacement_codes by blast
  have lead: "code (char_of (239::nat)) = 239" by (simp add: code_def)
  have long: "\<not> is_control (x # y # z # u)" for x y z u by (simp add: is_control_def)
  have replaced: "\<not> is_control h" if "h \<in> set (utf8_chars (replacement @ t))" "\<And>h. h \<in> set (utf8_chars t) \<Longrightarrow> \<not> is_control h" for h t
  proof -
    have "utf8_chars (replacement @ t) = (char_of (239::nat) # a # b # takeWhile is_cont t) # utf8_chars (dropWhile is_cont t)"
      using r(2,3) by (simp add: r(1) lead)
    with that utf8_chars_drop_cont [of t] long show ?thesis by auto
  qed
  show ?case
  proof (cases "code c < 192")
    case True
    then have t: "terminal_safe (c # cs) = (if is_control [c] then replacement else [c]) @ terminal_safe cs"
      by (simp add: terminal_safe_def)
    show ?thesis
    proof (cases "is_control [c]")
      case ctrl: True
      show ?thesis by (rule replaced [OF _ 2(1) [OF True]]) (use 2(3) t ctrl in simp_all)
    next
      case plain: False
      then have "utf8_chars (terminal_safe (c # cs)) = [c] # utf8_chars (terminal_safe cs)" using t True by simp
      with 2(3) 2(1) [OF True] plain show ?thesis by auto
    qed
  next
    case False
    let ?w = "takeWhile is_cont cs" and ?d = "dropWhile is_cont cs"
    have t: "terminal_safe (c # cs) = (if is_control (c # ?w) then replacement else c # ?w) @ terminal_safe ?d"
      using False by (simp add: terminal_safe_def)
    have "terminal_safe ?d = [] \<or> \<not> is_cont (hd (terminal_safe ?d))"
    proof (cases "?d = []")
      case True
      show ?thesis unfolding True by (simp add: terminal_safe_def)
    next
      case False
      with terminal_safe_start [of ?d] hd_dropWhile [of is_cont cs] show ?thesis by blast
    qed
    from takeWhile_group [where P = is_cont and s = cs, OF refl this] have "utf8_chars ((c # ?w) @ terminal_safe ?d) = (c # ?w) # utf8_chars (terminal_safe ?d)"
      using False by simp
    note kept = this
    show ?thesis
    proof (cases "is_control (c # ?w)")
      case ctrl: True
      show ?thesis by (rule replaced [OF _ 2(2) [OF False]]) (use 2(3) t ctrl in simp_all)
    next
      case plain: False
      with 2(3) 2(2) [OF False] kept show ?thesis unfolding t by auto
    qed
  qed
qed

text \<open>Text made safe for the terminal holds no control character, however it was composed: no
  C0 character (escape included), no DEL and no C1 character, so nothing a service or a file
  names can drive the terminal.\<close>

theorem terminal_text_has_no_controls:
  "list_all (\<lambda>g. \<not> is_control g) (utf8_chars (terminal_safe s))"
  using terminal_safe_groups by (auto simp: list_all_iff)

end
