(* ===== verification/BulkScanSafe.thy ===== *)
theory BulkScanSafe
  imports BulkScan EngineSafe
begin

text \<open>
  The two commands refine the protocol: the trace of \<open>run\<close> is accepted by the machine from
  the start of a job's life, the trace of \<open>resume\<close> from the state it loaded, whatever
  prompts that state protects. \<open>job_life\<close> composes them: a \<open>bulk-scan\<close>, cut off after any number of
  its effects, and any number of \<open>resume-poll\<close>s of what it left, each cut off anywhere; every such
  life is one of the machine (\<open>lives\<close>), and the states it leaves on disk are the machine's.
\<close>

definition on_trace :: "(event list \<Rightarrow> bool) \<Rightarrow> 'w world \<Rightarrow> bool" where
  "on_trace P w = P (trace w)"

definition traced :: "proto \<Rightarrow> event list \<Rightarrow> bool" where
  "traced p0 t = (\<exists>q. executes p0 t q)"

lemma trace_quiet:
  assumes "quiet m" "\<And>t. P t \<Longrightarrow> R t"
  shows "triple (on_trace P) m (\<lambda>_. on_trace P) (on_trace R)"
  by (rule triple_quiet [OF assms(1)]) (auto simp: on_trace_def assms(2))

lemma trace_logs:
  "(\<And>t. P t \<Longrightarrow> Q (t @ [ev])) \<Longrightarrow> triple (on_trace P) (logs ev) (\<lambda>_. on_trace Q) R"
  by (rule triple_logs) (simp add: on_trace_def)

lemma trace_fail: "(\<And>t. P t \<Longrightarrow> R t) \<Longrightarrow> triple (on_trace P) (fail e) Q (on_trace R)"
  by (rule triple_fail) (simp add: on_trace_def)

lemma trace_ret: "(\<And>t. P t \<Longrightarrow> Q t) \<Longrightarrow> triple (on_trace P) (ret x) (\<lambda>_. on_trace Q) R"
  by (rule triple_ret) (simp add: on_trace_def)

text \<open>A program on a job, started in its state.\<close>

lemma on_job_triple:
  fixes m :: "('w sys, 'e, 'a) prog"
  assumes "triple (on P) m (\<lambda>x. on (Q x)) (on R)"
  shows "triple (on_trace (P (jb_state j))) (on_job j m)
     (\<lambda>(r, j'). on_trace (case r of Inl _ \<Rightarrow> R (jb_state j') | Inr x \<Rightarrow> Q x (jb_state j'))) F"
  unfolding triple_def
proof (intro allI impI)
  fix w :: "'w world" assume pre: "on_trace (P (jb_state j)) w"
  obtain r s where rs: "m \<lparr>the_job = j, the_world = w\<rparr> = (r, s)" by fastforce
  have start: "on P \<lparr>the_job = j, the_world = w\<rparr>" using pre by (simp add: on_def on_trace_def the_state_def)
  show "case on_job j m w of (Inl e, s') \<Rightarrow> F s'
      | (Inr x, s') \<Rightarrow> (case x of (r, j') \<Rightarrow> on_trace (case r of Inl _ \<Rightarrow> R (jb_state j') | Inr x \<Rightarrow> Q x (jb_state j'))) s'"
  proof (cases r)
    case (Inl e)
    with triple_Err [OF assms start] rs show ?thesis
      by (simp add: on_job_def on_def on_trace_def the_state_def)
  next
    case (Inr x)
    with triple_Ok [OF assms start] rs show ?thesis
      by (simp add: on_job_def on_def on_trace_def the_state_def)
  qed
qed

lemma engaged_line:
  assumes "\<And>q. accepts q ev q" "engaged p0 T st t"
  shows "engaged p0 T st (t @ [ev])"
  using assms by (auto simp: engaged_def intro: executes_snoc)

lemma traced_line:
  assumes "\<And>q. accepts q ev q" "traced p0 t"
  shows "traced p0 (t @ [ev])"
  using assms by (auto simp: traced_def intro: executes_snoc)

lemma engaged_traced: "engaged p0 T st t \<Longrightarrow> traced p0 t"
  by (auto simp: engaged_def traced_def)

lemma accepted_traced: "accepted p0 st t \<longleftrightarrow> traced p0 t"
  by (simp add: accepted_def traced_def)

section \<open>The end of a run\<close>

lemma note_engaged:
  "triple (on_trace (engaged p0 T st)) (note_job j) (\<lambda>_. on_trace (engaged p0 T st)) R"
  unfolding note_job_def by (rule trace_logs, erule engaged_line [OF accepts.on_interrupt])

lemma note_traced: "triple (on_trace (traced p0)) (note_job j) (\<lambda>_. on_trace (traced p0)) R"
  unfolding note_job_def by (rule trace_logs, erule traced_line [OF accepts.on_interrupt])

lemma finish_traced: "triple (on_trace (traced p0)) (finish j) (\<lambda>_. on_trace (traced p0)) (on_trace (traced p0))"
  unfolding finish_def
  apply (split prod.split, intro allI impI)+
  apply (rule triple_and_then, rule trace_logs, erule traced_line [OF accepts.summary])
  apply (split if_split, intro conjI impI)
   apply (rule trace_ret, assumption)
  apply (rule trace_fail, assumption)
  done

lemma drop_lock_safe:
  "triple (on (engaged p0 T)) (drop_lock E) (\<lambda>_. on (engaged p0 T)) (on (accepted p0))"
  unfolding drop_lock_def
  apply (rule on_reads_any)
  apply (split option.split, intro conjI allI impI)
   apply (rule on_ret, assumption)
  apply (rule triple_and_then, rule on_with_job, simp)
  apply (rule on_quiet_sys, intro quiet_rules)
  done

text \<open>A program on the job, then the rest of the command with its result.\<close>

lemma job_step:
  fixes m :: "('w sys, cli_error, unit) prog"
  assumes "triple (on P) m (\<lambda>_. on S) (on (accepted p0))"
    "\<And>j'. triple (on_trace (S (jb_state j'))) (f (Inr (), j')) Q (on_trace (traced p0))"
    "\<And>e j'. triple (on_trace (traced p0)) (f (Inl e, j')) Q (on_trace (traced p0))"
  shows "triple (on_trace (P (jb_state j))) (and_then (on_job j m) f) Q (on_trace (traced p0))"
proof (rule triple_and_then [OF on_job_triple [OF assms(1)]])
  fix x :: "(cli_error + unit) \<times> job"
  obtain r j' where x: "x = (r, j')" by (cases x)
  show "triple (case x of (r, j') \<Rightarrow> on_trace (case r of Inl _ \<Rightarrow> accepted p0 (jb_state j') | Inr u \<Rightarrow> S (jb_state j')))
      (f x) Q (on_trace (traced p0))"
  proof (cases r)
    case (Inl e)
    have "on_trace (accepted p0 (jb_state j')) = (on_trace (traced p0) :: 'w world \<Rightarrow> bool)"
      by (intro ext) (simp add: on_trace_def accepted_traced)
    with Inl x assms(3) show ?thesis by simp
  next
    case (Inr u)
    with x assms(2) show ?thesis by (cases u) simp
  qed
qed

lemma traced_of_engaged:
  "triple (on_trace (traced p0)) m Q R \<Longrightarrow> triple (on_trace (engaged p0 T st)) m Q R"
  by (erule triple_weaken) (auto simp: on_trace_def engaged_traced)

lemma of_result_simps [simp]:
  "and_then (of_result (Inr x)) f = f x" "and_then (of_result (Inl e)) f = fail e"
  by (simp_all add: of_result_def and_then_def fail_def fun_eq_iff)

lemma save_and_finish_safe:
  "triple (on_trace (engaged p0 T (jb_state j))) (save_and_finish E j)
     (\<lambda>_. on_trace (traced p0)) (on_trace (traced p0))"
  unfolding save_and_finish_def
  apply (rule job_step [OF save_with_output_safe]; simp only: prod.case of_result_simps)
   apply (rule triple_and_then, rule note_engaged)
   apply (rule job_step [OF drop_lock_safe]; simp only: prod.case)
    apply (rule traced_of_engaged, rule finish_traced)
   apply (rule finish_traced)
  apply (rule trace_fail, assumption)
  done

lemma lines_engaged:
  "triple (on_trace (engaged p0 T st)) (for_each (\<lambda>l. logs (Status l)) ls) (\<lambda>_. on_trace (engaged p0 T st)) R"
  by (rule triple_for_each, rule trace_logs, erule engaged_line [OF accepts.line])

section \<open>bulk-scan\<close>

lemma quiet_open_state_dir [quiet_rules]: "quiet (open_state_dir E dir)"
  unfolding open_state_dir_def by (intro quiet_rules)

lemma quiet_ensure_state_dir [quiet_rules]: "quiet (ensure_state_dir E dir)"
  unfolding ensure_state_dir_def by (intro quiet_rules)

lemma quiet_cancelled [quiet_rules]: "quiet (cancelled E)"
  unfolding cancelled_def by (intro quiet_rules)

lemma quiet_claim_output [quiet_rules]: "quiet (claim_output E out)"
  unfolding claim_output_def by (intro quiet_rules)

lemma quiet_remove_if_ours [quiet_rules]: "quiet (remove_if_ours E file)"
  unfolding remove_if_ours_def by (intro quiet_rules)

lemma quiet_undo_created [quiet_rules]: "quiet (undo_created E file output lock)"
  unfolding undo_created_def by (intro quiet_rules)

lemma new_state_items: "j_items (new_state nj now) = map (\<lambda>(i, p). new_item i p) (zip [0..<length (nj_prompts nj)] (nj_prompts nj))"
  by (simp add: new_state_def)

lemma new_state_pend:
  assumes "j_items st = j_items (new_state nj now)"
  shows "pend {..<length (j_items st)} st" "well_indexed st"
proof -
  show "pend {..<length (j_items st)} st"
    by (auto simp: pend_def status_at_def assms new_state_items new_item_def)
  have "map i_index (j_items st) = map fst (zip [0..<length (nj_prompts nj)] (nj_prompts nj))"
    by (simp add: assms new_state_items new_item_def case_prod_beta comp_def)
  then show "well_indexed st" by (simp add: well_indexed_def assms new_state_items)
qed

definition started :: "job_state \<Rightarrow> event list \<Rightarrow> bool" where
  "started st t = (engaged fresh_proto {..<length (j_items st)} st t \<and> length (j_items st) \<le> u64_max)"

lemma first_checkpoint_safe:
  "triple (on (\<lambda>st' t. st' = new_state nj now \<and> t = [])) (first_checkpoint E)
     (\<lambda>_. on started) (on (accepted fresh_proto))"
proof -
  let ?st = "new_state nj now"
  have acc: "accepted fresh_proto st []" for st by (auto simp: accepted_def intro: executes_Nil)
  have started: "started st t"
    if "stamped ?st st" "valid_state ?st" "executes fresh_proto t (fresh_proto\<lparr>saved := Some st\<rparr>)" for st t
  proof -
    have items: "j_items st = j_items ?st" using that(1) by (simp add: stamped_items)
    have "engaged fresh_proto {..<length (j_items st)} st t"
      unfolding engaged_def using that(3) new_state_pend [OF items]
      by (intro exI [of _ "fresh_proto\<lparr>saved := Some st\<rparr>"])
         (simp add: idle_def fresh_proto_def protects_def)
    with valid_state_length [OF that(2)] items show ?thesis by (simp add: started_def)
  qed
  have pre: "triple (on (\<lambda>st' t. st' = ?st \<and> t = [])) (checkpoint E c) (\<lambda>_. on started) (on (accepted fresh_proto))" for c
    by (rule triple_weaken [OF checkpoint_runs [of ?st fresh_proto fresh_proto]])
       (auto simp: on_def ready_def fresh_proto_def protects_def intro: executes_Nil started [unfolded fresh_proto_def])
  show ?thesis
    unfolding first_checkpoint_def is_cancelled_def
    apply (rule triple_and_then, rule on_quiet, intro quiet_rules, simp add: acc)
    apply (split if_split, intro conjI impI)
     apply (rule on_fail, simp add: acc)
    apply (rule pre)
    done
qed

lemma started_line: "(\<And>q. accepts q ev q) \<Longrightarrow> started st t \<Longrightarrow> started st (t @ [ev])"
  unfolding started_def by (blast intro: engaged_line)

lemma traced_Nil: "traced p0 []"
  by (auto simp: traced_def intro: executes_Nil)

text \<open>The steps before the first checkpoint leave the trace empty.\<close>

abbreviation (input) untouched :: "'w world \<Rightarrow> bool" where
  "untouched \<equiv> on_trace (\<lambda>t. t = [])"

lemma quiet_step:
  assumes "quiet m" "\<And>x. triple untouched (f x) Q (on_trace (traced p0))"
  shows "triple untouched (and_then m f) Q (on_trace (traced p0))"
  by (rule triple_and_then, rule trace_quiet [OF assms(1)]) (simp_all add: traced_Nil assms(2))

lemma quiet_stop: "triple untouched (fail e) Q (on_trace (traced p0))"
  by (rule trace_fail) (simp add: traced_Nil)

lemma traced_step:
  assumes "quiet m" "\<And>x. triple (on_trace (traced p0)) (f x) Q (on_trace (traced p0))"
  shows "triple (on_trace (traced p0)) (and_then m f) Q (on_trace (traced p0))"
  by (rule triple_and_then, rule trace_quiet [OF assms(1)]) (simp_all add: assms(2))

text \<open>The first checkpoint of the new job, then its clean-up or its first lines.\<close>

lemma first_step:
  fixes E :: "'w os"
  assumes "\<And>j'. triple (on_trace (started (jb_state j'))) (f (Inr (), j')) Q (on_trace (traced fresh_proto))"
    "\<And>e j'. triple (on_trace (traced fresh_proto)) (f (Inl e, j')) Q (on_trace (traced fresh_proto))"
    "jb_state j = new_state nj now"
  shows "triple untouched (and_then (on_job j (first_checkpoint E)) f) Q (on_trace (traced fresh_proto))"
proof -
  have pre: "(untouched :: 'w world \<Rightarrow> bool) = on_trace ((\<lambda>st' t. st' = new_state nj now \<and> t = []) (jb_state j))"
    by (intro ext) (simp add: on_trace_def assms(3))
  show ?thesis unfolding pre by (rule job_step [OF first_checkpoint_safe assms(1,2)])
qed

lemma set_up_safe:
  "triple untouched (set_up E iv bp) (\<lambda>j. on_trace (started (jb_state j))) (on_trace (traced fresh_proto))"
  unfolding set_up_def Let_def
  apply (rule quiet_step, intro quiet_rules, split prod.split, intro allI impI)
  apply (rule quiet_step, intro quiet_rules)
  apply (rule quiet_step, intro quiet_rules)
  apply (rule quiet_step, intro quiet_rules)
  apply (rule quiet_step, intro quiet_rules)
  apply (split if_split, intro conjI impI, rule quiet_stop)
  apply (rule quiet_step, intro quiet_rules)
  apply (rule quiet_step, intro quiet_rules)
  apply (rule quiet_step, intro quiet_rules)
  apply (rule quiet_step, intro quiet_rules)
  apply (rule quiet_step, intro quiet_rules)
  apply (rule quiet_step, intro quiet_rules)
  apply (split sum.split, intro conjI allI impI)
   apply (rule quiet_step, intro quiet_rules)
   apply (rule quiet_stop)
  apply (split prod.split, intro allI impI)+
  apply (rule quiet_step, intro quiet_rules)
  apply (rule first_step; (simp only: prod.case sum.case job.simps)?)
    apply (rule triple_and_then [where M = "\<lambda>_. on_trace (started (jb_state j'))" for j'])
     apply (split rewritten.split, intro conjI allI impI)
      apply (rule trace_ret, assumption)
     apply (rule trace_logs, erule started_line [OF accepts.warning])
    apply (rule triple_and_then [where M = "\<lambda>_. on_trace (started (jb_state j'))" for j'])
     apply (unfold note_job_def)
     apply (rule trace_logs, erule started_line [OF accepts.on_interrupt])
    apply (rule triple_ret, simp)
   apply (rule traced_step, intro quiet_rules)
   apply (rule trace_fail, assumption)
  done

lemma run_new_started:
  "triple (on started) (run_new E secrets tm) (\<lambda>_. on (engaged fresh_proto {})) (on (accepted fresh_proto))"
  by (rule on_weaken [OF run_new_safe]) (auto simp: started_def)

lemma run_safe:
  "triple untouched (run E iv bp) (\<lambda>_. on_trace (traced fresh_proto)) (on_trace (traced fresh_proto))"
  unfolding run_def
  apply (rule triple_and_then, rule set_up_safe)
  apply (rule triple_and_then [where M = "\<lambda>_. on_trace (started (jb_state j))" for j])
   apply (rule triple_for_each, rule trace_logs, erule started_line [OF accepts.line])
  apply (rule job_step [OF run_new_started])
   apply (simp only: prod.case)
   apply (rule triple_and_then, rule note_engaged)
   apply (simp only: of_result_simps, rule save_and_finish_safe)
  apply (simp only: prod.case)
  apply (rule triple_and_then, rule note_traced)
  apply (simp only: of_result_simps, rule trace_fail, assumption)
  done

section \<open>resume-poll\<close>

lemma quiet_is_typescript_state [quiet_rules]: "quiet (is_typescript_state E path)"
  unfolding is_typescript_state_def by (intro quiet_rules)

lemma quiet_locate [quiet_rules]: "quiet (locate E typed cwd dir)"
  unfolding locate_def Let_def by (intro quiet_rules)

lemma quiet_load [quiet_rules]: "quiet (load E dir job)"
  unfolding load_def Let_def by (intro quiet_rules)

lemma quiet_sweep_entries [quiet_rules]: "quiet (sweep_entries E file n entries)"
proof (induction entries arbitrary: n)
  case (Cons entry entries)
  then show ?case by (cases entry) (simp_all, intro quiet_rules impI conjI Cons)
qed (simp add: quiet_rules)

lemma quiet_sweep_temps [quiet_rules]: "quiet (sweep_temps E file)"
  unfolding sweep_temps_def by (intro quiet_rules)

lemma quiet_resolve_output [quiet_rules]: "quiet (resolve_output E st requested state)"
  unfolding resolve_output_def Let_def
  by (intro quiet_rules) (simp add: quiet_ret split: prod.split)

lemma quiet_open_job [quiet_rules]: "quiet (open_job E iv rp)"
  unfolding open_job_def by (intro quiet_rules)

text \<open>A loaded state is valid.\<close>

lemma parse_state_valid: "parse_state E b = Ok st \<Longrightarrow> valid_state st"
  unfolding parse_state_def Let_def
  by (auto split: option.splits sum.splits simp: validate_valid)

text \<open>What a program answers, whatever its state.\<close>

definition answers :: "('s, 'e, 'a) prog \<Rightarrow> ('a \<Rightarrow> bool) \<Rightarrow> bool" where
  "answers m C = (\<forall>s x s'. m s = (Ok x, s') \<longrightarrow> C x)"

lemma answers_and_then: "(\<And>x. answers (f x) C) \<Longrightarrow> answers (and_then m f) C"
  by (auto simp: answers_def and_then_def split: prod.splits sum.splits)

lemma answers_ret: "C x \<Longrightarrow> answers (ret x) C"
  by (simp add: answers_def ret_def)

lemma answers_fail: "answers (fail e) C"
  by (simp add: answers_def fail_def)

lemma answers_if: "answers a C \<Longrightarrow> answers b C \<Longrightarrow> answers (if c then a else b) C"
  by simp

lemmas answers_rules = answers_and_then answers_ret answers_fail answers_if

lemma load_answers: "answers (load E dir job) (\<lambda>(file, st). valid_state st \<and> j_job_id st = job)"
proof -
  have "answers (case parse_state E b of Inl e \<Rightarrow> fail (load_error path e)
         | Inr st \<Rightarrow> if j_job_id st \<noteq> job then fail err else ret (sf, st))
      (\<lambda>(sf, st). valid_state st \<and> j_job_id st = job)" for b path err sf
    by (cases "parse_state E b") (auto intro!: answers_rules dest: parse_state_valid)
  then show ?thesis
    unfolding load_def Let_def by (intro answers_rules)
qed

lemma resolve_output_answers: "answers (resolve_output E st requested state) (\<lambda>(ro, st'). same_items st st')"
proof -
  have "j_items (promote found st) = j_items st" for found
    by (simp add: promote_def split: at_path.split option.split)
  then show ?thesis
    unfolding resolve_output_def Let_def
    by (intro answers_rules) (auto simp: same_items_def split: prod.splits intro!: answers_rules)
qed

lemma answers_step:
  assumes "quiet m" "answers m C" "\<And>t. P t \<Longrightarrow> R t" "\<And>x. C x \<Longrightarrow> triple (on_trace P) (f x) Q (on_trace R)"
  shows "triple (on_trace P) (and_then m f) Q (on_trace R)"
proof (rule triple_and_then)
  show "triple (on_trace P) m (\<lambda>x w. on_trace P w \<and> C x) (on_trace R)"
  proof (rule tripleI)
    show "on_trace P w' \<and> C x" if "on_trace P w" "m w = (Ok x, w')" for w x w'
      using assms(2) that(2) triple_Ok [OF trace_quiet [OF assms(1,3)] that] unfolding answers_def by simp blast
    show "on_trace R w'" if "on_trace P w" "m w = (Err e, w')" for w e w'
      by (rule triple_Err [OF trace_quiet [OF assms(1,3)] that])
  qed
  show "triple (\<lambda>w. on_trace P w \<and> C x) (f x) Q (on_trace R)" for x
    using assms(4) [of x] by (auto simp: triple_def)
qed

lemma settle_protects:
  assumes "protects st S" "well_indexed st" "settle_submitting now st = (changed, st')"
  shows "protects st' S" "well_indexed st'"
proof -
  have items: "j_items st' = map settle_item (j_items st)" using assms(3) by (auto simp: settle_submitting_def Let_def)
  show "protects st' S" using assms(1) by (auto simp: protects_def status_at_def items settle_item_def)
  have "map i_index (map settle_item (j_items st)) = map i_index (j_items st)"
    by (simp add: settle_item_def comp_def if_distrib cong: if_cong)
  then show "well_indexed st'" using assms(2) by (simp only: well_indexed_def items length_map)
qed

definition loaded :: "job_state \<Rightarrow> nat set \<Rightarrow> proto" where
  "loaded st S = \<lparr>saved = Some st, limbo = [], in_flight = {}, spent = S, csv = None\<rparr>"

lemma valid_indexed: "valid_state st \<Longrightarrow> well_indexed st"
  by (simp add: valid_state_def well_indexed_def)

lemma loaded_engaged:
  assumes "protects st' S" "well_indexed st'" "executes (loaded st S) t (loaded st S)"
  shows "engaged (loaded st S) {} st' t"
  using assms unfolding engaged_def
  by (intro exI [of _ "loaded st S"]) (simp add: loaded_def idle_def pend_def)

lemma traced_loaded: "executes p0 t p0 \<Longrightarrow> traced p0 t"
  by (auto simp: traced_def)

text \<open>While the machine stays at its start.\<close>

lemma executes_line: "(\<And>q. accepts q ev q) \<Longrightarrow> executes p0 t p0 \<Longrightarrow> executes p0 (t @ [ev]) p0"
  by (rule executes_snoc)

lemma resume_checkpoint_safe:
  assumes "protects (jb_state j) S" "well_indexed (jb_state j)"
  shows "triple (on_trace (\<lambda>t. executes (loaded st S) t (loaded st S))) (resume_checkpoint E ro changed j)
     (\<lambda>j. on_trace (engaged (loaded st S) {} (jb_state j))) (on_trace (traced (loaded st S)))"
proof -
  have start: "triple (on_trace (engaged (loaded st S) {} (jb_state j))) m Q R \<Longrightarrow>
      triple (on_trace (\<lambda>t. executes (loaded st S) t (loaded st S))) m Q R" for m Q R
    by (erule triple_weaken) (auto simp: on_trace_def intro: loaded_engaged assms)
  show ?thesis
    unfolding resume_checkpoint_def
    apply (split if_split, intro conjI impI; rule start)
     apply (rule job_step [OF checkpoint_engaged]; simp only: prod.case sum.case)
      apply (rule triple_ret, simp)
     apply (rule traced_step, intro quiet_rules)
     apply (rule trace_fail, assumption)
    apply (rule triple_ret, simp)
    done
qed

abbreviation (input) resting :: "job_state \<Rightarrow> nat set \<Rightarrow> event list \<Rightarrow> bool" where
  "resting st S t \<equiv> executes (loaded st S) t (loaded st S)"

lemma resting_step:
  assumes "quiet m" "\<And>x. triple (on_trace (resting st S)) (f x) Q (on_trace (traced (loaded st S)))"
  shows "triple (on_trace (resting st S)) (and_then m f) Q (on_trace (traced (loaded st S)))"
  by (rule triple_and_then, rule trace_quiet [OF assms(1)], erule traced_loaded, rule assms(2))

lemma of_result_step:
  fixes r :: "'e + unit"
  assumes "r = Ok () \<Longrightarrow> triple P (f ()) Q R" "\<And>e :: 'e. triple P (fail e) Q R"
  shows "triple P (and_then (of_result r) f) Q R"
  using assms
  by (cases r) simp_all

lemma items_protects:
  "same_items st st' \<Longrightarrow> protects st S = protects st' S"
  "same_items st st' \<Longrightarrow> well_indexed st = well_indexed st'"
  by (simp_all add: same_items_def protects_def status_at_def well_indexed_def)

lemma prepare_resume_safe:
  assumes "valid_state (jb_state j)" "protects (jb_state j) S"
  shows "triple untouched (prepare_resume E rp j tenant endpoint cwd)
     (\<lambda>j'. on_trace (engaged (loaded (jb_state j) S) {} (jb_state j')))
     (on_trace (traced (loaded (jb_state j) S)))"
proof -
  have warned: "triple (on_trace (engaged p0 T st)) (case warning of Some t \<Rightarrow> logs (Warning t) | None \<Rightarrow> ret ())
      (\<lambda>_. on_trace (engaged p0 T st)) (on_trace (traced p0))" for p0 T st warning
    by (cases warning; simp only: option.case)
       (rule trace_ret, assumption, rule trace_logs, erule engaged_line [OF accepts.warning])
  have body: "triple (on_trace (resting (jb_state j) S)) (prepare_resume E rp j tenant endpoint cwd)
     (\<lambda>j'. on_trace (engaged (loaded (jb_state j) S) {} (jb_state j'))) (on_trace (traced (loaded (jb_state j) S)))"
    unfolding prepare_resume_def
    apply (rule triple_and_then [where M = "\<lambda>_. on_trace (resting (jb_state j) S)"])
     apply (unfold note_job_def, rule trace_logs, erule executes_line [OF accepts.on_interrupt])
    apply (rule of_result_step)
     apply (rule answers_step [OF quiet_resolve_output resolve_output_answers], erule traced_loaded)
     apply (split prod.splits, intro allI impI, simp only: prod.case)
     apply (rule resting_step, rule quiet_sweep_temps)
     apply (rule resting_step, intro quiet_rules)
     apply (split prod.split, intro allI impI)
     apply (rule triple_and_then, rule resume_checkpoint_safe)
       apply (simp, rule settle_protects(1), erule items_protects(1) [THEN iffD1], rule assms(2))
        apply (erule items_protects(2) [THEN iffD1], rule valid_indexed [OF assms(1)], assumption)
      apply (simp, rule settle_protects(2) [where S = S], erule items_protects(1) [THEN iffD1], rule assms(2))
       apply (erule items_protects(2) [THEN iffD1], rule valid_indexed [OF assms(1)], assumption)
     apply (rule triple_and_then, rule warned)
     apply (rule triple_and_then [where M = "\<lambda>_. on_trace (engaged (loaded (jb_state j) S) {} (jb_state j'))" for j'])
      apply (rule trace_logs, erule engaged_line [OF accepts.on_interrupt])
     apply (rule triple_ret, assumption)
    apply (rule trace_fail, erule traced_loaded)
    done
  show ?thesis by (rule triple_weaken [OF body]) (auto simp: on_trace_def intro: executes_Nil)
qed

lemma continue_job_safe:
  "triple (on_trace (engaged p0 {} (jb_state j))) (continue_job E secrets j)
     (\<lambda>_. on_trace (traced p0)) (on_trace (traced p0))"
  unfolding continue_job_def
  apply (split option.split, intro conjI allI impI)
   apply (rule triple_and_then, rule lines_engaged)
   apply (rule job_step [OF run_resume_safe]; simp only: prod.case)
    apply (rule triple_and_then, rule note_engaged)
    apply (simp only: of_result_simps, rule save_and_finish_safe)
   apply (rule triple_and_then, rule note_traced)
   apply (simp only: of_result_simps, rule trace_fail, assumption)
  apply (rule job_step [OF recover_safe]; simp only: prod.case)
   apply (rule triple_and_then, rule note_engaged)
   apply (simp only: of_result_simps)
   apply (rule job_step [OF save_with_output_safe]; simp only: prod.case of_result_simps)
    apply (rule job_step [OF drop_lock_safe])
     apply (rule traced_of_engaged, rule trace_fail, assumption)
    apply (rule trace_fail, assumption)
   apply (rule trace_fail, assumption)
  apply (rule triple_and_then, rule note_traced)
  apply (simp only: of_result_simps, rule trace_fail, assumption)
  done

section \<open>The whole command\<close>

lemma open_job_answers: "answers (open_job E iv rp) (\<lambda>(j, _). valid_state (jb_state j))"
proof -
  have step: "answers (and_then (load E dir job) (\<lambda>(sf, st).
      ret (\<lparr>jb_state = st, jb_file = sf, jb_output = out st, jb_lock = lk\<rparr>, rest)))
    (\<lambda>(j, _). valid_state (jb_state j))" for dir job lk rest out
    using load_answers [of E dir job]
    by (auto simp: answers_def and_then_def ret_def split: prod.splits sum.splits)
  show ?thesis
    unfolding open_job_def
    apply (intro answers_rules)
    subgoal for _ _ _ _ _ _ connected by (cases connected) (simp only: prod.case, rule step)
    done
qed

text \<open>
  Whatever prompts the loaded state protects, a \<open>resume\<close> that opens it runs from there as the
  machine allows; one that opens nothing has no effect.
\<close>

lemma resume_traced:
  assumes "untouched w"
  shows "case fst (open_job E iv rp w) of
      Inl e \<Rightarrow> trace (snd (resume E iv rp w)) = []
    | Inr (j, rest) \<Rightarrow> protects (jb_state j) S \<longrightarrow>
        traced (loaded (jb_state j) S) (trace (snd (resume E iv rp w)))"
proof -
  obtain r w1 where opened: "open_job E iv rp w = (r, w1)" by fastforce
  have quiet: "untouched w1" using quiet_open_job [of E iv rp] assms opened
    by (metis on_trace_def quiet_def snd_conv)
  show ?thesis
  proof (cases r)
    case (Inl e)
    with opened quiet show ?thesis by (simp add: resume_def and_then_def on_trace_def)
  next
    case (Inr found)
    obtain j tenant endpoint cwd where o: "found = (j, tenant, endpoint, cwd)" by (cases found)
    have valid: "valid_state (jb_state j)"
      using open_job_answers [of E iv rp] opened Inr o unfolding answers_def by fastforce
    let ?m = "and_then (prepare_resume E rp j tenant endpoint cwd) (continue_job E (iv_secrets iv))"
    obtain r' w' where ended: "?m w1 = (r', w')" by fastforce
    have resumed: "resume E iv rp w = (r', w')"
      using opened Inr o ended by (simp add: resume_def and_then_def)
    have "traced (loaded (jb_state j) S) (trace w')" if kept: "protects (jb_state j) S"
    proof -
      have safe: "triple untouched ?m (\<lambda>_. on_trace (traced (loaded (jb_state j) S)))
          (on_trace (traced (loaded (jb_state j) S)))"
        by (rule triple_and_then [OF prepare_resume_safe [OF valid kept] continue_job_safe])
      show ?thesis
        using triple_Ok [OF safe quiet] triple_Err [OF safe quiet] ended by (cases r') (auto simp: on_trace_def)
    qed
    with opened Inr o resumed show ?thesis by simp
  qed
qed

text \<open>The prompts a state does not call pending: it protects them.\<close>

definition not_pending :: "job_state \<Rightarrow> nat set" where
  "not_pending st = set (filter (\<lambda>i. status_at st i \<noteq> Pending) [0..<length (j_items st)])"

lemma protects_not_pending: "protects st (not_pending st)"
  by (simp add: protects_def not_pending_def)

section \<open>Over the life of a job\<close>

lemma traced_lives: "traced fresh_proto t \<Longrightarrow> \<exists>p. lives t p"
  using lives_executes [OF _ lives_fresh] by (auto simp: traced_def)

text \<open>
  A session is one process: a command started in some outside world, of which the first \<open>n\<close>
  effects happen before the process dies (all of them when \<open>n\<close> is large enough).
\<close>

definition session :: "('w world, 'e, 'a) prog \<Rightarrow> 'w \<Rightarrow> nat \<Rightarrow> event list" where
  "session m x n = take n (trace (snd (m \<lparr>outside = x, trace = []\<rparr>)))"

text \<open>
  What a crash may leave as the state file: the state synced last and those renamed over it
  since. The sync of the directory settles it.
\<close>

fun renamed :: "job_state list \<Rightarrow> event \<Rightarrow> job_state list" where
  "renamed states (Renaming st) = states @ [st]"
| "renamed states Synced = [last states]"
| "renamed states _ = states"

definition on_disk_after :: "job_state list \<Rightarrow> event list \<Rightarrow> job_state list" where
  "on_disk_after = foldl renamed"

record 'w resumption =
  rs_os :: "'w os"
  rs_invocation :: invocation
  rs_plan :: resume_plan
  rs_outside :: 'w
  rs_effects :: nat

text \<open>
  A \<open>resume-poll\<close> belongs to the life of the job when it opens a state the sessions before may
  have left; one that opens nothing, or another job's state, does not touch this job.
\<close>

definition next_session :: "event list \<times> job_state list \<Rightarrow> 'w resumption \<Rightarrow> event list \<times> job_state list" where
  "next_session life r = (case life of (evs, states) \<Rightarrow>
     (case fst (open_job (rs_os r) (rs_invocation r) (rs_plan r) \<lparr>outside = rs_outside r, trace = []\<rparr>) of
        Inl _ \<Rightarrow> (evs, states)
      | Inr (j, _) \<Rightarrow>
          if jb_state j \<in> set states
          then (let t = session (resume (rs_os r) (rs_invocation r) (rs_plan r)) (rs_outside r) (rs_effects r)
                in (evs @ t, on_disk_after [jb_state j] t))
          else (evs, states)))"

definition job_life ::
  "'w os \<Rightarrow> invocation \<Rightarrow> bulk_plan \<Rightarrow> 'w \<Rightarrow> nat \<Rightarrow> 'w resumption list \<Rightarrow> event list \<times> job_state list" where
  "job_life E iv bp x n rs =
     (let t = session (run E iv bp) x n in foldl next_session (t, on_disk_after [] t) rs)"

text \<open>The machine follows such a life, and the states on disk are its candidates.\<close>

definition disk_of :: "proto \<Rightarrow> job_state list" where
  "disk_of p = (case saved p of Some st \<Rightarrow> [st] | None \<Rightarrow> []) @ limbo p"

lemma set_disk_of: "set (disk_of p) = candidates p"
  by (simp add: disk_of_def candidates_def split: option.split)

lemma executes_on_disk: "executes p t q \<Longrightarrow> on_disk_after (disk_of p) t = disk_of q"
proof (induction rule: executes.induct)
  case (executes_snoc p evs q ev q')
  from executes_snoc(2) have "renamed (disk_of q) ev = disk_of q'"
    by (cases rule: accepts.cases) (simp_all add: disk_of_def)
  with executes_snoc(3) show ?case by (simp add: on_disk_after_def)
qed (simp add: on_disk_after_def)

definition followed :: "event list \<times> job_state list \<Rightarrow> bool" where
  "followed life = (\<exists>p. lives (fst life) p \<and> snd life = disk_of p)"

lemma traced_prefix: "traced p t \<Longrightarrow> \<exists>q. executes p (take n t) q"
  unfolding traced_def by (metis append_take_drop_id executes_prefix)

lemma run_traced: "traced fresh_proto (trace (snd (run E iv bp \<lparr>outside = x, trace = []\<rparr>)))"
proof -
  have start: "untouched \<lparr>outside = x, trace = []\<rparr>" by (simp add: on_trace_def)
  obtain r w where ran: "run E iv bp \<lparr>outside = x, trace = []\<rparr> = (r, w)" by fastforce
  then have "on_trace (traced fresh_proto) w"
    using triple_Ok [OF run_safe start] triple_Err [OF run_safe start] by (cases r) simp_all
  with ran show ?thesis by (simp add: on_trace_def)
qed

lemma first_session_followed:
  "followed (session (run E iv bp) x n, on_disk_after [] (session (run E iv bp) x n))"
proof -
  obtain q where q: "executes fresh_proto (session (run E iv bp) x n) q"
    unfolding session_def by (rule exE [OF traced_prefix [OF run_traced]])
  from lives_executes [OF q lives_fresh] executes_on_disk [OF q] show ?thesis
    by (auto simp: followed_def disk_of_def fresh_proto_def)
qed

lemma next_session_followed:
  assumes "followed life"
  shows "followed (next_session life r)"
proof -
  obtain evs states where life: "life = (evs, states)" by (cases life)
  from assms obtain p where p: "lives evs p" "states = disk_of p" by (auto simp: followed_def life)
  let ?w = "\<lparr>outside = rs_outside r, trace = []\<rparr>"
  let ?S = "spent p \<union> in_flight p"
  let ?t = "session (resume (rs_os r) (rs_invocation r) (rs_plan r)) (rs_outside r) (rs_effects r)"
  have "followed (evs @ ?t, on_disk_after [jb_state j] ?t)"
    if o: "fst (open_job (rs_os r) (rs_invocation r) (rs_plan r) ?w) = Inr (j, rest)" and j: "jb_state j \<in> set states"
    for j rest
  proof -
    have from_p: "jb_state j \<in> candidates p" using j p(2) by (simp add: set_disk_of)
    with lives_crash_safe [OF p(1)] have "protects (jb_state j) ?S" by (simp add: crash_safe_def)
    moreover have "untouched ?w" by (simp add: on_trace_def)
    ultimately have "traced (loaded (jb_state j) ?S) (trace (snd (resume (rs_os r) (rs_invocation r) (rs_plan r) ?w)))"
      using resume_traced [of ?w "rs_os r" "rs_invocation r" "rs_plan r" ?S] o by simp
    moreover have "loaded (jb_state j) ?S = restarted p (jb_state j)" by (simp add: loaded_def restarted_def)
    ultimately obtain q where q: "executes (restarted p (jb_state j)) ?t q"
      using traced_prefix unfolding session_def by metis
    have "on_disk_after [jb_state j] ?t = disk_of q"
      using executes_on_disk [OF q] by (simp add: disk_of_def restarted_def)
    with lives_executes [OF q lives_restart [OF p(1) from_p]] show ?thesis by (auto simp: followed_def)
  qed
  with assms show ?thesis by (auto simp: next_session_def life Let_def split: sum.split)
qed

lemma job_life_followed: "followed (job_life E iv bp x n rs)"
proof -
  have on: "followed life \<Longrightarrow> followed (foldl next_session life rs)" for life
    by (induction rs arbitrary: life) (simp_all add: next_session_followed)
  show ?thesis unfolding job_life_def Let_def by (rule on [OF first_session_followed])
qed

text \<open>
  A state remembers a trace when it calls none of the posted prompts pending, those whose
  every POST was refused aside.
\<close>

definition posted :: "event list \<Rightarrow> nat list" where
  "posted evs = concat (map (\<lambda>ev. case ev of Post objects \<Rightarrow> map so_req_id objects | _ \<Rightarrow> []) evs)"

definition remembers :: "event list \<Rightarrow> job_state \<Rightarrow> bool" where
  "remembers evs st = list_all (\<lambda>i. posts_of i evs \<le> refusals_of i evs
     \<or> i < length (j_items st) \<and> status_at st i \<noteq> Pending) (posted evs)"

lemma followed_posts: "followed life \<Longrightarrow> posts_of i (fst life) \<le> refusals_of i (fst life) + 1"
  using lives_posts [of "fst life" _ i] by (fastforce simp: followed_def split: if_splits)

lemma followed_remembers: "followed life \<Longrightarrow> list_all (remembers (fst life)) (snd life)"
proof -
  assume "followed life"
  then obtain p where p: "lives (fst life) p" "snd life = disk_of p" by (auto simp: followed_def)
  have "i < length (j_items st) \<and> status_at st i \<noteq> Pending"
    if st: "st \<in> candidates p" and more: "\<not> posts_of i (fst life) \<le> refusals_of i (fst life)" for st i
  proof -
    have "i \<in> spent p \<union> in_flight p" using lives_posts [OF p(1), of i] more by (auto split: if_splits)
    with lives_crash_safe [OF p(1)] st show ?thesis by (auto simp: crash_safe_def protects_def)
  qed
  then show ?thesis
    using p(2) set_disk_of [of p] by (auto simp: list_all_iff remembers_def)
qed

section \<open>Every valid state can be opened\<close>

text \<open>
  A system on which all calls succeed, with the state directory of \<open>XDG_STATE_HOME=/s\<close> and a
  state file that holds \<open>st\<close>: there the lives above do go on.
\<close>

definition kept_dir :: str where "kept_dir = ''/s/airs-cli/bulk-scans''"

definition kept_stat :: "bool \<Rightarrow> file_stat" where
  "kept_stat is_dir = \<lparr>st_kind = (if is_dir then Directory else RegularFile), st_uid = 0, st_mode = 0,
     st_size = 0, st_dev = 1, st_ino = 1\<rparr>"

definition keeping_os :: "job_state \<Rightarrow> unit os" where
  "keeping_os st =
     \<lparr>os_lstat = \<lambda>p w. (Ok (kept_stat (p = kept_dir)), w), os_stat = \<lambda>p w. (Ok (kept_stat False), w),
      os_canonicalize = \<lambda>p w. (Ok p, w), os_create_dirs = \<lambda>_ w. (Ok (), w), os_open_dir = \<lambda>_ w. (Ok 0, w),
      os_create_excl = \<lambda>_ w. (Ok 1, w), os_open_read = \<lambda>_ w. (Ok 1, w), os_open_rdwr = \<lambda>_ w. (Ok 1, w),
      os_fchmod = \<lambda>_ w. (Ok (), w), os_write_all = \<lambda>_ _ w. (Ok (), w), os_sync_all = \<lambda>_ w. (Ok (), w),
      os_fstat = \<lambda>fd w. (Ok (kept_stat (fd = 0)), w), os_read = \<lambda>_ _ w. (Ok [], w),
      os_rename = \<lambda>_ _ w. (Ok (), w), os_unlink = \<lambda>_ w. (Ok (), w), os_sync_dir = \<lambda>_ w. (Ok (), w),
      os_read_dir = \<lambda>_ w. (Ok [], w), os_flock = \<lambda>_ w. (Ok (), w), os_truncate = \<lambda>_ w. (Ok (), w),
      os_close = \<lambda>_ w. (Ok (), w), os_now = \<lambda>w. (\<lparr>secs = 0, subsec_millis = 0\<rparr>, w), os_monotonic = \<lambda>w. (0, w),
      os_random = \<lambda>w. ([], w), os_cancelled = \<lambda>w. (False, w), os_sleep = \<lambda>_ w. (False, w),
      os_submit = \<lambda>_ w. ((Ok \<lparr>rc_scan_id = ''id'', rc_report_id = None\<rparr>, None), w),
      os_results = \<lambda>_ w. (Ok [], w), os_reports = \<lambda>_ w. (Ok [], w), os_euid = 0, os_pid = 1, os_host = ''h'',
      os_serialise = \<lambda>_. Some [], os_from_slice = \<lambda>_. Some JNull, os_from_value = \<lambda>_. Some st,
      os_sdk = \<lparr>sdk_build = \<lambda>_. True, sdk_size = \<lambda>_. Some 0, sdk_max_request = 5000000\<rparr>, os_js_number = \<lambda>_. []\<rparr>"

definition kept_invocation :: invocation where
  "kept_invocation = \<lparr>iv_cwd = Some ''/'', iv_xdg_state_home = Some ''/s'', iv_home = None,
     iv_connect = Ok (''t'', ''e''), iv_secrets = []\<rparr>"

definition resuming :: "job_state \<Rightarrow> nat \<Rightarrow> unit resumption" where
  "resuming st n = \<lparr>rs_os = keeping_os st, rs_invocation = kept_invocation,
     rs_plan = \<lparr>rp_state_file = kept_dir @ ''/'' @ j_job_id st @ state_suffix, rp_output_file = None\<rparr>,
     rs_outside = (), rs_effects = n\<rparr>"

lemma kept_dir_path: "state_dir_path (Some ''/s'') None = Ok kept_dir"
  unfolding kept_dir_def by code_simp

lemma job_id_chars:
  assumes "is_job_id job"
  shows "CHR ''/'' \<notin> set job" "job \<noteq> []"
proof -
  have slash: "\<not> is_digit CHR ''/''" "\<not> is_lower_hex CHR ''/''" by code_simp+
  have "job ! n \<noteq> CHR ''/''" if n: "n < length job" for n
  proof
    assume "job ! n = CHR ''/''"
    moreover have "if n \<le> 7 \<or> 9 \<le> n \<and> n \<le> 14 then is_digit (job ! n)
        else if n = 8 then job ! n = CHR ''T'' else if n = 15 then job ! n = CHR ''Z''
        else if n = 16 then job ! n = CHR ''-'' else is_lower_hex (job ! n)"
      using assms n by (simp only: is_job_id_def all_indexed_from_nth) simp
    ultimately show False using slash by (simp split: if_splits)
  qed
  then show "CHR ''/'' \<notin> set job" by (metis in_set_conv_nth)
  show "job \<noteq> []" using assms by (auto simp: is_job_id_def)
qed

lemma kept_path:
  assumes "is_job_id job"
  shows "components (kept_dir @ CHR ''/'' # job @ state_suffix) = [''s'', ''airs-cli'', ''bulk-scans'', job @ state_suffix]"
    "has_root (kept_dir @ CHR ''/'' # job @ state_suffix)"
    "joined kept_dir (job @ state_suffix) = kept_dir @ CHR ''/'' # job @ state_suffix"
proof -
  have plain: "CHR ''/'' \<notin> set (job @ state_suffix)"
    using job_id_chars(1) [OF assms] by (simp add: state_suffix_def)
  have "job @ state_suffix \<noteq> ''.''" by (simp add: state_suffix_def append_eq_Cons_conv)
  then show "components (kept_dir @ CHR ''/'' # job @ state_suffix) = [''s'', ''airs-cli'', ''bulk-scans'', job @ state_suffix]"
    using split_on_none [OF plain] by (simp add: components_def kept_dir_def state_suffix_def)
  show "has_root (kept_dir @ CHR ''/'' # job @ state_suffix)" by (simp add: has_root_def kept_dir_def starts_with_def)
  have "\<not> has_root (job @ state_suffix)"
    using job_id_chars [OF assms] by (cases job) (auto simp: has_root_def starts_with_def)
  then show "joined kept_dir (job @ state_suffix) = kept_dir @ CHR ''/'' # job @ state_suffix"
    by (simp add: joined_def kept_dir_def ends_with_def)
qed

text \<open>The calls of \<open>keeping_os\<close> one by one.\<close>

lemmas on_kept = and_then_def tries_def calls_def mapped_err_def attempted_def ret_def kept_stat_def

lemma kept_steps:
  "open_state_dir (keeping_os st) kept_dir w = (Ok kept_dir, w)"
  "cancelled (keeping_os st) w = (Ok False, w)"
  "\<exists>lock. acquire_lock (keeping_os st) dir job shown_state w = (Ok lock, w)"
proof -
  show "open_state_dir (keeping_os st) kept_dir w = (Ok kept_dir, w)"
    by (simp add: open_state_dir_def on_kept keeping_os_def dir_ok_def dir_metadata_ok_def)
  show "cancelled (keeping_os st) w = (Ok False, w)"
    by (simp add: cancelled_def on_kept keeping_os_def)
  have "\<exists>lock. acquire_loop (keeping_os st) (Suc n) name path shown_state w = (Ok lock, w)" for n name path
    by (simp add: open_existing_def lock_file_def still_named_def on_kept keeping_os_def identity_of_def)
  then show "\<exists>lock. acquire_lock (keeping_os st) dir job shown_state w = (Ok lock, w)"
    unfolding acquire_lock_def lock_attempts_def numeral_3_eq_3 .
qed

lemma kept_locate:
  assumes "is_job_id job"
  shows "locate (keeping_os st) (kept_dir @ CHR ''/'' # job @ state_suffix) ''/'' kept_dir w = (Ok job, w)"
proof -
  let ?p = "kept_dir @ CHR ''/'' # job @ state_suffix"
  have "job @ state_suffix \<noteq> ''..''" by (simp add: state_suffix_def append_eq_Cons_conv)
  then have "file_name ?p = Some (job @ state_suffix)" by (simp add: file_name_def kept_path(1) [OF assms])
  moreover have "parent ?p = Some kept_dir"
    using kept_path(1,2) [OF assms] by (simp add: parent_def path_text_def kept_dir_def)
  moreover have "joined ''/'' ?p = ?p" using kept_path(2) [OF assms] by (simp add: joined_def)
  ultimately show ?thesis
    using assms by (simp add: locate_def on_kept keeping_os_def job_of_def)
qed

lemma valid_job_id: "valid_state st \<Longrightarrow> is_job_id (j_job_id st)"
  unfolding valid_state_def header_ok_def check_header_def first_failure_Ok by auto

lemma kept_load:
  assumes "valid_state st"
  shows "\<exists>file. load (keeping_os st) kept_dir (j_job_id st) w = (Ok (file, st), w)"
proof -
  have "validate st = Ok ()" using assms by (simp add: validate_valid)
  then show ?thesis
    using kept_path(3) [OF valid_job_id [OF assms]]
    by (simp add: load_def Let_def new_file_def file_path_def on_kept keeping_os_def private_regular_def
        parse_state_def identity_of_def)
qed

lemma valid_state_opens:
  assumes "valid_state st"
  shows "case fst (open_job (keeping_os st) (rs_invocation (resuming st n)) (rs_plan (resuming st n)) w) of
    Inr (j, _) \<Rightarrow> jb_state j = st | Inl _ \<Rightarrow> False"
proof -
  note id = valid_job_id [OF assms]
  obtain sf where "load (keeping_os st) kept_dir (j_job_id st) w = (Ok (sf, st), w)"
    using kept_load [OF assms] by blast
  moreover obtain lock where "acquire_lock (keeping_os st) kept_dir (j_job_id st)
      (shown (joined kept_dir (j_job_id st @ state_suffix))) w = (Ok lock, w)"
    using kept_steps(3) by blast
  ultimately show ?thesis
    using kept_locate [OF id, of st w] kept_dir_path
    by (simp add: open_job_def resuming_def kept_invocation_def working_directory_def and_then_def of_result_def
        ret_def kept_steps(1,2))
qed

text \<open>So no life ends at a valid state: a resumption that opens it is the next session.\<close>

lemma life_goes_on:
  assumes "valid_state st" "st \<in> set states"
  shows "next_session (evs, states) (resuming st n) =
    (let r = resuming st n; t = session (resume (rs_os r) (rs_invocation r) (rs_plan r)) () n
     in (evs @ t, on_disk_after [st] t))"
  using valid_state_opens [OF assms(1), of n "\<lparr>outside = (), trace = []\<rparr>"] assms(2)
  by (auto simp: next_session_def resuming_def Let_def split: sum.splits prod.splits)

end
