(* ===== verification/SecretsCorrect.thy ===== *)
theory SecretsCorrect
  imports Secrets "HOL-Library.Sublist"
begin

text \<open>
  The matcher of \<open>src/secrets.rs\<close> decides containment: it is built for every list of
  patterns, one pass over a text ends, and it answers whether some pattern occurs in it.
  A node stands for its path; \<open>trie\<close> says that the nodes are the prefixes of the patterns,
  \<open>linked\<close> that a failure link leads to the longest proper suffix that is also a path.
\<close>

section \<open>The children of a node\<close>

definition by_byte :: "(char \<times> nat) list \<Rightarrow> bool" where
  "by_byte xs = sorted_wrt (\<lambda>a b. code (fst a) < code (fst b)) xs"

lemma code_inj: "code a = code b \<longleftrightarrow> a = b"
  by (simp add: code_def)

lemma search_from_Ok:
  "by_byte xs \<Longrightarrow> search_from i b xs = Ok k \<Longrightarrow> i \<le> k \<and> k - i < length xs \<and> map_of xs b = Some (snd (xs ! (k - i)))"
proof (induction i b xs rule: search_from.induct)
  case (2 i b k' v xs)
  then show ?case by (auto simp: by_byte_def nth_Cons' Suc_diff_le split: if_splits)
qed simp

lemma search_from_Err:
  "by_byte xs \<Longrightarrow> search_from i b xs = Err k \<Longrightarrow> map_of xs b = None
     \<and> i \<le> k \<and> k - i \<le> length xs
     \<and> (\<forall>a \<in> set (take (k - i) xs). code (fst a) < code b) \<and> (\<forall>a \<in> set (drop (k - i) xs). code b < code (fst a))"
proof (induction i b xs rule: search_from.induct)
  case (2 i b k' v xs)
  show ?case
  proof (cases "k' = b")
    case False
    show ?thesis
    proof (cases "code b < code k'")
      case True
      with 2(2,3) False show ?thesis
        by (fastforce simp: by_byte_def map_of_eq_None_iff)
    next
      case big: False
      then have "code k' < code b" using False code_inj by (metis linorder_neqE_nat)
      with 2 False big show ?thesis by (auto simp: by_byte_def Suc_diff_le take_Cons' drop_Cons' split: if_splits)
    qed
  qed (use 2 in simp)
qed simp

lemma child_map_of: "by_byte (next_of (nodes ! at)) \<Longrightarrow> child nodes at b = map_of (next_of (nodes ! at)) b"
  unfolding child_def binary_search_def
  by (auto dest: search_from_Ok search_from_Err split: sum.split)

lemma by_byte_insert:
  assumes "by_byte xs" "search_from 0 b xs = Err k"
  shows "by_byte (insert_at k (b, c) xs)" "map_of (insert_at k (b, c) xs) = (map_of xs)(b \<mapsto> c)"
    "set (insert_at k (b, c) xs) = insert (b, c) (set xs)"
proof -
  note k = search_from_Err [OF assms, simplified]
  have parts: "sorted_wrt (\<lambda>a b. code (fst a) < code (fst b)) (take k xs @ drop k xs)"
    using assms(1) by (simp add: by_byte_def)
  show "by_byte (insert_at k (b, c) xs)"
    using parts k unfolding by_byte_def insert_at_def sorted_wrt_append by auto
  have absent: "map_of (take k xs) b = None"
    using k by (auto simp: map_of_eq_None_iff dest: in_set_takeD)
  have whole: "map_of xs = map_of (drop k xs) ++ map_of (take k xs)"
    by (metis append_take_drop_id map_of_append)
  show "map_of (insert_at k (b, c) xs) = (map_of xs)(b \<mapsto> c)"
    using absent unfolding insert_at_def whole
    by (auto simp: fun_eq_iff map_add_def split: option.split)
  show "set (insert_at k (b, c) xs) = insert (b, c) (set xs)"
    unfolding insert_at_def by (simp, metis append_take_drop_id set_append)
qed

section \<open>The trie\<close>

definition tree :: "str set \<Rightarrow> node list \<Rightarrow> str list \<Rightarrow> bool" where
  "tree F nodes P = (length P = length nodes \<and> 0 < length nodes \<and> P ! 0 = [] \<and> distinct P \<and> set P = F
     \<and> (\<forall>w b. w @ [b] \<in> F \<longrightarrow> w \<in> F)
     \<and> (\<forall>at < length nodes. by_byte (next_of (nodes ! at))
          \<and> (\<forall>b c. map_of (next_of (nodes ! at)) b = Some c \<longleftrightarrow> c < length nodes \<and> P ! c = P ! at @ [b])))"

definition ends :: "str set \<Rightarrow> node list \<Rightarrow> str list \<Rightarrow> bool" where
  "ends S nodes P = (S \<subseteq> set P \<and> (\<forall>at < length nodes. end_of (nodes ! at) \<longleftrightarrow> P ! at \<in> S))"

lemma tree_child:
  "tree F nodes P \<Longrightarrow> at < length nodes \<Longrightarrow> child nodes at b = Some c \<longleftrightarrow> c < length nodes \<and> P ! c = P ! at @ [b]"
  by (simp add: tree_def child_map_of)

lemma tree_no_child:
  assumes "tree F nodes P" "at < length nodes"
  shows "child nodes at b = None \<longleftrightarrow> P ! at @ [b] \<notin> F"
proof -
  have "child nodes at b \<noteq> None \<longleftrightarrow> (\<exists>c < length nodes. P ! c = P ! at @ [b])"
    by (simp add: tree_child [OF assms] not_None_eq)
  also have "\<dots> \<longleftrightarrow> P ! at @ [b] \<in> F"
  proof -
    have F: "F = set P" "length P = length nodes" using assms(1) by (auto simp: tree_def)
    show ?thesis unfolding F(1) in_set_conv_nth F(2) by blast
  qed
  finally show ?thesis by blast
qed

lemma tree_path: "tree F nodes P \<Longrightarrow> i < length nodes \<Longrightarrow> P ! i \<in> F"
  by (auto simp: tree_def)

lemma tree_inj: "tree F nodes P \<Longrightarrow> i < length nodes \<Longrightarrow> j < length nodes \<Longrightarrow> P ! i = P ! j \<longleftrightarrow> i = j"
  by (auto simp: tree_def nth_eq_iff_index_eq)

lemma tree_grow:
  assumes "tree F nodes P" "ends S nodes P" "at < length nodes" "binary_search b (next_of (nodes ! at)) = Err slot"
  defines "w \<equiv> P ! at @ [b]" and "c \<equiv> length nodes"
  defines "nodes' \<equiv> (nodes @ [default_node])[at := (nodes ! at)\<lparr>next_of := insert_at slot (b, c) (next_of (nodes ! at))\<rparr>]"
  shows "tree (insert w F) nodes' (P @ [w])" "ends S nodes' (P @ [w])"
proof -
  have sorted: "by_byte (next_of (nodes ! at))" using assms(1,3) by (simp add: tree_def)
  note ins = by_byte_insert [OF sorted assms(4) [unfolded binary_search_def], of c]
  have w: "w \<notin> F"
    using tree_no_child [OF assms(1,3)] search_from_Err [OF sorted assms(4) [unfolded binary_search_def]]
    by (simp add: w_def child_map_of [OF sorted])
  have len: "length P = length nodes" "length nodes' = Suc c" using assms(1) by (simp_all add: tree_def nodes'_def c_def)
  have old: "nodes' ! i = (if i = at then (nodes ! at)\<lparr>next_of := insert_at slot (b, c) (next_of (nodes ! at))\<rparr> else nodes ! i)"
    if "i < c" for i using that assms(3) by (simp add: nodes'_def c_def nth_append)
  have new: "nodes' ! c = default_node" using assms(3) by (simp add: nodes'_def c_def)
  have path: "(P @ [w]) ! i = (if i < c then P ! i else w)" if "i \<le> c" for i
    using that len(1) by (simp add: nth_append c_def)
  have node: "by_byte (next_of (nodes' ! i)) \<and> (\<forall>b' c'. map_of (next_of (nodes' ! i)) b' = Some c'
      \<longleftrightarrow> c' < Suc c \<and> (P @ [w]) ! c' = (P @ [w]) ! i @ [b'])" if i: "i < Suc c" for i
  proof (cases "i = c")
    case True
    have "x \<noteq> w @ [b']" if "x \<in> insert w F" for x b' using that w assms(1) by (auto simp: tree_def)
    moreover have "(P @ [w]) ! c' \<in> insert w F" if "c' < Suc c" for c'
      using that tree_path [OF assms(1), of c'] by (simp add: path c_def)
    ultimately show ?thesis using True path [of c] by (auto simp: new default_node_def by_byte_def)
  next
    case False
    with i have i: "i < length nodes" by (simp add: c_def)
    have edges: "map_of (next_of (nodes ! i)) b' = Some c' \<longleftrightarrow> c' < c \<and> P ! c' = P ! i @ [b']" for b' c'
      using assms(1) i by (simp add: tree_def c_def)
    have away: "w = P ! i @ [b'] \<longleftrightarrow> i = at \<and> b' = b" for b'
      using tree_inj [OF assms(1) i assms(3)] by (auto simp: w_def)
    have outside: "P ! c' \<noteq> w" if "c' < c" for c' using that w tree_path [OF assms(1)] by (auto simp: c_def)
    show ?thesis
    proof (cases "i = at")
      case True
      with i away outside show ?thesis
        using ins(1,2) edges old [of i] path [of i] path by (auto simp: c_def less_Suc_eq w_def)
    next
      case other: False
      with i away show ?thesis
        using edges old [of i] path [of i] path assms(1) by (auto simp: c_def less_Suc_eq tree_def)
    qed
  qed
  show "tree (insert w F) nodes' (P @ [w])"
    unfolding tree_def len
    using assms(1) w node path [of 0] tree_path [OF assms(1,3)] assms(3)
    by (auto simp: tree_def w_def c_def)
  show "ends S nodes' (P @ [w])"
    using assms(1,2) w old path new len
    by (auto simp: ends_def less_Suc_eq default_node_def c_def tree_def)
qed

lemma insert_byte_tree:
  assumes "tree F nodes P" "ends S nodes P" "at < length nodes" "insert_byte (nodes, at) b = (nodes', at')"
  shows "\<exists>P'. tree (insert (P ! at @ [b]) F) nodes' P' \<and> ends S nodes' P' \<and> at' < length nodes' \<and> P' ! at' = P ! at @ [b]"
proof (cases "binary_search b (next_of (nodes ! at))")
  case (Inl slot)
  with assms(4) have "nodes' = (nodes @ [default_node])[at := (nodes ! at)\<lparr>next_of := insert_at slot (b, length nodes) (next_of (nodes ! at))\<rparr>]"
    "at' = length nodes" using assms(3) by (auto simp: insert_byte_def Let_def nth_append)
  moreover have "(P @ [P ! at @ [b]]) ! length nodes = P ! at @ [b]" using assms(1) by (simp add: tree_def nth_append)
  ultimately show ?thesis
    using tree_grow [OF assms(1-3) Inl] by (intro exI [of _ "P @ [P ! at @ [b]]"]) simp
next
  case (Inr found)
  then have "child nodes at b = Some at'" "nodes' = nodes" using assms(4) by (auto simp: insert_byte_def child_def)
  then have "at' < length nodes" "P ! at' = P ! at @ [b]" using tree_child [OF assms(1,3)] by auto
  moreover have "insert (P ! at @ [b]) F = F" using tree_path [OF assms(1) calculation(1)] calculation(2) by auto
  ultimately show ?thesis using assms(1,2) \<open>nodes' = nodes\<close> by (intro exI [of _ P]) simp
qed

lemma insert_bytes_tree:
  "tree F nodes P \<Longrightarrow> ends S nodes P \<Longrightarrow> at < length nodes \<Longrightarrow> foldl insert_byte (nodes, at) p = (nodes', at') \<Longrightarrow>
   \<exists>P'. tree (F \<union> {P ! at @ q | q. prefix q p}) nodes' P' \<and> ends S nodes' P' \<and> at' < length nodes' \<and> P' ! at' = P ! at @ p"
proof (induction p arbitrary: F nodes P at)
  case Nil
  then have "F \<union> {P ! at @ q | q. prefix q []} = F" using tree_path [OF Nil(1,3)] by auto
  with Nil show ?case by auto
next
  case (Cons b p)
  obtain n1 a1 where step: "insert_byte (nodes, at) b = (n1, a1)" by fastforce
  from insert_byte_tree [OF Cons(2-4) step] obtain P1 where
    P1: "tree (insert (P ! at @ [b]) F) n1 P1" "ends S n1 P1" "a1 < length n1" "P1 ! a1 = P ! at @ [b]" by blast
  have "foldl insert_byte (n1, a1) p = (nodes', at')" using Cons(5) step by simp
  from Cons.IH [OF P1(1-3) this] obtain P' where
    P': "tree (insert (P ! at @ [b]) F \<union> {P1 ! a1 @ q | q. prefix q p}) nodes' P'" "ends S nodes' P'"
      "at' < length nodes'" "P' ! at' = P1 ! a1 @ p" by blast
  have "insert (P ! at @ [b]) F \<union> {P1 ! a1 @ q | q. prefix q p} = F \<union> {P ! at @ q | q. prefix q (b # p)}"
    using tree_path [OF Cons(2,4)] unfolding P1(4) by (auto simp: prefix_Cons)
  with P' P1(4) show ?case by auto
qed

lemma tree_cong:
  assumes "length nodes' = length nodes" "\<And>i. i < length nodes \<Longrightarrow> next_of (nodes' ! i) = next_of (nodes ! i)"
  shows "tree F nodes' P = tree F nodes P"
  unfolding tree_def assms(1) using assms(2) by simp

lemma insert_pattern_tree:
  assumes "tree F nodes P" "ends S nodes P"
  shows "\<exists>P'. tree (F \<union> {q. prefix q p}) (insert_pattern nodes p) P' \<and> ends (insert p S) (insert_pattern nodes p) P'"
proof -
  obtain nodes' at where steps: "foldl insert_byte (nodes, 0) p = (nodes', at)" by fastforce
  have root: "0 < length nodes" "P ! 0 = []" using assms(1) by (auto simp: tree_def)
  from insert_bytes_tree [OF assms root(1) steps] root(2) obtain P' where
    P': "tree (F \<union> {q. prefix q p}) nodes' P'" "ends S nodes' P'" "at < length nodes'" "P' ! at = p" by auto
  have "insert_pattern nodes p = nodes'[at := (nodes' ! at)\<lparr>end_of := True\<rparr>]"
    by (simp add: insert_pattern_def steps)
  moreover have "tree (F \<union> {q. prefix q p}) (nodes'[at := (nodes' ! at)\<lparr>end_of := True\<rparr>]) P'"
    using P'(1,3) by (subst tree_cong [of _ nodes']) (auto simp: nth_list_update)
  moreover have "ends (insert p S) (nodes'[at := (nodes' ! at)\<lparr>end_of := True\<rparr>]) P'"
    using P'(2-4) tree_inj [OF P'(1) _ P'(3)] P'(1) by (auto simp: ends_def nth_list_update tree_def)
  ultimately show ?thesis by auto
qed

definition paths :: "str list \<Rightarrow> str set" where
  "paths ps = insert [] {q. \<exists>p \<in> set ps. prefix q p}"

lemma paths_snoc: "paths (ps @ [p]) = paths ps \<union> {q. prefix q p}"
  by (auto simp: paths_def)

lemma build_trie_tree: "\<exists>P. tree (paths ps) (build_trie ps) P \<and> ends (set ps) (build_trie ps) P"
proof (induction ps rule: rev_induct)
  case Nil
  have "tree {[]} [default_node] [[]] \<and> ends {} [default_node] [[]]"
    by (auto simp: tree_def ends_def default_node_def by_byte_def)
  then show ?case by (auto simp: paths_def build_trie_def)
next
  case (snoc p ps)
  then obtain P where "tree (paths ps) (build_trie ps) P" "ends (set ps) (build_trie ps) P" by blast
  from insert_pattern_tree [OF this, of p] show ?case
    by (simp add: paths_snoc build_trie_def)
qed

section \<open>Failure links\<close>

definition longest :: "str set \<Rightarrow> str \<Rightarrow> str \<Rightarrow> bool" where
  "longest F w u = (u \<in> F \<and> suffix u w \<and> (\<forall>s \<in> F. suffix s w \<longrightarrow> suffix s u))"

definition proper :: "str set \<Rightarrow> str \<Rightarrow> str \<Rightarrow> bool" where
  "proper F w u = (u \<in> F \<and> strict_suffix u w \<and> (\<forall>s \<in> F. strict_suffix s w \<longrightarrow> suffix s u))"

definition link_ok :: "str set \<Rightarrow> node list \<Rightarrow> str list \<Rightarrow> nat \<Rightarrow> bool" where
  "link_ok F nodes P x = (x = 0 \<or> fail_of (nodes ! x) < length nodes \<and> proper F (P ! x) (P ! fail_of (nodes ! x)))"

lemma tree_closed: "tree F nodes P \<Longrightarrow> w @ [b] \<in> F \<Longrightarrow> w \<in> F"
  by (auto simp: tree_def)

lemma tree_root: "tree F nodes P \<Longrightarrow> [] \<in> F \<and> 0 < length nodes \<and> P ! 0 = []"
  using tree_path [of F nodes P 0] by (auto simp: tree_def)

lemma suffix_snoc_cases: "suffix s (w @ [b]) \<longleftrightarrow> s = [] \<or> (\<exists>s'. s = s' @ [b] \<and> suffix s' w)"
  by (cases s rule: rev_cases) auto

lemma strict_suffix_snoc_cases: "strict_suffix s (w @ [b]) \<longleftrightarrow> s = [] \<or> (\<exists>s'. s = s' @ [b] \<and> strict_suffix s' w)"
  by (cases s rule: rev_cases) (auto simp: strict_suffix_def)

text \<open>The longest suffix of a path and a byte, through the failure link.\<close>

lemma longest_step:
  assumes "tree F nodes P" "proper F w v" "w @ [b] \<notin> F" "longest F (v @ [b]) u"
  shows "longest F (w @ [b]) u"
proof -
  have "suffix u (w @ [b])"
    using assms(2,4) by (auto simp: longest_def proper_def strict_suffix_def intro: suffix_order.trans suffix_appendI)
  moreover have "suffix s u" if "s \<in> F" "suffix s (w @ [b])" for s
  proof (cases s rule: rev_cases)
    case (snoc s' b')
    with that have s': "b' = b" "suffix s' w" by auto
    then have "s' \<noteq> w" using that(1) snoc assms(3) by auto
    with s' have "strict_suffix s' w" by (simp add: strict_suffix_def)
    moreover have "s' \<in> F" using tree_closed [OF assms(1)] that(1) snoc by blast
    ultimately have "suffix s (v @ [b])" using assms(2) s'(1) snoc by (simp add: proper_def)
    with assms(4) that(1) show ?thesis unfolding longest_def by blast
  qed simp
  ultimately show ?thesis using assms(4) by (simp add: longest_def)
qed

lemma proper_step:
  assumes "tree F nodes P" "proper F w v" "longest F (v @ [b]) u"
  shows "proper F (w @ [b]) u"
proof -
  have v: "strict_suffix v w" using assms(2) by (simp add: proper_def)
  have "length u \<le> length v + 1" using assms(3) by (auto simp: longest_def dest: suffix_length_le)
  moreover have "length v < length w" using v by (auto simp: strict_suffix_def suffix_def)
  moreover have "suffix u (w @ [b])" using assms(3) v
    by (auto simp: longest_def strict_suffix_def intro: suffix_order.trans)
  ultimately have "strict_suffix u (w @ [b])" by (auto simp: strict_suffix_def)
  moreover have "suffix s u" if "s \<in> F" "strict_suffix s (w @ [b])" for s
  proof (cases s rule: rev_cases)
    case (snoc s' b')
    with that have s': "b' = b" "strict_suffix s' w" by (auto simp: strict_suffix_snoc_cases)
    moreover have "s' \<in> F" using tree_closed [OF assms(1)] that(1) snoc by blast
    ultimately have "suffix s (v @ [b])" using assms(2) snoc by (simp add: proper_def)
    with assms(3) that(1) show ?thesis unfolding longest_def by blast
  qed simp
  ultimately show ?thesis using assms(3) by (simp add: longest_def proper_def)
qed

lemma path_shorter: "tree F nodes P \<Longrightarrow> at < length nodes \<Longrightarrow> length (P ! at) < length nodes"
proof -
  assume t: "tree F nodes P" and at: "at < length nodes"
  have "w \<in> F \<Longrightarrow> prefix q w \<Longrightarrow> q \<in> F" for w q
  proof (induction w rule: rev_induct)
    case (snoc b w)
    then show ?case using tree_closed [OF t] by (auto simp: prefix_snoc)
  qed simp
  then have "set (prefixes (P ! at)) \<subseteq> set P" using tree_path [OF t at] t by (auto simp: tree_def)
  then have "card (set (prefixes (P ! at))) \<le> card (set P)" by (rule card_mono [OF finite_set])
  moreover have "card (set P) = length nodes" "card (set (prefixes (P ! at))) = length (P ! at) + 1"
    using t distinct_card [OF distinct_prefixes, of "P ! at"] by (auto simp: tree_def distinct_card)
  ultimately show ?thesis by simp
qed

lemma proper_shorter: "proper F w v \<Longrightarrow> length v < length w"
  by (auto simp: proper_def strict_suffix_def suffix_def)

lemma follow_longest:
  assumes "tree F nodes P"
  shows "at < length nodes \<Longrightarrow> length (P ! at) < fuel \<Longrightarrow>
    (\<And>x. x < length nodes \<Longrightarrow> length (P ! x) \<le> length (P ! at) \<Longrightarrow> link_ok F nodes P x) \<Longrightarrow>
    \<exists>r < length nodes. follow fuel nodes at b = Some r \<and> longest F (P ! at @ [b]) (P ! r)"
proof (induction fuel arbitrary: at)
  case (Suc fuel)
  show ?case
  proof (cases "child nodes at b")
    case (Some c)
    then have "c < length nodes" "P ! c = P ! at @ [b]" using tree_child [OF assms Suc.prems(1)] by auto
    with Some tree_path [OF assms, of c] show ?thesis by (auto simp: longest_def)
  next
    case None
    then have no: "P ! at @ [b] \<notin> F" using tree_no_child [OF assms Suc.prems(1)] by simp
    show ?thesis
    proof (cases "at = 0")
      case True
      with None no tree_root [OF assms] show ?thesis
        by (auto simp: longest_def suffix_snoc_cases [where w = "[]", simplified])
    next
      case False
      let ?f = "fail_of (nodes ! at)"
      have f: "?f < length nodes" "proper F (P ! at) (P ! ?f)"
        using Suc.prems(3) [OF Suc.prems(1)] False by (auto simp: link_ok_def)
      note shorter = proper_shorter [OF f(2)]
      obtain r where "r < length nodes" "follow fuel nodes ?f b = Some r" "longest F (P ! ?f @ [b]) (P ! r)"
        using Suc.IH [of ?f] f(1) shorter Suc.prems(2,3) by auto
      with longest_step [OF assms f(2) no] None False show ?thesis by auto
    qed
  qed
qed simp

section \<open>The breadth-first pass\<close>

definition linked :: "str set \<Rightarrow> str set \<Rightarrow> node list \<Rightarrow> str list \<Rightarrow> nat set \<Rightarrow> bool" where
  "linked F S nodes P L =
     ((\<forall>x \<in> L. x < length nodes \<and> link_ok F nodes P x \<and> (end_of (nodes ! x) \<longleftrightarrow> (\<exists>p \<in> S. suffix p (P ! x))))
      \<and> (\<forall>x < length nodes. x \<notin> L \<longrightarrow> (end_of (nodes ! x) \<longleftrightarrow> P ! x \<in> S)))"

definition shallow :: "node list \<Rightarrow> str list \<Rightarrow> nat \<Rightarrow> nat set" where
  "shallow nodes P n = {x. x < length nodes \<and> length (P ! x) \<le> n}"

definition link_to :: "node list \<Rightarrow> nat \<Rightarrow> nat \<Rightarrow> node list" where
  "link_to nodes c l = nodes[c := (nodes ! c)\<lparr>fail_of := l, end_of := end_of (nodes ! c) \<or> end_of (nodes ! l)\<rparr>]"

lemma link_to_same [simp]: "length (link_to nodes c l) = length nodes"
  "next_of (link_to nodes c l ! i) = next_of (nodes ! i)"
proof -
  show "length (link_to nodes c l) = length nodes" by (simp add: link_to_def)
  show "next_of (link_to nodes c l ! i) = next_of (nodes ! i)"
  proof (cases "c = i \<and> c < length nodes")
    case False
    then have "link_to nodes c l ! i = nodes ! i"
      unfolding link_to_def by (cases "c = i") (simp_all only: nth_list_update_neq list_update_beyond not_less simp_thms)
    then show ?thesis by simp
  qed (simp add: link_to_def)
qed

lemma link_target:
  assumes "tree F nodes P" "at < length nodes" "linked F S nodes P L" "shallow nodes P (length (P ! at)) \<subseteq> L"
  shows "\<exists>l < length nodes. (if at = 0 then Some 0 else follow (Suc (length nodes)) nodes (fail_of (nodes ! at)) b) = Some l
     \<and> proper F (P ! at @ [b]) (P ! l)"
proof (cases "at = 0")
  case True
  have "strict_suffix s [b] \<longleftrightarrow> s = []" for s by (auto simp: strict_suffix_def suffix_Cons)
  with True tree_root [OF assms(1)] show ?thesis by (auto simp: proper_def)
next
  case False
  let ?f = "fail_of (nodes ! at)"
  have links: "link_ok F nodes P x" if "x < length nodes" "length (P ! x) \<le> length (P ! at)" for x
    using assms(3,4) that by (auto simp: linked_def shallow_def)
  then have f: "?f < length nodes" "proper F (P ! at) (P ! ?f)"
    using False assms(2) by (auto simp: link_ok_def)
  obtain r where "r < length nodes" "follow (Suc (length nodes)) nodes ?f b = Some r" "longest F (P ! ?f @ [b]) (P ! r)"
    using follow_longest [OF assms(1) f(1), of "Suc (length nodes)" b] links path_shorter [OF assms(1) f(1)]
      proper_shorter [OF f(2)] by auto
  with False proper_step [OF assms(1) f(2)] show ?thesis by auto
qed

lemma link_to_linked:
  assumes "tree F nodes P" "S \<subseteq> F" "linked F S nodes P L" "shallow nodes P (length (P ! at)) \<subseteq> L"
    "c < length nodes" "c \<notin> L" "P ! c = P ! at @ [b]" "l < length nodes" "proper F (P ! c) (P ! l)"
  shows "linked F S (link_to nodes c l) P (insert c L)"
proof -
  have kept: "link_to nodes c l ! x = nodes ! x" if "x \<noteq> c" for x using that by (simp add: link_to_def)
  have l: "l \<in> L" using assms(4,7,8) proper_shorter [OF assms(9)] by (auto simp: shallow_def)
  have "end_of (nodes ! c) \<longleftrightarrow> P ! c \<in> S" using assms(3,5,6) by (simp add: linked_def)
  moreover have "end_of (nodes ! l) \<longleftrightarrow> (\<exists>p \<in> S. suffix p (P ! l))" using assms(3) l by (simp add: linked_def)
  moreover have "suffix p (P ! c) \<longleftrightarrow> p = P ! c \<or> suffix p (P ! l)" if "p \<in> S" for p
  proof -
    have "suffix p (P ! l)" if "strict_suffix p (P ! c)" using assms(2,9) \<open>p \<in> S\<close> that by (auto simp: proper_def)
    moreover have "suffix (P ! l) (P ! c)" using assms(9) by (simp add: proper_def strict_suffix_def)
    ultimately show ?thesis by (auto simp: strict_suffix_def intro: suffix_order.trans)
  qed
  ultimately have ends: "end_of (nodes ! c) \<or> end_of (nodes ! l) \<longleftrightarrow> (\<exists>p \<in> S. suffix p (P ! c))" by blast
  have "link_to nodes c l ! c = (nodes ! c)\<lparr>fail_of := l, end_of := end_of (nodes ! c) \<or> end_of (nodes ! l)\<rparr>"
    using assms(5) by (simp add: link_to_def)
  then have now: "fail_of (link_to nodes c l ! c) = l" "end_of (link_to nodes c l ! c) \<longleftrightarrow> (\<exists>p \<in> S. suffix p (P ! c))"
    using ends by simp_all
  have "link_ok F (link_to nodes c l) P c" using assms(8,9) now(1) by (simp add: link_ok_def)
  moreover have "link_ok F (link_to nodes c l) P x = link_ok F nodes P x" if "x \<noteq> c" for x
    by (simp add: link_ok_def kept [OF that])
  moreover have "x \<in> L \<Longrightarrow> x \<noteq> c" for x using assms(6) by auto
  ultimately show ?thesis
    using assms(3,5) now(2) by (simp add: linked_def kept)
qed

lemma link_children_linked:
  assumes "S \<subseteq> F"
  shows "tree F nodes P \<Longrightarrow> at < length nodes \<Longrightarrow> linked F S nodes P L \<Longrightarrow> shallow nodes P (length (P ! at)) \<subseteq> L \<Longrightarrow>
    (\<forall>(b, c) \<in> set cs. c < length nodes \<and> P ! c = P ! at @ [b] \<and> c \<notin> L) \<Longrightarrow> distinct (map snd cs) \<Longrightarrow>
    \<exists>nodes'. link_children nodes at cs = Some nodes' \<and> length nodes' = length nodes
      \<and> (\<forall>i. next_of (nodes' ! i) = next_of (nodes ! i)) \<and> linked F S nodes' P (L \<union> snd ` set cs)"
proof (induction cs arbitrary: nodes L)
  case (Cons bc cs)
  obtain b c where bc: "bc = (b, c)" by fastforce
  with Cons.prems(5) have c: "c < length nodes" "P ! c = P ! at @ [b]" "c \<notin> L" by auto
  from link_target [OF Cons.prems(1-4), of b] obtain l where
    l: "l < length nodes" "(if at = 0 then Some 0 else follow (Suc (length nodes)) nodes (fail_of (nodes ! at)) b) = Some l"
      "proper F (P ! c) (P ! l)" unfolding c(2) by blast
  let ?n = "link_to nodes c l"
  have "linked F S ?n P (insert c L)"
    using link_to_linked [OF Cons.prems(1) assms Cons.prems(3,4) c(1,3,2) l(1,3)] .
  moreover have "tree F ?n P" using Cons.prems(1) by (subst tree_cong) simp_all
  moreover have "shallow ?n P (length (P ! at)) \<subseteq> insert c L" using Cons.prems(4) by (auto simp: shallow_def)
  moreover have "\<forall>(b', c') \<in> set cs. c' < length ?n \<and> P ! c' = P ! at @ [b'] \<and> c' \<notin> insert c L"
    using Cons.prems(5,6) bc by (force simp: image_iff)
  ultimately obtain nodes' where "link_children ?n at cs = Some nodes'" "length nodes' = length ?n"
    "\<forall>i. next_of (nodes' ! i) = next_of (?n ! i)" "linked F S nodes' P (insert c L \<union> snd ` set cs)"
    using Cons.IH [of ?n "insert c L"] Cons.prems(2,6) by auto
  moreover have "link_children nodes at (bc # cs) = link_children ?n at cs"
    using l(2) unfolding bc by (simp only: link_children.simps option.case link_to_def)
  ultimately show ?case using bc by simp
qed simp

definition bfs :: "node list \<Rightarrow> str list \<Rightarrow> nat set \<Rightarrow> nat list \<Rightarrow> bool" where
  "bfs nodes P D Q =
     (D \<union> set Q \<subseteq> {..<length nodes} \<and> distinct Q \<and> D \<inter> set Q = {} \<and> 0 \<in> D \<union> set Q
      \<and> (\<forall>x < length nodes. \<forall>y < length nodes. \<forall>b. P ! x = P ! y @ [b] \<longrightarrow> (x \<in> D \<union> set Q \<longleftrightarrow> y \<in> D))
      \<and> sorted (map (\<lambda>x. length (P ! x)) Q)
      \<and> (\<forall>h q. Q = h # q \<longrightarrow> (\<forall>x \<in> set q. length (P ! x) \<le> length (P ! h) + 1)
           \<and> (\<forall>x < length nodes. x \<notin> D \<longrightarrow> length (P ! h) \<le> length (P ! x))))"

lemma by_byte_keys: "by_byte xs \<Longrightarrow> distinct (map fst xs)"
  by (induction xs) (auto simp: by_byte_def)

lemma sorted_level: "(\<And>c. c \<in> set cs \<Longrightarrow> f c = n) \<Longrightarrow> sorted (map f cs)" for f :: "'a \<Rightarrow> nat"
  by (induction cs) auto

lemma edges:
  assumes "tree F nodes P" "at < length nodes"
  shows "(b, c) \<in> set (next_of (nodes ! at)) \<longleftrightarrow> c < length nodes \<and> P ! c = P ! at @ [b]"
    "distinct (map snd (next_of (nodes ! at)))"
proof -
  have keys: "distinct (map fst (next_of (nodes ! at)))"
    using assms by (auto simp: tree_def intro: by_byte_keys)
  show edge: "(b, c) \<in> set (next_of (nodes ! at)) \<longleftrightarrow> c < length nodes \<and> P ! c = P ! at @ [b]" for b c
    using assms map_of_eq_Some_iff [OF keys] by (simp add: tree_def)
  have "inj_on snd (set (next_of (nodes ! at)))"
    using edge by (auto simp: inj_on_def)
  with keys show "distinct (map snd (next_of (nodes ! at)))" by (simp add: distinct_map)
qed

lemma parent:
  assumes "tree F nodes P" "x < length nodes" "x \<noteq> 0"
  obtains y b where "y < length nodes" "P ! x = P ! y @ [b]"
proof -
  have "P ! x \<noteq> []" using tree_root [OF assms(1)] tree_inj [OF assms(1,2), of 0] assms(3) by auto
  then obtain w b where w: "P ! x = w @ [b]" by (metis rev_exhaust)
  with tree_path [OF assms(1,2)] tree_closed [OF assms(1)] have "w \<in> set P" using assms(1) by (auto simp: tree_def)
  then obtain y where "y < length P" "P ! y = w" by (auto simp: in_set_conv_nth)
  with w assms(1) that show ?thesis by (auto simp: tree_def)
qed

lemma bfs_shallow:
  assumes "tree F nodes P" "bfs nodes P D (h # q)"
  shows "shallow nodes P (length (P ! h)) \<subseteq> D \<union> set (h # q)"
proof
  fix x assume x: "x \<in> shallow nodes P (length (P ! h))"
  show "x \<in> D \<union> set (h # q)"
  proof (rule ccontr)
    assume out: "x \<notin> D \<union> set (h # q)"
    then have "x \<noteq> 0" using assms(2) by (auto simp: bfs_def)
    with x obtain y b where y: "y < length nodes" "P ! x = P ! y @ [b]"
      using parent [OF assms(1), of x] by (auto simp: shallow_def)
    with out x assms(2) have "y \<notin> D" by (auto simp: bfs_def shallow_def)
    with y assms(2) have "length (P ! h) \<le> length (P ! y)" by (auto simp: bfs_def)
    with x y(2) show False by (simp add: shallow_def)
  qed
qed

lemma bfs_done:
  assumes "tree F nodes P" "bfs nodes P D []"
  shows "D = {..<length nodes}"
proof -
  have "x < length nodes \<Longrightarrow> x \<in> D" for x
  proof (induction "length (P ! x)" arbitrary: x rule: less_induct)
    case less
    show ?case
    proof (cases "x = 0")
      case True
      with assms(2) show ?thesis by (simp add: bfs_def)
    next
      case False
      then obtain y b where "y < length nodes" "P ! x = P ! y @ [b]" using parent [OF assms(1) less.prems] by blast
      with less.hyps [of y] less.prems assms(2) show ?thesis by (auto simp: bfs_def)
    qed
  qed
  with assms(2) show ?thesis by (auto simp: bfs_def)
qed

lemma bfs_step:
  assumes "tree F nodes P" "bfs nodes P D (h # q)"
  shows "bfs nodes P (insert h D) (q @ map snd (next_of (nodes ! h)))"
proof -
  let ?cs = "map snd (next_of (nodes ! h))"
  have h: "h < length nodes" "h \<notin> D" "h \<notin> set q" using assms(2) by (auto simp: bfs_def)
  have cs: "c \<in> set ?cs \<longleftrightarrow> c < length nodes \<and> (\<exists>b. P ! c = P ! h @ [b])" for c
    using edges(1) [OF assms(1) h(1)] by (force simp: image_iff)
  have new: "c \<notin> D \<union> set (h # q)" if "c \<in> set ?cs" for c
    using that assms(2) h cs by (auto simp: bfs_def)
  have near: "length (P ! x) \<le> length (P ! h) + 1" if "x \<in> set q" for x using assms(2) that by (auto simp: bfs_def)
  have far: "length (P ! h) + 1 \<le> length (P ! x)" if "x < length nodes" "x \<notin> D \<union> set (h # q)" for x
    using bfs_shallow [OF assms] that by (auto simp: shallow_def)
  have deep: "length (P ! h) \<le> length (P ! x)" if "x < length nodes" "x \<notin> D" for x
    using assms(2) that by (auto simp: bfs_def)
  have sorted: "sorted (map (\<lambda>x. length (P ! x)) q)" using assms(2) by (simp add: bfs_def)
  have level: "length (P ! c) = length (P ! h) + 1" if "c \<in> set ?cs" for c using that cs by auto
  have "a \<le> b" if "a \<in> set (map (\<lambda>x. length (P ! x)) q)" "b \<in> set (map (\<lambda>x. length (P ! x)) ?cs)" for a b
  proof -
    from that obtain x c where "x \<in> set q" "a = length (P ! x)" "c \<in> set ?cs" "b = length (P ! c)"
      unfolding set_map [where f = "\<lambda>x. length (P ! x)"] by blast
    with near [of x] level [of c] show ?thesis by linarith
  qed
  moreover have "sorted (map (\<lambda>x. length (P ! x)) ?cs)"
    by (rule sorted_level) (rule level)
  ultimately have 1: "sorted (map (\<lambda>x. length (P ! x)) (q @ ?cs))"
    unfolding map_append sorted_append using sorted by blast
  have 2: "x \<in> insert h D \<union> set (q @ ?cs) \<longleftrightarrow> y \<in> insert h D"
    if "x < length nodes" "y < length nodes" "P ! x = P ! y @ [b]" for x y b
  proof -
    have "x \<in> D \<union> set (h # q) \<longleftrightarrow> y \<in> D" using assms(2) that by (auto simp: bfs_def)
    moreover have "x \<in> set ?cs \<longleftrightarrow> y = h" using that tree_inj [OF assms(1) that(2) h(1)] unfolding cs by auto
    ultimately show ?thesis by auto
  qed
  have 3: "(\<forall>x \<in> set t. length (P ! x) \<le> length (P ! k) + 1)
      \<and> (\<forall>x < length nodes. x \<notin> insert h D \<longrightarrow> length (P ! k) \<le> length (P ! x))" if "q @ ?cs = k # t" for k t
  proof (intro conjI ballI allI impI)
    have around: "length (P ! h) \<le> length (P ! x) \<and> length (P ! x) \<le> length (P ! h) + 1" if "x \<in> set (q @ ?cs)" for x
    proof -
      have "x < length nodes" "x \<notin> D" using that assms(2) new cs by (auto simp: bfs_def)
      from that have "x \<in> set q \<or> x \<in> set ?cs" by auto
      then have "length (P ! x) \<le> length (P ! h) + 1" using near [of x] level [of x] by linarith
      with deep [of x] \<open>x < length nodes\<close> \<open>x \<notin> D\<close> show ?thesis by simp
    qed
    have k: "k \<in> set (q @ ?cs)" "set t \<subseteq> set (q @ ?cs)" unfolding that by auto
    show "length (P ! x) \<le> length (P ! k) + 1" if "x \<in> set t" for x
      using around [OF k(1)] around [of x] that k(2) by fastforce
    show "length (P ! k) \<le> length (P ! x)" if x: "x < length nodes" "x \<notin> insert h D" for x
    proof (cases "x \<in> set q")
      case True
      then obtain q' where "q = k # q'" using \<open>q @ ?cs = k # t\<close> by (cases q) auto
      with True sorted show ?thesis by auto
    next
      case False
      with x far [of x] around [OF k(1)] show ?thesis by auto
    qed
  qed
  have old: "D \<union> set (h # q) \<subseteq> {..<length nodes}" "distinct (h # q)" "D \<inter> set (h # q) = {}" "0 \<in> D \<union> set (h # q)"
    using assms(2) unfolding bfs_def by blast+
  have "set ?cs \<subseteq> {..<length nodes}" using cs by blast
  with old(1) have "insert h D \<union> set (q @ ?cs) \<subseteq> {..<length nodes}" by auto
  moreover have "distinct (q @ ?cs)" "insert h D \<inter> set (q @ ?cs) = {}"
    using old(2,3) new edges(2) [OF assms(1) h(1)] unfolding distinct_append by auto
  moreover have "0 \<in> insert h D \<union> set (q @ ?cs)" using old(4) by auto
  moreover have "\<forall>x < length nodes. \<forall>y < length nodes. \<forall>b. P ! x = P ! y @ [b] \<longrightarrow>
      (x \<in> insert h D \<union> set (q @ ?cs) \<longleftrightarrow> y \<in> insert h D)"
    using 2 by (intro allI impI)
  moreover have "\<forall>k t. q @ ?cs = k # t \<longrightarrow> (\<forall>x \<in> set t. length (P ! x) \<le> length (P ! k) + 1)
      \<and> (\<forall>x < length nodes. x \<notin> insert h D \<longrightarrow> length (P ! k) \<le> length (P ! x))"
    using 3 by (intro allI impI)
  ultimately show ?thesis unfolding bfs_def using 1 by (intro conjI)
qed

lemma link_all_linked:
  assumes "S \<subseteq> F"
  shows "tree F nodes P \<Longrightarrow> bfs nodes P D Q \<Longrightarrow> linked F S nodes P (D \<union> set Q) \<Longrightarrow> length nodes \<le> card D + fuel \<Longrightarrow>
    \<exists>nodes'. link_all fuel nodes Q = Some nodes' \<and> tree F nodes' P \<and> linked F S nodes' P {..<length nodes'}"
proof (induction fuel nodes Q arbitrary: D rule: link_all.induct)
  case (1 fuel nodes)
  then show ?case using bfs_done [OF 1(1,2)] by auto
next
  case (2 nodes at q)
  have "insert at D \<subseteq> {..<length nodes}" "at \<notin> D" "finite D"
    using 2(2) by (auto simp: bfs_def intro: finite_subset)
  then have "card D < length nodes" using card_mono [of "{..<length nodes}" "insert at D"] by simp
  with 2(4) show ?case by simp
next
  case (3 fuel nodes at q)
  let ?cs = "next_of (nodes ! at)"
  have at: "at < length nodes" "at \<notin> D" "finite D" using 3(3) by (auto simp: bfs_def intro: finite_subset)
  have fresh: "\<forall>(b, c) \<in> set ?cs. c < length nodes \<and> P ! c = P ! at @ [b] \<and> c \<notin> D \<union> set (at # q)"
  proof (rule ballI, rule case_prodI2)
    fix bc b c assume "bc \<in> set ?cs" "bc = (b, c)"
    then have c: "c < length nodes" "P ! c = P ! at @ [b]" using edges(1) [OF 3(2) at(1)] by auto
    have "\<forall>x < length nodes. \<forall>y < length nodes. \<forall>b. P ! x = P ! y @ [b] \<longrightarrow> (x \<in> D \<union> set (at # q) \<longleftrightarrow> y \<in> D)"
      using 3(3) unfolding bfs_def by blast
    with c at show "c < length nodes \<and> P ! c = P ! at @ [b] \<and> c \<notin> D \<union> set (at # q)" by blast
  qed
  obtain nodes' where n: "link_children nodes at ?cs = Some nodes'" "length nodes' = length nodes"
      "\<forall>i. next_of (nodes' ! i) = next_of (nodes ! i)" "linked F S nodes' P (D \<union> set (at # q) \<union> snd ` set ?cs)"
    using link_children_linked [OF assms 3(2) at(1) 3(4) bfs_shallow [OF 3(2,3)] fresh edges(2) [OF 3(2) at(1)]] by blast
  have "tree F nodes' P" using 3(2) n(2,3) by (subst tree_cong) simp_all
  moreover have "bfs nodes' P (insert at D) (q @ map snd ?cs)"
    using bfs_step [OF 3(2,3)] n(2) by (simp add: bfs_def)
  moreover have "D \<union> set (at # q) \<union> snd ` set ?cs = insert at D \<union> set (q @ map snd ?cs)" by auto
  moreover have "length nodes' \<le> card (insert at D) + fuel" using 3(5) n(2) at by simp
  ultimately have "\<exists>nodes''. link_all fuel nodes' (q @ map snd ?cs) = Some nodes''
      \<and> tree F nodes'' P \<and> linked F S nodes'' P {..<length nodes''}"
    using 3(1) [OF n(1), of "insert at D"] n(4) by simp
  with n(1) show ?case by simp
qed

lemma matcher_new_linked:
  "\<exists>nodes P. matcher_new ps = Some nodes \<and> tree (paths ps) nodes P \<and> linked (paths ps) (set ps) nodes P {..<length nodes}"
proof -
  let ?n = "build_trie ps"
  obtain P where P: "tree (paths ps) ?n P" "ends (set ps) ?n P" using build_trie_tree by blast
  have sub: "set ps \<subseteq> paths ps" by (auto simp: paths_def)
  note root = tree_root [OF P(1)]
  have "x \<noteq> 0" if "P ! x = P ! y @ [b]" for x y b using root that by (cases x) auto
  then have bfs: "bfs ?n P {} [0]" using root by (auto simp: bfs_def)
  have "linked (paths ps) (set ps) ?n P ({} \<union> set [0])"
    using P(2) root by (auto simp: linked_def ends_def link_ok_def)
  from link_all_linked [OF sub P(1) bfs this, of "length ?n"] show ?thesis
    by (auto simp: matcher_new_def Let_def)
qed

section \<open>One pass over a text\<close>

lemma longest_trans:
  assumes "tree F nodes P" "longest F w u" "longest F (u @ [b]) v"
  shows "longest F (w @ [b]) v"
proof -
  have "suffix v (w @ [b])" using assms(2,3) by (auto simp: longest_def intro: suffix_order.trans)
  moreover have "suffix s v" if "s \<in> F" "suffix s (w @ [b])" for s
  proof (cases s rule: rev_cases)
    case (snoc s' b')
    with that have "b' = b" "suffix s' w" by auto
    moreover have "s' \<in> F" using tree_closed [OF assms(1)] that(1) snoc by blast
    ultimately have "suffix s (u @ [b])" using assms(2) snoc by (simp add: longest_def)
    with assms(3) that(1) show ?thesis unfolding longest_def by blast
  qed simp
  ultimately show ?thesis using assms(3) by (simp add: longest_def)
qed

lemma longest_ends:
  assumes "S \<subseteq> F" "longest F w u"
  shows "(\<exists>p \<in> S. suffix p u) \<longleftrightarrow> (\<exists>p \<in> S. suffix p w)"
  using assms by (auto simp: longest_def intro: suffix_order.trans)

definition hit :: "str set \<Rightarrow> str \<Rightarrow> str \<Rightarrow> bool" where
  "hit S before s = (\<exists>k. 0 < k \<and> k \<le> length s \<and> (\<exists>p \<in> S. suffix p (before @ take k s)))"

lemma hit_Cons: "hit S before (b # s) \<longleftrightarrow> (\<exists>p \<in> S. suffix p (before @ [b])) \<or> hit S (before @ [b]) s"
proof
  assume "hit S before (b # s)"
  then obtain k p where k: "0 < k" "k \<le> length (b # s)" "p \<in> S" "suffix p (before @ take k (b # s))"
    by (auto simp: hit_def)
  then show "(\<exists>p \<in> S. suffix p (before @ [b])) \<or> hit S (before @ [b]) s"
    by (cases "k = 1") (auto simp: hit_def take_Cons' intro!: exI [of _ "k - 1"])
next
  assume "(\<exists>p \<in> S. suffix p (before @ [b])) \<or> hit S (before @ [b]) s"
  then show "hit S before (b # s)"
  proof
    assume "\<exists>p \<in> S. suffix p (before @ [b])"
    then obtain p where "p \<in> S" "suffix p (before @ [b])" by blast
    then show ?thesis unfolding hit_def by (intro exI [of _ 1] conjI bexI [of _ p]) auto
  next
    assume "hit S (before @ [b]) s"
    then obtain k p where "0 < k" "k \<le> length s" "p \<in> S" "suffix p (before @ b # take k s)" by (auto simp: hit_def)
    then show ?thesis by (auto simp: hit_def intro!: exI [of _ "Suc k"])
  qed
qed

lemma find_from_hit:
  assumes "tree F nodes P" "S \<subseteq> F" "linked F S nodes P {..<length nodes}"
  shows "at < length nodes \<Longrightarrow> longest F before (P ! at) \<Longrightarrow> find_from nodes at s = Some (hit S before s)"
proof (induction s arbitrary: at before)
  case (Cons b s)
  have links: "link_ok F nodes P x" if "x < length nodes" for x using assms(3) that by (auto simp: linked_def)
  obtain r where r: "r < length nodes" "follow (Suc (length nodes)) nodes at b = Some r" "longest F (P ! at @ [b]) (P ! r)"
    using follow_longest [OF assms(1) Cons.prems(1), of "Suc (length nodes)" b] links path_shorter [OF assms(1) Cons.prems(1)]
    by auto
  have now: "longest F (before @ [b]) (P ! r)" by (rule longest_trans [OF assms(1) Cons.prems(2) r(3)])
  define ended where "ended \<longleftrightarrow> (\<exists>p \<in> S. suffix p (before @ [b]))"
  have "end_of (nodes ! r) \<longleftrightarrow> ended"
    unfolding ended_def using assms(3) r(1) longest_ends [OF assms(2) now] by (auto simp: linked_def)
  moreover have "find_from nodes r s = Some (hit S (before @ [b]) s)" by (rule Cons.IH [OF r(1) now])
  moreover have "hit S before (b # s) \<longleftrightarrow> ended \<or> hit S (before @ [b]) s" by (simp only: hit_Cons ended_def)
  ultimately show ?case using r(2) by (simp del: follow.simps)
qed (simp add: hit_def)

lemma contains_suffix: "contains s p \<longleftrightarrow> suffix p [] \<or> hit {p} [] s"
proof
  assume "contains s p"
  then obtain u v where s: "s = u @ p @ v" by (auto simp: contains_iff)
  show "suffix p [] \<or> hit {p} [] s"
  proof (cases "p = []")
    case False
    then show ?thesis by (auto simp: hit_def s suffix_def intro!: exI [of _ "length u + length p"])
  qed simp
next
  assume "suffix p [] \<or> hit {p} [] s"
  then show "contains s p"
  proof
    assume "hit {p} [] s"
    then obtain k u where "take k s = u @ p" by (auto simp: hit_def suffix_def)
    then have "s = u @ p @ drop k s" by (metis append_assoc append_take_drop_id)
    then show ?thesis unfolding contains_iff by blast
  qed (auto simp: contains_iff intro: exI [of _ "[]"])
qed

lemma matcher_decides:
  "\<exists>m. matcher_new ps = Some m \<and> matcher_find m s = Some (\<exists>p \<in> set ps. contains s p)"
proof -
  obtain m P where m: "matcher_new ps = Some m" "tree (paths ps) m P" "linked (paths ps) (set ps) m P {..<length m}"
    using matcher_new_linked by blast
  note root = tree_root [OF m(2)]
  have sub: "set ps \<subseteq> paths ps" by (auto simp: paths_def)
  have "longest (paths ps) [] (P ! 0)" using root by (simp add: longest_def)
  then have "find_from m 0 s = Some (hit (set ps) [] s)"
    using find_from_hit [OF m(2) sub m(3)] root by blast
  moreover have "end_of (m ! 0) \<longleftrightarrow> (\<exists>p \<in> set ps. suffix p [])" using m(3) root by (auto simp: linked_def)
  moreover have "(\<exists>p \<in> set ps. contains s p) \<longleftrightarrow> (\<exists>p \<in> set ps. suffix p []) \<or> hit (set ps) [] s"
    unfolding contains_suffix by (auto simp: hit_def)
  ultimately show ?thesis using m(1) by (auto simp: matcher_find_def)
qed

lemma found_in_iff:
  "found_in forms s folded \<longleftrightarrow> (\<exists>p \<in> set (if folded then map ascii_lower forms else forms). contains s p)"
proof -
  obtain m where "matcher_new (if folded then map ascii_lower forms else forms) = Some m"
    "matcher_find m s = Some (\<exists>p \<in> set (if folded then map ascii_lower forms else forms). contains s p)"
    using matcher_decides by blast
  then show ?thesis by (simp add: found_in_def)
qed

lemma add_secret_forms:
  "v \<noteq> [] \<Longrightarrow> set (secret_forms enc v) \<subseteq> set (add_secret enc v forms)"
  by (auto simp: add_secret_def set_push_fold)

lemma scrub_cases: "scrub forms s = withheld \<or> scrub forms s = s \<and> \<not> taints forms s"
  by (simp add: scrub_def)

section \<open>Properties\<close>

text \<open>C6: the matcher is a decision procedure: for every list of byte patterns it is built (its
  fuel is enough), and on every text its one pass ends and answers whether some pattern
  occurs in the text, which is what testing the patterns one by one answers.\<close>

theorem matcher_decides_occurrence:
  "\<exists>m. matcher_new ps = Some m \<and> matcher_find m s = Some (list_ex (contains s) ps)"
  using matcher_decides [of ps s] by (simp add: list_ex_iff)

text \<open>C7: once a secret is registered, any text that holds one of its forms (raw, form-encoded,
  base64 in either alphabet) anywhere is replaced by \<open>[withheld]\<close>.\<close>

theorem registered_secret_is_withheld:
  assumes "secret \<noteq> []" "form \<in> set (secret_forms enc secret)"
  shows "scrub (add_secret enc secret forms) (before @ form @ after) = withheld"
proof -
  have "form \<in> set (add_secret enc secret forms)" using add_secret_forms [OF assms(1)] assms(2) by blast
  then have "taints (add_secret enc secret forms) (before @ form @ after)"
    by (auto simp: taints_def found_in_iff contains_iff)
  then show ?thesis by (simp add: scrub_def)
qed

theorem registered_secret_is_withheld_witness:
  "scrub (add_secret (\<lambda>s. s) ''key42'' []) (''token key42 leaked'') = withheld"
  using registered_secret_is_withheld [of "''key42''" "''key42''" "\<lambda>s. s" "[]" "''token ''" "'' leaked''"]
  by (simp add: secret_forms_def)

text \<open>a scrubbed text shows a registered form only where the fixed mark itself does.\<close>

theorem scrubbed_text_shows_no_secret:
  assumes "form \<in> set forms" "contains (scrub forms s) form"
  shows "scrub forms s = withheld \<and> contains withheld form"
proof -
  have "\<not> taints forms s \<Longrightarrow> \<not> contains s form" using assms(1) by (auto simp: taints_def found_in_iff)
  with scrub_cases [of forms s] assms(2) show ?thesis by metis
qed

theorem scrubbed_text_shows_no_secret_witness:
  "scrub [''held''] ''it held'' = withheld \<and> contains withheld ''held''"
proof (rule scrubbed_text_shows_no_secret)
  have "scrub [''held''] ''it held'' = withheld"
    by (simp add: scrub_def taints_def found_in_iff starts_with_def)
  then show "contains (scrub [''held''] ''it held'') ''held''"
    by (simp add: withheld_def starts_with_def)
qed simp

end
