(* ===== verification/CsvRoundTrip.thy ===== *)
theory CsvRoundTrip
  imports BulkOutput BulkInput
begin

text \<open>
  The CSV that \<open>src/bulk/output.rs\<close> writes, read back by the parser of \<open>src/bulk/input.rs\<close>:
  whatever bytes the fields hold (quotes, commas, line ends), the records are the fields.
\<close>

lemma chars [simp]: "dquote = quote_char" "nl = [lf]" "quote_char \<noteq> lf" "quote_char \<noteq> cr" "quote_char \<noteq> comma"
  "comma \<noteq> lf" "comma \<noteq> cr" "lf \<noteq> cr" "lf \<noteq> quote_char" "lf \<noteq> comma" "comma \<noteq> quote_char"
  unfolding dquote_def quote_char_def nl_def newline_def lf_def cr_def comma_def by code_simp+

definition no_quote_first :: "str \<Rightarrow> bool" where
  "no_quote_first s = (case s of [] \<Rightarrow> True | c # _ \<Rightarrow> c \<noteq> quote_char)"

lemma quoted_from_doubled:
  "no_quote_first rest \<Longrightarrow> quoted_from v (doubled s @ quote_char # rest) = Ok (v @ s, rest)"
proof (induction s arbitrary: v)
  case Nil
  then show ?case by (cases rest) (simp_all add: no_quote_first_def)
next
  case (Cons c s)
  show ?case
  proof (cases "doubled s @ quote_char # rest")
    case (Cons d ds)
    with Cons.IH [OF Cons.prems, of "v @ [c]"] show ?thesis by auto
  qed simp
qed

lemma quoted_quote: "no_quote_first rest \<Longrightarrow> quoted (quote s @ rest) = Ok (s, rest)"
  by (simp add: quoted_def quote_def quoted_from_doubled)

lemma csv_row_quoted:
  assumes "no_quote_first rest"
  shows "csv_row fds (quote s @ rest) = csv_row (fds @ [s]) (skip_comma rest)"
  using quoted_quote [OF assms, of s] by (simp add: quote_def)

text \<open>The end of a record: the end of the text, or a line feed and the rest.\<close>

definition record_end :: "str \<Rightarrow> str \<Rightarrow> bool" where
  "record_end tail rest = (tail = [] \<and> rest = [] \<or> tail = lf # rest)"

lemma csv_row_fields:
  "fs \<noteq> [] \<Longrightarrow> record_end tail rest \<Longrightarrow> csv_row fds (join '','' (map quote fs) @ tail) = Ok (fds @ fs, rest)"
proof (induction fs arbitrary: fds)
  case (Cons f fs)
  show ?case
  proof (cases fs)
    case Nil
    from Cons.prems(2) have "no_quote_first tail" "skip_comma tail = tail"
      by (auto simp: record_end_def no_quote_first_def skip_comma_def)
    with Nil Cons.prems(2) show ?thesis
      by (auto simp: csv_row_quoted record_end_def)
  next
    case (Cons g gs)
    have "no_quote_first (comma # join '','' (map quote fs) @ tail)" by (simp add: no_quote_first_def)
    with Cons Cons.IH [of "fds @ [f]"] Cons.prems(2) show ?thesis
      by (simp add: csv_row_quoted skip_comma_def comma_def)
  qed
qed simp

lemma lines_records:
  "list_all (\<lambda>fs. 2 \<le> length fs) rows \<Longrightarrow>
   csv_rows (join nl (map (\<lambda>fs. join '','' (map quote fs)) rows)) = Ok rows"
proof (induction rows)
  case (Cons fs rows)
  then have fs: "fs \<noteq> []" "keep_row fs" by (auto simp: keep_row_def)
  let ?line = "\<lambda>fs. join '','' (map quote fs)"
  obtain c cs where line: "?line fs = c # cs" using fs(1) by (cases fs; cases "tl fs") (auto simp: quote_def)
  show ?case
  proof (cases rows)
    case Nil
    have "csv_row [] (?line fs @ []) = Ok ([] @ fs, [])" by (rule csv_row_fields [OF fs(1)]) (simp add: record_end_def)
    with Nil line fs(2) show ?thesis by simp
  next
    case (Cons gs more)
    let ?rest = "join nl (map ?line rows)"
    have "csv_row [] (?line fs @ lf # ?rest) = Ok ([] @ fs, ?rest)"
      by (rule csv_row_fields [OF fs(1)]) (simp add: record_end_def)
    with Cons Cons.IH Cons.prems line fs(2) show ?thesis by simp
  qed
qed simp

text \<open>The header, whose fields are bare.\<close>

definition bare :: "str \<Rightarrow> bool" where
  "bare f = (f \<noteq> [] \<and> hd f \<noteq> quote_char \<and> list_all (\<lambda>c. \<not> ends_bare c) f)"

lemma csv_row_bare:
  assumes "bare f" "rest = [] \<or> ends_bare (hd rest)"
  shows "csv_row fds (f @ rest) = csv_row (fds @ [f]) (skip_comma rest)"
proof -
  obtain c cs where f: "f = c # cs" "c \<noteq> quote_char" "\<not> ends_bare c" using assms(1) by (cases f) (auto simp: bare_def)
  have all: "\<forall>x \<in> set f. \<not> ends_bare x" using assms(1) by (simp add: bare_def list_all_iff)
  have stop: "takeWhile (\<lambda>x. \<not> ends_bare x) rest = []" "dropWhile (\<lambda>x. \<not> ends_bare x) rest = rest"
    using assms(2) by (cases rest; simp)+
  have "takeWhile (\<lambda>x. \<not> ends_bare x) (f @ rest) = f" "dropWhile (\<lambda>x. \<not> ends_bare x) (f @ rest) = rest"
    using all stop by (simp_all add: takeWhile_append2 dropWhile_append2)
  moreover have "c \<noteq> lf" "c \<noteq> cr" using f(3) by (auto simp: ends_bare_def)
  ultimately show ?thesis using f(2) unfolding f(1) append_Cons by (subst csv_row.simps(2)) simp
qed

lemma csv_row_bare_fields:
  "fs \<noteq> [] \<Longrightarrow> list_all bare fs \<Longrightarrow> record_end tail rest \<Longrightarrow>
   csv_row fds (join '','' fs @ tail) = Ok (fds @ fs, rest)"
proof (induction fs arbitrary: fds)
  case (Cons f fs)
  show ?case
  proof (cases fs)
    case Nil
    from Cons.prems(3) have "tail = [] \<or> ends_bare (hd tail)" "skip_comma tail = tail"
      by (auto simp: record_end_def ends_bare_def skip_comma_def)
    with Nil Cons.prems(2,3) show ?thesis by (auto simp: csv_row_bare record_end_def)
  next
    case (Cons g gs)
    have "ends_bare (hd (comma # join '','' fs @ tail))" by (simp add: ends_bare_def)
    with Cons Cons.IH [of "fds @ [f]"] Cons.prems(2,3) show ?thesis
      by (simp add: csv_row_bare skip_comma_def comma_def)
  qed
qed simp

definition header_fields :: "str list" where
  "header_fields = [''prompt'', ''action'', ''category'', ''triggered''] @ prompt_keys
     @ [''scan_id'', ''report_id'', ''error'']"

lemma header_record: "header = join '','' header_fields" "header_fields \<noteq> []" "list_all bare header_fields"
  by code_simp+

text \<open>The rows of the items that have a result, in order.\<close>

definition result_rows :: "item list \<Rightarrow> str list list" where
  "result_rows its = concat (map (\<lambda>it. case i_result it of Some r \<Rightarrow> [row_fields it r] | None \<Rightarrow> []) its)"

lemma projection_result_rows: "projection_lines its = map (\<lambda>fs. join '','' (map quote fs)) (result_rows its)"
  by (induction its) (auto simp: result_rows_def row_line_def split: option.split)

lemma result_rows_long: "list_all (\<lambda>fs. 2 \<le> length fs) (result_rows its)"
  by (induction its) (auto simp: result_rows_def row_fields_def split: option.split)

lemma csv_rows_projection: "csv_rows (projection st) = Ok (header_fields # result_rows (j_items st))"
proof -
  have keep: "keep_row header_fields" by code_simp
  let ?lines = "projection_lines (j_items st)"
  let ?rest = "join nl ?lines"
  have lines: "csv_rows ?rest = Ok (result_rows (j_items st))"
    unfolding projection_result_rows by (rule lines_records [OF result_rows_long])
  obtain c cs where h: "header = c # cs" by (simp add: header_def)
  show ?thesis
  proof (cases "?lines = []")
    case True
    have "csv_row [] (header @ []) = Ok ([] @ header_fields, [])"
      unfolding header_record(1) by (rule csv_row_bare_fields [OF header_record(2,3)]) (simp add: record_end_def)
    with True lines keep show ?thesis by (simp add: projection_def h)
  next
    case False
    then have "projection st = header @ lf # ?rest" by (cases ?lines) (simp_all add: projection_def)
    moreover have "csv_row [] (header @ lf # ?rest) = Ok ([] @ header_fields, ?rest)"
      unfolding header_record(1) by (rule csv_row_bare_fields [OF header_record(2,3)]) (simp add: record_end_def)
    ultimately show ?thesis using lines keep by (simp add: h)
  qed
qed

section \<open>Property\<close>

text \<open>C5: the CSV the bulk commands write reads back, with the parser they read prompts with, as
  the header and one record per prompt that has a result, field for field, whatever the
  prompts and the service texts contain.\<close>

theorem csv_output_reads_back: "csv_rows (projection st) = Ok (header_fields # result_rows (j_items st))"
  by (rule csv_rows_projection)

end
