(* ===== verification/Pagination.thy ===== *)
theory Pagination
  imports Json CliError
begin

text \<open>
  \<open>src/pagination.rs\<close>: the list and get flags, the limits of a walk, the page status lines and
  the local slices of a complete list. Machine counts are naturals with the width written out:
  \<open>u64\<close> and \<open>usize\<close> are below \<open>2 ^ 64\<close>, \<open>u32\<close> below \<open>2 ^ 32\<close>.
\<close>

definition u32_max :: nat where "u32_max = 2 ^ 32 - 1"

definition checked_add :: "nat \<Rightarrow> nat \<Rightarrow> nat option" where
  "checked_add a b = (if a + b \<le> u64_max then Some (a + b) else None)"

definition default_limit :: nat where "default_limit = 100"
definition default_max :: nat where "default_max = 10000"
definition max_items_ceiling :: nat where "max_items_ceiling = 1000000"

section \<open>Flags\<close>

record list_flags =
  flag_limit :: "str option"
  flag_offset :: "str option"
  flag_all :: bool
  flag_max :: "str option"

record list_params =
  p_limit :: nat
  p_offset :: nat
  p_all :: bool
  p_max :: nat \<comment> \<open>as given; 0 means no item cap\<close>
  p_all_versions :: bool

record get_flags =
  flag_name_or_id :: str
  flag_revision :: "str option"
  flag_all_versions :: bool

record get_params =
  g_name_or_id :: str
  g_revision :: "nat option"
  g_all_versions :: bool

text \<open>Decimal digits only, within JavaScript's safe integers.\<close>

definition decimal_flag :: "str \<Rightarrow> nat option" where
  "decimal_flag s = (if s = [] \<or> \<not> list_all is_digit s then None
     else if undec s \<le> u64_max \<and> undec s \<le> max_safe_integer then Some (undec s) else None)"

definition parse_list :: "list_flags \<Rightarrow> bool \<Rightarrow> (cli_error, list_params) result" where
  "parse_list flags all_versions =
     bind_r (case flag_limit flags of
         None \<Rightarrow> Ok default_limit
       | Some t \<Rightarrow> (case decimal_flag t of
             Some n \<Rightarrow> if 1 \<le> n \<and> n \<le> u32_max then Ok n
                       else Err (Usage ''--limit must be a positive integer'')
           | None \<Rightarrow> Err (Usage ''--limit must be a positive integer''))) (\<lambda>limit.
     bind_r (case flag_offset flags of
         None \<Rightarrow> Ok 0
       | Some t \<Rightarrow> (case decimal_flag t of
             Some n \<Rightarrow> Ok n
           | None \<Rightarrow> Err (Usage ''--offset must be a non-negative integer''))) (\<lambda>offset.
     bind_r (case flag_max flags of
         None \<Rightarrow> Ok default_max
       | Some t \<Rightarrow> (case decimal_flag t of
             Some n \<Rightarrow> Ok n
           | None \<Rightarrow> Err (Usage ''--max must be a non-negative integer''))) (\<lambda>max_items.
     if flag_all flags \<and> flag_offset flags \<noteq> None
     then Err (Usage ''--all cannot be combined with --offset'')
     else Ok \<lparr>p_limit = limit, p_offset = offset, p_all = flag_all flags, p_max = max_items,
              p_all_versions = all_versions\<rparr>)))"

definition parse_get :: "get_flags \<Rightarrow> (cli_error, get_params) result" where
  "parse_get flags =
     bind_r (case flag_revision flags of
         None \<Rightarrow> Ok None
       | Some t \<Rightarrow> (case decimal_flag t of
             Some n \<Rightarrow> Ok (Some n)
           | None \<Rightarrow> Err (Usage ''--revision must be a non-negative integer''))) (\<lambda>revision.
     Ok \<lparr>g_name_or_id = flag_name_or_id flags, g_revision = revision,
         g_all_versions = flag_all_versions flags\<rparr>)"

text \<open>The 8-4-4-4-12 shape of a UUID, in either case.\<close>

fun uuid_from :: "nat \<Rightarrow> str \<Rightarrow> bool" where
  "uuid_from i [] = True"
| "uuid_from i (c # cs) =
     ((if i \<in> {8, 13, 18, 23} then c = CHR ''-'' else is_ascii_hexdigit c) \<and> uuid_from (Suc i) cs)"

definition is_uuid :: "str \<Rightarrow> bool" where
  "is_uuid s = (length s = 36 \<and> uuid_from 0 s)"

definition is_id :: "get_params \<Rightarrow> bool" where
  "is_id g = is_uuid (g_name_or_id g)"

text \<open>
  \<open>--max-pages\<close>: decimal_flag digits, 1 to 1000. Leading zeros are cut first, so the four digits
  left always fit.
\<close>

definition parse_max_pages :: "str \<Rightarrow> (cli_error, nat) result" where
  "parse_max_pages s =
     (let invalid = Err (Usage ''--max-pages must be an integer from 1 to 1000'') in
      if s = [] \<or> \<not> list_all is_digit s then invalid
      else let digits = dropWhile (\<lambda>c. c = CHR ''0'') s in
        if 4 < length digits then invalid
        else let n = (if digits = [] then 0 else undec digits) in
          if 1 \<le> n \<and> n \<le> 1000 then Ok n else invalid)"

section \<open>The end of a listing\<close>

text \<open>
  The item bound of the SDK's own collection. The completion of such a collection is the SDK's
  enumeration; only the items case is told apart here.
\<close>

definition collect_items :: "nat \<Rightarrow> nat" where
  "collect_items m = (if m = 0 then max_items_ceiling else min m max_items_ceiling)"

datatype truncation = TruncatedItems | TruncatedPages | TruncatedBytes
datatype completion = Completed | Truncated truncation
datatype walk_end = WalkComplete | StoppedAtMax

definition walk_end_of :: "completion \<Rightarrow> nat \<Rightarrow> walk_end option" where
  "walk_end_of completion m = (case completion of
      Completed \<Rightarrow> Some WalkComplete
    | Truncated TruncatedItems \<Rightarrow> if m \<noteq> 0 \<and> m \<le> max_items_ceiling then Some StoppedAtMax else None
    | Truncated _ \<Rightarrow> None)"

definition showing_page :: "nat \<Rightarrow> bool \<Rightarrow> str" where
  "showing_page returned has_more =
     (if has_more then ''Showing '' @ dec returned @ '' (more available)'' else ''Showing '' @ dec returned)"

definition showing_all :: "nat \<Rightarrow> str" where
  "showing_all returned = ''Showing all '' @ dec returned"

definition showing_first :: "nat \<Rightarrow> nat \<Rightarrow> str" where
  "showing_first returned m =
     ''Showing first '' @ dec returned @ '' (stopped at --max '' @ dec m @ ''; more available)''"

definition showing_slice :: "nat \<Rightarrow> nat \<Rightarrow> nat \<Rightarrow> nat \<Rightarrow> str" where
  "showing_slice returned tot offset limit =
     (let next = sat_add offset limit in
      if next < tot
      then ''Showing '' @ dec returned @ '' of '' @ dec tot @ '' (next --offset '' @ dec next @ '')''
      else ''Showing '' @ dec returned @ '' of '' @ dec tot)"

definition all_status :: "nat \<Rightarrow> walk_end \<Rightarrow> nat \<Rightarrow> str" where
  "all_status returned e m = (case e of
      WalkComplete \<Rightarrow> showing_all returned | StoppedAtMax \<Rightarrow> showing_first returned m)"

text \<open>The local page and the local cap of a complete list.\<close>

definition slice_page :: "'a list \<Rightarrow> nat \<Rightarrow> nat \<Rightarrow> 'a list" where
  "slice_page rows offset limit = take limit (drop offset rows)"

definition first_rows :: "'a list \<Rightarrow> nat \<Rightarrow> 'a list \<times> walk_end" where
  "first_rows rows m =
     (if m \<noteq> 0 \<and> m < length rows then (take m rows, StoppedAtMax) else (rows, WalkComplete))"

section \<open>Laws\<close>

lemma sat_add_le: "sat_add a b \<le> u64_max"
  by (simp add: sat_add_def)

lemma sat_add_ge: "a \<le> u64_max \<Longrightarrow> a \<le> sat_add a b"
  by (simp add: sat_add_def)

lemma checked_add_Some: "checked_add a b = Some c \<longleftrightarrow> c = a + b \<and> a + b \<le> u64_max"
  by (auto simp: checked_add_def)

lemma decimal_flag_Some:
  "decimal_flag s = Some n \<longleftrightarrow> s \<noteq> [] \<and> list_all is_digit s \<and> undec s = n \<and> n \<le> max_safe_integer"
  by (auto simp: decimal_flag_def max_safe_integer_def u64_max_def)

lemma decimal_flag_dec: "n \<le> max_safe_integer \<Longrightarrow> decimal_flag (dec n) = Some n"
  by (simp add: decimal_flag_Some dec_digits)

text \<open>Consecutive local pages cut a list without gap or overlap.\<close>

lemma slice_page_adjacent:
  "slice_page rows offset limit @ slice_page rows (offset + limit) limit' = slice_page rows offset (limit + limit')"
  by (simp add: slice_page_def take_add add.commute)

lemma first_rows_prefix: "fst (first_rows rows m) = take (length (fst (first_rows rows m))) rows"
  by (simp add: first_rows_def)

end
