(* ===== verification/Walk.thy ===== *)
theory Walk
  imports Pagination
begin

text \<open>
  \<open>src/walk.rs\<close>: the skip/limit page loop shared by the listings, with its item cap, byte
  bound, page bound and repeated-row check. The network is the state \<open>'w\<close> that \<open>fetch\<close> and
  \<open>check\<close> thread; a row's key and serialised size are functions of the row. An error is either
  one the SDK returned or one the walk makes itself, \<open>scm::Error::new(kind)\<close>.
\<close>

definition walk_pages :: nat where "walk_pages = 100000"
definition walk_bytes :: nat where "walk_bytes = 512 * 1024 * 1024"
definition walk_items :: nat where "walk_items = 1000000"

datatype 'e walk_error = FromSdk 'e | SdkError error_kind

record 'a page =
  page_rows :: "'a list"
  page_total :: "nat option"
  page_capped :: bool

definition page_new :: "'a list \<Rightarrow> nat option \<Rightarrow> 'a page" where
  "page_new rows tot = \<lparr>page_rows = rows, page_total = tot, page_capped = False\<rparr>"

record walk_params =
  w_limit :: "nat option"
  w_offset :: "nat option"
  w_all :: bool
  w_max :: nat

record 'a walked =
  walked_rows :: "'a list"
  stopped_at_max :: bool
  stopped_at_pages :: bool

record walk_spec =
  spec_start :: nat
  spec_max_pages :: nat
  page_cap_partial :: bool
  shrink_last_page :: bool

definition default_spec :: walk_spec where
  "default_spec = \<lparr>spec_start = 0, spec_max_pages = walk_pages, page_cap_partial = False,
                   shrink_last_page = False\<rparr>"

text \<open>
  A JSON number as a count. Rounding an integer of more than 53 bits to a double never brings it
  back below \<open>2 ^ 53\<close>, so the range check may be made on the exact value.
\<close>

fun as_f64 :: "number \<Rightarrow> rat" where
  "as_f64 (Whole n) = of_int n"
| "as_f64 (Double r) = r"

definition total_of :: "rat option \<Rightarrow> nat option" where
  "total_of t = (case t of
      None \<Rightarrow> None
    | Some r \<Rightarrow> if 0 \<le> r \<and> r \<le> of_nat max_safe_integer \<and> of_int \<lfloor>r\<rfloor> = r
                then Some (nat \<lfloor>r\<rfloor>) else None)"

definition pagination_error :: "'e walk_error" where
  "pagination_error = SdkError KPagination"

definition incomplete_walk :: "'e walk_error" where
  "incomplete_walk = SdkError KLimit"

definition all_walked :: "'a list \<Rightarrow> 'a walked" where
  "all_walked rows = \<lparr>walked_rows = rows, stopped_at_max = False, stopped_at_pages = False\<rparr>"

definition stop_at_cap :: "'a list \<Rightarrow> bool \<Rightarrow> ('e walk_error, 'a walked) result" where
  "stop_at_cap rows user_cap =
     (if user_cap then Ok \<lparr>walked_rows = rows, stopped_at_max = True, stopped_at_pages = False\<rparr>
      else Err incomplete_walk)"

text \<open>\<open>--max\<close> as a cap: whether the user chose it, and the number of rows.\<close>

definition user_cap_of :: "nat \<Rightarrow> bool" where
  "user_cap_of m = (m \<noteq> 0 \<and> m \<le> walk_items)"

definition cap_of :: "nat \<Rightarrow> nat" where
  "cap_of m = (if user_cap_of m then m else walk_items)"

section \<open>The rows of one page\<close>

text \<open>
  What a walk has collected: its rows, their bytes, the keys seen. A page either ends the walk,
  \<open>Inl\<close> of its result, or leaves a new collection, \<open>Inr\<close>.
\<close>

record 'a collected =
  c_rows :: "'a list"
  c_bytes :: nat
  c_seen :: "str set"

definition nothing_collected :: "'a collected" where
  "nothing_collected = \<lparr>c_rows = [], c_bytes = 0, c_seen = {}\<rparr>"

definition seen_before :: "str option \<Rightarrow> str set \<Rightarrow> bool" where
  "seen_before k seen = (case k of Some k' \<Rightarrow> k' \<in> seen | None \<Rightarrow> False)"

definition see :: "str option \<Rightarrow> str set \<Rightarrow> str set" where
  "see k seen = (case k of Some k' \<Rightarrow> insert k' seen | None \<Rightarrow> seen)"

fun take_rows :: "('a \<Rightarrow> nat) \<Rightarrow> ('a \<Rightarrow> str option) \<Rightarrow> nat \<Rightarrow> nat \<Rightarrow> bool \<Rightarrow> 'a list \<Rightarrow> 'a collected
    \<Rightarrow> ('e walk_error, 'a walked) result + 'a collected" where
  "take_rows row_size row_key max_bytes cap user_cap [] c = Inr c"
| "take_rows row_size row_key max_bytes cap user_cap (row # rest) c =
     (if seen_before (row_key row) (c_seen c) then Inl (Err pagination_error)
      else if length (c_rows c) = cap then Inl (stop_at_cap (c_rows c) user_cap)
      else let bytes' = sat_add (c_bytes c) (row_size row) in
        if max_bytes < bytes' then Inl (Err incomplete_walk)
        else take_rows row_size row_key max_bytes cap user_cap rest
               \<lparr>c_rows = c_rows c @ [row], c_bytes = bytes', c_seen = see (row_key row) (c_seen c)\<rparr>)"

section \<open>The loop\<close>

text \<open>
  \<open>walk_loop \<dots> n\<close> is the \<open>for\<close> loop with \<open>n\<close> pages left. The page size that is asked for is
  at most \<open>limit\<close>, a \<open>u32\<close>, so its conversion back never fails.
\<close>

type_synonym ('w, 'e, 'a) fetch = "nat \<Rightarrow> nat \<Rightarrow> 'w \<Rightarrow> ('e walk_error, 'a page) result \<times> 'w"
type_synonym ('w, 'e, 'a) page_check = "nat \<Rightarrow> nat \<Rightarrow> 'a page \<Rightarrow> 'w \<Rightarrow> ('e walk_error, unit) result \<times> 'w"

definition asked_size :: "walk_spec \<Rightarrow> nat \<Rightarrow> nat \<Rightarrow> 'a collected \<Rightarrow> nat" where
  "asked_size spec limit cap c =
     (if shrink_last_page spec then min limit (cap - length (c_rows c)) else limit)"

definition counted_total :: "bool \<Rightarrow> 'a page \<Rightarrow> nat option" where
  "counted_total capped page = (if capped then None else page_total page)"

definition more_pages :: "nat option \<Rightarrow> nat \<Rightarrow> nat \<Rightarrow> nat \<Rightarrow> bool" where
  "more_pages tot next received asked = (case tot of Some t \<Rightarrow> next < t | None \<Rightarrow> asked \<le> received)"

text \<open>
  One page after its check: \<open>Inl\<close> is the end of the walk, \<open>Inr\<close> the next \<open>skip\<close> and what is
  collected by then.
\<close>

definition take_page :: "('a \<Rightarrow> nat) \<Rightarrow> ('a \<Rightarrow> str option) \<Rightarrow> nat \<Rightarrow> bool \<Rightarrow> nat \<Rightarrow> nat \<Rightarrow> bool \<Rightarrow> 'a page
    \<Rightarrow> 'a collected \<Rightarrow> ('e walk_error, 'a walked) result + (nat \<times> 'a collected)" where
  "take_page row_size row_key cap user_cap skip asked capped page c =
     (let tot = counted_total capped page; received = length (page_rows page) in
      if received = 0
      then (case tot of
              Some t \<Rightarrow> if skip < t then Inl (Err pagination_error) else Inl (Ok (all_walked (c_rows c)))
            | None \<Rightarrow> Inl (Ok (all_walked (c_rows c))))
      else (case checked_add skip received of
          None \<Rightarrow> Inl (Err pagination_error)
        | Some next \<Rightarrow>
            (case take_rows row_size row_key walk_bytes cap user_cap (page_rows page) c of
                Inl r \<Rightarrow> Inl r
              | Inr c' \<Rightarrow>
                  if \<not> more_pages tot next received asked then Inl (Ok (all_walked (c_rows c')))
                  else if length (c_rows c') = cap then Inl (stop_at_cap (c_rows c') user_cap)
                  else Inr (next, c'))))"

primrec walk_loop :: "walk_spec \<Rightarrow> nat \<Rightarrow> nat \<Rightarrow> bool \<Rightarrow> ('w, 'e, 'a) fetch \<Rightarrow> ('a \<Rightarrow> nat) \<Rightarrow> ('a \<Rightarrow> str option)
    \<Rightarrow> ('w, 'e, 'a) page_check \<Rightarrow> nat \<Rightarrow> nat \<Rightarrow> bool \<Rightarrow> 'a collected \<Rightarrow> 'w
    \<Rightarrow> ('e walk_error, 'a walked) result \<times> 'w" where
  "walk_loop spec limit cap user_cap fetch row_size row_key check 0 skip capped c w =
     (if page_cap_partial spec
      then (Ok \<lparr>walked_rows = c_rows c, stopped_at_max = False, stopped_at_pages = True\<rparr>, w)
      else (Err incomplete_walk, w))"
| "walk_loop spec limit cap user_cap fetch row_size row_key check (Suc n) skip capped c w =
     (let asked = asked_size spec limit cap c in
      case fetch skip asked w of
        (Inl e, w1) \<Rightarrow> (Err e, w1)
      | (Inr page, w1) \<Rightarrow>
          (case check skip asked page w1 of
             (Inl e, w2) \<Rightarrow> (Err e, w2)
           | (Inr _, w2) \<Rightarrow>
               (let capped' = (capped \<or> page_capped page) in
                case take_page row_size row_key cap user_cap skip asked capped' page c of
                  Inl r \<Rightarrow> (r, w2)
                | Inr (next, c') \<Rightarrow>
                    walk_loop spec limit cap user_cap fetch row_size row_key check n next capped' c' w2)))"

definition walk_with :: "walk_spec \<Rightarrow> nat \<Rightarrow> nat \<Rightarrow> ('w, 'e, 'a) fetch \<Rightarrow> ('a \<Rightarrow> nat) \<Rightarrow> ('a \<Rightarrow> str option)
    \<Rightarrow> ('w, 'e, 'a) page_check \<Rightarrow> 'w \<Rightarrow> ('e walk_error, 'a walked) result \<times> 'w" where
  "walk_with spec limit m fetch row_size row_key check w =
     walk_loop spec limit (cap_of m) (user_cap_of m) fetch row_size row_key check
       (spec_max_pages spec) (spec_start spec) False nothing_collected w"

definition no_check :: "('w, 'e, 'a) page_check" where
  "no_check skip asked page w = (Ok (), w)"

definition walk :: "nat \<Rightarrow> nat \<Rightarrow> ('w, 'e, 'a) fetch \<Rightarrow> ('a \<Rightarrow> nat) \<Rightarrow> ('a \<Rightarrow> str option) \<Rightarrow> 'w
    \<Rightarrow> ('e walk_error, 'a walked) result \<times> 'w" where
  "walk limit m fetch row_size row_key w =
     walk_with default_spec limit m fetch row_size row_key no_check w"

text \<open>The client-side slice of a complete list.\<close>

definition walk_slice :: "'a list \<Rightarrow> walk_params \<Rightarrow> 'a list \<times> bool" where
  "walk_slice rows ps =
     (if w_all ps then (fst (first_rows rows (w_max ps)), snd (first_rows rows (w_max ps)) = StoppedAtMax)
      else let rest = drop (case w_offset ps of Some n \<Rightarrow> n | None \<Rightarrow> 0) rows in
        (case w_limit ps of Some n \<Rightarrow> take n rest | None \<Rightarrow> rest, False))"

end
