(* ===== verification/Listings.thy ===== *)
theory Listings
  imports Walk
begin

text \<open>
  The listings built on page walks: the DLP walk (\<open>src/dlp/walk.rs\<close>), the sessions walk with its
  per-page checks (\<open>src/commands/runtime_dashboard.rs\<close>), the supply-chain listing
  (\<open>src/supplychain/mod.rs\<close>) and the inventory walk of profile transfers
  (\<open>src/runtime/transfer/plan.rs\<close>, \<open>src/commands/profile_backup.rs\<close>). The compact JSON text of a
  row, which serde_json writes, is the parameter \<open>jtext\<close>.
\<close>

section \<open>The DLP walk\<close>

record dlp_meta =
  m_last :: "bool option"
  m_total_pages :: "nat option"
  m_total_elements :: "nat option"
  m_size :: "nat option"

definition json_count :: "json option \<Rightarrow> nat option" where
  "json_count v = (case v of Some (JNumber n) \<Rightarrow> total_of (Some (as_f64 n)) | _ \<Rightarrow> None)"

fun first_count :: "json \<Rightarrow> str list \<Rightarrow> nat option" where
  "first_count v [] = None"
| "first_count v (key # keys) =
     (case json_count (jget v key) of Some n \<Rightarrow> Some n | None \<Rightarrow> first_count v keys)"

definition rows_of :: "json \<Rightarrow> json list" where
  "rows_of page = (case jget page ''content'' of
      Some v \<Rightarrow> (case as_array v of Some rows \<Rightarrow> rows | None \<Rightarrow> []) | None \<Rightarrow> [])"

definition meta_of :: "json \<Rightarrow> dlp_meta" where
  "meta_of page =
     (let pageable_size = (case jget page ''pageable'' of
          Some p \<Rightarrow> first_count p [''pageSize'', ''page_size''] | None \<Rightarrow> None)
      in \<lparr>m_last = (case jget page ''last'' of Some (JBool b) \<Rightarrow> Some b | _ \<Rightarrow> None),
          m_total_pages = first_count page [''totalPages'', ''total_pages''],
          m_total_elements = first_count page [''totalElements'', ''total_elements''],
          m_size = (case (case json_count (jget page ''size'') of Some n \<Rightarrow> Some n | None \<Rightarrow> pageable_size) of
              Some n \<Rightarrow> if 1 \<le> n then Some n else None | None \<Rightarrow> None)\<rparr>)"

text \<open>The numbers of the page status line: page number, page size, total.\<close>

definition status_numbers :: "json \<Rightarrow> nat \<Rightarrow> nat \<times> nat \<times> nat option" where
  "status_numbers page returned =
     (let pageable = jget page ''pageable'';
          num = (case pageable of Some p \<Rightarrow> first_count p [''pageNumber'', ''page_number''] | None \<Rightarrow> None);
          sz = (case pageable of Some p \<Rightarrow> first_count p [''pageSize'', ''page_size''] | None \<Rightarrow> None)
      in (case num of Some n \<Rightarrow> n | None \<Rightarrow> 0, case sz of Some n \<Rightarrow> n | None \<Rightarrow> returned,
          first_count page [''totalElements'', ''total_elements'']))"

definition id_of :: "json \<Rightarrow> str option" where
  "id_of row = (case jget row ''id'' of
      Some v \<Rightarrow> (case as_str v of Some s \<Rightarrow> if s = [] then None else Some s | None \<Rightarrow> None)
    | None \<Rightarrow> None)"

definition last_page :: "nat \<Rightarrow> nat \<Rightarrow> json \<Rightarrow> bool" where
  "last_page size_asked page_number answer =
     (let meta = meta_of answer;
          page_size = (case m_size meta of Some n \<Rightarrow> n | None \<Rightarrow> size_asked)
      in case m_last meta of
           Some b \<Rightarrow> b
         | None \<Rightarrow> (case m_total_pages meta of
               Some n \<Rightarrow> n \<le> page_number + 1
             | None \<Rightarrow> length (rows_of answer) < page_size))"

text \<open>
  One page: \<open>Inl\<close> is the end of the walk. The rows of a page go through the same checks, in the
  same order, as those of \<open>Walk.take_rows\<close>.
\<close>

definition dlp_page :: "(json \<Rightarrow> str) \<Rightarrow> nat \<Rightarrow> nat \<Rightarrow> bool \<Rightarrow> nat \<Rightarrow> nat \<Rightarrow> json \<Rightarrow> json collected
    \<Rightarrow> ('e walk_error, json walked) result + json collected" where
  "dlp_page jtext max_bytes cap user_cap size_asked page_number answer c =
     (let is_last = last_page size_asked page_number answer in
      if rows_of answer = [] \<and> \<not> is_last then Inl (Err pagination_error)
      else (case take_rows (\<lambda>row. length (jtext row)) id_of max_bytes cap user_cap (rows_of answer) c of
          Inl r \<Rightarrow> Inl r
        | Inr c' \<Rightarrow>
            if is_last then Inl (Ok (all_walked (c_rows c')))
            else if length (c_rows c') = cap then Inl (stop_at_cap (c_rows c') user_cap)
            else Inr c'))"

type_synonym ('w, 'e) dlp_fetch = "nat \<Rightarrow> nat \<Rightarrow> 'w \<Rightarrow> ('e walk_error, json) result \<times> 'w"

text \<open>\<open>dlp_loop \<dots> n\<close> is the \<open>for\<close> loop over the page numbers with \<open>n\<close> of them left.\<close>

primrec dlp_loop :: "(json \<Rightarrow> str) \<Rightarrow> nat \<Rightarrow> nat \<Rightarrow> bool \<Rightarrow> nat \<Rightarrow> ('w, 'e) dlp_fetch \<Rightarrow> nat \<Rightarrow> nat
    \<Rightarrow> json collected \<Rightarrow> 'w \<Rightarrow> ('e walk_error, json walked) result \<times> 'w" where
  "dlp_loop jtext max_bytes cap user_cap size_asked fetch 0 page c w = (Err incomplete_walk, w)"
| "dlp_loop jtext max_bytes cap user_cap size_asked fetch (Suc n) page c w =
     (case fetch page size_asked w of
        (Inl e, w1) \<Rightarrow> (Err e, w1)
      | (Inr answer, w1) \<Rightarrow>
          (case dlp_page jtext max_bytes cap user_cap size_asked page answer c of
             Inl r \<Rightarrow> (r, w1)
           | Inr c' \<Rightarrow> dlp_loop jtext max_bytes cap user_cap size_asked fetch n (Suc page) c' w1))"

definition dlp_walk_bounded :: "(json \<Rightarrow> str) \<Rightarrow> nat \<Rightarrow> nat \<Rightarrow> nat \<Rightarrow> ('w, 'e) dlp_fetch \<Rightarrow> 'w
    \<Rightarrow> ('e walk_error, json walked) result \<times> 'w" where
  "dlp_walk_bounded jtext size_asked m max_bytes fetch w =
     dlp_loop jtext max_bytes (cap_of m) (user_cap_of m) size_asked fetch walk_pages 0
       nothing_collected w"

definition dlp_walk :: "(json \<Rightarrow> str) \<Rightarrow> nat \<Rightarrow> nat \<Rightarrow> ('w, 'e) dlp_fetch \<Rightarrow> 'w
    \<Rightarrow> ('e walk_error, json walked) result \<times> 'w" where
  "dlp_walk jtext size_asked m fetch w = dlp_walk_bounded jtext size_asked m walk_bytes fetch w"

section \<open>The sessions walk\<close>

definition session_pages :: nat where "session_pages = 100"

definition items_of :: "json \<Rightarrow> json list" where
  "items_of page = (case jget page ''items'' of
      Some v \<Rightarrow> (case as_array v of Some rows \<Rightarrow> rows | None \<Rightarrow> []) | None \<Rightarrow> [])"

definition json_number :: "json \<Rightarrow> str \<Rightarrow> rat option" where
  "json_number v key = (case jget v key of Some (JNumber n) \<Rightarrow> Some (as_f64 n) | _ \<Rightarrow> None)"

definition pagination_number :: "json \<Rightarrow> str \<Rightarrow> rat option" where
  "pagination_number page key = (case jget page ''pagination'' of
      Some p \<Rightarrow> json_number p key | None \<Rightarrow> None)"

definition session_key :: "(json \<Rightarrow> str) \<Rightarrow> json \<Rightarrow> str" where
  "session_key jtext item =
     (let member = (\<lambda>key. case jget item key of Some v \<Rightarrow> v | None \<Rightarrow> JNull)
      in jtext (JArray [member ''application_id'', member ''application_name'', member ''session_id'']))"

text \<open>The total of the first page, and the keys of all rows so far.\<close>

record session_seen =
  expected_total :: "nat option"
  session_keys :: "str set"

fun see_all :: "str list \<Rightarrow> str set \<Rightarrow> str set option" where
  "see_all [] seen = Some seen"
| "see_all (k # ks) seen = (if k \<in> seen then None else see_all ks (insert k seen))"

definition session_check :: "(json \<Rightarrow> str) \<Rightarrow> nat \<Rightarrow> nat \<Rightarrow> json page \<Rightarrow> session_seen
    \<Rightarrow> ('e walk_error, session_seen) result" where
  "session_check jtext limit offset page s =
     (case page_total page of
        None \<Rightarrow> Err pagination_error
      | Some t \<Rightarrow>
          let received = length (page_rows page) in
          if limit < received \<or> (case expected_total s of Some f \<Rightarrow> f \<noteq> t | None \<Rightarrow> False)
          then Err pagination_error
          else (case see_all (map (session_key jtext) (page_rows page)) (session_keys s) of
              None \<Rightarrow> Err pagination_error
            | Some seen \<Rightarrow>
                if t < sat_add offset received then Err pagination_error
                else Ok \<lparr>expected_total = Some t, session_keys = seen\<rparr>))"

text \<open>\<open>overview\<close> sends one request; the page must echo the offset and the limit asked for.\<close>

definition session_fetch :: "(nat \<Rightarrow> 'w \<Rightarrow> ('e walk_error, json) result \<times> 'w) \<Rightarrow> nat
    \<Rightarrow> ('w \<times> session_seen, 'e, json) fetch" where
  "session_fetch overview limit offset asked ws =
     (case overview offset (fst ws) of
        (Inl e, w') \<Rightarrow> (Err e, (w', snd ws))
      | (Inr page, w') \<Rightarrow>
          if pagination_number page ''skip'' = Some (of_nat offset)
             \<and> pagination_number page ''limit'' = Some (of_nat limit)
          then (Ok (page_new (items_of page) (total_of (pagination_number page ''total_items''))), (w', snd ws))
          else (Err pagination_error, (w', snd ws)))"

definition session_page_check :: "(json \<Rightarrow> str) \<Rightarrow> nat \<Rightarrow> ('w \<times> session_seen, 'e, json) page_check" where
  "session_page_check jtext limit offset asked page ws =
     (case session_check jtext limit offset page (snd ws) of
        Inl e \<Rightarrow> (Err e, ws)
      | Inr s' \<Rightarrow> (Ok (), (fst ws, s')))"

definition sessions_walk :: "(json \<Rightarrow> str) \<Rightarrow> (nat \<Rightarrow> 'w \<Rightarrow> ('e walk_error, json) result \<times> 'w) \<Rightarrow> nat
    \<Rightarrow> nat \<Rightarrow> nat \<Rightarrow> 'w \<Rightarrow> ('e walk_error, json walked) result \<times> ('w \<times> session_seen)" where
  "sessions_walk jtext overview limit offset m w =
     walk_with \<lparr>spec_start = offset, spec_max_pages = session_pages, page_cap_partial = True,
                shrink_last_page = False\<rparr>
       (min limit u32_max) m (session_fetch overview limit) (\<lambda>row. length (jtext row)) (\<lambda>_. None)
       (session_page_check jtext limit) (w, \<lparr>expected_total = None, session_keys = {}\<rparr>)"

definition sessions_partial :: "'a walked \<Rightarrow> bool" where
  "sessions_partial walked = (stopped_at_max walked \<or> stopped_at_pages walked)"

definition sessions_status :: "'a walked \<Rightarrow> nat \<Rightarrow> str" where
  "sessions_status walked offset =
     (if stopped_at_max walked then ''Session item cap reached; output is partial.''
      else if stopped_at_pages walked then ''Session page cap reached; output is partial.''
      else ''Retrieved '' @ dec (length (walked_rows walked)) @ '' sessions from offset '' @ dec offset
           @ ''; pagination complete.'')"

section \<open>The supply-chain listing\<close>

datatype list_kind = Scans | Rules

record paging =
  pg_limit :: nat
  pg_offset :: nat
  pg_all :: bool
  pg_max :: nat

record list_page =
  lp_rows :: "json list"
  lp_total :: "nat option"

record pagination_doc =
  d_total_items :: "nat option"
  d_returned :: nat
  d_skip :: nat
  d_next_offset :: "nat option"
  d_truncated :: bool

record listed =
  l_rows :: "json list"
  l_pagination :: pagination_doc

datatype 'e list_failure = SdkFailure "'e walk_error" | ContractFailure

definition pagination_new :: "list_kind \<Rightarrow> nat option \<Rightarrow> paging \<Rightarrow> nat \<Rightarrow> bool \<Rightarrow> pagination_doc" where
  "pagination_new kind tot pg returned is_complete =
     \<lparr>d_total_items = (case kind of
          Scans \<Rightarrow> tot
        | Rules \<Rightarrow> if is_complete \<and> pg_offset pg = 0 then Some returned else None),
      d_returned = returned, d_skip = pg_offset pg,
      d_next_offset = (if is_complete then None else Some (sat_add (pg_offset pg) returned)),
      d_truncated = (\<not> is_complete)\<rparr>"

definition jcount :: "nat \<Rightarrow> json" where
  "jcount n = JNumber (Whole (int n))"

definition jcount_or_null :: "nat option \<Rightarrow> json" where
  "jcount_or_null n = (case n of Some k \<Rightarrow> jcount k | None \<Rightarrow> JNull)"

definition pagination_value :: "pagination_doc \<Rightarrow> json" where
  "pagination_value d = JObject
     [(''total_items'', jcount_or_null (d_total_items d)),
      (''returned'', jcount (d_returned d)),
      (''skip'', jcount (d_skip d)),
      (''next_offset'', jcount_or_null (d_next_offset d)),
      (''truncated'', JBool (d_truncated d))]"

record checks =
  ck_kind :: list_kind
  ck_offset :: nat
  ck_first_total :: "nat option"
  ck_seen :: "str set"

definition checks_new :: "list_kind \<Rightarrow> nat \<Rightarrow> checks" where
  "checks_new kind offset = \<lparr>ck_kind = kind, ck_offset = offset, ck_first_total = None, ck_seen = {}\<rparr>"

definition uuid_of :: "json \<Rightarrow> str" where
  "uuid_of row = (case jget row ''uuid'' of
      Some v \<Rightarrow> (case as_str v of Some s \<Rightarrow> s | None \<Rightarrow> []) | None \<Rightarrow> [])"

fun see_uuids :: "json list \<Rightarrow> str set \<Rightarrow> str set option" where
  "see_uuids [] seen = Some seen"
| "see_uuids (row # rows) seen =
     (if uuid_of row = [] \<or> uuid_of row \<in> seen then None
      else see_uuids rows (insert (uuid_of row) seen))"

text \<open>The first total of the walk once a page of scans is read, \<open>Err\<close> if it is not on this page.\<close>

definition check_total :: "list_kind \<Rightarrow> nat option \<Rightarrow> nat option \<Rightarrow> ('e walk_error, nat option) result" where
  "check_total kind first tot = (case kind of
      Rules \<Rightarrow> Ok first
    | Scans \<Rightarrow> (case tot of
          None \<Rightarrow> Err pagination_error
        | Some t \<Rightarrow> (case first of
              None \<Rightarrow> Ok (Some t)
            | Some f \<Rightarrow> if f \<noteq> t then Err pagination_error else Ok (Some f))))"

definition checks_check :: "checks \<Rightarrow> json list \<Rightarrow> nat option \<Rightarrow> nat \<Rightarrow> nat
    \<Rightarrow> ('e walk_error, checks) result" where
  "checks_check ck rows tot skip asked =
     (let received = length rows in
      if asked < received then Err pagination_error
      else bind_r (check_total (ck_kind ck) (ck_first_total ck) tot) (\<lambda>first.
        case see_uuids rows (ck_seen ck) of
          None \<Rightarrow> Err pagination_error
        | Some seen \<Rightarrow>
            let ck' = ck\<lparr>ck_first_total := first, ck_seen := seen\<rparr> in
            (case (ck_kind ck, first) of
               (Scans, Some t) \<Rightarrow>
                 let gathered = sat_add (skip - ck_offset ck) received in
                 if 0 < gathered \<and> t < sat_add skip received then Err pagination_error else Ok ck'
             | _ \<Rightarrow> Ok ck')))"

text \<open>
  The state a walk of this listing threads: the network, whether an answer was refused, and the
  checks. A refused answer stops the walk as a decode error and is told apart afterwards.
\<close>

record 'w list_state =
  ls_net :: 'w
  ls_refused :: bool
  ls_checks :: checks

definition list_fetch :: "list_kind \<Rightarrow> (nat \<Rightarrow> nat \<Rightarrow> 'w \<Rightarrow> ('e list_failure, list_page) result \<times> 'w)
    \<Rightarrow> ('w list_state, 'e, json) fetch" where
  "list_fetch kind read skip asked s =
     (case read skip asked (ls_net s) of
        (Inl (SdkFailure e), w') \<Rightarrow> (Err e, s\<lparr>ls_net := w'\<rparr>)
      | (Inl ContractFailure, w') \<Rightarrow> (Err (SdkError KDecode), s\<lparr>ls_net := w', ls_refused := True\<rparr>)
      | (Inr page, w') \<Rightarrow>
          (Ok (page_new (lp_rows page) (case kind of Scans \<Rightarrow> lp_total page | Rules \<Rightarrow> None)),
           s\<lparr>ls_net := w'\<rparr>))"

definition list_check :: "('w list_state, 'e, json) page_check" where
  "list_check skip asked page s =
     (case checks_check (ls_checks s) (page_rows page) (page_total page) skip asked of
        Inl e \<Rightarrow> (Err e, s)
      | Inr ck \<Rightarrow> (Ok (), s\<lparr>ls_checks := ck\<rparr>))"

definition list_inventory :: "(json \<Rightarrow> str) \<Rightarrow> list_kind \<Rightarrow> paging
    \<Rightarrow> (nat \<Rightarrow> nat \<Rightarrow> 'w \<Rightarrow> ('e list_failure, list_page) result \<times> 'w) \<Rightarrow> 'w
    \<Rightarrow> ('e list_failure, listed) result \<times> 'w" where
  "list_inventory jtext kind pg read w =
     (let ck = checks_new kind (pg_offset pg) in
      if \<not> pg_all pg then
        (case read (pg_offset pg) (pg_limit pg) w of
           (Inl e, w') \<Rightarrow> (Err e, w')
         | (Inr page, w') \<Rightarrow>
             (case checks_check ck (lp_rows page) (lp_total page) (pg_offset pg) (pg_limit pg) of
                Inl e \<Rightarrow> (Err (SdkFailure e), w')
              | Inr _ \<Rightarrow>
                  let returned = length (lp_rows page);
                      is_complete = (case kind of
                        Scans \<Rightarrow> (case lp_total page of
                            Some t \<Rightarrow> t \<le> sat_add (pg_offset pg) returned | None \<Rightarrow> False)
                      | Rules \<Rightarrow> returned < pg_limit pg)
                  in (Ok \<lparr>l_rows = lp_rows page,
                          l_pagination = pagination_new kind (lp_total page) pg returned is_complete\<rparr>, w')))
      else
        (case walk_with (default_spec\<lparr>spec_start := pg_offset pg, shrink_last_page := True\<rparr>)
                (pg_limit pg) (pg_max pg) (list_fetch kind read) (\<lambda>row. length (jtext row)) (\<lambda>_. None)
                list_check \<lparr>ls_net = w, ls_refused = False, ls_checks = ck\<rparr> of
           (Inl e, s) \<Rightarrow> (Err (if ls_refused s then ContractFailure else SdkFailure e), ls_net s)
         | (Inr walked, s) \<Rightarrow>
             (Ok \<lparr>l_rows = walked_rows walked,
                  l_pagination = pagination_new kind (ck_first_total (ls_checks s)) pg
                    (length (walked_rows walked)) (\<not> stopped_at_max walked)\<rparr>, ls_net s)))"

section \<open>The inventory walk of a transfer\<close>

definition max_inventory :: nat where "max_inventory = 10000"
definition page_limit :: nat where "page_limit = 100"

datatype refusal = Stated str | Withheld str

fun refusal_message :: "refusal \<Rightarrow> str" where
  "refusal_message (Stated m) = m"
| "refusal_message (Withheld m) = m"

fun refusal_stated :: "refusal \<Rightarrow> str option" where
  "refusal_stated (Stated m) = Some m"
| "refusal_stated (Withheld _) = None"

datatype collection = Profiles | Topics

fun collection_key :: "collection \<Rightarrow> str" where
  "collection_key Profiles = ''ai_profiles''"
| "collection_key Topics = ''custom_topics''"

fun collection_label :: "collection \<Rightarrow> str" where
  "collection_label Profiles = ''security profiles''"
| "collection_label Topics = ''custom topics''"

datatype walk_step = NextPage nat | WalkDone

record offset_walk =
  ow_collection :: collection
  ow_absent :: str
  ow_max_pages :: nat
  ow_pages :: nat
  ow_offset :: nat
  ow_items :: "json list"

definition offset_walk_new :: "collection \<Rightarrow> nat \<Rightarrow> str \<Rightarrow> offset_walk" where
  "offset_walk_new coll mp absent =
     \<lparr>ow_collection = coll, ow_absent = absent, ow_max_pages = mp, ow_pages = 0, ow_offset = 0,
      ow_items = []\<rparr>"

definition inventory_incomplete :: str where
  "inventory_incomplete = ''Inventory is incomplete: increase --max-pages before exporting or restoring''"

text \<open>The next offset an answer names: absent or 0 ends the walk, anything but a safe integer is wrong.\<close>

datatype next_offset = NoOffset | BadOffset | AtOffset nat

definition next_offset_of :: "json \<Rightarrow> next_offset" where
  "next_offset_of answer = (case jget answer ''next_offset'' of
      None \<Rightarrow> NoOffset
    | Some (JNumber n) \<Rightarrow>
        if as_f64 n = 0 then NoOffset
        else (case total_of (Some (as_f64 n)) of Some k \<Rightarrow> AtOffset k | None \<Rightarrow> BadOffset)
    | Some _ \<Rightarrow> BadOffset)"

definition offset_accept :: "offset_walk \<Rightarrow> json \<Rightarrow> (refusal, walk_step \<times> offset_walk) result" where
  "offset_accept ow answer =
     (case jget answer (collection_key (ow_collection ow)) of
        Some (JArray rows) \<Rightarrow>
          (let ow' = ow\<lparr>ow_pages := ow_pages ow + 1, ow_items := ow_items ow @ rows\<rparr> in
           if max_inventory < length (ow_items ow')
           then Err (Stated (''Inventory exceeds the '' @ dec max_inventory @ ''-record safety limit''))
           else (case next_offset_of answer of
               NoOffset \<Rightarrow> Ok (WalkDone, ow')
             | BadOffset \<Rightarrow> Err (Stated ''Inventory pagination did not advance'')
             | AtOffset next \<Rightarrow>
                 if rows = [] \<or> next \<le> ow_offset ow
                 then Err (Stated ''Inventory pagination did not advance'')
                 else if ow_max_pages ow \<le> ow_pages ow' then Err (Stated inventory_incomplete)
                 else Ok (NextPage next, ow'\<lparr>ow_offset := next\<rparr>)))
      | _ \<Rightarrow> Err (Stated (ow_absent ow)))"

datatype 'e inventory_error = InventorySdk 'e | InventoryRule refusal

lemma offset_accept_pages:
  "offset_accept ow answer = Ok (NextPage next, ow') \<Longrightarrow>
     ow_pages ow' = Suc (ow_pages ow) \<and> ow_pages ow' < ow_max_pages ow \<and> ow_max_pages ow' = ow_max_pages ow"
  by (auto simp: offset_accept_def Let_def split: option.splits json.splits next_offset.splits if_splits)

text \<open>
  The command's loop; \<open>read offset\<close> sends one list request of \<open>page_limit\<close> rows and gives its
  answer as ordered JSON. It ends: every further page is one of the \<open>max_pages\<close>.
\<close>

function inventory_loop :: "(nat \<Rightarrow> 'w \<Rightarrow> ('e, json) result \<times> 'w) \<Rightarrow> offset_walk \<Rightarrow> nat \<Rightarrow> 'w
    \<Rightarrow> ('e inventory_error, json list) result \<times> 'w" where
  "inventory_loop read ow offset w =
     (case read offset w of
        (Inl e, w') \<Rightarrow> (Err (InventorySdk e), w')
      | (Inr answer, w') \<Rightarrow>
          (case offset_accept ow answer of
             Inl r \<Rightarrow> (Err (InventoryRule r), w')
           | Inr (WalkDone, ow') \<Rightarrow> (Ok (ow_items ow'), w')
           | Inr (NextPage next, ow') \<Rightarrow> inventory_loop read ow' next w'))"
  by pat_completeness auto
termination
  by (relation "measure (\<lambda>(read, ow, offset, w). ow_max_pages ow - ow_pages ow)")
    (auto dest!: offset_accept_pages)

declare inventory_loop.simps [simp del]

definition inventory :: "(nat \<Rightarrow> 'w \<Rightarrow> ('e, json) result \<times> 'w) \<Rightarrow> collection \<Rightarrow> nat \<Rightarrow> str \<Rightarrow> 'w
    \<Rightarrow> ('e inventory_error, json list) result \<times> 'w" where
  "inventory read coll mp absent w = inventory_loop read (offset_walk_new coll mp absent) 0 w"

end
