(* ===== verification/WalkCorrect.thy ===== *)
theory WalkCorrect
  imports Listings
begin

text \<open>
  What a page walk gives. Whatever the service does: no repeated key, the item cap, the byte
  bound, at most \<open>max_pages\<close> requests at strictly growing offsets. For a stable service: exactly
  its rows, or the first \<open>--max\<close> of them. A sessions walk that does not call itself partial has
  as many rows as the service counted.
\<close>

section \<open>Collected rows\<close>

definition keys_of :: "('a \<Rightarrow> str option) \<Rightarrow> 'a list \<Rightarrow> str list" where
  "keys_of row_key rows = List.map_filter row_key rows"

definition bytes_of :: "('a \<Rightarrow> nat) \<Rightarrow> 'a list \<Rightarrow> nat" where
  "bytes_of row_size rows = sum_list (map row_size rows)"

lemma keys_of_append [simp]: "keys_of k (xs @ ys) = keys_of k xs @ keys_of k ys"
  by (simp add: keys_of_def map_filter_def)

lemma keys_of_Nil [simp]: "keys_of k [] = []"
  by (simp add: keys_of_def map_filter_def)

lemma keys_of_Cons [simp]:
  "keys_of k (x # xs) = (case k x of None \<Rightarrow> keys_of k xs | Some y \<Rightarrow> y # keys_of k xs)"
  by (simp add: keys_of_def map_filter_def split: option.split)

lemma bytes_of_simps [simp]:
  "bytes_of f [] = 0" "bytes_of f (x # xs) = f x + bytes_of f xs"
  "bytes_of f (xs @ ys) = bytes_of f xs + bytes_of f ys"
  by (simp_all add: bytes_of_def)

lemma keys_of_none [simp]: "keys_of (\<lambda>_. None) xs = []"
  by (induction xs) simp_all

definition collection_ok :: "('a \<Rightarrow> nat) \<Rightarrow> ('a \<Rightarrow> str option) \<Rightarrow> nat \<Rightarrow> nat \<Rightarrow> 'a collected \<Rightarrow> bool" where
  "collection_ok row_size row_key max_bytes cap c \<longleftrightarrow>
     length (c_rows c) \<le> cap \<and> distinct (keys_of row_key (c_rows c))
     \<and> c_seen c = set (keys_of row_key (c_rows c))
     \<and> c_bytes c = bytes_of row_size (c_rows c) \<and> c_bytes c \<le> max_bytes"

definition result_ok :: "('a \<Rightarrow> nat) \<Rightarrow> ('a \<Rightarrow> str option) \<Rightarrow> nat \<Rightarrow> nat \<Rightarrow> bool \<Rightarrow> 'a walked \<Rightarrow> bool" where
  "result_ok row_size row_key max_bytes cap user_cap r \<longleftrightarrow>
     length (walked_rows r) \<le> cap \<and> distinct (keys_of row_key (walked_rows r))
     \<and> bytes_of row_size (walked_rows r) \<le> max_bytes
     \<and> (stopped_at_max r \<longrightarrow> user_cap \<and> length (walked_rows r) = cap)"

lemma nothing_collected_ok [simp]: "collection_ok row_size row_key max_bytes cap nothing_collected"
  by (simp add: collection_ok_def nothing_collected_def)

lemma result_of_collection:
  "collection_ok row_size row_key max_bytes cap c \<Longrightarrow>
     result_ok row_size row_key max_bytes cap user_cap (all_walked (c_rows c))"
  by (simp add: collection_ok_def result_ok_def all_walked_def)

lemma result_of_cap:
  "\<lbrakk>collection_ok row_size row_key max_bytes cap c; length (c_rows c) = cap;
    stop_at_cap (c_rows c) user_cap = Ok r\<rbrakk> \<Longrightarrow> result_ok row_size row_key max_bytes cap user_cap r"
  by (auto simp: collection_ok_def result_ok_def stop_at_cap_def split: if_splits)

lemma keys_of_see: "set (keys_of k (xs @ [x])) = see (k x) (set (keys_of k xs))"
  by (simp add: see_def split: option.split)

lemma distinct_see:
  "\<lbrakk>distinct (keys_of k xs); \<not> seen_before (k x) (set (keys_of k xs))\<rbrakk> \<Longrightarrow> distinct (keys_of k (xs @ [x]))"
  by (simp add: seen_before_def split: option.splits)

lemma collection_ok_push:
  assumes "collection_ok row_size row_key max_bytes cap c"
    and "\<not> seen_before (row_key row) (c_seen c)" and "length (c_rows c) \<noteq> cap"
    and "\<not> max_bytes < sat_add (c_bytes c) (row_size row)" and "max_bytes < u64_max"
  shows "collection_ok row_size row_key max_bytes cap
    \<lparr>c_rows = c_rows c @ [row], c_bytes = sat_add (c_bytes c) (row_size row),
     c_seen = see (row_key row) (c_seen c)\<rparr>"
proof -
  have "sat_add (c_bytes c) (row_size row) = c_bytes c + row_size row"
    using assms(4,5) by (simp add: sat_add_def min_def split: if_splits)
  moreover have "distinct (keys_of row_key (c_rows c @ [row]))"
    using assms(1,2) by (intro distinct_see) (auto simp: collection_ok_def)
  ultimately show ?thesis
    using assms(1,3,4) keys_of_see [of row_key "c_rows c" row]
    by (simp add: collection_ok_def)
qed

lemma take_rows_ok:
  assumes "collection_ok row_size row_key max_bytes cap c" and "max_bytes < u64_max"
    and "take_rows row_size row_key max_bytes cap user_cap rows c = T"
  shows "(case T of
            Inl res \<Rightarrow> (\<forall>r. res = Ok r \<longrightarrow> result_ok row_size row_key max_bytes cap user_cap r)
          | Inr c' \<Rightarrow> collection_ok row_size row_key max_bytes cap c' \<and> c_rows c' = c_rows c @ rows)"
  using assms(1,3)
proof (induction rows arbitrary: c)
  case (Cons row rows)
  note push = collection_ok_push [OF Cons.prems(1), of row]
  show ?case
  proof (cases "seen_before (row_key row) (c_seen c) \<or> length (c_rows c) = cap
      \<or> max_bytes < sat_add (c_bytes c) (row_size row)")
    case True
    then show ?thesis
      using result_of_cap [OF Cons.prems(1)] Cons.prems(2) by (auto simp: Let_def split: if_splits)
  next
    case False
    with push assms(2) have ok: "collection_ok row_size row_key max_bytes cap
      \<lparr>c_rows = c_rows c @ [row], c_bytes = sat_add (c_bytes c) (row_size row),
       c_seen = see (row_key row) (c_seen c)\<rparr>" by simp
    from False Cons.prems(2) have eq: "take_rows row_size row_key max_bytes cap user_cap rows
      \<lparr>c_rows = c_rows c @ [row], c_bytes = sat_add (c_bytes c) (row_size row),
       c_seen = see (row_key row) (c_seen c)\<rparr> = T" by (simp add: Let_def)
    from Cons.IH [OF ok eq] show ?thesis by (cases T) auto
  qed
qed auto

lemma walk_bytes_small: "walk_bytes < u64_max"
  by (simp add: walk_bytes_def u64_max_def)

lemma take_page_ok:
  fixes T :: "('e walk_error, 'a walked) result + (nat \<times> 'a collected)"
  assumes "collection_ok row_size row_key walk_bytes cap c"
    and "take_page row_size row_key cap user_cap skip asked capped page c = T"
  shows "(case T of
            Inl res \<Rightarrow> (\<forall>r. res = Ok r \<longrightarrow> result_ok row_size row_key walk_bytes cap user_cap r)
          | Inr (next, c') \<Rightarrow> collection_ok row_size row_key walk_bytes cap c' \<and> skip < next
              \<and> next = skip + length (page_rows page) \<and> c_rows c' = c_rows c @ page_rows page
              \<and> length (c_rows c') \<noteq> cap)"
proof (cases "take_rows row_size row_key walk_bytes cap user_cap (page_rows page) c
    :: ('e walk_error, 'a walked) result + 'a collected")
  case (Inl res)
  with take_rows_ok [OF assms(1) walk_bytes_small Inl] result_of_collection [OF assms(1)] assms(2)
  show ?thesis
    by (auto simp: take_page_def Let_def split: option.splits if_splits)
next
  case (Inr c')
  with take_rows_ok [OF assms(1) walk_bytes_small Inr]
  have c': "collection_ok row_size row_key walk_bytes cap c'" "c_rows c' = c_rows c @ page_rows page"
    by simp_all
  show ?thesis
    using Inr c' result_of_collection [OF assms(1)] result_of_collection [OF c'(1)]
      result_of_cap [OF c'(1)] assms(2)
    by (auto simp: take_page_def Let_def checked_add_Some split: option.splits if_splits)
qed

text \<open>The invariant rule of the loop: a walk that ends well ends where a page or the page bound ends it.\<close>

lemma walk_loop_rule:
  fixes fetch :: "('w, 'e, 'a) fetch"
  assumes "I skip capped c w"
    and "\<And>skip capped c w page w1 w2
      (T :: ('e walk_error, 'a walked) result + (nat \<times> 'a collected)). \<lbrakk>I skip capped c w;
      fetch skip (asked_size spec limit cap c) w = (Ok page, w1);
      check skip (asked_size spec limit cap c) page w1 = (Ok (), w2);
      take_page row_size row_key cap user_cap skip (asked_size spec limit cap c)
        (capped \<or> page_capped page) page c = T\<rbrakk> \<Longrightarrow>
      (case T of
         Inl res \<Rightarrow> (\<forall>r. res = Ok r \<longrightarrow> Q r w2)
       | Inr (next, c') \<Rightarrow> I next (capped \<or> page_capped page) c' w2)"
    and "\<And>skip capped c w. \<lbrakk>I skip capped c w; page_cap_partial spec\<rbrakk> \<Longrightarrow>
      Q \<lparr>walked_rows = c_rows c, stopped_at_max = False, stopped_at_pages = True\<rparr> w"
    and "walk_loop spec limit cap user_cap fetch row_size row_key check n skip capped c w = (Ok r, w')"
  shows "Q r w'"
  using assms(1,4)
proof (induction n arbitrary: skip capped c w)
  case 0
  then show ?case using assms(3) by (auto split: if_splits)
next
  case (Suc n)
  obtain page w1 w2 where p: "fetch skip (asked_size spec limit cap c) w = (Ok page, w1)"
      "check skip (asked_size spec limit cap c) page w1 = (Ok (), w2)"
    and step: "(case take_page row_size row_key cap user_cap skip
        (asked_size spec limit cap c) (capped \<or> page_capped page) page c of
      Inl res \<Rightarrow> (res, w2)
    | Inr (next, c') \<Rightarrow> walk_loop spec limit cap user_cap fetch row_size row_key check n next
        (capped \<or> page_capped page) c' w2) = (Ok r, w')"
    using Suc.prems(2) by (auto simp: Let_def split: prod.splits sum.splits)
  show ?case
    using step assms(2) [OF Suc.prems(1) p refl] Suc.IH
    by (auto split: sum.splits prod.splits)
qed

lemma walk_loop_ok:
  assumes "collection_ok row_size row_key walk_bytes cap c"
    and "walk_loop spec limit cap user_cap fetch row_size row_key check n skip capped c w = (Ok r, w')"
  shows "result_ok row_size row_key walk_bytes cap user_cap r"
proof (rule walk_loop_rule [where I = "\<lambda>_ _ c _. collection_ok row_size row_key walk_bytes cap c",
      OF assms(1) _ _ assms(2)], goal_cases)
  case (1 skip capped c w page w1 w2 T)
  show ?case using take_page_ok [OF 1(1,4)] by (auto split: sum.splits)
next
  case 2
  then show ?case by (simp add: collection_ok_def result_ok_def)
qed

text \<open>The bounds of any walk that ends well, whatever the service answered.\<close>

lemma walk_with_ok:
  "walk_with spec limit m fetch row_size row_key check w = (Ok r, w') \<Longrightarrow>
     result_ok row_size row_key walk_bytes (cap_of m) (user_cap_of m) r"
  unfolding walk_with_def by (rule walk_loop_ok [OF nothing_collected_ok])

section \<open>Requests\<close>

text \<open>The requests of a walk, as a log beside the network.\<close>

definition logged :: "('w, 'e, 'a) fetch \<Rightarrow> ('w \<times> (nat \<times> nat) list, 'e, 'a) fetch" where
  "logged fetch skip asked ws =
     (case fetch skip asked (fst ws) of (r, w') \<Rightarrow> (r, (w', snd ws @ [(skip, asked)])))"

definition logged_check :: "('w, 'e, 'a) page_check \<Rightarrow> ('w \<times> (nat \<times> nat) list, 'e, 'a) page_check" where
  "logged_check check skip asked page ws =
     (case check skip asked page (fst ws) of (r, w') \<Rightarrow> (r, (w', snd ws)))"

definition requests_ok :: "nat \<Rightarrow> nat \<Rightarrow> nat \<Rightarrow> (nat \<times> nat) list \<Rightarrow> bool" where
  "requests_ok limit start most reqs \<longleftrightarrow>
     length reqs \<le> most \<and> sorted_wrt (<) (map fst reqs) \<and> list_all (\<lambda>(s, a). start \<le> s \<and> a \<le> limit) reqs"

lemma take_page_next:
  "take_page row_size row_key cap user_cap skip asked capped page c = Inr (next, c') \<Longrightarrow> skip < next"
  by (auto simp: take_page_def Let_def checked_add_Some split: option.splits sum.splits if_splits)

lemma requests_ok_Cons:
  "\<lbrakk>requests_ok limit next n reqs; skip < next; a \<le> limit\<rbrakk> \<Longrightarrow> requests_ok limit skip (Suc n) ((skip, a) # reqs)"
  by (fastforce simp: requests_ok_def list_all_iff)

lemma asked_size_le: "asked_size spec limit cap c \<le> limit"
  by (simp add: asked_size_def)

lemma logged_eq: "fetch skip a w = (r, w1) \<Longrightarrow> logged fetch skip a (w, sent) = (r, (w1, sent @ [(skip, a)]))"
  by (simp add: logged_def)

lemma logged_check_eq:
  "check skip a page w = (r, w1) \<Longrightarrow> logged_check check skip a page (w, sent) = (r, (w1, sent))"
  by (simp add: logged_check_def)

lemma walk_loop_requests:
  fixes fetch :: "('w, 'e, 'a) fetch"
  shows "\<exists>reqs. snd (snd (walk_loop spec limit cap user_cap (logged fetch) row_size row_key
       (logged_check check) n skip capped c (w, sent))) = sent @ reqs
     \<and> requests_ok limit skip n reqs"
proof (induction n arbitrary: skip capped c w sent)
  case 0
  then show ?case by (auto simp: requests_ok_def)
next
  case (Suc n)
  let ?a = "asked_size spec limit cap c"
  have one: "requests_ok limit skip (Suc n) [(skip, ?a)]"
    by (simp add: requests_ok_def asked_size_le)
  obtain res w1 where f: "fetch skip ?a w = (res, w1)" by fastforce
  note f' = logged_eq [where fetch = fetch and skip = skip and a = "?a" and w = w, OF f]
  show ?case
  proof (cases res)
    case (Inl e)
    with f' one show ?thesis by simp
  next
    case page: (Inr page)
    obtain cres w2 where ch: "check skip ?a page w1 = (cres, w2)" by fastforce
    note ch' = logged_check_eq [where check = check and skip = skip and a = "?a" and page = page and w = w1, OF ch]
    let ?T = "take_page row_size row_key cap user_cap skip ?a (capped \<or> page_capped page) page c
      :: ('e walk_error, 'a walked) result + (nat \<times> 'a collected)"
    show ?thesis
    proof (cases cres)
      case (Inl e)
      with f' page ch' one show ?thesis by simp
    next
      case u: (Inr u)
      show ?thesis
      proof (cases ?T)
        case (Inl r)
        with f' page ch' u one show ?thesis by (simp add: Let_def)
      next
        case (Inr nc)
        obtain nx c' where nc: "nc = (nx, c')" by fastforce
        have "skip < nx" using Inr nc by (simp add: take_page_next)
        moreover obtain reqs where "snd (snd (walk_loop spec limit cap user_cap (logged fetch) row_size
            row_key (logged_check check) n nx (capped \<or> page_capped page) c' (w2, sent @ [(skip, ?a)])))
            = (sent @ [(skip, ?a)]) @ reqs" "requests_ok limit nx n reqs"
          using Suc.IH by blast
        ultimately show ?thesis
          using f' page ch' u Inr nc requests_ok_Cons [of limit nx n reqs skip ?a]
          by (simp add: Let_def asked_size_le)
      qed
    qed
  qed
qed

lemma walk_requests:
  "requests_ok limit (spec_start spec) (spec_max_pages spec)
     (snd (snd (walk_with spec limit m (logged fetch) row_size row_key (logged_check check) (w, []))))"
  using walk_loop_requests [of spec limit "cap_of m" "user_cap_of m" fetch row_size row_key check
      "spec_max_pages spec" "spec_start spec" False nothing_collected w "[]"]
  by (auto simp: walk_with_def)

section \<open>A stable service\<close>

text \<open>
  A service that answers from one list: a page is the rows at \<open>skip\<close>, never more than asked. With
  \<open>counted\<close> it sends the true total and may cap its pages (but not to nothing); without, its pages
  are full and carry no count.
\<close>

definition stable_service :: "bool \<Rightarrow> 'a list \<Rightarrow> ('w, 'e, 'a) fetch \<Rightarrow> bool" where
  "stable_service counted all fetch \<longleftrightarrow>
     (\<forall>skip asked w. \<exists>page w'. fetch skip asked w = (Ok page, w')
        \<and> page_rows page = take (length (page_rows page)) (drop skip all)
        \<and> length (page_rows page) \<le> asked
        \<and> (if counted
           then (skip < length all \<and> 0 < asked \<longrightarrow> page_rows page \<noteq> [])
                \<and> \<not> page_capped page \<and> page_total page = Some (length all)
           else page_rows page = take asked (drop skip all)
                \<and> (page_total page = None \<or> page_capped page)))"

lemma take_rows_fresh:
  assumes "collection_ok row_size row_key max_bytes cap c" and "max_bytes < u64_max"
    and "distinct (keys_of row_key (c_rows c @ rows))" and "bytes_of row_size (c_rows c @ rows) \<le> max_bytes"
  shows "take_rows row_size row_key max_bytes cap user_cap rows c =
    (if length (c_rows c @ rows) \<le> cap
     then Inr \<lparr>c_rows = c_rows c @ rows, c_bytes = bytes_of row_size (c_rows c @ rows),
               c_seen = set (keys_of row_key (c_rows c @ rows))\<rparr>
     else Inl (stop_at_cap (take cap (c_rows c @ rows)) user_cap))"
  using assms(1,3,4)
proof (induction rows arbitrary: c)
  case Nil
  then show ?case by (cases c) (simp add: collection_ok_def)
next
  case (Cons row rows)
  have new: "\<not> seen_before (row_key row) (c_seen c)"
    using Cons.prems(1,2) by (auto simp: collection_ok_def seen_before_def split: option.splits)
  have small: "\<not> max_bytes < sat_add (c_bytes c) (row_size row)"
    using Cons.prems(1,3) by (simp add: collection_ok_def sat_add_def)
  show ?case
  proof (cases "length (c_rows c) = cap")
    case True
    with new show ?thesis by simp
  next
    case False
    let ?c = "\<lparr>c_rows = c_rows c @ [row], c_bytes = sat_add (c_bytes c) (row_size row),
       c_seen = see (row_key row) (c_seen c)\<rparr>"
    have ok: "collection_ok row_size row_key max_bytes cap ?c"
      by (rule collection_ok_push [OF Cons.prems(1) new False small assms(2)])
    have fresh: "distinct (keys_of row_key (c_rows ?c @ rows))"
        "bytes_of row_size (c_rows ?c @ rows) \<le> max_bytes"
      using Cons.prems(2,3) by (auto split: option.splits)
    show ?thesis
      using Cons.IH [OF ok fresh] False new small by (simp add: Let_def)
  qed
qed

text \<open>What a walk over \<open>rest\<close> may end with.\<close>

definition walked_right :: "bool \<Rightarrow> nat \<Rightarrow> 'a list \<Rightarrow> 'a walked \<Rightarrow> bool" where
  "walked_right counted cap rest r \<longleftrightarrow>
     walked_rows r = take cap rest \<and> \<not> stopped_at_pages r
     \<and> (stopped_at_max r \<longrightarrow> cap \<le> length rest) \<and> (counted \<longrightarrow> stopped_at_max r = (cap < length rest))"

lemma keys_of_take: "distinct (keys_of k xs) \<Longrightarrow> distinct (keys_of k (take n xs))"
proof -
  assume "distinct (keys_of k xs)"
  then have "distinct (keys_of k (take n xs @ drop n xs))" by simp
  then show ?thesis unfolding keys_of_append by simp
qed

lemma bytes_of_take: "bytes_of f (take n xs) \<le> bytes_of f xs"
proof -
  have "bytes_of f xs = bytes_of f (take n xs @ drop n xs)" by simp
  then show ?thesis unfolding bytes_of_simps by simp
qed

lemma take_take_append: "take k xs @ take p (drop k xs) = take (k + p) xs"
  by (simp add: take_add)

lemma stable_page_of_rest:
  assumes "0 < p" and "p \<le> length rest - k" and "k < cap"
    and "distinct (keys_of row_key rest)" and "bytes_of row_size rest \<le> walk_bytes"
    and "c_rows c = take k rest" and "collection_ok row_size row_key walk_bytes cap c"
    and "page_rows page = take p (drop k rest)" and "length (page_rows page) = p"
    and "start + length rest \<le> u64_max" and "user_cap \<or> length rest < cap"
    and "if counted then counted_total capped page = Some (start + length rest)
         else counted_total capped page = None \<and> (p < asked \<longrightarrow> k + p = length rest)"
    and "take_page row_size row_key cap user_cap (start + k) asked capped page c = T"
  shows "case T of
      Inl res \<Rightarrow> (\<exists>r. res = Ok r \<and> walked_right counted cap rest r)
    | Inr (next, c') \<Rightarrow> next = start + (k + p) \<and> c_rows c' = take (k + p) rest \<and> k + p < cap
        \<and> k + p \<le> length rest \<and> collection_ok row_size row_key walk_bytes cap c'"
proof -
  have kp: "k + p \<le> length rest" using assms(1,2) by linarith
  note T = assms(13) [symmetric]
  let ?new = "take (k + p) rest"
  have rows: "c_rows c @ page_rows page = ?new"
    using assms(6,8) by (simp add: take_take_append)
  have len: "length ?new = k + p" using assms(1,2) by simp
  have "distinct (keys_of row_key (c_rows c @ page_rows page))"
      "bytes_of row_size (c_rows c @ page_rows page) \<le> walk_bytes"
    unfolding rows by (rule keys_of_take [OF assms(4)], rule order_trans [OF bytes_of_take assms(5)])
  note fresh = take_rows_fresh [OF assms(7) walk_bytes_small this, unfolded rows len]
  have ok: "collection_ok row_size row_key walk_bytes cap
      \<lparr>c_rows = ?new, c_bytes = bytes_of row_size ?new, c_seen = set (keys_of row_key ?new)\<rparr>"
    if "k + p \<le> cap"
    using that len keys_of_take [OF assms(4)] order_trans [OF bytes_of_take assms(5)]
    by (simp add: collection_ok_def)
  have nxt: "checked_add (start + k) p = Some (start + (k + p))"
    using assms(1,2,10) by (simp add: checked_add_def)
  show ?thesis
  proof (cases "k + p \<le> cap")
    case False
    then have "cap < length rest" using assms(1,2) by linarith
    with False assms(1,11) show ?thesis
      by (auto simp: T take_page_def Let_def nxt fresh stop_at_cap_def walked_right_def assms(9))
  next
    case True
    show ?thesis
    proof (cases "more_pages (counted_total capped page) (start + (k + p)) p asked")
      case True
      then have "counted \<longrightarrow> k + p < length rest"
        using assms(12) by (auto simp: more_pages_def split: if_splits)
      with True \<open>k + p \<le> cap\<close> len ok kp assms(1,9,11) show ?thesis
        by (auto simp: T take_page_def Let_def nxt fresh stop_at_cap_def walked_right_def)
    next
      case False
      then have "k + p = length rest"
        using assms(1,2,12) by (auto simp: more_pages_def split: if_splits)
      with False \<open>k + p \<le> cap\<close> ok assms(1,9) show ?thesis
        by (auto simp: T take_page_def Let_def nxt fresh all_walked_def walked_right_def)
    qed
  qed
qed

lemma cap_pos: "0 < cap_of m"
  by (simp add: cap_of_def user_cap_of_def walk_items_def)

lemma walk_loop_stable:
  fixes fetch :: "('w, 'e, 'a) fetch"
  assumes stable: "stable_service counted (pre @ rest) fetch"
    and limit: "0 < limit" and start: "start = length pre" and size: "start + length rest \<le> u64_max"
    and fresh: "distinct (keys_of row_key rest)" and small: "bytes_of row_size rest \<le> walk_bytes"
    and cap: "user_cap \<or> length rest < cap"
    and k: "k < cap" "k \<le> length rest" "length rest - k < n"
    and c: "c_rows c = take k rest" "collection_ok row_size row_key walk_bytes cap c"
    and capped: "counted \<longrightarrow> \<not> capped"
  shows "\<exists>r w'. walk_loop spec limit cap user_cap fetch row_size row_key no_check n (start + k) capped c w
      = (Ok r, w') \<and> walked_right counted cap rest r"
  using k c capped
proof (induction n arbitrary: k c capped w)
  case (Suc n)
  let ?a = "asked_size spec limit cap c"
  obtain page w' where f: "fetch (start + k) ?a w = (Ok page, w')"
    and rows: "page_rows page = take (length (page_rows page)) (drop (start + k) (pre @ rest))"
    and le: "length (page_rows page) \<le> ?a"
    and mode: "if counted
       then (start + k < length (pre @ rest) \<and> 0 < ?a \<longrightarrow> page_rows page \<noteq> [])
            \<and> \<not> page_capped page \<and> page_total page = Some (length (pre @ rest))
       else page_rows page = take ?a (drop (start + k) (pre @ rest))
            \<and> (page_total page = None \<or> page_capped page)"
    using stable unfolding stable_service_def by blast
  define p where "p = length (page_rows page)"
  have drops: "drop (start + k) (pre @ rest) = drop k rest" by (simp add: start)
  have asked: "0 < ?a" using limit Suc.prems(1,2,4) by (simp add: asked_size_def)
  have rows: "page_rows page = take p (drop k rest)" using rows unfolding drops p_def .
  have p_le: "p \<le> length rest - k"
  proof -
    have "length (page_rows page) = min p (length rest - k)" by (subst rows) simp
    then show ?thesis by (simp add: p_def)
  qed
  let ?capped = "capped \<or> page_capped page"
  have tot: "if counted then counted_total ?capped page = Some (start + length rest)
      else counted_total ?capped page = None \<and> (p < ?a \<longrightarrow> k + p = length rest)"
  proof (cases counted)
    case True
    with mode Suc.prems(6) show ?thesis by (simp add: counted_total_def start)
  next
    case False
    with mode have eq: "page_rows page = take ?a (drop k rest)" and none: "page_total page = None \<or> page_capped page"
      unfolding drops by simp_all
    from eq have "p = min (length rest - k) ?a" by (simp add: p_def)
    with False none Suc.prems(2) show ?thesis by (auto simp: counted_total_def)
  qed
  show ?case
  proof (cases "p = 0")
    case True
    then have "page_rows page = []" by (simp add: p_def)
    moreover from True tot asked mode p_le have "k = length rest"
      using Suc.prems(2) by (auto simp: p_def start split: if_splits)
    ultimately show ?thesis
      using f tot Suc.prems(1,4)
      by (auto simp: no_check_def take_page_def Let_def all_walked_def walked_right_def split: if_splits)
  next
    case False
    then have "0 < p" by simp
    note T = stable_page_of_rest [OF this p_le Suc.prems(1) fresh small Suc.prems(4,5) rows p_def [symmetric]
        size cap tot]
    show ?thesis
    proof (cases "take_page row_size row_key cap user_cap (start + k) ?a ?capped page c
        :: ('e walk_error, 'a walked) result + (nat \<times> 'a collected)")
      case (Inl res)
      with T [OF Inl] f show ?thesis by (auto simp: no_check_def Let_def)
    next
      case (Inr nc)
      obtain nx c' where nc: "nc = (nx, c')" by fastforce
      with T [OF Inr] have step: "nx = start + (k + p)" "c_rows c' = take (k + p) rest" "k + p < cap"
          "k + p \<le> length rest" "collection_ok row_size row_key walk_bytes cap c'" by simp_all
      have lt: "length rest - (k + p) < n" using Suc.prems(3) \<open>0 < p\<close> p_le by linarith
      have cp: "counted \<longrightarrow> \<not> ?capped" using mode Suc.prems(6) by (simp split: if_splits)
      have IH: "\<exists>r w''. walk_loop spec limit cap user_cap fetch row_size row_key no_check n
          (start + (k + p)) ?capped c' w' = (Ok r, w'') \<and> walked_right counted cap rest r"
        by (rule Suc.IH [OF step(3,4) lt step(2,5) cp])
      have unf: "walk_loop spec limit cap user_cap fetch row_size row_key no_check (Suc n) (start + k) capped c w
          = walk_loop spec limit cap user_cap fetch row_size row_key no_check n nx ?capped c' w'"
        by (simp add: f Inr nc no_check_def Let_def)
      show ?thesis unfolding unf step(1) by (rule IH)
    qed
  qed
qed simp

lemma walk_with_stable:
  assumes "stable_service counted all fetch" and "0 < limit" and "spec_start spec \<le> length all"
    and "length all \<le> u64_max" and "distinct (keys_of row_key (drop (spec_start spec) all))"
    and "bytes_of row_size (drop (spec_start spec) all) \<le> walk_bytes"
    and "user_cap_of m \<or> length all < walk_items" and "length all < spec_max_pages spec"
  shows "\<exists>r w'. walk_with spec limit m fetch row_size row_key no_check w = (Ok r, w')
    \<and> walked_right counted (cap_of m) (drop (spec_start spec) all) r"
proof -
  have "\<exists>r w'. walk_loop spec limit (cap_of m) (user_cap_of m) fetch row_size row_key no_check
      (spec_max_pages spec) (spec_start spec + 0) False nothing_collected w = (Ok r, w')
    \<and> walked_right counted (cap_of m) (drop (spec_start spec) all) r"
  proof (rule walk_loop_stable [where pre = "take (spec_start spec) all"])
    show "user_cap_of m \<or> length (drop (spec_start spec) all) < cap_of m"
      using assms(7) by (auto simp: cap_of_def)
    show "c_rows nothing_collected = take 0 (drop (spec_start spec) all)"
      by (simp add: nothing_collected_def)
  qed (use assms in \<open>simp_all add: cap_pos\<close>)
  then show ?thesis by (simp add: walk_with_def)
qed

section \<open>Properties\<close>

text \<open>Whatever the service answers, a walk that ends well holds no row key twice, at most the rows
  of its item cap and at most 512 MiB of rows; it calls itself stopped at the cap only when the user
  chose that cap and it is full.\<close>

theorem walk_result_is_bounded:
  "walk_with spec limit m fetch row_size row_key check w = (Ok r, w') \<Longrightarrow>
     length (walked_rows r) \<le> cap_of m \<and> distinct (keys_of row_key (walked_rows r))
     \<and> bytes_of row_size (walked_rows r) \<le> walk_bytes
     \<and> (\<not> stopped_at_max r \<or> (user_cap_of m \<and> length (walked_rows r) = cap_of m))"
  using walk_with_ok [of spec limit m fetch row_size row_key check w r w']
  by (auto simp: result_ok_def)

definition five_rows :: "('w, unit, nat) fetch" where
  "five_rows skip asked w = (Ok (page_new (take asked (drop skip [1, 2, 3, 4, 5])) (Some 5)), w)"

lemma five_rows_walk:
  "walk_with (default_spec\<lparr>spec_max_pages := Suc (Suc 0)\<rparr>) 2 3 five_rows (\<lambda>_. 8) (\<lambda>n. Some (dec n)) no_check ()
     = (Ok \<lparr>walked_rows = [1, 2, 3], stopped_at_max = True, stopped_at_pages = False\<rparr>, ())"
  by (simp add: walk_with_def default_spec_def five_rows_def no_check_def page_new_def
      asked_size_def counted_total_def more_pages_def take_page_def checked_add_def u64_max_def
      nothing_collected_def seen_before_def see_def cap_of_def user_cap_of_def walk_items_def
      sat_add_def walk_bytes_def stop_at_cap_def Let_def)

lemma walk_result_is_bounded_witness:
  "length [1, 2, 3 :: nat] \<le> cap_of 3 \<and> distinct (keys_of (\<lambda>n. Some (dec n)) [1, 2, 3 :: nat])
   \<and> bytes_of (\<lambda>_. 8) [1, 2, 3 :: nat] \<le> walk_bytes"
  using walk_result_is_bounded [OF five_rows_walk] by simp

text \<open>A walk sends at most the requests of its page bound, each for no more rows than the limit,
  at strictly growing offsets from its start, whatever the service answers.\<close>

theorem walk_requests_are_bounded:
  "length (snd (snd (walk_with spec limit m (logged fetch) row_size row_key (logged_check check) (w, []))))
       \<le> spec_max_pages spec
   \<and> sorted_wrt (<) (map fst (snd (snd (walk_with spec limit m (logged fetch) row_size row_key
       (logged_check check) (w, [])))))
   \<and> list_all (\<lambda>(s, a). spec_start spec \<le> s \<and> a \<le> limit) (snd (snd (walk_with spec limit m
       (logged fetch) row_size row_key (logged_check check) (w, []))))"
  using walk_requests [of limit spec m fetch row_size row_key check w] by (simp add: requests_ok_def)

text \<open>C36: From a stable service a walk returns exactly the service's rows from the start offset, or the
  first \<open>--max\<close> of them, in order; with a true total it says it stopped at \<open>--max\<close> exactly when more
  rows exist.\<close>

theorem walk_returns_the_rows:
  assumes "stable_service counted all fetch" and "0 < limit" and "spec_start spec \<le> length all"
    and "length all \<le> u64_max" and "distinct (keys_of row_key (drop (spec_start spec) all))"
    and "bytes_of row_size (drop (spec_start spec) all) \<le> walk_bytes"
    and "user_cap_of m \<or> length all < walk_items" and "length all < spec_max_pages spec"
  shows "\<exists>r w'. walk_with spec limit m fetch row_size row_key no_check w = (Ok r, w')
    \<and> walked_rows r = take (cap_of m) (drop (spec_start spec) all) \<and> \<not> stopped_at_pages r
    \<and> (counted \<longrightarrow> stopped_at_max r = (cap_of m < length all - spec_start spec))
    \<and> (stopped_at_max r \<longrightarrow> cap_of m \<le> length all - spec_start spec)"
  using walk_with_stable [OF assms, of w] by (auto simp: walked_right_def)

lemma five_rows_stable: "stable_service True [1, 2, 3, 4, 5] five_rows"
  by (auto simp: stable_service_def five_rows_def page_new_def min_def)

lemma walk_returns_the_rows_witness:
  "\<exists>r w'. walk_with (default_spec\<lparr>spec_start := 1\<rparr>) 2 3 five_rows (\<lambda>_. 8) (\<lambda>n. Some (dec n)) no_check ()
      = (Ok r, w') \<and> walked_rows r = [2, 3, 4] \<and> stopped_at_max r"
  using walk_returns_the_rows [OF five_rows_stable, of 2 "default_spec\<lparr>spec_start := 1\<rparr>"
      "\<lambda>n. Some (dec n)" "\<lambda>_. 8" 3 "()"]
  by (auto simp: default_spec_def u64_max_def walk_bytes_def user_cap_of_def walk_items_def walk_pages_def
      cap_of_def)

text \<open>
  Without a total a full page looks like more: a list that ends exactly at \<open>--max\<close> is called stopped
  there although nothing was left out.
\<close>

lemma full_uncounted_page_claims_more:
  "walk_with (default_spec\<lparr>spec_max_pages := Suc 0\<rparr>) 2 2 (\<lambda>skip asked w. (Ok (page_new (take asked (drop skip [7, 8])) None), w))
     (\<lambda>_. 8) (\<lambda>n. Some (dec n)) no_check ()
     = (Ok \<lparr>walked_rows = [7, 8 :: nat], stopped_at_max = True, stopped_at_pages = False\<rparr>, ())"
  by (simp add: walk_with_def default_spec_def no_check_def page_new_def
      asked_size_def counted_total_def more_pages_def take_page_def checked_add_def u64_max_def
      nothing_collected_def seen_before_def see_def cap_of_def user_cap_of_def walk_items_def
      sat_add_def walk_bytes_def stop_at_cap_def Let_def)

end
