(* ===== verification/ListingsCorrect.thy ===== *)
theory ListingsCorrect
  imports WalkCorrect
begin

text \<open>
  The listings over a page walk: a sessions walk or a scans listing that calls itself complete has
  exactly as many rows as the service counted, none twice; the DLP walk keeps the bounds of the
  shared loop; the inventory of a transfer is the whole collection or an error.
\<close>

section \<open>How a page ends a walk\<close>

lemma take_rows_shape:
  "take_rows row_size row_key max_bytes cap user_cap rows c = T \<Longrightarrow>
     (case T of
        Inr c' \<Rightarrow> c_rows c' = c_rows c @ rows
      | Inl res \<Rightarrow> (\<forall>r. res = Ok r \<longrightarrow> stopped_at_max r \<and> (\<exists>j. walked_rows r = take j (c_rows c @ rows))))"
proof (induction rows arbitrary: c)
  case (Cons row rows)
  show ?case
  proof (cases "seen_before (row_key row) (c_seen c) \<or> length (c_rows c) = cap
      \<or> max_bytes < sat_add (c_bytes c) (row_size row)")
    case True
    moreover have "\<exists>j. c_rows c = take j (c_rows c @ row # rows)"
      by (rule exI [of _ "length (c_rows c)"]) simp
    ultimately show ?thesis
      using Cons.prems by (auto simp del: take_append simp: Let_def stop_at_cap_def split: if_splits)
  next
    case False
    with Cons.prems have "take_rows row_size row_key max_bytes cap user_cap rows
      \<lparr>c_rows = c_rows c @ [row], c_bytes = sat_add (c_bytes c) (row_size row),
       c_seen = see (row_key row) (c_seen c)\<rparr> = T" by (simp add: Let_def)
    from Cons.IH [OF this] show ?thesis by (cases T) auto
  qed
qed auto

text \<open>Three ways: an empty page, a last page, a cap; otherwise the page's rows are all taken.\<close>

lemma take_page_cases:
  fixes T :: "('e walk_error, 'a walked) result + (nat \<times> 'a collected)"
  assumes "take_page row_size row_key cap user_cap skip asked capped page c = T"
  shows "case T of
      Inl res \<Rightarrow> (\<forall>r. res = Ok r \<longrightarrow>
          (page_rows page = [] \<and> r = all_walked (c_rows c)
             \<and> (\<forall>t. counted_total capped page = Some t \<longrightarrow> t \<le> skip))
        \<or> (r = all_walked (c_rows c @ page_rows page) \<and> page_rows page \<noteq> []
             \<and> \<not> more_pages (counted_total capped page) (skip + length (page_rows page))
                  (length (page_rows page)) asked)
        \<or> (stopped_at_max r \<and> (\<exists>j. walked_rows r = take j (c_rows c @ page_rows page))))
    | Inr (next, c') \<Rightarrow> next = skip + length (page_rows page) \<and> c_rows c' = c_rows c @ page_rows page"
proof (cases "take_rows row_size row_key walk_bytes cap user_cap (page_rows page) c
    :: ('e walk_error, 'a walked) result + 'a collected")
  case (Inl res)
  with take_rows_shape [OF Inl] assms show ?thesis
    by (auto simp: take_page_def Let_def split: option.splits if_splits)
next
  case (Inr c')
  have "\<exists>j. c_rows c @ page_rows page = take j (c_rows c @ page_rows page)"
    by (rule exI [of _ "length (c_rows c @ page_rows page)"]) simp
  with Inr take_rows_shape [OF Inr] assms show ?thesis
    by (auto simp del: take_append simp: take_page_def Let_def checked_add_Some stop_at_cap_def
        split: option.splits if_splits)
qed

lemma distinct_map_take: "distinct (map f xs) \<Longrightarrow> distinct (map f (take j xs))"
  by (simp add: take_map [symmetric])

section \<open>Sessions\<close>

lemma see_all_Some:
  "see_all ks seen = Some seen' \<longleftrightarrow> distinct ks \<and> set ks \<inter> seen = {} \<and> seen' = seen \<union> set ks"
  by (induction ks arbitrary: seen) auto

definition session_rows_ok :: "(json \<Rightarrow> str) \<Rightarrow> nat \<Rightarrow> nat \<Rightarrow> bool \<Rightarrow> json collected \<Rightarrow> 'w \<times> session_seen \<Rightarrow> bool" where
  "session_rows_ok jtext offset skip capped c ws \<longleftrightarrow>
     \<not> capped \<and> skip = offset + length (c_rows c) \<and> distinct (map (session_key jtext) (c_rows c))
     \<and> session_keys (snd ws) = set (map (session_key jtext) (c_rows c))"

definition session_result_ok :: "(json \<Rightarrow> str) \<Rightarrow> nat \<Rightarrow> json walked \<Rightarrow> 'w \<times> session_seen \<Rightarrow> bool" where
  "session_result_ok jtext offset r ws \<longleftrightarrow>
     distinct (map (session_key jtext) (walked_rows r))
     \<and> (sessions_partial r \<or> expected_total (snd ws) = Some (offset + length (walked_rows r)))"

lemma session_fetch_page:
  "session_fetch overview limit offset asked ws = (Ok page, ws1) \<Longrightarrow>
     \<not> page_capped page \<and> snd ws1 = snd ws
     \<and> (\<forall>t. page_total page = Some t \<longrightarrow> t \<le> max_safe_integer)"
  by (auto simp: session_fetch_def page_new_def total_of_def nat_le_iff le_nat_iff floor_le_iff
      split: prod.splits sum.splits if_splits option.splits)

lemma session_check_Ok:
  assumes "session_page_check jtext limit skip asked page ws1 = (Ok (), ws2)"
    and "\<forall>t. page_total page = Some t \<longrightarrow> t \<le> max_safe_integer"
  shows "\<exists>t. page_total page = Some t \<and> expected_total (snd ws2) = Some t
     \<and> distinct (map (session_key jtext) (page_rows page))
     \<and> set (map (session_key jtext) (page_rows page)) \<inter> session_keys (snd ws1) = {}
     \<and> session_keys (snd ws2) = session_keys (snd ws1) \<union> set (map (session_key jtext) (page_rows page))
     \<and> skip + length (page_rows page) \<le> t"
proof -
  have "max_safe_integer < u64_max" by (simp add: max_safe_integer_def u64_max_def)
  with assms show ?thesis
    by (auto simp: session_page_check_def session_check_def Let_def see_all_Some sat_add_def min_def
        split: sum.splits option.splits if_splits)
qed

lemma sessions_walk_ok:
  assumes "sessions_walk jtext overview limit offset m w = (Ok r, ws)"
  shows "session_result_ok jtext offset r ws"
  using assms unfolding sessions_walk_def walk_with_def
proof (rule walk_loop_rule [where I = "session_rows_ok jtext offset"
      and Q = "\<lambda>r. session_result_ok jtext offset r", rotated 3], goal_cases)
  case 1
  then show ?case by (simp add: session_rows_ok_def nothing_collected_def)
next
  case (2 skip capped c ws0 page ws1 ws2 T)
  note page = session_fetch_page [OF 2(2)]
  obtain t where t: "page_total page = Some t" "expected_total (snd ws2) = Some t"
      "distinct (map (session_key jtext) (page_rows page))"
      "set (map (session_key jtext) (page_rows page)) \<inter> session_keys (snd ws1) = {}"
      "session_keys (snd ws2) = session_keys (snd ws1) \<union> set (map (session_key jtext) (page_rows page))"
      "skip + length (page_rows page) \<le> t"
    using session_check_Ok [OF 2(3)] page by blast
  have I: "\<not> capped" "skip = offset + length (c_rows c)" "distinct (map (session_key jtext) (c_rows c))"
      "session_keys (snd ws1) = set (map (session_key jtext) (c_rows c))"
    using 2(1) page by (simp_all add: session_rows_ok_def)
  have all: "distinct (map (session_key jtext) (c_rows c @ page_rows page))"
    using I(3,4) t(3,4) by (auto simp: distinct_map)
  have tot: "counted_total (capped \<or> page_capped page) page = Some t"
    using I(1) page t(1) by (simp add: counted_total_def)
  show ?case
  proof (cases T)
    case (Inl res)
    show ?thesis
      using take_page_cases [OF 2(4)] I all t(2,6) tot
      by (auto simp: Inl session_result_ok_def sessions_partial_def all_walked_def more_pages_def
          distinct_map_take [OF all] simp del: map_append take_append)
  next
    case (Inr nc)
    show ?thesis
      using take_page_cases [OF 2(4)] I all t(5) page
      by (auto simp: Inr session_rows_ok_def simp del: distinct_append)
  qed
next
  case (3 skip capped c ws)
  then show ?case by (simp add: session_rows_ok_def session_result_ok_def sessions_partial_def)
qed

section \<open>The supply-chain listing\<close>

lemma see_uuids_Some:
  "see_uuids rows seen = Some seen' \<longleftrightarrow>
     [] \<notin> set (map uuid_of rows) \<and> distinct (map uuid_of rows) \<and> set (map uuid_of rows) \<inter> seen = {}
     \<and> seen' = seen \<union> set (map uuid_of rows)"
  by (induction rows arbitrary: seen) auto

lemma check_total_Ok:
  "check_total kind first tot = Ok first' \<longleftrightarrow>
     (kind = Rules \<and> first' = first)
     \<or> (kind = Scans \<and> tot \<noteq> None \<and> first' = tot \<and> (first = None \<or> first = tot))"
  by (auto simp: check_total_def split: list_kind.splits option.splits if_splits)

text \<open>A count of the service is a safe integer, so no sum of the checks saturates below it.\<close>

definition counts_safe :: "nat option \<Rightarrow> bool" where
  "counts_safe tot \<longleftrightarrow> (\<forall>t. tot = Some t \<longrightarrow> t \<le> max_safe_integer)"

lemma sat_add_le_safe: "\<lbrakk>sat_add a b \<le> t; t \<le> max_safe_integer\<rbrakk> \<Longrightarrow> a + b \<le> t"
  by (simp add: sat_add_def min_def max_safe_integer_def u64_max_def split: if_splits)

lemma sat_add_pos: "0 < sat_add a b \<longleftrightarrow> 0 < a + b"
  by (auto simp: sat_add_def u64_max_def)

lemma checks_check_Ok:
  assumes "checks_check ck rows tot skip asked = (Ok ck' :: ('a walk_error, checks) result)" and "counts_safe tot"
  shows "ck_kind ck' = ck_kind ck \<and> ck_offset ck' = ck_offset ck
     \<and> length rows \<le> asked
     \<and> [] \<notin> set (map uuid_of rows) \<and> distinct (map uuid_of rows) \<and> set (map uuid_of rows) \<inter> ck_seen ck = {}
     \<and> ck_seen ck' = ck_seen ck \<union> set (map uuid_of rows)
     \<and> (ck_kind ck = Scans \<longrightarrow> (\<exists>t. tot = Some t \<and> ck_first_total ck' = Some t
          \<and> (skip - ck_offset ck + length rows = 0 \<or> skip + length rows \<le> t)))"
proof -
  obtain first where p: "\<not> asked < length rows"
      "check_total (ck_kind ck) (ck_first_total ck) tot = (Ok first :: ('a walk_error, nat option) result)"
    and rest: "(case see_uuids rows (ck_seen ck) of
          None \<Rightarrow> Err pagination_error
        | Some seen \<Rightarrow>
            let ck' = ck\<lparr>ck_first_total := first, ck_seen := seen\<rparr> in
            (case (ck_kind ck, first) of
               (Scans, Some t) \<Rightarrow>
                 let gathered = sat_add (skip - ck_offset ck) (length rows) in
                 if 0 < gathered \<and> t < sat_add skip (length rows) then Err pagination_error else Ok ck'
             | _ \<Rightarrow> Ok ck')) = (Ok ck' :: ('a walk_error, checks) result)"
    using assms(1) by (auto simp: checks_check_def bind_r_Ok_iff Let_def split: if_splits)
  obtain seen where seen: "see_uuids rows (ck_seen ck) = Some seen"
    using rest by (cases "see_uuids rows (ck_seen ck)") simp_all
  have q: "ck' = ck\<lparr>ck_first_total := first, ck_seen := seen\<rparr>"
    and late: "\<forall>t. ck_kind ck = Scans \<and> first = Some t \<longrightarrow>
      \<not> (0 < sat_add (skip - ck_offset ck) (length rows) \<and> t < sat_add skip (length rows))"
    using rest by (auto simp: seen Let_def split: list_kind.splits option.splits if_splits)
  show ?thesis
    using p seen q late assms(2) sat_add_le_safe [of skip "length rows"]
    by (auto simp: check_total_Ok see_uuids_Some counts_safe_def sat_add_pos not_less)
qed

definition list_rows_ok :: "list_kind \<Rightarrow> nat \<Rightarrow> nat \<Rightarrow> bool \<Rightarrow> json collected \<Rightarrow> 'w list_state \<Rightarrow> bool" where
  "list_rows_ok kind offset skip capped c s \<longleftrightarrow>
     \<not> capped \<and> skip = offset + length (c_rows c) \<and> distinct (map uuid_of (c_rows c))
     \<and> [] \<notin> set (map uuid_of (c_rows c)) \<and> ck_seen (ls_checks s) = set (map uuid_of (c_rows c))
     \<and> ck_kind (ls_checks s) = kind \<and> ck_offset (ls_checks s) = offset"

definition list_result_ok :: "list_kind \<Rightarrow> nat \<Rightarrow> json list \<Rightarrow> nat option \<Rightarrow> bool \<Rightarrow> bool" where
  "list_result_ok kind offset rows tot truncated \<longleftrightarrow>
     distinct (map uuid_of rows) \<and> [] \<notin> set (map uuid_of rows)
     \<and> (kind = Scans \<and> \<not> truncated \<longrightarrow>
          (\<exists>t. tot = Some t \<and> t \<le> offset + length rows \<and> (rows = [] \<or> t = offset + length rows)))"

text \<open>A client whose every page carries a count within the safe integers, as the reader of the
  listing makes it.\<close>

definition safe_reader :: "(nat \<Rightarrow> nat \<Rightarrow> 'w \<Rightarrow> ('e list_failure, list_page) result \<times> 'w) \<Rightarrow> bool" where
  "safe_reader read \<longleftrightarrow>
     (\<forall>skip asked w page w'. read skip asked w = (Ok page, w') \<longrightarrow> counts_safe (lp_total page))"

lemma list_walk_ok:
  fixes read :: "nat \<Rightarrow> nat \<Rightarrow> 'w \<Rightarrow> ('e list_failure, list_page) result \<times> 'w"
  assumes "safe_reader read"
    and "walk_with (default_spec\<lparr>spec_start := offset, shrink_last_page := True\<rparr>) limit m
       (list_fetch kind read) row_size (\<lambda>_. None) list_check s0 = (Ok r, s)"
    and "ls_checks s0 = checks_new kind offset"
  shows "list_result_ok kind offset (walked_rows r) (ck_first_total (ls_checks s)) (stopped_at_max r)"
  using assms(2) unfolding walk_with_def
proof (rule walk_loop_rule [where I = "list_rows_ok kind offset"
      and Q = "\<lambda>r s. list_result_ok kind offset (walked_rows r) (ck_first_total (ls_checks s)) (stopped_at_max r)",
      rotated 3], goal_cases)
  case 1
  then show ?case by (simp add: list_rows_ok_def nothing_collected_def assms(3) checks_new_def)
next
  case (2 skip capped c s1 page s2 s3 T)
  have I: "\<not> capped" "skip = offset + length (c_rows c)" "distinct (map uuid_of (c_rows c))"
      "[] \<notin> set (map uuid_of (c_rows c))" "ck_seen (ls_checks s1) = set (map uuid_of (c_rows c))"
      "ck_kind (ls_checks s1) = kind" "ck_offset (ls_checks s1) = offset"
    using 2(1) by (simp_all add: list_rows_ok_def)
  have f: "\<not> page_capped page" "ls_checks s2 = ls_checks s1" "counts_safe (page_total page)"
  proof -
    obtain lp w' where "read skip (asked_size (default_spec\<lparr>spec_start := offset, shrink_last_page := True\<rparr>)
          limit (cap_of m) c) (ls_net s1) = (Ok lp, w')"
      and p: "page = page_new (lp_rows lp) (case kind of Scans \<Rightarrow> lp_total lp | Rules \<Rightarrow> None)"
        "s2 = s1\<lparr>ls_net := w'\<rparr>"
      using 2(2) by (auto simp: list_fetch_def split: prod.splits sum.splits list_failure.splits)
    then have "counts_safe (lp_total lp)" using assms(1) unfolding safe_reader_def by blast
    with p show "\<not> page_capped page" "ls_checks s2 = ls_checks s1" "counts_safe (page_total page)"
      by (simp_all add: page_new_def counts_safe_def split: list_kind.split)
  qed
  obtain ck where ck: "checks_check (ls_checks s1) (page_rows page) (page_total page) skip
      (asked_size (default_spec\<lparr>spec_start := offset, shrink_last_page := True\<rparr>) limit (cap_of m) c) = (Ok ck :: ('e walk_error, checks) result)"
    and s3: "ls_checks s3 = ck"
    using 2(3) by (auto simp: list_check_def f(2) split: sum.splits)
  note c = checks_check_Ok [OF ck f(3)]
  have all: "distinct (map uuid_of (c_rows c @ page_rows page))"
      "[] \<notin> set (map uuid_of (c_rows c @ page_rows page))"
    using I(3-5) c by (auto simp: distinct_map)
  have tot: "counted_total (capped \<or> page_capped page) page = page_total page"
    using I(1) f(1) by (simp add: counted_total_def)
  show ?case
  proof (cases T)
    case (Inl res)
    show ?thesis
      using take_page_cases [OF 2(4)] I(1,2,6,7) c tot all
      by (auto simp: Inl list_result_ok_def all_walked_def more_pages_def s3
          distinct_map_take [OF all(1)] simp del: map_append take_append dest!: in_set_takeD)
  next
    case (Inr nc)
    show ?thesis
      using take_page_cases [OF 2(4)] I c all f(1)
      by (auto simp: Inr list_rows_ok_def s3 simp del: distinct_append)
  qed
next
  case 3
  then show ?case by (simp add: default_spec_def)
qed

lemma list_inventory_ok:
  fixes read :: "nat \<Rightarrow> nat \<Rightarrow> 'w \<Rightarrow> ('e list_failure, list_page) result \<times> 'w"
  assumes "safe_reader read" and "list_inventory jtext kind pg read w = (Ok l, w')"
  shows "list_result_ok kind (pg_offset pg) (l_rows l) (d_total_items (l_pagination l))
      (d_truncated (l_pagination l))"
proof (cases "pg_all pg")
  case True
  then obtain r s where "walk_with (default_spec\<lparr>spec_start := pg_offset pg, shrink_last_page := True\<rparr>)
      (pg_limit pg) (pg_max pg) (list_fetch kind read) (\<lambda>row. length (jtext row)) (\<lambda>_. None)
      list_check \<lparr>ls_net = w, ls_refused = False, ls_checks = checks_new kind (pg_offset pg)\<rparr> = (Ok r, s)"
    and l: "l = \<lparr>l_rows = walked_rows r,
        l_pagination = pagination_new kind (ck_first_total (ls_checks s)) pg (length (walked_rows r))
          (\<not> stopped_at_max r)\<rparr>"
    using assms(2) by (auto simp: list_inventory_def Let_def split: prod.splits sum.splits)
  from list_walk_ok [OF assms(1) this(1)] show ?thesis
    by (auto simp: l pagination_new_def list_result_ok_def split: list_kind.splits)
next
  case False
  then obtain page where "read (pg_offset pg) (pg_limit pg) w = (Ok page, w')"
    and ck: "is_ok (checks_check (checks_new kind (pg_offset pg)) (lp_rows page) (lp_total page)
        (pg_offset pg) (pg_limit pg) :: ('e walk_error, checks) result)"
    and l: "l_rows l = lp_rows page" "d_total_items (l_pagination l) = (case kind of
          Scans \<Rightarrow> lp_total page
        | Rules \<Rightarrow> if \<not> d_truncated (l_pagination l) \<and> pg_offset pg = 0 then Some (length (lp_rows page)) else None)"
      "kind = Scans \<Longrightarrow> \<not> d_truncated (l_pagination l) \<Longrightarrow>
         \<exists>t. lp_total page = Some t \<and> t \<le> sat_add (pg_offset pg) (length (lp_rows page))"
    using assms(2)
    by (auto simp: list_inventory_def Let_def pagination_new_def
        split: prod.splits sum.splits list_kind.splits option.splits)
  then have safe: "counts_safe (lp_total page)" using assms(1) unfolding safe_reader_def by blast
  from ck obtain ck' where "checks_check (checks_new kind (pg_offset pg)) (lp_rows page) (lp_total page)
      (pg_offset pg) (pg_limit pg) = (Ok ck' :: ('e walk_error, checks) result)"
    by (auto simp: is_ok_iff)
  from checks_check_Ok [OF this safe] l show ?thesis
    by (force simp: list_result_ok_def checks_new_def sat_add_def)
qed

section \<open>The DLP walk\<close>

lemma dlp_loop_ok:
  fixes fetch :: "('w, 'e) dlp_fetch"
  assumes "collection_ok (\<lambda>row. length (jtext row)) id_of max_bytes cap c" and "max_bytes < u64_max"
    and "dlp_loop jtext max_bytes cap user_cap size_asked fetch n page c w = (Ok r, w')"
  shows "result_ok (\<lambda>row. length (jtext row)) id_of max_bytes cap user_cap r"
  using assms(1,3)
proof (induction n arbitrary: page c w)
  case (Suc n)
  obtain answer w1 where f: "fetch page size_asked w = (Ok answer, w1)"
    and step: "(case dlp_page jtext max_bytes cap user_cap size_asked page answer c of
        Inl res \<Rightarrow> (res, w1)
      | Inr c' \<Rightarrow> dlp_loop jtext max_bytes cap user_cap size_asked fetch n (Suc page) c' w1) = (Ok r, w')"
    using Suc.prems(2) by (auto split: prod.splits sum.splits)
  show ?case
  proof (cases "take_rows (\<lambda>row. length (jtext row)) id_of max_bytes cap user_cap (rows_of answer) c
      :: ('e walk_error, json walked) result + json collected")
    case (Inl res)
    with take_rows_ok [OF Suc.prems(1) assms(2) Inl] step show ?thesis
      by (auto simp: dlp_page_def Let_def split: if_splits)
  next
    case (Inr c')
    with take_rows_ok [OF Suc.prems(1) assms(2) Inr]
    have c': "collection_ok (\<lambda>row. length (jtext row)) id_of max_bytes cap c'" by simp
    show ?thesis
      using Inr step result_of_collection [OF c'] result_of_cap [OF c'] Suc.IH [OF c']
      by (auto simp: dlp_page_def Let_def split: if_splits)
  qed
qed simp

section \<open>The inventory of a transfer\<close>

text \<open>
  A stable inventory: the answer at an offset holds the next \<open>page_limit\<close> records, and names the
  offset after them while more records exist.
\<close>

definition stable_inventory :: "collection \<Rightarrow> json list \<Rightarrow> (nat \<Rightarrow> 'w \<Rightarrow> ('e, json) result \<times> 'w) \<Rightarrow> bool" where
  "stable_inventory coll all read \<longleftrightarrow>
     (\<forall>offset w. \<exists>answer w'. read offset w = (Ok answer, w')
        \<and> jget answer (collection_key coll) = Some (JArray (take page_limit (drop offset all)))
        \<and> next_offset_of answer =
            (if offset + page_limit < length all then AtOffset (offset + page_limit) else NoOffset))"

lemma take_page_append: "take k xs @ take n (drop k xs) = take (k + n) xs"
  by (simp add: take_add)

lemma inventory_loop_stable:
  assumes "stable_inventory coll all read" and "length all \<le> max_inventory"
    and "ow = \<lparr>ow_collection = coll, ow_absent = absent, ow_max_pages = mp, ow_pages = k,
           ow_offset = page_limit * k, ow_items = take (page_limit * k) all\<rparr>"
    and "k < mp" and "k = 0 \<or> page_limit * k < length all"
  shows "fst (inventory_loop read ow (page_limit * k) w) =
    (if length all \<le> page_limit * mp then Ok all
     else Err (InventoryRule (Stated inventory_incomplete)))"
  using assms(3-5)
proof (induction "mp - k" arbitrary: k ow w rule: less_induct)
  case less
  let ?o = "page_limit * k"
  obtain answer w' where f: "read ?o w = (Ok answer, w')"
    and rows: "jget answer (collection_key coll) = Some (JArray (take page_limit (drop ?o all)))"
    and next': "next_offset_of answer =
      (if ?o + page_limit < length all then AtOffset (?o + page_limit) else NoOffset)"
    using assms(1) unfolding stable_inventory_def by blast
  have pos: "0 < page_limit" by (simp add: page_limit_def)
  let ?ow = "ow\<lparr>ow_pages := k + 1, ow_items := take (?o + page_limit) all\<rparr>"
  have items: "ow_items ow @ take page_limit (drop ?o all) = take (?o + page_limit) all"
    using less.prems(1) by (simp add: take_add)
  have acc: "offset_accept ow answer =
      (if ?o + page_limit < length all then
         (if mp \<le> k + 1 then Err (Stated inventory_incomplete)
          else Ok (NextPage (?o + page_limit), ?ow\<lparr>ow_offset := ?o + page_limit\<rparr>))
       else Ok (WalkDone, ?ow))"
    using rows next' less.prems(1) pos assms(2) items
    by (simp add: offset_accept_def Let_def)
  show ?case
  proof (cases "?o + page_limit < length all")
    case False
    have "length all \<le> page_limit * mp"
    proof -
      have "?o + page_limit = page_limit * Suc k" by simp
      also have "\<dots> \<le> page_limit * mp" using less.prems(2) by (intro mult_le_mono2) simp
      finally show ?thesis using False by linarith
    qed
    with False f acc show ?thesis
      by (simp add: inventory_loop.simps [of read ow ?o])
  next
    case True
    show ?thesis
    proof (cases "mp \<le> k + 1")
      case last: True
      with less.prems(2) have "mp = Suc k" by simp
      then have "page_limit * mp = ?o + page_limit" by simp
      with True last f acc show ?thesis
        by (simp add: inventory_loop.simps [of read ow ?o])
    next
      case False
      have o': "?o + page_limit = page_limit * (k + 1)" by simp
      have "fst (inventory_loop read (?ow\<lparr>ow_offset := ?o + page_limit\<rparr>) (page_limit * (k + 1)) w') =
        (if length all \<le> page_limit * mp then Ok all
         else Err (InventoryRule (Stated inventory_incomplete)))"
      proof (rule less.hyps)
        show "?ow\<lparr>ow_offset := ?o + page_limit\<rparr> =
          \<lparr>ow_collection = coll, ow_absent = absent, ow_max_pages = mp, ow_pages = k + 1,
           ow_offset = page_limit * (k + 1), ow_items = take (page_limit * (k + 1)) all\<rparr>"
          using less.prems(1) by (simp add: add.commute)
      qed (use False True less.prems(2) in \<open>simp_all add: add.commute\<close>)
      with True False f acc show ?thesis
        by (simp add: inventory_loop.simps [of read ow ?o] o' del: mult_Suc_right)
    qed
  qed
qed

lemma inventory_stable:
  assumes "stable_inventory coll all read" and "length all \<le> max_inventory" and "0 < mp"
  shows "fst (inventory read coll mp absent w) =
    (if length all \<le> page_limit * mp then Ok all
     else Err (InventoryRule (Stated inventory_incomplete)))"
  using inventory_loop_stable [OF assms(1,2), of "offset_walk_new coll mp absent" absent mp 0 w] assms(3)
  by (simp add: inventory_def offset_walk_new_def)

section \<open>Properties\<close>

text \<open>C37: A sessions walk that ends without calling itself partial has exactly the sessions the service
  counted beyond the offset, and no session twice, whatever the service does between the pages.\<close>

theorem sessions_list_is_complete_or_partial:
  "sessions_walk jtext overview limit offset m w = (Ok r, ws) \<Longrightarrow>
     distinct (map (session_key jtext) (walked_rows r))
     \<and> (sessions_partial r \<or> expected_total (snd ws) = Some (offset + length (walked_rows r)))"
  using sessions_walk_ok [of jtext overview limit offset m w r ws] by (simp add: session_result_ok_def)

text \<open>A text of arrays of strings, and a service of two sessions on one page, for the examples.\<close>

fun strings_text :: "json \<Rightarrow> str" where
  "strings_text (JArray vs) = concat (map strings_text vs)"
| "strings_text (JString s) = s"
| "strings_text _ = []"

definition two_sessions :: "json list" where
  "two_sessions = [JObject [(''session_id'', JString ''a'')], JObject [(''session_id'', JString ''b'')]]"

definition two_sessions_page :: "nat \<Rightarrow> unit \<Rightarrow> (unit walk_error, json) result \<times> unit" where
  "two_sessions_page offset w =
     (Ok (JObject [(''items'', JArray two_sessions),
        (''pagination'', JObject [(''skip'', jcount offset), (''limit'', jcount 5), (''total_items'', jcount 2)])]), w)"

lemma total_of_nat: "n \<le> max_safe_integer \<Longrightarrow> total_of (Some (of_nat n)) = Some n"
  by (simp add: total_of_def)

lemma two_sessions_walk:
  "sessions_walk strings_text two_sessions_page 5 0 10 () =
     (Ok \<lparr>walked_rows = two_sessions, stopped_at_max = False, stopped_at_pages = False\<rparr>,
      ((), \<lparr>expected_total = Some 2, session_keys = {''a'', ''b''}\<rparr>))"
proof -
  have pages: "session_pages = Suc 99" by (simp add: session_pages_def)
  have two: "total_of (Some 2) = Some 2"
    using total_of_nat [of 2] by (simp add: max_safe_integer_def)
  have fetch: "session_fetch two_sessions_page 5 0 a (w, s) = (Ok (page_new two_sessions (Some 2)), (w, s))"
    for a w s
    by (simp add: session_fetch_def two_sessions_page_def pagination_number_def json_number_def jcount_def
        items_of_def jget_def two)
  have keys: "map (session_key strings_text) two_sessions = [''a'', ''b'']"
    by (simp add: two_sessions_def session_key_def jget_def)
  have rows: "length two_sessions = 2" by (simp add: two_sessions_def)
  have check: "session_page_check strings_text 5 0 a (page_new two_sessions (Some 2))
      (w, \<lparr>expected_total = None, session_keys = {}\<rparr>)
      = (Ok (), (w, \<lparr>expected_total = Some 2, session_keys = {''a'', ''b''}\<rparr>))" for a w
    by (simp add: session_page_check_def session_check_def page_new_def keys rows sat_add_def u64_max_def
        insert_commute)
  have taken: "take_page row_size (\<lambda>_. None) 10 True 0 5 False (page_new two_sessions (Some 2)) nothing_collected
      = Inl (Ok (all_walked two_sessions))" if "row_size = (\<lambda>row. length (strings_text row))" for row_size
    using that
    by (simp add: take_page_def page_new_def two_sessions_def counted_total_def checked_add_def u64_max_def
        nothing_collected_def seen_before_def see_def sat_add_def walk_bytes_def more_pages_def)
  have capped: "\<not> page_capped (page_new two_sessions (Some 2))" by (simp add: page_new_def)
  have caps: "cap_of 10 = 10" "user_cap_of 10" "min 5 u32_max = 5"
    by (simp_all add: cap_of_def user_cap_of_def walk_items_def u32_max_def)
  show ?thesis
    unfolding sessions_walk_def walk_with_def pages caps walk_spec.simps walk_loop.simps(2)
    by (simp add: fetch check taken capped caps asked_size_def all_walked_def)
qed

lemma sessions_list_is_complete_or_partial_witness:
  "distinct (map (session_key strings_text) two_sessions) \<and> length two_sessions = 2"
  using sessions_list_is_complete_or_partial [OF two_sessions_walk]
  by (simp add: sessions_partial_def two_sessions_def)

text \<open>A supply-chain listing has no row without an identifier and none twice; a scans listing that is
  not marked truncated ends at the total the service counts, and with rows it has all of them from the
  offset on.\<close>

theorem scans_listing_is_complete_or_truncated:
  assumes "safe_reader read" and "list_inventory jtext kind pg read w = (Ok l, w')"
  shows "distinct (map uuid_of (l_rows l)) \<and> [] \<notin> set (map uuid_of (l_rows l))
    \<and> (kind = Rules \<or> d_truncated (l_pagination l)
       \<or> (\<exists>t. d_total_items (l_pagination l) = Some t \<and> t \<le> pg_offset pg + length (l_rows l)
             \<and> (l_rows l = [] \<or> t = pg_offset pg + length (l_rows l))))"
  using list_inventory_ok [OF assms] by (cases kind) (auto simp: list_result_ok_def)

definition two_scans :: "json list" where
  "two_scans = [JObject [(''uuid'', JString ''a'')], JObject [(''uuid'', JString ''b'')]]"

definition two_scans_page :: "nat \<Rightarrow> nat \<Rightarrow> unit \<Rightarrow> (unit list_failure, list_page) result \<times> unit" where
  "two_scans_page skip asked w = (Ok \<lparr>lp_rows = two_scans, lp_total = Some 2\<rparr>, w)"

lemma two_scans_safe: "safe_reader two_scans_page"
  by (simp add: safe_reader_def two_scans_page_def counts_safe_def max_safe_integer_def)

lemma two_scans_listing:
  "list_inventory strings_text Scans \<lparr>pg_limit = 5, pg_offset = 0, pg_all = False, pg_max = 10\<rparr> two_scans_page () =
     (Ok \<lparr>l_rows = two_scans,
          l_pagination = \<lparr>d_total_items = Some 2, d_returned = 2, d_skip = 0, d_next_offset = None,
                          d_truncated = False\<rparr>\<rparr>, ())"
  by (simp add: list_inventory_def two_scans_page_def checks_check_def checks_new_def check_total_def
      two_scans_def uuid_of_def jget_def sat_add_def u64_max_def pagination_new_def)

lemma scans_listing_is_complete_or_truncated_witness:
  "distinct (map uuid_of two_scans) \<and> length two_scans = 2"
  using scans_listing_is_complete_or_truncated [OF two_scans_safe two_scans_listing]
  by (simp add: two_scans_def)

text \<open>The DLP walk never returns an identifier twice, nor more rows or bytes than its bounds, and
  names itself stopped at the cap only when the user's cap is full.\<close>

theorem dlp_walk_is_bounded:
  assumes "dlp_walk jtext size_asked m fetch w = (Ok r, w')"
  shows "length (walked_rows r) \<le> cap_of m \<and> distinct (keys_of id_of (walked_rows r))
     \<and> bytes_of (\<lambda>row. length (jtext row)) (walked_rows r) \<le> walk_bytes
     \<and> (\<not> stopped_at_max r \<or> (user_cap_of m \<and> length (walked_rows r) = cap_of m))"
  using dlp_loop_ok [OF nothing_collected_ok walk_bytes_small
      assms [unfolded dlp_walk_def dlp_walk_bounded_def]] by (auto simp: result_ok_def)

definition two_rows_page :: "nat \<Rightarrow> nat \<Rightarrow> unit \<Rightarrow> (unit walk_error, json) result \<times> unit" where
  "two_rows_page page size_asked w =
     (Ok (JObject [(''content'', JArray [JObject [(''id'', JString ''a'')], JObject [(''id'', JString ''b'')]]),
                   (''last'', JBool True)]), w)"

lemma two_rows_walk:
  "dlp_walk strings_text 5 10 two_rows_page () =
     (Ok (all_walked [JObject [(''id'', JString ''a'')], JObject [(''id'', JString ''b'')]]), ())"
proof -
  have pages: "walk_pages = Suc 99999" by (simp add: walk_pages_def)
  show ?thesis
    unfolding dlp_walk_def dlp_walk_bounded_def pages dlp_loop.simps(2)
    by (simp add: two_rows_page_def dlp_page_def last_page_def
        meta_of_def rows_of_def jget_def nothing_collected_def seen_before_def see_def id_of_def
        cap_of_def user_cap_of_def walk_items_def sat_add_def u64_max_def walk_bytes_def Let_def)
qed

lemma dlp_walk_is_bounded_witness:
  "distinct (keys_of id_of [JObject [(''id'', JString ''a'')], JObject [(''id'', JString ''b'')]])"
  using dlp_walk_is_bounded [OF two_rows_walk] by (simp add: all_walked_def)

text \<open>The inventory of a transfer over a stable service is the whole collection, in order, when it
  fits in \<open>--max-pages\<close> pages, and otherwise the error that says so, never a part of it.\<close>

theorem inventory_is_whole_or_refused:
  assumes "stable_inventory coll all read" and "length all \<le> max_inventory" and "0 < mp"
  shows "fst (inventory read coll mp absent w) =
    (if length all \<le> page_limit * mp then Ok all
     else Err (InventoryRule (Stated inventory_incomplete)))"
  using inventory_stable [OF assms] .

definition two_topics :: "nat \<Rightarrow> unit \<Rightarrow> (unit, json) result \<times> unit" where
  "two_topics offset w =
     (Ok (JObject [(''custom_topics'', JArray (take page_limit (drop offset [JNull, JBool True])))]), w)"

lemma two_topics_stable: "stable_inventory Topics [JNull, JBool True] two_topics"
  by (simp add: stable_inventory_def two_topics_def jget_def next_offset_of_def page_limit_def)

lemma inventory_is_whole_or_refused_witness:
  "fst (inventory two_topics Topics 1 [] ()) = Ok [JNull, JBool True]"
  using inventory_is_whole_or_refused [OF two_topics_stable, of 1 "[]" "()"]
  by (simp add: max_inventory_def page_limit_def)

end
