(* ===== verification/ProfilePolicy.thy ===== *)
theory ProfilePolicy
  imports Pagination
begin

text \<open>
  \<open>src/profile_policy.rs\<close>: the layout rules of a security policy, a JSON object with AI entries.
  A legacy entry keeps its protections in \<open>model-configuration\<close>, a directional one in
  \<open>content-type-configurations\<close>, one block per direction. A mutable borrow of a part of the policy
  is modelled by its use: \<open>with_object m k f\<close> applies the fallible edit \<open>f\<close> to the object at \<open>k\<close>
  and puts the result back. A refusal is \<open>Fail\<close>; a panic (an \<open>expect\<close> or \<open>unreachable!\<close>) is the
  value \<open>Panic\<close>, and the theory of the properties shows that it does not happen.
\<close>

datatype fault = Fail cli_error | Panic

type_synonym 'a outcome = "(fault, 'a) result"

definition directions :: "str list" where
  "directions = [''prompt'', ''response'', ''tool-call'', ''tool-response'']"

definition per_content_type :: str where "per_content_type = ''per_content_type''"
definition ai_profiles :: str where "ai_profiles = ''ai-security-profiles''"
definition model_configuration_key :: str where "model_configuration_key = ''model-configuration''"
definition content_type_mode :: str where "content_type_mode = ''content-type-mode''"
definition content_type_configurations :: str where
  "content_type_configurations = ''content-type-configurations''"

definition shared_keys :: "str list" where
  "shared_keys = [''latency'', ''mask-data-in-storage'', ''enable-full-conversation-inspection'']"

definition named_arrays :: "str list" where
  "named_arrays = [''model-protection'', ''agent-protection'', ''database-security'']"

definition refuse :: "str \<Rightarrow> 'a outcome" where
  "refuse m = Err (Fail (Usage m))"

section \<open>The selector\<close>

record selector =
  sel_direction :: "str option"
  sel_index :: "nat option"

definition selector_parse :: "str option \<Rightarrow> str option \<Rightarrow> (cli_error, selector) result" where
  "selector_parse direction index =
     bind_r (case direction of
         None \<Rightarrow> Ok None
       | Some t \<Rightarrow> if t \<in> set directions then Ok (Some t)
           else Err (Usage ''--direction must be prompt, response, tool-call, or tool-response'')) (\<lambda>d.
     bind_r (case index of
         None \<Rightarrow> Ok None
       | Some t \<Rightarrow>
           if t \<noteq> [] \<and> list_all is_digit t \<and> undec t \<le> u64_max \<and> undec t \<le> max_safe_integer
           then Ok (Some (undec t))
           else Err (Usage ''--ai-profile-index must be a nonnegative integer'')) (\<lambda>i.
     Ok \<lparr>sel_direction = d, sel_index = i\<rparr>))"

definition selector_given :: "selector \<Rightarrow> bool" where
  "selector_given s = (sel_direction s \<noteq> None \<or> sel_index s \<noteq> None)"

section \<open>Locations\<close>

definition is_directional :: "jobject \<Rightarrow> bool" where
  "is_directional entry =
     ((case jlookup entry content_type_mode of Some v \<Rightarrow> as_str v = Some per_content_type | None \<Rightarrow> False)
      \<or> contains_key entry content_type_configurations)"

record place =
  pl_index :: nat
  pl_direction :: "str option"

record location =
  loc_place :: place
  loc_model_type :: "json option"
  loc_configuration :: jobject
  loc_active :: bool

definition entries_of :: "json option \<Rightarrow> json list" where
  "entries_of policy = (case policy of
      None \<Rightarrow> []
    | Some p \<Rightarrow> (case jget p ai_profiles of
          Some v \<Rightarrow> (case as_array v of Some es \<Rightarrow> es | None \<Rightarrow> []) | None \<Rightarrow> []))"

text \<open>The directions of an entry: the known ones in their order, then any other key.\<close>

definition ordered_directions :: "jobject \<Rightarrow> jobject" where
  "ordered_directions ds =
     List.map_filter (\<lambda>d. map_option (Pair d) (jlookup ds d)) directions
     @ filter (\<lambda>(d, _). d \<notin> set directions) ds"

fun object_pair :: "str \<times> json \<Rightarrow> (str \<times> jobject) option" where
  "object_pair (d, JObject c) = Some (d, c)"
| "object_pair _ = None"

definition entry_locations :: "nat \<Rightarrow> json \<Rightarrow> location list" where
  "entry_locations index v = (case as_object v of
      None \<Rightarrow> []
    | Some entry \<Rightarrow>
        (case jlookup entry model_configuration_key of
           Some (JObject c) \<Rightarrow>
             [\<lparr>loc_place = \<lparr>pl_index = index, pl_direction = None\<rparr>,
               loc_model_type = jlookup entry ''model-type'', loc_configuration = c,
               loc_active = (\<not> is_directional entry)\<rparr>]
         | _ \<Rightarrow> [])
        @ (case jlookup entry content_type_configurations of
             Some (JObject ds) \<Rightarrow>
               map (\<lambda>(d, c). \<lparr>loc_place = \<lparr>pl_index = index, pl_direction = Some d\<rparr>,
                               loc_model_type = jlookup entry ''model-type'', loc_configuration = c,
                               loc_active = True\<rparr>)
                 (List.map_filter object_pair (ordered_directions ds))
           | _ \<Rightarrow> []))"

fun locations_from :: "nat \<Rightarrow> json list \<Rightarrow> location list" where
  "locations_from i [] = []"
| "locations_from i (v # vs) = entry_locations i v @ locations_from (Suc i) vs"

definition locations :: "json option \<Rightarrow> location list" where
  "locations policy = locations_from 0 (entries_of policy)"

text \<open>The label of a location; the text of a model type that is no string is serde_json's.\<close>

definition location_label :: "(json \<Rightarrow> str) \<Rightarrow> location \<Rightarrow> str" where
  "location_label jtext l =
     ''AI['' @ dec (pl_index (loc_place l)) @ ''] ''
     @ (case loc_model_type l of
          None \<Rightarrow> ''unspecified''
        | Some JNull \<Rightarrow> ''unspecified''
        | Some (JString s) \<Rightarrow> s
        | Some other \<Rightarrow> jtext other)
     @ '' / '' @ (case pl_direction (loc_place l) of Some d \<Rightarrow> d | None \<Rightarrow> ''legacy'')"

section \<open>Edits\<close>

definition object_or_empty :: "jobject \<Rightarrow> str \<Rightarrow> jobject" where
  "object_or_empty m key = (case jlookup m key of Some (JObject v) \<Rightarrow> v | _ \<Rightarrow> [])"

definition with_object :: "jobject \<Rightarrow> str \<Rightarrow> (jobject \<Rightarrow> jobject outcome) \<Rightarrow> jobject outcome" where
  "with_object m key f = bind_r (f (object_or_empty m key)) (\<lambda>v. Ok (jinsert m key (JObject v)))"

text \<open>The configuration object at a place, when it exists.\<close>

definition configuration_at :: "json \<Rightarrow> place \<Rightarrow> jobject option" where
  "configuration_at policy pl = (case jget policy ai_profiles of
      Some (JArray es) \<Rightarrow>
        if pl_index pl < length es then
          (case pl_direction pl of
             None \<Rightarrow> Option.bind (jget (es ! pl_index pl) model_configuration_key) as_object
           | Some d \<Rightarrow> Option.bind (jget (es ! pl_index pl) content_type_configurations)
                        (\<lambda>ds. Option.bind (jget ds d) as_object))
        else None
    | _ \<Rightarrow> None)"

text \<open>The policy with its list of AI entries, and the index of the one entry that is meant.\<close>

definition select_ai_profile :: "jobject \<Rightarrow> selector \<Rightarrow> (jobject \<times> nat) outcome" where
  "select_ai_profile policy sel =
     (let profiles = (case jlookup policy ai_profiles of
          None \<Rightarrow> JArray [] | Some JNull \<Rightarrow> JArray [] | Some v \<Rightarrow> v)
      in case profiles of
        JArray es \<Rightarrow>
          if sel_index sel = None \<and> 1 < length es
          then refuse ''Multiple AI profile entries: specify --ai-profile-index or use --config''
          else let index = (case sel_index sel of Some i \<Rightarrow> i | None \<Rightarrow> 0) in
            if es = [] \<and> sel_index sel = None
            then Ok (jinsert policy ai_profiles (JArray [JObject [(''model-type'', JString ''default'')]]), 0)
            else if index < length es \<and> as_object (es ! index) \<noteq> None
              then Ok (jinsert policy ai_profiles (JArray es), index)
              else refuse ''--ai-profile-index does not identify an existing AI profile entry''
      | _ \<Rightarrow> refuse ''--ai-profile-index does not identify an existing AI profile entry'')"

definition with_entry :: "jobject \<Rightarrow> nat \<Rightarrow> (jobject \<Rightarrow> jobject outcome) \<Rightarrow> jobject outcome" where
  "with_entry policy index f = (case jlookup policy ai_profiles of
      Some (JArray es) \<Rightarrow>
        if index < length es then
          (case as_object (es ! index) of
             Some e \<Rightarrow> bind_r (f e) (\<lambda>e'. Ok (jinsert policy ai_profiles (JArray (es[index := JObject e']))))
           | None \<Rightarrow> Err Panic)
        else Err Panic
    | _ \<Rightarrow> Err Panic)"

definition with_protections :: "jobject \<Rightarrow> str option \<Rightarrow> bool \<Rightarrow> (jobject \<Rightarrow> jobject outcome) \<Rightarrow> jobject outcome" where
  "with_protections entry direction allow_missing f =
     (if is_directional entry then
        (case direction of
           None \<Rightarrow> refuse ''Directional protection edits require --direction''
         | Some d \<Rightarrow>
             if (case jlookup entry content_type_mode of
                   Some mode \<Rightarrow> as_str mode \<noteq> Some per_content_type | None \<Rightarrow> False)
             then refuse ''Unknown content-type-mode: use a complete --config replacement''
             else if \<not> (case jlookup entry content_type_configurations of
                          Some ds \<Rightarrow> (case jget ds d of Some v \<Rightarrow> as_object v \<noteq> None | None \<Rightarrow> False)
                        | None \<Rightarrow> False) \<and> \<not> allow_missing
             then refuse ''Selected direction is absent; add it with a complete --config replacement before editing protections or topics''
             else with_object entry content_type_configurations (\<lambda>ds. with_object ds d f))
      else if direction \<noteq> None
      then refuse ''A legacy profile cannot be converted by --direction; use a complete --config replacement''
      else if contains_key entry content_type_mode
      then refuse ''Unknown content-type-mode: use a complete --config replacement''
      else with_object entry model_configuration_key f)"

definition with_shared_settings :: "jobject \<Rightarrow> (jobject \<Rightarrow> jobject outcome) \<Rightarrow> jobject outcome" where
  "with_shared_settings entry f = with_object entry model_configuration_key f"

text \<open>The shared keys moved out of a built configuration: what stays and what was moved.\<close>

fun move_keys :: "str list \<Rightarrow> jobject \<Rightarrow> jobject \<Rightarrow> jobject \<times> jobject" where
  "move_keys [] config shared = (config, shared)"
| "move_keys (k # ks) config shared =
     (case jlookup config k of
        Some v \<Rightarrow> move_keys ks (jremove config k) (jinsert shared k v)
      | None \<Rightarrow> move_keys ks config shared)"

definition extract_shared :: "jobject \<Rightarrow> jobject \<times> jobject" where
  "extract_shared config = move_keys shared_keys config []"

section \<open>The merge of flags\<close>

text \<open>JavaScript's \<open>String(value)\<close> of a detector name; a value that is no string prints as serde_json does.\<close>

definition js_string :: "(json \<Rightarrow> str) \<Rightarrow> json \<Rightarrow> str" where
  "js_string jtext v = (case v of JString s \<Rightarrow> s | other \<Rightarrow> jtext other)"

text \<open>The positions of the entries with a given name (or with none).\<close>

fun named_at :: "json option \<Rightarrow> nat \<Rightarrow> json list \<Rightarrow> nat list" where
  "named_at nm i [] = []"
| "named_at nm i (e # es) = (if jget e ''name'' = nm then i # named_at nm (Suc i) es else named_at nm (Suc i) es)"

definition array_or_empty :: "jobject \<Rightarrow> str \<Rightarrow> json list" where
  "array_or_empty m key = (case jlookup m key of Some (JArray es) \<Rightarrow> es | _ \<Rightarrow> [])"

definition name_malicious_code :: "str \<Rightarrow> jobject \<Rightarrow> jobject" where
  "name_malicious_code key v =
     (if key = ''malicious-code-protection'' \<and> \<not> contains_key v ''name''
      then jinsert v ''name'' (JString ''malicious-code'') else v)"

function (sequential) merge_settings :: "(json \<Rightarrow> str) \<Rightarrow> jobject \<Rightarrow> jobject \<Rightarrow> jobject outcome"
  and merge_items :: "(json \<Rightarrow> str) \<Rightarrow> json list \<Rightarrow> json list \<Rightarrow> json list outcome" where
  "merge_settings jtext base [] = Ok base"
| "merge_settings jtext base ((key, JArray items) # rest) =
     (if key \<in> set named_arrays
      then bind_r (merge_items jtext (array_or_empty base key) items) (\<lambda>merged.
             merge_settings jtext (jinsert (jremove base key) key (JArray merged)) rest)
      else merge_settings jtext (jinsert base key (JArray items)) rest)"
| "merge_settings jtext base ((key, JObject fs) # rest) =
     bind_r (merge_settings jtext (object_or_empty base key) fs) (\<lambda>target.
       merge_settings jtext
         (jinsert (jremove base key) key (JObject (name_malicious_code key target))) rest)"
| "merge_settings jtext base ((key, other) # rest) = merge_settings jtext (jinsert base key other) rest"
| "merge_items jtext merged [] = Ok merged"
| "merge_items jtext merged (JObject fs # items) =
     (case named_at (jlookup fs ''name'') 0 merged of
        [] \<Rightarrow> merge_items jtext (merged @ [JObject fs]) items
      | [i] \<Rightarrow>
          (case merged ! i of
             JObject existing \<Rightarrow>
               bind_r (merge_settings jtext existing fs) (\<lambda>m.
                 merge_items jtext (merged[i := JObject m]) items)
           | _ \<Rightarrow> merge_items jtext (merged[i := JObject fs]) items)
      | _ \<Rightarrow> refuse (''Ambiguous detector identity: ''
               @ (case jlookup fs ''name'' of None \<Rightarrow> ''undefined'' | Some v \<Rightarrow> js_string jtext v)))"
| "merge_items jtext merged (item # items) =
     (case named_at None 0 merged of
        [] \<Rightarrow> merge_items jtext (merged @ [item]) items
      | [i] \<Rightarrow> merge_items jtext (merged[i := item]) items
      | _ \<Rightarrow> refuse ''Ambiguous detector identity: undefined'')"
  by pat_completeness auto
termination
  by (relation "measure (\<lambda>x. case x of Inl (jtext, base, patch) \<Rightarrow> size_list (size_prod (\<lambda>_. 0) size) patch
                              | Inr (jtext, merged, items) \<Rightarrow> size_list size items)")
    auto

end
