(* ===== verification/PolicyFlags.thy ===== *)
theory PolicyFlags
  imports ProfilePolicy
begin

text \<open>
  The policy flags of \<open>src/policy.rs\<close>: reading them, the sections they build, the request of
  \<open>profiles create\<close> and the merge of \<open>profiles update\<close>.
\<close>

definition max_latency :: nat where "max_latency = 9007199254740992"

record policy_flags =
  r_prompt_injection :: "str option"
  r_toxic_content :: "str option"
  r_contextual_grounding :: "str option"
  r_malicious_code :: "str option"
  r_url_action :: "str option"
  r_allow_url_categories :: "str option"
  r_block_url_categories :: "str option"
  r_alert_url_categories :: "str option"
  r_agent_security :: "str option"
  r_dlp_action :: "str option"
  r_dlp_profiles :: "str option"
  r_mask_data_inline :: bool
  r_no_mask_data_inline :: bool
  r_db_security_create :: "str option"
  r_db_security_read :: "str option"
  r_db_security_update :: "str option"
  r_db_security_delete :: "str option"
  r_inline_timeout_action :: "str option"
  r_max_inline_latency :: "str option"
  r_mask_data_in_storage :: bool
  r_no_mask_data_in_storage :: bool
  r_enable_inspection :: bool
  r_no_enable_inspection :: bool

record flags =
  f_prompt_injection :: "str option"
  f_toxic_content :: "str option"
  f_contextual_grounding :: "str option"
  f_malicious_code :: "str option"
  f_url_action :: "str option"
  f_allow_url_categories :: "str list option"
  f_block_url_categories :: "str list option"
  f_alert_url_categories :: "str list option"
  f_agent_security :: "str option"
  f_dlp_action :: "str option"
  f_dlp_profiles_given :: bool
  f_dlp_profiles :: "str list option"
  f_mask_data_inline :: "bool option"
  f_db_security :: "str option list" \<comment> \<open>create, read, update, delete\<close>
  f_inline_timeout_action :: "str option"
  f_max_inline_latency :: "nat option"
  f_latency_given :: bool
  f_mask_data_in_storage :: "bool option"
  f_enable_inspection :: "bool option"

definition given :: "str option \<Rightarrow> str option" where
  "given v = (case v of Some t \<Rightarrow> if t = [] then None else Some t | None \<Rightarrow> None)"

definition flag_list :: "str option \<Rightarrow> str list option" where
  "flag_list v = (case given v of
      None \<Rightarrow> None
    | Some t \<Rightarrow> Some (filter (\<lambda>item. item \<noteq> []) (map js_trim (split_on (CHR '','') t))))"

definition flag_pair :: "bool \<Rightarrow> bool \<Rightarrow> bool option" where
  "flag_pair on off = (if on then Some True else if off then Some False else None)"

definition db_ops :: "str list" where
  "db_ops = [''database-security-create'', ''database-security-read'', ''database-security-update'',
             ''database-security-delete'']"

definition latency_flag :: "str option \<Rightarrow> nat option" where
  "latency_flag v = (case v of
      None \<Rightarrow> None
    | Some t \<Rightarrow> if t \<noteq> [] \<and> list_all is_digit t \<and> undec t \<le> u64_max \<and> undec t \<le> max_latency
                then Some (undec t) else None)"

definition flags_read :: "policy_flags \<Rightarrow> flags" where
  "flags_read raw =
     \<lparr>f_prompt_injection = given (r_prompt_injection raw),
      f_toxic_content = given (r_toxic_content raw),
      f_contextual_grounding = given (r_contextual_grounding raw),
      f_malicious_code = given (r_malicious_code raw),
      f_url_action = given (r_url_action raw),
      f_allow_url_categories = flag_list (r_allow_url_categories raw),
      f_block_url_categories = flag_list (r_block_url_categories raw),
      f_alert_url_categories = flag_list (r_alert_url_categories raw),
      f_agent_security = given (r_agent_security raw),
      f_dlp_action = r_dlp_action raw,
      f_dlp_profiles_given = (r_dlp_profiles raw \<noteq> None),
      f_dlp_profiles = flag_list (r_dlp_profiles raw),
      f_mask_data_inline = flag_pair (r_mask_data_inline raw) (r_no_mask_data_inline raw),
      f_db_security = [given (r_db_security_create raw), given (r_db_security_read raw),
                       given (r_db_security_update raw), given (r_db_security_delete raw)],
      f_inline_timeout_action = given (r_inline_timeout_action raw),
      f_max_inline_latency = latency_flag (r_max_inline_latency raw),
      f_latency_given = (r_max_inline_latency raw \<noteq> None),
      f_mask_data_in_storage = flag_pair (r_mask_data_in_storage raw) (r_no_mask_data_in_storage raw),
      f_enable_inspection = flag_pair (r_enable_inspection raw) (r_no_enable_inspection raw)\<rparr>"

definition flags_check :: "flags \<Rightarrow> (cli_error, unit) result" where
  "flags_check f =
     (if f_latency_given f \<and> f_max_inline_latency f = None
      then Err (Usage ''--max-inline-latency must be a non-negative integer'') else Ok ())"

definition raw_any :: "policy_flags \<Rightarrow> bool" where
  "raw_any raw =
     (list_ex (\<lambda>v. v \<noteq> None)
        [r_prompt_injection raw, r_toxic_content raw, r_contextual_grounding raw, r_malicious_code raw,
         r_url_action raw, r_allow_url_categories raw, r_block_url_categories raw,
         r_alert_url_categories raw, r_agent_security raw, r_dlp_action raw, r_dlp_profiles raw,
         r_db_security_create raw, r_db_security_read raw, r_db_security_update raw,
         r_db_security_delete raw, r_inline_timeout_action raw, r_max_inline_latency raw]
      \<or> r_mask_data_inline raw \<or> r_no_mask_data_inline raw \<or> r_mask_data_in_storage raw
      \<or> r_no_mask_data_in_storage raw \<or> r_enable_inspection raw \<or> r_no_enable_inspection raw)"

definition dlp_without_action :: "flags \<Rightarrow> bool" where
  "dlp_without_action f =
     ((f_dlp_profiles_given f \<or> f_mask_data_inline f \<noteq> None) \<and> f_dlp_action f = None)"

definition any_protection :: "flags \<Rightarrow> bool" where
  "any_protection f =
     (f_prompt_injection f \<noteq> None \<or> f_toxic_content f \<noteq> None \<or> f_contextual_grounding f \<noteq> None
      \<or> f_malicious_code f \<noteq> None \<or> f_url_action f \<noteq> None \<or> f_allow_url_categories f \<noteq> None
      \<or> f_block_url_categories f \<noteq> None \<or> f_alert_url_categories f \<noteq> None \<or> f_agent_security f \<noteq> None
      \<or> f_dlp_action f \<noteq> None \<or> f_dlp_profiles_given f \<or> f_mask_data_inline f \<noteq> None
      \<or> list_ex (\<lambda>v. v \<noteq> None) (f_db_security f) \<or> f_inline_timeout_action f \<noteq> None
      \<or> f_latency_given f \<or> f_mask_data_in_storage f \<noteq> None \<or> f_enable_inspection f \<noteq> None)"

section \<open>Sections\<close>

text \<open>An object literal of \<open>json!\<close>: serde's sorted map.\<close>

definition object_of :: "(str \<times> json) list \<Rightarrow> jobject" where
  "object_of kvs = foldl (\<lambda>m (k, v). jinsert m k v) [] kvs"

definition named :: "str \<Rightarrow> str \<Rightarrow> json" where
  "named nm action = JObject (object_of [(''name'', JString nm), (''action'', JString action)])"

definition string_array :: "str list \<Rightarrow> json" where
  "string_array xs = JArray (map JString xs)"

definition opt_item :: "'a option \<Rightarrow> ('a \<Rightarrow> 'b) \<Rightarrow> 'b list" where
  "opt_item v g = (case v of Some x \<Rightarrow> [g x] | None \<Rightarrow> [])"

definition nonempty :: "'a list \<Rightarrow> 'a list option" where
  "nonempty xs = (if xs = [] then None else Some xs)"

definition toxic_action :: "str \<Rightarrow> str" where
  "toxic_action a = (if CHR '':'' \<in> set a then a else ''high:'' @ a @ '', moderate:'' @ a)"

definition model_protection :: "flags \<Rightarrow> json list option" where
  "model_protection f = nonempty
     (opt_item (f_prompt_injection f) (named ''prompt-injection'')
      @ opt_item (f_toxic_content f) (\<lambda>a. named ''toxic-content'' (toxic_action a))
      @ opt_item (f_contextual_grounding f) (named ''contextual-grounding''))"

definition member_object :: "json \<Rightarrow> json" where
  "member_object v = JObject (object_of [(''member'', v)])"

definition app_protection :: "flags \<Rightarrow> bool \<Rightarrow> jobject option" where
  "app_protection f directional = nonempty (object_of
     (opt_item (f_malicious_code f) (\<lambda>a. (''malicious-code-protection'',
        named (if directional then ''malicious-code'' else ''malicious-code-detection'') a))
      @ opt_item (f_url_action f) (\<lambda>a. (''url-detected-action'', JString a))
      @ opt_item (f_allow_url_categories f) (\<lambda>m. (''allow-url-category'', member_object (string_array m)))
      @ opt_item (f_block_url_categories f) (\<lambda>m. (''block-url-category'', member_object (string_array m)))
      @ opt_item (f_alert_url_categories f) (\<lambda>m. (''alert-url-category'', member_object (string_array m)))))"

definition leak_detection :: "flags \<Rightarrow> jobject option" where
  "leak_detection f =
     (if f_dlp_action f = None \<and> \<not> f_dlp_profiles_given f \<and> f_mask_data_inline f = None then None
      else Some (object_of
        (opt_item (f_dlp_action f) (\<lambda>a. (''action'', JString a))
         @ opt_item (f_dlp_profiles f) (\<lambda>ps. (''member'',
             JArray (map (\<lambda>t. JObject (object_of [(''text'', JString t)])) ps)))
         @ opt_item (f_mask_data_inline f) (\<lambda>b. (''mask-data-inline'', JBool b)))))"

definition database_security :: "flags \<Rightarrow> json list option" where
  "database_security f = nonempty
     (concat (map (\<lambda>(nm, action). opt_item action (named nm)) (zip db_ops (f_db_security f))))"

definition data_protection :: "flags \<Rightarrow> jobject option" where
  "data_protection f = nonempty (object_of
     (opt_item (leak_detection f) (\<lambda>v. (''data-leak-detection'', JObject v))
      @ opt_item (database_security f) (\<lambda>v. (''database-security'', JArray v))))"

definition latency_section :: "flags \<Rightarrow> jobject option" where
  "latency_section f = nonempty (object_of
     (opt_item (f_inline_timeout_action f) (\<lambda>a. (''inline-timeout-action'', JString a))
      @ opt_item (f_max_inline_latency f) (\<lambda>n. (''max-inline-latency'', JNumber (Whole (int n))))))"

definition model_configuration :: "flags \<Rightarrow> bool \<Rightarrow> jobject" where
  "model_configuration f directional = object_of
     (opt_item (model_protection f) (\<lambda>v. (''model-protection'', JArray v))
      @ opt_item (app_protection f directional) (\<lambda>v. (''app-protection'', JObject v))
      @ opt_item (f_agent_security f) (\<lambda>a. (''agent-protection'', JArray [named ''agent-security'' a]))
      @ opt_item (data_protection f) (\<lambda>v. (''data-protection'', JObject v))
      @ opt_item (latency_section f) (\<lambda>v. (''latency'', JObject v))
      @ opt_item (f_mask_data_in_storage f) (\<lambda>b. (''mask-data-in-storage'', JBool b))
      @ opt_item (f_enable_inspection f) (\<lambda>b. (''enable-full-conversation-inspection'', JBool b)))"

definition fills_a_direction :: "flags \<Rightarrow> bool" where
  "fills_a_direction f = (fst (extract_shared (model_configuration f True)) \<noteq> [])"

section \<open>The request of a create\<close>

text \<open>\<open>Entry::or_insert_with\<close>: the value that is there stays.\<close>

definition or_insert :: "jobject \<Rightarrow> str \<Rightarrow> json \<Rightarrow> jobject" where
  "or_insert m key v = (if contains_key m key then m else jinsert m key v)"

definition directional_entry :: "flags \<Rightarrow> str \<Rightarrow> jobject" where
  "directional_entry f direction =
     (let (config, shared) = extract_shared (model_configuration f True) in
      object_of
        [(''model-type'', JString ''default''),
         (content_type_mode, JString per_content_type),
         (model_configuration_key, JObject shared),
         (content_type_configurations,
          JObject (jinsert (object_of (map (\<lambda>d. (d, JObject [])) directions)) direction (JObject config)))])"

definition default_app_protection :: json where
  "default_app_protection = JObject (object_of
     [(''default-url-category'', member_object (string_array [''malicious''])),
      (''url-detected-action'', JString ''block'')])"

definition default_data_protection :: json where
  "default_data_protection = JObject (object_of
     [(''data-leak-detection'', JObject (object_of
         [(''action'', JString []), (''mask-data-inline'', JBool False), (''member'', JNull)])),
      (''database-security'', JNull)])"

definition default_latency :: json where
  "default_latency = JObject (object_of
     [(''inline-timeout-action'', JString ''block''), (''max-inline-latency'', JNumber (Whole 5))])"

definition legacy_entry :: "flags \<Rightarrow> jobject" where
  "legacy_entry f =
     (let config = or_insert (or_insert (or_insert (or_insert (model_configuration f False)
            ''app-protection'' default_app_protection)
            ''data-protection'' default_data_protection)
            ''latency'' default_latency)
            ''mask-data-in-storage'' (JBool False)
      in object_of [(''model-type'', JString ''default''), (model_configuration_key, JObject config)])"

definition create_request :: "str \<Rightarrow> bool \<Rightarrow> flags \<Rightarrow> str option \<Rightarrow> json" where
  "create_request nm active f direction = JObject (object_of
     [(''profile_name'', JString nm), (''active'', JBool active),
      (''policy'', JObject (object_of [(ai_profiles, JArray [JObject (case direction of
          Some d \<Rightarrow> directional_entry f d | None \<Rightarrow> legacy_entry f)])]))])"

section \<open>The merge of an update\<close>

record patch =
  pt_protection :: jobject
  pt_shared :: jobject
  pt_direction :: "str option"

text \<open>The malicious-code item of a patch has no name of its own.\<close>

definition unname_malicious :: "jobject \<Rightarrow> jobject" where
  "unname_malicious protection = (case jlookup protection ''app-protection'' of
      Some (JObject app) \<Rightarrow>
        (case jlookup app ''malicious-code-protection'' of
           Some (JObject item) \<Rightarrow>
             jinsert protection ''app-protection'' (JObject (jinsert app ''malicious-code-protection''
               (JObject (jremove item ''name''))))
         | _ \<Rightarrow> protection)
    | _ \<Rightarrow> protection)"

definition patch_new :: "flags \<Rightarrow> str option \<Rightarrow> patch option" where
  "patch_new f direction =
     (if \<not> any_protection f then None
      else let (protection, shared) =
             extract_shared (unname_malicious (model_configuration f (direction \<noteq> None)))
        in Some \<lparr>pt_protection = protection, pt_shared = shared, pt_direction = direction\<rparr>)"

definition policy_object :: "json option \<Rightarrow> jobject" where
  "policy_object existing = (case existing of Some (JObject p) \<Rightarrow> p | _ \<Rightarrow> [])"

text \<open>The layout checks alone: the policy is probed and left as it is.\<close>

definition check_layout :: "jobject \<Rightarrow> selector \<Rightarrow> unit outcome" where
  "check_layout policy sel =
     (if selector_given sel then
        bind_r (select_ai_profile policy sel) (\<lambda>(probe, index).
          case sel_direction sel of
            None \<Rightarrow> Ok ()
          | Some d \<Rightarrow> bind_r (with_entry probe index (\<lambda>e. with_protections e (Some d) True Ok)) (\<lambda>_. Ok ()))
      else Ok ())"

definition merge_protections :: "(json \<Rightarrow> str) \<Rightarrow> patch \<Rightarrow> str option \<Rightarrow> jobject \<Rightarrow> jobject outcome" where
  "merge_protections jtext pt direction entry =
     (if pt_protection pt = []
      then bind_r (with_protections entry direction True Ok) (\<lambda>_. Ok entry)
      else with_protections entry direction False (\<lambda>target. merge_settings jtext target (pt_protection pt)))"

definition merge_policy :: "(json \<Rightarrow> str) \<Rightarrow> json option \<Rightarrow> patch option \<Rightarrow> selector \<Rightarrow> json outcome" where
  "merge_policy jtext existing pt sel =
     (let policy = policy_object existing in
      case pt of
        None \<Rightarrow> bind_r (check_layout policy sel) (\<lambda>_. Ok (JObject policy))
      | Some pt \<Rightarrow>
          bind_r (select_ai_profile policy sel) (\<lambda>(policy, index).
          let direction = (case pt_direction pt of Some d \<Rightarrow> Some d | None \<Rightarrow> sel_direction sel) in
          bind_r (if direction \<noteq> None \<or> pt_protection pt \<noteq> []
                  then with_entry policy index (merge_protections jtext pt direction)
                  else Ok policy) (\<lambda>policy.
          bind_r (if pt_shared pt \<noteq> []
                  then with_entry policy index (\<lambda>e. with_shared_settings e (\<lambda>s. merge_settings jtext s (pt_shared pt)))
                  else Ok policy) (\<lambda>policy.
          Ok (JObject policy)))))"

end
