(* ===== verification/TopicPolicy.thy ===== *)
theory TopicPolicy
  imports PolicyFlags
begin

text \<open>
  The topic edits of \<open>src/policy.rs\<close>: \<open>topics apply\<close> puts a reference to a topic under the
  guardrail of the selected block, \<open>topics revert\<close> takes every reference out again.
\<close>

definition guardrail :: str where "guardrail = ''topic-guardrails''"
definition mp_key :: str where "mp_key = ''model-protection''"

record topic_identity =
  t_name :: str
  t_ids :: "str list"

definition json_str :: "json \<Rightarrow> str \<Rightarrow> str option" where
  "json_str v key = Option.bind (jget v key) as_str"

definition owns :: "topic_identity \<Rightarrow> json \<Rightarrow> bool" where
  "owns topic ref =
     (json_str ref ''topic_name'' = Some (t_name topic)
      \<or> (case json_str ref ''topic_id'' of Some i \<Rightarrow> i \<in> set (t_ids topic) | None \<Rightarrow> False))"

definition is_guardrail :: "json \<Rightarrow> bool" where
  "is_guardrail item = (json_str item ''name'' = Some guardrail)"

fun first_index :: "('a \<Rightarrow> bool) \<Rightarrow> 'a list \<Rightarrow> nat option" where
  "first_index P [] = None"
| "first_index P (x # xs) = (if P x then Some 0 else map_option Suc (first_index P xs))"

definition guardrail_index :: "json list \<Rightarrow> nat option" where
  "guardrail_index items = first_index is_guardrail items"

text \<open>The references of a group; \<open>None\<close> when its \<open>topic\<close> is no array.\<close>

definition group_refs :: "json \<Rightarrow> json list option" where
  "group_refs grp = Option.bind (jget grp ''topic'') as_array"

definition group_action :: "json \<Rightarrow> str option" where
  "group_action grp = json_str grp ''action''"

definition set_refs :: "json \<Rightarrow> json list \<Rightarrow> json" where
  "set_refs grp refs = (case grp of
      JObject o' \<Rightarrow> JObject (jinsert o' ''topic'' (JArray refs)) | _ \<Rightarrow> grp)"

fun refs_at :: "topic_identity \<Rightarrow> nat \<Rightarrow> json list \<Rightarrow> nat list" where
  "refs_at topic i [] = []"
| "refs_at topic i (r # rs) = (if owns topic r then i # refs_at topic (Suc i) rs else refs_at topic (Suc i) rs)"

fun ref_positions_from :: "topic_identity \<Rightarrow> nat \<Rightarrow> json list \<Rightarrow> (nat \<times> nat) list" where
  "ref_positions_from topic g [] = []"
| "ref_positions_from topic g (grp # groups) =
     map (Pair g) (case group_refs grp of Some refs \<Rightarrow> refs_at topic 0 refs | None \<Rightarrow> [])
     @ ref_positions_from topic (Suc g) groups"

definition ref_positions :: "json list \<Rightarrow> topic_identity \<Rightarrow> (nat \<times> nat) list" where
  "ref_positions groups topic = ref_positions_from topic 0 groups"

text \<open>One group after the removal, \<open>None\<close> when the removal leaves it empty.\<close>

definition remove_from_group :: "topic_identity \<Rightarrow> json \<Rightarrow> json option" where
  "remove_from_group topic grp = (case group_refs grp of
      None \<Rightarrow> Some grp
    | Some refs \<Rightarrow>
        let left = filter (\<lambda>r. \<not> owns topic r) refs in
        if length left = length refs \<or> left \<noteq> [] then Some (set_refs grp left) else None)"

definition remove_refs :: "json list \<Rightarrow> topic_identity \<Rightarrow> json list" where
  "remove_refs groups topic = List.map_filter (remove_from_group topic) groups"

definition holds :: "jobject \<Rightarrow> topic_identity \<Rightarrow> bool" where
  "holds configuration topic =
     list_ex (\<lambda>item. is_guardrail item
         \<and> (case Option.bind (jget item ''topic-list'') as_array of
              Some groups \<Rightarrow> ref_positions groups topic \<noteq> [] | None \<Rightarrow> False))
       (array_or_empty configuration mp_key)"

definition with_guarded_block :: "jobject \<Rightarrow> selector \<Rightarrow> (jobject \<Rightarrow> jobject outcome) \<Rightarrow> jobject outcome" where
  "with_guarded_block policy sel f =
     bind_r (select_ai_profile policy sel) (\<lambda>(policy, index).
       with_entry policy index (\<lambda>e. with_protections e (sel_direction sel) False (\<lambda>block.
         if 1 < length (filter is_guardrail (array_or_empty block mp_key))
         then refuse ''Ambiguous topic-guardrails identity in selected protection section''
         else f block)))"

section \<open>Apply\<close>

definition new_guardrail :: "str \<Rightarrow> json" where
  "new_guardrail guard_action = JObject (object_of
     [(''name'', JString guardrail), (''action'', JString guard_action), (''options'', JArray []),
      (''topic-list'', JArray [])])"

definition new_group :: "str \<Rightarrow> json \<Rightarrow> json" where
  "new_group intent ref = JObject (object_of [(''action'', JString intent), (''topic'', JArray [ref])])"

text \<open>The first group of the intent that can take a reference.\<close>

definition takes_ref :: "str \<Rightarrow> json \<Rightarrow> bool" where
  "takes_ref intent grp =
     (group_action grp = Some intent \<and> (jget grp ''topic'' = None \<or> group_refs grp \<noteq> None))"

definition push_ref :: "json \<Rightarrow> json \<Rightarrow> json" where
  "push_ref grp ref = (case group_refs grp of
      Some refs \<Rightarrow> set_refs grp (refs @ [ref]) | None \<Rightarrow> set_refs grp [ref])"

definition add_ref :: "json list \<Rightarrow> json \<Rightarrow> str \<Rightarrow> json list" where
  "add_ref groups ref intent = (case first_index (takes_ref intent) groups of
      Some g \<Rightarrow> groups[g := push_ref (groups ! g) ref]
    | None \<Rightarrow> groups @ [new_group intent ref])"

definition place_ref :: "json list \<Rightarrow> topic_identity \<Rightarrow> json \<Rightarrow> str \<Rightarrow> json list" where
  "place_ref groups topic ref intent = (case ref_positions groups topic of
      [(g, i)] \<Rightarrow>
        if group_action (groups ! g) = Some intent
        then (case group_refs (groups ! g) of
                Some refs \<Rightarrow> groups[g := set_refs (groups ! g) (refs[i := ref])]
              | None \<Rightarrow> groups)
        else add_ref (remove_refs groups topic) ref intent
    | _ \<Rightarrow> add_ref (remove_refs groups topic) ref intent)"

definition apply_block :: "topic_identity \<Rightarrow> json \<Rightarrow> str \<Rightarrow> jobject \<Rightarrow> jobject outcome" where
  "apply_block topic ref intent block =
     (let guard_action = (if intent = ''block'' then ''allow'' else ''block'');
          items = array_or_empty block mp_key;
          (items, index) = (case guardrail_index items of
              Some i \<Rightarrow> (items, i)
            | None \<Rightarrow> (items @ [new_guardrail guard_action], length items))
      in case items ! index of
           JObject item \<Rightarrow>
             let groups = place_ref (array_or_empty item ''topic-list'') topic ref intent;
                 item = jinsert (jinsert item ''topic-list'' (JArray groups)) ''action'' (JString guard_action)
             in Ok (jinsert block mp_key (JArray (items[index := JObject item])))
         | _ \<Rightarrow> Err Panic)"

definition apply_topic :: "json option \<Rightarrow> selector \<Rightarrow> topic_identity \<Rightarrow> json \<Rightarrow> str \<Rightarrow> json outcome" where
  "apply_topic policy sel topic ref intent =
     bind_r (with_guarded_block (policy_object policy) sel (apply_block topic ref intent))
       (\<lambda>p. Ok (JObject p))"

section \<open>Revert\<close>

definition revert_block :: "topic_identity \<Rightarrow> jobject \<Rightarrow> jobject outcome" where
  "revert_block topic block =
     (case jlookup block mp_key of
        Some (JArray items) \<Rightarrow>
          (case guardrail_index items of
             None \<Rightarrow> Err Panic
           | Some index \<Rightarrow>
               (case items ! index of
                  JObject item \<Rightarrow>
                    (case jlookup item ''topic-list'' of
                       Some (JArray groups) \<Rightarrow>
                         let groups = remove_refs groups topic;
                             remaining = filter (\<lambda>g. case group_refs g of Some refs \<Rightarrow> refs \<noteq> [] | None \<Rightarrow> False) groups;
                             item = jinsert item ''topic-list'' (JArray groups)
                         in if remaining = []
                            then Ok (jinsert block mp_key (JArray (take index items @ drop (Suc index) items)))
                            else let action = (if list_ex (\<lambda>g. group_action g = Some ''block'') remaining
                                               then ''allow'' else ''block'')
                              in Ok (jinsert block mp_key (JArray (items[index :=
                                   JObject (jinsert item ''action'' (JString action))])))
                     | _ \<Rightarrow> Err Panic)
                | _ \<Rightarrow> Err Panic))
      | _ \<Rightarrow> Err Panic)"

definition selected_place :: "jobject \<Rightarrow> selector \<Rightarrow> place option outcome" where
  "selected_place policy sel =
     (if selector_given sel then
        bind_r (select_ai_profile policy sel) (\<lambda>(probe, index).
        bind_r (with_entry probe index (\<lambda>e. with_protections e (sel_direction sel) False Ok)) (\<lambda>_.
        Ok (Some \<lparr>pl_index = index, pl_direction = sel_direction sel\<rparr>)))
      else Ok None)"

definition in_scope :: "place option \<Rightarrow> location \<Rightarrow> bool" where
  "in_scope selected l = (case selected of Some pl \<Rightarrow> loc_place l = pl | None \<Rightarrow> loc_active l)"

definition revert_topic :: "json option \<Rightarrow> selector \<Rightarrow> topic_identity \<Rightarrow> json outcome" where
  "revert_topic policy sel topic =
     (let p = policy_object policy in
      bind_r (selected_place p sel) (\<lambda>selected.
      let found = locations (Some (JObject p)) in
      if \<not> list_ex (\<lambda>l. in_scope selected l \<and> holds (loc_configuration l) topic) found
      then refuse (''Topic \"'' @ t_name topic @ ''\" is not assigned to the selected protection section'')
      else if (case selected of
                 Some pl \<Rightarrow> list_ex (\<lambda>l. loc_place l \<noteq> pl \<and> holds (loc_configuration l) topic) found
               | None \<Rightarrow> False)
      then refuse ''Topic is referenced in another direction or AI entry; detach those references before reverting and deleting''
      else bind_r (with_guarded_block p sel (revert_block topic)) (\<lambda>p'. Ok (JObject p'))))"

end
