(* ===== verification/PolicyCorrect.thy ===== *)
theory PolicyCorrect
  imports TopicPolicy
begin

text \<open>
  Edits of a security policy change the selected block and nothing else: the frame of every edit,
  what an applied topic and a reverted topic leave, what a merge keeps, and that no \<open>expect\<close> of
  these edits ever fails.
\<close>

lemmas jlookup_jinsert [simp] = jobj.lookup_update

section \<open>Frames\<close>

definition entry_block :: "jobject \<Rightarrow> str option \<Rightarrow> jobject option" where
  "entry_block e d = (case d of
      None \<Rightarrow> Option.bind (jlookup e model_configuration_key) as_object
    | Some d \<Rightarrow> Option.bind (jlookup e content_type_configurations)
                 (\<lambda>ds. Option.bind (jget ds d) as_object))"

definition entry_at :: "jobject \<Rightarrow> nat \<Rightarrow> jobject option" where
  "entry_at policy i = (case jlookup policy ai_profiles of
      Some (JArray es) \<Rightarrow> if i < length es then as_object (es ! i) else None | _ \<Rightarrow> None)"

lemma configuration_at_entry:
  "configuration_at (JObject p) pl = Option.bind (entry_at p (pl_index pl)) (\<lambda>e. entry_block e (pl_direction pl))"
proof -
  have *: "jget v k = Option.bind (as_object v) (\<lambda>e. jlookup e k)" for v k
    by (simp add: jget_def split: option.split)
  show ?thesis
    by (cases "jlookup p ai_profiles"; cases "pl_direction pl")
      (auto simp: configuration_at_def entry_at_def entry_block_def * jget_def split: json.split)
qed

lemma as_object_Some [simp]: "as_object v = Some m \<longleftrightarrow> v = JObject m"
  by (cases v) auto

lemma object_or_empty_bind:
  "Option.bind (jlookup m k) as_object = Some v \<Longrightarrow> object_or_empty m k = v"
  by (auto simp: object_or_empty_def bind_eq_Some_conv)

lemma entry_keys [simp]:
  "model_configuration_key \<noteq> content_type_configurations" "content_type_configurations \<noteq> model_configuration_key"
  by (simp_all add: model_configuration_key_def content_type_configurations_def)

text \<open>The block an edit starts from: the empty one when there is none yet.\<close>

definition start_block :: "jobject \<Rightarrow> str option \<Rightarrow> jobject" where
  "start_block e d = (case d of
      None \<Rightarrow> object_or_empty e model_configuration_key
    | Some d \<Rightarrow> object_or_empty (object_or_empty e content_type_configurations) d)"

lemma start_block_eq: "start_block e d = (case entry_block e d of Some b \<Rightarrow> b | None \<Rightarrow> [])"
proof (cases d)
  case None
  then show ?thesis
    by (auto simp: start_block_def entry_block_def object_or_empty_def
        split: option.split json.split)
next
  case (Some d')
  show ?thesis
    unfolding Some start_block_def entry_block_def object_or_empty_def
    by (cases "jlookup e content_type_configurations")
      (auto simp: jget_def split: json.split option.split)
qed

lemma with_object_Ok:
  "with_object m k f = Ok m' \<longleftrightarrow> (\<exists>v. f (object_or_empty m k) = Ok v \<and> m' = jinsert m k (JObject v))"
  by (auto simp: with_object_def bind_r_Ok_iff)

lemma with_protections_Ok:
  assumes "with_protections e d allow f = Ok e'"
  shows "\<exists>b. f (start_block e d) = Ok b \<and> is_directional e = (d \<noteq> None)
    \<and> (d = None \<or> allow \<or> entry_block e d \<noteq> None)
    \<and> (\<forall>d'. entry_block e' d' = (if d' = d then Some b else entry_block e d'))
    \<and> (\<forall>k. k \<noteq> (if d = None then model_configuration_key else content_type_configurations)
           \<longrightarrow> jlookup e' k = jlookup e k)"
proof (cases d)
  case None
  with assms obtain b where "\<not> is_directional e" "f (object_or_empty e model_configuration_key) = Ok b"
      "e' = jinsert e model_configuration_key (JObject b)"
    by (auto simp: with_protections_def with_object_Ok refuse_def split: if_splits)
  with None show ?thesis
    by (auto simp: start_block_def entry_block_def split: option.split)
next
  case (Some d')
  with assms obtain b where dir: "is_directional e" and b: "f (start_block e d) = Ok b"
      and e': "e' = jinsert e content_type_configurations (JObject
        (jinsert (object_or_empty e content_type_configurations) d' (JObject b)))"
      and present: "allow \<or> (case jlookup e content_type_configurations of
          Some ds \<Rightarrow> (case jget ds d' of Some v \<Rightarrow> as_object v \<noteq> None | None \<Rightarrow> False) | None \<Rightarrow> False)"
    by (auto simp: with_protections_def with_object_Ok refuse_def start_block_def split: if_splits)
  have "entry_block e' x = (if x = d then Some b else entry_block e x)" for x
    by (cases x; cases "jlookup e content_type_configurations")
      (auto simp: e' Some entry_block_def object_or_empty_def jget_def split: json.split option.split)
  moreover have "allow \<or> entry_block e d \<noteq> None"
    using present by (auto simp: Some entry_block_def bind_eq_None_conv split: option.splits)
  ultimately show ?thesis
    using Some dir b e' by auto
qed

lemma with_entry_Ok:
  assumes "with_entry p i f = Ok p'"
  shows "\<exists>e e'. entry_at p i = Some e \<and> f e = Ok e'
    \<and> (\<forall>j. entry_at p' j = (if j = i then Some e' else entry_at p j))
    \<and> (\<forall>k. k \<noteq> ai_profiles \<longrightarrow> jlookup p' k = jlookup p k)"
proof -
  obtain es e e' where es: "jlookup p ai_profiles = Some (JArray es)" "i < length es" "es ! i = JObject e"
      "f e = Ok e'" "p' = jinsert p ai_profiles (JArray (es[i := JObject e']))"
    using assms by (auto simp: with_entry_def bind_r_Ok_iff split: option.splits json.splits if_splits)
  then have "entry_at p' j = (if j = i then Some e' else entry_at p j)" for j
    by (simp add: entry_at_def nth_list_update)
  with es show ?thesis by (auto simp: entry_at_def)
qed

text \<open>Selection adds at most the list of entries and a first entry without blocks.\<close>

lemma select_ai_profile_Ok:
  assumes "select_ai_profile p sel = Ok (p', i)"
  shows "i = (case sel_index sel of Some n \<Rightarrow> n | None \<Rightarrow> 0) \<and> entry_at p' i \<noteq> None
    \<and> (\<forall>pl. configuration_at (JObject p') pl = configuration_at (JObject p) pl)
    \<and> (\<forall>k. k \<noteq> ai_profiles \<longrightarrow> jlookup p' k = jlookup p k)
    \<and> (\<forall>j. entry_at p' j = entry_at p j \<or> (entry_at p j = None \<and> j = 0
           \<and> entry_at p' j = Some [(''model-type'', JString ''default'')]))
    \<and> (sel_index sel = None \<longrightarrow> (\<forall>j. entry_at p j \<noteq> None \<longrightarrow> j = 0))"
proof -
  obtain es where es: "(case jlookup p ai_profiles of None \<Rightarrow> JArray [] | Some JNull \<Rightarrow> JArray [] | Some v \<Rightarrow> v)
      = JArray es"
    using assms by (auto simp: select_ai_profile_def refuse_def Let_def split: json.splits)
  have old: "entry_at p j = (if j < length es then as_object (es ! j) else None)" for j
    using es by (auto simp: entry_at_def split: option.splits json.splits)
  have plain: "entry_block [(''model-type'', JString ''default'')] d = None" for d
    by (simp add: entry_block_def model_configuration_key_def content_type_configurations_def split: option.split)
  show ?thesis
  proof (cases "es = [] \<and> sel_index sel = None")
    case True
    with assms es have p': "p' = jinsert p ai_profiles (JArray [JObject [(''model-type'', JString ''default'')]])" "i = 0"
      by (simp_all add: select_ai_profile_def)
    have new: "entry_at p' j = (if j = 0 then Some [(''model-type'', JString ''default'')] else None)" for j
      by (simp add: p' entry_at_def)
    show ?thesis
      using True by (auto simp: configuration_at_entry new [unfolded p'(1)] old plain p' split: if_splits)
  next
    case False
    with assms es have p': "p' = jinsert p ai_profiles (JArray es)"
        "i = (case sel_index sel of Some n \<Rightarrow> n | None \<Rightarrow> 0)" "i < length es" "as_object (es ! i) \<noteq> None"
        "sel_index sel = None \<longrightarrow> length es \<le> 1"
      by (auto simp: select_ai_profile_def Let_def refuse_def not_less split: if_splits)
    have new: "entry_at p' j = entry_at p j" for j
      unfolding old by (simp add: p' entry_at_def)
    show ?thesis
      using p' new by (auto simp: configuration_at_entry old split: if_splits)
  qed
qed

lemma with_guarded_block_Ok:
  assumes "with_guarded_block p sel f = Ok p'"
  shows "\<exists>i b b'. i = (case sel_index sel of Some n \<Rightarrow> n | None \<Rightarrow> 0)
    \<and> length (filter is_guardrail (array_or_empty b mp_key)) \<le> 1 \<and> f b = Ok b'
    \<and> b = (case configuration_at (JObject p) \<lparr>pl_index = i, pl_direction = sel_direction sel\<rparr> of
             Some c \<Rightarrow> c | None \<Rightarrow> [])
    \<and> (\<forall>pl. configuration_at (JObject p') pl =
          (if pl = \<lparr>pl_index = i, pl_direction = sel_direction sel\<rparr> then Some b'
           else configuration_at (JObject p) pl))
    \<and> (\<forall>k. k \<noteq> ai_profiles \<longrightarrow> jlookup p' k = jlookup p k)"
proof -
  let ?g = "\<lambda>block. if 1 < length (filter is_guardrail (array_or_empty block mp_key))
         then refuse ''Ambiguous topic-guardrails identity in selected protection section'' else f block"
  obtain q i where s: "select_ai_profile p sel = Ok (q, i)"
    and w: "with_entry q i (\<lambda>e. with_protections e (sel_direction sel) False ?g) = Ok p'"
    using assms by (auto simp: with_guarded_block_def bind_r_Ok_iff)
  note S = select_ai_profile_Ok [OF s]
  obtain e e' where e: "entry_at q i = Some e" "with_protections e (sel_direction sel) False ?g = Ok e'"
      "\<forall>j. entry_at p' j = (if j = i then Some e' else entry_at q j)"
      "\<forall>k. k \<noteq> ai_profiles \<longrightarrow> jlookup p' k = jlookup q k"
    using with_entry_Ok [OF w] by blast
  obtain b' where b: "?g (start_block e (sel_direction sel)) = Ok b'"
      "\<forall>d'. entry_block e' d' = (if d' = sel_direction sel then Some b' else entry_block e d')"
    using with_protections_Ok [OF e(2)] by blast
  let ?pl = "\<lparr>pl_index = i, pl_direction = sel_direction sel\<rparr>"
  have start: "start_block e (sel_direction sel) = (case configuration_at (JObject p) ?pl of Some c \<Rightarrow> c | None \<Rightarrow> [])"
    using S e(1) by (simp add: start_block_eq) (metis (no_types, lifting) Option.bind.bind_lunit configuration_at_entry place.select_convs(1) place.select_convs(2))
  have "configuration_at (JObject p') pl = (if pl = ?pl then Some b' else configuration_at (JObject p) pl)" for pl
  proof -
    have "configuration_at (JObject p') pl = (if pl = ?pl then Some b' else configuration_at (JObject q) pl)"
      by (cases pl) (auto simp: configuration_at_entry e(1,3) b(2))
    then show ?thesis using S by simp
  qed
  moreover have "length (filter is_guardrail (array_or_empty (start_block e (sel_direction sel)) mp_key)) \<le> 1"
      "f (start_block e (sel_direction sel)) = Ok b'"
    using b(1) by (auto simp: refuse_def split: if_splits)
  ultimately show ?thesis
    using S e(4) start by (intro exI [of _ i] exI [of _ "start_block e (sel_direction sel)"] exI [of _ b']) auto
qed

section \<open>References of a block\<close>

text \<open>The references under a block's guardrails, each with the action of its group.\<close>

definition placed :: "json list \<Rightarrow> (str option \<times> json) list" where
  "placed groups = concat (map (\<lambda>g. map (Pair (group_action g))
     (case group_refs g of Some refs \<Rightarrow> refs | None \<Rightarrow> [])) groups)"

definition guard_groups :: "json \<Rightarrow> json list" where
  "guard_groups item = (case Option.bind (jget item ''topic-list'') as_array of Some gs \<Rightarrow> gs | None \<Rightarrow> [])"

definition block_refs :: "jobject \<Rightarrow> (str option \<times> json) list" where
  "block_refs b = concat (map (\<lambda>item. placed (guard_groups item))
     (filter is_guardrail (array_or_empty b mp_key)))"

definition others :: "topic_identity \<Rightarrow> (str option \<times> json) list \<Rightarrow> (str option \<times> json) list" where
  "others topic rs = filter (\<lambda>(a, r). \<not> owns topic r) rs"

definition owned :: "topic_identity \<Rightarrow> (str option \<times> json) list \<Rightarrow> (str option \<times> json) list" where
  "owned topic rs = filter (\<lambda>(a, r). owns topic r) rs"

lemma placed_simps [simp]:
  "placed [] = []" "placed (gs @ hs) = placed gs @ placed hs"
  "placed (g # gs) = map (Pair (group_action g)) (case group_refs g of Some refs \<Rightarrow> refs | None \<Rightarrow> []) @ placed gs"
  by (simp_all add: placed_def)

lemma owned_simps [simp]:
  "owned t [] = []" "owned t (x # xs) = (if owns t (snd x) then x # owned t xs else owned t xs)"
  "owned t (xs @ ys) = owned t xs @ owned t ys"
  "owned t (map (Pair a) rs) = map (Pair a) (filter (owns t) rs)"
  by (simp_all add: owned_def filter_map o_def case_prod_beta)

lemma others_simps [simp]:
  "others t [] = []" "others t (x # xs) = (if owns t (snd x) then others t xs else x # others t xs)"
  "others t (xs @ ys) = others t xs @ others t ys"
  "others t (map (Pair a) rs) = map (Pair a) (filter (\<lambda>r. \<not> owns t r) rs)"
  by (simp_all add: others_def filter_map o_def case_prod_beta)

lemma refs_at_empty: "refs_at t i rs = [] \<longleftrightarrow> filter (owns t) rs = []"
  by (induction rs arbitrary: i) auto

lemma length_refs_at: "length (refs_at t i rs) = length (filter (owns t) rs)"
  by (induction rs arbitrary: i) auto

lemma length_ref_positions_from: "length (ref_positions_from t g gs) = length (owned t (placed gs))"
  by (induction gs arbitrary: g) (auto simp: length_refs_at split: option.split)

lemma ref_positions_empty: "ref_positions gs t = [] \<longleftrightarrow> owned t (placed gs) = []"
  using length_ref_positions_from [of t 0 gs] by (auto simp: ref_positions_def simp flip: length_0_conv)

lemma holds_iff: "holds b t \<longleftrightarrow> owned t (block_refs b) \<noteq> []"
proof -
  have "owned t (concat (map f xs)) = [] \<longleftrightarrow> list_all (\<lambda>x. owned t (f x) = []) xs" for f and xs :: "json list"
    by (induction xs) auto
  then show ?thesis
    unfolding holds_def block_refs_def
    by (auto simp: list_all_iff list_ex_iff guard_groups_def ref_positions_empty split: option.splits)
qed

definition refs_of :: "json \<Rightarrow> json list" where
  "refs_of g = (case group_refs g of Some refs \<Rightarrow> refs | None \<Rightarrow> [])"

lemma placed_Cons: "placed (g # gs) = map (Pair (group_action g)) (refs_of g) @ placed gs"
  by (simp add: refs_of_def)

lemma json_str_object: "json_str g k = Some s \<Longrightarrow> \<exists>m. g = JObject m"
  by (cases g) (auto simp: json_str_def jget_def)

lemma group_refs_object: "group_refs g = Some refs \<Longrightarrow> \<exists>m. g = JObject m"
  by (cases g) (auto simp: group_refs_def jget_def)

lemma set_refs_object [simp]:
  "group_refs (set_refs (JObject m) rs) = Some rs" "refs_of (set_refs (JObject m) rs) = rs"
  "group_action (set_refs (JObject m) rs) = group_action (JObject m)"
  by (simp_all add: group_refs_def refs_of_def set_refs_def jget_def group_action_def json_str_def)

lemma remove_from_group_refs:
  "owned t (placed (case remove_from_group t g of None \<Rightarrow> [] | Some g' \<Rightarrow> [g'])) = []
   \<and> others t (placed (case remove_from_group t g of None \<Rightarrow> [] | Some g' \<Rightarrow> [g'])) = others t (placed [g])"
proof (cases "group_refs g")
  case None
  then show ?thesis by (simp add: remove_from_group_def)
next
  case (Some refs)
  then obtain m where "g = JObject m" using group_refs_object by blast
  with Some show ?thesis
    by (auto simp: remove_from_group_def Let_def placed_Cons simp del: placed_simps(3))
      (auto simp: refs_of_def)
qed

lemma remove_refs_Cons:
  "remove_refs (g # gs) t = (case remove_from_group t g of None \<Rightarrow> [] | Some g' \<Rightarrow> [g']) @ remove_refs gs t"
  by (simp add: remove_refs_def List.map_filter_def split: option.split)

lemma remove_refs_placed:
  "owned t (placed (remove_refs gs t)) = [] \<and> others t (placed (remove_refs gs t)) = others t (placed gs)"
proof (induction gs)
  case Nil
  then show ?case by (simp add: remove_refs_def List.map_filter_def)
next
  case (Cons g gs)
  have "placed (g # gs) = placed [g] @ placed gs" by simp
  with Cons remove_from_group_refs [of t g] show ?case
    unfolding remove_refs_Cons placed_simps(2) owned_simps others_simps by simp
qed

lemma position_Some:
  "first_index P xs = Some i \<Longrightarrow> i < length xs \<and> P (xs ! i) \<and> filter P (take i xs) = []"
  by (induction xs arbitrary: i) (auto split: if_splits)

lemma position_None: "first_index P xs = None \<longleftrightarrow> filter P xs = []"
  by (induction xs) auto

lemma push_ref_refs:
  assumes "takes_ref intent g"
  shows "group_action (push_ref g ref) = Some intent \<and> refs_of (push_ref g ref) = refs_of g @ [ref]"
proof -
  obtain m where "g = JObject m"
    using assms json_str_object [of g "''action''" intent] by (auto simp: takes_ref_def group_action_def)
  with assms show ?thesis
    by (cases "group_refs g") (auto simp: push_ref_def takes_ref_def refs_of_def)
qed

lemma new_group_placed: "placed [new_group intent ref] = [(Some intent, ref)]"
  by (simp add: new_group_def object_of_def placed_Cons refs_of_def group_refs_def group_action_def
      json_str_def jget_def del: placed_simps(3))

lemma add_ref_placed:
  assumes "owns t ref" and "owned t (placed gs) = []"
  shows "owned t (placed (add_ref gs ref intent)) = [(Some intent, ref)]
    \<and> others t (placed (add_ref gs ref intent)) = others t (placed gs)"
proof (cases "first_index (takes_ref intent) gs")
  case None
  then have "placed (add_ref gs ref intent) = placed gs @ [(Some intent, ref)]"
    by (simp add: add_ref_def new_group_placed del: placed_simps(3))
  then show ?thesis using assms by simp
next
  case (Some g)
  note P = position_Some [OF Some]
  have gs: "gs = take g gs @ gs ! g # drop (Suc g) gs" using P by (simp add: id_take_nth_drop)
  have new: "add_ref gs ref intent = take g gs @ push_ref (gs ! g) ref # drop (Suc g) gs"
    using P Some by (simp add: add_ref_def upd_conv_take_nth_drop)
  have act: "group_action (gs ! g) = Some intent" using P by (simp add: takes_ref_def)
  have old: "placed gs = placed (take g gs) @ map (Pair (Some intent)) (refs_of (gs ! g)) @ placed (drop (Suc g) gs)"
    by (subst gs) (simp add: placed_Cons act del: placed_simps(3))
  have "placed (add_ref gs ref intent) = placed (take g gs)
      @ map (Pair (Some intent)) (refs_of (gs ! g) @ [ref]) @ placed (drop (Suc g) gs)"
    using P push_ref_refs [of intent "gs ! g" ref] by (simp add: new placed_Cons del: placed_simps(3))
  with assms old show ?thesis by simp
qed

lemma refs_at_mem: "i \<in> set (refs_at t k rs) \<longleftrightarrow> k \<le> i \<and> i - k < length rs \<and> owns t (rs ! (i - k))"
proof (induction rs arbitrary: k)
  case (Cons r rs)
  show ?case
    using Cons.IH [of "Suc k"] by (cases "i = k") (auto simp: nth_Cons' Suc_diff_Suc)
qed simp

lemma ref_positions_from_mem:
  "(g, i) \<in> set (ref_positions_from t k gs) \<longleftrightarrow>
     k \<le> g \<and> g - k < length gs \<and> i < length (refs_of (gs ! (g - k))) \<and> owns t (refs_of (gs ! (g - k)) ! i)"
proof (induction gs arbitrary: k)
  case (Cons h gs)
  show ?case
    using Cons.IH [of "Suc k"]
    by (cases "g = k") (auto simp: refs_at_mem refs_of_def nth_Cons' Suc_diff_Suc split: option.splits)
qed simp

lemma replace_ref_placed:
  assumes "ref_positions gs t = [(g, i)]" and "owns t ref"
  shows "\<exists>refs. group_refs (gs ! g) = Some refs
    \<and> owned t (placed (gs[g := set_refs (gs ! g) (refs[i := ref])])) = [(group_action (gs ! g), ref)]
    \<and> others t (placed (gs[g := set_refs (gs ! g) (refs[i := ref])])) = others t (placed gs)"
proof -
  have mem: "g < length gs" "i < length (refs_of (gs ! g))" "owns t (refs_of (gs ! g) ! i)"
    using ref_positions_from_mem [of g i t 0 gs] assms(1) by (simp_all add: ref_positions_def)
  then obtain refs where refs: "group_refs (gs ! g) = Some refs" "refs_of (gs ! g) = refs"
    by (auto simp: refs_of_def split: option.splits)
  obtain m where m: "gs ! g = JObject m" using group_refs_object [OF refs(1)] by blast
  let ?A = "take g gs" and ?B = "drop (Suc g) gs" and ?act = "group_action (gs ! g)"
  let ?new = "set_refs (gs ! g) (refs[i := ref])"
  have gs: "gs = ?A @ gs ! g # ?B" using mem(1) by (simp add: id_take_nth_drop)
  have rs: "refs = take i refs @ refs ! i # drop (Suc i) refs" using mem(2) refs(2) by (simp add: id_take_nth_drop)
  have rs': "refs[i := ref] = take i refs @ ref # drop (Suc i) refs"
    using mem(2) refs(2) by (simp add: upd_conv_take_nth_drop)
  have old: "placed gs = placed ?A @ map (Pair ?act) (take i refs @ refs ! i # drop (Suc i) refs) @ placed ?B"
    by (subst gs) (simp add: placed_Cons refs(2) rs [symmetric] del: placed_simps(3))
  have "placed (gs[g := ?new]) = placed (?A @ ?new # ?B)"
    using mem(1) by (simp add: upd_conv_take_nth_drop)
  then have new: "placed (gs[g := ?new]) = placed ?A @ map (Pair ?act) (take i refs @ ref # drop (Suc i) refs) @ placed ?B"
    by (simp add: placed_Cons m rs' del: placed_simps(3))
  have own: "owns t (refs ! i)" using mem(3) refs(2) by simp
  have "length (owned t (placed gs)) = 1"
    using length_ref_positions_from [of t 0 gs] assms(1) by (simp add: ref_positions_def)
  then have "owned t (placed ?A) = []" "filter (owns t) (take i refs) = []"
      "filter (owns t) (drop (Suc i) refs) = []" "owned t (placed ?B) = []"
    unfolding old owned_simps using own by (auto simp: length_0_conv [symmetric] simp del: length_0_conv)
  with new old own assms(2) refs(1) show ?thesis by simp
qed

lemma place_ref_placed:
  assumes "owns t ref"
  shows "owned t (placed (place_ref gs t ref intent)) = [(Some intent, ref)]
    \<and> others t (placed (place_ref gs t ref intent)) = others t (placed gs)"
proof -
  have add: "owned t (placed (add_ref (remove_refs gs t) ref intent)) = [(Some intent, ref)]
    \<and> others t (placed (add_ref (remove_refs gs t) ref intent)) = others t (placed gs)"
    using add_ref_placed [OF assms, of "remove_refs gs t" intent] remove_refs_placed [of t gs] by simp
  show ?thesis
  proof (cases "\<exists>g i. ref_positions gs t = [(g, i)] \<and> group_action (gs ! g) = Some intent")
    case True
    then obtain g i where "ref_positions gs t = [(g, i)]" "group_action (gs ! g) = Some intent" by blast
    with replace_ref_placed [OF this(1) assms] show ?thesis by (auto simp: place_ref_def)
  next
    case False
    then have "place_ref gs t ref intent = add_ref (remove_refs gs t) ref intent"
      by (auto simp: place_ref_def split: list.splits)
    with add show ?thesis by simp
  qed
qed

section \<open>The guardrail of a block\<close>

definition few_guardrails :: "jobject \<Rightarrow> bool" where
  "few_guardrails b \<longleftrightarrow> length (filter is_guardrail (array_or_empty b mp_key)) \<le> 1"

lemma is_guardrail_object: "is_guardrail v \<Longrightarrow> \<exists>m. v = JObject m"
  using json_str_object by (auto simp: is_guardrail_def)

lemma block_refs_insert [simp]:
  "block_refs (jinsert b mp_key (JArray items)) = concat (map (\<lambda>item. placed (guard_groups item)) (filter is_guardrail items))"
  "array_or_empty (jinsert b mp_key (JArray items)) mp_key = items"
  by (simp_all add: block_refs_def array_or_empty_def)

lemma guard_groups_object: "guard_groups (JObject m) = array_or_empty m ''topic-list''"
  by (simp add: guard_groups_def array_or_empty_def jget_def split: option.split json.split)

lemma guardrail_split:
  assumes "guardrail_index items = Some i" and "length (filter is_guardrail items) \<le> 1"
  shows "i < length items \<and> is_guardrail (items ! i)
    \<and> filter is_guardrail (take i items) = [] \<and> filter is_guardrail (drop (Suc i) items) = []
    \<and> filter is_guardrail items = [items ! i]"
proof -
  have P: "i < length items" "is_guardrail (items ! i)" "filter is_guardrail (take i items) = []"
    using position_Some [of is_guardrail items i] assms(1) by (simp_all add: guardrail_index_def)
  have eq: "items = take i items @ items ! i # drop (Suc i) items" using P(1) by (simp add: id_take_nth_drop)
  have f: "filter is_guardrail items = items ! i # filter is_guardrail (drop (Suc i) items)"
    by (subst eq) (simp add: P)
  with assms(2) have "filter is_guardrail (drop (Suc i) items) = []" by simp
  with P f show ?thesis by simp
qed

lemma apply_block_refs:
  assumes "apply_block t ref intent b = Ok b'" and "owns t ref" and "few_guardrails b"
  shows "owned t (block_refs b') = [(Some intent, ref)] \<and> others t (block_refs b') = others t (block_refs b)"
proof -
  let ?act = "if intent = ''block'' then ''allow'' else ''block''"
  let ?items = "array_or_empty b mp_key"
  have upd: "is_guardrail (JObject (jinsert (jinsert m ''topic-list'' (JArray gs)) ''action'' v))"
    if "is_guardrail (JObject m)" for m gs v
    using that by (simp add: is_guardrail_def json_str_def jget_def)
  have groups: "guard_groups (JObject (jinsert (jinsert m ''topic-list'' (JArray gs)) ''action'' v)) = gs" for m gs v
    by (simp add: guard_groups_object array_or_empty_def)
  show ?thesis
  proof (cases "guardrail_index ?items")
    case None
    then have none: "filter is_guardrail ?items = []" by (simp add: guardrail_index_def position_None)
    obtain m where m: "new_guardrail ?act = JObject m" "is_guardrail (JObject m)" "array_or_empty m ''topic-list'' = []"
      by (simp add: new_guardrail_def object_of_def is_guardrail_def json_str_def jget_def array_or_empty_def)
    have b': "b' = jinsert b mp_key (JArray (?items @ [JObject (jinsert (jinsert m ''topic-list''
        (JArray (place_ref [] t ref intent))) ''action'' (JString ?act))]))"
      using assms(1) by (simp add: apply_block_def None m Let_def split: if_splits)
    show ?thesis
      using place_ref_placed [OF assms(2), of "[]" intent]
      by (simp add: b' none upd [OF m(2)] groups block_refs_def [of b])
  next
    case (Some i)
    note G = guardrail_split [OF Some assms(3) [unfolded few_guardrails_def]]
    then obtain m where m: "?items ! i = JObject m" using is_guardrail_object by blast
    with G have g: "is_guardrail (JObject m)" by simp
    let ?gs = "array_or_empty m ''topic-list''"
    have b': "b' = jinsert b mp_key (JArray (?items[i := JObject (jinsert (jinsert m ''topic-list''
        (JArray (place_ref ?gs t ref intent))) ''action'' (JString ?act))]))"
      using assms(1) by (simp add: apply_block_def Some m Let_def split: if_splits)
    have old: "block_refs b = placed ?gs"
      using G by (simp add: block_refs_def m guard_groups_object)
    have new: "block_refs b' = placed (place_ref ?gs t ref intent)"
      using G by (simp add: b' upd_conv_take_nth_drop upd [OF g] groups)
    show ?thesis using place_ref_placed [OF assms(2), of ?gs intent] by (simp add: old new)
  qed
qed

lemma placed_empty_groups:
  "filter (\<lambda>g. case group_refs g of Some refs \<Rightarrow> refs \<noteq> [] | None \<Rightarrow> False) gs = [] \<Longrightarrow> placed gs = []"
  by (auto simp: filter_empty_conv placed_def split: option.splits)

lemma revert_block_refs:
  assumes "revert_block t b = Ok b'" and "few_guardrails b"
  shows "owned t (block_refs b') = [] \<and> others t (block_refs b') = others t (block_refs b)"
proof -
  obtain items i m groups where b: "jlookup b mp_key = Some (JArray items)" "guardrail_index items = Some i"
      "items ! i = JObject m" "jlookup m ''topic-list'' = Some (JArray groups)"
    using assms(1) by (auto simp: revert_block_def split: option.splits json.splits)
  have items: "array_or_empty b mp_key = items" by (simp add: array_or_empty_def b(1))
  note G = guardrail_split [OF b(2) assms(2) [unfolded few_guardrails_def items]]
  then have g: "is_guardrail (JObject m)" by (simp add: b(3))
  let ?gs = "remove_refs groups t"
  have old: "block_refs b = placed groups"
  proof -
    have "guard_groups (JObject m) = groups" by (simp add: guard_groups_object array_or_empty_def b(4))
    with G show ?thesis by (simp add: block_refs_def items b(3))
  qed
  have upd: "is_guardrail (JObject (jinsert (jinsert m ''topic-list'' (JArray gs)) ''action'' v))" for gs v
    using g by (simp add: is_guardrail_def json_str_def jget_def)
  have groups: "guard_groups (JObject (jinsert (jinsert m ''topic-list'' (JArray gs)) ''action'' v)) = gs" for gs v
    by (simp add: guard_groups_object array_or_empty_def)
  show ?thesis
  proof (cases "filter (\<lambda>g. case group_refs g of Some refs \<Rightarrow> refs \<noteq> [] | None \<Rightarrow> False) ?gs = []")
    case True
    then have "b' = jinsert b mp_key (JArray (take i items @ drop (Suc i) items))"
      using assms(1) by (simp add: revert_block_def b Let_def)
    then have "block_refs b' = []" using G by simp
    moreover have "placed ?gs = []" by (rule placed_empty_groups [OF True])
    ultimately show ?thesis using remove_refs_placed [of t groups] by (simp add: old)
  next
    case False
    then obtain v where "b' = jinsert b mp_key (JArray (items[i :=
        JObject (jinsert (jinsert m ''topic-list'' (JArray ?gs)) ''action'' v)]))"
      using assms(1) by (auto simp: revert_block_def b Let_def split: if_splits)
    then have "block_refs b' = placed ?gs"
      using G by (simp add: upd_conv_take_nth_drop upd groups)
    then show ?thesis using remove_refs_placed [of t groups] by (simp add: old)
  qed
qed

section \<open>Locations and places\<close>

lemma jlookup_mem: "jlookup m k = Some v \<Longrightarrow> (k, v) \<in> set m"
  by (induction m k rule: jlookup.induct) (auto split: if_splits)

lemma ordered_directions_mem: "jlookup ds d = Some v \<Longrightarrow> (d, v) \<in> set (ordered_directions ds)"
  using jlookup_mem [of ds d v]
  by (auto simp: ordered_directions_def List.map_filter_def image_iff)

lemma ordered_directions_known:
  "\<lbrakk>(d, v) \<in> set (ordered_directions ds); d \<in> set directions\<rbrakk> \<Longrightarrow> jlookup ds d = Some v"
  by (auto simp: ordered_directions_def List.map_filter_def)

lemma entry_locations_mem:
  assumes "entry_block e d = Some c"
  shows "\<exists>l \<in> set (entry_locations i (JObject e)).
    loc_place l = \<lparr>pl_index = i, pl_direction = d\<rparr> \<and> loc_configuration l = c"
proof (cases d)
  case None
  with assms show ?thesis by (auto simp: entry_block_def entry_locations_def bind_eq_Some_conv)
next
  case (Some d')
  with assms obtain ds where ds: "jlookup e content_type_configurations = Some (JObject ds)" "jlookup ds d' = Some (JObject c)"
    by (auto simp: entry_block_def bind_eq_Some_conv jget_def split: option.splits)
  have "(d', c) \<in> set (List.map_filter object_pair (ordered_directions ds))"
    using ordered_directions_mem [OF ds(2)] by (force simp: List.map_filter_def)
  with ds(1) Some show ?thesis by (force simp: entry_locations_def)
qed

lemma locations_from_mem:
  "\<lbrakk>i < length es; l \<in> set (entry_locations (k + i) (es ! i))\<rbrakk> \<Longrightarrow> l \<in> set (locations_from k es)"
proof (induction es arbitrary: i k)
  case (Cons e es)
  show ?case
  proof (cases i)
    case 0
    with Cons.prems show ?thesis by simp
  next
    case (Suc j)
    with Cons.prems Cons.IH [of j "Suc k"] show ?thesis by simp
  qed
qed simp

lemma locations_mem:
  assumes "configuration_at (JObject p) pl = Some c"
  shows "\<exists>l \<in> set (locations (Some (JObject p))). loc_place l = pl \<and> loc_configuration l = c"
proof -
  obtain es e where es: "jlookup p ai_profiles = Some (JArray es)" "pl_index pl < length es"
      "es ! pl_index pl = JObject e" "entry_block e (pl_direction pl) = Some c"
    using assms by (auto simp: configuration_at_entry bind_eq_Some_conv entry_at_def
        split: option.splits json.splits if_splits)
  from entry_locations_mem [OF es(4), of "pl_index pl"] obtain l
    where l: "l \<in> set (entry_locations (pl_index pl) (JObject e))" "loc_place l = pl" "loc_configuration l = c"
    by auto
  have "l \<in> set (locations_from 0 es)"
    using locations_from_mem [of "pl_index pl" es l 0] es(2,3) l(1) by simp
  with es(1) l(2,3) show ?thesis
    by (auto simp: locations_def entries_of_def jget_def)
qed

section \<open>Panics\<close>

lemma select_ai_profile_no_panic: "select_ai_profile p sel \<noteq> Err Panic"
  by (auto simp: select_ai_profile_def refuse_def Let_def split: json.split)

lemma with_object_Panic: "with_object m k f = Err Panic \<Longrightarrow> f (object_or_empty m k) = Err Panic"
  by (auto simp: with_object_def bind_r_def split: sum.splits)

lemma with_protections_Panic:
  "with_protections e d allow f = Err Panic \<Longrightarrow> f (start_block e d) = Err Panic \<and> is_directional e = (d \<noteq> None)"
  by (auto simp: with_protections_def refuse_def start_block_def dest!: with_object_Panic split: if_splits option.splits)

lemma with_entry_Panic:
  "\<lbrakk>with_entry p i f = Err Panic; entry_at p i \<noteq> None\<rbrakk> \<Longrightarrow> \<exists>e. entry_at p i = Some e \<and> f e = Err Panic"
  by (auto simp: with_entry_def entry_at_def bind_r_def split: option.splits json.splits sum.splits if_splits)

lemma with_guarded_block_Panic:
  assumes "with_guarded_block p sel f = Err Panic"
  shows "\<exists>i b. i = (case sel_index sel of Some n \<Rightarrow> n | None \<Rightarrow> 0) \<and> few_guardrails b \<and> f b = Err Panic
    \<and> b = (case configuration_at (JObject p) \<lparr>pl_index = i, pl_direction = sel_direction sel\<rparr> of
             Some c \<Rightarrow> c | None \<Rightarrow> [])
    \<and> (sel_direction sel = None \<longrightarrow> (\<forall>e. entry_at p i = Some e \<longrightarrow> \<not> is_directional e))
    \<and> (sel_index sel = None \<longrightarrow> (\<forall>j. entry_at p j \<noteq> None \<longrightarrow> j = 0))"
proof -
  let ?g = "\<lambda>block. if 1 < length (filter is_guardrail (array_or_empty block mp_key))
         then refuse ''Ambiguous topic-guardrails identity in selected protection section'' else f block"
  obtain q i where s: "select_ai_profile p sel = Ok (q, i)"
    and w: "with_entry q i (\<lambda>e. with_protections e (sel_direction sel) False ?g) = Err Panic"
    using assms select_ai_profile_no_panic [of p sel]
    by (auto simp: with_guarded_block_def bind_r_def split: sum.splits)
  note S = select_ai_profile_Ok [OF s]
  obtain e where e: "entry_at q i = Some e" "with_protections e (sel_direction sel) False ?g = Err Panic"
    using with_entry_Panic [OF w] S by blast
  note P = with_protections_Panic [OF e(2)]
  have start: "start_block e (sel_direction sel) = (case configuration_at (JObject p)
      \<lparr>pl_index = i, pl_direction = sel_direction sel\<rparr> of Some c \<Rightarrow> c | None \<Rightarrow> [])"
    using S e(1) by (simp add: start_block_eq) (metis (no_types, lifting) Option.bind.bind_lunit configuration_at_entry place.select_convs(1) place.select_convs(2))
  have f: "f (start_block e (sel_direction sel)) = Err Panic" "few_guardrails (start_block e (sel_direction sel))"
    using P by (auto simp: few_guardrails_def refuse_def split: if_splits)
  have dir: "\<not> is_directional e'" if "sel_direction sel = None" "entry_at p i = Some e'" for e'
  proof -
    have "\<forall>j. entry_at q j = entry_at p j \<or> (entry_at p j = None \<and> j = 0
        \<and> entry_at q j = Some [(''model-type'', JString ''default'')])"
      using S by (elim conjE) assumption
    then have "entry_at q i = entry_at p i \<or> entry_at p i = None" by auto
    with that(2) have "entry_at q i = Some e'" by auto
    with e(1) P that(1) show ?thesis by simp
  qed
  have i: "i = (case sel_index sel of Some n \<Rightarrow> n | None \<Rightarrow> 0)" using S by (elim conjE) assumption
  have only: "sel_index sel = None \<longrightarrow> (\<forall>j. entry_at p j \<noteq> None \<longrightarrow> j = 0)" using S by (elim conjE) assumption
  show ?thesis
    by (rule exI [of _ i], rule exI [of _ "start_block e (sel_direction sel)"],
      intro conjI impI allI, rule i, rule f(2), rule f(1), rule start, erule (1) dir)
      (use only in blast)
qed

lemma apply_block_no_panic: "apply_block t ref intent b \<noteq> Err Panic"
proof (cases "guardrail_index (array_or_empty b mp_key)")
  case None
  obtain m where "new_guardrail (if intent = ''block'' then ''allow'' else ''block'') = JObject m"
    by (simp add: new_guardrail_def)
  with None show ?thesis by (simp add: apply_block_def Let_def split: if_splits)
next
  case (Some i)
  obtain m where "array_or_empty b mp_key ! i = JObject m"
    using position_Some [of is_guardrail "array_or_empty b mp_key" i] Some is_guardrail_object
    by (auto simp: guardrail_index_def)
  with Some show ?thesis by (simp add: apply_block_def Let_def)
qed

lemma array_or_empty_mem:
  assumes "x \<in> set (array_or_empty b k)"
  shows "jlookup b k = Some (JArray (array_or_empty b k))"
proof (cases "jlookup b k")
  case None
  with assms show ?thesis by (simp add: array_or_empty_def)
next
  case (Some v)
  with assms show ?thesis by (cases v) (simp_all add: array_or_empty_def)
qed

lemma revert_block_no_panic:
  assumes "holds b t" and "few_guardrails b"
  shows "revert_block t b \<noteq> Err Panic"
proof -
  obtain item groups where item: "item \<in> set (array_or_empty b mp_key)" "is_guardrail item"
      "Option.bind (jget item ''topic-list'') as_array = Some groups"
    using assms(1) by (auto simp: holds_def list_ex_iff split: option.splits)
  define items where "items = array_or_empty b mp_key"
  have items: "jlookup b mp_key = Some (JArray items)" "array_or_empty b mp_key = items"
    using array_or_empty_mem [OF item(1)] by (simp_all add: items_def)
  obtain i where i: "guardrail_index items = Some i"
    using item(1,2) items(2) position_None [of is_guardrail items]
    by (cases "guardrail_index items") (auto simp: guardrail_index_def filter_empty_conv)
  note G = guardrail_split [OF i assms(2) [unfolded few_guardrails_def items(2)]]
  have "item \<in> set (filter is_guardrail items)" using item(1,2) items(2) by simp
  with G have eq: "items ! i = item" by simp
  obtain m where m: "item = JObject m" using item(2) is_guardrail_object by blast
  have "jlookup m ''topic-list'' = Some (JArray groups)"
    using item(3) by (cases "jlookup m ''topic-list''") (auto simp: m jget_def elim: as_array.elims)
  with items(1) i eq m show ?thesis by (simp add: revert_block_def Let_def)
qed

lemma entry_locations_known:
  assumes "l \<in> set (entry_locations i v)"
    and "case pl_direction (loc_place l) of Some d \<Rightarrow> d \<in> set directions | None \<Rightarrow> True"
  shows "\<exists>e. v = JObject e \<and> pl_index (loc_place l) = i
    \<and> entry_block e (pl_direction (loc_place l)) = Some (loc_configuration l)"
proof -
  obtain e where v: "v = JObject e" using assms(1) by (cases v) (auto simp: entry_locations_def)
  define leg where "leg = (case jlookup e model_configuration_key of
       Some (JObject c) \<Rightarrow>
         [\<lparr>loc_place = \<lparr>pl_index = i, pl_direction = None\<rparr>,
           loc_model_type = jlookup e ''model-type'', loc_configuration = c,
           loc_active = (\<not> is_directional e)\<rparr>]
     | _ \<Rightarrow> [])"
  define loc where "loc = (\<lambda>(d, c). \<lparr>loc_place = \<lparr>pl_index = i, pl_direction = Some d\<rparr>,
       loc_model_type = jlookup e ''model-type'', loc_configuration = c, loc_active = True\<rparr>)"
  define dirs where "dirs = (case jlookup e content_type_configurations of
       Some (JObject ds) \<Rightarrow> map loc (List.map_filter object_pair (ordered_directions ds)) | _ \<Rightarrow> [])"
  have "entry_locations i v = leg @ dirs"
    unfolding entry_locations_def v as_object.simps option.case leg_def dirs_def loc_def ..
  with assms(1) have "l \<in> set leg \<or> l \<in> set dirs" by simp
  then consider (legacy) c where "jlookup e model_configuration_key = Some (JObject c)"
      "loc_place l = \<lparr>pl_index = i, pl_direction = None\<rparr>" "loc_configuration l = c"
    | (direction) ds d c where "jlookup e content_type_configurations = Some (JObject ds)"
      "(d, JObject c) \<in> set (ordered_directions ds)"
      "loc_place l = \<lparr>pl_index = i, pl_direction = Some d\<rparr>" "loc_configuration l = c"
  proof (elim disjE)
    assume l: "l \<in> set leg"
    then obtain u where u: "jlookup e model_configuration_key = Some u"
      by (cases "jlookup e model_configuration_key") (simp_all add: leg_def)
    with l legacy show thesis by (cases u) (simp_all add: leg_def)
  next
    assume l: "l \<in> set dirs"
    then obtain u where u: "jlookup e content_type_configurations = Some u"
      by (cases "jlookup e content_type_configurations") (simp_all add: dirs_def)
    with l obtain ds where ds: "u = JObject ds" by (cases u) (simp_all add: dirs_def)
    from l obtain d c where "l = loc (d, c)" "(d, c) \<in> set (List.map_filter object_pair (ordered_directions ds))"
      by (auto simp: dirs_def u ds)
    moreover from this(2) have "(d, JObject c) \<in> set (ordered_directions ds)"
      by (auto simp: List.map_filter_def elim!: object_pair.elims)
    ultimately show thesis using u ds direction by (simp add: loc_def)
  qed
  then show ?thesis
  proof cases
    case legacy
    then show ?thesis by (simp add: v entry_block_def)
  next
    case direction
    with assms(2) have "jlookup ds d = Some (JObject c)"
      by (intro ordered_directions_known) simp_all
    with direction show ?thesis by (simp add: v entry_block_def jget_def)
  qed
qed

lemma locations_from_entry:
  "l \<in> set (locations_from k es) \<Longrightarrow> \<exists>i < length es. l \<in> set (entry_locations (k + i) (es ! i))"
proof (induction es arbitrary: k)
  case (Cons e es)
  then consider "l \<in> set (entry_locations k e)" | "l \<in> set (locations_from (Suc k) es)" by auto
  then show ?case
  proof cases
    case 2
    with Cons.IH obtain i where "i < length es" "l \<in> set (entry_locations (Suc k + i) (es ! i))" by blast
    then show ?thesis by (intro exI [of _ "Suc i"]) simp
  qed (auto intro: exI [of _ 0])
qed simp

lemma locations_known:
  assumes "l \<in> set (locations (Some (JObject p)))"
    and "case pl_direction (loc_place l) of Some d \<Rightarrow> d \<in> set directions | None \<Rightarrow> True"
  shows "configuration_at (JObject p) (loc_place l) = Some (loc_configuration l)"
proof -
  obtain es where es: "jlookup p ai_profiles = Some (JArray es)" "l \<in> set (locations_from 0 es)"
    using assms(1) by (auto simp: locations_def entries_of_def jget_def split: option.splits elim: as_array.elims)
  from locations_from_entry [OF es(2)] obtain i where i: "i < length es" "l \<in> set (entry_locations i (es ! i))"
    by auto
  from entry_locations_known [OF i(2) assms(2)] es(1) i(1) show ?thesis
    by (auto simp: configuration_at_entry entry_at_def)
qed

section \<open>The edits of topics\<close>

text \<open>The place a selector means.\<close>

definition place_of :: "selector \<Rightarrow> place" where
  "place_of sel = \<lparr>pl_index = (case sel_index sel of Some n \<Rightarrow> n | None \<Rightarrow> 0), pl_direction = sel_direction sel\<rparr>"

definition block_at :: "jobject \<Rightarrow> place \<Rightarrow> jobject" where
  "block_at p pl = (case configuration_at (JObject p) pl of Some c \<Rightarrow> c | None \<Rightarrow> [])"

lemma guarded_edit:
  assumes "with_guarded_block p sel f = Ok p'"
  shows "\<exists>b'. few_guardrails (block_at p (place_of sel)) \<and> f (block_at p (place_of sel)) = Ok b'
    \<and> configuration_at (JObject p') (place_of sel) = Some b'
    \<and> (\<forall>pl. pl \<noteq> place_of sel \<longrightarrow> configuration_at (JObject p') pl = configuration_at (JObject p) pl)"
  using with_guarded_block_Ok [OF assms]
  by (auto simp: place_of_def block_at_def few_guardrails_def)

lemma apply_topic_Ok:
  assumes "apply_topic policy sel t ref intent = Ok v" and "owns t ref"
  shows "\<exists>p' b'. v = JObject p' \<and> configuration_at (JObject p') (place_of sel) = Some b'
    \<and> owned t (block_refs b') = [(Some intent, ref)]
    \<and> others t (block_refs b') = others t (block_refs (block_at (policy_object policy) (place_of sel)))
    \<and> (\<forall>pl. pl \<noteq> place_of sel \<longrightarrow>
         configuration_at (JObject p') pl = configuration_at (JObject (policy_object policy)) pl)"
proof -
  obtain p' where v: "v = JObject p'"
    and g: "with_guarded_block (policy_object policy) sel (apply_block t ref intent) = Ok p'"
    using assms(1) by (auto simp: apply_topic_def bind_r_Ok_iff)
  from guarded_edit [OF g] apply_block_refs assms(2) v show ?thesis by fastforce
qed

lemma selected_place_Ok:
  "selected_place p sel = Ok selected \<Longrightarrow>
     selected = (if selector_given sel then Some (place_of sel) else None)"
  by (auto simp: selected_place_def place_of_def bind_r_Ok_iff dest!: select_ai_profile_Ok split: if_splits)

text \<open>Without a selector an edit that succeeds met the only block of the policy.\<close>

lemma only_block:
  assumes "with_guarded_block p sel f = Ok p'" and "\<not> selector_given sel"
    and "configuration_at (JObject p) pl = Some c"
  shows "pl = place_of sel"
proof -
  let ?g = "\<lambda>block. if 1 < length (filter is_guardrail (array_or_empty block mp_key))
         then refuse ''Ambiguous topic-guardrails identity in selected protection section'' else f block"
  have sel: "sel_index sel = None" "sel_direction sel = None"
    using assms(2) by (simp_all add: selector_given_def)
  obtain q i where s: "select_ai_profile p sel = Ok (q, i)"
    and w: "with_entry q i (\<lambda>e. with_protections e None False ?g) = Ok p'"
    using assms(1) by (auto simp: with_guarded_block_def bind_r_Ok_iff sel)
  note S = select_ai_profile_Ok [OF s]
  have i: "i = 0" using S by (elim conjE) (simp add: sel)
  have only: "\<forall>j. entry_at p j \<noteq> None \<longrightarrow> j = 0" using S sel(1) by (elim conjE) simp
  have same: "\<forall>pl. configuration_at (JObject q) pl = configuration_at (JObject p) pl"
    using S by (elim conjE) assumption
  obtain e where e: "entry_at q 0 = Some e" "\<not> is_directional e"
    using with_entry_Ok [OF w] with_protections_Ok i by blast
  have zero: "pl_index pl = 0"
    using assms(3) only by (auto simp: configuration_at_entry bind_eq_Some_conv)
  have "configuration_at (JObject q) pl = Some c" using same assms(3) by simp
  then have "entry_block e (pl_direction pl) = Some c"
    by (simp add: configuration_at_entry zero e(1))
  with e(2) have "pl_direction pl = None"
    by (cases "pl_direction pl") (auto simp: entry_block_def is_directional_def contains_key_def bind_eq_Some_conv)
  with zero show ?thesis by (cases pl) (simp add: place_of_def sel)
qed

lemma revert_topic_Ok:
  assumes "revert_topic policy sel t = Ok v"
  shows "\<exists>p'. v = JObject p' \<and> (\<forall>pl c. configuration_at (JObject p') pl = Some c \<longrightarrow>
    \<not> holds c t \<and> others t (block_refs c) = others t (block_refs (block_at (policy_object policy) pl)))"
proof -
  let ?p = "policy_object policy"
  let ?sel = "if selector_given sel then Some (place_of sel) else None"
  obtain p' where v: "v = JObject p'"
    and g: "with_guarded_block ?p sel (revert_block t) = Ok p'"
    and elsewhere: "case ?sel of Some pl \<Rightarrow> \<not> list_ex (\<lambda>l. loc_place l \<noteq> pl \<and> holds (loc_configuration l) t)
        (locations (Some (JObject ?p))) | None \<Rightarrow> True"
    using assms
    by (auto simp: revert_topic_def Let_def bind_r_Ok_iff refuse_def dest!: selected_place_Ok
        split: if_splits option.splits)
  from guarded_edit [OF g] obtain b' where few: "few_guardrails (block_at ?p (place_of sel))"
    and b': "revert_block t (block_at ?p (place_of sel)) = Ok b'"
    and at: "configuration_at (JObject p') (place_of sel) = Some b'"
    and rest: "\<And>pl. pl \<noteq> place_of sel \<Longrightarrow> configuration_at (JObject p') pl = configuration_at (JObject ?p) pl"
    by auto
  note R = revert_block_refs [OF b' few]
  have "\<not> holds c t \<and> others t (block_refs c) = others t (block_refs (block_at ?p pl))"
    if c: "configuration_at (JObject p') pl = Some c" for pl c
  proof (cases "pl = place_of sel")
    case True
    with c at R show ?thesis by (simp add: holds_iff)
  next
    case False
    with rest c have c0: "configuration_at (JObject ?p) pl = Some c" by simp
    show ?thesis
    proof (cases "selector_given sel")
      case True
      from locations_mem [OF c0] obtain l where l: "l \<in> set (locations (Some (JObject ?p)))"
          "loc_place l = pl" "loc_configuration l = c" by auto
      have none: "\<not> list_ex (\<lambda>l. loc_place l \<noteq> place_of sel \<and> holds (loc_configuration l) t)
          (locations (Some (JObject ?p)))"
        using elsewhere True by simp
      have "\<not> holds c t"
      proof
        assume "holds c t"
        with l False have "list_ex (\<lambda>l. loc_place l \<noteq> place_of sel \<and> holds (loc_configuration l) t)
            (locations (Some (JObject ?p)))" by (auto simp: list_ex_iff)
        with none show False ..
      qed
      with c0 show ?thesis by (simp add: block_at_def)
    next
      case none: False
      from only_block [OF g none c0] False show ?thesis by simp
    qed
  qed
  with v show ?thesis by blast
qed

lemma revert_topic_no_panic:
  assumes "selector_parse direction index = Ok sel"
  shows "revert_topic policy sel t \<noteq> Err Panic"
proof
  assume panic: "revert_topic policy sel t = Err Panic"
  let ?p = "policy_object policy"
  have known: "case sel_direction sel of Some d \<Rightarrow> d \<in> set directions | None \<Rightarrow> True"
    using assms by (auto simp: selector_parse_def bind_r_Ok_iff split: option.splits if_splits)
  have probe: "selected_place ?p sel \<noteq> Err Panic"
  proof
    assume "selected_place ?p sel = Err Panic"
    then obtain q i where s: "select_ai_profile ?p sel = Ok (q, i)"
      and w: "with_entry q i (\<lambda>e. with_protections e (sel_direction sel) False Ok) = Err Panic"
      using select_ai_profile_no_panic [of ?p sel]
      by (auto simp: selected_place_def bind_r_def split: if_splits sum.splits)
    have "entry_at q i \<noteq> None" using select_ai_profile_Ok [OF s] by (elim conjE)
    from with_entry_Panic [OF w this] obtain e where "with_protections e (sel_direction sel) False Ok = Err Panic"
      by blast
    from with_protections_Panic [OF this] show False by simp
  qed
  let ?sel = "if selector_given sel then Some (place_of sel) else None"
  have g: "with_guarded_block ?p sel (revert_block t) = Err Panic"
    and scope: "list_ex (\<lambda>l. in_scope ?sel l \<and> holds (loc_configuration l) t) (locations (Some (JObject ?p)))"
    using panic probe selected_place_Ok [of ?p sel]
    by (auto simp: revert_topic_def Let_def bind_r_def refuse_def split: if_splits sum.splits option.splits)
  obtain b where b: "few_guardrails b" "revert_block t b = Err Panic" "b = block_at ?p (place_of sel)"
    and legacy: "sel_direction sel = None \<longrightarrow> (\<forall>e. entry_at ?p (pl_index (place_of sel)) = Some e \<longrightarrow> \<not> is_directional e)"
    and only: "sel_index sel = None \<longrightarrow> (\<forall>j. entry_at ?p j \<noteq> None \<longrightarrow> j = 0)"
    using with_guarded_block_Panic [OF g] unfolding block_at_def place_of_def by auto
  from scope obtain l where l: "l \<in> set (locations (Some (JObject ?p)))" "in_scope ?sel l" "holds (loc_configuration l) t"
    by (auto simp: list_ex_iff)
  have "loc_place l = place_of sel"
  proof (cases "selector_given sel")
    case True
    with l(2) show ?thesis by (simp add: in_scope_def)
  next
    case False
    then have none: "sel_direction sel = None" "sel_index sel = None" and active: "loc_active l"
      using l(2) by (simp_all add: selector_given_def in_scope_def)
    obtain i v where i: "entry_at ?p i = as_object v" "l \<in> set (entry_locations i v)"
    proof -
      obtain es where es: "jlookup ?p ai_profiles = Some (JArray es)" "l \<in> set (locations_from 0 es)"
        using l(1) by (auto simp: locations_def entries_of_def jget_def split: option.splits elim: as_array.elims)
      from locations_from_entry [OF es(2)] obtain i where "i < length es" "l \<in> set (entry_locations i (es ! i))"
        by auto
      with es(1) show thesis by (intro that [of i "es ! i"]) (simp_all add: entry_at_def)
    qed
    then obtain e where e: "v = JObject e" by (cases v) (auto simp: entry_locations_def)
    with i(1) only none(2) have "i = 0" by simp
    with i e legacy none have "\<not> is_directional e" by (simp add: place_of_def)
    then have "jlookup e content_type_configurations = None"
      by (simp add: is_directional_def contains_key_def)
    with i(2) e \<open>i = 0\<close> none show ?thesis
      by (auto simp: entry_locations_def place_of_def split: option.splits json.splits)
  qed
  moreover from this known have "case pl_direction (loc_place l) of Some d \<Rightarrow> d \<in> set directions | None \<Rightarrow> True"
    by (simp add: place_of_def)
  ultimately have "configuration_at (JObject ?p) (place_of sel) = Some (loc_configuration l)"
    using locations_known [OF l(1)] by simp
  with b l(3) have "holds b t" by (simp add: block_at_def)
  from revert_block_no_panic [OF this b(1)] b(2) show False ..
qed

lemma apply_topic_no_panic: "apply_topic policy sel t ref intent \<noteq> Err Panic"
proof
  assume "apply_topic policy sel t ref intent = Err Panic"
  then have "with_guarded_block (policy_object policy) sel (apply_block t ref intent) = Err Panic"
    by (auto simp: apply_topic_def bind_r_def split: sum.splits)
  from with_guarded_block_Panic [OF this] show False using apply_block_no_panic by blast
qed

section \<open>The merge\<close>

lemma merge_no_panic:
  "merge_settings jtext base patch \<noteq> Err Panic"
  "merge_items jtext merged items \<noteq> Err Panic"
  by (induction jtext base patch and jtext merged items rule: merge_settings_merge_items.induct)
    (auto simp: bind_r_def refuse_def split: sum.splits list.splits json.splits option.splits)

lemma jlookup_jremove: "k' \<noteq> k \<Longrightarrow> jlookup (jremove m k) k' = jlookup m k'"
  by (induction m k rule: jremove.induct) auto

text \<open>A key the patch does not name is kept as it is.\<close>

lemma merge_settings_keeps:
  "\<lbrakk>merge_settings jtext base patch = Ok merged; k \<notin> fst ` set patch\<rbrakk> \<Longrightarrow> jlookup merged k = jlookup base k"
proof (induction patch arbitrary: base)
  case (Cons kv patch)
  obtain key v where kv: "kv = (key, v)" by fastforce
  with Cons.prems(2) have "k \<noteq> key" "k \<notin> fst ` set patch" by auto
  then show ?case
    using Cons.IH [OF _ \<open>k \<notin> fst ` set patch\<close>] Cons.prems(1)
    by (cases v) (fastforce simp: kv bind_r_Ok_iff jlookup_jremove split: if_splits)+
qed simp

text \<open>So is a detector whose name the patch does not have, at its position.\<close>

lemma named_at_mem: "i \<in> set (named_at nm k es) \<longleftrightarrow> k \<le> i \<and> i - k < length es \<and> jget (es ! (i - k)) ''name'' = nm"
proof (induction es arbitrary: k)
  case (Cons e es)
  show ?case using Cons.IH [of "Suc k"] by (cases "i = k") (auto simp: nth_Cons' Suc_diff_Suc)
qed simp

lemma merge_item_step:
  assumes "merge_items jtext merged (item # items) = Ok result"
  shows "\<exists>merged'. merge_items jtext merged' items = Ok result \<and> length merged \<le> length merged'
    \<and> (\<forall>i < length merged. jget (merged ! i) ''name'' \<noteq> jget item ''name'' \<longrightarrow> merged' ! i = merged ! i)"
proof -
  let ?at = "named_at (jget item ''name'') 0 merged"
  have other: "i \<noteq> j" if "?at = [j]" "jget (merged ! i) ''name'' \<noteq> jget item ''name''" for i j
    using that named_at_mem [of j "jget item ''name''" 0 merged] by auto
  have none: "jget item ''name'' = None" if "\<And>m. item \<noteq> JObject m"
    using that by (cases item) (auto simp: jget_def)
  show ?thesis
  proof (cases ?at)
    case Nil
    then have "merge_items jtext (merged @ [item]) items = Ok result"
      using assms none by (cases item) (simp_all add: jget_def)
    then show ?thesis by (intro exI [of _ "merged @ [item]"]) (simp add: nth_append)
  next
    case (Cons j js)
    then have "js = []" using assms none by (cases item; cases js) (simp_all add: refuse_def jget_def)
    with Cons have at: "?at = [j]" by simp
    then obtain v where "merge_items jtext (merged[j := v]) items = Ok result"
      using assms none by (cases item; cases "merged ! j") (auto simp: bind_r_Ok_iff jget_def)
    with other [OF at] show ?thesis
      by (intro exI [of _ "merged[j := v]"]) (metis length_list_update nth_list_update_neq order_refl)
  qed
qed

lemma merge_items_keeps:
  "\<lbrakk>merge_items jtext merged items = Ok result; i < length merged;
    jget (merged ! i) ''name'' \<notin> set (map (\<lambda>item. jget item ''name'') items)\<rbrakk> \<Longrightarrow>
     i < length result \<and> result ! i = merged ! i"
proof (induction items arbitrary: merged)
  case (Cons item items)
  from merge_item_step [OF Cons.prems(1)] obtain merged' where m: "merge_items jtext merged' items = Ok result"
      "length merged \<le> length merged'" "merged' ! i = merged ! i"
    using Cons.prems(2,3) by auto
  have "i < length merged'" using m(2) Cons.prems(2) by simp
  from Cons.IH [OF m(1) this] m(3) Cons.prems(3) show ?case by simp
qed simp

lemma with_entry_edit:
  assumes "with_entry p i f = Ok p'"
    and "\<And>e e'. f e = Ok e' \<Longrightarrow> (\<forall>d'. d' \<noteq> d \<longrightarrow> entry_block e' d' = entry_block e d')
        \<and> (\<forall>k. k \<notin> K \<longrightarrow> jlookup (case entry_block e' d of Some b \<Rightarrow> b | None \<Rightarrow> []) k
                        = jlookup (case entry_block e d of Some b \<Rightarrow> b | None \<Rightarrow> []) k)"
  shows "(\<forall>pl. pl \<noteq> \<lparr>pl_index = i, pl_direction = d\<rparr> \<longrightarrow> configuration_at (JObject p') pl = configuration_at (JObject p) pl)
    \<and> (\<forall>pl k. k \<notin> K \<longrightarrow> jlookup (block_at p' pl) k = jlookup (block_at p pl) k)"
proof -
  obtain e e' where e: "entry_at p i = Some e" "f e = Ok e'" "\<forall>j. entry_at p' j = (if j = i then Some e' else entry_at p j)"
    using with_entry_Ok [OF assms(1)] by blast
  note F = assms(2) [OF e(2)]
  have frame: "configuration_at (JObject p') pl = configuration_at (JObject p) pl"
    if "pl \<noteq> \<lparr>pl_index = i, pl_direction = d\<rparr>" for pl
    using that F e by (cases pl) (auto simp: configuration_at_entry)
  have "jlookup (block_at p' pl) k = jlookup (block_at p pl) k" if "k \<notin> K" for pl k
  proof (cases "pl = \<lparr>pl_index = i, pl_direction = d\<rparr>")
    case True
    with F e that show ?thesis by (simp add: block_at_def configuration_at_entry)
  next
    case False
    with frame show ?thesis by (simp add: block_at_def)
  qed
  with frame show ?thesis by blast
qed

lemma merge_protections_edit:
  assumes "merge_protections jtext pt d e = Ok e'"
  shows "(\<forall>d'. d' \<noteq> d \<longrightarrow> entry_block e' d' = entry_block e d')
    \<and> (\<forall>k. k \<notin> fst ` set (pt_protection pt) \<longrightarrow>
        jlookup (case entry_block e' d of Some b \<Rightarrow> b | None \<Rightarrow> []) k
        = jlookup (case entry_block e d of Some b \<Rightarrow> b | None \<Rightarrow> []) k)"
proof (cases "pt_protection pt = []")
  case True
  with assms show ?thesis by (auto simp: merge_protections_def bind_r_Ok_iff)
next
  case False
  with assms have "with_protections e d False (\<lambda>target. merge_settings jtext target (pt_protection pt)) = Ok e'"
    by (simp add: merge_protections_def)
  from with_protections_Ok [OF this] obtain b where
      b: "merge_settings jtext (start_block e d) (pt_protection pt) = Ok b"
      "\<forall>d'. entry_block e' d' = (if d' = d then Some b else entry_block e d')" by blast
  with merge_settings_keeps [OF b(1)] show ?thesis by (simp add: start_block_eq)
qed

lemma shared_edit:
  assumes "with_shared_settings e (\<lambda>s. merge_settings jtext s patch) = Ok e'"
  shows "(\<forall>d'. d' \<noteq> None \<longrightarrow> entry_block e' d' = entry_block e d')
    \<and> (\<forall>k. k \<notin> fst ` set patch \<longrightarrow>
        jlookup (case entry_block e' None of Some b \<Rightarrow> b | None \<Rightarrow> []) k
        = jlookup (case entry_block e None of Some b \<Rightarrow> b | None \<Rightarrow> []) k)"
proof -
  obtain b where b: "merge_settings jtext (start_block e None) patch = Ok b"
      "e' = jinsert e model_configuration_key (JObject b)"
    using assms by (auto simp: with_shared_settings_def with_object_Ok start_block_def)
  with merge_settings_keeps [OF b(1)] show ?thesis
    by (auto simp: start_block_eq) (auto simp: entry_block_def split: option.split)
qed

definition merge_direction :: "patch \<Rightarrow> selector \<Rightarrow> str option" where
  "merge_direction pt sel = (case pt_direction pt of Some d \<Rightarrow> Some d | None \<Rightarrow> sel_direction sel)"

lemma merge_policy_edit:
  assumes "merge_policy jtext existing (Some pt) sel = Ok v"
  shows "\<exists>p'. v = JObject p'
    \<and> (\<forall>pl. pl \<noteq> (place_of sel)\<lparr>pl_direction := merge_direction pt sel\<rparr>
          \<and> (pt_shared pt = [] \<or> pl \<noteq> (place_of sel)\<lparr>pl_direction := None\<rparr>) \<longrightarrow>
         configuration_at (JObject p') pl = configuration_at (JObject (policy_object existing)) pl)
    \<and> (\<forall>pl k. k \<notin> fst ` set (pt_protection pt) \<union> fst ` set (pt_shared pt) \<longrightarrow>
         jlookup (block_at p' pl) k = jlookup (block_at (policy_object existing) pl) k)"
proof -
  let ?p = "policy_object existing" and ?d = "merge_direction pt sel"
  obtain q i where s: "select_ai_profile ?p sel = Ok (q, i)"
    and rest: "bind_r (if ?d \<noteq> None \<or> pt_protection pt \<noteq> []
                  then with_entry q i (merge_protections jtext pt ?d) else Ok q) (\<lambda>r.
          bind_r (if pt_shared pt \<noteq> []
                  then with_entry r i (\<lambda>e. with_shared_settings e (\<lambda>s. merge_settings jtext s (pt_shared pt)))
                  else Ok r) (\<lambda>r. Ok (JObject r))) = Ok v"
    using assms by (simp add: merge_policy_def bind_r_Ok_iff Let_def split_beta flip: merge_direction_def del: not_None_eq)
      (fastforce simp del: not_None_eq)
  obtain r p' where r: "(if ?d \<noteq> None \<or> pt_protection pt \<noteq> []
        then with_entry q i (merge_protections jtext pt ?d) else Ok q) = Ok r"
    and p': "(if pt_shared pt \<noteq> []
        then with_entry r i (\<lambda>e. with_shared_settings e (\<lambda>s. merge_settings jtext s (pt_shared pt)))
        else Ok r) = Ok p'" and v: "v = JObject p'"
    using rest by (auto simp: bind_r_Ok_iff simp del: not_None_eq)
  have i: "i = pl_index (place_of sel)" using select_ai_profile_Ok [OF s] by (simp add: place_of_def)
  have same: "configuration_at (JObject q) pl = configuration_at (JObject ?p) pl" for pl
    using select_ai_profile_Ok [OF s] by (elim conjE) simp
  have place: "(place_of sel)\<lparr>pl_direction := d\<rparr> = \<lparr>pl_index = i, pl_direction = d\<rparr>" for d
    by (simp add: i place_of_def)
  have one: "(\<forall>pl. pl \<noteq> \<lparr>pl_index = i, pl_direction = ?d\<rparr> \<longrightarrow> configuration_at (JObject r) pl = configuration_at (JObject q) pl)
    \<and> (\<forall>pl k. k \<notin> fst ` set (pt_protection pt) \<longrightarrow> jlookup (block_at r pl) k = jlookup (block_at q pl) k)"
  proof (cases "?d \<noteq> None \<or> pt_protection pt \<noteq> []")
    case True
    with r have "with_entry q i (merge_protections jtext pt ?d) = Ok r" by (simp del: not_None_eq)
    from with_entry_edit [OF this merge_protections_edit] show ?thesis .
  next
    case False
    with r show ?thesis by simp
  qed
  have two: "(\<forall>pl. (pt_shared pt = [] \<or> pl \<noteq> \<lparr>pl_index = i, pl_direction = None\<rparr>) \<longrightarrow>
        configuration_at (JObject p') pl = configuration_at (JObject r) pl)
    \<and> (\<forall>pl k. k \<notin> fst ` set (pt_shared pt) \<longrightarrow> jlookup (block_at p' pl) k = jlookup (block_at r pl) k)"
  proof (cases "pt_shared pt = []")
    case True
    with p' show ?thesis by simp
  next
    case False
    with p' have "with_entry r i (\<lambda>e. with_shared_settings e (\<lambda>s. merge_settings jtext s (pt_shared pt))) = Ok p'"
      by simp
    from with_entry_edit [OF this shared_edit [where jtext = jtext and patch = "pt_shared pt"]] False
    show ?thesis by blast
  qed
  show ?thesis
    unfolding place using one two same v by (auto simp: block_at_def)
qed

lemma with_protections_Ok_no_panic: "with_protections e d allow Ok \<noteq> Err Panic"
  by (auto dest!: with_protections_Panic)

lemma selected_entry_no_panic:
  assumes "select_ai_profile p sel = Ok (q, i)" and "\<And>e. f e \<noteq> Err Panic"
  shows "with_entry q i f \<noteq> Err Panic"
proof
  assume w: "with_entry q i f = Err Panic"
  have "entry_at q i \<noteq> None" using select_ai_profile_Ok [OF assms(1)] by (elim conjE)
  from with_entry_Panic [OF w this] assms(2) show False by blast
qed

lemma check_layout_no_panic: "check_layout p sel \<noteq> Err Panic"
proof
  assume panic: "check_layout p sel = Err Panic"
  then obtain q i d where s: "select_ai_profile p sel = Ok (q, i)"
    and w: "with_entry q i (\<lambda>e. with_protections e (Some d) True Ok) = Err Panic"
    using select_ai_profile_no_panic [of p sel]
    by (auto simp: check_layout_def bind_r_def split: sum.splits option.splits if_splits)
  show False
    using selected_entry_no_panic [OF s, of "\<lambda>e. with_protections e (Some d) True Ok"]
      with_protections_Ok_no_panic w by blast
qed

lemma merge_protections_no_panic: "merge_protections jtext pt d e \<noteq> Err Panic"
  using with_protections_Ok_no_panic [of e d True] merge_no_panic(1)
  by (auto simp: merge_protections_def bind_r_def split: sum.splits dest!: with_protections_Panic)

lemma with_entry_keeps_entry: "with_entry p i f = Ok p' \<Longrightarrow> entry_at p' i \<noteq> None"
  using with_entry_Ok by fastforce

lemma merge_policy_no_panic: "merge_policy jtext existing pt sel \<noteq> Err Panic"
proof (cases pt)
  case None
  then show ?thesis using check_layout_no_panic
    by (auto simp: merge_policy_def Let_def bind_r_def split: sum.splits)
next
  case (Some pt')
  let ?d = "merge_direction pt' sel"
  let ?shared = "\<lambda>e. with_shared_settings e (\<lambda>s. merge_settings jtext s (pt_shared pt'))"
  have shared: "?shared e \<noteq> Err Panic" for e
    using merge_no_panic(1) by (auto simp: with_shared_settings_def dest!: with_object_Panic)
  have entry: "entry_at r i \<noteq> None \<Longrightarrow> with_entry r i ?shared \<noteq> Err Panic" for r i
    using with_entry_Panic shared by blast
  show ?thesis
  proof
    assume panic: "merge_policy jtext existing pt sel = Err Panic"
    obtain q i where s: "select_ai_profile (policy_object existing) sel = Ok (q, i)"
      using panic select_ai_profile_no_panic [of "policy_object existing" sel]
      by (auto simp: merge_policy_def Some Let_def bind_r_def split: sum.splits)
    have at: "entry_at q i \<noteq> None" using select_ai_profile_Ok [OF s] by (elim conjE)
    have one: "with_entry q i (merge_protections jtext pt' ?d) \<noteq> Err Panic"
      by (rule selected_entry_no_panic [OF s merge_protections_no_panic])
    show False
      using panic one entry [OF at] entry [OF with_entry_keeps_entry]
      by (fastforce simp: merge_policy_def Some Let_def bind_r_def s
          simp flip: merge_direction_def simp del: not_None_eq split: sum.splits if_splits)
  qed
qed

lemma apply_block_keeps:
  "\<lbrakk>apply_block t ref intent b = Ok b'; k \<noteq> mp_key\<rbrakk> \<Longrightarrow> jlookup b' k = jlookup b k"
  by (auto simp: apply_block_def Let_def split: option.splits json.splits)

lemma revert_block_keeps:
  "\<lbrakk>revert_block t b = Ok b'; k \<noteq> mp_key\<rbrakk> \<Longrightarrow> jlookup b' k = jlookup b k"
  by (auto simp: revert_block_def Let_def split: option.splits json.splits if_splits)

end
