(* ===== verification/PolicyProps.thy ===== *)
theory PolicyProps
  imports PolicyCorrect
begin

text \<open>
  What the edits of a security policy promise to the commands that call them, each with a policy
  on which it applies.
\<close>

section \<open>Topics\<close>

text \<open>C38: an apply that succeeds leaves one reference to the topic in the selected block, in the group of
  its intent; the block's other references and every other block of the policy stay.\<close>
theorem applied_topic_is_referred_to_once:
  assumes "apply_topic policy sel t ref intent = Ok v" and "owns t ref"
  shows "\<exists>p' b'. v = JObject p' \<and> configuration_at (JObject p') (place_of sel) = Some b'
    \<and> owned t (block_refs b') = [(Some intent, ref)]
    \<and> others t (block_refs b') = others t (block_refs (block_at (policy_object policy) (place_of sel)))
    \<and> (\<forall>pl. pl \<noteq> place_of sel \<longrightarrow>
         configuration_at (JObject p') pl = configuration_at (JObject (policy_object policy)) pl)"
  by (rule apply_topic_Ok [OF assms])

definition sample_topic :: topic_identity where
  "sample_topic = \<lparr>t_name = ''fraud'', t_ids = [''id-1'']\<rparr>"

definition sample_ref :: json where
  "sample_ref = JObject [(''topic_id'', JString ''id-1''), (''topic_name'', JString ''fraud'')]"

definition other_ref :: json where
  "other_ref = JObject [(''topic_name'', JString ''sport'')]"

text \<open>A policy with one AI entry, in which the topic is referred to twice.\<close>

definition sample_policy :: jobject where
  "sample_policy = [(ai_profiles, JArray [JObject [(''model-configuration'', JObject
     [(mp_key, JArray [JObject [(''action'', JString ''block''), (''name'', JString guardrail),
        (''topic-list'', JArray
          [JObject [(''action'', JString ''allow''), (''topic'', JArray [sample_ref, other_ref])],
           JObject [(''action'', JString ''block''), (''topic'', JArray [sample_ref])]])]])])]])]"

definition no_selector :: selector where
  "no_selector = \<lparr>sel_direction = None, sel_index = None\<rparr>"

lemma applied_topic_witness:
  "\<exists>v b'. apply_topic (Some (JObject sample_policy)) no_selector sample_topic sample_ref ''block'' = Ok v
    \<and> configuration_at v (place_of no_selector) = Some b'
    \<and> owned sample_topic (block_refs b') = [(Some ''block'', sample_ref)]"
proof -
  have "is_ok (apply_topic (Some (JObject sample_policy)) no_selector sample_topic sample_ref ''block'')"
    by code_simp
  then obtain v where v: "apply_topic (Some (JObject sample_policy)) no_selector sample_topic sample_ref ''block'' = Ok v"
    by (auto simp: is_ok_iff)
  moreover have "owns sample_topic sample_ref" by code_simp
  ultimately show ?thesis
    using applied_topic_is_referred_to_once by blast
qed

text \<open>after a revert that succeeds no block of the policy refers to the topic, and the references to
  other topics are in every block what they were.\<close>
theorem reverted_topic_is_gone:
  assumes "revert_topic policy sel t = Ok v"
  shows "\<exists>p'. v = JObject p' \<and> (\<forall>pl c. configuration_at (JObject p') pl = Some c \<longrightarrow>
    \<not> holds c t \<and> others t (block_refs c) = others t (block_refs (block_at (policy_object policy) pl)))"
  by (rule revert_topic_Ok [OF assms])

lemma reverted_topic_witness:
  "\<exists>v c. revert_topic (Some (JObject sample_policy)) no_selector sample_topic = Ok v
    \<and> configuration_at v (place_of no_selector) = Some c
    \<and> \<not> holds c sample_topic \<and> others sample_topic (block_refs c) = [(Some ''allow'', other_ref)]"
proof -
  have ok: "case revert_topic (Some (JObject sample_policy)) no_selector sample_topic of
      Ok v \<Rightarrow> configuration_at v (place_of no_selector) \<noteq> None | Err _ \<Rightarrow> False"
    by code_simp
  then obtain v c where v: "revert_topic (Some (JObject sample_policy)) no_selector sample_topic = Ok v"
      "configuration_at v (place_of no_selector) = Some c"
    by (auto split: sum.splits)
  have "others sample_topic (block_refs (block_at (policy_object (Some (JObject sample_policy)))
      (place_of no_selector))) = [(Some ''allow'', other_ref)]" by code_simp
  with reverted_topic_is_gone [OF v(1)] v show ?thesis by auto
qed

text \<open>C39: no \<open>expect\<close> of the policy edits fails: whatever JSON the tenant returned, applying or reverting a
  topic under a parsed selector and merging a patch end in a policy or in an error of the CLI.\<close>
theorem policy_edits_never_panic:
  assumes "selector_parse direction index = Ok sel"
  shows "apply_topic policy sel t ref intent \<noteq> Err Panic \<and> revert_topic policy sel t \<noteq> Err Panic
    \<and> merge_policy jtext policy pt sel \<noteq> Err Panic"
  using apply_topic_no_panic revert_topic_no_panic [OF assms] merge_policy_no_panic by simp

lemma policy_edits_witness:
  "selector_parse (Some ''tool-call'') None = Ok \<lparr>sel_direction = Some ''tool-call'', sel_index = None\<rparr>
   \<and> revert_topic (Some (JObject [(ai_profiles, JNull)])) \<lparr>sel_direction = Some ''tool-call'', sel_index = None\<rparr>
       sample_topic \<noteq> Err Panic"
proof -
  have "selector_parse (Some ''tool-call'') None = Ok \<lparr>sel_direction = Some ''tool-call'', sel_index = None\<rparr>"
    by (simp add: selector_parse_def directions_def)
  with policy_edits_never_panic [OF this] show ?thesis by blast
qed

section \<open>Merge\<close>

text \<open>C40: a merge changes the selected block, and the shared block when the patch names shared settings, and
  no other block; in those a setting the patch does not name keeps its value.\<close>
theorem merge_touches_only_the_selection:
  assumes "merge_policy jtext existing (Some pt) sel = Ok v"
  shows "\<exists>p'. v = JObject p'
    \<and> (\<forall>pl. pl \<noteq> (place_of sel)\<lparr>pl_direction := merge_direction pt sel\<rparr>
          \<and> (pt_shared pt = [] \<or> pl \<noteq> (place_of sel)\<lparr>pl_direction := None\<rparr>) \<longrightarrow>
         configuration_at (JObject p') pl = configuration_at (JObject (policy_object existing)) pl)
    \<and> (\<forall>pl k. k \<notin> fst ` set (pt_protection pt) \<union> fst ` set (pt_shared pt) \<longrightarrow>
         jlookup (block_at p' pl) k = jlookup (block_at (policy_object existing) pl) k)"
  by (rule merge_policy_edit [OF assms])

definition sample_patch :: patch where
  "sample_patch = \<lparr>pt_protection = [(''latency'', JObject [(''max'', JString ''5'')])], pt_shared = [],
     pt_direction = None\<rparr>"

lemma merge_witness:
  "\<exists>p'. merge_policy (\<lambda>_. []) (Some (JObject sample_policy)) (Some sample_patch) no_selector = Ok (JObject p')
    \<and> jlookup (block_at p' (place_of no_selector)) mp_key
        = jlookup (block_at sample_policy (place_of no_selector)) mp_key"
proof -
  have "is_ok (merge_policy (\<lambda>_. []) (Some (JObject sample_policy)) (Some sample_patch) no_selector)" by code_simp
  then obtain v where v: "merge_policy (\<lambda>_. []) (Some (JObject sample_policy)) (Some sample_patch) no_selector = Ok v"
    by (auto simp: is_ok_iff)
  have "mp_key \<notin> fst ` set (pt_protection sample_patch) \<union> fst ` set (pt_shared sample_patch)"
    by code_simp
  with merge_touches_only_the_selection [OF v] v show ?thesis
    by (auto simp: policy_object_def)
qed

text \<open>Merging detector lists by name keeps every detector the patch does not name, at its position.\<close>
theorem merge_keeps_unnamed_detectors:
  assumes "merge_items jtext merged items = Ok result" and "i < length merged"
    and "jget (merged ! i) ''name'' \<notin> set (map (\<lambda>item. jget item ''name'') items)"
  shows "i < length result \<and> result ! i = merged ! i"
  by (rule merge_items_keeps [OF assms])

definition sample_detectors :: "json list" where
  "sample_detectors = [JObject [(''action'', JString ''block''), (''name'', JString ''toxic-content'')],
     JObject [(''action'', JString ''allow''), (''name'', JString ''prompt-injection'')]]"

lemma merge_keeps_witness:
  "\<exists>result. merge_items (\<lambda>_. []) sample_detectors
       [JObject [(''action'', JString ''block''), (''name'', JString ''prompt-injection'')]] = Ok result
     \<and> result ! 0 = sample_detectors ! 0"
proof -
  let ?items = "[JObject [(''action'', JString ''block''), (''name'', JString ''prompt-injection'')]]"
  have "is_ok (merge_items (\<lambda>_. []) sample_detectors ?items)" by code_simp
  then obtain result where r: "merge_items (\<lambda>_. []) sample_detectors ?items = Ok result" by (auto simp: is_ok_iff)
  have "0 < length sample_detectors"
    "jget (sample_detectors ! 0) ''name'' \<notin> set (map (\<lambda>item. jget item ''name'') ?items)"
    by code_simp+
  with merge_keeps_unnamed_detectors [OF r, of 0] r show ?thesis by blast
qed

end
