(* ===== verification/TenantConfig.thy ===== *)
theory TenantConfig
  imports JobLock
begin

text \<open>
  Tenant files, \<open>src/tenant/config.rs\<close> and \<open>toml_string\<close> of \<open>src/store/mod.rs\<close>: the schema
  keys, the rules for a value read and a value written, the configuration and its canonical
  bytes, what \<open>tenant read\<close> shows of it, and the credential checks.

  The \<open>toml\<close> and \<open>url\<close> crates and the SDK's endpoint check are the record \<open>libs\<close>.
\<close>

section \<open>The libraries\<close>

text \<open>A TOML value; floats, booleans, dates and arrays are \<open>TOther\<close>, which every rule refuses.\<close>

datatype toml = TString str | TInteger int | TTable "(str \<times> toml) list" | TOther

type_synonym toml_table = "(str \<times> toml) list"

record url =
  u_scheme :: str
  u_username :: str
  u_password :: "str option"
  u_host :: "str option"
  u_port :: "nat option"
  u_path :: str
  u_query :: "str option"
  u_fragment :: "str option"

record libs =
  lib_toml :: "str \<Rightarrow> toml_table option" \<comment> \<open>\<open>from_utf8\<close> and \<open>text.parse::<toml::Table>\<close>\<close>
  lib_url :: "str \<Rightarrow> url option" \<comment> \<open>\<open>url::Url::parse\<close>\<close>
  lib_endpoint :: "str \<Rightarrow> bool" \<comment> \<open>\<open>scm::Endpoint::loopback(..).is_ok()\<close>\<close>

definition table_get :: "toml_table \<Rightarrow> str \<Rightarrow> toml option" where
  "table_get = map_of"

section \<open>Basic strings\<close>

definition quote_mark :: char where "quote_mark = CHR 0x22"
definition backslash :: char where "backslash = CHR 0x5C"

definition upper_hex_digit :: "nat \<Rightarrow> char" where
  "upper_hex_digit n = ''0123456789ABCDEF'' ! n"

text \<open>The code point of a control character: one byte, or \<open>C2\<close> and a byte below \<open>A0\<close>.\<close>

definition control_code :: "str \<Rightarrow> nat" where
  "control_code g = (case g of [_, b] \<Rightarrow> code b | [a] \<Rightarrow> code a | _ \<Rightarrow> 0)"

definition toml_char :: "str \<Rightarrow> str" where
  "toml_char g =
     (if g = [quote_mark] then [backslash, quote_mark]
      else if g = [backslash] then [backslash, backslash]
      else if g = bytes [8] then [backslash, CHR ''b'']
      else if g = bytes [9] then [backslash, CHR ''t'']
      else if g = bytes [10] then [backslash, CHR ''n'']
      else if g = bytes [12] then [backslash, CHR ''f'']
      else if g = bytes [13] then [backslash, CHR ''r'']
      else if is_control g then
        [backslash, CHR ''u'', CHR ''0'', CHR ''0'',
         upper_hex_digit (control_code g div 16), upper_hex_digit (control_code g mod 16)]
      else g)"

definition toml_string :: "str \<Rightarrow> str" where
  "toml_string s = [quote_mark] @ concat (map toml_char (utf8_chars s)) @ [quote_mark]"

section \<open>The schema\<close>

definition schema_keys :: "str list" where
  "schema_keys =
     [''airsApiKey'', ''airsApiToken'', ''airsApiEndpoint'', ''airsNumRetries'', ''mgmtClientId'',
      ''mgmtClientSecret'', ''mgmtTsgId'', ''mgmtEndpoint'', ''mgmtDashboardEndpoint'',
      ''mgmtTokenEndpoint'', ''dlpEndpoint'', ''redTeamDataEndpoint'', ''redTeamMgmtEndpoint'',
      ''redTeamNetworkBrokerEndpoint'', ''modelSecDataEndpoint'', ''modelSecMgmtEndpoint'',
      ''supplychainDataEndpoint'', ''supplychainMgmtEndpoint'', ''gatewayDataEndpoint'',
      ''gatewayAdminEndpoint'', ''iamEndpoint'', ''gatewayInferenceEndpoint'',
      ''gatewayInferenceApiKey'', ''gatewayInferenceModel'', ''gatewayEmbeddingModel'',
      ''scanConcurrency'', ''defaultOutput'']"

definition renames :: "(str \<times> str) list" where
  "renames =
     [(''aiGwDataEndpoint'', ''gatewayDataEndpoint''),
      (''aiGwAdminEndpoint'', ''gatewayAdminEndpoint''),
      (''aiGwInferenceEndpoint'', ''gatewayInferenceEndpoint''),
      (''aiGwInferenceApiKey'', ''gatewayInferenceApiKey''),
      (''aiGwInferenceModel'', ''gatewayInferenceModel''),
      (''aiGwEmbeddingModel'', ''gatewayEmbeddingModel''),
      (''agentGuardDataEndpoint'', ''supplychainDataEndpoint''),
      (''agentGuardMgmtEndpoint'', ''supplychainMgmtEndpoint'')]"

definition dropped_keys :: "str list" where
  "dropped_keys = [''dataDir'', ''typesafeApiKey'', ''typesafeBaseUrl'', ''typesafeModel'']"

definition default_scan_concurrency :: int where "default_scan_concurrency = 5"

definition management_keys :: "str list" where
  "management_keys = [''mgmtClientId'', ''mgmtClientSecret'', ''mgmtTsgId'']"

definition scanner_keys :: "str list" where
  "scanner_keys = [''airsApiKey'', ''airsApiToken'']"

datatype rule = RText | RUrl | RRetries | RConcurrency | ROutput

definition rule_of :: "str \<Rightarrow> rule" where
  "rule_of key =
     (if key = ''airsNumRetries'' then RRetries
      else if key = ''scanConcurrency'' then RConcurrency
      else if key = ''defaultOutput'' then ROutput
      else if key = ''mgmtDashboardEndpoint'' \<or> key = ''supplychainDataEndpoint''
              \<or> key = ''supplychainMgmtEndpoint'' then RUrl
      else RText)"

definition schema_key :: "str \<Rightarrow> str option" where
  "schema_key name = (if name \<in> set schema_keys then Some name else None)"

definition is_typescript_name :: "str \<Rightarrow> bool" where
  "is_typescript_name key =
     (starts_with key ''aiGw'' \<or> starts_with key ''agentGuard'' \<or> starts_with key ''typesafe''
      \<or> key = ''dataDir'' \<or> ends_with key ''TokenEndpoint'')"

definition is_secret_key :: "str \<Rightarrow> bool" where
  "is_secret_key key =
     (let lower = ascii_lower key
      in list_ex (\<lambda>suffix. ends_with lower suffix) [''key'', ''secret'', ''token'', ''password''])"

definition is_endpoint_key :: "str \<Rightarrow> bool" where
  "is_endpoint_key key = ends_with key ''Endpoint''"

definition is_credential_key :: "str \<Rightarrow> bool" where
  "is_credential_key key = (key \<in> set management_keys)"

section \<open>Values\<close>

datatype config_value = CText str | CInteger int

fun cv_str :: "config_value \<Rightarrow> str option" where
  "cv_str (CText s) = Some s"
| "cv_str (CInteger _) = None"

definition i64_text :: "int \<Rightarrow> str" where
  "i64_text n = (if n < 0 then CHR ''-'' # dec (nat (- n)) else dec (nat n))"

fun cv_display :: "config_value \<Rightarrow> str" where
  "cv_display (CText s) = s"
| "cv_display (CInteger n) = i64_text n"

fun cv_toml :: "config_value \<Rightarrow> str" where
  "cv_toml (CText s) = toml_string s"
| "cv_toml (CInteger n) = i64_text n"

text \<open>\<open>output::Format::parse\<close>.\<close>

definition format_named :: "str \<Rightarrow> bool" where
  "format_named name = (name \<in> {''pretty'', ''table'', ''json''})"

fun text_value :: "toml \<Rightarrow> str option" where
  "text_value (TString s) = (if s \<noteq> [] then Some s else None)"
| "text_value _ = None"

fun integer_value :: "int \<Rightarrow> int \<Rightarrow> toml \<Rightarrow> config_value option" where
  "integer_value lo hi (TInteger n) = (if lo \<le> n \<and> n \<le> hi then Some (CInteger n) else None)"
| "integer_value _ _ _ = None"

definition text_if :: "(str \<Rightarrow> bool) \<Rightarrow> toml \<Rightarrow> config_value option" where
  "text_if ok v = (case text_value v of
      Some s \<Rightarrow> if ok s then Some (CText s) else None | None \<Rightarrow> None)"

definition read_rule :: "libs \<Rightarrow> str \<Rightarrow> toml \<Rightarrow> config_value option" where
  "read_rule L key v =
     (case rule_of key of
        RText \<Rightarrow> text_if (\<lambda>_. True) v
      | RUrl \<Rightarrow> text_if (\<lambda>s. lib_url L s \<noteq> None) v
      | ROutput \<Rightarrow> text_if format_named v
      | RRetries \<Rightarrow> integer_value 0 5 v
      | RConcurrency \<Rightarrow> integer_value 1 20 v)"

definition invalid_value :: str where
  "invalid_value = ''Invalid value for configuration setting''"

definition blank_credential :: str where
  "blank_credential =
     ''Tenant config requires nonempty mgmtTsgId, mgmtClientId and mgmtClientSecret''"

definition i64_max :: nat where "i64_max = 9223372036854775807"

definition decimal_value :: "str \<Rightarrow> int \<Rightarrow> int \<Rightarrow> int option" where
  "decimal_value v lo hi =
     (if v = [] \<or> \<not> list_all is_digit v then None
      else let n = undec v
        in if n \<le> u64_max \<and> n \<le> i64_max \<and> lo \<le> int n \<and> int n \<le> hi then Some (int n) else None)"

definition written_integer :: "str \<Rightarrow> int \<Rightarrow> int \<Rightarrow> str + config_value" where
  "written_integer v lo hi =
     (case decimal_value v lo hi of Some n \<Rightarrow> Ok (CInteger n) | None \<Rightarrow> Err invalid_value)"

definition write_rule :: "libs \<Rightarrow> str \<Rightarrow> str \<Rightarrow> str \<Rightarrow> str + config_value" where
  "write_rule L tenant key v =
     (if js_trim v = [] then
        Err (if is_credential_key key then blank_credential
             else ''Empty values are not stored; use '' @ [CHR 0x27] @ program @ '' tenant unset ''
                  @ tenant @ '' '' @ key @ [CHR 0x27] @ '' to remove a setting'')
      else if list_ex is_control (utf8_chars v) then Err invalid_value
      else if key = ''mgmtTsgId'' then
        (if 1 \<le> length v \<and> length v \<le> 32 \<and> list_all is_digit v then Ok (CText v)
         else Err ''Invalid mgmtTsgId: the Rust SDK requires 1-32 ASCII digits'')
      else if is_endpoint_key key then
        (if lib_endpoint L v \<and> (rule_of key \<noteq> RUrl \<or> lib_url L v \<noteq> None) then Ok (CText v)
         else Err (''Invalid '' @ key @ '': endpoints must use https (http is allowed only for loopback hosts) and must not contain credentials, a query or a fragment''))
      else (case rule_of key of
         RRetries \<Rightarrow> written_integer v 0 5
       | RConcurrency \<Rightarrow> written_integer v 1 20
       | ROutput \<Rightarrow> if format_named v then Ok (CText v) else Err invalid_value
       | _ \<Rightarrow> Ok (CText v)))"

section \<open>Tenant files\<close>

type_synonym tenant_config = "(str \<times> config_value) list" \<comment> \<open>\<open>present\<close>, in schema order\<close>

datatype file_problem = InvalidToml | UnknownKeys "str list" | InvalidValues "str list"

fun read_values :: "libs \<Rightarrow> toml_table \<Rightarrow> str list \<Rightarrow> tenant_config \<times> str list" where
  "read_values L table [] = ([], [])"
| "read_values L table (key # keys) =
     (let (present, invalid) = read_values L table keys
      in case table_get table key of
           None \<Rightarrow> (present, invalid)
         | Some v \<Rightarrow>
             (case read_rule L key v of
                Some cv \<Rightarrow> ((key, cv) # present, invalid)
              | None \<Rightarrow> (present, key # invalid)))"

definition config_parse :: "libs \<Rightarrow> str \<Rightarrow> file_problem + tenant_config" where
  "config_parse L input =
     (case lib_toml L input of
        None \<Rightarrow> Err InvalidToml
      | Some table \<Rightarrow>
          (let unknown = filter (\<lambda>key. schema_key key = None) (map fst table)
           in if unknown \<noteq> [] then Err (UnknownKeys unknown)
              else (let (present, invalid) = read_values L table schema_keys
                    in if invalid = [] then Ok present else Err (InvalidValues invalid))))"

definition schema_rank :: "str \<Rightarrow> nat" where
  "schema_rank key = (if key \<in> set schema_keys
     then Suc (length (takeWhile (\<lambda>k. k \<noteq> key) schema_keys)) else 0)"

definition config_set :: "str \<Rightarrow> config_value \<Rightarrow> tenant_config \<Rightarrow> tenant_config" where
  "config_set key v config =
     sort_key (\<lambda>(name, _). schema_rank name) (filter (\<lambda>(name, _). name \<noteq> key) config @ [(key, v)])"

definition from_values :: "(str \<times> config_value) list \<Rightarrow> tenant_config" where
  "from_values vs = foldl (\<lambda>config (key, v). config_set key v config) [] vs"

definition config_unset :: "str \<Rightarrow> tenant_config \<Rightarrow> bool \<times> tenant_config" where
  "config_unset key config =
     (let left = filter (\<lambda>(name, _). name \<noteq> key) config
      in (length config \<noteq> length left, left))"

definition config_toml :: "tenant_config \<Rightarrow> str" where
  "config_toml config = concat (map (\<lambda>(key, v). key @ '' = '' @ cv_toml v @ nl) config)"

definition raw_value :: "tenant_config \<Rightarrow> str \<Rightarrow> config_value option" where
  "raw_value config key = map_of config key"

definition effective_str :: "tenant_config \<Rightarrow> str \<Rightarrow> str option" where
  "effective_str config key = Option.bind (raw_value config key) cv_str"

definition num_retries :: "tenant_config \<Rightarrow> nat option" where
  "num_retries config = (case raw_value config ''airsNumRetries'' of
      Some (CInteger n) \<Rightarrow> if 0 \<le> n \<and> n < 2 ^ 32 then Some (nat n) else None
    | _ \<Rightarrow> None)"

definition default_output :: "tenant_config \<Rightarrow> str option" where
  "default_output config = effective_str config ''defaultOutput''"

definition parsed_value :: "tenant_config \<Rightarrow> str \<Rightarrow> config_value option" where
  "parsed_value config key = (case raw_value config key of
      Some v \<Rightarrow> Some v
    | None \<Rightarrow> if key = ''scanConcurrency'' then Some (CInteger default_scan_concurrency) else None)"

section \<open>What is shown\<close>

datatype shown_value = ShownValue config_value | Redacted str

fun shown_display :: "shown_value \<Rightarrow> str" where
  "shown_display (ShownValue v) = cv_display v"
| "shown_display (Redacted s) = s"

definition redacted_mark :: str where "redacted_mark = ''[REDACTED]''"

definition opt_text :: "str option \<Rightarrow> (str \<Rightarrow> str) \<Rightarrow> str" where
  "opt_text x f = (case x of Some s \<Rightarrow> f s | None \<Rightarrow> [])"

definition redact_url :: "libs \<Rightarrow> str \<Rightarrow> str option" where
  "redact_url L s =
     (case lib_url L s of
        None \<Rightarrow> if CHR ''@'' \<in> set s \<or> CHR ''?'' \<in> set s \<or> CHR ''#'' \<in> set s then Some redacted_mark else None
      | Some u \<Rightarrow>
          (let credentials = (u_username u \<noteq> [] \<or> u_password u \<noteq> None)
           in if \<not> credentials \<and> u_query u = None \<and> u_fragment u = None then None
              else (case u_host u of
                      None \<Rightarrow> Some redacted_mark
                    | Some host \<Rightarrow>
                        Some (u_scheme u @ ''://'' @ (if credentials then ''[REDACTED]@'' else []) @ host
                          @ (case u_port u of Some port \<Rightarrow> '':'' @ dec port | None \<Rightarrow> [])
                          @ u_path u
                          @ opt_text (u_query u) (\<lambda>_. ''?[REDACTED]'')
                          @ opt_text (u_fragment u) (\<lambda>_. ''#[REDACTED]'')))))"

definition redact :: "libs \<Rightarrow> str \<Rightarrow> config_value \<Rightarrow> shown_value" where
  "redact L key v = (case v of
      CText s \<Rightarrow>
        if is_secret_key key \<and> s \<noteq> [] then Redacted redacted_mark
        else if is_endpoint_key key then
          (case redact_url L s of Some r \<Rightarrow> ShownValue (CText r) | None \<Rightarrow> ShownValue v)
        else ShownValue v
    | CInteger _ \<Rightarrow> ShownValue v)"

definition read_rows :: "libs \<Rightarrow> tenant_config \<Rightarrow> (str \<times> shown_value) list" where
  "read_rows L config = List.map_filter
     (\<lambda>key. map_option (\<lambda>v. (key, redact L key v)) (parsed_value config key)) schema_keys"

definition shown_config :: "libs \<Rightarrow> tenant_config \<Rightarrow> str \<Rightarrow> shown_value" where
  "shown_config L config key =
     redact L key (case parsed_value config key of Some v \<Rightarrow> v | None \<Rightarrow> CText [])"

definition secret_values :: "tenant_config \<Rightarrow> str list" where
  "secret_values config =
     List.map_filter (\<lambda>(_, v). cv_str v) (filter (\<lambda>(key, _). is_secret_key key) config)"

section \<open>Credentials\<close>

definition is_present :: "tenant_config \<Rightarrow> str \<Rightarrow> bool" where
  "is_present config key =
     (case effective_str config key of Some s \<Rightarrow> js_trim s \<noteq> [] | None \<Rightarrow> False)"

definition missing_management :: "tenant_config \<Rightarrow> str list" where
  "missing_management config = filter (\<lambda>key. \<not> is_present config key) management_keys"

definition configured_scanner_keys :: "tenant_config \<Rightarrow> str list" where
  "configured_scanner_keys config = filter (is_present config) scanner_keys"

definition setting_remedy :: "str option \<Rightarrow> str list \<Rightarrow> str" where
  "setting_remedy tenant keys = (case tenant of
      Some name \<Rightarrow> ''Run '' @ [CHR 0x27] @ program @ '' tenant set '' @ name @ '' <key>'' @ [CHR 0x27]
        @ '' for '' @ join '', '' keys @ '' (secrets prompt hidden, or use --stdin)''
    | None \<Rightarrow> ''Run '' @ [CHR 0x27] @ program @ '' tenant create <name>'' @ [CHR 0x27]
        @ '' (prompts for the OAuth credentials), then '' @ [CHR 0x27] @ program
        @ '' tenant switch <name>'' @ [CHR 0x27])"

definition require_management :: "tenant_config \<Rightarrow> str option \<Rightarrow> cli_error + unit" where
  "require_management config tenant =
     (let missing = missing_management config
      in if missing = [] then Ok ()
         else Err (operational (''Management credentials are not configured (missing ''
                @ join '', '' missing @ ''). '' @ setting_remedy tenant missing)))"

definition require_scanner :: "tenant_config \<Rightarrow> str option \<Rightarrow> cli_error + unit" where
  "require_scanner config tenant =
     (if configured_scanner_keys config \<noteq> [] then Ok ()
      else Err (operational (''Scanner credentials are not configured (airsApiKey or airsApiToken). ''
             @ setting_remedy tenant [''airsApiKey''])))"

end
