(* ===== verification/Store.thy ===== *)
theory Store
  imports TenantConfig
begin

text \<open>
  The tenant store, \<open>src/store/mod.rs\<close>: the index \<open>config.toml\<close> with its checks and canonical
  bytes, the safety rules for directories and files, and the checked reads. A store is its
  directory. A descriptor is left open where the code drops a \<open>File\<close>.
\<close>

definition max_file_bytes :: nat where "max_file_bytes = 1048576"
definition max_tenants :: nat where "max_tenants = 1000"
definition index_file :: str where "index_file = ''config.toml''"
definition tenants_dir_name :: str where "tenants_dir_name = ''tenants''"
definition lock_file_name :: str where "lock_file_name = ''config.lock''"

section \<open>Errors\<close>

definition index_error :: "str \<Rightarrow> cli_error" where
  "index_error path = operational (''Cannot read tenant registry at '' @ shown path
     @ ''; restore a valid registry before proceeding'')"

definition tenant_file_error :: "str \<Rightarrow> cli_error" where
  "tenant_file_error path = operational (''Cannot read a valid tenant config at '' @ shown path)"

section \<open>The safety rules\<close>

definition file_metadata_ok :: "bool \<Rightarrow> nat \<Rightarrow> 32 word \<Rightarrow> nat \<Rightarrow> bool" where
  "file_metadata_ok is_file uid mode euid = (is_file \<and> uid = euid \<and> and mode 63 = 0)"

datatype dir_state = DirMissing | DirPresent
datatype dir_error = DirUnsafe | DirIo
datatype file_error = FileNotFound | FileUnsafe | FileTooLarge | FileIo

definition file_ok :: "'w os \<Rightarrow> file_stat \<Rightarrow> bool" where
  "file_ok E st = file_metadata_ok (st_kind st = RegularFile) (st_uid st) (st_mode st) (os_euid E)"

definition check_dir :: "'w os \<Rightarrow> str \<Rightarrow> ('w world, dir_error, dir_state) prog" where
  "check_dir E path =
     and_then (attempted (tries (os_lstat E path))) (\<lambda>stat.
     case stat of
       Inr st \<Rightarrow> if dir_ok E st then ret DirPresent else fail DirUnsafe
     | Inl e \<Rightarrow> if e = NOENT then ret DirMissing else fail DirIo)"

definition io_kind :: "errno \<Rightarrow> file_error" where
  "io_kind e = (if e = NOENT then FileNotFound else FileIo)"

definition open_kind :: "errno \<Rightarrow> file_error" where
  "open_kind e = (if e = NOENT then FileNotFound else if e = LOOP then FileUnsafe else FileIo)"

text \<open>\<open>opener\<close> is the open with the flags of the caller (\<open>os_open_read E\<close> or \<open>os_open_rdwr E\<close>);
  the answer is the descriptor and its metadata.\<close>

definition open_checked :: "'w os \<Rightarrow> (str \<Rightarrow> 'w \<Rightarrow> (errno + nat) \<times> 'w) \<Rightarrow> str \<Rightarrow>
    ('w world, file_error, nat \<times> file_stat) prog" where
  "open_checked E opener path =
     and_then (mapped_err io_kind (tries (os_lstat E path))) (\<lambda>before.
     if \<not> file_ok E before then fail FileUnsafe else
     and_then (mapped_err open_kind (tries (opener path))) (\<lambda>fd.
     and_then (mapped_err (\<lambda>_. FileIo) (tries (os_fstat E fd))) (\<lambda>after.
     if identity_of after \<noteq> identity_of before \<or> \<not> file_ok E after then fail FileUnsafe
     else ret (fd, after))))"

definition read_checked :: "'w os \<Rightarrow> str \<Rightarrow> ('w world, file_error, str) prog" where
  "read_checked E path =
     and_then (open_checked E (os_open_read E) path) (\<lambda>(fd, _).
     and_then (mapped_err (\<lambda>_. FileIo) (tries (os_read E fd (max_file_bytes + 1)))) (\<lambda>contents.
     if max_file_bytes < length contents then fail FileTooLarge else ret contents))"

section \<open>The index\<close>

record index =
  ix_exists :: bool
  ix_active :: "str option"
  ix_tenants :: "(str \<times> str) list" \<comment> \<open>name and pinned TSG, in byte order of the names\<close>

definition empty_index :: index where
  "empty_index = \<lparr>ix_exists = False, ix_active = None, ix_tenants = []\<rparr>"

text \<open>\<open>BTreeMap::insert\<close> and \<open>remove\<close>.\<close>

fun pin_insert :: "(str \<times> str) list \<Rightarrow> str \<Rightarrow> str \<Rightarrow> (str \<times> str) list" where
  "pin_insert [] name tsg = [(name, tsg)]"
| "pin_insert ((n, old) # rest) name tsg =
     (if n = name then (name, tsg) # rest
      else if key_less name n then (name, tsg) # (n, old) # rest
      else (n, old) # pin_insert rest name tsg)"

definition pin_remove :: "(str \<times> str) list \<Rightarrow> str \<Rightarrow> (str \<times> str) list" where
  "pin_remove tenants name = filter (\<lambda>(n, _). n \<noteq> name) tenants"

definition pinned :: "(str \<times> str) list \<Rightarrow> str \<Rightarrow> str option" where
  "pinned = map_of"

definition index_tsg :: "index \<Rightarrow> str \<Rightarrow> str option" where
  "index_tsg ix name = pinned (ix_tenants ix) name"

definition entry_tsg :: "toml \<Rightarrow> str option" where
  "entry_tsg entry = (case entry of
      TTable fs \<Rightarrow>
        (case (length fs, table_get fs ''tsg_id'') of
           (n, Some (TString tsg)) \<Rightarrow> if n = 1 \<and> tsg \<noteq> [] then Some tsg else None
         | _ \<Rightarrow> None)
    | _ \<Rightarrow> None)"

fun read_tenants :: "(str \<times> str) list \<Rightarrow> toml_table \<Rightarrow> (str \<times> str) list option" where
  "read_tenants tenants [] = Some tenants"
| "read_tenants tenants ((name, entry) # rest) =
     (case entry_tsg entry of
        None \<Rightarrow> None
      | Some tsg \<Rightarrow>
          if \<not> valid_tenant_name name then None
          else read_tenants (pin_insert tenants name tsg) rest)"

definition index_tenants :: "toml option \<Rightarrow> (str \<times> str) list option" where
  "index_tenants v = (case v of
      None \<Rightarrow> Some []
    | Some (TTable entries) \<Rightarrow>
        if max_tenants < length entries then None else read_tenants [] entries
    | Some _ \<Rightarrow> None)"

text \<open>The outer \<open>None\<close> is the refusal.\<close>

definition index_active :: "(str \<times> str) list \<Rightarrow> toml option \<Rightarrow> str option option" where
  "index_active tenants v = (case v of
      None \<Rightarrow> Some None
    | Some (TString name) \<Rightarrow> if pinned tenants name \<noteq> None then Some (Some name) else None
    | Some _ \<Rightarrow> None)"

definition names_distinct :: "(str \<times> str) list \<Rightarrow> bool" where
  "names_distinct tenants =
     (length (remdups (map (\<lambda>(n, _). ascii_lower n) tenants)) = length tenants)"

definition index_parse :: "libs \<Rightarrow> str \<Rightarrow> index option" where
  "index_parse L input =
     (case lib_toml L input of
        None \<Rightarrow> None
      | Some table \<Rightarrow>
          if \<not> list_all (\<lambda>(key, _). key \<in> {''version'', ''active'', ''tenants''}) table then None
          else if table_get table ''version'' \<noteq> Some (TInteger 1) then None
          else (case index_tenants (table_get table ''tenants'') of
                  None \<Rightarrow> None
                | Some tenants \<Rightarrow>
                    (case index_active tenants (table_get table ''active'') of
                       None \<Rightarrow> None
                     | Some active \<Rightarrow>
                         if names_distinct tenants
                         then Some \<lparr>ix_exists = True, ix_active = active, ix_tenants = tenants\<rparr>
                         else None)))"

definition index_toml :: "index \<Rightarrow> str" where
  "index_toml ix =
     ''version = 1'' @ nl
     @ (case ix_active ix of Some active \<Rightarrow> ''active = '' @ toml_string active @ nl | None \<Rightarrow> [])
     @ concat (map (\<lambda>(name, tsg).
         nl @ ''[tenants.'' @ name @ '']'' @ nl @ ''tsg_id = '' @ toml_string tsg @ nl) (ix_tenants ix))"

definition index_names :: "index \<Rightarrow> str list" where
  "index_names ix = map fst (ix_tenants ix)"

definition case_conflict :: "index \<Rightarrow> str \<Rightarrow> str option" where
  "case_conflict ix name =
     find (\<lambda>other. other \<noteq> name \<and> eq_ignore_ascii_case other name) (index_names ix)"

definition registered_suffix :: "index \<Rightarrow> str" where
  "registered_suffix ix =
     (if ix_tenants ix = [] then ''(no tenants registered)''
      else ''(registered: '' @ join '', '' (index_names ix) @ '')'')"

section \<open>The store\<close>

record store =
  store_root :: str

definition store_locate :: "str option \<Rightarrow> str option \<Rightarrow> str option \<Rightarrow> cli_error + store" where
  "store_locate config_dir xdg_config_home home =
     (case store_dir config_dir xdg_config_home home of
        Inl e \<Rightarrow> Err e | Inr dir \<Rightarrow> Ok \<lparr>store_root = dir\<rparr>)"

definition index_path :: "store \<Rightarrow> str" where
  "index_path s = joined (store_root s) index_file"

definition tenants_dir :: "store \<Rightarrow> str" where
  "tenants_dir s = joined (store_root s) tenants_dir_name"

definition tenant_path :: "store \<Rightarrow> str \<Rightarrow> str" where
  "tenant_path s name = joined (tenants_dir s) (name @ ''.toml'')"

definition lock_path :: "store \<Rightarrow> str" where
  "lock_path s = joined (store_root s) lock_file_name"

definition read_index :: "'w os \<Rightarrow> libs \<Rightarrow> store \<Rightarrow> ('w world, cli_error, index) prog" where
  "read_index E L s =
     (let path = index_path s in
      and_then (attempted (check_dir E (store_root s))) (\<lambda>checked.
      case checked of
        Inr DirMissing \<Rightarrow> ret empty_index
      | Inl DirUnsafe \<Rightarrow> fail (unsafe_dir_error (store_root s))
      | Inl DirIo \<Rightarrow> fail (index_error path)
      | Inr DirPresent \<Rightarrow>
          and_then (attempted (read_checked E path)) (\<lambda>contents.
          case contents of
            Inl FileNotFound \<Rightarrow> ret empty_index
          | Inl FileUnsafe \<Rightarrow> fail (unsafe_file_error path)
          | Inl _ \<Rightarrow> fail (index_error path)
          | Inr contents \<Rightarrow>
              (case index_parse L contents of Some ix \<Rightarrow> ret ix | None \<Rightarrow> fail (index_error path)))))"

datatype tenant_file_read = TfNotFound | TfUnsafe str | TfUnreadable

definition read_tenant_bytes :: "'w os \<Rightarrow> store \<Rightarrow> str \<Rightarrow> ('w world, tenant_file_read, str) prog" where
  "read_tenant_bytes E s name =
     (let dir = tenants_dir s; path = tenant_path s name in
      and_then (attempted (check_dir E dir)) (\<lambda>checked.
      case checked of
        Inr DirMissing \<Rightarrow> fail TfNotFound
      | Inl DirUnsafe \<Rightarrow> fail (TfUnsafe dir)
      | Inl DirIo \<Rightarrow> fail TfUnreadable
      | Inr DirPresent \<Rightarrow>
          mapped_err (\<lambda>e. case e of
              FileNotFound \<Rightarrow> TfNotFound | FileUnsafe \<Rightarrow> TfUnsafe path | _ \<Rightarrow> TfUnreadable)
            (read_checked E path)))"

end
