(* ===== verification/TomlText.thy ===== *)
theory TomlText
  imports Store JobLock
begin

text \<open>
  The TOML the store writes, read back: a reader of the fragment of TOML 1.0 that consists of
  \<open>key = value\<close> lines with bare keys, decimal integers and basic strings, and of two-part
  table headers. It stands for what the \<open>toml\<close> crate documents of such a text and is
  independent of the writers it is used to check.
\<close>

section \<open>Basic strings\<close>

definition utf8_encode :: "nat \<Rightarrow> str" where
  "utf8_encode n =
     (if n < 128 then [char_of n]
      else if n < 2048 then [char_of (192 + n div 64), char_of (128 + n mod 64)]
      else [char_of (224 + n div 4096), char_of (128 + n div 64 mod 64), char_of (128 + n mod 64)])"

definition hex_value :: "char \<Rightarrow> nat option" where
  "hex_value c =
     (if is_digit c then Some (code c - 48)
      else if 65 \<le> code c \<and> code c \<le> 70 then Some (code c - 55)
      else if 97 \<le> code c \<and> code c \<le> 102 then Some (code c - 87)
      else None)"

definition escape_letter :: "char \<Rightarrow> str option" where
  "escape_letter c =
     (if c = quote_mark \<or> c = backslash then Some [c]
      else if c = CHR ''b'' then Some (bytes [8])
      else if c = CHR ''t'' then Some (bytes [9])
      else if c = CHR ''n'' then Some (bytes [10])
      else if c = CHR ''f'' then Some (bytes [12])
      else if c = CHR ''r'' then Some (bytes [13])
      else None)"

definition hex4 :: "char \<Rightarrow> char \<Rightarrow> char \<Rightarrow> char \<Rightarrow> nat option" where
  "hex4 a b c d =
     (case (hex_value a, hex_value b, hex_value c, hex_value d) of
        (Some a, Some b, Some c, Some d) \<Rightarrow> Some (((a * 16 + b) * 16 + c) * 16 + d)
      | _ \<Rightarrow> None)"

definition is_scalar :: "nat \<Rightarrow> bool" where
  "is_scalar n = (n < 55296 \<or> 57344 \<le> n \<and> n < 65536)"

text \<open>The body of a basic string up to its closing quote, and what follows.\<close>

fun basic_body :: "str \<Rightarrow> (str \<times> str) option" where
  "basic_body [] = None"
| "basic_body (c # s) =
     (if c = quote_mark then Some ([], s)
      else if c = backslash then
        (case s of
           [] \<Rightarrow> None
         | e # rest \<Rightarrow>
             if e = CHR ''u'' then
               (case rest of
                  h1 # h2 # h3 # h4 # rest \<Rightarrow>
                    (case hex4 h1 h2 h3 h4 of
                       Some n \<Rightarrow>
                         if is_scalar n
                         then map_option (\<lambda>(t, after). (utf8_encode n @ t, after)) (basic_body rest)
                         else None
                     | None \<Rightarrow> None)
                | _ \<Rightarrow> None)
             else
               (case escape_letter e of
                  Some t \<Rightarrow> map_option (\<lambda>(t', after). (t @ t', after)) (basic_body rest)
                | None \<Rightarrow> None))
      else if code c < 32 \<and> c \<noteq> CHR 0x09 \<or> code c = 127 then None
      else map_option (\<lambda>(t, after). (c # t, after)) (basic_body s))"

definition basic_string :: "str \<Rightarrow> str option" where
  "basic_string s =
     (case s of
        c # body \<Rightarrow>
          if c = quote_mark
          then (case basic_body body of Some (t, []) \<Rightarrow> Some t | _ \<Rightarrow> None)
          else None
      | [] \<Rightarrow> None)"

section \<open>Lines\<close>

definition bare_key :: "str \<Rightarrow> bool" where
  "bare_key key = (key \<noteq> [] \<and> list_all (\<lambda>c. is_ascii_alnum c \<or> c = CHR ''_'' \<or> c = CHR ''-'') key)"

definition decimal_digits :: "str \<Rightarrow> bool" where
  "decimal_digits s = (s \<noteq> [] \<and> list_all is_digit s \<and> (length s = 1 \<or> hd s \<noteq> CHR ''0''))"

definition toml_value :: "str \<Rightarrow> toml option" where
  "toml_value s =
     (case basic_string s of
        Some t \<Rightarrow> Some (TString t)
      | None \<Rightarrow> if decimal_digits s \<and> undec s \<le> i64_max then Some (TInteger (int (undec s))) else None)"

datatype toml_line = BlankLine | HeaderLine str str | ValueLine str toml

definition header_line :: "str \<Rightarrow> toml_line option" where
  "header_line s =
     (case strip_suffix '']'' s of
        None \<Rightarrow> None
      | Some path \<Rightarrow>
          (case split_once (CHR ''.'') path of
             Some (a, b) \<Rightarrow> if bare_key a \<and> bare_key b then Some (HeaderLine a b) else None
           | None \<Rightarrow> None))"

definition value_line :: "str \<Rightarrow> toml_line option" where
  "value_line s =
     (case split_once (CHR '' '') s of
        Some (key, rest) \<Rightarrow>
          if bare_key key then
            (case strip_prefix ''= '' rest of
               Some v \<Rightarrow> map_option (ValueLine key) (toml_value v)
             | None \<Rightarrow> None)
          else None
      | None \<Rightarrow> None)"

definition toml_line :: "str \<Rightarrow> toml_line option" where
  "toml_line s =
     (if s = [] then Some BlankLine
      else (case strip_prefix ''['' s of Some rest \<Rightarrow> header_line rest | None \<Rightarrow> value_line s))"

section \<open>Documents\<close>

definition add_new :: "'a \<Rightarrow> (str \<times> 'a) list \<Rightarrow> str \<Rightarrow> (str \<times> 'a) list option" where
  "add_new v fs key = (if key \<in> fst ` set fs then None else Some (fs @ [(key, v)]))"

text \<open>Change the last table under a key of the root.\<close>

fun in_table :: "(toml_table \<Rightarrow> toml_table option) \<Rightarrow> str \<Rightarrow> toml_table \<Rightarrow> toml_table option" where
  "in_table f a [] = None"
| "in_table f a ((k, v) # fs) =
     (if k = a then (case v of TTable t \<Rightarrow> map_option (\<lambda>t'. (k, TTable t') # fs) (f t) | _ \<Rightarrow> None)
      else map_option ((#) (k, v)) (in_table f a fs))"

definition open_table :: "str \<Rightarrow> str \<Rightarrow> toml_table \<Rightarrow> toml_table option" where
  "open_table a b tree =
     (if a \<in> fst ` set tree then in_table (\<lambda>t. add_new (TTable []) t b) a tree
      else Some (tree @ [(a, TTable [(b, TTable [])])]))"

fun add_line :: "toml_line \<Rightarrow> (str \<times> str) option \<times> toml_table \<Rightarrow> ((str \<times> str) option \<times> toml_table) option" where
  "add_line BlankLine st = Some st"
| "add_line (HeaderLine a b) (_, tree) = map_option (Pair (Some (a, b))) (open_table a b tree)"
| "add_line (ValueLine key v) (None, tree) = map_option (Pair None) (add_new v tree key)"
| "add_line (ValueLine key v) (Some (a, b), tree) =
     map_option (Pair (Some (a, b))) (in_table (in_table (\<lambda>t. add_new v t key) b) a tree)"

fun add_lines :: "str list \<Rightarrow> (str \<times> str) option \<times> toml_table \<Rightarrow> ((str \<times> str) option \<times> toml_table) option" where
  "add_lines [] st = Some st"
| "add_lines (s # lines) st =
     (case toml_line s of
        None \<Rightarrow> None
      | Some l \<Rightarrow> (case add_line l st of None \<Rightarrow> None | Some st' \<Rightarrow> add_lines lines st'))"

definition toml_fragment :: "str \<Rightarrow> toml_table option" where
  "toml_fragment doc = map_option snd (add_lines (split_on (CHR 0x0A) doc) (None, []))"

text \<open>
  A \<open>toml::Table\<close> is a map in the byte order of its keys, at every level. (Keys are unique: a duplicate
  is refused above.)
\<close>

fun put_key :: "str \<Rightarrow> toml \<Rightarrow> toml_table \<Rightarrow> toml_table" where
  "put_key key v [] = [(key, v)]"
| "put_key key v ((name, w) # fs) =
     (if key_less key name then (key, v) # (name, w) # fs else (name, w) # put_key key v fs)"

definition in_key_order :: "toml_table \<Rightarrow> toml_table" where
  "in_key_order fs = foldr (\<lambda>(key, v). put_key key v) fs []"

fun byte_ordered :: "toml \<Rightarrow> toml" where
  "byte_ordered (TTable fs) = TTable (in_key_order (map (\<lambda>(key, v). (key, byte_ordered v)) fs))"
| "byte_ordered (TString s) = TString s"
| "byte_ordered (TInteger n) = TInteger n"
| "byte_ordered TOther = TOther"

definition ordered_table :: "toml_table \<Rightarrow> toml_table" where
  "ordered_table fs = in_key_order (map (\<lambda>(key, v). (key, byte_ordered v)) fs)"

text \<open>
  \<open>parse_toml\<close> reads every text of the fragment that is UTF-8 as the specification does, into such a
  map; of any other bytes nothing is asked.
\<close>

definition reads_toml :: "libs \<Rightarrow> bool" where
  "reads_toml L = (\<forall>doc t. valid_utf8 doc \<and> toml_fragment doc = Some t \<longrightarrow> lib_toml L doc = Some (ordered_table t))"

end
