(* ===== verification/StoreWrite.thy ===== *)
theory StoreWrite
  imports Store BulkOutput
begin

text \<open>
  Writing the tenant store: the wait for its lock (\<open>src/store/lock.rs\<close>), the atomic
  replacement of a file and the transaction with its rollback (\<open>src/store/atomic.rs\<close>).

  The wait is a loop with fuel whose last answer is \<open>None\<close>; \<open>StoreLock\<close> shows how much is enough.
\<close>

section \<open>The lock\<close>

definition poll_millis :: nat where "poll_millis = 100"
definition wait_bound :: nat where "wait_bound = 5000"
definition reopen_limit :: nat where "reopen_limit = 3"

record 'w waiter =
  w_waiting :: "str \<Rightarrow> ('w world, cli_error, unit) prog"
  w_interrupted :: "('w world, cli_error, cli_error option) prog"

definition read_record :: "'w os \<Rightarrow> nat \<Rightarrow> ('w world, 'e, str) prog" where
  "read_record E fd =
     and_then (attempted (tries (os_read E fd record_limit))) (\<lambda>got.
     ret (case got of Inr b \<Rightarrow> b | Inl (e :: errno) \<Rightarrow> []))"

definition open_lock_file :: "'w os \<Rightarrow> str \<Rightarrow> ('w world, cli_error, nat) prog" where
  "open_lock_file E path =
     and_then (attempted (tries (os_create_excl E path))) (\<lambda>created.
     case created of
       Inr fd \<Rightarrow> and_then (mapped_err (\<lambda>(_ :: errno). cannot_lock path) (tries (os_fchmod E fd))) (\<lambda>_. ret fd)
     | Inl e \<Rightarrow>
         if e = EXIST then
           and_then (mapped_err (\<lambda>e. if e = FileUnsafe then unsafe_file_error path else cannot_lock path)
             (open_checked E (os_open_rdwr E) path)) (\<lambda>(fd, _). ret fd)
         else if e = LOOP then fail (unsafe_file_error path)
         else fail (cannot_lock path))"

definition stop_if_interrupted :: "'w waiter \<Rightarrow> ('w world, cli_error, unit) prog" where
  "stop_if_interrupted W =
     and_then (w_interrupted W) (\<lambda>stop. case stop of Some e \<Rightarrow> fail e | None \<Rightarrow> ret ())"

text \<open>The branch of a lock that another process holds: announce it once, stop on a signal or at the
  bound, else sleep.\<close>

definition wait_once :: "'w os \<Rightarrow> 'w waiter \<Rightarrow> str \<Rightarrow> nat \<Rightarrow> nat \<Rightarrow> nat \<Rightarrow> bool \<Rightarrow> ('w world, cli_error, unit) prog" where
  "wait_once E W path bound started fd announced =
     and_then (read_record E fd) (\<lambda>record.
     let holder = holder_text record in
     and_then (if announced then ret () else w_waiting W holder) (\<lambda>_.
     and_then (stop_if_interrupted W) (\<lambda>_.
     and_then (calls (os_monotonic E)) (\<lambda>now.
     if bound \<le> now - started then
       fail (operational (''Another change is in progress: '' @ shown path @ '' is held by '' @ holder
         @ ''; try again when it finishes''))
     else
     and_then (calls (os_sleep E poll_millis)) (\<lambda>_.
     stop_if_interrupted W)))))"

fun lock_loop :: "nat \<Rightarrow> 'w os \<Rightarrow> 'w waiter \<Rightarrow> str \<Rightarrow> nat \<Rightarrow> nat \<Rightarrow> nat \<Rightarrow> bool \<Rightarrow> nat \<Rightarrow>
    ('w world, cli_error, nat option) prog" where
  "lock_loop 0 E W path bound started fd announced reopened = ret None"
| "lock_loop (Suc fuel) E W path bound started fd announced reopened =
     and_then (attempted (tries (os_flock E fd))) (\<lambda>locked.
     case locked of
       Inr _ \<Rightarrow>
         and_then (still_named E path fd) (\<lambda>named.
         if named then ret (Some fd)
         else if reopen_limit < reopened + 1 then fail (cannot_lock path)
         else and_then (open_lock_file E path) (\<lambda>fd.
              lock_loop fuel E W path bound started fd announced (reopened + 1)))
     | Inl e \<Rightarrow>
         if e = WOULDBLOCK \<or> e = INTR then
           and_then (wait_once E W path bound started fd announced) (\<lambda>_.
           lock_loop fuel E W path bound started fd True reopened)
         else fail (cannot_lock path))"

definition write_holder :: "'w os \<Rightarrow> nat \<Rightarrow> ('w world, cli_error, unit) prog" where
  "write_holder E fd =
     and_then (calls (os_now E)) (\<lambda>now.
     and_then (attempted (tries (os_truncate E fd))) (\<lambda>(_ :: errno + unit).
     and_then (attempted (tries (os_write_all E fd (holder_record (os_pid E) (cut_to (os_host E) 255) now))))
       (\<lambda>(_ :: errno + unit). ret ())))"

text \<open>\<open>acquire_with\<close>; \<open>None\<close> when the fuel of the loop ran out.\<close>

definition acquire_with :: "nat \<Rightarrow> 'w os \<Rightarrow> store \<Rightarrow> 'w waiter \<Rightarrow> nat \<Rightarrow> ('w world, cli_error, nat option) prog" where
  "acquire_with fuel E s W bound =
     (let path = lock_path s in
      and_then (open_lock_file E path) (\<lambda>fd.
      and_then (calls (os_monotonic E)) (\<lambda>started.
      and_then (lock_loop fuel E W path bound started fd False 0) (\<lambda>held.
      case held of
        None \<Rightarrow> ret None
      | Some fd \<Rightarrow> and_then (write_holder E fd) (\<lambda>_. ret (Some fd))))))"

text \<open>The reopened descriptors and one wait of at least 100 ms each until the bound.\<close>

definition lock_fuel :: "nat \<Rightarrow> nat" where
  "lock_fuel bound = bound div poll_millis + reopen_limit + 3"

definition acquire :: "'w os \<Rightarrow> store \<Rightarrow> 'w waiter \<Rightarrow> ('w world, cli_error, nat option) prog" where
  "acquire E s W = acquire_with (lock_fuel wait_bound) E s W wait_bound"

definition release :: "'w os \<Rightarrow> nat \<Rightarrow> ('w world, 'e, unit) prog" where
  "release E fd =
     and_then (attempted (tries (os_truncate E fd))) (\<lambda>(_ :: errno + unit).
     and_then (attempted (tries (os_close E fd))) (\<lambda>(_ :: errno + unit). ret ()))"

section \<open>Atomic writes\<close>

datatype saved = Durable | DirectoryNotSynced

definition not_changed :: "str \<Rightarrow> cli_error" where
  "not_changed path = operational (''Cannot save '' @ shown path @ ''; it was not changed'')"

definition read_only_error :: "str \<Rightarrow> cli_error" where
  "read_only_error path = operational (shown path
     @ '' is read-only; restore write permission (chmod 600) to change it'')"

definition check_size :: "str \<Rightarrow> str \<Rightarrow> cli_error + unit" where
  "check_size path contents =
     (if max_file_bytes < length contents
      then Err (operational (''Cannot save '' @ shown path @ '': it would exceed 1 MiB'')) else Ok ())"

definition check_replaceable :: "'w os \<Rightarrow> str \<Rightarrow> ('w world, cli_error, unit) prog" where
  "check_replaceable E path =
     and_then (attempted (open_checked E (os_open_read E) path)) (\<lambda>opened.
     case opened of
       Inr (fd, _) \<Rightarrow>
         and_then (mapped_err (\<lambda>(_ :: errno). not_changed path) (tries (os_fstat E fd))) (\<lambda>st.
         if and (st_mode st) 128 = 0 then fail (read_only_error path) else ret ())
     | Inl FileNotFound \<Rightarrow> ret ()
     | Inl FileUnsafe \<Rightarrow> fail (unsafe_file_error path)
     | Inl _ \<Rightarrow> fail (not_changed path))"

definition sync_dir :: "'w os \<Rightarrow> str \<Rightarrow> ('w world, 'e, bool) prog" where
  "sync_dir E dir =
     and_then (attempted (tries (os_sync_dir E dir))) (\<lambda>(synced :: errno + unit). ret (is_ok synced))"

text \<open>The closure of \<open>write_atomic\<close>: create the temporary file, fill and sync it, rename it.\<close>

definition replace_file :: "'w os \<Rightarrow> str \<Rightarrow> str \<Rightarrow> str \<Rightarrow> ('w world, errno, unit) prog" where
  "replace_file E temp path contents =
     and_then (tries (os_create_excl E temp)) (\<lambda>fd.
     and_then (tries (os_fchmod E fd)) (\<lambda>_.
     and_then (tries (os_write_all E fd contents)) (\<lambda>_.
     and_then (tries (os_sync_all E fd)) (\<lambda>_.
     tries (os_rename E temp path)))))"

definition write_atomic :: "'w os \<Rightarrow> str \<Rightarrow> str \<Rightarrow> str \<Rightarrow> ('w world, cli_error, saved) prog" where
  "write_atomic E dir path contents =
     and_then (check_replaceable E path) (\<lambda>_.
     case file_name path of
       None \<Rightarrow> fail (not_changed path)
     | Some name \<Rightarrow>
         and_then (calls (os_random E)) (\<lambda>random.
         let temp = joined dir (temp_name name (os_pid E) random) in
         and_then (attempted (replace_file E temp path contents)) (\<lambda>written.
         case written of
           Inl (e :: errno) \<Rightarrow> and_then (unlinked E temp) (\<lambda>_. fail (not_changed path))
         | Inr _ \<Rightarrow>
             and_then (sync_dir E dir) (\<lambda>synced.
             ret (if synced then Durable else DirectoryNotSynced)))))"

definition ensure_dir :: "'w os \<Rightarrow> str \<Rightarrow> ('w world, cli_error, bool) prog" where
  "ensure_dir E dir =
     and_then (attempted (check_dir E dir)) (\<lambda>checked.
     case checked of
       Inr DirPresent \<Rightarrow> ret False
     | Inl DirUnsafe \<Rightarrow> fail (unsafe_dir_error dir)
     | Inl DirIo \<Rightarrow> fail (cannot_create dir)
     | Inr DirMissing \<Rightarrow>
         and_then (mapped_err (\<lambda>(_ :: errno). cannot_create dir) (tries (os_create_dirs E dir))) (\<lambda>_.
         and_then (attempted (check_dir E dir)) (\<lambda>again.
         case again of
           Inr DirPresent \<Rightarrow> ret True
         | Inl DirUnsafe \<Rightarrow> fail (unsafe_dir_error dir)
         | _ \<Rightarrow> fail (cannot_create dir))))"

section \<open>Stale temporary files\<close>

definition temp_suffix :: "str \<Rightarrow> bool" where
  "temp_suffix rest =
     (case split_once (CHR ''.'') rest of
        None \<Rightarrow> False
      | Some (pid, rest) \<Rightarrow>
          (case strip_suffix ''.tmp'' rest of
             None \<Rightarrow> False
           | Some hex \<Rightarrow>
               1 \<le> length pid \<and> length pid \<le> 10 \<and> list_all is_digit pid
               \<and> length hex = 16 \<and> list_all is_lower_hex hex))"

definition is_index_temp :: "str \<Rightarrow> bool" where
  "is_index_temp name = (case strip_prefix ''.config.toml.'' name of
      Some rest \<Rightarrow> temp_suffix rest | None \<Rightarrow> False)"

text \<open>\<open>str::split_once\<close> on a text: at its first occurrence.\<close>

fun split_at_text :: "str \<Rightarrow> str \<Rightarrow> (str \<times> str) option" where
  "split_at_text sep [] = (if sep = [] then Some ([], []) else None)"
| "split_at_text sep (c # s) =
     (case strip_prefix sep (c # s) of
        Some rest \<Rightarrow> Some ([], rest)
      | None \<Rightarrow> map_option (\<lambda>(a, b). (c # a, b)) (split_at_text sep s))"

definition is_tenant_temp :: "str \<Rightarrow> bool" where
  "is_tenant_temp name =
     (case strip_prefix ''.'' name of
        None \<Rightarrow> False
      | Some rest \<Rightarrow>
          (case split_at_text ''.toml.'' rest of
             None \<Rightarrow> False
           | Some (tenant, ending) \<Rightarrow> valid_tenant_name tenant \<and> temp_suffix ending))"

definition open_dir_checked :: "'w os \<Rightarrow> str \<Rightarrow> ('w world, dir_error, nat option) prog" where
  "open_dir_checked E dir =
     and_then (attempted (tries (os_open_dir E dir))) (\<lambda>opened.
     case opened of
       Inl e \<Rightarrow>
         if e = NOENT then ret None
         else if e = LOOP \<or> e = NOTDIR then fail DirUnsafe
         else fail DirIo
     | Inr fd \<Rightarrow>
         and_then (mapped_err (\<lambda>(_ :: errno). DirIo) (tries (os_fstat E fd))) (\<lambda>st.
         if dir_ok E st then ret (Some fd) else fail DirUnsafe))"

definition sweep_one :: "'w os \<Rightarrow> str \<Rightarrow> str \<Rightarrow> ('w world, 'e, unit) prog" where
  "sweep_one E dir name =
     and_then (attempted (tries (os_lstat E (joined dir name)))) (\<lambda>stat.
     if (case stat of Inr st \<Rightarrow> st_kind st = RegularFile \<and> st_uid st = os_euid E | Inl (e :: errno) \<Rightarrow> False)
     then and_then (unlinked E (joined dir name)) (\<lambda>_. ret ())
     else ret ())"

definition sweep :: "'w os \<Rightarrow> str \<Rightarrow> (str \<Rightarrow> bool) \<Rightarrow> ('w world, 'e, unit) prog" where
  "sweep E dir matches =
     and_then (attempted (open_dir_checked E dir)) (\<lambda>handle.
     case handle of
       Inr (Some _) \<Rightarrow>
         and_then (attempted (tries (os_read_dir E dir))) (\<lambda>entries.
         case entries of
           Inl (e :: errno) \<Rightarrow> ret ()
         | Inr entries \<Rightarrow>
             for_each (sweep_one E dir) (filter matches (List.map_filter (\<lambda>n. n) entries)))
     | _ \<Rightarrow> ret ())"

definition remove_stale_temps :: "'w os \<Rightarrow> store \<Rightarrow> ('w world, 'e, unit) prog" where
  "remove_stale_temps E s =
     and_then (sweep E (store_root s) is_index_temp) (\<lambda>_. sweep E (tenants_dir s) is_tenant_temp)"

definition check_tenants_dir :: "'w os \<Rightarrow> str \<Rightarrow> ('w world, cli_error, unit) prog" where
  "check_tenants_dir E dir =
     and_then (attempted (check_dir E dir)) (\<lambda>checked.
     case checked of
       Inr _ \<Rightarrow> ret ()
     | Inl DirUnsafe \<Rightarrow> fail (unsafe_dir_error dir)
     | Inl DirIo \<Rightarrow> fail (cannot_create dir))"

section \<open>Transactions\<close>

record journal_entry =
  je_path :: str
  je_previous :: "str option"

record transaction =
  tx_store :: store
  tx_lock :: "nat option"
  tx_created_tenants :: bool
  tx_journal :: "journal_entry list" \<comment> \<open>newest first\<close>
  tx_warnings :: "str list"

record 'w txn =
  the_tx :: transaction
  tx_world :: "'w world"

definition in_tx :: "('w world, 'e, 'a) prog \<Rightarrow> ('w txn, 'e, 'a) prog" where
  "in_tx m = (\<lambda>s. case m (tx_world s) of (r, w) \<Rightarrow> (r, s\<lparr>tx_world := w\<rparr>))"

definition with_tx :: "(transaction \<Rightarrow> transaction) \<Rightarrow> ('w txn, 'e, unit) prog" where
  "with_tx f = modifies (\<lambda>s. s\<lparr>the_tx := f (the_tx s)\<rparr>)"

text \<open>\<open>Transaction::begin\<close>; \<open>None\<close> when the fuel of the lock's loop ran out.\<close>

definition tx_begin :: "'w os \<Rightarrow> store \<Rightarrow> bool \<Rightarrow> 'w waiter \<Rightarrow> ('w world, cli_error, transaction option) prog" where
  "tx_begin E s tenant_files W =
     and_then (ensure_dir E (store_root s)) (\<lambda>_.
     and_then (if tenant_files then ensure_dir E (tenants_dir s)
               else and_then (check_tenants_dir E (tenants_dir s)) (\<lambda>_. ret False)) (\<lambda>created.
     and_then (acquire E s W) (\<lambda>lock.
     case lock of
       None \<Rightarrow> ret None
     | Some fd \<Rightarrow>
         and_then (remove_stale_temps E s) (\<lambda>_.
         ret (Some \<lparr>tx_store = s, tx_lock = Some fd, tx_created_tenants = created,
                    tx_journal = [], tx_warnings = []\<rparr>)))))"

definition parent_or_root :: "store \<Rightarrow> str \<Rightarrow> str" where
  "parent_or_root s path = (case parent path of Some dir \<Rightarrow> dir | None \<Rightarrow> store_root s)"

definition tx_warn :: "str \<Rightarrow> ('w txn, 'e, unit) prog" where
  "tx_warn path = with_tx (\<lambda>tx. tx\<lparr>tx_warnings := tx_warnings tx @ [dir_sync_warning path]\<rparr>)"

definition tx_write :: "'w os \<Rightarrow> str \<Rightarrow> str \<Rightarrow> str option \<Rightarrow> ('w txn, cli_error, unit) prog" where
  "tx_write E path contents previous =
     and_then (of_result (check_size path contents)) (\<lambda>_.
     and_then (reads (tx_store \<circ> the_tx)) (\<lambda>s.
     let dir = parent_or_root s path in
     and_then (in_tx (write_atomic E dir path contents)) (\<lambda>saved.
     and_then (with_tx (\<lambda>tx. tx\<lparr>tx_journal := \<lparr>je_path = path, je_previous = previous\<rparr> # tx_journal tx\<rparr>)) (\<lambda>_.
     and_then (reads (tx_created_tenants \<circ> the_tx)) (\<lambda>created.
     and_then (if created \<and> dir = tenants_dir s
               then and_then (in_tx (sync_dir E (store_root s))) (\<lambda>synced.
                    and_then (with_tx (\<lambda>tx. tx\<lparr>tx_created_tenants := False\<rparr>)) (\<lambda>_. ret synced))
               else ret True) (\<lambda>parent_synced.
     if saved = Durable \<and> parent_synced then ret () else tx_warn path))))))"

definition tx_remove :: "'w os \<Rightarrow> str \<Rightarrow> ('w txn, errno, unit) prog" where
  "tx_remove E path =
     (case (parent path, file_name path) of
        (Some dir, Some name) \<Rightarrow>
          and_then (in_tx (mapped_err (\<lambda>_. OtherErrno) (open_dir_checked E dir))) (\<lambda>handle.
          case handle of
            None \<Rightarrow> fail NOENT
          | Some fd \<Rightarrow>
              and_then (in_tx (tries (os_unlink E (joined dir name)))) (\<lambda>_.
              and_then (attempted (in_tx (tries (os_sync_all E fd)))) (\<lambda>(synced :: errno + unit).
              if is_ok synced then ret () else tx_warn path)))
      | _ \<Rightarrow> fail OtherErrno)"

definition undo_entry :: "'w os \<Rightarrow> store \<Rightarrow> journal_entry \<Rightarrow> ('w world, 'e, bool) prog" where
  "undo_entry E s entry =
     (case je_previous entry of
        None \<Rightarrow>
          and_then (unlinked E (je_path entry)) (\<lambda>gone.
          ret (case gone of Inr _ \<Rightarrow> True | Inl e \<Rightarrow> e = NOENT))
      | Some previous \<Rightarrow>
          and_then (attempted (write_atomic E (parent_or_root s (je_path entry)) (je_path entry) previous))
            (\<lambda>(written :: cli_error + saved). ret (is_ok written)))"

fun undo_all :: "'w os \<Rightarrow> store \<Rightarrow> bool \<Rightarrow> journal_entry list \<Rightarrow> ('w world, 'e, bool) prog" where
  "undo_all E s restored [] = ret restored"
| "undo_all E s restored (entry # journal) =
     and_then (undo_entry E s entry) (\<lambda>undone. undo_all E s (restored \<and> undone) journal)"

definition tx_rollback :: "'w os \<Rightarrow> ('w txn, 'e, bool) prog" where
  "tx_rollback E =
     and_then (reads the_tx) (\<lambda>tx.
     and_then (with_tx (\<lambda>tx. tx\<lparr>tx_journal := []\<rparr>)) (\<lambda>_.
     in_tx (undo_all E (tx_store tx) True (tx_journal tx))))"

definition tx_commit :: "'w os \<Rightarrow> ('w txn, 'e, str list) prog" where
  "tx_commit E =
     and_then (reads the_tx) (\<lambda>tx.
     and_then (with_tx (\<lambda>tx. tx\<lparr>tx_journal := [], tx_lock := None, tx_warnings := []\<rparr>)) (\<lambda>_.
     and_then (in_tx (case tx_lock tx of Some fd \<Rightarrow> release E fd | None \<Rightarrow> ret ())) (\<lambda>_.
     ret (tx_warnings tx))))"

text \<open>Dropping a transaction that was not committed releases its lock.\<close>

definition tx_drop :: "'w os \<Rightarrow> transaction \<Rightarrow> ('w world, 'e, unit) prog" where
  "tx_drop E tx = (case tx_lock tx of Some fd \<Rightarrow> release E fd | None \<Rightarrow> ret ())"

end
