(* ===== verification/Disk.thy ===== *)
theory Disk
  imports StoreWrite
begin

text \<open>
  A file system for the store to run on: names, inodes and descriptors, with the calls of the
  standard library the store uses. \<open>on_disk E\<close> is the outside world \<open>E\<close> with its file calls,
  clock and random source taken from a disk; every other call stays \<open>E\<close>'s.

  Any call may fail: \<open>dk_faults\<close> says which and how, except that a call never lies about a name
  (a failure is not \<open>NOENT\<close>, \<open>EXIST\<close>, \<open>LOOP\<close> or \<open>NOTDIR\<close>); a failed write leaves a prefix.
  Any call may take any time (\<open>dk_delays\<close>). \<open>dk_past\<close> keeps what every name held after each
  call, newest first: the states a crash of the program can leave.
\<close>

record inode =
  i_kind :: file_kind
  i_uid :: nat
  i_mode :: "32 word"
  i_bytes :: str

type_synonym files = "str \<Rightarrow> inode option"

record disk =
  dk_names :: "(str \<times> nat) list"
  dk_nodes :: "nat \<Rightarrow> inode"
  dk_next :: nat
  dk_fds :: "nat \<Rightarrow> nat"
  dk_next_fd :: nat
  dk_calls :: nat
  dk_time :: nat \<comment> \<open>milliseconds\<close>
  dk_faults :: "nat \<Rightarrow> errno option"
  dk_delays :: "nat \<Rightarrow> nat"
  dk_partial :: "nat \<Rightarrow> nat"
  dk_random :: "nat \<Rightarrow> str"
  dk_cancelled :: "nat \<Rightarrow> bool"
  dk_past :: "files list"

definition linked :: "(str \<times> nat) list \<Rightarrow> (nat \<Rightarrow> inode) \<Rightarrow> files" where
  [simp]: "linked names nodes p = map_option nodes (map_of names p)"

definition files_of :: "disk \<Rightarrow> files" where
  "files_of d = linked (dk_names d) (dk_nodes d)"

definition sound_disk :: "disk \<Rightarrow> bool" where
  "sound_disk d = (\<forall>p i. map_of (dk_names d) p = Some i \<longrightarrow> i < dk_next d)"

section \<open>Calls\<close>

definition honest :: "errno \<Rightarrow> errno" where
  "honest e = (if e \<in> {NOENT, EXIST, LOOP, NOTDIR} then OtherErrno else e)"

definition recorded :: "disk \<Rightarrow> disk" where
  "recorded d = d\<lparr>dk_past := files_of d # dk_past d\<rparr>"

definition ticked :: "disk \<Rightarrow> disk" where
  "ticked d = d\<lparr>dk_calls := dk_calls d + 1, dk_time := dk_time d + dk_delays d (dk_calls d)\<rparr>"

text \<open>A call: \<open>f\<close>, or a failure after \<open>g\<close>.\<close>

definition dcall_or :: "(disk \<Rightarrow> disk) \<Rightarrow> (disk \<Rightarrow> (errno + 'a) \<times> disk) \<Rightarrow> disk \<Rightarrow> (errno + 'a) \<times> disk" where
  "dcall_or g f d =
     (case dk_faults d (dk_calls d) of
        Some e \<Rightarrow> (Err (honest e), recorded (g (ticked d)))
      | None \<Rightarrow> (case f (ticked d) of (r, d') \<Rightarrow> (r, recorded d')))"

definition dcall :: "(disk \<Rightarrow> (errno + 'a) \<times> disk) \<Rightarrow> disk \<Rightarrow> (errno + 'a) \<times> disk" where
  "dcall = dcall_or (\<lambda>d. d)"

definition stat_of :: "disk \<Rightarrow> nat \<Rightarrow> file_stat" where
  "stat_of d i = (let n = dk_nodes d i in
     \<lparr>st_kind = i_kind n, st_uid = i_uid n, st_mode = i_mode n, st_size = length (i_bytes n),
      st_dev = 0, st_ino = i\<rparr>)"

definition d_lstat :: "str \<Rightarrow> disk \<Rightarrow> (errno + file_stat) \<times> disk" where
  "d_lstat p = dcall (\<lambda>d. (case map_of (dk_names d) p of
      None \<Rightarrow> Err NOENT | Some i \<Rightarrow> Ok (stat_of d i), d))"

definition d_opened :: "nat \<Rightarrow> disk \<Rightarrow> (errno + nat) \<times> disk" where
  "d_opened i d =
     (Ok (dk_next_fd d), d\<lparr>dk_fds := (dk_fds d)(dk_next_fd d := i), dk_next_fd := dk_next_fd d + 1\<rparr>)"

definition d_open :: "(file_kind \<Rightarrow> errno option) \<Rightarrow> str \<Rightarrow> disk \<Rightarrow> (errno + nat) \<times> disk" where
  "d_open refused p = dcall (\<lambda>d. case map_of (dk_names d) p of
      None \<Rightarrow> (Err NOENT, d)
    | Some i \<Rightarrow> (case refused (i_kind (dk_nodes d i)) of
        Some e \<Rightarrow> (Err e, d) | None \<Rightarrow> d_opened i d))"

definition d_open_read :: "str \<Rightarrow> disk \<Rightarrow> (errno + nat) \<times> disk" where
  "d_open_read = d_open (\<lambda>k. if k = Symlink then Some LOOP else None)"

definition d_open_rdwr :: "str \<Rightarrow> disk \<Rightarrow> (errno + nat) \<times> disk" where
  "d_open_rdwr = d_open (\<lambda>k. if k = Symlink then Some LOOP
     else if k = Directory then Some OtherErrno else None)"

definition d_open_dir :: "str \<Rightarrow> disk \<Rightarrow> (errno + nat) \<times> disk" where
  "d_open_dir = d_open (\<lambda>k. if k = Symlink then Some LOOP
     else if k \<noteq> Directory then Some NOTDIR else None)"

definition d_fstat :: "nat \<Rightarrow> disk \<Rightarrow> (errno + file_stat) \<times> disk" where
  "d_fstat fd = dcall (\<lambda>d. (Ok (stat_of d (dk_fds d fd)), d))"

definition d_read :: "nat \<Rightarrow> nat \<Rightarrow> disk \<Rightarrow> (errno + str) \<times> disk" where
  "d_read fd n = dcall (\<lambda>d. (Ok (take n (i_bytes (dk_nodes d (dk_fds d fd)))), d))"

definition is_dir_at :: "disk \<Rightarrow> str \<Rightarrow> bool" where
  "is_dir_at d p = (case files_of d p of Some n \<Rightarrow> i_kind n = Directory | None \<Rightarrow> False)"

definition in_directory :: "disk \<Rightarrow> str \<Rightarrow> bool" where
  "in_directory d p = (case parent p of Some q \<Rightarrow> is_dir_at d q | None \<Rightarrow> False)"

definition d_new :: "str \<Rightarrow> inode \<Rightarrow> disk \<Rightarrow> disk" where
  "d_new p n d = d\<lparr>dk_names := (p, dk_next d) # dk_names d,
     dk_nodes := (dk_nodes d)(dk_next d := n), dk_next := dk_next d + 1\<rparr>"

definition d_create_excl :: "nat \<Rightarrow> str \<Rightarrow> disk \<Rightarrow> (errno + nat) \<times> disk" where
  "d_create_excl uid p = dcall (\<lambda>d.
     if map_of (dk_names d) p \<noteq> None then (Err EXIST, d)
     else if \<not> in_directory d p then (Err NOENT, d)
     else d_opened (dk_next d) (d_new p \<lparr>i_kind = RegularFile, i_uid = uid, i_mode = 384, i_bytes = []\<rparr> d))"

definition at_fd :: "nat \<Rightarrow> (inode \<Rightarrow> inode) \<Rightarrow> disk \<Rightarrow> disk" where
  "at_fd fd f d = d\<lparr>dk_nodes := (dk_nodes d)(dk_fds d fd := f (dk_nodes d (dk_fds d fd)))\<rparr>"

definition d_fchmod :: "nat \<Rightarrow> disk \<Rightarrow> (errno + unit) \<times> disk" where
  "d_fchmod fd = dcall (\<lambda>d. (Ok (), at_fd fd (\<lambda>n. n\<lparr>i_mode := 384\<rparr>) d))"

definition d_write_all :: "nat \<Rightarrow> str \<Rightarrow> disk \<Rightarrow> (errno + unit) \<times> disk" where
  "d_write_all fd s = dcall_or
     (\<lambda>d. at_fd fd (\<lambda>n. n\<lparr>i_bytes := i_bytes n @ take (dk_partial d (dk_calls d)) s\<rparr>) d)
     (\<lambda>d. (Ok (), at_fd fd (\<lambda>n. n\<lparr>i_bytes := i_bytes n @ s\<rparr>) d))"

definition d_truncate :: "nat \<Rightarrow> disk \<Rightarrow> (errno + unit) \<times> disk" where
  "d_truncate fd = dcall (\<lambda>d. (Ok (), at_fd fd (\<lambda>n. n\<lparr>i_bytes := []\<rparr>) d))"

definition d_nothing :: "disk \<Rightarrow> (errno + unit) \<times> disk" where
  "d_nothing = dcall (\<lambda>d. (Ok (), d))"

definition without_name :: "str \<Rightarrow> (str \<times> nat) list \<Rightarrow> (str \<times> nat) list" where
  "without_name p = filter (\<lambda>(q, _). q \<noteq> p)"

definition d_rename :: "str \<Rightarrow> str \<Rightarrow> disk \<Rightarrow> (errno + unit) \<times> disk" where
  "d_rename a b = dcall (\<lambda>d. case map_of (dk_names d) a of
      None \<Rightarrow> (Err NOENT, d)
    | Some i \<Rightarrow>
        if a = b then (Ok (), d)
        else if is_dir_at d b then (Err OtherErrno, d)
        else (Ok (), d\<lparr>dk_names := (b, i) # without_name a (without_name b (dk_names d))\<rparr>))"

definition d_unlink :: "str \<Rightarrow> disk \<Rightarrow> (errno + unit) \<times> disk" where
  "d_unlink p = dcall (\<lambda>d. case map_of (dk_names d) p of
      None \<Rightarrow> (Err NOENT, d)
    | Some i \<Rightarrow>
        if i_kind (dk_nodes d i) = Directory then (Err OtherErrno, d)
        else (Ok (), d\<lparr>dk_names := without_name p (dk_names d)\<rparr>))"

definition d_sync_dir :: "str \<Rightarrow> disk \<Rightarrow> (errno + unit) \<times> disk" where
  "d_sync_dir p = dcall (\<lambda>d. (case map_of (dk_names d) p of None \<Rightarrow> Err NOENT | Some _ \<Rightarrow> Ok (), d))"

definition d_read_dir :: "str \<Rightarrow> disk \<Rightarrow> (errno + str option list) \<times> disk" where
  "d_read_dir p = dcall (\<lambda>d.
     (Ok (map (\<lambda>(q, _). file_name q) (filter (\<lambda>(q, _). parent q = Some p) (dk_names d))), d))"

text \<open>The directories down to a path, and those of them that are missing.\<close>

definition ancestors :: "str \<Rightarrow> str list" where
  "ancestors p = map (\<lambda>k. path_text (has_root p) (take k (components p))) [0 ..< length (components p) + 1]"

fun make_dirs :: "nat \<Rightarrow> str list \<Rightarrow> disk \<Rightarrow> (errno + unit) \<times> disk" where
  "make_dirs uid [] d = (Ok (), d)"
| "make_dirs uid (p # ps) d =
     (case files_of d p of
        Some n \<Rightarrow> if i_kind n = Directory then make_dirs uid ps d else (Err OtherErrno, d)
      | None \<Rightarrow> make_dirs uid ps (d_new p \<lparr>i_kind = Directory, i_uid = uid, i_mode = 448, i_bytes = []\<rparr> d))"

definition d_create_dirs :: "nat \<Rightarrow> str \<Rightarrow> disk \<Rightarrow> (errno + unit) \<times> disk" where
  "d_create_dirs uid p = dcall (make_dirs uid (ancestors p))"

definition d_ask :: "(disk \<Rightarrow> 'a) \<Rightarrow> disk \<Rightarrow> 'a \<times> disk" where
  "d_ask f d = (f d, recorded (ticked d))"

definition d_sleep :: "nat \<Rightarrow> disk \<Rightarrow> bool \<times> disk" where
  "d_sleep ms d = (False, recorded ((ticked d)\<lparr>dk_time := dk_time (ticked d) + ms\<rparr>))"

definition disk_now :: "disk \<Rightarrow> instant" where
  "disk_now d = \<lparr>secs = dk_time d div 1000, subsec_millis = dk_time d mod 1000\<rparr>"

definition on_disk :: "disk os \<Rightarrow> disk os" where
  "on_disk E = E\<lparr>
     os_lstat := d_lstat,
     os_create_dirs := d_create_dirs (os_euid E),
     os_open_dir := d_open_dir,
     os_create_excl := d_create_excl (os_euid E),
     os_open_read := d_open_read,
     os_open_rdwr := d_open_rdwr,
     os_fchmod := d_fchmod,
     os_write_all := d_write_all,
     os_sync_all := (\<lambda>_. d_nothing),
     os_fstat := d_fstat,
     os_read := d_read,
     os_rename := d_rename,
     os_unlink := d_unlink,
     os_sync_dir := d_sync_dir,
     os_read_dir := d_read_dir,
     os_flock := (\<lambda>_. d_nothing),
     os_truncate := d_truncate,
     os_close := (\<lambda>_. d_nothing),
     os_now := d_ask disk_now,
     os_monotonic := d_ask dk_time,
     os_random := d_ask (\<lambda>d. dk_random d (dk_calls d)),
     os_cancelled := d_ask (\<lambda>d. dk_cancelled d (dk_calls d)),
     os_sleep := d_sleep\<rparr>"

lemma on_disk_simps [simp]:
  "os_lstat (on_disk E) = d_lstat"
  "os_create_dirs (on_disk E) = d_create_dirs (os_euid E)"
  "os_open_dir (on_disk E) = d_open_dir"
  "os_create_excl (on_disk E) = d_create_excl (os_euid E)"
  "os_open_read (on_disk E) = d_open_read"
  "os_open_rdwr (on_disk E) = d_open_rdwr"
  "os_fchmod (on_disk E) = d_fchmod"
  "os_write_all (on_disk E) = d_write_all"
  "os_sync_all (on_disk E) = (\<lambda>_. d_nothing)"
  "os_fstat (on_disk E) = d_fstat"
  "os_read (on_disk E) = d_read"
  "os_rename (on_disk E) = d_rename"
  "os_unlink (on_disk E) = d_unlink"
  "os_sync_dir (on_disk E) = d_sync_dir"
  "os_read_dir (on_disk E) = d_read_dir"
  "os_flock (on_disk E) = (\<lambda>_. d_nothing)"
  "os_truncate (on_disk E) = d_truncate"
  "os_close (on_disk E) = (\<lambda>_. d_nothing)"
  "os_now (on_disk E) = d_ask disk_now"
  "os_monotonic (on_disk E) = d_ask dk_time"
  "os_random (on_disk E) = d_ask (\<lambda>d. dk_random d (dk_calls d))"
  "os_cancelled (on_disk E) = d_ask (\<lambda>d. dk_cancelled d (dk_calls d))"
  "os_sleep (on_disk E) = d_sleep"
  "os_euid (on_disk E) = os_euid E" "os_pid (on_disk E) = os_pid E" "os_host (on_disk E) = os_host E"
  by (simp_all add: on_disk_def)

end
