(* ===== verification/TenantView.thy ===== *)
theory TenantView
  imports Store
begin

text \<open>
  The store as a command sees it, \<open>src/tenant/mod.rs\<close>: the selected tenant, the resolution of a
  name and the strict reader of a tenant file with its TSG pin.
\<close>

record environment =
  en_config_dir :: "str option"
  en_xdg_config_home :: "str option"
  en_tenants_path :: "str option"
  en_xdg_state_home :: "str option"
  en_home :: "str option"
  en_cwd :: "str option"

definition env_store :: "environment \<Rightarrow> cli_error + store" where
  "env_store env = store_locate (en_config_dir env) (en_xdg_config_home env) (en_home env)"

text \<open>The en dash U+2013 in UTF-8.\<close>

definition name_rule :: str where
  "name_rule = ''Tenant name must be 1'' @ bytes [226, 128, 147]
     @ ''64 letters, digits, hyphens or underscores and start with a letter/digit''"

definition validate_tenant_flag :: "str option \<Rightarrow> cli_error + unit" where
  "validate_tenant_flag name = (case name of
      Some n \<Rightarrow> if \<not> valid_tenant_name n then Err (Usage name_rule) else Ok ()
    | None \<Rightarrow> Ok ())"

record selected =
  sl_name :: str
  sl_tsg :: str
  sl_by_flag :: bool

datatype config_load_error =
    ClNotFound | ClUnsafe str | ClUnreadable | ClContent file_problem | ClTsgMismatch

record store_view =
  vw_store :: store
  vw_index :: index
  vw_ts_registry :: "str option"

section \<open>The TypeScript registry\<close>

text \<open>\<open>ts::registry_path\<close> and \<open>ts::registry_exists\<close> of \<open>src/tenant/ts.rs\<close>.\<close>

definition cannot_home :: cli_error where
  "cannot_home = operational ''Cannot determine the home directory''"

definition cannot_cwd :: cli_error where
  "cannot_cwd = operational ''Cannot determine the current directory''"

definition env_home :: "environment \<Rightarrow> cli_error + str" where
  "env_home env = (case en_home env of Some h \<Rightarrow> Ok h | None \<Rightarrow> Err cannot_home)"

text \<open>\<open>Path::strip_prefix("~")\<close>: the first component must be \<open>~\<close>.\<close>

definition expand_tilde :: "environment \<Rightarrow> str \<Rightarrow> cli_error + str" where
  "expand_tilde env path =
     (case components path of
        c # cs \<Rightarrow>
          if \<not> has_root path \<and> \<not> starts_with path ''./'' \<and> c = ''~''
          then bind_r (env_home env) (\<lambda>home. Ok (joined home (join ''/'' cs)))
          else Ok path
      | [] \<Rightarrow> Ok path)"

definition registry_path :: "environment \<Rightarrow> cli_error + str" where
  "registry_path env =
     (case en_tenants_path env of
        Some v \<Rightarrow>
          bind_r (expand_tilde env v) (\<lambda>expanded.
          if has_root expanded then Ok (normalize_path expanded)
          else (case en_cwd env of
                  None \<Rightarrow> Err cannot_cwd
                | Some cwd \<Rightarrow> Ok (normalize_path (joined cwd expanded))))
      | None \<Rightarrow>
          (case en_xdg_state_home env of
             Some state \<Rightarrow>
               if \<not> has_root state then Err (operational ''XDG_STATE_HOME must be an absolute path'')
               else Ok (normalize_path (joined (joined state ''prisma-airs'') ''tenants.json''))
           | None \<Rightarrow>
               bind_r (env_home env) (\<lambda>home.
               Ok (normalize_path (joined home ''.local/state/prisma-airs/tenants.json'')))))"

definition registry_exists :: "'w os \<Rightarrow> environment \<Rightarrow> ('w world, 'e, str option) prog" where
  "registry_exists E env =
     (case registry_path env of
        Inl _ \<Rightarrow> ret None
      | Inr path \<Rightarrow>
          (case (if has_root path then Some path
                 else map_option (\<lambda>cwd. normalize_path (joined cwd path)) (en_cwd env)) of
             None \<Rightarrow> ret None
           | Some absolute \<Rightarrow>
               and_then (attempted (tries (os_lstat E absolute))) (\<lambda>(stat :: errno + file_stat).
               ret (if is_ok stat then Some absolute else None))))"

section \<open>The view\<close>

definition view_open :: "'w os \<Rightarrow> libs \<Rightarrow> environment \<Rightarrow> ('w world, cli_error, store_view) prog" where
  "view_open E L env =
     and_then (of_result (env_store env)) (\<lambda>s.
     and_then (read_index E L s) (\<lambda>ix.
     and_then (if ix_exists ix then ret None else registry_exists E env) (\<lambda>registry.
     ret \<lparr>vw_store = s, vw_index = ix, vw_ts_registry = registry\<rparr>)))"

definition import_suffix :: "store_view \<Rightarrow> str" where
  "import_suffix v = (case vw_ts_registry v of
      Some path \<Rightarrow> ''; a TypeScript tenant registry exists at '' @ shown path @ '': run '' @ [CHR 0x27]
        @ program @ '' tenant import'' @ [CHR 0x27] @ '' to copy it''
    | None \<Rightarrow> [])"

definition view_selected :: "store_view \<Rightarrow> str \<Rightarrow> bool \<Rightarrow> selected option" where
  "view_selected v name by_flag =
     map_option (\<lambda>tsg. \<lparr>sl_name = name, sl_tsg = tsg, sl_by_flag = by_flag\<rparr>) (index_tsg (vw_index v) name)"

definition tenant_not_found :: "store_view \<Rightarrow> str \<Rightarrow> cli_error" where
  "tenant_not_found v name =
     operational (''Tenant not found: '' @ name @ '' '' @ registered_suffix (vw_index v))"

definition select_tenant :: "store_view \<Rightarrow> str option \<Rightarrow> cli_error + selected option" where
  "select_tenant v flag = (case flag of
      Some name \<Rightarrow>
        (case view_selected v name True of
           Some s \<Rightarrow> Ok (Some s) | None \<Rightarrow> Err (tenant_not_found v name))
    | None \<Rightarrow> Ok (Option.bind (ix_active (vw_index v)) (\<lambda>name. view_selected v name False)))"

definition no_tenant_selected :: "store_view \<Rightarrow> cli_error" where
  "no_tenant_selected v = operational
     (if ix_tenants (vw_index v) = [] then
        ''No tenant selected. Run '' @ [CHR 0x27] @ program @ '' tenant create <name>'' @ [CHR 0x27]
        @ '' and then '' @ [CHR 0x27] @ program @ '' tenant switch <name>'' @ [CHR 0x27] @ import_suffix v
      else ''No tenant selected. Run '' @ [CHR 0x27] @ program @ '' tenant switch <name>'' @ [CHR 0x27]
        @ '' (registered: '' @ join '', '' (index_names (vw_index v)) @ '')'')"

definition nothing_resolved :: "store_view \<Rightarrow> cli_error" where
  "nothing_resolved v = operational
     (if ix_tenants (vw_index v) = [] then
        ''No tenant selected; run '' @ [CHR 0x27] @ program @ '' tenant create <name>'' @ [CHR 0x27]
        @ '' first'' @ import_suffix v
      else ''No tenant selected; pass a name or run '' @ [CHR 0x27] @ program @ '' tenant switch <name>''
        @ [CHR 0x27] @ '' (registered: '' @ join '', '' (index_names (vw_index v)) @ '')'')"

definition resolve_name :: "store_view \<Rightarrow> str option \<Rightarrow> str option \<Rightarrow> cli_error + selected" where
  "resolve_name v name flag =
     (case name of
        Some n \<Rightarrow>
          if n = [] then Err (nothing_resolved v)
          else (case view_selected v n False of
                  Some s \<Rightarrow> Ok s | None \<Rightarrow> Err (operational ''Tenant not found''))
      | None \<Rightarrow>
          bind_r (select_tenant v flag) (\<lambda>s.
          case s of Some s \<Rightarrow> Ok s | None \<Rightarrow> Err (nothing_resolved v)))"

section \<open>Reading a tenant file\<close>

definition load_raw :: "'w os \<Rightarrow> libs \<Rightarrow> store_view \<Rightarrow> selected \<Rightarrow> bool \<Rightarrow>
    ('w world, config_load_error, tenant_config \<times> str) prog" where
  "load_raw E L v s pin =
     and_then (mapped_err (\<lambda>e. case e of
         TfNotFound \<Rightarrow> ClNotFound | TfUnsafe path \<Rightarrow> ClUnsafe path | TfUnreadable \<Rightarrow> ClUnreadable)
       (read_tenant_bytes E (vw_store v) (sl_name s))) (\<lambda>contents.
     and_then (mapped_err ClContent (of_result (config_parse L contents))) (\<lambda>config.
     if pin \<and> effective_str config ''mgmtTsgId'' \<noteq> Some (sl_tsg s) then fail ClTsgMismatch
     else ret (config, contents)))"

definition load_checked :: "'w os \<Rightarrow> libs \<Rightarrow> store_view \<Rightarrow> selected \<Rightarrow>
    ('w world, config_load_error, tenant_config) prog" where
  "load_checked E L v s = and_then (load_raw E L v s True) (\<lambda>(config, _). ret config)"

definition config_load_error_text :: "store_view \<Rightarrow> selected \<Rightarrow> config_load_error \<Rightarrow> cli_error" where
  "config_load_error_text v s e = (case e of
      ClTsgMismatch \<Rightarrow> operational
        ''Tenant config TSG differs from its registered identity; register it under a new name''
    | ClUnsafe path \<Rightarrow>
        if path = tenants_dir (vw_store v) then unsafe_dir_error path else unsafe_file_error path
    | _ \<Rightarrow> tenant_file_error (tenant_path (vw_store v) (sl_name s)))"

definition load_config :: "'w os \<Rightarrow> libs \<Rightarrow> store_view \<Rightarrow> selected \<Rightarrow> ('w world, cli_error, tenant_config) prog" where
  "load_config E L v s = mapped_err (config_load_error_text v s) (load_checked E L v s)"

definition load_for_write :: "'w os \<Rightarrow> libs \<Rightarrow> store_view \<Rightarrow> selected \<Rightarrow> bool \<Rightarrow>
    ('w world, cli_error, tenant_config \<times> str) prog" where
  "load_for_write E L v s pin = mapped_err (config_load_error_text v s) (load_raw E L v s pin)"

definition load_selected :: "'w os \<Rightarrow> libs \<Rightarrow> environment \<Rightarrow> str option \<Rightarrow>
    ('w world, cli_error, selected \<times> tenant_config) prog" where
  "load_selected E L env flag =
     and_then (view_open E L env) (\<lambda>v.
     and_then (of_result (bind_r (select_tenant v flag) (\<lambda>s.
         case s of Some s \<Rightarrow> Ok s | None \<Rightarrow> Err (no_tenant_selected v)))) (\<lambda>s.
     and_then (load_config E L v s) (\<lambda>config. ret (s, config))))"

end
