(* ===== verification/TermInput.thy ===== *)
theory TermInput
  imports TenantConfig
begin

text \<open>
  \<open>src/input.rs\<close>: the terminal gates, a value piped on stdin, prompt lines and the
  confirmation of a delete. Terminal modes are not modelled; a hidden prompt differs in what it
  prints.

  An input is what the reads of \<open>fill_buf\<close> will answer: bytes, an empty buffer for an end of
  file, or a failed read. After the last answer every read is an end of file.
\<close>

definition input_limit :: nat where "input_limit = 65536"

definition needs_pipe :: str where "needs_pipe = ''--stdin requires piped input''"

definition interactive_setup :: str where
  "interactive_setup = ''Interactive setup requires a terminal. Use --tsg-id and --client-id with --client-secret-stdin. For tenant set, pass a value or use --stdin.''"

definition one_value :: str where
  "one_value = ''Provide one nonempty configuration value on stdin''"

definition too_large :: str where "too_large = ''Configuration input exceeds 64 KiB''"

definition nonempty_reason :: str where "nonempty_reason = ''A nonempty value is required''"

record terminals =
  tm_stdin :: bool
  tm_stderr :: bool

definition is_interactive :: "terminals \<Rightarrow> bool" where
  "is_interactive t = (tm_stdin t \<and> tm_stderr t)"

section \<open>Piped values\<close>

definition strip_newline :: "str \<Rightarrow> str" where
  "strip_newline s =
     (case strip_suffix [cr, newline] s of
        Some t \<Rightarrow> t
      | None \<Rightarrow> (case strip_suffix [newline] s of Some t \<Rightarrow> t | None \<Rightarrow> s))"

definition piped_value :: "str \<Rightarrow> cli_error + str" where
  "piped_value b =
     (if input_limit < length b then Err (Usage too_large)
      else if \<not> valid_utf8 b then Err (Usage one_value)
      else let s = strip_newline b in
        if js_trim s = [] \<or> cr \<in> set s \<or> newline \<in> set s \<or> char_of (0 :: nat) \<in> set s
        then Err (Usage one_value) else Ok s)"

text \<open>\<open>read_piped\<close>: what the stream holds up to its end, or a failed read.\<close>

definition read_piped :: "str option \<Rightarrow> cli_error + str" where
  "read_piped stream = (case stream of
      None \<Rightarrow> Err (Usage one_value) | Some b \<Rightarrow> piped_value (take (input_limit + 1) b))"

section \<open>Lines\<close>

datatype line = LineText str | LineTooLong | LineEof

datatype chunk = Filled str | Retry | Broken

text \<open>The bytes of a line without its line break.\<close>

definition without_break :: "str \<Rightarrow> str" where
  "without_break l = (let l = butlast l in if l \<noteq> [] \<and> last l = cr then butlast l else l)"

text \<open>The pending bytes of the line and whether they were discarded, after \<open>used\<close> more.\<close>

definition take_bytes :: "str \<Rightarrow> bool \<Rightarrow> str \<Rightarrow> str \<times> bool" where
  "take_bytes line too_long used =
     (if too_long then (line, True)
      else if input_limit < length line + length used then ([], True)
      else (line @ used, False))"

definition push_back :: "str \<Rightarrow> chunk list \<Rightarrow> chunk list" where
  "push_back rest cs = (if rest = [] then cs else Filled rest # cs)"

fun read_line :: "str \<Rightarrow> bool \<Rightarrow> chunk list \<Rightarrow> (unit + line) \<times> chunk list" where
  "read_line line too_long [] =
     (Ok (if too_long then LineTooLong else if line = [] then LineEof else LineText line), [])"
| "read_line line too_long (Retry # cs) = read_line line too_long cs"
| "read_line line too_long (Broken # cs) = (Err (), cs)"
| "read_line line too_long (Filled buffer # cs) =
     (if buffer = [] then
        (Ok (if too_long then LineTooLong else if line = [] then LineEof else LineText line), cs)
      else if newline \<in> set buffer then
        (let used = takeWhile (\<lambda>c. c \<noteq> newline) buffer @ [newline];
             (line, too_long) = take_bytes line too_long used
         in (Ok (if too_long then LineTooLong else LineText (without_break line)),
             push_back (drop (length used) buffer) cs))
      else (let (line, too_long) = take_bytes line too_long buffer in read_line line too_long cs))"

definition prompt_line :: "chunk list \<Rightarrow> line \<times> chunk list" where
  "prompt_line cs = (case read_line [] False cs of
      (Inr l, cs') \<Rightarrow> (l, cs') | (Inl _, cs') \<Rightarrow> (LineEof, cs'))"

section \<open>Prompts\<close>

text \<open>What is left to read: every read takes some of it.\<close>

definition input_size :: "chunk list \<Rightarrow> nat" where
  "input_size cs = sum_list (map (\<lambda>c. case c of Filled b \<Rightarrow> Suc (length b) | _ \<Rightarrow> 1) cs)"

lemma input_size_simps [simp]:
  "input_size [] = 0"
  "input_size (Filled b # cs) = Suc (length b) + input_size cs"
  "input_size (Retry # cs) = Suc (input_size cs)"
  "input_size (Broken # cs) = Suc (input_size cs)"
  by (simp_all add: input_size_def)

lemma read_line_size:
  "read_line line too_long cs = (r, cs') \<Longrightarrow> input_size cs' \<le> input_size cs - 1"
proof (induction line too_long cs rule: read_line.induct)
  case (4 line too_long buffer cs)
  show ?case
  proof (cases "buffer = [] \<or> newline \<in> set buffer")
    case True
    then show ?thesis
      using 4(2) by (auto simp: Let_def push_back_def split: prod.splits if_splits)
  next
    case False
    then have "input_size cs' \<le> input_size cs - 1"
      using 4 by (auto split: prod.splits)
    then show ?thesis by simp
  qed
qed auto

lemma prompt_line_size: "prompt_line cs = (l, cs') \<Longrightarrow> l \<noteq> LineEof \<Longrightarrow> input_size cs' < input_size cs"
proof -
  assume p: "prompt_line cs = (l, cs')" "l \<noteq> LineEof"
  then have r: "read_line [] False cs = (Ok l, cs')"
    by (auto simp: prompt_line_def split: prod.splits sum.splits)
  then have "cs \<noteq> []" using p(2) by auto
  then have "0 < input_size cs" by (cases cs; cases "hd cs") auto
  with read_line_size [OF r] show ?thesis by linarith
qed

datatype prompt_cancelled = Cancelled

definition prompt_text :: "str \<Rightarrow> bool \<Rightarrow> str" where
  "prompt_text message hidden =
     ''? '' @ message @ (if hidden then '' [input is masked] '' else '' '')"

text \<open>Why an answer is refused, or its value.\<close>

definition judged :: "(str \<Rightarrow> str + 'a) \<Rightarrow> line \<Rightarrow> str + 'a" where
  "judged ok l = (case l of
      LineText b \<Rightarrow>
        if \<not> valid_utf8 b then Err invalid_value
        else if js_trim b = [] then Err nonempty_reason
        else ok b
    | _ \<Rightarrow> Err too_large)"

text \<open>The answer, what was written to stderr and what is left of the input.\<close>

function ask :: "str \<Rightarrow> bool \<Rightarrow> (str \<Rightarrow> str + 'a) \<Rightarrow> chunk list \<Rightarrow> (prompt_cancelled + 'a) \<times> str \<times> chunk list" where
  "ask message hidden ok cs =
     (let (l, rest) = prompt_line cs;
          shown = prompt_text message hidden @ (if hidden \<and> l \<noteq> LineEof then nl else [])
      in if l = LineEof then (Err Cancelled, shown, rest)
         else (case judged ok l of
                 Inr v \<Rightarrow> (Ok v, shown, rest)
               | Inl reason \<Rightarrow>
                   (case ask message hidden ok rest of
                      (r, more_shown, rest) \<Rightarrow> (r, shown @ ''> '' @ reason @ nl @ more_shown, rest))))"
  by pat_completeness auto
termination
  by (relation "measure (\<lambda>(_, _, _, cs). input_size cs)") (auto dest: prompt_line_size [OF sym])

declare ask.simps [simp del]

text \<open>Rust's \<open>char::is_whitespace\<close> (\<open>White_Space\<close>), as UTF-8 groups.\<close>

definition is_rust_whitespace :: "str \<Rightarrow> bool" where
  "is_rust_whitespace g =
     (g \<noteq> bytes [239, 187, 191] \<and> (is_js_whitespace g \<or> g = bytes [194, 133]))"

definition rust_trim :: "str \<Rightarrow> str" where
  "rust_trim s = concat (rev (dropWhile is_rust_whitespace
     (rev (dropWhile is_rust_whitespace (utf8_chars s)))))"

text \<open>An answer that is not UTF-8 is read with U+FFFD in it, and declines.\<close>

definition confirms :: "str \<Rightarrow> bool" where
  "confirms b = (valid_utf8 b
     \<and> (eq_ignore_ascii_case (rust_trim b) ''y'' \<or> eq_ignore_ascii_case (rust_trim b) ''yes''))"

definition confirm :: "str \<Rightarrow> chunk list \<Rightarrow> bool \<times> str \<times> chunk list" where
  "confirm message cs =
     (let (l, rest) = prompt_line cs; shown = ''? '' @ message @ '' (y/N) ''
      in case l of
           LineText b \<Rightarrow> (confirms b, shown, rest)
         | LineTooLong \<Rightarrow> (False, shown, rest)
         | LineEof \<Rightarrow> (False, shown @ nl, rest))"

section \<open>The reads of a line do not matter\<close>

text \<open>A line as the text of its bytes has it: the reference for any way the bytes arrive.\<close>

definition whole_line :: "str \<Rightarrow> line" where
  "whole_line s =
     (if newline \<in> set s then
        (let l = takeWhile (\<lambda>c. c \<noteq> newline) s @ [newline]
         in if input_limit < length l then LineTooLong else LineText (without_break l))
      else if input_limit < length s then LineTooLong
      else if s = [] then LineEof else LineText s)"

fun filled_bytes :: "chunk list \<Rightarrow> str" where
  "filled_bytes [] = []"
| "filled_bytes (Filled b # cs) = b @ filled_bytes cs"
| "filled_bytes (_ # cs) = filled_bytes cs"

definition whole_after :: "str \<Rightarrow> bool \<Rightarrow> str \<Rightarrow> line" where
  "whole_after line too_long s =
     (if newline \<in> set s then
        (let l = line @ takeWhile (\<lambda>c. c \<noteq> newline) s @ [newline]
         in if too_long \<or> input_limit < length l then LineTooLong else LineText (without_break l))
      else if too_long \<or> input_limit < length (line @ s) then LineTooLong
      else if line @ s = [] then LineEof else LineText (line @ s))"

lemma takeWhile_newline_append:
  "newline \<notin> set b \<Longrightarrow> takeWhile (\<lambda>c. c \<noteq> newline) (b @ s) = b @ takeWhile (\<lambda>c. c \<noteq> newline) s"
  by (induction b) auto

lemma takeWhile_newline_first:
  "newline \<in> set b \<Longrightarrow> takeWhile (\<lambda>c. c \<noteq> newline) (b @ s) = takeWhile (\<lambda>c. c \<noteq> newline) b"
  by (induction b) auto

lemma drop_newline_line:
  "newline \<in> set b \<Longrightarrow> drop (Suc (length (takeWhile (\<lambda>c. c \<noteq> newline) b))) b = tl (dropWhile (\<lambda>c. c \<noteq> newline) b)"
  by (induction b) auto

text \<open>What is left after the line, as bytes.\<close>

definition after_line :: "str \<Rightarrow> str" where
  "after_line s = tl (dropWhile (\<lambda>c. c \<noteq> newline) s)"

lemma after_line_first: "newline \<in> set b \<Longrightarrow> after_line (b @ s) = after_line b @ s"
  by (induction b) (auto simp: after_line_def)

lemma after_line_later: "newline \<notin> set b \<Longrightarrow> after_line (b @ s) = after_line s"
  by (induction b) (auto simp: after_line_def)

lemma read_line_whole:
  assumes "list_all (\<lambda>c. c = Retry \<or> (\<exists>b. c = Filled b \<and> b \<noteq> [])) cs"
    and "length line \<le> input_limit" and "too_long \<longrightarrow> line = []"
  shows "\<exists>rest. read_line line too_long cs = (Ok (whole_after line too_long (filled_bytes cs)), rest)
    \<and> filled_bytes rest = after_line (filled_bytes cs)"
  using assms
proof (induction line too_long cs rule: read_line.induct)
  case (1 line too_long)
  then show ?case by (auto simp: whole_after_def after_line_def)
next
  case (4 line too_long buffer cs)
  then have b: "buffer \<noteq> []" by simp
  show ?case
  proof (cases "newline \<in> set buffer")
    case True
    let ?l = "takeWhile (\<lambda>c. c \<noteq> newline) buffer"
    have "filled_bytes (push_back (drop (Suc (length ?l)) buffer) cs) = after_line (buffer @ filled_bytes cs)"
      using True by (simp add: push_back_def drop_newline_line after_line_first after_line_def)
    with True b 4(4) show ?thesis
      by (auto simp: whole_after_def take_bytes_def Let_def takeWhile_newline_first)
  next
    case False
    obtain line' too_long' where t: "take_bytes line too_long buffer = (line', too_long')" by fastforce
    have "list_all (\<lambda>c. c = Retry \<or> (\<exists>b. c = Filled b \<and> b \<noteq> [])) cs" using 4(2) by simp
    moreover have "length line' \<le> input_limit" "too_long' \<longrightarrow> line' = []"
      using t 4(3,4) by (auto simp: take_bytes_def split: if_splits)
    ultimately obtain rest where rest: "read_line line' too_long' cs = (Ok (whole_after line' too_long' (filled_bytes cs)), rest)"
        "filled_bytes rest = after_line (filled_bytes cs)"
      using 4(1) [OF b False refl t [symmetric]] by blast
    have "whole_after line' too_long' (filled_bytes cs) = whole_after line too_long (buffer @ filled_bytes cs)"
      using t False 4(4) b
      by (auto simp: take_bytes_def whole_after_def Let_def takeWhile_newline_append split: if_splits)
    with rest b False t show ?thesis by (simp add: after_line_later)
  qed
qed auto

end
