(* ===== verification/TenantWrite.thy ===== *)
theory TenantWrite
  imports TenantView StoreWrite TermInput
begin

text \<open>
  The write commands of a tenant, \<open>src/commands/tenant_write.rs\<close>: the argument checks, the
  locked part of each command and the command around it with its prompts, its transaction and
  its outcome lines.

  A command runs on a \<open>session\<close>: the world, what stdin will answer, the registered secrets and
  whether the change was committed. \<open>out_of_fuel\<close> is no outcome of the program: it stands for a
  wait for the lock that outlives its fuel.
\<close>

section \<open>Plans\<close>

record create_args =
  ca_name :: str
  ca_tsg :: "str option"
  ca_client :: "str option"
  ca_secret_stdin :: bool

record set_args =
  sa_name :: str
  sa_key :: str
  sa_value :: "str option"
  sa_stdin :: bool

datatype write_command =
    TcCreate create_args
  | TcSet set_args
  | TcUnset str str
  | TcSwitch str
  | TcDelete str bool

datatype write_plan =
    WpCreate str "str option" "str option" bool
  | WpSet str str "config_value option" bool
  | WpUnset str str
  | WpSwitch str
  | WpDelete str bool

fun write_command_name :: "write_command \<Rightarrow> str" where
  "write_command_name (TcCreate _) = ''create''"
| "write_command_name (TcSet _) = ''set''"
| "write_command_name (TcUnset _ _) = ''unset''"
| "write_command_name (TcSwitch _) = ''switch''"
| "write_command_name (TcDelete _ _) = ''delete''"

definition unknown_key :: cli_error where
  "unknown_key = Usage (''Unknown configuration key. Supported keys: '' @ join '', '' schema_keys)"

definition known_key :: "str \<Rightarrow> cli_error + str" where
  "known_key key = (case schema_key key of Some k \<Rightarrow> Ok k | None \<Rightarrow> Err unknown_key)"

definition usage_of :: "str + 'a \<Rightarrow> cli_error + 'a" where
  "usage_of r = (case r of Inl m \<Rightarrow> Err (Usage m) | Inr x \<Rightarrow> Ok x)"

definition checked_arg :: "libs \<Rightarrow> str \<Rightarrow> str \<Rightarrow> str option \<Rightarrow> cli_error + str option" where
  "checked_arg L name key v = (case v of
      None \<Rightarrow> Ok None
    | Some v \<Rightarrow> bind_r (usage_of (write_rule L name key v)) (\<lambda>_. Ok (Some v)))"

fun plan_write :: "libs \<Rightarrow> write_command \<Rightarrow> cli_error + write_plan" where
  "plan_write L (TcCreate a) =
     (if \<not> valid_tenant_name (ca_name a) then Err (Usage name_rule)
      else bind_r (checked_arg L (ca_name a) ''mgmtTsgId'' (ca_tsg a)) (\<lambda>tsg.
           bind_r (checked_arg L (ca_name a) ''mgmtClientId'' (ca_client a)) (\<lambda>client.
           Ok (WpCreate (ca_name a) tsg client (ca_secret_stdin a)))))"
| "plan_write L (TcSet a) =
     bind_r (known_key (sa_key a)) (\<lambda>key.
     if sa_value a \<noteq> None \<and> sa_stdin a then Err (Usage ''Use a value or --stdin, not both'')
     else if sa_value a \<noteq> None \<and> is_secret_key key then Err (Usage
       ''Do not pass credentials as arguments. Omit the value for a hidden prompt, or use --stdin.'')
     else (case sa_value a of
             None \<Rightarrow> Ok (WpSet (sa_name a) key None (sa_stdin a))
           | Some v \<Rightarrow> bind_r (usage_of (write_rule L (sa_name a) key v)) (\<lambda>cv.
               Ok (WpSet (sa_name a) key (Some cv) (sa_stdin a)))))"
| "plan_write L (TcUnset name key) =
     bind_r (known_key key) (\<lambda>key.
     if is_credential_key key
     then Err (Usage (key @ '' is a credential and cannot be cleared; set a new value instead''))
     else Ok (WpUnset name key))"
| "plan_write L (TcSwitch name) = Ok (WpSwitch name)"
| "plan_write L (TcDelete name force) = Ok (WpDelete name force)"

section \<open>Under the lock\<close>

definition write_view :: "'w os \<Rightarrow> libs \<Rightarrow> store \<Rightarrow> ('w world, cli_error, store_view) prog" where
  "write_view E L s =
     and_then (read_index E L s) (\<lambda>ix. ret \<lparr>vw_store = s, vw_index = ix, vw_ts_registry = None\<rparr>)"

definition registered :: "store_view \<Rightarrow> str \<Rightarrow> selected option" where
  "registered v name = view_selected v name False"

definition not_found :: cli_error where "not_found = operational ''Tenant not found''"

definition not_found_register :: cli_error where
  "not_found_register = operational ''Tenant not found; register a named tenant first''"

definition or_fail :: "'e \<Rightarrow> 'a option \<Rightarrow> ('s, 'e, 'a) prog" where
  "or_fail e x = (case x of Some a \<Rightarrow> ret a | None \<Rightarrow> fail e)"

definition check_new :: "index \<Rightarrow> str \<Rightarrow> cli_error + unit" where
  "check_new ix name =
     (if index_tsg ix name \<noteq> None then Err (operational ''Tenant name already exists'')
      else (case case_conflict ix name of
              Some other \<Rightarrow> Err (operational (''Tenant name conflicts with existing tenant '' @ other
                @ ''; names may not differ only in case''))
            | None \<Rightarrow>
                if max_tenants \<le> length (ix_tenants ix) then Err (operational (''Cannot create tenant ''
                  @ name @ '': at most 1000 tenants can be registered''))
                else Ok ()))"

definition with_pin :: "index \<Rightarrow> str \<Rightarrow> str \<Rightarrow> index" where
  "with_pin ix name tsg = ix\<lparr>ix_tenants := pin_insert (ix_tenants ix) name tsg\<rparr>"

text \<open>The refusals of the commit point come first.\<close>

definition check_commit :: "'w os \<Rightarrow> store \<Rightarrow> str \<Rightarrow> ('w world, cli_error, unit) prog" where
  "check_commit E s contents =
     and_then (of_result (check_size (index_path s) contents)) (\<lambda>_.
     check_replaceable E (index_path s))"

definition create_locked :: "'w os \<Rightarrow> libs \<Rightarrow> store \<Rightarrow> str \<Rightarrow> tenant_config \<Rightarrow> str \<Rightarrow> ('w txn, cli_error, unit) prog" where
  "create_locked E L s name config tsg =
     and_then (in_tx (read_index E L s)) (\<lambda>ix.
     and_then (of_result (check_new ix name)) (\<lambda>_.
     let contents = index_toml (with_pin ix name tsg) in
     and_then (in_tx (check_commit E s contents)) (\<lambda>_.
     and_then (tx_write E (tenant_path s name) (config_toml config) None) (\<lambda>_.
     and_then (attempted (tx_write E (index_path s) contents None)) (\<lambda>written.
     case written of
       Inr _ \<Rightarrow> ret ()
     | Inl e \<Rightarrow> and_then (tx_rollback E) (\<lambda>_. fail e))))))"

definition value_text :: "config_value \<Rightarrow> str" where
  "value_text v = cv_display v"

definition set_failed :: "store \<Rightarrow> bool \<Rightarrow> cli_error" where
  "set_failed s restored = operational (''Cannot save '' @ shown (index_path s) @ ''; ''
     @ (if restored then ''it was not changed'' else ''run the command again to finish the change''))"

definition set_locked :: "'w os \<Rightarrow> libs \<Rightarrow> store \<Rightarrow> str \<Rightarrow> str \<Rightarrow> config_value \<Rightarrow> ('w txn, cli_error, unit) prog" where
  "set_locked E L s name key v =
     (let pin = (key \<noteq> ''mgmtTsgId'') in
      and_then (in_tx (write_view E L s)) (\<lambda>locked.
      and_then (or_fail not_found_register (registered locked name)) (\<lambda>sel.
      and_then (in_tx (load_for_write E L locked sel pin)) (\<lambda>(config, previous).
      let contents = config_toml (config_set key v config) in
      if pin then tx_write E (tenant_path s name) contents (Some previous)
      else
        let index_contents = index_toml (with_pin (vw_index locked) name (value_text v)) in
        and_then (in_tx (check_commit E s index_contents)) (\<lambda>_.
        and_then (tx_write E (tenant_path s name) contents (Some previous)) (\<lambda>_.
        and_then (attempted (tx_write E (index_path s) index_contents None)) (\<lambda>written.
        case written of
          Inr _ \<Rightarrow> ret ()
        | Inl (_ :: cli_error) \<Rightarrow>
            and_then (tx_rollback E) (\<lambda>restored. fail (set_failed s restored)))))))))"

definition unset_locked :: "'w os \<Rightarrow> libs \<Rightarrow> store \<Rightarrow> str \<Rightarrow> str \<Rightarrow> ('w txn, cli_error, bool) prog" where
  "unset_locked E L s name key =
     and_then (in_tx (write_view E L s)) (\<lambda>locked.
     and_then (or_fail not_found_register (registered locked name)) (\<lambda>sel.
     and_then (in_tx (load_for_write E L locked sel True)) (\<lambda>(config, previous).
     case config_unset key config of (removed, left) \<Rightarrow>
       if \<not> removed then ret False
       else and_then (tx_write E (tenant_path s name) (config_toml left) (Some previous)) (\<lambda>_. ret True))))"

definition switch_locked :: "'w os \<Rightarrow> libs \<Rightarrow> store \<Rightarrow> str \<Rightarrow> ('w txn, cli_error, str) prog" where
  "switch_locked E L s name =
     and_then (in_tx (write_view E L s)) (\<lambda>locked.
     and_then (or_fail not_found (registered locked name)) (\<lambda>sel.
     and_then (in_tx (load_for_write E L locked sel True)) (\<lambda>_.
     and_then (tx_write E (index_path s) (index_toml ((vw_index locked)\<lparr>ix_active := Some name\<rparr>)) None)
       (\<lambda>_. ret (sl_tsg sel)))))"

record deleted =
  dl_was_selected :: bool
  dl_file_removed :: bool

definition without_tenant :: "index \<Rightarrow> str \<Rightarrow> index" where
  "without_tenant ix name =
     (let ix' = ix\<lparr>ix_tenants := pin_remove (ix_tenants ix) name\<rparr>
      in if ix_active ix = Some name then ix'\<lparr>ix_active := None\<rparr> else ix')"

definition delete_locked :: "'w os \<Rightarrow> libs \<Rightarrow> store \<Rightarrow> str \<Rightarrow> ('w txn, cli_error, deleted) prog" where
  "delete_locked E L s name =
     and_then (in_tx (write_view E L s)) (\<lambda>locked.
     and_then (or_fail not_found (registered locked name)) (\<lambda>_.
     and_then (tx_write E (index_path s) (index_toml (without_tenant (vw_index locked) name)) None) (\<lambda>_.
     and_then (attempted (tx_remove E (tenant_path s name))) (\<lambda>removed.
     ret \<lparr>dl_was_selected = (ix_active (vw_index locked) = Some name),
          dl_file_removed = (case removed of Inr _ \<Rightarrow> True | Inl e \<Rightarrow> e = NOENT)\<rparr>))))"

section \<open>Sessions\<close>

record cmd_context =
  cx_env :: environment
  cx_libs :: libs
  cx_terminals :: terminals
  cx_quiet :: bool
  cx_piped :: "str option" \<comment> \<open>what a read of stdin to its end gives\<close>
  cx_encode :: "str \<Rightarrow> str" \<comment> \<open>the percent encoding of the secret set\<close>

record 'w session =
  sn_world :: "'w world"
  sn_input :: "chunk list"
  sn_secrets :: secret_set
  sn_committed :: bool

definition in_session :: "('w world, 'e, 'a) prog \<Rightarrow> ('w session, 'e, 'a) prog" where
  "in_session m = (\<lambda>s. case m (sn_world s) of (r, w) \<Rightarrow> (r, s\<lparr>sn_world := w\<rparr>))"

definition no_change :: cli_error where "no_change = Interrupted NoConfigurationChanged"

definition out_of_fuel :: cli_error where "out_of_fuel = Reported (-1)"

definition outcome_line :: "'w os \<Rightarrow> cmd_context \<Rightarrow> event \<Rightarrow> ('w world, 'e, unit) prog" where
  "outcome_line E C line =
     (if cx_quiet C then ret ()
      else and_then (calls (os_cancelled E)) (\<lambda>c. if c then ret () else logs line))"

definition stop_if_signalled :: "'w os \<Rightarrow> ('w world, cli_error, unit) prog" where
  "stop_if_signalled E =
     and_then (calls (os_cancelled E)) (\<lambda>c. if c then fail no_change else ret ())"

definition status_waiter :: "'w os \<Rightarrow> cmd_context \<Rightarrow> 'w waiter" where
  "status_waiter E C =
     \<lparr>w_waiting = (\<lambda>holder. if cx_quiet C then ret ()
        else logs (Status (''Waiting for another '' @ program @ '' change to finish ('' @ holder @ '')''))),
      w_interrupted = and_then (calls (os_cancelled E)) (\<lambda>c. ret (if c then Some no_change else None))\<rparr>"

definition begin_tx :: "'w os \<Rightarrow> cmd_context \<Rightarrow> store \<Rightarrow> bool \<Rightarrow> ('w session, cli_error, transaction) prog" where
  "begin_tx E C s tenant_files = in_session (
     and_then (stop_if_signalled E) (\<lambda>_.
     and_then (tx_begin E s tenant_files (status_waiter E C)) (\<lambda>tx.
     case tx of Some tx \<Rightarrow> ret tx | None \<Rightarrow> fail out_of_fuel)))"

text \<open>A locked part; an error drops the transaction, which releases the lock.\<close>

definition locked_part :: "'w os \<Rightarrow> transaction \<Rightarrow> ('w txn, cli_error, 'a) prog \<Rightarrow>
    ('w session, cli_error, transaction \<times> 'a) prog" where
  "locked_part E tx m = (\<lambda>s.
     case m \<lparr>the_tx = tx, tx_world = sn_world s\<rparr> of
       (Inr x, t) \<Rightarrow> (Ok (the_tx t, x), s\<lparr>sn_world := tx_world t\<rparr>)
     | (Inl e, t) \<Rightarrow>
         (Err e, s\<lparr>sn_world := snd ((tx_drop E (the_tx t) :: ('w world, cli_error, unit) prog) (tx_world t))\<rparr>))"

definition finish_tx :: "'w os \<Rightarrow> transaction \<Rightarrow> ('w session, 'e, unit) prog" where
  "finish_tx E tx = (\<lambda>s.
     case (tx_commit E :: ('w txn, 'e, str list) prog) \<lparr>the_tx = tx, tx_world = sn_world s\<rparr> of
       (Inr warnings, t) \<Rightarrow>
         in_session (for_each (\<lambda>m. logs (Warning m)) warnings) (s\<lparr>sn_world := tx_world t\<rparr>)
     | (Inl e, t) \<Rightarrow> (Err e, s\<lparr>sn_world := tx_world t\<rparr>))"

definition committed :: "bool \<Rightarrow> ('w session, 'e, unit) prog" where
  "committed c = modifies (\<lambda>s. s\<lparr>sn_committed := c\<rparr>)"

definition with_secrets :: "(secret_set \<Rightarrow> secret_set) \<Rightarrow> ('w session, 'e, unit) prog" where
  "with_secrets f = modifies (\<lambda>s. s\<lparr>sn_secrets := f (sn_secrets s)\<rparr>)"

definition register_config :: "(str \<Rightarrow> str) \<Rightarrow> tenant_config \<Rightarrow> secret_set \<Rightarrow> secret_set" where
  "register_config enc config forms =
     (let forms = foldl (\<lambda>fs secret. add_secret enc secret fs) forms (secret_values config)
      in case (effective_str config ''mgmtClientId'', effective_str config ''mgmtClientSecret'') of
           (Some client, Some secret) \<Rightarrow> add_basic_credentials enc client secret forms
         | _ \<Rightarrow> forms)"

definition cancelled_text :: str where "cancelled_text = ''Cancelled; no configuration saved.''"

definition cancelled_prompt :: "cmd_context \<Rightarrow> ('w session, cli_error, 'a) prog" where
  "cancelled_prompt C =
     and_then (in_session (logs (Stderr nl))) (\<lambda>_.
     and_then (in_session (if cx_quiet C then ret () else logs (Status cancelled_text))) (\<lambda>_.
     fail (Reported exit_sigint)))"

definition ask_key :: "'w os \<Rightarrow> cmd_context \<Rightarrow> str \<Rightarrow> str \<Rightarrow> str \<Rightarrow> ('w session, cli_error, config_value) prog" where
  "ask_key E C message name key =
     and_then (in_session (stop_if_signalled E)) (\<lambda>_.
     and_then (reads sn_input) (\<lambda>input.
     case ask message (is_secret_key key) (write_rule (cx_libs C) name key) input of
       (answer, said, rest) \<Rightarrow>
         and_then (modifies (\<lambda>s. s\<lparr>sn_input := rest\<rparr>)) (\<lambda>_.
         and_then (in_session (logs (Stderr said))) (\<lambda>_.
         case answer of Inr v \<Rightarrow> ret v | Inl _ \<Rightarrow> cancelled_prompt C))))"

definition stdin_value :: "cmd_context \<Rightarrow> str \<Rightarrow> str \<Rightarrow> cli_error + config_value" where
  "stdin_value C name key =
     bind_r (read_piped (cx_piped C)) (\<lambda>v. usage_of (write_rule (cx_libs C) name key v))"

section \<open>Commands\<close>

definition ask_unless :: "'w os \<Rightarrow> cmd_context \<Rightarrow> config_value option \<Rightarrow> str \<Rightarrow> str \<Rightarrow> str \<Rightarrow>
    ('w session, cli_error, config_value) prog" where
  "ask_unless E C given message name key =
     (case given of Some v \<Rightarrow> ret v | None \<Rightarrow> ask_key E C message name key)"

definition create :: "'w os \<Rightarrow> cmd_context \<Rightarrow> str \<Rightarrow> str option \<Rightarrow> str option \<Rightarrow> bool \<Rightarrow> ('w session, cli_error, unit) prog" where
  "create E C name tsg client_id secret_stdin =
     (let t = cx_terminals C; L = cx_libs C;
          complete = (tsg \<noteq> None \<and> client_id \<noteq> None \<and> secret_stdin) in
      if secret_stdin \<and> tm_stdin t then fail (Usage needs_pipe)
      else if \<not> complete \<and> \<not> is_interactive t then fail (Usage interactive_setup)
      else
      and_then (of_result (if secret_stdin
          then bind_r (stdin_value C name ''mgmtClientSecret'') (\<lambda>v. Ok (Some v)) else Ok None)) (\<lambda>secret.
      and_then (of_result (env_store (cx_env C))) (\<lambda>s.
      and_then (in_session (read_index E L s)) (\<lambda>ix.
      and_then (of_result (check_new ix name)) (\<lambda>_.
      and_then (ask_unless E C (map_option CText tsg) ''Tenant service group ID (mgmtTsgId):'' name ''mgmtTsgId'') (\<lambda>tsg.
      and_then (ask_unless E C (map_option CText client_id) ''OAuth client ID (mgmtClientId):'' name ''mgmtClientId'') (\<lambda>client_id.
      and_then (ask_unless E C secret ''OAuth client secret (mgmtClientSecret):'' name ''mgmtClientSecret'') (\<lambda>secret.
      let tsg = value_text tsg;
          config = from_values [(''mgmtClientId'', CText (value_text client_id)),
                                (''mgmtClientSecret'', secret), (''mgmtTsgId'', CText tsg)] in
      and_then (with_secrets (register_config (cx_encode C) config)) (\<lambda>_.
      and_then (begin_tx E C s True) (\<lambda>tx.
      and_then (locked_part E tx (create_locked E L s name config tsg)) (\<lambda>(tx, _).
      and_then (committed True) (\<lambda>_.
      and_then (finish_tx E tx) (\<lambda>_.
      in_session (outcome_line E C (SuccessLine (''Registered '' @ name @ '' (TSG '' @ tsg
        @ ''); private config created. Use '' @ program @ '' tenant switch '' @ name @ ''.''))))))))))))))))"

definition set_key :: "'w os \<Rightarrow> cmd_context \<Rightarrow> str \<Rightarrow> str \<Rightarrow> config_value option \<Rightarrow> bool \<Rightarrow> ('w session, cli_error, unit) prog" where
  "set_key E C name key given stdin =
     (let t = cx_terminals C; L = cx_libs C in
      if stdin \<and> tm_stdin t then fail (Usage needs_pipe)
      else if given = None \<and> \<not> stdin \<and> \<not> is_interactive t then fail (Usage interactive_setup)
      else
      and_then (of_result (case given of
          Some v \<Rightarrow> Ok (Some v)
        | None \<Rightarrow> if stdin then bind_r (stdin_value C name key) (\<lambda>v. Ok (Some v)) else Ok None)) (\<lambda>given.
      and_then (of_result (env_store (cx_env C))) (\<lambda>s.
      and_then (in_session (write_view E L s)) (\<lambda>unlocked.
      and_then (or_fail not_found_register (registered unlocked name)) (\<lambda>sel.
      and_then (in_session (load_for_write E L unlocked sel (key \<noteq> ''mgmtTsgId''))) (\<lambda>_.
      and_then (ask_unless E C given (key @ '':'') name key) (\<lambda>v.
      and_then (case cv_str v of
          Some secret \<Rightarrow> if is_secret_key key then with_secrets (add_secret (cx_encode C) secret) else ret ()
        | None \<Rightarrow> ret ()) (\<lambda>_.
      and_then (begin_tx E C s False) (\<lambda>tx.
      and_then (locked_part E tx (set_locked E L s name key v)) (\<lambda>(tx, _).
      and_then (committed True) (\<lambda>_.
      and_then (finish_tx E tx) (\<lambda>_.
      in_session (outcome_line E C (SuccessLine (''Updated '' @ key @ '' for tenant '' @ name
        @ ''; selection unchanged.'')))))))))))))))"

definition unset_key :: "'w os \<Rightarrow> cmd_context \<Rightarrow> str \<Rightarrow> str \<Rightarrow> ('w session, cli_error, unit) prog" where
  "unset_key E C name key =
     (let L = cx_libs C in
      and_then (of_result (env_store (cx_env C))) (\<lambda>s.
      and_then (in_session (write_view E L s)) (\<lambda>unlocked.
      and_then (or_fail not_found_register (registered unlocked name)) (\<lambda>_.
      and_then (begin_tx E C s False) (\<lambda>tx.
      and_then (locked_part E tx (unset_locked E L s name key)) (\<lambda>(tx, removed).
      and_then (committed removed) (\<lambda>_.
      and_then (finish_tx E tx) (\<lambda>_.
      in_session (outcome_line E C
        (if removed then SuccessLine (''Removed '' @ key @ '' from tenant '' @ name @ ''; selection unchanged.'')
         else InfoLine (key @ '' is not set for tenant '' @ name @ '' '' @ em_dash @ '' nothing to do'')))))))))))"

definition switch_tenant :: "'w os \<Rightarrow> cmd_context \<Rightarrow> str \<Rightarrow> ('w session, cli_error, unit) prog" where
  "switch_tenant E C name =
     (let L = cx_libs C in
      and_then (of_result (env_store (cx_env C))) (\<lambda>s.
      and_then (in_session (write_view E L s)) (\<lambda>unlocked.
      and_then (or_fail not_found (registered unlocked name)) (\<lambda>_.
      and_then (begin_tx E C s False) (\<lambda>tx.
      and_then (locked_part E tx (switch_locked E L s name)) (\<lambda>(tx, tsg).
      and_then (committed True) (\<lambda>_.
      and_then (finish_tx E tx) (\<lambda>_.
      in_session (outcome_line E C (SuccessLine (''Selected '' @ name @ '' (TSG '' @ tsg @ '')'')))))))))))"

text \<open>\<open>None\<close> when the delete is confirmed or forced, the end of an aborted one otherwise.\<close>

definition confirm_delete :: "'w os \<Rightarrow> cmd_context \<Rightarrow> store_view \<Rightarrow> str \<Rightarrow> bool \<Rightarrow> ('w session, cli_error, bool) prog" where
  "confirm_delete E C v name force =
     (if force then ret True
      else
        let message = ''Delete tenant '' @ name @ ''?''
              @ (if ix_active (vw_index v) = Some name
                 then '' It is the selected tenant; no tenant will be selected afterwards.'' else [])
              @ '' Its config file will be deleted.'' in
        and_then (in_session (stop_if_signalled E)) (\<lambda>_.
        and_then (reads sn_input) (\<lambda>input.
        case confirm message input of (yes, said, rest) \<Rightarrow>
          and_then (modifies (\<lambda>s. s\<lparr>sn_input := rest\<rparr>)) (\<lambda>_.
          and_then (in_session (logs (Stderr said))) (\<lambda>_. ret yes)))))"

definition delete_tenant :: "'w os \<Rightarrow> cmd_context \<Rightarrow> str \<Rightarrow> bool \<Rightarrow> ('w session, cli_error, unit) prog" where
  "delete_tenant E C name force =
     (let L = cx_libs C in
      if \<not> force \<and> \<not> is_interactive (cx_terminals C) then fail (Usage (''refusing to delete tenant '' @ name
        @ '' without --force in non-interactive mode''))
      else
      and_then (of_result (env_store (cx_env C))) (\<lambda>s.
      and_then (in_session (write_view E L s)) (\<lambda>unlocked.
      and_then (or_fail not_found (registered unlocked name)) (\<lambda>_.
      and_then (confirm_delete E C unlocked name force) (\<lambda>yes.
      if \<not> yes then in_session (outcome_line E C (InfoLine ''Aborted'')) else
      and_then (begin_tx E C s False) (\<lambda>tx.
      and_then (locked_part E tx (delete_locked E L s name)) (\<lambda>(tx, d).
      and_then (committed True) (\<lambda>_.
      and_then (finish_tx E tx) (\<lambda>_.
      if \<not> dl_file_removed d then fail (operational (''Deleted tenant '' @ name @ '', but ''
        @ shown (tenant_path s name) @ '' could not be removed; remove it by hand''))
      else in_session (outcome_line E C (SuccessLine (''Deleted '' @ name @ '' and its config file''
        @ (if dl_was_selected d then ''; no tenant is selected'' else [])))))))))))))"

fun run_write :: "'w os \<Rightarrow> cmd_context \<Rightarrow> write_plan \<Rightarrow> ('w session, cli_error, unit) prog" where
  "run_write E C (WpCreate name tsg client_id secret_stdin) = create E C name tsg client_id secret_stdin"
| "run_write E C (WpSet name key v stdin) = set_key E C name key v stdin"
| "run_write E C (WpUnset name key) = unset_key E C name key"
| "run_write E C (WpSwitch name) = switch_tenant E C name"
| "run_write E C (WpDelete name force) = delete_tenant E C name force"

end
