(* ===== verification/StoreLock.thy ===== *)
theory StoreLock
  imports Disk TenantWrite
begin

text \<open>
  The wait for the store's lock ends: on a disk whose calls take any time and fail in any way,
  the loop never needs more than its fuel, whoever holds the lock.
\<close>

section \<open>Time goes on\<close>

definition clock_of :: "disk world \<Rightarrow> nat" where
  "clock_of w = dk_time (outside w)"

definition patient :: "(disk world, 'e, 'a) prog \<Rightarrow> bool" where
  "patient m = (\<forall>w. clock_of w \<le> clock_of (snd (m w)))"

named_theorems patient_rules

lemma patientD: "patient m \<Longrightarrow> m w = (r, w') \<Longrightarrow> clock_of w \<le> clock_of w'"
  by (metis patient_def snd_conv)

lemma patient_ret [patient_rules]: "patient (ret x)" by (simp add: patient_def ret_def)
lemma patient_fail [patient_rules]: "patient (fail e)" by (simp add: patient_def fail_def)
lemma patient_logs [patient_rules]: "patient (logs ev)"
  by (simp add: patient_def logs_def modifies_def clock_of_def)

lemma patient_attempted [patient_rules]: "patient m \<Longrightarrow> patient (attempted m)"
  by (auto simp: patient_def attempted_def split: prod.splits) (metis snd_conv)

lemma patient_mapped_err [patient_rules]: "patient m \<Longrightarrow> patient (mapped_err g m)"
  by (auto simp: patient_def mapped_err_def split: prod.splits sum.splits) (metis snd_conv)+

lemma patient_and_then [patient_rules]:
  assumes "patient m" "\<And>x. patient (f x)"
  shows "patient (and_then m f)"
  unfolding patient_def
proof
  fix w
  obtain r w1 where m: "m w = (r, w1)" by fastforce
  with assms(1) have "clock_of w \<le> clock_of w1" by (rule patientD)
  with m assms(2) show "clock_of w \<le> clock_of (snd (and_then m f w))"
    by (cases r) (auto simp: and_then_def patient_def intro: order_trans)
qed

lemma patient_if [patient_rules]: "patient a \<Longrightarrow> patient b \<Longrightarrow> patient (if c then a else b)" by simp

lemma patient_sum [patient_rules]:
  "(\<And>x. patient (f x)) \<Longrightarrow> (\<And>y. patient (g y)) \<Longrightarrow> patient (case r of Inl x \<Rightarrow> f x | Inr y \<Rightarrow> g y)"
  by (simp split: sum.splits)

lemma patient_option [patient_rules]:
  "patient a \<Longrightarrow> (\<And>y. patient (g y)) \<Longrightarrow> patient (case r of None \<Rightarrow> a | Some y \<Rightarrow> g y)"
  by (simp split: option.splits)

lemma patient_pair [patient_rules]:
  "(\<And>a b. patient (f a b)) \<Longrightarrow> patient (case x of (a, b) \<Rightarrow> f a b)"
  by (simp split: prod.splits)

lemma patient_calls [patient_rules]: "(\<And>d. dk_time d \<le> dk_time (snd (f d))) \<Longrightarrow> patient (calls f)"
  by (auto simp: patient_def calls_def clock_of_def split: prod.splits) (metis snd_conv)

lemma patient_tries [patient_rules]: "(\<And>d. dk_time d \<le> dk_time (snd (f d))) \<Longrightarrow> patient (tries f)"
  by (auto simp: patient_def tries_def clock_of_def split: prod.splits) (metis snd_conv)

lemma time_simps [simp]: "dk_time (recorded d) = dk_time d" "dk_time d \<le> dk_time (ticked d)"
  "dk_time (at_fd fd f d) = dk_time d" "dk_time (d_new p n d) = dk_time d"
  by (simp_all add: recorded_def ticked_def at_fd_def d_new_def)

lemma dcall_or_time:
  assumes "\<And>d. dk_time (g d) = dk_time d" "\<And>d. dk_time (snd (f d)) = dk_time d"
  shows "dk_time d \<le> dk_time (snd (dcall_or g f d))"
proof -
  obtain r d' where f: "f (ticked d) = (r, d')" by fastforce
  with assms(2) [of "ticked d"] have "dk_time d' = dk_time (ticked d)" by simp
  with f assms(1) show ?thesis by (simp add: dcall_or_def split: option.split)
qed

lemma dcall_time: "(\<And>d. dk_time (snd (f d)) = dk_time d) \<Longrightarrow> dk_time d \<le> dk_time (snd (dcall f d))"
  unfolding dcall_def by (rule dcall_or_time) simp_all

lemma call_times [patient_rules]:
  "dk_time d \<le> dk_time (snd (d_lstat p d))"
  "dk_time d \<le> dk_time (snd (d_open_read p d))"
  "dk_time d \<le> dk_time (snd (d_open_rdwr p d))"
  "dk_time d \<le> dk_time (snd (d_fstat fd d))"
  "dk_time d \<le> dk_time (snd (d_read fd n d))"
  "dk_time d \<le> dk_time (snd (d_create_excl uid p d))"
  "dk_time d \<le> dk_time (snd (d_fchmod fd d))"
  "dk_time d \<le> dk_time (snd (d_nothing d))"
  "dk_time d \<le> dk_time (snd (d_ask f d))"
  by (auto simp: d_lstat_def d_open_read_def d_open_rdwr_def d_open_def d_fstat_def d_read_def d_create_excl_def
      d_fchmod_def d_nothing_def d_ask_def d_opened_def Let_def intro!: dcall_time split: option.split)

section \<open>The wait\<close>

lemma patient_still_named [patient_rules]: "patient (still_named (on_disk E) path fd)"
  unfolding still_named_def on_disk_simps by (intro patient_rules)

lemma patient_open_checked [patient_rules]:
  "(\<And>d. dk_time d \<le> dk_time (snd (opener path d))) \<Longrightarrow> patient (open_checked (on_disk E) opener path)"
  unfolding open_checked_def on_disk_simps by (intro patient_rules)

lemma patient_open_lock_file [patient_rules]: "patient (open_lock_file (on_disk E) path)"
  unfolding open_lock_file_def on_disk_simps by (intro patient_rules)

lemma patient_read_record [patient_rules]: "patient (read_record (on_disk E) fd)"
  unfolding read_record_def on_disk_simps by (intro patient_rules)

definition patient_waiter :: "disk waiter \<Rightarrow> bool" where
  "patient_waiter W = ((\<forall>h. patient (w_waiting W h)) \<and> patient (w_interrupted W))"

lemma patient_stop [patient_rules]: "patient_waiter W \<Longrightarrow> patient (stop_if_interrupted W)"
  unfolding stop_if_interrupted_def by (intro patient_rules) (simp add: patient_waiter_def)

lemma patient_status_waiter: "patient_waiter (status_waiter (on_disk E) C)"
  unfolding patient_waiter_def status_waiter_def on_disk_simps
  by (simp, intro conjI allI impI patient_rules)

lemma and_then_Ok: "and_then m f w = (Ok y, w') \<longleftrightarrow> (\<exists>x w1. m w = (Ok x, w1) \<and> f x w1 = (Ok y, w'))"
  by (auto simp: and_then_def split: prod.splits sum.splits)

lemma and_then_OkE:
  assumes "and_then m f w = (Ok y, w')"
  obtains x w1 where "m w = (Ok x, w1)" "f x w1 = (Ok y, w')"
  using assms by (auto simp: and_then_Ok)

lemma calls_run: "calls f w = (r, w') \<longleftrightarrow> r = Ok (fst (f (outside w))) \<and> w' = w\<lparr>outside := snd (f (outside w))\<rparr>"
  by (auto simp: calls_def split: prod.splits)

lemma wait_once_takes_time:
  assumes "patient_waiter W" and "wait_once (on_disk E) W path bound started fd announced w = (Ok (), w')"
  shows "clock_of w < started + bound \<and> clock_of w + 100 \<le> clock_of w'"
proof -
  obtain rec w1 where a: "(read_record (on_disk E) fd :: (disk world, cli_error, str) prog) w = (Ok rec, w1)"
    and rest: "and_then (if announced then ret () else w_waiting W (holder_text rec)) (\<lambda>_.
      and_then (stop_if_interrupted W) (\<lambda>_.
      and_then (calls (d_ask dk_time)) (\<lambda>now.
      if bound \<le> now - started then fail (operational (''Another change is in progress: '' @ shown path
        @ '' is held by '' @ holder_text rec @ ''; try again when it finishes''))
      else and_then (calls (d_sleep poll_millis)) (\<lambda>_. stop_if_interrupted W)))) w1 = (Ok (), w')"
    using assms(2) unfolding wait_once_def on_disk_simps Let_def by (rule and_then_OkE)
  from rest obtain w2 where b: "(if announced then ret () else w_waiting W (holder_text rec)) w1 = (Ok (), w2)"
    and "and_then (stop_if_interrupted W) (\<lambda>_.
      and_then (calls (d_ask dk_time)) (\<lambda>now.
      if bound \<le> now - started then fail (operational (''Another change is in progress: '' @ shown path
        @ '' is held by '' @ holder_text rec @ ''; try again when it finishes''))
      else and_then (calls (d_sleep poll_millis)) (\<lambda>_. stop_if_interrupted W))) w2 = (Ok (), w')"
    by (rule and_then_OkE) simp
  then obtain w3 w4 where c: "stop_if_interrupted W w2 = (Ok (), w3)"
    and d: "w4 = w3\<lparr>outside := recorded (ticked (outside w3))\<rparr>" "\<not> bound \<le> clock_of w3 - started"
    and f: "and_then (calls (d_sleep poll_millis)) (\<lambda>_. stop_if_interrupted W) w4 = (Ok (), w')"
    by (auto simp: and_then_Ok calls_run d_ask_def clock_of_def fail_def split: if_splits)
  from f obtain x w5 where
      sleep: "(calls (d_sleep poll_millis) :: (disk world, cli_error, bool) prog) w4 = (Ok x, w5)"
    and h: "stop_if_interrupted W w5 = (Ok (), w')"
    by (rule and_then_OkE)
  from sleep have g: "clock_of w5 = clock_of w4 + dk_delays (outside w4) (dk_calls (outside w4)) + poll_millis"
    by (auto simp: calls_run d_sleep_def clock_of_def recorded_def ticked_def)
  have "patient (if announced then ret () else w_waiting W (holder_text rec))"
    using assms(1) by (simp add: patient_waiter_def patient_ret)
  with patientD [OF patient_read_record a] b have "clock_of w \<le> clock_of w2"
    by (meson order_trans patientD)
  moreover have "clock_of w2 \<le> clock_of w3" "clock_of w5 \<le> clock_of w'"
    using patientD [OF patient_stop [OF assms(1)]] c h by blast+
  moreover have "clock_of w3 \<le> clock_of w4" by (simp add: d(1) clock_of_def)
  ultimately show ?thesis using d(2) g by (simp add: poll_millis_def)
qed

definition waits_left :: "nat \<Rightarrow> nat \<Rightarrow> disk world \<Rightarrow> nat" where
  "waits_left started bound w = (started + bound - clock_of w + 99) div 100"

lemma waits_left_mono: "clock_of w \<le> clock_of w' \<Longrightarrow> waits_left started bound w' \<le> waits_left started bound w"
  by (simp add: waits_left_def div_le_mono)

lemma waits_left_step:
  assumes "clock_of w < started + bound" "clock_of w + 100 \<le> clock_of w'"
  shows "Suc (waits_left started bound w') \<le> waits_left started bound w"
proof -
  have one: "Suc (waits_left started bound w') = (started + bound - clock_of w' + 99 + 100) div 100"
    by (simp add: waits_left_def)
  show ?thesis
  proof (cases "started + bound \<le> clock_of w'")
    case True
    then have "waits_left started bound w' = 0" by (simp add: waits_left_def)
    moreover have "100 div 100 \<le> waits_left started bound w"
      unfolding waits_left_def using assms(1) by (intro div_le_mono) simp
    ultimately show ?thesis by simp
  next
    case False
    then show ?thesis unfolding one unfolding waits_left_def
      by (intro div_le_mono) (use assms(2) in linarith)
  qed
qed

lemma lock_loop_ends:
  assumes "patient_waiter W" and "reopened \<le> reopen_limit"
    and "waits_left started bound w + (reopen_limit - reopened) + 1 \<le> fuel"
  shows "fst (lock_loop fuel (on_disk E) W path bound started fd announced reopened w) \<noteq> Ok None"
  using assms(2,3)
proof (induction fuel arbitrary: w fd announced reopened)
  case (Suc fuel)
  obtain r w1 where l: "tries d_nothing w = (r, w1)" by fastforce
  have time1: "clock_of w \<le> clock_of w1" by (rule patientD [where m = "tries d_nothing", OF _ l]) (intro patient_rules)
  show ?case
  proof (rule notI)
    assume none: "fst (lock_loop (Suc fuel) (on_disk E) W path bound started fd announced reopened w) = Ok None"
    then obtain w' where run: "lock_loop (Suc fuel) (on_disk E) W path bound started fd announced reopened w = (Ok None, w')"
      by (metis prod.collapse)
    show False
    proof (cases r)
      case (Inr u)
      with run l obtain named w2 where n: "(still_named (on_disk E) path fd :: (disk world, cli_error, bool) prog) w1 = (Ok named, w2)"
        and rest: "(if named then ret (Some fd) else if reopen_limit < reopened + 1 then fail (cannot_lock path)
            else and_then (open_lock_file (on_disk E) path) (\<lambda>fd.
              lock_loop fuel (on_disk E) W path bound started fd announced (reopened + 1))) w2 = (Ok None, w')"
        by (auto simp: and_then_Ok attempted_def split: prod.splits)
      from rest have less: "reopened + 1 \<le> reopen_limit"
        by (auto simp: ret_def fail_def split: if_splits)
      with rest obtain fd' w3 where o: "open_lock_file (on_disk E) path w2 = (Ok fd', w3)"
        and again: "lock_loop fuel (on_disk E) W path bound started fd' announced (reopened + 1) w3 = (Ok None, w')"
        by (auto simp: ret_def fail_def and_then_Ok split: if_splits)
      have "clock_of w \<le> clock_of w3"
        using time1 patientD [OF patient_still_named n] patientD [OF patient_open_lock_file o] by simp
      with waits_left_mono [OF this, of started bound] Suc.prems(2) less
      have "waits_left started bound w3 + (reopen_limit - (reopened + 1)) + 1 \<le> fuel" by simp
      from Suc.IH [OF less this] again show False by (metis fst_conv)
    next
      case (Inl e)
      with run l obtain w2 where wt: "wait_once (on_disk E) W path bound started fd announced w1 = (Ok (), w2)"
        and again: "lock_loop fuel (on_disk E) W path bound started fd True reopened w2 = (Ok None, w')"
        by (auto simp: and_then_Ok attempted_def fail_def split: prod.splits if_splits)
      from wait_once_takes_time [OF assms(1) wt] have "Suc (waits_left started bound w2) \<le> waits_left started bound w1"
        by (intro waits_left_step) simp_all
      with waits_left_mono [OF time1, of started bound] Suc.prems
      have "waits_left started bound w2 + (reopen_limit - reopened) + 1 \<le> fuel" by simp
      from Suc.IH [OF Suc.prems(1) this] again show False by (metis fst_conv)
    qed
  qed
qed simp

lemma acquire_with_ends:
  assumes "patient_waiter W" and "lock_fuel bound \<le> fuel"
  shows "fst (acquire_with fuel (on_disk E) s W bound w) \<noteq> Ok None"
proof
  assume "fst (acquire_with fuel (on_disk E) s W bound w) = Ok None"
  then obtain w' where "acquire_with fuel (on_disk E) s W bound w = (Ok None, w')" by (metis prod.collapse)
  then obtain fd w1 w2 where l: "lock_loop fuel (on_disk E) W (lock_path s) bound (clock_of w1) fd False 0 w2 = (Ok None, w')"
    and w2: "w2 = w1\<lparr>outside := recorded (ticked (outside w1))\<rparr>"
    by (auto simp: acquire_with_def Let_def and_then_Ok calls_run d_ask_def clock_of_def write_holder_def ret_def
        split: option.splits)
  have "clock_of w1 \<le> clock_of w2" by (simp add: w2 clock_of_def)
  then have "waits_left (clock_of w1) bound w2 \<le> (bound + 99) div 100"
    unfolding waits_left_def by (intro div_le_mono) simp
  then have "waits_left (clock_of w1) bound w2 + (reopen_limit - 0) + 1 \<le> fuel"
    using assms(2) by (simp add: lock_fuel_def poll_millis_def reopen_limit_def)
  from lock_loop_ends [OF assms(1) _ this, of E "lock_path s" fd False] l show False by simp
qed

end
