(* ===== verification/StoreSafe.thy ===== *)
theory StoreSafe
  imports StoreLock
begin

text \<open>
  What an atomic write does to a disk, whatever fails and whenever the program dies:
  \<open>sees V Q w\<close> says that the files of the disk are \<open>V\<close> and that every state since the record
  of the past began satisfied \<open>Q\<close>.
\<close>

section \<open>What a disk holds\<close>

definition sees :: "files \<Rightarrow> (files \<Rightarrow> bool) \<Rightarrow> disk world \<Rightarrow> bool" where
  "sees V Q w = (files_of (outside w) = V \<and> sound_disk (outside w) \<and> (\<forall>v \<in> set (dk_past (outside w)). Q v))"

lemma ticked_simps [simp]:
  "files_of (ticked d) = files_of d" "sound_disk (ticked d) = sound_disk d" "dk_past (ticked d) = dk_past d"
  "dk_names (ticked d) = dk_names d" "dk_nodes (ticked d) = dk_nodes d" "dk_next (ticked d) = dk_next d"
  "dk_fds (ticked d) = dk_fds d" "dk_next_fd (ticked d) = dk_next_fd d"
  by (simp_all add: ticked_def files_of_def sound_disk_def)

lemma recorded_simps [simp]:
  "files_of (recorded d) = files_of d" "sound_disk (recorded d) = sound_disk d"
  "dk_past (recorded d) = files_of d # dk_past d" "dk_names (recorded d) = dk_names d"
  "dk_nodes (recorded d) = dk_nodes d" "dk_next (recorded d) = dk_next d" "dk_fds (recorded d) = dk_fds d"
  by (simp_all add: recorded_def files_of_def sound_disk_def)

lemma opened_simps [simp]:
  "files_of (d\<lparr>dk_fds := x, dk_next_fd := y\<rparr>) = files_of d"
  "sound_disk (d\<lparr>dk_fds := x, dk_next_fd := y\<rparr>) = sound_disk d"
  by (simp_all add: files_of_def sound_disk_def)

lemma dcall_or_run:
  assumes "dcall_or g f d = (r, d')"
  obtains (failed) e where "r = Err (honest e)" "d' = recorded (g (ticked d))"
    | (done_) d1 where "f (ticked d) = (r, d1)" "d' = recorded d1"
  using assms by (auto simp: dcall_or_def split: option.splits prod.splits)

lemma honest_plain [simp]: "honest e \<noteq> NOENT" "honest e \<noteq> EXIST" "honest e \<noteq> LOOP" "honest e \<noteq> NOTDIR"
  by (auto simp: honest_def)

lemma sees_outside [simp]: "sees V Q (w\<lparr>outside := d\<rparr>) =
    (files_of d = V \<and> sound_disk d \<and> (\<forall>v \<in> set (dk_past d). Q v))"
  by (simp add: sees_def)

section \<open>Calls that leave the files alone\<close>

text \<open>A call that keeps the names and the inodes.\<close>

definition keeps :: "(disk \<Rightarrow> 'a \<times> disk) \<Rightarrow> bool" where
  "keeps f = (\<forall>d. let d' = snd (f d) in files_of d' = files_of d \<and> sound_disk d' = sound_disk d
      \<and> set (dk_past d') \<subseteq> insert (files_of d) (set (dk_past d)))"

lemma keeps_dcall:
  assumes "\<And>d. let d' = snd (f d) in files_of d' = files_of d \<and> sound_disk d' = sound_disk d \<and> dk_past d' = dk_past d"
  shows "keeps (dcall f)"
  unfolding keeps_def Let_def
proof
  fix d
  obtain r d' where e: "dcall f d = (r, d')" by fastforce
  from e have "dcall_or (\<lambda>d. d) f d = (r, d')" by (simp add: dcall_def)
  then show "files_of (snd (dcall f d)) = files_of d \<and> sound_disk (snd (dcall f d)) = sound_disk d
      \<and> set (dk_past (snd (dcall f d))) \<subseteq> insert (files_of d) (set (dk_past d))"
  proof (cases rule: dcall_or_run)
    case (done_ d1)
    with e assms [of "ticked d"] show ?thesis by (auto simp: Let_def)
  qed (use e in auto)
qed

named_theorems still_rules

lemma keeps_calls [still_rules]:
  "keeps (d_lstat p)" "keeps (d_open_read p)" "keeps (d_open_rdwr p)" "keeps (d_open_dir p)" "keeps (d_fstat fd)"
  "keeps (d_read fd n)" "keeps d_nothing" "keeps (d_sync_dir p)" "keeps (d_read_dir p)" "keeps (d_ask f)" "keeps (d_sleep ms)"
  unfolding d_lstat_def d_open_read_def d_open_rdwr_def d_open_dir_def d_open_def d_fstat_def d_read_def d_nothing_def
    d_sync_dir_def d_read_dir_def
  by (auto simp: d_opened_def Let_def split: option.splits intro!: keeps_dcall)
     (auto simp: keeps_def d_ask_def d_sleep_def Let_def recorded_def ticked_def files_of_def sound_disk_def)

definition still :: "(disk world, 'e, 'a) prog \<Rightarrow> bool" where
  "still m = (\<forall>V Q w. sees V Q w \<longrightarrow> Q V \<longrightarrow> sees V Q (snd (m w)))"

lemma stillD: "still m \<Longrightarrow> m w = (r, w') \<Longrightarrow> sees V Q w \<Longrightarrow> Q V \<Longrightarrow> sees V Q w'"
  by (metis still_def snd_conv)

lemma still_ret [still_rules]: "still (ret x)" by (simp add: still_def ret_def)
lemma still_fail [still_rules]: "still (fail e)" by (simp add: still_def fail_def)
lemma still_of_result [still_rules]: "still (of_result r)" by (simp add: still_def of_result_def)
lemma still_logs [still_rules]: "still (logs ev)" by (simp add: still_def logs_def modifies_def sees_def)

lemma still_calls [still_rules]: "keeps f \<Longrightarrow> still (calls f)"
  by (auto simp: still_def calls_def keeps_def sees_def Let_def split: prod.splits) (metis insertE snd_conv subsetD)+

lemma still_tries [still_rules]: "keeps f \<Longrightarrow> still (tries f)"
  by (auto simp: still_def tries_def keeps_def sees_def Let_def split: prod.splits) (metis insertE snd_conv subsetD)+

lemma still_attempted [still_rules]: "still m \<Longrightarrow> still (attempted m)"
  by (auto simp: still_def attempted_def split: prod.splits) (metis snd_conv)

lemma still_mapped_err [still_rules]: "still m \<Longrightarrow> still (mapped_err g m)"
  by (auto simp: still_def mapped_err_def split: prod.splits sum.splits) (metis snd_conv)+

lemma still_and_then [still_rules]:
  assumes "still m" "\<And>x. still (f x)"
  shows "still (and_then m f)"
  unfolding still_def
proof (intro allI impI)
  fix V Q w assume s: "sees V Q w" "Q V"
  obtain r w1 where m: "m w = (r, w1)" by fastforce
  with assms(1) s have "sees V Q w1" by (blast intro: stillD)
  with m s(2) assms(2) show "sees V Q (snd (and_then m f w))"
    by (cases r) (auto simp: and_then_def still_def)
qed

lemma still_if [still_rules]: "still a \<Longrightarrow> still b \<Longrightarrow> still (if c then a else b)" by simp

lemma still_sum [still_rules]:
  "(\<And>x. still (f x)) \<Longrightarrow> (\<And>y. still (g y)) \<Longrightarrow> still (case r of Inl x \<Rightarrow> f x | Inr y \<Rightarrow> g y)"
  by (simp split: sum.splits)

lemma still_option [still_rules]:
  "still a \<Longrightarrow> (\<And>y. still (g y)) \<Longrightarrow> still (case r of None \<Rightarrow> a | Some y \<Rightarrow> g y)"
  by (simp split: option.splits)

lemma still_pair [still_rules]:
  "(\<And>a b. still (f a b)) \<Longrightarrow> still (case x of (a, b) \<Rightarrow> f a b)"
  by (simp split: prod.splits)

lemma still_open_checked [still_rules]:
  "(\<And>p. keeps (opener p)) \<Longrightarrow> still (open_checked (on_disk E) opener path)"
  unfolding open_checked_def on_disk_simps by (intro still_rules)

lemma still_read_checked [still_rules]: "still (read_checked (on_disk E) path)"
  unfolding read_checked_def on_disk_simps by (intro still_rules)

lemma still_check_dir [still_rules]: "still (check_dir (on_disk E) path)"
  unfolding check_dir_def on_disk_simps by (intro still_rules)

lemma still_sync_dir [still_rules]: "still (sync_dir (on_disk E) dir)"
  unfolding sync_dir_def on_disk_simps by (intro still_rules)

lemma still_dir_state [still_rules]:
  "still a \<Longrightarrow> still b \<Longrightarrow> still (case s of DirMissing \<Rightarrow> a | DirPresent \<Rightarrow> b)" by (cases s) simp_all

lemma still_dir_error [still_rules]:
  "still a \<Longrightarrow> still b \<Longrightarrow> still (case s of DirUnsafe \<Rightarrow> a | DirIo \<Rightarrow> b)" by (cases s) simp_all

lemma still_file_error [still_rules]:
  "still a \<Longrightarrow> still b \<Longrightarrow> still c \<Longrightarrow> still d \<Longrightarrow>
   still (case s of FileNotFound \<Rightarrow> a | FileUnsafe \<Rightarrow> b | FileTooLarge \<Rightarrow> c | FileIo \<Rightarrow> d)" by (cases s) simp_all

lemma still_check_replaceable [still_rules]: "still (check_replaceable (on_disk E) path)"
  unfolding check_replaceable_def on_disk_simps by (intro still_rules)

section \<open>Replacing a file\<close>

text \<open>The state between the creation of the temporary file and its rename.\<close>

definition filling :: "files \<Rightarrow> (files \<Rightarrow> bool) \<Rightarrow> str \<Rightarrow> nat \<Rightarrow> inode \<Rightarrow> disk world \<Rightarrow> bool" where
  "filling V Q temp fd n w =
     (let d = outside w; i = dk_fds d fd in
      sees (V(temp \<mapsto> n)) Q w \<and> map_of (dk_names d) temp = Some i
      \<and> (\<forall>q. map_of (dk_names d) q = Some i \<longrightarrow> q = temp))"

definition private_file :: "nat \<Rightarrow> str \<Rightarrow> inode" where
  "private_file uid contents = \<lparr>i_kind = RegularFile, i_uid = uid, i_mode = 384, i_bytes = contents\<rparr>"

lemma tries_run:
  assumes "tries f w = (r, w')"
  obtains d' where "f (outside w) = (r, d')" "w' = w\<lparr>outside := d'\<rparr>"
  using assms by (auto simp: tries_def split: prod.splits)

lemma fresh_inode: "sound_disk d \<Longrightarrow> map_of (dk_names d) q \<noteq> Some (dk_next d)"
  by (auto simp: sound_disk_def)

lemma files_of_new:
  assumes "sound_disk d" "map_of (dk_names d) p = None"
  shows "files_of (d_new p n d) = (files_of d)(p \<mapsto> n)" "sound_disk (d_new p n d)"
proof
  fix q
  show "files_of (d_new p n d) q = ((files_of d)(p \<mapsto> n)) q"
    using fresh_inode [OF assms(1), of q] by (cases "map_of (dk_names d) q") (auto simp: files_of_def d_new_def)
  show "sound_disk (d_new p n d)"
    using assms(1) by (auto simp: sound_disk_def d_new_def less_Suc_eq)
qed

lemma and_then_cases:
  assumes "and_then m f w = (r, w')"
  obtains (stopped) e where "m w = (Err e, w')" "r = Err e"
    | (went) x w1 where "m w = (Ok x, w1)" "f x w1 = (r, w')"
  using assms by (auto simp: and_then_def split: prod.splits sum.splits)

lemma create_run:
  assumes "tries (d_create_excl uid temp) w = (r, w')" and "sees V Q w" "Q V" "Q (V(temp \<mapsto> private_file uid []))"
  shows "case r of Inl e \<Rightarrow> sees V Q w' | Inr fd \<Rightarrow> V temp = None \<and> filling V Q temp fd (private_file uid []) w'"
proof -
  obtain d' where "d_create_excl uid temp (outside w) = (r, d')" and w': "w' = w\<lparr>outside := d'\<rparr>"
    using assms(1) by (rule tries_run)
  then show ?thesis
    unfolding d_create_excl_def dcall_def
  proof (cases rule: dcall_or_run)
    case (failed e)
    with assms(2,3) w' show ?thesis by (simp add: sees_def)
  next
    case (done_ d1)
    let ?d = "ticked (outside w)"
    show ?thesis
    proof (cases "map_of (dk_names ?d) temp \<noteq> None \<or> \<not> in_directory ?d temp")
      case True
      with done_ w' assms(2,3) show ?thesis by (auto simp: sees_def split: if_splits)
    next
      case False
      have sound: "sound_disk ?d" using assms(2) by (simp add: sees_def)
      let ?d1 = "d_new temp (private_file uid []) ?d"
      have N: "files_of ?d1 = V(temp \<mapsto> private_file uid [])" "sound_disk ?d1"
        using files_of_new [OF sound] False assms(2) by (simp_all add: sees_def)
      have r: "(r, d1) = d_opened (dk_next ?d) ?d1"
        using done_(1) False by (simp add: private_file_def)
      then obtain fd where fd: "r = Ok fd" "files_of d1 = files_of ?d1" "sound_disk d1" "dk_past d1 = dk_past ?d1"
          "dk_fds d1 fd = dk_next ?d" "dk_names d1 = dk_names ?d1"
        using N(2) by (auto simp: d_opened_def)
      have V: "V temp = None" using False assms(2) by (auto simp: sees_def files_of_def)
      have past: "\<forall>v \<in> set (dk_past ?d1). Q v" using assms(2) by (simp add: sees_def d_new_def)
      have link: "map_of (dk_names ?d1) temp = Some (dk_next ?d)"
        "\<forall>q. map_of (dk_names ?d1) q = Some (dk_next ?d) \<longrightarrow> q = temp"
        using fresh_inode [OF sound] by (auto simp: d_new_def)
      have "filling V Q temp fd (private_file uid []) w'"
        unfolding filling_def Let_def sees_def w' done_(2) using fd N(1) past link assms(4) by simp
      with V fd(1) show ?thesis by simp
    qed
  qed
qed

lemma files_of_at_fd:
  assumes "map_of (dk_names d) p = Some (dk_fds d fd)" "\<forall>q. map_of (dk_names d) q = Some (dk_fds d fd) \<longrightarrow> q = p"
  shows "files_of (at_fd fd f d) = (files_of d)(p := map_option f (files_of d p))"
proof
  fix q
  show "files_of (at_fd fd f d) q = ((files_of d)(p := map_option f (files_of d p))) q"
  proof (cases "q = p")
    case True
    with assms(1) show ?thesis by (simp add: files_of_def at_fd_def)
  next
    case False
    with assms have "map_of (dk_names d) q \<noteq> Some (dk_fds d fd)" by blast
    with False show ?thesis by (cases "map_of (dk_names d) q") (auto simp: files_of_def at_fd_def)
  qed
qed

lemma at_fd_simps [simp]: "sound_disk (at_fd fd f d) = sound_disk d" "dk_past (at_fd fd f d) = dk_past d"
  "dk_names (at_fd fd f d) = dk_names d" "dk_fds (at_fd fd f d) = dk_fds d"
  by (simp_all add: at_fd_def sound_disk_def)

lemma filling_at_fd:
  assumes "filling V Q temp fd n w" "d = outside w" "Q (V(temp \<mapsto> f n))"
  shows "filling V Q temp fd (f n) (w\<lparr>outside := recorded (at_fd fd f (ticked d))\<rparr>)"
proof -
  have l: "map_of (dk_names (ticked d)) temp = Some (dk_fds (ticked d) fd)"
    "\<forall>q. map_of (dk_names (ticked d)) q = Some (dk_fds (ticked d) fd) \<longrightarrow> q = temp"
    using assms(1,2) by (simp_all add: filling_def Let_def)
  from files_of_at_fd [OF l] assms show ?thesis
    by (simp add: filling_def sees_def Let_def)
qed

lemma filling_same:
  assumes "filling V Q temp fd n w" "Q (V(temp \<mapsto> n))"
  shows "filling V Q temp fd n (w\<lparr>outside := recorded (ticked (outside w))\<rparr>)"
  using assms by (simp add: filling_def sees_def Let_def)

lemma fchmod_run:
  assumes "tries (d_fchmod fd) w = (r, w')" "filling V Q temp fd n w" "i_mode n = 384" "Q (V(temp \<mapsto> n))"
  shows "filling V Q temp fd n w'"
proof -
  have n: "n\<lparr>i_mode := 384\<rparr> = n" using assms(3) by simp
  obtain d' where run: "d_fchmod fd (outside w) = (r, d')" and w': "w' = w\<lparr>outside := d'\<rparr>"
    using assms(1) by (rule tries_run)
  from run show ?thesis
    unfolding d_fchmod_def dcall_def
  proof (cases rule: dcall_or_run)
    case (failed e)
    with w' filling_same [OF assms(2,4)] show ?thesis by simp
  next
    case (done_ d1)
    with w' filling_at_fd [OF assms(2) refl, of "\<lambda>n. n\<lparr>i_mode := 384\<rparr>"] assms(4) n show ?thesis by simp
  qed
qed

lemma write_run:
  assumes "tries (d_write_all fd s) w = (r, w')" "filling V Q temp fd (private_file uid []) w"
    and "\<And>b. Q (V(temp \<mapsto> private_file uid b))"
  shows "case r of Inl e \<Rightarrow> \<exists>b. filling V Q temp fd (private_file uid b) w'
    | Inr _ \<Rightarrow> filling V Q temp fd (private_file uid s) w'"
proof -
  obtain d' where run: "d_write_all fd s (outside w) = (r, d')" and w': "w' = w\<lparr>outside := d'\<rparr>"
    using assms(1) by (rule tries_run)
  have app: "(private_file uid [])\<lparr>i_bytes := i_bytes (private_file uid []) @ b\<rparr> = private_file uid b" for b
    by (simp add: private_file_def)
  have at: "filling V Q temp fd (private_file uid b)
      (w\<lparr>outside := recorded (at_fd fd (\<lambda>n. n\<lparr>i_bytes := i_bytes n @ b\<rparr>) (ticked (outside w)))\<rparr>)" for b
    using filling_at_fd [OF assms(2) refl, of "\<lambda>n. n\<lparr>i_bytes := i_bytes n @ b\<rparr>"] assms(3) by (simp add: app)
  from run show ?thesis
    unfolding d_write_all_def
  proof (cases rule: dcall_or_run)
    case (failed e)
    with w' at [of "take (dk_partial (ticked (outside w)) (dk_calls (ticked (outside w)))) s"]
    show ?thesis by auto
  next
    case (done_ d1)
    with w' at [of s] show ?thesis by auto
  qed
qed

lemma sync_run:
  assumes "tries d_nothing w = (r, w')" "filling V Q temp fd n w" "Q (V(temp \<mapsto> n))"
  shows "filling V Q temp fd n w'"
proof -
  obtain d' where run: "d_nothing (outside w) = (r, d')" and w': "w' = w\<lparr>outside := d'\<rparr>"
    using assms(1) by (rule tries_run)
  from run have "d' = recorded (ticked (outside w))"
    unfolding d_nothing_def dcall_def by (cases rule: dcall_or_run) auto
  with w' filling_same [OF assms(2,3)] show ?thesis by simp
qed

lemma map_of_without: "map_of (without_name p xs) q = (if q = p then None else map_of xs q)"
  by (induction xs) (auto simp: without_name_def)

lemma rename_run:
  assumes "tries (d_rename temp path) w = (r, w')" "filling V Q temp fd n w" "temp \<noteq> path"
    and "Q (V(temp \<mapsto> n))" "Q (V(temp := None, path \<mapsto> n))"
  shows "case r of Inl e \<Rightarrow> sees (V(temp \<mapsto> n)) Q w' | Inr _ \<Rightarrow> sees (V(temp := None, path \<mapsto> n)) Q w'"
proof -
  obtain d' where run: "d_rename temp path (outside w) = (r, d')" and w': "w' = w\<lparr>outside := d'\<rparr>"
    using assms(1) by (rule tries_run)
  have f: "sees (V(temp \<mapsto> n)) Q w" "map_of (dk_names (outside w)) temp = Some (dk_fds (outside w) fd)"
    using assms(2) by (simp_all add: filling_def Let_def)
  from run show ?thesis
    unfolding d_rename_def dcall_def
  proof (cases rule: dcall_or_run)
    case (failed e)
    with w' f(1) assms(4) show ?thesis by (simp add: sees_def)
  next
    case (done_ d1)
    let ?d = "outside w"
    show ?thesis
    proof (cases "is_dir_at (ticked ?d) path")
      case True
      with w' done_ f assms(3,4) show ?thesis by (auto simp: sees_def)
    next
      case False
      let ?d1 = "(ticked ?d)\<lparr>dk_names := (path, dk_fds ?d fd) # without_name temp (without_name path (dk_names ?d))\<rparr>"
      have d1: "r = Ok ()" "d1 = ?d1" using done_ f False assms(3) by simp_all
      have V: "files_of ?d = V(temp \<mapsto> n)" using f(1) by (simp add: sees_def)
      then have n: "dk_nodes ?d (dk_fds ?d fd) = n"
        using f(2) by (auto simp: files_of_def dest: fun_cong [of _ _ temp])
      have "files_of ?d1 q = (V(temp := None, path \<mapsto> n)) q" for q
      proof (cases "q = path \<or> q = temp")
        case True
        then show ?thesis using n assms(3) by (auto simp: files_of_def map_of_without)
      next
        case False
        then have "files_of ?d1 q = files_of ?d q" by (simp add: files_of_def map_of_without)
        with V False show ?thesis by simp
      qed
      then have "files_of ?d1 = V(temp := None, path \<mapsto> n)" ..
      moreover have "sound_disk ?d1"
        using f by (auto simp: sees_def sound_disk_def map_of_without split: if_splits)
      ultimately show ?thesis using w' d1 done_(2) f(1) assms(5) by (simp add: sees_def)
    qed
  qed
qed

text \<open>\<open>meanwhile Q V temp path new\<close>: every state the write may pass through satisfies \<open>Q\<close>.\<close>

definition meanwhile :: "(files \<Rightarrow> bool) \<Rightarrow> files \<Rightarrow> str \<Rightarrow> str \<Rightarrow> inode \<Rightarrow> bool" where
  "meanwhile Q V temp path new =
     (\<forall>V'. (\<forall>q. q \<noteq> temp \<and> q \<noteq> path \<longrightarrow> V' q = V q) \<longrightarrow>
        (V' path = V path \<or> V' path = Some new) \<longrightarrow> Q V')"

lemma meanwhileD:
  "\<lbrakk>meanwhile Q V temp path new; temp \<noteq> path\<rbrakk> \<Longrightarrow>
     Q V \<and> (\<forall>x. Q (V(temp := x))) \<and> (\<forall>x. Q (V(temp := x, path \<mapsto> new)))"
proof -
  assume m: "meanwhile Q V temp path new" "temp \<noteq> path"
  have "Q V'" if "\<forall>q. q \<noteq> temp \<and> q \<noteq> path \<longrightarrow> V' q = V q" "V' path = V path \<or> V' path = Some new" for V'
    using m that unfolding meanwhile_def by blast
  then show ?thesis using m(2) by simp
qed

lemma replace_file_run:
  assumes "replace_file (on_disk E) temp path contents w = (r, w')" and "sees V Q w"
    and "meanwhile Q V temp path (private_file (os_euid E) contents)" and "temp \<noteq> path"
  shows "\<exists>x. sees (case r of Inl _ \<Rightarrow> V(temp := x)
    | Inr _ \<Rightarrow> V(temp := None, path \<mapsto> private_file (os_euid E) contents)) Q w'"
proof -
  let ?uid = "os_euid E"
  let ?new = "private_file ?uid contents"
  note M = meanwhileD [OF assms(3,4)]
  have left: "\<exists>x. sees (V(temp := x)) Q w'" if "filling V Q temp fd n w'" for fd n
    using that by (auto simp: filling_def Let_def)
  from assms(1) [unfolded replace_file_def on_disk_simps] show ?thesis
  proof (cases rule: and_then_cases)
    case (stopped e)
    have "sees (V(temp := V temp)) Q w'" using create_run [OF stopped(1) assms(2)] M by simp
    with stopped(2) show ?thesis by (metis sum.case(1))
  next
    case (went fd w1)
    have f1: "filling V Q temp fd (private_file ?uid []) w1"
      using create_run [OF went(1) assms(2)] M by simp
    have mode: "i_mode (private_file ?uid []) = 384" by (simp add: private_file_def)
    have Q1: "Q (V(temp \<mapsto> n))" for n using M by simp
    from went(2) show ?thesis
    proof (cases rule: and_then_cases)
      case (stopped e)
      with left [OF fchmod_run [OF stopped(1) f1 mode Q1]] show ?thesis by simp
    next
      case (went _ w2)
      note f2 = fchmod_run [OF went(1) f1 mode Q1]
      from went(2) show ?thesis
      proof (cases rule: and_then_cases)
        case (stopped e)
        with write_run [OF stopped(1) f2 Q1] left show ?thesis by auto
      next
        case (went _ w3)
        with write_run [OF went(1) f2 Q1] have f3: "filling V Q temp fd ?new w3" by simp
        from went(2) show ?thesis
        proof (cases rule: and_then_cases)
          case (stopped e)
          with left [OF sync_run [OF stopped(1) f3 Q1]] show ?thesis by simp
        next
          case (went _ w4)
          have Q2: "Q (V(temp := None, path \<mapsto> ?new))" using M by blast
          from rename_run [OF went(2) sync_run [OF went(1) f3 Q1] assms(4) Q1 Q2] show ?thesis
            by (cases r) auto
        qed
      qed
    qed
  qed
qed

end
