(* ===== verification/StoreReads.thy ===== *)
theory StoreReads
  imports StoreSafe
begin

text \<open>
  What the checked reads of the store return on a disk: the bytes the name holds, and "not found"
  only when there is no such name.
\<close>

section \<open>Reads of one file\<close>

lemma dcall_Ok:
  assumes "dcall f d = (Ok x, d')"
  obtains d1 where "f (ticked d) = (Ok x, d1)" "d' = recorded d1"
  using assms unfolding dcall_def by (auto elim!: dcall_or_run)

lemma dcall_Err:
  assumes "dcall f d = (Err e, d')"
  shows "(\<exists>e'. e = honest e') \<or> (\<exists>d1. f (ticked d) = (Err e, d1))"
  using assms unfolding dcall_def by (auto elim!: dcall_or_run)

lemma tries_Ok:
  assumes "tries f w = (Ok x, w')"
  obtains d' where "f (outside w) = (Ok x, d')" "outside w' = d'"
  using assms by (auto simp: tries_def split: prod.splits)

lemma mapped_err_Ok: "mapped_err g m w = (Ok x, w') \<longleftrightarrow> m w = (Ok x, w')"
  by (auto simp: mapped_err_def split: prod.splits sum.splits)

lemma mapped_err_Err: "mapped_err g m w = (Err e, w') \<longleftrightarrow> (\<exists>e'. m w = (Err e', w') \<and> e = g e')"
  by (auto simp: mapped_err_def split: prod.splits sum.splits)

lemma lstat_NOENT:
  assumes "tries (d_lstat p) w = (Err NOENT, w')" "sees V Q w"
  shows "V p = None"
proof -
  obtain d' where "d_lstat p (outside w) = (Err NOENT, d')" using assms(1) by (rule tries_run)
  then have "map_of (dk_names (outside w)) p = None"
    unfolding d_lstat_def using honest_plain(1) by (auto dest!: dcall_Err split: option.splits) (metis honest_plain(1))
  with assms(2) show ?thesis by (auto simp: sees_def files_of_def)
qed

lemma attempted_then_cases:
  assumes "and_then (attempted m) f w = (r, w')"
  obtains x w1 where "m w = (x, w1)" "f x w1 = (r, w')"
  using assms by (auto simp: and_then_def attempted_def split: prod.splits)

text \<open>A descriptor of the file a name has.\<close>

definition opened_on :: "str \<Rightarrow> nat \<Rightarrow> disk world \<Rightarrow> bool" where
  "opened_on path fd w = (map_of (dk_names (outside w)) path = Some (dk_fds (outside w) fd))"

lemma open_read_run:
  assumes "tries (d_open_read p) w = (Ok fd, w')"
  shows "opened_on p fd w'"
proof -
  obtain d' where run: "d_open_read p (outside w) = (Ok fd, d')" and w': "outside w' = d'"
    using assms by (rule tries_Ok)
  from run obtain d1 where "(case map_of (dk_names (ticked (outside w))) p of
      None \<Rightarrow> (Err NOENT, ticked (outside w))
    | Some i \<Rightarrow> (case if i_kind (dk_nodes (ticked (outside w)) i) = Symlink then Some LOOP else None of
        Some e \<Rightarrow> (Err e, ticked (outside w)) | None \<Rightarrow> d_opened i (ticked (outside w)))) = (Ok fd, d1)"
      and d': "d' = recorded d1"
    unfolding d_open_read_def d_open_def by (rule dcall_Ok)
  then show ?thesis using w' by (auto simp: opened_on_def d_opened_def split: option.splits if_splits)
qed

lemma open_read_NOENT:
  assumes "tries (d_open_read p) w = (Err NOENT, w')" "sees V Q w"
  shows "V p = None"
proof -
  obtain d' where "d_open_read p (outside w) = (Err NOENT, d')" using assms(1) by (rule tries_run)
  then have "map_of (dk_names (outside w)) p = None"
    unfolding d_open_read_def d_open_def using honest_plain(1)
    by (auto dest!: dcall_Err simp: d_opened_def split: option.splits if_splits) (metis honest_plain(1))+
  with assms(2) show ?thesis by (auto simp: sees_def files_of_def)
qed

lemma fstat_run: "tries (d_fstat fd) w = (Ok st, w') \<Longrightarrow> opened_on p fd' w \<Longrightarrow> opened_on p fd' w'"
  by (auto simp: d_fstat_def opened_on_def elim!: tries_Ok dcall_Ok)

lemma read_run:
  assumes "tries (d_read fd n) w = (Ok s, w')" "opened_on p fd w" "sees V Q w"
  shows "\<exists>i. V p = Some i \<and> s = take n (i_bytes i)"
proof -
  have "s = take n (i_bytes (dk_nodes (outside w) (dk_fds (outside w) fd)))"
    using assms(1) by (auto simp: d_read_def elim!: tries_Ok dcall_Ok)
  with assms(2,3) show ?thesis by (auto simp: opened_on_def sees_def files_of_def)
qed

text \<open>What a checked read answers of a name.\<close>

definition holds_bytes :: "files \<Rightarrow> str \<Rightarrow> str \<Rightarrow> bool" where
  "holds_bytes V path s = (\<exists>i. V path = Some i \<and> i_bytes i = s)"

lemma read_checked_run:
  assumes "read_checked (on_disk E) path w = (r, w')" "sees V Q w" "Q V"
  shows "case r of Inl e \<Rightarrow> e = FileNotFound \<longrightarrow> V path = None | Inr s \<Rightarrow> holds_bytes V path s"
  using assms(1) unfolding read_checked_def
proof (cases rule: and_then_cases)
  case (stopped e)
  have "e = FileNotFound \<longrightarrow> V path = None"
    using stopped(1) unfolding open_checked_def on_disk_simps
  proof (cases rule: and_then_cases)
    case (stopped e')
    then show ?thesis using lstat_NOENT [OF _ assms(2)] by (auto simp: mapped_err_Err io_kind_def split: if_splits)
  next
    case (went before w1)
    have s1: "sees V Q w1"
      by (rule stillD [OF still_mapped_err [OF still_tries [OF keeps_calls(1)]] went(1) assms(2,3)])
    show ?thesis
    proof (cases "file_ok (on_disk E) before")
      case False
      with went(2) show ?thesis by (simp add: fail_def)
    next
      case True
      with went(2) have "and_then (mapped_err open_kind (tries (d_open_read path))) (\<lambda>fd.
          and_then (mapped_err (\<lambda>_. FileIo) (tries (d_fstat fd))) (\<lambda>after.
          if identity_of after \<noteq> identity_of before \<or> \<not> file_ok (on_disk E) after then fail FileUnsafe
          else ret (fd, after))) w1 = (Err e, w')" by simp
      then show ?thesis
      proof (cases rule: and_then_cases)
        case (stopped e')
        then show ?thesis using open_read_NOENT [OF _ s1] by (auto simp: mapped_err_Err open_kind_def split: if_splits)
      next
        case (went fd w2)
        from went(2) show ?thesis
          by (cases rule: and_then_cases) (auto simp: mapped_err_Err fail_def ret_def split: if_splits)
      qed
    qed
  qed
  with stopped(2) show ?thesis by simp
next
  case (went x w1)
  obtain fd st where x: "x = (fd, st)" by (cases x)
  have s1: "sees V Q w1"
    by (rule stillD [OF still_open_checked [OF keeps_calls(2), unfolded on_disk_simps] went(1) [unfolded on_disk_simps] assms(2,3)])
  have fd: "opened_on path fd w1"
  proof -
    from went(1) [unfolded x open_checked_def on_disk_simps] obtain st1 st2 w2 w3 where
        "tries (d_open_read path) w2 = (Ok fd, w3)" "tries (d_fstat fd) w3 = (Ok st2, w1)"
      by (auto elim!: and_then_OkE split: if_splits simp: mapped_err_Ok fail_def ret_def)
    then show ?thesis using fstat_run open_read_run by metis
  qed
  from went(2) [unfolded x prod.case on_disk_simps] show ?thesis
  proof (cases rule: and_then_cases)
    case (stopped e)
    then show ?thesis by (auto simp: mapped_err_Err)
  next
    case (went s w2)
    from went(1) have "tries (d_read fd (max_file_bytes + 1)) w1 = (Ok s, w2)" by (simp add: mapped_err_Ok)
    from read_run [OF this fd s1] obtain i where "V path = Some i" "s = take (max_file_bytes + 1) (i_bytes i)"
      by blast
    with went(2) show ?thesis
      by (auto simp: fail_def ret_def holds_bytes_def split: if_splits)
  qed
qed

lemma check_dir_missing:
  assumes "check_dir (on_disk E) path w = (Ok DirMissing, w')" "sees V Q w"
  shows "V path = None"
proof -
  from assms(1) [unfolded check_dir_def on_disk_simps] obtain x w1 where a: "tries (d_lstat path) w = (x, w1)"
    and b: "(case x of Inl e \<Rightarrow> if e = NOENT then ret DirMissing else fail DirIo
      | Inr st \<Rightarrow> if dir_ok (on_disk E) st then ret DirPresent else fail DirUnsafe) w1 = (Ok DirMissing, w')"
    by (rule attempted_then_cases)
  from b have "x = Inl NOENT" by (auto simp: ret_def fail_def split: sum.splits if_splits)
  with a have "tries (d_lstat path) w = (Err NOENT, w1)" by simp
  then show ?thesis by (rule lstat_NOENT [OF _ assms(2)])
qed

section \<open>The index and the tenant files\<close>

text \<open>The index the files hold: the document, or none.\<close>

definition stored_index :: "libs \<Rightarrow> files \<Rightarrow> store \<Rightarrow> index \<Rightarrow> bool" where
  "stored_index L V s ix =
     ((\<exists>c. holds_bytes V (index_path s) c \<and> index_parse L c = Some ix)
      \<or> (V (index_path s) = None \<or> V (store_root s) = None) \<and> ix = empty_index)"

lemma read_index_run:
  assumes "read_index (on_disk E) L s w = (Ok ix, w')" "sees V Q w" "Q V"
  shows "stored_index L V s ix"
proof -
  from assms(1) [unfolded read_index_def Let_def] obtain st w1 where
      c: "check_dir (on_disk E) (store_root s) w = (st, w1)"
    and rest: "(case st of
        Inr DirMissing \<Rightarrow> ret empty_index
      | Inl DirUnsafe \<Rightarrow> fail (unsafe_dir_error (store_root s))
      | Inl DirIo \<Rightarrow> fail (index_error (index_path s))
      | Inr DirPresent \<Rightarrow>
          and_then (attempted (read_checked (on_disk E) (index_path s))) (\<lambda>contents.
          case contents of
            Inl FileNotFound \<Rightarrow> ret empty_index
          | Inl FileUnsafe \<Rightarrow> fail (unsafe_file_error (index_path s))
          | Inl _ \<Rightarrow> fail (index_error (index_path s))
          | Inr contents \<Rightarrow>
              (case index_parse L contents of Some ix \<Rightarrow> ret ix | None \<Rightarrow> fail (index_error (index_path s))))) w1
       = (Ok ix, w')"
    by (rule attempted_then_cases)
  have s1: "sees V Q w1" by (rule stillD [OF still_check_dir c assms(2,3)])
  show ?thesis
  proof (cases st)
    case (Inl e)
    with rest show ?thesis by (cases e) (auto simp: fail_def)
  next
    case (Inr d)
    show ?thesis
    proof (cases d)
      case DirMissing
      with c Inr rest check_dir_missing [OF _ assms(2)] show ?thesis by (auto simp: ret_def stored_index_def)
    next
      case DirPresent
      with Inr rest have "and_then (attempted (read_checked (on_disk E) (index_path s))) (\<lambda>contents.
          case contents of
            Inl FileNotFound \<Rightarrow> ret empty_index
          | Inl FileUnsafe \<Rightarrow> fail (unsafe_file_error (index_path s))
          | Inl _ \<Rightarrow> fail (index_error (index_path s))
          | Inr contents \<Rightarrow>
              (case index_parse L contents of Some ix \<Rightarrow> ret ix | None \<Rightarrow> fail (index_error (index_path s)))) w1
          = (Ok ix, w')" by simp
      then obtain x w2 where r: "read_checked (on_disk E) (index_path s) w1 = (x, w2)"
        and rest: "(case x of
            Inl FileNotFound \<Rightarrow> ret empty_index
          | Inl FileUnsafe \<Rightarrow> fail (unsafe_file_error (index_path s))
          | Inl _ \<Rightarrow> fail (index_error (index_path s))
          | Inr contents \<Rightarrow>
              (case index_parse L contents of Some ix \<Rightarrow> ret ix | None \<Rightarrow> fail (index_error (index_path s)))) w2
          = (Ok ix, w')"
        by (rule attempted_then_cases)
      from read_checked_run [OF r s1 assms(3)] rest show ?thesis
        by (auto simp: fail_def ret_def stored_index_def split: sum.splits file_error.splits option.splits)
    qed
  qed
qed

lemma read_tenant_bytes_run:
  assumes "read_tenant_bytes (on_disk E) s name w = (Ok c, w')" "sees V Q w" "Q V"
  shows "holds_bytes V (tenant_path s name) c"
proof -
  from assms(1) [unfolded read_tenant_bytes_def Let_def] obtain st w1 where
      d: "check_dir (on_disk E) (tenants_dir s) w = (st, w1)"
    and rest: "(case st of
        Inr DirMissing \<Rightarrow> fail TfNotFound
      | Inl DirUnsafe \<Rightarrow> fail (TfUnsafe (tenants_dir s))
      | Inl DirIo \<Rightarrow> fail TfUnreadable
      | Inr DirPresent \<Rightarrow>
          mapped_err (\<lambda>e. case e of
              FileNotFound \<Rightarrow> TfNotFound | FileUnsafe \<Rightarrow> TfUnsafe (tenant_path s name) | _ \<Rightarrow> TfUnreadable)
            (read_checked (on_disk E) (tenant_path s name))) w1 = (Ok c, w')"
    by (rule attempted_then_cases)
  have s1: "sees V Q w1" by (rule stillD [OF still_check_dir d assms(2,3)])
  from rest have r: "read_checked (on_disk E) (tenant_path s name) w1 = (Ok c, w')"
    by (auto simp: fail_def mapped_err_Ok split: sum.splits dir_error.splits dir_state.splits)
  from read_checked_run [OF r s1 assms(3)] show ?thesis by simp
qed

lemma still_read_index [still_rules]: "still (read_index (on_disk E) L s)"
  unfolding read_index_def Let_def by (intro still_rules)

lemma still_read_tenant_bytes [still_rules]: "still (read_tenant_bytes (on_disk E) s name)"
  unfolding read_tenant_bytes_def Let_def by (intro still_rules)

lemma still_load_for_write [still_rules]: "still (load_for_write (on_disk E) L v sel pin)"
  unfolding load_for_write_def load_raw_def by (intro still_rules)

lemma still_write_view [still_rules]: "still (write_view (on_disk E) L s)"
  unfolding write_view_def by (intro still_rules)

lemma still_check_commit [still_rules]: "still (check_commit (on_disk E) s contents)"
  unfolding check_commit_def by (intro still_rules)

lemma load_for_write_run:
  assumes "load_for_write (on_disk E) L v sel pin w = (Ok (config, c), w')" "sees V Q w" "Q V"
  shows "holds_bytes V (tenant_path (vw_store v) (sl_name sel)) c \<and> config_parse L c = Ok config
    \<and> (pin \<longrightarrow> effective_str config ''mgmtTsgId'' = Some (sl_tsg sel))"
  using assms unfolding load_for_write_def load_raw_def
  by (auto elim!: and_then_OkE dest!: read_tenant_bytes_run simp: mapped_err_Ok of_result_def ret_def fail_def split: if_splits)

lemma write_view_run:
  assumes "write_view (on_disk E) L s w = (Ok v, w')" "sees V Q w" "Q V"
  shows "vw_store v = s \<and> stored_index L V s (vw_index v) \<and> vw_ts_registry v = None"
  using assms unfolding write_view_def
  by (auto elim!: and_then_OkE dest: read_index_run simp: ret_def)

end
