(* ===== verification/TomlCorrect.thy ===== *)
theory TomlCorrect
  imports TomlText Names StoreReads "HOL-Library.Multiset"
begin

text \<open>
  What the store writes, \<open>toml_string\<close>, \<open>index_toml\<close> and \<open>config_toml\<close>, is read back by every
  reader of TOML as what was written.
\<close>

section \<open>Basic strings\<close>

definition group_ok :: "str \<Rightarrow> bool" where
  "group_ok g = ((\<exists>c. g = [c]) \<or> (\<exists>c cs. g = c # cs \<and> 192 \<le> code c \<and> list_all is_cont cs))"

lemma utf8_chars_ok: "g \<in> set (utf8_chars s) \<Longrightarrow> group_ok g"
proof (induction s rule: utf8_chars.induct)
  case (2 c cs)
  then show ?case by (cases "code c < 192") (auto simp: group_ok_def list_all_iff dest: set_takeWhileD)
qed simp

lemma code_mark: "code quote_mark = 34" "code backslash = 92"
  by (simp_all add: code_def quote_mark_def backslash_def)

lemma plain_bytes:
  "list_all (\<lambda>c. 128 \<le> code c) g \<Longrightarrow> basic_body (g @ rest) = map_option (\<lambda>(t, after). (g @ t, after)) (basic_body rest)"
proof (induction g)
  case (Cons c g)
  then have "c \<noteq> quote_mark" "c \<noteq> backslash" "\<not> code c < 32" "code c \<noteq> 127" using code_mark by auto
  with Cons show ?case by (cases "basic_body rest") auto
qed (cases "basic_body rest"; simp)

lemma char_of_code [simp]: "char_of (code c) = c"
  by (simp add: code_def)

lemma hex_digit_value: "n < 16 \<Longrightarrow> hex_value (upper_hex_digit n) = Some n"
proof -
  have "list_all (\<lambda>n. hex_value (upper_hex_digit n) = Some n) [0 ..< 16]" by code_simp
  then show "n < 16 \<Longrightarrow> ?thesis" by (simp only: list_all_iff set_upt) auto
qed

lemma escaped_code:
  assumes "n < 256"
  shows "basic_body ([backslash, CHR ''u'', CHR ''0'', CHR ''0'', upper_hex_digit (n div 16), upper_hex_digit (n mod 16)] @ rest)
    = map_option (\<lambda>(t, after). (utf8_encode n @ t, after)) (basic_body rest)"
proof -
  have zero: "hex_value (CHR ''0'') = Some 0" by (simp add: hex_value_def is_digit_def code_def)
  have "hex4 (CHR ''0'') (CHR ''0'') (upper_hex_digit (n div 16)) (upper_hex_digit (n mod 16)) = Some n"
    using assms hex_digit_value [of "n div 16"] hex_digit_value [of "n mod 16"] zero
    by (simp add: hex4_def less_mult_imp_div_less)
  moreover have "is_scalar n" using assms by (simp add: is_scalar_def)
  moreover have "backslash \<noteq> quote_mark" by (simp add: backslash_def quote_mark_def)
  ultimately show ?thesis by simp
qed

lemma escaped_letter:
  assumes "escape_letter e = Some g" "e \<noteq> CHR ''u''"
  shows "basic_body ([backslash, e] @ rest) = map_option (\<lambda>(t, after). (g @ t, after)) (basic_body rest)"
  using assms by (simp add: backslash_def quote_mark_def)

lemma control_encoded:
  assumes "is_control g"
  shows "control_code g < 256 \<and> utf8_encode (control_code g) = g"
proof -
  consider (one) c where "g = [c]" "code c < 32 \<or> code c = 127"
    | (two) a b where "g = [a, b]" "code a = 194" "128 \<le> code b" "code b < 160"
    using assms by (auto simp: is_control_def split: list.splits)
  then show ?thesis
  proof cases
    case one
    then show ?thesis by (auto simp: control_code_def utf8_encode_def)
  next
    case two
    then have d: "code b div 64 = 2" by linarith
    have "code b = code b div 64 * 64 + code b mod 64" by simp
    with d have m: "128 + code b mod 64 = code b" by linarith
    moreover have "char_of (194 :: nat) = a" using two(2) char_of_code [of a] by simp
    ultimately show ?thesis using two d m by (simp add: control_code_def utf8_encode_def)
  qed
qed

lemma basic_body_char:
  assumes "group_ok g"
  shows "basic_body (toml_char g @ rest) = map_option (\<lambda>(t, after). (g @ t, after)) (basic_body rest)"
proof -
  have letters: "escape_letter quote_mark = Some [quote_mark]" "escape_letter backslash = Some [backslash]"
    "escape_letter (CHR ''b'') = Some (bytes [8])" "escape_letter (CHR ''t'') = Some (bytes [9])"
    "escape_letter (CHR ''n'') = Some (bytes [10])" "escape_letter (CHR ''f'') = Some (bytes [12])"
    "escape_letter (CHR ''r'') = Some (bytes [13])"
    by (simp_all add: escape_letter_def quote_mark_def backslash_def)
  have no_u: "quote_mark \<noteq> CHR ''u''" "backslash \<noteq> CHR ''u''" by (simp_all add: quote_mark_def backslash_def)
  let ?letters = "{[quote_mark], [backslash], bytes [8], bytes [9], bytes [10], bytes [12], bytes [13]}"
  consider (letter) "g \<in> ?letters" | (control) "g \<notin> ?letters" "is_control g" | (plain) "g \<notin> ?letters" "\<not> is_control g"
    by blast
  then show ?thesis
  proof cases
    case letter
    then have "\<exists>e. toml_char g = [backslash, e] \<and> escape_letter e = Some g \<and> e \<noteq> CHR ''u''"
      using letters no_u by (auto simp: toml_char_def)
    then show ?thesis using escaped_letter by metis
  next
    case control
    then have "toml_char g = [backslash, CHR ''u'', CHR ''0'', CHR ''0'',
         upper_hex_digit (control_code g div 16), upper_hex_digit (control_code g mod 16)]"
      by (simp add: toml_char_def)
    with control_encoded [OF control(2)] escaped_code [of "control_code g" rest] show ?thesis by simp
  next
    case plain
    then have same: "toml_char g = g" by (simp add: toml_char_def)
    show ?thesis
    proof (cases "\<exists>c. g = [c]")
      case True
      then obtain c where g: "g = [c]" ..
      with plain have "c \<noteq> quote_mark" "c \<noteq> backslash" "\<not> code c < 32" "code c \<noteq> 127" by (auto simp: is_control_def)
      with same g show ?thesis by (cases "basic_body rest") auto
    next
      case False
      with assms have "list_all (\<lambda>c. 128 \<le> code c) g" by (auto simp: group_ok_def list_all_iff is_cont_def)
      with same plain_bytes show ?thesis by simp
    qed
  qed
qed

lemma basic_body_string:
  "(\<And>g. g \<in> set gs \<Longrightarrow> group_ok g) \<Longrightarrow>
   basic_body (concat (map toml_char gs) @ quote_mark # rest) = Some (concat gs, rest)"
proof (induction gs)
  case (Cons g gs)
  then show ?case using basic_body_char [of g "concat (map toml_char gs) @ quote_mark # rest"] by simp
qed simp

lemma basic_string_toml_string: "basic_string (toml_string s) = Some s"
  using basic_body_string [of "utf8_chars s" "[]"] utf8_chars_ok
  by (simp add: basic_string_def toml_string_def)

lemma toml_value_string: "toml_value (toml_string s) = Some (TString s)"
  by (simp add: toml_value_def basic_string_toml_string)

section \<open>Tables in key order\<close>

lemma put_key_props:
  "key \<notin> fst ` set fs \<Longrightarrow> map_of (put_key key v fs) = (map_of fs)(key \<mapsto> v)"
  "set (put_key key v fs) = insert (key, v) (set fs)" "length (put_key key v fs) = Suc (length fs)"
  by (induction key v fs rule: put_key.induct) auto

lemma in_key_order_props:
  "set (in_key_order fs) = set fs" "length (in_key_order fs) = length fs"
  "distinct (map fst fs) \<Longrightarrow> map_of (in_key_order fs) = map_of fs"
proof -
  show members: "set (in_key_order fs) = set fs" for fs
    by (induction fs) (auto simp: in_key_order_def put_key_props(2))
  show "length (in_key_order fs) = length fs"
    by (induction fs) (auto simp: in_key_order_def put_key_props(3))
  show "distinct (map fst fs) \<Longrightarrow> map_of (in_key_order fs) = map_of fs"
  proof (induction fs)
    case (Cons e fs)
    obtain k v where e: "e = (k, v)" by (cases e)
    have "k \<notin> fst ` set (in_key_order fs)" using Cons.prems e members by simp
    then show ?case using Cons e put_key_props(1) [of k "in_key_order fs" v] by (simp add: in_key_order_def)
  qed (simp add: in_key_order_def)
qed

lemma in_key_order_sorted:
  "sorted_wrt (\<lambda>a b. key_less (fst a) (fst b)) fs \<Longrightarrow> in_key_order fs = fs"
proof (induction fs)
  case (Cons e fs)
  then have "in_key_order fs = fs" by simp
  moreover have "put_key (fst e) (snd e) fs = e # fs" using Cons.prems by (cases fs) auto
  ultimately show ?case by (simp add: in_key_order_def case_prod_unfold)
qed (simp add: in_key_order_def)

section \<open>UTF-8\<close>

text \<open>The bytes of one character, and induction over the characters of a UTF-8 text.\<close>

definition scalar_bytes :: "str \<Rightarrow> bool" where
  "scalar_bytes g = (case g of
      [a] \<Rightarrow> code a < 128
    | [a, b] \<Rightarrow> in_range 194 223 a \<and> in_range 128 191 b
    | [a, b, c] \<Rightarrow> in_range 224 239 a \<and> in_range 128 191 c
        \<and> in_range (if code a = 224 then 160 else 128) (if code a = 237 then 159 else 191) b
    | [a, b, c, d] \<Rightarrow> in_range 240 244 a \<and> in_range 128 191 c \<and> in_range 128 191 d
        \<and> in_range (if code a = 240 then 144 else 128) (if code a = 244 then 143 else 191) b
    | _ \<Rightarrow> False)"

lemma scalar_bytes_cases:
  assumes "scalar_bytes g"
  obtains (one) a where "g = [a]" "code a < 128"
    | (two) a b where "g = [a, b]" "in_range 194 223 a" "in_range 128 191 b"
    | (three) a b c where "g = [a, b, c]" "in_range 224 239 a" "in_range 128 191 c"
        "in_range (if code a = 224 then 160 else 128) (if code a = 237 then 159 else 191) b"
    | (four) a b c d where "g = [a, b, c, d]" "in_range 240 244 a" "in_range 128 191 c" "in_range 128 191 d"
        "in_range (if code a = 240 then 144 else 128) (if code a = 244 then 143 else 191) b"
  using assms unfolding scalar_bytes_def by (auto split: list.splits)

lemma valid_utf8_cons: "scalar_bytes g \<Longrightarrow> valid_utf8 (g @ r) = valid_utf8 r"
  by (erule scalar_bytes_cases) (simp_all add: in_range_def)

lemma valid_utf8_uncons:
  assumes "valid_utf8 (a # s)"
  shows "\<exists>g r. a # s = g @ r \<and> scalar_bytes g \<and> valid_utf8 r \<and> g \<noteq> []"
proof (cases "code a < 128")
  case True
  with assms show ?thesis by (intro exI [of _ "[a]"] exI [of _ s]) (simp add: scalar_bytes_def)
next
  case ascii: False
  then obtain b s2 where s: "s = b # s2" using assms by (cases s) auto
  show ?thesis
  proof (cases "in_range 194 223 a")
    case True
    with assms ascii s show ?thesis
      by (intro exI [of _ "[a, b]"] exI [of _ s2]) (simp add: scalar_bytes_def)
  next
    case two: False
    then obtain c s3 where s2: "s2 = c # s3" using assms ascii s by (cases s2) auto
    show ?thesis
    proof (cases "in_range 224 239 a")
      case True
      with assms ascii s two s2 show ?thesis
        by (intro exI [of _ "[a, b, c]"] exI [of _ s3]) (simp add: scalar_bytes_def)
    next
      case three: False
      then obtain d s4 where s3: "s3 = d # s4" using assms ascii s two s2 by (cases s3) auto
      with assms ascii s two s2 three show ?thesis
        by (intro exI [of _ "[a, b, c, d]"] exI [of _ s4]) (simp add: scalar_bytes_def)
    qed
  qed
qed

lemma valid_utf8_induct [consumes 1, case_names Nil char]:
  assumes "valid_utf8 s" "P []" "\<And>g r. scalar_bytes g \<Longrightarrow> valid_utf8 r \<Longrightarrow> P r \<Longrightarrow> P (g @ r)"
  shows "P s"
  using assms(1)
proof (induction "length s" arbitrary: s rule: less_induct)
  case less
  show ?case
  proof (cases s)
    case (Cons a s')
    with less.prems valid_utf8_uncons obtain g r where g: "s = g @ r" "scalar_bytes g" "valid_utf8 r" "g \<noteq> []" by metis
    then have "length r < length s" by simp
    with g less.hyps assms(3) show ?thesis by blast
  qed (simp add: assms(2))
qed

lemma valid_utf8_append: "valid_utf8 a \<Longrightarrow> valid_utf8 b \<Longrightarrow> valid_utf8 (a @ b)"
  by (induction a rule: valid_utf8_induct) (simp_all add: valid_utf8_cons)

lemma valid_utf8_concat: "(\<And>g. g \<in> set gs \<Longrightarrow> valid_utf8 g) \<Longrightarrow> valid_utf8 (concat gs)"
  by (induction gs) (auto intro: valid_utf8_append)

lemma valid_utf8_starts: "valid_utf8 s \<Longrightarrow> takeWhile is_cont s = []"
  by (induction s rule: valid_utf8_induct) (auto simp: is_cont_def in_range_def elim!: scalar_bytes_cases)

lemma utf8_chars_cons: "scalar_bytes g \<Longrightarrow> valid_utf8 r \<Longrightarrow> utf8_chars (g @ r) = g # utf8_chars r"
proof (erule scalar_bytes_cases)
  assume r: "valid_utf8 r"
  note starts = valid_utf8_starts [OF r]
  then have rest: "dropWhile is_cont r = r" using takeWhile_dropWhile_id [of is_cont r] by simp
  show ?thesis if "g = [a]" "code a < 128" for a using that by simp
  show ?thesis if "g = [a, b]" "in_range 194 223 a" "in_range 128 191 b" for a b
    using that starts rest by (simp add: in_range_def is_cont_def)
  show ?thesis if "g = [a, b, c]" "in_range 224 239 a" "in_range 128 191 c"
    "in_range (if code a = 224 then 160 else 128) (if code a = 237 then 159 else 191) b" for a b c
    using that starts rest by (auto simp: in_range_def is_cont_def split: if_splits)
  show ?thesis if "g = [a, b, c, d]" "in_range 240 244 a" "in_range 128 191 c" "in_range 128 191 d"
    "in_range (if code a = 240 then 144 else 128) (if code a = 244 then 143 else 191) b" for a b c d
    using that starts rest by (auto simp: in_range_def is_cont_def split: if_splits)
qed

lemma valid_utf8_chars: "valid_utf8 s \<Longrightarrow> g \<in> set (utf8_chars s) \<Longrightarrow> valid_utf8 g"
proof (induction s rule: valid_utf8_induct)
  case (char h r)
  then show ?case using valid_utf8_cons [of h "[]"] by (auto simp: utf8_chars_cons)
qed simp

lemma toml_char_bytes: "toml_char g = g \<or> list_all (\<lambda>c. code c < 128) (toml_char g)"
proof -
  let ?ascii = "\<lambda>c. code c < (128::nat)"
  have "list_all ?ascii [backslash, quote_mark, CHR ''b'', CHR ''t'', CHR ''n'', CHR ''f'', CHR ''r'', CHR ''u'', CHR ''0'']"
    by code_simp
  moreover have "list_all (\<lambda>n. ?ascii (upper_hex_digit n)) [0 ..< 16]" by code_simp
  then have "?ascii (upper_hex_digit n)" if "n < 16" for n
    using that by (simp only: list_all_iff set_upt) auto
  moreover have "control_code g div 16 < 16" if "is_control g"
    using control_encoded [OF that] by (simp add: less_mult_imp_div_less)
  ultimately show ?thesis by (simp add: toml_char_def del: bytes_def)
qed

lemma valid_utf8_toml_char: "valid_utf8 g \<Longrightarrow> valid_utf8 (toml_char g)"
  using toml_char_bytes [of g] valid_utf8_ascii by metis

lemma valid_utf8_toml_string: "valid_utf8 s \<Longrightarrow> valid_utf8 (toml_string s)"
  using valid_utf8_concat [of "map toml_char (utf8_chars s)"] valid_utf8_toml_char valid_utf8_chars
  by (auto simp: toml_string_def code_mark intro!: valid_utf8_append)

section \<open>Lines\<close>

lemma newline_byte: "code newline = 10" "newline = CHR 0x0A"
proof -
  show "code newline = 10" by (simp add: newline_def code_def)
  show "newline = CHR 0x0A" by code_simp
qed

lemma no_newline_char: "group_ok g \<Longrightarrow> newline \<notin> set (toml_char g)"
proof -
  assume ok: "group_ok g"
  have hex: "n < 16 \<Longrightarrow> upper_hex_digit n \<noteq> newline" for n
    using hex_digit_value [of n] newline_byte(1) by (auto simp: hex_value_def is_digit_def)
  have bs: "backslash \<noteq> newline" "quote_mark \<noteq> newline" using code_mark newline_byte by auto
  have "newline \<notin> set g" if "\<not> is_control g"
  proof
    assume mem: "newline \<in> set g"
    from ok show False unfolding group_ok_def
    proof
      assume "\<exists>c. g = [c]"
      with mem that newline_byte(1) show False by (auto simp: is_control_def)
    next
      assume "\<exists>c cs. g = c # cs \<and> 192 \<le> code c \<and> list_all is_cont cs"
      with mem have "128 \<le> code newline" by (auto simp: is_cont_def list_all_iff)
      with newline_byte(1) show False by simp
    qed
  qed
  moreover have "newline \<noteq> upper_hex_digit (control_code g div 16)" "newline \<noteq> upper_hex_digit (control_code g mod 16)"
    if "is_control g"
    using control_encoded [OF that] hex [of "control_code g div 16"] hex [of "control_code g mod 16"]
    by (auto simp: less_mult_imp_div_less)
  ultimately show ?thesis using bs
    by (auto simp: toml_char_def newline_byte(2) split: if_splits)
qed

lemma no_newline_string: "newline \<notin> set (toml_string s)"
  using no_newline_char utf8_chars_ok code_mark newline_byte by (auto simp: toml_string_def)

lemma split_lines:
  "(\<And>l. l \<in> set ls \<Longrightarrow> newline \<notin> set l) \<Longrightarrow> split_on newline (concat (map (\<lambda>l. l @ nl) ls)) = ls @ [[]]"
  by (induction ls) (simp_all add: nl_def split_on_append)

lemma value_line_read:
  assumes "bare_key key" "toml_value v = Some t"
  shows "toml_line (key @ '' = '' @ v) = Some (ValueLine key t)"
proof -
  have k: "CHR '' '' \<notin> set key" "key \<noteq> []" "\<not> starts_with key ''[''"
    using assms(1) by (cases key; auto simp: bare_key_def list_all_iff is_ascii_alnum_def is_digit_def code_def starts_with_def)+
  then have "strip_prefix ''['' (key @ '' = '' @ v) = None" by (cases key) (auto simp: strip_prefix_def starts_with_def)
  moreover have "split_once (CHR '' '') (key @ '' = '' @ v) = Some (key, ''= '' @ v)"
    using split_once_append [OF k(1), of "''= '' @ v"] by simp
  ultimately show ?thesis using k(2) assms by (simp add: toml_line_def value_line_def strip_prefix_def starts_with_def)
qed

lemma valid_name_bare: "valid_tenant_name name \<Longrightarrow> bare_key name"
  by (simp add: valid_tenant_name_def bare_key_def)

lemma header_line_read:
  assumes "bare_key name"
  shows "toml_line (''[tenants.'' @ name @ '']'') = Some (HeaderLine ''tenants'' name)"
proof -
  have "split_once (CHR ''.'') (''tenants'' @ CHR ''.'' # name) = Some (''tenants'', name)"
    by (rule split_once_append) simp
  moreover have "strip_suffix '']'' (''tenants.'' @ name @ '']'') = Some (''tenants.'' @ name)"
    by (simp add: strip_suffix_Some)
  moreover have "bare_key ''tenants''"
    by (simp add: bare_key_def is_ascii_alnum_def is_digit_def code_def)
  ultimately show ?thesis using assms
    by (simp add: toml_line_def header_line_def strip_prefix_def starts_with_def)
qed

lemma add_lines_append:
  "add_lines (ls @ ms) st = (case add_lines ls st of None \<Rightarrow> None | Some st' \<Rightarrow> add_lines ms st')"
  by (induction ls st rule: add_lines.induct) (auto split: option.splits)

section \<open>The index\<close>

text \<open>What every index read from a file satisfies.\<close>

definition index_ok :: "index \<Rightarrow> bool" where
  "index_ok ix =
     (list_all (\<lambda>(name, tsg). valid_tenant_name name \<and> tsg \<noteq> []) (ix_tenants ix)
      \<and> sorted_wrt (\<lambda>a b. key_less (fst a) (fst b)) (ix_tenants ix)
      \<and> length (ix_tenants ix) \<le> max_tenants
      \<and> names_distinct (ix_tenants ix)
      \<and> (case ix_active ix of None \<Rightarrow> True | Some a \<Rightarrow> pinned (ix_tenants ix) a \<noteq> None))"

definition entry_lines :: "str \<times> str \<Rightarrow> str list" where
  "entry_lines e = [[], ''[tenants.'' @ fst e @ '']'', ''tsg_id = '' @ toml_string (snd e)]"

definition entry_table :: "str \<times> str \<Rightarrow> str \<times> toml" where
  "entry_table e = (fst e, TTable [(''tsg_id'', TString (snd e))])"

definition head_lines :: "str option \<Rightarrow> str list" where
  "head_lines active = ''version = 1'' # (case active of Some a \<Rightarrow> [''active = '' @ toml_string a] | None \<Rightarrow> [])"

definition head_table :: "str option \<Rightarrow> toml_table" where
  "head_table active = (''version'', TInteger 1) # (case active of Some a \<Rightarrow> [(''active'', TString a)] | None \<Rightarrow> [])"

lemma index_toml_lines:
  "index_toml ix = concat (map (\<lambda>l. l @ nl) (head_lines (ix_active ix) @ concat (map entry_lines (ix_tenants ix))))"
proof -
  have "concat (map (\<lambda>(name, tsg). nl @ ''[tenants.'' @ name @ '']'' @ nl @ ''tsg_id = '' @ toml_string tsg @ nl) ts)
      = concat (map (\<lambda>l. l @ nl) (concat (map entry_lines ts)))" for ts
    by (induction ts) (auto simp: entry_lines_def)
  then show ?thesis by (simp add: index_toml_def head_lines_def split: option.split)
qed

lemma toml_value_one: "toml_value ''1'' = Some (TInteger 1)"
  by (simp add: toml_value_def basic_string_def quote_mark_def decimal_digits_def is_digit_def code_def undec_def i64_max_def)

lemma head_read: "add_lines (head_lines active @ ls) (None, []) = add_lines ls (None, head_table active)"
proof -
  have keys: "bare_key ''version''" "bare_key ''active''"
    by (simp_all add: bare_key_def is_ascii_alnum_def is_digit_def code_def)
  note v = value_line_read [OF keys(1) toml_value_one] value_line_read [OF keys(2) toml_value_string]
  show ?thesis using v by (simp add: head_lines_def head_table_def add_new_def split: option.split)
qed

lemma tsg_line: "toml_line (''tsg_id = '' @ toml_string tsg) = Some (ValueLine ''tsg_id'' (TString tsg))"
  using value_line_read [OF _ toml_value_string, of "''tsg_id''"]
  by (simp add: bare_key_def is_ascii_alnum_def is_digit_def code_def)

lemma in_table_last: "a \<notin> fst ` set fs \<Longrightarrow>
    in_table f a (fs @ [(a, TTable t)]) = map_option (\<lambda>t'. fs @ [(a, TTable t')]) (f t)"
  by (induction fs) (auto simp: option.map_comp comp_def)

lemma entries_read:
  assumes "''tenants'' \<notin> fst ` set fs" and "distinct (map fst (ts @ us))" and "\<And>e. e \<in> set us \<Longrightarrow> bare_key (fst e)"
  shows "\<exists>cur. add_lines (concat (map entry_lines us)) (c, fs @ [(''tenants'', TTable (map entry_table ts))])
    = Some (if us = [] then c else cur, fs @ [(''tenants'', TTable (map entry_table (ts @ us)))])"
  using assms(2,3)
proof (induction us arbitrary: ts c)
  case (Cons e us)
  let ?doc = "\<lambda>t. fs @ [(''tenants'', TTable t)]"
  have fresh: "fst e \<notin> fst ` set (map entry_table ts)" using Cons.prems(1) by (force simp: entry_table_def)
  have "add_lines (entry_lines e) (c, ?doc (map entry_table ts))
      = Some (Some (''tenants'', fst e), ?doc (map entry_table (ts @ [e])))"
    using header_line_read [OF Cons.prems(2), of e] tsg_line [of "snd e"] fresh assms(1)
    by (simp add: entry_lines_def toml_line_def [of "[]"] open_table_def in_table_last add_new_def entry_table_def
        in_table_last [where fs = "map entry_table ts", simplified entry_table_def])
  with Cons.IH [of "ts @ [e]" "Some (''tenants'', fst e)"] Cons.prems show ?case
    by (auto simp: add_lines_append)
qed simp

definition tenants_table :: "(str \<times> str) list \<Rightarrow> toml_table" where
  "tenants_table ts = (if ts = [] then [] else [(''tenants'', TTable (map entry_table ts))])"

lemma tenants_read:
  assumes "''tenants'' \<notin> fst ` set fs" and "distinct (map fst ts)" and "\<And>e. e \<in> set ts \<Longrightarrow> bare_key (fst e)"
  shows "\<exists>cur. add_lines (concat (map entry_lines ts)) (None, fs) = Some (cur, fs @ tenants_table ts)"
proof (cases ts)
  case (Cons e us)
  have "add_lines (entry_lines e) (None, fs)
      = Some (Some (''tenants'', fst e), fs @ [(''tenants'', TTable (map entry_table [e]))])"
    using header_line_read [OF assms(3), of e] tsg_line [of "snd e"] assms(1) Cons
    by (simp add: entry_lines_def toml_line_def [of "[]"] open_table_def in_table_last add_new_def entry_table_def)
  with entries_read [OF assms(1), of "[e]" us "Some (''tenants'', fst e)"] assms(2,3) Cons show ?thesis
    by (auto simp: add_lines_append tenants_table_def)
qed (simp add: tenants_table_def)

lemma index_lines_plain:
  assumes "\<And>e. e \<in> set (ix_tenants ix) \<Longrightarrow> bare_key (fst e)"
    and "l \<in> set (head_lines (ix_active ix) @ concat (map entry_lines (ix_tenants ix)))"
  shows "newline \<notin> set l"
proof -
  have "newline \<notin> set n" if "bare_key n" for n
    using that newline_byte(1) by (auto simp: bare_key_def list_all_iff is_ascii_alnum_def is_digit_def code_def newline_byte(2))
  then have entry: "newline \<notin> set l" if "e \<in> set (ix_tenants ix)" "l \<in> set (entry_lines e)" for e l
    using that assms(1) [OF that(1)] no_newline_string [of "snd e"] by (auto simp: entry_lines_def newline_byte(2))
  from assms(2) consider "l \<in> set (head_lines (ix_active ix))"
    | e where "e \<in> set (ix_tenants ix)" "l \<in> set (entry_lines e)" by auto
  then show ?thesis
  proof cases
    case 1
    then show ?thesis using no_newline_string by (auto simp: head_lines_def newline_byte(2) split: option.splits)
  qed (rule entry)
qed

lemma sorted_names_distinct: "sorted_wrt (\<lambda>a b. key_less (fst a) (fst b)) ts \<Longrightarrow> distinct (map fst ts)"
proof (induction ts)
  case (Cons a ts)
  then have "fst a \<noteq> fst b" if "b \<in> set ts" for b using that key_less_irrefl by fastforce
  with Cons show ?case by auto
qed simp

lemma index_fragment:
  assumes "index_ok ix"
  shows "toml_fragment (index_toml ix) = Some (head_table (ix_active ix) @ tenants_table (ix_tenants ix))"
proof -
  have bare: "\<And>e. e \<in> set (ix_tenants ix) \<Longrightarrow> bare_key (fst e)"
    using assms valid_name_bare by (fastforce simp: index_ok_def list_all_iff)
  have dist: "distinct (map fst (ix_tenants ix))"
    using assms by (intro sorted_names_distinct) (simp add: index_ok_def)
  have head: "''tenants'' \<notin> fst ` set (head_table (ix_active ix))" by (auto simp: head_table_def split: option.split)
  obtain cur where "add_lines (concat (map entry_lines (ix_tenants ix))) (None, head_table (ix_active ix))
      = Some (cur, head_table (ix_active ix) @ tenants_table (ix_tenants ix))"
    using tenants_read [OF head dist bare] by blast
  moreover have "split_on (CHR 0x0A) (index_toml ix)
      = (head_lines (ix_active ix) @ concat (map entry_lines (ix_tenants ix))) @ [[]]"
    unfolding index_toml_lines newline_byte(2) [symmetric] by (rule split_lines) (rule index_lines_plain [OF bare])
  moreover have "add_lines [[]] st = Some st" for st by (simp add: toml_line_def)
  ultimately show ?thesis
    by (simp add: toml_fragment_def head_read add_lines_append [of "concat (map entry_lines (ix_tenants ix))"] del: add_lines.simps)
qed

text \<open>Inserting in order gives the list back.\<close>

lemma pin_insert_last:
  "(\<And>a. a \<in> set ts \<Longrightarrow> key_less (fst a) n) \<Longrightarrow> pin_insert ts n tsg = ts @ [(n, tsg)]"
proof (induction ts)
  case (Cons a ts)
  obtain m old where a: "a = (m, old)" by (cases a)
  have "key_less m n" using Cons.prems [of a] a by simp
  then have "m \<noteq> n" "\<not> key_less n m" using key_less_irrefl key_less_trans by blast+
  with Cons a show ?case by simp
qed simp

lemma read_tenants_sorted:
  assumes "sorted_wrt (\<lambda>a b. key_less (fst a) (fst b)) (ts @ us)"
    and "\<And>n t. (n, t) \<in> set us \<Longrightarrow> valid_tenant_name n \<and> t \<noteq> []"
  shows "read_tenants ts (map entry_table us) = Some (ts @ us)"
  using assms
proof (induction us arbitrary: ts)
  case (Cons e us)
  obtain n t where e: "e = (n, t)" by (cases e)
  have "pin_insert ts n t = ts @ [(n, t)]"
    using Cons.prems(1) by (intro pin_insert_last) (auto simp: sorted_wrt_append e)
  moreover have "valid_tenant_name n \<and> t \<noteq> []" using Cons.prems(2) [of n t] e by simp
  moreover have "read_tenants (ts @ [e]) (map entry_table us) = Some ((ts @ [e]) @ us)"
    using Cons.prems by (intro Cons.IH) auto
  moreover have "entry_table (n, t) = (n, TTable [(''tsg_id'', TString t)])" by (simp add: entry_table_def)
  ultimately show ?case using e by (simp add: entry_tsg_def table_get_def)
qed simp

text \<open>The pinned TSGs are Rust strings.\<close>

definition pins_utf8 :: "index \<Rightarrow> bool" where
  "pins_utf8 ix = list_all (\<lambda>(_, tsg). valid_utf8 tsg) (ix_tenants ix)"

lemma bare_key_ascii: "bare_key k \<Longrightarrow> list_all (\<lambda>c. code c < 128) k"
  by (auto simp: bare_key_def list_all_iff is_ascii_alnum_def is_digit_def code_def)

lemma valid_utf8_bare: "bare_key k \<Longrightarrow> valid_utf8 k"
  by (rule valid_utf8_ascii [OF bare_key_ascii])

lemma valid_utf8_lines: "(\<And>l. l \<in> set ls \<Longrightarrow> valid_utf8 l) \<Longrightarrow> valid_utf8 (concat (map (\<lambda>l. l @ nl) ls))"
proof -
  have "valid_utf8 nl" by code_simp
  then show "(\<And>l. l \<in> set ls \<Longrightarrow> valid_utf8 l) \<Longrightarrow> ?thesis"
    by (auto intro!: valid_utf8_concat valid_utf8_append)
qed

lemma valid_utf8_index:
  assumes "index_ok ix" "pins_utf8 ix"
  shows "valid_utf8 (index_toml ix)"
proof -
  have names: "bare_key n \<and> valid_utf8 t" if "(n, t) \<in> set (ix_tenants ix)" for n t
    using that assms valid_name_bare by (fastforce simp: index_ok_def pins_utf8_def list_all_iff)
  have active: "valid_utf8 a" if "ix_active ix = Some a" for a
    using that assms(1) names valid_utf8_bare by (fastforce simp: index_ok_def pinned_def dest: map_of_SomeD)
  have parts: "valid_utf8 ''version = 1''" "valid_utf8 ''active = ''" "valid_utf8 ''[tenants.''" "valid_utf8 '']''"
    "valid_utf8 ''tsg_id = ''" by code_simp+
  have "valid_utf8 l" if l: "l \<in> set (head_lines (ix_active ix) @ concat (map entry_lines (ix_tenants ix)))" for l
  proof -
    consider "l \<in> set (head_lines (ix_active ix))" | e where "e \<in> set (ix_tenants ix)" "l \<in> set (entry_lines e)"
      using l by auto
    then show ?thesis
    proof cases
      case 1
      then have "l = ''version = 1'' \<or> (\<exists>a. ix_active ix = Some a \<and> l = ''active = '' @ toml_string a)"
        by (cases "ix_active ix") (simp_all add: head_lines_def)
      with parts(1) active show ?thesis
        using valid_utf8_append [OF parts(2) valid_utf8_toml_string] by metis
    next
      case 2
      obtain n t where e: "e = (n, t)" by (cases e)
      note nt = names [OF 2(1) [unfolded e]]
      have "l = [] \<or> l = ''[tenants.'' @ n @ '']'' \<or> l = ''tsg_id = '' @ toml_string t"
        using 2(2) by (auto simp: entry_lines_def e)
      then show ?thesis
        using valid_utf8_append [OF parts(3) valid_utf8_append [OF valid_utf8_bare parts(4)], of n]
          valid_utf8_append [OF parts(5) valid_utf8_toml_string, of t] nt by (elim disjE) simp_all
    qed
  qed
  then show ?thesis unfolding index_toml_lines by (rule valid_utf8_lines)
qed

lemma ordered_index_table:
  assumes "index_ok ix"
  shows "ordered_table (head_table (ix_active ix) @ tenants_table (ix_tenants ix))
    = in_key_order (head_table (ix_active ix) @ tenants_table (ix_tenants ix))"
proof -
  have one: "in_key_order [e] = [e]" for e by (cases e) (simp add: in_key_order_def)
  have entries: "map (\<lambda>(key, v). (key, byte_ordered v)) (map entry_table ts) = map entry_table ts" for ts
    by (induction ts) (simp_all add: entry_table_def one)
  have "sorted_wrt (\<lambda>a b. key_less (fst a) (fst b)) (map entry_table (ix_tenants ix))"
    using assms by (simp add: index_ok_def sorted_wrt_map entry_table_def)
  then have "in_key_order (map entry_table (ix_tenants ix)) = map entry_table (ix_tenants ix)"
    by (rule in_key_order_sorted)
  then show ?thesis
    using entries [of "ix_tenants ix"]
    by (auto simp: ordered_table_def head_table_def tenants_table_def simp del: map_map split: option.split)
qed

lemma index_reads_back:
  assumes "reads_toml L" and ok: "index_ok ix" and "pins_utf8 ix"
  shows "index_parse L (index_toml ix) = Some (ix\<lparr>ix_exists := True\<rparr>)"
proof -
  let ?t = "head_table (ix_active ix) @ tenants_table (ix_tenants ix)"
  have L: "lib_toml L (index_toml ix) = Some (in_key_order ?t)"
    using assms(1) index_fragment [OF ok] valid_utf8_index [OF ok assms(3)] ordered_index_table [OF ok]
    by (simp add: reads_toml_def)
  have "distinct (map fst ?t)"
    by (auto simp: head_table_def tenants_table_def split: option.split)
  then have get: "table_get (in_key_order ?t) = table_get ?t" by (simp add: table_get_def in_key_order_props(3))
  have "read_tenants [] (map entry_table (ix_tenants ix)) = Some (ix_tenants ix)"
    using read_tenants_sorted [of "[]" "ix_tenants ix"] ok by (auto simp: index_ok_def list_all_iff)
  then have t: "index_tenants (table_get (head_table (ix_active ix) @ tenants_table (ix_tenants ix)) ''tenants'') = Some (ix_tenants ix)"
    using ok by (auto simp: index_tenants_def table_get_def head_table_def tenants_table_def index_ok_def split: option.split)
  have a: "index_active (ix_tenants ix) (table_get (head_table (ix_active ix) @ tenants_table (ix_tenants ix)) ''active'') = Some (ix_active ix)"
    using ok by (auto simp: index_active_def table_get_def head_table_def tenants_table_def index_ok_def split: option.split)
  have k: "list_all (\<lambda>(key, _). key \<in> {''version'', ''active'', ''tenants''}) (head_table (ix_active ix) @ tenants_table (ix_tenants ix))"
    "table_get (head_table (ix_active ix) @ tenants_table (ix_tenants ix)) ''version'' = Some (TInteger 1)"
    by (auto simp: table_get_def head_table_def tenants_table_def split: option.split)
  have "list_all (\<lambda>(key, _). key \<in> {''version'', ''active'', ''tenants''}) (in_key_order ?t)"
    using k(1) by (simp only: list_all_iff in_key_order_props(1))
  with L k(2) t a ok show ?thesis by (simp add: index_parse_def index_ok_def get)
qed

section \<open>Every index is one\<close>

lemma set_pin_insert: "set (pin_insert ts n t) \<subseteq> insert (n, t) (set ts)"
  by (induction ts n t rule: pin_insert.induct) auto

lemma pin_insert_sorted:
  "sorted_wrt (\<lambda>a b. key_less (fst a) (fst b)) ts \<Longrightarrow> sorted_wrt (\<lambda>a b. key_less (fst a) (fst b)) (pin_insert ts n t)"
proof (induction ts)
  case (Cons a ts)
  obtain m old where a: "a = (m, old)" by (cases a)
  show ?case
  proof (cases "m = n")
    case True
    with Cons a show ?thesis by simp
  next
    case False
    show ?thesis
    proof (cases "key_less n m")
      case True
      with False Cons.prems a show ?thesis by (auto intro: key_less_trans)
    next
      case other: False
      with False have "key_less m n" using key_less_total by blast
      with False other Cons a set_pin_insert [of ts n t] show ?thesis by auto
    qed
  qed
qed simp

lemma pin_insert_map: "map_of (pin_insert ts n t) = (map_of ts)(n \<mapsto> t)"
  by (induction ts n t rule: pin_insert.induct) auto

lemma pin_insert_fresh:
  "n \<notin> fst ` set ts \<Longrightarrow> mset (pin_insert ts n t) = add_mset (n, t) (mset ts)"
  by (induction ts n t rule: pin_insert.induct) auto

lemma pin_insert_known:
  "sorted_wrt (\<lambda>a b. key_less (fst a) (fst b)) ts \<Longrightarrow> n \<in> fst ` set ts \<Longrightarrow> map fst (pin_insert ts n t) = map fst ts"
proof (induction ts)
  case (Cons a ts)
  obtain m old where a: "a = (m, old)" by (cases a)
  have "\<not> key_less n m" if "m \<noteq> n"
    using Cons.prems that a key_less_trans key_less_irrefl by fastforce
  with Cons a show ?case by (auto split: if_splits)
qed simp

lemma names_distinct_iff: "names_distinct ts \<longleftrightarrow> distinct (map (\<lambda>e. ascii_lower (fst e)) ts)"
proof -
  have "names_distinct ts \<longleftrightarrow>
      length (remdups (map (\<lambda>e. ascii_lower (fst e)) ts)) = length (map (\<lambda>e. ascii_lower (fst e)) ts)"
    by (simp only: names_distinct_def case_prod_beta' length_map)
  also have "\<dots> \<longleftrightarrow> distinct (map (\<lambda>e. ascii_lower (fst e)) ts)"
    using length_remdups_eq remdups_id_iff_distinct by metis
  finally show ?thesis .
qed

lemma read_tenants_ok:
  assumes "read_tenants ts fs = Some us"
    and "sorted_wrt (\<lambda>a b. key_less (fst a) (fst b)) ts" "list_all (\<lambda>(n, t). valid_tenant_name n \<and> t \<noteq> []) ts"
  shows "sorted_wrt (\<lambda>a b. key_less (fst a) (fst b)) us \<and> list_all (\<lambda>(n, t). valid_tenant_name n \<and> t \<noteq> []) us
    \<and> length us \<le> length ts + length fs"
  using assms
proof (induction ts fs rule: read_tenants.induct)
  case (2 ts name entry rest)
  then obtain t where t: "entry_tsg entry = Some t" "valid_tenant_name name" "read_tenants (pin_insert ts name t) rest = Some us"
    by (auto split: option.splits if_splits)
  have "t \<noteq> []" using t(1) by (auto simp: entry_tsg_def split: toml.splits option.splits if_splits)
  then have "list_all (\<lambda>(n, t). valid_tenant_name n \<and> t \<noteq> []) (pin_insert ts name t)"
    using "2.prems"(3) t(2) set_pin_insert [of ts name t] by (fastforce simp: list_all_iff)
  moreover have "length (pin_insert ts name t) \<le> Suc (length ts)"
    by (induction ts name t rule: pin_insert.induct) auto
  ultimately show ?case using "2.IH" [OF t(1) _ t(3) pin_insert_sorted [OF "2.prems"(2)]] t(2) by auto
qed auto

lemma parsed_index_ok: "index_parse L input = Some ix \<Longrightarrow> index_ok ix"
proof -
  assume p: "index_parse L input = Some ix"
  then obtain table tenants active where
      t: "index_tenants (table_get table ''tenants'') = Some tenants"
    and a: "index_active tenants (table_get table ''active'') = Some active"
    and n: "names_distinct tenants" and ix: "ix = \<lparr>ix_exists = True, ix_active = active, ix_tenants = tenants\<rparr>"
    by (auto simp: index_parse_def split: option.splits if_splits)
  from t have "sorted_wrt (\<lambda>a b. key_less (fst a) (fst b)) tenants
      \<and> list_all (\<lambda>(n, t). valid_tenant_name n \<and> t \<noteq> []) tenants \<and> length tenants \<le> max_tenants"
    by (auto simp: index_tenants_def split: option.splits toml.splits if_splits dest!: read_tenants_ok)
  moreover from a have "case active of None \<Rightarrow> True | Some x \<Rightarrow> pinned tenants x \<noteq> None"
    by (auto simp: index_active_def split: option.splits toml.splits if_splits)
  ultimately show ?thesis using n by (simp add: index_ok_def ix split: option.splits)
qed

lemma empty_index_ok: "index_ok empty_index"
  by (simp add: index_ok_def empty_index_def names_distinct_def)

lemma stored_index_ok: "stored_index L V s ix \<Longrightarrow> index_ok ix"
  using parsed_index_ok empty_index_ok by (auto simp: stored_index_def)

lemma index_okI:
  assumes "index_ok ix" and "set ts \<subseteq> insert (name, tsg) (set (ix_tenants ix))" "valid_tenant_name name" "tsg \<noteq> []"
    and "sorted_wrt (\<lambda>a b. key_less (fst a) (fst b)) ts" "length ts \<le> max_tenants"
    and "distinct (map (\<lambda>e. ascii_lower (fst e)) ts)" and "\<And>a. ix_active ix = Some a \<Longrightarrow> map_of ts a \<noteq> None"
  shows "index_ok (ix\<lparr>ix_tenants := ts\<rparr>)"
  using assms unfolding index_ok_def names_distinct_iff pinned_def
  by (fastforce simp: list_all_iff split: option.splits)

text \<open>A registration keeps the index an index, and so does a change of a pinned TSG.\<close>

lemma with_new_pin_ok:
  assumes ok: "index_ok ix" and new: "check_new ix name = Ok ()" and "valid_tenant_name name" "tsg \<noteq> []"
  shows "index_ok (with_pin ix name tsg)"
proof -
  have free: "name \<notin> fst ` set (ix_tenants ix)" and no_case: "case_conflict ix name = None"
    and room: "length (ix_tenants ix) < max_tenants"
    using new by (auto simp: check_new_def index_tsg_def pinned_def map_of_eq_None_iff split: if_splits option.splits)
  have m: "mset (pin_insert (ix_tenants ix) name tsg) = add_mset (name, tsg) (mset (ix_tenants ix))"
    by (rule pin_insert_fresh [OF free])
  have "length (pin_insert (ix_tenants ix) name tsg) = Suc (length (ix_tenants ix))"
    using arg_cong [OF m, of size] by simp
  moreover have "distinct (map (\<lambda>e. ascii_lower (fst e)) (pin_insert (ix_tenants ix) name tsg))"
  proof -
    have "\<not> eq_ignore_ascii_case (fst e) name" if "e \<in> set (ix_tenants ix)" for e
      using that free no_case by (force simp: case_conflict_def index_names_def find_None_iff)
    then have "ascii_lower name \<notin> (\<lambda>e. ascii_lower (fst e)) ` set (ix_tenants ix)"
      unfolding eq_ignore_ascii_case_def by fastforce
    moreover have "mset (map (\<lambda>e. ascii_lower (fst e)) (pin_insert (ix_tenants ix) name tsg))
        = mset (map (\<lambda>e. ascii_lower (fst e)) ((name, tsg) # ix_tenants ix))"
      using m by simp
    ultimately show ?thesis
      using ok mset_eq_imp_distinct_iff by (fastforce simp: index_ok_def names_distinct_iff)
  qed
  ultimately show ?thesis unfolding with_pin_def
    using ok assms(3,4) room pin_insert_sorted set_pin_insert [of "ix_tenants ix" name tsg]
    by (intro index_okI [OF ok]) (auto simp: index_ok_def pin_insert_map pinned_def)
qed

lemma with_known_pin_ok:
  assumes ok: "index_ok ix" and "name \<in> fst ` set (ix_tenants ix)" and "tsg \<noteq> []"
  shows "index_ok (with_pin ix name tsg)"
proof -
  have s: "sorted_wrt (\<lambda>a b. key_less (fst a) (fst b)) (ix_tenants ix)" using ok by (simp add: index_ok_def)
  have names: "map fst (pin_insert (ix_tenants ix) name tsg) = map fst (ix_tenants ix)"
    by (rule pin_insert_known [OF s assms(2)])
  have "valid_tenant_name name" using ok assms(2) by (auto simp: index_ok_def list_all_iff)
  moreover have "length (pin_insert (ix_tenants ix) name tsg) = length (ix_tenants ix)"
    using arg_cong [OF names, of length] by simp
  moreover have "map (\<lambda>e. ascii_lower (fst e)) (pin_insert (ix_tenants ix) name tsg) = map (\<lambda>e. ascii_lower (fst e)) (ix_tenants ix)"
    using arg_cong [OF names, of "map ascii_lower"] by (simp add: comp_def)
  ultimately show ?thesis unfolding with_pin_def
    using ok assms(3) pin_insert_sorted [OF s] set_pin_insert [of "ix_tenants ix" name tsg]
    by (intro index_okI [OF ok]) (auto simp: index_ok_def pin_insert_map pinned_def names_distinct_iff)
qed

lemma map_of_pin_remove: "map_of (pin_remove ts name) a = (if a = name then None else map_of ts a)"
  by (induction ts) (auto simp: pin_remove_def)

lemma without_tenant_ok:
  assumes ok: "index_ok ix"
  shows "index_ok (without_tenant ix name)"
proof -
  let ?ts = "pin_remove (ix_tenants ix) name"
  have sub: "set ?ts \<subseteq> set (ix_tenants ix)" by (auto simp: pin_remove_def)
  have len: "length ?ts \<le> length (ix_tenants ix)" by (simp add: pin_remove_def)
  have "sorted_wrt (\<lambda>a b. key_less (fst a) (fst b)) ?ts" "distinct (map (\<lambda>e. ascii_lower (fst e)) ?ts)"
    using ok by (simp_all add: index_ok_def names_distinct_iff pin_remove_def sorted_wrt_filter distinct_map_filter)
  with ok sub len show ?thesis
    by (auto simp: without_tenant_def Let_def index_ok_def names_distinct_iff pinned_def map_of_pin_remove list_all_iff split: option.splits)
qed

lemma switched_ok: "index_ok ix \<Longrightarrow> pinned (ix_tenants ix) name \<noteq> None \<Longrightarrow> index_ok (ix\<lparr>ix_active := Some name\<rparr>)"
  by (simp add: index_ok_def)

section \<open>Tenant files\<close>

fun toml_of :: "config_value \<Rightarrow> toml" where
  "toml_of (CText s) = TString s"
| "toml_of (CInteger n) = TInteger n"

text \<open>What every configuration read from a file satisfies.\<close>

definition config_ok :: "libs \<Rightarrow> tenant_config \<Rightarrow> bool" where
  "config_ok L c =
     (map fst c = filter (\<lambda>k. k \<in> fst ` set c) schema_keys
      \<and> list_all (\<lambda>(k, v). read_rule L k (toml_of v) = Some v) c)"

lemma schema_keys_bare: "list_all bare_key schema_keys"
  by (simp add: schema_keys_def bare_key_def is_ascii_alnum_def is_digit_def code_def)

lemma schema_keys_distinct: "distinct schema_keys" by code_simp

lemma read_rule_exact: "read_rule L key v = Some cv \<Longrightarrow> toml_of cv = v \<and> read_rule L key (toml_of cv) = Some cv"
  by (cases v; cases "rule_of key") (auto simp: read_rule_def text_if_def split: if_splits)

lemma read_values_keys: "read_values L table keys = (c, []) \<Longrightarrow>
    map fst c = filter (\<lambda>k. table_get table k \<noteq> None) keys \<and> list_all (\<lambda>(k, v). read_rule L k (toml_of v) = Some v) c"
proof (induction keys arbitrary: c)
  case (Cons key keys)
  then show ?case
    by (cases "read_values L table keys") (auto dest: read_rule_exact split: option.splits)
qed simp

lemma parsed_config_ok: "config_parse L input = Ok c \<Longrightarrow> config_ok L c"
proof -
  assume "config_parse L input = Ok c"
  then obtain table where r: "read_values L table schema_keys = (c, [])"
    by (auto simp: config_parse_def Let_def split: option.splits if_splits prod.splits)
  note k = read_values_keys [OF r]
  then have "fst ` set c = {k \<in> set schema_keys. table_get table k \<noteq> None}" by (metis list.set_map set_filter)
  with k show ?thesis by (auto simp: config_ok_def intro: filter_cong)
qed

lemma place_in_distinct: "distinct xs \<Longrightarrow> map (\<lambda>k. length (takeWhile (\<lambda>j. j \<noteq> k) xs)) xs = [0 ..< length xs]"
proof (rule nth_equalityI)
  fix i assume d: "distinct xs" and i: "i < length (map (\<lambda>k. length (takeWhile (\<lambda>j. j \<noteq> k) xs)) xs)"
  then have "takeWhile (\<lambda>j. j \<noteq> xs ! i) xs = take i xs"
    by (intro takeWhile_eq_take_P_nth) (auto simp: nth_eq_iff_index_eq)
  with i show "map (\<lambda>k. length (takeWhile (\<lambda>j. j \<noteq> k) xs)) xs ! i = [0 ..< length xs] ! i" by simp
qed simp

lemma ranks: "sorted (map schema_rank schema_keys)" "distinct (map schema_rank schema_keys)"
proof -
  have "map schema_rank schema_keys = map Suc (map (\<lambda>k. length (takeWhile (\<lambda>j. j \<noteq> k) schema_keys)) schema_keys)"
    by (simp only: map_map comp_def) (auto simp only: schema_rank_def if_True intro: map_cong)
  also have "\<dots> = map Suc [0 ..< length schema_keys]" by (simp only: place_in_distinct [OF schema_keys_distinct])
  finally show "sorted (map schema_rank schema_keys)" "distinct (map schema_rank schema_keys)"
    by (simp_all only: map_Suc_upt sorted_upt distinct_upt)
qed

lemma config_set_ok:
  assumes ok: "config_ok L c" and key: "key \<in> set schema_keys" and v: "read_rule L key (toml_of v) = Some v"
  shows "config_ok L (config_set key v c)"
proof -
  let ?c = "filter (\<lambda>(name, _). name \<noteq> key) c @ [(key, v)]"
  let ?d = "config_set key v c"
  have keys: "map fst c = filter (\<lambda>k. k \<in> fst ` set c) schema_keys" using ok by (simp add: config_ok_def)
  have sub: "fst ` set c \<subseteq> set schema_keys" by (metis keys filter_is_subset list.set_map)
  have dist: "distinct (map fst c)" unfolding keys using schema_keys_distinct by simp
  have mem: "set ?d = set ?c" by (simp add: config_set_def)
  have names: "fst ` set ?d \<subseteq> set schema_keys" using sub key unfolding mem by auto
  have "distinct (map fst ?c)"
    using dist by (auto simp: distinct_map inj_on_def)
  then have dd: "distinct (map fst ?d)"
    by (metis (no_types, lifting) config_set_def distinct_map distinct_sort set_sort)
  have inj: "inj_on schema_rank (set schema_keys)" using ranks(2) by (simp add: distinct_map)
  have "map fst ?d = filter (\<lambda>k. k \<in> fst ` set ?d) schema_keys"
  proof (rule map_sorted_distinct_set_unique)
    show "inj_on schema_rank (set (map fst ?d) \<union> set (filter (\<lambda>k. k \<in> fst ` set ?d) schema_keys))"
      by (rule inj_on_subset [OF inj]) (use names in auto)
    show "sorted (map schema_rank (map fst ?d))"
      using sorted_sort_key [of "\<lambda>(name, _). schema_rank name" ?c] by (simp add: config_set_def case_prod_beta' comp_def)
    show "distinct (map schema_rank (map fst ?d))"
      using dd inj_on_subset [OF inj names] by (simp only: distinct_map list.set_map)
    show "sorted (map schema_rank (filter (\<lambda>k. k \<in> fst ` set ?d) schema_keys))"
      using ranks(1) by (rule sorted_filter)
    show "distinct (map schema_rank (filter (\<lambda>k. k \<in> fst ` set ?d) schema_keys))"
      using ranks(2) by (rule distinct_map_filter)
    show "set (map fst ?d) = set (filter (\<lambda>k. k \<in> fst ` set ?d) schema_keys)" using names by auto
  qed
  moreover have "list_all (\<lambda>(k, v). read_rule L k (toml_of v) = Some v) ?d"
    using ok v mem by (auto simp: config_ok_def list_all_iff)
  ultimately show ?thesis by (simp add: config_ok_def)
qed

lemma schema_rules: "list_all (\<lambda>k. (rule_of k = RUrl \<longrightarrow> is_endpoint_key k)
    \<and> (is_endpoint_key k \<longrightarrow> rule_of k = RUrl \<or> rule_of k = RText)
    \<and> (k = ''mgmtTsgId'' \<longrightarrow> rule_of k = RText)) schema_keys"
  by code_simp

text \<open>A value the command line accepts is one the file reader accepts.\<close>

lemma written_value_is_read:
  assumes "write_rule L tenant key s = Ok v" "key \<in> set schema_keys"
  shows "read_rule L key (toml_of v) = Some v"
proof -
  have "s \<noteq> []" using assms(1) by (auto simp: write_rule_def js_trim_def)
  moreover have "rule_of key = RUrl \<Longrightarrow> is_endpoint_key key"
    "is_endpoint_key key \<Longrightarrow> rule_of key = RUrl \<or> rule_of key = RText" "key = ''mgmtTsgId'' \<Longrightarrow> rule_of key = RText"
    using assms(2) schema_rules by (auto simp: list_all_iff)
  ultimately show ?thesis using assms(1)
    by (cases "rule_of key")
      (auto simp: write_rule_def read_rule_def text_if_def written_integer_def decimal_value_def Let_def split: if_splits option.splits)
qed

lemma config_lines:
  "config_toml c = concat (map (\<lambda>l. l @ nl) (map (\<lambda>(key, v). key @ '' = '' @ cv_toml v) c))"
  unfolding config_toml_def by (induction c) auto

lemma dec_value:
  assumes "n \<le> 20"
  shows "toml_value (dec n) = Some (TInteger (int n))"
proof -
  have d: "list_all is_digit (dec n)" by (rule dec_digits)
  have shape: "dec n \<noteq> [] \<and> (length (dec n) = 1 \<or> hd (dec n) \<noteq> CHR ''0'')"
  proof (cases "n < 10")
    case True
    then show ?thesis by (simp add: dec_small)
  next
    case False
    then have "n div 10 = 1 \<or> n div 10 = 2" using assms by linarith
    with False show ?thesis by (auto simp: dec_big dec_small digit_char_def)
  qed
  then obtain c s where dec: "dec n = c # s" by (cases "dec n") auto
  then have "c \<noteq> quote_mark" using d code_mark by (auto simp: is_digit_def)
  then have "basic_string (dec n) = None" by (simp add: dec basic_string_def)
  moreover have "decimal_digits (dec n)" using d shape by (simp add: decimal_digits_def)
  ultimately show ?thesis using assms by (simp add: toml_value_def i64_max_def)
qed

lemma cv_toml_read:
  assumes "read_rule L k (toml_of v) = Some v"
  shows "toml_value (cv_toml v) = Some (toml_of v) \<and> newline \<notin> set (cv_toml v)"
proof (cases v)
  case (CText s)
  then show ?thesis using toml_value_string no_newline_string by simp
next
  case (CInteger n)
  then have "0 \<le> n" "n \<le> 20"
    using assms by (cases "rule_of k"; auto simp: read_rule_def text_if_def split: if_splits)+
  then have "cv_toml v = dec (nat n)" "nat n \<le> 20" using CInteger by (simp_all add: i64_text_def)
  moreover have "newline \<notin> set (dec (nat n))"
    using dec_digits [of "nat n"] newline_byte(1) by (auto simp: list_all_iff is_digit_def)
  ultimately show ?thesis using dec_value [of "nat n"] \<open>0 \<le> n\<close> CInteger by simp
qed

lemma config_fragment:
  assumes "distinct (map fst c)" "\<And>k v. (k, v) \<in> set c \<Longrightarrow> bare_key k \<and> read_rule L k (toml_of v) = Some v"
    and "fst ` set fs \<inter> fst ` set c = {}"
  shows "add_lines (map (\<lambda>(key, v). key @ '' = '' @ cv_toml v) c) (None, fs)
    = Some (None, fs @ map (\<lambda>(k, v). (k, toml_of v)) c)"
  using assms
proof (induction c arbitrary: fs)
  case (Cons e c)
  obtain k v where e: "e = (k, v)" by (cases e)
  have "bare_key k" "toml_value (cv_toml v) = Some (toml_of v)"
    using Cons.prems(2) [of k v] cv_toml_read [of L k v] e by auto
  with value_line_read have "toml_line (k @ '' = '' @ cv_toml v) = Some (ValueLine k (toml_of v))" by blast
  moreover have "add_new (toml_of v) fs k = Some (fs @ [(k, toml_of v)])"
    using Cons.prems(3) e by (auto simp: add_new_def)
  ultimately show ?case using Cons.IH [of "fs @ [(k, toml_of v)]"] Cons.prems e by auto
qed simp

lemma read_values_back:
  assumes "list_all (\<lambda>(k, v). read_rule L k (toml_of v) = Some v) c" "distinct keys"
    and get: "\<And>k. table_get table k = map_option toml_of (map_of c k)"
  shows "read_values L table keys = (List.map_filter (\<lambda>k. map_option (Pair k) (map_of c k)) keys, [])"
proof (induction keys)
  case (Cons key keys)
  show ?case
  proof (cases "map_of c key")
    case None
    with Cons get show ?thesis by (simp add: List.map_filter_simps)
  next
    case (Some v)
    then have "read_rule L key (toml_of v) = Some v"
      using assms(1) map_of_SomeD [OF Some] by (auto simp: list_all_iff)
    with Some Cons get show ?thesis by (simp add: List.map_filter_simps)
  qed
qed (simp add: List.map_filter_simps)

text \<open>The texts of a configuration are Rust strings.\<close>

definition texts_utf8 :: "tenant_config \<Rightarrow> bool" where
  "texts_utf8 c = list_all (\<lambda>(_, v). case v of CText t \<Rightarrow> valid_utf8 t | CInteger _ \<Rightarrow> True) c"

lemma valid_utf8_dec: "valid_utf8 (dec n)"
proof (rule valid_utf8_ascii)
  show "list_all (\<lambda>c. code c < 128) (dec n)" using dec_digits [of n] by (auto simp: list_all_iff is_digit_def)
qed

lemma valid_utf8_cv: "(case v of CText t \<Rightarrow> valid_utf8 t | CInteger _ \<Rightarrow> True) \<Longrightarrow> valid_utf8 (cv_toml v)"
proof -
  have "valid_utf8 ''-''" by code_simp
  then have "valid_utf8 (i64_text n)" for n
    using valid_utf8_append [OF \<open>valid_utf8 ''-''\<close> valid_utf8_dec [of "nat (- n)"]] valid_utf8_dec [of "nat n"]
    by (simp add: i64_text_def del: valid_utf8.simps)
  then show "(case v of CText t \<Rightarrow> valid_utf8 t | CInteger _ \<Rightarrow> True) \<Longrightarrow> ?thesis"
    by (cases v) (simp_all add: valid_utf8_toml_string)
qed

lemma valid_utf8_config:
  assumes "texts_utf8 c" "\<And>k v. (k, v) \<in> set c \<Longrightarrow> bare_key k"
  shows "valid_utf8 (config_toml c)"
  unfolding config_lines
proof (rule valid_utf8_lines)
  fix l assume "l \<in> set (map (\<lambda>(key, v). key @ '' = '' @ cv_toml v) c)"
  then obtain k v where e: "(k, v) \<in> set c" "l = k @ '' = '' @ cv_toml v" by auto
  have "valid_utf8 (cv_toml v)" using e(1) assms(1) by (intro valid_utf8_cv) (auto simp: texts_utf8_def list_all_iff)
  moreover have "valid_utf8 '' = ''" by code_simp
  ultimately show "valid_utf8 l"
    unfolding e(2) by (intro valid_utf8_append valid_utf8_bare [OF assms(2) [OF e(1)]])
qed

lemma lookups_back:
  "(\<And>e. e \<in> set c \<Longrightarrow> m (fst e) = Some (snd e)) \<Longrightarrow>
   List.map_filter (\<lambda>k. map_option (Pair k) (m k)) (map fst c) = c"
  by (induction c) (auto simp: List.map_filter_simps)

lemma config_reads_back:
  assumes "reads_toml L" and ok: "config_ok L c" and texts: "texts_utf8 c"
  shows "config_parse L (config_toml c) = Ok c"
proof -
  let ?t = "in_key_order (map (\<lambda>(k, v). (k, toml_of v)) c)"
  have keys: "map fst c = filter (\<lambda>k. k \<in> fst ` set c) schema_keys" using ok by (simp add: config_ok_def)
  have sub: "fst ` set c \<subseteq> set schema_keys" by (metis keys filter_is_subset list.set_map)
  have dist: "distinct (map fst c)" unfolding keys using schema_keys_distinct by simp
  have all: "list_all (\<lambda>(k, v). read_rule L k (toml_of v) = Some v) c" using ok by (simp add: config_ok_def)
  have entry: "bare_key k \<and> read_rule L k (toml_of v) = Some v" if "(k, v) \<in> set c" for k v
    using that sub all schema_keys_bare by (force simp: list_all_iff)
  have plain: "newline \<notin> set l" if "l \<in> set (map (\<lambda>(key, v). key @ '' = '' @ cv_toml v) c)" for l
    using that entry cv_toml_read newline_byte(1)
    by (fastforce simp: bare_key_def list_all_iff is_ascii_alnum_def is_digit_def code_def newline_byte(2))
  have "split_on (CHR 0x0A) (config_toml c) = map (\<lambda>(key, v). key @ '' = '' @ cv_toml v) c @ [[]]"
    unfolding config_lines newline_byte(2) [symmetric] by (rule split_lines) (rule plain)
  moreover have "add_lines (map (\<lambda>(key, v). key @ '' = '' @ cv_toml v) c) (None, [])
      = Some (None, [] @ map (\<lambda>(k, v). (k, toml_of v)) c)"
    by (rule config_fragment [OF dist entry]) simp_all
  moreover have "add_lines [[]] st = Some st" for st by (simp add: toml_line_def)
  ultimately have "toml_fragment (config_toml c) = Some (map (\<lambda>(k, v). (k, toml_of v)) c)"
    by (simp only: toml_fragment_def add_lines_append option.case) simp
  moreover have "valid_utf8 (config_toml c)" using valid_utf8_config [OF texts] entry by blast
  moreover have "ordered_table (map (\<lambda>(k, v). (k, toml_of v)) c) = ?t"
  proof -
    have "byte_ordered (toml_of v) = toml_of v" for v by (cases v) simp_all
    then show ?thesis by (simp add: ordered_table_def case_prod_unfold comp_def)
  qed
  ultimately have "lib_toml L (config_toml c) = Some ?t" using assms(1) by (simp add: reads_toml_def)
  moreover have "read_values L ?t schema_keys = (c, [])"
  proof -
    have "distinct (map fst (map (\<lambda>(k, v). (k, toml_of v)) c))" using dist by (simp add: comp_def case_prod_unfold)
    then have "table_get ?t k = map_option toml_of (map_of c k)" for k
      by (simp add: table_get_def in_key_order_props(3) map_of_map)
    note read = read_values_back [OF all schema_keys_distinct this]
    have "List.map_filter (\<lambda>k. map_option (Pair k) (map_of c k)) schema_keys
        = List.map_filter (\<lambda>k. map_option (Pair k) (map_of c k)) (filter (\<lambda>k. k \<in> fst ` set c) schema_keys)"
      by (auto simp: List.map_filter_def map_of_eq_None_iff intro!: arg_cong [where f = "map _"] filter_cong)
    then show ?thesis using read lookups_back [of c "map_of c"] dist keys by simp
  qed
  moreover have "filter (\<lambda>key. schema_key key = None) (map fst ?t) = []"
    using sub in_key_order_props(1) by (fastforce simp: filter_empty_conv schema_key_def)
  ultimately show ?thesis by (simp add: config_parse_def)
qed

end
