(* ===== verification/StoreTx.thy ===== *)
theory StoreTx
  imports StoreReads Names
begin

text \<open>
  Transactions on a disk: what a checked read returns, what an atomic write and its rollback
  leave, and what the locked part of \<open>tenant create\<close> and of \<open>tenant set\<close> leave.
\<close>

section \<open>Names\<close>

definition is_temp :: "str \<Rightarrow> bool" where
  "is_temp q = ends_with q ''.tmp''"

lemma ends_with_ex: "ends_with s t \<longleftrightarrow> (\<exists>a. s = a @ t)"
proof
  assume "ends_with s t"
  then have "s = take (length s - length t) s @ t" by (auto simp: ends_with_def) (metis append_take_drop_id)
  then show "\<exists>a. s = a @ t" ..
qed (auto simp: ends_with_def)

lemma split_on_append_sep: "split_on c (s @ c # t) = split_on c s @ split_on c t"
proof (induction s)
  case (Cons x s)
  then show ?case by (cases "split_on c s") auto
qed simp

lemma components_joined:
  assumes "CHR ''/'' \<notin> set t" "t \<noteq> []" "t \<noteq> ''.''"
  shows "components (joined dir t) = components dir @ [t]"
proof -
  have one: "split_on (CHR ''/'') t = [t]" by (rule split_on_none [OF assms(1)])
  have root: "\<not> has_root t" using assms(1,2) by (cases t) (auto simp: has_root_def starts_with_def)
  have slash: "components (d @ CHR ''/'' # t) = components d @ [t]" for d
    using one assms(2,3) by (simp add: components_def split_on_append_sep)
  show ?thesis
  proof (cases "dir \<noteq> [] \<and> ends_with dir ''/''")
    case True
    then obtain d where d: "dir = d @ ''/''" by (auto simp: ends_with_ex)
    then have "components dir = components d" by (simp add: components_def split_on_append_sep)
    with slash [of d] d root True show ?thesis by (simp add: joined_def)
  next
    case False
    then show ?thesis
    proof (cases "dir = []")
      case True
      with root one assms(2,3) show ?thesis by (simp add: joined_def components_def)
    next
      case dir: False
      with False root slash [of dir] show ?thesis by (simp add: joined_def)
    qed
  qed
qed

lemma file_name_joined:
  "\<lbrakk>CHR ''/'' \<notin> set t; t \<noteq> []; t \<noteq> ''.''; t \<noteq> ''..''\<rbrakk> \<Longrightarrow> file_name (joined dir t) = Some t"
  by (simp add: file_name_def components_joined)

lemma file_name_plain: "file_name path = Some name \<Longrightarrow> CHR ''/'' \<notin> set name \<and> name \<noteq> []"
proof -
  assume "file_name path = Some name"
  then have "name \<in> set (rev (components path))"
    by (cases "rev (components path)") (auto simp: file_name_def split: if_splits)
  then show ?thesis using components_plain [of name path] by simp
qed

lemma hex_no_slash: "CHR ''/'' \<notin> set (random_hex r)"
proof -
  have "hex_digit d \<noteq> CHR ''/''" if "d < 16" for d
    using hex_digit_lower [OF that] by (auto simp: is_lower_hex_def is_digit_def code_def)
  then show ?thesis using code_less
    by (auto simp: random_hex_def less_mult_imp_div_less dest: sym)
qed

lemma temp_name_plain:
  assumes "CHR ''/'' \<notin> set name"
  shows "CHR ''/'' \<notin> set (temp_name name pid r)" "temp_name name pid r \<noteq> []" "temp_name name pid r \<noteq> ''.''"
    "temp_name name pid r \<noteq> ''..''" "length name < length (temp_name name pid r)" "is_temp (joined dir (temp_name name pid r))"
proof -
  have "CHR ''/'' \<notin> set (dec pid)" using dec_digits [of pid] by (auto simp: list_all_iff is_digit_def code_def)
  then show "CHR ''/'' \<notin> set (temp_name name pid r)" using assms hex_no_slash by (simp add: temp_name_def)
  show "is_temp (joined dir (temp_name name pid r))"
    by (auto simp: is_temp_def ends_with_ex joined_def temp_name_def)
qed (auto simp: temp_name_def)

lemma temp_other:
  assumes "file_name path = Some name"
  shows "joined dir (temp_name name pid r) \<noteq> path"
proof
  assume e: "joined dir (temp_name name pid r) = path"
  note T = temp_name_plain [OF conjunct1 [OF file_name_plain [OF assms]]]
  have "file_name path = Some (temp_name name pid r)"
    unfolding e [symmetric] by (rule file_name_joined [OF T(1-4)])
  with assms T(5) [of pid r] show False by simp
qed

section \<open>Atomic writes\<close>

lemma unlink_run:
  assumes "tries (d_unlink p) w = (r, w')" "sees V Q w" "Q V" "Q (V(p := None))"
  shows "case r of Inl e \<Rightarrow> sees V Q w' \<and> (e = NOENT \<longrightarrow> V p = None) | Inr _ \<Rightarrow> sees (V(p := None)) Q w'"
proof -
  obtain d' where run: "d_unlink p (outside w) = (r, d')" and w': "w' = w\<lparr>outside := d'\<rparr>"
    using assms(1) by (rule tries_run)
  from run show ?thesis
    unfolding d_unlink_def dcall_def
  proof (cases rule: dcall_or_run)
    case (failed e)
    with w' assms(2,3) show ?thesis by (simp add: sees_def)
  next
    case (done_ d1)
    let ?d = "outside w"
    let ?d1 = "(ticked ?d)\<lparr>dk_names := without_name p (dk_names ?d)\<rparr>"
    show ?thesis
    proof (cases "map_of (dk_names ?d) p")
      case None
      with done_ w' assms(2,3) show ?thesis by (auto simp: sees_def files_of_def)
    next
      case (Some i)
      show ?thesis
      proof (cases "i_kind (dk_nodes ?d i) = Directory")
        case True
        with Some done_ w' assms(2,3) show ?thesis by (auto simp: sees_def)
      next
        case False
        have "files_of ?d1 = V(p := None)" using assms(2) by (auto simp: sees_def files_of_def map_of_without)
        moreover have "sound_disk ?d1" using assms(2) by (auto simp: sees_def sound_disk_def map_of_without split: if_splits)
        ultimately show ?thesis using Some False done_ w' assms(2,4) by (auto simp: sees_def)
      qed
    qed
  qed
qed

text \<open>\<open>beside V V' ps\<close>: the names outside \<open>ps\<close> hold what they held, temporary names apart.\<close>

definition beside :: "files \<Rightarrow> files \<Rightarrow> str set \<Rightarrow> bool" where
  "beside V V' ps = (\<forall>q. \<not> is_temp q \<longrightarrow> q \<notin> ps \<longrightarrow> V' q = V q)"

lemma beside_refl [simp]: "beside V V ps" by (simp add: beside_def)

lemma beside_trans: "\<lbrakk>beside V V' ps; beside V' V'' qs\<rbrakk> \<Longrightarrow> beside V V'' (ps \<union> qs)"
  by (simp add: beside_def)

lemma besideD: "\<lbrakk>beside V V' ps; \<not> is_temp q; q \<notin> ps\<rbrakk> \<Longrightarrow> V' q = V q"
  by (simp add: beside_def)

definition passes :: "(files \<Rightarrow> bool) \<Rightarrow> files \<Rightarrow> str \<Rightarrow> inode \<Rightarrow> bool" where
  "passes Q V path new = (\<forall>V'. beside V V' {path} \<longrightarrow> V' path = V path \<or> V' path = Some new \<longrightarrow> Q V')"

lemma meanwhile_passes:
  assumes "passes Q V path new" "is_temp temp" "\<not> is_temp path"
  shows "meanwhile Q V temp path new"
  unfolding meanwhile_def
proof (intro allI impI)
  fix V' assume same: "\<forall>q. q \<noteq> temp \<and> q \<noteq> path \<longrightarrow> V' q = V q" and "V' path = V path \<or> V' path = Some new"
  moreover from same have "beside V V' {path}" using assms(2) by (auto simp: beside_def)
  ultimately show "Q V'" using assms(1) unfolding passes_def by blast
qed

text \<open>The outcome of a write of \<open>path\<close>: nothing but temporary names and \<open>path\<close> changes, and
  \<open>path\<close> only when the write succeeds.\<close>

definition wrote :: "files \<Rightarrow> (files \<Rightarrow> bool) \<Rightarrow> str \<Rightarrow> inode option \<Rightarrow> disk world \<Rightarrow> bool" where
  "wrote V Q path new w = (\<exists>V'. sees V' Q w \<and> beside V V' {path} \<and> V' path = new)"

lemma wrote_same: "sees V Q w \<Longrightarrow> wrote V Q path (V path) w"
  unfolding wrote_def by (intro exI [of _ V]) simp

lemma wrote_temp:
  assumes "sees (V(temp := x)) Q w" "is_temp temp" "temp \<noteq> path"
  shows "wrote V Q path (V path) w"
  using assms unfolding wrote_def beside_def by (intro exI [of _ "V(temp := x)"]) auto

lemma wrote_new:
  assumes "sees (V(temp := None, path \<mapsto> n)) Q w" "is_temp temp" "temp \<noteq> path"
  shows "wrote V Q path (Some n) w"
  using assms unfolding wrote_def beside_def by (intro exI [of _ "V(temp := None, path \<mapsto> n)"]) auto

lemma unlink_temp_run:
  assumes "unlinked (on_disk E) temp w = (r, w')" "sees (V(temp := x)) Q w"
    and "meanwhile Q V temp path new" "temp \<noteq> path"
  shows "\<exists>y. sees (V(temp := y)) Q w'"
proof -
  note M = meanwhileD [OF assms(3,4)]
  obtain r1 where t: "tries (d_unlink temp) w = (r1, w')"
    using assms(1) by (auto simp: unlinked_def attempted_def split: prod.splits)
  have "case r1 of Inl e \<Rightarrow> sees (V(temp := x)) Q w' \<and> (e = NOENT \<longrightarrow> (V(temp := x)) temp = None)
      | Inr _ \<Rightarrow> sees ((V(temp := x))(temp := None)) Q w'"
    by (rule unlink_run [OF t assms(2)]) (use M in simp_all)
  then show ?thesis by (cases r1) auto
qed

lemma attempted_then: "m w = (x, w1) \<Longrightarrow> and_then (attempted m) f w = f x w1"
  by (simp add: and_then_def attempted_def)

lemma write_atomic_run:
  assumes "write_atomic (on_disk E) dir path contents w = (r, w')" and "sees V Q w"
    and "passes Q V path (private_file (os_euid E) contents)" and "\<not> is_temp path"
  shows "wrote V Q path (case r of Inl _ \<Rightarrow> V path | Inr _ \<Rightarrow> Some (private_file (os_euid E) contents)) w'"
proof -
  let ?new = "private_file (os_euid E) contents"
  have Q0: "Q V" using assms(3) by (simp add: passes_def)
  from assms(1) [unfolded write_atomic_def] show ?thesis
  proof (cases rule: and_then_cases)
    case (stopped e)
    have "sees V Q w'" by (rule stillD [OF still_check_replaceable stopped(1) assms(2) Q0])
    with stopped(2) show ?thesis by (simp add: wrote_same)
  next
    case (went u w1)
    have s1: "sees V Q w1" by (rule stillD [OF still_check_replaceable went(1) assms(2) Q0])
    show ?thesis
    proof (cases "file_name path")
      case None
      with went(2) wrote_same [OF s1] show ?thesis by (auto simp: fail_def)
    next
      case (Some name)
      note T = temp_name_plain [OF conjunct1 [OF file_name_plain [OF Some]]]
      note other = temp_other [OF Some]
      from went(2) [unfolded Some option.case on_disk_simps Let_def] show ?thesis
      proof (cases rule: and_then_cases)
        case (stopped e)
        then show ?thesis by (simp add: calls_run)
      next
        case (went random w2)
        let ?temp = "joined dir (temp_name name (os_pid E) random)"
        have s2: "sees V Q w2"
          by (rule stillD [OF still_calls [OF keeps_calls(10)] went(1) s1 Q0])
        have tmp: "is_temp ?temp" "?temp \<noteq> path" using T(6) other by simp_all
        have M: "meanwhile Q V ?temp path ?new" by (rule meanwhile_passes [OF assms(3) tmp(1) assms(4)])
        obtain x w3 where rf: "replace_file (on_disk E) ?temp path contents w2 = (x, w3)" by fastforce
        note R = replace_file_run [OF rf s2 M tmp(2)]
        from went(2) rf show ?thesis
        proof (cases x)
          case (Inl e)
          with R obtain y where s3: "sees (V(?temp := y)) Q w3" by auto
          from went(2) rf Inl have
            "and_then (unlinked (on_disk E) ?temp) (\<lambda>_. fail (not_changed path)) w3 = (r, w')"
            by (simp add: attempted_then [where m = "replace_file (on_disk E) ?temp path contents" and w = w2, OF rf])
          then show ?thesis
          proof (cases rule: and_then_cases)
            case (stopped e)
            then show ?thesis by (auto simp: unlinked_def attempted_def split: prod.splits)
          next
            case (went u w4)
            obtain z where "sees (V(?temp := z)) Q w4" using unlink_temp_run [OF went(1) s3 M tmp(2)] by blast
            with wrote_temp [OF _ tmp] went(2) show ?thesis by (auto simp: fail_def)
          qed
        next
          case (Inr u)
          with R have s3: "sees (V(?temp := None, path \<mapsto> ?new)) Q w3" by auto
          have Q3: "Q (V(?temp := None, path \<mapsto> ?new))" using meanwhileD [OF M tmp(2)] by blast
          from went(2) rf Inr have run: "and_then (sync_dir (on_disk E) dir) (\<lambda>synced.
              ret (if synced then Durable else DirectoryNotSynced)) w3 = (r, w')"
            by (simp add: attempted_then [where m = "replace_file (on_disk E) ?temp path contents" and w = w2, OF rf])
          have "sees (V(?temp := None, path \<mapsto> ?new)) Q w'"
            by (rule stillD [OF still_and_then [OF still_sync_dir still_ret] run s3 Q3])
          moreover have "\<exists>v. r = Inr v"
            using run by (auto simp: and_then_def sync_dir_def attempted_def ret_def split: prod.splits)
          ultimately show ?thesis using wrote_new [OF _ tmp] by auto
        qed
      qed
    qed
  qed
qed

section \<open>Transactions\<close>

abbreviation disk_after :: "disk txn \<Rightarrow> disk" where
  "disk_after t \<equiv> outside (tx_world t)"

lemma in_tx_run:
  assumes "in_tx m t = (r, t')"
  obtains w' where "m (tx_world t) = (r, w')" "t' = t\<lparr>tx_world := w'\<rparr>"
  using assms by (auto simp: in_tx_def split: prod.splits)

lemma still_in_tx:
  assumes "in_tx m t = (r, t')" "still m" "sees V Q (tx_world t)" "Q V"
  shows "sees V Q (tx_world t') \<and> the_tx t' = the_tx t"
  using assms(1) by (auto elim!: in_tx_run dest: stillD [OF assms(2) _ assms(3,4)])

lemma tx_warn_run: "tx_warn path t = (Ok (), t\<lparr>the_tx := the_tx t\<lparr>tx_warnings := tx_warnings (the_tx t) @ [dir_sync_warning path]\<rparr>\<rparr>)"
  by (simp add: tx_warn_def with_tx_def modifies_def)

text \<open>A write of the transaction: the write, and an entry for the rollback when it succeeded.\<close>

lemma tx_write_run:
  assumes "tx_write (on_disk E) path contents previous t = (r, t')" and "sees V Q (tx_world t)"
    and "passes Q V path (private_file (os_euid E) contents)" and "\<not> is_temp path"
  shows "wrote V Q path (case r of Inl _ \<Rightarrow> V path | Inr _ \<Rightarrow> Some (private_file (os_euid E) contents)) (tx_world t')
    \<and> tx_store (the_tx t') = tx_store (the_tx t)
    \<and> tx_journal (the_tx t') = (case r of Inl _ \<Rightarrow> tx_journal (the_tx t)
        | Inr _ \<Rightarrow> \<lparr>je_path = path, je_previous = previous\<rparr> # tx_journal (the_tx t))"
  using assms(1) [unfolded tx_write_def]
proof (cases rule: and_then_cases)
  case (stopped e)
  then show ?thesis using wrote_same [OF assms(2)] by (auto simp: of_result_def)
next
  case (went u t1)
  then have "t1 = t" by (simp add: of_result_def)
  note went(2) [unfolded this reads_def Let_def and_then_def [of "\<lambda>s. (Inr ((tx_store \<circ> the_tx) s), s)"] prod.case sum.case]
  then show ?thesis
  proof (cases rule: and_then_cases)
    case (stopped e)
    from stopped(1) obtain w' where w: "write_atomic (on_disk E) (parent_or_root ((tx_store \<circ> the_tx) t) path) path contents
        (tx_world t) = (Err e, w')" "t' = t\<lparr>tx_world := w'\<rparr>" by (rule in_tx_run)
    from write_atomic_run [OF w(1) assms(2-4)] w(2) stopped(2) show ?thesis by simp
  next
    case (went saved t1)
    let ?new = "private_file (os_euid E) contents"
    from went(1) obtain w' where w: "write_atomic (on_disk E) (parent_or_root ((tx_store \<circ> the_tx) t) path) path contents
        (tx_world t) = (Ok saved, w')" "t1 = t\<lparr>tx_world := w'\<rparr>" by (rule in_tx_run)
    from write_atomic_run [OF w(1) assms(2-4)] obtain V1 where
        V1: "sees V1 Q w'" "beside V V1 {path}" "V1 path = Some ?new" by (auto simp: wrote_def)
    have Q1: "Q V1" using assms(3) V1 unfolding passes_def by blast
    obtain synced w2 where sync: "(sync_dir (on_disk E) (store_root ((tx_store \<circ> the_tx) t)) :: (disk world, cli_error, bool) prog) w' = (Inr synced, w2)"
      by (cases "(sync_dir (on_disk E) (store_root ((tx_store \<circ> the_tx) t)) :: (disk world, cli_error, bool) prog) w'")
        (auto simp: sync_dir_def and_then_def attempted_def ret_def split: prod.splits)
    have s2: "sees V1 Q w2" by (rule stillD [OF still_sync_dir sync V1(1) Q1])
    have "r = Inr () \<and> tx_world t' \<in> {w', w2} \<and> tx_store (the_tx t') = tx_store (the_tx t)
      \<and> tx_journal (the_tx t') = \<lparr>je_path = path, je_previous = previous\<rparr> # tx_journal (the_tx t)"
      using went(2) w(2) sync
      by (auto simp: and_then_def with_tx_def modifies_def in_tx_def ret_def tx_warn_run split: if_splits)
    with V1 s2 show ?thesis unfolding wrote_def by auto
  qed
qed

text \<open>Undoing one entry gives the file back what it held, or leaves it.\<close>

definition undone_file :: "nat \<Rightarrow> journal_entry \<Rightarrow> inode option" where
  "undone_file uid entry = map_option (private_file uid) (je_previous entry)"

lemma undo_entry_run:
  assumes "undo_entry (on_disk E) s entry w = (r, w')" and "sees V Q w"
    and "\<And>V'. beside V V' {je_path entry} \<Longrightarrow> V' (je_path entry) = V (je_path entry)
      \<or> V' (je_path entry) = undone_file (os_euid E) entry \<Longrightarrow> Q V'"
    and "\<not> is_temp (je_path entry)"
  shows "\<exists>b. r = Ok b \<and> wrote V Q (je_path entry)
    (if b then undone_file (os_euid E) entry else V (je_path entry)) w'"
proof (cases "je_previous entry")
  case None
  let ?p = "je_path entry"
  have Q: "Q V" "Q (V(?p := None))"
    using assms(3) by (auto simp: beside_def undone_file_def None)
  obtain r1 where t: "tries (d_unlink ?p) w = (r1, w')"
      and r: "r = Ok (case r1 of Inr _ \<Rightarrow> True | Inl e \<Rightarrow> e = NOENT)"
    using assms(1) None by (auto simp: undo_entry_def unlinked_def and_then_def attempted_def ret_def split: prod.splits)
  have U: "case r1 of Inl e \<Rightarrow> sees V Q w' \<and> (e = NOENT \<longrightarrow> V ?p = None) | Inr _ \<Rightarrow> sees (V(?p := None)) Q w'"
    by (rule unlink_run [OF t assms(2) Q])
  show ?thesis
  proof (cases r1)
    case (Inl e)
    with U r wrote_same [of V Q w' ?p] show ?thesis by (auto simp: undone_file_def None)
  next
    case (Inr u)
    with U have "wrote V Q ?p None w'" unfolding wrote_def by (intro exI [of _ "V(?p := None)"]) (auto simp: beside_def)
    with Inr r show ?thesis by (intro exI [of _ True]) (simp add: undone_file_def None)
  qed
next
  case (Some previous)
  let ?p = "je_path entry"
  obtain x where w: "write_atomic (on_disk E) (parent_or_root s ?p) ?p previous w = (x, w')" and r: "r = Ok (is_ok x)"
    using assms(1) Some by (auto simp: undo_entry_def and_then_def attempted_def ret_def split: prod.splits)
  have "passes Q V ?p (private_file (os_euid E) previous)"
    unfolding passes_def using assms(3) by (auto simp: undone_file_def Some)
  from write_atomic_run [OF w assms(2) this assms(4)] r show ?thesis
    by (cases x) (auto simp: undone_file_def Some is_ok_def)
qed

lemma tx_rollback_one:
  fixes r :: "'e + bool"
  assumes "tx_rollback (on_disk E) t = (r, t')" "tx_journal (the_tx t) = [entry]" and "sees V Q (tx_world t)"
    and "\<And>V'. beside V V' {je_path entry} \<Longrightarrow> V' (je_path entry) = V (je_path entry)
      \<or> V' (je_path entry) = undone_file (os_euid E) entry \<Longrightarrow> Q V'"
    and "\<not> is_temp (je_path entry)"
  shows "\<exists>b. r = Ok b \<and> wrote V Q (je_path entry)
    (if b then undone_file (os_euid E) entry else V (je_path entry)) (tx_world t')"
proof -
  obtain x :: "'e + bool" and w1 where
      u: "undo_entry (on_disk E) (tx_store (the_tx t)) entry (tx_world t) = (x, w1)" by fastforce
  from undo_entry_run [OF u assms(3-5)] obtain b where
      b: "x = Ok b" "wrote V Q (je_path entry) (if b then undone_file (os_euid E) entry else V (je_path entry)) w1"
    by blast
  have "r = Ok b \<and> tx_world t' = w1"
    using assms(1,2) u b(1)
    by (auto simp: tx_rollback_def reads_def with_tx_def modifies_def in_tx_def and_then_def ret_def)
  with b(2) show ?thesis by blast
qed

end
