(* ===== verification/StoreProps.thy ===== *)
theory StoreProps
  imports StoreTx
begin

text \<open>
  The locked parts of \<open>tenant create\<close> and \<open>tenant set\<close> on a disk: what they leave when they
  succeed, when they fail and when the program dies in the middle; and the wait for the lock.
\<close>

section \<open>Paths\<close>

lemma not_temp_joined: "t = a @ ''.toml'' \<Longrightarrow> \<not> is_temp (joined dir t)"
proof
  assume t: "t = a @ ''.toml''" and "is_temp (joined dir t)"
  then have "last (joined dir t) = CHR ''p''" by (auto simp: is_temp_def ends_with_ex)
  moreover have "last (joined dir t) = CHR ''l''" using t by (simp add: joined_def)
  ultimately show False by simp
qed

lemma valid_name_plain: "valid_tenant_name name \<Longrightarrow> CHR ''/'' \<notin> set name"
  by (auto simp: valid_tenant_name_def list_all_iff is_digit_def is_ascii_alnum_def code_def)

lemma store_paths:
  assumes "valid_tenant_name name"
  shows "\<not> is_temp (index_path s)" "\<not> is_temp (tenant_path s name)" "index_path s \<noteq> tenant_path s name"
proof -
  have i: "components (index_path s) = components (store_root s) @ [''config.toml'']"
    unfolding index_path_def index_file_def by (rule components_joined) auto
  have d: "components (tenants_dir s) = components (store_root s) @ [tenants_dir_name]"
    unfolding tenants_dir_def by (rule components_joined) (auto simp: tenants_dir_name_def)
  have "components (tenant_path s name) = components (tenants_dir s) @ [name @ ''.toml'']"
    unfolding tenant_path_def using valid_name_plain [OF assms] by (intro components_joined) (auto simp: Cons_eq_append_conv append_eq_Cons_conv)
  with i d show "index_path s \<noteq> tenant_path s name" by auto
  show "\<not> is_temp (index_path s)" unfolding index_path_def index_file_def by (rule not_temp_joined [of _ "''config''"]) simp
  show "\<not> is_temp (tenant_path s name)" unfolding tenant_path_def by (rule not_temp_joined) simp
qed

section \<open>\<open>tenant create\<close>\<close>

lemma of_result_cases:
  assumes "and_then (of_result x) f w = (r, w')"
  obtains (stopped) e where "x = Err e" "r = Err e" "w' = w" | (went) y where "x = Ok y" "f y w = (r, w')"
  using assms by (cases x) (auto simp: of_result_def and_then_def)

text \<open>The files a create may pass through.\<close>

definition creating :: "store \<Rightarrow> str \<Rightarrow> files \<Rightarrow> inode \<Rightarrow> files \<Rightarrow> bool" where
  "creating s name V0 new V =
     (beside V0 V {index_path s, tenant_path s name}
      \<and> (V (index_path s) = V0 (index_path s) \<or> V (tenant_path s name) = Some new))"

lemma create_locked_run:
  assumes run: "create_locked (on_disk E) L s name config tsg t = (r, t')"
    and valid: "valid_tenant_name name" and empty: "tx_journal (the_tx t) = []"
    and s0: "sees V0 (creating s name V0 (private_file (os_euid E) (config_toml config))) (tx_world t)"
  shows "\<exists>V. sees V (creating s name V0 (private_file (os_euid E) (config_toml config))) (tx_world t')
    \<and> beside V0 V {index_path s, tenant_path s name}
    \<and> (case r of Inl e \<Rightarrow> V (index_path s) = V0 (index_path s)
       | Inr _ \<Rightarrow> \<exists>ix. stored_index L V0 s ix \<and> check_new ix name = Ok ()
           \<and> V (index_path s) = Some (private_file (os_euid E) (index_toml (with_pin ix name tsg)))
           \<and> V (tenant_path s name) = Some (private_file (os_euid E) (config_toml config)))"
proof -
  let ?ip = "index_path s" and ?tp = "tenant_path s name"
  let ?T = "private_file (os_euid E) (config_toml config)"
  let ?Q = "creating s name V0 ?T"
  note P = store_paths [OF valid, of s]
  have Q0: "?Q V0" by (simp add: creating_def)
  have same: ?thesis if "sees V0 ?Q (tx_world t')" "r = Inl e" for e
    using that by (intro exI [of _ V0]) simp
  from run [unfolded create_locked_def] show ?thesis
  proof (cases rule: and_then_cases)
    case (stopped e)
    from still_in_tx [OF stopped(1) still_read_index s0 Q0] same stopped(2) show ?thesis by blast
  next
    case (went ix t1)
    from went(1) obtain w1 where ri: "read_index (on_disk E) L s (tx_world t) = (Ok ix, w1)" by (rule in_tx_run)
    note ix = read_index_run [OF ri s0 Q0]
    note s1 = still_in_tx [OF went(1) still_read_index s0 Q0]
    from went(2) show ?thesis
    proof (cases rule: of_result_cases)
      case (stopped e)
      with s1 same show ?thesis by simp
    next
      case (went u)
      note fresh = went(1)
      from went(2) [unfolded Let_def] show ?thesis
      proof (cases rule: and_then_cases)
        case (stopped e)
        from still_in_tx [OF stopped(1) still_check_commit conjunct1 [OF s1] Q0] same stopped(2) show ?thesis by blast
      next
        case (went u t2)
        note s2 = still_in_tx [OF went(1) still_check_commit conjunct1 [OF s1] Q0]
        have pass: "passes ?Q V0 ?tp ?T"
          using P unfolding passes_def creating_def beside_def by auto
        from went(2) show ?thesis
        proof (cases rule: and_then_cases)
          case (stopped e)
          from tx_write_run [OF stopped(1) conjunct1 [OF s2] pass P(2)] obtain V where
              "sees V ?Q (tx_world t')" "beside V0 V {?tp}" by (auto simp: wrote_def)
          with P stopped(2) show ?thesis by (intro exI [of _ V]) (simp add: beside_def)
        next
          case (went u t3)
          from tx_write_run [OF went(1) conjunct1 [OF s2] pass P(2)] obtain V1 where
              V1: "sees V1 ?Q (tx_world t3)" "beside V0 V1 {?tp}" "V1 ?tp = Some ?T"
            and j: "tx_journal (the_tx t3) = [\<lparr>je_path = ?tp, je_previous = None\<rparr>]"
            using s1 s2 empty by (auto simp: wrote_def)
          have i1: "V1 ?ip = V0 ?ip" using V1(2) P by (simp add: beside_def)
          let ?I = "private_file (os_euid E) (index_toml (with_pin ix name tsg))"
          have pass: "passes ?Q V1 ?ip ?I"
            using P V1 i1 unfolding passes_def creating_def beside_def by auto
          from went(2) obtain x t4 where
              w: "tx_write (on_disk E) ?ip (index_toml (with_pin ix name tsg)) None t3 = (x, t4)"
            and rest: "(case x of Inr _ \<Rightarrow> ret () | Inl e \<Rightarrow> and_then (tx_rollback (on_disk E)) (\<lambda>_. fail e)) t4 = (r, t')"
            by (rule attempted_then_cases)
          from tx_write_run [OF w V1(1) pass P(1)] obtain V2 where
              V2: "sees V2 ?Q (tx_world t4)" "beside V1 V2 {?ip}"
                "V2 ?ip = (case x of Inl _ \<Rightarrow> V1 ?ip | Inr _ \<Rightarrow> Some ?I)"
            and j2: "tx_journal (the_tx t4) = (case x of Inl _ \<Rightarrow> tx_journal (the_tx t3)
              | Inr _ \<Rightarrow> \<lparr>je_path = ?ip, je_previous = None\<rparr> # tx_journal (the_tx t3))"
            by (auto simp: wrote_def)
          have b2: "beside V0 V2 {?ip, ?tp}" using V1(2) V2(2) by (simp add: beside_def)
          show ?thesis
          proof (cases x)
            case (Inr u)
            have "V2 ?tp = V1 ?tp" using V2(2) P by (auto simp: beside_def)
            moreover have "r = Inr () \<and> t' = t4" using rest Inr by (simp add: ret_def)
            moreover have "check_new ix name = Ok ()" using fresh by simp
            ultimately show ?thesis using Inr V2 V1(3) b2 ix by (intro exI [of _ V2]) auto
          next
            case (Inl e)
            have i2: "V2 ?ip = V0 ?ip" using V2(3) Inl i1 by simp
            have j3: "tx_journal (the_tx t4) = [\<lparr>je_path = ?tp, je_previous = None\<rparr>]" using j2 j Inl by simp
            have ok: "?Q V'" if "beside V2 V' {je_path \<lparr>je_path = ?tp, je_previous = None\<rparr>}" for V'
              using that b2 i2 P unfolding creating_def beside_def by auto
            from rest Inl have "and_then (tx_rollback (on_disk E)) (\<lambda>_. fail e) t4 = (r, t')" by simp
            then show ?thesis
            proof (cases rule: and_then_cases)
              case (stopped e')
              from tx_rollback_one [OF stopped(1) j3 V2(1) ok] P(2) show ?thesis by auto
            next
              case (went b t5)
              from tx_rollback_one [OF went(1) j3 V2(1) ok] P(2) obtain V3 where
                  "sees V3 ?Q (tx_world t5)" "beside V2 V3 {?tp}" by (auto simp: wrote_def)
              with went(2) b2 i2 P show ?thesis by (intro exI [of _ V3]) (auto simp: fail_def beside_def)
            qed
          qed
        qed
      qed
    qed
  qed
qed

section \<open>\<open>tenant set\<close>\<close>

text \<open>The files a set may pass through: nothing but the tenant's file and the index, and the
  index only after the new tenant file is in place.\<close>

lemma holds_bytes_cong: "V' path = V path \<Longrightarrow> holds_bytes V path c \<Longrightarrow> holds_bytes V' path c"
  by (simp add: holds_bytes_def)

definition setting :: "store \<Rightarrow> str \<Rightarrow> files \<Rightarrow> files \<Rightarrow> bool" where
  "setting s name V0 V = beside V0 V {index_path s, tenant_path s name}"

lemma in_tx_OkE:
  assumes "in_tx m t = (Ok x, t')"
  obtains w' where "m (tx_world t) = (Ok x, w')" "t' = t\<lparr>tx_world := w'\<rparr>"
  using assms by (rule in_tx_run)

lemma set_write_run:
  assumes w: "tx_write (on_disk E) (tenant_path s name) contents previous t = (r, t')"
    and s0: "sees V0 (setting s name V0) (tx_world t)"
    and P: "\<not> is_temp (index_path s)" "\<not> is_temp (tenant_path s name)" "index_path s \<noteq> tenant_path s name"
  shows "\<exists>V. sees V (setting s name V0) (tx_world t') \<and> beside V0 V {tenant_path s name}
    \<and> V (tenant_path s name) = (case r of Inl _ \<Rightarrow> V0 (tenant_path s name)
        | Inr _ \<Rightarrow> Some (private_file (os_euid E) contents))
    \<and> tx_journal (the_tx t') = (case r of Inl _ \<Rightarrow> tx_journal (the_tx t)
        | Inr _ \<Rightarrow> \<lparr>je_path = tenant_path s name, je_previous = previous\<rparr> # tx_journal (the_tx t))"
proof -
  have "passes (setting s name V0) V0 (tenant_path s name) (private_file (os_euid E) contents)"
    by (auto simp: passes_def setting_def beside_def)
  from tx_write_run [OF w s0 this P(2)] show ?thesis unfolding wrote_def by blast
qed

definition kept :: "store \<Rightarrow> str \<Rightarrow> files \<Rightarrow> files \<Rightarrow> bool" where
  "kept s name V0 V =
     (V (index_path s) = V0 (index_path s)
      \<and> map_option i_bytes (V (tenant_path s name)) = map_option i_bytes (V0 (tenant_path s name)))"

lemma kept_refl [simp]: "kept s name V0 V0" by (simp add: kept_def)

lemma beside_kept:
  "\<lbrakk>beside V0 V {tenant_path s name}; \<not> is_temp (index_path s); index_path s \<noteq> tenant_path s name;
    V (tenant_path s name) = V0 (tenant_path s name)\<rbrakk> \<Longrightarrow> kept s name V0 V"
  by (simp add: kept_def beside_def)

text \<open>The part of a set that changes the pinned TSG too.\<close>

lemma set_tsg_run:
  assumes run: "and_then (in_tx (check_commit (on_disk E) s index_contents)) (\<lambda>_.
      and_then (tx_write (on_disk E) (tenant_path s name) contents (Some previous)) (\<lambda>_.
      and_then (attempted (tx_write (on_disk E) (index_path s) index_contents None)) (\<lambda>written.
      case written of
        Inr _ \<Rightarrow> ret ()
      | Inl (_ :: cli_error) \<Rightarrow>
          and_then (tx_rollback (on_disk E)) (\<lambda>restored. fail (set_failed s restored))))) t = (r, t')"
    and s0: "sees V0 (setting s name V0) (tx_world t)" and empty: "tx_journal (the_tx t) = []"
    and old: "holds_bytes V0 (tenant_path s name) previous"
    and P: "\<not> is_temp (index_path s)" "\<not> is_temp (tenant_path s name)" "index_path s \<noteq> tenant_path s name"
  shows "\<exists>V. sees V (setting s name V0) (tx_world t')
    \<and> (case r of
         Inl e \<Rightarrow> e = set_failed s False \<or> kept s name V0 V
       | Inr _ \<Rightarrow> V (tenant_path s name) = Some (private_file (os_euid E) contents)
           \<and> V (index_path s) = Some (private_file (os_euid E) index_contents))"
proof -
  let ?ip = "index_path s" and ?tp = "tenant_path s name" and ?Q = "setting s name V0"
  have Q0: "?Q V0" by (simp add: setting_def)
  from run show ?thesis
  proof (cases rule: and_then_cases)
    case (stopped e)
    from still_in_tx [OF stopped(1) still_check_commit s0 Q0] stopped(2) show ?thesis
      by (intro exI [of _ V0]) simp
  next
    case (went u t1)
    note s1 = still_in_tx [OF went(1) still_check_commit s0 Q0]
    from went(2) show ?thesis
    proof (cases rule: and_then_cases)
      case (stopped e)
      from set_write_run [OF stopped(1) conjunct1 [OF s1] P] obtain V where
          "sees V ?Q (tx_world t')" "beside V0 V {?tp}" "V ?tp = V0 ?tp" by auto
      with beside_kept [OF _ P(1,3)] stopped(2) show ?thesis by (intro exI [of _ V]) simp
    next
      case (went u t2)
      from set_write_run [OF went(1) conjunct1 [OF s1] P] obtain V1 where
          V1: "sees V1 ?Q (tx_world t2)" "beside V0 V1 {?tp}" "V1 ?tp = Some (private_file (os_euid E) contents)"
        and j: "tx_journal (the_tx t2) = [\<lparr>je_path = ?tp, je_previous = Some previous\<rparr>]"
        using s1 empty by auto
      have i1: "V1 ?ip = V0 ?ip" using V1(2) P by (simp add: beside_def)
      let ?I = "private_file (os_euid E) index_contents"
      have pass: "passes ?Q V1 ?ip ?I"
        using V1(2) by (auto simp: passes_def setting_def beside_def)
      from went(2) obtain x t3 where
          w: "tx_write (on_disk E) ?ip index_contents None t2 = (x, t3)"
        and rest: "(case x of Inr _ \<Rightarrow> ret () | Inl (_ :: cli_error) \<Rightarrow>
            and_then (tx_rollback (on_disk E)) (\<lambda>restored. fail (set_failed s restored))) t3 = (r, t')"
        by (rule attempted_then_cases)
      from tx_write_run [OF w V1(1) pass P(1)] obtain V2 where
          V2: "sees V2 ?Q (tx_world t3)" "beside V1 V2 {?ip}"
            "V2 ?ip = (case x of Inl _ \<Rightarrow> V1 ?ip | Inr _ \<Rightarrow> Some ?I)"
        and j2: "tx_journal (the_tx t3) = (case x of Inl _ \<Rightarrow> tx_journal (the_tx t2)
          | Inr _ \<Rightarrow> \<lparr>je_path = ?ip, je_previous = None\<rparr> # tx_journal (the_tx t2))"
        by (auto simp: wrote_def)
      have t2: "V2 ?tp = V1 ?tp" using V2(2) P by (auto simp: beside_def)
      show ?thesis
      proof (cases x)
        case (Inr u)
        moreover have "r = Inr () \<and> t' = t3" using rest Inr by (simp add: ret_def)
        ultimately show ?thesis using V2 V1(3) t2 by (intro exI [of _ V2]) auto
      next
        case (Inl e)
        let ?entry = "\<lparr>je_path = ?tp, je_previous = Some previous\<rparr>"
        have i2: "V2 ?ip = V0 ?ip" using V2(3) Inl i1 by simp
        have j3: "tx_journal (the_tx t3) = [?entry]" using j2 j Inl by simp
        have ok: "?Q V'" if "beside V2 V' {je_path ?entry}" for V'
          using that V1(2) V2(2) unfolding setting_def beside_def by auto
        from rest Inl have "and_then (tx_rollback (on_disk E)) (\<lambda>restored. fail (set_failed s restored)) t3 = (r, t')"
          by simp
        then show ?thesis
        proof (cases rule: and_then_cases)
          case (stopped e')
          from tx_rollback_one [OF stopped(1) j3 V2(1) ok] P(2) show ?thesis by auto
        next
          case (went b t4)
          from tx_rollback_one [OF went(1) j3 V2(1) ok] P(2) obtain V3 where
              V3: "sees V3 ?Q (tx_world t4)" "beside V2 V3 {?tp}"
                "V3 ?tp = (if b then undone_file (os_euid E) ?entry else V2 ?tp)" by (auto simp: wrote_def)
          have "V3 ?ip = V0 ?ip" using V3(2) P i2 by (simp add: beside_def)
          moreover have "b \<Longrightarrow> map_option i_bytes (V3 ?tp) = map_option i_bytes (V0 ?tp)"
            using V3(3) old by (auto simp: undone_file_def private_file_def holds_bytes_def)
          ultimately show ?thesis using went(2) V3(1)
            by (intro exI [of _ V3]) (cases b, auto simp: fail_def kept_def)
        qed
      qed
    qed
  qed
qed

lemma set_locked_run:
  assumes run: "set_locked (on_disk E) L s name key v t = (r, t')"
    and valid: "valid_tenant_name name" and empty: "tx_journal (the_tx t) = []"
    and s0: "sees V0 (setting s name V0) (tx_world t)"
  shows "\<exists>V. sees V (setting s name V0) (tx_world t')
    \<and> (case r of
         Inl e \<Rightarrow> e = set_failed s False \<or> kept s name V0 V
       | Inr _ \<Rightarrow> \<exists>c config. holds_bytes V0 (tenant_path s name) c \<and> config_parse L c = Ok config
           \<and> V (tenant_path s name) = Some (private_file (os_euid E) (config_toml (config_set key v config)))
           \<and> (if key = ''mgmtTsgId''
              then \<exists>ix. stored_index L V0 s ix
                \<and> V (index_path s) = Some (private_file (os_euid E) (index_toml (with_pin ix name (value_text v))))
              else V (index_path s) = V0 (index_path s)))"
proof -
  let ?ip = "index_path s" and ?tp = "tenant_path s name" and ?Q = "setting s name V0"
  note P = store_paths [OF valid, of s]
  have Q0: "?Q V0" by (simp add: setting_def)
  have same: ?thesis if "sees V0 ?Q (tx_world t')" "r = Inl e" for e
    using that by (intro exI [of _ V0]) simp
  from run [unfolded set_locked_def Let_def] show ?thesis
  proof (cases rule: and_then_cases)
    case (stopped e)
    from still_in_tx [OF stopped(1) still_write_view s0 Q0] same stopped(2) show ?thesis by blast
  next
    case (went lv t1)
    from went(1) obtain w1 where wv: "write_view (on_disk E) L s (tx_world t) = (Ok lv, w1)" by (rule in_tx_run)
    note view = write_view_run [OF wv s0 Q0]
    note s1 = still_in_tx [OF went(1) still_write_view s0 Q0]
    from went(2) show ?thesis
    proof (cases rule: and_then_cases)
      case (stopped e)
      with s1 same show ?thesis by (auto simp: or_fail_def fail_def ret_def split: option.splits)
    next
      case (went sel t2)
      have t2: "t2 = t1" and sel: "registered lv name = Some sel"
        using went(1) by (auto simp: or_fail_def fail_def ret_def split: option.splits)
      have name: "sl_name sel = name" using sel
        by (auto simp: registered_def view_selected_def split: option.splits if_splits)
      from went(2) [unfolded t2] show ?thesis
      proof (cases rule: and_then_cases)
        case (stopped e)
        from still_in_tx [OF stopped(1) still_load_for_write conjunct1 [OF s1] Q0] same stopped(2) show ?thesis by blast
      next
        case (went loaded t3)
        obtain config previous where loaded: "loaded = (config, previous)" by fastforce
        from went(1) obtain w2 where "load_for_write (on_disk E) L lv sel (key \<noteq> ''mgmtTsgId'') (tx_world t1) = (Ok (config, previous), w2)"
          unfolding loaded by (rule in_tx_run)
        from load_for_write_run [OF this conjunct1 [OF s1] Q0]
        have old: "holds_bytes V0 ?tp previous" "config_parse L previous = Ok config" using view name by simp_all
        note s3 = still_in_tx [OF went(1) still_load_for_write conjunct1 [OF s1] Q0]
        have j3: "tx_journal (the_tx t3) = []" using s1 s3 empty by simp
        let ?contents = "config_toml (config_set key v config)"
        have body: "(if key \<noteq> ''mgmtTsgId'' then tx_write (on_disk E) ?tp ?contents (Some previous)
            else
              let index_contents = index_toml (with_pin (vw_index lv) name (value_text v)) in
              and_then (in_tx (check_commit (on_disk E) s index_contents)) (\<lambda>_.
              and_then (tx_write (on_disk E) ?tp ?contents (Some previous)) (\<lambda>_.
              and_then (attempted (tx_write (on_disk E) ?ip index_contents None)) (\<lambda>written.
              case written of
                Inr _ \<Rightarrow> ret ()
              | Inl (_ :: cli_error) \<Rightarrow>
                  and_then (tx_rollback (on_disk E)) (\<lambda>restored. fail (set_failed s restored)))))) t3 = (r, t')"
          using went(2) unfolding loaded prod.case Let_def .
        show ?thesis
        proof (cases "key = ''mgmtTsgId''")
          case False
          with body have w: "tx_write (on_disk E) ?tp ?contents (Some previous) t3 = (r, t')" by simp
          from set_write_run [OF w conjunct1 [OF s3] P] obtain V where
              V: "sees V ?Q (tx_world t')" "beside V0 V {?tp}"
                "V ?tp = (case r of Inl _ \<Rightarrow> V0 ?tp | Inr _ \<Rightarrow> Some (private_file (os_euid E) ?contents))"
            by blast
          have "V ?ip = V0 ?ip" using V(2) P by (simp add: beside_def)
          with V beside_kept [OF V(2) P(1,3)] old False show ?thesis
            by (intro exI [of _ V]) (cases r, auto)
        next
          case True
          then have pin: "\<not> key \<noteq> ''mgmtTsgId''" by simp
          have "and_then (in_tx (check_commit (on_disk E) s (index_toml (with_pin (vw_index lv) name (value_text v))))) (\<lambda>_.
              and_then (tx_write (on_disk E) ?tp ?contents (Some previous)) (\<lambda>_.
              and_then (attempted (tx_write (on_disk E) ?ip (index_toml (with_pin (vw_index lv) name (value_text v))) None)) (\<lambda>written.
              case written of
                Inr _ \<Rightarrow> ret ()
              | Inl (_ :: cli_error) \<Rightarrow>
                  and_then (tx_rollback (on_disk E)) (\<lambda>restored. fail (set_failed s restored))))) t3 = (r, t')"
            using body unfolding if_not_P [OF pin] Let_def .
          from set_tsg_run [OF this conjunct1 [OF s3] j3 old(1) P] True view old show ?thesis
            by (cases r) auto
        qed
      qed
    qed
  qed
qed

section \<open>The properties\<close>

text \<open>A record of the past begins: no state yet.\<close>

definition fresh_disk :: "disk \<Rightarrow> bool" where
  "fresh_disk d = (sound_disk d \<and> dk_past d = [])"

lemma fresh_sees: "fresh_disk (disk_after t) \<Longrightarrow> sees (files_of (disk_after t)) Q (tx_world t)"
  by (simp add: fresh_disk_def sees_def)

text \<open>A machine and a disk with an empty store in \<open>/c\<close>, whose calls fail as \<open>faults\<close> says.\<close>

definition machine :: "disk os" where
  "machine = \<lparr>
     os_lstat = d_lstat, os_stat = d_lstat, os_canonicalize = (\<lambda>p d. (Ok p, d)),
     os_create_dirs = d_create_dirs 501, os_open_dir = d_open_dir, os_create_excl = d_create_excl 501,
     os_open_read = d_open_read, os_open_rdwr = d_open_rdwr, os_fchmod = d_fchmod, os_write_all = d_write_all,
     os_sync_all = (\<lambda>_. d_nothing), os_fstat = d_fstat, os_read = d_read, os_rename = d_rename,
     os_unlink = d_unlink, os_sync_dir = d_sync_dir, os_read_dir = d_read_dir, os_flock = (\<lambda>_. d_nothing),
     os_truncate = d_truncate, os_close = (\<lambda>_. d_nothing), os_now = d_ask disk_now,
     os_monotonic = d_ask dk_time, os_random = d_ask (\<lambda>d. dk_random d (dk_calls d)),
     os_cancelled = d_ask (\<lambda>d. dk_cancelled d (dk_calls d)), os_sleep = d_sleep,
     os_submit = (\<lambda>_ d. ((Ok \<lparr>rc_scan_id = [], rc_report_id = None\<rparr>, None), d)),
     os_results = (\<lambda>_ d. (Ok [], d)), os_reports = (\<lambda>_ d. (Ok [], d)),
     os_euid = 501, os_pid = 7, os_host = ''host'', os_serialise = (\<lambda>_. None), os_from_slice = (\<lambda>_. None),
     os_from_value = (\<lambda>_. None),
     os_sdk = \<lparr>sdk_build = (\<lambda>_. True), sdk_size = (\<lambda>_. None), sdk_max_request = 0\<rparr>, os_js_number = (\<lambda>_. [])\<rparr>"

definition new_disk :: "(nat \<Rightarrow> errno option) \<Rightarrow> disk" where
  "new_disk faults = \<lparr>dk_names = [(''/c'', 0), (''/c/tenants'', 1)],
     dk_nodes = (\<lambda>_. \<lparr>i_kind = Directory, i_uid = 501, i_mode = 448, i_bytes = []\<rparr>), dk_next = 2,
     dk_fds = (\<lambda>_. 0), dk_next_fd = 3, dk_calls = 0, dk_time = 0, dk_faults = faults, dk_delays = (\<lambda>_. 1),
     dk_partial = (\<lambda>_. 2), dk_random = (\<lambda>_. ''12345678''), dk_cancelled = (\<lambda>_. False), dk_past = []\<rparr>"

definition new_tx :: "(nat \<Rightarrow> errno option) \<Rightarrow> disk txn" where
  "new_tx faults = \<lparr>the_tx = \<lparr>tx_store = \<lparr>store_root = ''/c''\<rparr>, tx_lock = Some 3, tx_created_tenants = False,
       tx_journal = [], tx_warnings = []\<rparr>,
     tx_world = \<lparr>outside = new_disk faults, trace = []\<rparr>\<rparr>"

definition no_libs :: libs where
  "no_libs = \<lparr>lib_toml = (\<lambda>_. None), lib_url = (\<lambda>_. None), lib_endpoint = (\<lambda>_. False)\<rparr>"

lemma new_tx_ready: "tx_journal (the_tx (new_tx faults)) = []" "fresh_disk (disk_after (new_tx faults))"
  by (auto simp: new_tx_def new_disk_def fresh_disk_def sound_disk_def)

text \<open>C13: The wait for the store's lock ends: whoever holds it, however long every call takes and whichever
  fails, \<open>acquire\<close> returns an answer of its own within the fuel.\<close>

theorem lock_wait_ends: "fst (acquire (on_disk E) s (status_waiter (on_disk E) C) w) \<noteq> Ok None"
  unfolding acquire_def by (rule acquire_with_ends [OF patient_status_waiter]) simp

text \<open>C12: An atomic write is all or nothing. On success the file holds exactly the bytes, private to its
  owner; on an error it is what it was; in every state a crash can leave it holds the old or
  the new bytes, and no other name has changed, the write's own temporary file apart.\<close>

theorem atomic_write_is_all_or_nothing:
  assumes "fresh_disk (outside w)" and "\<not> is_temp path"
  shows "case write_atomic (on_disk E) dir path contents w of (r, w') \<Rightarrow>
      files_of (outside w') path = (case r of Inl _ \<Rightarrow> files_of (outside w) path
        | Inr _ \<Rightarrow> Some (private_file (os_euid E) contents))
      \<and> list_all (\<lambda>V. beside (files_of (outside w)) V {path}
          \<and> (V path = files_of (outside w) path \<or> V path = Some (private_file (os_euid E) contents)))
        (files_of (outside w') # dk_past (outside w'))"
proof -
  let ?V = "files_of (outside w)" and ?new = "private_file (os_euid E) contents"
  let ?Q = "\<lambda>V. beside ?V V {path} \<and> (V path = ?V path \<or> V path = Some ?new)"
  obtain r w' where run: "write_atomic (on_disk E) dir path contents w = (r, w')" by fastforce
  have "sees ?V ?Q w" using assms(1) by (simp add: fresh_disk_def sees_def)
  moreover have "passes ?Q ?V path ?new" by (simp add: passes_def)
  ultimately have "wrote ?V ?Q path (case r of Inl _ \<Rightarrow> ?V path | Inr _ \<Rightarrow> Some ?new) w'"
    using write_atomic_run [OF run _ _ assms(2)] by blast
  then show ?thesis unfolding run wrote_def sees_def by (cases r) (auto simp: list_all_iff)
qed

theorem atomic_write_is_all_or_nothing_witness:
  "case write_atomic (on_disk machine) ''/c'' ''/c/config.toml'' ''x'' (tx_world (new_tx (\<lambda>_. None))) of (r, w') \<Rightarrow>
      files_of (outside w') ''/c/config.toml'' = (case r of
          Inl _ \<Rightarrow> files_of (disk_after (new_tx (\<lambda>_. None))) ''/c/config.toml''
        | Inr _ \<Rightarrow> Some (private_file (os_euid machine) ''x''))
      \<and> list_all (\<lambda>V. beside (files_of (disk_after (new_tx (\<lambda>_. None)))) V {''/c/config.toml''}
          \<and> (V ''/c/config.toml'' = files_of (disk_after (new_tx (\<lambda>_. None))) ''/c/config.toml''
             \<or> V ''/c/config.toml'' = Some (private_file (os_euid machine) ''x'')))
        (files_of (outside w') # dk_past (outside w'))"
  by (rule atomic_write_is_all_or_nothing [OF new_tx_ready(2)]) (simp add: is_temp_def ends_with_def)

text \<open>C10: A create either registers the tenant or leaves the registry as it was. When it succeeds, the registry
  is the old one with the new name and its TSG, a name that was free, and the tenant's file
  holds the new configuration; when it fails, whatever fails, the registry file is untouched.\<close>

theorem create_registers_or_leaves_registry:
  assumes "valid_tenant_name name" and "tx_journal (the_tx t) = []" and "fresh_disk (disk_after t)"
  shows "case create_locked (on_disk E) L s name config tsg t of (r, t') \<Rightarrow>
      (case r of
         Inl _ \<Rightarrow> files_of (disk_after t') (index_path s) = files_of (disk_after t) (index_path s)
       | Inr _ \<Rightarrow> \<exists>ix. stored_index L (files_of (disk_after t)) s ix \<and> check_new ix name = Ok ()
           \<and> files_of (disk_after t') (index_path s)
               = Some (private_file (os_euid E) (index_toml (with_pin ix name tsg)))
           \<and> files_of (disk_after t') (tenant_path s name)
               = Some (private_file (os_euid E) (config_toml config)))"
proof -
  obtain r t' where run: "create_locked (on_disk E) L s name config tsg t = (r, t')" by fastforce
  from create_locked_run [OF run assms(1,2) fresh_sees [OF assms(3)]] show ?thesis
    unfolding run sees_def by (cases r) auto
qed

theorem create_registers_or_leaves_registry_witness:
  "case create_locked (on_disk machine) no_libs \<lparr>store_root = ''/c''\<rparr> ''a'' [] ''1'' (new_tx (\<lambda>_. None)) of (r, t') \<Rightarrow>
      (case r of
         Inl _ \<Rightarrow> files_of (disk_after t') (index_path \<lparr>store_root = ''/c''\<rparr>)
             = files_of (disk_after (new_tx (\<lambda>_. None))) (index_path \<lparr>store_root = ''/c''\<rparr>)
       | Inr _ \<Rightarrow> \<exists>ix. stored_index no_libs (files_of (disk_after (new_tx (\<lambda>_. None)))) \<lparr>store_root = ''/c''\<rparr> ix
           \<and> check_new ix ''a'' = Ok ()
           \<and> files_of (disk_after t') (index_path \<lparr>store_root = ''/c''\<rparr>)
               = Some (private_file (os_euid machine) (index_toml (with_pin ix ''a'' ''1'')))
           \<and> files_of (disk_after t') (tenant_path \<lparr>store_root = ''/c''\<rparr> ''a'')
               = Some (private_file (os_euid machine) (config_toml [])))"
  by (rule create_registers_or_leaves_registry [OF _ new_tx_ready])
    (simp add: valid_tenant_name_def is_ascii_alnum_def is_digit_def code_def)

text \<open>C9: A create that dies at any point leaves no registered tenant without its file: in every state a crash
  can leave, the registry is the old one or the tenant's file is complete, and no other name
  than these two and temporary files has changed.\<close>

theorem crashed_create_leaves_no_half_tenant:
  assumes "valid_tenant_name name" and "tx_journal (the_tx t) = []" and "fresh_disk (disk_after t)"
  shows "list_all (\<lambda>V. beside (files_of (disk_after t)) V {index_path s, tenant_path s name}
      \<and> (V (index_path s) = files_of (disk_after t) (index_path s)
         \<or> V (tenant_path s name) = Some (private_file (os_euid E) (config_toml config))))
    (dk_past (disk_after (snd (create_locked (on_disk E) L s name config tsg t))))"
proof -
  obtain r t' where run: "create_locked (on_disk E) L s name config tsg t = (r, t')" by fastforce
  from create_locked_run [OF run assms(1,2) fresh_sees [OF assms(3)]] show ?thesis
    unfolding run sees_def by (auto simp: list_all_iff creating_def)
qed

theorem crashed_create_leaves_no_half_tenant_witness:
  "list_all (\<lambda>V. beside (files_of (disk_after (new_tx (\<lambda>n. if n = 20 then Some OtherErrno else None)))) V
       {index_path \<lparr>store_root = ''/c''\<rparr>, tenant_path \<lparr>store_root = ''/c''\<rparr> ''a''}
      \<and> (V (index_path \<lparr>store_root = ''/c''\<rparr>)
           = files_of (disk_after (new_tx (\<lambda>n. if n = 20 then Some OtherErrno else None))) (index_path \<lparr>store_root = ''/c''\<rparr>)
         \<or> V (tenant_path \<lparr>store_root = ''/c''\<rparr> ''a'') = Some (private_file (os_euid machine) (config_toml []))))
    (dk_past (disk_after (snd (create_locked (on_disk machine) no_libs \<lparr>store_root = ''/c''\<rparr> ''a'' [] ''1''
      (new_tx (\<lambda>n. if n = 20 then Some OtherErrno else None))))))"
  by (rule crashed_create_leaves_no_half_tenant [OF _ new_tx_ready])
    (simp add: valid_tenant_name_def is_ascii_alnum_def is_digit_def code_def)

text \<open>C11: A set that fails without asking to be run again changed nothing: the registry is untouched and the
  tenant's file holds the bytes it held, restored by the rollback where it had been written.\<close>

theorem failed_set_tells_what_it_left:
  assumes "valid_tenant_name name" and "tx_journal (the_tx t) = []" and "fresh_disk (disk_after t)"
  shows "case set_locked (on_disk E) L s name key v t of (r, t') \<Rightarrow>
      (case r of
         Inl e \<Rightarrow> e = set_failed s False
           \<or> files_of (disk_after t') (index_path s) = files_of (disk_after t) (index_path s)
             \<and> map_option i_bytes (files_of (disk_after t') (tenant_path s name))
               = map_option i_bytes (files_of (disk_after t) (tenant_path s name))
       | Inr _ \<Rightarrow> \<exists>c config. holds_bytes (files_of (disk_after t)) (tenant_path s name) c
           \<and> config_parse L c = Ok config
           \<and> files_of (disk_after t') (tenant_path s name)
               = Some (private_file (os_euid E) (config_toml (config_set key v config))))"
proof -
  obtain r t' where run: "set_locked (on_disk E) L s name key v t = (r, t')" by fastforce
  from set_locked_run [OF run assms(1,2) fresh_sees [OF assms(3)]] show ?thesis
    unfolding run sees_def kept_def by (cases r) auto
qed

theorem failed_set_tells_what_it_left_witness:
  "case set_locked (on_disk machine) no_libs \<lparr>store_root = ''/c''\<rparr> ''a'' ''mgmtTsgId'' (CText ''2'') (new_tx (\<lambda>_. None)) of (r, t') \<Rightarrow>
      (case r of
         Inl e \<Rightarrow> e = set_failed \<lparr>store_root = ''/c''\<rparr> False
           \<or> files_of (disk_after t') (index_path \<lparr>store_root = ''/c''\<rparr>)
               = files_of (disk_after (new_tx (\<lambda>_. None))) (index_path \<lparr>store_root = ''/c''\<rparr>)
             \<and> map_option i_bytes (files_of (disk_after t') (tenant_path \<lparr>store_root = ''/c''\<rparr> ''a''))
               = map_option i_bytes (files_of (disk_after (new_tx (\<lambda>_. None))) (tenant_path \<lparr>store_root = ''/c''\<rparr> ''a''))
       | Inr _ \<Rightarrow> \<exists>c config. holds_bytes (files_of (disk_after (new_tx (\<lambda>_. None)))) (tenant_path \<lparr>store_root = ''/c''\<rparr> ''a'') c
           \<and> config_parse no_libs c = Ok config
           \<and> files_of (disk_after t') (tenant_path \<lparr>store_root = ''/c''\<rparr> ''a'')
               = Some (private_file (os_euid machine) (config_toml (config_set ''mgmtTsgId'' (CText ''2'') config))))"
  by (rule failed_set_tells_what_it_left [OF _ new_tx_ready])
    (simp add: valid_tenant_name_def is_ascii_alnum_def is_digit_def code_def)

end
