(* ===== verification/TenantProps.thy ===== *)
theory TenantProps
  imports TomlCorrect StoreProps
begin

text \<open>
  The properties of the tenant registry, of the tenant files and of the prompts that read their
  values.
\<close>

definition fragment_libs :: libs where
  "fragment_libs = \<lparr>lib_toml = (\<lambda>doc. if valid_utf8 doc then map_option ordered_table (toml_fragment doc) else None), lib_url = (\<lambda>_. None), lib_endpoint = (\<lambda>_. False)\<rparr>"

lemma fragment_reads: "reads_toml fragment_libs"
  by (simp add: reads_toml_def fragment_libs_def)

definition one_tenant :: index where
  "one_tenant = \<lparr>ix_exists = True, ix_active = Some ''a'', ix_tenants = [(''a'', ''1'')]\<rparr>"

lemma one_tenant_ok: "index_ok one_tenant" "pins_utf8 one_tenant"
  by (simp_all add: one_tenant_def pins_utf8_def index_ok_def names_distinct_def pinned_def max_tenants_def valid_tenant_name_def
      is_ascii_alnum_def is_digit_def code_def)

text \<open>The registry reads back as it was written: with any reader of TOML, \<open>index_toml\<close> of a registry that
  satisfies the rules of the reader is parsed to the same selection and the same pinned TSGs,
  whatever characters they hold.\<close>

theorem registry_reads_back:
  assumes "reads_toml L" and "index_ok ix" and "pins_utf8 ix"
  shows "index_parse L (index_toml ix) = Some (ix\<lparr>ix_exists := True\<rparr>)"
  using assms by (rule index_reads_back)

theorem registry_reads_back_witness:
  "index_parse fragment_libs (index_toml one_tenant) = Some (one_tenant\<lparr>ix_exists := True\<rparr>)"
  by (rule registry_reads_back [OF fragment_reads one_tenant_ok])

text \<open>A registration keeps the registry valid: from any registry the program has read, adding a name the
  checks of \<open>create\<close> accept gives one that its reader accepts: sorted, at most a thousand
  tenants, no two names that differ only in case, the selection registered.\<close>

theorem registration_keeps_registry_valid:
  assumes "index_parse L input = Some ix" and "check_new ix name = Ok ()" and "valid_tenant_name name" "tsg \<noteq> []"
  shows "index_ok (with_pin ix name tsg)"
  using with_new_pin_ok [OF parsed_index_ok [OF assms(1)] assms(2-4)] .

theorem registration_keeps_registry_valid_witness:
  "index_ok (with_pin (one_tenant\<lparr>ix_exists := True\<rparr>) ''b'' ''2'')"
proof (rule registration_keeps_registry_valid)
  show "index_parse fragment_libs (index_toml one_tenant) = Some (one_tenant\<lparr>ix_exists := True\<rparr>)"
    by (rule index_reads_back [OF fragment_reads one_tenant_ok])
  show "check_new (one_tenant\<lparr>ix_exists := True\<rparr>) ''b'' = Ok ()"
    by (simp add: one_tenant_def check_new_def index_tsg_def pinned_def case_conflict_def index_names_def max_tenants_def
        eq_ignore_ascii_case_def ascii_lower_def lower_byte_def code_def)
qed (simp_all add: valid_tenant_name_def is_ascii_alnum_def is_digit_def code_def)

lemma written_value_utf8:
  "write_rule L tenant key s = Ok v \<Longrightarrow> valid_utf8 s \<Longrightarrow> case v of CText t \<Rightarrow> valid_utf8 t | CInteger _ \<Rightarrow> True"
  by (auto simp: write_rule_def written_integer_def split: if_splits rule.splits option.splits)

lemma config_set_utf8:
  "texts_utf8 config \<Longrightarrow> (case v of CText t \<Rightarrow> valid_utf8 t | CInteger _ \<Rightarrow> True) \<Longrightarrow> texts_utf8 (config_set key v config)"
  by (auto simp: texts_utf8_def list_all_iff config_set_def)

text \<open>C29: What \<open>tenant set\<close> saves, every later command reads: a value the command line accepts for a key of
  the schema, set in a configuration that was read, gives a file that parses without a
  complaint to exactly that configuration. The value and the texts of the configuration are Rust
  strings, so UTF-8; the parser is asked to read UTF-8 texts of the fragment of TOML as its specification says,
  into tables in the byte order of their keys.\<close>

theorem saved_config_reads_back:
  assumes "reads_toml L" and "config_parse L input = Ok config" and "schema_key key = Some key"
    and "write_rule L tenant key s = Ok v" and "texts_utf8 config" "valid_utf8 s"
  shows "config_parse L (config_toml (config_set key v config)) = Ok (config_set key v config)"
proof (rule config_reads_back [OF assms(1)])
  have key: "key \<in> set schema_keys" using assms(3) by (simp add: schema_key_def split: if_splits)
  show "config_ok L (config_set key v config)"
    by (rule config_set_ok [OF parsed_config_ok [OF assms(2)] key written_value_is_read [OF assms(4) key]])
  show "texts_utf8 (config_set key v config)" by (rule config_set_utf8 [OF assms(5) written_value_utf8 [OF assms(4,6)]])
qed

theorem saved_config_reads_back_witness:
  "config_parse fragment_libs (config_toml (config_set ''mgmtTsgId'' (CText ''12'') []))
    = Ok (config_set ''mgmtTsgId'' (CText ''12'') [])"
proof (rule saved_config_reads_back [OF fragment_reads])
  show "config_parse fragment_libs [] = Ok []"
    by (simp add: config_parse_def fragment_libs_def toml_fragment_def toml_line_def schema_keys_def table_get_def
        ordered_table_def in_key_order_def)
  show "texts_utf8 []" by (simp add: texts_utf8_def)
  show "valid_utf8 ''12''" by code_simp
  show "schema_key ''mgmtTsgId'' = Some ''mgmtTsgId''" by (simp add: schema_key_def schema_keys_def)
  show "write_rule fragment_libs ''a'' ''mgmtTsgId'' ''12'' = Ok (CText ''12'')"
    by (simp add: write_rule_def js_trim_def is_js_whitespace_def is_control_def code_def is_digit_def)
qed

text \<open>A prompt reads a line the same way however the terminal delivers it: the line returned, too long or
  not, and the bytes left for the next prompt depend only on the bytes, not on where the
  reads cut them or how often they were interrupted.\<close>

theorem prompt_line_ignores_chunks:
  assumes "list_all (\<lambda>c. c = Retry \<or> (\<exists>b. c = Filled b \<and> b \<noteq> [])) cs"
  shows "case prompt_line cs of (l, rest) \<Rightarrow>
    l = whole_line (filled_bytes cs) \<and> filled_bytes rest = after_line (filled_bytes cs)"
proof -
  have "whole_after [] False s = whole_line s" for s by (simp add: whole_after_def whole_line_def)
  with read_line_whole [OF assms, of "[]" False] show ?thesis by (auto simp: prompt_line_def)
qed

theorem prompt_line_ignores_chunks_witness:
  "case prompt_line [Filled ''ab'', Retry, Filled (''c'' @ nl @ ''d'')] of (l, rest) \<Rightarrow>
    l = whole_line (filled_bytes [Filled ''ab'', Retry, Filled (''c'' @ nl @ ''d'')])
    \<and> filled_bytes rest = after_line (filled_bytes [Filled ''ab'', Retry, Filled (''c'' @ nl @ ''d'')])"
  by (rule prompt_line_ignores_chunks) simp

end
