(* ===== verification/PolicyCompare.thy ===== *)
theory PolicyCompare
  imports TopicPolicy
begin

text \<open>
  \<open>src/runtime/transfer/policy.rs\<close>: the directional comparison of a requested policy with its
  read-back. What the walk pushes is returned: the paths of the accepted server defaults and of the
  differences, in the order of the walk. \<open>None\<close> is JavaScript's \<open>undefined\<close>.
\<close>

section \<open>Numbers as doubles\<close>

text \<open>
  serde_json's \<open>as_f64\<close>: an integer of more than 53 bits is rounded to the nearest double, ties
  to the even one.
\<close>

function bits :: "int \<Rightarrow> nat" where
  "bits n = (if n \<le> 0 then 0 else Suc (bits (n div 2)))"
  by pat_completeness auto
termination
  by (relation "measure nat") auto

declare bits.simps [simp del]

definition f64_round :: "int \<Rightarrow> int" where
  "f64_round n =
     (let a = \<bar>n\<bar>; unit = 2 ^ (bits a - 53); q = a div unit; r = a mod unit;
          q' = (if 2 * r < unit \<or> 2 * r = unit \<and> even q then q else q + 1)
      in sgn n * (q' * unit))"

fun f64_of :: "number \<Rightarrow> rat" where
  "f64_of (Whole n) = of_int (f64_round n)"
| "f64_of (Double r) = r"

fun json_f64 :: "json \<Rightarrow> rat option" where
  "json_f64 (JNumber n) = Some (f64_of n)"
| "json_f64 _ = None"

text \<open>\<open>===\<close>: scalars by value, containers never.\<close>

fun strict_eq :: "json option \<Rightarrow> json option \<Rightarrow> bool" where
  "strict_eq None b = (b = None)"
| "strict_eq (Some a) b = (case (a, b) of
      (JNull, Some JNull) \<Rightarrow> True
    | (JBool x, Some (JBool y)) \<Rightarrow> x = y
    | (JNumber x, Some (JNumber y)) \<Rightarrow> f64_of x = f64_of y
    | (JString x, Some (JString y)) \<Rightarrow> x = y
    | _ \<Rightarrow> False)"

section \<open>Paths\<close>

fun match_prefix :: "str \<Rightarrow> str \<Rightarrow> nat \<Rightarrow> nat option" where
  "match_prefix t [] i = Some i"
| "match_prefix t (p # ps) i =
     (if p = CHR ''#'' then
        (let digits = length (takeWhile is_digit (drop i t)) in
         if digits = 0 then None else match_prefix t ps (i + digits))
      else if i < length t \<and> t ! i = p then match_prefix t ps (i + 1)
      else None)"

definition matches_pattern :: "str \<Rightarrow> str \<Rightarrow> bool" where
  "matches_pattern t pat = (match_prefix t pat 0 = Some (length t))"

definition relative :: "str \<Rightarrow> str" where
  "relative path =
     (case match_prefix path ''policy.ai-security-profiles[#].model-configuration'' 0 of
        Some i \<Rightarrow> ''model'' @ drop i path
      | None \<Rightarrow> path)"

definition entry_index :: "str \<Rightarrow> nat option" where
  "entry_index path = (case strip_prefix ''policy.ai-security-profiles['' path of
      None \<Rightarrow> None
    | Some rest \<Rightarrow>
        (let digits = takeWhile is_digit rest in
         if digits \<noteq> [] \<and> starts_with (drop (length digits) rest) '']'' \<and> undec digits \<le> u64_max
         then Some (undec digits) else None))"

definition member_text :: "jobject \<Rightarrow> str \<Rightarrow> str option" where
  "member_text m key = Option.bind (jlookup m key) as_str"

text \<open>The allowances hold relative to a legacy entry's configuration only.\<close>

definition legacy_at :: "json option \<Rightarrow> nat \<Rightarrow> bool" where
  "legacy_at expected i =
     (case Option.bind expected (\<lambda>e. jget e ai_profiles) of
        Some (JArray es) \<Rightarrow>
          i < length es \<and> (case as_object (es ! i) of Some entry \<Rightarrow> \<not> is_directional entry | None \<Rightarrow> False)
      | _ \<Rightarrow> False)"

definition allowance_path :: "json option \<Rightarrow> str \<Rightarrow> str" where
  "allowance_path expected path =
     (if (case entry_index path of Some i \<Rightarrow> legacy_at expected i | None \<Rightarrow> False)
      then relative path else path)"

section \<open>Server defaults\<close>

definition severity_of_operation :: "str \<Rightarrow> json option" where
  "severity_of_operation nm =
     (if nm = ''database-security-create'' \<or> nm = ''database-security-update'' then Some (JString ''medium'')
      else if nm = ''database-security-read'' then Some (JString ''low'')
      else if nm = ''database-security-delete'' then Some (JString ''high'')
      else None)"

definition is_integer :: "json \<Rightarrow> bool" where
  "is_integer v = (case json_f64 v of Some r \<Rightarrow> of_int \<lfloor>r\<rfloor> = r | None \<Rightarrow> False)"

definition same_member :: "jobject \<Rightarrow> jobject \<Rightarrow> str \<Rightarrow> bool" where
  "same_member source target key = strict_eq (jlookup source key) (jlookup target key)"

definition allowed_severity :: "str \<Rightarrow> jobject \<Rightarrow> jobject \<Rightarrow> bool \<Rightarrow> json option" where
  "allowed_severity rel source target topics =
     (let nm = member_text source ''name''; same = same_member source target ''name'';
          a1 = (if matches_pattern rel ''model.data-protection.database-security[#]'' \<and> same
                then Option.bind nm severity_of_operation else None);
          a2 = (if rel = ''model.data-protection.source-code-detection'' then Some (JString ''high'') else a1);
          a3 = (if rel = ''model.app-protection.malicious-code-protection'' \<and> nm = Some ''malicious-code'' \<and> same
                then Some (JString ''high'') else a2);
          a4 = (if matches_pattern rel ''model.model-protection[#]''
                   \<and> (nm = Some ''prompt-injection'' \<or> nm = Some ''topic-guardrails''
                      \<or> nm = Some ''contextual-grounding'' \<and> member_text source ''action'' = Some ''block'')
                   \<and> same
                then Some (JString ''medium'') else a3);
          a5 = (if topics \<and> matches_pattern rel ''model.model-protection[#].topic-list[#].topic[#]''
                   \<and> (case member_text source ''topic_id'' of Some i \<Rightarrow> i \<noteq> [] | None \<Rightarrow> False)
                   \<and> same_member source target ''topic_id'' \<and> same_member source target ''topic_name''
                   \<and> (case jlookup source ''revision'' of Some r \<Rightarrow> is_integer r | None \<Rightarrow> False)
                   \<and> same_member source target ''revision''
                then Some (JString ''medium'') else a4)
      in if matches_pattern rel ''model.agent-protection[#]'' \<and> nm = Some ''agent-security'' \<and> same
         then Some (JString ''medium'') else a5)"

definition allowed_default :: "str \<Rightarrow> jobject \<Rightarrow> jobject \<Rightarrow> str \<Rightarrow> bool \<Rightarrow> json option" where
  "allowed_default rel source target key topics =
     (let a1 = (if rel = ''model.data-protection'' \<and> key = ''database-security'' then Some JNull else None);
          a2 = (if key = ''severity'' then
                  (case allowed_severity rel source target topics of Some v \<Rightarrow> Some v | None \<Rightarrow> a1) else a1)
      in if rel = ''model.app-protection'' \<and> key = ''url-detected-severity'' then Some (JString ''low'') else a2)"

definition server_default :: "json option \<Rightarrow> jobject \<Rightarrow> jobject \<Rightarrow> str \<Rightarrow> str \<Rightarrow> json \<Rightarrow> bool \<Rightarrow> bool \<Rightarrow> bool" where
  "server_default expected source target path key added toxic topics =
     (let rel = allowance_path expected path;
          toxic_detector = (matches_pattern rel ''model.model-protection[#]''
             \<and> member_text source ''name'' = Some ''toxic-content'' \<and> same_member source target ''name'');
          toxic_category = (toxic \<and> matches_pattern rel ''model.model-protection[#].toxic-category-list[#]''
             \<and> (case member_text source ''category'' of Some c \<Rightarrow> c \<noteq> [] | None \<Rightarrow> False)
             \<and> same_member source target ''category'')
      in (if rel = ''model.app-protection'' \<and> key = ''default-url-category''
             \<and> (case added of JObject v \<Rightarrow> length v = 1 \<and> jlookup v ''member'' = Some JNull | _ \<Rightarrow> False)
          then True
          else if (toxic_detector \<or> toxic_category) \<and> key = ''severity-by-confidence''
             \<and> (case added of
                  JObject v \<Rightarrow> length v = 2 \<and> member_text v ''high'' = Some ''medium''
                    \<and> member_text v ''moderate'' = Some ''low''
                | _ \<Rightarrow> False)
          then True
          else (case allowed_default rel source target key topics of
                  Some v \<Rightarrow> strict_eq (Some v) (Some added)
                | None \<Rightarrow> False)))"

section \<open>The walk\<close>

record findings =
  f_defaults :: "str list"
  f_differences :: "str list"

definition no_findings :: findings where
  "no_findings = \<lparr>f_defaults = [], f_differences = []\<rparr>"

definition difference_at :: "str \<Rightarrow> findings" where
  "difference_at path = \<lparr>f_defaults = [], f_differences = [path]\<rparr>"

definition default_at :: "str \<Rightarrow> findings" where
  "default_at path = \<lparr>f_defaults = [path], f_differences = []\<rparr>"

definition then_find :: "findings \<Rightarrow> findings \<Rightarrow> findings" where
  "then_find a b = \<lparr>f_defaults = f_defaults a @ f_defaults b,
                    f_differences = f_differences a @ f_differences b\<rparr>"

definition protection_detector :: "str \<Rightarrow> bool" where
  "protection_detector path =
     matches_pattern path ''policy.ai-security-profiles[#].model-configuration.model-protection[#]''"

definition child_toxic :: "jobject \<Rightarrow> jobject \<Rightarrow> str \<Rightarrow> str \<Rightarrow> bool" where
  "child_toxic source target path key =
     (key = ''toxic-category-list'' \<and> member_text source ''name'' = Some ''toxic-content''
      \<and> same_member source target ''name'' \<and> protection_detector path)"

definition child_topics :: "jobject \<Rightarrow> jobject \<Rightarrow> str \<Rightarrow> str \<Rightarrow> bool \<Rightarrow> bool" where
  "child_topics source target path key topics =
     (key = ''topic-list'' \<and> member_text source ''name'' = Some ''topic-guardrails''
      \<and> same_member source target ''name'' \<and> protection_detector path
      \<or> topics \<and> key = ''topic'' \<and> member_text source ''action'' = Some ''block''
        \<and> member_text target ''action'' = Some ''block'')"

text \<open>The keys in the order of the walk: those of the source, then those the target adds.\<close>

definition walk_keys :: "jobject \<Rightarrow> jobject \<Rightarrow> str list" where
  "walk_keys source target =
     map fst source @ filter (\<lambda>k. \<not> contains_key source k) (map fst target)"

lemma size_jlookup: "jlookup o' k = Some v \<Longrightarrow> size v < size_list (size_prod (\<lambda>_. 0) size) o'"
  by (induction o' k rule: jlookup.induct) (auto split: if_splits)

function (sequential) visit :: "json option \<Rightarrow> json option \<Rightarrow> json option \<Rightarrow> str \<Rightarrow> bool \<Rightarrow> bool \<Rightarrow> findings"
  and visit_items :: "json option \<Rightarrow> nat \<Rightarrow> json list \<Rightarrow> json list \<Rightarrow> str \<Rightarrow> bool \<Rightarrow> bool \<Rightarrow> findings"
  and visit_keys :: "json option \<Rightarrow> str list \<Rightarrow> jobject \<Rightarrow> jobject \<Rightarrow> str \<Rightarrow> bool \<Rightarrow> bool \<Rightarrow> findings" where
  "visit expected source target path toxic topics =
     (if strict_eq source target then no_findings
      else (case (source, target) of
          (Some (JArray ss), Some (JArray ts)) \<Rightarrow>
            then_find (if length ss \<noteq> length ts then difference_at (path @ ''.length'') else no_findings)
              (visit_items expected 0 ss ts path toxic topics)
        | (Some (JObject ss), Some (JObject ts)) \<Rightarrow>
            visit_keys expected (walk_keys ss ts) ss ts path toxic topics
        | _ \<Rightarrow> difference_at path))"
| "visit_items expected i [] ts path toxic topics = no_findings"
| "visit_items expected i (item # ss) ts path toxic topics =
     then_find
       (visit expected (Some item) (if i < length ts then Some (ts ! i) else None)
         (path @ ''['' @ dec i @ '']'') toxic topics)
       (visit_items expected (Suc i) ss ts path toxic topics)"
| "visit_keys expected [] ss ts path toxic topics = no_findings"
| "visit_keys expected (key # ks) ss ts path toxic topics =
     then_find
       (case (jlookup ss key, jlookup ts key) of
          (None, Some added) \<Rightarrow>
            if server_default expected ss ts path key added toxic topics
            then default_at (path @ ''.'' @ key) else difference_at (path @ ''.'' @ key)
        | (Some _, None) \<Rightarrow> difference_at (path @ ''.'' @ key)
        | (Some s, Some t) \<Rightarrow>
            visit expected (Some s) (Some t) (path @ ''.'' @ key)
              (child_toxic ss ts path key) (child_topics ss ts path key topics)
        | (None, None) \<Rightarrow> no_findings)
       (visit_keys expected ks ss ts path toxic topics)"
  by pat_completeness auto
termination
  by (relation "measures
       [\<lambda>x. case x of
           Inl (e, s, t, p) \<Rightarrow> (case s of Some v \<Rightarrow> Suc (2 * size v) | None \<Rightarrow> 0)
         | Inr (Inl (e, i, ss, ts, p)) \<Rightarrow> 2 * size_list size ss
         | Inr (Inr (e, ks, ss, ts, p)) \<Rightarrow> 2 * Suc (size_list (size_prod (\<lambda>_. 0) size) ss),
        \<lambda>x. case x of Inl _ \<Rightarrow> 0 | Inr (Inl _) \<Rightarrow> 0 | Inr (Inr (e, ks, ss, ts, p)) \<Rightarrow> length ks]")
    (auto dest!: size_jlookup size_jlookup [OF sym] split: option.splits)

declare visit.simps [simp del] visit_items.simps [simp del] visit_keys.simps [simp del]

record comparison =
  c_matches :: bool
  c_server_defaults :: "str list"
  c_differences :: "str list"

definition compare_policies :: "json option \<Rightarrow> json option \<Rightarrow> comparison" where
  "compare_policies expected actual =
     (let f = visit expected expected actual ''policy'' False False
      in \<lparr>c_matches = (f_differences f = []), c_server_defaults = f_defaults f,
          c_differences = f_differences f\<rparr>)"

end
