(* ===== verification/JsonValue.thy ===== *)
theory JsonValue
  imports PolicyCompare Correlate
begin

text \<open>
  What the planners of \<open>src/runtime/transfer\<close> do with serde_json values: a path into a value and
  the edit of what it leads to (\<open>value_at\<close>, the \<open>at_path\<close> of \<open>src/json.rs\<close>; a mutable borrow is modelled by its
  use), the conversion of an ordered record, JavaScript's truth and deep equality. serde_json's
  texts are a parameter: \<open>w_text\<close> is its compact text of a value, \<open>w_number\<close> the ryu_js text of a
  double; \<open>w_fold\<close> and \<open>w_upper\<close> are Unicode's lower case of a text and its upper-case characters.
\<close>

record writers =
  w_text :: "json \<Rightarrow> str"
  w_number :: "rat \<Rightarrow> str"
  w_fold :: "str \<Rightarrow> str"
  w_upper :: "str \<Rightarrow> bool list"

datatype path_step = KeyStep str | IndexStep nat

type_synonym jpath = "path_step list"

fun value_at :: "json \<Rightarrow> jpath \<Rightarrow> json option" where
  "value_at v [] = Some v"
| "value_at v (KeyStep k # p) = (case v of
      JObject m \<Rightarrow> (case jlookup m k of Some w \<Rightarrow> value_at w p | None \<Rightarrow> None)
    | _ \<Rightarrow> None)"
| "value_at v (IndexStep i # p) = (case v of
      JArray vs \<Rightarrow> if i < length vs then value_at (vs ! i) p else None
    | _ \<Rightarrow> None)"

text \<open>The value with \<open>f\<close> applied to what the path leads to, unchanged where it leads nowhere.\<close>

fun edit_at :: "json \<Rightarrow> jpath \<Rightarrow> (json \<Rightarrow> json) \<Rightarrow> json" where
  "edit_at v [] f = f v"
| "edit_at v (KeyStep k # p) f = (case v of
      JObject m \<Rightarrow> (case jlookup m k of
          Some w \<Rightarrow> JObject (jinsert m k (edit_at w p f)) | None \<Rightarrow> v)
    | _ \<Rightarrow> v)"
| "edit_at v (IndexStep i # p) f = (case v of
      JArray vs \<Rightarrow> if i < length vs then JArray (vs[i := edit_at (vs ! i) p f]) else v
    | _ \<Rightarrow> v)"

text \<open>\<open>value_of\<close>: an ordered record as a serde value, whose objects are sorted by key.\<close>

primrec value_of :: "json \<Rightarrow> json" where
  "value_of JNull = JNull"
| "value_of (JBool b) = JBool b"
| "value_of (JNumber n) = JNumber n"
| "value_of (JString s) = JString s"
| "value_of (JArray vs) = JArray (map value_of vs)"
| "value_of (JObject es) =
     JObject (foldl (\<lambda>m (k, v). jinsert m k v) [] (map (map_prod id value_of) es))"

text \<open>A value of serde's \<open>Map\<close>: the keys of every object are strictly sorted.\<close>

primrec serde_value :: "json \<Rightarrow> bool" where
  "serde_value JNull = True"
| "serde_value (JBool b) = True"
| "serde_value (JNumber n) = True"
| "serde_value (JString s) = True"
| "serde_value (JArray vs) = list_all (\<lambda>b. b) (map serde_value vs)"
| "serde_value (JObject es) =
     (sorted_keys es \<and> list_all snd (map (map_prod id serde_value) es))"

section \<open>JavaScript's view\<close>

text \<open>\<open>f64::NAN\<close> is \<open>None\<close>, which ryu_js writes as \<open>NaN\<close>.\<close>

definition js_number_or_nan :: "writers \<Rightarrow> rat option \<Rightarrow> str" where
  "js_number_or_nan wr r = (case r of Some q \<Rightarrow> js_number (w_number wr) q | None \<Rightarrow> ''NaN'')"

definition json_quoted :: "writers \<Rightarrow> str \<Rightarrow> str" where
  "json_quoted wr t = w_text wr (JString t)"

definition scalar :: "writers \<Rightarrow> json option \<Rightarrow> str" where
  "scalar wr v = (case v of
      None \<Rightarrow> ''null''
    | Some JNull \<Rightarrow> ''null''
    | Some (JNumber n) \<Rightarrow> js_number (w_number wr) (f64_of n)
    | Some (JString t) \<Rightarrow> json_quoted wr t
    | Some other \<Rightarrow> w_text wr other)"

definition scalar_text :: "writers \<Rightarrow> json option \<Rightarrow> str" where
  "scalar_text wr v = (case v of
      Some (JString t) \<Rightarrow> t
    | Some (JNumber n) \<Rightarrow> js_number (w_number wr) (f64_of n)
    | Some other \<Rightarrow> w_text wr other
    | None \<Rightarrow> [])"

definition truthy :: "json option \<Rightarrow> bool" where
  "truthy v = (case v of
      None \<Rightarrow> False
    | Some JNull \<Rightarrow> False
    | Some (JBool b) \<Rightarrow> b
    | Some (JNumber n) \<Rightarrow> f64_of n \<noteq> 0
    | Some (JString t) \<Rightarrow> t \<noteq> []
    | Some _ \<Rightarrow> True)"

function (sequential) js_equal :: "json \<Rightarrow> json \<Rightarrow> bool"
  and js_equal_items :: "json list \<Rightarrow> json list \<Rightarrow> bool"
  and js_equal_fields :: "jobject \<Rightarrow> jobject \<Rightarrow> bool" where
  "js_equal (JArray x) (JArray y) = (length x = length y \<and> js_equal_items x y)"
| "js_equal (JObject x) (JObject y) = (length x = length y \<and> js_equal_fields x y)"
| "js_equal x y = strict_eq (Some x) (Some y)"
| "js_equal_items (x # xs) (y # ys) = (js_equal x y \<and> js_equal_items xs ys)"
| "js_equal_items xs ys = True"
| "js_equal_fields [] y = True"
| "js_equal_fields ((k, v) # x) y =
     ((case jlookup y k of Some w \<Rightarrow> js_equal v w | None \<Rightarrow> False) \<and> js_equal_fields x y)"
  by pat_completeness auto
termination
  by (relation "measure (\<lambda>x. case x of
        Inl (a, b) \<Rightarrow> size a
      | Inr (Inl (xs, ys)) \<Rightarrow> size_list size xs
      | Inr (Inr (xs, ys)) \<Rightarrow> size_list (size_prod (\<lambda>_. 0) size) xs)")
    auto

section \<open>Lemmas\<close>

lemma json_induct [case_names Null Bool Number String Array Object]:
  assumes "P JNull" "\<And>b. P (JBool b)" "\<And>n. P (JNumber n)" "\<And>s. P (JString s)"
    and "\<And>vs. (\<And>v. v \<in> set vs \<Longrightarrow> P v) \<Longrightarrow> P (JArray vs)"
    and "\<And>es. (\<And>k v. (k, v) \<in> set es \<Longrightarrow> P v) \<Longrightarrow> P (JObject es)"
  shows "P v"
proof (induction v)
  case (JObject es)
  show ?case by (rule assms(6)) (rule JObject.IH, auto)
qed (use assms in auto)

lemma serde_array [simp]: "serde_value (JArray vs) \<longleftrightarrow> (\<forall>v \<in> set vs. serde_value v)"
  by (simp add: list_all_iff)

lemma serde_object [simp]:
  "serde_value (JObject es) \<longleftrightarrow> sorted_keys es \<and> (\<forall>(k, v) \<in> set es. serde_value v)"
  by (auto simp: list_all_iff)

declare serde_value.simps(5,6) [simp del]

lemma sorted_keys_simps [simp]:
  "sorted_keys []"
  "sorted_keys ((k, v) # m) \<longleftrightarrow> (\<forall>k' \<in> fst ` set m. key_less k k') \<and> sorted_keys m"
  by (auto simp: sorted_keys_def)

lemma sorted_keys_distinct: "sorted_keys m \<Longrightarrow> distinct (map fst m)"
  by (induction m) fastforce+

lemma jlookup_Some_mem: "jlookup m k = Some v \<Longrightarrow> (k, v) \<in> set m"
  by (induction m k rule: jlookup.induct) (auto split: if_splits)

lemma jlookup_eq_Some: "distinct (map fst m) \<Longrightarrow> jlookup m k = Some v \<longleftrightarrow> (k, v) \<in> set m"
  by (induction m k rule: jlookup.induct) (auto simp: image_iff)

lemma jlookup_eq_None: "jlookup m k = None \<longleftrightarrow> k \<notin> fst ` set m"
  by (induction m k rule: jlookup.induct) auto

lemma contains_key_iff: "contains_key m k \<longleftrightarrow> k \<in> fst ` set m"
  by (simp add: contains_key_def jlookup_eq_None)

text \<open>Inserting under a key that is there replaces its value in place.\<close>

lemma jinsert_present:
  "sorted_keys m \<Longrightarrow> jlookup m k = Some w \<Longrightarrow>
     jinsert m k v = map (\<lambda>(k', v'). if k' = k then (k, v) else (k', v')) m"
proof (induction m k v rule: jinsert.induct)
  case (2 name old entries key v)
  show ?case
  proof (cases "name = key")
    case True
    with 2(2) have "key \<notin> fst ` set entries" by auto
    then have "map (\<lambda>(k', v'). if k' = key then (key, v) else (k', v')) entries = entries"
      by (intro map_idI) (auto simp: image_iff split: if_splits)
    with True show ?thesis by simp
  next
    case False
    with 2(3) have "jlookup entries key = Some w" by simp
    moreover from this have "key \<in> fst ` set entries" using jlookup_eq_None [of entries key] by auto
    with 2(2) have "key_less name key" by auto
    then have "\<not> key_less key name" using key_less_trans key_less_irrefl by blast
    ultimately show ?thesis using False 2 by simp
  qed
qed simp

lemma serde_at_path: "serde_value v \<Longrightarrow> value_at v p = Some w \<Longrightarrow> serde_value w"
proof (induction v p rule: value_at.induct)
  case (2 v k p)
  then obtain m u where u: "v = JObject m" "jlookup m k = Some u" "value_at u p = Some w"
    by (auto split: json.splits option.splits)
  with 2(2) jlookup_Some_mem have "serde_value u" by fastforce
  with 2(1) u show ?case by blast
next
  case (3 v i p)
  then show ?case by (auto split: json.splits if_splits)
qed simp

lemma serde_jinsert: "serde_value (JObject m) \<Longrightarrow> serde_value v \<Longrightarrow> serde_value (JObject (jinsert m k v))"
proof -
  have sub: "set (jinsert m k v) \<subseteq> insert (k, v) (set m)"
    by (induction m k v rule: jinsert.induct) auto
  assume "serde_value (JObject m)" "serde_value v"
  with sub show ?thesis by (auto simp: sorted_keys_jinsert)
qed

lemma serde_value_of: "serde_value (value_of v)"
proof (induction v rule: json_induct)
  case (Object es)
  have "serde_value (JObject (foldl (\<lambda>m (k, v). jinsert m k v) m (map (map_prod id value_of) xs)))"
    if "serde_value (JObject m)" "set xs \<subseteq> set es" for m xs
    using that
  proof (induction xs arbitrary: m)
    case (Cons x xs)
    obtain k v where x: "x = (k, v)" by (cases x)
    with Cons.prems Object have "serde_value (value_of v)" by auto
    with Cons.prems have "serde_value (JObject (jinsert m k (value_of v)))"
      by (intro serde_jinsert) simp_all
    with Cons x show ?case by simp
  qed simp
  from this [of "[]" es] show ?case by simp
qed simp_all

end
