(* ===== verification/TransferRules.thy ===== *)
theory TransferRules
  imports JsonValue Correlate Listings
begin

text \<open>
  The record rules of \<open>src/runtime/transfer/plan.rs\<close>: the latest profiles of an inventory, the
  references of a policy, the Basic fallback, the check of a policy that crosses tenants, and the
  comparisons of topics and profiles. A rule refuses with a \<open>refusal\<close>, a planner stage with its text.
\<close>

abbreviation refused :: "(refusal, 'a) result \<Rightarrow> (str, 'a) result" where
  "refused r \<equiv> (case r of Inl e \<Rightarrow> Inl (refusal_message e) | Inr x \<Rightarrow> Inr x)"

section \<open>Names and inventories\<close>

definition transfer_name_rule :: str where
  "transfer_name_rule = ''Profile/topic names must be nonempty and contain no control characters''"

definition assert_name :: "str \<Rightarrow> (str, unit) result" where
  "assert_name nm =
     (if js_trim nm = [] \<or> list_ex (\<lambda>c. code c < 32 \<or> code c = 127) nm then Err transfer_name_rule else Ok ())"

definition name_of :: "json \<Rightarrow> str \<Rightarrow> str" where
  "name_of record key = (case json_str record key of Some t \<Rightarrow> t | None \<Rightarrow> [])"

definition record_f64 :: "json \<Rightarrow> str \<Rightarrow> rat option" where
  "record_f64 record key = Option.bind (jget record key) json_f64"

definition revision_or_zero :: "json \<Rightarrow> rat" where
  "revision_or_zero record = (case record_f64 record ''revision'' of Some r \<Rightarrow> r | None \<Rightarrow> 0)"

definition identity_text :: "writers \<Rightarrow> json \<Rightarrow> str" where
  "identity_text wr profile =
     ''['' @ json_quoted wr (name_of profile ''profile_name'') @ '','' @ scalar wr (jget profile ''profile_id'')
     @ '','' @ scalar wr (jget profile ''revision'') @ '']''"

text \<open>The first entry of that name gets the new index.\<close>

fun set_prior :: "(str \<times> nat) list \<Rightarrow> str \<Rightarrow> nat \<Rightarrow> (str \<times> nat) list" where
  "set_prior [] nm i = []"
| "set_prior ((known, j) # names) nm i =
     (if known = nm then (known, i) # names else (known, j) # set_prior names nm i)"

fun latest_loop :: "writers \<Rightarrow> json list \<Rightarrow> nat \<Rightarrow> json list \<Rightarrow> (str \<times> nat) list \<Rightarrow> str set
    \<Rightarrow> (refusal, (str \<times> nat) list) result" where
  "latest_loop wr profiles i [] names seen = Ok names"
| "latest_loop wr profiles i (profile # rest) names seen =
     (let nm = name_of profile ''profile_name'' in
      case assert_name nm of
        Inl e \<Rightarrow> Err (Withheld e)
      | Inr _ \<Rightarrow>
          if identity_text wr profile \<in> seen
          then Err (Stated ''Inventory contains repeated profile records'')
          else
            (let seen' = insert (identity_text wr profile) seen in
             case map_of names nm of
               Some prior \<Rightarrow>
                 if \<not> strict_eq (jget (profiles ! prior) ''profile_id'') (jget profile ''profile_id'')
                 then Err (Withheld (''Ambiguous profile name: '' @ nm))
                 else latest_loop wr profiles (Suc i) rest
                   (if revision_or_zero (profiles ! prior) < revision_or_zero profile
                    then set_prior names nm i else names) seen'
             | None \<Rightarrow> latest_loop wr profiles (Suc i) rest (names @ [(nm, i)]) seen'))"

text \<open>\<open>locale_order\<close> of \<open>src/report/mod.rs\<close>, as \<open>a\<close> is not after \<open>b\<close>; \<open>false\<close> sorts before \<open>true\<close>.\<close>

fun flags_less :: "bool list \<Rightarrow> bool list \<Rightarrow> bool" where
  "flags_less [] [] = False"
| "flags_less [] (_ # _) = True"
| "flags_less (_ # _) [] = False"
| "flags_less (a # as) (b # bs) = (\<not> a \<and> b \<or> a = b \<and> flags_less as bs)"

definition locale_le :: "writers \<Rightarrow> str \<Rightarrow> str \<Rightarrow> bool" where
  "locale_le wr a b =
     (key_less (w_fold wr a) (w_fold wr b)
      \<or> w_fold wr a = w_fold wr b
        \<and> (flags_less (w_upper wr a) (w_upper wr b)
           \<or> w_upper wr a = w_upper wr b \<and> (key_less a b \<or> a = b)))"

text \<open>A stable sort by a comparison.\<close>

fun insert_by :: "('a \<Rightarrow> 'a \<Rightarrow> bool) \<Rightarrow> 'a \<Rightarrow> 'a list \<Rightarrow> 'a list" where
  "insert_by le x [] = [x]"
| "insert_by le x (y # ys) = (if le x y then x # y # ys else y # insert_by le x ys)"

definition sort_by :: "('a \<Rightarrow> 'a \<Rightarrow> bool) \<Rightarrow> 'a list \<Rightarrow> 'a list" where
  "sort_by le xs = foldr (insert_by le) xs []"

definition latest_profiles :: "writers \<Rightarrow> json list \<Rightarrow> (refusal, nat list) result" where
  "latest_profiles wr profiles =
     bind_r (latest_loop wr profiles 0 profiles [] {}) (\<lambda>names.
       Ok (map snd (sort_by (\<lambda>a b. locale_le wr (fst a) (fst b)) names)))"

definition other_tenant :: "writers \<Rightarrow> str \<Rightarrow> json \<Rightarrow> bool" where
  "other_tenant wr tsg profile = (case jget profile ''tsg_id'' of
      None \<Rightarrow> False
    | Some JNull \<Rightarrow> False
    | Some (JString i) \<Rightarrow> i \<noteq> tsg
    | Some other \<Rightarrow> scalar wr (Some other) \<noteq> tsg)"

definition assert_tenant :: "writers \<Rightarrow> json list \<Rightarrow> str \<Rightarrow> (refusal, unit) result" where
  "assert_tenant wr profiles tsg =
     (if list_ex (other_tenant wr tsg) profiles
      then Err (Stated ''Destination/source profile tenant identity does not match the selected TSG'')
      else Ok ())"

definition inventory_profiles :: "writers \<Rightarrow> json list \<Rightarrow> (refusal, json list) result" where
  "inventory_profiles wr items =
     (let values = map value_of items in
      bind_r (latest_profiles wr values) (\<lambda>kept. Ok (map (\<lambda>i. values ! i) kept)))"

section \<open>Topic references\<close>

record topic_ref =
  tr_path :: jpath
  tr_id :: str
  tr_name :: str
  tr_revision :: rat

definition topic_key :: "writers \<Rightarrow> json option \<Rightarrow> rat option \<Rightarrow> str" where
  "topic_key wr i revision = ''['' @ scalar wr i @ '','' @ js_number_or_nan wr revision @ '']''"

definition tr_key :: "writers \<Rightarrow> topic_ref \<Rightarrow> str" where
  "tr_key wr r = topic_key wr (Some (JString (tr_id r))) (Some (tr_revision r))"

definition record_key :: "writers \<Rightarrow> json \<Rightarrow> str" where
  "record_key wr topic = topic_key wr (jget topic ''topic_id'') (record_f64 topic ''revision'')"

definition safe_revision :: "rat \<Rightarrow> bool" where
  "safe_revision r = (of_int \<lfloor>r\<rfloor> = r \<and> 0 \<le> r \<and> r \<le> of_nat max_safe_integer)"

text \<open>What one object contributes: nothing without a \<open>topic_id\<close>.\<close>

definition topic_ref_here :: "jpath \<Rightarrow> jobject \<Rightarrow> (refusal, topic_ref list) result" where
  "topic_ref_here path m =
     (if contains_key m ''topic_id'' then
        (case (member_text m ''topic_id'', member_text m ''topic_name'',
               Option.bind (jlookup m ''revision'') json_f64) of
           (Some i, Some nm, Some r) \<Rightarrow>
             if safe_revision r
             then Ok [\<lparr>tr_path = path, tr_id = i, tr_name = nm, tr_revision = r\<rparr>]
             else Err (Withheld ''Invalid topic identity in profile policy'')
         | _ \<Rightarrow> Err (Withheld ''Invalid topic identity in profile policy''))
      else Ok [])"

definition both_r :: "('e, 'a list) result \<Rightarrow> ('e, 'a list) result \<Rightarrow> ('e, 'a list) result" where
  "both_r a b = bind_r a (\<lambda>xs. bind_r b (\<lambda>ys. Ok (xs @ ys)))"

function (sequential) topic_refs_in :: "jpath \<Rightarrow> json \<Rightarrow> (refusal, topic_ref list) result"
  and topic_refs_items :: "jpath \<Rightarrow> nat \<Rightarrow> json list \<Rightarrow> (refusal, topic_ref list) result"
  and topic_refs_fields :: "jpath \<Rightarrow> jobject \<Rightarrow> (refusal, topic_ref list) result" where
  "topic_refs_in path (JArray items) = topic_refs_items path 0 items"
| "topic_refs_in path (JObject m) = both_r (topic_ref_here path m) (topic_refs_fields path m)"
| "topic_refs_in path v = Ok []"
| "topic_refs_items path i [] = Ok []"
| "topic_refs_items path i (v # items) =
     both_r (topic_refs_in (path @ [IndexStep i]) v) (topic_refs_items path (Suc i) items)"
| "topic_refs_fields path [] = Ok []"
| "topic_refs_fields path ((k, v) # m) =
     both_r (topic_refs_in (path @ [KeyStep k]) v) (topic_refs_fields path m)"
  by pat_completeness auto
termination
  by (relation "measure (\<lambda>x. case x of
        Inl (p, v) \<Rightarrow> size v
      | Inr (Inl (p, i, vs)) \<Rightarrow> size_list size vs
      | Inr (Inr (p, m)) \<Rightarrow> size_list (size_prod (\<lambda>_. 0) size) m)")
    auto

definition topic_references :: "json option \<Rightarrow> (refusal, topic_ref list) result" where
  "topic_references policy = (case policy of Some p \<Rightarrow> topic_refs_in [] p | None \<Rightarrow> Ok [])"

section \<open>DLP references\<close>

datatype dlp_kind = Embedded | Member

record dlp_ref =
  dr_path :: jpath
  dr_name :: str
  dr_kind :: dlp_kind
  dr_has_version :: bool

definition dlp_profiles_key :: str where "dlp_profiles_key = ''dlp-data-profiles''"

fun embedded_refs :: "nat \<Rightarrow> json list \<Rightarrow> (refusal, dlp_ref list) result" where
  "embedded_refs i [] = Ok []"
| "embedded_refs i (entry # entries) =
     (case Option.bind (as_object entry) (\<lambda>m. member_text m ''name'') of
        None \<Rightarrow> Err (Withheld ''Invalid embedded DLP reference'')
      | Some nm \<Rightarrow>
          bind_r (embedded_refs (Suc i) entries) (\<lambda>rs.
            Ok (\<lparr>dr_path = [KeyStep dlp_profiles_key, IndexStep i], dr_name = nm, dr_kind = Embedded,
                 dr_has_version = (jget entry ''version'' \<noteq> None)\<rparr> # rs)))"

definition place_path :: "place \<Rightarrow> jpath" where
  "place_path pl =
     [KeyStep ai_profiles, IndexStep (pl_index pl)]
     @ (case pl_direction pl of
          None \<Rightarrow> [KeyStep model_configuration_key]
        | Some d \<Rightarrow> [KeyStep content_type_configurations, KeyStep d])"

definition detection_path :: jpath where
  "detection_path = [KeyStep ''data-protection'', KeyStep ''data-leak-detection'']"

text \<open>The built-in Basic member is no reference, unless an embedded profile has its name.\<close>

definition builtin_member :: "str list \<Rightarrow> jobject \<Rightarrow> str \<Rightarrow> bool" where
  "builtin_member embedded m nm =
     (lower_text nm = ''sensitive content''
      \<and> (case jlookup m ''id'' of None \<Rightarrow> True | Some (JString i) \<Rightarrow> i = [] | Some _ \<Rightarrow> False)
      \<and> (jlookup m ''version'' = None \<or> member_text m ''version'' = Some ''2'')
      \<and> nm \<notin> set embedded)"

fun member_refs :: "str list \<Rightarrow> jpath \<Rightarrow> nat \<Rightarrow> json list \<Rightarrow> (refusal, dlp_ref list) result" where
  "member_refs embedded path i [] = Ok []"
| "member_refs embedded path i (member # members) =
     (case as_object member of
        None \<Rightarrow> Err (Withheld ''Invalid DLP member'')
      | Some m \<Rightarrow>
          (case member_text m ''text'' of
             None \<Rightarrow> Err (Withheld ''Invalid DLP member'')
           | Some nm \<Rightarrow>
               bind_r (member_refs embedded path (Suc i) members) (\<lambda>rs.
                 if builtin_member embedded m nm then Ok rs
                 else Ok (\<lparr>dr_path = path @ [IndexStep i], dr_name = nm, dr_kind = Member,
                           dr_has_version = (jlookup m ''version'' \<noteq> None)\<rparr> # rs))))"

text \<open>The members of a location, when its protection and its detection are objects.\<close>

definition location_members :: "location \<Rightarrow> json list option" where
  "location_members l = (case jlookup (loc_configuration l) ''data-protection'' of
      Some (JObject protection) \<Rightarrow>
        (case jlookup protection ''data-leak-detection'' of
           Some (JObject detection) \<Rightarrow>
             (case jlookup detection ''member'' of Some (JArray ms) \<Rightarrow> Some ms | _ \<Rightarrow> None)
         | _ \<Rightarrow> None)
    | _ \<Rightarrow> None)"

definition location_refs :: "str list \<Rightarrow> location \<Rightarrow> (refusal, dlp_ref list) result" where
  "location_refs embedded l = (case location_members l of
      Some ms \<Rightarrow>
        member_refs embedded (place_path (loc_place l) @ detection_path @ [KeyStep ''member'']) 0 ms
    | None \<Rightarrow> Ok [])"

fun locations_refs :: "str list \<Rightarrow> location list \<Rightarrow> (refusal, dlp_ref list) result" where
  "locations_refs embedded [] = Ok []"
| "locations_refs embedded (l # ls) = both_r (location_refs embedded l) (locations_refs embedded ls)"

definition dlp_references :: "json option \<Rightarrow> (refusal, dlp_ref list) result" where
  "dlp_references policy = (case policy of
      Some (JObject p) \<Rightarrow>
        bind_r (case jlookup p dlp_profiles_key of
            Some (JArray entries) \<Rightarrow> embedded_refs 0 entries | _ \<Rightarrow> Ok []) (\<lambda>refs.
          bind_r (locations_refs (map dr_name refs) (locations (Some (JObject p)))) (\<lambda>ms.
            Ok (refs @ ms)))
    | _ \<Rightarrow> Ok [])"

text \<open>Unique, in first-occurrence order.\<close>

fun unique_onto :: "'a list \<Rightarrow> 'a list \<Rightarrow> 'a list" where
  "unique_onto seen [] = seen"
| "unique_onto seen (x # xs) = unique_onto (if x \<in> set seen then seen else seen @ [x]) xs"

definition dlp_names_of :: "json option \<Rightarrow> (str, str list) result" where
  "dlp_names_of policy = refused (bind_r (dlp_references policy) (\<lambda>refs. Ok (unique_onto [] (map dr_name refs))))"


text \<open>
  The policy rules of \<open>src/runtime/transfer/plan.rs\<close>: the Basic fallback of custom DLP detection,
  the check of a policy that goes to another tenant, the mapping of its references, and the
  comparisons that decide whether a topic or a profile is still what was planned. The request
  schemas are the SDK's: a parameter.
\<close>

record schemas =
  policy_ok :: "json \<Rightarrow> bool"
  body_ok :: "json \<Rightarrow> bool"
  topic_ok :: "json \<Rightarrow> bool"

definition invalid_profile_body :: str where
  "invalid_profile_body =
     ''AISEC_USER_REQUEST_PAYLOAD_ERROR:Request body for POST /v1/mgmt/profile did not match schema''"

section \<open>The Basic fallback\<close>

definition basic_member :: json where
  "basic_member = JArray [JObject [(''id'', JString []), (''text'', JString ''sensitive content''),
                                   (''version'', JString ''2'')]]"

definition names_custom :: "str list \<Rightarrow> jobject \<Rightarrow> bool" where
  "names_custom custom detection = (case jlookup detection ''member'' of
      Some (JArray members) \<Rightarrow>
        list_ex (\<lambda>m. case json_str m ''text'' of Some t \<Rightarrow> t \<in> set custom | None \<Rightarrow> False) members
    | _ \<Rightarrow> False)"

definition basic_detection :: "jobject \<Rightarrow> (str, jobject) result" where
  "basic_detection detection =
     (let action = member_text detection ''action'' in
      if action \<notin> {Some ''block'', Some ''allow'', Some []}
      then Err ''Cannot safely fall back to Basic: unsupported DLP action''
      else if truthy (jlookup detection ''mask-data-inline'') \<and> action \<noteq> Some ''block''
      then Err ''Cannot safely fall back to Basic: inline masking requires a block action''
      else Ok (jinsert detection ''member'' (if action = Some [] then JNull else basic_member)))"

fun fallback_places :: "str list \<Rightarrow> place list \<Rightarrow> json \<Rightarrow> bool \<Rightarrow> (str, json \<times> bool) result" where
  "fallback_places custom [] policy converted = Ok (policy, converted)"
| "fallback_places custom (pl # pls) policy converted =
     (let path = place_path pl @ detection_path in
      case value_at policy path of
        Some (JObject detection) \<Rightarrow>
          if names_custom custom detection
          then bind_r (basic_detection detection) (\<lambda>d.
                 fallback_places custom pls (edit_at policy path (\<lambda>_. JObject d)) True)
          else fallback_places custom pls policy converted
      | _ \<Rightarrow> fallback_places custom pls policy converted)"

definition clear_embedded :: "json \<Rightarrow> json" where
  "clear_embedded policy = (case policy of
      JObject m \<Rightarrow> if contains_key m dlp_profiles_key
        then JObject (jinsert m dlp_profiles_key (JArray [])) else policy
    | _ \<Rightarrow> policy)"

definition basic_fallback :: "schemas \<Rightarrow> json option \<Rightarrow> (str, json) result" where
  "basic_fallback sc policy =
     (let result = (case policy of Some p \<Rightarrow> p | None \<Rightarrow> JNull) in
      bind_r (dlp_names_of (Some result)) (\<lambda>custom.
      bind_r (fallback_places custom (map loc_place (locations (Some result))) result False)
        (\<lambda>(result', converted).
          if \<not> converted
          then Err ''Cannot safely fall back to Basic: no matching DLP detection configuration''
          else if policy_ok sc (clear_embedded result') then Ok (clear_embedded result')
          else Err invalid_profile_body)))"

section \<open>References across tenants\<close>

definition id_like :: "str \<Rightarrow> bool" where
  "id_like key =
     (list_ex (\<lambda>s. key = s \<or> ends_with key (''-'' @ s) \<or> ends_with key (''_'' @ s)) [''id'', ''uuid'']
      \<or> list_ex (ends_with key) [''Id'', ''ID'', ''Uuid'', ''UUID''])"

definition dlp_id_keys :: "dlp_kind \<Rightarrow> str list" where
  "dlp_id_keys kind = (case kind of Embedded \<Rightarrow> [''id'', ''uuid''] | Member \<Rightarrow> [''id''])"

definition known_references :: "topic_ref list \<Rightarrow> dlp_ref list \<Rightarrow> jpath \<Rightarrow> str list option" where
  "known_references topics dlp =
     foldl (\<lambda>known r. known(dr_path r \<mapsto> dlp_id_keys (dr_kind r)))
       (foldl (\<lambda>known r. known(tr_path r \<mapsto> [''topic_id''])) Map.empty topics) dlp"

definition empty_value :: "json \<Rightarrow> bool" where
  "empty_value v = (v = JNull \<or> v = JString [])"

definition known_reference :: "(jpath \<Rightarrow> str list option) \<Rightarrow> jpath \<Rightarrow> str \<Rightarrow> bool" where
  "known_reference known path key = (case known path of Some keys \<Rightarrow> key \<in> set keys | None \<Rightarrow> False)"

function (sequential) foreign_ids :: "(jpath \<Rightarrow> str list option) \<Rightarrow> str \<Rightarrow> jpath \<Rightarrow> json \<Rightarrow> (str, unit) result"
  and foreign_ids_items :: "(jpath \<Rightarrow> str list option) \<Rightarrow> str \<Rightarrow> jpath \<Rightarrow> nat \<Rightarrow> json list \<Rightarrow> (str, unit) result"
  and foreign_ids_fields :: "(jpath \<Rightarrow> str list option) \<Rightarrow> str \<Rightarrow> jpath \<Rightarrow> jobject \<Rightarrow> (str, unit) result" where
  "foreign_ids known label path (JArray items) = foreign_ids_items known label path 0 items"
| "foreign_ids known label path (JObject m) = foreign_ids_fields known label path m"
| "foreign_ids known label path v = Ok ()"
| "foreign_ids_items known label path i [] = Ok ()"
| "foreign_ids_items known label path i (v # items) =
     bind_r (foreign_ids known (label @ ''['' @ dec i @ '']'') (path @ [IndexStep i]) v) (\<lambda>_.
       foreign_ids_items known label path (Suc i) items)"
| "foreign_ids_fields known label path [] = Ok ()"
| "foreign_ids_fields known label path ((key, v) # m) =
     (if \<not> empty_value v \<and> id_like key \<and> \<not> known_reference known path key
      then Err (''Unsupported cross-tenant policy reference at '' @ label @ ''.'' @ key)
      else bind_r (foreign_ids known (label @ ''.'' @ key) (path @ [KeyStep key]) v) (\<lambda>_.
             foreign_ids_fields known label path m))"
  by pat_completeness auto
termination
  by (relation "measure (\<lambda>x. case x of
        Inl (n, l, p, v) \<Rightarrow> size v
      | Inr (Inl (n, l, p, i, vs)) \<Rightarrow> size_list size vs
      | Inr (Inr (n, l, p, m)) \<Rightarrow> size_list (size_prod (\<lambda>_. 0) size) m)")
    auto

definition assert_known_policy_references :: "json option \<Rightarrow> (str, unit) result" where
  "assert_known_policy_references policy =
     bind_r (refused (topic_references policy)) (\<lambda>topics.
     bind_r (refused (dlp_references policy)) (\<lambda>dlp.
       case policy of
         Some p \<Rightarrow> foreign_ids (known_references topics dlp) ''policy'' [] p
       | None \<Rightarrow> Ok ()))"

section \<open>Comparisons\<close>

definition topic_examples :: "json \<Rightarrow> json" where
  "topic_examples topic = (case jget topic ''examples'' of None \<Rightarrow> JArray [] | Some v \<Rightarrow> v)"

definition active_or_true :: "json \<Rightarrow> json" where
  "active_or_true record = (case jget record ''active'' of
      None \<Rightarrow> JBool True | Some JNull \<Rightarrow> JBool True | Some v \<Rightarrow> v)"

definition same_topic :: "json \<Rightarrow> json \<Rightarrow> bool" where
  "same_topic a b =
     (strict_eq (jget a ''description'') (jget b ''description'')
      \<and> js_equal (topic_examples a) (topic_examples b)
      \<and> strict_eq (Some (active_or_true a)) (Some (active_or_true b)))"

definition canonical_entry :: "json \<Rightarrow> json" where
  "canonical_entry entry =
     (if (case as_object entry of Some e \<Rightarrow> is_directional e | None \<Rightarrow> False) then entry
      else edit_at entry [KeyStep model_configuration_key, KeyStep ''data-protection''] (\<lambda>v.
        case v of
          JObject protection \<Rightarrow>
            if contains_key protection ''database-security'' then v
            else JObject (jinsert protection ''database-security'' JNull)
        | _ \<Rightarrow> v))"

definition canonical_policy :: "json option \<Rightarrow> json option" where
  "canonical_policy policy =
     map_option (\<lambda>p. edit_at p [KeyStep ai_profiles] (\<lambda>v. case v of
        JArray entries \<Rightarrow> JArray (map canonical_entry entries) | _ \<Rightarrow> v)) policy"

definition unchanged :: "json option \<Rightarrow> json \<Rightarrow> bool" where
  "unchanged current prior = (case current of
      None \<Rightarrow> False
    | Some c \<Rightarrow>
        strict_eq (jget c ''profile_id'') (jget prior ''profile_id'')
        \<and> strict_eq (jget c ''revision'') (jget prior ''revision'')
        \<and> strict_eq (jget c ''active'') (jget prior ''active'')
        \<and> (case (canonical_policy (jget c ''policy''), canonical_policy (jget prior ''policy'')) of
             (None, None) \<Rightarrow> True
           | (Some a, Some b) \<Rightarrow> js_equal a b
           | _ \<Rightarrow> False))"

end
