(* ===== verification/RestorePlan.thy ===== *)
theory RestorePlan
  imports TransferRules
begin

text \<open>
  The restore planner of \<open>src/runtime/transfer/plan.rs\<close>, stage by stage: \<open>prepare_restore\<close>,
  \<open>plan_profiles\<close>, \<open>plan_topics\<close>, \<open>dlp_names\<close> and \<open>finish_plan\<close>, and the policy a planned profile is
  written with (\<open>mapped_policy\<close>). A stage that refuses gives its message.
\<close>

section \<open>Options and plans\<close>

datatype conflict = OnError | OnVerify | OnSkip | OnUpdate

definition conflict_parse :: "str \<Rightarrow> conflict option" where
  "conflict_parse t =
     (if t = ''error'' then Some OnError else if t = ''verify'' then Some OnVerify
      else if t = ''skip'' then Some OnSkip else if t = ''update'' then Some OnUpdate else None)"

datatype missing_dlp = MissingError | MissingBasic

record restore_options =
  op_prefix :: str
  op_conflict :: conflict
  op_dlp_map :: "(str \<times> str) list"
  op_missing_dlp :: missing_dlp

definition op_mapped :: "restore_options \<Rightarrow> str \<Rightarrow> str option" where
  "op_mapped op nm = map_of (op_dlp_map op) nm"

datatype plan_action = Create | Update | Skip | Verify

fun action_word :: "plan_action \<Rightarrow> str" where
  "action_word Create = ''create''"
| "action_word Update = ''update''"
| "action_word Skip = ''skip''"
| "action_word Verify = ''verify''"

record profile_plan =
  pp_name :: str
  pp_source :: json
  pp_existing :: "json option"
  pp_action :: plan_action
  pp_fallback :: "json option"

record topic_plan =
  tp_key :: str
  tp_name :: str
  tp_source :: json
  tp_existing :: "json option"

record dlp_mapping =
  dm_source :: str
  dm_destination :: str
  dm_id :: str
  dm_version :: "json option"

record dlp_fallback =
  df_profile :: str
  df_unresolved :: "str list"
  df_replaced :: "str list"

record server_defaults =
  sd_profile :: str
  sd_fields :: "str list"

record prepared_restore =
  pr_selected :: "json list"
  pr_cross_tenant :: bool

section \<open>Bodies\<close>

definition profile_body :: "str \<Rightarrow> json \<Rightarrow> json \<Rightarrow> json" where
  "profile_body nm source policy =
     (let named = jinsert [] ''profile_name'' (JString nm);
          active = (case jget source ''active'' of
              Some (JBool b) \<Rightarrow> jinsert named ''active'' (JBool b) | _ \<Rightarrow> named)
      in JObject (jinsert active ''policy'' policy))"

definition topic_body :: "str \<Rightarrow> json \<Rightarrow> json" where
  "topic_body nm source =
     JObject (foldl (\<lambda>body key. case jget source key of
         None \<Rightarrow> body | Some JNull \<Rightarrow> body | Some v \<Rightarrow> jinsert body key v)
       (jinsert [] ''topic_name'' (JString nm)) [''active'', ''description'', ''examples''])"

section \<open>Stage 1\<close>

definition policy_of :: "json \<Rightarrow> json option" where
  "policy_of profile = (case jget profile ''policy'' of Some JNull \<Rightarrow> None | p \<Rightarrow> p)"

definition prepare_check :: "schemas \<Rightarrow> str \<Rightarrow> bool \<Rightarrow> json \<Rightarrow> (str, unit) result" where
  "prepare_check sc pre cross profile = (case policy_of profile of
      None \<Rightarrow> Err ''Backup profile has no policy''
    | Some policy \<Rightarrow>
        if \<not> body_ok sc (profile_body (pre @ name_of profile ''profile_name'') profile policy)
        then Err invalid_profile_body
        else if cross then assert_known_policy_references (Some policy) else Ok ())"

definition prepare_restore :: "writers \<Rightarrow> schemas \<Rightarrow> json list \<Rightarrow> str \<Rightarrow> str \<Rightarrow> restore_options \<Rightarrow> (str, prepared_restore) result" where
  "prepare_restore wr sc profiles source_tsg destination_tsg op =
     bind_r (refused (latest_profiles wr profiles)) (\<lambda>kept.
       let selected = map (\<lambda>i. profiles ! i) kept; cross = (source_tsg \<noteq> destination_tsg) in
       bind_r (refused (assert_tenant wr selected source_tsg)) (\<lambda>_.
         if length selected \<noteq> length profiles
         then Err ''Backup contains duplicate profile names/revisions''
         else bind_r (collect_r (prepare_check sc (op_prefix op) cross) selected) (\<lambda>_.
           Ok \<lparr>pr_selected = selected, pr_cross_tenant = cross\<rparr>)))"

section \<open>Stage 2\<close>

definition find_named :: "json list \<Rightarrow> str \<Rightarrow> str \<Rightarrow> json option" where
  "find_named records key nm = find (\<lambda>r. json_str r key = Some nm) records"

definition plan_profile :: "json list \<Rightarrow> restore_options \<Rightarrow> json \<Rightarrow> (str, profile_plan) result" where
  "plan_profile existing op source =
     (let nm = op_prefix op @ name_of source ''profile_name'';
          found = find_named existing ''profile_name'' nm
      in if found \<noteq> None \<and> op_conflict op = OnError
         then Err (''Destination profile already exists: '' @ nm
           @ ''; choose --on-conflict verify, skip or update'')
         else if (case found of Some p \<Rightarrow> \<not> truthy (jget p ''profile_id'') | None \<Rightarrow> False)
         then Err ''Destination profile has no identity''
         else Ok \<lparr>pp_name = nm, pp_source = source, pp_existing = found,
                  pp_action = (case found of
                      None \<Rightarrow> Create
                    | Some _ \<Rightarrow> (case op_conflict op of
                        OnSkip \<Rightarrow> Skip | OnVerify \<Rightarrow> Verify | _ \<Rightarrow> Update)),
                  pp_fallback = None\<rparr>)"

definition plan_profiles :: "prepared_restore \<Rightarrow> json list \<Rightarrow> restore_options \<Rightarrow> (str, profile_plan list) result" where
  "plan_profiles pr existing op = collect_r (plan_profile existing op) (pr_selected pr)"

definition not_skipped :: "profile_plan list \<Rightarrow> profile_plan list" where
  "not_skipped plans = filter (\<lambda>pl. pp_action pl \<noteq> Skip) plans"

definition source_policy :: "profile_plan \<Rightarrow> json option" where
  "source_policy pl = jget (pp_source pl) ''policy''"

definition changing_refs :: "profile_plan list \<Rightarrow> (str, topic_ref list) result" where
  "changing_refs plans =
     refused (bind_r (collect_r (\<lambda>pl. topic_references (source_policy pl)) (not_skipped plans))
       (\<lambda>refs. Ok (concat refs)))"

section \<open>Stage 3\<close>

text \<open>Highest revision first; a record without one counts as \<open>NaN\<close>, above every number.\<close>

definition later_revision :: "json \<Rightarrow> json \<Rightarrow> bool" where
  "later_revision a b = (case (record_f64 a ''revision'', record_f64 b ''revision'') of
      (None, _) \<Rightarrow> True
    | (Some x, None) \<Rightarrow> False
    | (Some x, Some y) \<Rightarrow> y \<le> x)"

definition destination_matches :: "json list \<Rightarrow> str \<Rightarrow> json list" where
  "destination_matches target_topics nm =
     sort_by later_revision (filter (\<lambda>t. json_str t ''topic_name'' = Some nm) target_topics)"

definition topic_definitions :: "writers \<Rightarrow> json list \<Rightarrow> topic_ref \<Rightarrow> json list" where
  "topic_definitions wr backup_topics r =
     filter (\<lambda>t. record_key wr t = tr_key wr r \<and> json_str t ''topic_name'' = Some (tr_name r)) backup_topics"

definition plan_topic :: "writers \<Rightarrow> topic_ref \<Rightarrow> json list \<Rightarrow> json list \<Rightarrow> str \<Rightarrow> (str \<rightharpoonup> str)
    \<Rightarrow> (str, topic_plan) result" where
  "plan_topic wr r backup_topics target_topics pre names =
     (case topic_definitions wr backup_topics r of
        [source] \<Rightarrow>
          (let nm = pre @ name_of source ''topic_name'' in
           bind_r (assert_name nm) (\<lambda>_.
             if (case names nm of Some known \<Rightarrow> known \<noteq> tr_key wr r | None \<Rightarrow> False)
             then Err (''Multiple source revisions use topic name '' @ nm
               @ ''; split the backup by profile/revision before restoring'')
             else
               (let found = destination_matches target_topics nm in
                if 1 < length (remdups (map (\<lambda>t. scalar wr (jget t ''topic_id'')) found))
                then Err (''Ambiguous destination topic name: '' @ nm)
                else if (case found of
                    f # _ \<Rightarrow> \<not> truthy (jget f ''topic_id'') \<or> \<not> same_topic source f | [] \<Rightarrow> False)
                then Err (''Destination topic differs: '' @ nm
                  @ ''; use --name-prefix to avoid changing a shared topic'')
                else Ok \<lparr>tp_key = tr_key wr r, tp_name = nm, tp_source = source,
                         tp_existing = (case found of f # _ \<Rightarrow> Some f | [] \<Rightarrow> None)\<rparr>)))
      | _ \<Rightarrow> Err (''Backup lacks an unambiguous topic definition: '' @ tr_name r))"

fun plan_topics_loop :: "writers \<Rightarrow> topic_ref list \<Rightarrow> json list \<Rightarrow> json list \<Rightarrow> str \<Rightarrow> topic_plan list
    \<Rightarrow> (str \<rightharpoonup> str) \<Rightarrow> (str, topic_plan list) result" where
  "plan_topics_loop wr [] backup_topics target_topics pre plans names = Ok plans"
| "plan_topics_loop wr (r # refs) backup_topics target_topics pre plans names =
     (if list_ex (\<lambda>pl. tp_key pl = tr_key wr r) plans
      then plan_topics_loop wr refs backup_topics target_topics pre plans names
      else bind_r (plan_topic wr r backup_topics target_topics pre names) (\<lambda>pl.
        plan_topics_loop wr refs backup_topics target_topics pre (plans @ [pl])
          (names(tp_name pl \<mapsto> tr_key wr r))))"

definition plan_topics :: "writers \<Rightarrow> topic_ref list \<Rightarrow> json list \<Rightarrow> json list \<Rightarrow> str
    \<Rightarrow> (str, topic_plan list) result" where
  "plan_topics wr refs backup_topics target_topics pre =
     plan_topics_loop wr refs backup_topics target_topics pre [] Map.empty"

section \<open>Stage 4\<close>

record dlp_names =
  dn_refs :: "dlp_ref list"
  dn_names :: "str list"
  dn_unresolved :: "str list"

definition target_for :: "str \<Rightarrow> bool \<Rightarrow> restore_options \<Rightarrow> str option" where
  "target_for nm cross op = (case op_mapped op nm of
      Some d \<Rightarrow> Some d | None \<Rightarrow> if cross then None else Some nm)"

definition needs_catalog :: "dlp_names \<Rightarrow> bool \<Rightarrow> restore_options \<Rightarrow> bool" where
  "needs_catalog dn cross op = list_ex (\<lambda>nm. target_for nm cross op \<noteq> None) (dn_names dn)"

definition needs_map :: "str \<Rightarrow> str" where
  "needs_map nm =
     ''Cross-tenant DLP reference requires explicit --dlp-map '' @ [CHR 0x22] @ nm
     @ ''=<destination-name>'' @ [CHR 0x22]
     @ ''; DLP resources are not cloned. Inspect destination resources with airs runtime dlp profiles list --all --output json, or explicitly accept --on-missing-dlp basic.''"

fun unresolved_names :: "str list \<Rightarrow> bool \<Rightarrow> restore_options \<Rightarrow> (str, str list) result" where
  "unresolved_names [] cross op = Ok []"
| "unresolved_names (nm # names) cross op =
     (if target_for nm cross op = None
      then if op_missing_dlp op = MissingError then Err (needs_map nm)
           else bind_r (unresolved_names names cross op) (\<lambda>rest. Ok (nm # rest))
      else unresolved_names names cross op)"

definition dlp_names_of_plans :: "profile_plan list \<Rightarrow> bool \<Rightarrow> restore_options \<Rightarrow> (str, dlp_names) result" where
  "dlp_names_of_plans plans cross op =
     (if \<not> (cross \<or> op_missing_dlp op = MissingBasic)
      then Ok \<lparr>dn_refs = [], dn_names = [], dn_unresolved = []\<rparr>
      else bind_r (refused (collect_r (\<lambda>pl. dlp_references (source_policy pl)) (not_skipped plans))) (\<lambda>refs.
        let names = unique_onto [] (map dr_name (concat refs)) in
        bind_r (unresolved_names names cross op) (\<lambda>un.
          Ok \<lparr>dn_refs = concat refs, dn_names = names, dn_unresolved = un\<rparr>)))"

text \<open>\<open>retired_profile\<close> of \<open>src/dlp/backup.rs\<close>.\<close>

definition retired_profile :: "json \<Rightarrow> bool" where
  "retired_profile record =
     (json_str record ''profile_status'' \<in> {Some ''deleted'', Some ''disabled''})"

definition catalog_matches :: "json list \<Rightarrow> str \<Rightarrow> json list" where
  "catalog_matches catalog target =
     filter (\<lambda>p. json_str p ''name'' = Some target \<and> \<not> retired_profile p) catalog"


text \<open>
  The last stage of the restore planner of \<open>src/runtime/transfer/plan.rs\<close>: \<open>mapped_policy\<close> binds the
  references of a policy to the destination's records, \<open>finish_plan\<close> resolves the DLP names, plans the
  Basic fallbacks and checks the profiles that are only verified.
\<close>

section \<open>The mapped policy\<close>

definition topic_fields :: "str list" where
  "topic_fields = [''topic_id'', ''topic_name'', ''revision'']"

definition set_field :: "json \<Rightarrow> jobject \<Rightarrow> str \<Rightarrow> jobject" where
  "set_field topic m field = (case jget topic field of
      Some v \<Rightarrow> jinsert m field v | None \<Rightarrow> jremove m field)"

definition edit_object :: "json \<Rightarrow> jpath \<Rightarrow> (jobject \<Rightarrow> jobject) \<Rightarrow> json" where
  "edit_object policy path f =
     edit_at policy path (\<lambda>v. case v of JObject m \<Rightarrow> JObject (f m) | _ \<Rightarrow> v)"

definition missing_topic :: str where
  "missing_topic = ''Missing planned topic mapping; an existing profile cannot be verified without its destination dependencies''"

definition bound_topic :: "writers \<Rightarrow> (str \<times> json) list \<Rightarrow> topic_ref \<Rightarrow> json option" where
  "bound_topic wr topics r = (case map_of topics (tr_key wr r) of
      Some t \<Rightarrow> if truthy (jget t ''topic_id'') then Some t else None
    | None \<Rightarrow> None)"

fun bind_topics :: "writers \<Rightarrow> (str \<times> json) list \<Rightarrow> topic_ref list \<Rightarrow> json \<Rightarrow> (refusal, json) result" where
  "bind_topics wr topics [] policy = Ok policy"
| "bind_topics wr topics (r # refs) policy =
     (case bound_topic wr topics r of
        None \<Rightarrow> Err (Stated missing_topic)
      | Some t \<Rightarrow> bind_topics wr topics refs
          (edit_object policy (tr_path r) (\<lambda>m. foldl (set_field t) m topic_fields)))"

definition mapping_for :: "dlp_mapping list \<Rightarrow> str \<Rightarrow> dlp_mapping option" where
  "mapping_for mappings nm = find (\<lambda>dm. dm_source dm = nm) mappings"

definition bound_member :: "dlp_mapping \<Rightarrow> dlp_kind \<Rightarrow> jobject \<Rightarrow> jobject" where
  "bound_member dm kind m =
     (let named = (case kind of
          Embedded \<Rightarrow> jinsert (jinsert m ''name'' (JString (dm_destination dm))) ''uuid'' (JString (dm_id dm))
        | Member \<Rightarrow> jinsert m ''text'' (JString (dm_destination dm)))
      in if contains_key named ''id'' then jinsert named ''id'' (JString (dm_id dm)) else named)"

definition bind_member :: "writers \<Rightarrow> dlp_mapping \<Rightarrow> dlp_kind \<Rightarrow> jobject \<Rightarrow> (refusal, jobject) result" where
  "bind_member wr dm kind m =
     (let b = bound_member dm kind m in
      if contains_key b ''version'' then
        (case dm_version dm of
           None \<Rightarrow> Err (Stated ''Destination DLP version is unknown'')
         | Some v \<Rightarrow> Ok (jinsert b ''version'' (JString (scalar_text wr (Some v)))))
      else Ok b)"

fun bind_dlp :: "writers \<Rightarrow> dlp_mapping list \<Rightarrow> dlp_ref list \<Rightarrow> json \<Rightarrow> (refusal, json) result" where
  "bind_dlp wr mappings [] policy = Ok policy"
| "bind_dlp wr mappings (r # refs) policy =
     (case mapping_for mappings (dr_name r) of
        None \<Rightarrow> bind_dlp wr mappings refs policy
      | Some dm \<Rightarrow>
          (case value_at policy (dr_path r) of
             Some (JObject m) \<Rightarrow>
               bind_r (bind_member wr dm (dr_kind r) m) (\<lambda>m'.
                 bind_dlp wr mappings refs (edit_at policy (dr_path r) (\<lambda>_. JObject m')))
           | _ \<Rightarrow> bind_dlp wr mappings refs policy))"

definition effective_policy :: "profile_plan \<Rightarrow> json option" where
  "effective_policy item = (case pp_fallback item of Some p \<Rightarrow> Some p | None \<Rightarrow> source_policy item)"

definition mapped_policy :: "writers \<Rightarrow> profile_plan \<Rightarrow> dlp_mapping list \<Rightarrow> (str \<times> json) list
    \<Rightarrow> (refusal, json) result" where
  "mapped_policy wr item mappings topics =
     (let policy = (case effective_policy item of Some p \<Rightarrow> p | None \<Rightarrow> JNull) in
      bind_r (topic_references (Some policy)) (\<lambda>refs.
      bind_r (bind_topics wr topics refs policy) (\<lambda>policy'.
      bind_r (dlp_references (Some policy')) (\<lambda>dlp.
        bind_dlp wr mappings dlp policy'))))"

section \<open>Stage 5\<close>

record restore_plan =
  rp_source_tsg :: str
  rp_destination_tsg :: str
  rp_profiles :: "profile_plan list"
  rp_topics :: "topic_plan list"
  rp_dlp_mappings :: "dlp_mapping list"
  rp_dlp_fallbacks :: "dlp_fallback list"
  rp_server_defaults :: "server_defaults list"
  rp_cross_tenant :: bool

definition rp_changing :: "restore_plan \<Rightarrow> nat" where
  "rp_changing plan =
     length (filter (\<lambda>pl. pp_action pl = Create \<or> pp_action pl = Update) (rp_profiles plan))"

definition rp_updates :: "restore_plan \<Rightarrow> nat" where
  "rp_updates plan = length (filter (\<lambda>pl. pp_action pl = Update) (rp_profiles plan))"

definition non_null :: "json option \<Rightarrow> json option" where
  "non_null v = (case v of Some JNull \<Rightarrow> None | w \<Rightarrow> w)"

text \<open>One name: what it is bound to, or that it stays unresolved (\<open>None\<close>).\<close>

definition resolve_dlp :: "writers \<Rightarrow> dlp_names \<Rightarrow> json list \<Rightarrow> restore_options \<Rightarrow> str \<Rightarrow> str
    \<Rightarrow> (str, dlp_mapping option) result" where
  "resolve_dlp wr dn catalog op nm target =
     (let found = catalog_matches catalog target in
      if found = [] \<and> op_missing_dlp op = MissingBasic then Ok None
      else (case found of
          [only] \<Rightarrow>
            if truthy (jget only ''id'') then
              (let version = non_null (jget only ''version'') in
               if list_ex (\<lambda>r. dr_name r = nm \<and> dr_has_version r) (dn_refs dn) \<and> version = None
               then Err (''Destination DLP version is unknown: '' @ target)
               else Ok (Some \<lparr>dm_source = nm, dm_destination = target,
                              dm_id = scalar_text wr (jget only ''id''), dm_version = version\<rparr>))
            else Err (''Missing or ambiguous destination DLP profile: '' @ target)
        | _ \<Rightarrow> Err (''Missing or ambiguous destination DLP profile: '' @ target)))"

fun resolve_names :: "writers \<Rightarrow> dlp_names \<Rightarrow> json list \<Rightarrow> bool \<Rightarrow> restore_options \<Rightarrow> str list
    \<Rightarrow> str list \<Rightarrow> dlp_mapping list \<Rightarrow> (str, str list \<times> dlp_mapping list) result" where
  "resolve_names wr dn catalog cross op [] un bound = Ok (un, bound)"
| "resolve_names wr dn catalog cross op (nm # names) un bound =
     (case target_for nm cross op of
        None \<Rightarrow> resolve_names wr dn catalog cross op names un bound
      | Some target \<Rightarrow>
          bind_r (resolve_dlp wr dn catalog op nm target) (\<lambda>r. case r of
              None \<Rightarrow> resolve_names wr dn catalog cross op names (un @ [nm]) bound
            | Some dm \<Rightarrow> resolve_names wr dn catalog cross op names un (bound @ [dm])))"

definition plan_fallback :: "schemas \<Rightarrow> str list \<Rightarrow> profile_plan
    \<Rightarrow> (str, profile_plan \<times> dlp_fallback list) result" where
  "plan_fallback sc un pl =
     (if pp_action pl = Skip then Ok (pl, [])
      else bind_r (dlp_names_of (source_policy pl)) (\<lambda>replaced.
        let missing = filter (\<lambda>nm. nm \<in> set un) replaced in
        if missing = [] then Ok (pl, [])
        else bind_r (basic_fallback sc (source_policy pl)) (\<lambda>p.
          Ok (pl\<lparr>pp_fallback := Some p\<rparr>,
              [\<lparr>df_profile = pp_name pl, df_unresolved = missing, df_replaced = replaced\<rparr>]))))"

definition active_differs :: "json option \<Rightarrow> json \<Rightarrow> bool" where
  "active_differs existing source =
     (jget source ''active'' \<noteq> None
      \<and> \<not> strict_eq (Option.bind existing (\<lambda>r. jget r ''active'')) (jget source ''active''))"

definition verify_profile :: "writers \<Rightarrow> dlp_mapping list \<Rightarrow> (str \<times> json) list \<Rightarrow> profile_plan
    \<Rightarrow> (str, server_defaults list) result" where
  "verify_profile wr mappings topics item =
     bind_r (refused (mapped_policy wr item mappings topics)) (\<lambda>expected.
       let cmp = compare_policies (Some expected) (Option.bind (pp_existing item) (\<lambda>r. jget r ''policy'')) in
       if \<not> c_matches cmp \<or> active_differs (pp_existing item) (pp_source item)
       then Err (''Destination profile does not match restore plan: '' @ pp_name item
         @ ''; verification made no changes'')
       else Ok (if c_server_defaults cmp \<noteq> []
                then [\<lparr>sd_profile = pp_name item, sd_fields = c_server_defaults cmp\<rparr>] else []))"

definition existing_topics :: "topic_plan list \<Rightarrow> (str \<times> json) list" where
  "existing_topics topics =
     List.map_filter (\<lambda>tp. map_option (Pair (tp_key tp)) (tp_existing tp)) topics"

text \<open>The names left in the policies that are written or verified.\<close>

definition remaining_names :: "profile_plan list \<Rightarrow> (str, str list) result" where
  "remaining_names profiles =
     bind_r (collect_r (\<lambda>pl. dlp_names_of (effective_policy pl)) (not_skipped profiles))
       (\<lambda>names. Ok (concat names))"

record finish_input =
  fi_source_tsg :: str
  fi_destination_tsg :: str
  fi_cross_tenant :: bool
  fi_profiles :: "profile_plan list"
  fi_topics :: "topic_plan list"
  fi_dlp :: dlp_names
  fi_catalog :: "json list"

definition finish_plan :: "writers \<Rightarrow> schemas \<Rightarrow> finish_input \<Rightarrow> restore_options \<Rightarrow> (str, restore_plan) result" where
  "finish_plan wr sc fi op =
     bind_r (resolve_names wr (fi_dlp fi) (fi_catalog fi) (fi_cross_tenant fi) op (dn_names (fi_dlp fi))
               (dn_unresolved (fi_dlp fi)) []) (\<lambda>(un, bound).
     bind_r (collect_r (plan_fallback sc un) (fi_profiles fi)) (\<lambda>planned.
     let profiles = map fst planned in
     bind_r (remaining_names profiles) (\<lambda>remaining.
     let mappings = filter (\<lambda>dm. dm_source dm \<in> set remaining) bound in
     bind_r (collect_r (verify_profile wr mappings (existing_topics (fi_topics fi)))
               (filter (\<lambda>pl. pp_action pl = Verify) profiles)) (\<lambda>defaults.
       Ok \<lparr>rp_source_tsg = fi_source_tsg fi, rp_destination_tsg = fi_destination_tsg fi,
           rp_profiles = profiles, rp_topics = fi_topics fi, rp_dlp_mappings = mappings,
           rp_dlp_fallbacks = concat (map snd planned), rp_server_defaults = concat defaults,
           rp_cross_tenant = fi_cross_tenant fi\<rparr>))))"

end
