(* ===== verification/DlpSweep.thy ===== *)
theory DlpSweep
  imports JsonValue TermInput
begin

text \<open>
  The inventory dlp_sweep of \<open>src/dlp/backup.rs\<close>: pages 0, 1, ... of one kind of DLP resource, each
  checked against every metadata field it supplies. Metadata of the wrong type is the error
  \<open>Err ()\<close>, which every caller turns into the text of inconsistent metadata.
\<close>

section \<open>Resources and metadata\<close>

datatype resource = Dictionaries | Patterns | DataProfiles

fun resource_label :: "resource \<Rightarrow> str" where
  "resource_label Dictionaries = ''dictionaries''"
| "resource_label Patterns = ''data patterns''"
| "resource_label DataProfiles = ''data profiles''"

definition max_records :: nat where "max_records = 10000"

definition number_field :: "json option \<Rightarrow> str \<Rightarrow> (unit, rat option) result" where
  "number_field obj key = (case Option.bind obj (\<lambda>v. jget v key) of
      None \<Rightarrow> Ok None
    | Some (JNumber n) \<Rightarrow> Ok (Some (f64_of n))
    | Some _ \<Rightarrow> Err ())"

definition bool_field :: "json \<Rightarrow> str \<Rightarrow> (unit, bool option) result" where
  "bool_field obj key = (case jget obj key of
      None \<Rightarrow> Ok None
    | Some (JBool b) \<Rightarrow> Ok (Some b)
    | Some _ \<Rightarrow> Err ())"

definition alias_of :: "rat option \<Rightarrow> rat option \<Rightarrow> (unit, rat option) result" where
  "alias_of camel snake = (case (camel, snake) of
      (Some a, Some b) \<Rightarrow> if a \<noteq> b then Err () else Ok (Some a)
    | (Some a, None) \<Rightarrow> Ok (Some a)
    | (None, b) \<Rightarrow> Ok b)"

definition aliased_field :: "json option \<Rightarrow> str \<Rightarrow> str \<Rightarrow> (unit, rat option) result" where
  "aliased_field obj camel snake =
     bind_r (number_field obj camel) (\<lambda>a. bind_r (number_field obj snake) (\<lambda>b. alias_of a b))"

definition safe_integer :: "rat \<Rightarrow> bool" where
  "safe_integer r = (of_int \<lfloor>r\<rfloor> = r \<and> \<bar>r\<bar> \<le> of_nat max_safe_integer)"

text \<open>
  The quotient of a safe integer and a page size as a double: 53 bits, ties to even. (Below 1 the
  rounding here is to \<open>2 ^ -53\<close>, which no \<open>ceil\<close> can tell from the double's.)
\<close>

definition f64_quotient :: "rat \<Rightarrow> rat \<Rightarrow> rat" where
  "f64_quotient a b =
     (let unit = 2 ^ (53 - bits \<lfloor>a / b\<rfloor>); q = \<lfloor>a / b * unit\<rfloor>; r = a / b * unit - of_int q;
          q' = (if r < 1 / 2 \<or> r = 1 / 2 \<and> even q then q else q + 1)
      in of_int q' / unit)"

section \<open>The dlp_sweep\<close>

datatype sweep_step = MorePages | SweepDone

record dlp_sweep =
  sw_label :: str
  sw_items :: "json list"
  sw_ids :: "str set"
  sw_total_pages :: "rat option"
  sw_total_elements :: "rat option"
  sw_effective :: "rat option"

definition sweep_new :: "resource \<Rightarrow> dlp_sweep" where
  "sweep_new res = \<lparr>sw_label = resource_label res, sw_items = [], sw_ids = {}, sw_total_pages = None,
                    sw_total_elements = None, sw_effective = None\<rparr>"

definition sweep_inconsistent :: "str \<Rightarrow> str" where
  "sweep_inconsistent label =
     ''Inventory of '' @ label @ '' has inconsistent pagination metadata; retry the operation''"

definition sweep_incomplete :: "dlp_sweep \<Rightarrow> str" where
  "sweep_incomplete sw = ''Inventory of '' @ sw_label sw @ '' is incomplete: increase --max-pages''"

definition consistent :: "str \<Rightarrow> (unit, 'a) result \<Rightarrow> (str, 'a) result" where
  "consistent label r = (case r of Inl _ \<Rightarrow> Inl (sweep_inconsistent label) | Inr x \<Rightarrow> Inr x)"

definition require :: "str \<Rightarrow> bool \<Rightarrow> (str, unit) result" where
  "require m b = (if b then Ok () else Err m)"

definition or_else :: "'a option \<Rightarrow> 'a option \<Rightarrow> 'a option" where
  "or_else a b = (case a of Some x \<Rightarrow> Some x | None \<Rightarrow> b)"

definition agrees :: "('a \<Rightarrow> bool) \<Rightarrow> 'a option \<Rightarrow> bool" where
  "agrees P v = (case v of Some x \<Rightarrow> P x | None \<Rightarrow> True)"

text \<open>The page size of a page: what its fields supply, else that of an earlier page, else 100.\<close>

definition page_size_of :: "dlp_sweep \<Rightarrow> json \<Rightarrow> json option \<Rightarrow> (str, rat option \<times> rat) result" where
  "page_size_of sw answer pageable =
     bind_r (consistent (sw_label sw) (aliased_field pageable ''pageSize'' ''page_size'')) (\<lambda>psize.
     bind_r (consistent (sw_label sw) (bind_r (number_field (Some answer) ''size'') (\<lambda>s. alias_of s psize)))
       (\<lambda>supplied.
     bind_r (require (sweep_inconsistent (sw_label sw))
               (agrees (\<lambda>s. safe_integer s \<and> 1 \<le> s \<and> s \<le> 100 \<and> agrees (\<lambda>e. e = s) (sw_effective sw)) supplied))
       (\<lambda>_. Ok (psize,
              case or_else supplied (sw_effective sw) of Some e \<Rightarrow> e | None \<Rightarrow> 100))))"

text \<open>The fields that must have the value the request implies.\<close>

definition page_numbers_fit :: "json \<Rightarrow> json option \<Rightarrow> rat option \<Rightarrow> rat \<Rightarrow> rat \<Rightarrow> rat
    \<Rightarrow> (unit, bool) result" where
  "page_numbers_fit answer pageable psize index effective len =
     bind_r (number_field (Some answer) ''number'') (\<lambda>num.
     bind_r (number_field (Some answer) ''size'') (\<lambda>sz.
     bind_r (aliased_field (Some answer) ''numberOfElements'' ''number_of_elements'') (\<lambda>count.
     bind_r (aliased_field pageable ''pageNumber'' ''page_number'') (\<lambda>pnum.
     bind_r (number_field pageable ''offset'') (\<lambda>off.
       Ok (agrees (\<lambda>v. v = index) num \<and> agrees (\<lambda>v. v = effective) sz \<and> agrees (\<lambda>v. v = len) count
           \<and> agrees (\<lambda>v. v = index) pnum \<and> agrees (\<lambda>v. v = effective) psize
           \<and> agrees (\<lambda>v. v = index * effective) off))))))"

definition total_fits :: "rat option \<Rightarrow> rat option \<Rightarrow> bool" where
  "total_fits actual previous =
     agrees (\<lambda>a. safe_integer a \<and> 0 \<le> a \<and> agrees (\<lambda>p. p = a) previous) actual"

definition totals_fit :: "rat option \<Rightarrow> rat option \<Rightarrow> rat \<Rightarrow> rat \<Rightarrow> rat \<Rightarrow> bool" where
  "totals_fit pages elements index effective len =
     ((case (pages, elements) of
         (Some p, Some e) \<Rightarrow> p = of_int \<lceil>f64_quotient e effective\<rceil> | _ \<Rightarrow> True)
      \<and> agrees (\<lambda>p. index < max p 1 \<and> (p = 0 \<longrightarrow> len = 0)) pages
      \<and> agrees (\<lambda>e. len = min effective (max (e - index * effective) 0)) elements)"

fun keep_rows :: "str \<Rightarrow> json list \<Rightarrow> json list \<Rightarrow> str set \<Rightarrow> (str, json list \<times> str set) result" where
  "keep_rows label [] items ids = Ok (items, ids)"
| "keep_rows label (item # content) items ids =
     (case jget item ''id'' of
        Some (JString i) \<Rightarrow>
          if rust_trim i = []
          then Err (''Inventory of '' @ label @ '' contains a missing resource ID; retry the operation'')
          else if i \<in> ids
          then Err (''Inventory of '' @ label @ '' contains duplicate resource IDs; retry the operation'')
          else keep_rows label content (items @ [item]) (insert i ids)
      | _ \<Rightarrow> Err (''Inventory of '' @ label @ '' contains a missing resource ID; retry the operation''))"

definition expected_last :: "dlp_sweep \<Rightarrow> rat \<Rightarrow> bool option" where
  "expected_last sw index = (case (sw_total_pages sw, sw_total_elements sw) of
      (Some p, _) \<Rightarrow> Some (p \<le> index + 1)
    | (None, Some e) \<Rightarrow> Some (of_nat (length (sw_items sw)) = e)
    | (None, None) \<Rightarrow> None)"

text \<open>The end of a page: whether it is the last one, and whether that is consistent.\<close>

definition sweep_end :: "dlp_sweep \<Rightarrow> json \<Rightarrow> json list \<Rightarrow> rat \<Rightarrow> rat \<Rightarrow> (str, sweep_step \<times> dlp_sweep) result" where
  "sweep_end sw answer content index effective =
     (let bad = sweep_inconsistent (sw_label sw); len = of_nat (length content) in
      bind_r (consistent (sw_label sw) (bool_field answer ''last'')) (\<lambda>reported.
      bind_r (require bad (case (reported, expected_last sw index) of
          (Some r, Some e) \<Rightarrow> r = e | _ \<Rightarrow> True)) (\<lambda>_.
      let last = (case or_else reported (expected_last sw index) of Some l \<Rightarrow> l | None \<Rightarrow> len < effective) in
      bind_r (require bad (agrees (\<lambda>p. 0 < p \<longrightarrow>
          \<not> (\<not> last \<and> len \<noteq> effective \<or> last \<and> content = [])) (sw_total_pages sw))) (\<lambda>_.
        if last then
          (if agrees (\<lambda>e. of_nat (length (sw_items sw)) = e) (sw_total_elements sw)
           then Ok (SweepDone, sw) else Err bad)
        else if content = [] then Err (''Inventory of '' @ sw_label sw @ '' did not advance'')
        else Ok (MorePages, sw)))))"

definition sweep_accept :: "dlp_sweep \<Rightarrow> nat \<Rightarrow> json \<Rightarrow> (str, sweep_step \<times> dlp_sweep) result" where
  "sweep_accept sw page_no answer =
     (let label = sw_label sw; bad = sweep_inconsistent label; index = of_nat page_no in
      case Option.bind (jget answer ''content'') as_array of
        None \<Rightarrow> Err bad
      | Some content \<Rightarrow>
          (let pageable = (case jget answer ''pageable'' of
               Some (JObject m) \<Rightarrow> Some (JObject m) | _ \<Rightarrow> None);
               len = of_nat (length content) in
           bind_r (page_size_of sw answer pageable) (\<lambda>(psize, effective).
           bind_r (consistent label (aliased_field (Some answer) ''totalPages'' ''total_pages'')) (\<lambda>pages.
           bind_r (consistent label (aliased_field (Some answer) ''totalElements'' ''total_elements''))
             (\<lambda>elements.
           bind_r (require (''Inventory of '' @ label @ '' exceeds the '' @ dec max_records @ ''-record safety limit'')
                     (length (sw_items sw) + length content \<le> max_records)) (\<lambda>_.
           bind_r (consistent label (page_numbers_fit answer pageable psize index effective len)) (\<lambda>numbers_fit.
           bind_r (require bad numbers_fit) (\<lambda>_.
           bind_r (consistent label (bool_field answer ''first'')) (\<lambda>first.
           bind_r (consistent label (bool_field answer ''empty'')) (\<lambda>none.
           bind_r (require bad (agrees (\<lambda>b. b = (page_no = 0)) first \<and> agrees (\<lambda>b. b = (content = [])) none)) (\<lambda>_.
           bind_r (require bad (total_fits pages (sw_total_pages sw)
                                \<and> total_fits elements (sw_total_elements sw))) (\<lambda>_.
           let pages' = or_else pages (sw_total_pages sw);
               elements' = or_else elements (sw_total_elements sw) in
           bind_r (require bad (totals_fit pages' elements' index effective len)) (\<lambda>_.
           bind_r (keep_rows label content (sw_items sw) (sw_ids sw)) (\<lambda>(items, ids).
             sweep_end
               (sw\<lparr>sw_items := items, sw_ids := ids, sw_total_pages := pages', sw_total_elements := elements',
                   sw_effective := Some effective\<rparr>)
               answer content index effective)))))))))))))) "

end
