(* ===== verification/RestoreRun.thy ===== *)
theory RestoreRun
  imports RestorePlan DlpSweep World
begin

text \<open>
  The execution of \<open>runtime profiles restore\<close> (\<open>src/commands/profile_restore.rs\<close>) and the outcome
  of one management write (\<open>src/writes.rs\<close>). The management service is a parameter: every request
  is a function of an arbitrary state of the outside world. The executor's state is its outcome, its
  cursor and the interrupt context; \<open>ex_sent\<close> records every write that was dispatched with its
  answer, for the properties only.
\<close>

section \<open>One write\<close>

definition replayable :: "error_facts \<Rightarrow> bool" where
  "replayable e = (kind_of e = KHttp \<and> http_of e = Some 401 \<and> outcome_of e = RejectedOutcome)"

datatype write_failure =
    WriteRejected "nat option"
  | WriteUnknown
  | WriteUnreadable
  | WriteLocal
  | WriteInterrupted bool

definition classify_write :: "error_facts \<Rightarrow> write_failure" where
  "classify_write e =
     (if kind_of e = KCancelled then WriteInterrupted (outcome_of e \<noteq> NotSentOutcome)
      else if kind_of e = KDecode \<and> (case http_of e of Some s \<Rightarrow> 200 \<le> s \<and> s < 300 | None \<Rightarrow> False)
      then WriteUnreadable
      else if outcome_of e = UnknownOutcome then WriteUnknown
      else if kind_of e = KHttp \<and> outcome_of e = RejectedOutcome then WriteRejected (http_of e)
      else WriteLocal)"

datatype write_request = CreateTopic json | CreateProfile json | UpdateProfile str json

record 'w service =
  sv_page :: "collection \<Rightarrow> nat \<Rightarrow> 'w \<Rightarrow> (error_facts, json) result \<times> 'w"
  sv_data_profiles :: "nat \<Rightarrow> 'w \<Rightarrow> (error_facts, json) result \<times> 'w"
  sv_has_dlp :: bool
  sv_write :: "write_request \<Rightarrow> 'w \<Rightarrow> (error_facts, json) result \<times> 'w"
  sv_signal :: "'w \<Rightarrow> bool"

section \<open>The outcome\<close>

datatype item_kind = TopicItem | ProfileItem

fun kind_words :: "item_kind \<Rightarrow> str" where
  "kind_words TopicItem = ''custom topic''"
| "kind_words ProfileItem = ''security profile''"

record result_row =
  row_name :: str
  row_action :: str
  row_id :: "str option"

record restore_outcome =
  oc_complete :: bool
  oc_topics :: "result_row list"
  oc_profiles :: "result_row list"
  oc_server_defaults :: "server_defaults list"
  oc_unknown :: "(item_kind \<times> str \<times> str) option"
  oc_not_attempted :: "(item_kind \<times> str) list"
  oc_error :: "str option"
  oc_written_topics :: nat
  oc_written_profiles :: nat

definition no_outcome :: restore_outcome where
  "no_outcome = \<lparr>oc_complete = False, oc_topics = [], oc_profiles = [], oc_server_defaults = [],
                 oc_unknown = None, oc_not_attempted = [], oc_error = None, oc_written_topics = 0,
                 oc_written_profiles = 0\<rparr>"

definition oc_written :: "restore_outcome \<Rightarrow> bool" where
  "oc_written oc = (0 < oc_written_topics oc + oc_written_profiles oc \<or> oc_unknown oc \<noteq> None)"

definition outcome_context :: "restore_outcome \<Rightarrow> interrupt_context" where
  "outcome_context oc =
     (if \<not> oc_written oc then NothingChanged
      else Context (dec (oc_written_topics oc) @ '' topic(s) and '' @ dec (oc_written_profiles oc)
        @ '' profile(s) written''
        @ (case oc_unknown oc of
             Some (kind, nm, act) \<Rightarrow> ''; the '' @ kind_words kind @ '' '' @ terminal_safe nm
               @ '' may also have been '' @ act @ '' (outcome unknown)''
           | None \<Rightarrow> [])
        @ ''; run the restore again with --on-conflict verify to resume''))"

definition stopped_text :: str where
  "stopped_text = ''Restore stopped; verify destination state before retrying''"

definition stop_text :: "refusal \<Rightarrow> str" where
  "stop_text r = (case refusal_stated r of Some m \<Rightarrow> m | None \<Rightarrow> stopped_text)"

definition http_text :: "nat \<Rightarrow> str" where
  "http_text status =
     ''API request failed (HTTP '' @ dec status @ ''); verify destination state before retrying''"

definition absent_text :: "collection \<Rightarrow> bool \<Rightarrow> str" where
  "absent_text coll written =
     ''Destination inventory of '' @ collection_label coll @ '' was not returned; ''
     @ (if written then ''verify destination state before retrying'' else ''nothing was changed'')"

section \<open>The executor\<close>

datatype stop = StopFailed | StopInterrupted

record 'w executor =
  ex_world :: 'w
  ex_outcome :: restore_outcome
  ex_cursor :: "(nat \<times> nat) option"
  ex_interrupt :: interrupt_context
  ex_sent :: "(write_request \<times> (error_facts, json) result) list"

type_synonym ('w, 'a) act = "('w executor, stop, 'a) prog"

definition set_outcome :: "(restore_outcome \<Rightarrow> restore_outcome) \<Rightarrow> 'w executor \<Rightarrow> 'w executor" where
  "set_outcome f ex = ex\<lparr>ex_outcome := f (ex_outcome ex)\<rparr>"

definition stop_with :: "str \<Rightarrow> ('w, 'a) act" where
  "stop_with m = and_then (modifies (set_outcome (\<lambda>oc. oc\<lparr>oc_error := Some (terminal_safe m)\<rparr>)))
     (\<lambda>_. fail StopFailed)"

definition set_interrupt :: "('w, unit) act" where
  "set_interrupt = modifies (\<lambda>ex. ex\<lparr>ex_interrupt := outcome_context (ex_outcome ex)\<rparr>)"

definition stop_checkpoint :: "'w service \<Rightarrow> ('w, unit) act" where
  "stop_checkpoint sv = and_then set_interrupt (\<lambda>_.
     and_then (reads (\<lambda>ex. sv_signal sv (ex_world ex))) (\<lambda>signal.
       if signal then fail StopInterrupted else ret ()))"

definition asks :: "('w \<Rightarrow> 'a \<times> 'w) \<Rightarrow> ('w, 'a) act" where
  "asks f = (\<lambda>ex. case f (ex_world ex) of (x, w) \<Rightarrow> (Ok x, ex\<lparr>ex_world := w\<rparr>))"

text \<open>A failed inventory read.\<close>

definition read_failed :: "error_facts inventory_error \<Rightarrow> ('w, 'a) act" where
  "read_failed e = (case e of
      InventorySdk f \<Rightarrow>
        if kind_of f = KCancelled then fail StopInterrupted
        else (case http_of f of
            Some s \<Rightarrow> if kind_of f = KHttp then stop_with (http_text s) else stop_with stopped_text
          | None \<Rightarrow> stop_with stopped_text)
    | InventoryRule r \<Rightarrow> stop_with (stop_text r))"

definition or_read_failed :: "('w, (error_facts inventory_error, 'a) result) act \<Rightarrow> ('w, 'a) act" where
  "or_read_failed m = and_then m (\<lambda>r. case r of Inl e \<Rightarrow> read_failed e | Inr x \<Rightarrow> ret x)"

text \<open>One dispatch of a write, recorded, and the replay after a rejected 401.\<close>

definition dispatch :: "'w service \<Rightarrow> write_request \<Rightarrow> ('w, (error_facts, json) result) act" where
  "dispatch sv rq = and_then (asks (sv_write sv rq)) (\<lambda>answer.
     and_then (modifies (\<lambda>ex. ex\<lparr>ex_sent := ex_sent ex @ [(rq, answer)]\<rparr>)) (\<lambda>_. ret answer))"

definition attempt_write :: "'w service \<Rightarrow> write_request \<Rightarrow> ('w, (error_facts, json) result) act" where
  "attempt_write sv rq = and_then (dispatch sv rq) (\<lambda>answer. case answer of
      Inl e \<Rightarrow> if replayable e then dispatch sv rq else ret answer
    | Inr _ \<Rightarrow> ret answer)"

definition set_unknown :: "item_kind \<Rightarrow> str \<Rightarrow> str \<Rightarrow> ('w, unit) act" where
  "set_unknown kind nm act = modifies (set_outcome (\<lambda>oc. oc\<lparr>oc_unknown := Some (kind, nm, act)\<rparr>))"

definition recheck_hint :: str where
  "recheck_hint = ''run the restore again with --on-conflict verify to check it''"

definition write_failed :: "item_kind \<Rightarrow> str \<Rightarrow> str \<Rightarrow> write_failure \<Rightarrow> ('w, 'a) act" where
  "write_failed kind nm act failure = (case failure of
      WriteInterrupted was_sent \<Rightarrow>
        and_then (if was_sent then set_unknown kind nm act else ret ()) (\<lambda>_. fail StopInterrupted)
    | WriteRejected (Some status) \<Rightarrow> stop_with (http_text status)
    | WriteRejected None \<Rightarrow> stop_with stopped_text
    | WriteLocal \<Rightarrow> stop_with stopped_text
    | WriteUnknown \<Rightarrow> and_then (set_unknown kind nm act) (\<lambda>_.
        stop_with (''Outcome unknown: the '' @ kind_words kind @ '' '' @ nm @ '' may have been '' @ act
          @ ''; '' @ recheck_hint))
    | WriteUnreadable \<Rightarrow> and_then (set_unknown kind nm act) (\<lambda>_.
        stop_with (''Outcome: the '' @ kind_words kind @ '' '' @ nm @ '' was '' @ act
          @ '', but the response could not be read; '' @ recheck_hint)))"

section \<open>Reads of the destination\<close>

definition destination_profiles :: "writers \<Rightarrow> 'w service \<Rightarrow> str \<Rightarrow> nat \<Rightarrow> bool \<Rightarrow> 'w
    \<Rightarrow> (error_facts inventory_error, json list) result \<times> 'w" where
  "destination_profiles wr sv tsg max_pages written w =
     (case inventory (sv_page sv Profiles) Profiles max_pages (absent_text Profiles written) w of
        (Inl e, w') \<Rightarrow> (Err e, w')
      | (Inr items, w') \<Rightarrow>
          (case bind_r (inventory_profiles wr items) (\<lambda>profiles.
                  bind_r (assert_tenant wr profiles tsg) (\<lambda>_. Ok profiles)) of
             Inl r \<Rightarrow> (Err (InventoryRule r), w')
           | Inr profiles \<Rightarrow> (Ok profiles, w')))"

definition destination_topics :: "'w service \<Rightarrow> nat \<Rightarrow> bool \<Rightarrow> 'w
    \<Rightarrow> (error_facts inventory_error, json list) result \<times> 'w" where
  "destination_topics sv max_pages written w =
     (case inventory (sv_page sv Topics) Topics max_pages (absent_text Topics written) w of
        (Inl e, w') \<Rightarrow> (Err e, w')
      | (Inr items, w') \<Rightarrow> (Ok (map value_of items), w'))"

text \<open>The dlp_sweep of the DLP data profiles, at most \<open>max_pages\<close> pages.\<close>

fun catalog_loop :: "'w service \<Rightarrow> nat list \<Rightarrow> dlp_sweep \<Rightarrow> 'w
    \<Rightarrow> (error_facts inventory_error, json list) result \<times> 'w" where
  "catalog_loop sv [] sw w = (Err (InventoryRule (Stated (sweep_incomplete sw))), w)"
| "catalog_loop sv (page_no # page_nos) sw w =
     (case sv_data_profiles sv page_no w of
        (Inl e, w') \<Rightarrow> (Err (InventorySdk e), w')
      | (Inr answer, w') \<Rightarrow>
          (case sweep_accept sw page_no answer of
             Inl m \<Rightarrow> (Err (InventoryRule (Stated m)), w')
           | Inr (SweepDone, sw') \<Rightarrow> (Ok (map value_of (sw_items sw')), w')
           | Inr (MorePages, sw') \<Rightarrow> catalog_loop sv page_nos sw' w'))"

definition dlp_catalog :: "'w service \<Rightarrow> nat \<Rightarrow> 'w
    \<Rightarrow> (error_facts inventory_error, json list) result \<times> 'w" where
  "dlp_catalog sv max_pages w =
     (if sv_has_dlp sv then catalog_loop sv [0..<max_pages] (sweep_new DataProfiles) w
      else (Err (InventoryRule (Withheld stopped_text)), w))"

section \<open>The recheck\<close>

definition profile_changed :: "json list \<Rightarrow> profile_plan \<Rightarrow> bool" where
  "profile_changed stock item =
     (let current = find_named stock ''profile_name'' (pp_name item) in
      case pp_existing item of
        Some existing \<Rightarrow> \<not> unchanged current existing
      | None \<Rightarrow> current \<noteq> None)"

definition mapping_unchanged :: "writers \<Rightarrow> json list \<Rightarrow> dlp_mapping \<Rightarrow> bool" where
  "mapping_unchanged wr catalog dm = (case catalog_matches catalog (dm_destination dm) of
      [only] \<Rightarrow>
        (case jget only ''id'' of
           Some (JString i) \<Rightarrow> i = dm_id dm
         | Some (JNumber n) \<Rightarrow> js_number (w_number wr) (f64_of n) = dm_id dm
         | _ \<Rightarrow> False)
        \<and> strict_eq (non_null (jget only ''version'')) (dm_version dm)
    | _ \<Rightarrow> False)"

record 'w restore_env =
  re_writers :: writers
  re_schemas :: schemas
  re_service :: "'w service"
  re_plan :: restore_plan
  re_max_pages :: nat

definition read_profiles :: "'w restore_env \<Rightarrow> bool \<Rightarrow> ('w, json list) act" where
  "read_profiles re written = or_read_failed (asks (destination_profiles (re_writers re) (re_service re)
     (rp_destination_tsg (re_plan re)) (re_max_pages re) written))"

definition written_so_far :: "('w, bool) act" where
  "written_so_far = reads (\<lambda>ex. oc_written (ex_outcome ex))"

definition recheck :: "'w restore_env \<Rightarrow> ('w, unit) act" where
  "recheck re =
     and_then (read_profiles re False) (\<lambda>latest.
     and_then
       (if rp_dlp_mappings (re_plan re) = [] then ret ()
        else and_then (or_read_failed (asks (dlp_catalog (re_service re) (re_max_pages re)))) (\<lambda>catalog.
          for_each (\<lambda>dm. if mapping_unchanged (re_writers re) catalog dm then ret ()
              else stop_with (''Destination DLP profile changed after planning: '' @ dm_destination dm))
            (rp_dlp_mappings (re_plan re)))) (\<lambda>_.
       for_each (\<lambda>item. if profile_changed latest item
           then stop_with (''Destination profile changed after planning: '' @ pp_name item) else ret ())
         (not_skipped (rp_profiles (re_plan re)))))"

section \<open>Topics\<close>

definition push_topic :: "result_row \<Rightarrow> ('w, unit) act" where
  "push_topic row = modifies (set_outcome (\<lambda>oc. oc\<lparr>oc_topics := oc_topics oc @ [row]\<rparr>))"

definition topic_changed :: "topic_plan \<Rightarrow> ('w, 'a) act" where
  "topic_changed item = stop_with (''Destination topic changed after planning: '' @ tp_name item)"

definition create_topic :: "'w restore_env \<Rightarrow> topic_plan \<Rightarrow> json list \<Rightarrow> ('w, json) act" where
  "create_topic re item stock =
     (if find_named stock ''topic_name'' (tp_name item) \<noteq> None then topic_changed item
      else and_then (stop_checkpoint (re_service re)) (\<lambda>_.
        let body = topic_body (tp_name item) (tp_source item) in
        if \<not> topic_ok (re_schemas re) body then stop_with stopped_text
        else and_then (attempt_write (re_service re) (CreateTopic body)) (\<lambda>answer. case answer of
            Inl e \<Rightarrow> write_failed TopicItem (tp_name item) ''created'' (classify_write e)
          | Inr created \<Rightarrow>
              and_then (modifies (set_outcome (\<lambda>oc. oc\<lparr>oc_written_topics := Suc (oc_written_topics oc)\<rparr>))) (\<lambda>_.
              and_then set_interrupt (\<lambda>_. ret created)))))"

definition planned_topic :: "'w restore_env \<Rightarrow> topic_plan \<Rightarrow> json list \<Rightarrow> ('w, json) act" where
  "planned_topic re item stock = (case tp_existing item of
      Some existing \<Rightarrow>
        (case find (\<lambda>t. strict_eq (jget t ''topic_id'') (jget existing ''topic_id'')
                        \<and> strict_eq (jget t ''revision'') (jget existing ''revision'')) stock of
           Some current \<Rightarrow>
             if same_topic current (tp_source item) then ret existing else topic_changed item
         | None \<Rightarrow> topic_changed item)
    | None \<Rightarrow> create_topic re item stock)"

definition topic_verified :: "topic_plan \<Rightarrow> json \<Rightarrow> bool" where
  "topic_verified item topic =
     ((case json_str topic ''topic_id'' of Some i \<Rightarrow> i \<noteq> [] | None \<Rightarrow> False)
      \<and> json_str topic ''topic_name'' = Some (tp_name item)
      \<and> (case record_f64 topic ''revision'' of Some r \<Rightarrow> safe_integer r | None \<Rightarrow> False)
      \<and> same_topic topic (tp_source item))"

definition settle_topic :: "topic_plan \<Rightarrow> json \<Rightarrow> ('w, str \<times> json) act" where
  "settle_topic item topic =
     (if \<not> topic_verified item topic then
        and_then (if tp_existing item = None then
            push_topic \<lparr>row_name = tp_name item, row_action = ''created'',
              row_id = (case json_str topic ''topic_id'' of Some i \<Rightarrow> if i \<noteq> [] then Some i else None
                        | None \<Rightarrow> None)\<rparr>
            else ret ()) (\<lambda>_.
          stop_with (''Topic response did not verify: '' @ tp_name item))
      else
        and_then (push_topic \<lparr>row_name = tp_name item,
            row_action = (if tp_existing item \<noteq> None then ''reused'' else ''created''),
            row_id = json_str topic ''topic_id''\<rparr>) (\<lambda>_.
          ret (tp_key item, topic)))"

definition restore_topic :: "'w restore_env \<Rightarrow> nat \<Rightarrow> topic_plan \<Rightarrow> ('w, str \<times> json) act" where
  "restore_topic re index item =
     and_then (modifies (\<lambda>ex. ex\<lparr>ex_cursor := Some (0, index)\<rparr>)) (\<lambda>_.
     and_then written_so_far (\<lambda>written.
     and_then (or_read_failed (asks (destination_topics (re_service re) (re_max_pages re) written))) (\<lambda>stock.
     and_then (planned_topic re item stock) (settle_topic item))))"

fun restore_topics :: "'w restore_env \<Rightarrow> nat \<Rightarrow> topic_plan list \<Rightarrow> ('w, (str \<times> json) list) act" where
  "restore_topics re index [] = ret []"
| "restore_topics re index (item # items) =
     and_then (restore_topic re index item) (\<lambda>entry.
     and_then (restore_topics re (Suc index) items) (\<lambda>entries. ret (entry # entries)))"

end
