(* ===== verification/RestoreExec.thy ===== *)
theory RestoreExec
  imports RestoreRun
begin

text \<open>
  The rest of the executor of \<open>src/commands/profile_restore.rs\<close>: the profiles of a plan, what was
  not attempted, and \<open>execute\<close>, which stops at the first failure.
\<close>

section \<open>Profiles\<close>

definition push_profile :: "result_row \<Rightarrow> ('w, unit) act" where
  "push_profile row = modifies (set_outcome (\<lambda>oc. oc\<lparr>oc_profiles := oc_profiles oc @ [row]\<rparr>))"

definition push_defaults :: "profile_plan \<Rightarrow> str list \<Rightarrow> ('w, unit) act" where
  "push_defaults item paths =
     (if paths = [] then ret ()
      else modifies (set_outcome (\<lambda>oc. oc\<lparr>oc_server_defaults :=
        oc_server_defaults oc @ [\<lparr>sd_profile = pp_name item, sd_fields = paths\<rparr>]\<rparr>)))"

definition did_not_verify :: "profile_plan \<Rightarrow> ('w, 'a) act" where
  "did_not_verify item = stop_with (''Restored profile did not verify: '' @ pp_name item)"

definition compare_found :: "json \<Rightarrow> json option \<Rightarrow> comparison" where
  "compare_found policy found = compare_policies (Some policy) (Option.bind found (\<lambda>p. jget p ''policy''))"

definition found_id :: "json option \<Rightarrow> str option" where
  "found_id found = Option.bind found (\<lambda>p. json_str p ''profile_id'')"

definition verify_only :: "profile_plan \<Rightarrow> json \<Rightarrow> json option \<Rightarrow> ('w, unit) act" where
  "verify_only item policy current =
     (let cmp = compare_found policy current in
      if \<not> c_matches cmp then did_not_verify item
      else and_then (push_profile \<lparr>row_name = pp_name item, row_action = ''verified'',
               row_id = found_id current\<rparr>) (\<lambda>_.
             push_defaults item (c_server_defaults cmp)))"

definition done_word :: "plan_action \<Rightarrow> str" where
  "done_word act = (if act = Update then ''updated'' else ''created'')"

definition profile_request :: "profile_plan \<Rightarrow> json \<Rightarrow> write_request" where
  "profile_request item body =
     (if pp_action item = Update then
        (case found_id (pp_existing item) of
           Some i \<Rightarrow> UpdateProfile i body | None \<Rightarrow> CreateProfile body)
      else CreateProfile body)"

definition read_back_fits :: "profile_plan \<Rightarrow> str option \<Rightarrow> json option \<Rightarrow> comparison \<Rightarrow> bool" where
  "read_back_fits item response_id found cmp =
     (let verified_id = (case found_id found of Some i \<Rightarrow> if i \<noteq> [] then Some i else None | None \<Rightarrow> None);
          differs = ((case jget (pp_source item) ''active'' of Some (JBool _) \<Rightarrow> True | _ \<Rightarrow> False)
            \<and> \<not> strict_eq (Option.bind found (\<lambda>p. jget p ''active'')) (jget (pp_source item) ''active''))
      in verified_id \<noteq> None \<and> (response_id = None \<or> response_id = verified_id) \<and> \<not> differs
         \<and> c_matches cmp)"

definition check_written :: "'w restore_env \<Rightarrow> profile_plan \<Rightarrow> json \<Rightarrow> str option \<Rightarrow> ('w, unit) act" where
  "check_written re item policy response_id =
     and_then (read_profiles re True) (\<lambda>after.
       let found = find_named after ''profile_name'' (pp_name item); cmp = compare_found policy found in
       if \<not> read_back_fits item response_id found cmp then did_not_verify item
       else push_defaults item (c_server_defaults cmp))"

definition write_profile :: "'w restore_env \<Rightarrow> profile_plan \<Rightarrow> json \<Rightarrow> json \<Rightarrow> ('w, unit) act" where
  "write_profile re item policy body =
     and_then (stop_checkpoint (re_service re)) (\<lambda>_.
     and_then (attempt_write (re_service re) (profile_request item body)) (\<lambda>answer. case answer of
         Inl e \<Rightarrow> write_failed ProfileItem (pp_name item) (done_word (pp_action item)) (classify_write e)
       | Inr response \<Rightarrow>
           and_then (modifies (set_outcome (\<lambda>oc. oc\<lparr>oc_written_profiles := Suc (oc_written_profiles oc)\<rparr>))) (\<lambda>_.
           and_then set_interrupt (\<lambda>_.
           and_then (push_profile \<lparr>row_name = pp_name item, row_action = done_word (pp_action item),
               row_id = json_str response ''profile_id''\<rparr>) (\<lambda>_.
             check_written re item policy (json_str response ''profile_id''))))))"

text \<open>A profile that is not skipped: its body, the destination as it is now, then the check or the write.\<close>

definition apply_profile :: "'w restore_env \<Rightarrow> (str \<times> json) list \<Rightarrow> profile_plan \<Rightarrow> ('w, unit) act" where
  "apply_profile re topics item =
     (case mapped_policy (re_writers re) item (rp_dlp_mappings (re_plan re)) topics of
        Inl r \<Rightarrow> stop_with (stop_text r)
      | Inr policy \<Rightarrow>
          (let body = profile_body (pp_name item) (pp_source item) policy in
           if \<not> body_ok (re_schemas re) body then stop_with stopped_text
           else and_then written_so_far (\<lambda>written.
             and_then (read_profiles re written) (\<lambda>stock.
               if profile_changed stock item
               then stop_with (''Destination profile changed after planning: '' @ pp_name item)
               else if pp_action item = Verify
               then verify_only item policy (find_named stock ''profile_name'' (pp_name item))
               else write_profile re item policy body))))"

definition restore_profile :: "'w restore_env \<Rightarrow> (str \<times> json) list \<Rightarrow> nat \<Rightarrow> profile_plan \<Rightarrow> ('w, unit) act" where
  "restore_profile re topics index item =
     and_then (modifies (\<lambda>ex. ex\<lparr>ex_cursor := Some (1, index)\<rparr>)) (\<lambda>_.
       if pp_action item = Skip then
         push_profile \<lparr>row_name = pp_name item, row_action = ''skipped'',
           row_id = found_id (pp_existing item)\<rparr>
       else apply_profile re topics item)"

fun restore_profiles :: "'w restore_env \<Rightarrow> (str \<times> json) list \<Rightarrow> nat \<Rightarrow> profile_plan list \<Rightarrow> ('w, unit) act" where
  "restore_profiles re topics index [] = ret ()"
| "restore_profiles re topics index (item # items) =
     and_then (restore_profile re topics index item) (\<lambda>_. restore_profiles re topics (Suc index) items)"

section \<open>The run\<close>

definition after_cursor :: "(nat \<times> nat) option \<Rightarrow> nat \<Rightarrow> nat \<Rightarrow> bool" where
  "after_cursor cursor stage index = (case cursor of
      None \<Rightarrow> True
    | Some (s, i) \<Rightarrow> s < stage \<or> s = stage \<and> i < index)"

definition not_attempted_items :: "restore_plan \<Rightarrow> (nat \<times> nat) option \<Rightarrow> (item_kind \<times> str) list" where
  "not_attempted_items plan cursor =
     map (\<lambda>(i, item). (TopicItem, tp_name item))
       (filter (\<lambda>(i, _). after_cursor cursor 0 i) (enumerate 0 (rp_topics plan)))
     @ map (\<lambda>(i, item). (ProfileItem, pp_name item))
       (filter (\<lambda>(i, _). after_cursor cursor 1 i) (enumerate 0 (rp_profiles plan)))"

definition restore_stages :: "'w restore_env \<Rightarrow> ('w, unit) act" where
  "restore_stages re =
     and_then (recheck re) (\<lambda>_.
     and_then (restore_topics re 0 (rp_topics (re_plan re))) (\<lambda>topics.
       restore_profiles re topics 0 (rp_profiles (re_plan re))))"

definition start_executor :: "'w \<Rightarrow> 'w executor" where
  "start_executor w = \<lparr>ex_world = w, ex_outcome = no_outcome, ex_cursor = None,
                       ex_interrupt = NothingChanged, ex_sent = []\<rparr>"

definition execute :: "'w restore_env \<Rightarrow> 'w \<Rightarrow> (cli_error, restore_outcome) result \<times> 'w executor" where
  "execute re w = (case restore_stages re (start_executor w) of
      (Inl StopInterrupted, ex) \<Rightarrow> (Err (Interrupted (outcome_context (ex_outcome ex))), ex)
    | (r, ex) \<Rightarrow>
        (let oc = (case r of
             Inr _ \<Rightarrow> (ex_outcome ex)\<lparr>oc_complete := True\<rparr>
           | Inl _ \<Rightarrow> (ex_outcome ex)\<lparr>oc_not_attempted := not_attempted_items (re_plan re) (ex_cursor ex)\<rparr>)
         in (Ok oc, ex\<lparr>ex_outcome := oc, ex_interrupt := outcome_context oc\<rparr>)))"

end
