(* ===== verification/ExecCorrect.thy ===== *)
theory ExecCorrect
  imports RestoreExec
begin

text \<open>
  What an execution of a restore plan leaves behind: which writes were dispatched, what the outcome
  says of them, and which planned items it accounts for. \<open>wp m Q R s\<close> says that \<open>m\<close> from the state
  \<open>s\<close> either answers in a state with \<open>Q\<close> or stops in one with \<open>R\<close>; its equations turn a property of
  the executor into one of its states.
\<close>

section \<open>Weakest preconditions\<close>

named_theorems wp_simps

definition wp :: "('s, 'e, 'a) prog \<Rightarrow> ('a \<Rightarrow> 's \<Rightarrow> bool) \<Rightarrow> ('e \<Rightarrow> 's \<Rightarrow> bool) \<Rightarrow> 's \<Rightarrow> bool" where
  "wp m Q R s = (case m s of (Inl e, s') \<Rightarrow> R e s' | (Inr x, s') \<Rightarrow> Q x s')"

lemma wp_ret [wp_simps]: "wp (ret x) Q R s = Q x s"
  by (simp add: wp_def ret_def)

lemma wp_fail [wp_simps]: "wp (fail e) Q R s = R e s"
  by (simp add: wp_def fail_def)

lemma wp_and_then [wp_simps]: "wp (and_then m f) Q R s = wp m (\<lambda>x. wp (f x) Q R) R s"
  by (simp add: wp_def and_then_def split: prod.splits sum.splits)

lemma wp_modifies [wp_simps]: "wp (modifies f) Q R s = Q () (f s)"
  by (simp add: wp_def modifies_def)

lemma wp_reads [wp_simps]: "wp (reads f) Q R s = Q (f s) s"
  by (simp add: wp_def reads_def)

lemma wp_asks [wp_simps]:
  "wp (asks f) Q R s = Q (fst (f (ex_world s))) (s\<lparr>ex_world := snd (f (ex_world s))\<rparr>)"
  by (simp add: wp_def asks_def split: prod.splits)

lemma wp_if [wp_simps]: "wp (if b then m else n) Q R s = (if b then wp m Q R s else wp n Q R s)"
  by simp

lemma wp_mono:
  assumes "wp m Q R s" "\<And>x s'. Q x s' \<Longrightarrow> Q' x s'" "\<And>e s'. R e s' \<Longrightarrow> R' e s'"
  shows "wp m Q' R' s"
  using assms by (auto simp: wp_def split: prod.splits sum.splits)

lemma wp_for_each:
  assumes "\<And>x s. x \<in> set xs \<Longrightarrow> I s \<Longrightarrow> wp (f x) (\<lambda>_. I) R s" "I s"
  shows "wp (for_each f xs) (\<lambda>_. I) R s"
  using assms
proof (induction xs arbitrary: s)
  case (Cons x xs)
  have "wp (f x) (\<lambda>_. I) R s" using Cons.prems by simp
  then have "wp (f x) (\<lambda>_ s. wp (for_each f xs) (\<lambda>_. I) R s) R s"
    by (rule wp_mono) (use Cons in auto)
  then show ?case by (simp add: wp_simps)
qed (simp add: wp_simps)

lemma wp_stop_with [wp_simps]:
  "wp (stop_with m) Q R s
     = R StopFailed (set_outcome (\<lambda>oc. oc\<lparr>oc_error := Some (terminal_safe m)\<rparr>) s)"
  by (simp add: stop_with_def wp_simps)

text \<open>What a read may change: the outside world, and at a failure the error of the outcome.\<close>

definition same_but_error :: "'w executor \<Rightarrow> 'w executor \<Rightarrow> bool" where
  "same_but_error s s' =
     (ex_sent s' = ex_sent s \<and> ex_cursor s' = ex_cursor s
      \<and> (\<exists>err. ex_outcome s' = (ex_outcome s)\<lparr>oc_error := err\<rparr>))"

lemma same_but_error_refl [simp]: "same_but_error s s"
proof -
  have "ex_outcome s = (ex_outcome s)\<lparr>oc_error := oc_error (ex_outcome s)\<rparr>" by simp
  then show ?thesis unfolding same_but_error_def by blast
qed

lemma same_but_error_trans: "same_but_error s s' \<Longrightarrow> same_but_error s' s'' \<Longrightarrow> same_but_error s s''"
  by (auto simp: same_but_error_def)

lemma same_but_error_updates [simp]:
  "same_but_error s (s'\<lparr>ex_world := w\<rparr>) = same_but_error s s'"
  "same_but_error s (s'\<lparr>ex_interrupt := c\<rparr>) = same_but_error s s'"
  "same_but_error s s' \<Longrightarrow> same_but_error s (set_outcome (\<lambda>oc. oc\<lparr>oc_error := e\<rparr>) s')"
  by (auto simp: same_but_error_def set_outcome_def)

text \<open>A step that writes nothing, keeps the cursor and adds no row.\<close>

definition harmless :: "('w, 'a) act \<Rightarrow> bool" where
  "harmless m = (\<forall>s. wp m (\<lambda>_ s'. same_but_error s s') (\<lambda>_ s'. same_but_error s s') s)"

lemma harmlessI: "(\<And>s. wp m (\<lambda>_ s'. same_but_error s s') (\<lambda>_ s'. same_but_error s s') s) \<Longrightarrow> harmless m"
  by (simp add: harmless_def)

lemma wp_harmless:
  assumes "harmless m" "\<And>x s'. same_but_error s s' \<Longrightarrow> Q x s'" "\<And>e s'. same_but_error s s' \<Longrightarrow> R e s'"
  shows "wp m Q R s"
  using assms by (auto simp: harmless_def intro: wp_mono)

lemma harmless_and_then: "harmless m \<Longrightarrow> (\<And>x. harmless (f x)) \<Longrightarrow> harmless (and_then m f)"
  by (rule harmlessI) (auto simp: wp_simps intro!: wp_harmless dest: same_but_error_trans)

lemma harmless_simps [simp]:
  "harmless (ret x)" "harmless (fail e)" "harmless (stop_with m)" "harmless (asks f)" "harmless (reads g)"
  "harmless set_interrupt"
  by (simp_all add: harmless_def wp_simps set_interrupt_def)

lemma harmless_read_failed [simp]: "harmless (read_failed e)"
  by (simp add: read_failed_def split: inventory_error.splits option.splits)

lemma harmless_or_read_failed [simp]: "harmless m \<Longrightarrow> harmless (or_read_failed m)"
  unfolding or_read_failed_def by (rule harmless_and_then) (simp_all split: sum.splits)

lemma harmless_for_each [simp]: "(\<And>x. harmless (f x)) \<Longrightarrow> harmless (for_each f xs)"
  by (induction xs) (simp_all add: harmless_and_then)

lemma harmless_recheck [simp]: "harmless (recheck re)"
  unfolding recheck_def read_profiles_def by (intro harmless_and_then) (simp_all add: harmless_and_then)

lemma harmless_checkpoint [simp]: "harmless (stop_checkpoint sv)"
  unfolding stop_checkpoint_def by (intro harmless_and_then) simp_all

section \<open>What the outcome says of the writes\<close>

definition may_have_applied :: "(error_facts, json) result \<Rightarrow> bool" where
  "may_have_applied answer = (case answer of
      Inr _ \<Rightarrow> True
    | Inl e \<Rightarrow> classify_write e \<in> {WriteUnknown, WriteUnreadable, WriteInterrupted True})"

fun creates_topic :: "write_request \<Rightarrow> bool" where
  "creates_topic (CreateTopic _) = True"
| "creates_topic _ = False"

definition acknowledged :: "(write_request \<Rightarrow> bool) \<Rightarrow> (write_request \<times> (error_facts, json) result) list \<Rightarrow> nat" where
  "acknowledged P sent = length (filter (\<lambda>(rq, answer). P rq \<and> is_ok answer) sent)"

text \<open>The counts are those of the acknowledged writes; without a change none can have been applied.\<close>

definition outcome_is_true :: "'w executor \<Rightarrow> bool" where
  "outcome_is_true s =
     (let oc = ex_outcome s; sent = ex_sent s in
      oc_written_topics oc = acknowledged creates_topic sent
      \<and> oc_written_profiles oc = acknowledged (\<lambda>rq. \<not> creates_topic rq) sent
      \<and> (\<not> oc_written oc \<longrightarrow> (\<forall>(rq, answer) \<in> set sent. \<not> may_have_applied answer)))"

lemma replayable_rejected: "replayable e \<Longrightarrow> \<not> may_have_applied (Inl e)"
  by (simp add: replayable_def may_have_applied_def classify_write_def)

lemma acknowledged_snoc:
  "acknowledged P (sent @ [(rq, a)]) = acknowledged P sent + (if P rq \<and> is_ok a then 1 else 0)"
  by (simp add: acknowledged_def)

lemma true_same: "same_but_error s s' \<Longrightarrow> outcome_is_true s' = outcome_is_true s"
  by (auto simp: same_but_error_def outcome_is_true_def oc_written_def Let_def)

text \<open>After a write the counts lag behind by the answer.\<close>

definition true_but :: "write_request \<Rightarrow> (error_facts, json) result \<Rightarrow> 'w executor \<Rightarrow> bool" where
  "true_but rq a s =
     (let oc = ex_outcome s; sent = ex_sent s; add = (if is_ok a then 1 else 0) in
      oc_written_topics oc + (if creates_topic rq then add else 0) = acknowledged creates_topic sent
      \<and> oc_written_profiles oc + (if creates_topic rq then 0 else add)
        = acknowledged (\<lambda>rq. \<not> creates_topic rq) sent
      \<and> (\<not> oc_written oc \<longrightarrow> \<not> may_have_applied a \<longrightarrow>
           (\<forall>(rq, answer) \<in> set sent. \<not> may_have_applied answer)))"

lemma dispatch_true:
  "outcome_is_true s \<Longrightarrow> wp (dispatch sv rq) (\<lambda>a. true_but rq a) R s"
  by (auto simp: dispatch_def wp_simps outcome_is_true_def true_but_def Let_def acknowledged_snoc)

lemma true_but_rejected:
  "true_but rq (Inl e) s \<Longrightarrow> \<not> may_have_applied (Inl e) \<Longrightarrow> outcome_is_true s"
  by (auto simp: outcome_is_true_def true_but_def Let_def)

lemma attempt_write_true:
  assumes "outcome_is_true s"
  shows "wp (attempt_write sv rq) (\<lambda>a. true_but rq a) R s"
  unfolding attempt_write_def wp_and_then
proof (rule wp_mono [OF dispatch_true [OF assms]])
  fix a and s' :: "'a executor"
  assume t: "true_but rq a s'"
  show "wp (case a of Inl e \<Rightarrow> if replayable e then dispatch sv rq else ret a | Inr x \<Rightarrow> ret a)
          (\<lambda>a. true_but rq a) R s'"
    using t by (auto simp: wp_simps split: sum.splits
        intro!: dispatch_true dest: true_but_rejected replayable_rejected)
qed

lemma write_failed_true:
  assumes "true_but rq (Inl e) s"
  shows "wp (write_failed kind nm act (classify_write e)) Q (\<lambda>_. outcome_is_true) s"
proof -
  have "outcome_is_true s" if "\<not> may_have_applied (Inl e)" by (rule true_but_rejected [OF assms that])
  with assms show ?thesis
    by (auto simp: write_failed_def wp_simps set_unknown_def set_outcome_def outcome_is_true_def
        true_but_def Let_def oc_written_def may_have_applied_def
        split: write_failure.splits option.splits)
qed

text \<open>A step that keeps the outcome true, whether it answers or stops.\<close>

definition truthful :: "('w, 'a) act \<Rightarrow> bool" where
  "truthful m = (\<forall>s. outcome_is_true s \<longrightarrow> wp m (\<lambda>_. outcome_is_true) (\<lambda>_. outcome_is_true) s)"

lemma truthfulI: "(\<And>s. outcome_is_true s \<Longrightarrow> wp m (\<lambda>_. outcome_is_true) (\<lambda>_. outcome_is_true) s) \<Longrightarrow> truthful m"
  by (simp add: truthful_def)

lemma truthful_harmless: "harmless m \<Longrightarrow> truthful m"
  by (rule truthfulI) (auto intro: wp_harmless dest: true_same)

lemma truthful_and_then: "truthful m \<Longrightarrow> (\<And>x. truthful (f x)) \<Longrightarrow> truthful (and_then m f)"
  by (rule truthfulI) (auto simp: wp_simps truthful_def intro: wp_mono)

lemma truthful_update:
  assumes "\<And>s. ex_sent (f s) = ex_sent s"
    and "\<And>s. oc_written_topics (ex_outcome (f s)) = oc_written_topics (ex_outcome s)"
    and "\<And>s. oc_written_profiles (ex_outcome (f s)) = oc_written_profiles (ex_outcome s)"
    and "\<And>s. oc_unknown (ex_outcome (f s)) = oc_unknown (ex_outcome s)"
  shows "truthful (modifies f)"
  by (rule truthfulI) (use assms in \<open>simp add: wp_simps outcome_is_true_def oc_written_def Let_def\<close>)

lemmas truthful_simps [simp] = harmless_simps [THEN truthful_harmless]

lemma truthful_pushes [simp]:
  "truthful (push_topic row)" "truthful (push_profile row)" "truthful (push_defaults item paths)"
  "truthful (modifies (\<lambda>ex. ex\<lparr>ex_cursor := c\<rparr>))"
  by (auto simp: push_topic_def push_profile_def push_defaults_def set_outcome_def
      intro!: truthful_update)

lemma truthful_stops [simp]:
  "truthful (or_read_failed (asks f))" "truthful written_so_far" "truthful (stop_checkpoint sv)"
  "truthful (topic_changed tpl)" "truthful (did_not_verify ppl)" "truthful (read_profiles re written)"
  by (auto intro!: truthful_harmless
      simp: written_so_far_def topic_changed_def did_not_verify_def read_profiles_def)

text \<open>A write with what follows its acknowledgement.\<close>

lemma truthful_write:
  assumes "\<And>x s. true_but rq (Inr x) s \<Longrightarrow> wp (next_step x) (\<lambda>_. outcome_is_true) (\<lambda>_. outcome_is_true) s"
  shows "truthful (and_then (attempt_write sv rq) (\<lambda>answer. case answer of
      Inl e \<Rightarrow> write_failed kind nm act (classify_write e) | Inr x \<Rightarrow> next_step x))"
proof (rule truthfulI)
  fix s :: "'a executor" assume "outcome_is_true s"
  then have "wp (attempt_write sv rq) (\<lambda>a. true_but rq a) (\<lambda>_. outcome_is_true) s"
    by (rule attempt_write_true)
  then show "wp (and_then (attempt_write sv rq) (\<lambda>answer. case answer of
      Inl e \<Rightarrow> write_failed kind nm act (classify_write e) | Inr x \<Rightarrow> next_step x))
      (\<lambda>_. outcome_is_true) (\<lambda>_. outcome_is_true) s"
    unfolding wp_and_then
    by (rule wp_mono) (auto split: sum.splits intro: write_failed_true assms)
qed

lemma count_topic_true:
  "true_but rq (Inr x) s \<Longrightarrow> creates_topic rq \<Longrightarrow>
     outcome_is_true (set_outcome (\<lambda>oc. oc\<lparr>oc_written_topics := Suc (oc_written_topics oc)\<rparr>) s)"
  by (auto simp: true_but_def outcome_is_true_def set_outcome_def oc_written_def Let_def)

lemma count_profile_true:
  "true_but rq (Inr x) s \<Longrightarrow> \<not> creates_topic rq \<Longrightarrow>
     outcome_is_true (set_outcome (\<lambda>oc. oc\<lparr>oc_written_profiles := Suc (oc_written_profiles oc)\<rparr>) s)"
  by (auto simp: true_but_def outcome_is_true_def set_outcome_def oc_written_def Let_def)

lemma truthfulD: "truthful m \<Longrightarrow> outcome_is_true s \<Longrightarrow> wp m (\<lambda>_. outcome_is_true) (\<lambda>_. outcome_is_true) s"
  by (simp add: truthful_def)

lemma truthful_create_topic: "truthful (create_topic re item stock)"
proof -
  have w: "truthful (and_then (attempt_write (re_service re) (CreateTopic body)) (\<lambda>answer. case answer of
            Inl e \<Rightarrow> write_failed TopicItem (tp_name item) ''created'' (classify_write e)
          | Inr created \<Rightarrow>
              and_then (modifies (set_outcome (\<lambda>oc. oc\<lparr>oc_written_topics := Suc (oc_written_topics oc)\<rparr>))) (\<lambda>_.
              and_then set_interrupt (\<lambda>_. ret created))))" for body
  proof (rule truthful_write)
    show "wp (and_then (modifies (set_outcome (\<lambda>oc. oc\<lparr>oc_written_topics := Suc (oc_written_topics oc)\<rparr>)))
            (\<lambda>_. and_then set_interrupt (\<lambda>_. ret x))) (\<lambda>_. outcome_is_true) (\<lambda>_. outcome_is_true) s"
      if "true_but (CreateTopic body) (Inr x) s" for x and s :: "'a executor"
      unfolding wp_and_then wp_modifies
      by (rule truthfulD [OF truthful_simps(6), THEN wp_mono])
        (simp_all add: wp_simps count_topic_true [OF that])
  qed
  show ?thesis
    unfolding create_topic_def Let_def by (simp add: truthful_and_then w)
qed

lemma truthful_planned_topic: "truthful (planned_topic re item stock)"
  unfolding planned_topic_def by (simp add: truthful_create_topic split: option.splits)

lemma truthful_restore_topics: "truthful (restore_topics re i items)"
proof (induction items arbitrary: i)
  case (Cons item items)
  have "truthful (restore_topic re i item)"
    unfolding restore_topic_def settle_topic_def
    by (intro truthful_and_then) (simp_all add: truthful_planned_topic truthful_and_then)
  with Cons show ?case by (simp add: truthful_and_then)
qed simp

lemma truthful_write_profile: "truthful (write_profile re item policy body)"
proof -
  let ?rest = "\<lambda>response. and_then (modifies (set_outcome (\<lambda>oc. oc\<lparr>oc_written_profiles := Suc (oc_written_profiles oc)\<rparr>))) (\<lambda>_.
           and_then set_interrupt (\<lambda>_.
           and_then (push_profile \<lparr>row_name = pp_name item, row_action = done_word (pp_action item),
               row_id = json_str response ''profile_id''\<rparr>) (\<lambda>_.
             check_written re item policy (json_str response ''profile_id''))))"
  have check: "truthful (check_written re item policy i)" for i
    unfolding check_written_def Let_def by (intro truthful_and_then) simp_all
  have w: "truthful (and_then (attempt_write (re_service re) (profile_request item body)) (\<lambda>answer. case answer of
         Inl e \<Rightarrow> write_failed ProfileItem (pp_name item) (done_word (pp_action item)) (classify_write e)
       | Inr response \<Rightarrow> ?rest response))"
  proof (rule truthful_write)
    have no_topic: "\<not> creates_topic (profile_request item body)"
      by (simp add: profile_request_def split: option.splits)
    show "wp (?rest x) (\<lambda>_. outcome_is_true) (\<lambda>_. outcome_is_true) s"
      if "true_but (profile_request item body) (Inr x) s" for x and s :: "'a executor"
      unfolding wp_and_then [of "modifies _"] wp_modifies
      by (rule truthfulD [OF truthful_and_then [OF truthful_simps(6) truthful_and_then]])
        (simp_all add: check count_profile_true [OF that no_topic])
  qed
  show ?thesis
    unfolding write_profile_def by (simp add: truthful_and_then w)
qed

lemma truthful_restore_profiles: "truthful (restore_profiles re topics i items)"
proof (induction items arbitrary: i)
  case (Cons item items)
  have v: "truthful (verify_only item policy current)" for policy current
    unfolding verify_only_def Let_def by (simp add: truthful_and_then)
  have "truthful (restore_profile re topics i item)"
    unfolding restore_profile_def apply_profile_def Let_def
    by (intro truthful_and_then) (simp_all add: v truthful_write_profile truthful_and_then split: sum.splits)
  with Cons show ?case by (simp add: truthful_and_then)
qed simp

lemma truthful_stages: "truthful (restore_stages re)"
  unfolding restore_stages_def
  by (intro truthful_and_then truthful_restore_topics truthful_restore_profiles truthful_harmless) simp

end
