(* ===== verification/ExecAccount.thy ===== *)
theory ExecAccount
  imports ExecCorrect
begin

text \<open>
  Which writes an execution dispatches and which planned items its outcome accounts for. The
  protocol of the writes is \<open>follows\<close> and \<open>halted\<close>: one acknowledged write for every planned item that
  needs one, in the order of the plan, until the first write that is not acknowledged. \<open>steps\<close> says
  what a part of the executor adds to the rows and to the dispatched writes.
\<close>

section \<open>The protocol\<close>

type_synonym sent_log = "(write_request \<times> (error_facts, json) result) list"

text \<open>One write: dispatched once, or twice after an answer that may be replayed.\<close>

definition write_block :: "(write_request \<Rightarrow> bool) \<Rightarrow> (error_facts, json) result \<Rightarrow> sent_log \<Rightarrow> bool" where
  "write_block P answer lg =
     (\<exists>rq. P rq \<and> (lg = [(rq, answer)] \<or> (\<exists>e. replayable e \<and> lg = [(rq, Inl e), (rq, answer)])))"

text \<open>The planned items: \<open>None\<close> where nothing is written, else what a request for it looks like.\<close>

type_synonym planned = "(write_request \<Rightarrow> bool) option"

inductive follows :: "planned list \<Rightarrow> sent_log \<Rightarrow> bool" where
  follows_Nil: "follows [] []"
| follows_silent: "follows items lg \<Longrightarrow> follows (items @ [None]) lg"
| follows_write: "follows items lg \<Longrightarrow> write_block P (Inr x) block \<Longrightarrow> follows (items @ [Some P]) (lg @ block)"

inductive halted :: "planned list \<Rightarrow> sent_log \<Rightarrow> bool" where
  halted_before: "follows items lg \<Longrightarrow> halted (items @ rest) lg"
| halted_write: "follows items lg \<Longrightarrow> write_block P answer block \<Longrightarrow> halted (items @ Some P # rest) (lg @ block)"

definition topic_write :: "topic_plan \<Rightarrow> planned" where
  "topic_write item =
     (if tp_existing item = None
      then Some (\<lambda>rq. rq = CreateTopic (topic_body (tp_name item) (tp_source item))) else None)"

definition profile_write :: "writers \<Rightarrow> dlp_mapping list \<Rightarrow> profile_plan \<Rightarrow> planned" where
  "profile_write wr mappings item =
     (if pp_action item = Create \<or> pp_action item = Update
      then Some (\<lambda>rq. \<exists>topics policy. mapped_policy wr item mappings topics = Ok policy
                   \<and> rq = profile_request item (profile_body (pp_name item) (pp_source item) policy))
      else None)"

definition planned_writes :: "writers \<Rightarrow> restore_plan \<Rightarrow> planned list" where
  "planned_writes wr plan =
     map topic_write (rp_topics plan) @ map (profile_write wr (rp_dlp_mappings plan)) (rp_profiles plan)"

section \<open>What a step adds\<close>

definition grew :: "'w executor \<Rightarrow> 'w executor \<Rightarrow> result_row list \<Rightarrow> result_row list \<Rightarrow> sent_log \<Rightarrow> bool" where
  "grew s s' ts ps lg =
     (ex_cursor s' = ex_cursor s \<and> ex_sent s' = ex_sent s @ lg
      \<and> oc_topics (ex_outcome s') = oc_topics (ex_outcome s) @ ts
      \<and> oc_profiles (ex_outcome s') = oc_profiles (ex_outcome s) @ ps
      \<and> oc_not_attempted (ex_outcome s') = oc_not_attempted (ex_outcome s)
      \<and> oc_complete (ex_outcome s') = oc_complete (ex_outcome s))"

definition steps :: "('w, 'a) act \<Rightarrow> ('a \<Rightarrow> result_row list \<Rightarrow> result_row list \<Rightarrow> sent_log \<Rightarrow> bool)
    \<Rightarrow> (result_row list \<Rightarrow> result_row list \<Rightarrow> sent_log \<Rightarrow> bool) \<Rightarrow> bool" where
  "steps m Q R = (\<forall>s. wp m (\<lambda>x s'. \<exists>ts ps lg. grew s s' ts ps lg \<and> Q x ts ps lg)
                          (\<lambda>_ s'. \<exists>ts ps lg. grew s s' ts ps lg \<and> R ts ps lg) s)"

lemma stepsI:
  "(\<And>s. wp m (\<lambda>x s'. \<exists>ts ps lg. grew s s' ts ps lg \<and> Q x ts ps lg)
            (\<lambda>_ s'. \<exists>ts ps lg. grew s s' ts ps lg \<and> R ts ps lg) s) \<Longrightarrow> steps m Q R"
  by (simp add: steps_def)

lemma steps_weaken:
  assumes "steps m Q R" "\<And>x ts ps lg. Q x ts ps lg \<Longrightarrow> Q' x ts ps lg" "\<And>ts ps lg. R ts ps lg \<Longrightarrow> R' ts ps lg"
  shows "steps m Q' R'"
  by (rule stepsI, rule wp_mono [OF assms(1) [unfolded steps_def, rule_format]]) (use assms(2,3) in blast)+

lemma grew_trans:
  "grew s s' ts ps lg \<Longrightarrow> grew s' s'' ts' ps' lg' \<Longrightarrow> grew s s'' (ts @ ts') (ps @ ps') (lg @ lg')"
  by (simp add: grew_def)

lemma steps_and_then:
  assumes "steps m M R"
    and "\<And>x ts ps lg. M x ts ps lg \<Longrightarrow>
      steps (f x) (\<lambda>y ts' ps' lg'. Q y (ts @ ts') (ps @ ps') (lg @ lg'))
        (\<lambda>ts' ps' lg'. R (ts @ ts') (ps @ ps') (lg @ lg'))"
  shows "steps (and_then m f) Q R"
proof (rule stepsI)
  fix s :: "'a executor"
  show "wp (and_then m f) (\<lambda>x s'. \<exists>ts ps lg. grew s s' ts ps lg \<and> Q x ts ps lg)
          (\<lambda>_ s'. \<exists>ts ps lg. grew s s' ts ps lg \<and> R ts ps lg) s"
    unfolding wp_and_then
  proof (rule wp_mono [OF assms(1) [unfolded steps_def, rule_format]])
    fix x and s' :: "'a executor"
    assume "\<exists>ts ps lg. grew s s' ts ps lg \<and> M x ts ps lg"
    then obtain ts ps lg where g: "grew s s' ts ps lg" and M: "M x ts ps lg" by blast
    show "wp (f x) (\<lambda>y s''. \<exists>ts ps lg. grew s s'' ts ps lg \<and> Q y ts ps lg)
            (\<lambda>_ s''. \<exists>ts ps lg. grew s s'' ts ps lg \<and> R ts ps lg) s'"
      by (rule wp_mono [OF assms(2) [OF M, unfolded steps_def, rule_format]])
        (use g in \<open>blast intro: grew_trans\<close>)+
  qed
qed

lemma steps_harmless:
  assumes "harmless m" "\<And>x. Q x [] [] []" "R [] [] []"
  shows "steps m Q R"
proof (rule stepsI, rule wp_harmless [OF assms(1)])
  fix s s' :: "'a executor"
  assume "same_but_error s s'"
  then have g: "grew s s' [] [] []" by (auto simp: same_but_error_def grew_def)
  show "\<exists>ts ps lg. grew s s' ts ps lg \<and> Q x ts ps lg" for x using g assms(2) by blast
  show "\<exists>ts ps lg. grew s s' ts ps lg \<and> R ts ps lg" using g assms(3) by blast
qed

lemma steps_ret: "Q x [] [] [] \<Longrightarrow> steps (ret x) Q R"
  by (rule stepsI) (auto simp: wp_simps grew_def)

lemma steps_stop_with: "R [] [] [] \<Longrightarrow> steps (stop_with m) Q R"
  by (rule stepsI) (auto simp: wp_simps grew_def set_outcome_def)

lemma steps_push_topic: "Q () [row] [] [] \<Longrightarrow> steps (push_topic row) Q R"
  by (rule stepsI) (auto simp: push_topic_def wp_simps grew_def set_outcome_def)

lemma steps_push_profile: "Q () [] [row] [] \<Longrightarrow> steps (push_profile row) Q R"
  by (rule stepsI) (auto simp: push_profile_def wp_simps grew_def set_outcome_def)

lemma steps_quiet_update:
  assumes "Q () [] [] []" "\<And>s. grew s (f s) [] [] []"
  shows "steps (modifies f) Q R"
  by (rule stepsI) (use assms in \<open>auto simp: wp_simps\<close>)

lemma steps_push_defaults: "Q () [] [] [] \<Longrightarrow> steps (push_defaults item paths) Q R"
  by (auto simp: push_defaults_def grew_def set_outcome_def intro!: steps_ret steps_quiet_update)

lemma steps_write_failed: "R [] [] [] \<Longrightarrow> steps (write_failed kind nm act failure) Q R"
  by (rule stepsI)
    (auto simp: write_failed_def wp_simps grew_def set_outcome_def set_unknown_def
      split: write_failure.splits option.splits)

lemma steps_dispatch: "(\<And>a. Q a [] [] [(rq, a)]) \<Longrightarrow> steps (dispatch sv rq) Q R"
  by (rule stepsI) (auto simp: dispatch_def wp_simps grew_def)

lemma steps_attempt_write:
  assumes "P rq"
  shows "steps (attempt_write sv rq) (\<lambda>a ts ps lg. ts = [] \<and> ps = [] \<and> write_block P a lg) R"
  unfolding attempt_write_def
proof (rule steps_and_then)
  show "steps (dispatch sv rq) (\<lambda>a ts ps lg. ts = [] \<and> ps = [] \<and> lg = [(rq, a)]) R"
    by (rule steps_dispatch) simp
next
  fix a and ts ps :: "result_row list" and lg :: sent_log
  assume "ts = [] \<and> ps = [] \<and> lg = [(rq, a)]"
  with assms show "steps (case a of Inl e \<Rightarrow> if replayable e then dispatch sv rq else ret a | Inr x \<Rightarrow> ret a)
      (\<lambda>y ts' ps' lg'. ts @ ts' = [] \<and> ps @ ps' = [] \<and> write_block P y (lg @ lg'))
      (\<lambda>ts' ps' lg'. R (ts @ ts') (ps @ ps') (lg @ lg'))"
    by (auto simp: write_block_def split: sum.splits intro!: steps_ret steps_dispatch)
qed

section \<open>One item\<close>

definition item_sent :: "planned \<Rightarrow> bool \<Rightarrow> sent_log \<Rightarrow> bool" where
  "item_sent p done lg = (case p of
      None \<Rightarrow> lg = []
    | Some P \<Rightarrow> if done then (\<exists>x. write_block P (Inr x) lg) else lg = [] \<or> (\<exists>a. write_block P a lg))"

lemma item_sent_done: "item_sent p True lg \<Longrightarrow> item_sent p False lg"
  by (auto simp: item_sent_def split: option.splits)

lemma item_sent_none [simp]: "item_sent p False []"
  by (simp add: item_sent_def split: option.split)

lemma steps_create_topic:
  assumes "tp_existing item = None"
  shows "steps (create_topic re item stock)
           (\<lambda>_ ts ps lg. ts = [] \<and> ps = [] \<and> item_sent (topic_write item) True lg)
           (\<lambda>ts ps lg. ts = [] \<and> ps = [] \<and> item_sent (topic_write item) False lg)"
proof -
  let ?P = "\<lambda>rq. rq = CreateTopic (topic_body (tp_name item) (tp_source item))"
  let ?Q = "\<lambda>_ ts ps lg. ts = [] \<and> ps = [] \<and> item_sent (topic_write item) True lg"
  let ?R = "\<lambda>ts ps lg. ts = [] \<and> ps = [] \<and> item_sent (topic_write item) False lg"
  have p: "topic_write item = Some ?P" using assms by (simp add: topic_write_def)
  have count: "steps (modifies (set_outcome (\<lambda>oc. oc\<lparr>oc_written_topics := Suc (oc_written_topics oc)\<rparr>)))
      (\<lambda>_ ts ps lg. ts = [] \<and> ps = [] \<and> lg = []) R" for R
    by (rule steps_quiet_update) (simp_all add: grew_def set_outcome_def)
  have answered: "steps (case a of
        Inl e \<Rightarrow> write_failed TopicItem (tp_name item) ''created'' (classify_write e)
      | Inr created \<Rightarrow>
          and_then (modifies (set_outcome (\<lambda>oc. oc\<lparr>oc_written_topics := Suc (oc_written_topics oc)\<rparr>))) (\<lambda>_.
          and_then set_interrupt (\<lambda>_. ret created)))
      (\<lambda>y ts ps lg'. ts = [] \<and> ps = [] \<and> item_sent (topic_write item) True (lg @ lg'))
      (\<lambda>ts ps lg'. ts = [] \<and> ps = [] \<and> item_sent (topic_write item) False (lg @ lg'))"
    if "write_block ?P a lg" for a lg
  proof (cases a)
    case (Inl e)
    with that show ?thesis by (auto simp: p item_sent_def intro!: steps_write_failed)
  next
    case (Inr x)
    with that have "item_sent (topic_write item) True lg" by (auto simp: p item_sent_def)
    with that Inr item_sent_done show ?thesis
      by (auto intro!: steps_and_then [OF count] steps_harmless harmless_and_then)
  qed
  show ?thesis
    unfolding create_topic_def Let_def
    by (auto simp: topic_changed_def
        intro!: steps_stop_with steps_and_then [OF steps_harmless [where Q = "\<lambda>_ ts ps lg. ts = [] \<and> ps = [] \<and> lg = []"]]
          steps_and_then [OF steps_attempt_write [where P = ?P]] answered)
qed

lemma steps_planned_topic:
  "steps (planned_topic re item stock)
     (\<lambda>_ ts ps lg. ts = [] \<and> ps = [] \<and> item_sent (topic_write item) True lg)
     (\<lambda>ts ps lg. ts = [] \<and> ps = [] \<and> item_sent (topic_write item) False lg)"
proof (cases "tp_existing item")
  case (Some existing)
  then have "topic_write item = None" by (simp add: topic_write_def)
  with Some show ?thesis
    by (auto simp: planned_topic_def topic_changed_def item_sent_def split: option.split
        intro!: steps_ret steps_stop_with)
qed (simp add: planned_topic_def steps_create_topic)

definition row_of :: "str \<Rightarrow> bool \<Rightarrow> result_row list \<Rightarrow> bool" where
  "row_of nm done rows = (map row_name rows = [nm] \<or> \<not> done \<and> rows = [])"

lemma row_of_simps [simp]:
  "row_of nm b [\<lparr>row_name = nm, row_action = a, row_id = i\<rparr>]" "row_of nm False []"
  by (simp_all add: row_of_def)

lemma steps_cursor:
  assumes "steps m Q R"
  shows "wp (and_then (modifies (\<lambda>ex. ex\<lparr>ex_cursor := c\<rparr>)) (\<lambda>_. m))
           (\<lambda>x s'. \<exists>ts ps lg. grew (s\<lparr>ex_cursor := c\<rparr>) s' ts ps lg \<and> Q x ts ps lg)
           (\<lambda>_ s'. \<exists>ts ps lg. grew (s\<lparr>ex_cursor := c\<rparr>) s' ts ps lg \<and> R ts ps lg) s"
  using assms by (simp add: wp_simps steps_def)

lemma steps_read:
  "harmless m \<Longrightarrow> (\<And>x. steps (f x) Q R) \<Longrightarrow> R [] [] [] \<Longrightarrow> steps (and_then m f) Q R"
  by (rule steps_and_then [OF steps_harmless [where Q = "\<lambda>_ ts ps lg. ts = [] \<and> ps = [] \<and> lg = []"]])
    auto

text \<open>What a topic and a profile add to the rows and to the writes.\<close>

definition topic_adds :: "topic_plan \<Rightarrow> bool \<Rightarrow> result_row list \<Rightarrow> result_row list \<Rightarrow> sent_log \<Rightarrow> bool" where
  "topic_adds item done ts ps lg =
     (ps = [] \<and> row_of (tp_name item) done ts \<and> item_sent (topic_write item) done lg)"

definition profile_adds :: "writers \<Rightarrow> dlp_mapping list \<Rightarrow> profile_plan \<Rightarrow> bool
    \<Rightarrow> result_row list \<Rightarrow> result_row list \<Rightarrow> sent_log \<Rightarrow> bool" where
  "profile_adds wr mappings item done ts ps lg =
     (ts = [] \<and> row_of (pp_name item) done ps \<and> item_sent (profile_write wr mappings item) done lg)"

lemma steps_settle_topic:
  assumes "item_sent (topic_write item) True lg"
  shows "steps (settle_topic item topic)
           (\<lambda>_ ts ps lg'. topic_adds item True ts ps (lg @ lg'))
           (\<lambda>ts ps lg'. topic_adds item False ts ps (lg @ lg'))"
proof -
  have pushed: "steps (push_topic \<lparr>row_name = tp_name item, row_action = a, row_id = i\<rparr>)
      (\<lambda>_ ts ps lg. map row_name ts = [tp_name item] \<and> ps = [] \<and> lg = []) R" for a i R
    by (rule steps_push_topic) simp
  show ?thesis
    unfolding settle_topic_def
    using assms item_sent_done [OF assms]
    by (auto simp: topic_adds_def row_of_def
        intro!: steps_and_then [OF pushed] steps_ret steps_stop_with steps_read)
qed

lemma restore_topic_steps:
  "wp (restore_topic re i item)
     (\<lambda>_ s'. \<exists>ts ps lg. grew (s\<lparr>ex_cursor := Some (0, i)\<rparr>) s' ts ps lg \<and> topic_adds item True ts ps lg)
     (\<lambda>_ s'. \<exists>ts ps lg. grew (s\<lparr>ex_cursor := Some (0, i)\<rparr>) s' ts ps lg \<and> topic_adds item False ts ps lg) s"
  unfolding restore_topic_def
proof (rule steps_cursor)
  have planned: "steps (planned_topic re item stock)
      (\<lambda>_ ts ps lg. ts = [] \<and> ps = [] \<and> item_sent (topic_write item) True lg)
      (topic_adds item False)" for stock
    by (rule steps_weaken [OF steps_planned_topic]) (auto simp: topic_adds_def)
  have settle: "steps (settle_topic item topic)
      (\<lambda>_ ts' ps' lg'. topic_adds item True (ts @ ts') (ps @ ps') (lg @ lg'))
      (\<lambda>ts' ps' lg'. topic_adds item False (ts @ ts') (ps @ ps') (lg @ lg'))"
    if "ts = [] \<and> ps = [] \<and> item_sent (topic_write item) True lg" for topic ts ps lg
    using that by (simp add: steps_settle_topic)
  show "steps (and_then written_so_far (\<lambda>written.
     and_then (or_read_failed (asks (destination_topics (re_service re) (re_max_pages re) written))) (\<lambda>stock.
     and_then (planned_topic re item stock) (settle_topic item))))
     (\<lambda>_. topic_adds item True) (topic_adds item False)"
    by (intro steps_read steps_and_then [OF planned] settle) (auto simp: written_so_far_def topic_adds_def)
qed

lemma steps_write_profile:
  assumes "pp_action item = Create \<or> pp_action item = Update"
    and "mapped_policy wr item mappings topics = Ok policy"
    and "body = profile_body (pp_name item) (pp_source item) policy"
  shows "steps (write_profile re item policy body)
           (\<lambda>_. profile_adds wr mappings item True) (profile_adds wr mappings item False)"
proof -
  let ?P = "\<lambda>rq. \<exists>topics policy. mapped_policy wr item mappings topics = Ok policy
                   \<and> rq = profile_request item (profile_body (pp_name item) (pp_source item) policy)"
  have p: "profile_write wr mappings item = Some ?P" using assms(1) by (auto simp: profile_write_def)
  have rq: "?P (profile_request item body)" using assms(2,3) by blast
  have count: "steps (modifies (set_outcome (\<lambda>oc. oc\<lparr>oc_written_profiles := Suc (oc_written_profiles oc)\<rparr>)))
      (\<lambda>_ ts ps lg. ts = [] \<and> ps = [] \<and> lg = []) R" for R
    by (rule steps_quiet_update) (simp_all add: grew_def set_outcome_def)
  have pushed: "steps (push_profile \<lparr>row_name = pp_name item, row_action = a, row_id = i\<rparr>)
      (\<lambda>_ ts ps lg. ts = [] \<and> map row_name ps = [pp_name item] \<and> lg = []) R" for a i R
    by (rule steps_push_profile) simp
  have check: "steps (check_written re item policy i)
      (\<lambda>_ ts' ps' lg'. profile_adds wr mappings item True (ts @ ts') (ps @ ps') (lg @ lg'))
      (\<lambda>ts' ps' lg'. profile_adds wr mappings item False (ts @ ts') (ps @ ps') (lg @ lg'))"
    if "ts = []" "map row_name ps = [pp_name item]" "item_sent (profile_write wr mappings item) True lg"
    for i ts ps lg
    unfolding check_written_def Let_def did_not_verify_def
    using that item_sent_done [OF that(3)]
    by (intro steps_read) (auto simp: read_profiles_def profile_adds_def row_of_def
        intro!: steps_stop_with steps_push_defaults)
  have answered: "steps (case a of
         Inl e \<Rightarrow> write_failed ProfileItem (pp_name item) (done_word (pp_action item)) (classify_write e)
       | Inr response \<Rightarrow>
           and_then (modifies (set_outcome (\<lambda>oc. oc\<lparr>oc_written_profiles := Suc (oc_written_profiles oc)\<rparr>))) (\<lambda>_.
           and_then set_interrupt (\<lambda>_.
           and_then (push_profile \<lparr>row_name = pp_name item, row_action = done_word (pp_action item),
               row_id = json_str response ''profile_id''\<rparr>) (\<lambda>_.
             check_written re item policy (json_str response ''profile_id'')))))
      (\<lambda>_ ts ps lg'. profile_adds wr mappings item True ts ps (lg @ lg'))
      (\<lambda>ts ps lg'. profile_adds wr mappings item False ts ps (lg @ lg'))"
    if "write_block ?P a lg" for a lg
  proof (cases a)
    case (Inl e)
    with that have "item_sent (profile_write wr mappings item) False lg" by (auto simp: p item_sent_def)
    with Inl show ?thesis by (auto simp: profile_adds_def intro!: steps_write_failed)
  next
    case (Inr x)
    with that have acked: "item_sent (profile_write wr mappings item) True lg" by (auto simp: p item_sent_def)
    have checked: "steps (check_written re item policy i)
        (\<lambda>_ ts' ps' lg'. ts' = [] \<and> row_of (pp_name item) True (z # ps')
           \<and> item_sent (profile_write wr mappings item) True (lg @ lg'))
        (\<lambda>ts' ps' lg'. ts' = [] \<and> row_of (pp_name item) False (z # ps')
           \<and> item_sent (profile_write wr mappings item) False (lg @ lg'))"
      if "row_name z = pp_name item" for z i
      using check [of "[]" "[z]" lg i] that acked by (simp add: profile_adds_def)
    from Inr item_sent_done [OF acked] show ?thesis
      by (auto intro!: steps_and_then [OF count] steps_read steps_and_then [OF pushed] checked
          simp: profile_adds_def)
  qed
  show ?thesis
    unfolding write_profile_def
    by (intro steps_read steps_and_then [OF steps_attempt_write [where P = ?P, OF rq]])
      (use answered in \<open>auto simp: profile_adds_def\<close>)
qed

end
