(* ===== verification/ExecProps.thy ===== *)
theory ExecProps
  imports ExecAccount
begin

text \<open>
  The properties of an execution of a restore plan: it writes only what the plan says and in its
  order, its outcome accounts for every planned item, and what it reports of its writes is true.
\<close>

lemma steps_skip:
  assumes "pp_action item = Skip"
  shows "steps (push_profile \<lparr>row_name = pp_name item, row_action = a, row_id = i\<rparr>)
     (\<lambda>_. profile_adds wr mappings item True) (profile_adds wr mappings item False)"
  by (rule steps_push_profile) (simp add: profile_adds_def item_sent_def profile_write_def assms)

lemma steps_apply_profile:
  assumes "pp_action item \<noteq> Skip"
  shows "steps (apply_profile re topics item)
     (\<lambda>_. profile_adds (re_writers re) (rp_dlp_mappings (re_plan re)) item True)
     (profile_adds (re_writers re) (rp_dlp_mappings (re_plan re)) item False)"
proof -
  let ?A = "profile_adds (re_writers re) (rp_dlp_mappings (re_plan re)) item"
  have none: "?A False [] [] []" by (simp add: profile_adds_def)
  have verify: "steps (verify_only item policy current) (\<lambda>_. ?A True) (?A False)"
    if "pp_action item = Verify" for policy current
  proof -
    have p: "profile_write (re_writers re) (rp_dlp_mappings (re_plan re)) item = None"
      using that by (simp add: profile_write_def)
    have pushed: "steps (push_profile \<lparr>row_name = pp_name item, row_action = b, row_id = i\<rparr>)
        (\<lambda>_ ts ps lg. ts = [] \<and> map row_name ps = [pp_name item] \<and> lg = []) R" for b i R
      by (rule steps_push_profile) simp
    show ?thesis
      unfolding verify_only_def Let_def did_not_verify_def
      by (auto simp: profile_adds_def row_of_def item_sent_def p
          intro!: steps_stop_with steps_and_then [OF pushed] steps_push_defaults)
  qed
  have written: "steps (write_profile re item policy (profile_body (pp_name item) (pp_source item) policy))
      (\<lambda>_. ?A True) (?A False)"
    if "mapped_policy (re_writers re) item (rp_dlp_mappings (re_plan re)) topics = Ok policy"
      "pp_action item \<noteq> Verify" for policy
    using that assms by (cases "pp_action item") (auto intro: steps_write_profile)
  show ?thesis
    unfolding apply_profile_def Let_def
    by (auto simp: written_so_far_def read_profiles_def none split: sum.splits
        intro!: steps_stop_with steps_read verify written)
qed

lemma restore_profile_steps:
  "wp (restore_profile re topics i item)
     (\<lambda>_ s'. \<exists>ts ps lg. grew (s\<lparr>ex_cursor := Some (1, i)\<rparr>) s' ts ps lg
        \<and> profile_adds (re_writers re) (rp_dlp_mappings (re_plan re)) item True ts ps lg)
     (\<lambda>_ s'. \<exists>ts ps lg. grew (s\<lparr>ex_cursor := Some (1, i)\<rparr>) s' ts ps lg
        \<and> profile_adds (re_writers re) (rp_dlp_mappings (re_plan re)) item False ts ps lg) s"
  unfolding restore_profile_def
  by (rule steps_cursor) (simp add: steps_skip steps_apply_profile)

section \<open>The run\<close>

lemma follows_item: "follows items lg \<Longrightarrow> item_sent p True block \<Longrightarrow> follows (items @ [p]) (lg @ block)"
  by (auto simp: item_sent_def split: option.splits intro: follows.intros)

lemma halted_item: "follows items lg \<Longrightarrow> item_sent p False block \<Longrightarrow> halted (items @ p # rest) (lg @ block)"
  by (auto simp: item_sent_def split: option.splits intro: halted.intros)

lemma take_drop_Cons:
  assumes "drop i xs = x # rest"
  shows "take (Suc i) xs = take i xs @ [x]" "xs = take i xs @ x # rest" "drop (Suc i) xs = rest" "i < length xs"
proof -
  show i: "i < length xs" using assms by (metis drop_all linorder_not_less list.distinct(1))
  have x: "xs ! i = x" using assms i by (metis hd_drop_conv_nth list.sel(1))
  show "take (Suc i) xs = take i xs @ [x]" using i x by (simp add: take_Suc_conv_app_nth)
  show "xs = take i xs @ x # rest" using assms by (metis append_take_drop_id)
  show "drop (Suc i) xs = rest" using assms by (metis drop_Suc list.sel(3) tl_drop)
qed

definition reached :: "'w restore_env \<Rightarrow> nat \<Rightarrow> nat \<Rightarrow> 'w executor \<Rightarrow> bool" where
  "reached re t p s =
     (let plan = re_plan re; oc = ex_outcome s in
      map row_name (oc_topics oc) = map tp_name (take t (rp_topics plan))
      \<and> map row_name (oc_profiles oc) = map pp_name (take p (rp_profiles plan))
      \<and> follows (map topic_write (take t (rp_topics plan))
                 @ map (profile_write (re_writers re) (rp_dlp_mappings plan)) (take p (rp_profiles plan)))
          (ex_sent s)
      \<and> oc_not_attempted oc = [] \<and> \<not> oc_complete oc)"

definition rows_at :: "nat \<Rightarrow> str list \<Rightarrow> result_row list \<Rightarrow> bool" where
  "rows_at i names rows = (i < length names \<and> map row_name rows \<in> {take i names, take (Suc i) names})"

definition stopped_run :: "'w restore_env \<Rightarrow> 'w executor \<Rightarrow> bool" where
  "stopped_run re s =
     (let plan = re_plan re; oc = ex_outcome s; tn = map tp_name (rp_topics plan);
          pn = map pp_name (rp_profiles plan) in
      halted (planned_writes (re_writers re) plan) (ex_sent s)
      \<and> oc_not_attempted oc = [] \<and> \<not> oc_complete oc
      \<and> (case ex_cursor s of
           None \<Rightarrow> oc_topics oc = [] \<and> oc_profiles oc = []
         | Some (stage, i) \<Rightarrow>
             if stage = 0 then rows_at i tn (oc_topics oc) \<and> oc_profiles oc = []
             else stage = 1 \<and> map row_name (oc_topics oc) = tn \<and> rows_at i pn (oc_profiles oc)))"

lemma restore_topics_run:
  assumes "reached re i 0 s" "drop i (rp_topics (re_plan re)) = items"
  shows "wp (restore_topics re i items) (\<lambda>_. reached re (length (rp_topics (re_plan re))) 0)
           (\<lambda>_. stopped_run re) s"
  using assms
proof (induction items arbitrary: i s)
  case Nil
  then show ?case by (simp add: wp_simps reached_def)
next
  case (Cons item items)
  note d = take_drop_Cons [OF Cons.prems(2)]
  note r = Cons.prems(1)
  show ?case
    unfolding restore_topics.simps wp_and_then
  proof (rule wp_mono [OF restore_topic_steps])
    fix e and s' :: "'a executor"
    assume "\<exists>ts ps lg. grew (s\<lparr>ex_cursor := Some (0, i)\<rparr>) s' ts ps lg \<and> topic_adds item True ts ps lg"
    with r have "reached re (Suc i) 0 s'"
      by (auto simp: reached_def Let_def grew_def topic_adds_def row_of_def d(1) follows_item)
    from Cons.IH [OF this d(3)]
    show "wp (restore_topics re (Suc i) items) (\<lambda>x. wp (ret (e # x))
            (\<lambda>_. reached re (length (rp_topics (re_plan re))) 0) (\<lambda>_. stopped_run re)) (\<lambda>_. stopped_run re) s'"
      by (rule wp_mono) (simp_all add: wp_simps)
  next
    fix e and s' :: "'a executor"
    assume "\<exists>ts ps lg. grew (s\<lparr>ex_cursor := Some (0, i)\<rparr>) s' ts ps lg \<and> topic_adds item False ts ps lg"
    then obtain ts ps lg where g: "grew (s\<lparr>ex_cursor := Some (0, i)\<rparr>) s' ts ps lg"
      and a: "topic_adds item False ts ps lg" by blast
    have "planned_writes (re_writers re) (re_plan re) = map topic_write (take i (rp_topics (re_plan re)))
        @ topic_write item # (map topic_write items
        @ map (profile_write (re_writers re) (rp_dlp_mappings (re_plan re))) (rp_profiles (re_plan re)))"
      by (subst planned_writes_def, subst d(2)) simp
    moreover have "halted (map topic_write (take i (rp_topics (re_plan re))) @ topic_write item # rest)
        (ex_sent s')" for rest
      using r g a halted_item by (auto simp: reached_def Let_def grew_def topic_adds_def)
    moreover have "rows_at i (map tp_name (rp_topics (re_plan re))) (oc_topics (ex_outcome s'))"
      using r g a d by (auto simp: reached_def Let_def grew_def topic_adds_def row_of_def rows_at_def take_map)
    ultimately show "stopped_run re s'"
      using r g a by (auto simp: stopped_run_def reached_def Let_def grew_def topic_adds_def)
  qed
qed

lemma restore_profiles_run:
  assumes "reached re (length (rp_topics (re_plan re))) i s" "drop i (rp_profiles (re_plan re)) = items"
  shows "wp (restore_profiles re topics i items)
           (\<lambda>_. reached re (length (rp_topics (re_plan re))) (length (rp_profiles (re_plan re))))
           (\<lambda>_. stopped_run re) s"
  using assms
proof (induction items arbitrary: i s)
  case Nil
  then show ?case by (simp add: wp_simps reached_def)
next
  case (Cons item items)
  note d = take_drop_Cons [OF Cons.prems(2)]
  note r = Cons.prems(1)
  let ?w = "profile_write (re_writers re) (rp_dlp_mappings (re_plan re))"
  let ?T = "map topic_write (rp_topics (re_plan re))"
  show ?case
    unfolding restore_profiles.simps wp_and_then
  proof (rule wp_mono [OF restore_profile_steps])
    fix u and s' :: "'a executor"
    assume "\<exists>ts ps lg. grew (s\<lparr>ex_cursor := Some (1, i)\<rparr>) s' ts ps lg
      \<and> profile_adds (re_writers re) (rp_dlp_mappings (re_plan re)) item True ts ps lg"
    then obtain ts ps lg where g: "grew (s\<lparr>ex_cursor := Some (1, i)\<rparr>) s' ts ps lg"
      and a: "profile_adds (re_writers re) (rp_dlp_mappings (re_plan re)) item True ts ps lg" by blast
    from r g a follows_item [of "?T @ map ?w (take i (rp_profiles (re_plan re)))" "ex_sent s" "?w item" lg]
    have "reached re (length (rp_topics (re_plan re))) (Suc i) s'"
      by (auto simp: reached_def Let_def grew_def profile_adds_def row_of_def d(1))
    from Cons.IH [OF this d(3)]
    show "wp (restore_profiles re topics (Suc i) items)
        (\<lambda>_. reached re (length (rp_topics (re_plan re))) (length (rp_profiles (re_plan re))))
        (\<lambda>_. stopped_run re) s'" .
  next
    fix e and s' :: "'a executor"
    assume "\<exists>ts ps lg. grew (s\<lparr>ex_cursor := Some (1, i)\<rparr>) s' ts ps lg
      \<and> profile_adds (re_writers re) (rp_dlp_mappings (re_plan re)) item False ts ps lg"
    then obtain ts ps lg where g: "grew (s\<lparr>ex_cursor := Some (1, i)\<rparr>) s' ts ps lg"
      and a: "profile_adds (re_writers re) (rp_dlp_mappings (re_plan re)) item False ts ps lg" by blast
    have "planned_writes (re_writers re) (re_plan re)
        = (?T @ map ?w (take i (rp_profiles (re_plan re)))) @ ?w item # map ?w items"
      by (subst planned_writes_def, subst d(2)) simp
    moreover have "halted ((?T @ map ?w (take i (rp_profiles (re_plan re)))) @ ?w item # map ?w items)
        (ex_sent s')"
      using r g a halted_item [of "?T @ map ?w (take i (rp_profiles (re_plan re)))" "ex_sent s" "?w item" lg]
      by (simp add: reached_def Let_def grew_def profile_adds_def)
    moreover have "rows_at i (map pp_name (rp_profiles (re_plan re))) (oc_profiles (ex_outcome s'))"
      using r g a d by (auto simp: reached_def Let_def grew_def profile_adds_def row_of_def rows_at_def take_map)
    ultimately show "stopped_run re s'"
      using r g a by (auto simp: stopped_run_def reached_def Let_def grew_def profile_adds_def)
  qed
qed

lemma restore_stages_run:
  "wp (restore_stages re)
     (\<lambda>_. reached re (length (rp_topics (re_plan re))) (length (rp_profiles (re_plan re))))
     (\<lambda>_. stopped_run re) (start_executor w)"
  unfolding restore_stages_def wp_and_then
proof (rule wp_harmless [OF harmless_recheck])
  fix u and s' :: "'a executor"
  assume "same_but_error (start_executor w) s'"
  then have "reached re 0 0 s'"
    by (auto simp: reached_def same_but_error_def start_executor_def no_outcome_def follows_Nil)
  then have "wp (restore_topics re 0 (rp_topics (re_plan re)))
      (\<lambda>_. reached re (length (rp_topics (re_plan re))) 0) (\<lambda>_. stopped_run re) s'"
    by (rule restore_topics_run) simp
  then show "wp (restore_topics re 0 (rp_topics (re_plan re)))
      (\<lambda>topics. wp (restore_profiles re topics 0 (rp_profiles (re_plan re)))
        (\<lambda>_. reached re (length (rp_topics (re_plan re))) (length (rp_profiles (re_plan re))))
        (\<lambda>_. stopped_run re)) (\<lambda>_. stopped_run re) s'"
    by (rule wp_mono) (auto intro: restore_profiles_run)
next
  fix e and s' :: "'a executor"
  assume "same_but_error (start_executor w) s'"
  moreover have "halted items []" for items
    using halted_before [OF follows_Nil, of items] by simp
  ultimately show "stopped_run re s'"
    by (auto simp: stopped_run_def same_but_error_def start_executor_def no_outcome_def)
qed

lemma execute_cases:
  obtains (completed) ex where "execute re w = (Ok (ex_outcome ex), ex)" "oc_complete (ex_outcome ex)"
      "\<exists>s. reached re (length (rp_topics (re_plan re))) (length (rp_profiles (re_plan re))) s \<and> outcome_is_true s
         \<and> ex_sent ex = ex_sent s \<and> ex_outcome ex = (ex_outcome s)\<lparr>oc_complete := True\<rparr>"
    | (failed) ex where "execute re w = (Ok (ex_outcome ex), ex)" "\<not> oc_complete (ex_outcome ex)"
      "\<exists>s. stopped_run re s \<and> outcome_is_true s \<and> ex_sent ex = ex_sent s \<and> ex_cursor ex = ex_cursor s
         \<and> ex_outcome ex = (ex_outcome s)\<lparr>oc_not_attempted := not_attempted_items (re_plan re) (ex_cursor s)\<rparr>"
    | (interrupted) ex where "execute re w = (Err (Interrupted (outcome_context (ex_outcome ex))), ex)"
      "stopped_run re ex" "outcome_is_true ex"
proof -
  obtain r s where run: "restore_stages re (start_executor w) = (r, s)" by fastforce
  have "outcome_is_true (start_executor w)"
    by (simp add: outcome_is_true_def acknowledged_def start_executor_def no_outcome_def)
  from truthfulD [OF truthful_stages this, of re] run have t: "outcome_is_true s"
    by (simp add: wp_def split: sum.splits)
  show ?thesis
  proof (cases r)
    case (Inl e)
    with restore_stages_run [of re w] run have st: "stopped_run re s" by (simp add: wp_def)
    show ?thesis
    proof (cases e)
      case StopFailed
      let ?ex = "snd (execute re w)"
      from StopFailed Inl run have ex: "execute re w = (Ok (ex_outcome ?ex), ?ex)"
        "ex_outcome ?ex = (ex_outcome s)\<lparr>oc_not_attempted := not_attempted_items (re_plan re) (ex_cursor s)\<rparr>"
        "ex_sent ?ex = ex_sent s" "ex_cursor ?ex = ex_cursor s"
        by (simp_all add: execute_def Let_def)
      moreover from ex(2) st have "\<not> oc_complete (ex_outcome ?ex)" by (simp add: stopped_run_def Let_def)
      ultimately show ?thesis using st t by (intro failed [of ?ex]) blast+
    next
      case StopInterrupted
      with Inl run st t show ?thesis by (intro interrupted [of s]) (simp_all add: execute_def)
    qed
  next
    case (Inr u)
    with restore_stages_run [of re w] run
    have "reached re (length (rp_topics (re_plan re))) (length (rp_profiles (re_plan re))) s"
      by (simp add: wp_def)
    with Inr run t show ?thesis
      by (intro completed [of "snd (execute re w)"]) (auto simp: execute_def Let_def)
  qed
qed

text \<open>C14: A restore sends only the writes of its plan: one acknowledged write for every planned create or
  update, in the order of the plan, with the body the plan gives it, dispatched twice only after a
  rejected 401, and nothing after the first write that was not acknowledged. A run that reports
  itself complete has an acknowledged write for every one of them.
\<close>

theorem restore_writes_follow_the_plan:
  "case execute re w of
     (Inl e, ex) \<Rightarrow> halted (planned_writes (re_writers re) (re_plan re)) (ex_sent ex)
   | (Inr oc, ex) \<Rightarrow>
       if oc_complete oc then follows (planned_writes (re_writers re) (re_plan re)) (ex_sent ex)
       else halted (planned_writes (re_writers re) (re_plan re)) (ex_sent ex)"
proof (cases rule: execute_cases [of re w])
  case (completed ex)
  then show ?thesis by (auto simp: reached_def Let_def planned_writes_def)
next
  case (failed ex)
  then show ?thesis by (auto simp: stopped_run_def Let_def)
next
  case (interrupted ex)
  then show ?thesis by (auto simp: stopped_run_def Let_def)
qed

text \<open>C15: What a restore reports of its writes is true: it counts exactly the topic and the profile
  writes the service acknowledged, and where it counts none and names none as unknown, so that an
  interruption says that nothing was changed, no dispatched write can have been applied.
\<close>

theorem reported_writes_are_the_real_ones:
  "outcome_is_true (snd (execute re w))"
proof (cases rule: execute_cases [of re w])
  case (completed ex)
  then show ?thesis by (auto simp: outcome_is_true_def Let_def oc_written_def)
next
  case (failed ex)
  then show ?thesis by (auto simp: outcome_is_true_def Let_def oc_written_def)
qed simp

section \<open>The accounting\<close>

definition planned_items :: "restore_plan \<Rightarrow> (item_kind \<times> str) list" where
  "planned_items plan =
     map (\<lambda>item. (TopicItem, tp_name item)) (rp_topics plan)
     @ map (\<lambda>item. (ProfileItem, pp_name item)) (rp_profiles plan)"

definition reported_items :: "restore_outcome \<Rightarrow> (item_kind \<times> str) list" where
  "reported_items oc =
     map (\<lambda>row. (TopicItem, row_name row)) (oc_topics oc)
     @ map (\<lambda>row. (ProfileItem, row_name row)) (oc_profiles oc)"

text \<open>Every planned item is a row, is not attempted, or is the one item that stopped the run.\<close>

definition accounts_for :: "restore_plan \<Rightarrow> restore_outcome \<Rightarrow> bool" where
  "accounts_for plan oc =
     (\<exists>stopped. length stopped \<le> 1 \<and> (oc_complete oc \<longrightarrow> stopped @ oc_not_attempted oc = [])
        \<and> reported_items oc @ stopped @ oc_not_attempted oc = planned_items plan)"

lemma filter_enumerate_after:
  "map f (filter (\<lambda>(j, _). i < j) (enumerate n xs)) = map f (enumerate (max n (Suc i)) (drop (Suc i - n) xs))"
proof (induction xs arbitrary: n)
  case (Cons x xs)
  show ?case
  proof (cases "i < n")
    case True
    have "filter (\<lambda>(j, _). i < j) (enumerate (Suc n) xs) = enumerate (Suc n) xs"
      using True by (auto simp: filter_id_conv in_set_enumerate_eq)
    moreover have "max n (Suc i) = n" "Suc i - n = 0" using True by simp_all
    ultimately show ?thesis using True by simp
  next
    case False
    then have "Suc i - n = Suc (Suc i - Suc n)" by simp
    with False Cons [of "Suc n"] show ?thesis by (simp add: max_def)
  qed
qed simp

lemma enumerate_names: "map (\<lambda>(i, item). g item) (enumerate n xs) = map g xs"
  by (induction xs arbitrary: n) simp_all

lemma after_names:
  "map (\<lambda>(i, item). g item) (filter (\<lambda>(j, _). i < j) (enumerate 0 xs)) = drop (Suc i) (map g xs)"
  by (simp add: filter_enumerate_after enumerate_names drop_map)

lemma not_attempted_simps:
  "not_attempted_items plan None = planned_items plan"
  "not_attempted_items plan (Some (0, i)) = drop (Suc i) (map (\<lambda>item. (TopicItem, tp_name item)) (rp_topics plan))
     @ map (\<lambda>item. (ProfileItem, pp_name item)) (rp_profiles plan)"
  "not_attempted_items plan (Some (Suc 0, i)) = drop (Suc i) (map (\<lambda>item. (ProfileItem, pp_name item)) (rp_profiles plan))"
  by (simp_all add: not_attempted_items_def planned_items_def after_cursor_def enumerate_names after_names)

lemma rows_at_split:
  assumes "rows_at i (map n items) rows"
  shows "\<exists>stopped. length stopped \<le> 1 \<and> map (\<lambda>row. (kind, row_name row)) rows @ stopped
     @ drop (Suc i) (map (\<lambda>item. (kind, n item)) items) = map (\<lambda>item. (kind, n item)) items"
proof -
  let ?xs = "map (\<lambda>item. (kind, n item)) items"
  have rows: "map (\<lambda>row. (kind, row_name row)) rows = map (Pair kind) (map row_name rows)" by simp
  have xs: "take j ?xs = map (Pair kind) (take j (map n items))" for j by (simp add: take_map)
  have "map (\<lambda>row. (kind, row_name row)) rows = take i ?xs
      \<or> map (\<lambda>row. (kind, row_name row)) rows = take (Suc i) ?xs"
    unfolding rows xs using assms by (auto simp: rows_at_def simp del: map_map)
  then consider "map (\<lambda>row. (kind, row_name row)) rows = take i ?xs"
    | "map (\<lambda>row. (kind, row_name row)) rows = take (Suc i) ?xs"
    by blast
  then show ?thesis
  proof cases
    case 1
    have "i < length ?xs" using assms by (simp add: rows_at_def)
    then have "take i ?xs @ [?xs ! i] @ drop (Suc i) ?xs = ?xs" using id_take_nth_drop [of i ?xs] by simp
    with 1 show ?thesis by (intro exI [of _ "[?xs ! i]"] conjI, simp) (simp only:)
  next
    case 2
    then show ?thesis by (intro exI [of _ "[]"] conjI, simp) (simp only: append_Nil append_take_drop_id)
  qed
qed

text \<open>C16: The result of a restore accounts for every planned item: the rows, the item that stopped the
  run if it has no row, and the items reported as not attempted are together the planned topics and
  profiles, in their order; a run that reports itself complete has a row for each of them.
\<close>

theorem restore_accounts_for_every_item:
  "case execute re w of
     (Inl e, ex) \<Rightarrow> e = Interrupted (outcome_context (ex_outcome ex))
   | (Inr oc, ex) \<Rightarrow> accounts_for (re_plan re) oc"
proof (cases rule: execute_cases [of re w])
  case (completed ex)
  then obtain s where r: "reached re (length (rp_topics (re_plan re))) (length (rp_profiles (re_plan re))) s"
    and oc: "ex_outcome ex = (ex_outcome s)\<lparr>oc_complete := True\<rparr>" by blast
  have "reported_items (ex_outcome ex) = planned_items (re_plan re)"
  proof -
    have "map (Pair TopicItem) (map row_name (oc_topics (ex_outcome ex)))
        @ map (Pair ProfileItem) (map row_name (oc_profiles (ex_outcome ex))) = planned_items (re_plan re)"
      using r oc by (simp add: reached_def Let_def planned_items_def)
    then show ?thesis by (simp add: reported_items_def comp_def)
  qed
  with completed r oc show ?thesis by (auto simp: accounts_for_def reached_def Let_def)
next
  case (failed ex)
  then obtain s where st: "stopped_run re s"
    and oc: "ex_outcome ex = (ex_outcome s)\<lparr>oc_not_attempted := not_attempted_items (re_plan re) (ex_cursor s)\<rparr>"
    by blast
  have "\<exists>stopped. length stopped \<le> 1 \<and> reported_items (ex_outcome s) @ stopped
      @ not_attempted_items (re_plan re) (ex_cursor s) = planned_items (re_plan re)"
  proof (cases "ex_cursor s")
    case None
    with st show ?thesis
      by (intro exI [of _ "[]"]) (simp add: stopped_run_def Let_def reported_items_def not_attempted_simps)
  next
    case (Some c)
    obtain stage i where c: "c = (stage, i)" by (cases c)
    show ?thesis
    proof (cases "stage = 0")
      case True
      with st Some c have "rows_at i (map tp_name (rp_topics (re_plan re))) (oc_topics (ex_outcome s))"
        "oc_profiles (ex_outcome s) = []" by (simp_all add: stopped_run_def Let_def)
      with rows_at_split [OF this(1), of TopicItem] Some c True show ?thesis
        by (auto simp: reported_items_def not_attempted_simps planned_items_def)
    next
      case False
      with st Some c have one: "stage = Suc 0"
        and names: "map row_name (oc_topics (ex_outcome s)) = map tp_name (rp_topics (re_plan re))"
        and rows: "rows_at i (map pp_name (rp_profiles (re_plan re))) (oc_profiles (ex_outcome s))"
        by (simp_all add: stopped_run_def Let_def)
      have "map (Pair TopicItem) (map row_name (oc_topics (ex_outcome s)))
          = map (Pair TopicItem) (map tp_name (rp_topics (re_plan re)))" by (simp only: names)
      with rows_at_split [OF rows, of ProfileItem] Some c one show ?thesis
        by (simp add: reported_items_def not_attempted_simps planned_items_def comp_def)
    qed
  qed
  with failed oc show ?thesis by (auto simp: accounts_for_def reported_items_def)
next
  case (interrupted ex)
  then show ?thesis by simp
qed

end
