(* ===== verification/CompareProps.thy ===== *)
theory CompareProps
  imports JsonValue
begin

text \<open>
  What a comparison of two policies decides: without a finding the two are equal as JavaScript sees
  them, a match differs at most by known server defaults, and a policy of directional entries is
  compared exactly.
\<close>

section \<open>Exact comparison\<close>

lemma findings_simps [simp]:
  "f_defaults no_findings = []" "f_differences no_findings = []"
  "f_defaults (difference_at p) = []" "f_differences (difference_at p) = [p]"
  "f_defaults (default_at p) = [p]" "f_differences (default_at p) = []"
  "f_defaults (then_find a b) = f_defaults a @ f_defaults b"
  "f_differences (then_find a b) = f_differences a @ f_differences b"
  by (simp_all add: no_findings_def difference_at_def default_at_def then_find_def)

definition exact :: "findings \<Rightarrow> bool" where
  "exact f = (f_defaults f = [] \<and> f_differences f = [])"

lemma exact_simps [simp]:
  "exact no_findings" "\<not> exact (difference_at p)" "\<not> exact (default_at p)"
  "exact (then_find a b) \<longleftrightarrow> exact a \<and> exact b"
  by (auto simp: exact_def)

lemma js_equal_strict: "strict_eq (Some s) (Some t) \<Longrightarrow> js_equal s t"
  by (cases s; cases t) simp_all

lemma strict_eq_containers [simp]:
  "\<not> strict_eq (Some (JArray xs)) b" "\<not> strict_eq (Some (JObject m)) b"
  by (auto split: option.splits json.splits)

lemma strict_eq_None [simp]: "\<not> strict_eq (Some a) None"
  by (cases a) simp_all

lemma js_equal_scalars:
  "\<not> strict_eq (Some s) (Some t) \<Longrightarrow> js_equal s t \<Longrightarrow>
     (\<exists>xs ys. s = JArray xs \<and> t = JArray ys) \<or> (\<exists>m n. s = JObject m \<and> t = JObject n)"
  by (cases s; cases t) simp_all

lemma js_equal_fields_iff:
  "js_equal_fields x y \<longleftrightarrow> (\<forall>(k, v) \<in> set x. \<exists>w. jlookup y k = Some w \<and> js_equal v w)"
  by (induction x) (auto split: option.splits)

definition same_option :: "json option \<Rightarrow> json option \<Rightarrow> bool" where
  "same_option a b = (case (a, b) of
      (Some s, Some t) \<Rightarrow> js_equal s t | (None, None) \<Rightarrow> True | _ \<Rightarrow> False)"

lemma same_option_simps [simp]:
  "same_option (Some s) b \<longleftrightarrow> (\<exists>t. b = Some t \<and> js_equal s t)"
  "same_option None b \<longleftrightarrow> b = None"
  "same_option a None \<longleftrightarrow> a = None"
  by (auto simp: same_option_def split: option.splits)

definition keys_agree :: "jobject \<Rightarrow> jobject \<Rightarrow> str \<Rightarrow> bool" where
  "keys_agree ss ts k = same_option (jlookup ss k) (jlookup ts k)"

lemma js_equal_object:
  assumes "distinct (map fst ss)" "distinct (map fst ts)"
  shows "js_equal (JObject ss) (JObject ts) \<longleftrightarrow> (\<forall>k \<in> set (walk_keys ss ts). keys_agree ss ts k)"
proof
  assume "js_equal (JObject ss) (JObject ts)"
  then have len: "length ss = length ts"
    and sub: "\<And>k v. (k, v) \<in> set ss \<Longrightarrow> \<exists>w. jlookup ts k = Some w \<and> js_equal v w"
    by (auto simp: js_equal_fields_iff)
  have "fst ` set ss \<subseteq> fst ` set ts" using sub jlookup_Some_mem by force
  moreover have "card (fst ` set ss) = card (fst ` set ts)"
    using assms len by (metis distinct_card length_map list.set_map)
  ultimately have keys: "fst ` set ss = fst ` set ts" by (simp add: card_subset_eq)
  show "\<forall>k \<in> set (walk_keys ss ts). keys_agree ss ts k"
  proof
    fix k assume "k \<in> set (walk_keys ss ts)"
    then have "k \<in> fst ` set ss"
      using keys by (auto simp: walk_keys_def)
    then obtain v where v: "jlookup ss k = Some v"
      using jlookup_eq_None [of ss k] by auto
    with sub jlookup_Some_mem obtain w where "jlookup ts k = Some w" "js_equal v w" by blast
    with v show "keys_agree ss ts k" by (simp add: keys_agree_def)
  qed
next
  assume all: "\<forall>k \<in> set (walk_keys ss ts). keys_agree ss ts k"
  have sub: "\<exists>w. jlookup ts k = Some w \<and> js_equal v w" if "(k, v) \<in> set ss" for k v
  proof -
    have "jlookup ss k = Some v" using that assms(1) by (simp add: jlookup_eq_Some)
    moreover have "k \<in> set (walk_keys ss ts)" using that by (force simp: walk_keys_def)
    ultimately show ?thesis using all by (auto simp: keys_agree_def)
  qed
  have "fst ` set ts \<subseteq> fst ` set ss"
  proof
    fix k assume "k \<in> fst ` set ts"
    then obtain w where w: "jlookup ts k = Some w" using jlookup_eq_None [of ts k] by auto
    show "k \<in> fst ` set ss"
    proof (rule ccontr)
      assume "k \<notin> fst ` set ss"
      then have "jlookup ss k = None" by (simp add: jlookup_eq_None)
      moreover have "k \<in> set (walk_keys ss ts)"
        using \<open>k \<in> fst ` set ts\<close> \<open>k \<notin> fst ` set ss\<close> by (auto simp: walk_keys_def contains_key_iff)
      ultimately show False using all w by (auto simp: keys_agree_def)
    qed
  qed
  moreover have "fst ` set ss \<subseteq> fst ` set ts" using sub jlookup_Some_mem by force
  ultimately have "fst ` set ss = fst ` set ts" by blast
  then have "length ss = length ts"
    using assms by (metis distinct_card length_map list.set_map)
  with sub show "js_equal (JObject ss) (JObject ts)" by (auto simp: js_equal_fields_iff)
qed

lemma visit_exact:
  "pred_option serde_value source \<Longrightarrow> pred_option serde_value target \<Longrightarrow>
     exact (visit e source target path toxic topics) \<longleftrightarrow> same_option source target"
  "\<forall>s \<in> set ss. serde_value s \<Longrightarrow> \<forall>t \<in> set ts. serde_value t \<Longrightarrow> i + length ss = length ts \<Longrightarrow>
     exact (visit_items e i ss ts path toxic topics) \<longleftrightarrow> js_equal_items ss (drop i ts)"
  "serde_value (JObject ms) \<Longrightarrow> serde_value (JObject mt) \<Longrightarrow>
     exact (visit_keys e ks ms mt path toxic topics) \<longleftrightarrow> (\<forall>k \<in> set ks. keys_agree ms mt k)"
proof (induction e source target path toxic topics and e i ss ts path toxic topics
    and e ks ms mt path toxic topics rule: visit_visit_items_visit_keys.induct)
  case (1 e source target path toxic topics)
  show ?case
  proof (cases "strict_eq source target")
    case True
    then show ?thesis
      by (cases source; cases target)
        (auto simp: visit.simps js_equal_strict simp del: strict_eq.simps(2))
  next
    case False
    consider (arrays) xs ys where "source = Some (JArray xs)" "target = Some (JArray ys)"
      | (objects) m n where "source = Some (JObject m)" "target = Some (JObject n)"
      | (other) "\<not> ((\<exists>xs ys. source = Some (JArray xs) \<and> target = Some (JArray ys))
                  \<or> (\<exists>m n. source = Some (JObject m) \<and> target = Some (JObject n)))"
      by blast
    then show ?thesis
    proof cases
      case arrays
      with 1 False show ?thesis by (cases "length xs = length ys") (auto simp: visit.simps)
    next
      case objects
      with 1(3,4) have d: "distinct (map fst m)" "distinct (map fst n)"
        by (simp_all add: sorted_keys_distinct)
      have "exact (visit_keys e (walk_keys m n) m n path toxic topics) \<longleftrightarrow> (\<forall>k \<in> set (walk_keys m n). keys_agree m n k)"
        using objects 1 False by simp
      with objects False js_equal_object [OF d] show ?thesis by (simp add: visit.simps)
    next
      case other
      have "\<not> same_option source target"
      proof
        assume same: "same_option source target"
        with False obtain s t where st: "source = Some s" "target = Some t" "js_equal s t"
          by (cases source) auto
        with js_equal_scalars [of s t] False other show False by blast
      qed
      moreover from other False have "visit e source target path toxic topics = difference_at path"
        by (auto simp: visit.simps split: option.splits json.splits)
      ultimately show ?thesis by simp
    qed
  qed
next
  case (2 e i ts path toxic topics)
  then show ?case by (simp add: visit_items.simps)
next
  case (3 e i item ss ts path toxic topics)
  then have i: "i < length ts" by simp
  then have "drop i ts = ts ! i # drop (Suc i) ts" by (simp add: Cons_nth_drop_Suc)
  with 3 i show ?case by (simp add: visit_items.simps)
next
  case (4 e ss ts path toxic topics)
  then show ?case by (simp add: visit_keys.simps)
next
  case (5 e key ks ss ts path toxic topics)
  have member: "pred_option serde_value (jlookup ss key)" "pred_option serde_value (jlookup ts key)"
    using 5(3,4) by (auto simp: option.pred_set dest!: jlookup_Some_mem)
  show ?case
  proof (cases "jlookup ss key")
    case None
    then show ?thesis using 5
      by (cases "jlookup ts key") (auto simp: visit_keys.simps keys_agree_def)
  next
    case (Some s)
    then show ?thesis using 5 member
      by (cases "jlookup ts key") (auto simp: visit_keys.simps keys_agree_def)
  qed
qed

section \<open>Directional policies\<close>

definition all_directional :: "json option \<Rightarrow> bool" where
  "all_directional expected = (\<forall>i < length (entries_of expected). \<not> legacy_at expected i)"

lemma legacy_at_entries: "legacy_at expected i \<Longrightarrow> i < length (entries_of expected)"
  by (auto simp: legacy_at_def entries_of_def split: option.splits json.splits Option.bind_splits)

lemma directional_path: "all_directional expected \<Longrightarrow> allowance_path expected path = path"
  using legacy_at_entries [of expected]
  by (auto simp: allowance_path_def all_directional_def split: option.splits)

lemma model_pattern: "starts_with path ''policy'' \<Longrightarrow> \<not> matches_pattern path (''model.'' @ rest)"
  by (cases path) (auto simp: matches_pattern_def starts_with_def split: if_splits)

lemma model_path: "starts_with path ''policy'' \<Longrightarrow> path \<noteq> ''model.'' @ rest"
  by (cases path) (auto simp: starts_with_def split: if_splits)

lemma no_server_default:
  assumes "all_directional expected" "starts_with path ''policy''"
  shows "\<not> server_default expected source target path key added toxic topics"
proof -
  note p = model_path [OF assms(2)]
  note m = model_pattern [OF assms(2)]
  have "path \<noteq> ''model.app-protection''" using p [of "''app-protection''"] by simp
  moreover have "path \<noteq> ''model.data-protection''" using p [of "''data-protection''"] by simp
  moreover have "path \<noteq> ''model.data-protection.source-code-detection''"
    using p [of "''data-protection.source-code-detection''"] by simp
  moreover have "path \<noteq> ''model.app-protection.malicious-code-protection''"
    using p [of "''app-protection.malicious-code-protection''"] by simp
  moreover have "\<not> matches_pattern path ''model.model-protection[#]''" using m [of "''model-protection[#]''"] by simp
  moreover have "\<not> matches_pattern path ''model.agent-protection[#]''" using m [of "''agent-protection[#]''"] by simp
  moreover have "\<not> matches_pattern path ''model.data-protection.database-security[#]''"
    using m [of "''data-protection.database-security[#]''"] by simp
  moreover have "\<not> matches_pattern path ''model.model-protection[#].topic-list[#].topic[#]''"
    using m [of "''model-protection[#].topic-list[#].topic[#]''"] by simp
  moreover have "\<not> matches_pattern path ''model.model-protection[#].toxic-category-list[#]''"
    using m [of "''model-protection[#].toxic-category-list[#]''"] by simp
  ultimately show ?thesis
    by (simp add: server_default_def allowed_default_def allowed_severity_def directional_path [OF assms(1)] Let_def)
qed

lemma starts_with_append: "starts_with path p \<Longrightarrow> starts_with (path @ more') p"
proof -
  assume "starts_with path p"
  then have "path = p @ drop (length p) path" unfolding starts_with_def by (metis append_take_drop_id)
  then show ?thesis unfolding starts_with_def by (metis append_assoc append_eq_conv_conj)
qed

lemma visit_directional:
  "all_directional e \<Longrightarrow> starts_with path ''policy'' \<Longrightarrow> f_defaults (visit e source target path toxic topics) = []"
  "all_directional e \<Longrightarrow> starts_with path ''policy'' \<Longrightarrow> f_defaults (visit_items e i ss ts path toxic topics) = []"
  "all_directional e \<Longrightarrow> starts_with path ''policy'' \<Longrightarrow> f_defaults (visit_keys e ks ms mt path toxic topics) = []"
proof (induction e source target path toxic topics and e i ss ts path toxic topics
    and e ks ms mt path toxic topics rule: visit_visit_items_visit_keys.induct)
  case (1 e source target path toxic topics)
  then show ?case by (auto simp: visit.simps split: option.splits json.splits)
next
  case (2 e i ts path toxic topics)
  then show ?case by (simp add: visit_items.simps)
next
  case (3 e i item ss ts path toxic topics)
  then show ?case by (simp add: visit_items.simps starts_with_append)
next
  case (4 e ss ts path toxic topics)
  then show ?case by (simp add: visit_keys.simps)
next
  case (5 e key ks ss ts path toxic topics)
  then show ?case
    by (auto simp: visit_keys.simps starts_with_append no_server_default split: option.splits)
qed

lemma compare_fields:
  "c_matches (compare_policies a b) = (f_differences (visit a a b ''policy'' False False) = [])"
  "c_server_defaults (compare_policies a b) = f_defaults (visit a a b ''policy'' False False)"
  by (simp_all add: compare_policies_def Let_def)

text \<open>C17: A policy all of whose entries are directional matches its read-back exactly when the two are
  equal as JavaScript compares them: numbers by value, objects by their keys, arrays by position.
  No server default is accepted.
\<close>

theorem directional_policies_compare_exactly:
  assumes "serde_value a" "serde_value b" "all_directional (Some a)"
  shows "c_matches (compare_policies (Some a) (Some b)) \<longleftrightarrow> js_equal a b"
proof -
  let ?f = "visit (Some a) (Some a) (Some b) ''policy'' False False"
  have "f_defaults ?f = []" by (rule visit_directional [OF assms(3)]) (simp add: starts_with_def)
  moreover have "exact ?f \<longleftrightarrow> js_equal a b" using visit_exact(1) [of "Some a" "Some b"] assms by simp
  ultimately show ?thesis by (simp add: compare_fields exact_def)
qed

definition legacy_pair :: "json \<times> json" where
  "legacy_pair =
     (let entry = (\<lambda>act. JObject [(''content-type-configurations'', JObject [(''prompt'', JObject [(''action'', JString act)])])])
      in (JObject [(''ai-security-profiles'', JArray [entry ''block''])],
          JObject [(''ai-security-profiles'', JArray [entry ''allow''])]))"

theorem directional_policies_compare_exactly_witness:
  "\<not> c_matches (compare_policies (Some (fst legacy_pair)) (Some (snd legacy_pair)))"
proof -
  have "serde_value (fst legacy_pair)" "serde_value (snd legacy_pair)" by (simp_all add: legacy_pair_def)
  moreover have "all_directional (Some (fst legacy_pair))"
    by (simp add: legacy_pair_def all_directional_def legacy_at_def entries_of_def jget_def ai_profiles_def
        is_directional_def contains_key_def content_type_configurations_def)
  moreover have "\<not> js_equal (fst legacy_pair) (snd legacy_pair)"
    by (simp add: legacy_pair_def)
  ultimately show ?thesis by (simp add: directional_policies_compare_exactly)
qed

section \<open>What a match may differ in\<close>

text \<open>The values a server default may have.\<close>

definition known_default :: "str \<Rightarrow> json \<Rightarrow> bool" where
  "known_default key v =
     (key = ''severity'' \<and> v \<in> {JString ''low'', JString ''medium'', JString ''high''}
      \<or> key = ''database-security'' \<and> v = JNull
      \<or> key = ''url-detected-severity'' \<and> v = JString ''low''
      \<or> key = ''default-url-category'' \<and> v = JObject [(''member'', JNull)]
      \<or> key = ''severity-by-confidence''
        \<and> v = JObject [(''high'', JString ''medium''), (''moderate'', JString ''low'')])"

text \<open>The second value is the first one with some known defaults added to its objects.\<close>

inductive gains_defaults :: "json \<Rightarrow> json \<Rightarrow> bool" where
  same_scalar: "strict_eq (Some s) (Some t) \<Longrightarrow> gains_defaults s t"
| same_items: "list_all2 gains_defaults ss ts \<Longrightarrow> gains_defaults (JArray ss) (JArray ts)"
| same_fields: "(\<And>k s. jlookup ms k = Some s \<Longrightarrow> \<exists>t. jlookup mt k = Some t \<and> gains_defaults s t) \<Longrightarrow>
    (\<And>k t. jlookup mt k = Some t \<Longrightarrow> jlookup ms k \<noteq> None \<or> known_default k t) \<Longrightarrow>
    gains_defaults (JObject ms) (JObject mt)"

lemma strict_eq_string: "strict_eq (Some (JString a)) (Some t) \<longleftrightarrow> t = JString a"
  by (cases t) auto

lemma strict_eq_null: "strict_eq (Some JNull) (Some t) \<longleftrightarrow> t = JNull"
  by (cases t) auto

lemma allowed_severity_values:
  "allowed_severity rel source target topics = Some v \<Longrightarrow> v \<in> {JString ''low'', JString ''medium'', JString ''high''}"
  by (auto simp: allowed_severity_def Let_def severity_of_operation_def split: if_splits Option.bind_splits)

lemma allowed_default_cases:
  assumes "allowed_default rel source target key topics = Some v"
  obtains (url) "key = ''url-detected-severity''" "v = JString ''low''"
    | (severity) "key = ''severity''" "allowed_severity rel source target topics = Some v"
    | (database) "key = ''database-security''" "v = JNull"
  using assms by (auto simp: allowed_default_def Let_def split: if_splits option.splits)

lemma allowed_default_known:
  assumes "allowed_default rel source target key topics = Some v" "strict_eq (Some v) (Some t)"
  shows "known_default key t"
  using assms(1)
proof (cases rule: allowed_default_cases)
  case url
  with assms(2) show ?thesis by (simp add: known_default_def strict_eq_string del: strict_eq.simps(2))
next
  case severity
  from allowed_severity_values [OF severity(2)] assms(2) severity(1) show ?thesis
    by (auto simp: known_default_def strict_eq_string simp del: strict_eq.simps(2))
next
  case database
  with assms(2) show ?thesis by (simp add: known_default_def strict_eq_null del: strict_eq.simps(2))
qed

lemma one_key: "length v = Suc 0 \<Longrightarrow> jlookup v k = Some x \<Longrightarrow> v = [(k, x)]"
  by (cases v) (auto split: if_splits)

lemma two_keys:
  assumes "length v = 2" "sorted_keys v" "jlookup v a = Some x" "jlookup v b = Some y" "key_less a b"
  shows "v = [(a, x), (b, y)]"
proof -
  obtain p q r s where v: "v = [(p, q), (r, s)]"
    using assms(1) by (metis (no_types, opaque_lifting) One_nat_def Suc_1 length_0_conv length_Suc_conv old.prod.exhaust)
  with assms show ?thesis by (auto split: if_splits dest: key_less_trans)
qed

lemma server_default_known:
  assumes "server_default e source target path key t toxic topics" "serde_value t"
  shows "known_default key t"
proof -
  consider (category) "key = ''default-url-category''" "case t of JObject v \<Rightarrow> length v = 1 \<and> jlookup v ''member'' = Some JNull | _ \<Rightarrow> False"
    | (confidence) "key = ''severity-by-confidence''"
        "case t of JObject v \<Rightarrow> length v = 2 \<and> member_text v ''high'' = Some ''medium''
           \<and> member_text v ''moderate'' = Some ''low'' | _ \<Rightarrow> False"
    | (table) v where "allowed_default (allowance_path e path) source target key topics = Some v" "strict_eq (Some v) (Some t)"
    using assms(1) by (auto simp: server_default_def Let_def split: if_splits option.splits)
  then show ?thesis
  proof cases
    case category
    then show ?thesis by (auto simp: known_default_def split: json.splits dest: one_key)
  next
    case confidence
    then obtain v where v: "t = JObject v" "length v = 2" "member_text v ''high'' = Some ''medium''"
      "member_text v ''moderate'' = Some ''low''" by (auto split: json.splits)
    then have "jlookup v ''high'' = Some (JString ''medium'')" "jlookup v ''moderate'' = Some (JString ''low'')"
      by (auto simp: member_text_def elim!: as_str.elims split: Option.bind_splits)
    moreover have "key_less ''high'' ''moderate''" by (simp add: code_def)
    ultimately have "v = [(''high'', JString ''medium''), (''moderate'', JString ''low'')]"
      using v assms(2) by (intro two_keys) auto
    with v confidence show ?thesis by (simp add: known_default_def)
  next
    case table
    then show ?thesis by (rule allowed_default_known)
  qed
qed

definition gains_option :: "json option \<Rightarrow> json option \<Rightarrow> bool" where
  "gains_option a b = (case (a, b) of
      (Some s, Some t) \<Rightarrow> gains_defaults s t | (None, None) \<Rightarrow> True | _ \<Rightarrow> False)"

lemma gains_option_simps [simp]:
  "gains_option (Some s) b \<longleftrightarrow> (\<exists>t. b = Some t \<and> gains_defaults s t)"
  "gains_option None b \<longleftrightarrow> b = None"
  by (auto simp: gains_option_def split: option.splits)

lemma visit_gains:
  "pred_option serde_value target \<Longrightarrow> f_differences (visit e source target path toxic topics) = [] \<Longrightarrow>
     gains_option source target"
  "\<forall>t \<in> set ts. serde_value t \<Longrightarrow> i + length ss = length ts \<Longrightarrow>
     f_differences (visit_items e i ss ts path toxic topics) = [] \<Longrightarrow> list_all2 gains_defaults ss (drop i ts)"
  "serde_value (JObject mt) \<Longrightarrow> f_differences (visit_keys e ks ms mt path toxic topics) = [] \<Longrightarrow>
     \<forall>k \<in> set ks. (case jlookup ms k of
         Some s \<Rightarrow> \<exists>t. jlookup mt k = Some t \<and> gains_defaults s t
       | None \<Rightarrow> (\<forall>t. jlookup mt k = Some t \<longrightarrow> known_default k t))"
proof (induction e source target path toxic topics and e i ss ts path toxic topics
    and e ks ms mt path toxic topics rule: visit_visit_items_visit_keys.induct)
  case (1 e source target path toxic topics)
  show ?case
  proof (cases "strict_eq source target")
    case True
    then show ?thesis
      by (cases source; cases target) (auto intro: same_scalar simp del: strict_eq.simps(2))
  next
    case False
    with 1(4) consider (arrays) xs ys where "source = Some (JArray xs)" "target = Some (JArray ys)"
      | (objects) m n where "source = Some (JObject m)" "target = Some (JObject n)"
      by (auto simp: visit.simps split: option.splits json.splits)
    then show ?thesis
    proof cases
      case arrays
      with False 1(4) have "length xs = length ys" "f_differences (visit_items e 0 xs ys path toxic topics) = []"
        by (auto simp: visit.simps split: if_splits)
      with 1(1) [OF False] arrays 1(3) have "list_all2 gains_defaults xs ys" by simp
      with arrays same_items show ?thesis by simp
    next
      case objects
      with False 1(4) have d: "f_differences (visit_keys e (walk_keys m n) m n path toxic topics) = []"
        by (simp add: visit.simps)
      have all: "\<forall>k \<in> set (walk_keys m n). (case jlookup m k of
         Some s \<Rightarrow> \<exists>t. jlookup n k = Some t \<and> gains_defaults s t
       | None \<Rightarrow> (\<forall>t. jlookup n k = Some t \<longrightarrow> known_default k t))"
        using 1(2) [OF False] objects 1(3) d by simp
      have "gains_defaults (JObject m) (JObject n)"
      proof (rule same_fields)
        fix k s assume s: "jlookup m k = Some s"
        then have "k \<in> set (walk_keys m n)" using jlookup_Some_mem by (force simp: walk_keys_def)
        with all s show "\<exists>t. jlookup n k = Some t \<and> gains_defaults s t" by fastforce
      next
        fix k t assume t: "jlookup n k = Some t"
        show "jlookup m k \<noteq> None \<or> known_default k t"
        proof (cases "jlookup m k")
          case None
          then have "k \<in> set (walk_keys m n)"
            using t jlookup_Some_mem [OF t] by (force simp: walk_keys_def contains_key_def)
          with all None t show ?thesis by fastforce
        qed simp
      qed
      with objects show ?thesis by simp
    qed
  qed
next
  case (2 e i ts path toxic topics)
  then show ?case by simp
next
  case (3 e i item ss ts path toxic topics)
  then have i: "i < length ts" by simp
  then have "drop i ts = ts ! i # drop (Suc i) ts" by (simp add: Cons_nth_drop_Suc)
  with 3 i show ?case by (simp add: visit_items.simps)
next
  case (4 e ss ts path toxic topics)
  then show ?case by simp
next
  case (5 e key ks ss ts path toxic topics)
  have member: "pred_option serde_value (jlookup ts key)"
    using 5(3) by (auto simp: option.pred_set dest!: jlookup_Some_mem)
  show ?case
  proof (cases "jlookup ss key")
    case None
    with 5 member show ?thesis
      by (cases "jlookup ts key") (auto simp: visit_keys.simps dest: server_default_known split: if_splits)
  next
    case (Some s)
    with 5 member show ?thesis
      by (cases "jlookup ts key") (auto simp: visit_keys.simps)
  qed
qed

text \<open>C18: A policy that matches its read-back is the requested one with at most server defaults added:
  every requested setting is there with an equal value, lists have the same length, and a setting
  that was not requested is one of five known ones with one of its known default values.
\<close>

theorem matched_policy_gains_only_defaults:
  assumes "serde_value actual" "c_matches (compare_policies (Some expected) (Some actual))"
  shows "gains_defaults expected actual"
  using visit_gains(1) [of "Some actual" "Some expected" "Some expected" "''policy''" False False] assms
  by (simp add: compare_fields)

definition default_pair :: "json \<times> json" where
  "default_pair =
     (let policy = (\<lambda>app. JObject [(''ai-security-profiles'', JArray [JObject
              [(''model-configuration'', JObject [(''app-protection'', JObject app)])]])])
      in (policy [], policy [(''url-detected-severity'', JString ''low'')]))"

definition app_path :: str where
  "app_path = ''policy.ai-security-profiles[0].model-configuration.app-protection''"

lemma match_literal:
  "CHR ''#'' \<notin> set lit \<Longrightarrow>
     match_prefix (pre @ lit @ rest) (lit @ ps) (length pre) = match_prefix ((pre @ lit) @ rest) ps (length (pre @ lit))"
proof (induction lit arbitrary: pre)
  case (Cons c lit)
  from Cons.prems Cons.IH [of "pre @ [c]"] show ?case by (auto simp: nth_append)
qed simp

lemma match_digit:
  "is_digit d \<Longrightarrow> \<not> is_digit c \<Longrightarrow>
     match_prefix (pre @ d # c # rest) (CHR ''#'' # ps) (length pre) = match_prefix ((pre @ [d]) @ c # rest) ps (length (pre @ [d]))"
  by simp

lemma relative_app_path: "relative app_path = ''model.app-protection''"
proof -
  let ?p = "''policy.ai-security-profiles[''" and ?q = "''].model-configuration''"
  let ?r = "''.app-protection''"
  have path: "app_path = ?p @ CHR ''0'' # ?q @ ?r" by (simp add: app_path_def)
  have "match_prefix app_path (?p @ CHR ''#'' # ?q) 0
      = match_prefix ((?p @ ''0'') @ ?q @ ?r) ?q (length (?p @ ''0''))"
    unfolding path
    using match_literal [of ?p "[]" "CHR ''0'' # ?q @ ?r" "CHR ''#'' # ?q"]
      match_digit [of "CHR ''0''" "CHR '']''" ?p "tl ?q @ ?r" ?q]
    by (simp add: is_digit_def code_def)
  also have "\<dots> = Some (length (?p @ ''0'' @ ?q))"
    using match_literal [of ?q "?p @ ''0''" ?r "[]"] by simp
  finally have "match_prefix app_path (?p @ CHR ''#'' # ?q) 0 = Some (length (?p @ ''0'' @ ?q))" .
  moreover have "drop (length (?p @ ''0'' @ ?q)) app_path = ?r" by (simp add: app_path_def)
  ultimately show ?thesis by (simp add: relative_def)
qed

lemma app_path_is_legacy: "allowance_path (Some (fst default_pair)) app_path = ''model.app-protection''"
proof -
  have "strip_prefix ''policy.ai-security-profiles['' app_path = Some ''0].model-configuration.app-protection''"
    by (simp add: strip_prefix_Some app_path_def)
  then have "entry_index app_path = Some 0"
    by (simp add: entry_index_def starts_with_def undec_def is_digit_def code_def u64_max_def)
  moreover have "legacy_at (Some (fst default_pair)) 0"
    by (simp add: default_pair_def legacy_at_def jget_def ai_profiles_def is_directional_def contains_key_def
        content_type_configurations_def Let_def)
  ultimately show ?thesis by (simp add: allowance_path_def relative_app_path)
qed

lemma app_default: "server_default (Some (fst default_pair)) a b app_path ''url-detected-severity'' (JString ''low'') t u"
  by (simp add: server_default_def app_path_is_legacy allowed_default_def Let_def)

lemma dec_0: "dec 0 = ''0''"
  by (simp add: dec_small digit_char_def)

theorem matched_policy_gains_only_defaults_witness:
  "gains_defaults (fst default_pair) (snd default_pair)"
proof (rule matched_policy_gains_only_defaults)
  show "serde_value (snd default_pair)" by (simp add: default_pair_def Let_def)
  show "c_matches (compare_policies (Some (fst default_pair)) (Some (snd default_pair)))"
    using app_default
    by (simp add: compare_fields visit.simps visit_items.simps visit_keys.simps walk_keys_def
        contains_key_def app_path_def dec_0 default_pair_def Let_def)
qed

end
