(* ===== verification/DlpBackup.thy ===== *)
theory DlpBackup
  imports DlpSweep TransferRules
begin

text \<open>
  The record rules of \<open>src/dlp/backup.rs\<close>: the DLP tenant of an inventory, predefined and retired
  records, names, and the leaves of a profile's detection rules with their paths. serde_json's
  compact text of a value is the parameter \<open>w_text\<close>.
\<close>

section \<open>Kinds\<close>

fun resource_key :: "resource \<Rightarrow> str" where
  "resource_key Dictionaries = ''dictionaries''"
| "resource_key Patterns = ''patterns''"
| "resource_key DataProfiles = ''profiles''"

fun resource_singular :: "resource \<Rightarrow> str" where
  "resource_singular Dictionaries = ''dictionary''"
| "resource_singular Patterns = ''data pattern''"
| "resource_singular DataProfiles = ''data profile''"

fun row_kind :: "resource \<Rightarrow> str" where
  "row_kind Dictionaries = ''dictionary''"
| "row_kind Patterns = ''pattern''"
| "row_kind DataProfiles = ''profile''"

definition all_resources :: "resource list" where
  "all_resources = [Dictionaries, Patterns, DataProfiles]"

definition of_row_kind :: "str \<Rightarrow> resource option" where
  "of_row_kind kind = find (\<lambda>r. row_kind r = kind) all_resources"

definition of_resource_key :: "str \<Rightarrow> resource option" where
  "of_resource_key key = find (\<lambda>r. resource_key r = key) all_resources"

text \<open>A unique list of kinds, returned in the canonical order.\<close>

fun unique_kinds :: "'e \<Rightarrow> resource option list \<Rightarrow> resource list \<Rightarrow> ('e, resource list) result" where
  "unique_kinds e [] kinds = Ok (filter (\<lambda>r. r \<in> set kinds) all_resources)"
| "unique_kinds e (None # ks) kinds = Err e"
| "unique_kinds e (Some r # ks) kinds = (if r \<in> set kinds then Err e else unique_kinds e ks (kinds @ [r]))"

definition parse_resources :: "str \<Rightarrow> (str, resource list) result" where
  "parse_resources t =
     unique_kinds ''--resources takes a unique list of dictionaries, patterns, profiles''
       (map (\<lambda>item. of_resource_key (rust_trim item)) (split_on (CHR '','') t)) []"

section \<open>Records\<close>

text \<open>
  The texts seen so far decide; \<open>from_str\<close> of the text of a value is that value, so the first one
  is kept beside its text.
\<close>

fun tenant_texts :: "writers \<Rightarrow> json list \<Rightarrow> (str \<times> json) list \<Rightarrow> (str \<times> json) list" where
  "tenant_texts wr [] seen = seen"
| "tenant_texts wr (record # records) seen = (case jget record ''tenant_id'' of
      None \<Rightarrow> tenant_texts wr records seen
    | Some JNull \<Rightarrow> tenant_texts wr records seen
    | Some v \<Rightarrow> tenant_texts wr records
        (if w_text wr v \<in> fst ` set seen then seen else seen @ [(w_text wr v, v)]))"

definition tenant_identity :: "writers \<Rightarrow> json list \<Rightarrow> (str, str option) result" where
  "tenant_identity wr records = (case tenant_texts wr records [] of
      [] \<Rightarrow> Ok None
    | [(_, v)] \<Rightarrow> Ok (as_str v)
    | _ \<Rightarrow> Err ''Inventory reports mixed DLP tenant identities'')"

definition predefined :: "json \<Rightarrow> bool" where
  "predefined record = (json_str record ''type'' = Some ''predefined'')"

definition retired_pattern :: "json \<Rightarrow> bool" where
  "retired_pattern record = (json_str record ''status'' \<in> {Some ''deleted'', Some ''disabled''})"

definition retired_data_profile :: "json \<Rightarrow> bool" where
  "retired_data_profile record = (json_str record ''profile_status'' \<in> {Some ''deleted'', Some ''disabled''})"

definition valid_dlp_name :: "str \<Rightarrow> bool" where
  "valid_dlp_name nm = (rust_trim nm \<noteq> [] \<and> \<not> list_ex (\<lambda>c. code c < 32 \<or> code c = 127) nm)"

definition dlp_name_rule :: str where
  "dlp_name_rule = ''DLP resource names must be nonempty and contain no control characters''"

fun unique_names :: "str option list \<Rightarrow> str \<Rightarrow> str set \<Rightarrow> (str, unit) result" where
  "unique_names [] label seen = Ok ()"
| "unique_names (nm # names) label seen = (case nm of
      None \<Rightarrow> Err (''Backup contains a '' @ label @ '' without a name'')
    | Some n \<Rightarrow>
        if n = [] then Err (''Backup contains a '' @ label @ '' without a name'')
        else if \<not> valid_dlp_name n then Err dlp_name_rule
        else if n \<in> seen then Err (''Backup contains duplicate '' @ label @ '' names: '' @ n)
        else unique_names names label (insert n seen))"

section \<open>Rule leaves\<close>

record leaf =
  lf_item :: json
  lf_technique :: str
  lf_path :: jpath

definition rule_item_key :: str where "rule_item_key = ''rule_item''"
definition sub_expressions_key :: str where "sub_expressions_key = ''sub_expressions''"
definition expression_tree_key :: str where "expression_tree_key = ''expression_tree''"

definition leaf_here :: "jpath \<Rightarrow> jobject \<Rightarrow> (str, leaf list) result" where
  "leaf_here path m = (case jlookup m rule_item_key of
      Some (JObject item) \<Rightarrow>
        (case member_text item ''detection_technique'' of
           None \<Rightarrow> Err ''Unsupported detection rule: leaf without a detection technique''
         | Some t \<Rightarrow> Ok [\<lparr>lf_item = JObject item, lf_technique = t, lf_path = path @ [KeyStep rule_item_key]\<rparr>])
    | _ \<Rightarrow> Ok [])"

function (sequential) leaves_in :: "nat \<Rightarrow> jpath \<Rightarrow> json \<Rightarrow> (str, leaf list) result"
  and leaves_items :: "nat \<Rightarrow> jpath \<Rightarrow> nat \<Rightarrow> json list \<Rightarrow> (str, leaf list) result" where
  "leaves_in depth path node =
     (if 100 < depth then Err ''Unsupported detection rule: expression tree too deep''
      else (case node of
          JObject m \<Rightarrow>
            both_r (leaf_here path m)
              (case jlookup m sub_expressions_key of
                 Some (JArray nodes) \<Rightarrow> leaves_items (Suc depth) path 0 nodes
               | _ \<Rightarrow> Ok [])
        | _ \<Rightarrow> Ok []))"
| "leaves_items depth path i [] = Ok []"
| "leaves_items depth path i (node # nodes) =
     both_r (leaves_in depth (path @ [KeyStep sub_expressions_key, IndexStep i]) node)
       (leaves_items depth path (Suc i) nodes)"
  by pat_completeness auto
termination
  by (relation "measure (\<lambda>x. case x of
        Inl (d, p, v) \<Rightarrow> size v
      | Inr (d, p, i, vs) \<Rightarrow> size_list size vs)")
    (auto dest!: size_jlookup)

declare leaves_in.simps [simp del]

text \<open>The type of a rule that is not an expression tree, as the message shows it.\<close>

definition rule_type_text :: "writers \<Rightarrow> json option \<Rightarrow> str" where
  "rule_type_text wr kind = (case kind of
      None \<Rightarrow> ''undefined''
    | Some (JString t) \<Rightarrow> t
    | Some v \<Rightarrow> w_text wr v)"

definition leaves_of_rule :: "writers \<Rightarrow> nat \<Rightarrow> json \<Rightarrow> (str, leaf list) result" where
  "leaves_of_rule wr i rule = (case as_object rule of
      None \<Rightarrow> Err ''Unsupported detection rule shape''
    | Some m \<Rightarrow>
        if jlookup m ''rule_type'' \<noteq> Some (JString expression_tree_key)
        then Err (''Unsupported detection rule type: '' @ rule_type_text wr (jlookup m ''rule_type''))
        else (case jlookup m expression_tree_key of
            Some tree \<Rightarrow> leaves_in 0 [IndexStep i, KeyStep expression_tree_key] tree
          | None \<Rightarrow> Ok []))"

fun leaves_of_rules :: "writers \<Rightarrow> nat \<Rightarrow> json list \<Rightarrow> (str, leaf list) result" where
  "leaves_of_rules wr i [] = Ok []"
| "leaves_of_rules wr i (rule # rules) = both_r (leaves_of_rule wr i rule) (leaves_of_rules wr (Suc i) rules)"

definition rule_leaves :: "writers \<Rightarrow> json option \<Rightarrow> (str, leaf list) result" where
  "rule_leaves wr rules = (case rules of
      Some (JArray rs) \<Rightarrow> leaves_of_rules wr 0 rs
    | _ \<Rightarrow> Ok [])"


text \<open>
  The rest of \<open>src/dlp/backup.rs\<close>: the selection of a backup with the dependencies of its profiles,
  the document of the file and its strict reader. \<open>parse_json\<close> (\<open>json::parse\<close>, which keeps the order
  of an object and each key once), \<open>w_pretty\<close> (\<open>json::to_pretty\<close>) and the response schemas of the
  SDK (\<open>valid\<close>) are parameters.
\<close>

section \<open>Numbers as text\<close>

definition js_integer :: "writers \<Rightarrow> int \<Rightarrow> str" where
  "js_integer wr n = (if \<bar>n\<bar> \<le> 2 ^ 53 then int_text n else js_number (w_number wr) (of_int (f64_round n)))"

fun js_json_number :: "writers \<Rightarrow> number \<Rightarrow> str" where
  "js_json_number wr (Whole n) = js_integer wr n"
| "js_json_number wr (Double q) = js_number (w_number wr) q"

definition shown_version :: "writers \<Rightarrow> json option \<Rightarrow> str" where
  "shown_version wr v = (case v of
      Some (JNumber n) \<Rightarrow> js_json_number wr n
    | Some (JString t) \<Rightarrow> t
    | Some other \<Rightarrow> w_text wr other
    | None \<Rightarrow> ''unknown'')"

fun numbers_equal :: "json \<Rightarrow> json \<Rightarrow> bool" where
  "numbers_equal (JNumber x) (JNumber y) = (f64_of x = f64_of y)"
| "numbers_equal x y = (x = y)"

section \<open>Selection\<close>

record entry =
  en_id :: str
  en_name :: str
  en_predefined :: bool
  en_record :: json

record skipped =
  sk_kind :: str
  sk_id :: str
  sk_name :: str
  sk_reason :: str

record failed =
  fa_kind :: str
  fa_id :: str
  fa_name :: str
  fa_error :: str

record dlp_inventory =
  di_dictionaries :: "json list"
  di_patterns :: "json list"
  di_profiles :: "json list"

record selection =
  se_dictionaries :: "entry list"
  se_patterns :: "entry list"
  se_profiles :: "entry list"
  se_skipped :: "skipped list"
  se_tenant_id :: "str option"

definition present_value :: "json option \<Rightarrow> json option" where
  "present_value v = (if v = Some JNull then None else v)"

definition kept_fields :: "json \<Rightarrow> str list \<Rightarrow> jobject" where
  "kept_fields record keys = List.map_filter (\<lambda>key. map_option (Pair key) (jget record key)) keys"

definition dictionary_stub :: "json \<Rightarrow> json" where
  "dictionary_stub record = JObject (kept_fields record [''id'', ''name'', ''type''])"

definition technique_value :: "json \<Rightarrow> json option" where
  "technique_value record = Option.bind (jget record ''detection_config'') (\<lambda>c. jget c ''technique'')"

definition pattern_stub :: "json \<Rightarrow> json" where
  "pattern_stub record =
     JObject (kept_fields record [''id'', ''name'', ''type'']
       @ (case present_value (jget record ''version'') of Some v \<Rightarrow> [(''version'', v)] | None \<Rightarrow> [])
       @ (case technique_value record of
            Some t \<Rightarrow> if truthy (Some t)
              then [(''detection_config'', JObject [(''technique'', t)])] else []
          | None \<Rightarrow> []))"

definition text_or_empty :: "json \<Rightarrow> str \<Rightarrow> str" where
  "text_or_empty record key = (case json_str record key of Some t \<Rightarrow> t | None \<Rightarrow> [])"

definition entry_of :: "json \<Rightarrow> entry" where
  "entry_of record =
     (let plain = value_of record in
      \<lparr>en_id = text_or_empty plain ''id'', en_name = text_or_empty plain ''name'',
       en_predefined = predefined plain, en_record = record\<rparr>)"

datatype dependency = OnDictionary nat | OnPattern nat

definition dictionary_dependency :: "json list \<Rightarrow> str \<Rightarrow> json option \<Rightarrow> (str, dependency) result" where
  "dictionary_dependency dictionaries i version =
     (case first_index (\<lambda>r. json_str r ''id'' = Some i) dictionaries of
        None \<Rightarrow> Err (''references an unknown dictionary: '' @ i)
      | Some index \<Rightarrow>
          if (case version of Some v \<Rightarrow> json_f64 v \<noteq> Some 1 | None \<Rightarrow> False)
          then Err (''references a version-pinned dictionary: '' @ i)
          else Ok (OnDictionary index))"

definition pattern_technique :: "json \<Rightarrow> str option" where
  "pattern_technique record = Option.bind (technique_value record) as_str"

definition pattern_dependency :: "writers \<Rightarrow> json list \<Rightarrow> leaf \<Rightarrow> str \<Rightarrow> json option \<Rightarrow> (str, dependency) result" where
  "pattern_dependency wr patterns lf i version =
     (case first_index (\<lambda>r. json_str r ''id'' = Some i) patterns of
        None \<Rightarrow> Err (''references an unknown data pattern: '' @ i)
      | Some index \<Rightarrow>
          (let record = patterns ! index; held = present_value (jget record ''version'') in
           if pattern_technique record \<noteq> Some (lf_technique lf)
           then Err ''references a data pattern with a different detection technique''
           else if retired_pattern record
           then Err (''references a retired data pattern: ''
                  @ (case json_str record ''name'' of Some nm \<Rightarrow> nm | None \<Rightarrow> i))
           else if (case version of
                  Some v \<Rightarrow> \<not> (case held of Some h \<Rightarrow> numbers_equal h v | None \<Rightarrow> False)
                | None \<Rightarrow> False)
           then Err (''references data pattern version '' @ shown_version wr version
                  @ '', but the catalog holds version '' @ shown_version wr held @ '': '' @ i)
           else Ok (OnPattern index)))"

text \<open>The reference of a leaf: none without an id, unless it names an EDM dataset.\<close>

definition leaf_dependency :: "writers \<Rightarrow> json list \<Rightarrow> json list \<Rightarrow> leaf \<Rightarrow> (str, dependency list) result" where
  "leaf_dependency wr dictionaries patterns lf =
     (let i = (case present_value (jget (lf_item lf) ''id'') of
            Some (JString t) \<Rightarrow> if t = [] then None else Some (JString t) | v \<Rightarrow> v);
          version = present_value (jget (lf_item lf) ''version'') in
      case i of
        None \<Rightarrow>
          if present_value (jget (lf_item lf) ''edm_dataset_id'') \<noteq> None
          then Err ''references an EDM dataset directly'' else Ok []
      | Some (JString t) \<Rightarrow>
          bind_r (if lf_technique lf = ''dictionary'' then dictionary_dependency dictionaries t version
                  else pattern_dependency wr patterns lf t version) (\<lambda>d. Ok [d])
      | Some _ \<Rightarrow> Err ''has a non-string rule reference id'')"

definition no_rules_text :: str where
  "no_rules_text =
     ''has no exported detection rules (the API does not expose basic data profile content)''"

definition profile_dependencies :: "writers \<Rightarrow> json \<Rightarrow> json list \<Rightarrow> json list \<Rightarrow> (str, dependency list) result" where
  "profile_dependencies wr profile dictionaries patterns =
     (let rules = jget profile ''detection_rules'' in
      if (case Option.bind rules as_array of Some rs \<Rightarrow> rs = [] | None \<Rightarrow> True) then Err no_rules_text
      else bind_r (rule_leaves wr rules) (\<lambda>leaves.
           bind_r (collect_r (leaf_dependency wr dictionaries patterns) leaves) (\<lambda>ds. Ok (concat ds))))"

definition add_index :: "nat \<Rightarrow> nat list \<Rightarrow> nat list" where
  "add_index i xs = (if i \<in> set xs then xs else xs @ [i])"

record chosen =
  ch_dictionaries :: "nat list"
  ch_patterns :: "nat list"
  ch_profiles :: "nat list"
  ch_skipped :: "skipped list"

fun choose_dependency :: "chosen \<Rightarrow> dependency \<Rightarrow> chosen" where
  "choose_dependency c (OnDictionary i) = c\<lparr>ch_dictionaries := add_index i (ch_dictionaries c)\<rparr>"
| "choose_dependency c (OnPattern i) = c\<lparr>ch_patterns := add_index i (ch_patterns c)\<rparr>"

definition skipped_profile :: "json \<Rightarrow> str \<Rightarrow> skipped" where
  "skipped_profile profile reason =
     \<lparr>sk_kind = row_kind DataProfiles, sk_id = text_or_empty profile ''id'',
      sk_name = (case json_str profile ''name'' of Some nm \<Rightarrow> nm | None \<Rightarrow> ''(unnamed)''),
      sk_reason = reason\<rparr>"

fun choose_profiles :: "writers \<Rightarrow> json list \<Rightarrow> json list \<Rightarrow> nat \<Rightarrow> json list \<Rightarrow> chosen \<Rightarrow> chosen" where
  "choose_profiles wr dictionaries patterns i [] c = c"
| "choose_profiles wr dictionaries patterns i (profile # profiles) c =
     choose_profiles wr dictionaries patterns (Suc i) profiles
       (if predefined profile \<or> retired_data_profile profile then c
        else (case profile_dependencies wr profile dictionaries patterns of
            Inr found \<Rightarrow> (foldl choose_dependency c found)\<lparr>ch_profiles := ch_profiles c @ [i]\<rparr>
          | Inl reason \<Rightarrow> c\<lparr>ch_skipped := ch_skipped c @ [skipped_profile profile reason]\<rparr>))"

definition indices_where :: "('a \<Rightarrow> bool) \<Rightarrow> 'a list \<Rightarrow> nat list" where
  "indices_where P xs = map fst (filter (\<lambda>(i, x). P x) (enumerate 0 xs))"

definition choose_kinds :: "writers \<Rightarrow> resource list \<Rightarrow> json list \<Rightarrow> json list \<Rightarrow> json list \<Rightarrow> chosen" where
  "choose_kinds wr kinds dictionaries patterns profiles =
     (let c = \<lparr>ch_dictionaries = (if Dictionaries \<in> set kinds
                 then indices_where (\<lambda>r. \<not> predefined r) dictionaries else []),
               ch_patterns = (if Patterns \<in> set kinds
                 then indices_where (\<lambda>r. \<not> predefined r \<and> \<not> retired_pattern r) patterns else []),
               ch_profiles = [], ch_skipped = []\<rparr>
      in if DataProfiles \<in> set kinds then choose_profiles wr dictionaries patterns 0 profiles c else c)"

definition cannot_export :: "skipped list \<Rightarrow> str" where
  "cannot_export rows =
     ''Profiles cannot be exported: ''
     @ join ''; '' (map (\<lambda>r. terminal_safe (sk_name r) @ '' ('' @ sk_reason r @ '')'') rows)
     @ ''; exclude unsupported profiles explicitly with --skip-unsupported''"

text \<open>The entries of one kind: predefined records as stubs, sorted by name.\<close>

definition chosen_entries :: "writers \<Rightarrow> (json \<Rightarrow> json) \<Rightarrow> json list \<Rightarrow> nat list \<Rightarrow> entry list" where
  "chosen_entries wr stub records indices =
     sort_by (\<lambda>a b. locale_le wr (en_name a) (en_name b))
       (map (\<lambda>i. entry_of (if predefined (value_of (records ! i)) then stub (records ! i) else records ! i))
         indices)"

definition check_names :: "entry list \<Rightarrow> str \<Rightarrow> (str, unit) result" where
  "check_names entries label =
     (case unique_names (map (\<lambda>e. json_str (en_record e) ''name'') entries) label {} of
        Inl message \<Rightarrow> Err (terminal_safe message)
      | Inr _ \<Rightarrow> Ok ())"

definition select_backup :: "writers \<Rightarrow> dlp_inventory \<Rightarrow> resource list \<Rightarrow> bool \<Rightarrow> (str, selection) result" where
  "select_backup wr stock kinds skip_unsupported =
     (let dictionaries = map value_of (di_dictionaries stock); patterns = map value_of (di_patterns stock);
          profiles = map value_of (di_profiles stock) in
      bind_r (tenant_identity wr (patterns @ profiles)) (\<lambda>tenant.
        let c = choose_kinds wr kinds dictionaries patterns profiles in
        if ch_skipped c \<noteq> [] \<and> \<not> skip_unsupported then Err (cannot_export (ch_skipped c))
        else
          (let ds = chosen_entries wr dictionary_stub (di_dictionaries stock) (ch_dictionaries c);
               ps = chosen_entries wr pattern_stub (di_patterns stock) (ch_patterns c);
               fs = chosen_entries wr (\<lambda>r. r) (di_profiles stock) (ch_profiles c) in
           bind_r (check_names ds ''dictionary'') (\<lambda>_.
           bind_r (check_names ps ''data pattern'') (\<lambda>_.
           bind_r (check_names fs ''data profile'') (\<lambda>_.
             if ds = [] \<and> ps = [] \<and> fs = [] then Err ''No matching DLP resources to back up''
             else Ok \<lparr>se_dictionaries = ds, se_patterns = ps, se_profiles = fs, se_skipped = ch_skipped c,
                      se_tenant_id = tenant\<rparr>))))))"

section \<open>The file\<close>

record dlp_backup =
  db_exported_at :: str
  db_tenant :: str
  db_tsg_id :: str
  db_dlp_tenant_id :: "str option"
  db_resources :: "resource list"
  db_dictionaries :: "entry list"
  db_patterns :: "entry list"
  db_profiles :: "entry list"
  db_skipped :: "skipped list"
  db_failed :: "failed list"

definition backup_complete :: "dlp_backup \<Rightarrow> bool" where
  "backup_complete b = (db_skipped b = [] \<and> db_failed b = [])"

fun backup_entries :: "dlp_backup \<Rightarrow> resource \<Rightarrow> entry list" where
  "backup_entries b Dictionaries = db_dictionaries b"
| "backup_entries b Patterns = db_patterns b"
| "backup_entries b DataProfiles = db_profiles b"

definition backup_format :: str where "backup_format = ''airs-cli-rs.dlp-resources''"
definition backup_version :: nat where "backup_version = 1"

definition entry_json :: "entry \<Rightarrow> json" where
  "entry_json e = JObject [(''id'', JString (en_id e)), (''name'', JString (en_name e)),
     (''predefined'', JBool (en_predefined e)), (''record'', en_record e)]"

definition row_json :: "str \<Rightarrow> str \<times> str \<times> str \<times> str \<Rightarrow> json" where
  "row_json last_key row = (case row of (kind, i, nm, why) \<Rightarrow>
     JObject [(''kind'', JString kind), (''id'', JString i), (''name'', JString nm), (last_key, JString why)])"

definition skipped_backup_row :: "skipped \<Rightarrow> str \<times> str \<times> str \<times> str" where
  "skipped_backup_row s = (sk_kind s, sk_id s, sk_name s, sk_reason s)"

definition failed_backup_row :: "failed \<Rightarrow> str \<times> str \<times> str \<times> str" where
  "failed_backup_row f = (fa_kind f, fa_id f, fa_name f, fa_error f)"

definition backup_document :: "dlp_backup \<Rightarrow> json" where
  "backup_document b = JObject [
     (''format'', JString backup_format),
     (''version'', JNumber (Whole (int backup_version))),
     (''exportedAt'', JString (db_exported_at b)),
     (''tenant'', JString (db_tenant b)),
     (''tsgId'', JString (db_tsg_id b)),
     (''dlpTenantId'', case db_dlp_tenant_id b of Some i \<Rightarrow> JString i | None \<Rightarrow> JNull),
     (''resources'', JArray (map (\<lambda>r. JString (resource_key r)) (db_resources b))),
     (''complete'', JBool (backup_complete b)),
     (''dictionaries'', JArray (map entry_json (db_dictionaries b))),
     (''patterns'', JArray (map entry_json (db_patterns b))),
     (''profiles'', JArray (map entry_json (db_profiles b))),
     (''skipped'', JArray (map (\<lambda>s. row_json ''reason'' (skipped_backup_row s)) (db_skipped b))),
     (''failed'', JArray (map (\<lambda>f. row_json ''error'' (failed_backup_row f)) (db_failed b)))]"

definition backup_text :: "(json \<Rightarrow> str) \<Rightarrow> dlp_backup \<Rightarrow> str" where
  "backup_text w_pretty b = w_pretty (backup_document b) @ [CHR 0x0A]"

section \<open>The reader\<close>

datatype read_failure = Malformed | TypeScriptBackup | NewerFormat | InvalidBackup str

definition demand :: "'e \<Rightarrow> bool \<Rightarrow> ('e, unit) result" where
  "demand e b = (if b then Ok () else Err e)"

definition some_r :: "'e \<Rightarrow> 'a option \<Rightarrow> ('e, 'a) result" where
  "some_r e v = (case v of Some x \<Rightarrow> Ok x | None \<Rightarrow> Err e)"

definition trim_end :: "str \<Rightarrow> str" where
  "trim_end s = concat (rev (dropWhile is_rust_whitespace (rev (utf8_chars s))))"

definition typescript_yaml :: "str \<Rightarrow> bool" where
  "typescript_yaml t =
     list_ex (\<lambda>line. starts_with (trim_end line) ''resourceType:'' \<or> trim_end line = ''version: 1'')
       (split_on (CHR 0x0A) t)"

definition envelope_keys :: "str list" where
  "envelope_keys = [''format'', ''version'', ''exportedAt'', ''tenant'', ''tsgId'', ''dlpTenantId'',
     ''resources'', ''complete'', ''dictionaries'', ''patterns'', ''profiles'', ''skipped'']"

definition exact_strings :: "json \<Rightarrow> str list \<Rightarrow> bool" where
  "exact_strings v keys = (case as_object v of
      None \<Rightarrow> False
    | Some m \<Rightarrow> length m = length keys
        \<and> list_all (\<lambda>k. case jlookup m k of Some (JString _) \<Rightarrow> True | _ \<Rightarrow> False) keys)"

definition string_member :: "json \<Rightarrow> str \<Rightarrow> (read_failure, str) result" where
  "string_member doc key = some_r (InvalidBackup (key @ '' must be a string'')) (json_str doc key)"

definition at_entry :: "str \<Rightarrow> nat \<Rightarrow> str" where
  "at_entry key i = key @ ''['' @ dec i @ '']''"

definition read_entry :: "(resource \<Rightarrow> json \<Rightarrow> bool) \<Rightarrow> resource \<Rightarrow> nat \<Rightarrow> json \<Rightarrow> (read_failure, entry) result" where
  "read_entry valid res i item =
     (let loc = at_entry (resource_key res) i;
          bad = (\<lambda>t. InvalidBackup (loc @ t));
          entry_record = (case jget item ''record'' of Some r \<Rightarrow> r | None \<Rightarrow> JNull) in
      bind_r (demand (bad '' must have exactly the keys id, name, predefined, record'')
        (case as_object item of
           Some m \<Rightarrow> length m = 4 \<and> list_all (contains_key m) [''id'', ''name'', ''predefined'', ''record'']
         | None \<Rightarrow> False)) (\<lambda>_.
      bind_r (demand (bad ('' does not match the '' @ resource_singular res @ '' response schema''))
        (as_object entry_record \<noteq> None \<and> valid res entry_record)) (\<lambda>_.
      case (json_str item ''id'', json_str item ''name'') of
        (Some i', Some nm) \<Rightarrow>
          bind_r (demand (bad '' id and name must be its record's'')
            (json_str entry_record ''id'' = Some i' \<and> json_str entry_record ''name'' = Some nm)) (\<lambda>_.
          bind_r (demand (bad '' predefined must match its record's type'')
            (jget item ''predefined'' = Some (JBool (predefined entry_record)))) (\<lambda>_.
            Ok \<lparr>en_id = i', en_name = nm, en_predefined = predefined entry_record, en_record = entry_record\<rparr>))
      | _ \<Rightarrow> Err (bad '' id and name must be its record's''))))"

fun read_each :: "(nat \<Rightarrow> json \<Rightarrow> ('e, 'a) result) \<Rightarrow> nat \<Rightarrow> json list \<Rightarrow> ('e, 'a list) result" where
  "read_each f i [] = Ok []"
| "read_each f i (item # items) =
     bind_r (f i item) (\<lambda>x. bind_r (read_each f (Suc i) items) (\<lambda>xs. Ok (x # xs)))"

definition array_member :: "json \<Rightarrow> str \<Rightarrow> (read_failure, json list) result" where
  "array_member doc key =
     some_r (InvalidBackup (key @ '' must be an array'')) (Option.bind (jget doc key) as_array)"

definition read_entries :: "(resource \<Rightarrow> json \<Rightarrow> bool) \<Rightarrow> json \<Rightarrow> resource \<Rightarrow> (read_failure, entry list) result" where
  "read_entries valid doc res =
     bind_r (array_member doc (resource_key res)) (\<lambda>items.
     bind_r (demand (InvalidBackup (resource_key res @ '' holds more than '' @ dec max_records @ '' entries''))
       (length items \<le> max_records)) (\<lambda>_.
       read_each (read_entry valid res) 0 items))"

definition read_row :: "str \<Rightarrow> str \<Rightarrow> nat \<Rightarrow> json \<Rightarrow> (read_failure, str \<times> str \<times> str \<times> str) result" where
  "read_row key last_key i item =
     (let shape = InvalidBackup (at_entry key i @ '' must have exactly the keys kind, id, name, '' @ last_key);
          field = text_or_empty item in
      bind_r (demand shape (exact_strings item [''kind'', ''id'', ''name'', last_key])) (\<lambda>_.
      bind_r (demand shape (of_row_kind (field ''kind'') \<noteq> None)) (\<lambda>_.
        Ok (field ''kind'', field ''id'', field ''name'', field last_key))))"

definition read_backup_rows :: "json \<Rightarrow> str \<Rightarrow> str \<Rightarrow> (read_failure, (str \<times> str \<times> str \<times> str) list) result" where
  "read_backup_rows doc key last_key =
     bind_r (array_member doc key) (\<lambda>items. read_each (read_row key last_key) 0 items)"

definition read_resources :: "json \<Rightarrow> (read_failure, resource list) result" where
  "read_resources doc =
     (let bad = InvalidBackup ''resources must be a unique list of dictionaries, patterns, profiles'' in
      bind_r (some_r bad (Option.bind (jget doc ''resources'') as_array)) (\<lambda>items.
      bind_r (unique_kinds bad (map (\<lambda>item. Option.bind (as_str item) of_resource_key) items) []) (\<lambda>kinds.
      bind_r (demand bad (kinds \<noteq> [])) (\<lambda>_. Ok kinds))))"

definition read_version :: "json \<Rightarrow> (read_failure, unit) result" where
  "read_version doc = (case Option.bind (jget doc ''version'') as_u64 of
      Some v \<Rightarrow> if v = backup_version then Ok ()
        else if backup_version < v then Err NewerFormat
        else Err (InvalidBackup ''version must be 1'')
    | None \<Rightarrow> Err (InvalidBackup ''version must be 1''))"

definition read_tenant_id :: "json \<Rightarrow> (read_failure, str option) result" where
  "read_tenant_id doc = (case jget doc ''dlpTenantId'' of
      Some (JString i) \<Rightarrow> Ok (Some i)
    | Some JNull \<Rightarrow> Ok None
    | _ \<Rightarrow> Err (InvalidBackup ''dlpTenantId must be a string or null''))"

definition read_bool :: "json \<Rightarrow> (read_failure, bool) result" where
  "read_bool doc = (case jget doc ''complete'' of
      Some (JBool b) \<Rightarrow> Ok b
    | _ \<Rightarrow> Err (InvalidBackup ''complete must be true or false''))"

definition read_envelope :: "json \<Rightarrow> (read_failure, unit) result" where
  "read_envelope doc =
     bind_r (some_r (InvalidBackup ''the file does not hold a JSON object'') (as_object doc)) (\<lambda>fields.
     bind_r (demand TypeScriptBackup
       (\<not> (contains_key fields ''resourceType''
            \<or> contains_key fields ''version'' \<and> \<not> contains_key fields ''format''))) (\<lambda>_.
     bind_r (demand (InvalidBackup ''it is not an airs DLP backup'')
       (json_str doc ''format'' = Some backup_format)) (\<lambda>_.
     bind_r (read_version doc) (\<lambda>_.
       demand (InvalidBackup ''the envelope has an unknown key'')
         (list_all (\<lambda>(key, _). key \<in> set envelope_keys \<or> key = ''failed'') fields)))))"

definition skipped_of_row :: "str \<times> str \<times> str \<times> str \<Rightarrow> skipped" where
  "skipped_of_row row = (case row of (kind, i, nm, why) \<Rightarrow>
     \<lparr>sk_kind = kind, sk_id = i, sk_name = nm, sk_reason = why\<rparr>)"

definition failed_of_row :: "str \<times> str \<times> str \<times> str \<Rightarrow> failed" where
  "failed_of_row row = (case row of (kind, i, nm, why) \<Rightarrow>
     \<lparr>fa_kind = kind, fa_id = i, fa_name = nm, fa_error = why\<rparr>)"

definition read_backup :: "(resource \<Rightarrow> json \<Rightarrow> bool) \<Rightarrow> json \<Rightarrow> (read_failure, dlp_backup) result" where
  "read_backup valid doc =
     bind_r (read_envelope doc) (\<lambda>_.
     bind_r (string_member doc ''exportedAt'') (\<lambda>exported_at.
     bind_r (string_member doc ''tenant'') (\<lambda>tenant.
     bind_r (string_member doc ''tsgId'') (\<lambda>tsg_id.
     bind_r (read_tenant_id doc) (\<lambda>tenant_id.
     bind_r (read_resources doc) (\<lambda>resources.
     bind_r (read_bool doc) (\<lambda>complete.
     bind_r (read_entries valid doc Dictionaries) (\<lambda>dictionaries.
     bind_r (read_entries valid doc Patterns) (\<lambda>patterns.
     bind_r (read_entries valid doc DataProfiles) (\<lambda>profiles.
     bind_r (read_backup_rows doc ''skipped'' ''reason'') (\<lambda>skips.
     bind_r (read_backup_rows doc ''failed'' ''error'') (\<lambda>fails.
     bind_r (demand (InvalidBackup ''complete does not match the skipped and failed lists'')
       (complete = (skips = [] \<and> fails = []))) (\<lambda>_.
       Ok \<lparr>db_exported_at = exported_at, db_tenant = tenant, db_tsg_id = tsg_id,
           db_dlp_tenant_id = tenant_id, db_resources = resources, db_dictionaries = dictionaries,
           db_patterns = patterns, db_profiles = profiles, db_skipped = map skipped_of_row skips,
           db_failed = map failed_of_row fails\<rparr>)))))))))))))"

definition parse_backup :: "(str \<Rightarrow> json option) \<Rightarrow> (resource \<Rightarrow> json \<Rightarrow> bool) \<Rightarrow> str
    \<Rightarrow> (read_failure, dlp_backup) result" where
  "parse_backup parse_json valid t = (case parse_json t of
      None \<Rightarrow> Err (if typescript_yaml t then TypeScriptBackup else Malformed)
    | Some doc \<Rightarrow> read_backup valid doc)"

definition backup_stamp :: "str \<Rightarrow> str" where
  "backup_stamp moment = filter (\<lambda>c. c \<noteq> CHR ''-'' \<and> c \<noteq> CHR '':'') (concat (take 19 (utf8_chars moment))) @ ''Z''"

end
