(* ===== verification/DlpPlan.thy ===== *)
theory DlpPlan
  imports DlpBackup
begin

text \<open>
  The value rules of \<open>src/dlp/plan.rs\<close>: the comparison of a request with its echo, the text of a
  dictionary upload, the request bodies rebuilt from a backup, name matching, references across
  tenants, the bindings of a plan and the remapped body of a profile. The SDK's request schemas and
  SHA-256 are the parameters \<open>dlp_schemas\<close>; a schema answers the parsed file name of a dictionary.
\<close>

record dlp_schemas =
  dictionary_schema :: "json \<Rightarrow> str option"
  pattern_schema :: "json \<Rightarrow> bool"
  profile_schema :: "json \<Rightarrow> bool"
  sha256 :: "str \<Rightarrow> str"

section \<open>The echo of a request\<close>

record echo =
  ec_differences :: "str list"
  ec_server_added :: "str list"

definition echo_ok :: echo where
  "echo_ok = \<lparr>ec_differences = [], ec_server_added = []\<rparr>"

definition echo_differs :: "str \<Rightarrow> echo" where
  "echo_differs path = \<lparr>ec_differences = [path], ec_server_added = []\<rparr>"

definition echo_added :: "str \<Rightarrow> echo" where
  "echo_added path = \<lparr>ec_differences = [], ec_server_added = [path]\<rparr>"

definition then_echo :: "echo \<Rightarrow> echo \<Rightarrow> echo" where
  "then_echo a b = \<lparr>ec_differences = ec_differences a @ ec_differences b,
                    ec_server_added = ec_server_added a @ ec_server_added b\<rparr>"

definition echo_matches :: "echo \<Rightarrow> bool" where
  "echo_matches e = (ec_differences e = [])"

definition server_metadata_keys :: "str list" where
  "server_metadata_keys = [''id'', ''version'', ''status'', ''profile_status'', ''tenant_id'',
     ''license_type'', ''is_parent_managed'', ''audit_metadata'', ''type'',
     ''advance_data_patterns_rule_request'', ''dictionary_metadata'', ''detection_technique'',
     ''detection_sub_technique'', ''attributes'', ''keywords'', ''tags'']"

text \<open>A sorted set of keys.\<close>

fun insert_key :: "str \<Rightarrow> str list \<Rightarrow> str list" where
  "insert_key k [] = [k]"
| "insert_key k (x # xs) =
     (if k = x then x # xs else if key_less k x then k # x # xs else x # insert_key k xs)"

definition all_keys :: "jobject \<Rightarrow> jobject \<Rightarrow> str list" where
  "all_keys want have' = foldl (\<lambda>ks k. insert_key k ks) [] (map fst want @ map fst have')"

definition levels_path :: "str \<Rightarrow> bool" where
  "levels_path path = ends_with path ''.supported_confidence_levels''"

definition has_levels :: "json list \<Rightarrow> json list \<Rightarrow> bool" where
  "has_levels want have' = list_all (\<lambda>l. list_ex (\<lambda>o'. strict_eq (Some l) (Some o')) have') want"

text \<open>The response metadata of the top level that the request does not set is ignored.\<close>

definition ignored_key :: "bool \<Rightarrow> jobject \<Rightarrow> str \<Rightarrow> bool" where
  "ignored_key outer want key = (outer \<and> \<not> contains_key want key \<and> key \<in> set server_metadata_keys)"

function (sequential) visit_echo :: "json option \<Rightarrow> json option \<Rightarrow> str \<Rightarrow> bool \<Rightarrow> echo"
  and visit_echo_items :: "nat \<Rightarrow> json list \<Rightarrow> json list \<Rightarrow> str \<Rightarrow> echo"
  and visit_echo_keys :: "str list \<Rightarrow> jobject \<Rightarrow> jobject \<Rightarrow> str \<Rightarrow> bool \<Rightarrow> echo" where
  "visit_echo source target path outer =
     (case (present_value source, present_value target) of
        (None, None) \<Rightarrow> echo_ok
      | (None, Some _) \<Rightarrow> echo_added path
      | (Some _, None) \<Rightarrow> echo_differs path
      | (Some (JArray want), Some (JArray have')) \<Rightarrow>
          if levels_path path \<and> has_levels want have'
          then (if length want \<noteq> length have' then echo_added path else echo_ok)
          else if length want \<noteq> length have' then echo_differs path
          else visit_echo_items 0 want have' path
      | (Some (JObject want), Some (JObject have')) \<Rightarrow>
          visit_echo_keys (all_keys want have') want have' path outer
      | (Some a, Some b) \<Rightarrow> if strict_eq (Some a) (Some b) then echo_ok else echo_differs path)"
| "visit_echo_items i [] have' path = echo_ok"
| "visit_echo_items i (item # want) have' path =
     then_echo
       (visit_echo (Some item) (if i < length have' then Some (have' ! i) else None)
         (path @ ''['' @ dec i @ '']'') False)
       (visit_echo_items (Suc i) want have' path)"
| "visit_echo_keys [] want have' path outer = echo_ok"
| "visit_echo_keys (key # keys) want have' path outer =
     then_echo
       (if ignored_key outer want key then echo_ok
        else visit_echo (jlookup want key) (jlookup have' key) (path @ ''.'' @ key) False)
       (visit_echo_keys keys want have' path outer)"
  by pat_completeness auto
termination
  by (relation "measures
       [\<lambda>x. case x of
           Inl (s, t, p, outer) \<Rightarrow> (case s of Some v \<Rightarrow> Suc (2 * size v) | None \<Rightarrow> 0)
         | Inr (Inl (i, ss, ts, p)) \<Rightarrow> 2 * size_list size ss
         | Inr (Inr (ks, ss, ts, p, outer)) \<Rightarrow> 2 * Suc (size_list (size_prod (\<lambda>_. 0) size) ss),
        \<lambda>x. case x of Inl _ \<Rightarrow> 0 | Inr (Inl _) \<Rightarrow> 0 | Inr (Inr (ks, ss, ts, p, outer)) \<Rightarrow> length ks]")
    (auto simp: present_value_def dest!: size_jlookup size_jlookup [OF sym] split: option.splits if_splits)

declare visit_echo.simps [simp del] visit_echo_items.simps [simp del] visit_echo_keys.simps [simp del]

definition compare_echo :: "json \<Rightarrow> json option \<Rightarrow> echo" where
  "compare_echo request read_back = visit_echo (Some request) read_back ''body'' True"

section \<open>Dictionaries\<close>

text \<open>The UTF-16 code units of one character.\<close>

definition code_point :: "str \<Rightarrow> nat" where
  "code_point g = (case map code g of
      [a] \<Rightarrow> a
    | [a, b] \<Rightarrow> (a - 192) * 64 + (b - 128)
    | [a, b, c] \<Rightarrow> ((a - 224) * 64 + (b - 128)) * 64 + (c - 128)
    | [a, b, c, d] \<Rightarrow> (((a - 240) * 64 + (b - 128)) * 64 + (c - 128)) * 64 + (d - 128)
    | _ \<Rightarrow> 0)"

definition utf16_units :: "str \<Rightarrow> nat list" where
  "utf16_units g =
     (if code_point g < 65536 then [code_point g]
      else [55296 + (code_point g - 65536) div 1024, 56320 + (code_point g - 65536) mod 1024])"

fun units_le :: "nat list \<Rightarrow> nat list \<Rightarrow> bool" where
  "units_le [] ys = True"
| "units_le (x # xs) [] = False"
| "units_le (x # xs) (y # ys) = (x < y \<or> x = y \<and> units_le xs ys)"

definition utf16_le :: "str \<Rightarrow> str \<Rightarrow> bool" where
  "utf16_le a b = units_le (concat (map utf16_units (utf8_chars a))) (concat (map utf16_units (utf8_chars b)))"

fun all_strings :: "json list \<Rightarrow> str list option" where
  "all_strings [] = Some []"
| "all_strings (v # vs) = (case v of
      JString t \<Rightarrow> map_option (Cons t) (all_strings vs)
    | _ \<Rightarrow> None)"

definition keyword_set :: "json option \<Rightarrow> str list option" where
  "keyword_set v = (case v of
      Some (JArray items) \<Rightarrow> map_option (sort_by utf16_le) (all_strings items)
    | _ \<Rightarrow> None)"

definition line_end :: str where "line_end = [CHR 0x0A]"

definition dictionary_file :: "json \<Rightarrow> str list \<Rightarrow> (str, str) result" where
  "dictionary_file metadata keywords =
     (if keywords = []
         \<or> list_ex (\<lambda>w. w = [] \<or> CHR 0x0D \<in> set w \<or> CHR 0x0A \<in> set w) keywords
      then Err ''Dictionary contains keywords that cannot be faithfully uploaded''
      else
        (let file = ascii_lower (text_or_empty metadata ''original_file_name'') in
         if ends_with file ''.csv'' then
           (if list_ex (\<lambda>w. CHR '','' \<in> set w) keywords
            then Err ''Dictionary CSV contains unsupported multi-column keywords''
            else Ok (''keywords'' @ line_end @ join line_end keywords @ line_end))
         else if ends_with file ''.txt'' then Ok (join line_end keywords @ line_end)
         else Err ''Dictionary filename must end in .csv or .txt for a verified upload''))"

definition metadata_file :: "json \<Rightarrow> json option" where
  "metadata_file record = Option.bind (jget record ''dictionary_metadata'') (\<lambda>m.
     present_value (jget m ''original_file_name''))"

definition without_file :: "json \<Rightarrow> json" where
  "without_file metadata = (case metadata of
      JObject m \<Rightarrow> JObject (jremove m ''original_file_name'') | _ \<Rightarrow> metadata)"

definition dictionary_echo :: "json \<Rightarrow> json option \<Rightarrow> str list \<Rightarrow> echo" where
  "dictionary_echo metadata record keywords =
     (let e = compare_echo (without_file metadata) record;
          file_ok = (case Option.bind record metadata_file of
              None \<Rightarrow> True | Some echoed \<Rightarrow> jget metadata ''original_file_name'' = Some echoed);
          keywords_ok = (keyword_set (Option.bind record (\<lambda>r. jget r ''keywords'')) = Some keywords)
      in if \<not> file_ok \<or> \<not> keywords_ok then then_echo e (echo_differs ''body.keywords'') else e)"

definition file_name_ok :: "str \<Rightarrow> bool" where
  "file_name_ok nm =
     (nm \<noteq> [] \<and> length nm \<le> 255 \<and> nm \<noteq> ''.'' \<and> nm \<noteq> ''..''
      \<and> \<not> list_ex (\<lambda>g. is_control g \<or> g \<in> {''/'', [CHR 0x5C], [CHR 0x22]}) (utf8_chars nm))"

text \<open>The fields of a record under some keys, inserted in that order.\<close>

fun copy_fields :: "(json option \<Rightarrow> json option) \<Rightarrow> json \<Rightarrow> str list \<Rightarrow> jobject \<Rightarrow> jobject" where
  "copy_fields f record [] m = m"
| "copy_fields f record (key # keys) m =
     copy_fields f record keys (case f (jget record key) of Some v \<Rightarrow> jinsert m key v | None \<Rightarrow> m)"

definition source_name :: "json \<Rightarrow> str" where
  "source_name record = (case json_str record ''name'' of Some nm \<Rightarrow> nm | None \<Rightarrow> ''undefined'')"

definition dictionary_metadata :: "json \<Rightarrow> str \<Rightarrow> json" where
  "dictionary_metadata source nm =
     (let m1 = copy_fields (\<lambda>v. v) source [''category''] [];
          m2 = jinsert m1 ''name'' (JString nm);
          m3 = jinsert m2 ''original_file_name''
            (case metadata_file source of Some f \<Rightarrow> f | None \<Rightarrow> JString ''keywords.txt'');
          m4 = copy_fields (\<lambda>v. v) source [''region_name''] m3
      in JObject (copy_fields present_value source [''description'', ''is_case_sensitive'', ''tags''] m4))"

definition dictionary_request :: "dlp_schemas \<Rightarrow> json \<Rightarrow> str \<Rightarrow> (str, json) result" where
  "dictionary_request sc source nm =
     (case dictionary_schema sc (dictionary_metadata source nm) of
        Some file \<Rightarrow>
          if file_name_ok file then Ok (dictionary_metadata source nm)
          else Err (''Dictionary cannot be rebuilt from the backup: '' @ source_name source)
      | None \<Rightarrow> Err (''Dictionary cannot be rebuilt from the backup: '' @ source_name source))"

definition pattern_body :: "json \<Rightarrow> str \<Rightarrow> json" where
  "pattern_body source nm =
     JObject (copy_fields present_value source [''matching_rules'', ''description'', ''tags'']
       (copy_fields (\<lambda>v. v) source [''type'', ''detection_config''] [(''name'', JString nm)]))"

definition pattern_request :: "dlp_schemas \<Rightarrow> json \<Rightarrow> str \<Rightarrow> (str, json) result" where
  "pattern_request sc source nm =
     (if pattern_schema sc (pattern_body source nm) then Ok (pattern_body source nm)
      else Err (''Data pattern cannot be rebuilt from the backup: '' @ source_name source))"

section \<open>Names and matches\<close>

definition non_empty_text :: "json \<Rightarrow> str \<Rightarrow> str option" where
  "non_empty_text record key = (case json_str record key of
      Some t \<Rightarrow> if t = [] then None else Some t | None \<Rightarrow> None)"

definition dlp_id :: "json \<Rightarrow> str option" where
  "dlp_id record = non_empty_text record ''id''"

definition dlp_name :: "json \<Rightarrow> str option" where
  "dlp_name record = non_empty_text record ''name''"

text \<open>Runs of other characters become one space; a multi-byte character is such a run.\<close>

fun spaced :: "bool \<Rightarrow> str \<Rightarrow> str" where
  "spaced gap [] = (if gap then '' '' else [])"
| "spaced gap (c # cs) =
     (if 97 \<le> code c \<and> code c \<le> 122 \<or> is_digit c
      then (if gap then '' '' else []) @ [c] @ spaced False cs
      else spaced True cs)"

definition normalized_name :: "writers \<Rightarrow> str \<Rightarrow> str" where
  "normalized_name wr nm = rust_trim (spaced False (w_fold wr nm))"

fun has_text :: "str \<Rightarrow> str \<Rightarrow> bool" where
  "has_text [] part = (part = [])"
| "has_text (c # cs) part = (starts_with (c # cs) part \<or> has_text cs part)"

definition name_score :: "writers \<Rightarrow> str \<Rightarrow> str \<Rightarrow> nat" where
  "name_score wr wanted nm =
     (let found = normalized_name wr nm in
      if found = wanted then 2
      else if has_text found wanted \<or> has_text wanted found then 1 else 0)"

text \<open>The best score of each name, sorted by name.\<close>

fun keep_score :: "(str \<times> nat) list \<Rightarrow> str \<Rightarrow> nat \<Rightarrow> (str \<times> nat) list" where
  "keep_score [] nm s = [(nm, s)]"
| "keep_score ((known, t) # scored) nm s =
     (if known = nm then (known, max t s) # scored
      else if key_less nm known then (nm, s) # (known, t) # scored
      else (known, t) # keep_score scored nm s)"

fun score_names :: "writers \<Rightarrow> json \<Rightarrow> str \<Rightarrow> json list \<Rightarrow> (str \<times> nat) list \<Rightarrow> (str \<times> nat) list" where
  "score_names wr source wanted [] scored = scored"
| "score_names wr source wanted (record # records) scored =
     score_names wr source wanted records
       (case json_str record ''name'' of
          None \<Rightarrow> scored
        | Some nm \<Rightarrow>
            if \<not> predefined record \<or> retired_pattern record
               \<or> pattern_technique record \<noteq> pattern_technique source then scored
            else if 0 < name_score wr wanted nm then keep_score scored nm (name_score wr wanted nm)
            else scored)"

definition predefined_candidates :: "writers \<Rightarrow> json \<Rightarrow> json list \<Rightarrow> str list" where
  "predefined_candidates wr source records =
     (let wanted = normalized_name wr (case dlp_name source of Some nm \<Rightarrow> nm | None \<Rightarrow> []) in
      map fst (take 3 (sort_by (\<lambda>(a, x) (b, y). y < x \<or> y = x \<and> locale_le wr a b)
        (score_names wr source wanted records []))))"

record destination =
  de_dictionaries :: "json list"
  de_patterns :: "json list"
  de_profiles :: "json list"
  de_keywords :: "str \<Rightarrow> json option"

definition match_by_name :: "json list \<Rightarrow> str \<Rightarrow> (json \<Rightarrow> bool) \<Rightarrow> str \<Rightarrow> (str, json option) result" where
  "match_by_name records nm retired label =
     (case filter (\<lambda>r. json_str r ''name'' = Some nm \<and> \<not> retired r) records of
        [] \<Rightarrow> Ok None
      | [r] \<Rightarrow> Ok (Some r)
      | _ \<Rightarrow> Err (''Ambiguous destination '' @ label @ '' name: '' @ nm))"

fun destination_match :: "destination \<Rightarrow> resource \<Rightarrow> str \<Rightarrow> (str, json option) result" where
  "destination_match de Dictionaries nm = match_by_name (de_dictionaries de) nm (\<lambda>_. False) ''dictionary''"
| "destination_match de Patterns nm = match_by_name (de_patterns de) nm retired_pattern ''data pattern''"
| "destination_match de DataProfiles nm = match_by_name (de_profiles de) nm retired_data_profile ''data profile''"

fun keyword_read_ids :: "entry list \<Rightarrow> destination \<Rightarrow> str \<Rightarrow> str list \<Rightarrow> str list" where
  "keyword_read_ids [] de pre ids = ids"
| "keyword_read_ids (e # es) de pre ids =
     keyword_read_ids es de pre
       (if en_predefined e then ids
        else (case destination_match de Dictionaries (pre @ en_name e) of
            Inr (Some found) \<Rightarrow>
              (case dlp_id found of Some i \<Rightarrow> if i \<in> set ids then ids else ids @ [i] | None \<Rightarrow> ids)
          | _ \<Rightarrow> ids))"

definition keyword_reads :: "dlp_backup \<Rightarrow> destination \<Rightarrow> str \<Rightarrow> str list" where
  "keyword_reads b de pre = keyword_read_ids (db_dictionaries b) de pre []"

section \<open>References across tenants\<close>

definition reference_key :: "str \<Rightarrow> bool" where
  "reference_key key =
     (list_ex (\<lambda>tail. case strip_suffix tail key of
          Some head \<Rightarrow> head = [] \<or> ends_with head ''-'' \<or> ends_with head ''_''
        | None \<Rightarrow> False) [''id'', ''uuid'']
      \<or> list_ex (ends_with key) [''Id'', ''ID'', ''Uuid'', ''UUID''])"

function (sequential) unknown_ids :: "jpath list \<Rightarrow> str \<Rightarrow> str \<Rightarrow> jpath \<Rightarrow> json \<Rightarrow> (str, unit) result"
  and unknown_ids_items :: "jpath list \<Rightarrow> str \<Rightarrow> str \<Rightarrow> jpath \<Rightarrow> nat \<Rightarrow> json list \<Rightarrow> (str, unit) result"
  and unknown_ids_fields :: "jpath list \<Rightarrow> str \<Rightarrow> str \<Rightarrow> jpath \<Rightarrow> jobject \<Rightarrow> (str, unit) result" where
  "unknown_ids known label path steps (JArray items) = unknown_ids_items known label path steps 0 items"
| "unknown_ids known label path steps (JObject m) = unknown_ids_fields known label path steps m"
| "unknown_ids known label path steps v = Ok ()"
| "unknown_ids_items known label path steps i [] = Ok ()"
| "unknown_ids_items known label path steps i (v # items) =
     bind_r (unknown_ids known label (path @ ''['' @ dec i @ '']'') (steps @ [IndexStep i]) v) (\<lambda>_.
       unknown_ids_items known label path steps (Suc i) items)"
| "unknown_ids_fields known label path steps [] = Ok ()"
| "unknown_ids_fields known label path steps ((key, v) # m) =
     (if \<not> empty_value v \<and> reference_key key \<and> \<not> (steps \<in> set known \<and> key = ''id'')
      then Err (''Unsupported cross-tenant reference in '' @ label @ '' at '' @ path @ ''.'' @ key)
      else bind_r (unknown_ids known label (path @ ''.'' @ key) (steps @ [KeyStep key]) v) (\<lambda>_.
             unknown_ids_fields known label path steps m))"
  by pat_completeness auto
termination
  by (relation "measure (\<lambda>x. case x of
        Inl (n, l, p, s, v) \<Rightarrow> size v
      | Inr (Inl (n, l, p, s, i, vs)) \<Rightarrow> size_list size vs
      | Inr (Inr (n, l, p, s, m)) \<Rightarrow> size_list (size_prod (\<lambda>_. 0) size) m)")
    auto

definition assert_known_references :: "json \<Rightarrow> jpath list \<Rightarrow> str \<Rightarrow> (str, unit) result" where
  "assert_known_references body known label = unknown_ids known label label [] body"

section \<open>The rows of a plan\<close>

datatype dependency_action = CreateDependency | ReuseDependency | ResolveDependency | MapDependency

datatype dlp_profile_action = CreateData | VerifyData | SkipData

record dictionary_plan =
  dp_source_id :: str
  dp_name :: str
  dp_action :: dependency_action
  dp_metadata :: "json option"
  dp_keywords :: "str list"
  dp_existing :: "json option"

record pattern_plan =
  pt_source_id :: str
  pt_name :: str
  pt_action :: dependency_action
  pt_body :: "json option"
  pt_existing :: "json option"

record data_profile_plan =
  fp_name :: str
  fp_renamed_from :: "str option"
  fp_source_id :: str
  fp_source :: json
  fp_action :: dlp_profile_action
  fp_existing :: "json option"
  fp_reason :: "str option"

record unresolved =
  ur_kind :: str
  ur_source_id :: str
  ur_name :: str
  ur_reason :: str
  ur_candidates :: "str list"

record dlp_plan =
  pl_source_tsg :: str
  pl_destination_tsg :: str
  pl_dictionaries :: "dictionary_plan list"
  pl_patterns :: "pattern_plan list"
  pl_profiles :: "data_profile_plan list"
  pl_unresolved :: "unresolved list"
  pl_reconcile :: bool

fun dependency_word :: "dependency_action \<Rightarrow> str" where
  "dependency_word CreateDependency = ''create''"
| "dependency_word ReuseDependency = ''reuse''"
| "dependency_word ResolveDependency = ''resolve''"
| "dependency_word MapDependency = ''map''"

fun dependency_done :: "dependency_action \<Rightarrow> str" where
  "dependency_done CreateDependency = ''created''"
| "dependency_done ReuseDependency = ''reused''"
| "dependency_done ResolveDependency = ''resolved''"
| "dependency_done MapDependency = ''mapped''"

fun data_profile_word :: "dlp_profile_action \<Rightarrow> str" where
  "data_profile_word CreateData = ''create''"
| "data_profile_word VerifyData = ''verify''"
| "data_profile_word SkipData = ''skip''"

definition plan_creates :: "dlp_plan \<Rightarrow> nat" where
  "plan_creates plan =
     length (filter (\<lambda>r. dp_action r = CreateDependency) (pl_dictionaries plan))
     + length (filter (\<lambda>r. pt_action r = CreateDependency) (pl_patterns plan))
     + length (filter (\<lambda>r. fp_action r = CreateData) (pl_profiles plan))"

definition crosses_tenants :: "dlp_plan \<Rightarrow> bool" where
  "crosses_tenants plan = (pl_source_tsg plan \<noteq> pl_destination_tsg plan)"

section \<open>Bindings\<close>

record binding =
  bd_dictionary :: bool
  bd_technique :: "str option"
  bd_id :: str
  bd_name :: str
  bd_version :: "json option"

type_synonym bindings = "str \<Rightarrow> binding option"

definition dictionary_binding :: "str \<Rightarrow> str \<Rightarrow> binding" where
  "dictionary_binding i nm = \<lparr>bd_dictionary = True, bd_technique = Some ''dictionary'', bd_id = i,
     bd_name = nm, bd_version = Some (JNumber (Whole 1))\<rparr>"

definition pattern_binding :: "json \<Rightarrow> str \<Rightarrow> str \<Rightarrow> binding" where
  "pattern_binding record i nm = \<lparr>bd_dictionary = False, bd_technique = pattern_technique record,
     bd_id = i, bd_name = nm, bd_version = present_value (jget record ''version'')\<rparr>"

definition bind_dictionary :: "bindings \<Rightarrow> dictionary_plan \<Rightarrow> bindings" where
  "bind_dictionary bs row = (case Option.bind (dp_existing row) dlp_id of
      Some i \<Rightarrow> bs(dp_source_id row \<mapsto> dictionary_binding i (dp_name row)) | None \<Rightarrow> bs)"

definition bind_pattern :: "bindings \<Rightarrow> pattern_plan \<Rightarrow> bindings" where
  "bind_pattern bs row = (case pt_existing row of
      Some existing \<Rightarrow>
        (case dlp_id existing of
           Some i \<Rightarrow> bs(pt_source_id row \<mapsto> pattern_binding existing i (pt_name row)) | None \<Rightarrow> bs)
    | None \<Rightarrow> bs)"

definition plan_bindings :: "dlp_plan \<Rightarrow> bindings" where
  "plan_bindings plan =
     foldl bind_pattern (foldl bind_dictionary Map.empty (pl_dictionaries plan)) (pl_patterns plan)"

definition assert_leaf_binding :: "leaf \<Rightarrow> binding \<Rightarrow> (str, unit) result" where
  "assert_leaf_binding lf bd =
     demand ''Data profile rule detection technique does not match its dependency''
       ((lf_technique lf = ''dictionary'') = bd_dictionary bd \<and> bd_technique bd = Some (lf_technique lf))"

text \<open>The id of a leaf; any other value by its text.\<close>

definition leaf_id :: "writers \<Rightarrow> leaf \<Rightarrow> str option" where
  "leaf_id wr lf = (case present_value (jget (lf_item lf) ''id'') of
      None \<Rightarrow> None
    | Some (JString t) \<Rightarrow> if t = [] then None else Some t
    | Some v \<Rightarrow> Some (w_text wr v))"

definition put_field :: "str \<Rightarrow> json \<Rightarrow> json \<Rightarrow> json" where
  "put_field key v item = (case item of JObject m \<Rightarrow> JObject (jinsert m key v) | _ \<Rightarrow> item)"

definition bound_item :: "binding \<Rightarrow> json \<Rightarrow> (str, json) result" where
  "bound_item bd item =
     (let item1 = put_field ''id'' (JString (bd_id bd)) item;
          item2 = (if present_value (jget item1 ''name'') \<noteq> None
                   then put_field ''name'' (JString (bd_name bd)) item1 else item1)
      in if present_value (jget item2 ''version'') \<noteq> None then
           (case bd_version bd of
              Some v \<Rightarrow> Ok (put_field ''version'' v item2)
            | None \<Rightarrow> Err (''Destination data pattern version is unknown: '' @ bd_name bd))
         else Ok item2)"

fun bind_leaves :: "writers \<Rightarrow> bindings \<Rightarrow> str \<Rightarrow> bool \<Rightarrow> leaf list \<Rightarrow> json \<Rightarrow> bool \<Rightarrow> (str, json \<times> bool) result" where
  "bind_leaves wr bs nm required [] rules deferred = Ok (rules, deferred)"
| "bind_leaves wr bs nm required (lf # lfs) rules deferred =
     (case leaf_id wr lf of
        None \<Rightarrow> bind_leaves wr bs nm required lfs rules deferred
      | Some i \<Rightarrow>
          if lf_technique lf = ''dictionary''
             \<and> (case present_value (jget (lf_item lf) ''version'') of
                  Some v \<Rightarrow> json_f64 v \<noteq> Some 1 | None \<Rightarrow> False)
          then Err ''Dictionary rule has an unsupported version pin''
          else (case bs i of
              None \<Rightarrow>
                if required
                then Err (''Missing planned dependency binding; an existing data profile cannot be verified without its destination dependencies: '' @ nm)
                else bind_leaves wr bs nm required lfs rules True
            | Some bd \<Rightarrow>
                bind_r (assert_leaf_binding lf bd) (\<lambda>_.
                  case value_at rules (lf_path lf) of
                    None \<Rightarrow> bind_leaves wr bs nm required lfs rules deferred
                  | Some item \<Rightarrow>
                      bind_r (bound_item bd item) (\<lambda>item'.
                        bind_leaves wr bs nm required lfs (edit_at rules (lf_path lf) (\<lambda>_. item')) deferred))))"

definition detection_rules_key :: str where "detection_rules_key = ''detection_rules''"

definition remapped_body :: "data_profile_plan \<Rightarrow> json \<Rightarrow> json" where
  "remapped_body row rules =
     JObject (copy_fields present_value (fp_source row)
       [''profile_type'', ''description'', ''is_granular_data_profile'']
       (jinsert [(''name'', JString (fp_name row))] detection_rules_key rules))"

definition leaf_known_path :: "leaf \<Rightarrow> jpath" where
  "leaf_known_path lf = KeyStep detection_rules_key # lf_path lf"

definition schema_text :: str where
  "schema_text = ''Invalid DLP backup/request schema; content is not logged.''"

definition create_checks :: "data_profile_plan \<Rightarrow> json option \<Rightarrow> (str, unit) result" where
  "create_checks row rules =
     (let create = (fp_action row = CreateData) in
      if create \<and> 32 < utf16_count (fp_name row)
      then Err ''Data profile name exceeds the live API limit of 32 characters''
      else if create \<and> json_str (fp_source row) ''profile_type'' = Some ''basic''
      then Err ''Data profile basic writes cannot round-trip through the API''
      else if create \<and> (case Option.bind rules as_array of Some rs \<Rightarrow> rs = [] | None \<Rightarrow> True)
      then Err ''Data profile has no exported detection rules to create''
      else Ok ())"

definition dlp_profile_request :: "writers \<Rightarrow> dlp_schemas \<Rightarrow> data_profile_plan \<Rightarrow> bindings \<Rightarrow> bool \<Rightarrow> bool
    \<Rightarrow> (str, json option) result" where
  "dlp_profile_request wr sc row bs cross_tenant required =
     (let rules = present_value (jget (fp_source row) detection_rules_key);
          detection_rules = (case rules of Some v \<Rightarrow> v | None \<Rightarrow> JArray []) in
      bind_r (create_checks row rules) (\<lambda>_.
      bind_r (rule_leaves wr (Some detection_rules)) (\<lambda>leaves.
      bind_r (bind_leaves wr bs (fp_name row) required leaves detection_rules False) (\<lambda>(rules', deferred).
        let body = remapped_body row rules' in
        bind_r (if cross_tenant
                then assert_known_references body (map leaf_known_path leaves) (''profile '' @ fp_name row)
                else Ok ()) (\<lambda>_.
          if \<not> profile_schema sc body then Err schema_text
          else Ok (if deferred then None else Some body))))))"

section \<open>The reconcile suffix\<close>

definition hex_byte :: "char \<Rightarrow> str" where
  "hex_byte b = [hex_digit (code b div 16), hex_digit (code b mod 16)]"

definition reconcile_suffix :: "dlp_schemas \<Rightarrow> str \<Rightarrow> str \<Rightarrow> str" where
  "reconcile_suffix sc tsg source_id = concat (map hex_byte (take 3 (sha256 sc (tsg @ '':'' @ source_id))))"

fun utf16_prefix :: "str list \<Rightarrow> nat \<Rightarrow> nat \<Rightarrow> str" where
  "utf16_prefix [] used units = []"
| "utf16_prefix (g # gs) used units =
     (if units < used + utf16_len g then [] else g @ utf16_prefix gs (used + utf16_len g) units)"

definition suffixed_profile_name :: "str \<Rightarrow> str \<Rightarrow> str" where
  "suffixed_profile_name nm suffix' =
     (let tail = ''-'' @ suffix' in utf16_prefix (utf8_chars nm) 0 (32 - utf16_count tail) @ tail)"

end
