(* ===== verification/DlpPlanner.thy ===== *)
theory DlpPlanner
  imports DlpPlan
begin

text \<open>
  The planner of \<open>src/dlp/plan.rs\<close>: the checks before any request, the rows of the dictionaries,
  patterns and profiles of a backup against the destination's inventories, and the checks that tie
  the profiles to the rows. \<open>unclear\<close> below is what could not be resolved and is skipped.
\<close>

datatype data_conflict = ConflictError | ConflictVerify | ConflictSkip | ConflictReconcile

definition conflict_of :: "str \<Rightarrow> data_conflict option" where
  "conflict_of t = map_of [(''error'', ConflictError), (''verify'', ConflictVerify),
     (''skip'', ConflictSkip), (''reconcile'', ConflictReconcile)] t"

record plan_options =
  po_prefix :: str
  po_conflict :: data_conflict
  po_pattern_map :: "(str \<times> str) list"
  po_skip_unresolved :: bool

definition mapped_name :: "plan_options \<Rightarrow> str \<Rightarrow> str option" where
  "mapped_name po source = map_of (po_pattern_map po) source"

section \<open>Before any request\<close>

fun unique_ids :: "str list \<Rightarrow> str set \<Rightarrow> (str, unit) result" where
  "unique_ids [] seen = Ok ()"
| "unique_ids (i # is) seen =
     (if i = [] then unique_ids is seen
      else if i \<in> seen then Err ''Backup contains duplicate dependency identities''
      else unique_ids is (insert i seen))"

definition prevalidate :: "dlp_backup \<Rightarrow> (str, unit) result" where
  "prevalidate b =
     (let names = (\<lambda>es. map (\<lambda>e. Some (en_name e)) es) in
      bind_r (unique_names (names (db_dictionaries b)) ''dictionary'' {}) (\<lambda>_.
      bind_r (unique_names (names (db_patterns b)) ''data pattern'' {}) (\<lambda>_.
      bind_r (unique_names (names (db_profiles b)) ''data profile'' {}) (\<lambda>_.
        unique_ids (map en_id (db_dictionaries b @ db_patterns b)) {}))))"

definition absent_map_names :: "dlp_backup \<Rightarrow> plan_options \<Rightarrow> str option" where
  "absent_map_names b po =
     (let absent = filter (\<lambda>s. s \<notin> set (map en_name (db_patterns b))) (map fst (po_pattern_map po)) in
      if absent = [] then None
      else Some (''--pattern-map names absent from the backup: '' @ join '', '' absent))"

section \<open>The tenants\<close>

definition source_binding :: "bool \<Rightarrow> bindings \<Rightarrow> json \<Rightarrow> bindings" where
  "source_binding dictionary bs record = (case dlp_id record of
      None \<Rightarrow> bs
    | Some i \<Rightarrow>
        (let nm = (case dlp_name record of Some n \<Rightarrow> n | None \<Rightarrow> []) in
         bs(i \<mapsto> (if dictionary then dictionary_binding i nm else pattern_binding record i nm))))"

definition source_bindings :: "json list \<Rightarrow> json list \<Rightarrow> bindings" where
  "source_bindings dictionaries patterns =
     foldl (source_binding False) (foldl (source_binding True) Map.empty dictionaries) patterns"

definition check_tenants :: "bool \<Rightarrow> str option \<Rightarrow> str option \<Rightarrow> (str, unit) result" where
  "check_tenants cross_tenant source target = (case (source, target) of
      (Some s, Some t) \<Rightarrow>
        if cross_tenant \<and> s = t
        then Err ''Destination credentials report the source DLP tenant; check the selected tenant before restoring''
        else if \<not> cross_tenant \<and> s \<noteq> t
        then Err ''Destination DLP tenant does not match the backup source; use distinct tenant credentials deliberately''
        else Ok ()
    | _ \<Rightarrow> Ok ())"

section \<open>Dictionaries\<close>

text \<open>Every error of a match or of a body is made safe for the terminal.\<close>

definition safely :: "(str, 'a) result \<Rightarrow> (str, 'a) result" where
  "safely r = (case r of Inl e \<Rightarrow> Inl (terminal_safe e) | Inr x \<Rightarrow> Inr x)"

text \<open>A source gives a row, or is noted as unresolved, or, for a pattern, as missing.\<close>

datatype 'r planned = Row 'r | Unresolved unresolved | MissingPredefined str "str list"

definition unresolved_row :: "str \<Rightarrow> str \<Rightarrow> str \<Rightarrow> str \<Rightarrow> str list \<Rightarrow> 'r planned" where
  "unresolved_row kind i nm reason candidates =
     Unresolved \<lparr>ur_kind = kind, ur_source_id = i, ur_name = nm, ur_reason = reason,
                 ur_candidates = candidates\<rparr>"

text \<open>\<open>Option::filter\<close>.\<close>

definition kept_if :: "(json \<Rightarrow> bool) \<Rightarrow> json option \<Rightarrow> json option" where
  "kept_if P found = (case found of Some r \<Rightarrow> if P r then Some r else None | None \<Rightarrow> None)"

definition resolve_dictionary :: "plan_options \<Rightarrow> destination \<Rightarrow> str \<Rightarrow> str
    \<Rightarrow> (str, dictionary_plan planned) result" where
  "resolve_dictionary po de i nm =
     bind_r (safely (destination_match de Dictionaries nm)) (\<lambda>found.
       case kept_if (\<lambda>r. dlp_id r \<noteq> None \<and> predefined r) found of
         Some r \<Rightarrow> Ok (Row \<lparr>dp_source_id = i, dp_name = nm, dp_action = ResolveDependency,
             dp_metadata = None, dp_keywords = [], dp_existing = Some r\<rparr>)
       | None \<Rightarrow>
           if po_skip_unresolved po
           then Ok (unresolved_row ''dictionary'' i nm ''missing predefined destination dictionary'' [])
           else Err (''Missing predefined destination dictionary: '' @ terminal_safe nm))"

definition with_keywords :: "destination \<Rightarrow> json \<Rightarrow> json" where
  "with_keywords de found = (case (dlp_id found, found) of
      (Some i, JObject m) \<Rightarrow>
        (case de_keywords de i of Some words \<Rightarrow> JObject (jinsert m ''keywords'' words) | None \<Rightarrow> found)
    | _ \<Rightarrow> found)"

definition reuse_dictionary :: "destination \<Rightarrow> str \<Rightarrow> str \<Rightarrow> json \<Rightarrow> str list \<Rightarrow> json
    \<Rightarrow> (str, dictionary_plan planned) result" where
  "reuse_dictionary de i nm metadata keywords found =
     (if dlp_id found = None then Err (''Destination dictionary has no identity: '' @ terminal_safe nm)
      else if \<not> echo_matches (dictionary_echo metadata (Some (with_keywords de found)) keywords)
      then Err (''Destination dictionary differs: '' @ terminal_safe nm
                @ ''; use --name-prefix to avoid changing a shared dictionary'')
      else Ok (Row \<lparr>dp_source_id = i, dp_name = nm, dp_action = ReuseDependency, dp_metadata = Some metadata,
                 dp_keywords = keywords, dp_existing = Some found\<rparr>))"

definition custom_dictionary :: "dlp_schemas \<Rightarrow> plan_options \<Rightarrow> destination \<Rightarrow> json \<Rightarrow> str \<Rightarrow> str
    \<Rightarrow> (str, dictionary_plan planned) result" where
  "custom_dictionary sc po de source i source_nm =
     (let nm = po_prefix po @ source_nm in
      if \<not> valid_dlp_name nm then Err dlp_name_rule
      else bind_r (safely (dictionary_request sc source nm)) (\<lambda>metadata.
        case keyword_set (jget source ''keywords'') of
          None \<Rightarrow> Err (''Backup dictionary lacks keywords: '' @ terminal_safe source_nm)
        | Some keywords \<Rightarrow>
            bind_r (safely (destination_match de Dictionaries nm)) (\<lambda>found.
              case found of
                None \<Rightarrow>
                  bind_r (dictionary_file metadata keywords) (\<lambda>_.
                    Ok (Row \<lparr>dp_source_id = i, dp_name = nm, dp_action = CreateDependency,
                      dp_metadata = Some metadata, dp_keywords = keywords, dp_existing = None\<rparr>))
              | Some r \<Rightarrow> reuse_dictionary de i nm metadata keywords r)))"

definition plan_dictionary :: "dlp_schemas \<Rightarrow> plan_options \<Rightarrow> destination \<Rightarrow> json
    \<Rightarrow> (str, dictionary_plan planned) result" where
  "plan_dictionary sc po de source = (case (dlp_id source, dlp_name source) of
      (Some i, Some nm) \<Rightarrow>
        if predefined source then resolve_dictionary po de i nm else custom_dictionary sc po de source i nm
    | _ \<Rightarrow> Err ''Backup dictionary lacks identity'')"

section \<open>Patterns\<close>

definition same_catalog_pattern :: "str \<Rightarrow> json \<Rightarrow> json \<Rightarrow> bool" where
  "same_catalog_pattern i source record =
     (dlp_id record = Some i \<and> predefined record \<and> \<not> retired_pattern record
      \<and> pattern_technique record = pattern_technique source)"

definition technique_differs :: "json \<Rightarrow> json \<Rightarrow> bool" where
  "technique_differs source found =
     (pattern_technique source = None \<or> pattern_technique found \<noteq> pattern_technique source)"

definition catalog_pattern :: "destination \<Rightarrow> json \<Rightarrow> str \<Rightarrow> str \<Rightarrow> (str, json option) result" where
  "catalog_pattern de source i nm = (case find (same_catalog_pattern i source) (de_patterns de) of
      Some found \<Rightarrow> Ok (Some found)
    | None \<Rightarrow> safely (destination_match de Patterns nm))"

definition resolve_pattern :: "writers \<Rightarrow> plan_options \<Rightarrow> destination \<Rightarrow> json \<Rightarrow> str \<Rightarrow> str
    \<Rightarrow> (str, pattern_plan planned) result" where
  "resolve_pattern wr po de source i nm =
     bind_r (catalog_pattern de source i nm) (\<lambda>found.
       case kept_if (\<lambda>r. dlp_id r \<noteq> None \<and> dlp_name r \<noteq> None \<and> predefined r) found of
         None \<Rightarrow>
           (let candidates = predefined_candidates wr source (de_patterns de) in
            Ok (if po_skip_unresolved po
                then unresolved_row ''pattern'' i nm ''no identity or name match in the destination catalog''
                       candidates
                else MissingPredefined nm candidates))
       | Some r \<Rightarrow>
           if technique_differs source r
           then Err (''Destination data pattern detection technique differs: '' @ terminal_safe nm)
           else Ok (Row \<lparr>pt_source_id = i,
                  pt_name = (case dlp_name r of Some n \<Rightarrow> n | None \<Rightarrow> []),
                  pt_action = ResolveDependency, pt_body = None, pt_existing = Some r\<rparr>))"

definition map_pattern :: "destination \<Rightarrow> json \<Rightarrow> str \<Rightarrow> str \<Rightarrow> (str, pattern_plan planned) result" where
  "map_pattern de source i target =
     bind_r (safely (destination_match de Patterns target)) (\<lambda>found.
       case kept_if (\<lambda>r. dlp_id r \<noteq> None) found of
         None \<Rightarrow> Err (''Missing mapped destination data pattern: '' @ terminal_safe target)
       | Some r \<Rightarrow>
           if technique_differs source r
           then Err (''Mapped destination data pattern detection technique differs: '' @ terminal_safe target)
           else Ok (Row \<lparr>pt_source_id = i, pt_name = target, pt_action = MapDependency, pt_body = None,
                  pt_existing = Some r\<rparr>))"

definition tenant_bound :: "plan_options \<Rightarrow> str \<Rightarrow> str \<Rightarrow> (str, pattern_plan planned) result" where
  "tenant_bound po i nm =
     (if po_skip_unresolved po
      then Ok (unresolved_row ''pattern'' i nm ''tenant-bound detection technique without --pattern-map'' [])
      else Err (''Data pattern uses a tenant-bound detection technique: '' @ terminal_safe nm
        @ ''; provision it in the destination and bind it with --pattern-map '' @ [CHR 0x22]
        @ terminal_safe nm @ ''=<destination-name>'' @ [CHR 0x22]))"

definition content_not_exported :: "plan_options \<Rightarrow> str \<Rightarrow> str \<Rightarrow> (str, pattern_plan planned) result" where
  "content_not_exported po i nm =
     (if po_skip_unresolved po
      then Ok (unresolved_row ''pattern'' i nm
             ''detection content is not exported by the API (copy of a predefined pattern)'' [])
      else Err (''Data pattern has no exported detection content (a copy of a predefined pattern): ''
        @ terminal_safe nm @ ''; bind an equivalent with --pattern-map '' @ [CHR 0x22] @ terminal_safe nm
        @ ''=<destination-name>'' @ [CHR 0x22] @ '' or exclude dependents with --skip-unresolved''))"

definition has_regexes :: "json \<Rightarrow> bool" where
  "has_regexes source =
     (case Option.bind (jget source ''matching_rules'') (\<lambda>r. Option.bind (jget r ''regexes'') as_array) of
        Some rs \<Rightarrow> rs \<noteq> [] | None \<Rightarrow> False)"

definition reuse_pattern :: "str \<Rightarrow> str \<Rightarrow> json \<Rightarrow> json \<Rightarrow> (str, pattern_plan planned) result" where
  "reuse_pattern i nm body found =
     (if dlp_id found = None then Err (''Destination data pattern has no identity: '' @ terminal_safe nm)
      else if \<not> echo_matches (compare_echo body (Some found))
      then Err (''Destination data pattern differs: '' @ terminal_safe nm
                @ ''; use --name-prefix to avoid changing a shared pattern'')
      else Ok (Row \<lparr>pt_source_id = i, pt_name = nm, pt_action = ReuseDependency, pt_body = Some body,
                 pt_existing = Some found\<rparr>))"

definition custom_pattern :: "dlp_schemas \<Rightarrow> plan_options \<Rightarrow> bool \<Rightarrow> destination \<Rightarrow> json \<Rightarrow> str \<Rightarrow> str
    \<Rightarrow> (str, pattern_plan planned) result" where
  "custom_pattern sc po cross_tenant de source i source_nm =
     (let nm = po_prefix po @ source_nm; technique = pattern_technique source in
      if technique \<notin> {Some ''regex'', Some ''weighted_regex'', Some ''file_property''}
      then tenant_bound po i source_nm
      else if technique \<in> {Some ''regex'', Some ''weighted_regex''} \<and> \<not> has_regexes source
      then content_not_exported po i source_nm
      else if \<not> valid_dlp_name nm then Err dlp_name_rule
      else bind_r (safely (pattern_request sc source nm)) (\<lambda>body.
        bind_r (if cross_tenant then safely (assert_known_references body [] (''pattern '' @ source_nm))
                else Ok ()) (\<lambda>_.
        bind_r (safely (destination_match de Patterns nm)) (\<lambda>found.
          case found of
            None \<Rightarrow> Ok (Row \<lparr>pt_source_id = i, pt_name = nm, pt_action = CreateDependency,
                pt_body = Some body, pt_existing = None\<rparr>)
          | Some r \<Rightarrow> reuse_pattern i nm body r))))"

definition plan_pattern :: "writers \<Rightarrow> dlp_schemas \<Rightarrow> plan_options \<Rightarrow> bool \<Rightarrow> destination \<Rightarrow> json
    \<Rightarrow> (str, pattern_plan planned) result" where
  "plan_pattern wr sc po cross_tenant de source = (case (dlp_id source, dlp_name source) of
      (Some i, Some nm) \<Rightarrow>
        (case mapped_name po nm of
           None \<Rightarrow>
             if predefined source then resolve_pattern wr po de source i nm
             else custom_pattern sc po cross_tenant de source i nm
         | Some target \<Rightarrow> map_pattern de source i target)
    | _ \<Rightarrow> Err ''Backup data pattern lacks identity'')"

definition quoted_name :: "str \<Rightarrow> str" where
  "quoted_name nm = [CHR 0x22] @ terminal_safe nm @ [CHR 0x22]"

definition missing_part :: "str \<times> str list \<Rightarrow> str" where
  "missing_part m = (case m of (nm, candidates) \<Rightarrow>
     if candidates = [] then terminal_safe nm @ '' (no candidates)''
     else terminal_safe nm @ '' (candidates: '' @ join '', '' (map quoted_name candidates) @ '')'')"

definition missing_text :: "(str \<times> str list) list \<Rightarrow> str" where
  "missing_text missing =
     ''Missing predefined destination data patterns: '' @ join ''; '' (map missing_part missing)
     @ ''; bind each with --pattern-map '' @ [CHR 0x22] @ ''<source-name>=<destination-name>'' @ [CHR 0x22]"

section \<open>Profiles\<close>

definition found_action :: "json option \<Rightarrow> data_conflict \<Rightarrow> dlp_profile_action" where
  "found_action found conflict = (case found of
      None \<Rightarrow> CreateData
    | Some _ \<Rightarrow> if conflict = ConflictSkip then SkipData else VerifyData)"

definition no_profile_identity :: "str \<Rightarrow> str" where
  "no_profile_identity nm = ''Destination data profile has no identity: '' @ terminal_safe nm"

text \<open>The suffixed copy of an earlier reconcile run is verified, never created again.\<close>

definition reconciled_row :: "dlp_schemas \<Rightarrow> dlp_backup \<Rightarrow> destination \<Rightarrow> data_profile_plan
    \<Rightarrow> (str, data_profile_plan) result" where
  "reconciled_row sc b de row =
     (let suffixed = suffixed_profile_name (fp_name row) (reconcile_suffix sc (db_tsg_id b) (fp_source_id row)) in
      bind_r (safely (destination_match de DataProfiles suffixed)) (\<lambda>found.
        case found of
          None \<Rightarrow> Ok row
        | Some r \<Rightarrow>
            if dlp_id r = None then Err (no_profile_identity suffixed)
            else Ok (row\<lparr>fp_renamed_from := Some (fp_name row), fp_name := suffixed,
                         fp_action := VerifyData, fp_existing := Some r\<rparr>)))"

definition plan_data_profile :: "dlp_schemas \<Rightarrow> plan_options \<Rightarrow> dlp_backup \<Rightarrow> destination \<Rightarrow> json
    \<Rightarrow> (str, data_profile_plan) result" where
  "plan_data_profile sc po b de source = (case dlp_name source of
      None \<Rightarrow> Err ''Backup data profile lacks identity''
    | Some source_nm \<Rightarrow>
        (let nm = po_prefix po @ source_nm in
         if predefined source then Err ''Backup contains a predefined data profile''
         else if \<not> valid_dlp_name nm then Err dlp_name_rule
         else bind_r (safely (destination_match de DataProfiles nm)) (\<lambda>found.
           if found \<noteq> None \<and> po_conflict po = ConflictError
           then Err (''Destination data profile already exists: '' @ terminal_safe nm
                     @ ''; choose --on-conflict verify or skip'')
           else if (case found of Some r \<Rightarrow> dlp_id r = None | None \<Rightarrow> False) then Err (no_profile_identity nm)
           else
             (let row = \<lparr>fp_name = nm, fp_renamed_from = None,
                    fp_source_id = (case dlp_id source of Some i \<Rightarrow> i | None \<Rightarrow> []), fp_source = source,
                    fp_action = found_action found (po_conflict po), fp_existing = found, fp_reason = None\<rparr>
              in if found = None \<and> po_conflict po = ConflictReconcile then reconciled_row sc b de row
                 else Ok row))))"

section \<open>The references of the profiles\<close>

definition planned_ids :: "dlp_plan \<Rightarrow> str set" where
  "planned_ids plan = set (map dp_source_id (pl_dictionaries plan)) \<union> set (map pt_source_id (pl_patterns plan))"

definition source_id_of :: "leaf \<Rightarrow> (str, str option) result" where
  "source_id_of lf = (case present_value (jget (lf_item lf) ''id'') of
      None \<Rightarrow> Ok None
    | Some (JString t) \<Rightarrow> Ok (if t = [] then None else Some t)
    | Some _ \<Rightarrow> Err ''Backup contains a non-string rule reference ID'')"

definition check_source_leaf :: "bindings \<Rightarrow> leaf \<Rightarrow> str \<Rightarrow> (str, unit) result" where
  "check_source_leaf sources lf i = (case sources i of
      None \<Rightarrow> Ok ()
    | Some bd \<Rightarrow>
        bind_r (assert_leaf_binding lf bd) (\<lambda>_.
          demand ''Backup rule pins an unknown source dependency version''
            (case present_value (jget (lf_item lf) ''version'') of
               None \<Rightarrow> True
             | Some v \<Rightarrow> (case bd_version bd of Some h \<Rightarrow> strict_eq (Some h) (Some v) | None \<Rightarrow> False))))"

fun missing_ids :: "bindings \<Rightarrow> str set \<Rightarrow> leaf list \<Rightarrow> str list \<Rightarrow> (str, str list) result" where
  "missing_ids sources planned [] missing = Ok missing"
| "missing_ids sources planned (lf # lfs) missing =
     bind_r (source_id_of lf) (\<lambda>i. case i of
         None \<Rightarrow> missing_ids sources planned lfs missing
       | Some t \<Rightarrow>
           bind_r (check_source_leaf sources lf t) (\<lambda>_.
             missing_ids sources planned lfs
               (if t \<notin> planned \<and> t \<notin> set missing then missing @ [t] else missing)))"

definition failed_dependencies :: "failed list \<Rightarrow> str \<Rightarrow> (str \<times> str) option" where
  "failed_dependencies rows =
     foldl (\<lambda>m r. m(fa_id r \<mapsto> (if fa_kind r = ''dictionary'' then ''dictionary'' else ''data pattern'', fa_name r)))
       Map.empty (filter (\<lambda>r. fa_kind r = ''dictionary'' \<or> fa_kind r = ''pattern'') rows)"

definition unclear_names :: "unresolved list \<Rightarrow> str \<Rightarrow> str option" where
  "unclear_names rows = foldl (\<lambda>m r. m(ur_source_id r \<mapsto> ur_name r)) Map.empty rows"

text \<open>Why a profile with missing references is skipped, or why it stops the plan.\<close>

definition skip_reason :: "plan_options \<Rightarrow> (str \<Rightarrow> str option) \<Rightarrow> (str \<Rightarrow> (str \<times> str) option) \<Rightarrow> str
    \<Rightarrow> str list \<Rightarrow> (str, str) result" where
  "skip_reason po unclear lost nm missing =
     (let fails = List.map_filter lost missing; skippable = List.map_filter unclear missing in
      if fails \<noteq> [] \<and> \<not> po_skip_unresolved po
      then Err (''Backup data profile references a resource that could not be backed up: '' @ terminal_safe nm)
      else if length skippable + length fails = length missing
      then Ok (join ''; ''
        ((if skippable = [] then [] else [''unresolved references: '' @ join '', '' skippable])
         @ map (\<lambda>(kind, n). ''its '' @ kind @ '' '' @ n @ '' could not be backed up'') fails))
      else Err (''Backup data profile references a resource absent from the backup: '' @ terminal_safe nm))"

definition check_data_profile :: "writers \<Rightarrow> dlp_schemas \<Rightarrow> plan_options \<Rightarrow> bindings \<Rightarrow> (str \<Rightarrow> (str \<times> str) option)
    \<Rightarrow> dlp_plan \<Rightarrow> data_profile_plan \<Rightarrow> (str, data_profile_plan) result" where
  "check_data_profile wr sc po sources lost plan row =
     (if fp_action row = SkipData then Ok row
      else
        bind_r (safely (rule_leaves wr (jget (fp_source row) detection_rules_key))) (\<lambda>leaves.
        bind_r (missing_ids sources (planned_ids plan) leaves []) (\<lambda>missing.
          if missing \<noteq> [] then
            bind_r (skip_reason po (unclear_names (pl_unresolved plan)) lost (fp_name row) missing) (\<lambda>why.
              Ok (row\<lparr>fp_action := SkipData, fp_reason := Some why\<rparr>))
          else
            bind_r (safely (dlp_profile_request wr sc row (plan_bindings plan) (crosses_tenants plan)
                (fp_action row = VerifyData))) (\<lambda>body.
              if fp_action row = VerifyData
                 \<and> (case body of Some v \<Rightarrow> \<not> echo_matches (compare_echo v (fp_existing row)) | None \<Rightarrow> False)
              then Err (''Destination data profile does not match restore plan: '' @ terminal_safe (fp_name row)
                        @ ''; verification made no changes'')
              else Ok row))))"

section \<open>The plan\<close>

fun planned_rows :: "'r planned list \<Rightarrow> 'r list" where
  "planned_rows [] = []"
| "planned_rows (Row r # ps) = r # planned_rows ps"
| "planned_rows (_ # ps) = planned_rows ps"

fun planned_unresolved :: "'r planned list \<Rightarrow> unresolved list" where
  "planned_unresolved [] = []"
| "planned_unresolved (Unresolved u # ps) = u # planned_unresolved ps"
| "planned_unresolved (_ # ps) = planned_unresolved ps"

fun missing_of :: "'r planned list \<Rightarrow> (str \<times> str list) list" where
  "missing_of [] = []"
| "missing_of (MissingPredefined nm candidates # ps) = (nm, candidates) # missing_of ps"
| "missing_of (_ # ps) = missing_of ps"

definition dlp_plan_of :: "writers \<Rightarrow> dlp_schemas \<Rightarrow> dlp_backup \<Rightarrow> str \<Rightarrow> destination \<Rightarrow> plan_options
    \<Rightarrow> (str, dlp_plan) result" where
  "dlp_plan_of wr sc b destination_tsg de po =
     (let cross_tenant = (db_tsg_id b \<noteq> destination_tsg);
          records = (\<lambda>es. map (\<lambda>e. value_of (en_record e)) es);
          dictionaries = records (db_dictionaries b); patterns = records (db_patterns b);
          profiles = records (db_profiles b); sources = source_bindings dictionaries patterns in
      bind_r (tenant_identity wr (patterns @ profiles)) (\<lambda>source_tenant.
      bind_r (tenant_identity wr (de_patterns de @ de_profiles de)) (\<lambda>destination_tenant.
      bind_r (check_tenants cross_tenant source_tenant destination_tenant) (\<lambda>_.
      bind_r (collect_r (plan_dictionary sc po de) dictionaries) (\<lambda>ds.
      bind_r (collect_r (plan_pattern wr sc po cross_tenant de) patterns) (\<lambda>ps.
      bind_r (demand (missing_text (missing_of ps)) (missing_of ps = [])) (\<lambda>_.
      bind_r (collect_r (plan_data_profile sc po b de) profiles) (\<lambda>rows.
        let plan = \<lparr>pl_source_tsg = db_tsg_id b, pl_destination_tsg = destination_tsg,
              pl_dictionaries = planned_rows ds, pl_patterns = planned_rows ps, pl_profiles = rows,
              pl_unresolved = planned_unresolved ds @ planned_unresolved ps,
              pl_reconcile = (po_conflict po = ConflictReconcile)\<rparr> in
        bind_r (collect_r (check_data_profile wr sc po sources (failed_dependencies (db_failed b)) plan) rows)
          (\<lambda>checked. Ok (plan\<lparr>pl_profiles := checked\<rparr>))))))))))"

end
