(* ===== verification/DlpRemap.thy ===== *)
theory DlpRemap
  imports DlpPlanner "HOL-Library.Sublist"
begin

text \<open>
  What the remapping of a profile's rules does: the leaves of a rule tree lie at parallel paths, so
  binding one leaves the others alone, and a body that goes to another tenant names no id but the
  bound ones.
\<close>

section \<open>Edits at parallel paths\<close>

lemma value_at_edit_same: "value_at v p = Some w \<Longrightarrow> value_at (edit_at v p f) p = Some (f w)"
proof (induction v p f rule: edit_at.induct)
  case (2 v k p f)
  then show ?case by (auto simp: jobj.lookup_update split: json.splits option.splits)
next
  case (3 v i p f)
  then show ?case by (auto split: json.splits if_splits)
qed simp

lemma value_at_edit_parallel: "p \<parallel> q \<Longrightarrow> value_at (edit_at v p f) q = value_at v q"
proof (induction v p f arbitrary: q rule: edit_at.induct)
  case (2 v k p f)
  from 2(2) obtain s q' where q: "q = s # q'" by (cases q) auto
  show ?case
  proof (cases "s = KeyStep k")
    case True
    with 2(2) q have "p \<parallel> q'" by (auto simp: parallel_def)
    with 2(1) True q show ?thesis by (auto simp: jobj.lookup_update split: json.splits option.splits)
  next
    case False
    with q show ?thesis by (cases s) (auto simp: jobj.lookup_update split: json.splits option.splits)
  qed
next
  case (3 v i p f)
  from 3(2) obtain s q' where q: "q = s # q'" by (cases q) auto
  show ?case
  proof (cases "s = IndexStep i")
    case True
    with 3(2) q have "p \<parallel> q'" by (auto simp: parallel_def)
    with 3(1) True q show ?thesis by (auto split: json.splits if_splits)
  next
    case False
    with q show ?thesis by (cases s) (auto split: json.splits if_splits)
  qed
qed simp

lemma parallel_steps: "a \<noteq> b \<Longrightarrow> p @ a # x \<parallel> p @ b # y"
  by (auto simp: parallel_def)

section \<open>The paths of leaves\<close>

abbreviation apart :: "leaf list \<Rightarrow> bool" where
  "apart \<equiv> sorted_wrt (\<lambda>a b. lf_path a \<parallel> lf_path b)"

text \<open>A leaf found under a path \<open>p\<close> in \<open>v\<close>.\<close>

definition leaf_of :: "jpath \<Rightarrow> json \<Rightarrow> leaf \<Rightarrow> bool" where
  "leaf_of p v lf = (\<exists>q. lf_path lf = p @ q \<and> value_at v q = Some (lf_item lf) \<and> as_object (lf_item lf) \<noteq> None)"

definition leaf_among :: "jpath \<Rightarrow> nat \<Rightarrow> json list \<Rightarrow> leaf \<Rightarrow> bool" where
  "leaf_among p i vs lf = (\<exists>j < length vs. leaf_of (p @ [KeyStep sub_expressions_key, IndexStep (i + j)]) (vs ! j) lf)"

lemma both_r_Ok [simp]: "both_r a b = Inr zs \<longleftrightarrow> (\<exists>xs ys. a = Inr xs \<and> b = Inr ys \<and> zs = xs @ ys)"
  by (auto simp: both_r_def bind_r_def split: sum.splits)

lemma leaf_of_parallel:
  assumes "leaf_of (p @ a # x) v l" "leaf_of (p @ b # y) w k" "a \<noteq> b"
  shows "lf_path l \<parallel> lf_path k"
  using assms by (auto simp: leaf_of_def intro: parallel_steps)

lemma leaves_in_sound:
  "leaves_in d p v = Ok ls \<Longrightarrow> list_all (leaf_of p v) ls \<and> apart ls"
  "leaves_items d p i vs = Ok ls \<Longrightarrow> list_all (leaf_among p i vs) ls \<and> apart ls"
proof (induction d p v and d p i vs arbitrary: ls and ls rule: leaves_in_leaves_items.induct)
  case (1 d p v)
  show ?case
  proof (cases v)
    case (JObject m)
    with 1(2) obtain xs ys where xs: "leaf_here p m = Ok xs"
      and ys: "(case jlookup m sub_expressions_key of
                 Some (JArray nodes) \<Rightarrow> leaves_items (Suc d) p 0 nodes | _ \<Rightarrow> Ok []) = Ok ys"
      and ls: "ls = xs @ ys" and depth: "\<not> 100 < d"
      by (auto simp: leaves_in.simps split: if_splits)
    from xs have here: "list_all (leaf_of p v) xs" "\<forall>l \<in> set xs. lf_path l = p @ [KeyStep rule_item_key]"
      "length xs \<le> 1"
      using JObject by (auto simp: leaf_here_def leaf_of_def split: option.splits json.splits)
    show ?thesis
    proof (cases "\<exists>nodes. jlookup m sub_expressions_key = Some (JArray nodes)")
      case True
      then obtain nodes where nodes: "jlookup m sub_expressions_key = Some (JArray nodes)" by blast
      with ys have "leaves_items (Suc d) p 0 nodes = Ok ys" by simp
      with 1(1) [OF depth JObject nodes refl] have items: "list_all (leaf_among p 0 nodes) ys" "apart ys" by blast+
      have "leaf_of p v l" if "leaf_among p 0 nodes l" for l
        using that JObject nodes by (auto simp: leaf_among_def leaf_of_def)
      moreover have "lf_path k \<parallel> lf_path l" if "k \<in> set xs" "l \<in> set ys" for k l
      proof -
        have "leaf_among p 0 nodes l" using items that by (simp add: list_all_iff)
        then obtain q where "lf_path l = p @ KeyStep sub_expressions_key # q"
          by (auto simp: leaf_among_def leaf_of_def)
        moreover have "lf_path k = p @ [KeyStep rule_item_key]" using here that by blast
        moreover have "KeyStep rule_item_key \<noteq> KeyStep sub_expressions_key"
          by (simp add: rule_item_key_def sub_expressions_key_def)
        ultimately show ?thesis using parallel_steps by metis
      qed
      moreover have "apart xs" using here(3) by (cases xs; cases "tl xs") auto
      ultimately show ?thesis using here items ls by (auto simp: list_all_iff sorted_wrt_append)
    next
      case False
      with ys have "ys = []" by (auto split: option.splits json.splits)
      moreover have "apart xs" using here(3) by (cases xs; cases "tl xs") auto
      ultimately show ?thesis using here ls by simp
    qed
  qed (use 1(2) in \<open>auto simp: leaves_in.simps split: if_splits\<close>)
next
  case (2 d p i)
  then show ?case by simp
next
  case (3 d p i node nodes)
  then obtain xs ys where xs: "leaves_in d (p @ [KeyStep sub_expressions_key, IndexStep i]) node = Ok xs"
    and ys: "leaves_items d p (Suc i) nodes = Ok ys" and ls: "ls = xs @ ys"
    by auto
  from 3(1) [OF xs] have A: "list_all (leaf_of (p @ [KeyStep sub_expressions_key, IndexStep i]) node) xs" "apart xs"
    by blast+
  from 3(2) [OF ys] have B: "list_all (leaf_among p (Suc i) nodes) ys" "apart ys" by blast+
  have "leaf_among p i (node # nodes) l" if "l \<in> set xs" for l
    using A that by (auto simp: leaf_among_def list_all_iff intro!: exI [of _ 0])
  moreover have "leaf_among p i (node # nodes) l" if "l \<in> set ys" for l
    using B that by (auto simp: leaf_among_def list_all_iff) (metis Suc_less_eq nth_Cons_Suc add_Suc_right)
  moreover have "lf_path k \<parallel> lf_path l" if "k \<in> set xs" "l \<in> set ys" for k l
  proof -
    have "leaf_of ((p @ [KeyStep sub_expressions_key]) @ IndexStep i # []) node k"
      using A that by (simp add: list_all_iff)
    moreover from B that obtain j where
      "leaf_of ((p @ [KeyStep sub_expressions_key]) @ IndexStep (Suc i + j) # []) (nodes ! j) l"
      by (auto simp: leaf_among_def list_all_iff)
    ultimately show ?thesis using leaf_of_parallel [of "p @ [KeyStep sub_expressions_key]" "IndexStep i"] by simp
  qed
  ultimately show ?case using A B ls by (auto simp: list_all_iff sorted_wrt_append)
qed

lemma leaves_of_rule_sound:
  "leaves_of_rule wr i rule = Ok ls \<Longrightarrow> list_all (leaf_of [IndexStep i] rule) ls \<and> apart ls"
proof -
  assume ok: "leaves_of_rule wr i rule = Ok ls"
  then obtain m where m: "rule = JObject m"
    by (cases rule) (auto simp: leaves_of_rule_def)
  show ?thesis
  proof (cases "jlookup m expression_tree_key")
    case None
    with ok m show ?thesis by (auto simp: leaves_of_rule_def split: if_splits)
  next
    case (Some tree)
    with ok m have "leaves_in 0 [IndexStep i, KeyStep expression_tree_key] tree = Ok ls"
      by (auto simp: leaves_of_rule_def split: if_splits)
    from leaves_in_sound(1) [OF this] m Some show ?thesis
      by (auto simp: list_all_iff leaf_of_def)
  qed
qed

lemma leaves_of_rules_sound:
  "leaves_of_rules wr i rules = Ok ls \<Longrightarrow>
     (\<forall>l \<in> set ls. \<exists>j < length rules. leaf_of [IndexStep (i + j)] (rules ! j) l) \<and> apart ls"
proof (induction wr i rules arbitrary: ls rule: leaves_of_rules.induct)
  case (2 wr i rule rules)
  then obtain xs ys where xs: "leaves_of_rule wr i rule = Ok xs"
    and ys: "leaves_of_rules wr (Suc i) rules = Ok ys" and ls: "ls = xs @ ys"
    by auto
  from leaves_of_rule_sound [OF xs] have A: "\<forall>l \<in> set xs. leaf_of [IndexStep i] rule l" "apart xs"
    by (auto simp: list_all_iff)
  from 2(1) [OF ys] have B: "\<forall>l \<in> set ys. \<exists>j < length rules. leaf_of [IndexStep (Suc i + j)] (rules ! j) l" "apart ys"
    by blast+
  have "\<exists>j < length (rule # rules). leaf_of [IndexStep (i + j)] ((rule # rules) ! j) l" if "l \<in> set xs" for l
    using A that by (intro exI [of _ 0]) simp
  moreover have "\<exists>j < length (rule # rules). leaf_of [IndexStep (i + j)] ((rule # rules) ! j) l" if "l \<in> set ys" for l
    using B that by (metis Suc_less_eq length_Cons nth_Cons_Suc add_Suc_right add_Suc)
  moreover have "lf_path k \<parallel> lf_path l" if kl: "k \<in> set xs" "l \<in> set ys" for k l
  proof -
    from A kl have "leaf_of ([] @ IndexStep i # []) rule k" by simp
    moreover from B kl obtain j where "leaf_of ([] @ IndexStep (Suc i + j) # []) (rules ! j) l" by auto
    ultimately show ?thesis using leaf_of_parallel [of "[]" "IndexStep i"] by simp
  qed
  ultimately show ?case using A B ls by (auto simp: sorted_wrt_append)
qed simp

lemma rule_leaves_sound:
  assumes "rule_leaves wr (Some rules) = Ok ls"
  shows "list_all (leaf_of [] rules) ls" "apart ls"
proof -
  have "list_all (leaf_of [] rules) ls \<and> apart ls"
  proof (cases rules)
    case (JArray rs)
    with assms have "leaves_of_rules wr 0 rs = Ok ls" by (simp add: rule_leaves_def)
    from leaves_of_rules_sound [OF this] JArray show ?thesis
      by (fastforce simp: list_all_iff leaf_of_def)
  qed (use assms in \<open>simp_all add: rule_leaves_def\<close>)
  then show "list_all (leaf_of [] rules) ls" "apart ls" by blast+
qed

section \<open>Binding the leaves\<close>

lemma bound_item_id:
  assumes "bound_item bd (JObject m) = Ok item"
  obtains m' where "item = JObject m'" "jlookup m' ''id'' = Some (JString (bd_id bd))"
  using assms by (auto simp: bound_item_def put_field_def Let_def jobj.lookup_update split: if_splits option.splits)

text \<open>What a leaf became: itself without an id, else its item with the bound id.\<close>

definition bound_leaf :: "writers \<Rightarrow> bindings \<Rightarrow> json \<Rightarrow> json \<Rightarrow> leaf \<Rightarrow> bool" where
  "bound_leaf wr bs rules rules' lf = (case leaf_id wr lf of
      None \<Rightarrow> value_at rules' (lf_path lf) = value_at rules (lf_path lf)
    | Some i \<Rightarrow> \<exists>bd m. bs i = Some bd \<and> value_at rules' (lf_path lf) = Some (JObject m)
        \<and> jlookup m ''id'' = Some (JString (bd_id bd)))"

lemma bind_leaves_deferred: "bind_leaves wr bs nm required lfs rules True = Ok (rules', d) \<Longrightarrow> d"
  by (induction wr bs nm required lfs rules True rule: bind_leaves.induct)
    (auto simp: bind_r_def split: option.splits if_splits sum.splits)

lemma bind_leaves_binds:
  assumes "bind_leaves wr bs nm required lfs rules False = Ok (rules', False)" "apart lfs"
    and "\<forall>l \<in> set lfs. \<exists>m. value_at rules (lf_path l) = Some (JObject m)"
  shows "(\<forall>l \<in> set lfs. bound_leaf wr bs rules rules' l)
    \<and> (\<forall>q. (\<forall>l \<in> set lfs. lf_path l \<parallel> q) \<longrightarrow> value_at rules' q = value_at rules q)"
  using assms
proof (induction lfs arbitrary: rules)
  case (Cons lf lfs)
  from Cons.prems(3) obtain m where m: "value_at rules (lf_path lf) = Some (JObject m)" by auto
  have apart: "\<forall>l \<in> set lfs. lf_path lf \<parallel> lf_path l" "apart lfs" using Cons.prems(2) by auto
  have apart': "\<forall>l \<in> set lfs. lf_path l \<parallel> lf_path lf" using apart(1) by (auto simp: parallel_commute)
  show ?case
  proof (cases "leaf_id wr lf")
    case None
    with Cons.prems have rest: "bind_leaves wr bs nm required lfs rules False = Ok (rules', False)" by simp
    from Cons.IH [OF rest apart(2)] Cons.prems(3)
    have IH: "\<forall>l \<in> set lfs. bound_leaf wr bs rules rules' l"
      "\<forall>q. (\<forall>l \<in> set lfs. lf_path l \<parallel> q) \<longrightarrow> value_at rules' q = value_at rules q" by auto
    with None apart' have "bound_leaf wr bs rules rules' lf" by (simp add: bound_leaf_def)
    with IH show ?thesis by simp
  next
    case (Some i)
    with Cons.prems(1) m obtain bd item where bd: "bs i = Some bd" and item: "bound_item bd (JObject m) = Ok item"
      and rest: "bind_leaves wr bs nm required lfs (edit_at rules (lf_path lf) (\<lambda>_. item)) False = Ok (rules', False)"
      by (auto simp: bind_r_def split: if_splits option.splits sum.splits dest: bind_leaves_deferred)
    let ?r = "edit_at rules (lf_path lf) (\<lambda>_. item)"
    have same: "value_at ?r (lf_path lf) = Some item" using m by (simp add: value_at_edit_same)
    have other: "value_at ?r q = value_at rules q" if "lf_path lf \<parallel> q" for q
      using that by (rule value_at_edit_parallel)
    have "\<forall>l \<in> set lfs. \<exists>m. value_at ?r (lf_path l) = Some (JObject m)"
      using Cons.prems(3) apart(1) other by simp
    from Cons.IH [OF rest apart(2) this] have IH: "\<forall>l \<in> set lfs. bound_leaf wr bs ?r rules' l"
      "\<forall>q. (\<forall>l \<in> set lfs. lf_path l \<parallel> q) \<longrightarrow> value_at rules' q = value_at ?r q" by blast+
    have "bound_leaf wr bs rules rules' l" if "l \<in> set lfs" for l
      using IH(1) that other [of "lf_path l"] apart(1) by (auto simp: bound_leaf_def split: option.splits)
    moreover have "bound_leaf wr bs rules rules' lf"
    proof -
      have "value_at rules' (lf_path lf) = Some item" using IH(2) apart' same by simp
      moreover from item obtain m' where "item = JObject m'" "jlookup m' ''id'' = Some (JString (bd_id bd))"
        by (rule bound_item_id)
      ultimately show ?thesis using Some bd by (simp add: bound_leaf_def)
    qed
    moreover have "value_at rules' q = value_at rules q" if "\<forall>l \<in> set (lf # lfs). lf_path l \<parallel> q" for q
      using that IH(2) other [of q] by simp
    ultimately show ?thesis by simp
  qed
qed simp

section \<open>References that are left\<close>

text \<open>Every id-like member with a value is the id of an object at a known path.\<close>

definition only_known :: "jpath list \<Rightarrow> jpath \<Rightarrow> json \<Rightarrow> bool" where
  "only_known known steps v =
     (\<forall>q m k w. value_at v q = Some (JObject m) \<and> jlookup m k = Some w \<and> \<not> empty_value w \<and> reference_key k
        \<longrightarrow> steps @ q \<in> set known \<and> k = ''id'')"

lemma only_known_scalar: "as_object v = None \<Longrightarrow> as_array v = None \<Longrightarrow> only_known known steps v"
  unfolding only_known_def
proof (intro allI impI)
  fix q m k w
  assume "as_object v = None" "as_array v = None"
    "value_at v q = Some (JObject m) \<and> jlookup m k = Some w \<and> \<not> empty_value w \<and> reference_key k"
  then show "steps @ q \<in> set known \<and> k = ''id''"
    by (cases q; cases "hd q"; cases v) auto
qed

lemma unknown_ids_sound:
  "unknown_ids known label path steps v = Ok () \<Longrightarrow> only_known known steps v"
  "unknown_ids_items known label path steps i vs = Ok () \<Longrightarrow>
     \<forall>j < length vs. only_known known (steps @ [IndexStep (i + j)]) (vs ! j)"
  "unknown_ids_fields known label path steps m = Ok () \<Longrightarrow>
     \<forall>(k, v) \<in> set m. (\<not> empty_value v \<and> reference_key k \<longrightarrow> steps \<in> set known \<and> k = ''id'')
        \<and> only_known known (steps @ [KeyStep k]) v"
proof (induction known label path steps v and known label path steps i vs and known label path steps m
    rule: unknown_ids_unknown_ids_items_unknown_ids_fields.induct)
  case (1 known label path steps items)
  then have items: "\<forall>j < length items. only_known known (steps @ [IndexStep j]) (items ! j)" by simp
  show ?case
    unfolding only_known_def
  proof (intro allI impI)
    fix q m k w
    assume a: "value_at (JArray items) q = Some (JObject m) \<and> jlookup m k = Some w \<and> \<not> empty_value w \<and> reference_key k"
    then obtain j q' where "q = IndexStep j # q'" "j < length items" "value_at (items ! j) q' = Some (JObject m)"
      by (cases q; cases "hd q") (auto split: if_splits)
    with a items show "steps @ q \<in> set known \<and> k = ''id''" by (fastforce simp: only_known_def)
  qed
next
  case (2 known label path steps m)
  then have fields: "\<forall>(k, v) \<in> set m. (\<not> empty_value v \<and> reference_key k \<longrightarrow> steps \<in> set known \<and> k = ''id'')
        \<and> only_known known (steps @ [KeyStep k]) v" by simp
  show ?case
    unfolding only_known_def
  proof (intro allI impI)
    fix q m' k w
    assume a: "value_at (JObject m) q = Some (JObject m') \<and> jlookup m' k = Some w \<and> \<not> empty_value w \<and> reference_key k"
    show "steps @ q \<in> set known \<and> k = ''id''"
    proof (cases q)
      case Nil
      with a fields jlookup_Some_mem [of m k w] show ?thesis by auto
    next
      case (Cons s q')
      with a obtain key u where "q = KeyStep key # q'" "jlookup m key = Some u" "value_at u q' = Some (JObject m')"
        by (cases s) (auto split: option.splits)
      with a fields jlookup_Some_mem [of m key u] show ?thesis by (fastforce simp: only_known_def)
    qed
  qed
next
  case (5 known label path steps i v items)
  then have "only_known known (steps @ [IndexStep i]) v"
    "\<forall>j < length items. only_known known (steps @ [IndexStep (Suc i + j)]) (items ! j)"
    by (auto simp: bind_r_def split: sum.splits)
  then show ?case by (auto simp: less_Suc_eq_0_disj)
qed (auto simp: bind_r_def only_known_scalar split: if_splits sum.splits)

end
