(* ===== verification/DlpProps.thy ===== *)
theory DlpProps
  imports DlpRemap
begin

text \<open>
  The properties of the DLP backup and of its restore plan: a file reads back as written, a profile
  that crosses tenants carries no id of its source, and a plan creates only what the destination
  does not have and leaves alone only what is equal there.
\<close>

section \<open>Profiles that cross tenants\<close>

lemma jlookup_copy_fields:
  "k \<notin> set keys \<Longrightarrow> jlookup (copy_fields f r keys m) k = jlookup m k"
  by (induction f r keys m rule: copy_fields.induct)
    (auto simp: jobj.lookup_update split: option.splits)

lemma value_at_remapped: "value_at (remapped_body row rules) (KeyStep detection_rules_key # p) = value_at rules p"
proof -
  let ?m = "copy_fields present_value (fp_source row) [''profile_type'', ''description'', ''is_granular_data_profile'']
     (jinsert [(''name'', JString (fp_name row))] detection_rules_key rules)"
  have "jlookup ?m detection_rules_key = Some rules"
    by (simp add: jlookup_copy_fields jobj.lookup_update detection_rules_key_def del: copy_fields.simps jinsert.simps)
  then show ?thesis unfolding remapped_body_def by (simp del: copy_fields.simps jinsert.simps)
qed

text \<open>
  The ids of a body: every id-like member with a value is the id of a rule leaf of the source, bound to
  the destination's record for the source id that stood there.
\<close>

definition carries_bound_ids :: "writers \<Rightarrow> bindings \<Rightarrow> json \<Rightarrow> json \<Rightarrow> bool" where
  "carries_bound_ids wr bs source body =
     (\<forall>p m k v. value_at body p = Some (JObject m) \<and> jlookup m k = Some v \<and> reference_key k \<and> \<not> empty_value v
        \<longrightarrow> (\<exists>ls l i bd. rule_leaves wr (present_value (jget source detection_rules_key)) = Ok ls \<and> l \<in> set ls
              \<and> p = leaf_known_path l \<and> k = ''id'' \<and> leaf_id wr l = Some i \<and> bs i = Some bd
              \<and> v = JString (bd_id bd)))"

lemma leaf_without_id:
  assumes "leaf_id wr l = None" "lf_item l = JObject m" "jlookup m ''id'' = Some v"
  shows "empty_value v"
  using assms by (cases v) (auto simp: leaf_id_def present_value_def jget_def empty_value_def split: if_splits)

text \<open>C19: The request of a profile that goes to another tenant carries no id of its source: every
  non-empty member of its body whose name is that of an identifier, at any depth, is the id of a
  detection rule, and it is the destination's id of the dictionary or pattern that rule named.\<close>

theorem cross_tenant_profile_has_no_foreign_ids:
  assumes "dlp_profile_request wr sc row bs True required = Ok (Some body)"
  shows "carries_bound_ids wr bs (fp_source row) body"
proof -
  define rules where "rules = (case present_value (jget (fp_source row) detection_rules_key) of
      Some v \<Rightarrow> v | None \<Rightarrow> JArray [])"
  obtain ls rules' where ls: "rule_leaves wr (Some rules) = Ok ls"
    and bound: "bind_leaves wr bs (fp_name row) required ls rules False = Ok (rules', False)"
    and body: "body = remapped_body row rules'"
    and known: "unknown_ids (map leaf_known_path ls) (''profile '' @ fp_name row) (''profile '' @ fp_name row) [] body = Ok ()"
    using assms by (auto simp: dlp_profile_request_def assert_known_references_def Let_def bind_r_def
        simp flip: rules_def split: if_splits sum.splits)
  have leaves: "rule_leaves wr (present_value (jget (fp_source row) detection_rules_key)) = Ok ls"
    using ls by (cases "present_value (jget (fp_source row) detection_rules_key)")
      (simp_all add: rules_def rule_leaves_def)
  have items: "\<exists>m. lf_item l = JObject m \<and> value_at rules (lf_path l) = Some (JObject m)" if "l \<in> set ls" for l
  proof -
    have "leaf_of [] rules l" using rule_leaves_sound(1) [OF ls] that by (simp add: list_all_iff)
    then show ?thesis by (cases "lf_item l") (auto simp: leaf_of_def)
  qed
  have only: "only_known (map leaf_known_path ls) [] body"
    by (rule unknown_ids_sound(1) [OF known])
  show ?thesis
    unfolding carries_bound_ids_def
  proof (intro allI impI)
    fix p m k v
    assume a: "value_at body p = Some (JObject m) \<and> jlookup m k = Some v \<and> reference_key k \<and> \<not> empty_value v"
    with only have "p \<in> set (map leaf_known_path ls)" "k = ''id''"
      unfolding only_known_def append_Nil by blast+
    then obtain l where l: "l \<in> set ls" "p = leaf_known_path l" by auto
    have at: "value_at rules' (lf_path l) = Some (JObject m)"
      using a l body by (simp add: leaf_known_path_def value_at_remapped del: value_at.simps)
    have bl: "bound_leaf wr bs rules rules' l"
      using bind_leaves_binds [OF bound rule_leaves_sound(2) [OF ls]] items l by blast
    show "\<exists>ls l i bd. rule_leaves wr (present_value (jget (fp_source row) detection_rules_key)) = Ok ls \<and> l \<in> set ls
              \<and> p = leaf_known_path l \<and> k = ''id'' \<and> leaf_id wr l = Some i \<and> bs i = Some bd
              \<and> v = JString (bd_id bd)"
    proof (cases "leaf_id wr l")
      case None
      with bl at items [OF l(1)] have "lf_item l = JObject m" by (auto simp: bound_leaf_def)
      with leaf_without_id [OF None] a \<open>k = ''id''\<close> show ?thesis by blast
    next
      case (Some i)
      with bl at a \<open>k = ''id''\<close> obtain bd where "bs i = Some bd" "v = JString (bd_id bd)"
        by (auto simp: bound_leaf_def)
      with Some leaves l \<open>k = ''id''\<close> show ?thesis by blast
    qed
  qed
qed

definition any_schema :: dlp_schemas where
  "any_schema = \<lparr>dictionary_schema = (\<lambda>_. Some ''words.txt''), pattern_schema = (\<lambda>_. True),
                 profile_schema = (\<lambda>_. True), sha256 = (\<lambda>s. s)\<rparr>"

definition plain_writers :: writers where
  "plain_writers = \<lparr>w_text = (\<lambda>_. []), w_number = (\<lambda>_. []), w_fold = (\<lambda>s. s), w_upper = (\<lambda>_. [])\<rparr>"

definition rule_for :: "str \<Rightarrow> json" where
  "rule_for i = JObject [
     (''expression_tree'', JObject [(''rule_item'', JObject [(''detection_technique'', JString ''regex''),
        (''id'', JString i)])]),
     (''rule_type'', JString ''expression_tree'')]"

definition sample_profile :: data_profile_plan where
  "sample_profile = \<lparr>fp_name = ''p'', fp_renamed_from = None, fp_source_id = ''f1'',
     fp_source = JObject [(''detection_rules'', JArray [rule_for ''a1''])],
     fp_action = CreateData, fp_existing = None, fp_reason = None\<rparr>"

definition sample_bindings :: bindings where
  "sample_bindings = [''a1'' \<mapsto> \<lparr>bd_dictionary = False, bd_technique = Some ''regex'', bd_id = ''b7'',
     bd_name = ''pattern'', bd_version = None\<rparr>]"

definition sample_leaf :: leaf where
  "sample_leaf = \<lparr>lf_item = JObject [(''detection_technique'', JString ''regex''), (''id'', JString ''a1'')],
     lf_technique = ''regex'', lf_path = [IndexStep 0, KeyStep ''expression_tree'', KeyStep ''rule_item'']\<rparr>"

lemma sample_leaves: "rule_leaves plain_writers (Some (JArray [rule_for ''a1''])) = Ok [sample_leaf]"
  by (simp add: rule_leaves_def rule_for_def leaves_of_rule_def leaves_in.simps leaf_here_def member_text_def
      rule_item_key_def sub_expressions_key_def expression_tree_key_def sample_leaf_def)

lemma sample_bound:
  "bind_leaves plain_writers sample_bindings ''p'' True [sample_leaf] (JArray [rule_for ''a1'']) False
     = Ok (JArray [rule_for ''b7''], False)"
  by (simp add: rule_for_def leaf_id_def present_value_def jget_def sample_bindings_def assert_leaf_binding_def
      demand_def bound_item_def put_field_def Let_def code_def sample_leaf_def)

lemma sample_known:
  "assert_known_references (remapped_body sample_profile (JArray [rule_for ''b7''])) [leaf_known_path sample_leaf] t = Ok ()"
  by (simp add: assert_known_references_def remapped_body_def present_value_def jget_def detection_rules_key_def
      reference_key_def strip_suffix_def ends_with_def sample_profile_def rule_for_def code_def
      leaf_known_path_def sample_leaf_def)

theorem cross_tenant_profile_has_no_foreign_ids_witness:
  "carries_bound_ids plain_writers sample_bindings (fp_source sample_profile)
     (remapped_body sample_profile (JArray [rule_for ''b7'']))"
proof (rule cross_tenant_profile_has_no_foreign_ids)
  have rules: "jget (fp_source sample_profile) detection_rules_key = Some (JArray [rule_for ''a1''])"
    by (simp add: sample_profile_def jget_def detection_rules_key_def)
  have "create_checks sample_profile (Some (JArray [rule_for ''a1''])) = Ok ()"
    by (simp add: create_checks_def sample_profile_def utf16_count_def utf16_len_def json_str_def jget_def code_def)
  then show "dlp_profile_request plain_writers any_schema sample_profile sample_bindings True True
      = Ok (Some (remapped_body sample_profile (JArray [rule_for ''b7''])))"
    using sample_leaves sample_bound sample_known
    by (simp add: dlp_profile_request_def rules present_value_def Let_def any_schema_def
        sample_profile_def [THEN arg_cong [of _ _ fp_name]] del: bind_leaves.simps)
qed

section \<open>Plans\<close>

definition unused_name :: "json list \<Rightarrow> (json \<Rightarrow> bool) \<Rightarrow> str \<Rightarrow> bool" where
  "unused_name records retired nm = (\<forall>r \<in> set records. json_str r ''name'' = Some nm \<longrightarrow> retired r)"

definition existing_record :: "json list \<Rightarrow> json option \<Rightarrow> bool" where
  "existing_record records existing = (\<exists>r \<in> set records. existing = Some r \<and> dlp_id r \<noteq> None)"

text \<open>A created resource has a new name; any other row stands for a record of the destination.\<close>

definition dictionary_row_fits :: "destination \<Rightarrow> dictionary_plan \<Rightarrow> bool" where
  "dictionary_row_fits de row = (case dp_action row of
      CreateDependency \<Rightarrow> dp_metadata row \<noteq> None \<and> unused_name (de_dictionaries de) (\<lambda>_. False) (dp_name row)
    | act \<Rightarrow> existing_record (de_dictionaries de) (dp_existing row)
        \<and> (act = ReuseDependency \<longrightarrow> (\<exists>r metadata. dp_existing row = Some r \<and> dp_metadata row = Some metadata
             \<and> echo_matches (dictionary_echo metadata (Some (with_keywords de r)) (dp_keywords row)))))"

definition pattern_row_fits :: "destination \<Rightarrow> pattern_plan \<Rightarrow> bool" where
  "pattern_row_fits de row = (case pt_action row of
      CreateDependency \<Rightarrow> pt_body row \<noteq> None \<and> unused_name (de_patterns de) retired_pattern (pt_name row)
    | act \<Rightarrow> existing_record (de_patterns de) (pt_existing row)
        \<and> (act = ReuseDependency \<longrightarrow> (\<exists>r body. pt_existing row = Some r \<and> pt_body row = Some body
             \<and> echo_matches (compare_echo body (Some r)))))"

definition planned_leaves :: "writers \<Rightarrow> dlp_plan \<Rightarrow> data_profile_plan \<Rightarrow> bool" where
  "planned_leaves wr plan row =
     (\<exists>ls. rule_leaves wr (jget (fp_source row) detection_rules_key) = Ok ls
        \<and> (\<forall>l \<in> set ls. \<forall>i. leaf_id wr l = Some i \<longrightarrow> i \<in> planned_ids plan))"

definition profile_row_fits :: "writers \<Rightarrow> dlp_schemas \<Rightarrow> destination \<Rightarrow> dlp_plan \<Rightarrow> data_profile_plan \<Rightarrow> bool" where
  "profile_row_fits wr sc de plan row = (case fp_action row of
      SkipData \<Rightarrow> True
    | CreateData \<Rightarrow> unused_name (de_profiles de) retired_data_profile (fp_name row) \<and> planned_leaves wr plan row
    | VerifyData \<Rightarrow> existing_record (de_profiles de) (fp_existing row) \<and> planned_leaves wr plan row
        \<and> (\<exists>body. dlp_profile_request wr sc row (plan_bindings plan) (crosses_tenants plan) True = Ok (Some body)
             \<and> echo_matches (compare_echo body (fp_existing row))))"

definition plan_fits :: "writers \<Rightarrow> dlp_schemas \<Rightarrow> destination \<Rightarrow> dlp_plan \<Rightarrow> bool" where
  "plan_fits wr sc de plan =
     (list_all (dictionary_row_fits de) (pl_dictionaries plan)
      \<and> list_all (pattern_row_fits de) (pl_patterns plan)
      \<and> list_all (profile_row_fits wr sc de plan) (pl_profiles plan))"

lemma match_Some: "match_by_name records nm retired label = Ok (Some r) \<Longrightarrow> r \<in> set records"
proof -
  let ?ms = "filter (\<lambda>r. json_str r ''name'' = Some nm \<and> \<not> retired r) records"
  assume "match_by_name records nm retired label = Ok (Some r)"
  then have "?ms = [r]" by (auto simp: match_by_name_def split: list.splits)
  then have "r \<in> set ?ms" by (metis list.set_intros(1))
  then show ?thesis by simp
qed

lemma match_None: "match_by_name records nm retired label = Ok None \<Longrightarrow> unused_name records retired nm"
  by (auto simp: match_by_name_def unused_name_def filter_empty_conv split: list.splits)

lemmas matched = match_Some match_None

lemma kept_if_Some [simp]: "kept_if P found = Some r \<longleftrightarrow> found = Some r \<and> P r"
  by (auto simp: kept_if_def split: option.splits)

lemma safely_Ok [simp]: "safely r = Inr x \<longleftrightarrow> r = Inr x"
  by (cases r) (simp_all add: safely_def)

lemma demand_Ok [simp]: "demand e b = Inr x \<longleftrightarrow> b"
  by (simp add: demand_def)

lemma plan_dictionary_fits:
  assumes "plan_dictionary sc po de source = Ok (Row row)"
  shows "dictionary_row_fits de row"
proof -
  obtain i nm where ids: "dlp_id source = Some i" "dlp_name source = Some nm"
    using assms by (auto simp: plan_dictionary_def split: option.splits)
  show ?thesis
  proof (cases "predefined source")
    case True
    with assms ids have "resolve_dictionary po de i nm = Ok (Row row)" by (simp add: plan_dictionary_def)
    then obtain r where "destination_match de Dictionaries nm = Ok (Some r)" "dlp_id r \<noteq> None"
      "dp_action row = ResolveDependency" "dp_existing row = Some r"
      by (auto simp: resolve_dictionary_def bind_r_Ok_iff unresolved_row_def split: option.splits if_splits)
    then show ?thesis by (auto simp: dictionary_row_fits_def existing_record_def dest: matched)
  next
    case False
    with assms ids have "custom_dictionary sc po de source i nm = Ok (Row row)" by (simp add: plan_dictionary_def)
    then obtain metadata kws found where "destination_match de Dictionaries (po_prefix po @ nm) = Ok found"
      and "(case found of
          None \<Rightarrow> bind_r (dictionary_file metadata kws) (\<lambda>_.
            Ok (Row \<lparr>dp_source_id = i, dp_name = po_prefix po @ nm, dp_action = CreateDependency,
              dp_metadata = Some metadata, dp_keywords = kws, dp_existing = None\<rparr>))
        | Some r \<Rightarrow> reuse_dictionary de i (po_prefix po @ nm) metadata kws r) = Ok (Row row)"
      by (cases "keyword_set (jget source ''keywords'')")
        (auto simp: custom_dictionary_def bind_r_Ok_iff Let_def split: if_splits)
    then show ?thesis
      by (cases found) (auto simp: dictionary_row_fits_def reuse_dictionary_def existing_record_def bind_r_Ok_iff
          dest: matched split: if_splits)
  qed
qed

lemma catalog_pattern_mem:
  assumes "catalog_pattern de source i nm = Ok (Some r)"
  shows "r \<in> set (de_patterns de)"
  using assms by (auto simp: catalog_pattern_def find_Some_iff dest: matched split: option.splits)

lemma resolve_pattern_fits:
  assumes "resolve_pattern wr po de source i nm = Ok (Row row)"
  shows "pattern_row_fits de row"
proof -
  from assms obtain found where found: "catalog_pattern de source i nm = Ok found"
    by (auto simp: resolve_pattern_def bind_r_Ok_iff)
  let ?kept = "kept_if (\<lambda>r. dlp_id r \<noteq> None \<and> dlp_name r \<noteq> None \<and> predefined r) found"
  show ?thesis
  proof (cases ?kept)
    case None
    with assms found show ?thesis by (simp add: resolve_pattern_def Let_def unresolved_row_def split: if_splits)
  next
    case (Some r)
    with assms found have "pt_action row = ResolveDependency" "pt_existing row = Some r"
      by (auto simp: resolve_pattern_def kept_if_def Let_def split: if_splits)
    with Some found show ?thesis
      by (auto simp: pattern_row_fits_def existing_record_def dest: catalog_pattern_mem)
  qed
qed

lemma map_pattern_fits:
  assumes "map_pattern de source i target = Ok (Row row)"
  shows "pattern_row_fits de row"
proof -
  obtain r where "destination_match de Patterns target = Ok (Some r)" "dlp_id r \<noteq> None"
    "pt_action row = MapDependency" "pt_existing row = Some r"
    using assms by (auto simp: map_pattern_def bind_r_Ok_iff split: option.splits if_splits)
  then show ?thesis by (auto simp: pattern_row_fits_def existing_record_def dest: matched)
qed

lemma custom_pattern_fits:
  assumes "custom_pattern sc po cross de source i nm = Ok (Row row)"
  shows "pattern_row_fits de row"
proof -
  obtain body found where "destination_match de Patterns (po_prefix po @ nm) = Ok found"
    and "(case found of
        None \<Rightarrow> Ok (Row \<lparr>pt_source_id = i, pt_name = po_prefix po @ nm, pt_action = CreateDependency,
                  pt_body = Some body, pt_existing = None\<rparr>)
      | Some r \<Rightarrow> reuse_pattern i (po_prefix po @ nm) body r) = Ok (Row row)"
    using assms by (auto simp: custom_pattern_def bind_r_Ok_iff Let_def tenant_bound_def content_not_exported_def
        unresolved_row_def split: if_splits)
  then show ?thesis
    by (cases found) (auto simp: pattern_row_fits_def reuse_pattern_def existing_record_def
        dest: matched split: if_splits)
qed

lemma plan_pattern_fits: "plan_pattern wr sc po cross de source = Ok (Row row) \<Longrightarrow> pattern_row_fits de row"
  by (auto simp: plan_pattern_def split: option.splits if_splits
      dest: resolve_pattern_fits map_pattern_fits custom_pattern_fits)

lemma bind_leaves_required: "bind_leaves wr bs nm True lfs rules d = Ok (rules', d') \<Longrightarrow> d' = d"
  by (induction wr bs nm True lfs rules d rule: bind_leaves.induct)
    (auto simp: bind_r_Ok_iff split: option.splits if_splits)

lemma required_body: "dlp_profile_request wr sc row bs cross True = Ok body \<Longrightarrow> body \<noteq> None"
  by (auto simp: dlp_profile_request_def Let_def bind_r_Ok_iff dest: bind_leaves_required split: if_splits)

lemma profile_name_unused:
  assumes "plan_data_profile sc po b de source = Ok row" "fp_action row = CreateData"
  shows "unused_name (de_profiles de) retired_data_profile (fp_name row)"
proof -
  obtain nm found where m: "destination_match de DataProfiles (po_prefix po @ nm) = Ok found"
    and r: "(let row' = \<lparr>fp_name = po_prefix po @ nm, fp_renamed_from = None,
          fp_source_id = (case dlp_id source of Some i \<Rightarrow> i | None \<Rightarrow> []), fp_source = source,
          fp_action = found_action found (po_conflict po), fp_existing = found, fp_reason = None\<rparr>
        in if found = None \<and> po_conflict po = ConflictReconcile then reconciled_row sc b de row' else Ok row') = Ok row"
    using assms(1) by (cases "dlp_name source") (auto simp: plan_data_profile_def bind_r_Ok_iff Let_def
        simp del: destination_match.simps split: if_splits)
  have "found = None"
    using r assms(2) by (auto simp: found_action_def Let_def split: option.splits if_splits)
  moreover from this r assms(2) have "fp_name row = po_prefix po @ nm"
    by (auto simp: Let_def reconciled_row_def bind_r_Ok_iff split: option.splits if_splits)
  ultimately show ?thesis using m by (auto dest: matched)
qed

lemma reconciled_row_cases:
  assumes "reconciled_row sc b de old = Ok row"
  shows "row = old \<or> fp_action row = VerifyData \<and> existing_record (de_profiles de) (fp_existing row)"
proof -
  obtain nm found where m: "destination_match de DataProfiles nm = Ok found"
    and r: "(case found of None \<Rightarrow> Ok old | Some r \<Rightarrow>
        if dlp_id r = None then Err (no_profile_identity nm)
        else Ok (old\<lparr>fp_renamed_from := Some (fp_name old), fp_name := nm,
                      fp_action := VerifyData, fp_existing := Some r\<rparr>)) = Ok row"
    using assms by (auto simp: reconciled_row_def Let_def bind_r_Ok_iff simp del: destination_match.simps)
  show ?thesis
  proof (cases found)
    case None
    with r show ?thesis by simp
  next
    case (Some x)
    with m have "x \<in> set (de_profiles de)" by (auto dest: matched)
    with Some r show ?thesis by (auto simp: existing_record_def split: if_splits)
  qed
qed

lemma profile_record_exists:
  assumes "plan_data_profile sc po b de source = Ok row" "fp_action row = VerifyData"
  shows "existing_record (de_profiles de) (fp_existing row)"
proof -
  obtain nm found where m: "destination_match de DataProfiles (po_prefix po @ nm) = Ok found"
    and i: "\<forall>r. found = Some r \<longrightarrow> dlp_id r \<noteq> None"
    and r: "(let row' = \<lparr>fp_name = po_prefix po @ nm, fp_renamed_from = None,
          fp_source_id = (case dlp_id source of Some i \<Rightarrow> i | None \<Rightarrow> []), fp_source = source,
          fp_action = found_action found (po_conflict po), fp_existing = found, fp_reason = None\<rparr>
        in if found = None \<and> po_conflict po = ConflictReconcile then reconciled_row sc b de row' else Ok row') = Ok row"
    using assms(1) by (cases "dlp_name source") (auto simp: plan_data_profile_def bind_r_Ok_iff Let_def
        simp del: destination_match.simps split: if_splits option.splits)
  show ?thesis
  proof (cases found)
    case None
    with r assms(2) show ?thesis
      by (auto simp: Let_def found_action_def dest: reconciled_row_cases split: if_splits)
  next
    case (Some x)
    with r m i show ?thesis by (auto simp: existing_record_def dest: matched)
  qed
qed

lemma source_id_is_leaf_id: "source_id_of lf = Ok i \<Longrightarrow> leaf_id wr lf = i"
  by (auto simp: source_id_of_def leaf_id_def split: option.splits json.splits)

lemma missing_ids_Nil:
  assumes "missing_ids sources planned ls missing = Ok []"
  shows "missing = [] \<and> (\<forall>l \<in> set ls. \<forall>i. leaf_id wr l = Some i \<longrightarrow> i \<in> planned)"
  using assms
proof (induction sources planned ls missing rule: missing_ids.induct)
  case (2 sources planned lf lfs missing)
  from 2(3) obtain o' where o': "source_id_of lf = Ok o'" by (auto simp: bind_r_Ok_iff)
  then have l: "leaf_id wr lf = o'" by (rule source_id_is_leaf_id)
  show ?case
  proof (cases o')
    case None
    with 2(3) o' have "missing_ids sources planned lfs missing = Ok []" by simp
    from 2(1) [OF this] l None show ?thesis by simp
  next
    case (Some t)
    with 2(3) o' obtain u where u: "check_source_leaf sources lf t = Ok u"
      and rest: "missing_ids sources planned lfs (if t \<notin> planned \<and> t \<notin> set missing then missing @ [t] else missing) = Ok []"
      by (auto simp: bind_r_Ok_iff)
    from 2(2) [OF rest] l Some show ?thesis by (auto split: if_splits)
  qed
qed simp

lemma checked_profile_fits:
  assumes "check_data_profile wr sc po sources lost plan row = Ok row'"
    and "fp_action row = CreateData \<Longrightarrow> unused_name (de_profiles de) retired_data_profile (fp_name row)"
    and "fp_action row = VerifyData \<Longrightarrow> existing_record (de_profiles de) (fp_existing row)"
  shows "profile_row_fits wr sc de plan row'"
proof (cases "fp_action row = SkipData \<or> fp_action row' = SkipData")
  case True
  with assms(1) show ?thesis
    by (auto simp: check_data_profile_def profile_row_fits_def)
next
  case False
  with assms(1) obtain ls body where ls: "rule_leaves wr (jget (fp_source row) detection_rules_key) = Ok ls"
    and missing: "missing_ids sources (planned_ids plan) ls [] = Ok []"
    and body: "dlp_profile_request wr sc row (plan_bindings plan) (crosses_tenants plan)
        (fp_action row = VerifyData) = Ok body"
    and echo: "fp_action row = VerifyData \<Longrightarrow>
        (case body of Some v \<Rightarrow> echo_matches (compare_echo v (fp_existing row)) | None \<Rightarrow> True)"
    and same: "row' = row"
    by (auto simp: check_data_profile_def bind_r_Ok_iff split: if_splits option.splits)
  have leaves: "planned_leaves wr plan row"
    using ls missing_ids_Nil [OF missing] by (auto simp: planned_leaves_def)
  show ?thesis
  proof (cases "fp_action row")
    case CreateData
    with leaves assms(2) same show ?thesis by (simp add: profile_row_fits_def)
  next
    case VerifyData
    with body have "\<exists>v. body = Some v" by (auto dest: required_body)
    with VerifyData leaves assms(3) body echo same show ?thesis by (auto simp: profile_row_fits_def)
  next
    case SkipData
    with False show ?thesis by simp
  qed
qed

lemma planned_rows_mem: "r \<in> set (planned_rows ps) \<longleftrightarrow> Row r \<in> set ps"
  by (induction ps rule: planned_rows.induct) auto

lemma collect_r_mem:
  assumes "collect_r f xs = Ok ys" "y \<in> set ys"
  obtains x where "x \<in> set xs" "f x = Ok y"
  using collect_r_Ok [OF assms(1)] assms(2) by (metis in_set_conv_nth)

text \<open>C20: A DLP restore plan creates only what the destination does not have and leaves alone only what
  is equal there: a dictionary, pattern or profile it creates has a name no active record of the
  destination has, every other row stands for one record of the destination with an id, a reused
  record and a verified profile echo the request of the backup, and every reference of a profile
  that is not skipped is a row of the plan.\<close>

theorem dlp_plan_fits_the_destination:
  assumes "dlp_plan_of wr sc b tsg de po = Ok plan"
  shows "plan_fits wr sc de plan"
proof -
  define cross where "cross = (db_tsg_id b \<noteq> tsg)"
  define records :: "entry list \<Rightarrow> json list" where "records = map (\<lambda>e. value_of (en_record e))"
  define planning where "planning = (\<lambda>ds ps rows. \<lparr>pl_source_tsg = db_tsg_id b, pl_destination_tsg = tsg,
      pl_dictionaries = planned_rows ds, pl_patterns = planned_rows ps, pl_profiles = rows,
      pl_unresolved = planned_unresolved ds @ planned_unresolved ps,
      pl_reconcile = (po_conflict po = ConflictReconcile)\<rparr>)"
  obtain sources ds ps rows where ds: "collect_r (plan_dictionary sc po de) (records (db_dictionaries b)) = Ok ds"
    and ps: "collect_r (plan_pattern wr sc po cross de) (records (db_patterns b)) = Ok ps"
    and rows: "collect_r (plan_data_profile sc po b de) (records (db_profiles b)) = Ok rows"
    and checked: "collect_r (check_data_profile wr sc po sources (failed_dependencies (db_failed b))
        (planning ds ps rows)) rows = Ok (pl_profiles plan)"
    and plan: "plan = (planning ds ps rows)\<lparr>pl_profiles := pl_profiles plan\<rparr>"
    using assms by (auto simp: dlp_plan_of_def Let_def bind_r_Ok_iff cross_def records_def planning_def)
  define plan0 where "plan0 = planning ds ps rows"
  have plan0: "pl_dictionaries plan0 = planned_rows ds" "pl_patterns plan0 = planned_rows ps"
    by (simp_all add: plan0_def planning_def)
  note checked = checked [folded plan0_def] and plan = plan [folded plan0_def]
  have "list_all (dictionary_row_fits de) (pl_dictionaries plan)"
    unfolding list_all_iff
  proof
    fix r assume "r \<in> set (pl_dictionaries plan)"
    then have "Row r \<in> set ds" by (subst (asm) plan) (simp add: plan0 planned_rows_mem)
    with ds obtain x where "plan_dictionary sc po de x = Ok (Row r)" by (rule collect_r_mem)
    then show "dictionary_row_fits de r" by (rule plan_dictionary_fits)
  qed
  moreover have "list_all (pattern_row_fits de) (pl_patterns plan)"
    unfolding list_all_iff
  proof
    fix r assume "r \<in> set (pl_patterns plan)"
    then have "Row r \<in> set ps" by (subst (asm) plan) (simp add: plan0 planned_rows_mem)
    with ps obtain x where "plan_pattern wr sc po cross de x = Ok (Row r)" by (rule collect_r_mem)
    then show "pattern_row_fits de r" by (rule plan_pattern_fits)
  qed
  moreover have "profile_row_fits wr sc de plan r" if "r \<in> set (pl_profiles plan)" for r
  proof -
    from checked that obtain row where row: "row \<in> set rows"
      "check_data_profile wr sc po sources (failed_dependencies (db_failed b)) plan0 row = Ok r"
      by (rule collect_r_mem)
    from rows row(1) obtain x where x: "plan_data_profile sc po b de x = Ok row" by (rule collect_r_mem)
    have "profile_row_fits wr sc de plan0 r"
      using row(2) profile_name_unused [OF x] profile_record_exists [OF x] by (rule checked_profile_fits)
    then show ?thesis
      by (subst plan) (simp add: profile_row_fits_def planned_leaves_def planned_ids_def plan_bindings_def
          crosses_tenants_def cong: dlp_profile_action.case_cong)
  qed
  ultimately show ?thesis by (simp add: plan_fits_def list_all_iff)
qed

definition sample_dictionary :: json where
  "sample_dictionary = JObject [(''id'', JString ''d1''), (''keywords'', JArray [JString ''k'']),
     (''name'', JString ''w'')]"

definition sample_backup :: dlp_backup where
  "sample_backup = \<lparr>db_exported_at = [], db_tenant = [], db_tsg_id = ''1'', db_dlp_tenant_id = None,
     db_resources = [Dictionaries],
     db_dictionaries = [\<lparr>en_id = ''d1'', en_name = ''w'', en_predefined = False, en_record = sample_dictionary\<rparr>],
     db_patterns = [], db_profiles = [], db_skipped = [], db_failed = []\<rparr>"

definition empty_destination :: destination where
  "empty_destination = \<lparr>de_dictionaries = [], de_patterns = [], de_profiles = [], de_keywords = (\<lambda>_. None)\<rparr>"

definition sample_options :: plan_options where
  "sample_options = \<lparr>po_prefix = [], po_conflict = ConflictError, po_pattern_map = [], po_skip_unresolved = False\<rparr>"

definition sample_plan :: dlp_plan where
  "sample_plan = \<lparr>pl_source_tsg = ''1'', pl_destination_tsg = ''2'',
     pl_dictionaries = [\<lparr>dp_source_id = ''d1'', dp_name = ''w'', dp_action = CreateDependency,
       dp_metadata = Some (dictionary_metadata sample_dictionary ''w''), dp_keywords = [''k''], dp_existing = None\<rparr>],
     pl_patterns = [], pl_profiles = [], pl_unresolved = [], pl_reconcile = False\<rparr>"

lemma sample_dictionary_plan:
  "plan_dictionary any_schema sample_options empty_destination sample_dictionary = Ok (Row (hd (pl_dictionaries sample_plan)))"
proof -
  have "dlp_id sample_dictionary = Some ''d1''" "dlp_name sample_dictionary = Some ''w''"
    "\<not> predefined sample_dictionary"
    by (simp_all add: dlp_id_def dlp_name_def non_empty_text_def json_str_def jget_def sample_dictionary_def predefined_def)
  moreover have "valid_dlp_name ''w''"
    by (simp add: valid_dlp_name_def rust_trim_def is_rust_whitespace_def is_js_whitespace_def bytes_def code_def)
  moreover have "dictionary_request any_schema sample_dictionary ''w'' = Ok (dictionary_metadata sample_dictionary ''w'')"
    by (simp add: dictionary_request_def any_schema_def file_name_ok_def is_control_def code_def)
  moreover have "keyword_set (jget sample_dictionary ''keywords'') = Some [''k'']"
    by (simp add: keyword_set_def sort_by_def jget_def sample_dictionary_def)
  moreover have "text_or_empty (dictionary_metadata sample_dictionary ''w'') ''original_file_name'' = ''keywords.txt''"
    by (simp add: dictionary_metadata_def sample_dictionary_def jget_def text_or_empty_def json_str_def
        metadata_file_def present_value_def code_def Let_def)
  then have "dictionary_file (dictionary_metadata sample_dictionary ''w'') [''k''] = Ok (''k'' @ line_end)"
    by (simp add: dictionary_file_def Let_def ends_with_def ascii_lower_def lower_byte_def code_def)
  ultimately show ?thesis
    by (simp add: plan_dictionary_def custom_dictionary_def sample_options_def empty_destination_def
        match_by_name_def safely_def sample_plan_def Let_def)
qed

theorem dlp_plan_fits_the_destination_witness:
  "plan_fits plain_writers any_schema empty_destination sample_plan"
proof (rule dlp_plan_fits_the_destination)
  have "value_of sample_dictionary = sample_dictionary"
    by (simp add: sample_dictionary_def code_def)
  with sample_dictionary_plan
  show "dlp_plan_of plain_writers any_schema sample_backup ''2'' empty_destination sample_options = Ok sample_plan"
    by (simp add: dlp_plan_of_def sample_backup_def tenant_identity_def check_tenants_def empty_destination_def
        demand_def sample_plan_def sample_options_def Let_def)
qed

end
