(* ===== verification/DlpRestore.thy ===== *)
theory DlpRestore
  imports DlpPlanner RestoreRun
begin

text \<open>
  The execution of \<open>runtime dlp restore\<close> and the inventories of \<open>runtime dlp backup\<close>
  (\<open>src/commands/dlp_backup.rs\<close>). The DLP service is a parameter: every request is a function of an
  arbitrary state of the outside world. \<open>dx_sent\<close> records every create that was dispatched with its
  answer and \<open>dx_read\<close> every record read back, for the properties only.
\<close>

datatype dlp_create = NewDictionary json str | NewPattern json | NewDataProfile json

record 'w dlp_service =
  ds_page :: "resource \<Rightarrow> nat \<Rightarrow> 'w \<Rightarrow> (error_facts, json) result \<times> 'w"
  ds_create :: "dlp_create \<Rightarrow> 'w \<Rightarrow> (error_facts, json) result \<times> 'w"
  ds_get :: "resource \<Rightarrow> str \<Rightarrow> 'w \<Rightarrow> (error_facts, json) result \<times> 'w"
  ds_upload_ok :: "json \<Rightarrow> str \<Rightarrow> bool"
  ds_signal :: "'w \<Rightarrow> bool"

section \<open>Inventories\<close>

datatype sweep_error = SweepSdk error_facts | SweepRule str

text \<open>The pages from \<open>page_no\<close> on, at most the given number of them.\<close>

fun sweep_pages :: "(nat \<Rightarrow> 'w \<Rightarrow> (error_facts, json) result \<times> 'w) \<Rightarrow> nat \<Rightarrow> nat \<Rightarrow> dlp_sweep \<Rightarrow> 'w
    \<Rightarrow> (sweep_error, json list) result \<times> 'w" where
  "sweep_pages fetch 0 page_no sw w = (Err (SweepRule (sweep_incomplete sw)), w)"
| "sweep_pages fetch (Suc n) page_no sw w =
     (case fetch page_no w of
        (Inl e, w') \<Rightarrow> (Err (SweepSdk e), w')
      | (Inr answer, w') \<Rightarrow>
          (case sweep_accept sw page_no answer of
             Inl m \<Rightarrow> (Err (SweepRule m), w')
           | Inr (SweepDone, sw') \<Rightarrow> (Ok (sw_items sw'), w')
           | Inr (MorePages, sw') \<Rightarrow> sweep_pages fetch n (Suc page_no) sw' w'))"

definition swept :: "'w dlp_service \<Rightarrow> nat \<Rightarrow> resource \<Rightarrow> 'w \<Rightarrow> (sweep_error, json list) result \<times> 'w" where
  "swept sv max_pages res = sweep_pages (ds_page sv res) max_pages 0 (sweep_new res)"

definition dlp_inventories :: "'w dlp_service \<Rightarrow> nat \<Rightarrow> 'w \<Rightarrow> (sweep_error, dlp_inventory) result \<times> 'w" where
  "dlp_inventories sv max_pages =
     and_then (swept sv max_pages Dictionaries) (\<lambda>ds.
     and_then (swept sv max_pages Patterns) (\<lambda>ps.
     and_then (swept sv max_pages DataProfiles) (\<lambda>fs.
       ret \<lparr>di_dictionaries = ds, di_patterns = ps, di_profiles = fs\<rparr>)))"

definition destination_of :: "dlp_inventory \<Rightarrow> destination" where
  "destination_of stock = \<lparr>de_dictionaries = map value_of (di_dictionaries stock),
     de_patterns = map value_of (di_patterns stock), de_profiles = map value_of (di_profiles stock),
     de_keywords = (\<lambda>_. None)\<rparr>"

section \<open>The outcome\<close>

record dlp_row =
  dw_name :: str
  dw_action :: str
  dw_id :: "str option"
  dw_reason :: "str option"
  dw_renamed_from :: "str option"

record dlp_outcome =
  do_complete :: bool
  do_dictionaries :: "dlp_row list"
  do_patterns :: "dlp_row list"
  do_profiles :: "dlp_row list"
  do_server_added :: "(str \<times> str list) list"
  do_unverified :: "(resource \<times> str \<times> str) list"
  do_unknown :: "(resource \<times> str) option"
  do_not_attempted :: "(resource \<times> str) list"
  do_error :: "str option"
  do_created :: nat

definition no_dlp_outcome :: dlp_outcome where
  "no_dlp_outcome = \<lparr>do_complete = False, do_dictionaries = [], do_patterns = [], do_profiles = [],
     do_server_added = [], do_unverified = [], do_unknown = None, do_not_attempted = [], do_error = None,
     do_created = 0\<rparr>"

definition dlp_context :: "dlp_outcome \<Rightarrow> interrupt_context" where
  "dlp_context oc =
     (if do_created oc = 0 \<and> do_unknown oc = None then NothingChanged
      else Context (dec (do_created oc) @ '' resource(s) created''
        @ (case do_unknown oc of
             Some (res, nm) \<Rightarrow> ''; the '' @ resource_singular res @ '' '' @ terminal_safe nm
               @ '' may also have been created (outcome unknown)''
           | None \<Rightarrow> [])
        @ ''; run the restore again to resume''))"

definition kept_texts :: "str list" where
  "kept_texts = [''Destination'', ''Restored'', ''Missing'', ''Inventory'', ''Ambiguous'', ''Dictionary'',
     ''Data pattern'', ''Data profile'']"

definition dlp_stop_text :: "str \<Rightarrow> str" where
  "dlp_stop_text m = (if list_ex (starts_with m) kept_texts then m else stopped_text)"

definition http_stop_text :: "nat option \<Rightarrow> str" where
  "http_stop_text status = (case status of Some s \<Rightarrow> http_text s | None \<Rightarrow> stopped_text)"

section \<open>The executor\<close>

record 'w dlp_executor =
  dx_world :: 'w
  dx_outcome :: dlp_outcome
  dx_bindings :: bindings
  dx_cursor :: "(nat \<times> nat) option"
  dx_interrupt :: interrupt_context
  dx_sent :: "(dlp_create \<times> (error_facts, json) result) list"
  dx_read :: "(resource \<times> str \<times> json) list"

type_synonym ('w, 'a) dlp_act = "('w dlp_executor, stop, 'a) prog"

record 'w dlp_env =
  dv_writers :: writers
  dv_schemas :: dlp_schemas
  dv_secrets :: secret_set
  dv_service :: "'w dlp_service"
  dv_plan :: dlp_plan
  dv_max_pages :: nat

definition set_dlp_outcome :: "(dlp_outcome \<Rightarrow> dlp_outcome) \<Rightarrow> 'w dlp_executor \<Rightarrow> 'w dlp_executor" where
  "set_dlp_outcome f ex = ex\<lparr>dx_outcome := f (dx_outcome ex)\<rparr>"

definition dlp_asks :: "('w \<Rightarrow> 'a \<times> 'w) \<Rightarrow> ('w, 'a) dlp_act" where
  "dlp_asks f = (\<lambda>ex. case f (dx_world ex) of (x, w) \<Rightarrow> (Ok x, ex\<lparr>dx_world := w\<rparr>))"

definition unverified_note :: "dlp_outcome \<Rightarrow> str" where
  "unverified_note oc = (case do_unverified oc of
      [] \<Rightarrow> []
    | (res, nm, i) # _ \<Rightarrow> ''; unverified create: '' @ resource_key res @ '' '' @ terminal_safe nm @ '' (id ''
        @ terminal_safe i @ ''); inspect this resource before retrying'')"

definition dlp_fail :: "str \<Rightarrow> ('w, 'a) dlp_act" where
  "dlp_fail m = and_then (modifies (set_dlp_outcome (\<lambda>oc. oc\<lparr>do_error := Some (m @ unverified_note oc)\<rparr>)))
     (\<lambda>_. fail StopFailed)"

definition note_interrupt :: "('w, unit) dlp_act" where
  "note_interrupt = modifies (\<lambda>ex. ex\<lparr>dx_interrupt := dlp_context (dx_outcome ex)\<rparr>)"

definition dlp_checkpoint :: "'w dlp_service \<Rightarrow> ('w, unit) dlp_act" where
  "dlp_checkpoint sv = and_then note_interrupt (\<lambda>_.
     and_then (reads (\<lambda>ex. ds_signal sv (dx_world ex))) (\<lambda>signal.
       if signal then fail StopInterrupted else ret ()))"

definition dlp_dispatch :: "'w dlp_service \<Rightarrow> dlp_create \<Rightarrow> ('w, (error_facts, json) result) dlp_act" where
  "dlp_dispatch sv rq = and_then (dlp_asks (ds_create sv rq)) (\<lambda>answer.
     and_then (modifies (\<lambda>ex. ex\<lparr>dx_sent := dx_sent ex @ [(rq, answer)]\<rparr>)) (\<lambda>_. ret answer))"

definition attempt_create :: "'w dlp_service \<Rightarrow> dlp_create \<Rightarrow> ('w, (error_facts, json) result) dlp_act" where
  "attempt_create sv rq = and_then (dlp_dispatch sv rq) (\<lambda>answer. case answer of
      Inl e \<Rightarrow> if replayable e then dlp_dispatch sv rq else ret answer
    | Inr _ \<Rightarrow> ret answer)"

definition note_unknown :: "resource \<Rightarrow> str \<Rightarrow> ('w, unit) dlp_act" where
  "note_unknown res nm = modifies (set_dlp_outcome (\<lambda>oc. oc\<lparr>do_unknown := Some (res, nm)\<rparr>))"

definition reuse_hint :: "bool \<Rightarrow> str" where
  "reuse_hint renamed =
     (if renamed then ''run the restore again with --on-conflict reconcile to verify it''
      else ''run the restore again to reuse it (a data profile needs --on-conflict verify)'')"

definition create_failed :: "resource \<Rightarrow> str \<Rightarrow> bool \<Rightarrow> write_failure \<Rightarrow> ('w, 'a) dlp_act" where
  "create_failed res nm renamed failure = (case failure of
      WriteInterrupted was_sent \<Rightarrow>
        and_then (if was_sent then note_unknown res nm else ret ()) (\<lambda>_. fail StopInterrupted)
    | WriteRejected status \<Rightarrow> dlp_fail (http_stop_text status)
    | WriteLocal \<Rightarrow> dlp_fail stopped_text
    | WriteUnknown \<Rightarrow> and_then (note_unknown res nm) (\<lambda>_.
        dlp_fail (''Outcome unknown: the '' @ resource_singular res @ '' '' @ terminal_safe nm
          @ '' may have been created; '' @ reuse_hint renamed))
    | WriteUnreadable \<Rightarrow> and_then (note_unknown res nm) (\<lambda>_.
        dlp_fail (''Outcome: the '' @ resource_singular res @ '' '' @ terminal_safe nm
          @ '' was created, but the response could not be read; '' @ reuse_hint renamed)))"

section \<open>The recheck\<close>

text \<open>\<open>canonical_eq\<close> is JavaScript's deep equality.\<close>

definition canonical_eq :: "json \<Rightarrow> json \<Rightarrow> bool" where
  "canonical_eq a b = js_equal a b"

definition row_problem :: "destination \<Rightarrow> resource \<Rightarrow> str \<times> json option \<Rightarrow> str option" where
  "row_problem de res row = (case row of (nm, existing) \<Rightarrow>
     (case destination_match de res nm of
        Inl m \<Rightarrow> Some (terminal_safe m)
      | Inr found \<Rightarrow>
          (case (existing, found) of
             (None, None) \<Rightarrow> None
           | (None, Some _) \<Rightarrow> Some (''Destination '' @ resource_singular res
               @ '' changed after planning: '' @ terminal_safe nm)
           | (Some e, Some f) \<Rightarrow>
               if canonical_eq e f then None
               else Some (''Destination '' @ resource_singular res @ '': '' @ terminal_safe nm
                 @ '' changed after planning'')
           | (Some _, None) \<Rightarrow> Some (''Destination '' @ resource_singular res @ '': '' @ terminal_safe nm
               @ '' changed after planning''))))"

text \<open>The first problem of all rows; the loop goes on past it to no effect.\<close>

definition plan_problem :: "destination \<Rightarrow> dlp_plan \<Rightarrow> str option" where
  "plan_problem de plan =
     (case List.map_filter (row_problem de Dictionaries) (map (\<lambda>r. (dp_name r, dp_existing r)) (pl_dictionaries plan))
         @ List.map_filter (row_problem de Patterns) (map (\<lambda>r. (pt_name r, pt_existing r)) (pl_patterns plan))
         @ List.map_filter (row_problem de DataProfiles) (map (\<lambda>r. (fp_name r, fp_existing r)) (pl_profiles plan)) of
        [] \<Rightarrow> None | m # _ \<Rightarrow> Some m)"

definition walk_context :: "secret_set \<Rightarrow> sdk_context" where
  "walk_context secrets = \<lparr>ctx_plane = Management, ctx_phase = Api, ctx_operation = Read, ctx_timeout = 300,
     ctx_secrets = secrets\<rparr>"

definition sweep_failed :: "secret_set \<Rightarrow> sweep_error \<Rightarrow> ('w, 'a) dlp_act" where
  "sweep_failed secrets e = (case e of
      SweepRule m \<Rightarrow> dlp_fail (dlp_stop_text m)
    | SweepSdk f \<Rightarrow>
        (case describe f (walk_context secrets) of
           Interrupted _ \<Rightarrow> fail StopInterrupted
         | Operational fl \<Rightarrow>
             dlp_fail (case status_of fl of Some s \<Rightarrow> http_text s | None \<Rightarrow> dlp_stop_text (message_of fl))
         | Usage m \<Rightarrow> dlp_fail (dlp_stop_text m)
         | Reported _ \<Rightarrow> dlp_fail (dlp_stop_text [])))"

definition dlp_recheck :: "'w dlp_env \<Rightarrow> ('w, unit) dlp_act" where
  "dlp_recheck dv =
     and_then (dlp_asks (dlp_inventories (dv_service dv) (dv_max_pages dv))) (\<lambda>r. case r of
         Inl e \<Rightarrow> sweep_failed (dv_secrets dv) e
       | Inr stock \<Rightarrow>
           (case plan_problem (destination_of stock) (dv_plan dv) of
              Some m \<Rightarrow> dlp_fail m | None \<Rightarrow> ret ()))"

section \<open>One create\<close>

fun push_row :: "resource \<Rightarrow> dlp_row \<Rightarrow> dlp_outcome \<Rightarrow> dlp_outcome" where
  "push_row Dictionaries row oc = oc\<lparr>do_dictionaries := do_dictionaries oc @ [row]\<rparr>"
| "push_row Patterns row oc = oc\<lparr>do_patterns := do_patterns oc @ [row]\<rparr>"
| "push_row DataProfiles row oc = oc\<lparr>do_profiles := do_profiles oc @ [row]\<rparr>"

definition add_row :: "resource \<Rightarrow> dlp_row \<Rightarrow> ('w, unit) dlp_act" where
  "add_row res row = modifies (set_dlp_outcome (push_row res row))"

definition simple_row :: "str \<Rightarrow> str \<Rightarrow> str option \<Rightarrow> dlp_row" where
  "simple_row nm act i = \<lparr>dw_name = nm, dw_action = act, dw_id = i, dw_reason = None, dw_renamed_from = None\<rparr>"

definition add_server :: "str \<Rightarrow> echo \<Rightarrow> ('w, unit) dlp_act" where
  "add_server nm e =
     (if ec_server_added e = [] then ret ()
      else modifies (set_dlp_outcome (\<lambda>oc. oc\<lparr>do_server_added := do_server_added oc @ [(nm, ec_server_added e)]\<rparr>)))"

definition set_stage :: "nat \<Rightarrow> nat \<Rightarrow> ('w, unit) dlp_act" where
  "set_stage stage index = modifies (\<lambda>ex. ex\<lparr>dx_cursor := Some (stage, index)\<rparr>)"

text \<open>What a create was sent for, to compare with its read-back.\<close>

fun request_echo :: "dlp_create \<Rightarrow> str list \<Rightarrow> json \<Rightarrow> echo" where
  "request_echo (NewDictionary metadata _) kws record = dictionary_echo metadata (Some record) kws"
| "request_echo (NewPattern body) kws record = compare_echo body (Some record)"
| "request_echo (NewDataProfile body) kws record = compare_echo body (Some record)"

definition retired_record :: "resource \<Rightarrow> json \<Rightarrow> bool" where
  "retired_record res record = (case res of
      Dictionaries \<Rightarrow> False | Patterns \<Rightarrow> retired_pattern record | DataProfiles \<Rightarrow> retired_data_profile record)"

definition read_back_failed :: "error_facts \<Rightarrow> ('w, 'a) dlp_act" where
  "read_back_failed e =
     (if kind_of e = KCancelled then fail StopInterrupted
      else if kind_of e = KHttp then dlp_fail (http_stop_text (http_of e)) else dlp_fail stopped_text)"

definition not_verified :: "resource \<Rightarrow> str \<Rightarrow> str \<Rightarrow> ('w, 'a) dlp_act" where
  "not_verified res nm i = dlp_fail (''Restored '' @ resource_singular res @ '' did not verify: '' @ terminal_safe nm
     @ '' (created id '' @ terminal_safe i @ ''; inspect it before retrying)'')"

definition read_created :: "'w dlp_service \<Rightarrow> resource \<Rightarrow> str \<Rightarrow> ('w, json) dlp_act" where
  "read_created sv res i = and_then (dlp_asks (ds_get sv res i)) (\<lambda>answer. case answer of
      Inl e \<Rightarrow> read_back_failed e
    | Inr record \<Rightarrow>
        and_then (modifies (\<lambda>ex. ex\<lparr>dx_read := dx_read ex @ [(res, i, record)]\<rparr>)) (\<lambda>_. ret record))"

text \<open>The receipt of a create: its id is unverified until the record read back is the request.\<close>

definition receive :: "resource \<Rightarrow> str \<Rightarrow> str \<Rightarrow> ('w, unit) dlp_act" where
  "receive res nm i =
     and_then (modifies (set_dlp_outcome (\<lambda>oc. oc\<lparr>do_created := Suc (do_created oc),
         do_unverified := do_unverified oc @ [(res, nm, i)]\<rparr>))) (\<lambda>_. note_interrupt)"

definition verify_created :: "'w dlp_service \<Rightarrow> resource \<Rightarrow> dlp_create \<Rightarrow> str list \<Rightarrow> str \<Rightarrow> str
    \<Rightarrow> ('w, json) dlp_act" where
  "verify_created sv res rq kws nm i =
     and_then (read_created sv res i) (\<lambda>record.
       let e = request_echo rq kws record in
       if \<not> echo_matches e \<or> dlp_id record \<noteq> Some i \<or> json_str record ''name'' \<noteq> Some nm
          \<or> retired_record res record
       then not_verified res nm i
       else and_then (add_server (resource_singular res @ '' '' @ nm) e) (\<lambda>_. ret record))"

definition report_created :: "resource \<Rightarrow> dlp_row \<Rightarrow> ('w, unit) dlp_act" where
  "report_created res row =
     and_then (add_row res row) (\<lambda>_.
       modifies (set_dlp_outcome (\<lambda>oc. oc\<lparr>do_unverified := butlast (do_unverified oc)\<rparr>)))"

text \<open>A created answer: \<open>bind\<close> keeps the new binding of the record.\<close>

definition settle_create :: "'w dlp_service \<Rightarrow> resource \<Rightarrow> dlp_create \<Rightarrow> str list \<Rightarrow> str \<Rightarrow> str option
    \<Rightarrow> (str \<Rightarrow> json \<Rightarrow> ('w, unit) dlp_act) \<Rightarrow> json \<Rightarrow> ('w, unit) dlp_act" where
  "settle_create sv res rq kws nm renamed_from bind created = (case dlp_id created of
      None \<Rightarrow> create_failed res nm (renamed_from \<noteq> None) WriteUnreadable
    | Some i \<Rightarrow>
        and_then (receive res nm i) (\<lambda>_.
        and_then (verify_created sv res rq kws nm i) (\<lambda>record.
        and_then (bind i record) (\<lambda>_.
          report_created res \<lparr>dw_name = nm, dw_action = ''created'', dw_id = Some i, dw_reason = None,
            dw_renamed_from = renamed_from\<rparr>))))"

definition add_binding :: "str \<Rightarrow> binding \<Rightarrow> ('w, unit) dlp_act" where
  "add_binding source_id bd = modifies (\<lambda>ex. ex\<lparr>dx_bindings := (dx_bindings ex)(source_id \<mapsto> bd)\<rparr>)"

section \<open>Dictionaries and patterns\<close>

definition report_existing :: "resource \<Rightarrow> str \<Rightarrow> dependency_action \<Rightarrow> json option \<Rightarrow> ('w, unit) dlp_act" where
  "report_existing res nm act existing = (case Option.bind existing dlp_id of
      None \<Rightarrow> dlp_fail (''Destination '' @ resource_singular res @ '' has no identity: '' @ terminal_safe nm)
    | Some i \<Rightarrow> add_row res (simple_row nm (dependency_done act) (Some i)))"

definition create_dictionary :: "'w dlp_env \<Rightarrow> dictionary_plan \<Rightarrow> json \<Rightarrow> ('w, unit) dlp_act" where
  "create_dictionary dv row metadata =
     (case (dictionary_schema (dv_schemas dv) metadata, dictionary_file metadata (dp_keywords row)) of
        (Some _, Inr contents) \<Rightarrow>
          if \<not> ds_upload_ok (dv_service dv) metadata contents then dlp_fail stopped_text
          else and_then (attempt_create (dv_service dv) (NewDictionary metadata contents)) (\<lambda>answer. case answer of
              Inl e \<Rightarrow> create_failed Dictionaries (dp_name row) False (classify_write e)
            | Inr created \<Rightarrow>
                settle_create (dv_service dv) Dictionaries (NewDictionary metadata contents) (dp_keywords row)
                  (dp_name row) None
                  (\<lambda>i _. add_binding (dp_source_id row) (dictionary_binding i (dp_name row))) created)
      | _ \<Rightarrow> dlp_fail stopped_text)"

definition restore_dictionary :: "'w dlp_env \<Rightarrow> nat \<Rightarrow> dictionary_plan \<Rightarrow> ('w, unit) dlp_act" where
  "restore_dictionary dv index row =
     and_then (set_stage 0 index) (\<lambda>_.
       if dp_action row \<noteq> CreateDependency
       then report_existing Dictionaries (dp_name row) (dp_action row) (dp_existing row)
       else and_then (dlp_checkpoint (dv_service dv)) (\<lambda>_. case dp_metadata row of
           None \<Rightarrow> dlp_fail ''Dictionary plan is incomplete''
         | Some metadata \<Rightarrow> create_dictionary dv row metadata))"

definition create_pattern :: "'w dlp_env \<Rightarrow> pattern_plan \<Rightarrow> json \<Rightarrow> ('w, unit) dlp_act" where
  "create_pattern dv row body =
     (if \<not> pattern_schema (dv_schemas dv) body then dlp_fail stopped_text
      else and_then (attempt_create (dv_service dv) (NewPattern body)) (\<lambda>answer. case answer of
          Inl e \<Rightarrow> create_failed Patterns (pt_name row) False (classify_write e)
        | Inr created \<Rightarrow>
            settle_create (dv_service dv) Patterns (NewPattern body) [] (pt_name row) None
              (\<lambda>i record. add_binding (pt_source_id row) (pattern_binding record i (pt_name row))) created))"

definition restore_pattern :: "'w dlp_env \<Rightarrow> nat \<Rightarrow> pattern_plan \<Rightarrow> ('w, unit) dlp_act" where
  "restore_pattern dv index row =
     and_then (set_stage 1 index) (\<lambda>_.
       if pt_action row \<noteq> CreateDependency
       then report_existing Patterns (pt_name row) (pt_action row) (pt_existing row)
       else and_then (dlp_checkpoint (dv_service dv)) (\<lambda>_. case pt_body row of
           None \<Rightarrow> dlp_fail ''Data pattern plan is incomplete''
         | Some body \<Rightarrow> create_pattern dv row body))"

section \<open>Profiles\<close>

definition conflict_409 :: "error_facts \<Rightarrow> bool" where
  "conflict_409 e = (kind_of e = KHttp \<and> http_of e = Some 409 \<and> outcome_of e = RejectedOutcome)"

definition final_name :: "'w dlp_env \<Rightarrow> data_profile_plan \<Rightarrow> str" where
  "final_name dv row = suffixed_profile_name (fp_name row)
     (reconcile_suffix (dv_schemas dv) (pl_source_tsg (dv_plan dv)) (fp_source_id row))"

definition settle_profile :: "'w dlp_env \<Rightarrow> data_profile_plan \<Rightarrow> str \<Rightarrow> json \<Rightarrow> json \<Rightarrow> ('w, unit) dlp_act" where
  "settle_profile dv row nm body created =
     settle_create (dv_service dv) DataProfiles (NewDataProfile body) [] nm
       (if nm \<noteq> fp_name row then Some (fp_name row) else None) (\<lambda>_ _. ret ()) created"

text \<open>The one create under the deterministic suffix after a conflict.\<close>

definition create_renamed :: "'w dlp_env \<Rightarrow> data_profile_plan \<Rightarrow> json \<Rightarrow> ('w, unit) dlp_act" where
  "create_renamed dv row body =
     (let nm = final_name dv row; renamed = put_field ''name'' (JString nm) body in
      if \<not> profile_schema (dv_schemas dv) renamed then dlp_fail stopped_text
      else and_then (dlp_checkpoint (dv_service dv)) (\<lambda>_.
           and_then (attempt_create (dv_service dv) (NewDataProfile renamed)) (\<lambda>answer. case answer of
               Inl e \<Rightarrow> create_failed DataProfiles nm True (classify_write e)
             | Inr created \<Rightarrow> settle_profile dv row nm renamed created)))"

definition create_data_profile :: "'w dlp_env \<Rightarrow> data_profile_plan \<Rightarrow> json \<Rightarrow> ('w, unit) dlp_act" where
  "create_data_profile dv row body =
     and_then (dlp_checkpoint (dv_service dv)) (\<lambda>_.
       if \<not> profile_schema (dv_schemas dv) body then dlp_fail stopped_text
       else and_then (attempt_create (dv_service dv) (NewDataProfile body)) (\<lambda>answer. case answer of
           Inl e \<Rightarrow>
             if pl_reconcile (dv_plan dv) \<and> conflict_409 e then create_renamed dv row body
             else create_failed DataProfiles (fp_name row) False (classify_write e)
         | Inr created \<Rightarrow> settle_profile dv row (fp_name row) body created))"

definition verify_data_profile :: "data_profile_plan \<Rightarrow> json \<Rightarrow> ('w, unit) dlp_act" where
  "verify_data_profile row body =
     (let e = compare_echo body (fp_existing row) in
      if \<not> echo_matches e
      then dlp_fail (''Destination data profile does not match restore plan: '' @ terminal_safe (fp_name row))
      else and_then (add_server (''data profile '' @ fp_name row) e) (\<lambda>_.
        add_row DataProfiles \<lparr>dw_name = fp_name row, dw_action = ''verified'',
          dw_id = Option.bind (fp_existing row) dlp_id, dw_reason = None,
          dw_renamed_from = fp_renamed_from row\<rparr>))"

definition apply_data_profile :: "'w dlp_env \<Rightarrow> data_profile_plan \<Rightarrow> ('w, unit) dlp_act" where
  "apply_data_profile dv row =
     and_then (reads (\<lambda>ex. dlp_profile_request (dv_writers dv) (dv_schemas dv) row (dx_bindings ex)
         (crosses_tenants (dv_plan dv)) True)) (\<lambda>r. case r of
       Inl m \<Rightarrow> dlp_fail (dlp_stop_text (terminal_safe m))
     | Inr None \<Rightarrow> dlp_fail (''Missing planned dependency binding: '' @ terminal_safe (fp_name row))
     | Inr (Some body) \<Rightarrow>
         if fp_action row = VerifyData then verify_data_profile row body
         else create_data_profile dv row body)"

definition restore_data_profile :: "'w dlp_env \<Rightarrow> nat \<Rightarrow> data_profile_plan \<Rightarrow> ('w, unit) dlp_act" where
  "restore_data_profile dv index row =
     and_then (set_stage 2 index) (\<lambda>_.
       if fp_action row = SkipData
       then add_row DataProfiles \<lparr>dw_name = fp_name row, dw_action = ''skipped'',
              dw_id = Option.bind (fp_existing row) dlp_id, dw_reason = fp_reason row, dw_renamed_from = None\<rparr>
       else apply_data_profile dv row)"

section \<open>The run\<close>

fun each_row :: "(nat \<Rightarrow> 'r \<Rightarrow> ('w, unit) dlp_act) \<Rightarrow> nat \<Rightarrow> 'r list \<Rightarrow> ('w, unit) dlp_act" where
  "each_row f index [] = ret ()"
| "each_row f index (row # rows) = and_then (f index row) (\<lambda>_. each_row f (Suc index) rows)"

definition dlp_not_attempted :: "dlp_plan \<Rightarrow> (nat \<times> nat) option \<Rightarrow> (resource \<times> str) list" where
  "dlp_not_attempted plan cursor =
     (let later = (\<lambda>stage index. case cursor of
          None \<Rightarrow> True | Some (s, i) \<Rightarrow> s < stage \<or> s = stage \<and> i < index);
          rest = (\<lambda>stage res names. map (\<lambda>(i, nm). (res, nm)) (filter (\<lambda>(i, _). later stage i) (enumerate 0 names)))
      in rest (0 :: nat) Dictionaries (map dp_name (pl_dictionaries plan))
         @ rest 1 Patterns (map pt_name (pl_patterns plan))
         @ rest 2 DataProfiles (map fp_name (pl_profiles plan)))"

definition dlp_stages :: "'w dlp_env \<Rightarrow> ('w, unit) dlp_act" where
  "dlp_stages dv =
     and_then (dlp_recheck dv) (\<lambda>_.
     and_then (each_row (restore_dictionary dv) 0 (pl_dictionaries (dv_plan dv))) (\<lambda>_.
     and_then (each_row (restore_pattern dv) 0 (pl_patterns (dv_plan dv))) (\<lambda>_.
       each_row (restore_data_profile dv) 0 (pl_profiles (dv_plan dv)))))"

definition start_dlp :: "'w dlp_env \<Rightarrow> 'w \<Rightarrow> 'w dlp_executor" where
  "start_dlp dv w = \<lparr>dx_world = w, dx_outcome = no_dlp_outcome, dx_bindings = plan_bindings (dv_plan dv),
     dx_cursor = None, dx_interrupt = NothingChanged, dx_sent = [], dx_read = []\<rparr>"

definition dlp_execute :: "'w dlp_env \<Rightarrow> 'w \<Rightarrow> (cli_error, dlp_outcome) result \<times> 'w dlp_executor" where
  "dlp_execute dv w = (case dlp_stages dv (start_dlp dv w) of
      (Inl StopInterrupted, ex) \<Rightarrow> (Err (Interrupted (dlp_context (dx_outcome ex))), ex)
    | (r, ex) \<Rightarrow>
        (let oc = (case r of
             Inr _ \<Rightarrow> (dx_outcome ex)\<lparr>do_complete := True\<rparr>
           | Inl _ \<Rightarrow> (dx_outcome ex)\<lparr>do_not_attempted := dlp_not_attempted (dv_plan dv) (dx_cursor ex)\<rparr>)
         in (Ok oc, ex\<lparr>dx_outcome := oc, dx_interrupt := dlp_context oc\<rparr>)))"

end
