(* ===== verification/DlpExec.thy ===== *)
theory DlpExec
  imports ExecCorrect DlpRestore
begin

text \<open>
  What an execution of a DLP restore plan reports of its creates. \<open>dlp_report_true\<close> relates the
  outcome to the log of the dispatched creates and to the records read back; it is an invariant of
  every step of the executor, answered or stopped. Between the answer to a create and its receipt the
  outcome lags behind by that answer (\<open>lagging\<close>).
\<close>

section \<open>What a true report is\<close>

fun create_resource :: "dlp_create \<Rightarrow> resource" where
  "create_resource (NewDictionary _ _) = Dictionaries"
| "create_resource (NewPattern _) = Patterns"
| "create_resource (NewDataProfile _) = DataProfiles"

text \<open>The record read back is the one that was sent, a dictionary with the keywords of its file.\<close>

fun sent_and_kept :: "dlp_create \<Rightarrow> json \<Rightarrow> bool" where
  "sent_and_kept (NewDictionary metadata contents) record =
     (\<exists>kws. dictionary_file metadata kws = Ok contents \<and> echo_matches (dictionary_echo metadata (Some record) kws))"
| "sent_and_kept (NewPattern body) record = echo_matches (compare_echo body (Some record))"
| "sent_and_kept (NewDataProfile body) record = echo_matches (compare_echo body (Some record))"

type_synonym create_log = "(dlp_create \<times> (error_facts, json) result) list"

definition usable_id :: "(error_facts, json) result \<Rightarrow> str option" where
  "usable_id answer = (case answer of Inl _ \<Rightarrow> None | Inr created \<Rightarrow> dlp_id created)"

text \<open>The ids of the creates of one resource the service acknowledged.\<close>

definition acknowledged_ids :: "resource \<Rightarrow> create_log \<Rightarrow> str list" where
  "acknowledged_ids res sent =
     List.map_filter (\<lambda>(rq, answer). if create_resource rq = res then usable_id answer else None) sent"

fun outcome_rows :: "resource \<Rightarrow> dlp_outcome \<Rightarrow> dlp_row list" where
  "outcome_rows Dictionaries oc = do_dictionaries oc"
| "outcome_rows Patterns oc = do_patterns oc"
| "outcome_rows DataProfiles oc = do_profiles oc"

definition created_rows :: "resource \<Rightarrow> dlp_outcome \<Rightarrow> dlp_row list" where
  "created_rows res oc = filter (\<lambda>row. dw_action row = ''created'') (outcome_rows res oc)"

definition unverified_ids :: "resource \<Rightarrow> dlp_outcome \<Rightarrow> str list" where
  "unverified_ids res oc = List.map_filter (\<lambda>(r, _, i). if r = res then Some i else None) (do_unverified oc)"

definition row_is_verified :: "create_log \<Rightarrow> (resource \<times> str \<times> json) list \<Rightarrow> resource \<Rightarrow> dlp_row \<Rightarrow> bool" where
  "row_is_verified sent seen res row =
     (\<exists>i rq answer record. dw_id row = Some i \<and> (rq, answer) \<in> set sent \<and> create_resource rq = res
        \<and> usable_id answer = Some i \<and> (res, i, record) \<in> set seen \<and> dlp_id record = Some i
        \<and> json_str record ''name'' = Some (dw_name row) \<and> sent_and_kept rq record \<and> \<not> retired_record res record)"

definition report_true :: "create_log \<Rightarrow> (resource \<times> str \<times> json) list \<Rightarrow> dlp_outcome \<Rightarrow> bool" where
  "report_true sent seen oc =
     (do_created oc = length (filter (\<lambda>(_, answer). usable_id answer \<noteq> None) sent)
      \<and> length (do_unverified oc) \<le> 1
      \<and> (\<forall>res. map dw_id (created_rows res oc) @ map Some (unverified_ids res oc)
               = map Some (acknowledged_ids res sent))
      \<and> (\<forall>res. \<forall>row \<in> set (created_rows res oc). row_is_verified sent seen res row)
      \<and> (do_unknown oc = None \<longrightarrow>
           (\<forall>(_, answer) \<in> set sent. may_have_applied answer \<longrightarrow> usable_id answer \<noteq> None)))"

definition dlp_report_true :: "'w dlp_executor \<Rightarrow> bool" where
  "dlp_report_true ex = report_true (dx_sent ex) (dx_read ex) (dx_outcome ex)"

definition settled :: "'w dlp_executor \<Rightarrow> bool" where
  "settled ex = (dlp_report_true ex \<and> do_unverified (dx_outcome ex) = [])"

text \<open>After the answer to a create the report is that of the log before it.\<close>

definition lagging :: "dlp_create \<Rightarrow> (error_facts, json) result \<Rightarrow> 'w dlp_executor \<Rightarrow> bool" where
  "lagging rq a ex = (\<exists>before. dx_sent ex = before @ [(rq, a)] \<and> do_unverified (dx_outcome ex) = []
     \<and> report_true before (dx_read ex) (dx_outcome ex))"

section \<open>Growing logs\<close>

lemma row_is_verified_mono:
  "row_is_verified sent seen res row \<Longrightarrow> set sent \<subseteq> set sent' \<Longrightarrow> set seen \<subseteq> set seen'
     \<Longrightarrow> row_is_verified sent' seen' res row"
  unfolding row_is_verified_def by blast

lemma map_filter_snoc [simp]:
  "List.map_filter f (xs @ [x]) = List.map_filter f xs @ (case f x of None \<Rightarrow> [] | Some y \<Rightarrow> [y])"
  by (simp add: List.map_filter_def split: option.split)

lemma acknowledged_ids_snoc:
  "acknowledged_ids res (sent @ [(rq, a)]) = acknowledged_ids res sent
     @ (case usable_id a of Some i \<Rightarrow> if create_resource rq = res then [i] else [] | None \<Rightarrow> [])"
  by (simp add: acknowledged_ids_def split: option.split)

lemma report_true_unusable:
  assumes "report_true sent seen oc" "usable_id a = None"
    and "may_have_applied a \<Longrightarrow> do_unknown oc \<noteq> None"
  shows "report_true (sent @ [(rq, a)]) seen oc"
  unfolding report_true_def
proof (intro conjI allI ballI impI)
  fix res row assume "row \<in> set (created_rows res oc)"
  with assms(1) have "row_is_verified sent seen res row" by (simp add: report_true_def)
  then show "row_is_verified (sent @ [(rq, a)]) seen res row" by (rule row_is_verified_mono) auto
qed (use assms in \<open>auto simp: report_true_def acknowledged_ids_snoc\<close>)

lemma report_true_seen:
  assumes "report_true sent seen oc"
  shows "report_true sent (seen @ more_seen) oc"
  unfolding report_true_def
proof (intro conjI allI ballI)
  fix res row assume "row \<in> set (created_rows res oc)"
  with assms have "row_is_verified sent seen res row" by (simp add: report_true_def)
  then show "row_is_verified sent (seen @ more_seen) res row" by (rule row_is_verified_mono) auto
qed (use assms in \<open>auto simp: report_true_def\<close>)

text \<open>The receipt of an acknowledged create.\<close>

lemma report_true_received:
  assumes t: "report_true sent seen oc" and u: "do_unverified oc = []" and i: "usable_id a = Some i"
    and res: "create_resource rq = res"
  shows "report_true (sent @ [(rq, a)]) seen (oc\<lparr>do_created := Suc (do_created oc),
     do_unverified := [(res, nm, i)]\<rparr>)" (is "report_true ?sent _ ?oc")
proof -
  have rows: "created_rows r ?oc = created_rows r oc" for r by (cases r) (simp_all add: created_rows_def)
  show ?thesis
    unfolding report_true_def rows
  proof (intro conjI allI ballI impI)
    fix r row assume "row \<in> set (created_rows r oc)"
    with t have "row_is_verified sent seen r row" by (simp add: report_true_def)
    then show "row_is_verified ?sent seen r row" by (rule row_is_verified_mono) auto
  next
    fix r
    have "map dw_id (created_rows r oc) = map Some (acknowledged_ids r sent)"
      using t u by (simp add: report_true_def unverified_ids_def)
    then show "map dw_id (created_rows r oc) @ map Some (unverified_ids r ?oc) = map Some (acknowledged_ids r ?sent)"
      using i res by (simp add: unverified_ids_def acknowledged_ids_snoc)
  qed (use t i in \<open>auto simp: report_true_def\<close>)
qed

text \<open>The row of a verified create takes the place of its receipt.\<close>

lemma outcome_rows_push:
  "outcome_rows r (push_row res row oc) = outcome_rows r oc @ (if r = res then [row] else [])"
  by (cases r; cases res) simp_all

lemma push_row_others [simp]:
  "do_created (push_row res row oc) = do_created oc" "do_unverified (push_row res row oc) = do_unverified oc"
  "do_unknown (push_row res row oc) = do_unknown oc"
  by (cases res; simp)+

lemma report_true_verified:
  assumes t: "report_true sent seen oc" and u: "do_unverified oc = [(res, nm, i)]"
    and row: "dw_action row = ''created''" "dw_id row = Some i" "row_is_verified sent seen res row"
  shows "report_true sent seen ((push_row res row oc)\<lparr>do_unverified := []\<rparr>)" (is "report_true _ _ ?oc")
proof -
  have rows: "created_rows r ?oc = created_rows r oc @ (if r = res then [row] else [])" for r
  proof -
    have "outcome_rows r ?oc = outcome_rows r (push_row res row oc)" by (cases r) simp_all
    with row(1) show ?thesis by (simp add: created_rows_def outcome_rows_push)
  qed
  have "map dw_id (created_rows r ?oc) @ map Some (unverified_ids r ?oc) = map Some (acknowledged_ids r sent)" for r
  proof -
    have "map dw_id (created_rows r oc) @ map Some (unverified_ids r oc) = map Some (acknowledged_ids r sent)"
      using t by (simp add: report_true_def)
    then show ?thesis using u row(2) by (auto simp: rows unverified_ids_def)
  qed
  then show ?thesis
    using t row(3) by (auto simp: report_true_def rows)
qed

lemma report_true_row:
  assumes "report_true sent seen oc" "dw_action row \<noteq> ''created''"
  shows "report_true sent seen (push_row res row oc)"
proof -
  have "created_rows r (push_row res row oc) = created_rows r oc" for r
    using assms(2) by (simp add: created_rows_def outcome_rows_push)
  with assms(1) show ?thesis by (simp add: report_true_def unverified_ids_def)
qed

lemma report_true_updates [simp]:
  "report_true sent seen (oc\<lparr>do_error := e\<rparr>) = report_true sent seen oc"
  "report_true sent seen (oc\<lparr>do_server_added := added\<rparr>) = report_true sent seen oc"
  "report_true sent seen (oc\<lparr>do_complete := b\<rparr>) = report_true sent seen oc"
  "report_true sent seen (oc\<lparr>do_not_attempted := rest\<rparr>) = report_true sent seen oc"
proof -
  have rows: "outcome_rows r (oc\<lparr>do_error := e\<rparr>) = outcome_rows r oc"
    "outcome_rows r (oc\<lparr>do_server_added := added\<rparr>) = outcome_rows r oc"
    "outcome_rows r (oc\<lparr>do_complete := b\<rparr>) = outcome_rows r oc"
    "outcome_rows r (oc\<lparr>do_not_attempted := rest\<rparr>) = outcome_rows r oc" for r
    by (cases r; simp)+
  show "report_true sent seen (oc\<lparr>do_error := e\<rparr>) = report_true sent seen oc"
    "report_true sent seen (oc\<lparr>do_server_added := added\<rparr>) = report_true sent seen oc"
    "report_true sent seen (oc\<lparr>do_complete := b\<rparr>) = report_true sent seen oc"
    "report_true sent seen (oc\<lparr>do_not_attempted := rest\<rparr>) = report_true sent seen oc"
    by (simp_all add: report_true_def created_rows_def unverified_ids_def rows)
qed

lemma report_true_unknown:
  assumes "report_true sent seen oc"
  shows "report_true sent seen (oc\<lparr>do_unknown := Some x\<rparr>)"
proof -
  have "outcome_rows r (oc\<lparr>do_unknown := Some x\<rparr>) = outcome_rows r oc" for r by (cases r) simp_all
  with assms show ?thesis by (simp add: report_true_def created_rows_def unverified_ids_def)
qed

section \<open>Steps that report nothing\<close>

definition bare :: "dlp_outcome \<Rightarrow> dlp_outcome" where
  "bare oc = oc\<lparr>do_error := None, do_server_added := []\<rparr>"

definition same_report :: "'w dlp_executor \<Rightarrow> 'w dlp_executor \<Rightarrow> bool" where
  "same_report s s' =
     (dx_sent s' = dx_sent s \<and> dx_read s' = dx_read s \<and> dx_cursor s' = dx_cursor s
      \<and> bare (dx_outcome s') = bare (dx_outcome s))"

lemma same_report_refl [simp]: "same_report s s"
  by (simp add: same_report_def)

lemma same_report_trans: "same_report s s' \<Longrightarrow> same_report s' s'' \<Longrightarrow> same_report s s''"
  by (simp add: same_report_def)

lemma bare_report: "report_true sent seen (bare oc) = report_true sent seen oc"
  "do_unverified (bare oc) = do_unverified oc"
  by (simp_all add: bare_def)

lemma same_report_updates [simp]:
  "same_report s (s'\<lparr>dx_world := w\<rparr>) = same_report s s'"
  "same_report s (s'\<lparr>dx_interrupt := c\<rparr>) = same_report s s'"
  "same_report s (s'\<lparr>dx_bindings := bs\<rparr>) = same_report s s'"
  by (simp_all add: same_report_def)

definition unreported :: "('w, 'a) dlp_act \<Rightarrow> bool" where
  "unreported m = (\<forall>s. wp m (\<lambda>_ s'. same_report s s') (\<lambda>_ s'. same_report s s') s)"

lemma unreportedI: "(\<And>s. wp m (\<lambda>_ s'. same_report s s') (\<lambda>_ s'. same_report s s') s) \<Longrightarrow> unreported m"
  by (simp add: unreported_def)

lemma wp_unreported:
  assumes "unreported m" "\<And>x s'. same_report s s' \<Longrightarrow> Q x s'" "\<And>e s'. same_report s s' \<Longrightarrow> R e s'"
  shows "wp m Q R s"
  using assms by (auto simp: unreported_def intro: wp_mono)

lemma unreported_and_then: "unreported m \<Longrightarrow> (\<And>x. unreported (f x)) \<Longrightarrow> unreported (and_then m f)"
  by (rule unreportedI) (auto simp: wp_simps intro!: wp_unreported dest: same_report_trans)

lemma wp_dlp_asks [wp_simps]:
  "wp (dlp_asks f) Q R s = Q (fst (f (dx_world s))) (s\<lparr>dx_world := snd (f (dx_world s))\<rparr>)"
  by (simp add: wp_def dlp_asks_def split: prod.splits)

lemma wp_dlp_fail [wp_simps]:
  "wp (dlp_fail m) Q R s
     = R StopFailed (set_dlp_outcome (\<lambda>oc. oc\<lparr>do_error := Some (m @ unverified_note oc)\<rparr>) s)"
  by (simp add: dlp_fail_def wp_simps)

lemma same_report_error [simp]: "same_report s (set_dlp_outcome (\<lambda>oc. oc\<lparr>do_error := f oc\<rparr>) s)"
  by (simp add: same_report_def set_dlp_outcome_def bare_def)

lemma unreported_simps [simp]:
  "unreported (ret x)" "unreported (fail e)" "unreported (reads g)" "unreported (dlp_asks f)"
  "unreported (dlp_fail m)" "unreported note_interrupt" "unreported (add_binding source_id bd)"
  by (simp_all add: unreported_def wp_simps note_interrupt_def add_binding_def)

lemma unreported_add_server [simp]: "unreported (add_server nm e)"
  by (simp add: unreported_def add_server_def wp_simps same_report_def set_dlp_outcome_def bare_def)

lemma unreported_checkpoint [simp]: "unreported (dlp_checkpoint sv)"
  unfolding dlp_checkpoint_def by (intro unreported_and_then) simp_all

lemma unreported_fails [simp]:
  "unreported (read_back_failed e)" "unreported (not_verified res nm i)" "unreported (sweep_failed secrets err)"
  by (simp_all add: read_back_failed_def not_verified_def sweep_failed_def
      split: sweep_error.split cli_error.split option.split)

lemma unreported_recheck [simp]: "unreported (dlp_recheck dv)"
  unfolding dlp_recheck_def by (intro unreported_and_then) (simp_all split: sum.split option.split)

lemma settled_same: "same_report s s' \<Longrightarrow> settled s' = settled s"
  and dlp_report_same: "same_report s s' \<Longrightarrow> dlp_report_true s' = dlp_report_true s"
  by (auto simp: same_report_def settled_def dlp_report_true_def)
    (metis bare_report)+

section \<open>One create\<close>

definition keeps_true :: "('w, 'a) dlp_act \<Rightarrow> bool" where
  "keeps_true m = (\<forall>s. settled s \<longrightarrow> wp m (\<lambda>_. settled) (\<lambda>_. dlp_report_true) s)"

lemma keeps_trueI: "(\<And>s. settled s \<Longrightarrow> wp m (\<lambda>_. settled) (\<lambda>_. dlp_report_true) s) \<Longrightarrow> keeps_true m"
  by (simp add: keeps_true_def)

lemma keeps_trueD: "keeps_true m \<Longrightarrow> settled s \<Longrightarrow> wp m (\<lambda>_. settled) (\<lambda>_. dlp_report_true) s"
  by (simp add: keeps_true_def)

lemma settled_true: "settled s \<Longrightarrow> dlp_report_true s"
  by (simp add: settled_def)

lemma keeps_true_unreported: "unreported m \<Longrightarrow> keeps_true m"
  by (rule keeps_trueI) (auto intro!: wp_unreported dest: settled_same dlp_report_same settled_true)

lemma keeps_true_and_then: "keeps_true m \<Longrightarrow> (\<And>x. keeps_true (f x)) \<Longrightarrow> keeps_true (and_then m f)"
  by (rule keeps_trueI) (auto simp: wp_simps keeps_true_def intro: wp_mono)

lemma keeps_true_after: "unreported m \<Longrightarrow> (\<And>x. keeps_true (f x)) \<Longrightarrow> keeps_true (and_then m f)"
  by (rule keeps_true_and_then [OF keeps_true_unreported])

lemmas keeps_true_simps [simp] =
  unreported_simps [THEN keeps_true_unreported] unreported_fails [THEN keeps_true_unreported]

lemma keeps_true_stage: "keeps_true m \<Longrightarrow> keeps_true (and_then (set_stage stage i) (\<lambda>_. m))"
  by (simp add: keeps_true_def set_stage_def wp_simps settled_def dlp_report_true_def)

lemma keeps_true_add_row: "dw_action row \<noteq> ''created'' \<Longrightarrow> keeps_true (add_row res row)"
  by (rule keeps_trueI)
    (simp add: add_row_def wp_simps settled_def dlp_report_true_def set_dlp_outcome_def report_true_row)

lemma settled_lagging:
  assumes "lagging rq (Inl e) s" "\<not> may_have_applied (Inl e)"
  shows "settled s"
  using assms by (auto simp: lagging_def settled_def dlp_report_true_def usable_id_def intro!: report_true_unusable)

lemma dispatch_lagging: "settled s \<Longrightarrow> wp (dlp_dispatch sv rq) (\<lambda>a. lagging rq a) R s"
  by (auto simp: dlp_dispatch_def wp_simps lagging_def settled_def dlp_report_true_def)

lemma attempt_lagging:
  assumes "settled s"
  shows "wp (attempt_create sv rq) (\<lambda>a. lagging rq a) R s"
  unfolding attempt_create_def wp_and_then
proof (rule wp_mono [OF dispatch_lagging [OF assms]])
  fix a and s' :: "'a dlp_executor"
  assume t: "lagging rq a s'"
  show "wp (case a of Inl e \<Rightarrow> if replayable e then dlp_dispatch sv rq else ret a | Inr x \<Rightarrow> ret a)
          (\<lambda>a. lagging rq a) R s'"
    using t by (auto simp: wp_simps split: sum.splits
        intro!: dispatch_lagging dest: settled_lagging replayable_rejected)
qed

lemma create_failed_true:
  assumes lag: "lagging rq a s" and a: "usable_id a = None"
    and f: "may_have_applied a \<Longrightarrow> failure \<in> {WriteUnknown, WriteUnreadable, WriteInterrupted True}"
  shows "wp (create_failed res nm renamed failure) Q (\<lambda>_. dlp_report_true) s"
proof -
  obtain before where s: "dx_sent s = before @ [(rq, a)]" "report_true before (dx_read s) (dx_outcome s)"
    using lag by (auto simp: lagging_def)
  have unknown: "report_true (dx_sent s) (dx_read s) ((dx_outcome s)\<lparr>do_unknown := Some x\<rparr>)" for x
    unfolding s(1) by (rule report_true_unusable [OF report_true_unknown [OF s(2)] a]) simp
  have known: "report_true (dx_sent s) (dx_read s) (dx_outcome s)" if "\<not> may_have_applied a"
    unfolding s(1) by (rule report_true_unusable [OF s(2) a]) (simp add: that)
  show ?thesis
    using unknown known f
    by (cases failure) (auto simp: create_failed_def wp_simps note_unknown_def dlp_report_true_def set_dlp_outcome_def)
qed

lemma classified_create_failed_true:
  "lagging rq (Inl e) s \<Longrightarrow> wp (create_failed res nm renamed (classify_write e)) Q (\<lambda>_. dlp_report_true) s"
  by (rule create_failed_true) (auto simp: usable_id_def may_have_applied_def)

text \<open>A receipt of the create \<open>rq\<close> under the id \<open>i\<close> is the one unverified record.\<close>

definition receipted :: "dlp_create \<Rightarrow> str \<Rightarrow> str \<Rightarrow> 'w dlp_executor \<Rightarrow> bool" where
  "receipted rq nm i s =
     (dlp_report_true s \<and> do_unverified (dx_outcome s) = [(create_resource rq, nm, i)]
      \<and> (\<exists>answer. (rq, answer) \<in> set (dx_sent s) \<and> usable_id answer = Some i))"

lemma receipted_same: "same_report s s' \<Longrightarrow> receipted rq nm i s' = receipted rq nm i s"
  using dlp_report_same [of s s'] unfolding receipted_def same_report_def by (metis bare_report(2))

lemma receive_receipted:
  assumes "lagging rq (Inr created) s" "dlp_id created = Some i"
  shows "wp (receive (create_resource rq) nm i) (\<lambda>_. receipted rq nm i) R s"
proof -
  obtain before where s: "dx_sent s = before @ [(rq, Inr created)]" "do_unverified (dx_outcome s) = []"
    "report_true before (dx_read s) (dx_outcome s)"
    using assms(1) by (auto simp: lagging_def)
  have i: "usable_id (Inr created) = Some i" using assms(2) by (simp add: usable_id_def)
  show ?thesis
    using report_true_received [OF s(3,2) i refl, of rq nm] i
    by (auto simp: receive_def wp_simps note_interrupt_def receipted_def dlp_report_true_def set_dlp_outcome_def s)
qed

definition verified_as :: "dlp_create \<Rightarrow> str \<Rightarrow> str \<Rightarrow> 'w dlp_executor \<Rightarrow> bool" where
  "verified_as rq nm i s = (\<forall>row. dw_name row = nm \<and> dw_id row = Some i
     \<longrightarrow> row_is_verified (dx_sent s) (dx_read s) (create_resource rq) row)"

lemma verified_as_same: "same_report s s' \<Longrightarrow> verified_as rq nm i s' = verified_as rq nm i s"
  by (simp add: verified_as_def same_report_def)

text \<open>The keywords a dictionary is compared with are those of the file that was sent.\<close>

fun sent_keywords :: "dlp_create \<Rightarrow> str list \<Rightarrow> bool" where
  "sent_keywords (NewDictionary metadata contents) kws = (dictionary_file metadata kws = Ok contents)"
| "sent_keywords _ kws = True"

lemma request_echo_kept:
  "echo_matches (request_echo rq kws record) \<Longrightarrow> sent_keywords rq kws \<Longrightarrow> sent_and_kept rq record"
  by (cases rq) auto

lemma receipted_read:
  "receipted rq nm i s \<Longrightarrow> receipted rq nm i (s\<lparr>dx_world := w, dx_read := dx_read s @ seen\<rparr>)"
  by (auto simp: receipted_def dlp_report_true_def report_true_seen)

lemma report_error [simp]: "dlp_report_true (set_dlp_outcome (\<lambda>oc. oc\<lparr>do_error := f oc\<rparr>) s) = dlp_report_true s"
  by (simp add: dlp_report_true_def set_dlp_outcome_def)

lemma wp_stopping_reads:
  "dlp_report_true s \<Longrightarrow> wp (read_back_failed e) Q (\<lambda>_. dlp_report_true) s"
  "dlp_report_true s \<Longrightarrow> wp (not_verified res nm i) Q (\<lambda>_. dlp_report_true) s"
  by (simp_all add: read_back_failed_def not_verified_def wp_simps)

lemma receipted_true: "receipted rq nm i s \<Longrightarrow> dlp_report_true s"
  by (simp add: receipted_def)

lemma read_created_true:
  assumes "receipted rq nm i s"
  shows "wp (read_created sv (create_resource rq) i)
     (\<lambda>record s'. receipted rq nm i s' \<and> (create_resource rq, i, record) \<in> set (dx_read s'))
     (\<lambda>_. dlp_report_true) s"
proof -
  let ?w = "snd (ds_get sv (create_resource rq) i (dx_world s))"
  have "receipted rq nm i (s\<lparr>dx_world := ?w\<rparr>)"
    using receipted_read [OF assms, where w = ?w and seen = "[]"] by simp
  then show ?thesis
    using receipted_read [OF assms, where w = ?w]
    by (auto simp: read_created_def wp_simps split: sum.split intro!: wp_stopping_reads dest: receipted_true)
qed

lemma verify_created_true:
  assumes s: "receipted rq nm i s" and kws: "sent_keywords rq kws"
  shows "wp (verify_created sv (create_resource rq) rq kws nm i)
     (\<lambda>_ s'. receipted rq nm i s' \<and> verified_as rq nm i s') (\<lambda>_. dlp_report_true) s"
  unfolding verify_created_def wp_and_then
proof (rule wp_mono [OF read_created_true [OF s]])
  fix found and s' :: "'a dlp_executor"
  assume a: "receipted rq nm i s' \<and> (create_resource rq, i, found) \<in> set (dx_read s')"
  let ?e = "request_echo rq kws found"
  let ?bad = "\<not> echo_matches ?e \<or> dlp_id found \<noteq> Some i \<or> json_str found ''name'' \<noteq> Some nm
     \<or> retired_record (create_resource rq) found"
  have verified: "verified_as rq nm i s'" if "\<not> ?bad"
    using that a request_echo_kept [OF _ kws, of found]
    by (auto simp: verified_as_def row_is_verified_def receipted_def)
  have "wp (and_then (add_server nm' ?e) (\<lambda>_. ret found))
      (\<lambda>_ s'. receipted rq nm i s' \<and> verified_as rq nm i s') (\<lambda>_. dlp_report_true) s'" if "\<not> ?bad" for nm'
    using a verified [OF that]
    by (intro wp_unreported [OF unreported_and_then])
      (auto simp: receipted_same verified_as_same dlp_report_same dest: receipted_true)
  then show "wp (let e = ?e in
      if \<not> echo_matches e \<or> dlp_id found \<noteq> Some i \<or> json_str found ''name'' \<noteq> Some nm
         \<or> retired_record (create_resource rq) found
      then not_verified (create_resource rq) nm i
      else and_then (add_server (resource_singular (create_resource rq) @ '' '' @ nm) e) (\<lambda>_. ret found))
      (\<lambda>_ s'. receipted rq nm i s' \<and> verified_as rq nm i s') (\<lambda>_. dlp_report_true) s'"
    using a wp_stopping_reads(2) [OF receipted_true] unfolding Let_def by (auto split: if_split)
qed

lemma report_created_settles:
  assumes "receipted rq nm i s" "verified_as rq nm i s"
    and "dw_action row = ''created''" "dw_id row = Some i" "dw_name row = nm" "res = create_resource rq"
  shows "wp (report_created res row) (\<lambda>_. settled) R s"
proof -
  have "row_is_verified (dx_sent s) (dx_read s) res row"
    using assms(2,4-6) by (simp add: verified_as_def)
  with assms show ?thesis
    by (simp add: report_created_def add_row_def wp_simps receipted_def settled_def dlp_report_true_def
        set_dlp_outcome_def report_true_verified)
qed

text \<open>What follows an accepted create.\<close>

lemma settle_create_true:
  assumes lag: "lagging rq (Inr created) s" and res: "res = create_resource rq" and kws: "sent_keywords rq kws"
    and bind: "\<And>i found. unreported (bind i found)"
  shows "wp (settle_create sv res rq kws nm renamed_from bind created) (\<lambda>_. settled) (\<lambda>_. dlp_report_true) s"
proof (cases "dlp_id created")
  case None
  with lag show ?thesis
    by (auto simp: settle_create_def usable_id_def intro!: create_failed_true)
next
  case (Some i)
  let ?row = "\<lparr>dw_name = nm, dw_action = ''created'', dw_id = Some i, dw_reason = None, dw_renamed_from = renamed_from\<rparr>"
  have bound: "wp (bind i found) (\<lambda>_. wp (report_created res ?row) (\<lambda>_. settled) (\<lambda>_. dlp_report_true))
      (\<lambda>_. dlp_report_true) s'"
    if "receipted rq nm i s'" "verified_as rq nm i s'" for found and s' :: "'a dlp_executor"
    using that by (intro wp_unreported [OF bind] report_created_settles [of rq nm i])
      (auto simp: receipted_same verified_as_same dlp_report_same res dest: receipted_true)
  have "wp (verify_created sv res rq kws nm i)
      (\<lambda>found. wp (bind i found) (\<lambda>_. wp (report_created res ?row) (\<lambda>_. settled) (\<lambda>_. dlp_report_true))
        (\<lambda>_. dlp_report_true)) (\<lambda>_. dlp_report_true) s'"
    if "receipted rq nm i s'" for s' :: "'a dlp_executor"
    unfolding res
    by (rule wp_mono [OF verify_created_true [OF that kws]]) (use bound res in auto)
  then show ?thesis
    unfolding settle_create_def Some option.case wp_and_then
    by (subst res, rule wp_mono [OF receive_receipted [OF lag Some]]) auto
qed

text \<open>A create with what follows its answer.\<close>

lemma keeps_true_create:
  assumes "\<And>e s. lagging rq (Inl e) s \<Longrightarrow> wp (failed_step e) (\<lambda>_. settled) (\<lambda>_. dlp_report_true) s"
    and "\<And>x s. lagging rq (Inr x) s \<Longrightarrow> wp (next_step x) (\<lambda>_. settled) (\<lambda>_. dlp_report_true) s"
  shows "keeps_true (and_then (attempt_create sv rq) (\<lambda>answer. case answer of
      Inl e \<Rightarrow> failed_step e | Inr x \<Rightarrow> next_step x))"
proof (rule keeps_trueI)
  fix s :: "'a dlp_executor" assume "settled s"
  then have "wp (attempt_create sv rq) (\<lambda>a. lagging rq a) (\<lambda>_. dlp_report_true) s" by (rule attempt_lagging)
  then show "wp (and_then (attempt_create sv rq) (\<lambda>answer. case answer of
      Inl e \<Rightarrow> failed_step e | Inr x \<Rightarrow> next_step x)) (\<lambda>_. settled) (\<lambda>_. dlp_report_true) s"
    unfolding wp_and_then by (rule wp_mono) (auto split: sum.splits intro: assms)
qed

section \<open>The run\<close>

lemma keeps_true_report_existing:
  assumes "act \<noteq> CreateDependency"
  shows "keeps_true (report_existing res nm act existing)"
proof -
  have "dependency_done act \<noteq> ''created''" using assms by (cases act) simp_all
  then show ?thesis
    by (simp add: report_existing_def simple_row_def keeps_true_add_row split: option.split)
qed

lemma keeps_true_dictionary: "keeps_true (restore_dictionary dv i row)"
proof -
  have "keeps_true (create_dictionary dv row metadata)" for metadata
    unfolding create_dictionary_def
    by (auto split: option.split sum.split
        intro!: keeps_true_create classified_create_failed_true settle_create_true)
  then show ?thesis
    unfolding restore_dictionary_def
    by (auto intro!: keeps_true_stage keeps_true_after keeps_true_report_existing split: option.split)
qed

lemma keeps_true_pattern: "keeps_true (restore_pattern dv i row)"
proof -
  have "keeps_true (create_pattern dv row body)" for body
    unfolding create_pattern_def
    by (auto intro!: keeps_true_create classified_create_failed_true settle_create_true)
  then show ?thesis
    unfolding restore_pattern_def
    by (auto intro!: keeps_true_stage keeps_true_after keeps_true_report_existing split: option.split)
qed

lemma settle_profile_true:
  "lagging (NewDataProfile body) (Inr created) s \<Longrightarrow>
     wp (settle_profile dv row nm body created) (\<lambda>_. settled) (\<lambda>_. dlp_report_true) s"
  unfolding settle_profile_def by (rule settle_create_true) simp_all

lemma keeps_true_renamed: "keeps_true (create_renamed dv row body)"
  unfolding create_renamed_def Let_def
  by (auto intro!: keeps_true_after keeps_true_create classified_create_failed_true settle_profile_true)

lemma conflict_not_applied: "conflict_409 e \<Longrightarrow> \<not> may_have_applied (Inl e)"
  by (simp add: conflict_409_def may_have_applied_def classify_write_def)

lemma conflict_settled: "lagging rq (Inl e) s \<Longrightarrow> conflict_409 e \<Longrightarrow> settled s"
  by (rule settled_lagging) (auto dest: conflict_not_applied)

lemma keeps_true_create_profile: "keeps_true (create_data_profile dv row body)"
  unfolding create_data_profile_def
  by (auto intro!: keeps_true_after keeps_true_create settle_profile_true classified_create_failed_true
      keeps_trueD [OF keeps_true_renamed] dest: conflict_settled)

lemma keeps_true_profile: "keeps_true (restore_data_profile dv i row)"
proof -
  have "keeps_true (verify_data_profile row body)" for body
    unfolding verify_data_profile_def Let_def by (auto intro!: keeps_true_after keeps_true_add_row)
  then show ?thesis
    unfolding restore_data_profile_def apply_data_profile_def
    by (auto intro!: keeps_true_stage keeps_true_after keeps_true_add_row keeps_true_create_profile split: sum.split option.split)
qed

lemma keeps_true_each: "(\<And>i row. keeps_true (f i row)) \<Longrightarrow> keeps_true (each_row f i rows)"
  by (induction rows arbitrary: i) (simp_all add: keeps_true_and_then)

lemma keeps_true_stages: "keeps_true (dlp_stages dv)"
  unfolding dlp_stages_def
  by (intro keeps_true_after keeps_true_and_then keeps_true_each keeps_true_dictionary keeps_true_pattern
      keeps_true_profile) simp

lemma settled_start: "settled (start_dlp dv w)"
proof -
  have "outcome_rows r no_dlp_outcome = []" for r by (cases r) (simp_all add: no_dlp_outcome_def)
  then show ?thesis
    by (simp add: settled_def dlp_report_true_def report_true_def start_dlp_def created_rows_def unverified_ids_def
        acknowledged_ids_def) (simp add: no_dlp_outcome_def)
qed

text \<open>C21: What a DLP restore reports of its creates is true, however it ends: it counts exactly the creates
  the service acknowledged with an id; each of them is a row called created or the one create listed
  as unverified, in the order they were made; a row called created was read back under that id, with its
  name, active, and as it was sent; and if a create may have been applied otherwise, one is named as
  of unknown outcome.\<close>

theorem dlp_restore_reports_its_creates:
  "dlp_report_true (snd (dlp_execute dv w))"
proof -
  obtain r s where run: "dlp_stages dv (start_dlp dv w) = (r, s)" by fastforce
  from keeps_trueD [OF keeps_true_stages settled_start, of dv dv w] run have "dlp_report_true s"
    by (auto simp: wp_def split: sum.splits dest: settled_true)
  with run show ?thesis
    by (auto simp: dlp_execute_def dlp_report_true_def Let_def split: sum.split stop.split)
qed

end
