(* ===== verification/DlpAccount.thy ===== *)
theory DlpAccount
  imports DlpExec ExecProps
begin

text \<open>
  Which creates an execution of a DLP restore plan may send and which planned items its outcome
  accounts for. \<open>dlp_steps\<close> says what a part of the executor adds to the rows of its stage and to the
  log of the creates.
\<close>

section \<open>What a step adds\<close>

definition dlp_grew :: "resource \<Rightarrow> 'w dlp_executor \<Rightarrow> 'w dlp_executor \<Rightarrow> dlp_row list \<Rightarrow> create_log \<Rightarrow> bool" where
  "dlp_grew res s s' rows lg =
     (dx_cursor s' = dx_cursor s \<and> dx_sent s' = dx_sent s @ lg
      \<and> (\<forall>r. outcome_rows r (dx_outcome s') = outcome_rows r (dx_outcome s) @ (if r = res then rows else []))
      \<and> do_not_attempted (dx_outcome s') = do_not_attempted (dx_outcome s)
      \<and> do_complete (dx_outcome s') = do_complete (dx_outcome s))"

definition dlp_steps :: "resource \<Rightarrow> (dlp_create \<Rightarrow> bool) \<Rightarrow> ('w, 'a) dlp_act \<Rightarrow> (dlp_row list \<Rightarrow> bool) \<Rightarrow> bool" where
  "dlp_steps res P m Q = (\<forall>s.
     wp m (\<lambda>_ s'. \<exists>rows lg. dlp_grew res s s' rows lg \<and> Q rows \<and> list_all (\<lambda>(rq, _). P rq) lg)
          (\<lambda>_ s'. \<exists>lg. dlp_grew res s s' [] lg \<and> list_all (\<lambda>(rq, _). P rq) lg) s)"

abbreviation silent :: "resource \<Rightarrow> (dlp_create \<Rightarrow> bool) \<Rightarrow> ('w, 'a) dlp_act \<Rightarrow> bool" where
  "silent res P m \<equiv> dlp_steps res P m (\<lambda>rows. rows = [])"

lemma dlp_stepsI:
  "(\<And>s. wp m (\<lambda>_ s'. \<exists>rows lg. dlp_grew res s s' rows lg \<and> Q rows \<and> list_all (\<lambda>(rq, _). P rq) lg)
            (\<lambda>_ s'. \<exists>lg. dlp_grew res s s' [] lg \<and> list_all (\<lambda>(rq, _). P rq) lg) s) \<Longrightarrow> dlp_steps res P m Q"
  by (simp add: dlp_steps_def)

lemma dlp_grew_trans:
  "dlp_grew res s s' [] lg \<Longrightarrow> dlp_grew res s' s'' rows lg' \<Longrightarrow> dlp_grew res s s'' rows (lg @ lg')"
  by (simp add: dlp_grew_def)

lemma dlp_steps_and_then:
  assumes "silent res P m" "\<And>x. dlp_steps res P (f x) Q"
  shows "dlp_steps res P (and_then m f) Q"
proof (rule dlp_stepsI)
  fix s :: "'a dlp_executor"
  show "wp (and_then m f) (\<lambda>_ s'. \<exists>rows lg. dlp_grew res s s' rows lg \<and> Q rows \<and> list_all (\<lambda>(rq, _). P rq) lg)
          (\<lambda>_ s'. \<exists>lg. dlp_grew res s s' [] lg \<and> list_all (\<lambda>(rq, _). P rq) lg) s"
    unfolding wp_and_then
  proof (rule wp_mono [OF assms(1) [unfolded dlp_steps_def, rule_format]])
    fix x and s' :: "'a dlp_executor"
    assume "\<exists>rows lg. dlp_grew res s s' rows lg \<and> rows = [] \<and> list_all (\<lambda>(rq, _). P rq) lg"
    then obtain lg where g: "dlp_grew res s s' [] lg" "list_all (\<lambda>(rq, _). P rq) lg" by blast
    have more: "\<exists>lg''. dlp_grew res s s'' rows lg'' \<and> list_all (\<lambda>(rq, _). P rq) lg''"
      if "dlp_grew res s' s'' rows lg'" "list_all (\<lambda>(rq, _). P rq) lg'" for s'' :: "'a dlp_executor" and rows lg'
      using dlp_grew_trans [OF g(1) that(1)] g(2) that(2) by (intro exI [of _ "lg @ lg'"]) simp
    show "wp (f x) (\<lambda>_ s'. \<exists>rows lg. dlp_grew res s s' rows lg \<and> Q rows \<and> list_all (\<lambda>(rq, _). P rq) lg)
            (\<lambda>_ s'. \<exists>lg. dlp_grew res s s' [] lg \<and> list_all (\<lambda>(rq, _). P rq) lg) s'"
      by (rule wp_mono [OF assms(2) [unfolded dlp_steps_def, rule_format]]) (use more in blast)+
  qed
qed

lemma bare_grew:
  assumes "same_report s s'"
  shows "dlp_grew res s s' [] []"
proof -
  have rows: "outcome_rows r (bare oc) = outcome_rows r oc" for r oc by (cases r) (simp_all add: bare_def)
  have rest: "do_not_attempted (bare oc) = do_not_attempted oc" "do_complete (bare oc) = do_complete oc" for oc
    by (simp_all add: bare_def)
  have "outcome_rows r (dx_outcome s') = outcome_rows r (dx_outcome s)" for r
    using assms rows unfolding same_report_def by metis
  moreover have "do_not_attempted (dx_outcome s') = do_not_attempted (dx_outcome s)"
    "do_complete (dx_outcome s') = do_complete (dx_outcome s)"
    using assms rest unfolding same_report_def by metis+
  ultimately show ?thesis using assms by (simp add: dlp_grew_def same_report_def)
qed

lemma silent_unreported [simp]:
  assumes "unreported m"
  shows "silent res P m"
proof (rule dlp_stepsI, rule wp_unreported [OF assms])
  fix s s' :: "'a dlp_executor" assume "same_report s s'"
  from bare_grew [OF this, of res]
  show "\<exists>rows lg. dlp_grew res s s' rows lg \<and> rows = [] \<and> list_all (\<lambda>(rq, _). P rq) lg"
    "\<exists>lg. dlp_grew res s s' [] lg \<and> list_all (\<lambda>(rq, _). P rq) lg"
    by (auto intro!: exI [of _ "[]"])
qed

lemma dlp_steps_after: "unreported m \<Longrightarrow> (\<And>x. dlp_steps res P (f x) Q) \<Longrightarrow> dlp_steps res P (and_then m f) Q"
  by (rule dlp_steps_and_then [OF silent_unreported])

text \<open>A part that only stops is followed by anything.\<close>

lemma dlp_steps_fail [simp]: "dlp_steps res P (fail e) Q"
  by (rule dlp_stepsI) (auto simp: wp_simps dlp_grew_def)

lemma dlp_steps_stop [simp]: "dlp_steps res P (dlp_fail m) Q"
proof (rule dlp_stepsI)
  fix s :: "'a dlp_executor"
  have "dlp_grew res s (set_dlp_outcome (\<lambda>oc. oc\<lparr>do_error := Some (m @ unverified_note oc)\<rparr>) s) [] []"
    by (rule bare_grew) simp
  then show "wp (dlp_fail m) (\<lambda>_ s'. \<exists>rows lg. dlp_grew res s s' rows lg \<and> Q rows \<and> list_all (\<lambda>(rq, _). P rq) lg)
      (\<lambda>_ s'. \<exists>lg. dlp_grew res s s' [] lg \<and> list_all (\<lambda>(rq, _). P rq) lg) s"
    unfolding wp_dlp_fail by (intro exI [of _ "[]"]) simp
qed

lemma silent_update:
  assumes "\<And>s. dlp_grew res s (f s) [] []"
  shows "silent res P (modifies f)"
  by (rule dlp_stepsI) (use assms in \<open>fastforce simp: wp_simps\<close>)

lemma silent_outcome:
  assumes "\<And>r oc. outcome_rows r (f oc) = outcome_rows r oc"
    and "\<And>oc. do_not_attempted (f oc) = do_not_attempted oc" "\<And>oc. do_complete (f oc) = do_complete oc"
  shows "silent res P (modifies (set_dlp_outcome f))"
  by (rule silent_update) (simp add: dlp_grew_def set_dlp_outcome_def assms)

lemma silent_note_unknown [simp]: "silent res P (note_unknown r nm)"
  unfolding note_unknown_def
proof (rule silent_outcome)
  show "outcome_rows ra (oc\<lparr>do_unknown := Some (r, nm)\<rparr>) = outcome_rows ra oc" for ra oc by (cases ra) simp_all
qed simp_all

lemma dlp_steps_create_failed [simp]: "dlp_steps res P (create_failed r nm renamed failure) Q"
  by (cases failure) (simp_all add: create_failed_def dlp_steps_and_then)

lemma silent_receive [simp]: "silent res P (receive r nm i)"
proof -
  have "outcome_rows ra (oc\<lparr>do_created := n, do_unverified := us\<rparr>) = outcome_rows ra oc" for ra oc n us
    by (cases ra) simp_all
  then show ?thesis
    unfolding receive_def by (auto intro!: dlp_steps_and_then silent_outcome)
qed

lemma push_row_frame [simp]:
  "do_not_attempted (push_row res row oc) = do_not_attempted oc" "do_complete (push_row res row oc) = do_complete oc"
  by (cases res; simp)+

lemma dlp_steps_add_row: "Q [row] \<Longrightarrow> dlp_steps res P (add_row res row) Q"
  by (rule dlp_stepsI)
    (auto simp: add_row_def wp_simps dlp_grew_def set_dlp_outcome_def outcome_rows_push intro!: exI [of _ "[row]"])

lemma dlp_steps_report_created:
  assumes "Q [row]"
  shows "dlp_steps res P (report_created res row) Q"
proof -
  have "outcome_rows ra (oc\<lparr>do_unverified := us\<rparr>) = outcome_rows ra oc" for ra oc us
    by (cases ra) simp_all
  with assms show ?thesis
    by (intro dlp_stepsI)
      (auto simp: report_created_def add_row_def wp_simps dlp_grew_def set_dlp_outcome_def outcome_rows_push
        intro!: exI [of _ "[row]"])
qed

lemma silent_dispatch: "P rq \<Longrightarrow> silent res P (dlp_dispatch sv rq)"
  by (rule dlp_stepsI) (auto simp: dlp_dispatch_def wp_simps dlp_grew_def)

lemma silent_attempt: "P rq \<Longrightarrow> silent res P (attempt_create sv rq)"
  unfolding attempt_create_def
  by (auto intro!: dlp_steps_and_then silent_dispatch split: sum.split)

lemma silent_read_created [simp]: "silent res P (read_created sv r i)"
proof -
  have "dlp_steps res P (read_back_failed e) Q" for e and Q by (simp add: read_back_failed_def)
  then show ?thesis
    unfolding read_created_def
    by (auto intro!: dlp_steps_and_then silent_update simp: dlp_grew_def split: sum.split)
qed

lemma silent_verify_created [simp]: "silent res P (verify_created sv r rq kws nm i)"
  unfolding verify_created_def Let_def not_verified_def by (auto intro!: dlp_steps_and_then)

section \<open>One item\<close>

text \<open>What the plan lets the executor send for a row.\<close>

definition dictionary_create :: "dictionary_plan \<Rightarrow> dlp_create \<Rightarrow> bool" where
  "dictionary_create row rq = (dp_action row = CreateDependency
     \<and> (\<exists>metadata contents. dp_metadata row = Some metadata
          \<and> dictionary_file metadata (dp_keywords row) = Ok contents \<and> rq = NewDictionary metadata contents))"

definition pattern_create :: "pattern_plan \<Rightarrow> dlp_create \<Rightarrow> bool" where
  "pattern_create row rq = (pt_action row = CreateDependency \<and> (\<exists>body. pt_body row = Some body \<and> rq = NewPattern body))"

definition profile_create :: "'w dlp_env \<Rightarrow> data_profile_plan \<Rightarrow> dlp_create \<Rightarrow> bool" where
  "profile_create dv row rq = (fp_action row = CreateData
     \<and> (\<exists>bs body. dlp_profile_request (dv_writers dv) (dv_schemas dv) row bs (crosses_tenants (dv_plan dv)) True
              = Ok (Some body)
          \<and> (rq = NewDataProfile body
             \<or> pl_reconcile (dv_plan dv) \<and> rq = NewDataProfile (put_field ''name'' (JString (final_name dv row)) body))))"

text \<open>A row of the result for a planned name: a profile may have been restored under another name.\<close>

definition row_for :: "str \<Rightarrow> dlp_row \<Rightarrow> bool" where
  "row_for nm row = (dw_name row = nm \<or> dw_renamed_from row = Some nm)"

definition one_row :: "str \<Rightarrow> dlp_row list \<Rightarrow> bool" where
  "one_row nm rows = (\<exists>row. rows = [row] \<and> row_for nm row)"

lemma one_row_simps [simp]:
  "one_row nm [\<lparr>dw_name = nm, dw_action = a, dw_id = i, dw_reason = why, dw_renamed_from = f\<rparr>]"
  "one_row nm [\<lparr>dw_name = nm', dw_action = a, dw_id = i, dw_reason = why, dw_renamed_from = Some nm\<rparr>]"
  by (simp_all add: one_row_def row_for_def)

lemma dlp_steps_reads: "(\<And>s. dlp_steps res P (f (g s)) Q) \<Longrightarrow> dlp_steps res P (and_then (reads g) f) Q"
  by (simp add: dlp_steps_def wp_simps)

lemma dlp_steps_settle:
  assumes "one_row planned [\<lparr>dw_name = nm, dw_action = ''created'', dw_id = None, dw_reason = None,
      dw_renamed_from = renamed_from\<rparr>]" and "\<And>i found. unreported (bind i found)"
  shows "dlp_steps res P (settle_create sv res rq kws nm renamed_from bind created) (one_row planned)"
proof -
  have "one_row planned [\<lparr>dw_name = nm, dw_action = ''created'', dw_id = Some i, dw_reason = None,
      dw_renamed_from = renamed_from\<rparr>]" for i
    using assms(1) by (simp add: one_row_def row_for_def)
  then show ?thesis
    unfolding settle_create_def
    by (auto intro!: dlp_steps_and_then dlp_steps_report_created silent_unreported [OF assms(2)] split: option.split)
qed

lemma dlp_steps_existing: "dlp_steps res P (report_existing res nm act existing) (one_row nm)"
  unfolding report_existing_def simple_row_def
  by (auto intro!: dlp_steps_add_row split: option.split)

lemma dlp_steps_create:
  assumes "P rq" "\<And>e. dlp_steps res P (failed_step e) Q" "\<And>x. dlp_steps res P (next_step x) Q"
  shows "dlp_steps res P (and_then (attempt_create sv rq) (\<lambda>answer. case answer of
      Inl e \<Rightarrow> failed_step e | Inr x \<Rightarrow> next_step x)) Q"
  using assms by (auto intro!: dlp_steps_and_then silent_attempt split: sum.split)

lemma dictionary_steps:
  "dlp_steps Dictionaries (dictionary_create row)
     (if dp_action row \<noteq> CreateDependency
      then report_existing Dictionaries (dp_name row) (dp_action row) (dp_existing row)
      else and_then (dlp_checkpoint (dv_service dv)) (\<lambda>_. case dp_metadata row of
          None \<Rightarrow> dlp_fail ''Dictionary plan is incomplete''
        | Some metadata \<Rightarrow> create_dictionary dv row metadata)) (one_row (dp_name row))"
proof -
  have "dlp_steps Dictionaries (dictionary_create row) (create_dictionary dv row metadata) (one_row (dp_name row))"
    if "dp_action row = CreateDependency" "dp_metadata row = Some metadata" for metadata
    unfolding create_dictionary_def
    by (auto split: option.split sum.split intro!: dlp_steps_create dlp_steps_settle
        simp: dictionary_create_def that)
  then show ?thesis
    by (auto intro!: dlp_steps_after dlp_steps_existing split: option.split)
qed

lemma pattern_steps:
  "dlp_steps Patterns (pattern_create row)
     (if pt_action row \<noteq> CreateDependency
      then report_existing Patterns (pt_name row) (pt_action row) (pt_existing row)
      else and_then (dlp_checkpoint (dv_service dv)) (\<lambda>_. case pt_body row of
          None \<Rightarrow> dlp_fail ''Data pattern plan is incomplete''
        | Some body \<Rightarrow> create_pattern dv row body)) (one_row (pt_name row))"
proof -
  have "dlp_steps Patterns (pattern_create row) (create_pattern dv row body) (one_row (pt_name row))"
    if "pt_action row = CreateDependency" "pt_body row = Some body" for body
    unfolding create_pattern_def
    by (auto intro!: dlp_steps_create dlp_steps_settle simp: pattern_create_def that)
  then show ?thesis
    by (auto intro!: dlp_steps_after dlp_steps_existing split: option.split)
qed

lemma settle_profile_steps:
  "dlp_steps DataProfiles P (settle_profile dv row nm body created) (one_row (fp_name row))"
  unfolding settle_profile_def by (rule dlp_steps_settle) auto

lemma profile_steps:
  "dlp_steps DataProfiles (profile_create dv row)
     (if fp_action row = SkipData
      then add_row DataProfiles \<lparr>dw_name = fp_name row, dw_action = ''skipped'',
             dw_id = Option.bind (fp_existing row) dlp_id, dw_reason = fp_reason row, dw_renamed_from = None\<rparr>
      else apply_data_profile dv row) (one_row (fp_name row))"
proof -
  let ?request = "\<lambda>bs. dlp_profile_request (dv_writers dv) (dv_schemas dv) row bs (crosses_tenants (dv_plan dv)) True"
  have renamed: "dlp_steps DataProfiles (profile_create dv row) (create_renamed dv row body) (one_row (fp_name row))"
    if that: "fp_action row = CreateData" "?request bs = Ok (Some body)" "pl_reconcile (dv_plan dv)" for bs body
  proof -
    have "profile_create dv row (NewDataProfile (put_field ''name'' (JString (final_name dv row)) body))"
      unfolding profile_create_def using that by blast
    then show ?thesis
      unfolding create_renamed_def Let_def
      by (auto intro!: dlp_steps_after [OF unreported_checkpoint] dlp_steps_create settle_profile_steps)
  qed
  have create: "dlp_steps DataProfiles (profile_create dv row) (create_data_profile dv row body) (one_row (fp_name row))"
    if that: "fp_action row = CreateData" "?request bs = Ok (Some body)" for bs body
  proof -
    have "profile_create dv row (NewDataProfile body)"
      unfolding profile_create_def using that by blast
    then show ?thesis
      unfolding create_data_profile_def
      using that renamed
      by (auto intro!: dlp_steps_after [OF unreported_checkpoint] dlp_steps_create settle_profile_steps)
  qed
  have verify: "dlp_steps DataProfiles P (verify_data_profile row body) (one_row (fp_name row))" for P body
    unfolding verify_data_profile_def Let_def by (auto intro!: dlp_steps_after dlp_steps_add_row)
  have applied: "dlp_steps DataProfiles (profile_create dv row) (apply_data_profile dv row) (one_row (fp_name row))"
    if "fp_action row \<noteq> SkipData"
    unfolding apply_data_profile_def
    using that create verify
    by (cases "fp_action row") (auto intro!: dlp_steps_reads split: sum.split option.split)
  then show ?thesis by (auto intro!: dlp_steps_add_row)
qed

section \<open>The run\<close>

definition planned_names :: "dlp_plan \<Rightarrow> resource \<Rightarrow> str list" where
  "planned_names plan res = (case res of
      Dictionaries \<Rightarrow> map dp_name (pl_dictionaries plan)
    | Patterns \<Rightarrow> map pt_name (pl_patterns plan)
    | DataProfiles \<Rightarrow> map fp_name (pl_profiles plan))"

definition planned_create :: "'w dlp_env \<Rightarrow> dlp_create \<Rightarrow> bool" where
  "planned_create dv rq =
     ((\<exists>row \<in> set (pl_dictionaries (dv_plan dv)). dictionary_create row rq)
      \<or> (\<exists>row \<in> set (pl_patterns (dv_plan dv)). pattern_create row rq)
      \<or> (\<exists>row \<in> set (pl_profiles (dv_plan dv)). profile_create dv row rq))"

text \<open>What a stage has done of its rows since the state \<open>s\<close>.\<close>

definition stage_did :: "(dlp_create \<Rightarrow> bool) \<Rightarrow> resource \<Rightarrow> str list \<Rightarrow> 'w dlp_executor \<Rightarrow> 'w dlp_executor \<Rightarrow> bool" where
  "stage_did P res names s s' =
     (\<exists>rows lg. dlp_grew res (s\<lparr>dx_cursor := dx_cursor s'\<rparr>) s' rows lg \<and> list_all2 row_for names rows
        \<and> list_all (\<lambda>(rq, _). P rq) lg)"

lemma stage_did_trans:
  assumes "stage_did P res names s s'" "stage_did P res names' s' s''"
  shows "stage_did P res (names @ names') s s''"
proof -
  obtain rows lg where a: "dlp_grew res (s\<lparr>dx_cursor := dx_cursor s'\<rparr>) s' rows lg" "list_all2 row_for names rows"
    "list_all (\<lambda>(rq, _). P rq) lg" using assms(1) by (auto simp: stage_did_def)
  obtain rows' lg' where b: "dlp_grew res (s'\<lparr>dx_cursor := dx_cursor s''\<rparr>) s'' rows' lg'"
    "list_all2 row_for names' rows'" "list_all (\<lambda>(rq, _). P rq) lg'" using assms(2) by (auto simp: stage_did_def)
  have "dlp_grew res (s\<lparr>dx_cursor := dx_cursor s''\<rparr>) s'' (rows @ rows') (lg @ lg')"
    using a(1) b(1) by (simp add: dlp_grew_def)
  then show ?thesis
    unfolding stage_did_def using a(2,3) b(2,3)
    by (intro exI [of _ "rows @ rows'"] exI [of _ "lg @ lg'"]) (simp add: list_all2_appendI)
qed

lemma stage_did_none: "stage_did P res [] s s"
  unfolding stage_did_def by (intro exI [of _ "[]"]) (simp add: dlp_grew_def)

lemma staged_item:
  assumes "dlp_steps res P m (one_row nm)"
  shows "wp (and_then (set_stage stage i) (\<lambda>_. m)) (\<lambda>_ s'. stage_did P res [nm] s s')
     (\<lambda>_ s'. stage_did P res [] s s' \<and> dx_cursor s' = Some (stage, i)) s"
proof -
  let ?s = "s\<lparr>dx_cursor := Some (stage, i)\<rparr>"
  have "wp m (\<lambda>_ s'. \<exists>rows lg. dlp_grew res ?s s' rows lg \<and> one_row nm rows \<and> list_all (\<lambda>(rq, _). P rq) lg)
          (\<lambda>_ s'. \<exists>lg. dlp_grew res ?s s' [] lg \<and> list_all (\<lambda>(rq, _). P rq) lg) ?s"
    using assms unfolding dlp_steps_def by blast
  then show ?thesis
    unfolding set_stage_def wp_and_then wp_modifies
    by (rule wp_mono) (fastforce simp: stage_did_def dlp_grew_def one_row_def)+
qed

lemma stage_did_mono: "stage_did P res names s s' \<Longrightarrow> (\<And>rq. P rq \<Longrightarrow> P' rq) \<Longrightarrow> stage_did P' res names s s'"
  unfolding stage_did_def by (fastforce simp: list_all_iff)

lemma each_row_run:
  fixes s :: "'w dlp_executor"
  assumes "\<And>i row (s :: 'w dlp_executor). row \<in> set rows \<Longrightarrow>
     wp (f i row) (\<lambda>_ s'. stage_did P res [nm row] s s')
       (\<lambda>_ s'. stage_did P res [] s s' \<and> dx_cursor s' = Some (stage, i)) s"
  shows "wp (each_row f i rows) (\<lambda>_ s'. stage_did P res (map nm rows) s s')
     (\<lambda>_ s'. \<exists>k < length rows. stage_did P res (map nm (take k rows)) s s'
        \<and> dx_cursor s' = Some (stage, i + k)) s"
  using assms
proof (induction rows arbitrary: i s)
  case Nil
  then show ?case by (simp add: wp_simps stage_did_none)
next
  case (Cons row rows)
  show ?case
    unfolding each_row.simps wp_and_then
  proof (rule wp_mono [OF Cons.prems])
    fix u and s' :: "'w dlp_executor"
    assume did: "stage_did P res [nm row] s s'"
    have "wp (each_row f (Suc i) rows) (\<lambda>_ s''. stage_did P res (map nm rows) s' s'')
        (\<lambda>_ s''. \<exists>k < length rows. stage_did P res (map nm (take k rows)) s' s''
           \<and> dx_cursor s'' = Some (stage, Suc i + k)) s'"
      by (rule Cons.IH) (rule Cons.prems, simp)
    then show "wp (each_row f (Suc i) rows) (\<lambda>_ s'. stage_did P res (map nm (row # rows)) s s')
        (\<lambda>_ s'. \<exists>k < length (row # rows). stage_did P res (map nm (take k (row # rows))) s s'
           \<and> dx_cursor s' = Some (stage, i + k)) s'"
    proof (rule wp_mono)
      fix e and s'' :: "'w dlp_executor"
      assume "\<exists>k < length rows. stage_did P res (map nm (take k rows)) s' s'' \<and> dx_cursor s'' = Some (stage, Suc i + k)"
      then obtain k where k: "k < length rows" "stage_did P res (map nm (take k rows)) s' s''"
        "dx_cursor s'' = Some (stage, Suc i + k)" by blast
      then show "\<exists>k < length (row # rows). stage_did P res (map nm (take k (row # rows))) s s''
          \<and> dx_cursor s'' = Some (stage, i + k)"
        using stage_did_trans [OF did k(2)] by (intro exI [of _ "Suc k"]) simp
    qed (use stage_did_trans [OF did] in simp)
  next
    fix e and s' :: "'w dlp_executor"
    assume "stage_did P res [] s s' \<and> dx_cursor s' = Some (stage, i)"
    then show "\<exists>k < length (row # rows). stage_did P res (map nm (take k (row # rows))) s s'
        \<and> dx_cursor s' = Some (stage, i + k)"
      by (intro exI [of _ 0]) simp
  qed simp
qed

fun stage_no :: "resource \<Rightarrow> nat" where
  "stage_no Dictionaries = 0"
| "stage_no Patterns = 1"
| "stage_no DataProfiles = 2"

text \<open>The planned names before the cursor, the item under it excluded.\<close>

definition done_names :: "dlp_plan \<Rightarrow> (nat \<times> nat) option \<Rightarrow> resource \<Rightarrow> str list" where
  "done_names plan place res = (case place of
      None \<Rightarrow> []
    | Some (stage, i) \<Rightarrow>
        if stage_no res < stage then planned_names plan res
        else if stage_no res = stage then take i (planned_names plan res) else [])"

lemma done_names_None: "done_names plan None = (\<lambda>_. [])"
  by (rule ext) (simp add: done_names_def)

definition names_done :: "'w dlp_env \<Rightarrow> (resource \<Rightarrow> str list) \<Rightarrow> 'w dlp_executor \<Rightarrow> bool" where
  "names_done dv names s =
     ((\<forall>res. list_all2 row_for (names res) (outcome_rows res (dx_outcome s)))
      \<and> list_all (\<lambda>(rq, _). planned_create dv rq) (dx_sent s)
      \<and> do_not_attempted (dx_outcome s) = [] \<and> \<not> do_complete (dx_outcome s))"

definition dlp_stopped :: "'w dlp_env \<Rightarrow> 'w dlp_executor \<Rightarrow> bool" where
  "dlp_stopped dv s =
     (names_done dv (done_names (dv_plan dv) (dx_cursor s)) s
      \<and> (case dx_cursor s of None \<Rightarrow> True
         | Some (stage, i) \<Rightarrow> \<exists>res. stage_no res = stage \<and> i < length (planned_names (dv_plan dv) res)))"

lemma ran_stage:
  assumes "names_done dv names s" "stage_did P res more_names s s'" "\<And>rq. P rq \<Longrightarrow> planned_create dv rq"
    and "names res = []" "\<And>r. names' r = (if r = res then more_names else names r)"
  shows "names_done dv names' s'"
proof -
  obtain rows lg where g: "dlp_grew res (s\<lparr>dx_cursor := dx_cursor s'\<rparr>) s' rows lg"
    "list_all2 row_for more_names rows" "list_all (\<lambda>(rq, _). P rq) lg"
    using assms(2) by (auto simp: stage_did_def)
  have sent: "list_all (\<lambda>(rq, _). planned_create dv rq) lg" using g(3) assms(3) by (auto simp: list_all_iff)
  have empty: "outcome_rows res (dx_outcome s) = []"
    using assms(1,4) by (auto simp: names_done_def dest: spec [of _ res])
  show ?thesis
    using g(1,2) sent assms(1) empty by (auto simp: names_done_def dlp_grew_def assms(5))
qed

text \<open>One stage of the run.\<close>

lemma stage_run:
  fixes s :: "'w dlp_executor"
  assumes ran: "names_done dv names s" and empty: "names res = []" and stage: "stage = stage_no res"
    and before: "\<And>r. names r = (if stage_no r < stage then planned_names (dv_plan dv) r else [])"
    and plan: "planned_names (dv_plan dv) res = map nm rows"
    and planned: "\<And>rq. P rq \<Longrightarrow> planned_create dv rq"
    and item: "\<And>i row (s :: 'w dlp_executor). row \<in> set rows \<Longrightarrow>
       wp (f i row) (\<lambda>_ s'. stage_did P res [nm row] s s')
         (\<lambda>_ s'. stage_did P res [] s s' \<and> dx_cursor s' = Some (stage, i)) s"
  shows "wp (each_row f 0 rows)
     (\<lambda>_. names_done dv (\<lambda>r. if stage_no r < Suc stage then planned_names (dv_plan dv) r else []))
     (\<lambda>_. dlp_stopped dv) s"
proof (rule wp_mono [OF each_row_run [OF item]])
  have other: "stage_no r < stage \<or> stage < stage_no r" if "r \<noteq> res" for r
    using that stage by (cases r; cases res) simp_all
  fix u and s' :: "'w dlp_executor"
  {
    assume "stage_did P res (map nm rows) s s'"
    then show "names_done dv (\<lambda>r. if stage_no r < Suc stage then planned_names (dv_plan dv) r else []) s'"
      by (rule ran_stage [OF ran _ planned empty])
        (auto simp: plan stage before dest: other)
  next
    fix e
    assume "\<exists>k < length rows. stage_did P res (map nm (take k rows)) s s' \<and> dx_cursor s' = Some (stage, 0 + k)"
    then obtain k where k: "k < length rows" "stage_did P res (map nm (take k rows)) s s'"
      "dx_cursor s' = Some (stage, k)" by auto
    have "names_done dv (done_names (dv_plan dv) (dx_cursor s')) s'"
      by (rule ran_stage [OF ran k(2) planned empty])
        (auto simp: k(3) done_names_def plan stage before take_map dest: other)
    then show "dlp_stopped dv s'"
      using k(1,3) plan stage by (auto simp: dlp_stopped_def)
  }
qed simp

lemma item_weaken:
  assumes "wp m (\<lambda>_ s'. stage_did P res names s s') (\<lambda>_ s'. stage_did P res [] s s' \<and> c s') s"
    and "\<And>rq. P rq \<Longrightarrow> P' rq"
  shows "wp m (\<lambda>_ s'. stage_did P' res names s s') (\<lambda>_ s'. stage_did P' res [] s s' \<and> c s') s"
  by (rule wp_mono [OF assms(1)]) (auto intro: stage_did_mono assms(2))

lemma dictionary_item:
  "row \<in> set (pl_dictionaries (dv_plan dv)) \<Longrightarrow>
     wp (restore_dictionary dv i row) (\<lambda>_ s'. stage_did (planned_create dv) Dictionaries [dp_name row] s s')
       (\<lambda>_ s'. stage_did (planned_create dv) Dictionaries [] s s' \<and> dx_cursor s' = Some (0, i)) s"
  unfolding restore_dictionary_def
  by (rule item_weaken [OF staged_item [OF dictionary_steps]]) (auto simp: planned_create_def)

lemma pattern_item:
  "row \<in> set (pl_patterns (dv_plan dv)) \<Longrightarrow>
     wp (restore_pattern dv i row) (\<lambda>_ s'. stage_did (planned_create dv) Patterns [pt_name row] s s')
       (\<lambda>_ s'. stage_did (planned_create dv) Patterns [] s s' \<and> dx_cursor s' = Some (1, i)) s"
  unfolding restore_pattern_def
  by (rule item_weaken [OF staged_item [OF pattern_steps]]) (auto simp: planned_create_def)

lemma profile_item:
  "row \<in> set (pl_profiles (dv_plan dv)) \<Longrightarrow>
     wp (restore_data_profile dv i row) (\<lambda>_ s'. stage_did (planned_create dv) DataProfiles [fp_name row] s s')
       (\<lambda>_ s'. stage_did (planned_create dv) DataProfiles [] s s' \<and> dx_cursor s' = Some (2, i)) s"
  unfolding restore_data_profile_def
  by (rule item_weaken [OF staged_item [OF profile_steps]]) (auto simp: planned_create_def)

lemma recheck_ran:
  assumes "same_report (start_dlp dv w) s"
  shows "names_done dv (\<lambda>_. []) s" "dx_cursor s = None"
proof -
  have "outcome_rows r no_dlp_outcome = []" for r by (cases r) (simp_all add: no_dlp_outcome_def)
  moreover have "do_not_attempted no_dlp_outcome = []" "\<not> do_complete no_dlp_outcome"
    by (simp_all add: no_dlp_outcome_def)
  ultimately show "names_done dv (\<lambda>_. []) s" "dx_cursor s = None"
    using bare_grew [OF assms, of Dictionaries] by (simp_all add: names_done_def dlp_grew_def start_dlp_def)
qed

lemma dlp_stages_run:
  "wp (dlp_stages dv) (\<lambda>_. names_done dv (planned_names (dv_plan dv))) (\<lambda>_. dlp_stopped dv) (start_dlp dv w)"
proof -
  let ?ran = "\<lambda>n s. names_done dv (\<lambda>r. if stage_no r < n then planned_names (dv_plan dv) r else []) s"
  note stage = stage_run [where P = "planned_create dv" and dv = dv]
  have profiles: "wp (each_row (restore_data_profile dv) 0 (pl_profiles (dv_plan dv))) (\<lambda>_. ?ran (Suc 2))
      (\<lambda>_. dlp_stopped dv) s" if "?ran 2 s" for s
    by (rule stage [OF that, where res = DataProfiles and nm = fp_name])
      (auto simp: planned_names_def intro: profile_item)
  have patterns: "wp (each_row (restore_pattern dv) 0 (pl_patterns (dv_plan dv))) (\<lambda>_. ?ran (Suc 1))
      (\<lambda>_. dlp_stopped dv) s" if "?ran 1 s" for s
    by (rule stage [OF that, where res = Patterns and nm = pt_name])
      (auto simp: planned_names_def intro: pattern_item [simplified])
  have dictionaries: "wp (each_row (restore_dictionary dv) 0 (pl_dictionaries (dv_plan dv))) (\<lambda>_. ?ran (Suc 0))
      (\<lambda>_. dlp_stopped dv) s" if "?ran 0 s" for s
    by (rule stage [OF that, where res = Dictionaries and nm = dp_name])
      (auto simp: planned_names_def intro: dictionary_item)
  have all: "(if stage_no r < Suc 2 then planned_names (dv_plan dv) r else []) = planned_names (dv_plan dv) r" for r
    by (cases r) simp_all
  show ?thesis
    unfolding dlp_stages_def wp_and_then
  proof (rule wp_unreported [OF unreported_recheck])
    fix s' assume "same_report (start_dlp dv w) s'"
    then have "?ran 0 s'" using recheck_ran(1) [of dv w s'] by simp
    from dictionaries [OF this]
    show "wp (each_row (restore_dictionary dv) 0 (pl_dictionaries (dv_plan dv)))
        (\<lambda>_. wp (each_row (restore_pattern dv) 0 (pl_patterns (dv_plan dv)))
          (\<lambda>_. wp (each_row (restore_data_profile dv) 0 (pl_profiles (dv_plan dv)))
            (\<lambda>_. names_done dv (planned_names (dv_plan dv))) (\<lambda>_. dlp_stopped dv)) (\<lambda>_. dlp_stopped dv))
        (\<lambda>_. dlp_stopped dv) s'"
    proof (rule wp_mono)
      fix s2 assume "?ran (Suc 0) s2"
      then have "?ran 1 s2" by simp
      from patterns [OF this]
      show "wp (each_row (restore_pattern dv) 0 (pl_patterns (dv_plan dv)))
          (\<lambda>_. wp (each_row (restore_data_profile dv) 0 (pl_profiles (dv_plan dv)))
            (\<lambda>_. names_done dv (planned_names (dv_plan dv))) (\<lambda>_. dlp_stopped dv)) (\<lambda>_. dlp_stopped dv) s2"
      proof (rule wp_mono)
        fix s3 assume "?ran (Suc 1) s3"
        then have "?ran 2 s3" by (simp add: numeral_2_eq_2)
        from profiles [OF this] show "wp (each_row (restore_data_profile dv) 0 (pl_profiles (dv_plan dv)))
            (\<lambda>_. names_done dv (planned_names (dv_plan dv))) (\<lambda>_. dlp_stopped dv) s3"
          by (simp only: all)
      qed
    qed
  next
    fix s' assume "same_report (start_dlp dv w) s'"
    from recheck_ran [OF this] show "dlp_stopped dv s'" by (simp add: dlp_stopped_def done_names_None)
  qed
qed

section \<open>The accounting\<close>

definition not_attempted_of :: "resource \<Rightarrow> dlp_outcome \<Rightarrow> str list" where
  "not_attempted_of res oc = map snd (filter (\<lambda>(r, _). r = res) (do_not_attempted oc))"

text \<open>
  The rows of a resource stand for a prefix of its planned items; what is left is the item that
  stopped the run, if it is one of this resource, and the items not attempted.
\<close>

definition dlp_accounts :: "dlp_plan \<Rightarrow> dlp_outcome \<Rightarrow> bool" where
  "dlp_accounts plan oc =
     (\<exists>stopped. (do_complete oc \<longrightarrow> stopped = None \<and> do_not_attempted oc = [])
        \<and> (\<forall>res. \<exists>k. list_all2 row_for (take k (planned_names plan res)) (outcome_rows res oc)
             \<and> drop k (planned_names plan res)
                 = (case stopped of Some (r, nm) \<Rightarrow> if r = res then [nm] else [] | None \<Rightarrow> [])
                   @ not_attempted_of res oc))"

lemma names_of_resource:
  "map snd (filter (\<lambda>(r, _). r = res) (map (\<lambda>(i, nm). (r', nm)) xs)) = (if r' = res then map snd xs else [])"
  by (induction xs) auto

lemma map_snd_enumerate: "map snd (enumerate n xs) = xs"
  by (induction xs arbitrary: n) simp_all

lemma every_row: "filter (\<lambda>(_, _). True) xs = xs"
  by (simp add: split_def)

lemma later_names:
  "map snd (filter (\<lambda>(j, _). b \<or> c \<and> i < j) (enumerate 0 xs))
     = (if b then xs else if c then drop (Suc i) xs else [])"
  using after_names [of "\<lambda>x. x" i xs] by (auto simp: map_snd_enumerate split_def)

lemma not_attempted_names:
  "map snd (filter (\<lambda>(r, _). r = res) (dlp_not_attempted plan place))
     = (case place of None \<Rightarrow> planned_names plan res
        | Some (stage, i) \<Rightarrow>
            if stage < stage_no res then planned_names plan res
            else if stage_no res = stage then drop (Suc i) (planned_names plan res)
            else [])"
proof (cases place)
  case None
  show ?thesis
    unfolding None dlp_not_attempted_def Let_def
    by (simp only: filter_append map_append names_of_resource option.case every_row map_snd_enumerate)
      (cases res, simp_all add: planned_names_def)
next
  case (Some p)
  obtain stage i where p: "p = (stage, i)" by fastforce
  show ?thesis
    unfolding Some p dlp_not_attempted_def Let_def
    by (simp only: filter_append map_append names_of_resource option.case prod.case later_names)
      (cases res, simp_all add: planned_names_def)
qed

lemma stopped_accounts:
  assumes "dlp_stopped dv s"
  shows "dlp_accounts (dv_plan dv) ((dx_outcome s)\<lparr>do_not_attempted := dlp_not_attempted (dv_plan dv) (dx_cursor s)\<rparr>)"
    (is "dlp_accounts _ ?oc")
proof -
  let ?names = "planned_names (dv_plan dv)"
  have rows: "outcome_rows r ?oc = outcome_rows r (dx_outcome s)" for r by (cases r) simp_all
  have finished: "list_all2 row_for (done_names (dv_plan dv) (dx_cursor s) r) (outcome_rows r (dx_outcome s))" for r
    using assms by (simp add: dlp_stopped_def names_done_def)
  have unfinished: "\<not> do_complete ?oc" using assms by (simp add: dlp_stopped_def names_done_def)
  have rest: "not_attempted_of r ?oc = map snd (filter (\<lambda>(r', _). r' = r) (dlp_not_attempted (dv_plan dv) (dx_cursor s)))" for r
    by (simp add: not_attempted_of_def)
  show ?thesis
  proof (cases "dx_cursor s")
    case None
    have "not_attempted_of r ?oc = ?names r" for r
      by (simp only: rest) (simp add: not_attempted_names None)
    moreover have "list_all2 row_for (take 0 (?names r)) (outcome_rows r (dx_outcome s))" for r
      using finished [of r] by (simp add: None done_names_None)
    ultimately have "\<exists>k. list_all2 row_for (take k (?names r)) (outcome_rows r ?oc) \<and> drop k (?names r) = not_attempted_of r ?oc" for r
      by (intro exI [of _ 0]) (simp only: rows drop_0 simp_thms)
    then show ?thesis unfolding dlp_accounts_def using unfinished by (intro exI [of _ None]) simp
  next
    case (Some p)
    obtain stage i where p: "p = (stage, i)" by fastforce
    obtain res where res: "stage_no res = stage" "i < length (?names res)"
      using assms Some p by (auto simp: dlp_stopped_def)
    have same: "r = res" if "stage_no r = stage" for r using that res(1) by (cases r; cases res) simp_all
    let ?k = "\<lambda>r. if stage_no r < stage then length (?names r) else if stage_no r = stage then i else 0"
    have left_over: "not_attempted_of r ?oc = (if stage < stage_no r then ?names r
        else if stage_no r = stage then drop (Suc i) (?names r) else [])" for r
      by (simp only: rest) (simp add: not_attempted_names Some p)
    have "list_all2 row_for (take (?k r) (?names r)) (outcome_rows r (dx_outcome s))" for r
      using finished [of r] by (simp add: Some p done_names_def split: if_splits)
    moreover have "drop (?k r) (?names r) = (if res = r then [?names res ! i] else []) @ (if stage < stage_no r then ?names r
        else if stage_no r = stage then drop (Suc i) (?names r) else [])" for r
      using res same [of r] by (auto simp: Cons_nth_drop_Suc)
    ultimately have "\<exists>k. list_all2 row_for (take k (?names r)) (outcome_rows r ?oc)
        \<and> drop k (?names r) = (if res = r then [?names res ! i] else []) @ not_attempted_of r ?oc" for r
      unfolding rows left_over by blast
    then show ?thesis
      unfolding dlp_accounts_def using unfinished
      by (intro exI [of _ "Some (res, ?names res ! i)"]) simp
  qed
qed

lemma finished_accounts:
  assumes "names_done dv (planned_names (dv_plan dv)) s"
  shows "dlp_accounts (dv_plan dv) ((dx_outcome s)\<lparr>do_complete := True\<rparr>)" (is "dlp_accounts _ ?oc")
proof -
  have rows: "outcome_rows r ?oc = outcome_rows r (dx_outcome s)" for r by (cases r) simp_all
  let ?names = "planned_names (dv_plan dv)"
  have "\<exists>k. list_all2 row_for (take k (?names r)) (outcome_rows r ?oc)
      \<and> drop k (?names r) = not_attempted_of r ?oc" for r
    using assms by (intro exI [of _ "length (?names r)"]) (simp add: rows names_done_def not_attempted_of_def)
  then show ?thesis
    unfolding dlp_accounts_def using assms by (intro exI [of _ None]) (simp add: names_done_def)
qed

lemma dlp_execute_cases:
  obtains (completed) s ex where "dlp_execute dv w = (Ok ((dx_outcome s)\<lparr>do_complete := True\<rparr>), ex)"
      "dx_sent ex = dx_sent s" "names_done dv (planned_names (dv_plan dv)) s"
    | (failed) s ex where "dlp_execute dv w
        = (Ok ((dx_outcome s)\<lparr>do_not_attempted := dlp_not_attempted (dv_plan dv) (dx_cursor s)\<rparr>), ex)"
      "dx_sent ex = dx_sent s" "dlp_stopped dv s"
    | (interrupted) ex where "dlp_execute dv w = (Err (Interrupted (dlp_context (dx_outcome ex))), ex)"
      "dlp_stopped dv ex"
proof -
  obtain r s where run: "dlp_stages dv (start_dlp dv w) = (r, s)" by fastforce
  note end_state = dlp_stages_run [of dv w, unfolded wp_def run]
  show ?thesis
  proof (cases r)
    case (Inl e)
    with end_state have "dlp_stopped dv s" by simp
    with Inl run show ?thesis
      by (cases e) (auto simp: dlp_execute_def Let_def intro: failed interrupted)
  next
    case (Inr u)
    with end_state have "names_done dv (planned_names (dv_plan dv)) s" by simp
    with Inr run show ?thesis by (auto simp: dlp_execute_def Let_def intro: completed)
  qed
qed

text \<open>C22: The result of a DLP restore accounts for every planned item: of each resource the rows stand for the
  first planned items in their order, a profile under its planned name or renamed from it, and what
  is left is the one item that stopped the run and the items reported as not attempted; a run that
  reports itself complete has a row for every item.\<close>

theorem dlp_restore_accounts_for_every_item:
  "case dlp_execute dv w of
     (Inl e, ex) \<Rightarrow> e = Interrupted (dlp_context (dx_outcome ex))
   | (Inr oc, ex) \<Rightarrow> dlp_accounts (dv_plan dv) oc"
proof (cases rule: dlp_execute_cases [of dv w])
  case (completed s ex)
  then show ?thesis by (simp add: finished_accounts)
next
  case (failed s ex)
  then show ?thesis by (simp add: stopped_accounts)
qed simp

text \<open>C23: A DLP restore creates only what its plan says, whatever the service answers: the file of a
  dictionary or the body of a pattern the plan creates, the request of a profile it creates, and,
  in reconcile mode, that request under the profile's deterministic name.\<close>

theorem dlp_restore_creates_only_the_plan:
  "list_all (\<lambda>(rq, _). planned_create dv rq) (dx_sent (snd (dlp_execute dv w)))"
proof (cases rule: dlp_execute_cases [of dv w])
  case (completed s ex)
  then show ?thesis by (simp add: names_done_def)
next
  case (failed s ex)
  then show ?thesis by (simp add: dlp_stopped_def names_done_def)
next
  case (interrupted ex)
  then show ?thesis by (simp add: dlp_stopped_def names_done_def)
qed

end
