(* ===== verification/WithholdNames.thy ===== *)
theory WithholdNames
  imports JsonValue TermInput Secrets
begin

text \<open>
  The name rule of the gateway commands (\<open>src/gateway/withhold_rules/names.rs\<close>): a member name is
  normalised, the first row of \<open>name_rules\<close> that matches gives its class, and the class and the shape
  of the value give the action. Texts are UTF-8 and read by characters (\<open>utf8_chars\<close>); the letter and
  case tables of Unicode beyond ASCII are the parameter \<open>letters\<close>.
\<close>

section \<open>Characters\<close>

record letters =
  lt_alphabetic :: "str \<Rightarrow> bool"
  lt_numeric :: "str \<Rightarrow> bool"
  lt_upper :: "str \<Rightarrow> bool"
  lt_lower :: "str \<Rightarrow> bool"
  lt_lowered :: "str \<Rightarrow> str"

definition ascii_of :: "str \<Rightarrow> char option" where
  "ascii_of g = (case g of [c] \<Rightarrow> if code c < 128 then Some c else None | _ \<Rightarrow> None)"

definition is_ascii_alpha :: "char \<Rightarrow> bool" where
  "is_ascii_alpha c = (65 \<le> code c \<and> code c \<le> 90 \<or> 97 \<le> code c \<and> code c \<le> 122)"

definition is_alphabetic :: "letters \<Rightarrow> str \<Rightarrow> bool" where
  "is_alphabetic lt g = (case ascii_of g of Some c \<Rightarrow> is_ascii_alpha c | None \<Rightarrow> lt_alphabetic lt g)"

definition is_alphanumeric :: "letters \<Rightarrow> str \<Rightarrow> bool" where
  "is_alphanumeric lt g = (case ascii_of g of
      Some c \<Rightarrow> is_ascii_alnum c | None \<Rightarrow> lt_alphabetic lt g \<or> lt_numeric lt g)"

definition is_uppercase :: "letters \<Rightarrow> str \<Rightarrow> bool" where
  "is_uppercase lt g = (case ascii_of g of Some c \<Rightarrow> 65 \<le> code c \<and> code c \<le> 90 | None \<Rightarrow> lt_upper lt g)"

definition is_lowercase :: "letters \<Rightarrow> str \<Rightarrow> bool" where
  "is_lowercase lt g = (case ascii_of g of Some c \<Rightarrow> 97 \<le> code c \<and> code c \<le> 122 | None \<Rightarrow> lt_lower lt g)"

definition to_lowercase :: "letters \<Rightarrow> str \<Rightarrow> str" where
  "to_lowercase lt g = (case ascii_of g of Some c \<Rightarrow> [lower_byte c] | None \<Rightarrow> lt_lowered lt g)"

definition digit_group :: "str \<Rightarrow> bool" where
  "digit_group g = (case g of [c] \<Rightarrow> is_digit c | _ \<Rightarrow> False)"

definition ascii_alnum_group :: "str \<Rightarrow> bool" where
  "ascii_alnum_group g = (case g of [c] \<Rightarrow> is_ascii_alnum c | _ \<Rightarrow> False)"

text \<open>\<open>str::trim\<close>, \<open>trim_start\<close> and \<open>split_whitespace\<close>.\<close>

definition trim_start :: "str \<Rightarrow> str" where
  "trim_start s = concat (dropWhile is_rust_whitespace (utf8_chars s))"

definition char_count :: "str \<Rightarrow> nat" where
  "char_count s = length (utf8_chars s)"

section \<open>Classes\<close>

datatype member_class = Plain | Fingerprint | HeaderMap | Count | Generic | Credential | Member

fun class_rank :: "member_class \<Rightarrow> nat" where
  "class_rank Plain = 0"
| "class_rank Fingerprint = 1"
| "class_rank HeaderMap = 2"
| "class_rank Count = 3"
| "class_rank Generic = 4"
| "class_rank Credential = 5"
| "class_rank Member = 6"

instantiation member_class :: linorder
begin

definition less_eq_member_class :: "member_class \<Rightarrow> member_class \<Rightarrow> bool" where
  "less_eq_member_class a b = (class_rank a \<le> class_rank b)"

definition less_member_class :: "member_class \<Rightarrow> member_class \<Rightarrow> bool" where
  "less_member_class a b = (class_rank a < class_rank b)"

instance
proof
  fix a b c :: member_class
  show "(a < b) = (a \<le> b \<and> \<not> b \<le> a)" by (auto simp: less_eq_member_class_def less_member_class_def)
  show "a \<le> a" by (simp add: less_eq_member_class_def)
  show "a \<le> b \<Longrightarrow> b \<le> c \<Longrightarrow> a \<le> c" by (simp add: less_eq_member_class_def)
  show "a \<le> b \<or> b \<le> a" by (auto simp: less_eq_member_class_def)
  show "a \<le> b \<Longrightarrow> b \<le> a \<Longrightarrow> a = b"
    by (cases a; cases b) (simp_all add: less_eq_member_class_def)
qed

end

datatype pattern =
    Exact "str list"
  | Prefix "str list"
  | Suffix "str list"
  | Joined "str list"
  | WordOf "str list"
  | Within "str list" "str list"
  | Last "str list"
  | LastAfter "str list" "str list"

definition ends_with_words :: "str \<Rightarrow> str \<Rightarrow> bool" where
  "ends_with_words name word = (case strip_suffix word name of
      Some rest \<Rightarrow> rest = [] \<or> ends_with rest ''_'' | None \<Rightarrow> False)"

definition unjoined :: "str \<Rightarrow> str" where
  "unjoined name = filter (\<lambda>c. c \<noteq> CHR ''_'') name"

fun pattern_matches :: "pattern \<Rightarrow> str \<Rightarrow> bool" where
  "pattern_matches (Exact ws) name = (name \<in> set ws)"
| "pattern_matches (Prefix ws) name = list_ex (starts_with name) ws"
| "pattern_matches (Suffix ws) name = list_ex (ends_with name) ws"
| "pattern_matches (Joined ws) name = list_ex (contains (unjoined name)) ws"
| "pattern_matches (WordOf ws) name = list_ex (\<lambda>part. part \<in> set ws) (split_on (CHR ''_'') name)"
| "pattern_matches (Within ws except) name =
     (let kept = concat (filter (\<lambda>part. part \<notin> set except) (split_on (CHR ''_'') name))
      in list_ex (contains kept) ws)"
| "pattern_matches (Last ws) name = list_ex (ends_with_words name) ws"
| "pattern_matches (LastAfter ws inside) name = list_ex (\<lambda>word.
     (case Option.bind (strip_suffix word name) (strip_suffix ''_'') of
        Some rest \<Rightarrow> list_ex (contains (unjoined rest)) inside | None \<Rightarrow> False)) ws"

section \<open>The table\<close>

definition location_names :: "str list" where
  "location_names = [''secret_key'']"

definition location_anchors :: "str list" where
  "location_anchors = [''secret_path'', ''secret_reference_id'']"

definition printed_prefixes :: "str list" where
  "printed_prefixes = [''masked_'']"

definition printed_names :: "str list" where
  "printed_names = [''api_key_id'', ''api_key_ids'', ''api_key_defaults_id'', ''header_key'', ''max_token_age'',
     ''max_tokens'', ''metadata_key'', ''metadata_keys'', ''rotate_auth'', ''secret_mappings'',
     ''secret_path'', ''secret_reference_id'', ''secrets_categories'', ''total_tokens'',
     ''unique_metadata_keys'', ''unique_virtual_keys'', ''value_key'', ''virtual_key'',
     ''virtual_keys'']"

definition generic_names :: "str list" where
  "generic_names = [''key'', ''keys'', ''token'']"

definition credential_members :: "str list" where
  "credential_members = [''vertex_service_account_json'', ''oauth_metadata'', ''model_config'', ''auth_config'']"

definition credential_ids :: "str list" where
  "credential_ids = [''secret_id'']"

definition url_words :: "str list" where
  "url_words = [''url'', ''uri'', ''endpoint'']"

definition secret_url_fragments :: "str list" where
  "secret_url_fragments = [''secret'', ''password'', ''passwd'', ''pwd'', ''passphrase'', ''passcode'', ''credential'',
     ''cookie'', ''privatekey'', ''connectionstring'']"

definition fingerprint_words :: "str list" where
  "fingerprint_words = [''prefix'', ''last4'', ''last8'', ''last_four'', ''hint'']"

definition metadata_words :: "str list" where
  "metadata_words = [''count'', ''counts'', ''limit'', ''limits'', ''length'', ''size'', ''max'', ''min'', ''ttl'',
     ''period'', ''interval'', ''duration'', ''ms'', ''seconds'', ''minutes'', ''hours'', ''days'',
     ''at'', ''date'', ''timestamp'', ''expiry'', ''expiration'', ''expires'', ''expires_in'',
     ''enabled'', ''disabled'', ''required'', ''type'', ''types'', ''kind'', ''mode'', ''format'',
     ''name'', ''names'', ''id'', ''ids'', ''version'', ''status'', ''location'', ''path'', ''url'',
     ''uri'', ''endpoint'']"

definition credential_names :: "str list" where
  "credential_names = [''auth'', ''jwt'', ''bearer'', ''auth_header'', ''authheader'', ''accesskey'', ''masterkey'',
     ''accountkey'', ''shared_access_signature'', ''sharedaccesssignature'', ''sig'', ''signature'']"

definition credential_suffixes :: "str list" where
  "credential_suffixes = [''_key'', ''_keys'', ''_auth'', ''_jwt'', ''_signature'']"

definition credential_fragments :: "str list" where
  "credential_fragments = [''secret'', ''password'', ''passwd'', ''pwd'', ''passphrase'', ''passcode'', ''credential'',
     ''apikey'', ''authorization'', ''cookie'', ''clientauth'', ''authcode'', ''privatekey'',
     ''connectionstring'']"

definition credential_words :: "str list" where
  "credential_words = [''pass'', ''pat'', ''otp'']"

definition token_words :: "str list" where
  "token_words = [''token'']"

definition token_exceptions :: "str list" where
  "token_exceptions = [''tokenizer'', ''tokenizers'']"

definition header_maps :: "str list" where
  "header_maps = [''headers'']"

definition header_map_suffixes :: "str list" where
  "header_map_suffixes = [''_headers'']"

record member_rule =
  nr_pattern :: pattern
  nr_located :: bool
  nr_class :: member_class

definition name_rules :: "member_rule list" where
  "name_rules = [
     \<lparr>nr_pattern = Exact location_names, nr_located = True, nr_class = Plain\<rparr>,
     \<lparr>nr_pattern = Prefix printed_prefixes, nr_located = False, nr_class = Plain\<rparr>,
     \<lparr>nr_pattern = Exact printed_names, nr_located = False, nr_class = Plain\<rparr>,
     \<lparr>nr_pattern = Exact generic_names, nr_located = False, nr_class = Generic\<rparr>,
     \<lparr>nr_pattern = Exact credential_members, nr_located = False, nr_class = Member\<rparr>,
     \<lparr>nr_pattern = Last credential_ids, nr_located = False, nr_class = Credential\<rparr>,
     \<lparr>nr_pattern = LastAfter url_words secret_url_fragments, nr_located = False, nr_class = Credential\<rparr>,
     \<lparr>nr_pattern = Last fingerprint_words, nr_located = False, nr_class = Fingerprint\<rparr>,
     \<lparr>nr_pattern = Last metadata_words, nr_located = False, nr_class = Plain\<rparr>,
     \<lparr>nr_pattern = Exact credential_names, nr_located = False, nr_class = Credential\<rparr>,
     \<lparr>nr_pattern = Suffix credential_suffixes, nr_located = False, nr_class = Credential\<rparr>,
     \<lparr>nr_pattern = Joined credential_fragments, nr_located = False, nr_class = Credential\<rparr>,
     \<lparr>nr_pattern = WordOf credential_words, nr_located = False, nr_class = Credential\<rparr>,
     \<lparr>nr_pattern = Within token_words token_exceptions, nr_located = False, nr_class = Count\<rparr>,
     \<lparr>nr_pattern = Exact header_maps, nr_located = False, nr_class = HeaderMap\<rparr>,
     \<lparr>nr_pattern = Suffix header_map_suffixes, nr_located = False, nr_class = HeaderMap\<rparr>]"

text \<open>
  \<open>normalised\<close>: lowercase, every run of other characters and every camelCase boundary an underscore.
  The loop keeps the character prev, what was written and whether an underscore is due.
\<close>

definition camel_boundary :: "letters \<Rightarrow> str option \<Rightarrow> str \<Rightarrow> str list \<Rightarrow> bool" where
  "camel_boundary lt prev g rest = (case prev of
      None \<Rightarrow> False
    | Some b \<Rightarrow> is_uppercase lt g
        \<and> (is_lowercase lt b \<or> digit_group b
           \<or> is_uppercase lt b \<and> (case rest of [] \<Rightarrow> False | h # _ \<Rightarrow> is_lowercase lt h)))"

fun normal_name_from :: "letters \<Rightarrow> str option \<Rightarrow> str list \<Rightarrow> str \<Rightarrow> bool \<Rightarrow> str" where
  "normal_name_from lt prev [] out pending = out"
| "normal_name_from lt prev (g # rest) out pending =
     (if \<not> is_alphanumeric lt g then normal_name_from lt (Some g) rest out (out \<noteq> [])
      else
        let pending' = (if camel_boundary lt prev g rest then out \<noteq> [] else pending)
        in normal_name_from lt (Some g) rest (out @ (if pending' then ''_'' else []) @ to_lowercase lt g) False)"

definition normalised :: "letters \<Rightarrow> str \<Rightarrow> str" where
  "normalised lt name = normal_name_from lt None (utf8_chars name) [] False"

definition name_rule_of :: "letters \<Rightarrow> str \<Rightarrow> bool \<Rightarrow> member_rule option" where
  "name_rule_of lt name located =
     find (\<lambda>r. (located \<or> \<not> nr_located r) \<and> pattern_matches (nr_pattern r) (normalised lt name)) name_rules"

definition class_of_member :: "letters \<Rightarrow> str \<Rightarrow> bool \<Rightarrow> member_class" where
  "class_of_member lt name located = (case name_rule_of lt name located of Some r \<Rightarrow> nr_class r | None \<Rightarrow> Plain)"

definition class_of_name :: "letters \<Rightarrow> str \<Rightarrow> member_class" where
  "class_of_name lt name = class_of_member lt name False"

definition is_secret_location :: "letters \<Rightarrow> str list \<Rightarrow> bool" where
  "is_secret_location lt names = list_ex (\<lambda>n. normalised lt n \<in> set location_anchors) names"

definition is_credential_name :: "letters \<Rightarrow> str \<Rightarrow> bool" where
  "is_credential_name lt name = (Count \<le> class_of_name lt name)"

definition is_header_map :: "letters \<Rightarrow> str \<Rightarrow> bool" where
  "is_header_map lt name = (class_of_name lt name = HeaderMap)"

section \<open>Shapes and actions\<close>

datatype shape = ShNull | ShBool | ShNumber | CredentialLike | PlainString | TextFree | Container

datatype leaf_kind = LeafPath | LeafCredential | LeafGeneric | LeafInner | LeafDescribing

datatype member_action = Read | Headers | Keep | Withhold leaf_kind

definition action_of :: "member_class \<Rightarrow> shape \<Rightarrow> member_action" where
  "action_of cls sh =
     (if cls = Plain then Read
      else if cls = Fingerprint then (if sh = CredentialLike then Withhold LeafCredential else Read)
      else if sh = ShNull \<or> sh = ShBool then Keep
      else if cls = HeaderMap then (if sh = ShNumber then Keep else Headers)
      else if cls = Count then (if sh = ShNumber \<or> sh = TextFree then Keep else Withhold LeafCredential)
      else if cls = Generic then Withhold LeafGeneric
      else Withhold LeafCredential)"

section \<open>Headers and pairs\<close>

definition safe_headers :: "str list" where
  "safe_headers = [''accept'', ''accept_encoding'', ''accept_language'', ''cache_control'', ''connection'',
     ''content_encoding'', ''content_length'', ''content_type'', ''host'', ''user_agent'',
     ''x_request_id'', ''x_portkey_provider'']"

definition header_credential_words :: "str list" where
  "header_credential_words = [''auth'', ''authorization'', ''key'', ''keys'', ''apikey'', ''token'', ''secret'', ''password'',
     ''passwd'', ''pwd'', ''cookie'', ''credential'', ''credentials'', ''signature'']"

definition pair_names :: "str list" where
  "pair_names = [''key'', ''name'', ''header'']"

definition is_safe_header :: "letters \<Rightarrow> str \<Rightarrow> bool" where
  "is_safe_header lt name = (normalised lt name \<in> set safe_headers \<and> \<not> is_credential_name lt name)"

definition header_class :: "letters \<Rightarrow> str \<Rightarrow> member_class" where
  "header_class lt name =
     (if is_safe_header lt name then Plain
      else let cls = class_of_name lt name in
        if cls \<in> {Count, Credential, Member} then cls
        else if list_ex (\<lambda>word. word \<in> set header_credential_words) (split_on (CHR ''_'') (normalised lt name))
        then Credential else Generic)"

definition pair_value_key :: str where "pair_value_key = ''value''"

text \<open>The last text of each naming member, in the order of \<open>PAIR_NAMES\<close>.\<close>

definition pair_name :: "(str \<times> str option) list \<Rightarrow> str \<Rightarrow> str option" where
  "pair_name members key =
     (case rev (filter (\<lambda>(member, _). member = key) members) of [] \<Rightarrow> None | (_, t) # _ \<Rightarrow> t)"

definition pair_of_members :: "(str \<times> str option) list \<Rightarrow> str list option" where
  "pair_of_members members =
     (let names = List.map_filter (pair_name members) pair_names in
      if list_ex (\<lambda>(member, _). member = pair_value_key) members \<and> names \<noteq> [] then Some names else None)"

definition names_member :: "str list \<Rightarrow> str \<Rightarrow> str option \<Rightarrow> bool" where
  "names_member names member txt =
     (member \<in> set pair_names \<and> (case txt of Some t \<Rightarrow> t \<in> set names | None \<Rightarrow> False))"

definition pair_class :: "letters \<Rightarrow> str list \<Rightarrow> member_class" where
  "pair_class lt names = (case map (header_class lt) names of
      [] \<Rightarrow> Generic | c # cs \<Rightarrow> foldl max c cs)"

definition pair_class_outside_headers :: "letters \<Rightarrow> str list \<Rightarrow> member_class" where
  "pair_class_outside_headers lt names =
     (let cls = pair_class lt names in if cls \<in> {Count, Credential, Member} then cls else Plain)"

definition header_action :: "member_class \<Rightarrow> shape \<Rightarrow> member_action" where
  "header_action cls sh =
     (if cls = Generic then
        (if sh = ShNull \<or> sh = ShBool \<or> sh = ShNumber then Keep else Withhold LeafGeneric)
      else if cls = Count then action_of Credential sh
      else action_of cls sh)"

section \<open>What a withheld value registers\<close>

definition min_registered :: nat where "min_registered = 4"

definition placeholder_words :: "str list" where
  "placeholder_words = [''true'', ''false'', ''null'', ''none'', ''nil'', ''undefined'', ''empty'', ''unset'',
     ''redacted'', ''[redacted]'']"

definition mode_words :: "str list" where
  "mode_words = [''enabled'', ''disabled'', ''required'', ''optional'', ''mandatory'', ''anonymous'',
     ''unauthenticated'', ''inherited'', ''clientcredentials'', ''oauth2clientcredentials'',
     ''authorizationcode'', ''oauth2authorizationcode'', ''refreshtoken'', ''devicecode'',
     ''jwtbearer'', ''implicit'', ''oauth2implicit'']"

definition mode_member_words :: "str list" where
  "mode_member_words = [''type'', ''mode'']"

definition ascii_word :: "str \<Rightarrow> bool" where
  "ascii_word s = list_all (\<lambda>g. ascii_alnum_group g \<or> g = ''-'' \<or> g = ''_'') (utf8_chars s)"

definition is_mode_word :: "str \<Rightarrow> bool" where
  "is_mode_word s =
     (let trimmed = rust_trim s in
      ascii_word trimmed \<and> ascii_lower (filter is_ascii_alnum trimmed) \<in> set mode_words)"

text \<open>The members (name, and the value's text when it is a string) whose name ends with \<open>type\<close> or \<open>mode\<close>.\<close>

definition mode_values :: "letters \<Rightarrow> (str \<times> str option) list \<Rightarrow> str list" where
  "mode_values lt members =
     List.map_filter snd (filter (\<lambda>(n, _). pattern_matches (Last mode_member_words) (normalised lt n)) members)"

definition repeats_a_mode :: "letters \<Rightarrow> str \<Rightarrow> str list \<Rightarrow> bool" where
  "repeats_a_mode lt s modes =
     (ascii_word s \<and> is_credential_name lt s \<and> list_ex (\<lambda>m. eq_ignore_ascii_case m s) modes)"

text \<open>\<open>*\<close>, a bullet (U+2022), a circle (U+25CF), a middle dot (U+00B7), \<open>x\<close>, \<open>X\<close>, \<open>#\<close>.\<close>

definition mask_characters :: "str list" where
  "mask_characters = [''*'', bytes [226, 128, 162], bytes [226, 151, 143], bytes [194, 183], ''x'', ''X'', ''#'']"

definition registrable :: "str \<Rightarrow> bool" where
  "registrable s =
     (let trimmed = rust_trim s in
      min_registered \<le> char_count trimmed \<and> \<not> contains s withheld
      \<and> \<not> list_ex (eq_ignore_ascii_case trimmed) placeholder_words
      \<and> \<not> is_mode_word trimmed
      \<and> \<not> list_all (\<lambda>g. g \<in> set mask_characters) (utf8_chars trimmed))"

section \<open>Schemas and audit fields\<close>

definition schema_types :: "str list" where
  "schema_types = [''array'', ''boolean'', ''integer'', ''null'', ''number'', ''object'', ''string'']"

definition schema_keywords :: "str list" where
  "schema_keywords = [''$comment'', ''$id'', ''$ref'', ''$schema'', ''contentEncoding'', ''contentMediaType'',
     ''deprecated'', ''description'', ''encrypted'', ''exclusiveMaximum'', ''exclusiveMinimum'',
     ''format'', ''hidden'', ''label'', ''maxItems'', ''maxLength'', ''maxProperties'', ''maximum'',
     ''minItems'', ''minLength'', ''minProperties'', ''minimum'', ''multipleOf'', ''nullable'',
     ''pattern'', ''readOnly'', ''required'', ''title'', ''type'', ''uniqueItems'', ''writeOnly'']"

definition schema_value_keywords :: "str list" where
  "schema_value_keywords = [''const'', ''default'', ''enum'', ''examples'']"

definition subschema_keywords :: "str list" where
  "subschema_keywords = [''additionalProperties'', ''allOf'', ''anyOf'', ''contains'', ''else'', ''if'', ''items'', ''not'',
     ''oneOf'', ''then'']"

definition audit_fields :: "str list" where
  "audit_fields = [''request_body'', ''request_headers'', ''query_params'']"

end
