(* ===== verification/WithholdValues.thy ===== *)
theory WithholdValues
  imports WithholdNames
begin

text \<open>
  The tests of a string and the text rules of the gateway commands
  (\<open>src/gateway/withhold_rules/values.rs\<close>): what looks like a credential, the credentials after an
  authorization scheme, in a header line and in \<open>key=value\<close> segments, the URLs inside a text, and what
  the four rules print and register. A span is a pair of indices into the characters of its text.
\<close>

section \<open>Characters and words\<close>

definition slice_of :: "nat \<Rightarrow> nat \<Rightarrow> 'a list \<Rightarrow> 'a list" where
  "slice_of a b xs = take (b - a) (drop a xs)"

text \<open>The index of the first item with a property, or the length.\<close>

definition index_of :: "('a \<Rightarrow> bool) \<Rightarrow> 'a list \<Rightarrow> nat" where
  "index_of P xs = length (takeWhile (\<lambda>x. \<not> P x) xs)"

definition trim_groups :: "(str \<Rightarrow> bool) \<Rightarrow> str list \<Rightarrow> str list" where
  "trim_groups P gs = rev (dropWhile P (rev (dropWhile P gs)))"

definition trim_by :: "(str \<Rightarrow> bool) \<Rightarrow> str \<Rightarrow> str" where
  "trim_by P s = concat (trim_groups P (utf8_chars s))"

fun split_groups :: "(str \<Rightarrow> bool) \<Rightarrow> str list \<Rightarrow> str list list" where
  "split_groups P [] = [[]]"
| "split_groups P (g # gs) =
     (if P g then [] # split_groups P gs
      else (case split_groups P gs of [] \<Rightarrow> [[g]] | p # ps \<Rightarrow> (g # p) # ps))"

text \<open>The whitespace-separated words of a text, each with the index of its first character.\<close>

fun words_loop :: "nat \<Rightarrow> str list \<Rightarrow> (nat \<times> str list) option \<Rightarrow> (nat \<times> str list) list" where
  "words_loop i [] current = (case current of Some w \<Rightarrow> [w] | None \<Rightarrow> [])"
| "words_loop i (g # gs) current =
     (if is_rust_whitespace g then
        (case current of Some w \<Rightarrow> w # words_loop (Suc i) gs None | None \<Rightarrow> words_loop (Suc i) gs None)
      else
        (case current of
           Some (a, w) \<Rightarrow> words_loop (Suc i) gs (Some (a, w @ [g]))
         | None \<Rightarrow> words_loop (Suc i) gs (Some (i, [g]))))"

definition words_at :: "str list \<Rightarrow> (nat \<times> str list) list" where
  "words_at gs = words_loop 0 gs None"

definition words_of :: "str \<Rightarrow> str list" where
  "words_of s = map (\<lambda>(_, w). concat w) (words_at (utf8_chars s))"

section \<open>Shapes of a string\<close>

definition credential_look :: nat where "credential_look = 16"

definition password_look :: nat where "password_look = 8"

definition word_separators :: "str list" where
  "word_separators = [''-'', ''_'', ''.'', ''/'', '':'']"

definition digits_of_length :: "str \<Rightarrow> nat \<Rightarrow> bool" where
  "digits_of_length s len = (length s = len \<and> list_all is_digit s)"

definition is_time :: "str \<Rightarrow> bool" where
  "is_time s =
     (let marks = (\<lambda>c. c = CHR ''Z'' \<or> c = CHR ''+'' \<or> c = CHR ''-'');
          clock = takeWhile (\<lambda>c. \<not> marks c) s;
          zone = dropWhile (\<lambda>c. \<not> marks c) s;
          (clock', fraction) = (case split_once (CHR ''.'') clock of
             Some (a, b) \<Rightarrow> (a, Some b) | None \<Rightarrow> (clock, None));
          parts = split_on (CHR '':'') clock'
      in (length parts = 2 \<or> length parts = 3) \<and> list_all (\<lambda>f. digits_of_length f 2) parts
         \<and> (case fraction of None \<Rightarrow> True | Some f \<Rightarrow> f \<noteq> [] \<and> list_all is_digit f)
         \<and> (zone = [] \<or> zone = ''Z''
            \<or> (case zone of
                 c # offset \<Rightarrow> (c = CHR ''+'' \<or> c = CHR ''-'')
                   \<and> (case split_once (CHR '':'') offset of
                        Some (h, m) \<Rightarrow> digits_of_length h 2 \<and> digits_of_length m 2 | None \<Rightarrow> False)
               | [] \<Rightarrow> False)))"

definition is_date :: "str \<Rightarrow> bool" where
  "is_date s =
     (10 \<le> length s
      \<and> (case split_on (CHR ''-'') (take 10 s) of
           [y, m, d] \<Rightarrow> digits_of_length y 4 \<and> digits_of_length m 2 \<and> digits_of_length d 2
         | _ \<Rightarrow> False)
      \<and> (case strip_prefix ''T'' (drop 10 s) of None \<Rightarrow> length s = 10 | Some t \<Rightarrow> is_time t))"

definition has_whitespace :: "str \<Rightarrow> bool" where
  "has_whitespace s = list_ex is_rust_whitespace (utf8_chars s)"

definition looks_like_credential :: "str \<Rightarrow> bool" where
  "looks_like_credential s = (credential_look \<le> char_count s \<and> \<not> has_whitespace s \<and> \<not> is_date s)"

definition password_shaped :: "letters \<Rightarrow> str \<Rightarrow> bool" where
  "password_shaped lt s =
     (\<not> has_whitespace s \<and> \<not> contains s ''://'' \<and> \<not> is_date s
      \<and> (list_ex (\<lambda>g. \<not> is_alphanumeric lt g \<and> g \<notin> set word_separators) (utf8_chars s)
         \<or> list_ex (\<lambda>part. list_ex digit_group part \<and> list_ex (is_alphabetic lt) part)
             (split_groups (\<lambda>g. g \<in> set word_separators) (utf8_chars s))))"

definition looks_like_password :: "letters \<Rightarrow> str \<Rightarrow> bool" where
  "looks_like_password lt s = (password_look \<le> char_count s \<and> password_shaped lt s)"

definition header_name_part :: nat where "header_name_part = 20"

definition looks_like_header_name :: "str \<Rightarrow> bool" where
  "looks_like_header_name s =
     (1 \<le> length s \<and> length s \<le> 64 \<and> (case s of c # _ \<Rightarrow> is_ascii_alpha c | [] \<Rightarrow> False)
      \<and> list_all (\<lambda>part. part \<noteq> [] \<and> length part \<le> header_name_part
            \<and> (list_all is_ascii_alpha part \<or> list_all is_digit part))
          (map concat (split_groups (\<lambda>g. g = ''-'' \<or> g = ''_'') (utf8_chars s))))"

text \<open>The index of a first occurrence.\<close>

fun find_sub :: "str \<Rightarrow> str \<Rightarrow> nat option" where
  "find_sub [] p = (if p = [] then Some 0 else None)"
| "find_sub (c # s) p = (if starts_with (c # s) p then Some 0 else map_option Suc (find_sub s p))"

definition armour :: str where "armour = ''-----BEGIN ''"

function has_private_key :: "str \<Rightarrow> bool" where
  "has_private_key s =
     (case find_sub s armour of
        None \<Rightarrow> False
      | Some i \<Rightarrow>
          let rest = drop (i + length armour) s in
          (case find_sub rest ''-----'' of Some e \<Rightarrow> contains (take e rest) ''PRIVATE KEY'' | None \<Rightarrow> False)
          \<or> has_private_key rest)"
  by pat_completeness auto

lemma find_sub_length: "find_sub s p = Some i \<Longrightarrow> i + length p \<le> length s"
  by (induction s arbitrary: i) (auto simp: starts_with_def split: if_splits dest: arg_cong [of _ _ length])

termination has_private_key
  by (relation "measure length") (auto simp: armour_def dest!: find_sub_length)

declare has_private_key.simps [simp del]

section \<open>Authorization schemes\<close>

definition auth_schemes :: "str list" where "auth_schemes = [''basic'', ''bearer'', ''token'']"

definition scheme_joiners :: "str list" where "scheme_joiners = ['':'', ''='']"

text \<open>\<open>rfind\<close> of a character: the text before the last match and after it.\<close>

definition split_last :: "(str \<Rightarrow> bool) \<Rightarrow> str list \<Rightarrow> (str list \<times> str list) option" where
  "split_last P gs =
     (if list_ex P gs
      then Some (rev (tl (dropWhile (\<lambda>g. \<not> P g) (rev gs))), rev (takeWhile (\<lambda>g. \<not> P g) (rev gs)))
      else None)"

text \<open>The scheme a word names, and the header name or key glued before it.\<close>

definition scheme_of :: "letters \<Rightarrow> str \<Rightarrow> (str \<times> str) option" where
  "scheme_of lt word =
     (let (glued, part) = (case split_last (\<lambda>g. g \<in> set scheme_joiners) (utf8_chars word) of
            Some (a, b) \<Rightarrow> (concat a, b) | None \<Rightarrow> ([], utf8_chars word));
          scheme = concat (trim_groups (\<lambda>g. \<not> is_alphanumeric lt g) part)
      in if ascii_lower scheme \<in> set auth_schemes then Some (scheme, glued) else None)"

definition scheme_word_trim :: "str list" where
  "scheme_word_trim = [[CHR 0x22], [CHR 0x27], [CHR 0x60], ''('', '')'', ''{'', ''}'', ''<'', ''>'', '','', '';'']"

definition trimmed_word :: "str \<Rightarrow> str" where
  "trimmed_word s = trim_by (\<lambda>g. g \<in> set scheme_word_trim) s"

definition names_authorization :: "str \<Rightarrow> bool" where
  "names_authorization name = ends_with (ascii_lower (trimmed_word name)) ''authorization''"

text \<open>\<open>windows(2)\<close>.\<close>

fun windows :: "'a list \<Rightarrow> ('a \<times> 'a) list" where
  "windows (a # b # xs) = (a, b) # windows (b # xs)"
| "windows _ = []"

definition scheme_words :: "letters \<Rightarrow> str \<Rightarrow> str list" where
  "scheme_words lt s =
     map snd (filter (\<lambda>(a, _). scheme_of lt a \<noteq> None) (windows (words_of s)))"

definition sextet :: "char \<Rightarrow> nat option" where
  "sextet c =
     (let n = code c in
      if 65 \<le> n \<and> n \<le> 90 then Some (n - 65)
      else if 97 \<le> n \<and> n \<le> 122 then Some (n - 97 + 26)
      else if 48 \<le> n \<and> n \<le> 57 then Some (n - 48 + 52)
      else if c = CHR ''+'' then Some 62 else if c = CHR ''/'' then Some 63 else None)"

text \<open>The decoded bytes: the bits read so far, their number, and the bytes written.\<close>

fun decode_sextets :: "str \<Rightarrow> nat \<Rightarrow> nat \<Rightarrow> nat list \<Rightarrow> nat list option" where
  "decode_sextets [] acc n out = Some out"
| "decode_sextets (c # cs) acc n out =
     (case sextet c of
        None \<Rightarrow> None
      | Some v \<Rightarrow>
          let acc' = (acc * 64 + v) mod 2 ^ 32; n' = n + 6 in
          if 8 \<le> n' then decode_sextets cs acc' (n' - 8) (out @ [acc' div 2 ^ (n' - 8) mod 256])
          else decode_sextets cs acc' n' out)"

definition is_basic_credential :: "str \<Rightarrow> bool" where
  "is_basic_credential word =
     (let body = rev (dropWhile (\<lambda>c. c = CHR ''='') (rev word)) in
      8 \<le> length word \<and> length word mod 4 = 0 \<and> length word - length body \<le> 2
      \<and> (case decode_sextets body 0 0 [] of
           None \<Rightarrow> False
         | Some decoded \<Rightarrow> 58 \<in> set decoded \<and> list_all (\<lambda>b. 32 \<le> b \<and> b < 127) decoded))"

record text_credential =
  tc_start :: nat
  tc_stop :: nat
  tc_registered :: "str option"

definition credential_at :: "str list \<Rightarrow> nat \<Rightarrow> nat \<Rightarrow> bool \<Rightarrow> text_credential" where
  "credential_at gs a b registered =
     \<lparr>tc_start = a, tc_stop = b,
      tc_registered = (let v = concat (slice_of a b gs) in if registered \<and> registrable v then Some v else None)\<rparr>"

definition looks_secret :: "letters \<Rightarrow> str \<Rightarrow> bool" where
  "looks_secret lt s = (looks_like_credential s \<or> looks_like_password lt s)"

definition trims_word :: "str \<Rightarrow> bool" where
  "trims_word g = (g \<in> set scheme_word_trim)"

text \<open>
  The credential after the word at \<open>i\<close> of \<open>ws\<close>: withheld when it looks like one, registered after
  \<open>Bearer\<close>, an \<open>Authorization\<close> name, or as a whole header value.
\<close>

definition scheme_credential :: "letters \<Rightarrow> str list \<Rightarrow> (nat \<times> str list) list \<Rightarrow> nat \<Rightarrow> text_credential option" where
  "scheme_credential lt gs ws i =
     (case scheme_of lt (concat (snd (ws ! i))) of
        None \<Rightarrow> None
      | Some (scheme, glued) \<Rightarrow>
          let (a, word) = ws ! Suc i; core = trim_groups trims_word word; core_s = concat core in
          if core = [] \<or> core_s = withheld
             \<or> \<not> (looks_secret lt core_s \<or> eq_ignore_ascii_case scheme ''basic'' \<and> is_basic_credential core_s)
          then None
          else
            let header_named = (if glued = []
                  then 0 < i
                    \<and> (let name = trimmed_word (concat (snd (ws ! (i - 1)))) in
                       list_ex (\<lambda>j. case strip_suffix j name of Some n \<Rightarrow> names_authorization n | None \<Rightarrow> False)
                         scheme_joiners)
                  else names_authorization glued);
                header_value = (length ws = 2 \<and> glued = []
                  \<and> (case utf8_chars scheme of g # _ \<Rightarrow> is_uppercase lt g | [] \<Rightarrow> False));
                bearer = eq_ignore_ascii_case scheme ''bearer'';
                start = a + length (takeWhile trims_word word)
            in Some (credential_at gs start (start + length core) (header_named \<or> header_value \<or> bearer)))"

definition scheme_credential_spans :: "letters \<Rightarrow> str \<Rightarrow> text_credential list" where
  "scheme_credential_spans lt s =
     (let gs = utf8_chars s; ws = words_at gs in
      List.map_filter (scheme_credential lt gs ws) [0..<length ws - 1])"

definition scheme_credentials :: "letters \<Rightarrow> str \<Rightarrow> str list" where
  "scheme_credentials lt s =
     map (\<lambda>f. concat (slice_of (tc_start f) (tc_stop f) (utf8_chars s))) (scheme_credential_spans lt s)"

text \<open>Whether a string shows a credential.\<close>

definition token_word :: "letters \<Rightarrow> str \<Rightarrow> bool" where
  "token_word lt word =
     (let w = trim_by (\<lambda>g. \<not> is_alphanumeric lt g) word in
      looks_like_credential w \<and> \<not> contains w ''://''
      \<and> list_ex (\<lambda>g. \<not> (is_alphabetic lt g \<or> g = ''-'' \<or> g = ''_'')) (utf8_chars w))"

definition shows_credential :: "letters \<Rightarrow> str \<Rightarrow> bool" where
  "shows_credential lt s =
     (list_ex (token_word lt) (words_of s) \<or> scheme_credentials lt s \<noteq> [] \<or> has_private_key s)"

definition printable_member_name :: "letters \<Rightarrow> str \<Rightarrow> bool" where
  "printable_member_name lt name = (\<not> shows_credential lt name)"

section \<open>Registration\<close>

definition credential_value_registered :: "letters \<Rightarrow> str \<Rightarrow> bool \<Rightarrow> bool" where
  "credential_value_registered lt v delimited =
     (looks_secret lt v
      \<or> list_ex (\<lambda>g. \<not> (is_alphanumeric lt g \<or> is_rust_whitespace g \<or> g \<in> set word_separators)) (utf8_chars v)
      \<or> delimited \<and> has_whitespace v)"

definition registers_whole :: "letters \<Rightarrow> str \<Rightarrow> bool" where
  "registers_whole lt s =
     (\<not> is_date s
      \<and> (credential_value_registered lt s True \<or> password_look \<le> char_count (rust_trim s) \<and> registrable s))"

definition registers_as :: "letters \<Rightarrow> leaf_kind \<Rightarrow> str \<Rightarrow> bool" where
  "registers_as lt kind s =
     (has_private_key s
      \<or> (case kind of
           LeafPath \<Rightarrow> True
         | LeafCredential \<Rightarrow> registers_whole lt s
         | LeafGeneric \<Rightarrow> looks_like_credential s
         | LeafDescribing \<Rightarrow> looks_like_credential s
         | LeafInner \<Rightarrow> looks_secret lt s))"

text \<open>The words of the text to register: those that look like a credential, then those after a scheme.\<close>

definition registered_words :: "letters \<Rightarrow> leaf_kind \<Rightarrow> str \<Rightarrow> str list" where
  "registered_words lt kind s =
     (let looking = filter (\<lambda>w. w \<noteq> s \<and> looks_like_credential w) (words_of s);
          schemes = (if kind = LeafPath \<or> kind = LeafCredential then scheme_words lt s else scheme_credentials lt s)
      in foldl (\<lambda>ws w. if w \<noteq> s \<and> w \<notin> set ws then ws @ [w] else ws) looking schemes)"

definition registered_of :: "letters \<Rightarrow> leaf_kind \<Rightarrow> str \<Rightarrow> str list" where
  "registered_of lt kind s =
     (let whole = (if registers_as lt kind s then [s] else []) in
      if kind = LeafDescribing then whole
      else filter registrable (whole @ registered_words lt kind s))"

definition registered_number :: "leaf_kind \<Rightarrow> str \<Rightarrow> str option" where
  "registered_number kind s =
     (let enough = (case kind of
            LeafPath \<Rightarrow> password_look \<le> char_count s
          | LeafCredential \<Rightarrow> password_look \<le> char_count s
          | LeafGeneric \<Rightarrow> looks_like_credential s
          | LeafInner \<Rightarrow> looks_like_credential s
          | LeafDescribing \<Rightarrow> False)
      in if enough \<and> registrable s then Some s else None)"

definition header_item_action :: "letters \<Rightarrow> str option \<Rightarrow> shape \<Rightarrow> member_action" where
  "header_item_action lt txt sh =
     (if (case txt of Some t \<Rightarrow> looks_like_header_name t | None \<Rightarrow> False) then Read
      else header_action (header_class lt []) sh)"

section \<open>Header lines\<close>

definition names_credential_header :: "letters \<Rightarrow> str \<Rightarrow> bool" where
  "names_credential_header lt name =
     (let nm = trimmed_word name; normal = normalised lt nm in
      looks_like_header_name nm
      \<and> (CHR ''-'' \<in> set nm \<or> normal = ''authorization'' \<or> normal = ''cookie'')
      \<and> (Credential \<le> class_of_name lt nm
         \<or> list_ex (\<lambda>word. word \<in> set header_credential_words) (split_on (CHR ''_'') normal)))"

text \<open>The value after the header name of the word at \<open>i\<close>: the rest of the word or the next word.\<close>

definition header_value_at :: "(nat \<times> str list) list \<Rightarrow> nat \<Rightarrow> nat \<Rightarrow> str list \<Rightarrow> (nat \<times> str list) option" where
  "header_value_at ws i vstart after_colon =
     (if trim_groups trims_word after_colon = []
      then (if Suc i < length ws then Some (ws ! Suc i) else None)
      else Some (vstart, after_colon))"

definition header_credential :: "letters \<Rightarrow> str list \<Rightarrow> (nat \<times> str list) list \<Rightarrow> nat \<Rightarrow> text_credential option" where
  "header_credential lt gs ws i =
     (let (a, word) = ws ! i; lead = length (takeWhile trims_word word);
          colon = lead + index_of (\<lambda>g. g = '':'') (drop lead word) in
      if \<not> list_ex (\<lambda>g. g = '':'') (drop lead word)
         \<or> \<not> names_credential_header lt (concat (slice_of lead colon word)) then None
      else (case header_value_at ws i (a + Suc colon) (drop (Suc colon) word) of
          None \<Rightarrow> None
        | Some (vstart, v) \<Rightarrow>
            let core = trim_groups trims_word v; core_s = concat core; start = vstart + length (takeWhile trims_word v) in
            if core = [] \<or> starts_with core_s withheld \<or> contains core_s ''://'' \<or> scheme_of lt core_s \<noteq> None
               \<or> \<not> looks_secret lt core_s then None
            else Some (credential_at gs start (start + length core) True)))"

text \<open>A credential that starts inside the one before it is skipped.\<close>

definition header_credential_spans :: "letters \<Rightarrow> str \<Rightarrow> text_credential list" where
  "header_credential_spans lt s =
     (let gs = utf8_chars s; ws = words_at gs in
      foldl (\<lambda>found i. case header_credential lt gs ws i of
          None \<Rightarrow> found
        | Some c \<Rightarrow> if found \<noteq> [] \<and> tc_start c < tc_stop (last found) then found else found @ [c])
        [] [0..<length ws])"

section \<open>Key=value segments\<close>

definition ends_parameters :: "str \<Rightarrow> bool" where
  "ends_parameters g = (is_rust_whitespace g
     \<or> g \<in> {'';'', [CHR 0x22], [CHR 0x27], [CHR 0x60], '')'', ''}'', ''>''})"

definition ends_key_value :: "str \<Rightarrow> bool" where
  "ends_key_value g = (g = ''&'' \<or> ends_parameters g)"

definition ends_segment :: "str \<Rightarrow> bool" where
  "ends_segment g = (g = '';'' \<or> g = [CHR 0x0A] \<or> g = [CHR 0x0D])"

definition key_value_space :: "str \<Rightarrow> bool" where
  "key_value_space g = (g = '' '' \<or> g = [CHR 0x09])"

text \<open>An ODBC braced value after its \<open>{\<close>: the index of its closing brace and the value.\<close>

fun braced_from :: "nat \<Rightarrow> str list \<Rightarrow> str list \<Rightarrow> (nat \<times> str list) option" where
  "braced_from i [] v = None"
| "braced_from i [g] v = (if g = ''}'' then Some (i, v) else None)"
| "braced_from i (g # h # gs) v =
     (if g = ''}'' then (if h = ''}'' then braced_from (i + 2) gs (v @ [g]) else Some (i, v))
      else braced_from (Suc i) (h # gs) (v @ [g]))"

definition braced_value :: "str list \<Rightarrow> (nat \<times> str list) option" where
  "braced_value inner = braced_from 0 inner []"

definition drop_end :: "('a \<Rightarrow> bool) \<Rightarrow> 'a list \<Rightarrow> 'a list" where
  "drop_end P xs = rev (dropWhile P (rev xs))"

text \<open>The characters withheld, the value they hold, and whether delimiters make it one value.\<close>

definition key_value_value :: "str list \<Rightarrow> nat \<Rightarrow> bool \<Rightarrow> bool \<Rightarrow> (nat \<times> nat) \<times> str list \<times> bool" where
  "key_value_value gs vstart credential segment =
     (let after = drop vstart gs;
          plain = (let e = index_of ends_key_value after in
             if credential \<and> list_ex (\<lambda>g. g = ''='') (drop_end (\<lambda>g. g = ''='') (take e after))
             then index_of ends_parameters after else e)
      in case after of
           q # inner \<Rightarrow>
             if q = [CHR 0x22] \<or> q = [CHR 0x27] then
               (let e = index_of (\<lambda>g. g = q) inner in
                ((Suc vstart, Suc vstart + e), take e inner, True))
             else if q = ''{'' \<and> credential then
               (case braced_value inner of
                  Some (e, v) \<Rightarrow> ((vstart, vstart + e + 2), v, True)
                | None \<Rightarrow> ((vstart, length gs), inner, True))
             else if credential \<and> segment then
               (let v = drop_end is_rust_whitespace (take (index_of ends_segment after) after) in
                ((vstart, vstart + length v), v, True))
             else ((vstart, vstart + plain), take plain after, False)
         | [] \<Rightarrow> ((vstart, vstart), [], credential \<and> segment))"

definition key_char :: "letters \<Rightarrow> str \<Rightarrow> bool" where
  "key_char lt g = (is_alphanumeric lt g \<or> g \<in> {''_'', ''-'', ''.''})"

definition names_scheme_only :: "letters \<Rightarrow> str \<Rightarrow> bool" where
  "names_scheme_only lt v =
     (case scheme_of lt (case words_of v of w # _ \<Rightarrow> w | [] \<Rightarrow> []) of
        Some (_, glued) \<Rightarrow> glued = [] | None \<Rightarrow> False)"

text \<open>The credential of the \<open>=\<close> at \<open>mark\<close>.\<close>

definition key_value_credential :: "letters \<Rightarrow> str list \<Rightarrow> nat \<Rightarrow> text_credential option" where
  "key_value_credential lt gs mark =
     (let after = drop (Suc mark) gs;
          head = drop_end key_value_space (take mark gs);
          key_start = length (drop_end (key_char lt) head);
          key = concat (dropWhile (\<lambda>g. \<not> is_alphabetic lt g) (drop key_start head));
          cls = class_of_name lt key;
          credential = (Credential \<le> cls);
          vstart = Suc mark + length (takeWhile key_value_space after);
          spaced = (length head < mark \<or> Suc mark < vstart)
      in if key = [] \<or> cls < Count \<or> spaced \<and> \<not> credential then None
      else
        let lead = drop_end is_rust_whitespace (take key_start gs);
            segment = (lead \<noteq> [] \<and> last lead = '';''
              \<or> lead = [] \<and> list_ex (\<lambda>g. g = '';'') (drop vstart gs));
            ((a, b), v, delimited) = key_value_value gs vstart credential segment;
            v_s = concat v
        in if rust_trim v_s = [] \<or> starts_with v_s withheld \<or> names_scheme_only lt v_s then None
        else if credential \<or> looks_secret lt v_s then
          Some \<lparr>tc_start = a, tc_stop = b,
            tc_registered =
              (if (if credential then credential_value_registered lt v_s delimited else looks_like_credential v_s)
                  \<and> registrable v_s then Some v_s else None)\<rparr>
        else None)"

text \<open>The marks in order; \<open>from\<close> is where the next search starts.\<close>

fun key_value_loop :: "letters \<Rightarrow> str list \<Rightarrow> nat list \<Rightarrow> nat \<Rightarrow> text_credential list" where
  "key_value_loop lt gs [] from = []"
| "key_value_loop lt gs (mark # marks) from =
     (if mark < from then key_value_loop lt gs marks from
      else if Suc mark < length gs \<and> (gs ! Suc mark = ''='' \<or> gs ! Suc mark = ''>'')
      then key_value_loop lt gs marks (mark + 2)
      else (case key_value_credential lt gs mark of
          None \<Rightarrow> key_value_loop lt gs marks (Suc mark)
        | Some c \<Rightarrow> c # key_value_loop lt gs marks (tc_stop c)))"

definition key_value_credential_spans :: "letters \<Rightarrow> str \<Rightarrow> text_credential list" where
  "key_value_credential_spans lt s =
     (let gs = utf8_chars s in
      key_value_loop lt gs (filter (\<lambda>i. gs ! i = ''='') [0..<length gs]) 0)"

definition add_missing :: "'a list \<Rightarrow> 'a list \<Rightarrow> 'a list" where
  "add_missing out parts = foldl (\<lambda>known p. if p \<in> set known then known else known @ [p]) out parts"

function key_value_registrations :: "letters \<Rightarrow> str \<Rightarrow> str list" where
  "key_value_registrations lt s =
     foldl (\<lambda>out c.
         let v = concat (slice_of (tc_start c) (tc_stop c) (utf8_chars s));
             out' = add_missing out (case tc_registered c of Some r \<Rightarrow> [r] | None \<Rightarrow> [])
         in if length v < length s then add_missing out' (key_value_registrations lt v) else out')
       [] (key_value_credential_spans lt s)"
  by pat_completeness auto
termination by (relation "measure (\<lambda>(_, s). length s)") auto

declare key_value_registrations.simps [simp del]

section \<open>The text rules\<close>

fun replaced_from :: "str list \<Rightarrow> nat \<Rightarrow> text_credential list \<Rightarrow> str" where
  "replaced_from gs copied [] = concat (drop copied gs)"
| "replaced_from gs copied (c # cs) =
     concat (slice_of copied (tc_start c) gs) @ withheld @ replaced_from gs (tc_stop c) cs"

definition replaced_text :: "str \<Rightarrow> text_credential list \<Rightarrow> (str \<times> str list) option" where
  "replaced_text s found =
     (if found = [] then None
      else Some (replaced_from (utf8_chars s) 0 found, List.map_filter tc_registered found))"

definition scheme_withheld :: "letters \<Rightarrow> str \<Rightarrow> (str \<times> str list) option" where
  "scheme_withheld lt s = replaced_text s (scheme_credential_spans lt s)"

definition header_withheld :: "letters \<Rightarrow> str \<Rightarrow> (str \<times> str list) option" where
  "header_withheld lt s = replaced_text s (header_credential_spans lt s)"

definition key_value_withheld :: "letters \<Rightarrow> str \<Rightarrow> (str \<times> str list) option" where
  "key_value_withheld lt s =
     (let found = key_value_credential_spans lt s;
          nested = concat (map (\<lambda>c. key_value_registrations lt
            (concat (slice_of (tc_start c) (tc_stop c) (utf8_chars s)))) found)
      in map_option (\<lambda>(out_text, parts). (out_text, add_missing parts nested)) (replaced_text s found))"

section \<open>URLs\<close>

record url_parts =
  up_start :: nat
  up_stop :: nat
  up_userinfo :: "(nat \<times> nat) option"
  up_query :: "(nat \<times> nat) option"
  up_fragment :: "(nat \<times> nat) option"

definition scheme_byte :: "str \<Rightarrow> bool" where
  "scheme_byte g = (ascii_alnum_group g \<or> g \<in> {''+'', ''.'', ''-''})"

definition ascii_alpha_group :: "str \<Rightarrow> bool" where
  "ascii_alpha_group g = (case g of [c] \<Rightarrow> is_ascii_alpha c | _ \<Rightarrow> False)"

text \<open>The first index of a character from \<open>a\<close> up to \<open>b\<close>, and the last.\<close>

definition first_in :: "str list \<Rightarrow> str set \<Rightarrow> nat \<Rightarrow> nat \<Rightarrow> nat option" where
  "first_in gs S a b =
     (if list_ex (\<lambda>g. g \<in> S) (slice_of a b gs) then Some (a + index_of (\<lambda>g. g \<in> S) (slice_of a b gs)) else None)"

definition last_in :: "str list \<Rightarrow> str set \<Rightarrow> nat \<Rightarrow> nat \<Rightarrow> nat option" where
  "last_in gs S a b =
     (if list_ex (\<lambda>g. g \<in> S) (slice_of a b gs)
      then Some (a + (length (drop_end (\<lambda>g. g \<notin> S) (slice_of a b gs)) - 1)) else None)"

definition url_at :: "str list \<Rightarrow> nat \<Rightarrow> nat \<Rightarrow> url_parts" where
  "url_at gs start after =
     (let stop = after + index_of is_rust_whitespace (drop after gs);
          at_sign = last_in gs {''@''} after stop;
          host = (case at_sign of Some i \<Rightarrow> Suc i | None \<Rightarrow> after);
          path = (case first_in gs {''/'', ''?'', ''#''} host stop of Some i \<Rightarrow> i | None \<Rightarrow> stop);
          mark = first_in gs {''#''} path stop;
          query_end = (case mark of Some i \<Rightarrow> i | None \<Rightarrow> stop)
      in \<lparr>up_start = start, up_stop = stop, up_userinfo = map_option (\<lambda>i. (after, i)) at_sign,
          up_query = map_option (\<lambda>i. (Suc i, query_end)) (first_in gs {''?''} path query_end),
          up_fragment = map_option (\<lambda>i. (Suc i, stop)) mark\<rparr>)"

definition scheme_start :: "str list \<Rightarrow> nat \<Rightarrow> nat \<Rightarrow> nat" where
  "scheme_start gs from mark =
     (let run = mark - length (takeWhile scheme_byte (rev (slice_of from mark gs)))
      in run + index_of ascii_alpha_group (slice_of run mark gs))"

fun urls_loop :: "str list \<Rightarrow> nat list \<Rightarrow> nat \<Rightarrow> url_parts list" where
  "urls_loop gs [] from = []"
| "urls_loop gs (mark # marks) from =
     (if mark < from then urls_loop gs marks from
      else let start = scheme_start gs from mark in
        if start = mark then urls_loop gs marks (mark + 3)
        else let url = url_at gs start (mark + 3) in url # urls_loop gs marks (up_stop url))"

definition urls_in :: "str \<Rightarrow> url_parts list" where
  "urls_in s =
     (let gs = utf8_chars s in
      urls_loop gs (filter (\<lambda>i. take 3 (drop i gs) = ['':'', ''/'', ''/'']) [0..<length gs]) 0)"

text \<open>The parts of a URL in the order they appear, and whether each is the userinfo.\<close>

definition url_ranges :: "url_parts \<Rightarrow> ((nat \<times> nat) \<times> bool) list" where
  "url_ranges url =
     filter (\<lambda>((a, b), _). a < b)
       (List.map_filter (\<lambda>(rng, userinfo). map_option (\<lambda>r. (r, userinfo)) rng)
         [(up_userinfo url, True), (up_query url, False), (up_fragment url, False)])"

record url_state =
  us_shown :: str
  us_copied :: nat
  us_parts :: "str list"
  us_changed :: bool

definition url_part_registered :: "bool \<Rightarrow> str \<Rightarrow> bool" where
  "url_part_registered userinfo part =
     ((\<not> userinfo \<or> CHR '':'' \<in> set part \<or> \<not> list_ex (\<lambda>c. c \<in> {CHR ''/'', CHR ''?'', CHR ''#''}) part)
      \<and> registrable part)"

definition url_step :: "letters \<Rightarrow> str list \<Rightarrow> url_state \<Rightarrow> (nat \<times> nat) \<times> bool \<Rightarrow> url_state" where
  "url_step lt gs st rng =
     (case rng of ((a, b), userinfo) \<Rightarrow>
       let part = concat (slice_of a b gs);
           out_text = us_shown st @ concat (slice_of (us_copied st) a gs) @ withheld
       in if part = withheld then st\<lparr>us_shown := out_text, us_copied := b\<rparr>
       else
         let parts = us_parts st @ (if url_part_registered userinfo part then [part] else [])
         in \<lparr>us_shown = out_text, us_copied = b, us_parts = add_missing parts (key_value_registrations lt part),
             us_changed = True\<rparr>)"

definition url_withheld :: "letters \<Rightarrow> str \<Rightarrow> (str \<times> str list) option" where
  "url_withheld lt s =
     (let gs = utf8_chars s;
          st = foldl (url_step lt gs) \<lparr>us_shown = [], us_copied = 0, us_parts = [], us_changed = False\<rparr>
                 (concat (map url_ranges (urls_in s)))
      in if us_changed st then Some (us_shown st @ concat (drop (us_copied st) gs), us_parts st) else None)"

section \<open>The rules in order\<close>

type_synonym text_rule = "letters \<Rightarrow> str \<Rightarrow> (str \<times> str list) option"

fun in_order :: "letters \<Rightarrow> text_rule list \<Rightarrow> str \<Rightarrow> str option \<Rightarrow> str list \<Rightarrow> (str \<times> str list) option" where
  "in_order lt [] s out_text parts = map_option (\<lambda>t. (t, parts)) out_text"
| "in_order lt (rule # rules) s out_text parts =
     (case rule lt (case out_text of Some t \<Rightarrow> t | None \<Rightarrow> s) of
        Some (t, found) \<Rightarrow> in_order lt rules s (Some t) (parts @ found)
      | None \<Rightarrow> in_order lt rules s out_text parts)"

definition text_withheld :: "letters \<Rightarrow> str \<Rightarrow> (str \<times> str list) option" where
  "text_withheld lt s = in_order lt [url_withheld, scheme_withheld, header_withheld, key_value_withheld] s None []"

definition model_output_withheld :: "letters \<Rightarrow> str \<Rightarrow> str option" where
  "model_output_withheld lt s = map_option fst (in_order lt [url_withheld, scheme_withheld] s None [])"

section \<open>JSON texts that do not parse\<close>

text \<open>\<open>-?int(.digits)?([eE][+-]?digits)?\<close>.\<close>

definition number_exponent :: "str \<Rightarrow> bool" where
  "number_exponent s = (case s of
      [] \<Rightarrow> True
    | e # rest \<Rightarrow> (e = CHR ''e'' \<or> e = CHR ''E'')
        \<and> (let ds = (case rest of d # ds \<Rightarrow> if d = CHR ''+'' \<or> d = CHR ''-'' then ds else rest | [] \<Rightarrow> [])
           in ds \<noteq> [] \<and> list_all is_digit ds))"

definition is_json_number :: "str \<Rightarrow> bool" where
  "is_json_number s =
     (let t = (case strip_prefix ''-'' s of Some r \<Rightarrow> r | None \<Rightarrow> s);
          int_part = takeWhile is_digit t; rest = dropWhile is_digit t
      in int_part \<noteq> [] \<and> \<not> (1 < length int_part \<and> hd t = CHR ''0'')
         \<and> (case strip_prefix ''.'' rest of
              None \<Rightarrow> number_exponent rest
            | Some f \<Rightarrow> takeWhile is_digit f \<noteq> [] \<and> number_exponent (dropWhile is_digit f)))"

definition is_json_scalar :: "str \<Rightarrow> bool" where
  "is_json_scalar s = (is_json_number s \<or> s \<in> {''true'', ''false'', ''null''})"

definition starts_with_any :: "str \<Rightarrow> str \<Rightarrow> bool" where
  "starts_with_any s cs = (case s of c # _ \<Rightarrow> c \<in> set cs | [] \<Rightarrow> False)"

definition looks_like_json_text :: "str \<Rightarrow> bool" where
  "looks_like_json_text s =
     (case trim_start s of
        c # more_text \<Rightarrow>
          let rest = trim_start more_text in
          if c = CHR ''{'' then starts_with_any rest [CHR 0x22, CHR ''}'']
          else if c \<noteq> CHR ''['' then False
          else if starts_with_any rest [CHR ''{'', CHR ''['', CHR 0x22, CHR '']''] then True
          else
            let ends = (\<lambda>g. is_rust_whitespace g \<or> g = '','' \<or> g = '']''); gs = utf8_chars rest in
            is_json_scalar (concat (takeWhile (\<lambda>g. \<not> ends g) gs))
            \<and> starts_with_any (trim_start (concat (dropWhile (\<lambda>g. \<not> ends g) gs))) [CHR '','', CHR '']'']
      | [] \<Rightarrow> False)"

definition code_point_bytes :: "nat \<Rightarrow> str" where
  "code_point_bytes n =
     (if n < 128 then bytes [n]
      else if n < 2048 then bytes [192 + n div 64, 128 + n mod 64]
      else if n < 65536 then bytes [224 + n div 4096, 128 + n div 64 mod 64, 128 + n mod 64]
      else bytes [240 + n div 262144, 128 + n div 4096 mod 64, 128 + n div 64 mod 64, 128 + n mod 64])"

definition hex_of :: "str \<Rightarrow> nat option" where
  "hex_of g = (case g of
      [c] \<Rightarrow> (let n = code c in
        if 48 \<le> n \<and> n \<le> 57 then Some (n - 48)
        else if 97 \<le> n \<and> n \<le> 102 then Some (n - 87)
        else if 65 \<le> n \<and> n \<le> 70 then Some (n - 55) else None)
    | _ \<Rightarrow> None)"

fun read_hex :: "nat \<Rightarrow> nat \<Rightarrow> str list \<Rightarrow> nat option \<times> str list" where
  "read_hex 0 n gs = (Some n, gs)"
| "read_hex (Suc k) n [] = (None, [])"
| "read_hex (Suc k) n (g # gs) =
     (case hex_of g of Some d \<Rightarrow> read_hex k (n * 16 + d) gs | None \<Rightarrow> (None, gs))"

definition unescaped :: "str \<Rightarrow> str" where
  "unescaped g =
     (if g = ''n'' then [CHR 0x0A] else if g = ''t'' then [CHR 0x09] else if g = ''r'' then [CHR 0x0D]
      else if g = ''b'' then [CHR 0x08] else if g = ''f'' then [CHR 0x0C] else g)"

datatype json_unit = UnitChar str | UnitCode nat | NoUnit

text \<open>The next unit of a string literal and what follows it; \<open>None\<close> at the literal's end.\<close>

fun next_unit :: "str list \<Rightarrow> json_unit option \<times> str list" where
  "next_unit [] = (None, [])"
| "next_unit (g # gs) =
     (if g = [CHR 0x22] then (None, gs)
      else if g = [CHR 0x5C] then
        (case gs of
           [] \<Rightarrow> (None, [])
         | e # rest \<Rightarrow>
             if e = ''u'' then
               (case read_hex 4 0 rest of
                  (Some n, rest') \<Rightarrow> (Some (UnitCode n), rest') | (None, rest') \<Rightarrow> (Some NoUnit, rest'))
             else (Some (UnitChar (unescaped e)), rest))
      else (Some (UnitChar g), gs))"

definition push_char :: "str \<Rightarrow> str list \<Rightarrow> str list" where
  "push_char g pieces = butlast pieces @ [last pieces @ g]"

text \<open>The pieces between lone surrogates; \<open>high\<close> is a high surrogate waiting for its low half.\<close>

definition add_unit :: "json_unit \<Rightarrow> nat option \<times> str list \<Rightarrow> nat option \<times> str list" where
  "add_unit unit st =
     (case st of (high, pieces) \<Rightarrow>
        case unit of
          NoUnit \<Rightarrow> st
        | UnitChar g \<Rightarrow> (None, push_char g (if high = None then pieces else pieces @ [[]]))
        | UnitCode n \<Rightarrow>
            (case high of
               Some h \<Rightarrow>
                 if 0xDC00 \<le> n \<and> n \<le> 0xDFFF
                 then (None, push_char (code_point_bytes (0x10000 + (h - 0xD800) * 1024 + (n - 0xDC00))) pieces)
                 else if 0xD800 \<le> n \<and> n \<le> 0xDBFF then (Some n, pieces @ [[]])
                 else (None, push_char (code_point_bytes n) (pieces @ [[]]))
             | None \<Rightarrow>
                 if 0xD800 \<le> n \<and> n \<le> 0xDBFF then (Some n, pieces)
                 else if 0xDC00 \<le> n \<and> n \<le> 0xDFFF then (None, pieces @ [[]])
                 else (None, push_char (code_point_bytes n) pieces)))"

lemma read_hex_length: "length (snd (read_hex k n gs)) \<le> length gs"
  by (induction k n gs rule: read_hex.induct) (auto split: option.split)

lemma read_hex_rest: "read_hex k n gs = (x, rest) \<Longrightarrow> length rest \<le> Suc (length gs)"
  using read_hex_length [of k n gs] by simp

lemma next_unit_length: "next_unit gs = (Some unit, rest) \<Longrightarrow> length rest < length gs"
  by (cases gs)
    (auto split: list.splits prod.splits option.splits if_splits simp: less_Suc_eq_le dest: read_hex_rest)

function string_pieces :: "str list \<Rightarrow> nat option \<times> str list \<Rightarrow> str list \<times> str list" where
  "string_pieces gs st =
     (case next_unit gs of
        (None, rest) \<Rightarrow> (snd st, rest)
      | (Some unit, rest) \<Rightarrow> string_pieces rest (add_unit unit st))"
  by pat_completeness auto
termination
  by (relation "measure (\<lambda>(gs, _). length gs)") (auto dest: next_unit_length [OF sym])

declare string_pieces.simps [simp del]

text \<open>What an unreadable string registers: a URL only its withheld parts.\<close>

definition unreadable_leaf :: "letters \<Rightarrow> str \<Rightarrow> str list" where
  "unreadable_leaf lt s =
     (if urls_in s = [] then registered_of lt LeafInner s
      else (case url_withheld lt s of Some (_, parts) \<Rightarrow> parts | None \<Rightarrow> []))"

definition bare_word :: "letters \<Rightarrow> str \<Rightarrow> str list" where
  "bare_word lt s = (if s \<noteq> [] \<and> \<not> is_json_scalar s then unreadable_leaf lt s else [])"

definition json_punctuation :: "str \<Rightarrow> bool" where
  "json_punctuation g = (is_rust_whitespace g \<or> g \<in> {''{'', ''}'', ''['', '']'', '','', '':''})"

definition piece_strings :: "letters \<Rightarrow> bool \<Rightarrow> str list \<Rightarrow> str list" where
  "piece_strings lt name pieces =
     concat (map (\<lambda>p. if \<not> name \<or> \<not> printable_member_name lt p then unreadable_leaf lt p else [])
       (filter (\<lambda>p. p \<noteq> []) pieces))"

lemma string_pieces_length: "string_pieces gs st = (pieces, rest) \<Longrightarrow> length rest \<le> length gs"
proof (induction gs st rule: string_pieces.induct)
  case (1 gs st)
  show ?case
  proof (cases "next_unit gs")
    case (Pair u r)
    have r: "length r \<le> length gs"
    proof (cases u)
      case None
      with Pair show ?thesis
        by (cases gs) (auto split: list.splits prod.splits option.splits if_splits)
    next
      case (Some unit)
      with Pair next_unit_length [of gs unit r] show ?thesis by simp
    qed
    show ?thesis
    proof (cases u)
      case None
      with "1.prems" Pair r show ?thesis by (simp add: string_pieces.simps [of gs])
    next
      case (Some unit)
      with "1.prems" Pair have "string_pieces r (add_unit unit st) = (pieces, rest)"
        by (simp add: string_pieces.simps [of gs])
      from "1.IH" [OF Pair [symmetric] Some this] r show ?thesis by auto
    qed
  qed
qed

function unreadable_from :: "letters \<Rightarrow> str list \<Rightarrow> str \<Rightarrow> str list" where
  "unreadable_from lt [] bare = bare_word lt bare"
| "unreadable_from lt (g # gs) bare =
     (if g \<noteq> [CHR 0x22] then
        (if json_punctuation g then bare_word lt bare @ unreadable_from lt gs []
         else unreadable_from lt gs (bare @ g))
      else
        (case string_pieces gs (None, [[]]) of (pieces, rest) \<Rightarrow>
           let rest' = dropWhile is_rust_whitespace rest; name = (take 1 rest' = ['':'']) in
           bare_word lt bare @ piece_strings lt name pieces @ unreadable_from lt rest' []))"
  by pat_completeness auto
termination
  by (relation "measure (\<lambda>(lt, gs, bare). length gs)")
    (auto simp: less_Suc_eq_le intro: le_trans [OF length_dropWhile_le] dest: string_pieces_length [OF sym])

definition unreadable_json_strings :: "letters \<Rightarrow> str \<Rightarrow> str list" where
  "unreadable_json_strings lt s = unreadable_from lt (utf8_chars s) []"

definition unprinted_credentials :: "letters \<Rightarrow> str \<Rightarrow> str list" where
  "unprinted_credentials lt s =
     (let strings = (if looks_like_json_text s then unreadable_json_strings lt s else []);
          parts = (case text_withheld lt s of Some (_, parts) \<Rightarrow> parts | None \<Rightarrow> []);
          ws = filter (\<lambda>w. looks_like_credential w
                 \<and> \<not> (CHR ''&'' \<in> set w \<or> CHR ''='' \<in> set (drop_end (\<lambda>c. c = CHR ''='') w))
                 \<and> \<not> contains w ''://'') (words_of s)
      in add_missing [] (filter registrable (strings @ parts @ ws)))"

end
