(* ===== verification/Withhold.thy ===== *)
theory Withhold
  imports WithholdValues
begin

text \<open>
  The withholding policy of printed gateway documents (\<open>src/gateway/withhold.rs\<close>,
  \<open>src/gateway/withhold_rules/view.rs\<close>, \<open>src/secrets.rs\<close> \<open>withhold\<close>). The walkers of the source, which rewrite a
  document and collect what they withhold, are one function \<open>visit_doc\<close> on a task (which walker reads the
  value, or what is done to it). The JSON parser, the compact printer, the number printer and the
  SDK's table of secret paths are parameters.
\<close>

section \<open>Shapes of a value\<close>

definition is_object :: "json \<Rightarrow> bool" where
  "is_object v = (case v of JObject _ \<Rightarrow> True | _ \<Rightarrow> False)"

definition is_container :: "json \<Rightarrow> bool" where
  "is_container v = (case v of JObject _ \<Rightarrow> True | JArray _ \<Rightarrow> True | _ \<Rightarrow> False)"

fun text_free :: "letters \<Rightarrow> json \<Rightarrow> bool" where
  "text_free lt (JString s) = False"
| "text_free lt (JArray items) = list_all (text_free lt) items"
| "text_free lt (JObject entries) = list_all (\<lambda>(name, m).
     class_of_name lt name \<in> {Plain, Fingerprint, Count} \<and> printable_member_name lt name \<and> text_free lt m) entries"
| "text_free lt JNull = True"
| "text_free lt (JBool b) = True"
| "text_free lt (JNumber n) = True"

definition is_empty_value :: "json \<Rightarrow> bool" where
  "is_empty_value v = (v \<in> {JString [], JArray [], JObject []})"

definition shape_of :: "letters \<Rightarrow> json \<Rightarrow> shape" where
  "shape_of lt v = (case v of
      JNull \<Rightarrow> ShNull
    | JBool _ \<Rightarrow> ShBool
    | JNumber _ \<Rightarrow> ShNumber
    | JString s \<Rightarrow> if looks_like_credential s then CredentialLike else PlainString
    | _ \<Rightarrow> if text_free lt v then TextFree else Container)"

definition is_type_name :: "json \<Rightarrow> bool" where
  "is_type_name v = (case v of JString s \<Rightarrow> s \<in> set schema_types | _ \<Rightarrow> False)"

definition is_schema :: "json \<Rightarrow> bool" where
  "is_schema v = (case jget v ''type'' of
      Some (JArray names) \<Rightarrow> names \<noteq> [] \<and> list_all is_type_name names
    | Some name \<Rightarrow> is_type_name name
    | None \<Rightarrow> False)"

section \<open>The environment\<close>

text \<open>
  A measure of nesting: one for every value and the bytes of its strings, the mark alone for one. A
  JSON text is longer than what it holds, and the mark is no JSON text.
\<close>

fun weight :: "json \<Rightarrow> nat" where
  "weight (JString s) = (if s = withheld then 1 else Suc (length s))"
| "weight (JArray items) = Suc (sum_list (map weight items))"
| "weight (JObject entries) = Suc (sum_list (map (\<lambda>(name, m). weight m) entries))"
| "weight JNull = 1"
| "weight (JBool b) = 1"
| "weight (JNumber n) = 1"

typedef json_reader = "{p :: str \<Rightarrow> json option.
    p withheld = None \<and> (\<forall>s v. p s = Some v \<longrightarrow> weight v \<le> length s)}"
  by (rule exI [of _ "\<lambda>_. None"]) simp

setup_lifting type_definition_json_reader

lift_definition read_json :: "json_reader \<Rightarrow> str \<Rightarrow> json option" is "\<lambda>p. p" .

lift_definition no_reader :: json_reader is "\<lambda>_. None" by simp

lemma read_json_weight: "read_json p s = Some v \<Longrightarrow> weight v \<le> length s"
  by transfer simp

lemma read_json_withheld [simp]: "read_json p withheld = None"
  by transfer simp

lemma read_json_no_reader [simp]: "read_json no_reader s = None"
  by transfer simp

type_synonym secret_path = "str list"

record gateway_rules =
  gr_letters :: letters
  gr_reader :: json_reader
  gr_compact :: "json \<Rightarrow> str option"
  gr_number :: "number \<Rightarrow> str"
  gr_secret_fields :: "(str \<times> secret_path list) list"

definition json_document :: "gateway_rules \<Rightarrow> str \<Rightarrow> json option" where
  "json_document R s =
     (if \<not> starts_with_any (trim_start s) [CHR ''{'', CHR ''[''] then None
      else (case read_json (gr_reader R) s of
          Some v \<Rightarrow> if is_container v then Some v else None | None \<Rightarrow> None))"

lemma json_document_weight: "json_document R s = Some v \<Longrightarrow> weight v < weight (JString s)"
  by (auto simp: json_document_def dest: read_json_weight split: if_splits option.splits)

section \<open>Policies\<close>

record withhold_policy =
  wp_operations :: "str list"
  wp_paths :: "secret_path list"

definition sdk_paths :: "gateway_rules \<Rightarrow> str list \<Rightarrow> secret_path list" where
  "sdk_paths R operations = concat (map snd (filter (\<lambda>(o', _). o' \<in> set operations) (gr_secret_fields R)))"

definition rule_paths :: "gateway_rules \<Rightarrow> withhold_policy \<Rightarrow> secret_path list" where
  "rule_paths R pol = sdk_paths R (wp_operations pol) @ wp_paths pol"

definition operations_policy :: "str list \<Rightarrow> withhold_policy" where
  "operations_policy operations = \<lparr>wp_operations = operations, wp_paths = []\<rparr>"

definition plain_policy :: withhold_policy where "plain_policy = operations_policy []"

definition auth_settings_policy :: withhold_policy where
  "auth_settings_policy =
     \<lparr>wp_operations = [''OrganisationsGetAuthSettings'', ''OrganisationsUpdateAuthSettings''],
      wp_paths = [[''data'', ''auth_settings'', ''client_secret'']]\<rparr>"

definition gateway_policies :: "withhold_policy list" where
  "gateway_policies =
     [plain_policy, operations_policy [''TelemetryFilterBoundaries''],
      operations_policy [''ApiKeysCreateService'', ''ApiKeysCreateUser'', ''ApiKeysRotateService'', ''ApiKeysRotateUser''],
      operations_policy [''ProvidersGet''], operations_policy [''IntegrationsCreate'', ''IntegrationsUpdate''],
      operations_policy [''McpIntegrationsCreate'', ''McpIntegrationsUpdate''], auth_settings_policy,
      operations_policy [''DeploymentsCreate'', ''DeploymentsUpdate''], operations_policy [''PluginsCreate''],
      operations_policy [''OrganisationsGetInfo'']]"

definition not_audited :: "str list" where "not_audited = [''TelemetryFilterBoundaries'']"

definition audit_paths :: "gateway_rules \<Rightarrow> secret_path list" where
  "audit_paths R =
     concat (map snd (filter (\<lambda>(o', _). o' \<notin> set not_audited) (gr_secret_fields R)))
     @ concat (map wp_paths gateway_policies)"

section \<open>Path rules\<close>

text \<open>
  A path rule replaces what it names and hands over the value with its leaf: what of it registers is
  read by \<open>visit_doc\<close>.
\<close>

type_synonym hits = "(leaf_kind \<times> json) list"

definition hidden :: "json \<Rightarrow> json" where
  "hidden v = (case v of JNull \<Rightarrow> v | JBool _ \<Rightarrow> v | _ \<Rightarrow> JString withheld)"

definition blank :: "json \<Rightarrow> json" where
  "blank v = (case v of JString _ \<Rightarrow> JString withheld | JArray _ \<Rightarrow> JString withheld
     | JObject _ \<Rightarrow> JString withheld | _ \<Rightarrow> v)"

datatype path_scope = ResourcePaths | AuditPaths

definition path_leaf :: "letters \<Rightarrow> str \<Rightarrow> bool \<Rightarrow> path_scope \<Rightarrow> leaf_kind" where
  "path_leaf lt name wildcard scope =
     (let cls = class_of_name lt name in
      if cls \<in> {Count, Credential, Member} then LeafPath
      else if cls = Generic then (if scope = ResourcePaths then LeafPath else LeafGeneric)
      else if wildcard then LeafInner else LeafPath)"

definition header_leaf :: "member_class \<Rightarrow> leaf_kind" where
  "header_leaf cls = (if cls \<in> {Count, Credential, Member} then LeafCredential else LeafGeneric)"

definition members_of :: "(str \<times> json) list \<Rightarrow> (str \<times> str option) list" where
  "members_of entries = map (\<lambda>(name, m). (name, as_str m)) entries"

definition pair_of :: "(str \<times> json) list \<Rightarrow> str list option" where
  "pair_of entries = pair_of_members (members_of entries)"

definition secret_located :: "letters \<Rightarrow> (str \<times> json) list \<Rightarrow> bool" where
  "secret_located lt entries = is_secret_location lt (map fst entries)"

text \<open>One item of a list a path rule reads as headers.\<close>

definition header_item_hits :: "letters \<Rightarrow> json \<Rightarrow> json \<times> hits" where
  "header_item_hits lt item =
     (case (case item of JObject entries \<Rightarrow> map_option (\<lambda>names. (entries, names)) (pair_of entries) | _ \<Rightarrow> None) of
        None \<Rightarrow> (hidden item, [(header_leaf (header_class lt []), item)])
      | Some (entries, names) \<Rightarrow>
          (blank item, map (\<lambda>(_, m). (header_leaf (pair_class lt names), m))
             (filter (\<lambda>(name, _). name = pair_value_key) entries)))"

definition header_values :: "letters \<Rightarrow> json \<Rightarrow> json \<times> hits" where
  "header_values lt v = (case v of
      JObject entries \<Rightarrow>
        (JObject (map (\<lambda>(name, m). (name, hidden m)) entries),
         map (\<lambda>(name, m). (header_leaf (header_class lt name), m)) entries)
    | JArray items \<Rightarrow>
        (JArray (map (\<lambda>i. fst (header_item_hits lt i)) items), concat (map (\<lambda>i. snd (header_item_hits lt i)) items))
    | _ \<Rightarrow> (v, []))"

fun secret_at :: "letters \<Rightarrow> path_scope \<Rightarrow> secret_path \<Rightarrow> json \<Rightarrow> json \<times> hits" where
  "secret_at lt scope [] v = (v, [])"
| "secret_at lt scope (step # rest) v = (case v of
      JObject entries \<Rightarrow>
        let results = map (\<lambda>(name, m). (name,
              if step \<noteq> ''*'' \<and> name \<noteq> step then (m, [])
              else if rest = [] then (hidden m, [(path_leaf lt name (step = ''*'') scope, m)])
              else if rest = [''*''] \<and> is_header_map lt name then header_values lt m
              else secret_at lt scope rest m)) entries
        in (JObject (map (\<lambda>(name, m, _). (name, m)) results), concat (map (\<lambda>(_, _, hs). hs) results))
    | JArray items \<Rightarrow>
        if step \<noteq> ''*'' then (v, [])
        else
          let results = map (\<lambda>m. if rest = [] then (hidden m, [(LeafPath, m)]) else secret_at lt scope rest m) items
          in (JArray (map fst results), concat (map snd results))
    | _ \<Rightarrow> (v, []))"

text \<open>Every path in turn, on what the ones before left.\<close>

fun at_paths :: "letters \<Rightarrow> path_scope \<Rightarrow> secret_path list \<Rightarrow> json \<Rightarrow> json \<times> hits" where
  "at_paths lt scope [] v = (v, [])"
| "at_paths lt scope (p # ps) v =
     (case secret_at lt scope p v of (v', hs) \<Rightarrow> case at_paths lt scope ps v' of (v'', hs') \<Rightarrow> (v'', hs @ hs'))"

text \<open>A document's rows, if it is a list.\<close>

definition each_row_of :: "(json \<Rightarrow> json \<times> hits) \<Rightarrow> json \<Rightarrow> json \<times> hits" where
  "each_row_of f v = (case v of
      JArray rows \<Rightarrow> (JArray (map (\<lambda>r. fst (f r)) rows), concat (map (\<lambda>r. snd (f r)) rows))
    | _ \<Rightarrow> f v)"

text \<open>One path of the audit rule: at the root, then under the first \<open>data\<close> member.\<close>

fun at_data :: "(json \<Rightarrow> json \<times> hits) \<Rightarrow> (str \<times> json) list \<Rightarrow> (str \<times> json) list \<times> hits" where
  "at_data f [] = ([], [])"
| "at_data f ((name, m) # entries) =
     (if name = ''data'' then (case f m of (m', hs) \<Rightarrow> ((name, m') # entries, hs))
      else (case at_data f entries of (entries', hs) \<Rightarrow> ((name, m) # entries', hs)))"

definition audit_at :: "letters \<Rightarrow> secret_path \<Rightarrow> json \<Rightarrow> json \<times> hits" where
  "audit_at lt p v =
     (let f = each_row_of (secret_at lt AuditPaths p) in
      case f v of (v', hs) \<Rightarrow>
        (case v' of
           JObject entries \<Rightarrow> (case at_data f entries of (entries', hs') \<Rightarrow> (JObject entries', hs @ hs'))
         | _ \<Rightarrow> (v', hs)))"

fun audit_hits :: "letters \<Rightarrow> secret_path list \<Rightarrow> json \<Rightarrow> json \<times> hits" where
  "audit_hits lt [] v = (v, [])"
| "audit_hits lt (p # ps) v =
     (case audit_at lt p v of (v', hs) \<Rightarrow> case audit_hits lt ps v' of (v'', hs') \<Rightarrow> (v'', hs @ hs'))"

section \<open>Weights\<close>

lemma weight_pos [simp]: "0 < weight v"
  by (cases v) auto

lemma weight_item: "m \<in> set items \<Longrightarrow> weight m < weight (JArray items)"
  by (simp add: less_Suc_eq_le member_le_sum_list)

lemma weight_member: "(name, m) \<in> set entries \<Longrightarrow> weight m < weight (JObject entries)"
proof -
  assume "(name, m) \<in> set entries"
  then have "weight m \<in> set (map (\<lambda>(name, m). weight m) entries)" by force
  then show ?thesis using member_le_sum_list by (fastforce simp: less_Suc_eq_le)
qed

text \<open>A path rule's result and what it hands over are no heavier than the value.\<close>

definition lighter :: "json \<Rightarrow> json \<times> hits \<Rightarrow> bool" where
  "lighter v r = (weight (fst r) \<le> weight v \<and> (\<forall>h \<in> set (snd r). weight (snd h) \<le> weight v))"

lemma lighter_refl [simp]: "lighter v (v, [])"
  by (simp add: lighter_def)

lemma weight_mark [simp]: "weight (JString withheld) = 1"
  by simp

lemma weight_hidden [simp]: "weight (hidden v) \<le> weight v"
  by (simp add: hidden_def Suc_le_eq split: json.split)

lemma weight_blank [simp]: "weight (blank v) \<le> weight v"
  by (simp add: blank_def Suc_le_eq split: json.split)

lemma lighter_hidden [simp]: "lighter v (hidden v, [(leaf, v)])"
  by (simp add: lighter_def)

lemma weight_array_map:
  assumes "\<And>i. i \<in> set items \<Longrightarrow> weight (f i) \<le> weight i"
  shows "weight (JArray (map f items)) \<le> weight (JArray items)"
  using sum_list_mono [of items "\<lambda>i. weight (f i)" weight] assms by (simp add: o_def)

lemma weight_object_map:
  assumes "\<And>e. e \<in> set entries \<Longrightarrow> weight (f e) \<le> weight (snd e)"
  shows "weight (JObject (map (\<lambda>e. (fst e, f e)) entries)) \<le> weight (JObject entries)"
  using sum_list_mono [of entries "\<lambda>e. weight (f e)" "\<lambda>e. weight (snd e)"] assms by (simp add: o_def case_prod_unfold)

lemma lighter_array:
  assumes "\<And>i. i \<in> set items \<Longrightarrow> lighter i (f i)"
  shows "lighter (JArray items) (JArray (map (\<lambda>i. fst (f i)) items), concat (map (\<lambda>i. snd (f i)) items))"
proof -
  have "weight (JArray (map (\<lambda>i. fst (f i)) items)) \<le> weight (JArray items)"
    using assms by (intro weight_array_map) (simp add: lighter_def)
  moreover have "weight (snd h) \<le> weight (JArray items)" if "i \<in> set items" "h \<in> set (snd (f i))" for i h
    using assms [OF that(1)] that(2) weight_item [OF that(1)] by (fastforce simp: lighter_def)
  ultimately show ?thesis by (auto simp: lighter_def simp del: weight.simps)
qed

lemma lighter_object:
  assumes "\<And>e. e \<in> set entries \<Longrightarrow> lighter (snd e) (f e)"
  shows "lighter (JObject entries)
    (JObject (map (\<lambda>e. (fst e, fst (f e))) entries), concat (map (\<lambda>e. snd (f e)) entries))"
proof -
  have "weight (JObject (map (\<lambda>e. (fst e, fst (f e))) entries)) \<le> weight (JObject entries)"
    using assms by (intro weight_object_map) (simp add: lighter_def)
  moreover have "weight (snd h) \<le> weight (JObject entries)" if "e \<in> set entries" "h \<in> set (snd (f e))" for e h
    using assms [OF that(1)] that weight_member [of "fst e" "snd e" entries]
    by (fastforce simp: lighter_def simp del: weight.simps)
  ultimately show ?thesis by (auto simp: lighter_def simp del: weight.simps)
qed

lemma lighter_header_item: "lighter item (header_item_hits lt item)"
proof -
  have "weight m \<le> weight (JObject entries)" if "(name, m) \<in> set entries" for name m entries
    using weight_member [OF that] by simp
  then show ?thesis
    by (fastforce simp: header_item_hits_def lighter_def simp del: weight.simps split: option.splits json.splits)
qed

lemma lighter_header_values: "lighter v (header_values lt v)"
proof (cases v)
  case (JArray items)
  then show ?thesis using lighter_array [OF lighter_header_item, of items] by (simp add: header_values_def)
next
  case (JObject entries)
  then show ?thesis
    using lighter_object [of entries "\<lambda>e. (hidden (snd e), [(header_leaf (header_class lt (fst e)), snd e)])"]
    by (simp add: header_values_def case_prod_unfold del: weight.simps)
qed (simp_all add: header_values_def)

lemma lighter_secret_at: "lighter v (secret_at lt scope p v)"
proof (induction lt scope p v rule: secret_at.induct)
  case (2 lt scope step rest v)
  show ?case
  proof (cases v)
    case (JArray items)
    have "lighter m (if rest = [] then (hidden m, [(LeafPath, m)]) else secret_at lt scope rest m)"
      if "m \<in> set items" "step = ''*''" for m
      using 2 JArray that by simp
    with JArray lighter_array [of items "\<lambda>m. if rest = [] then (hidden m, [(LeafPath, m)]) else secret_at lt scope rest m"]
    show ?thesis by (simp add: o_def del: weight.simps)
  next
    case (JObject entries)
    define f where "f = (\<lambda>(name, m). if step \<noteq> ''*'' \<and> name \<noteq> step then (m, [])
              else if rest = [] then (hidden m, [(path_leaf lt name (step = ''*'') scope, m)])
              else if rest = [''*''] \<and> is_header_map lt name then header_values lt m
              else secret_at lt scope rest m)"
    have "lighter (snd e) (f e)" if "e \<in> set entries" for e
      using 2 JObject that lighter_header_values [of "snd e" lt] by (cases e) (auto simp: f_def)
    then have "lighter v (JObject (map (\<lambda>e. (fst e, fst (f e))) entries), concat (map (\<lambda>e. snd (f e)) entries))"
      using lighter_object JObject by simp
    with JObject show ?thesis by (simp add: f_def Let_def o_def case_prod_unfold del: weight.simps)
  qed simp_all
qed simp

lemma lighter_each_row:
  assumes "\<And>w. lighter w (f w)"
  shows "lighter v (each_row_of f v)"
  using assms lighter_array [of _ f] by (cases v) (simp_all add: each_row_of_def del: weight.simps)

lemma lighter_at_data:
  assumes "\<And>w. lighter w (f w)" "at_data f entries = (entries', hs)"
  shows "lighter (JObject entries) (JObject entries', hs)"
  using assms(2)
proof (induction entries arbitrary: entries' hs)
  case (Cons e entries)
  then show ?case using assms(1) [of "snd e"]
    by (cases e) (fastforce simp: lighter_def split: if_splits prod.splits)
qed simp

lemma lighter_then:
  "lighter v (v', hs) \<Longrightarrow> lighter v' (v'', hs') \<Longrightarrow> lighter v (v'', hs @ hs')"
  by (auto simp: lighter_def intro: le_trans)

lemma lighter_audit_at: "lighter v (audit_at lt p v)"
proof -
  define f where "f = each_row_of (secret_at lt AuditPaths p)"
  have f: "lighter w (f w)" for w by (simp add: f_def lighter_each_row lighter_secret_at)
  obtain v' hs where v': "f v = (v', hs)" by fastforce
  show ?thesis
  proof (cases v')
    case (JObject entries)
    obtain entries' hs' where "at_data f entries = (entries', hs')" by fastforce
    with v' JObject f [of v] lighter_at_data [OF f this] show ?thesis
      by (auto simp: audit_at_def f_def [symmetric] intro: lighter_then)
  qed (use f [of v] v' in \<open>simp_all add: audit_at_def f_def [symmetric]\<close>)
qed

lemma lighter_audit_hits: "lighter v (audit_hits lt ps v)"
proof (induction ps arbitrary: v)
  case (Cons p ps)
  obtain v' hs where "audit_at lt p v = (v', hs)" by fastforce
  moreover obtain v'' hs' where "audit_hits lt ps v' = (v'', hs')" by fastforce
  ultimately show ?case using lighter_audit_at [of v lt p] Cons.IH [of v']
    by (auto intro: lighter_then)
qed simp

end
