(* ===== verification/WithholdWalk.thy ===== *)
theory WithholdWalk
  imports Withhold
begin

text \<open>
  The walkers of \<open>src/gateway/withhold.rs\<close> as one function \<open>visit_doc\<close>: a task says which walker reads a
  value, or what is done to it. Each member's task is a function of its name, its value and its siblings
  (\<open>names_task\<close>, \<open>audit_task\<close>, \<open>header_task\<close>, \<open>property_task\<close>, \<open>schema_task\<close>).
\<close>

section \<open>Tasks\<close>

text \<open>\<open>Names\<close> is \<open>names_and_urls\<close> and \<open>Audit\<close> is \<open>audit_walk\<close>: the two values of the source's \<open>Walk\<close>.\<close>

datatype walker = Names | Audit

datatype task =
    Leave
  | Walk walker
  | Hide leaf_kind
  | HeaderMapOf walker
  | Described bool
  | Properties
  | SchemaOf str
  | SchemaItem str str
  | AuditDoc

fun rank :: "task \<Rightarrow> nat" where
  "rank Leave = 0"
| "rank (Walk w) = 1"
| "rank (Hide leaf) = 2"
| "rank (HeaderMapOf w) = 3"
| "rank (Described credential) = 3"
| "rank AuditDoc = 3"
| "rank Properties = 3"
| "rank (SchemaOf name) = 3"
| "rank (SchemaItem name keyword) = 4"

lemma weight_pair: "e \<in> set entries \<Longrightarrow> weight (snd e) < weight (JObject entries)"
  by (cases e) (simp add: weight_member del: weight.simps)

lemma hit_weight: "audit_hits lt ps v = (v', hs) \<Longrightarrow> weight v' \<le> weight v"
  "audit_hits lt ps v = (v', hs) \<Longrightarrow> h \<in> set hs \<Longrightarrow> weight (snd h) \<le> weight v"
  using lighter_audit_hits [of v lt ps] by (auto simp: lighter_def)

definition take_task :: "walker \<Rightarrow> member_action \<Rightarrow> task" where
  "take_task w a = (case a of
      Read \<Rightarrow> Walk w | Headers \<Rightarrow> HeaderMapOf w | Keep \<Rightarrow> Leave | Withhold leaf \<Rightarrow> Hide leaf)"

definition named_task :: "letters \<Rightarrow> walker \<Rightarrow> str \<Rightarrow> bool \<Rightarrow> json \<Rightarrow> task" where
  "named_task lt w name located m = take_task w (action_of (class_of_member lt name located) (shape_of lt m))"

definition names_task :: "letters \<Rightarrow> (str \<times> json) list \<Rightarrow> str \<Rightarrow> json \<Rightarrow> task" where
  "names_task lt entries name m =
     (case pair_of entries of
        Some names \<Rightarrow>
          if names_member names name (as_str m) then Walk Names
          else if name = pair_value_key
            then take_task Names (action_of (pair_class_outside_headers lt names) (shape_of lt m))
          else if name = ''properties'' \<and> is_object m then Properties
          else named_task lt Names name (secret_located lt entries) m
      | None \<Rightarrow>
          if name = ''properties'' \<and> is_object m then Properties
          else named_task lt Names name (secret_located lt entries) m)"

definition audit_task :: "letters \<Rightarrow> (str \<times> json) list \<Rightarrow> str \<Rightarrow> json \<Rightarrow> task" where
  "audit_task lt entries name m =
     (case pair_of entries of
        Some names \<Rightarrow>
          if names_member names name (as_str m) then Walk Audit
          else if name = pair_value_key
            then take_task Audit (header_action (pair_class lt names) (shape_of lt m))
          else named_task lt Audit name (secret_located lt entries) m
      | None \<Rightarrow> named_task lt Audit name (secret_located lt entries) m)"

definition header_task :: "letters \<Rightarrow> walker \<Rightarrow> (str \<times> json) list \<Rightarrow> str \<Rightarrow> json \<Rightarrow> task" where
  "header_task lt w entries name m =
     (case pair_of entries of
        Some names \<Rightarrow>
          if names_member names name (as_str m) then Walk w
          else take_task w (header_action
            (if name = pair_value_key then pair_class lt names else header_class lt name) (shape_of lt m))
      | None \<Rightarrow> take_task w (header_action (header_class lt name) (shape_of lt m)))"

definition header_item_task :: "letters \<Rightarrow> walker \<Rightarrow> json \<Rightarrow> task" where
  "header_item_task lt w item =
     (if is_object item then HeaderMapOf w
      else take_task w (header_item_action lt (as_str item) (shape_of lt item)))"

definition instance_task :: "letters \<Rightarrow> str \<Rightarrow> str \<Rightarrow> json \<Rightarrow> task" where
  "instance_task lt property own m =
     named_task lt Names
       (if class_of_name lt property \<le> class_of_name lt own then own else property) False m"

definition property_task :: "letters \<Rightarrow> str \<Rightarrow> json \<Rightarrow> task" where
  "property_task lt name m = (if is_schema m then SchemaOf name else named_task lt Names name False m)"

definition schema_task :: "letters \<Rightarrow> str \<Rightarrow> str \<Rightarrow> json \<Rightarrow> task" where
  "schema_task lt property keyword m =
     (if keyword = ''properties'' \<and> is_object m then Properties
      else if keyword \<in> set subschema_keywords then
        (case m of JObject _ \<Rightarrow> SchemaOf property | JArray _ \<Rightarrow> SchemaItem property keyword
         | _ \<Rightarrow> instance_task lt property keyword m)
      else if keyword \<in> set schema_keywords then Described (Plain < class_of_name lt property)
      else if keyword \<in> set schema_value_keywords \<and> is_empty_value m then Leave
      else instance_task lt property keyword m)"

definition schema_item_task :: "letters \<Rightarrow> str \<Rightarrow> str \<Rightarrow> json \<Rightarrow> task" where
  "schema_item_task lt property keyword item =
     (if is_object item then SchemaOf property else instance_task lt property keyword item)"

section \<open>Strings\<close>

text \<open>The leaves of a withheld value that no rule changed.\<close>

fun inner_leaves :: "letters \<Rightarrow> bool \<Rightarrow> json \<Rightarrow> str list" where
  "inner_leaves lt describing (JString s) =
     (if contains s withheld then [] else registered_of lt (if describing then LeafDescribing else LeafInner) s)"
| "inner_leaves lt describing (JArray items) = concat (map (inner_leaves lt describing) items)"
| "inner_leaves lt describing (JObject entries) =
     concat (map (\<lambda>(name, m). inner_leaves lt
       (describing \<or> is_schema (JObject entries) \<and> name \<in> set schema_keywords) m) entries)"
| "inner_leaves lt describing JNull = []"
| "inner_leaves lt describing (JBool b) = []"
| "inner_leaves lt describing (JNumber n) = []"

fun withhold_described_credentials :: "letters \<Rightarrow> json \<Rightarrow> json" where
  "withhold_described_credentials lt (JString s) =
     (if shows_credential lt s then JString withheld else JString s)"
| "withhold_described_credentials lt (JArray items) = JArray (map (withhold_described_credentials lt) items)"
| "withhold_described_credentials lt (JObject entries) =
     JObject (map (\<lambda>(name, m). (name, withhold_described_credentials lt m)) entries)"
| "withhold_described_credentials lt JNull = JNull"
| "withhold_described_credentials lt (JBool b) = JBool b"
| "withhold_described_credentials lt (JNumber n) = JNumber n"

text \<open>A text whose document is printed: unchanged documents stay as received.\<close>

definition reprinted :: "gateway_rules \<Rightarrow> str \<Rightarrow> json \<Rightarrow> json \<Rightarrow> json" where
  "reprinted R s received doc =
     (if doc = received then JString s
      else case gr_compact R doc of Some t \<Rightarrow> JString t | None \<Rightarrow> JString withheld)"

text \<open>A string that holds no JSON document, and one read by the text rules.\<close>

definition unreadable_text :: "letters \<Rightarrow> str \<Rightarrow> json \<times> str list" where
  "unreadable_text lt s = (JString withheld, unreadable_json_strings lt s)"

definition in_place :: "letters \<Rightarrow> str \<Rightarrow> json \<times> str list" where
  "in_place lt s = (case text_withheld lt s of
      Some (t, parts) \<Rightarrow> (JString t, parts) | None \<Rightarrow> (JString s, []))"

definition plain_text :: "letters \<Rightarrow> str \<Rightarrow> json \<times> str list" where
  "plain_text lt s =
     (if looks_like_json_text s then unreadable_text lt s
      else if has_private_key s then (JString withheld, registered_of lt LeafCredential s)
      else in_place lt s)"

text \<open>What a member's value that repeats a sibling's mode registers is not that value.\<close>

definition without_mode :: "letters \<Rightarrow> (str \<times> json) list \<Rightarrow> json \<Rightarrow> str list \<Rightarrow> str list" where
  "without_mode lt entries m regs =
     (case as_str m of
        Some s \<Rightarrow> if repeats_a_mode lt s (mode_values lt (members_of entries)) then filter (\<lambda>r. r \<noteq> s) regs else regs
      | None \<Rightarrow> regs)"

section \<open>The walkers\<close>

text \<open>An object and an array from what was made of their members and items.\<close>

definition rebuilt :: "(str \<times> json \<times> str list) list \<Rightarrow> json \<times> str list" where
  "rebuilt results =
     (JObject (map (\<lambda>r. (fst r, fst (snd r))) results), concat (map (\<lambda>r. snd (snd r)) results))"

definition rebuilt_items :: "(json \<times> str list) list \<Rightarrow> json \<times> str list" where
  "rebuilt_items results = (JArray (map fst results), concat (map snd results))"

definition text_task :: "walker \<Rightarrow> task" where
  "text_task w = (case w of Names \<Rightarrow> Walk Names | Audit \<Rightarrow> AuditDoc)"

definition walk_task :: "letters \<Rightarrow> walker \<Rightarrow> (str \<times> json) list \<Rightarrow> str \<Rightarrow> json \<Rightarrow> task" where
  "walk_task lt w entries name m =
     (case w of Names \<Rightarrow> names_task lt entries name m | Audit \<Rightarrow> audit_task lt entries name m)"

definition walk_found :: "letters \<Rightarrow> walker \<Rightarrow> (str \<times> json) list \<Rightarrow> json \<Rightarrow> str list \<Rightarrow> str list" where
  "walk_found lt w entries m regs = (case w of Names \<Rightarrow> without_mode lt entries m regs | Audit \<Rightarrow> regs)"

function visit_doc :: "gateway_rules \<Rightarrow> task \<Rightarrow> json \<Rightarrow> json \<times> str list" where
  "visit_doc R Leave v = (v, [])"
| "visit_doc R (Walk w) v = (case v of
      JObject entries \<Rightarrow> rebuilt (map (\<lambda>e.
        case visit_doc R (walk_task (gr_letters R) w entries (fst e) (snd e)) (snd e) of
          (m, regs) \<Rightarrow> (fst e, m, walk_found (gr_letters R) w entries (snd e) regs)) entries)
    | JArray items \<Rightarrow> rebuilt_items (map (visit_doc R (Walk w)) items)
    | JString s \<Rightarrow>
        (case json_document R s of
           Some doc \<Rightarrow> (case visit_doc R (text_task w) doc of (doc', regs) \<Rightarrow> (reprinted R s doc doc', regs))
         | None \<Rightarrow> plain_text (gr_letters R) s)
    | _ \<Rightarrow> (v, []))"
| "visit_doc R (Hide leaf) v = (case v of
      JNull \<Rightarrow> (v, [])
    | JBool b \<Rightarrow> (v, [])
    | JNumber n \<Rightarrow> (JString withheld,
        case registered_number leaf (gr_number R n) of Some r \<Rightarrow> [r] | None \<Rightarrow> [])
    | JString s \<Rightarrow>
        if s = withheld then (v, [])
        else
          (JString withheld,
           (case json_document R s of
              Some doc \<Rightarrow> (case visit_doc R (Walk Names) doc of
                  (doc', regs) \<Rightarrow> regs @ inner_leaves (gr_letters R) False doc')
            | None \<Rightarrow> if looks_like_json_text s then unreadable_json_strings (gr_letters R) s else [])
           @ registered_of (gr_letters R) leaf s)
    | _ \<Rightarrow> (case visit_doc R (Walk Names) v of
        (v', regs) \<Rightarrow> (JString withheld, regs @ inner_leaves (gr_letters R) False v')))"
| "visit_doc R (HeaderMapOf w) v = (case v of
      JObject entries \<Rightarrow> rebuilt (map (\<lambda>e.
        (fst e, visit_doc R (header_task (gr_letters R) w entries (fst e) (snd e)) (snd e))) entries)
    | JArray items \<Rightarrow>
        rebuilt_items (map (\<lambda>item. visit_doc R (header_item_task (gr_letters R) w item) item) items)
    | JString s \<Rightarrow>
        (case json_document R s of
           Some doc \<Rightarrow> (case visit_doc R (HeaderMapOf w) doc of (doc', regs) \<Rightarrow> (reprinted R s doc doc', regs))
         | None \<Rightarrow>
             if looks_like_json_text s then unreadable_text (gr_letters R) s
             else visit_doc R (Hide LeafGeneric) v)
    | _ \<Rightarrow> (v, []))"
| "visit_doc R (Described credential) v =
     (case visit_doc R (Walk Names) v of
        (v', regs) \<Rightarrow> (if credential then withhold_described_credentials (gr_letters R) v' else v', regs))"
| "visit_doc R Properties v = (case v of
      JObject entries \<Rightarrow> rebuilt (map (\<lambda>e.
        (fst e, visit_doc R (property_task (gr_letters R) (fst e) (snd e)) (snd e))) entries)
    | _ \<Rightarrow> (v, []))"
| "visit_doc R (SchemaOf property) v = (case v of
      JObject entries \<Rightarrow> rebuilt (map (\<lambda>e.
        (fst e, visit_doc R (schema_task (gr_letters R) property (fst e) (snd e)) (snd e))) entries)
    | _ \<Rightarrow> (v, []))"
| "visit_doc R (SchemaItem property keyword) v = (case v of
      JArray items \<Rightarrow> rebuilt_items (map (\<lambda>item.
        visit_doc R (schema_item_task (gr_letters R) property keyword item) item) items)
    | _ \<Rightarrow> (v, []))"
| "visit_doc R AuditDoc v = (case audit_hits (gr_letters R) (audit_paths R) v of
      (v', hs) \<Rightarrow>
        (case visit_doc R (Walk Audit) v' of
           (v'', regs) \<Rightarrow> (v'', concat (map (\<lambda>h. snd (visit_doc R (Hide (fst h)) (snd h))) hs) @ regs)))"
  by pat_completeness auto
termination
proof (relation "measures [\<lambda>(R, t, v). weight v, \<lambda>(R, t, v). rank t]", goal_cases)
qed (auto simp del: weight.simps simp: le_less [symmetric] dest: weight_item weight_pair
  json_document_weight hit_weight [OF sym])

declare visit_doc.simps [simp del]

section \<open>Documents\<close>

text \<open>What path rules handed over, registered as \<open>withhold_value\<close> does.\<close>

definition hits_found :: "gateway_rules \<Rightarrow> hits \<Rightarrow> str list" where
  "hits_found R hs = concat (map (\<lambda>h. snd (visit_doc R (Hide (fst h)) (snd h))) hs)"

definition register_found :: "(str \<Rightarrow> str) \<Rightarrow> str list \<Rightarrow> secret_set \<Rightarrow> secret_set" where
  "register_found enc found secrets = foldl (\<lambda>forms r. add_secret enc r forms) secrets (filter registrable found)"

text \<open>\<open>withhold\<close> of \<open>src/secrets.rs\<close>.\<close>

fun withhold_carried :: "secret_set \<Rightarrow> json \<Rightarrow> json" where
  "withhold_carried secrets (JString s) = (if carried_by secrets s then JString withheld else JString s)"
| "withhold_carried secrets (JObject entries) =
     JObject (map (\<lambda>(name, m). (name, withhold_carried secrets m))
       (filter (\<lambda>(name, _). \<not> carried_by secrets name) entries))"
| "withhold_carried secrets (JArray items) = JArray (map (withhold_carried secrets) items)"
| "withhold_carried secrets JNull = JNull"
| "withhold_carried secrets (JBool b) = JBool b"
| "withhold_carried secrets (JNumber n) = JNumber n"

text \<open>\<open>apply\<close>: the policy's paths on each row, the name and text rules, then the set of secrets.\<close>

definition policy_hits :: "gateway_rules \<Rightarrow> withhold_policy \<Rightarrow> json \<Rightarrow> json \<times> hits" where
  "policy_hits R pol doc =
     each_row_of (at_paths (gr_letters R) ResourcePaths (rule_paths R pol)) doc"

definition policy_walk :: "gateway_rules \<Rightarrow> withhold_policy \<Rightarrow> json \<Rightarrow> json \<times> str list" where
  "policy_walk R pol doc =
     (case policy_hits R pol doc of (doc', hs) \<Rightarrow>
        case visit_doc R (Walk Names) doc' of (doc'', found) \<Rightarrow> (doc'', hits_found R hs @ found))"

definition apply_policy :: "gateway_rules \<Rightarrow> (str \<Rightarrow> str) \<Rightarrow> withhold_policy \<Rightarrow> json \<Rightarrow> secret_set \<Rightarrow> json \<times> secret_set" where
  "apply_policy R enc pol doc secrets =
     (case policy_walk R pol doc of (doc', found) \<Rightarrow>
        let secrets' = register_found enc found secrets in (withhold_carried secrets' doc', secrets'))"

text \<open>Model output: the URL and scheme rules only, and nothing is registered.\<close>

fun value_rules :: "letters \<Rightarrow> json \<Rightarrow> json" where
  "value_rules lt (JObject entries) = JObject (map (\<lambda>(name, m). (name, value_rules lt m)) entries)"
| "value_rules lt (JArray items) = JArray (map (value_rules lt) items)"
| "value_rules lt (JString s) = JString (case model_output_withheld lt s of Some t \<Rightarrow> t | None \<Rightarrow> s)"
| "value_rules lt JNull = JNull"
| "value_rules lt (JBool b) = JBool b"
| "value_rules lt (JNumber n) = JNumber n"

definition apply_model_output :: "gateway_rules \<Rightarrow> json \<Rightarrow> secret_set \<Rightarrow> json" where
  "apply_model_output R doc secrets = withhold_carried secrets (value_rules (gr_letters R) doc)"

section \<open>The audit log\<close>

definition field_document :: "gateway_rules \<Rightarrow> json \<Rightarrow> json option" where
  "field_document R m = (case m of
      JString s \<Rightarrow> json_document R s | JObject _ \<Rightarrow> Some m | JArray _ \<Rightarrow> Some m | _ \<Rightarrow> None)"

definition unread_field :: "gateway_rules \<Rightarrow> json \<Rightarrow> json \<times> str list" where
  "unread_field R m = (case m of
      JNull \<Rightarrow> (m, [])
    | JString s \<Rightarrow> if s = withheld then (m, []) else (JString withheld, unprinted_credentials (gr_letters R) s)
    | JNumber n \<Rightarrow> (JString withheld,
        case registered_number LeafInner (gr_number R n) of Some r \<Rightarrow> [r] | None \<Rightarrow> [])
    | _ \<Rightarrow> (JString withheld, []))"

definition audit_field :: "gateway_rules \<Rightarrow> bool \<Rightarrow> bool \<Rightarrow> json \<Rightarrow> json \<times> str list" where
  "audit_field R headers reveal m =
     (case field_document R m of
        None \<Rightarrow> unread_field R m
      | Some doc \<Rightarrow>
          (case visit_doc R (if headers then HeaderMapOf Audit else AuditDoc) doc of
             (doc', found) \<Rightarrow>
               if \<not> reveal then (JString withheld, found)
               else if as_str m = None then (doc', found)
               else (case gr_compact R doc' of Some t \<Rightarrow> (JString t, found) | None \<Rightarrow> (JString withheld, found))))"

definition audit_member :: "gateway_rules \<Rightarrow> bool \<Rightarrow> str \<times> json \<Rightarrow> str \<times> json \<times> str list" where
  "audit_member R reveal e =
     (fst e, if fst e \<in> set audit_fields then audit_field R (fst e = ''request_headers'') reveal (snd e)
             else (snd e, []))"

definition audit_record :: "gateway_rules \<Rightarrow> bool \<Rightarrow> json \<Rightarrow> json \<times> str list" where
  "audit_record R reveal r = (case r of
      JObject entries \<Rightarrow> rebuilt (map (audit_member R reveal) entries) | _ \<Rightarrow> (r, []))"

definition audit_records :: "gateway_rules \<Rightarrow> bool \<Rightarrow> json \<Rightarrow> json \<times> str list" where
  "audit_records R reveal rows = (case rows of
      JArray items \<Rightarrow> rebuilt_items (map (audit_record R reveal) items) | _ \<Rightarrow> (rows, []))"

definition apply_audit :: "gateway_rules \<Rightarrow> (str \<Rightarrow> str) \<Rightarrow> json \<Rightarrow> bool \<Rightarrow> secret_set \<Rightarrow> json \<times> secret_set" where
  "apply_audit R enc rows reveal secrets =
     (case audit_records R reveal rows of (rows', found) \<Rightarrow>
        apply_policy R enc plain_policy rows' (register_found enc found secrets))"

end
