(* ===== verification/WithholdMask.thy ===== *)
theory WithholdMask
  imports WithholdWalk
begin

text \<open>
  What withholding may do to a document: \<open>masks\<close> says that a value is another one with some parts
  replaced by the mark, some texts rewritten and some members dropped. Every walker and every path rule
  stays within it, and what a path rule hid stays hidden (\<open>on_path\<close>, \<open>concealed\<close>).
\<close>

section \<open>The mark\<close>

lemma looks_like_json_text_mark [simp]: "\<not> looks_like_json_text withheld"
  unfolding withheld_def by code_simp

lemma text_withheld_mark [simp]: "text_withheld lt withheld = None"
  unfolding withheld_def by code_simp

lemma has_private_key_mark [simp]: "\<not> has_private_key withheld"
  unfolding withheld_def by code_simp

lemma plain_text_mark [simp]: "plain_text lt withheld = (JString withheld, [])"
  by (simp add: plain_text_def in_place_def)

lemma json_document_mark [simp]: "json_document R withheld = None"
  by (simp add: json_document_def)

section \<open>Masked values\<close>

inductive masks :: "json \<Rightarrow> json \<Rightarrow> bool" where
  masks_same: "masks v v"
| masks_mark: "masks v (JString withheld)"
| masks_text: "s \<noteq> withheld \<Longrightarrow> masks (JString s) (JString t)"
| masks_array: "list_all2 masks xs ys \<Longrightarrow> masks (JArray xs) (JArray ys)"
| masks_object: "\<forall>(n, m') \<in> set fs. \<exists>m. (n, m) \<in> set es \<and> masks m m' \<Longrightarrow> masks (JObject es) (JObject fs)"

inductive_cases masks_stringE: "masks (JString s) w"
inductive_cases masks_arrayE: "masks (JArray xs) w"
inductive_cases masks_objectE: "masks (JObject es) w"

declare masks_same [simp, intro] masks_mark [simp, intro]

lemma masks_text_iff: "masks (JString s) w \<longleftrightarrow> w = JString s \<or> (\<exists>t. w = JString t \<and> (s = withheld \<longrightarrow> t = withheld))"
  by (auto elim: masks_stringE intro: masks_text)

lemma masks_array_iff:
  "masks (JArray xs) w \<longleftrightarrow> w = JString withheld \<or> (\<exists>ys. w = JArray ys \<and> list_all2 masks xs ys)"
  by (auto elim: masks_arrayE intro: masks_array list_all2_refl)

lemma masks_object_iff:
  "masks (JObject es) w \<longleftrightarrow> w = JString withheld
     \<or> (\<exists>fs. w = JObject fs \<and> (\<forall>(n, m') \<in> set fs. \<exists>m. (n, m) \<in> set es \<and> masks m m'))"
  by (auto elim!: masks_objectE intro: masks_object)

lemma masks_trans: "masks u v \<Longrightarrow> masks v w \<Longrightarrow> masks u w"
proof (induction arbitrary: w rule: masks.induct)
  case (masks_array xs ys)
  then show ?case by (fastforce simp: masks_array_iff list_all2_conv_all_nth)
next
  case (masks_object fs es)
  from masks_object.prems consider "w = JString withheld"
    | gs where "w = JObject gs" "\<forall>(n, m'') \<in> set gs. \<exists>m'. (n, m') \<in> set fs \<and> masks m' m''"
    by (auto simp: masks_object_iff)
  then show ?case
  proof cases
    case 2
    have "\<exists>m. (n, m) \<in> set es \<and> masks m m''" if "(n, m'') \<in> set gs" for n m''
    proof -
      from 2(2) that obtain m' where "(n, m') \<in> set fs" "masks m' m''" by blast
      with masks_object.IH show ?thesis by blast
    qed
    with 2(1) show ?thesis by (auto simp: masks_object_iff)
  qed simp
qed (auto simp: masks_text_iff)

lemma masks_items: "(\<And>i. i \<in> set items \<Longrightarrow> masks i (f i)) \<Longrightarrow> masks (JArray items) (JArray (map f items))"
  by (auto intro!: masks_array simp: list_all2_conv_all_nth)

lemma masks_members:
  "(\<And>e. e \<in> set entries \<Longrightarrow> masks (snd e) (f e)) \<Longrightarrow>
   masks (JObject entries) (JObject (map (\<lambda>e. (fst e, f e)) entries))"
  by (rule masks_object) force

lemma masks_rebuilt:
  "(\<And>e. e \<in> set entries \<Longrightarrow> masks (snd e) (fst (f e))) \<Longrightarrow>
   masks (JObject entries) (fst (rebuilt (map (\<lambda>e. (fst e, f e)) entries)))"
  using masks_members [of entries "\<lambda>e. fst (f e)"] by (simp add: rebuilt_def o_def)

lemma masks_rebuilt_items:
  "(\<And>i. i \<in> set items \<Longrightarrow> masks i (fst (f i))) \<Longrightarrow>
   masks (JArray items) (fst (rebuilt_items (map f items)))"
  using masks_items [of items "\<lambda>i. fst (f i)"] by (simp add: rebuilt_items_def o_def)

lemma masks_reprinted: "json_document R s = Some doc \<Longrightarrow> masks (JString s) (reprinted R s doc doc')"
  by (auto simp: reprinted_def masks_text_iff split: option.split)

lemma masks_plain_text: "masks (JString s) (fst (plain_text lt s))"
  by (cases "s = withheld")
    (auto simp: plain_text_def unreadable_text_def in_place_def masks_text_iff split: option.split)

lemma masks_hidden: "masks v (hidden v)"
  by (simp add: hidden_def split: json.split)

lemma masks_blank: "masks v (blank v)"
  by (simp add: blank_def split: json.split)

lemma masks_described: "masks v (withhold_described_credentials lt v)"
proof (induction v rule: withhold_described_credentials.induct [of _ lt])
  case (3 lt entries)
  then show ?case
    using masks_members [of entries "\<lambda>e. withhold_described_credentials lt (snd e)"]
    by (force simp: case_prod_unfold)
qed (auto intro: masks_items)

lemma masks_carried: "masks v (withhold_carried secrets v)"
proof (induction v rule: withhold_carried.induct [of _ secrets])
  case (2 secrets entries)
  then show ?case by (force intro!: masks_object)
qed (auto intro: masks_items)

section \<open>Path rules mask\<close>

lemma masks_header_values: "masks v (fst (header_values lt v))"
proof (cases v)
  case (JArray items)
  have "masks i (fst (header_item_hits lt i))" for i
    by (simp add: header_item_hits_def masks_hidden masks_blank split: option.split)
  with JArray show ?thesis by (simp add: header_values_def masks_items)
next
  case (JObject entries)
  then show ?thesis using masks_members [of entries "\<lambda>e. hidden (snd e)"]
    by (simp add: header_values_def masks_hidden case_prod_unfold)
qed (simp_all add: header_values_def)

lemma masks_secret_at: "masks v (fst (secret_at lt scope p v))"
proof (induction lt scope p v rule: secret_at.induct)
  case (2 lt scope step rest v)
  show ?case
  proof (cases v)
    case (JArray items)
    have "masks m (fst (if rest = [] then (hidden m, [(LeafPath, m)]) else secret_at lt scope rest m))"
      if "m \<in> set items" "step = ''*''" for m
      using 2 JArray that masks_hidden by simp
    with JArray show ?thesis by (auto simp: o_def intro!: masks_items)
  next
    case (JObject entries)
    define f where "f = (\<lambda>(name, m). if step \<noteq> ''*'' \<and> name \<noteq> step then (m, [])
              else if rest = [] then (hidden m, [(path_leaf lt name (step = ''*'') scope, m)])
              else if rest = [''*''] \<and> is_header_map lt name then header_values lt m
              else secret_at lt scope rest m)"
    have "masks (snd e) (fst (f e))" if "e \<in> set entries" for e
      using 2 JObject that masks_hidden masks_header_values by (cases e) (auto simp: f_def)
    then have "masks v (JObject (map (\<lambda>e. (fst e, fst (f e))) entries))"
      using masks_members JObject by simp
    with JObject show ?thesis by (simp add: f_def Let_def o_def case_prod_unfold)
  qed simp_all
qed simp

lemma masks_at_paths: "masks v (fst (at_paths lt scope ps v))"
proof (induction ps arbitrary: v)
  case (Cons p ps)
  show ?case using masks_secret_at [of v lt scope p] Cons.IH [of "fst (secret_at lt scope p v)"]
    by (auto split: prod.split intro: masks_trans)
qed simp

lemma masks_each_row: "(\<And>w. masks w (fst (f w))) \<Longrightarrow> masks v (fst (each_row_of f v))"
  by (cases v) (auto simp: each_row_of_def intro: masks_items)

lemma masks_at_data:
  assumes "\<And>w. masks w (fst (f w))"
  shows "at_data f entries = (entries', hs) \<Longrightarrow> (n, m') \<in> set entries' \<Longrightarrow> \<exists>m. (n, m) \<in> set entries \<and> masks m m'"
proof (induction entries arbitrary: entries' hs)
  case (Cons e entries)
  then show ?case using assms [of "snd e"] masks_same
    by (cases e) (fastforce split: if_splits prod.splits)
qed simp

lemma masks_audit_at: "masks v (fst (audit_at lt p v))"
proof -
  define f where "f = each_row_of (secret_at lt AuditPaths p)"
  have f: "masks w (fst (f w))" for w by (simp add: f_def masks_each_row masks_secret_at)
  obtain v' hs where v': "f v = (v', hs)" by fastforce
  show ?thesis
  proof (cases v')
    case (JObject entries)
    obtain entries' hs' where d: "at_data f entries = (entries', hs')" by fastforce
    then have "masks v' (JObject entries')"
      using masks_at_data [OF f d] JObject by (auto intro: masks_object)
    with v' JObject f [of v] d show ?thesis
      by (auto simp: audit_at_def f_def [symmetric] intro: masks_trans)
  qed (use f [of v] v' in \<open>simp_all add: audit_at_def f_def [symmetric]\<close>)
qed

lemma masks_audit_hits: "masks v (fst (audit_hits lt ps v))"
proof (induction ps arbitrary: v)
  case (Cons p ps)
  show ?case using masks_audit_at [of v lt p] Cons.IH [of "fst (audit_at lt p v)"]
    by (auto split: prod.split intro: masks_trans)
qed simp

section \<open>The walkers mask\<close>

lemma masks_visit: "masks v (fst (visit_doc R t v))"
proof (induction R t v rule: visit_doc.induct)
  case (2 R w v)
  show ?case
  proof (cases v)
    case (JString s)
    with 2 show ?thesis
      by (auto simp: visit_doc.simps masks_reprinted masks_plain_text split: option.split prod.split)
  next
    case (JArray items)
    with 2 show ?thesis by (auto simp: visit_doc.simps intro: masks_rebuilt_items)
  next
    case (JObject entries)
    with 2 show ?thesis
      using masks_rebuilt [of entries "\<lambda>e. case visit_doc R (walk_task (gr_letters R) w entries (fst e) (snd e)) (snd e) of
          (m, regs) \<Rightarrow> (m, walk_found (gr_letters R) w entries (snd e) regs)"]
      by (simp add: visit_doc.simps case_prod_unfold)
  qed (simp_all add: visit_doc.simps)
next
  case (3 R leaf v)
  show ?case by (cases v) (auto simp: visit_doc.simps split: prod.split)
next
  case (4 R w v)
  show ?case
  proof (cases v)
    case (JString s)
    with 4 show ?thesis
      by (auto simp: visit_doc.simps masks_reprinted unreadable_text_def split: option.split prod.split)
  next
    case (JArray items)
    with 4 show ?thesis by (auto simp: visit_doc.simps intro: masks_rebuilt_items)
  next
    case (JObject entries)
    with 4 show ?thesis by (auto simp: visit_doc.simps intro: masks_rebuilt)
  qed (simp_all add: visit_doc.simps)
next
  case (5 R credential v)
  then show ?case by (auto simp: visit_doc.simps split: prod.split intro: masks_trans masks_described)
next
  case (9 R v)
  obtain v' hs where "audit_hits (gr_letters R) (audit_paths R) v = (v', hs)" by fastforce
  with 9 masks_audit_hits [of v "gr_letters R" "audit_paths R"] show ?case
    by (auto simp: visit_doc.simps split: prod.split intro: masks_trans)
qed (auto simp: visit_doc.simps intro: masks_rebuilt masks_rebuilt_items split: json.split)

end
