(* ===== verification/WithholdProps.thy ===== *)
theory WithholdProps
  imports WithholdMask SecretsCorrect
begin

text \<open>
  What the withholding policy promises of a printed document: it only masks, the SDK's secret paths
  lead to nothing readable, no text carries a registered secret, a credential found by its name is
  registered and printed nowhere, the walker's print does not depend on the values it hides, and
  unrevealed audit fields stay unread.
\<close>

section \<open>Registration\<close>

lemma register_found_forms:
  assumes "r \<in> set found" "registrable r" "r \<noteq> []"
  shows "set (secret_forms enc r) \<subseteq> set (register_found enc found secrets)"
proof -
  have grow: "set forms \<subseteq> set (add_secret enc v forms)" for v forms
    by (auto simp: add_secret_def set_push_fold)
  have fold_grow: "set forms \<subseteq> set (foldl (\<lambda>fs r. add_secret enc r fs) forms rs)" for rs forms
    using grow by (induction rs arbitrary: forms) (auto, blast)
  have "set (secret_forms enc r) \<subseteq> set (foldl (\<lambda>fs r. add_secret enc r fs) forms rs)"
    if "r \<in> set rs" for rs forms
    using that
  proof (induction rs arbitrary: forms)
    case (Cons a rs)
    show ?case
    proof (cases "r = a")
      case True
      then show ?thesis using add_secret_forms [OF assms(3)] fold_grow by fastforce
    qed (use Cons in auto)
  qed simp
  then show ?thesis using assms(1,2) by (simp add: register_found_def)
qed

lemma register_found_keeps: "set secrets \<subseteq> set (register_found enc found secrets)"
proof -
  have "set forms \<subseteq> set (foldl (\<lambda>fs r. add_secret enc r fs) forms rs)" for rs forms
  proof (induction rs arbitrary: forms)
    case (Cons a rs)
    have "set forms \<subseteq> set (add_secret enc a forms)" by (auto simp: add_secret_def set_push_fold)
    with Cons show ?case by fastforce
  qed simp
  then show ?thesis by (simp add: register_found_def)
qed

lemma registrable_nonempty: "registrable s \<Longrightarrow> s \<noteq> []"
proof
  assume "registrable s" "s = []"
  moreover have "\<not> registrable []" by code_simp
  ultimately show False by simp
qed

lemma registrable_not_mark: "registrable s \<Longrightarrow> s \<noteq> withheld"
proof
  assume "registrable s" "s = withheld"
  moreover have "contains withheld withheld" unfolding withheld_def by code_simp
  ultimately show False by (simp add: registrable_def Let_def)
qed

section \<open>What a document shows\<close>

text \<open>The texts of a document: its strings but the mark, and the names of its members.\<close>

fun shown_texts :: "json \<Rightarrow> str list" where
  "shown_texts (JString s) = (if s = withheld then [] else [s])"
| "shown_texts (JArray items) = concat (map shown_texts items)"
| "shown_texts (JObject entries) = concat (map (\<lambda>(name, m). name # shown_texts m) entries)"
| "shown_texts JNull = []"
| "shown_texts (JBool b) = []"
| "shown_texts (JNumber n) = []"

definition prints :: "json \<Rightarrow> str \<Rightarrow> bool" where
  "prints doc form = list_ex (\<lambda>t. contains t form) (shown_texts doc)"

lemma carried_by_iff: "carried_by secrets s \<longleftrightarrow> (\<exists>form \<in> set secrets. contains s form)"
  by (simp add: carried_by_def found_in_iff)

lemma withhold_carried_prints:
  "form \<in> set secrets \<Longrightarrow> t \<in> set (shown_texts (withhold_carried secrets v)) \<Longrightarrow> \<not> contains t form"
proof (induction secrets v rule: withhold_carried.induct)
  case (1 secrets s)
  then show ?case by (auto simp: carried_by_iff split: if_splits)
next
  case (2 secrets entries)
  then show ?case by (fastforce simp: carried_by_iff)
qed auto

section \<open>Credentials found by their name\<close>

text \<open>
  A document holds the credential \<open>s\<close>: as the text of a member the action table withholds and
  registers, inside a member of another class, an item, or a JSON document held as text. (Pairs,
  header maps, counts and schemas have rules of their own.)
\<close>

inductive holds_credential :: "gateway_rules \<Rightarrow> json \<Rightarrow> str \<Rightarrow> bool" for R where
  holds_named: "pair_of es = None \<Longrightarrow> (n, JString s) \<in> set es \<Longrightarrow>
    action_of (class_of_member (gr_letters R) n (secret_located (gr_letters R) es))
      (shape_of (gr_letters R) (JString s)) = Withhold leaf \<Longrightarrow>
    registers_as (gr_letters R) leaf s \<Longrightarrow>
    \<not> repeats_a_mode (gr_letters R) s (mode_values (gr_letters R) (members_of es)) \<Longrightarrow>
    holds_credential R (JObject es) s"
| holds_member: "pair_of es = None \<Longrightarrow> (n, m) \<in> set es \<Longrightarrow> n \<noteq> ''properties'' \<Longrightarrow>
    class_of_member (gr_letters R) n (secret_located (gr_letters R) es) \<notin> {HeaderMap, Count} \<Longrightarrow>
    holds_credential R m s \<Longrightarrow> holds_credential R (JObject es) s"
| holds_item: "m \<in> set items \<Longrightarrow> holds_credential R m s \<Longrightarrow> holds_credential R (JArray items) s"
| holds_text: "json_document R t = Some doc \<Longrightarrow> holds_credential R doc s \<Longrightarrow> holds_credential R (JString t) s"

inductive_cases holds_stringE: "holds_credential R (JString t) s"
inductive_simps holds_simps [simp]:
  "holds_credential R JNull s" "holds_credential R (JBool b) s" "holds_credential R (JNumber n) s"

lemma holds_weight: "holds_credential R v s \<Longrightarrow> registrable s \<Longrightarrow> length s < weight v"
proof (induction rule: holds_credential.induct)
  case (holds_named es n s leaf)
  have "weight (JString s) < weight (JObject es)" by (rule weight_member [OF holds_named(2)])
  with registrable_not_mark [OF holds_named.prems] show ?case by simp
next
  case (holds_member es n m s)
  with weight_member [OF holds_member(2)] show ?case by linarith
next
  case (holds_item m items s)
  with weight_item [OF holds_item(1)] show ?case by linarith
next
  case (holds_text t doc s)
  with json_document_weight [OF holds_text(1)] show ?case by linarith
qed

lemma holds_not_text: "holds_credential R (JString t) s \<Longrightarrow> registrable s \<Longrightarrow> s \<noteq> t"
proof (erule holds_stringE)
  fix doc
  assume "json_document R t = Some doc" "holds_credential R doc s" "registrable s"
  with holds_weight json_document_weight have "length s < weight doc" "weight doc < weight (JString t)" by auto
  then show "s \<noteq> t" by (auto split: if_splits)
qed

lemma hide_finds:
  assumes "holds_credential R v s" "s \<in> set (snd (visit_doc R (Walk Names) v))"
  shows "s \<in> set (snd (visit_doc R (Hide leaf) v))"
  using assms
  by (cases v) (auto simp: visit_doc.simps text_task_def split: prod.splits option.splits elim!: holds_stringE)

lemma member_task_reads:
  assumes "pair_of es = None" "class_of_member lt n (secret_located lt es) \<notin> {HeaderMap, Count}"
    "n \<noteq> ''properties''" "m \<notin> {JNull} \<union> range JBool"
  shows "names_task lt es n m = Walk Names \<or> (\<exists>leaf. names_task lt es n m = Hide leaf)"
proof -
  have "shape_of lt m \<noteq> ShNull" "shape_of lt m \<noteq> ShBool"
    using assms(4) by (auto simp: shape_of_def split: json.splits if_splits)
  with assms(1-3) show ?thesis
    by (cases "class_of_member lt n (secret_located lt es)")
      (auto simp: names_task_def named_task_def action_of_def take_task_def)
qed

lemma walk_object_found:
  "s \<in> set (snd (visit_doc R (Walk Names) (JObject es))) \<longleftrightarrow>
   (\<exists>(n, m) \<in> set es. s \<in> set (without_mode (gr_letters R) es m
      (snd (visit_doc R (names_task (gr_letters R) es n m) m))))"
  by (force simp: visit_doc.simps rebuilt_def walk_task_def walk_found_def case_prod_unfold)

lemma holds_found:
  "holds_credential R v s \<Longrightarrow> registrable s \<Longrightarrow> s \<in> set (snd (visit_doc R (Walk Names) v))"
proof (induction rule: holds_credential.induct)
  case (holds_named es n s leaf)
  have "leaf \<noteq> LeafDescribing" using holds_named(3) by (auto simp: action_of_def split: if_splits)
  with holds_named registrable_not_mark
  have "s \<in> set (snd (visit_doc R (Hide leaf) (JString s)))"
    by (auto simp: visit_doc.simps registered_of_def)
  moreover have "names_task (gr_letters R) es n (JString s) = Hide leaf"
    using holds_named by (simp add: names_task_def named_task_def take_task_def is_object_def)
  ultimately have "s \<in> set (without_mode (gr_letters R) es (JString s)
      (snd (visit_doc R (names_task (gr_letters R) es n (JString s)) (JString s))))"
    using holds_named(5) by (simp add: without_mode_def)
  with holds_named(2) show ?case unfolding walk_object_found by blast
next
  case (holds_member es n m s)
  let ?task = "names_task (gr_letters R) es n m"
  have "m \<notin> {JNull} \<union> range JBool" using holds_member(5) by auto
  with member_task_reads holds_member have "s \<in> set (snd (visit_doc R ?task m))"
    using hide_finds by (metis (no_types, lifting))
  moreover have "as_str m = Some t \<Longrightarrow> s \<noteq> t" for t
    using holds_member(5,7) holds_not_text by (auto elim: as_str.elims)
  ultimately have "s \<in> set (without_mode (gr_letters R) es m (snd (visit_doc R ?task m)))"
    by (simp add: without_mode_def split: option.split)
  with holds_member(2) show ?case unfolding walk_object_found by blast
next
  case (holds_item m items s)
  then show ?case by (auto simp: visit_doc.simps rebuilt_items_def)
next
  case (holds_text t doc s)
  then show ?case by (auto simp: visit_doc.simps text_task_def split: prod.split)
qed

section \<open>Secret paths\<close>

text \<open>What a path leads to, and the rows of a document that is a list.\<close>

fun values_on :: "secret_path \<Rightarrow> json \<Rightarrow> json list" where
  "values_on [] v = [v]"
| "values_on (step # rest) v = (case v of
      JObject entries \<Rightarrow>
        concat (map (\<lambda>(n, m). if step = ''*'' \<or> n = step then values_on rest m else []) entries)
    | JArray items \<Rightarrow> if step = ''*'' then concat (map (values_on rest) items) else []
    | _ \<Rightarrow> [])"

definition rows_in :: "json \<Rightarrow> json list" where
  "rows_in v = (case v of JArray rows \<Rightarrow> rows | _ \<Rightarrow> [v])"

fun concealed :: "json \<Rightarrow> bool" where
  "concealed (JString s) = (s = withheld)"
| "concealed (JNumber n) = False"
| "concealed (JArray items) = False"
| "concealed (JObject entries) = False"
| "concealed JNull = True"
| "concealed (JBool b) = True"

lemma concealed_hidden: "concealed (hidden v)"
  by (simp add: hidden_def split: json.split)

lemma concealed_mark: "concealed (JString withheld)"
  by simp

lemma concealed_masks: "masks m m' \<Longrightarrow> concealed m \<Longrightarrow> concealed m'"
  by (induction rule: masks.induct) auto

lemma values_on_masks:
  "masks v w \<Longrightarrow> x' \<in> set (values_on p w) \<Longrightarrow> \<exists>x \<in> set (values_on p v). masks x x'"
proof (induction p arbitrary: v w)
  case (Cons step rest)
  from Cons.prems(1) show ?case
  proof (cases rule: masks.cases)
    case (masks_array xs ys)
    from Cons.prems(2) masks_array obtain y where "step = ''*''" "y \<in> set ys" "x' \<in> set (values_on rest y)"
      by (auto split: if_splits)
    then obtain i where i: "step = ''*''" "i < length ys" "x' \<in> set (values_on rest (ys ! i))"
      by (auto simp: in_set_conv_nth [of y])
    then have "masks (xs ! i) (ys ! i)" "i < length xs"
      using masks_array by (auto simp: list_all2_conv_all_nth)
    with Cons.IH i(3) obtain x where "x \<in> set (values_on rest (xs ! i))" "masks x x'" by blast
    with masks_array i(1) \<open>i < length xs\<close> show ?thesis by auto
  next
    case (masks_object fs es)
    from Cons.prems(2) masks_object obtain n m' where e: "(n, m') \<in> set fs" "step = ''*'' \<or> n = step"
      "x' \<in> set (values_on rest m')" by (auto split: if_splits)
    with masks_object obtain m where m: "(n, m) \<in> set es" "masks m m'" by blast
    with Cons.IH e(3) obtain x where "x \<in> set (values_on rest m)" "masks x x'" by blast
    with masks_object m(1) e(2) show ?thesis by (force split: if_splits)
  qed (use Cons.prems in auto)
qed simp

lemma header_values_conceal: "x \<in> set (values_on [''*''] (fst (header_values lt v))) \<Longrightarrow> concealed x"
proof (cases v)
  case (JArray items)
  have "concealed (fst (header_item_hits lt i))" for i
    by (auto simp: header_item_hits_def concealed_hidden blank_def split: option.splits json.splits)
  moreover assume "x \<in> set (values_on [''*''] (fst (header_values lt v)))"
  ultimately show ?thesis using JArray by (auto simp: header_values_def)
next
  case (JObject entries)
  assume "x \<in> set (values_on [''*''] (fst (header_values lt v)))"
  with JObject show ?thesis by (auto simp: header_values_def concealed_hidden)
qed (simp_all add: header_values_def)

lemma secret_at_conceals:
  "p \<noteq> [] \<Longrightarrow> x \<in> set (values_on p (fst (secret_at lt scope p v))) \<Longrightarrow> concealed x"
proof (induction lt scope p v rule: secret_at.induct)
  case (2 lt scope step rest v)
  show ?case
  proof (cases v)
    case (JArray items)
    with 2 show ?thesis by (auto simp: concealed_hidden split: if_splits)
  next
    case (JObject entries)
    define f where "f = (\<lambda>(name, m). if step \<noteq> ''*'' \<and> name \<noteq> step then (m, [])
              else if rest = [] then (hidden m, [(path_leaf lt name (step = ''*'') scope, m)])
              else if rest = [''*''] \<and> is_header_map lt name then header_values lt m
              else secret_at lt scope rest m)"
    have "fst (secret_at lt scope (step # rest) v) = JObject (map (\<lambda>e. (fst e, fst (f e))) entries)"
      using JObject by (simp add: f_def Let_def o_def case_prod_unfold)
    with 2(4) obtain n m where e: "(n, m) \<in> set entries" "step = ''*'' \<or> n = step"
      "x \<in> set (values_on rest (fst (f (n, m))))" by (fastforce split: if_splits)
    consider "rest = []" | "rest = [''*'']" "is_header_map lt n"
      | "rest \<noteq> []" "\<not> (rest = [''*''] \<and> is_header_map lt n)" by blast
    then show ?thesis
    proof cases
      case 1
      with e show ?thesis by (auto simp: f_def concealed_hidden)
    next
      case 2
      with e show ?thesis using header_values_conceal by (auto simp: f_def)
    next
      case 3
      with e have "x \<in> set (values_on rest (fst (secret_at lt scope rest m)))" by (auto simp: f_def)
      with 2(2) [OF JObject e(1) refl] 3 e(2) show ?thesis by blast
    qed
  qed (use 2 in simp_all)
qed simp

lemma at_paths_conceal:
  "p \<in> set ps \<Longrightarrow> p \<noteq> [] \<Longrightarrow> x \<in> set (values_on p (fst (at_paths lt scope ps v))) \<Longrightarrow> concealed x"
proof (induction ps arbitrary: v)
  case (Cons q ps)
  let ?v = "fst (secret_at lt scope q v)"
  have rest: "fst (at_paths lt scope (q # ps) v) = fst (at_paths lt scope ps ?v)"
    by (simp split: prod.split)
  show ?case
  proof (cases "p = q")
    case True
    from values_on_masks [OF masks_at_paths] Cons.prems(3) rest
    obtain y where "y \<in> set (values_on p ?v)" "masks y x" by metis
    with True Cons.prems(2) secret_at_conceals concealed_masks show ?thesis by metis
  next
    case False
    with Cons rest show ?thesis by auto
  qed
qed simp

lemma rows_in_masks:
  assumes "masks v w" "row' \<in> set (rows_in w)" "w \<noteq> JString withheld"
  shows "\<exists>row \<in> set (rows_in v). masks row row'"
  using assms(1)
proof (cases rule: masks.cases)
  case (masks_array xs ys)
  with assms(2) obtain i where "i < length ys" "row' = ys ! i"
    by (auto simp: rows_in_def in_set_conv_nth)
  with masks_array show ?thesis
    by (auto simp: rows_in_def list_all2_conv_all_nth intro!: bexI [of _ "xs ! i"])
qed (use assms in \<open>auto simp: rows_in_def masks_text masks_object\<close>)

lemma rows_in_single: "masks v w \<Longrightarrow> (\<And>rows. v \<noteq> JArray rows) \<Longrightarrow> rows_in w = [w]"
  by (erule masks.cases) (auto simp: rows_in_def split: json.split)

lemma policy_hits_conceal:
  assumes "p \<in> set (rule_paths R pol)" "p \<noteq> []" "row \<in> set (rows_in (fst (policy_hits R pol doc)))"
    "x \<in> set (values_on p row)"
  shows "concealed x"
proof -
  let ?f = "at_paths (gr_letters R) ResourcePaths (rule_paths R pol)"
  have "\<exists>w. row = fst (?f w)"
  proof (cases "\<exists>rows. doc = JArray rows")
    case True
    with assms(3) show ?thesis by (auto simp: policy_hits_def each_row_of_def rows_in_def)
  next
    case False
    then have "policy_hits R pol doc = ?f doc"
      by (auto simp: policy_hits_def each_row_of_def split: json.split)
    with False rows_in_single [OF masks_at_paths, of doc] assms(3) show ?thesis by fastforce
  qed
  with at_paths_conceal assms show ?thesis by blast
qed

section \<open>The whole policy\<close>

lemma apply_policy_split:
  "fst (apply_policy R enc pol doc secrets) = withhold_carried (snd (apply_policy R enc pol doc secrets))
     (fst (visit_doc R (Walk Names) (fst (policy_hits R pol doc))))"
  "snd (apply_policy R enc pol doc secrets) = register_found enc
     (hits_found R (snd (policy_hits R pol doc)) @ snd (visit_doc R (Walk Names) (fst (policy_hits R pol doc)))) secrets"
  by (simp_all add: apply_policy_def policy_walk_def Let_def split: prod.split)

lemma masks_policy_hits: "masks doc (fst (policy_hits R pol doc))"
  by (simp add: policy_hits_def masks_each_row masks_at_paths)

lemma masks_after_hits: "masks (fst (policy_hits R pol doc)) (fst (apply_policy R enc pol doc secrets))"
  unfolding apply_policy_split by (rule masks_trans [OF masks_visit masks_carried])

lemma policy_hits_plain: "policy_hits R plain_policy doc = (doc, [])"
proof -
  have "rule_paths R plain_policy = []"
    by (simp add: rule_paths_def sdk_paths_def plain_policy_def operations_policy_def case_prod_unfold)
  then show ?thesis
    by (auto simp: policy_hits_def each_row_of_def o_def split: json.split)
qed

section \<open>Documents that differ in hidden values\<close>

text \<open>
  Two documents are alike when they differ at most in values the name rule withholds: under a plain
  member the values are alike, under a credential's or a generic name both are anything but \<open>null\<close> or a
  boolean.
\<close>

inductive alike :: "gateway_rules \<Rightarrow> json \<Rightarrow> json \<Rightarrow> bool" for R where
  alike_same: "alike R v v"
| alike_items: "list_all2 (alike R) xs ys \<Longrightarrow> alike R (JArray xs) (JArray ys)"
| alike_members: "pair_of es = None \<Longrightarrow> pair_of fs = None \<Longrightarrow>
    list_all2 (\<lambda>e f. fst e = fst f \<and> fst e \<noteq> ''properties''
      \<and> (class_of_member (gr_letters R) (fst e) (secret_located (gr_letters R) es) = Plain
           \<and> alike R (snd e) (snd f)
         \<or> class_of_member (gr_letters R) (fst e) (secret_located (gr_letters R) es) \<in> {Generic, Credential, Member}
           \<and> snd e \<notin> {JNull} \<union> range JBool \<and> snd f \<notin> {JNull} \<union> range JBool)) es fs \<Longrightarrow>
    alike R (JObject es) (JObject fs)"

lemma hidden_by_name:
  assumes "pair_of es = None" "n \<noteq> ''properties''" "m \<notin> {JNull} \<union> range JBool"
    "class_of_member lt n (secret_located lt es) \<in> {Generic, Credential, Member}"
  shows "\<exists>leaf. names_task lt es n m = Hide leaf"
proof -
  have "shape_of lt m \<noteq> ShNull" "shape_of lt m \<noteq> ShBool"
    using assms(3) by (auto simp: shape_of_def split: json.splits if_splits)
  with assms show ?thesis by (auto simp: names_task_def named_task_def action_of_def take_task_def)
qed

lemma read_by_name:
  "pair_of es = None \<Longrightarrow> n \<noteq> ''properties'' \<Longrightarrow> class_of_member lt n (secret_located lt es) = Plain \<Longrightarrow>
   names_task lt es n m = Walk Names"
  by (simp add: names_task_def named_task_def action_of_def take_task_def)

lemma hide_prints_mark: "m \<notin> {JNull} \<union> range JBool \<Longrightarrow> fst (visit_doc R (Hide leaf) m) = JString withheld"
  by (cases m) (auto simp: visit_doc.simps split: prod.split)

lemma walk_object_prints:
  "fst (visit_doc R (Walk Names) (JObject es)) =
   JObject (map (\<lambda>e. (fst e, fst (visit_doc R (names_task (gr_letters R) es (fst e) (snd e)) (snd e)))) es)"
  by (simp add: visit_doc.simps rebuilt_def walk_task_def case_prod_unfold o_def)

lemma map_eq_list_all2: "list_all2 (\<lambda>x y. f x = g y) xs ys \<Longrightarrow> map f xs = map g ys"
  by (induction rule: list_all2_induct) auto

lemma alike_prints_alike:
  "alike R v w \<Longrightarrow> fst (visit_doc R (Walk Names) v) = fst (visit_doc R (Walk Names) w)"
proof (induction rule: alike.induct)
  case (alike_items xs ys)
  then have "map (\<lambda>i. fst (visit_doc R (Walk Names) i)) xs = map (\<lambda>i. fst (visit_doc R (Walk Names) i)) ys"
    by (intro map_eq_list_all2) (auto elim: list_all2_mono)
  then show ?case by (simp add: visit_doc.simps rebuilt_items_def o_def)
next
  case (alike_members es fs)
  let ?lt = "gr_letters R"
  have "map fst es = map fst fs"
    by (rule map_eq_list_all2 [OF list_all2_mono [OF alike_members(3)]]) auto
  then have located: "secret_located ?lt fs = secret_located ?lt es" by (simp add: secret_located_def)
  have "map (\<lambda>e. (fst e, fst (visit_doc R (names_task ?lt es (fst e) (snd e)) (snd e)))) es
      = map (\<lambda>e. (fst e, fst (visit_doc R (names_task ?lt fs (fst e) (snd e)) (snd e)))) fs"
  proof (rule map_eq_list_all2 [OF list_all2_mono [OF alike_members(3)]], goal_cases)
    case (1 e f)
    let ?cls = "class_of_member ?lt (fst e) (secret_located ?lt es)"
    from 1 consider (reads) "?cls = Plain" "fst (visit_doc R (Walk Names) (snd e)) = fst (visit_doc R (Walk Names) (snd f))"
      | (hides) "?cls \<in> {Generic, Credential, Member}" "snd e \<notin> {JNull} \<union> range JBool" "snd f \<notin> {JNull} \<union> range JBool"
      by blast
    then show ?case
    proof cases
      case reads
      from 1 have same: "fst e = fst f" "fst f \<noteq> ''properties''" by auto
      with reads alike_members(1,2) located show ?thesis by (simp add: read_by_name)
    next
      case hides
      then show ?thesis
        using 1 hidden_by_name [OF alike_members(1), of "fst e" "snd e" ?lt]
          hidden_by_name [OF alike_members(2), of "fst f" "snd f" ?lt] located hide_prints_mark by fastforce
    qed
  qed
  then show ?case unfolding walk_object_prints by simp
qed simp

section \<open>Audit records\<close>

text \<open>The request fields of the records of an audit log.\<close>

definition record_values :: "json \<Rightarrow> json list" where
  "record_values r = (case r of
      JObject entries \<Rightarrow> map snd (filter (\<lambda>e. fst e \<in> set audit_fields) entries) | _ \<Rightarrow> [])"

definition audit_values :: "json \<Rightarrow> json list" where
  "audit_values rows = (case rows of JArray records \<Rightarrow> concat (map record_values records) | _ \<Rightarrow> [])"

lemma record_values_iff:
  "x \<in> set (record_values r) \<longleftrightarrow> (\<exists>entries n. r = JObject entries \<and> (n, x) \<in> set entries \<and> n \<in> set audit_fields)"
  by (cases r) (force simp: record_values_def)+

lemma audit_values_iff:
  "x \<in> set (audit_values rows) \<longleftrightarrow>
   (\<exists>records entries n. rows = JArray records \<and> JObject entries \<in> set records \<and> (n, x) \<in> set entries
      \<and> n \<in> set audit_fields)"
  by (cases rows) (auto simp: audit_values_def record_values_iff)

definition unrevealed :: "json \<Rightarrow> bool" where
  "unrevealed m = (m = JNull \<or> m = JString withheld)"

lemma unrevealed_masks: "masks m m' \<Longrightarrow> unrevealed m \<Longrightarrow> unrevealed m'"
  by (auto simp: unrevealed_def masks_text_iff elim: masks.cases)

lemma audit_values_masks:
  assumes "masks v w" "x' \<in> set (audit_values w)"
  shows "\<exists>x \<in> set (audit_values v). masks x x'"
proof -
  obtain ys fs n where w: "w = JArray ys" "JObject fs \<in> set ys" "(n, x') \<in> set fs" "n \<in> set audit_fields"
    using assms(2) by (auto simp: audit_values_iff)
  from assms(1) w(1) obtain xs where xs: "v = JArray xs" "list_all2 masks xs ys"
    by (cases rule: masks.cases) (auto intro: list_all2_refl)
  from w(2) obtain i where i: "i < length ys" "ys ! i = JObject fs" by (auto simp: in_set_conv_nth)
  define r where "r = xs ! i"
  have r: "r \<in> set xs" "masks r (JObject fs)"
    using xs(2) i by (auto simp: r_def list_all2_conv_all_nth)
  from r(2) obtain es where "r = JObject es" "\<exists>m. (n, m) \<in> set es \<and> masks m x'"
    by (cases rule: masks.cases) (use w(3) in fastforce)+
  with r(1) xs(1) w(4) show ?thesis unfolding Bex_def audit_values_iff by blast
qed

lemma audit_field_unrevealed: "unrevealed (fst (audit_field R headers False m))"
  by (auto simp: audit_field_def unread_field_def unrevealed_def field_document_def
      split: option.splits prod.splits json.splits)

lemma audit_record_object:
  "fst (audit_record R reveal r) = JObject entries' \<Longrightarrow>
   \<exists>entries. r = JObject entries \<and> entries' = map (\<lambda>e. (fst e, fst (snd (audit_member R reveal e)))) entries"
  by (cases r) (auto simp: audit_record_def rebuilt_def audit_member_def)

lemma audit_records_unrevealed:
  assumes "x \<in> set (audit_values (fst (audit_records R False rows)))"
  shows "unrevealed x"
proof -
  from assms obtain records where rows: "rows = JArray records"
    by (cases rows) (auto simp: audit_values_iff audit_records_def)
  with assms obtain r entries' n where "JObject entries' = fst (audit_record R False r)" "(n, x) \<in> set entries'"
    "n \<in> set audit_fields"
    by (auto simp: audit_values_iff audit_records_def rebuilt_items_def)
  with audit_record_object [of R False r entries'] show ?thesis
    by (auto simp: audit_member_def audit_field_unrevealed)
qed

section \<open>Properties\<close>

definition ascii_letters :: letters where
  "ascii_letters = \<lparr>lt_alphabetic = (\<lambda>_. False), lt_numeric = (\<lambda>_. False), lt_upper = (\<lambda>_. False),
     lt_lower = (\<lambda>_. False), lt_lowered = (\<lambda>g. g)\<rparr>"

definition sample_rules :: gateway_rules where
  "sample_rules = \<lparr>gr_letters = ascii_letters, gr_reader = no_reader, gr_compact = (\<lambda>_. None),
     gr_number = (\<lambda>_. ''1''),
     gr_secret_fields = [(''ProvidersGet'', [[''credentials'', ''*'']])]\<rparr>"

definition sample_provider :: json where
  "sample_provider = JObject [(''credentials'', JObject [(''region'', JString ''eu'')])]"

definition sample_login :: "str \<Rightarrow> (str \<times> json) list" where
  "sample_login secret = [(''password'', JString secret), (''region'', JString ''eu'')]"

definition sample_note :: "str \<Rightarrow> json" where
  "sample_note secret = JArray [JObject (sample_login secret), JString (''use '' @ secret)]"

lemma sample_login_class:
  "class_of_member (gr_letters sample_rules) ''password'' (secret_located (gr_letters sample_rules) (sample_login s)) = Credential"
  "class_of_member (gr_letters sample_rules) ''region'' (secret_located (gr_letters sample_rules) (sample_login s)) = Plain"
  "pair_of (sample_login s) = None"
  by code_simp+

text \<open>C25: Where a secret path of the policy leads in a printed document, in the document itself or in a
  row of a list, there is nothing but \<open>null\<close>, a boolean or the mark.\<close>

theorem secret_paths_lead_to_nothing:
  assumes "p \<in> set (rule_paths R pol)" "p \<noteq> []" "row \<in> set (rows_in (fst (apply_policy R enc pol doc secrets)))"
  shows "list_all concealed (values_on p row)"
proof -
  have "concealed x" if x: "x \<in> set (values_on p row)" for x
  proof (cases "fst (apply_policy R enc pol doc secrets) = JString withheld")
    case True
    with assms(3) have "row = JString withheld" by (simp add: rows_in_def)
    with x assms(2) show ?thesis by (cases p) auto
  next
    case False
    from rows_in_masks [OF masks_after_hits assms(3) False]
    obtain w where w: "w \<in> set (rows_in (fst (policy_hits R pol doc)))" "masks w row" by blast
    with values_on_masks x obtain y where "y \<in> set (values_on p w)" "masks y x" by blast
    with policy_hits_conceal [OF assms(1,2) w(1)] concealed_masks show ?thesis by blast
  qed
  then show ?thesis by (simp add: list_all_iff)
qed

theorem secret_paths_lead_to_nothing_witness:
  "list_all concealed (values_on [''credentials'', ''*'']
     (fst (apply_policy sample_rules (\<lambda>s. s) (operations_policy [''ProvidersGet'']) sample_provider [])))"
proof (rule secret_paths_lead_to_nothing)
  show "[''credentials'', ''*''] \<in> set (rule_paths sample_rules (operations_policy [''ProvidersGet'']))"
    by (simp add: rule_paths_def sdk_paths_def operations_policy_def sample_rules_def)
  have "masks sample_provider (fst (apply_policy sample_rules (\<lambda>s. s) (operations_policy [''ProvidersGet'']) sample_provider []))"
    by (rule masks_trans [OF masks_policy_hits masks_after_hits])
  then show "fst (apply_policy sample_rules (\<lambda>s. s) (operations_policy [''ProvidersGet'']) sample_provider [])
      \<in> set (rows_in (fst (apply_policy sample_rules (\<lambda>s. s) (operations_policy [''ProvidersGet'']) sample_provider [])))"
    by (simp add: rows_in_single sample_provider_def)
qed simp

text \<open>No text of a printed document, and no member name, carries any form of a secret of the set:
  those known before and those the document's own credentials added.\<close>

lemma printed_document_shows_no_secret:
  assumes "form \<in> set (snd (apply_policy R enc pol doc secrets))"
  shows "\<not> prints (fst (apply_policy R enc pol doc secrets)) form"
  using withhold_carried_prints [OF assms] by (auto simp: prints_def apply_policy_split(1) list_ex_iff)

text \<open>C24: A credential the name rule finds, at any depth of a document and in JSON documents held as text,
  is shown nowhere in the printed document, neither itself nor encoded, under whatever name its echo
  stands.\<close>

theorem found_credential_is_printed_nowhere:
  assumes "holds_credential R doc s" "registrable s" "form \<in> set (secret_forms enc s)"
  shows "\<not> prints (fst (apply_policy R enc plain_policy doc secrets)) form"
proof -
  have "s \<in> set (snd (visit_doc R (Walk Names) doc))" using assms(1,2) by (rule holds_found)
  then have "form \<in> set (snd (apply_policy R enc plain_policy doc secrets))"
    using register_found_forms [OF _ assms(2) registrable_nonempty] assms(2,3)
    by (fastforce simp: apply_policy_split(2) policy_hits_plain hits_found_def)
  then show ?thesis by (rule printed_document_shows_no_secret)
qed

theorem found_credential_is_printed_nowhere_witness:
  "\<not> prints (fst (apply_policy sample_rules (\<lambda>s. s) plain_policy (sample_note ''dragonfly'') [])) ''dragonfly''"
proof (rule found_credential_is_printed_nowhere)
  show fine: "registrable ''dragonfly''" by code_simp
  have "holds_credential sample_rules (JObject (sample_login ''dragonfly'')) ''dragonfly''"
  proof (rule holds_named [OF sample_login_class(3)])
    show "(''password'', JString ''dragonfly'') \<in> set (sample_login ''dragonfly'')" by (simp add: sample_login_def)
    have "shape_of (gr_letters sample_rules) (JString ''dragonfly'') = PlainString" by code_simp
    then show "action_of (class_of_member (gr_letters sample_rules) ''password'' (secret_located (gr_letters sample_rules)
        (sample_login ''dragonfly''))) (shape_of (gr_letters sample_rules) (JString ''dragonfly'')) = Withhold LeafCredential"
      by (simp add: sample_login_class action_of_def)
    have "\<not> is_date ''dragonfly'' \<and> password_look \<le> char_count (rust_trim ''dragonfly'')" by code_simp
    with fine show "registers_as (gr_letters sample_rules) LeafCredential ''dragonfly''"
      by (simp add: registers_as_def registers_whole_def)
    show "\<not> repeats_a_mode (gr_letters sample_rules) ''dragonfly''
        (mode_values (gr_letters sample_rules) (members_of (sample_login ''dragonfly'')))"
    proof -
      have "mode_values (gr_letters sample_rules) (members_of (sample_login ''dragonfly'')) = []" by code_simp
      then show ?thesis by (simp add: repeats_a_mode_def)
    qed
  qed
  then show "holds_credential sample_rules (sample_note ''dragonfly'') ''dragonfly''"
    unfolding sample_note_def by (rule holds_item [rotated]) simp
qed (simp add: secret_forms_def)

text \<open>C26: What the walker of names and texts prints does not depend on the values it withholds by name.\<close>

theorem print_is_blind_to_hidden_values:
  assumes "alike R v w"
  shows "fst (visit_doc R (Walk Names) v) = fst (visit_doc R (Walk Names) w)"
  using assms by (rule alike_prints_alike)

theorem print_is_blind_to_hidden_values_witness:
  "fst (visit_doc sample_rules (Walk Names) (JObject (sample_login ''dragonfly'')))
   = fst (visit_doc sample_rules (Walk Names) (JObject (sample_login ''another one'')))"
proof (rule print_is_blind_to_hidden_values, rule alike_members [OF sample_login_class(3) sample_login_class(3)])
  note cls = sample_login_class [of "''dragonfly''"]
  show "list_all2 (\<lambda>e f. fst e = fst f \<and> fst e \<noteq> ''properties''
      \<and> (class_of_member (gr_letters sample_rules) (fst e) (secret_located (gr_letters sample_rules) (sample_login ''dragonfly'')) = Plain
           \<and> alike sample_rules (snd e) (snd f)
         \<or> class_of_member (gr_letters sample_rules) (fst e) (secret_located (gr_letters sample_rules) (sample_login ''dragonfly''))
             \<in> {Generic, Credential, Member}
           \<and> snd e \<notin> {JNull} \<union> range JBool \<and> snd f \<notin> {JNull} \<union> range JBool))
     (sample_login ''dragonfly'') (sample_login ''another one'')"
    unfolding sample_login_def [of "''another one''"] by (subst (3) sample_login_def) (use cls in \<open>auto intro: alike_same\<close>)
qed

text \<open>C27: Without \<open>--reveal\<close> a request field of an audit record is printed as \<open>null\<close> or the mark, whatever
  the record holds.\<close>

theorem unrevealed_audit_fields_stay_unread:
  "list_all unrevealed (audit_values (fst (apply_audit R enc rows False secrets)))"
proof -
  obtain rows' found where r: "audit_records R False rows = (rows', found)" by fastforce
  have m: "masks rows' (fst (apply_audit R enc rows False secrets))"
    using masks_after_hits [of R plain_policy rows'] by (simp add: apply_audit_def r policy_hits_plain)
  have "unrevealed x" if x: "x \<in> set (audit_values (fst (apply_audit R enc rows False secrets)))" for x
  proof -
    from audit_values_masks [OF m x] obtain y where "y \<in> set (audit_values rows')" "masks y x" by blast
    with audit_records_unrevealed [of y R rows] r unrevealed_masks show ?thesis by auto
  qed
  then show ?thesis by (simp add: list_all_iff)
qed

text \<open>C28: Withholding only masks: every value of a printed document is the received one at its place, the
  mark, or a rewritten text; no member, item, number or boolean is added or changed.\<close>

theorem withholding_only_masks:
  "masks doc (fst (apply_policy R enc pol doc secrets))"
  using masks_trans [OF masks_policy_hits masks_after_hits] .

end
