(* ===== verification/Spec2Isabelle.thy ===== *)
theory Spec2Isabelle
  imports EngineDone BulkLaws BulkValid Names BulkScanSafe SecretsCorrect CsvRoundTrip ListingsCorrect PolicyProps TenantProps ExecProps CompareProps DlpProps DlpAccount WithholdProps
begin

text \<open>
  A development about the \<open>airs\<close> command line program (Rust, \<open>src/src/\<close>): the client of the
  Prisma AIRS services. Its core with state of its own is the bulk scan: a file of prompts is
  cut into chunks, posted to the service, polled and written as a CSV file, while a job state on
  disk records what was sent, so that a job cut off by a crash or a signal can be resumed
  without ever sending an accepted prompt twice. Around it stand the pieces every command
  shares: secrets that must not appear in output, error values and exit codes, time stamps,
  paths, temporary files and locks; the registry of tenants; the edits of a profile's policy; the
  restore of profiles and topics from a backup into another tenant; and the withholding of
  credentials in the documents of the gateway.

  How the parts work together. A command plans a job from its arguments and the input file
  (\<open>BulkInput\<close>, \<open>BulkPlan\<close>), takes the lock of the job (\<open>JobLock\<close>), claims the output file
  (\<open>BulkOutput\<close>) and saves the first state (\<open>Checkpoint\<close>). The engine (\<open>Engine\<close>) then saves each
  chunk as submitting (checkpoint C1), posts it, saves what was answered (C3), and polls the
  receipts; every result is saved with the CSV. \<open>resume-poll\<close> (\<open>BulkScan\<close>) opens a saved state,
  settles what was in flight and goes on.

  Theories, in the order they build on each other:

  \<^item> \<open>Prelude\<close>: results (\<open>Ok\<close>, \<open>Err\<close>), decimal numbers, strings as byte lists with their UTF-8 and
    UTF-16 lengths, splitting and stripping, \<open>terminal_safe\<close> (\<open>output.rs\<close>), saturating addition.
  \<^item> \<open>Secrets\<close> (\<open>secrets.rs\<close>): the Aho-Corasick matcher, the forms of a secret, \<open>taints\<close>, \<open>scrub\<close>;
    \<open>SecretsCorrect\<close> proves the matcher against plain occurrence and the scrubbing safe.
  \<^item> \<open>CliError\<close> (\<open>error.rs\<close>): error values, exit codes, texts, the description of SDK failures.
  \<^item> \<open>Clock\<close> (\<open>debug.rs\<close>): the calendar and ISO stamps; \<open>ClockCorrect\<close> proves the calendar.
  \<^item> \<open>BulkTypes\<close>, \<open>BulkInput\<close>, \<open>BulkPlan\<close>, \<open>BulkState\<close> (\<open>bulk/mod.rs\<close>, \<open>input.rs\<close>, \<open>plan.rs\<close>,
    \<open>state.rs\<close>): item states, ids, index ranges; line and CSV parsing; batches and chunks; the job
    state and \<open>validate\<close>, decided by the predicate \<open>valid_state\<close>.
  \<^item> \<open>KeyedStore\<close>: the contract of a keyed store as a locale, interpreted by the detection flags
    (\<open>BulkState\<close>) and by JSON objects (\<open>Json\<close>).
  \<^item> \<open>Paths\<close> (\<open>store/mod.rs\<close>): lexical normalisation and the locations of store and states.
  \<^item> \<open>World\<close>: programs with early returns over a state (\<open>prog\<close>), their triples, and the calls to the
    system, the clock and AIRS as functions of an arbitrary outside state, so that any of them
    may fail, be late or be changed by others at any time; the trace of the effects that matter.
  \<^item> \<open>Checkpoint\<close>, \<open>JobLock\<close>, \<open>BulkOutput\<close> (\<open>bulk/checkpoint.rs\<close>, \<open>lock.rs\<close>, \<open>output.rs\<close>,
    \<open>store/lock.rs\<close>, \<open>store/atomic.rs\<close>): every system call with its error path.
  \<^item> \<open>Correlate\<close>, \<open>Engine\<close> (\<open>bulk/engine.rs\<close>): classification of failures, correlation of responses,
    the submission and polling loops (their termination is proved with the definitions).
  \<^item> \<open>BulkScan\<close> (\<open>commands/bulk_scan.rs\<close>): \<open>plan\<close>, \<open>run\<close>, \<open>resume\<close> and their parts.
  \<^item> \<open>Protocol\<close>: what a life of a job may do, as a machine over the effects: it is the abstract
    specification. \<open>EngineSafe\<close>, \<open>BulkScanSafe\<close>: every run of the code is accepted by the machine.
    \<open>job_life\<close> (\<open>BulkScanSafe\<close>) composes \<open>run\<close> and \<open>resume\<close> into the sessions of one job, each cut off after
    any number of effects; a \<open>resume\<close> belongs to the life when \<open>open_job\<close> finds one of the states the
    sessions before may have left (\<open>on_disk_after\<close>), which \<open>life_goes_on\<close> shows can always happen.
    \<open>EngineDone\<close>: a run that ends without error is complete. \<open>BulkLaws\<close>, \<open>BulkValid\<close>,
    \<open>CsvRoundTrip\<close>, \<open>Names\<close>: the properties of the single operations.
  \<^item> \<open>Pagination\<close>, \<open>Walk\<close>, \<open>Listings\<close> (\<open>pagination.rs\<close>, \<open>walk.rs\<close>, \<open>dlp/walk.rs\<close> and the listings that
    walk pages in \<open>commands/runtime_dashboard.rs\<close>, \<open>supplychain/mod.rs\<close>, \<open>runtime/transfer/plan.rs\<close>): the
    page loops with their caps; \<open>WalkCorrect\<close>, \<open>ListingsCorrect\<close> bound them and say when a listing
    is complete.
  \<^item> \<open>ProfilePolicy\<close>, \<open>PolicyFlags\<close>, \<open>TopicPolicy\<close> (\<open>profile_policy.rs\<close>, \<open>policy.rs\<close>): the edits of the JSON of a
    security profile; \<open>PolicyCorrect\<close>, \<open>PolicyProps\<close>: what they change and that no panic is reached.
  \<^item> \<open>TenantConfig\<close> (\<open>tenant/config.rs\<close>): the schema of a tenant file, what may be read and
    written, what is shown. \<open>Store\<close> (\<open>store/mod.rs\<close>): the registry \<open>config.toml\<close> and the checked
    reads. \<open>TenantView\<close> (\<open>tenant/mod.rs\<close>): which tenant a command uses. \<open>StoreWrite\<close>
    (\<open>store/lock.rs\<close>, \<open>store/atomic.rs\<close>): the lock, atomic writes, transactions, the sweep of stale
    temporaries. \<open>TermInput\<close> (\<open>input.rs\<close>): prompts and piped values. \<open>TenantWrite\<close>
    (\<open>commands/tenant_write.rs\<close>): create, set, unset, switch and delete.
  \<^item> \<open>Disk\<close>: a meaning for the file calls of the store: names, inodes and descriptors, where any
    call may fail or be slow, a failed write leaves a prefix, and every state the files went
    through is kept, the states a crash of the program can leave. \<open>StoreLock\<close>: the wait for the lock
    ends on it. \<open>StoreSafe\<close>, \<open>StoreReads\<close>, \<open>StoreTx\<close>: what atomic writes, checked reads and
    transactions do to the files. \<open>StoreProps\<close>: what create and set leave.
  \<^item> \<open>TomlText\<close>: a reader of the fragment of TOML the store writes, independent of its writers;
    \<open>TomlCorrect\<close> proves that registry and tenant files read back. \<open>TenantProps\<close>: their properties.
  \<^item> \<open>PolicyCompare\<close> (\<open>runtime/transfer/policy.rs\<close>): the comparison of a requested policy with its read-back,
    with the server defaults it accepts; \<open>CompareProps\<close> says what a match means. \<open>JsonValue\<close>,
    \<open>TransferRules\<close>, \<open>RestorePlan\<close> (\<open>runtime/transfer/\<close>): the rules on the
    records of a transfer and the plan of a restore, topics, profiles and DLP names resolved.
    \<open>RestoreRun\<close>, \<open>RestoreExec\<close> (\<open>commands/profile_restore.rs\<close>, \<open>runtime/transfer/writes.rs\<close>): its
    execution, reads, writes and verification, over an arbitrary service; \<open>ExecCorrect\<close> holds the
    preconditions of its steps, \<open>ExecAccount\<close> which writes a step may send (\<open>follows\<close>, \<open>halted\<close> are the
    abstract specification), \<open>ExecProps\<close> what a run sends, reports and leaves open.
  \<^item> \<open>DlpSweep\<close>, \<open>DlpBackup\<close> (\<open>dlp/backup.rs\<close>): the page sweep of a DLP collection, the rules on
    its records, the selection of a backup with its dependencies, the document and its strict reader.
    \<open>DlpPlan\<close>, \<open>DlpPlanner\<close> (\<open>dlp/plan.rs\<close>): the echo comparison, the request bodies, name matching, the rows
    of a restore plan and the profile request under its bindings; \<open>DlpRemap\<close> says where the remapping
    of rule leaves writes and what the check for foreign ids finds, \<open>DlpProps\<close> what a plan and a
    remapped request promise. \<open>DlpRestore\<close> (\<open>commands/dlp_backup.rs\<close>): the inventories and the execution;
    \<open>DlpExec\<close> what its outcome says of the creates, \<open>DlpAccount\<close> which creates it may send and which items it
    accounts for.
  \<^item> \<open>WithholdNames\<close>, \<open>WithholdValues\<close> (\<open>gateway/withhold_rules/names.rs\<close>, \<open>values.rs\<close>): the classes of member
    names, headers and pairs, what of a value is registered, and the rules on texts. \<open>Withhold\<close>,
    \<open>WithholdWalk\<close> (\<open>gateway/withhold.rs\<close>, \<open>view.rs\<close>): the path rules and the walkers. The source's walkers call
    each other through a function pointer; they are one function \<open>visit_doc\<close> here, on a task: \<open>Walk Names\<close> is
    \<open>names_and_urls\<close>, \<open>Walk Audit\<close> is \<open>audit_walk\<close>, \<open>AuditDoc\<close> is \<open>audit_document\<close>, \<open>HeaderMapOf\<close> is \<open>header_map\<close>, \<open>Hide\<close> is
    \<open>withhold_value\<close>, \<open>Properties\<close> is \<open>property_map\<close>, \<open>SchemaOf\<close> is \<open>schema_property\<close>. It ends because a JSON text is
    longer than the document it holds (the type \<open>json_reader\<close> of the parser says so). \<open>WithholdMask\<close> says what the
    walkers may change at all, \<open>WithholdProps\<close> what a printed document promises.

  Correspondence. A Rust struct is a record, an enum a datatype with the same constructors, a
  \<open>Result\<close> a sum (\<open>Err\<close>, \<open>Ok\<close>), a method that mutates its receiver a function of the state or a
  program over it. Strings are lists of bytes. Numbers are naturals where the code's bounds
  keep them from wrapping (\<open>sat_add\<close> where it saturates), the state sequence is a 64 bit word.
  Loops over network answers are total: the submission loop is bounded by its retries, the
  polling loop by the prompts left, the rounds without progress and the waits. The wait for
  the store's lock has the fuel \<open>lock_fuel\<close>, its bound in steps of 100 ms and a few more rounds
  for a lock file that is replaced; \<open>lock_wait_ends\<close> proves that it never runs out.

  Not modelled: the serde codecs, the SDK's builders and encoders, the TOML and URL parsers, the
  HTTP transport and the file system itself are parameters (\<open>os\<close>, \<open>sdk\<close>, \<open>libs\<close>; \<open>writers\<close>, \<open>schemas\<close>
  and \<open>service\<close>, \<open>dlp_schemas\<close> and \<open>dlp_service\<close> in the transfers: how a number prints, the SDK's body types, AIRS itself), constrained
  nowhere unless a property says so (\<open>on_disk\<close> gives the file calls the meaning of \<open>Disk\<close>,
  \<open>reads_toml\<close> asks that the TOML parser reads the UTF-8 texts of the fragment of \<open>TomlText\<close> as the
  specification does, into tables in the byte order of their keys;
  a crash is one of the program, not of the machine, so \<open>Disk\<close> keeps no unsynced data);
  the JSON parser and printer of a DLP backup file; for the gateway documents the Unicode tables (\<open>letters\<close>), the
  JSON parser and printers and the SDK's table of secret paths (\<open>gateway_rules\<close>), and the checker that the
  tests run on printed documents (\<open>gateway/withhold_rules/check.rs\<close>); the terminal echo, the import of a TypeScript registry;
  process signals appear as the cancellation flag; the release of a lock by \<open>Drop\<close> on an early
  return (the flag of the lock file is released by the kernel either way), the terminal styling
  of the summary, the argument parser and the commands that make one call and print one view
  are left out. The components list of the manifest names every part left aside.
\<close>

section \<open>The life of a bulk job\<close>

text \<open>C1: whatever the file system, the clock and AIRS answer, the trace of a \<open>bulk-scan\<close>, stopped
  or finished, is the beginning of a life of a job: every effect is one the protocol accepts.\<close>

theorem run_is_a_life:
  "triple (on_trace (\<lambda>t. t = [])) (run E iv bp)
     (\<lambda>_. on_trace (\<lambda>t. \<exists>p. lives t p)) (on_trace (\<lambda>t. \<exists>p. lives t p))"
  by (rule triple_weaken [OF run_safe]) (auto simp: on_trace_def traced_lives)

text \<open>C2: whatever the file system, the clock and AIRS answer, a \<open>resume-poll\<close> that opens nothing has
  no effect, and one that opens a state does, stopped or finished, only what the protocol accepts from
  that state with every prompt that is not pending in it taken as sent: none of those is posted, and no
  state is saved that calls one of them pending.\<close>

theorem resume_goes_on_as_saved:
  "case fst (open_job E iv rp \<lparr>outside = x, trace = []\<rparr>) of
     Inl e \<Rightarrow> trace (snd (resume E iv rp \<lparr>outside = x, trace = []\<rparr>)) = []
   | Inr (j, rest) \<Rightarrow> (\<exists>q. executes (loaded (jb_state j) (not_pending (jb_state j)))
       (trace (snd (resume E iv rp \<lparr>outside = x, trace = []\<rparr>))) q)"
  using resume_traced [of "\<lparr>outside = x, trace = []\<rparr>" E iv rp] protects_not_pending
  by (auto simp: on_trace_def traced_def split: sum.splits prod.splits)

text \<open>C3: over the whole life of a job (a \<open>bulk-scan\<close> cut off after any number of its effects, then any
  resumes of the states it left, each cut off anywhere, under any behaviour of the outside world), a
  prompt is posted at most once more often than AIRS refused it: no prompt that may have been accepted
  is sent again.\<close>

theorem prompt_accepted_at_most_once:
  "posts_of i (fst (job_life E iv bp x n rs)) \<le> refusals_of i (fst (job_life E iv bp x n rs)) + 1"
  by (rule followed_posts [OF job_life_followed])

text \<open>C4: at every moment of such a life, no state that a crash may leave as the state file calls a
  prompt pending that was posted and not refused every time: a resume would find it sent.\<close>

theorem crash_never_reopens_a_prompt:
  "case job_life E iv bp x n rs of (evs, states) \<Rightarrow> list_all (remembers evs) states"
  using followed_remembers [OF job_life_followed, of E iv bp x n rs] by (simp add: case_prod_unfold)

end
